(* ===== verification/Prelude.thy ===== *)
theory Prelude
  imports
    Main
    "HOL-Library.AList"
    "HOL-Library.Char_ord"
    "HOL-Library.List_Lexorder"
    "HOL-Library.Multiset"
    "HOL-Library.Product_Lexorder"
    "HOL-Library.Sublist"
    "HOL-Library.Word"
begin

text \<open>
  Shared ground of the development: the parts of Go's standard library the gateway's code
  calls (bytes of strings, white space, splitting, instants and durations, wrap-around of
  64-bit integers, stable sorting), and the generic lemmas and simplification sets the
  component theories use.

  A Go \<open>string\<close> is a list of bytes, here a \<open>char list\<close> (a \<open>char\<close> is a byte). White space is
  Go's \<open>unicode.IsSpace\<close> on UTF-8 bytes. Case mapping (\<open>ToLower\<close>, \<open>ToUpper\<close>, \<open>EqualFold\<close>)
  is the ASCII part of Go's tables: bytes from 128 on are left as they are, so those
  three functions agree with Go on ASCII text.
\<close>

named_theorems strings "facts about the string operations of the prelude"
named_theorems preserved "operations keep the invariant of their component"

section \<open>Strings\<close>

subsection \<open>White space\<close>

text \<open>The UTF-8 encodings of the runes for which \<open>unicode.IsSpace\<close> holds.\<close>

definition space_runes :: "string list" where
  "space_runes =
     [[CHR 0x20], [CHR 0x09], [CHR 0x0A], [CHR 0x0B], [CHR 0x0C], [CHR 0x0D],
      [CHR 0xC2, CHR 0x85], [CHR 0xC2, CHR 0xA0], [CHR 0xE1, CHR 0x9A, CHR 0x80],
      [CHR 0xE2, CHR 0x80, CHR 0x80], [CHR 0xE2, CHR 0x80, CHR 0x81],
      [CHR 0xE2, CHR 0x80, CHR 0x82], [CHR 0xE2, CHR 0x80, CHR 0x83],
      [CHR 0xE2, CHR 0x80, CHR 0x84], [CHR 0xE2, CHR 0x80, CHR 0x85],
      [CHR 0xE2, CHR 0x80, CHR 0x86], [CHR 0xE2, CHR 0x80, CHR 0x87],
      [CHR 0xE2, CHR 0x80, CHR 0x88], [CHR 0xE2, CHR 0x80, CHR 0x89],
      [CHR 0xE2, CHR 0x80, CHR 0x8A], [CHR 0xE2, CHR 0x80, CHR 0xA8],
      [CHR 0xE2, CHR 0x80, CHR 0xA9], [CHR 0xE2, CHR 0x80, CHR 0xAF],
      [CHR 0xE2, CHR 0x81, CHR 0x9F], [CHR 0xE3, CHR 0x80, CHR 0x80]]"

function trim_by :: "string list \<Rightarrow> string \<Rightarrow> string" where
  "trim_by rs s =
     (case find (\<lambda>r. r \<noteq> [] \<and> prefix r s) rs of
        None \<Rightarrow> s
      | Some r \<Rightarrow> trim_by rs (drop (length r) s))"
  by pat_completeness auto
termination
proof (relation "measure (\<lambda>(rs, s). length s)", goal_cases)
  case 1
  show ?case by simp
next
  case (2 rs s r)
  then have "r \<noteq> []" and "prefix r s"
    by (auto simp: find_Some_iff)
  then show ?case
    by (auto simp: prefix_def)
qed

declare trim_by.simps [simp del]

text \<open>\<open>strings.TrimLeft\<close>/\<open>TrimRight\<close> restricted to white space, and \<open>strings.TrimSpace\<close>.\<close>

definition trim_space_left :: "string \<Rightarrow> string" where
  "trim_space_left s = trim_by space_runes s"

definition trim_space_right :: "string \<Rightarrow> string" where
  "trim_space_right s = rev (trim_by (map rev space_runes) (rev s))"

definition trim_space :: "string \<Rightarrow> string" where
  "trim_space s = trim_space_right (trim_space_left s)"

subsection \<open>Case\<close>

definition lower_char :: "char \<Rightarrow> char" where
  "lower_char c =
     (let n = (of_char c :: int) in if 65 \<le> n \<and> n \<le> 90 then char_of (n + 32) else c)"

definition upper_char :: "char \<Rightarrow> char" where
  "upper_char c =
     (let n = (of_char c :: int) in if 97 \<le> n \<and> n \<le> 122 then char_of (n - 32) else c)"

definition to_lower :: "string \<Rightarrow> string" where
  "to_lower s = map lower_char s"

definition to_upper :: "string \<Rightarrow> string" where
  "to_upper s = map upper_char s"

definition equal_fold :: "string \<Rightarrow> string \<Rightarrow> bool" where
  "equal_fold s t \<longleftrightarrow> to_lower s = to_lower t"

subsection \<open>Splitting, joining, cutting, trimming\<close>

text \<open>\<open>strings.Split(s, sep)\<close> for a one-byte separator; the result is never empty.\<close>

fun split_char :: "char \<Rightarrow> string \<Rightarrow> string list" where
  "split_char d [] = [[]]"
| "split_char d (c # cs) =
     (if c = d then [] # split_char d cs
      else (case split_char d cs of
              [] \<Rightarrow> [[c]]
            | w # ws \<Rightarrow> (c # w) # ws))"

text \<open>\<open>strings.Join\<close>.\<close>

fun join_with :: "string \<Rightarrow> string list \<Rightarrow> string" where
  "join_with sep [] = []"
| "join_with sep [w] = w"
| "join_with sep (w # ws) = w @ sep @ join_with sep ws"

text \<open>\<open>strings.Cut(s, sep)\<close> for a one-byte separator: \<open>None\<close> when it does not occur.\<close>

fun cut_char :: "char \<Rightarrow> string \<Rightarrow> (string \<times> string) option" where
  "cut_char d [] = None"
| "cut_char d (c # cs) =
     (if c = d then Some ([], cs)
      else map_option (\<lambda>(a, b). (c # a, b)) (cut_char d cs))"

text \<open>\<open>strings.TrimLeft\<close>, \<open>TrimRight\<close> and \<open>Trim\<close> with a one-byte cut set.\<close>

definition trim_left_char :: "char \<Rightarrow> string \<Rightarrow> string" where
  "trim_left_char d s = dropWhile (\<lambda>c. c = d) s"

definition trim_right_char :: "char \<Rightarrow> string \<Rightarrow> string" where
  "trim_right_char d s = rev (dropWhile (\<lambda>c. c = d) (rev s))"

definition trim_char :: "char \<Rightarrow> string \<Rightarrow> string" where
  "trim_char d s = trim_right_char d (trim_left_char d s)"

text \<open>\<open>strings.TrimSuffix\<close> and \<open>strings.TrimPrefix\<close>.\<close>

definition trim_suffix :: "string \<Rightarrow> string \<Rightarrow> string" where
  "trim_suffix s suf = (if suffix suf s then take (length s - length suf) s else s)"

definition trim_prefix :: "string \<Rightarrow> string \<Rightarrow> string" where
  "trim_prefix s pre = (if prefix pre s then drop (length pre) s else s)"

text \<open>\<open>strings.Contains\<close> and \<open>strings.ContainsAny\<close>.\<close>

definition contains :: "string \<Rightarrow> string \<Rightarrow> bool" where
  "contains s sub \<longleftrightarrow> sublist sub s"

definition contains_any :: "string \<Rightarrow> char list \<Rightarrow> bool" where
  "contains_any s cs \<longleftrightarrow> list_ex (\<lambda>c. List.member cs c) s"

subsection \<open>Facts about strings\<close>

lemma trim_by_idem [simp]: "trim_by rs (trim_by rs s) = trim_by rs s"
proof (induction rs s rule: trim_by.induct)
  case (1 rs s)
  show ?case
  proof (cases "find (\<lambda>r. r \<noteq> [] \<and> prefix r s) rs")
    case None
    then show ?thesis by (simp add: trim_by.simps [of rs s])
  next
    case (Some r)
    with 1 show ?thesis by (simp add: trim_by.simps [of rs s])
  qed
qed

lemma trim_by_suffix: "suffix (trim_by rs s) s"
proof (induction rs s rule: trim_by.induct)
  case (1 rs s)
  show ?case
  proof (cases "find (\<lambda>r. r \<noteq> [] \<and> prefix r s) rs")
    case None
    then show ?thesis by (simp add: trim_by.simps [of rs s])
  next
    case (Some r)
    with 1 have "suffix (trim_by rs (drop (length r) s)) (drop (length r) s)" by simp
    then have "suffix (trim_by rs (drop (length r) s)) s"
      using suffix_drop suffix_order.trans by blast
    with Some show ?thesis by (simp add: trim_by.simps [of rs s])
  qed
qed

lemma trim_by_id:
  assumes "\<And>r. r \<in> set rs \<Longrightarrow> r \<noteq> [] \<Longrightarrow> \<not> prefix r s"
  shows "trim_by rs s = s"
proof -
  have "find (\<lambda>r. r \<noteq> [] \<and> prefix r s) rs = None"
    using assms by (auto simp: find_None_iff)
  then show ?thesis by (simp add: trim_by.simps)
qed

lemma trim_by_no_prefix: "r \<in> set rs \<Longrightarrow> r \<noteq> [] \<Longrightarrow> \<not> prefix r (trim_by rs s)"
proof (induction rs s rule: trim_by.induct)
  case (1 rs s)
  show ?case
  proof (cases "find (\<lambda>r. r \<noteq> [] \<and> prefix r s) rs")
    case None
    then have "trim_by rs s = s" by (simp add: trim_by.simps)
    with None 1 show ?thesis by (auto simp: find_None_iff)
  next
    case (Some q)
    with 1 show ?thesis by (simp add: trim_by.simps [of rs s])
  qed
qed

lemma trim_by_Nil [simp]: "trim_by rs [] = []"
  by (rule trim_by_id) simp

lemma trim_space_Nil [simp]: "trim_space [] = []"
  by (simp add: trim_space_def trim_space_left_def trim_space_right_def)

lemma trim_space_right_prefix: "prefix (trim_space_right s) s"
  using trim_by_suffix [of "map rev space_runes" "rev s"]
  by (simp add: trim_space_right_def suffix_to_prefix)

lemma trim_space_idem [simp]: "trim_space (trim_space s) = trim_space s"
proof -
  let ?t = "trim_space_left s"
  have "trim_space_left (trim_space_right ?t) = trim_space_right ?t"
    unfolding trim_space_left_def
    by (rule trim_by_id)
      (metis trim_by_no_prefix trim_space_left_def trim_space_right_prefix prefix_order.trans)
  moreover have "trim_space_right (trim_space_right ?t) = trim_space_right ?t"
    by (simp add: trim_space_right_def)
  ultimately show ?thesis by (simp add: trim_space_def)
qed

lemma trim_space_left_length: "length (trim_space_left s) \<le> length s"
  using suffix_length_le [OF trim_by_suffix] by (simp add: trim_space_left_def)

lemma trim_space_length: "length (trim_space s) \<le> length s"
  using suffix_length_le [OF trim_by_suffix, of "map rev space_runes" "rev (trim_space_left s)"]
    trim_space_left_length [of s]
  by (simp add: trim_space_def trim_space_right_def)

lemma equal_fold_refl [simp]: "equal_fold s s"
  by (simp add: equal_fold_def)

lemma equal_fold_sym: "equal_fold s t \<longleftrightarrow> equal_fold t s"
  by (auto simp: equal_fold_def)

lemma equal_fold_trans: "equal_fold s t \<Longrightarrow> equal_fold t u \<Longrightarrow> equal_fold s u"
  by (simp add: equal_fold_def)

lemma to_lower_length [simp]: "length (to_lower s) = length s"
  by (simp add: to_lower_def)

lemma to_lower_append: "to_lower (s @ t) = to_lower s @ to_lower t"
  by (simp add: to_lower_def)

lemma lower_char_idem [simp]: "lower_char (lower_char c) = lower_char c"
  by (auto simp: lower_char_def Let_def)

lemma to_lower_idem [simp]: "to_lower (to_lower s) = to_lower s"
  by (simp add: to_lower_def)

text \<open>White space is not touched by the case mappings, so trimming commutes with them.\<close>

definition caseless :: "char \<Rightarrow> bool" where
  "caseless c \<longleftrightarrow> (let n = (of_char c :: int) in n < 65 \<or> 90 < n \<and> n < 97 \<or> 122 < n)"

lemma lower_char_caseless: "caseless x \<Longrightarrow> lower_char c = x \<longleftrightarrow> c = x"
  by (auto simp: lower_char_def caseless_def Let_def)

lemma space_runes_caseless: "list_all (list_all caseless) space_runes"
  by (simp add: space_runes_def caseless_def Let_def)

lemma prefix_map_eq:
  assumes "\<And>c x. x \<in> set r \<Longrightarrow> f c = x \<longleftrightarrow> c = x"
  shows "prefix r (map f s) \<longleftrightarrow> prefix r s"
  using assms
proof (induction r arbitrary: s)
  case Nil
  then show ?case by simp
next
  case (Cons x r)
  show ?case
  proof (cases s)
    case Nil
    then show ?thesis by simp
  next
    case [simp]: (Cons c t)
    have "x = f c \<longleftrightarrow> x = c"
      using Cons.prems [of x c] by auto
    moreover have "prefix r (map f t) \<longleftrightarrow> prefix r t"
      using Cons.IH Cons.prems by simp
    ultimately show ?thesis by simp
  qed
qed

lemma trim_by_map:
  assumes "\<And>r c x. r \<in> set rs \<Longrightarrow> x \<in> set r \<Longrightarrow> f c = x \<longleftrightarrow> c = x"
  shows "trim_by rs (map f s) = map f (trim_by rs s)"
  using assms
proof (induction rs s rule: trim_by.induct)
  case (1 rs s)
  have eq: "find (\<lambda>r. r \<noteq> [] \<and> prefix r (map f s)) rs = find (\<lambda>r. r \<noteq> [] \<and> prefix r s) rs"
    using 1(2) by (intro find_cong refl) (auto simp: prefix_map_eq)
  show ?case
  proof (cases "find (\<lambda>r. r \<noteq> [] \<and> prefix r s) rs")
    case None
    with eq show ?thesis by (simp add: trim_by.simps)
  next
    case (Some r)
    with eq 1 show ?thesis
      by (simp add: trim_by.simps [of rs s] trim_by.simps [of rs "map f s"] drop_map)
  qed
qed

lemma trim_space_to_lower [strings]: "trim_space (to_lower s) = to_lower (trim_space s)"
proof -
  have *: "\<And>r c x. r \<in> set space_runes \<Longrightarrow> x \<in> set r \<Longrightarrow> lower_char c = x \<longleftrightarrow> c = x"
    using space_runes_caseless by (simp add: list_all_iff lower_char_caseless)
  then have **: "\<And>r c x. r \<in> set (map rev space_runes) \<Longrightarrow> x \<in> set r \<Longrightarrow> lower_char c = x \<longleftrightarrow> c = x"
    by (metis imageE set_map set_rev)
  show ?thesis
    by (simp only: trim_space_def trim_space_left_def trim_space_right_def to_lower_def rev_map
        trim_by_map [OF *] trim_by_map [OF **])
qed

lemma to_lower_Nil_iff [simp]: "to_lower s = [] \<longleftrightarrow> s = []"
  by (simp add: to_lower_def)

lemma split_char_to_lower [strings]:
  "caseless d \<Longrightarrow> split_char d (to_lower s) = map to_lower (split_char d s)"
proof (induction s)
  case Nil
  then show ?case by (simp add: to_lower_def)
next
  case (Cons c s)
  then show ?case
    by (cases "split_char d s") (auto simp: to_lower_def lower_char_caseless)
qed

lemma trim_right_char_to_lower [strings]:
  "caseless d \<Longrightarrow> trim_right_char d (to_lower s) = to_lower (trim_right_char d s)"
  by (simp add: trim_right_char_def to_lower_def rev_map dropWhile_map comp_def lower_char_caseless)

lemma equal_fold_to_lower [strings]: "equal_fold p (to_lower s) \<longleftrightarrow> equal_fold p s"
  by (simp add: equal_fold_def)

lemma caseless_slash [simp]: "caseless (CHR ''/'')"
  by (simp add: caseless_def)

lemma split_char_not_Nil [simp]: "split_char d s \<noteq> []"
  by (induction s) (auto split: list.splits)

lemma split_char_no_sep: "w \<in> set (split_char d s) \<Longrightarrow> d \<notin> set w"
proof (induction s arbitrary: w)
  case Nil
  then show ?case by simp
next
  case (Cons c s)
  then show ?case
    by (cases "split_char d s") (auto split: if_splits)
qed

lemma split_char_join: "join_with [d] (split_char d s) = s"
proof (induction s)
  case Nil
  then show ?case by simp
next
  case (Cons c s)
  obtain w ws where ws: "split_char d s = w # ws"
    by (cases "split_char d s") auto
  with Cons show ?case by (cases ws) auto
qed

lemma split_char_append_sep:
  "d \<notin> set a \<Longrightarrow> split_char d (a @ d # b) = a # split_char d b"
  by (induction a) auto

lemma split_char_none: "d \<notin> set a \<Longrightarrow> split_char d a = [a]"
  by (induction a) auto

lemma cut_char_Some_iff:
  "cut_char d s = Some (a, b) \<longleftrightarrow> s = a @ d # b \<and> d \<notin> set a"
proof (induction s arbitrary: a)
  case Nil
  then show ?case by simp
next
  case (Cons c s)
  then show ?case by (cases a) auto
qed

lemma cut_char_None_iff: "cut_char d s = None \<longleftrightarrow> d \<notin> set s"
  by (induction s) auto

section \<open>Machine integers\<close>

text \<open>Go's \<open>int64\<close> (and \<open>int\<close> on the 64-bit targets) with its two's complement wrap-around.\<close>

definition wrap64 :: "int \<Rightarrow> int" where
  "wrap64 n = (n + 2 ^ 63) mod 2 ^ 64 - 2 ^ 63"

abbreviation max_int64 :: int where
  "max_int64 \<equiv> 9223372036854775807"

definition in_int64 :: "int \<Rightarrow> bool" where
  "in_int64 n \<longleftrightarrow> - 9223372036854775808 \<le> n \<and> n \<le> max_int64"

lemma wrap64_id: "in_int64 n \<Longrightarrow> wrap64 n = n"
  by (simp add: wrap64_def in_int64_def)

lemma wrap64_over:
  assumes "max_int64 < n" and "n \<le> 18446744073709551616 + max_int64"
  shows "wrap64 n = n - 18446744073709551616"
proof -
  let ?m = "n - 9223372036854775808"
  have "(n + 9223372036854775808) mod 18446744073709551616 = (?m + 18446744073709551616) mod 18446744073709551616"
    by (rule arg_cong [where f = "\<lambda>k. k mod 18446744073709551616"]) simp
  also have "\<dots> = ?m" using assms by (simp only: mod_add_self2) simp
  finally show ?thesis by (simp add: wrap64_def)
qed

lemma wrap64_range: "in_int64 (wrap64 n)"
proof -
  have "0 \<le> (n + 2 ^ 63) mod 2 ^ 64" and "(n + 2 ^ 63) mod 2 ^ 64 < (2 ^ 64 :: int)"
    by simp_all
  then show ?thesis by (simp add: wrap64_def in_int64_def)
qed

section \<open>Instants and durations\<close>

text \<open>
  A \<open>time.Time\<close> is its instant in nanoseconds since Go's zero time, so \<open>time.Time{}\<close> is 0.
  A \<open>time.Duration\<close> is a number of nanoseconds. \<open>Sub\<close> saturates at the bounds of \<open>int64\<close>.
\<close>

type_synonym time = int
type_synonym duration = int

abbreviation second :: duration where
  "second \<equiv> 1000000000"

abbreviation minute :: duration where
  "minute \<equiv> 60000000000"

abbreviation hour :: duration where
  "hour \<equiv> 3600000000000"

definition time_sub :: "time \<Rightarrow> time \<Rightarrow> duration" where
  "time_sub a b = max (- 9223372036854775808) (min max_int64 (a - b))"

lemma time_sub_less_iff:
  "- 9223372036854775808 < d \<Longrightarrow> d \<le> max_int64 \<Longrightarrow> time_sub a b < d \<longleftrightarrow> a - b < d"
  by (auto simp: time_sub_def)

lemma time_sub_greater_iff:
  "- 9223372036854775808 \<le> d \<Longrightarrow> d < max_int64 \<Longrightarrow> d < time_sub a b \<longleftrightarrow> d < a - b"
  by (auto simp: time_sub_def)

section \<open>Go maps\<close>

text \<open>
  A Go map whose length or whose iteration the code uses is an association list with distinct
  keys: \<open>map_of m k\<close> is \<open>m[k]\<close>, \<open>AList.update k v m\<close> is \<open>m[k] = v\<close>, \<open>AList.delete k m\<close> is
  \<open>delete(m, k)\<close>, \<open>length m\<close> is \<open>len(m)\<close>, and a loop that deletes entries is a \<open>filter\<close>.
\<close>

type_synonym ('k, 'v) gomap = "('k \<times> 'v) list"

declare map_of_eq_Some_iff [simp del] Some_eq_map_of_iff [simp del]

abbreviation distinct_keys :: "('k, 'v) gomap \<Rightarrow> bool" where
  "distinct_keys m \<equiv> distinct (map fst m)"

lemma distinct_keys_filter [simp]: "distinct_keys m \<Longrightarrow> distinct_keys (filter P m)"
  by (induction m) auto

lemma distinct_keys_update [simp]: "distinct_keys m \<Longrightarrow> distinct_keys (AList.update k v m)"
  by (rule distinct_update)

lemma distinct_keys_delete [simp]: "distinct_keys m \<Longrightarrow> distinct_keys (AList.delete k m)"
  by (rule distinct_delete)

lemma map_of_filter_keys:
  "distinct_keys m \<Longrightarrow>
   map_of (filter P m) k =
     (case map_of m k of None \<Rightarrow> None | Some v \<Rightarrow> if P (k, v) then Some v else None)"
  by (induction m) (auto split: option.splits simp: rev_image_eqI map_of_eq_None_iff)

lemma length_update_le: "length (AList.update k v m) \<le> Suc (length m)"
  by (induction m) auto

lemma length_update_new: "map_of m k = None \<Longrightarrow> length (AList.update k v m) = Suc (length m)"
  by (induction m) auto

lemma length_update_old: "map_of m k = Some w \<Longrightarrow> length (AList.update k v m) = length m"
  by (induction m) (auto split: if_splits)

lemma update_fresh_key: "k \<notin> fst ` set m \<Longrightarrow> AList.update k v m = m @ [(k, v)]"
  by (induction m) auto

lemma length_delete_le: "length (AList.delete k m) \<le> length m"
  by (simp add: AList.delete_eq)

lemma int_length_filter_le [intro]:
  "int (length xs) \<le> n \<Longrightarrow> int (length (filter P xs)) \<le> n"
  by (meson length_filter_le of_nat_mono order_trans)

lemma int_length_delete_le [intro]:
  "int (length m) \<le> n \<Longrightarrow> int (length (AList.delete k m)) \<le> n"
  by (meson length_delete_le of_nat_mono order_trans)

lemma map_of_filter_None [intro]: "map_of m k = None \<Longrightarrow> map_of (filter P m) k = None"
  by (induction m) (auto split: if_splits)

lemma in_set_map_of: "distinct_keys m \<Longrightarrow> (k, v) \<in> set m \<longleftrightarrow> map_of m k = Some v"
  by (simp add: map_of_eq_Some_iff)

lemma set_update_subset: "set (AList.update k v m) \<subseteq> insert (k, v) (set m)"
  by (induction m) auto

lemma in_set_updateD: "x \<in> set (AList.update k v m) \<Longrightarrow> x = (k, v) \<or> x \<in> set m"
  using set_update_subset by fastforce

lemma in_set_deleteD: "x \<in> set (AList.delete k m) \<Longrightarrow> x \<in> set m"
  by (auto simp: AList.delete_eq)

lemma set_delete_subset: "set (AList.delete k m) \<subseteq> set m"
  by (auto simp: AList.delete_eq)

section \<open>Stable sorting\<close>

text \<open>
  \<open>sort.SliceStable\<close> on up to 20 elements is an insertion sort: each element moves left
  past its neighbour while \<open>lt\<close> says so. The accumulator holds the sorted prefix in
  reverse. For a strict weak order any stable sort gives the same list, whose head is
  the one the locale below describes.
\<close>

fun insert_left :: "('a \<Rightarrow> 'a \<Rightarrow> bool) \<Rightarrow> 'a \<Rightarrow> 'a list \<Rightarrow> 'a list" where
  "insert_left lt x [] = [x]"
| "insert_left lt x (y # ys) =
     (if lt x y then y # insert_left lt x ys else x # y # ys)"

definition stable_sort :: "('a \<Rightarrow> 'a \<Rightarrow> bool) \<Rightarrow> 'a list \<Rightarrow> 'a list" where
  "stable_sort lt xs = rev (foldl (\<lambda>acc x. insert_left lt x acc) [] xs)"

lemma mset_insert_left [simp]: "mset (insert_left lt x ys) = add_mset x (mset ys)"
  by (induction ys) auto

lemma set_insert_left [simp]: "set (insert_left lt x ys) = insert x (set ys)"
  by (induction ys) auto

lemma mset_foldl_insert_left:
  "mset (foldl (\<lambda>acc x. insert_left lt x acc) acc xs) = mset acc + mset xs"
  by (induction xs arbitrary: acc) auto

lemma mset_stable_sort [simp]: "mset (stable_sort lt xs) = mset xs"
  by (simp add: stable_sort_def mset_foldl_insert_left)

lemma set_stable_sort [simp]: "set (stable_sort lt xs) = set xs"
  by (metis mset_stable_sort set_mset_mset)

lemma length_stable_sort [simp]: "length (stable_sort lt xs) = length xs"
  by (metis mset_stable_sort size_mset)

lemma stable_sort_Nil_iff [simp]: "stable_sort lt xs = [] \<longleftrightarrow> xs = []"
  by (metis length_0_conv length_stable_sort)

lemma hd_stable_sort_in: "xs \<noteq> [] \<Longrightarrow> hd (stable_sort lt xs) \<in> set xs"
  by (metis hd_in_set set_stable_sort stable_sort_Nil_iff)

text \<open>
  The contract of a comparator: a strict weak order on the elements that satisfy \<open>ok\<close>.
  The client lemmas say what the head of the sorted list is.
\<close>

locale strict_weak_order =
  fixes lt :: "'a \<Rightarrow> 'a \<Rightarrow> bool" and ok :: "'a \<Rightarrow> bool"
  assumes irrefl: "ok x \<Longrightarrow> \<not> lt x x"
    and not_less_trans:
      "ok x \<Longrightarrow> ok y \<Longrightarrow> ok z \<Longrightarrow> \<not> lt y x \<Longrightarrow> \<not> lt z y \<Longrightarrow> \<not> lt z x"
    and asym: "ok x \<Longrightarrow> ok y \<Longrightarrow> lt x y \<Longrightarrow> \<not> lt y x"
begin

lemma sorted_insert_left:
  assumes "sorted_wrt (\<lambda>a b. \<not> lt a b) ys" and "ok x" and "\<forall>y \<in> set ys. ok y"
  shows "sorted_wrt (\<lambda>a b. \<not> lt a b) (insert_left lt x ys)"
  using assms
proof (induction ys)
  case Nil
  then show ?case by simp
next
  case (Cons y ys)
  from Cons.prems have y: "\<forall>z \<in> set ys. \<not> lt y z" by simp
  show ?case
  proof (cases "lt x y")
    case True
    with Cons y asym show ?thesis by auto
  next
    case False
    with y Cons.prems have "\<forall>z \<in> set ys. \<not> lt x z" by (meson list.set_intros not_less_trans)
    with False Cons.prems show ?thesis by simp
  qed
qed

lemma sorted_foldl_insert_left:
  "sorted_wrt (\<lambda>a b. \<not> lt a b) acc \<Longrightarrow> \<forall>y \<in> set acc. ok y \<Longrightarrow> \<forall>y \<in> set xs. ok y \<Longrightarrow>
   sorted_wrt (\<lambda>a b. \<not> lt a b) (foldl (\<lambda>acc x. insert_left lt x acc) acc xs)"
  by (induction xs arbitrary: acc) (auto simp: sorted_insert_left)

lemma sorted_stable_sort:
  "\<forall>y \<in> set xs. ok y \<Longrightarrow> sorted_wrt (\<lambda>a b. \<not> lt b a) (stable_sort lt xs)"
  using sorted_foldl_insert_left [of "[]" xs] by (simp add: stable_sort_def sorted_wrt_rev)

lemma hd_stable_sort_minimal:
  assumes "x \<in> set xs" and "\<forall>y \<in> set xs. ok y"
  shows "\<not> lt x (hd (stable_sort lt xs))"
proof -
  from assms have "x \<in> set (stable_sort lt xs)" by simp
  then obtain h t where ht: "stable_sort lt xs = h # t" and x: "x = h \<or> x \<in> set t"
    by (cases "stable_sort lt xs") auto
  from sorted_stable_sort [of xs] assms ht have "\<forall>y \<in> set t. \<not> lt y h" by simp
  with x ht irrefl assms show ?thesis by auto
qed

end

text \<open>
  A comparator that compares a key lexicographically is a strict weak order, and its
  minimum is unique up to the key.
\<close>

locale keyed_order =
  fixes lt :: "'a \<Rightarrow> 'a \<Rightarrow> bool" and ok :: "'a \<Rightarrow> bool" and key :: "'a \<Rightarrow> 'k :: linorder"
  assumes lt_key: "ok x \<Longrightarrow> ok y \<Longrightarrow> lt x y \<longleftrightarrow> key x < key y"

sublocale keyed_order \<subseteq> strict_weak_order lt ok
  by unfold_locales (auto simp: lt_key)

context keyed_order
begin

lemma hd_stable_sort_key_least:
  assumes "x \<in> set xs" and "\<forall>y \<in> set xs. ok y"
  shows "key (hd (stable_sort lt xs)) \<le> key x"
proof -
  from assms have "xs \<noteq> []" by auto
  then have "ok (hd (stable_sort lt xs))"
    using hd_stable_sort_in assms(2) by blast
  with hd_stable_sort_minimal [OF assms] lt_key assms show ?thesis by auto
qed

lemma hd_stable_sort_unique:
  assumes "set xs = set ys" and "inj_on key (set xs)" and "\<forall>y \<in> set xs. ok y" and "xs \<noteq> []"
  shows "hd (stable_sort lt xs) = hd (stable_sort lt ys)"
proof -
  let ?a = "hd (stable_sort lt xs)" and ?b = "hd (stable_sort lt ys)"
  from assms(1,4) have "ys \<noteq> []" by auto
  with assms hd_stable_sort_in have ab: "?a \<in> set xs" "?b \<in> set ys"
    by fast+
  with assms have "key ?a \<le> key ?b" and "key ?b \<le> key ?a"
    by (auto intro!: hd_stable_sort_key_least)
  with assms(1,2) ab show ?thesis by (auto dest: inj_onD)
qed

end

end
