(* ===== verification/Path_Policy.thy ===== *)
theory Path_Policy
  imports Prelude
begin

text \<open>
  \<open>internal/pathpolicy/pathpolicy.go\<close>: path patterns, the choice of the policy that decides
  a request, and the built-in deny catalogue. \<open>match_path\<close> is also what the route rules use.
\<close>

section \<open>Policies and decisions\<close>

record policy =
  pol_id :: string
  pol_method :: string
  pol_path :: string
  pol_action :: string
  pol_reason :: string
  pol_priority :: int
  pol_enabled :: bool
  pol_updated :: time

record decision =
  dec_allowed :: bool
  dec_action :: string
  dec_policy_id :: string
  dec_reason :: string

definition pol_deny :: "policy \<Rightarrow> bool" where
  "pol_deny p \<longleftrightarrow> equal_fold (pol_action p) ''deny''"

section \<open>Path patterns\<close>

definition is_letter :: "char \<Rightarrow> bool" where
  "is_letter c \<longleftrightarrow>
     (let n = (of_char c :: int) in 65 \<le> n \<and> n \<le> 90 \<or> 97 \<le> n \<and> n \<le> 122)"

definition is_digit :: "char \<Rightarrow> bool" where
  "is_digit c \<longleftrightarrow> (let n = (of_char c :: int) in 48 \<le> n \<and> n \<le> 57)"

definition parameter :: "string \<Rightarrow> bool" where
  "parameter s \<longleftrightarrow>
     (if length s < 3 \<or> hd s \<noteq> CHR ''{'' \<or> last s \<noteq> CHR ''}'' then False
      else (let s = butlast (tl s)
            in is_letter (hd s) \<and>
               list_all (\<lambda>c. is_letter c \<or> is_digit c \<or> c = CHR ''_'') (tl s)))"

definition normalize_path :: "string \<Rightarrow> string" where
  "normalize_path path =
     (let path = trim_space path
      in if path = [] \<or> path = ''/'' then path else trim_right_char (CHR ''/'') path)"

text \<open>The loop over the segments of two paths with the same number of segments.\<close>

fun match_segments :: "string list \<Rightarrow> string list \<Rightarrow> bool" where
  "match_segments (p # ps) (r # rs) =
     (if parameter p then (if r = [] then False else match_segments ps rs)
      else if \<not> equal_fold p r then False
      else match_segments ps rs)"
| "match_segments _ _ = True"

definition match_path :: "string \<Rightarrow> string \<Rightarrow> bool" where
  "match_path pattern path =
     (let pattern = trim_space pattern
      in if pattern = [] \<or> pattern = ''*'' then True
         else if suffix ''*'' pattern
         then prefix (to_lower (trim_suffix pattern ''*'')) (to_lower path)
         else (let ps = split_char (CHR ''/'') (normalize_path pattern);
                   rs = split_char (CHR ''/'') (normalize_path path)
               in length ps = length rs \<and> match_segments ps rs))"

definition method_matches :: "string \<Rightarrow> string \<Rightarrow> bool" where
  "method_matches policy request =
     (let policy = trim_space policy
      in policy = [] \<or> policy = ''*'' \<or> equal_fold policy request)"

definition normalized_identity :: "string \<Rightarrow> string \<Rightarrow> string \<times> string" where
  "normalized_identity method path =
     (to_upper (trim_space method), to_lower (normalize_path path))"

section \<open>The deciding policy\<close>

text \<open>The comparator given to \<open>sort.SliceStable\<close>.\<close>

definition policy_less :: "policy \<Rightarrow> policy \<Rightarrow> bool" where
  "policy_less p q =
     (if pol_action p \<noteq> pol_action q then equal_fold (pol_action p) ''deny''
      else if pol_priority p \<noteq> pol_priority q then pol_priority p > pol_priority q
      else if pol_method p \<noteq> pol_method q then pol_method p < pol_method q
      else if pol_path p \<noteq> pol_path q then pol_path p < pol_path q
      else pol_id p < pol_id q)"

definition policy_applies :: "string \<Rightarrow> string \<Rightarrow> policy \<Rightarrow> bool" where
  "policy_applies method path p \<longleftrightarrow>
     pol_enabled p \<and> method_matches (pol_method p) method \<and> match_path (pol_path p) path"

definition first_match :: "policy list \<Rightarrow> string \<Rightarrow> string \<Rightarrow> policy option" where
  "first_match policies method path =
     (let matched = filter (policy_applies method path) policies
      in if matched = [] then None else Some (hd (stable_sort policy_less matched)))"

definition decide :: "policy list \<Rightarrow> string \<Rightarrow> string \<Rightarrow> decision" where
  "decide policies method path =
     (case first_match policies method path of
        None \<Rightarrow> \<lparr>dec_allowed = True, dec_action = ''allow'', dec_policy_id = [], dec_reason = []\<rparr>
      | Some p \<Rightarrow>
          (if pol_deny p
           then \<lparr>dec_allowed = False, dec_action = ''deny'', dec_policy_id = pol_id p,
                 dec_reason = pol_reason p\<rparr>
           else \<lparr>dec_allowed = True, dec_action = ''allow'', dec_policy_id = pol_id p,
                 dec_reason = pol_reason p\<rparr>))"


section \<open>The built-in deny catalogue\<close>

definition add_policies :: "int \<Rightarrow> string \<Rightarrow> string \<Rightarrow> string list \<Rightarrow> policy list" where
  "add_policies priority reason method paths =
     map (\<lambda>path. \<lparr>pol_id = [], pol_method = method, pol_path = path, pol_action = ''deny'',
                  pol_reason = reason, pol_priority = priority, pol_enabled = True,
                  pol_updated = 0\<rparr>) paths"

definition defaults :: "policy list" where
  "defaults =
     add_policies 1000 ''account recovery'' ''POST''
       [''/Users/ForgotPassword'', ''/Users/ForgotPassword/Pin'', ''/Users/{id}/Password''] @
     add_policies 950 ''user administration'' ''POST''
       [''/Users/New'', ''/Users/{id}/Delete'', ''/Users/{id}/Policy'',
        ''/Users/{id}/Configuration'', ''/Users/{id}/Configuration/Partial'',
        ''/Users/{userId}/TypedSettings/{key}''] @
     add_policies 950 ''user administration'' ''DELETE'' [''/Users/{id}''] @
     add_policies 900 ''system mutation'' ''POST''
       [''/System/Restart'', ''/System/Shutdown'', ''/System/Configuration'',
        ''/System/Configuration/Partial'', ''/System/Configuration/{key}''] @
     add_policies 900 ''sensitive system read'' ''GET''
       [''/System/Configuration'', ''/System/Configuration/{key}'', ''/System/Logs/Query'',
        ''/System/Logs/{name}'', ''/System/Logs/{name}/Lines''] @
     add_policies 850 ''scheduled task mutation'' ''POST''
       [''/ScheduledTasks/{id}/Triggers'', ''/ScheduledTasks/Running/{id}'',
        ''/ScheduledTasks/Running/{id}/Delete''] @
     add_policies 850 ''scheduled task mutation'' ''DELETE'' [''/ScheduledTasks/Running/{id}''] @
     add_policies 850 ''plugin or package administration'' ''POST''
       [''/Plugins/{id}/Configuration'', ''/Plugins/{id}/Delete'',
        ''/Packages/Installed/{name}'', ''/Packages/Installing/{id}/Delete''] @
     add_policies 850 ''plugin or package administration'' ''DELETE''
       [''/Plugins/{id}'', ''/Packages/Installing/{id}''] @
     add_policies 850 ''plugin or package administration'' ''GET''
       [''/Plugins/{id}/Configuration''] @
     add_policies 800 ''destructive or library operation'' ''DELETE''
       [''/Items'', ''/Items/{id}''] @
     add_policies 800 ''destructive or library operation'' ''POST''
       [''/Items/Delete'', ''/Items/{id}/Delete'', ''/Library/Refresh'',
        ''/Library/Media/Updated'', ''/Library/Movies/Added'', ''/Library/Movies/Updated'',
        ''/Library/Series/Added'', ''/Library/Series/Updated''] @
     add_policies 800 ''destructive or library operation'' ''GET'' [''/Library/PhysicalPaths''] @
     add_policies 750 ''device administration'' ''DELETE'' [''/Devices''] @
     add_policies 750 ''device administration'' ''POST''
       [''/Devices/Delete'', ''/Devices/Options'', ''/Devices/CameraUploads'']"

section \<open>What the matcher decides\<close>

lemma match_segments_list_all2:
  "length ps = length rs \<Longrightarrow>
   match_segments ps rs \<longleftrightarrow>
     list_all2 (\<lambda>p r. if parameter p then r \<noteq> [] else equal_fold p r) ps rs"
  by (induction ps rs rule: list_induct2) auto

text \<open>
  The declarative reading of a pattern that does not end in a star: segment by segment, a
  parameter stands for one non-empty segment and any other segment for itself up to case.
\<close>

definition path_instance :: "string \<Rightarrow> string \<Rightarrow> bool" where
  "path_instance pattern path \<longleftrightarrow>
     list_all2 (\<lambda>p r. if parameter p then r \<noteq> [] else equal_fold p r)
       (split_char (CHR ''/'') (normalize_path pattern))
       (split_char (CHR ''/'') (normalize_path path))"

lemma match_path_iff:
  "match_path pattern path \<longleftrightarrow>
     trim_space pattern = [] \<or> trim_space pattern = ''*'' \<or>
     (if suffix ''*'' (trim_space pattern)
      then prefix (to_lower (trim_suffix (trim_space pattern) ''*'')) (to_lower path)
      else path_instance pattern path)"
proof -
  let ?ps = "split_char (CHR ''/'') (normalize_path pattern)"
  let ?rs = "split_char (CHR ''/'') (normalize_path path)"
  have "length ?ps = length ?rs \<and> match_segments ?ps ?rs \<longleftrightarrow> path_instance pattern path"
    using match_segments_list_all2 [of ?ps ?rs]
    by (auto simp only: path_instance_def dest: list_all2_lengthD)
  moreover have "normalize_path (trim_space pattern) = normalize_path pattern"
    by (simp add: normalize_path_def)
  ultimately show ?thesis
    unfolding match_path_def Let_def by (simp only: if_splits) blast
qed


section \<open>Letter case does not matter\<close>

lemma normalize_path_to_lower [strings]:
  "normalize_path (to_lower path) = to_lower (normalize_path path)"
proof -
  have "to_lower s = ''/'' \<longleftrightarrow> s = ''/''" for s
    by (cases s) (auto simp: to_lower_def lower_char_caseless)
  then show ?thesis
    by (simp add: normalize_path_def Let_def strings)
qed

lemma match_segments_to_lower: "match_segments ps (map to_lower rs) = match_segments ps rs"
  by (induction ps rs rule: match_segments.induct) (auto simp: strings)

lemma match_path_to_lower [strings]: "match_path pattern (to_lower path) = match_path pattern path"
  by (simp add: match_path_def Let_def strings match_segments_to_lower)

lemma method_matches_to_lower [strings]: "method_matches p (to_lower m) = method_matches p m"
  by (simp add: method_matches_def strings)

section \<open>The sort puts deny policies first\<close>

lemma pol_deny_literals [simp]:
  "equal_fold ''deny'' ''deny''" "\<not> equal_fold ''allow'' ''deny''"
  by code_simp+

lemma policy_less_deny:
  "policy_less p q \<Longrightarrow> pol_deny q \<Longrightarrow> pol_deny p"
  by (auto simp: policy_less_def pol_deny_def split: if_splits)

lemma policy_less_deny_nondeny:
  "pol_deny p \<Longrightarrow> \<not> pol_deny q \<Longrightarrow> policy_less p q"
  by (auto simp: policy_less_def pol_deny_def)

abbreviation deny_last :: "policy list \<Rightarrow> bool" where
  "deny_last \<equiv> sorted_wrt (\<lambda>a b. pol_deny a \<longrightarrow> pol_deny b)"

lemma insert_left_deny_last: "deny_last ys \<Longrightarrow> deny_last (insert_left policy_less x ys)"
proof (induction ys)
  case Nil
  then show ?case by simp
next
  case (Cons y ys)
  from Cons.prems have y: "\<forall>z \<in> set ys. pol_deny y \<longrightarrow> pol_deny z" and ys: "deny_last ys"
    by (auto simp only: sorted_wrt.simps)
  from Cons.IH [OF ys] have IH: "deny_last (insert_left policy_less x ys)" .
  show ?case
  proof (cases "policy_less x y")
    case True
    from policy_less_deny [OF True] y
    have "\<forall>z \<in> set (insert_left policy_less x ys). pol_deny y \<longrightarrow> pol_deny z"
      by (simp only: set_insert_left) blast
    with True IH show ?thesis by (simp only: insert_left.simps if_True sorted_wrt.simps)
  next
    case False
    with policy_less_deny_nondeny y
    have "\<forall>z \<in> set (y # ys). pol_deny x \<longrightarrow> pol_deny z"
      by (simp only: list.set) blast
    with False Cons.prems show ?thesis
      by (auto simp only: insert_left.simps if_False sorted_wrt.simps)
  qed
qed

lemma foldl_deny_last:
  "deny_last acc \<Longrightarrow> deny_last (foldl (\<lambda>acc x. insert_left policy_less x acc) acc xs)"
  by (induction xs arbitrary: acc) (auto simp: insert_left_deny_last)

lemma hd_policy_sort_deny:
  assumes "p \<in> set ps" and "pol_deny p"
  shows "pol_deny (hd (stable_sort policy_less ps))"
proof -
  have "sorted_wrt (\<lambda>a b. pol_deny b \<longrightarrow> pol_deny a) (stable_sort policy_less ps)"
    using foldl_deny_last [of "[]" ps] by (simp add: stable_sort_def sorted_wrt_rev)
  moreover from assms have "p \<in> set (stable_sort policy_less ps)" by simp
  ultimately show ?thesis
    using assms(2) by (cases "stable_sort policy_less ps") (auto simp only: sorted_wrt.simps list.set list.sel)
qed

lemma first_match_None_iff:
  "first_match ps m path = None \<longleftrightarrow> (\<forall>p \<in> set ps. \<not> policy_applies m path p)"
  by (simp add: first_match_def Let_def filter_empty_conv)

lemma first_match_SomeD:
  assumes "first_match ps m path = Some q"
  shows "q \<in> set ps" and "policy_applies m path q"
    and "q = hd (stable_sort policy_less (filter (policy_applies m path) ps))"
proof -
  let ?m = "filter (policy_applies m path) ps"
  from assms have ne: "?m \<noteq> []" and q: "q = hd (stable_sort policy_less ?m)"
    by (auto simp: first_match_def Let_def split: if_splits)
  from hd_stable_sort_in [OF ne, of policy_less] q show "q \<in> set ps" "policy_applies m path q"
    by auto
  from q show "q = hd (stable_sort policy_less ?m)" .
qed

text \<open>
  The collections store only the actions \<open>allow\<close> and \<open>deny\<close>; on those the comparator is
  the lexicographic order of this key.
\<close>

definition stored_policy :: "policy \<Rightarrow> bool" where
  "stored_policy p \<longleftrightarrow> pol_action p = ''deny'' \<or> pol_action p = ''allow''"

definition policy_key :: "policy \<Rightarrow> bool \<times> int \<times> string \<times> string \<times> string" where
  "policy_key p =
     (pol_action p \<noteq> ''deny'', - pol_priority p, pol_method p, pol_path p, pol_id p)"

lemma policy_less_key:
  assumes "stored_policy p" and "stored_policy q"
  shows "policy_less p q \<longleftrightarrow> policy_key p < policy_key q"
proof (cases "pol_action p = pol_action q")
  case True
  then show ?thesis by (auto simp: policy_less_def policy_key_def less_prod_def)
next
  case False
  with assms have "pol_action p = ''deny'' \<and> pol_action q = ''allow'' \<or>
      pol_action p = ''allow'' \<and> pol_action q = ''deny''"
    by (auto simp only: stored_policy_def)
  then show ?thesis
    by (elim disjE conjE) (simp_all add: policy_less_def policy_key_def less_prod_def)
qed

interpretation policy_order: keyed_order policy_less stored_policy policy_key
  by unfold_locales (rule policy_less_key)

section \<open>Properties\<close>

lemma decide_denied_iff:
  "dec_allowed (decide ps method path) \<longleftrightarrow>
     \<not> list_ex (\<lambda>p. policy_applies method path p \<and> pol_deny p) ps"
proof (cases "first_match ps method path")
  case None
  then have "\<not> list_ex (\<lambda>p. policy_applies method path p \<and> pol_deny p) ps"
    by (auto simp: list_ex_iff first_match_None_iff)
  with None show ?thesis by (simp add: decide_def)
next
  case (Some q)
  note q = first_match_SomeD [OF Some]
  have "pol_deny q \<longleftrightarrow> list_ex (\<lambda>p. policy_applies method path p \<and> pol_deny p) ps"
  proof
    show "pol_deny q \<Longrightarrow> list_ex (\<lambda>p. policy_applies method path p \<and> pol_deny p) ps"
      using q(1,2) by (auto simp: list_ex_iff)
    show "list_ex (\<lambda>p. policy_applies method path p \<and> pol_deny p) ps \<Longrightarrow> pol_deny q"
      unfolding q(3) by (auto simp: list_ex_iff intro: hd_policy_sort_deny)
  qed
  with Some show ?thesis by (simp add: decide_def)
qed

text \<open>
  C35: A request is denied exactly when some enabled policy that matches its method and path is
  a deny policy: no priority, order or number of allow policies overrides a deny.
\<close>

theorem decide_deny_overrides:
  "dec_allowed (decide ps method path) \<longleftrightarrow>
     \<not> list_ex (\<lambda>p. policy_applies method path p \<and> pol_deny p) ps"
  by (rule decide_denied_iff)

text \<open>
  Among stored policies (action allow or deny) the policy that decides a request is an
  enabled matching one, a deny before an allow, and among those of the same action one of
  highest priority.
\<close>

theorem first_match_best:
  assumes stored: "\<forall>p \<in> set ps. stored_policy p"
    and q: "first_match ps method path = Some q"
    and p: "p \<in> set ps" "policy_applies method path p"
  shows "policy_applies method path q \<and> policy_key q \<le> policy_key p \<and>
    (pol_action q = pol_action p \<longrightarrow> pol_priority p \<le> pol_priority q)"
proof -
  have le: "policy_key q \<le> policy_key p"
    unfolding first_match_SomeD(3) [OF q]
    using stored p by (intro policy_order.hd_stable_sort_key_least) auto
  then have "pol_action q = pol_action p \<longrightarrow> pol_priority p \<le> pol_priority q"
    by (auto simp: policy_key_def less_eq_prod_def less_prod_def)
  with le first_match_SomeD(2) [OF q] show ?thesis by blast
qed

text \<open>
  The letter case of the request path never changes the decision, so a denied path cannot
  be reached by another spelling of its letters.
\<close>

theorem decide_case_insensitive:
  "decide ps method (to_lower path) = decide ps method path"
  by (simp add: decide_def first_match_def policy_applies_def [abs_def] strings)


lemma first_match_best_witness:
  "let p = \<lparr>pol_id = ''a'', pol_method = ''GET'', pol_path = ''/Items/*'', pol_action = ''allow'',
             pol_reason = [], pol_priority = 9, pol_enabled = True, pol_updated = 0\<rparr>;
       q = \<lparr>pol_id = ''b'', pol_method = ''*'', pol_path = ''/Items/{id}'', pol_action = ''deny'',
             pol_reason = [], pol_priority = 1, pol_enabled = True, pol_updated = 0\<rparr>
   in first_match [p, q] ''GET'' ''/items/7/'' = Some q \<and> policy_key q \<le> policy_key p"
proof -
  define p where "p = \<lparr>pol_id = ''a'', pol_method = ''GET'', pol_path = ''/Items/*'',
    pol_action = ''allow'', pol_reason = [], pol_priority = 9, pol_enabled = True, pol_updated = 0\<rparr>"
  define q where "q = \<lparr>pol_id = ''b'', pol_method = ''*'', pol_path = ''/Items/{id}'',
    pol_action = ''deny'', pol_reason = [], pol_priority = 1, pol_enabled = True, pol_updated = 0\<rparr>"
  have 1: "\<forall>r \<in> set [p, q]. stored_policy r" by (simp add: p_def q_def stored_policy_def)
  have 2: "first_match [p, q] ''GET'' ''/items/7/'' = Some q" unfolding p_def q_def by code_simp
  have 3: "policy_applies ''GET'' ''/items/7/'' p" unfolding p_def by code_simp
  from first_match_best [OF 1 2 _ 3] 2 show ?thesis
    unfolding Let_def p_def [symmetric] q_def [symmetric] by simp
qed

lemma defaults_shape:
  "list_all (\<lambda>q. pol_enabled q \<and> pol_deny q \<and> trim_space (pol_method q) = pol_method q \<and>
     \<not> suffix ''*'' (trim_space (pol_path q))) defaults"
  by code_simp

text \<open>
  Once the built-in catalogue is installed, whatever else is stored beside it, every request
  that is an instance of one of its patterns (a parameter filled by one non-empty segment,
  letters in any case, slashes at the end ignored) with the method of that entry is denied.
\<close>

theorem defaults_enforced:
  assumes "set defaults \<subseteq> set ps" and "q \<in> set defaults"
    and "path_instance (pol_path q) path" and "equal_fold (pol_method q) method"
  shows "\<not> dec_allowed (decide ps method path)"
proof -
  from defaults_shape assms(2)
  have q: "pol_enabled q" "pol_deny q" "trim_space (pol_method q) = pol_method q"
    "\<not> suffix ''*'' (trim_space (pol_path q))"
    by (auto simp: list_all_iff)
  with assms(3,4) have "policy_applies method path q"
    by (simp add: policy_applies_def method_matches_def match_path_iff)
  with q(2) assms(1,2) show ?thesis
    by (auto simp: decide_denied_iff list_ex_iff)
qed

lemma defaults_enforced_witness:
  "\<not> dec_allowed (decide defaults ''post'' ''/users/42/PASSWORD//'')"
proof -
  have "defaults ! 2 \<in> set defaults" by (rule nth_mem) code_simp
  moreover have "path_instance (pol_path (defaults ! 2)) ''/users/42/PASSWORD//''" by code_simp
  moreover have "equal_fold (pol_method (defaults ! 2)) ''post''" by code_simp
  ultimately show ?thesis by (rule defaults_enforced [OF subset_refl])
qed

text \<open>
  Two patterns with one stored identity need not match the same paths: a slash after a star
  turns a prefix pattern into an exact one.
\<close>

lemma identity_not_matching:
  "normalized_identity ''GET'' ''/a*/'' = normalized_identity ''GET'' ''/a*'' \<and>
   match_path ''/a*'' ''/ab'' \<and> \<not> match_path ''/a*/'' ''/ab''"
  by code_simp

end
