(* ===== verification/Route_Policy.thy ===== *)
theory Route_Policy
  imports Path_Policy
begin

text \<open>
  \<open>internal/routepolicy/routepolicy.go\<close>: the rules that send a request to a named upstream
  endpoint. Rules match with \<open>match_path\<close> of the path policies and are ordered by priority,
  then by how specific they are.
\<close>

section \<open>Rules and requests\<close>

record route_rule =
  rr_id :: string
  rr_method :: string
  rr_path :: string
  rr_transport :: string
  rr_target :: string
  rr_priority :: int
  rr_enabled :: bool
  rr_reason :: string
  rr_updated :: time

record route_request =
  rq_method :: string
  rq_path :: string
  rq_transport :: string

definition transport_any :: string where "transport_any = []"
definition transport_http :: string where "transport_http = ''http''"
definition transport_websocket :: string where "transport_websocket = ''websocket''"

datatype rule_error = TargetRequired | PathRequired | BadTransport

definition rule_valid :: "route_rule \<Rightarrow> rule_error + unit" where
  "rule_valid r =
     (if trim_space (rr_target r) = [] then Inl TargetRequired
      else if trim_space (rr_path r) = [] then Inl PathRequired
      else (let t = to_lower (trim_space (rr_transport r))
            in if t = transport_any \<or> t = transport_http \<or> t = transport_websocket
               then Inr () else Inl BadTransport))"

section \<open>Normalisation and matching\<close>

definition normalize_transport :: "string \<Rightarrow> string" where
  "normalize_transport value =
     (let t = to_lower (trim_space value)
      in if t = transport_http \<or> t = transport_websocket then t else transport_any)"

definition normalize_method :: "string \<Rightarrow> string" where
  "normalize_method value =
     (let value = trim_space value
      in if value = [] \<or> value = ''*'' then ''*'' else to_upper value)"

definition pathpolicy_normalized_path :: "string \<Rightarrow> string" where
  "pathpolicy_normalized_path value =
     (let value = trim_space value
      in if value = [] \<or> value = ''/'' then value else trim_right_char (CHR ''/'') value)"

definition rule_identity :: "route_rule \<Rightarrow> string \<times> string \<times> string" where
  "rule_identity r =
     (normalize_method (rr_method r), to_lower (pathpolicy_normalized_path (rr_path r)),
      normalize_transport (rr_transport r))"

definition rule_method_matches :: "string \<Rightarrow> string \<Rightarrow> bool" where
  "rule_method_matches rule request =
     (let rule = trim_space rule in rule = [] \<or> rule = ''*'' \<or> equal_fold rule request)"

definition rule_path_matches :: "string \<Rightarrow> string \<Rightarrow> bool" where
  "rule_path_matches pattern path = match_path pattern path"

definition transport_matches :: "string \<Rightarrow> string \<Rightarrow> bool" where
  "transport_matches rule request =
     (let rule = normalize_transport rule in rule = transport_any \<or> rule = request)"

definition transport_specificity :: "string \<Rightarrow> int" where
  "transport_specificity value = (if normalize_transport value \<noteq> transport_any then 1 else 0)"

definition method_specificity :: "string \<Rightarrow> int" where
  "method_specificity value =
     (let value = trim_space value in if value \<noteq> [] \<and> value \<noteq> ''*'' then 1 else 0)"

definition pattern_specificity :: "string \<Rightarrow> int" where
  "pattern_specificity value = int (length (trim_space value))"

section \<open>Selection\<close>

text \<open>The comparator given to \<open>sort.SliceStable\<close>.\<close>

definition rule_less :: "route_rule \<Rightarrow> route_rule \<Rightarrow> bool" where
  "rule_less a b =
     (if rr_priority a \<noteq> rr_priority b then rr_priority a > rr_priority b
      else (let as = transport_specificity (rr_transport a);
                bs = transport_specificity (rr_transport b)
      in if as \<noteq> bs then as > bs
      else (let am = method_specificity (rr_method a); bm = method_specificity (rr_method b)
      in if am \<noteq> bm then am > bm
      else (let ap = pattern_specificity (rr_path a); bp = pattern_specificity (rr_path b)
      in if ap \<noteq> bp then ap > bp
      else if rr_path a \<noteq> rr_path b then rr_path a < rr_path b
      else rr_id a < rr_id b))))"

text \<open>The guards of the loop that collects the matching rules, for one rule.\<close>

definition rule_applies :: "route_request \<Rightarrow> route_rule \<Rightarrow> bool" where
  "rule_applies req r =
     (let transport = (let t = normalize_transport (rq_transport req)
                       in if t = [] then transport_http else t);
          m = trim_space (rq_method req)
      in if \<not> rr_enabled r then False
         else if \<not> rule_method_matches (rr_method r) m \<or> \<not> rule_path_matches (rr_path r) (rq_path req)
            \<or> \<not> transport_matches (rr_transport r) transport then False
         else True)"

definition select_rule :: "route_rule list \<Rightarrow> route_request \<Rightarrow> route_rule option" where
  "select_rule rules req =
     (let matched = filter (rule_applies req) rules
      in if matched = [] then None else Some (hd (stable_sort rule_less matched)))"

definition select :: "route_rule list \<Rightarrow> route_request \<Rightarrow> string" where
  "select rules req =
     (case select_rule rules req of None \<Rightarrow> [] | Some rule \<Rightarrow> rr_target rule)"

section \<open>The order of the rules\<close>

definition rule_key :: "route_rule \<Rightarrow> int \<times> int \<times> int \<times> int \<times> string \<times> string" where
  "rule_key r =
     (- rr_priority r, - transport_specificity (rr_transport r), - method_specificity (rr_method r),
      - pattern_specificity (rr_path r), rr_path r, rr_id r)"

interpretation rule_order: keyed_order rule_less "\<lambda>_. True" rule_key
  by unfold_locales (auto simp: rule_less_def rule_key_def Let_def less_prod_def)

lemma select_rule_None_iff:
  "select_rule rules req = None \<longleftrightarrow> \<not> list_ex (rule_applies req) rules"
  by (auto simp: select_rule_def Let_def filter_empty_conv list_ex_iff)

lemma select_rule_SomeD:
  assumes "select_rule rules req = Some r"
  shows "r \<in> set rules" and "rule_applies req r"
    and "r = hd (stable_sort rule_less (filter (rule_applies req) rules))"
proof -
  let ?m = "filter (rule_applies req) rules"
  from assms have ne: "?m \<noteq> []" and r: "r = hd (stable_sort rule_less ?m)"
    by (auto simp: select_rule_def Let_def split: if_splits)
  from hd_stable_sort_in [OF ne, of rule_less] r show "r \<in> set rules" "rule_applies req r"
    by auto
  from r show "r = hd (stable_sort rule_less ?m)" .
qed

lemma rule_less_least:
  assumes "select_rule rules req = Some r" and "q \<in> set rules" and "rule_applies req q"
  shows "rule_key r \<le> rule_key q"
  unfolding select_rule_SomeD(3) [OF assms(1)]
  using assms(2,3) by (intro rule_order.hd_stable_sort_key_least) auto

section \<open>Properties\<close>

text \<open>
  The selected rule is an enabled rule that matches the request, and no other enabled
  matching rule has a higher priority; at equal priority none is more specific in transport,
  then in method, then in the length of its pattern.
\<close>

theorem select_rule_best:
  assumes "select_rule rules req = Some r" and "q \<in> set rules" and "rule_applies req q"
  shows "r \<in> set rules \<and> rule_applies req r \<and>
    (rr_priority q < rr_priority r \<or> rr_priority q = rr_priority r \<and>
      (transport_specificity (rr_transport q) < transport_specificity (rr_transport r) \<or>
       transport_specificity (rr_transport q) = transport_specificity (rr_transport r) \<and>
       (method_specificity (rr_method q) < method_specificity (rr_method r) \<or>
        method_specificity (rr_method q) = method_specificity (rr_method r) \<and>
        pattern_specificity (rr_path q) \<le> pattern_specificity (rr_path r))))"
  using rule_less_least [OF assms] select_rule_SomeD [OF assms(1)]
  by (auto simp: rule_key_def less_eq_prod_def less_prod_def)

text \<open>
  Selection does not depend on the order in which the rules are stored: two rule lists with
  the same rules, whose identifiers tell them apart, route every request to the same endpoint.
\<close>

theorem select_order_independent:
  assumes "set rules = set rules'" and "inj_on rr_id (set rules)"
  shows "select rules req = select rules' req"
proof -
  let ?m = "filter (rule_applies req) rules" and ?m' = "filter (rule_applies req) rules'"
  have eq: "set ?m = set ?m'" using assms(1) by auto
  have inj: "inj_on rule_key (set ?m)"
    using assms(2) by (auto simp: inj_on_def rule_key_def)
  show ?thesis
  proof (cases "?m = []")
    case True
    with eq have "?m' = []" by (metis set_empty)
    with True show ?thesis by (simp add: select_def select_rule_def)
  next
    case False
    with eq have "?m' \<noteq> []" by (metis set_empty)
    with False rule_order.hd_stable_sort_unique [OF eq inj _ False]
    show ?thesis by (simp add: select_def select_rule_def Let_def)
  qed
qed


definition route_example :: "route_rule list" where
  "route_example =
     [\<lparr>rr_id = ''r1'', rr_method = ''*'', rr_path = ''/*'', rr_transport = [], rr_target = ''main'',
       rr_priority = 5, rr_enabled = True, rr_reason = [], rr_updated = 0\<rparr>,
      \<lparr>rr_id = ''r2'', rr_method = [], rr_path = ''/*'', rr_transport = ''WebSocket'',
       rr_target = ''ws'', rr_priority = 5, rr_enabled = True, rr_reason = [], rr_updated = 0\<rparr>]"

definition route_example_request :: route_request where
  "route_example_request =
     \<lparr>rq_method = ''GET'', rq_path = ''/embywebsocket'', rq_transport = ''websocket''\<rparr>"

lemma select_rule_best_witness:
  "select_rule route_example route_example_request = Some (route_example ! 1) \<and>
   rule_applies route_example_request (route_example ! 0) \<and>
   rr_priority (route_example ! 0) \<le> rr_priority (route_example ! 1)"
proof -
  have 1: "select_rule route_example route_example_request = Some (route_example ! 1)"
    by code_simp
  have 2: "rule_applies route_example_request (route_example ! 0)"
    by code_simp
  have "route_example ! 0 \<in> set route_example"
    by (simp add: route_example_def)
  from select_rule_best [OF 1 this 2] 1 2 show ?thesis by auto
qed

lemma select_order_independent_witness:
  "select (rev route_example) route_example_request = ''ws''"
proof -
  have "inj_on rr_id (set (rev route_example))"
    by (simp add: route_example_def)
  from select_order_independent [OF set_rev this, of route_example_request]
  have "select (rev route_example) route_example_request = select route_example route_example_request" .
  also have "\<dots> = ''ws''" by code_simp
  finally show ?thesis .
qed

end
