(* ===== verification/Admin_Session.thy ===== *)
theory Admin_Session
  imports Prelude
begin

text \<open>
  \<open>internal/adminauth/session.go\<close>: the in-memory sessions of the admin site, their CSRF tokens
  and their single-use re-authentication tickets. Each reading of the store's clock and each
  random identifier is an argument of the operation that makes it, in the order the code
  makes them; \<open>None\<close> for an identifier is a failing entropy source.
\<close>

section \<open>State\<close>

definition absolute_ttl :: duration where "absolute_ttl = 8 * hour"
definition idle_ttl :: duration where "idle_ttl = 30 * minute"
definition reauth_ttl :: duration where "reauth_ttl = 5 * minute"
definition default_max_sessions :: int where "default_max_sessions = 100"

datatype session_error =
    SessionFull | SessionMissing | SessionExpired | CsrfMismatch | ReauthInvalid
  | TokenRequired | SuperuserRequired | EntropyFailure

record claims =
  cl_superuser_id :: string
  cl_email :: string

record admin_session =
  as_id :: string
  as_token :: string
  as_csrf :: string
  as_superuser_id :: string
  as_email :: string
  as_created :: time
  as_last_seen :: time

record public_view =
  pv_superuser_id :: string
  pv_email :: string
  pv_csrf :: string
  pv_created :: time
  pv_last_seen :: time
  pv_expires_at :: time

record reauth_ticket =
  rt_session_id :: string
  rt_expires :: time

record admin_store =
  ad_sessions :: "(string, admin_session) gomap"
  ad_reauth :: "(string, reauth_ticket) gomap"
  ad_max :: int

definition new_store :: "int \<Rightarrow> admin_store" where
  "new_store max_sessions =
     \<lparr>ad_sessions = [], ad_reauth = [],
      ad_max = (if max_sessions \<le> 0 then default_max_sessions else max_sessions)\<rparr>"

section \<open>Expiry\<close>

definition is_expired_at :: "admin_session \<Rightarrow> time \<Rightarrow> bool" where
  "is_expired_at sess now =
     (if time_sub now (as_created sess) > absolute_ttl then True
      else if time_sub now (as_last_seen sess) > idle_ttl then True
      else False)"

definition expire_locked :: "time \<Rightarrow> admin_store \<Rightarrow> admin_store" where
  "expire_locked now s =
     s\<lparr>ad_sessions := filter (\<lambda>(sid, sess). \<not> is_expired_at sess now) (ad_sessions s),
       ad_reauth := filter (\<lambda>(sid, t). rt_expires t > now) (ad_reauth s)\<rparr>"

section \<open>Operations\<close>

text \<open>
  \<open>Create\<close>: \<open>t1\<close> is the clock at the expiry sweep, \<open>t2\<close> the clock after the identifiers
  have been drawn.
\<close>

definition create ::
  "string \<Rightarrow> claims \<Rightarrow> time \<Rightarrow> string option \<Rightarrow> string option \<Rightarrow> time \<Rightarrow> admin_store \<Rightarrow>
   admin_store \<times> (session_error + admin_session)" where
  "create jwt cl t1 id_rand csrf_rand t2 s =
     (let jwt = trim_space jwt
      in if jwt = [] then (s, Inl TokenRequired)
         else if trim_space (cl_superuser_id cl) = [] then (s, Inl SuperuserRequired)
         else (let s = expire_locked t1 s
      in if int (length (ad_sessions s)) \<ge> ad_max s then (s, Inl SessionFull)
         else (case id_rand of
                 None \<Rightarrow> (s, Inl EntropyFailure)
               | Some sid \<Rightarrow>
                   (case csrf_rand of
                      None \<Rightarrow> (s, Inl EntropyFailure)
                    | Some csrf \<Rightarrow>
                        (let sess = \<lparr>as_id = sid, as_token = jwt, as_csrf = csrf,
                               as_superuser_id = cl_superuser_id cl, as_email = cl_email cl,
                               as_created = t2, as_last_seen = t2\<rparr>
                         in (s\<lparr>ad_sessions := AList.update sid sess (ad_sessions s)\<rparr>, Inr sess))))))"

text \<open>\<open>Get\<close>: \<open>t1\<close> decides expiry of the session (only read when it exists), \<open>t2\<close> sweeps.\<close>

definition get :: "string \<Rightarrow> time \<Rightarrow> time \<Rightarrow> admin_store \<Rightarrow>
    admin_store \<times> (session_error + admin_session)" where
  "get sid t1 t2 s =
     (case map_of (ad_sessions s) sid of
        None \<Rightarrow> (expire_locked t2 s, Inl SessionMissing)
      | Some sess \<Rightarrow>
          (if is_expired_at sess t1
           then (expire_locked t2 (s\<lparr>ad_sessions := AList.delete sid (ad_sessions s)\<rparr>),
                 Inl SessionExpired)
           else (s, Inr sess)))"

text \<open>\<open>Touch\<close>: as \<open>Get\<close>, and \<open>t2\<close> is also the new last-seen instant.\<close>

definition touch :: "string \<Rightarrow> time \<Rightarrow> time \<Rightarrow> admin_store \<Rightarrow>
    admin_store \<times> (session_error + admin_session)" where
  "touch sid t1 t2 s =
     (case map_of (ad_sessions s) sid of
        None \<Rightarrow> (expire_locked t2 s, Inl SessionMissing)
      | Some sess \<Rightarrow>
          (if is_expired_at sess t1
           then (expire_locked t2 (s\<lparr>ad_sessions := AList.delete sid (ad_sessions s)\<rparr>),
                 Inl SessionExpired)
           else (let sess = sess\<lparr>as_last_seen := t2\<rparr>
                 in (s\<lparr>ad_sessions := AList.update sid sess (ad_sessions s)\<rparr>, Inr sess))))"

definition delete_session :: "string \<Rightarrow> admin_store \<Rightarrow> admin_store" where
  "delete_session sid s =
     s\<lparr>ad_sessions := AList.delete sid (ad_sessions s),
       ad_reauth := filter (\<lambda>(tid, t). \<not> rt_session_id t = sid) (ad_reauth s)\<rparr>"

definition validate_csrf :: "string \<Rightarrow> string \<Rightarrow> time \<Rightarrow> time \<Rightarrow> admin_store \<Rightarrow>
    admin_store \<times> (session_error + unit)" where
  "validate_csrf sid csrf t1 t2 s =
     (case get sid t1 t2 s of
        (s, Inl err) \<Rightarrow> (s, Inl err)
      | (s, Inr sess) \<Rightarrow>
          (if csrf = [] \<or> csrf \<noteq> as_csrf sess then (s, Inl CsrfMismatch) else (s, Inr ())))"

text \<open>
  \<open>IssueReauth\<close> takes the lock twice: the session check, and then the insertion of the
  ticket. \<open>issue_reauth_commit\<close> is the second critical section; \<open>issue_reauth\<close> is the call
  with nothing in between.
\<close>

definition issue_reauth_commit :: "string \<Rightarrow> string \<Rightarrow> time \<Rightarrow> admin_store \<Rightarrow> admin_store" where
  "issue_reauth_commit session_id ticket exp s =
     s\<lparr>ad_reauth := AList.update ticket \<lparr>rt_session_id = session_id, rt_expires = exp\<rparr> (ad_reauth s)\<rparr>"

definition issue_reauth :: "string \<Rightarrow> time \<Rightarrow> time \<Rightarrow> string option \<Rightarrow> time \<Rightarrow> admin_store \<Rightarrow>
    admin_store \<times> (session_error + string \<times> time)" where
  "issue_reauth session_id t1 t2 ticket_rand t3 s =
     (case get session_id t1 t2 s of
        (s, Inl err) \<Rightarrow> (s, Inl err)
      | (s, Inr _) \<Rightarrow>
          (case ticket_rand of
             None \<Rightarrow> (s, Inl EntropyFailure)
           | Some ticket \<Rightarrow>
               (let exp = t3 + reauth_ttl
                in (issue_reauth_commit session_id ticket exp s, Inr (ticket, exp)))))"

definition consume_reauth :: "string \<Rightarrow> string \<Rightarrow> time \<Rightarrow> time \<Rightarrow> admin_store \<Rightarrow>
    admin_store \<times> (session_error + unit)" where
  "consume_reauth session_id ticket t1 t2 s =
     (let ticket = trim_space ticket
      in if ticket = [] then (s, Inl ReauthInvalid)
         else (let s = expire_locked t1 s;
                   s' = s\<lparr>ad_reauth := AList.delete ticket (ad_reauth s)\<rparr>
      in case map_of (ad_reauth s) ticket of
           None \<Rightarrow> (s', Inl ReauthInvalid)
         | Some t \<Rightarrow>
             (if rt_session_id t \<noteq> session_id \<or> \<not> rt_expires t > t2
              then (s', Inl ReauthInvalid) else (s', Inr ()))))"

definition public_view_of :: "admin_session option \<Rightarrow> public_view" where
  "public_view_of s =
     (case s of
        None \<Rightarrow> \<lparr>pv_superuser_id = [], pv_email = [], pv_csrf = [], pv_created = 0,
                pv_last_seen = 0, pv_expires_at = 0\<rparr>
      | Some s \<Rightarrow>
          (let abs = as_created s + absolute_ttl;
               idle = as_last_seen s + idle_ttl;
               exp = (if idle < abs then idle else abs)
           in \<lparr>pv_superuser_id = as_superuser_id s, pv_email = as_email s, pv_csrf = as_csrf s,
               pv_created = as_created s, pv_last_seen = as_last_seen s, pv_expires_at = exp\<rparr>))"

definition session_count :: "time \<Rightarrow> admin_store \<Rightarrow> admin_store \<times> int" where
  "session_count now s = (let s = expire_locked now s in (s, int (length (ad_sessions s))))"

section \<open>Cookies\<close>

text \<open>
  What the cookie functions read of a request: whether it came over TLS, its first
  \<open>X-Forwarded-Proto\<close> value and its cookies in order, as \<open>net/http\<close> parses them.
\<close>

record cookie_request =
  ck_tls :: bool
  ck_forwarded_proto :: string
  ck_cookies :: "(string \<times> string) list"

record set_cookie =
  sc_name :: string
  sc_value :: string
  sc_path :: string
  sc_http_only :: bool
  sc_secure :: bool
  sc_same_site_strict :: bool
  sc_max_age :: int

definition cookie_secure :: string where "cookie_secure = ''__Secure-eag_admin_session''"
definition cookie_dev :: string where "cookie_dev = ''eag_admin_session''"
definition cookie_path :: string where "cookie_path = ''/admin''"

definition is_secure_request :: "cookie_request option \<Rightarrow> bool" where
  "is_secure_request r =
     (case r of
        None \<Rightarrow> False
      | Some r \<Rightarrow> if ck_tls r then True else equal_fold (ck_forwarded_proto r) ''https'')"

definition cookie_name :: "cookie_request option \<Rightarrow> string" where
  "cookie_name r = (if is_secure_request r then cookie_secure else cookie_dev)"

definition read_session_id :: "cookie_request option \<Rightarrow> string" where
  "read_session_id r =
     (case r of
        None \<Rightarrow> []
      | Some r \<Rightarrow>
          (case find (\<lambda>name. case map_of (ck_cookies r) name of None \<Rightarrow> False | Some v \<Rightarrow> v \<noteq> [])
                  [cookie_secure, cookie_dev] of
             None \<Rightarrow> []
           | Some name \<Rightarrow> (case map_of (ck_cookies r) name of None \<Rightarrow> [] | Some v \<Rightarrow> v)))"

definition set_session_cookie :: "cookie_request option \<Rightarrow> string \<Rightarrow> int \<Rightarrow> set_cookie" where
  "set_session_cookie r session_id max_age =
     (let secure = is_secure_request r;
          name = (if secure then cookie_secure else cookie_dev)
      in \<lparr>sc_name = name, sc_value = session_id, sc_path = cookie_path, sc_http_only = True,
          sc_secure = secure, sc_same_site_strict = True, sc_max_age = max_age\<rparr>)"

definition clear_session_cookie :: "cookie_request option \<Rightarrow> set_cookie list" where
  "clear_session_cookie r =
     (let secure = is_secure_request r
      in map (\<lambda>name. \<lparr>sc_name = name, sc_value = [], sc_path = cookie_path, sc_http_only = True,
                sc_secure = secure \<or> name = cookie_secure, sc_same_site_strict = True,
                sc_max_age = - 1\<rparr>) [cookie_secure, cookie_dev])"


section \<open>Histories\<close>

text \<open>
  The critical sections of the store, one constructor each; a history of the store is any
  list of them, which is what concurrent requests produce under the store's lock.
\<close>

datatype admin_op =
    OpCreate string claims time "string option" "string option" time
  | OpGet string time time
  | OpTouch string time time
  | OpDelete string
  | OpCsrf string string time time
  | OpIssueCommit string string time
  | OpConsume string string time time
  | OpCount time

fun admin_exec :: "admin_op \<Rightarrow> admin_store \<Rightarrow> admin_store" where
  "admin_exec (OpCreate jwt cl t1 i c t2) s = fst (create jwt cl t1 i c t2 s)"
| "admin_exec (OpGet sid t1 t2) s = fst (get sid t1 t2 s)"
| "admin_exec (OpTouch sid t1 t2) s = fst (touch sid t1 t2 s)"
| "admin_exec (OpDelete sid) s = delete_session sid s"
| "admin_exec (OpCsrf sid csrf t1 t2) s = fst (validate_csrf sid csrf t1 t2 s)"
| "admin_exec (OpIssueCommit sid ticket exp) s = issue_reauth_commit sid ticket exp s"
| "admin_exec (OpConsume sid ticket t1 t2) s = fst (consume_reauth sid ticket t1 t2 s)"
| "admin_exec (OpCount now) s = fst (session_count now s)"

fun admin_run :: "admin_op list \<Rightarrow> admin_store \<Rightarrow> admin_store" where
  "admin_run [] s = s"
| "admin_run (op # ops) s = admin_run ops (admin_exec op s)"

lemmas admin_op_defs =
  create_def get_def touch_def delete_session_def validate_csrf_def issue_reauth_commit_def
  consume_reauth_def session_count_def expire_locked_def Let_def

section \<open>The invariant of the store\<close>

definition admin_inv :: "admin_store \<Rightarrow> bool" where
  "admin_inv s \<longleftrightarrow>
     distinct_keys (ad_sessions s) \<and> distinct_keys (ad_reauth s) \<and> 0 < ad_max s \<and>
     int (length (ad_sessions s)) \<le> ad_max s \<and>
     (\<forall>(k, sess) \<in> set (ad_sessions s). as_id sess = k)"

lemma admin_invI:
  assumes "distinct_keys (ad_sessions s)" and "distinct_keys (ad_reauth s)" and "0 < ad_max s"
    and "int (length (ad_sessions s)) \<le> ad_max s"
    and "\<And>k sess. (k, sess) \<in> set (ad_sessions s) \<Longrightarrow> as_id sess = k"
  shows "admin_inv s"
  using assms by (auto simp: admin_inv_def)

lemma admin_inv_new [preserved]: "admin_inv (new_store n)"
  by (simp add: admin_inv_def new_store_def default_max_sessions_def)

lemma admin_inv_expire [preserved]: "admin_inv s \<Longrightarrow> admin_inv (expire_locked now s)"
  by (auto simp: admin_inv_def expire_locked_def)

lemma admin_inv_drop_session [preserved]:
  "admin_inv s \<Longrightarrow> admin_inv (s\<lparr>ad_sessions := AList.delete sid (ad_sessions s)\<rparr>)"
  by (auto simp: admin_inv_def dest: in_set_deleteD)

lemma admin_inv_set_reauth [preserved]:
  "admin_inv s \<Longrightarrow> distinct_keys r \<Longrightarrow> admin_inv (s\<lparr>ad_reauth := r\<rparr>)"
  by (simp add: admin_inv_def)

lemma admin_inv_put_session:
  assumes "admin_inv s" and "as_id sess = sid"
    and "int (length (AList.update sid sess (ad_sessions s))) \<le> ad_max s"
  shows "admin_inv (s\<lparr>ad_sessions := AList.update sid sess (ad_sessions s)\<rparr>)"
  using assms by (auto simp: admin_inv_def dest!: in_set_updateD)

lemma admin_inv_distinct_reauth: "admin_inv s \<Longrightarrow> distinct_keys (ad_reauth s)"
  by (simp add: admin_inv_def)

lemma admin_inv_create [preserved]:
  assumes "admin_inv s"
  shows "admin_inv (fst (create jwt cl t1 i c t2 s))"
proof -
  let ?s = "expire_locked t1 s"
  have inv: "admin_inv ?s" using assms by (rule admin_inv_expire)
  have "int (length (AList.update sid sess (ad_sessions ?s))) \<le> ad_max ?s"
    if "\<not> ad_max ?s \<le> int (length (ad_sessions ?s))" for sid sess
    using that length_update_le [of sid sess "ad_sessions ?s"] by simp
  with inv assms show ?thesis
    by (auto simp: create_def Let_def split: option.splits intro!: admin_inv_put_session)
qed

lemma admin_inv_get [preserved]: "admin_inv s \<Longrightarrow> admin_inv (fst (get sid t1 t2 s))"
  by (auto simp: get_def preserved split: option.splits)

lemma admin_inv_touch [preserved]:
  assumes "admin_inv s"
  shows "admin_inv (fst (touch sid t1 t2 s))"
proof (cases "map_of (ad_sessions s) sid")
  case None
  with assms show ?thesis by (simp add: touch_def preserved)
next
  case (Some sess)
  with assms have "as_id sess = sid" and "int (length (ad_sessions s)) \<le> ad_max s"
    by (auto simp: admin_inv_def dest!: map_of_SomeD)
  with assms Some show ?thesis
    by (auto simp: touch_def Let_def preserved length_update_old intro!: admin_inv_put_session)
qed

lemma admin_inv_delete [preserved]: "admin_inv s \<Longrightarrow> admin_inv (delete_session sid s)"
  by (auto simp: admin_inv_def delete_session_def dest: in_set_deleteD)

lemma admin_inv_exec: "admin_inv s \<Longrightarrow> admin_inv (admin_exec op s)"
proof (cases op)
  case (OpCsrf sid csrf t1 t2)
  assume "admin_inv s"
  then have "admin_inv (fst (get sid t1 t2 s))" by (rule preserved)
  with OpCsrf show ?thesis
    by (auto simp: validate_csrf_def split: prod.splits sum.splits)
next
  case (OpConsume sid ticket t1 t2)
  assume inv: "admin_inv s"
  then have "admin_inv (expire_locked t1 s)" by (rule preserved)
  with inv OpConsume show ?thesis
    by (auto simp: consume_reauth_def Let_def split: option.splits
        intro!: admin_inv_set_reauth distinct_keys_delete dest: admin_inv_distinct_reauth)
qed (auto simp: preserved issue_reauth_commit_def session_count_def Let_def
      admin_inv_distinct_reauth)

lemma admin_inv_run: "admin_inv s \<Longrightarrow> admin_inv (admin_run ops s)"
  by (induction ops arbitrary: s) (auto intro: admin_inv_exec)

section \<open>Tickets and sessions that are gone stay gone\<close>

definition issues :: "string \<Rightarrow> admin_op \<Rightarrow> bool" where
  "issues ticket op \<longleftrightarrow> (case op of OpIssueCommit _ t _ \<Rightarrow> t = ticket | _ \<Rightarrow> False)"

definition revives :: "string \<Rightarrow> admin_op \<Rightarrow> bool" where
  "revives sid op \<longleftrightarrow>
     (case op of OpCreate _ _ _ i _ _ \<Rightarrow> i = Some sid | OpIssueCommit i _ _ \<Rightarrow> i = sid | _ \<Rightarrow> False)"

lemma ticket_gone_exec:
  assumes "map_of (ad_reauth s) ticket = None" and "\<not> issues ticket op"
  shows "map_of (ad_reauth (admin_exec op s)) ticket = None"
  using assms
  by (cases op) (auto simp: admin_op_defs issues_def map_of_filter_None delete_conv' update_conv'
      split: option.splits prod.splits sum.splits if_splits)

lemma ticket_gone_run:
  "map_of (ad_reauth s) ticket = None \<Longrightarrow> list_all (\<lambda>op. \<not> issues ticket op) ops \<Longrightarrow>
   map_of (ad_reauth (admin_run ops s)) ticket = None"
  by (induction ops arbitrary: s) (auto simp: ticket_gone_exec)

definition no_trace_of :: "string \<Rightarrow> admin_store \<Rightarrow> bool" where
  "no_trace_of sid s \<longleftrightarrow>
     map_of (ad_sessions s) sid = None \<and> (\<forall>k t. (k, t) \<in> set (ad_reauth s) \<longrightarrow> rt_session_id t \<noteq> sid)"

lemma no_trace_exec:
  assumes "no_trace_of sid s" and "\<not> revives sid op"
  shows "no_trace_of sid (admin_exec op s)"
  using assms
  by (cases op) (auto simp: admin_op_defs no_trace_of_def revives_def map_of_filter_None
      delete_conv' update_conv' dest!: in_set_updateD in_set_deleteD
      split: option.splits prod.splits sum.splits if_splits, blast+)

lemma no_trace_run:
  "no_trace_of sid s \<Longrightarrow> list_all (\<lambda>op. \<not> revives sid op) ops \<Longrightarrow> no_trace_of sid (admin_run ops s)"
  by (induction ops arbitrary: s) (auto simp: no_trace_exec)


section \<open>Properties\<close>

text \<open>
  Under every history of operations on a new store the number of sessions never exceeds the
  configured maximum (100 when none is configured), every session is filed under its own
  identifier, and identifiers are unique.
\<close>

theorem admin_sessions_bounded:
  "let s = admin_run ops (new_store n)
   in int (length (ad_sessions s)) \<le> (if n \<le> 0 then 100 else n) \<and>
      distinct_keys (ad_sessions s) \<and>
      list_all (\<lambda>(k, sess). as_id sess = k) (ad_sessions s)"
proof -
  have max: "ad_max (admin_exec op s) = ad_max s" for op s
    by (cases op) (auto simp: admin_op_defs split: option.splits prod.splits sum.splits if_splits)
  have "ad_max (admin_run ops s) = ad_max s" for s
    by (induction ops arbitrary: s) (auto simp: max)
  moreover have "admin_inv (admin_run ops (new_store n))"
    by (intro admin_inv_run admin_inv_new)
  ultimately show ?thesis
    by (auto simp: Let_def admin_inv_def new_store_def default_max_sessions_def list_all_iff
        split: if_splits)
qed

text \<open>
  A session is served exactly up to and including the expiry instant its public view
  announces, that is the earlier of eight hours after its creation and thirty minutes after it
  was last touched; later the lookup removes it and reports it expired.
\<close>

theorem get_serves_until_announced_expiry:
  assumes "map_of (ad_sessions s) sid = Some sess"
  shows "get sid t1 t2 s =
    (if t1 \<le> pv_expires_at (public_view_of (Some sess)) then (s, Inr sess)
     else (expire_locked t2 (s\<lparr>ad_sessions := AList.delete sid (ad_sessions s)\<rparr>), Inl SessionExpired))"
proof -
  have "is_expired_at sess t1 \<longleftrightarrow> \<not> t1 \<le> pv_expires_at (public_view_of (Some sess))"
    by (auto simp: is_expired_at_def public_view_of_def absolute_ttl_def idle_ttl_def
        time_sub_greater_iff Let_def)
  with assms show ?thesis by (simp add: get_def)
qed

lemma get_serves_until_announced_expiry_witness:
  "let sess = \<lparr>as_id = ''a'', as_token = ''j'', as_csrf = ''c'', as_superuser_id = ''u'',
                as_email = [], as_created = 0, as_last_seen = 20 * minute\<rparr>;
       s = \<lparr>ad_sessions = [(''a'', sess)], ad_reauth = [], ad_max = 1\<rparr>
   in snd (get ''a'' (50 * minute) 0 s) = Inr sess \<and>
      snd (get ''a'' (50 * minute + 1) 0 s) = Inl SessionExpired"
  by (simp add: Let_def get_serves_until_announced_expiry public_view_of_def absolute_ttl_def
      idle_ttl_def)

text \<open>
  A re-authentication ticket is accepted at most once: after a successful consumption, and
  any further operations that do not issue the same ticket again, it is refused for every
  session.
\<close>

theorem reauth_single_use:
  assumes "consume_reauth sid ticket t1 t2 s = (s', Inr ())"
    and "list_all (\<lambda>op. \<not> issues (trim_space ticket) op) ops"
  shows "snd (consume_reauth sid' ticket t3 t4 (admin_run ops s')) = Inl ReauthInvalid"
proof -
  from assms(1) have "map_of (ad_reauth s') (trim_space ticket) = None"
    by (auto simp: consume_reauth_def Let_def delete_conv' split: option.splits if_splits)
  then have "map_of (ad_reauth (admin_run ops s')) (trim_space ticket) = None"
    using assms(2) by (rule ticket_gone_run)
  then show ?thesis
    by (auto simp: consume_reauth_def Let_def expire_locked_def map_of_filter_None)
qed

lemma reauth_single_use_witness:
  "let s = issue_reauth_commit ''a'' ''tk'' 9 (new_store 0)
   in snd (consume_reauth ''a'' ''tk'' 1 1 s) = Inr () \<and>
      snd (consume_reauth ''a'' ''tk'' 2 2 (admin_run [OpCount 2] (fst (consume_reauth ''a'' ''tk'' 1 1 s))))
        = Inl ReauthInvalid"
proof -
  let ?s = "issue_reauth_commit ''a'' ''tk'' 9 (new_store 0)"
  have 1: "consume_reauth ''a'' ''tk'' 1 1 ?s = (fst (consume_reauth ''a'' ''tk'' 1 1 ?s), Inr ())"
    by code_simp
  have 2: "list_all (\<lambda>op. \<not> issues (trim_space ''tk'') op) [OpCount 2]"
    by code_simp
  from 1 have "snd (consume_reauth ''a'' ''tk'' 1 1 ?s) = Inr ()" by (metis snd_conv)
  with reauth_single_use [OF 1 2, of "''a''" 2 2] show ?thesis
    by (simp add: Let_def)
qed

text \<open>
  Logging out ends everything that hangs on the session: until a session of the same
  identifier is created or a ticket is issued for it, the identifier is unknown and no ticket is
  accepted for it.
\<close>

theorem logout_revokes_session_and_tickets:
  assumes "list_all (\<lambda>op. \<not> revives sid op) ops"
  shows "let s' = admin_run ops (delete_session sid s)
    in snd (get sid t1 t2 s') = Inl SessionMissing \<and>
       snd (consume_reauth sid ticket t3 t4 s') = Inl ReauthInvalid"
proof -
  have "no_trace_of sid (delete_session sid s)"
    by (auto simp: no_trace_of_def delete_session_def delete_conv')
  then have nt: "no_trace_of sid (admin_run ops (delete_session sid s))"
    using assms by (rule no_trace_run)
  then show ?thesis
    by (auto simp: no_trace_of_def get_def consume_reauth_def expire_locked_def Let_def
        dest!: map_of_SomeD split: option.splits, blast)
qed

lemma logout_revokes_session_and_tickets_witness:
  "snd (get ''a'' 1 1 (admin_run [OpCount 1] (delete_session ''a'' (new_store 3)))) = Inl SessionMissing"
  using logout_revokes_session_and_tickets [of "''a''" "[OpCount 1]" "new_store 3" 1 1]
  by (simp add: revives_def Let_def)

text \<open>
  \<open>IssueReauth\<close> checks the session and inserts the ticket in two critical sections, so a
  logout in between leaves a ticket that is then accepted for the session that is gone.
\<close>

lemma ticket_survives_logout:
  "let s1 = fst (create ''jwt'' \<lparr>cl_superuser_id = ''u'', cl_email = []\<rparr> 0 (Some ''a'') (Some ''c'') 0
                   (new_store 0));
       s2 = fst (get ''a'' 1 1 s1);
       s3 = delete_session ''a'' s2;
       s4 = issue_reauth_commit ''a'' ''tk'' (1 + reauth_ttl) s3
   in snd (get ''a'' 1 1 s1) \<noteq> Inl SessionMissing \<and>
      snd (get ''a'' 2 2 s4) = Inl SessionMissing \<and> snd (consume_reauth ''a'' ''tk'' 2 2 s4) = Inr ()"
  by code_simp

end
