(* ===== verification/Rate_Limit.thy ===== *)
theory Rate_Limit
  imports Prelude
begin

text \<open>
  \<open>internal/adminauth/rate.go\<close>: the fixed-window counter that limits attempts per key. The
  clock reading of a call is an argument; a nil limiter is \<open>None\<close>.
\<close>

record rate_window =
  rw_count :: int
  rw_start :: time

record rate_limiter =
  rl_windows :: "(string, rate_window) gomap"
  rl_limit :: int
  rl_window :: duration

definition new_rate_limiter :: "int \<Rightarrow> duration \<Rightarrow> rate_limiter" where
  "new_rate_limiter limit window =
     \<lparr>rl_windows = [],
      rl_limit = (if limit \<le> 0 then 20 else limit),
      rl_window = (if window \<le> 0 then minute else window)\<rparr>"

definition rate_key :: "string \<Rightarrow> string" where
  "rate_key key = (if key = [] then ''_'' else key)"

text \<open>The opportunistic cleanup at the start of \<open>Allow\<close>.\<close>

definition rate_cleanup :: "time \<Rightarrow> rate_limiter \<Rightarrow> rate_limiter" where
  "rate_cleanup now r =
     (if int (length (rl_windows r)) > 10000
      then r\<lparr>rl_windows :=
        filter (\<lambda>(k, w). \<not> time_sub now (rw_start w) > rl_window r * 2) (rl_windows r)\<rparr>
      else r)"

definition allow :: "string \<Rightarrow> time \<Rightarrow> rate_limiter \<Rightarrow> rate_limiter \<times> bool" where
  "allow key now r =
     (let key = rate_key key;
          r = rate_cleanup now r;
          fresh = (r\<lparr>rl_windows := AList.update key \<lparr>rw_count = 1, rw_start = now\<rparr> (rl_windows r)\<rparr>, True)
      in case map_of (rl_windows r) key of
           None \<Rightarrow> fresh
         | Some w \<Rightarrow>
             (if time_sub now (rw_start w) \<ge> rl_window r then fresh
              else if rw_count w \<ge> rl_limit r then (r, False)
              else (r\<lparr>rl_windows :=
                      AList.update key (w\<lparr>rw_count := rw_count w + 1\<rparr>) (rl_windows r)\<rparr>, True)))"

definition allow_nil :: "string \<Rightarrow> time \<Rightarrow> rate_limiter option \<Rightarrow> rate_limiter option \<times> bool" where
  "allow_nil key now r =
     (case r of
        None \<Rightarrow> (None, True)
      | Some r \<Rightarrow> (case allow key now r of (r', ok) \<Rightarrow> (Some r', ok)))"

section \<open>Runs\<close>

text \<open>A history of calls (key, clock) and the verdicts it gives.\<close>

fun allow_run :: "(string \<times> time) list \<Rightarrow> rate_limiter \<Rightarrow> rate_limiter \<times> bool list" where
  "allow_run [] r = (r, [])"
| "allow_run ((key, now) # calls) r =
     (case allow key now r of
        (r', ok) \<Rightarrow> (case allow_run calls r' of (r'', oks) \<Rightarrow> (r'', ok # oks)))"

text \<open>How many calls for a key were allowed in a history.\<close>

fun allowed_for :: "string \<Rightarrow> (string \<times> time) list \<Rightarrow> bool list \<Rightarrow> int" where
  "allowed_for key ((k, now) # calls) (ok # oks) =
     (if ok \<and> rate_key k = rate_key key then 1 else 0) + allowed_for key calls oks"
| "allowed_for key _ _ = 0"

definition rate_inv :: "rate_limiter \<Rightarrow> bool" where
  "rate_inv r \<longleftrightarrow>
     distinct_keys (rl_windows r) \<and> 0 < rl_limit r \<and> 0 < rl_window r \<and>
     rl_window r * 2 < max_int64 \<and>
     (\<forall>k w. map_of (rl_windows r) k = Some w \<longrightarrow> 1 \<le> rw_count w \<and> rw_count w \<le> rl_limit r)"

lemma rate_cleanup_config [simp]:
  "rl_limit (rate_cleanup now r) = rl_limit r" "rl_window (rate_cleanup now r) = rl_window r"
  by (simp_all add: rate_cleanup_def)

lemma allow_config [simp]:
  "rl_limit (fst (allow key now r)) = rl_limit r" "rl_window (fst (allow key now r)) = rl_window r"
  by (auto simp: allow_def Let_def split: option.splits)

lemma rate_cleanup_lookup:
  "distinct_keys (rl_windows r) \<Longrightarrow>
   map_of (rl_windows (rate_cleanup now r)) k =
     (case map_of (rl_windows r) k of
        None \<Rightarrow> None
      | Some w \<Rightarrow> if int (length (rl_windows r)) > 10000 \<and> time_sub now (rw_start w) > rl_window r * 2
                  then None else Some w)"
  by (auto simp: rate_cleanup_def map_of_filter_keys split: option.splits)

lemma rate_inv_cleanup [preserved]: "rate_inv r \<Longrightarrow> rate_inv (rate_cleanup now r)"
  by (auto simp: rate_inv_def rate_cleanup_lookup split: option.splits if_splits)
    (simp add: rate_cleanup_def)

lemma rate_inv_allow [preserved]:
  assumes "rate_inv r"
  shows "rate_inv (fst (allow key now r))"
proof -
  have "rate_inv (rate_cleanup now r)" using assms by (rule preserved)
  moreover have "1 \<le> rl_limit r" using assms by (simp add: rate_inv_def)
  ultimately show ?thesis
    by (auto simp: allow_def Let_def rate_inv_def update_conv' split: option.splits if_splits)
      fastforce
qed

lemma rate_inv_new: "window * 2 < max_int64 \<Longrightarrow> rate_inv (new_rate_limiter limit window)"
  by (simp add: rate_inv_def new_rate_limiter_def)

text \<open>One call inside an open window of the key: the window stays and its count moves by one.\<close>

lemma allow_in_window:
  assumes "rate_inv r" and "map_of (rl_windows r) (rate_key key) = Some w"
    and "rw_start w \<le> now" and "now < rw_start w + rl_window r"
  shows "\<exists>w'. map_of (rl_windows (fst (allow k now r))) (rate_key key) = Some w' \<and>
    rw_start w' = rw_start w \<and>
    rw_count w' = rw_count w + (if snd (allow k now r) \<and> rate_key k = rate_key key then 1 else 0)"
proof -
  have win: "0 < rl_window r" "rl_window r < max_int64" "rl_window r * 2 < max_int64"
    using assms(1) by (auto simp: rate_inv_def)
  have "\<not> time_sub now (rw_start w) > rl_window r * 2"
    using assms(4) win by (simp add: time_sub_greater_iff)
  with assms have keep: "map_of (rl_windows (rate_cleanup now r)) (rate_key key) = Some w"
    by (simp add: rate_cleanup_lookup rate_inv_def)
  have "\<not> rl_window r \<le> time_sub now (rw_start w)"
    using assms(4) win time_sub_less_iff [of "rl_window r" now "rw_start w"] by simp
  with keep show ?thesis
    by (cases "rate_key k = rate_key key")
      (auto simp: allow_def Let_def update_conv' split: option.splits if_splits)
qed

lemma allow_run_in_window:
  assumes "rate_inv r" and "map_of (rl_windows r) (rate_key key) = Some w"
    and "\<forall>(k, now) \<in> set calls. rw_start w \<le> now \<and> now < rw_start w + rl_window r"
  shows "allowed_for key calls (snd (allow_run calls r)) \<le> rl_limit r - rw_count w"
  using assms
proof (induction calls arbitrary: r w)
  case Nil
  then show ?case by (auto simp: rate_inv_def)
next
  case (Cons c calls)
  obtain k now where c: "c = (k, now)" by (cases c)
  let ?r = "fst (allow k now r)"
  from Cons.prems c obtain w' where w': "map_of (rl_windows ?r) (rate_key key) = Some w'"
    "rw_start w' = rw_start w"
    "rw_count w' = rw_count w + (if snd (allow k now r) \<and> rate_key k = rate_key key then 1 else 0)"
    using allow_in_window [of r key w now k] by auto
  have "allowed_for key calls (snd (allow_run calls ?r)) \<le> rl_limit ?r - rw_count w'"
    using Cons.prems w' by (intro Cons.IH) (auto simp: preserved)
  then show ?case
    using w'(3) by (auto simp: c split: prod.splits if_splits)
qed

section \<open>Properties\<close>

text \<open>
  Whatever other keys do, from the call that opens a window for a key until the window is
  over at most the configured number of calls for that key are allowed, the opening one
  included.
\<close>

theorem rate_limit_enforced:
  assumes "rate_inv r"
    and "case map_of (rl_windows r) (rate_key key) of
           None \<Rightarrow> True | Some w \<Rightarrow> rw_start w + rl_window r \<le> start"
    and "\<forall>(k, now) \<in> set calls. start \<le> now \<and> now < start + rl_window r"
  shows "allowed_for key ((key, start) # calls) (snd (allow_run ((key, start) # calls) r)) \<le> rl_limit r"
proof -
  let ?r = "fst (allow key start r)"
  have win: "0 < rl_window r" "rl_window r < max_int64"
    using assms(1) by (auto simp: rate_inv_def)
  have "rl_window r \<le> time_sub start t \<longleftrightarrow> t + rl_window r \<le> start" for t
    using win time_sub_less_iff [of "rl_window r" start t] by linarith
  with assms(1,2) have ok: "snd (allow key start r)"
    and w: "map_of (rl_windows ?r) (rate_key key) = Some \<lparr>rw_count = 1, rw_start = start\<rparr>"
    by (auto simp: allow_def Let_def rate_cleanup_lookup rate_inv_def update_conv'
        split: option.splits if_splits)
  have "allowed_for key calls (snd (allow_run calls ?r)) \<le> rl_limit ?r - 1"
    using allow_run_in_window [OF rate_inv_allow [OF assms(1)] w] assms(3) by auto
  with ok show ?thesis by (auto split: prod.splits)
qed

lemma rate_limit_enforced_witness:
  "allowed_for ''ip'' [(''ip'', 0), (''ip'', 1), (''other'', 2), (''ip'', 3)]
     (snd (allow_run [(''ip'', 0), (''ip'', 1), (''other'', 2), (''ip'', 3)] (new_rate_limiter 2 10))) \<le> 2"
  using rate_limit_enforced [where r = "new_rate_limiter 2 10" and key = "''ip''" and start = 0
      and calls = "[(''ip'', 1), (''other'', 2), (''ip'', 3)]"]
  by (simp add: rate_inv_new) (simp add: new_rate_limiter_def)

end
