(* ===== verification/Playback_Guard.thy ===== *)
theory Playback_Guard
  imports Prelude
begin

text \<open>
  \<open>internal/gateway/playback_guard.go\<close>: the process-local memory of denied playback attempts.
  A denial raises a guard for a (session token, item) pair; a guard suppresses playback reports
  until it runs out or until a caller that saw its generation clears it; audit events are
  limited by a cool-down. The generation counter is a 64-bit word.
\<close>

definition playback_guard_ttl :: duration where "playback_guard_ttl = 2 * minute"
definition playback_audit_cooldown :: duration where "playback_audit_cooldown = 2 * minute"

record guard_key =
  gk_token_hash :: string
  gk_item_id :: string

record guard =
  gd_generation :: "64 word"
  gd_expires_at :: time

record guard_tracker =
  gt_guards :: "(guard_key, guard) gomap"
  gt_cooldowns :: "(guard_key \<times> string, time) gomap"
  gt_generation :: "64 word"

definition new_tracker :: guard_tracker where
  "new_tracker = \<lparr>gt_guards = [], gt_cooldowns = [], gt_generation = 0\<rparr>"

definition sweep :: "time \<Rightarrow> guard_tracker \<Rightarrow> guard_tracker" where
  "sweep now t =
     t\<lparr>gt_guards := filter (\<lambda>(k, g). \<not> \<not> now < gd_expires_at g) (gt_guards t),
       gt_cooldowns := filter (\<lambda>(k, until). \<not> \<not> now < until) (gt_cooldowns t)\<rparr>"

definition guard_snapshot :: "guard_key \<Rightarrow> time \<Rightarrow> guard_tracker \<Rightarrow> guard_tracker \<times> 64 word" where
  "guard_snapshot key now t =
     (let t = sweep now t
      in (t, case map_of (gt_guards t) key of None \<Rightarrow> 0 | Some g \<Rightarrow> gd_generation g))"

definition audit_eligible ::
  "guard_key \<Rightarrow> string \<Rightarrow> time \<Rightarrow> guard_tracker \<Rightarrow> guard_tracker \<times> bool" where
  "audit_eligible key event now t =
     (let audit_key = (key, event);
          open_window = (t\<lparr>gt_cooldowns :=
            AList.update audit_key (now + playback_audit_cooldown) (gt_cooldowns t)\<rparr>, True)
      in case map_of (gt_cooldowns t) audit_key of
           None \<Rightarrow> open_window
         | Some until \<Rightarrow> if now < until then (t, False) else open_window)"

definition deny :: "guard_key \<Rightarrow> time \<Rightarrow> guard_tracker \<Rightarrow> guard_tracker \<times> bool" where
  "deny key now t =
     (let t = sweep now t;
          t = t\<lparr>gt_generation := gt_generation t + 1\<rparr>;
          t = t\<lparr>gt_guards := AList.update key
                 \<lparr>gd_generation = gt_generation t, gd_expires_at = now + playback_guard_ttl\<rparr>
                 (gt_guards t)\<rparr>
      in audit_eligible key ''playback_concurrency_denied'' now t)"

definition clear_if_generation ::
  "guard_key \<Rightarrow> 64 word \<Rightarrow> time \<Rightarrow> guard_tracker \<Rightarrow> guard_tracker" where
  "clear_if_generation key generation now t =
     (let t = sweep now t
      in if generation = 0 then t
         else (case map_of (gt_guards t) key of
                 None \<Rightarrow> t
               | Some g \<Rightarrow>
                   if gd_generation g = generation
                   then t\<lparr>gt_guards := AList.delete key (gt_guards t)\<rparr> else t))"

text \<open>\<open>suppress\<close> returns (active, audit eligible).\<close>

definition suppress :: "guard_key \<Rightarrow> time \<Rightarrow> guard_tracker \<Rightarrow> guard_tracker \<times> bool \<times> bool" where
  "suppress key now t =
     (let t = sweep now t
      in case map_of (gt_guards t) key of
           None \<Rightarrow> (t, False, False)
         | Some _ \<Rightarrow>
             (case audit_eligible key ''playback_report_suppressed'' now t of
                (t, eligible) \<Rightarrow> (t, True, eligible)))"

section \<open>Histories\<close>

datatype guard_op =
    GSnapshot guard_key time | GDeny guard_key time
  | GClear guard_key "64 word" time | GSuppress guard_key time

fun guard_exec :: "guard_op \<Rightarrow> guard_tracker \<Rightarrow> guard_tracker" where
  "guard_exec (GSnapshot key now) t = fst (guard_snapshot key now t)"
| "guard_exec (GDeny key now) t = fst (deny key now t)"
| "guard_exec (GClear key g now) t = clear_if_generation key g now t"
| "guard_exec (GSuppress key now) t = fst (suppress key now t)"

fun op_time :: "guard_op \<Rightarrow> time" where
  "op_time (GSnapshot _ now) = now"
| "op_time (GDeny _ now) = now"
| "op_time (GClear _ _ now) = now"
| "op_time (GSuppress _ now) = now"

fun guard_run :: "guard_op list \<Rightarrow> guard_tracker \<Rightarrow> guard_tracker" where
  "guard_run [] t = t"
| "guard_run (op # ops) t = guard_run ops (guard_exec op t)"

text \<open>
  Keys are unique and, as long as the counter has not wrapped, no guard carries a generation
  above the counter or generation zero.
\<close>

definition guard_inv :: "guard_tracker \<Rightarrow> bool" where
  "guard_inv t \<longleftrightarrow>
     distinct_keys (gt_guards t) \<and> distinct_keys (gt_cooldowns t) \<and>
     (\<forall>k g. map_of (gt_guards t) k = Some g \<longrightarrow> gd_generation g \<noteq> 0 \<and> gd_generation g \<le> gt_generation t)"

lemma sweep_simps [simp]:
  "gt_generation (sweep now t) = gt_generation t"
  "distinct_keys (gt_guards t) \<Longrightarrow> distinct_keys (gt_guards (sweep now t))"
  "distinct_keys (gt_cooldowns t) \<Longrightarrow> distinct_keys (gt_cooldowns (sweep now t))"
  by (simp_all add: sweep_def)

lemma sweep_guards:
  "distinct_keys (gt_guards t) \<Longrightarrow> map_of (gt_guards (sweep now t)) k =
     (case map_of (gt_guards t) k of
        None \<Rightarrow> None | Some g \<Rightarrow> if now < gd_expires_at g then Some g else None)"
  by (auto simp: sweep_def map_of_filter_keys split: option.splits)

lemma sweep_cooldowns:
  "distinct_keys (gt_cooldowns t) \<Longrightarrow> map_of (gt_cooldowns (sweep now t)) k =
     (case map_of (gt_cooldowns t) k of
        None \<Rightarrow> None | Some u \<Rightarrow> if now < u then Some u else None)"
  by (auto simp: sweep_def map_of_filter_keys split: option.splits)

lemma audit_eligible_simps [simp]:
  "gt_guards (fst (audit_eligible key event now t)) = gt_guards t"
  "gt_generation (fst (audit_eligible key event now t)) = gt_generation t"
  "distinct_keys (gt_cooldowns t) \<Longrightarrow>
     distinct_keys (gt_cooldowns (fst (audit_eligible key event now t)))"
  by (auto simp: audit_eligible_def Let_def split: option.splits)

lemma guard_inv_sweep [preserved]: "guard_inv t \<Longrightarrow> guard_inv (sweep now t)"
  by (auto simp: guard_inv_def sweep_guards split: option.splits if_splits)

lemma guard_inv_audit [preserved]:
  "guard_inv t \<Longrightarrow> guard_inv (fst (audit_eligible key event now t))"
  by (simp add: guard_inv_def)

lemma word_inc_le: "(g :: 64 word) \<noteq> - 1 \<Longrightarrow> x \<le> g \<Longrightarrow> x \<le> g + 1"
  by (meson inc_less_eq_triv_imp nle_le order.trans)

lemma word_inc_nonzero: "(g :: 64 word) \<noteq> - 1 \<Longrightarrow> g + 1 \<noteq> 0"
  by (metis add.commute eq_neg_iff_add_eq_0)

lemma word_inc_greater: "(g :: 64 word) \<noteq> - 1 \<Longrightarrow> g < g + 1"
  by (meson inc_less_eq_triv_imp verit_comp_simplify1(3))

lemma guard_inv_deny [preserved]:
  assumes "guard_inv t" and "gt_generation t \<noteq> - 1"
  shows "guard_inv (fst (deny key now t))"
proof -
  have "guard_inv (sweep now t)" using assms(1) by (rule preserved)
  with assms(2) show ?thesis
    by (auto simp: deny_def Let_def guard_inv_def update_conv' word_inc_nonzero
        intro: word_inc_le split: if_splits)
qed

lemma guard_inv_clear [preserved]:
  "guard_inv t \<Longrightarrow> guard_inv (clear_if_generation key g now t)"
  using guard_inv_sweep [of t now]
  by (auto simp: clear_if_generation_def Let_def guard_inv_def delete_conv' split: option.splits if_splits)

lemma guard_inv_suppress [preserved]: "guard_inv t \<Longrightarrow> guard_inv (fst (suppress key now t))"
  by (auto simp: suppress_def Let_def preserved case_prod_unfold split: option.splits)

lemma guard_inv_snapshot [preserved]: "guard_inv t \<Longrightarrow> guard_inv (fst (guard_snapshot key now t))"
  by (simp add: guard_snapshot_def Let_def preserved)

lemma deny_generation [simp]: "gt_generation (fst (deny key now t)) = gt_generation t + 1"
  by (simp add: deny_def Let_def)

lemma clear_generation [simp]: "gt_generation (clear_if_generation key g now t) = gt_generation t"
  by (auto simp: clear_if_generation_def Let_def split: option.splits)

lemma suppress_generation [simp]: "gt_generation (fst (suppress key now t)) = gt_generation t"
  by (auto simp: suppress_def Let_def case_prod_unfold split: option.splits)

lemma snapshot_generation [simp]: "gt_generation (fst (guard_snapshot key now t)) = gt_generation t"
  by (simp add: guard_snapshot_def Let_def)

text \<open>One operation moves the counter by at most one.\<close>

lemma guard_exec_step:
  assumes "guard_inv t" and "gt_generation t \<noteq> - 1"
  shows "guard_inv (guard_exec op t)" and "gt_generation t \<le> gt_generation (guard_exec op t)"
    and "unat (gt_generation (guard_exec op t)) \<le> Suc (unat (gt_generation t))"
proof -
  show "guard_inv (guard_exec op t)"
    using assms by (cases op) (auto simp: preserved)
  show "gt_generation t \<le> gt_generation (guard_exec op t)"
    using word_inc_greater [OF assms(2)] by (cases op) auto
  show "unat (gt_generation (guard_exec op t)) \<le> Suc (unat (gt_generation t))"
    by (cases op) (auto simp: unat_word_ariths)
qed

lemma guard_run_inv:
  assumes "guard_inv t" and "unat (gt_generation t) + length ops < 2 ^ 64 - 1"
  shows "guard_inv (guard_run ops t) \<and> gt_generation t \<le> gt_generation (guard_run ops t) \<and>
    unat (gt_generation (guard_run ops t)) < 2 ^ 64 - 1"
  using assms
proof (induction ops arbitrary: t)
  case Nil
  then show ?case by simp
next
  case (Cons op ops)
  then have "unat (gt_generation t) \<noteq> unat (- 1 :: 64 word)" by (simp add: unsigned_minus_1_eq_mask mask_eq_exp_minus_1)
  then have "gt_generation t \<noteq> - 1" by auto
  note step = guard_exec_step [OF Cons.prems(1) this, of op]
  from step(3) Cons.prems(2)
  have "unat (gt_generation (guard_exec op t)) + length ops < 2 ^ 64 - 1" by simp
  from Cons.IH [OF step(1) this] step(2) show ?case by auto
qed

lemma suppress_active_iff:
  "distinct_keys (gt_guards t) \<Longrightarrow>
   fst (snd (suppress key now t)) \<longleftrightarrow>
     (\<exists>g. map_of (gt_guards t) key = Some g \<and> now < gd_expires_at g)"
  by (auto simp: suppress_def Let_def case_prod_unfold sweep_guards split: option.splits if_splits)

lemma deny_guards:
  "map_of (gt_guards (fst (deny key now t))) key =
     Some \<lparr>gd_generation = gt_generation t + 1, gd_expires_at = now + playback_guard_ttl\<rparr>"
  by (simp add: deny_def Let_def update_conv')

section \<open>Properties\<close>

text \<open>
  After a denial, reports for the same token and item are suppressed for exactly two
  minutes, unless the guard is cleared.
\<close>

theorem deny_suppresses_for_ttl:
  assumes "guard_inv t" and "gt_generation t \<noteq> - 1"
  shows "fst (snd (suppress key now' (fst (deny key now t)))) \<longleftrightarrow> now' < now + 2 * minute"
  using guard_inv_deny [OF assms, of key now]
  by (simp add: suppress_active_iff guard_inv_def deny_guards playback_guard_ttl_def)

lemma deny_suppresses_for_ttl_witness:
  "let k = \<lparr>gk_token_hash = ''h'', gk_item_id = ''i''\<rparr>
   in fst (snd (suppress k 5 (fst (deny k 0 new_tracker)))) \<and>
      \<not> fst (snd (suppress k (2 * minute) (fst (deny k 0 new_tracker))))"
  using deny_suppresses_for_ttl [of new_tracker]
  by (simp add: guard_inv_def new_tracker_def Let_def)

text \<open>
  A caller that clears the guard it saw cannot clear a later denial: whatever happened
  between its snapshot and the denial, clearing by the snapshot's generation leaves the new
  guard active. (The 64-bit generation counter is assumed not to wrap in the history.)
\<close>

theorem clear_spares_later_denial:
  assumes "guard_inv t" and "unat (gt_generation t) + length ops < 2 ^ 64 - 1"
    and "now2 < now1 + 2 * minute"
  shows "let (t0, generation) = guard_snapshot key now0 t;
             t1 = fst (deny key now1 (guard_run ops t0));
             t2 = clear_if_generation key generation now2 t1
         in fst (snd (suppress key now2 t2))"
proof -
  let ?t0 = "fst (guard_snapshot key now0 t)" and ?g = "snd (guard_snapshot key now0 t)"
  let ?r = "guard_run ops ?t0"
  let ?t1 = "fst (deny key now1 ?r)"
  have inv0: "guard_inv ?t0" and "unat (gt_generation ?t0) + length ops < 2 ^ 64 - 1"
    using assms(1,2) by (simp_all add: preserved)
  then have r: "guard_inv ?r" "gt_generation t \<le> gt_generation ?r"
    "unat (gt_generation ?r) < 2 ^ 64 - 1"
    using guard_run_inv [of ?t0 ops] by auto
  from r(3) have "unat (gt_generation ?r) \<noteq> unat (- 1 :: 64 word)" by (simp add: unsigned_minus_1_eq_mask mask_eq_exp_minus_1)
  then have nowrap: "gt_generation ?r \<noteq> - 1" by auto
  have "?g \<le> gt_generation t"
    using guard_inv_sweep [OF assms(1), of now0]
    by (auto simp: guard_snapshot_def Let_def guard_inv_def split: option.splits)
  with r(2) word_inc_greater [OF nowrap] have "?g \<noteq> gt_generation ?r + 1" by auto
  moreover have inv1: "guard_inv ?t1" using r(1) nowrap by (rule preserved)
  ultimately have "map_of (gt_guards (clear_if_generation key ?g now2 ?t1)) key =
      Some \<lparr>gd_generation = gt_generation ?r + 1, gd_expires_at = now1 + playback_guard_ttl\<rparr>"
    using assms(3) by (auto simp: clear_if_generation_def Let_def sweep_guards guard_inv_def
        deny_guards playback_guard_ttl_def)
  moreover have "guard_inv (clear_if_generation key ?g now2 ?t1)" using inv1 by (rule preserved)
  ultimately show ?thesis
    using assms(3) by (simp add: case_prod_unfold Let_def suppress_active_iff guard_inv_def
        playback_guard_ttl_def)
qed

lemma clear_spares_later_denial_witness:
  "let k = \<lparr>gk_token_hash = ''h'', gk_item_id = ''i''\<rparr>;
       (t0, g) = guard_snapshot k 1 (fst (deny k 0 new_tracker));
       t1 = fst (deny k 3 (guard_run [GSuppress k 2] t0))
   in fst (snd (suppress k 4 (clear_if_generation k g 4 t1)))"
proof -
  define k where "k = \<lparr>gk_token_hash = ''h'', gk_item_id = ''i''\<rparr>"
  have inv: "guard_inv (fst (deny k 0 new_tracker))"
    by (rule guard_inv_deny) (simp_all add: guard_inv_def new_tracker_def)
  have "unat (gt_generation (fst (deny k 0 new_tracker))) + length [GSuppress k 2] < 2 ^ 64 - 1"
    by (simp add: new_tracker_def)
  from clear_spares_later_denial [OF inv this, of 4 3 k 1]
  show ?thesis by (simp add: Let_def k_def [symmetric])
qed

abbreviation cooling :: "guard_key \<times> string \<Rightarrow> time \<Rightarrow> guard_tracker \<Rightarrow> bool" where
  "cooling k until t \<equiv>
     distinct_keys (gt_cooldowns t) \<and> map_of (gt_cooldowns t) k = Some until"

lemma cooling_sweep: "cooling k until t \<Longrightarrow> now < until \<Longrightarrow> cooling k until (sweep now t)"
  by (simp add: sweep_cooldowns)

lemma cooling_audit:
  "cooling k until t \<Longrightarrow> now < until \<Longrightarrow> cooling k until (fst (audit_eligible key event now t))"
  by (auto simp: audit_eligible_def Let_def update_conv' split: option.splits)

lemma cooldown_persists:
  assumes "cooling k until t" and "op_time op < until"
  shows "cooling k until (guard_exec op t)"
proof (cases op)
  case (GSnapshot key now)
  with assms cooling_sweep show ?thesis by (simp add: guard_snapshot_def Let_def)
next
  case (GDeny key now)
  with assms(2) have now: "now < until" by simp
  from cooling_sweep [OF assms(1) now] GDeny show ?thesis
    by (simp add: deny_def Let_def cooling_audit [OF _ now])
next
  case (GClear key g now)
  with assms cooling_sweep [where t = t and now = now and k = k and until = until] show ?thesis
    by (auto simp: clear_if_generation_def Let_def split: option.splits)
next
  case (GSuppress key now)
  with assms(2) have now: "now < until" by simp
  from cooling_sweep [OF assms(1) now] GSuppress show ?thesis
    by (auto simp: suppress_def Let_def case_prod_unfold cooling_audit [OF _ now] split: option.splits)
qed

lemma cooldown_persists_run:
  "cooling k until t \<Longrightarrow> list_all (\<lambda>op. op_time op < until) ops \<Longrightarrow>
   cooling k until (guard_run ops t)"
proof (induction ops arbitrary: t)
  case (Cons op ops)
  then show ?case using cooldown_persists [where t = t and op = op and k = k and until = until] by simp
qed simp

text \<open>
  The audit trail gets at most one denial event per token and item in two minutes: once a
  denial was eligible, no denial of the same pair within the cool-down is, whatever else the
  tracker does in between.
\<close>

theorem denial_audit_cooldown:
  assumes "guard_inv t" and "snd (deny key now t)"
    and "list_all (\<lambda>op. op_time op < now + 2 * minute) ops" and "now' < now + 2 * minute"
  shows "\<not> snd (deny key now' (guard_run ops (fst (deny key now t))))"
proof -
  let ?k = "(key, ''playback_concurrency_denied'')" and ?t = "fst (deny key now t)"
  have c: "cooling ?k (now + 2 * minute) ?t"
    using assms(1,2)
    by (auto simp: deny_def Let_def audit_eligible_def update_conv' guard_inv_def
        playback_audit_cooldown_def split: option.splits if_splits)
  from cooldown_persists_run [OF c assms(3)] assms(4) show ?thesis
    by (auto simp: deny_def Let_def audit_eligible_def sweep_cooldowns)
qed

lemma denial_audit_cooldown_witness:
  "let k = \<lparr>gk_token_hash = ''h'', gk_item_id = ''i''\<rparr>
   in snd (deny k 0 new_tracker) \<and>
      \<not> snd (deny k 9 (guard_run [GSuppress k 5] (fst (deny k 0 new_tracker))))"
proof -
  define k where "k = \<lparr>gk_token_hash = ''h'', gk_item_id = ''i''\<rparr>"
  have 1: "snd (deny k 0 new_tracker)"
    by (simp add: deny_def new_tracker_def sweep_def audit_eligible_def Let_def)
  have 2: "guard_inv new_tracker" by (simp add: guard_inv_def new_tracker_def)
  from denial_audit_cooldown [OF 2 1, of "[GSuppress k 5]" 9] 1
  show ?thesis by (simp add: Let_def k_def [symmetric])
qed

end
