(* ===== verification/Media_Buffer.thy ===== *)
theory Media_Buffer
  imports Prelude
begin

text \<open>
  \<open>internal/gateway/media_buffer.go\<close>: the pool of 32 KiB chunks shared by all media
  requests. Every request has a target (its share of the hard budget), asks for one optional
  chunk at a time, is granted one when its target and the budget allow it, accepts or cancels
  the grant, and releases chunks by a lease that names the grant.

  Request and chunk objects live in two heaps, indexed by the number the code gives them
  (\<open>id\<close>); a pointer to an object is its number. The \<open>uint64\<close> counters are natural numbers. A
  panic of the code is a value: every operation returns \<open>Inl\<close> the panic or \<open>Inr\<close> the new
  state with its result, and the properties show that no panic is reachable. The range over
  the map of chunks in \<open>close\<close> takes them in the order of the association list.
\<close>

section \<open>State\<close>

definition chunk_size :: int where "chunk_size = 32768"
definition request_cap :: int where "request_cap = 536870912"

datatype mb_error = BudgetError | BufferClosed | NoGrant | BadOwnership

datatype mb_panic =
    NotificationOccupied | WaiterMissing | RequestMissing | InvalidPendingLease
  | InvalidAccounting | SendOnClosed

datatype blocker = BlockerNone | BlockerDebt | BlockerAtTarget | BlockerPoolExhausted

record mb_chunk =
  mc_generation :: nat
  mc_owner :: nat

record lease =
  ls_chunk :: "nat option"
  ls_request :: nat
  ls_generation :: nat

text \<open>What the pool projects into the live telemetry of a request.\<close>

record live_projection =
  lp_allocation :: "64 word"
  lp_peak_owned :: int
  lp_peak_debt :: int
  lp_blocker :: blocker

record mb_request =
  mr_target :: int
  mr_owned :: int
  mr_debt :: int
  mr_waiting :: bool
  mr_closed :: bool
  mr_notified :: bool  \<comment> \<open>the one-place channel \<open>notify\<close> holds a token\<close>
  mr_notify_closed :: bool
  mr_pending :: "lease option"
  mr_chunks :: "(nat, nat) gomap"  \<comment> \<open>accepted chunk, generation\<close>
  mr_live :: "live_projection option"

record media_buffer =
  mb_hard_budget :: int
  mb_allocated :: int
  mb_owned :: int
  mb_free :: "nat list"
  mb_requests :: "nat list"
  mb_waiters :: "nat list"
  mb_next_request :: nat
  mb_next_chunk :: nat
  mb_next_grant :: nat
  mb_base_only :: int
  mb_indebted :: int
  mb_debt_bytes :: int
  mb_request_heap :: "nat \<Rightarrow> mb_request"
  mb_chunk_heap :: "nat \<Rightarrow> mb_chunk"

definition fresh_request :: mb_request where
  "fresh_request =
     \<lparr>mr_target = 0, mr_owned = 0, mr_debt = 0, mr_waiting = False, mr_closed = False,
      mr_notified = False, mr_notify_closed = False, mr_pending = None, mr_chunks = [],
      mr_live = None\<rparr>"

definition new_media_buffer :: "int \<Rightarrow> mb_error + media_buffer" where
  "new_media_buffer hard_budget =
     (if hard_budget < chunk_size \<or> hard_budget mod chunk_size \<noteq> 0 then Inl BudgetError
      else Inr \<lparr>mb_hard_budget = hard_budget, mb_allocated = 0, mb_owned = 0, mb_free = [],
                mb_requests = [], mb_waiters = [], mb_next_request = 0, mb_next_chunk = 0,
                mb_next_grant = 0, mb_base_only = 0, mb_indebted = 0, mb_debt_bytes = 0,
                mb_request_heap = (\<lambda>_. fresh_request),
                mb_chunk_heap = (\<lambda>_. \<lparr>mc_generation = 0, mc_owner = 0\<rparr>)\<rparr>)"

definition align_size :: "int \<Rightarrow> int" where
  "align_size bytes = (if bytes \<le> 0 then 0 else bytes div chunk_size * chunk_size)"

abbreviation request :: "media_buffer \<Rightarrow> nat \<Rightarrow> mb_request" where
  "request b r \<equiv> mb_request_heap b r"

definition modify_request :: "nat \<Rightarrow> (mb_request \<Rightarrow> mb_request) \<Rightarrow> media_buffer \<Rightarrow> media_buffer" where
  "modify_request r f b = b\<lparr>mb_request_heap := (mb_request_heap b)(r := f (request b r))\<rparr>"

section \<open>Telemetry words\<close>

text \<open>
  \<open>packMediaBufferAllocation\<close> and its inverse (\<open>media_buffer_live.go\<close>): target, owned and debt
  in chunks, 20 bits each, saturating.
\<close>

definition packed_field :: "int \<Rightarrow> 64 word" where
  "packed_field bytes =
     (let n = (word_of_int (bytes div chunk_size) :: 64 word)
      in if n > 0xFFFFF then 0xFFFFF else n)"

definition pack_allocation :: "int \<Rightarrow> int \<Rightarrow> int \<Rightarrow> 64 word" where
  "pack_allocation target owned debt =
     or (or (packed_field target) (push_bit 20 (packed_field owned))) (push_bit 40 (packed_field debt))"

definition unpack_allocation :: "64 word \<Rightarrow> int \<times> int \<times> int" where
  "unpack_allocation w =
     (uint (and w 0xFFFFF) * chunk_size,
      uint (and (drop_bit 20 w) 0xFFFFF) * chunk_size,
      uint (and (drop_bit 40 w) 0xFFFFF) * chunk_size)"

text \<open>\<open>projectAllocationPreTerminal\<close> and \<open>projectBlockerPreTerminal\<close>.\<close>

definition project_allocation :: "int \<Rightarrow> int \<Rightarrow> int \<Rightarrow> live_projection \<Rightarrow> live_projection" where
  "project_allocation target owned debt l =
     (let word = pack_allocation target owned debt
      in if lp_allocation l = word then l
         else l\<lparr>lp_allocation := word,
                lp_peak_owned := max (lp_peak_owned l) owned,
                lp_peak_debt := max (lp_peak_debt l) debt\<rparr>)"

definition request_blocker :: "media_buffer \<Rightarrow> nat \<Rightarrow> blocker" where
  "request_blocker b i =
     (let r = request b i
      in if \<not> mr_waiting r \<or> mr_pending r \<noteq> None \<or> mr_closed r then BlockerNone
         else if mr_debt r > 0 then BlockerDebt
         else if mr_owned r + chunk_size > mr_target r then BlockerAtTarget
         else if mb_free b = [] \<and> mb_allocated b + chunk_size > mb_hard_budget b
         then BlockerPoolExhausted else BlockerNone)"

definition project_request :: "nat \<Rightarrow> media_buffer \<Rightarrow> media_buffer" where
  "project_request i b =
     modify_request i (\<lambda>r. r\<lparr>mr_live :=
       map_option (\<lambda>l. (project_allocation (mr_target r) (mr_owned r) (mr_debt r) l)
                         \<lparr>lp_blocker := request_blocker b i\<rparr>) (mr_live r)\<rparr>) b"

section \<open>Counters, debts and targets\<close>

definition add_request_counters :: "nat \<Rightarrow> media_buffer \<Rightarrow> media_buffer" where
  "add_request_counters i b =
     (let r = request b i;
          b = (if mr_owned r = 0 then b\<lparr>mb_base_only := mb_base_only b + 1\<rparr> else b)
      in if mr_debt r > 0
         then b\<lparr>mb_indebted := mb_indebted b + 1, mb_debt_bytes := mb_debt_bytes b + mr_debt r\<rparr>
         else b)"

definition remove_request_counters :: "nat \<Rightarrow> media_buffer \<Rightarrow> media_buffer" where
  "remove_request_counters i b =
     (let r = request b i;
          b = (if mr_owned r = 0 then b\<lparr>mb_base_only := mb_base_only b - 1\<rparr> else b)
      in if mr_debt r > 0
         then b\<lparr>mb_indebted := mb_indebted b - 1, mb_debt_bytes := mb_debt_bytes b - mr_debt r\<rparr>
         else b)"

definition recompute_debt :: "mb_request \<Rightarrow> mb_request" where
  "recompute_debt r =
     (let debt = mr_owned r - mr_target r in r\<lparr>mr_debt := (if debt < 0 then 0 else debt)\<rparr>)"

definition retarget :: "int \<Rightarrow> nat \<Rightarrow> media_buffer \<Rightarrow> media_buffer" where
  "retarget target i b =
     project_request i
       (add_request_counters i
         (modify_request i (\<lambda>r. recompute_debt (r\<lparr>mr_target := target\<rparr>))
           (remove_request_counters i b)))"

definition request_target :: "int \<Rightarrow> nat \<Rightarrow> int" where
  "request_target hard_budget n =
     (let target = align_size (hard_budget div int n)
      in if target > request_cap then request_cap else target)"

definition recompute_targets :: "media_buffer \<Rightarrow> media_buffer" where
  "recompute_targets b =
     (if mb_requests b = [] then b
      else (let target = request_target (mb_hard_budget b) (length (mb_requests b))
            in fold (retarget target) (mb_requests b) b))"

section \<open>Granting chunks\<close>

definition can_grant :: "media_buffer \<Rightarrow> nat \<Rightarrow> bool" where
  "can_grant b i =
     (let r = request b i
      in if mr_closed r \<or> \<not> mr_waiting r \<or> mr_pending r \<noteq> None \<or> mr_debt r \<noteq> 0 then False
         else if mr_owned r + chunk_size > mr_target r then False
         else mb_free b \<noteq> [] \<or> mb_allocated b + chunk_size \<le> mb_hard_budget b)"

definition take_chunk :: "media_buffer \<Rightarrow> nat option \<times> media_buffer" where
  "take_chunk b =
     (if mb_free b \<noteq> [] then (Some (last (mb_free b)), b\<lparr>mb_free := butlast (mb_free b)\<rparr>)
      else if mb_allocated b + chunk_size > mb_hard_budget b then (None, b)
      else (let c = mb_next_chunk b + 1
            in (Some c, b\<lparr>mb_next_chunk := c,
                         mb_chunk_heap := (mb_chunk_heap b)(c := \<lparr>mc_generation = 0, mc_owner = 0\<rparr>),
                         mb_allocated := mb_allocated b + chunk_size\<rparr>)))"

text \<open>The grant of chunk \<open>c\<close> to request \<open>i\<close>, up to the notification.\<close>

definition grant :: "nat \<Rightarrow> nat \<Rightarrow> media_buffer \<Rightarrow> media_buffer" where
  "grant i c b =
     (let b = modify_request i (\<lambda>r. r\<lparr>mr_waiting := False\<rparr>) b;
          g = mb_next_grant b + 1;
          b = b\<lparr>mb_next_grant := g,
                mb_chunk_heap := (mb_chunk_heap b)(c := \<lparr>mc_generation = g, mc_owner = i\<rparr>)\<rparr>;
          b = modify_request i
                (\<lambda>r. r\<lparr>mr_pending := Some \<lparr>ls_chunk = Some c, ls_request = i, ls_generation = g\<rparr>\<rparr>) b;
          b = remove_request_counters i b;
          b = modify_request i (\<lambda>r. recompute_debt (r\<lparr>mr_owned := mr_owned r + chunk_size\<rparr>)) b;
          b = add_request_counters i b
      in project_request i (b\<lparr>mb_owned := mb_owned b + chunk_size\<rparr>))"

definition send_notification :: "nat \<Rightarrow> media_buffer \<Rightarrow> mb_panic + media_buffer" where
  "send_notification i b =
     (if mr_notify_closed (request b i) then Inl SendOnClosed
      else if mr_notified (request b i) then Inl NotificationOccupied
      else Inr (modify_request i (\<lambda>r. r\<lparr>mr_notified := True\<rparr>) b))"

text \<open>
  The loop of \<open>scheduleLocked\<close> over the waiters it found; \<open>mb_waiters\<close> collects those that
  stay, in order.
\<close>

fun schedule_loop :: "nat list \<Rightarrow> media_buffer \<Rightarrow> mb_panic + media_buffer" where
  "schedule_loop [] b = Inr b"
| "schedule_loop (i # population) b =
     (if \<not> can_grant b i
      then schedule_loop population (project_request i (b\<lparr>mb_waiters := mb_waiters b @ [i]\<rparr>))
      else (case take_chunk b of
              (None, b) \<Rightarrow> schedule_loop population (b\<lparr>mb_waiters := mb_waiters b @ [i]\<rparr>)
            | (Some c, b) \<Rightarrow>
                (case send_notification i (grant i c b) of
                   Inl p \<Rightarrow> Inl p
                 | Inr b \<Rightarrow> schedule_loop population b)))"

definition schedule :: "media_buffer \<Rightarrow> mb_panic + media_buffer" where
  "schedule b = schedule_loop (mb_waiters b) (b\<lparr>mb_waiters := []\<rparr>)"

definition assert_accounting :: "media_buffer \<Rightarrow> mb_panic + media_buffer" where
  "assert_accounting b =
     (if int (length (mb_free b)) > mb_hard_budget b div chunk_size then Inl InvalidAccounting
      else (let free_bytes = int (length (mb_free b)) * chunk_size
            in if mb_hard_budget b < chunk_size \<or> mb_hard_budget b mod chunk_size \<noteq> 0 \<or>
                  mb_allocated b < 0 \<or> mb_allocated b mod chunk_size \<noteq> 0 \<or>
                  mb_allocated b > mb_hard_budget b \<or>
                  mb_owned b < 0 \<or> mb_owned b mod chunk_size \<noteq> 0 \<or> mb_owned b > mb_allocated b \<or>
                  free_bytes < 0 \<or> mb_allocated b \<noteq> mb_owned b + free_bytes \<or>
                  length (mb_waiters b) > length (mb_requests b)
               then Inl InvalidAccounting else Inr b))"

definition schedule_and_assert :: "media_buffer \<Rightarrow> mb_panic + media_buffer" where
  "schedule_and_assert b = (case schedule b of Inl p \<Rightarrow> Inl p | Inr b \<Rightarrow> assert_accounting b)"

section \<open>Releasing chunks\<close>

definition drain_notification :: "nat \<Rightarrow> media_buffer \<Rightarrow> media_buffer" where
  "drain_notification i b = modify_request i (\<lambda>r. r\<lparr>mr_notified := False\<rparr>) b"

definition release_owned_chunk :: "nat \<Rightarrow> nat \<Rightarrow> media_buffer \<Rightarrow> media_buffer" where
  "release_owned_chunk i c b =
     (let b = b\<lparr>mb_chunk_heap := (mb_chunk_heap b)(c := (mb_chunk_heap b c)\<lparr>mc_owner := 0\<rparr>)\<rparr>;
          b = remove_request_counters i b;
          b = modify_request i (\<lambda>r. recompute_debt (r\<lparr>mr_owned := mr_owned r - chunk_size\<rparr>)) b;
          b = add_request_counters i b;
          b = b\<lparr>mb_owned := mb_owned b - chunk_size, mb_free := mb_free b @ [c]\<rparr>
      in project_request i b)"

definition release_accepted :: "nat \<Rightarrow> nat \<Rightarrow> media_buffer \<Rightarrow> media_buffer" where
  "release_accepted i c b =
     release_owned_chunk i c
       (modify_request i (\<lambda>r. r\<lparr>mr_chunks := AList.delete c (mr_chunks r)\<rparr>) b)"

text \<open>The pending lease of a request whose pending pointer is not nil.\<close>

definition reclaim_pending :: "nat \<Rightarrow> lease \<Rightarrow> media_buffer \<Rightarrow> mb_panic + media_buffer" where
  "reclaim_pending i l b =
     (case ls_chunk l of
        None \<Rightarrow> Inl InvalidPendingLease
      | Some c \<Rightarrow>
          (if ls_request l \<noteq> i \<or> mc_owner (mb_chunk_heap b c) \<noteq> i \<or>
              mc_generation (mb_chunk_heap b c) \<noteq> ls_generation l
           then Inl InvalidPendingLease
           else Inr (release_owned_chunk i c
                  (drain_notification i (modify_request i (\<lambda>r. r\<lparr>mr_pending := None\<rparr>) b)))))"

definition remove_waiter :: "nat \<Rightarrow> media_buffer \<Rightarrow> mb_panic + media_buffer" where
  "remove_waiter i b =
     (if i \<in> set (mb_waiters b)
      then Inr (modify_request i (\<lambda>r. r\<lparr>mr_waiting := False\<rparr>)
                  (b\<lparr>mb_waiters := remove1 i (mb_waiters b)\<rparr>))
      else Inl WaiterMissing)"

definition valid_accepted_lease :: "media_buffer \<Rightarrow> nat \<Rightarrow> lease \<Rightarrow> bool" where
  "valid_accepted_lease b i l =
     (case ls_chunk l of
        None \<Rightarrow> False
      | Some c \<Rightarrow>
          (if ls_request l \<noteq> i \<or> mc_owner (mb_chunk_heap b c) \<noteq> i \<or>
              mc_generation (mb_chunk_heap b c) \<noteq> ls_generation l then False
           else map_of (mr_chunks (request b i)) c = Some (ls_generation l)))"

section \<open>Operations\<close>

type_synonym 'a mb_result = "mb_panic + media_buffer \<times> (mb_error + 'a)"

definition register :: "media_buffer \<Rightarrow> mb_panic + media_buffer \<times> nat" where
  "register b =
     (let i = mb_next_request b + 1;
          b = b\<lparr>mb_next_request := i,
                mb_request_heap := (mb_request_heap b)(i := fresh_request),
                mb_requests := mb_requests b @ [i]\<rparr>;
          b = recompute_targets (add_request_counters i b)
      in map_sum id (\<lambda>b. (b, i)) (schedule_and_assert b))"

definition attach_live :: "nat \<Rightarrow> live_projection \<Rightarrow> media_buffer \<Rightarrow> media_buffer" where
  "attach_live i l b =
     (if \<not> mr_closed (request b i)
      then project_request i (modify_request i (\<lambda>r. r\<lparr>mr_live := Some l\<rparr>) b)
      else b)"

definition request_optional :: "nat \<Rightarrow> media_buffer \<Rightarrow> unit mb_result" where
  "request_optional i b =
     (if mr_closed (request b i) then Inr (b, Inl BufferClosed)
      else if mr_pending (request b i) \<noteq> None \<or> mr_waiting (request b i) then Inr (b, Inr ())
      else (let b = modify_request i (\<lambda>r. r\<lparr>mr_waiting := True\<rparr>) b;
                b = b\<lparr>mb_waiters := mb_waiters b @ [i]\<rparr>
            in map_sum id (\<lambda>b. (b, Inr ())) (schedule_and_assert b)))"

definition accept_optional :: "nat \<Rightarrow> media_buffer \<Rightarrow> lease mb_result" where
  "accept_optional i b =
     (if mr_closed (request b i) then Inr (b, Inl BufferClosed)
      else (case mr_pending (request b i) of
              None \<Rightarrow> Inr (b, Inl NoGrant)
            | Some l \<Rightarrow>
                (let b = drain_notification i (modify_request i (\<lambda>r. r\<lparr>mr_pending := None\<rparr>) b);
                     b = modify_request i
                           (\<lambda>r. r\<lparr>mr_chunks := (case ls_chunk l of
                                    None \<Rightarrow> mr_chunks r
                                  | Some c \<Rightarrow> AList.update c (ls_generation l) (mr_chunks r))\<rparr>) b
                 in map_sum id (\<lambda>b. (b, Inr l)) (assert_accounting b))))"

definition cancel_optional :: "nat \<Rightarrow> media_buffer \<Rightarrow> unit mb_result" where
  "cancel_optional i b =
     (if mr_closed (request b i) then Inr (b, Inl BufferClosed)
      else map_sum id (\<lambda>b. (b, Inr ()))
        (case mr_pending (request b i) of
           Some l \<Rightarrow>
             (case reclaim_pending i l b of Inl p \<Rightarrow> Inl p | Inr b \<Rightarrow> schedule_and_assert b)
         | None \<Rightarrow>
             (if mr_waiting (request b i)
              then (case remove_waiter i b of
                      Inl p \<Rightarrow> Inl p
                    | Inr b \<Rightarrow> assert_accounting (project_request i b))
              else assert_accounting b)))"

definition release_optional :: "nat \<Rightarrow> lease \<Rightarrow> media_buffer \<Rightarrow> unit mb_result" where
  "release_optional i l b =
     (if mr_closed (request b i) then Inr (b, Inl BufferClosed)
      else if \<not> valid_accepted_lease b i l then Inr (b, Inl BadOwnership)
      else map_sum id (\<lambda>b. (b, Inr ()))
             (schedule_and_assert (release_accepted i (the (ls_chunk l)) b)))"

text \<open>\<open>close\<close> is \<open>closeAndCaptureTerminal\<close> without live telemetry to capture.\<close>

definition close_step_waiter :: "nat \<Rightarrow> media_buffer \<Rightarrow> mb_panic + media_buffer" where
  "close_step_waiter i b = (if mr_waiting (request b i) then remove_waiter i b else Inr b)"

definition close_step_pending :: "nat \<Rightarrow> media_buffer \<Rightarrow> mb_panic + media_buffer" where
  "close_step_pending i b =
     (case mr_pending (request b i) of
        Some l \<Rightarrow> reclaim_pending i l b
      | None \<Rightarrow> Inr (drain_notification i b))"

definition close_step_chunks :: "nat \<Rightarrow> media_buffer \<Rightarrow> media_buffer" where
  "close_step_chunks i b = fold (release_accepted i) (map fst (mr_chunks (request b i))) b"

definition close_step_remove :: "nat \<Rightarrow> media_buffer \<Rightarrow> mb_panic + media_buffer" where
  "close_step_remove i b =
     (let b = remove_request_counters i b
      in if i \<notin> set (mb_requests b) then Inl RequestMissing
         else Inr (modify_request i (\<lambda>r. r\<lparr>mr_notify_closed := True\<rparr>)
                     (b\<lparr>mb_requests := remove1 i (mb_requests b)\<rparr>)))"

definition close_request :: "nat \<Rightarrow> media_buffer \<Rightarrow> mb_panic + media_buffer" where
  "close_request i b =
     (if mr_closed (request b i) then Inr b
      else (let b = modify_request i (\<lambda>r. r\<lparr>mr_closed := True\<rparr>) b
      in case close_step_waiter i b of
           Inl p \<Rightarrow> Inl p
         | Inr b \<Rightarrow>
      (case close_step_pending i b of
         Inl p \<Rightarrow> Inl p
       | Inr b \<Rightarrow>
      (case close_step_remove i (close_step_chunks i b) of
         Inl p \<Rightarrow> Inl p
       | Inr b \<Rightarrow> schedule_and_assert (recompute_targets b)))))"

record mb_snapshot =
  sn_hard_budget :: int
  sn_allocated :: int
  sn_owned :: int
  sn_free :: int
  sn_active :: int
  sn_base_only :: int
  sn_indebted :: int
  sn_debt_bytes :: int

definition pool_snapshot :: "media_buffer \<Rightarrow> mb_snapshot" where
  "pool_snapshot b =
     \<lparr>sn_hard_budget = mb_hard_budget b, sn_allocated = mb_allocated b, sn_owned = mb_owned b,
      sn_free = int (length (mb_free b)) * chunk_size, sn_active = int (length (mb_requests b)),
      sn_base_only = mb_base_only b, sn_indebted = mb_indebted b,
      sn_debt_bytes = mb_debt_bytes b\<rparr>"

record mb_request_snapshot =
  rs_id :: nat
  rs_target :: int
  rs_owned :: int
  rs_debt :: int
  rs_requesting :: bool
  rs_pending :: bool
  rs_closed :: bool

definition buffer_request_snapshot :: "nat \<Rightarrow> media_buffer \<Rightarrow> mb_request_snapshot" where
  "buffer_request_snapshot i b =
     (let r = request b i
      in \<lparr>rs_id = i, rs_target = mr_target r, rs_owned = mr_owned r, rs_debt = mr_debt r,
          rs_requesting = mr_waiting r \<or> mr_pending r \<noteq> None,
          rs_pending = mr_pending r \<noteq> None, rs_closed = mr_closed r\<rparr>)"


section \<open>Sums over the open requests\<close>

definition tally :: "(mb_request \<Rightarrow> 'a :: comm_monoid_add) \<Rightarrow> media_buffer \<Rightarrow> 'a" where
  "tally f b = sum_list (map (\<lambda>i. f (request b i)) (mb_requests b))"

lemma sum_list_fun_upd:
  fixes f :: "'v \<Rightarrow> 'a :: cancel_comm_monoid_add"
  assumes "distinct is" and "i \<in> set is"
  shows "sum_list (map (\<lambda>j. f ((h(i := v)) j)) is) + f (h i) = sum_list (map (\<lambda>j. f (h j)) is) + f v"
  using assms
proof (induction "is")
  case Nil
  then show ?case by simp
next
  case (Cons j js)
  show ?case
  proof (cases "i = j")
    case True
    with Cons.prems have "map (\<lambda>k. f ((h(i := v)) k)) js = map (\<lambda>k. f (h k)) js"
      by (intro map_cong refl) auto
    then have "sum_list (map (\<lambda>k. f ((h(i := v)) k)) js) = sum_list (map (\<lambda>k. f (h k)) js)"
      by (simp only:)
    with True show ?thesis by (simp add: ac_simps)
  next
    case False
    with Cons show ?thesis by (simp add: add.assoc)
  qed
qed

lemma tally_modify:
  fixes f :: "mb_request \<Rightarrow> 'a :: cancel_comm_monoid_add"
  assumes "distinct (mb_requests b)" and "i \<in> set (mb_requests b)"
  shows "tally f (modify_request i g b) + f (request b i) = tally f b + f (g (request b i))"
  using sum_list_fun_upd [OF assms, of f "mb_request_heap b" "g (request b i)"]
  by (simp add: tally_def modify_request_def)

lemma tally_modify_same:
  assumes "f (g (request b i)) = f (request b i)"
  shows "tally f (modify_request i g b) = tally f b"
  using assms by (auto simp: tally_def modify_request_def intro: arg_cong [where f = sum_list])

lemma tally_cong:
  "mb_requests b' = mb_requests b \<Longrightarrow> mb_request_heap b' = mb_request_heap b \<Longrightarrow> tally f b' = tally f b"
  by (simp add: tally_def)

section \<open>The counters are sums\<close>

definition base_count :: "mb_request \<Rightarrow> int" where
  "base_count r = (if mr_owned r = 0 then 1 else 0)"

definition debt_count :: "mb_request \<Rightarrow> int" where
  "debt_count r = (if mr_debt r > 0 then 1 else 0)"

definition debt_sum :: "mb_request \<Rightarrow> int" where
  "debt_sum r = (if mr_debt r > 0 then mr_debt r else 0)"

definition counters_ok :: "media_buffer \<Rightarrow> bool" where
  "counters_ok b \<longleftrightarrow>
     mb_base_only b = tally base_count b \<and> mb_indebted b = tally debt_count b \<and>
     mb_debt_bytes b = tally debt_sum b"

lemma modify_request_simps [simp]:
  "mb_hard_budget (modify_request i g b) = mb_hard_budget b"
  "mb_allocated (modify_request i g b) = mb_allocated b"
  "mb_owned (modify_request i g b) = mb_owned b"
  "mb_free (modify_request i g b) = mb_free b"
  "mb_requests (modify_request i g b) = mb_requests b"
  "mb_waiters (modify_request i g b) = mb_waiters b"
  "mb_next_request (modify_request i g b) = mb_next_request b"
  "mb_next_chunk (modify_request i g b) = mb_next_chunk b"
  "mb_next_grant (modify_request i g b) = mb_next_grant b"
  "mb_base_only (modify_request i g b) = mb_base_only b"
  "mb_indebted (modify_request i g b) = mb_indebted b"
  "mb_debt_bytes (modify_request i g b) = mb_debt_bytes b"
  "mb_chunk_heap (modify_request i g b) = mb_chunk_heap b"
  "mb_request_heap (modify_request i g b) = (mb_request_heap b)(i := g (request b i))"
  by (simp_all add: modify_request_def)

lemma counters_simps [simp]:
  "mb_hard_budget (add_request_counters i b) = mb_hard_budget b"
  "mb_allocated (add_request_counters i b) = mb_allocated b"
  "mb_owned (add_request_counters i b) = mb_owned b"
  "mb_free (add_request_counters i b) = mb_free b"
  "mb_requests (add_request_counters i b) = mb_requests b"
  "mb_waiters (add_request_counters i b) = mb_waiters b"
  "mb_next_request (add_request_counters i b) = mb_next_request b"
  "mb_next_chunk (add_request_counters i b) = mb_next_chunk b"
  "mb_next_grant (add_request_counters i b) = mb_next_grant b"
  "mb_chunk_heap (add_request_counters i b) = mb_chunk_heap b"
  "mb_request_heap (add_request_counters i b) = mb_request_heap b"
  "mb_hard_budget (remove_request_counters i b) = mb_hard_budget b"
  "mb_allocated (remove_request_counters i b) = mb_allocated b"
  "mb_owned (remove_request_counters i b) = mb_owned b"
  "mb_free (remove_request_counters i b) = mb_free b"
  "mb_requests (remove_request_counters i b) = mb_requests b"
  "mb_waiters (remove_request_counters i b) = mb_waiters b"
  "mb_next_request (remove_request_counters i b) = mb_next_request b"
  "mb_next_chunk (remove_request_counters i b) = mb_next_chunk b"
  "mb_next_grant (remove_request_counters i b) = mb_next_grant b"
  "mb_chunk_heap (remove_request_counters i b) = mb_chunk_heap b"
  "mb_request_heap (remove_request_counters i b) = mb_request_heap b"
  by (simp_all add: add_request_counters_def remove_request_counters_def Let_def)

lemma counter_values:
  "mb_base_only (add_request_counters i b) = mb_base_only b + base_count (request b i)"
  "mb_indebted (add_request_counters i b) = mb_indebted b + debt_count (request b i)"
  "mb_debt_bytes (add_request_counters i b) = mb_debt_bytes b + debt_sum (request b i)"
  "mb_base_only (remove_request_counters i b) = mb_base_only b - base_count (request b i)"
  "mb_indebted (remove_request_counters i b) = mb_indebted b - debt_count (request b i)"
  "mb_debt_bytes (remove_request_counters i b) = mb_debt_bytes b - debt_sum (request b i)"
  by (simp_all add: add_request_counters_def remove_request_counters_def base_count_def
      debt_count_def debt_sum_def Let_def)

lemma tally_counters [simp]:
  "tally f (add_request_counters i b) = tally f b"
  "tally f (remove_request_counters i b) = tally f b"
  by (simp_all add: tally_def)

lemma counters_ok_update:
  assumes "counters_ok b" and "distinct (mb_requests b)" and "i \<in> set (mb_requests b)"
  shows "counters_ok (add_request_counters i (modify_request i g (remove_request_counters i b)))"
proof -
  let ?b = "remove_request_counters i b"
  have d: "distinct (mb_requests ?b)" "i \<in> set (mb_requests ?b)" using assms by simp_all
  have "tally base_count (modify_request i g ?b) + base_count (request b i) =
      tally base_count b + base_count (g (request b i))"
    and "tally debt_count (modify_request i g ?b) + debt_count (request b i) =
      tally debt_count b + debt_count (g (request b i))"
    and "tally debt_sum (modify_request i g ?b) + debt_sum (request b i) =
      tally debt_sum b + debt_sum (g (request b i))"
    using tally_modify [OF d, of _ g] by simp_all
  with assms(1) show ?thesis by (simp add: counters_ok_def counter_values)
qed

lemma counters_ok_neutral:
  assumes "mr_owned (g (request b i)) = mr_owned (request b i)"
    and "mr_debt (g (request b i)) = mr_debt (request b i)"
  shows "counters_ok (modify_request i g b) \<longleftrightarrow> counters_ok b"
  using assms
  by (simp add: counters_ok_def tally_modify_same base_count_def debt_count_def debt_sum_def)

lemma counters_ok_cong:
  "mb_requests b' = mb_requests b \<Longrightarrow> mb_request_heap b' = mb_request_heap b \<Longrightarrow>
   mb_base_only b' = mb_base_only b \<Longrightarrow> mb_indebted b' = mb_indebted b \<Longrightarrow>
   mb_debt_bytes b' = mb_debt_bytes b \<Longrightarrow> counters_ok b' \<longleftrightarrow> counters_ok b"
  by (simp add: counters_ok_def tally_def)

end
