(* ===== verification/Media_Buffer_Safety.thy ===== *)
theory Media_Buffer_Safety
  imports Media_Buffer
begin

text \<open>
  Safety of the chunk pool of \<open>Media_Buffer\<close>: the invariant of its states, its preservation by
  every operation, and what follows for every state reachable from \<open>newMediaBuffer\<close>.
\<close>

section \<open>The invariant\<close>

text \<open>The chunks a request holds: the one of its pending grant and the accepted ones.\<close>

definition held :: "mb_request \<Rightarrow> nat list" where
  "held r =
     (case mr_pending r of None \<Rightarrow> [] | Some l \<Rightarrow> (case ls_chunk l of None \<Rightarrow> [] | Some c \<Rightarrow> [c])) @
     map fst (mr_chunks r)"

definition lease_ok :: "(nat \<Rightarrow> mb_chunk) \<Rightarrow> nat \<Rightarrow> lease \<Rightarrow> bool" where
  "lease_ok ch i l \<longleftrightarrow>
     (\<exists>c. ls_chunk l = Some c \<and> ls_request l = i \<and>
          mc_owner (ch c) = i \<and> mc_generation (ch c) = ls_generation l)"

definition request_ok :: "(nat \<Rightarrow> mb_chunk) \<Rightarrow> nat \<Rightarrow> mb_request \<Rightarrow> bool" where
  "request_ok ch i r \<longleftrightarrow>
     mr_owned r = chunk_size * int (length (held r)) \<and> mr_owned r \<le> request_cap \<and>
     0 \<le> mr_target r \<and> mr_target r \<le> request_cap \<and> mr_target r mod chunk_size = 0 \<and>
     mr_debt r = max 0 (mr_owned r - mr_target r) \<and>
     (mr_notified r \<longleftrightarrow> mr_pending r \<noteq> None) \<and> \<not> mr_notify_closed r \<and>
     (mr_waiting r \<longrightarrow> mr_pending r = None) \<and>
     (\<forall>l. mr_pending r = Some l \<longrightarrow> lease_ok ch i l) \<and>
     distinct_keys (mr_chunks r) \<and>
     (\<forall>c g. map_of (mr_chunks r) c = Some g \<longrightarrow> mc_owner (ch c) = i \<and> mc_generation (ch c) = g)"

text \<open>\<open>L\<close> holds the chunks in transit, those that are at the moment neither held nor free.\<close>

definition mb_core :: "nat multiset \<Rightarrow> media_buffer \<Rightarrow> bool" where
  "mb_core L b \<longleftrightarrow>
     chunk_size \<le> mb_hard_budget b \<and> mb_hard_budget b mod chunk_size = 0 \<and>
     mb_allocated b = chunk_size * int (mb_next_chunk b) \<and> mb_allocated b \<le> mb_hard_budget b \<and>
     tally (\<lambda>r. mset (held r)) b + mset (mb_free b) + L = mset [1 ..< Suc (mb_next_chunk b)] \<and>
     mb_owned b = tally mr_owned b \<and> counters_ok b \<and>
     distinct (mb_requests b) \<and>
     (\<forall>i \<in> set (mb_requests b). 1 \<le> i \<and> i \<le> mb_next_request b \<and>
        request_ok (mb_chunk_heap b) i (request b i)) \<and>
     (\<forall>i. 1 \<le> i \<and> i \<le> mb_next_request b \<and> i \<notin> set (mb_requests b) \<longrightarrow> mr_closed (request b i))"

definition waiters_ok :: "nat list \<Rightarrow> media_buffer \<Rightarrow> bool" where
  "waiters_ok W b \<longleftrightarrow> distinct W \<and> set W = {i \<in> set (mb_requests b). mr_waiting (request b i)}"

definition none_closed :: "media_buffer \<Rightarrow> bool" where
  "none_closed b \<longleftrightarrow> (\<forall>i \<in> set (mb_requests b). \<not> mr_closed (request b i))"

definition targets_ok :: "media_buffer \<Rightarrow> bool" where
  "targets_ok b \<longleftrightarrow>
     (\<forall>i \<in> set (mb_requests b).
        mr_target (request b i) = request_target (mb_hard_budget b) (length (mb_requests b)))"

definition blocked :: "nat list \<Rightarrow> media_buffer \<Rightarrow> bool" where
  "blocked W b \<longleftrightarrow> (\<forall>w \<in> set W. \<not> can_grant b w)"

text \<open>The states before \<open>scheduleLocked\<close> runs, and the states between operations.\<close>

definition mb_pre :: "media_buffer \<Rightarrow> bool" where
  "mb_pre b \<longleftrightarrow> mb_core {#} b \<and> waiters_ok (mb_waiters b) b \<and> none_closed b \<and> targets_ok b"

definition mb_inv :: "media_buffer \<Rightarrow> bool" where
  "mb_inv b \<longleftrightarrow> mb_pre b \<and> blocked (mb_waiters b) b"

lemma chunk_size_pos [simp]: "0 < chunk_size"
  by (simp add: chunk_size_def)

lemma chunk_size_nonneg [simp]: "0 \<le> chunk_size"
  by (simp add: chunk_size_def)

lemma request_target_ok:
  "0 \<le> request_target hard n" "request_target hard n \<le> request_cap"
  "request_target hard n mod chunk_size = 0"
  by (auto simp: request_target_def align_size_def Let_def request_cap_def chunk_size_def)

subsection \<open>What projection to telemetry does not touch\<close>

lemma project_request_simps [simp]:
  "mb_hard_budget (project_request i b) = mb_hard_budget b"
  "mb_allocated (project_request i b) = mb_allocated b"
  "mb_owned (project_request i b) = mb_owned b"
  "mb_free (project_request i b) = mb_free b"
  "mb_requests (project_request i b) = mb_requests b"
  "mb_waiters (project_request i b) = mb_waiters b"
  "mb_next_request (project_request i b) = mb_next_request b"
  "mb_next_chunk (project_request i b) = mb_next_chunk b"
  "mb_next_grant (project_request i b) = mb_next_grant b"
  "mb_base_only (project_request i b) = mb_base_only b"
  "mb_indebted (project_request i b) = mb_indebted b"
  "mb_debt_bytes (project_request i b) = mb_debt_bytes b"
  "mb_chunk_heap (project_request i b) = mb_chunk_heap b"
  by (simp_all add: project_request_def)

text \<open>The state of a request without its live telemetry.\<close>

definition quiet :: "mb_request \<Rightarrow> mb_request" where
  "quiet r = r\<lparr>mr_live := None\<rparr>"

lemma quiet_eqD:
  assumes "quiet r = quiet r'"
  shows "mr_target r = mr_target r'" "mr_owned r = mr_owned r'" "mr_debt r = mr_debt r'"
    "mr_waiting r = mr_waiting r'" "mr_closed r = mr_closed r'" "mr_notified r = mr_notified r'"
    "mr_notify_closed r = mr_notify_closed r'" "mr_pending r = mr_pending r'"
    "mr_chunks r = mr_chunks r'"
  using assms by (cases r; cases r'; simp add: quiet_def)+

lemma quiet_project [simp]: "quiet (request (project_request i b) j) = quiet (request b j)"
  by (simp add: project_request_def quiet_def)

lemmas project_request_fields [simp] = quiet_eqD [OF quiet_project]

lemma held_project [simp]: "held (request (project_request i b) j) = held (request b j)"
  by (simp add: held_def)

lemma request_ok_project [simp]:
  "request_ok ch k (request (project_request i b) j) \<longleftrightarrow> request_ok ch k (request b j)"
  by (simp add: request_ok_def)

lemma tally_project:
  assumes "\<And>r r'. quiet r = quiet r' \<Longrightarrow> f r = f r'"
  shows "tally f (project_request i b) = tally f b"
  unfolding tally_def
  by (intro arg_cong [where f = sum_list] map_cong) (auto intro: assms)

lemma quiet_values:
  assumes "quiet r = quiet r'"
  shows "held r = held r'" "base_count r = base_count r'" "debt_count r = debt_count r'"
    "debt_sum r = debt_sum r'" "request_ok ch k r \<longleftrightarrow> request_ok ch k r'"
proof -
  note eqs = quiet_eqD [OF assms]
  show h: "held r = held r'" unfolding held_def eqs ..
  show "base_count r = base_count r'" unfolding base_count_def eqs ..
  show "debt_count r = debt_count r'" unfolding debt_count_def eqs ..
  show "debt_sum r = debt_sum r'" unfolding debt_sum_def eqs ..
  show "request_ok ch k r \<longleftrightarrow> request_ok ch k r'" unfolding request_ok_def eqs h ..
qed

lemma tally_quiet:
  assumes "mb_requests b' = mb_requests b" and "\<And>j. quiet (request b' j) = quiet (request b j)"
    and "\<And>r r'. quiet r = quiet r' \<Longrightarrow> f r = f r'"
  shows "tally f b' = tally f b"
  unfolding tally_def assms(1)
  by (intro arg_cong [where f = sum_list] map_cong refl assms(3) assms(2))

lemma tallies_project [simp]:
  "tally mr_owned (project_request i b) = tally mr_owned b"
  "tally (\<lambda>r. mset (held r)) (project_request i b) = tally (\<lambda>r. mset (held r)) b"
  "tally base_count (project_request i b) = tally base_count b"
  "tally debt_count (project_request i b) = tally debt_count b"
  "tally debt_sum (project_request i b) = tally debt_sum b"
  by (blast intro: tally_quiet [OF project_request_simps(5) quiet_project] quiet_eqD(2)
      quiet_values arg_cong [where f = mset])+

lemma counters_ok_project [simp]: "counters_ok (project_request i b) \<longleftrightarrow> counters_ok b"
  by (simp add: counters_ok_def)

lemma invariants_project [simp]:
  "mb_core L (project_request i b) \<longleftrightarrow> mb_core L b"
  "waiters_ok W (project_request i b) \<longleftrightarrow> waiters_ok W b"
  "none_closed (project_request i b) \<longleftrightarrow> none_closed b"
  "targets_ok (project_request i b) \<longleftrightarrow> targets_ok b"
  by (simp_all add: mb_core_def waiters_ok_def none_closed_def targets_ok_def)

subsection \<open>Chunks are held once\<close>

lemma tally_split:
  fixes f :: "mb_request \<Rightarrow> 'a :: comm_monoid_add"
  assumes "i \<in> set (mb_requests b)"
  obtains rest where "tally f b = f (request b i) + rest"
    and "\<And>j. j \<in> set (mb_requests b) \<Longrightarrow> j \<noteq> i \<Longrightarrow> \<exists>rest'. rest = f (request b j) + rest'"
proof -
  from split_list [OF assms] obtain xs ys where xs: "mb_requests b = xs @ i # ys" by blast
  let ?s = "\<lambda>is. sum_list (map (\<lambda>i. f (request b i)) is)"
  have "tally f b = f (request b i) + ?s (xs @ ys)"
    by (simp add: tally_def xs ac_simps)
  moreover have "\<exists>rest'. ?s (xs @ ys) = f (request b j) + rest'"
    if j: "j \<in> set (mb_requests b)" "j \<noteq> i" for j
  proof -
    from j xs have "j \<in> set (xs @ ys)" by auto
    from split_list [OF this] obtain us vs where "xs @ ys = us @ j # vs" by blast
    then have "?s (xs @ ys) = f (request b j) + ?s (us @ vs)" by (simp add: ac_simps)
    then show ?thesis by blast
  qed
  ultimately show ?thesis by (rule that)
qed

lemma mset_upt_one:
  assumes "X + Y = mset [1 ..< Suc n]"
  shows "c \<in># X \<Longrightarrow> c \<notin># Y" and "c \<in># X \<Longrightarrow> 1 \<le> c \<and> c \<le> n"
proof -
  have le: "count (X + Y) c \<le> 1"
    unfolding assms by (simp add: distinct_count_atmost_1 [THEN iffD1])
  assume c: "c \<in># X"
  then have "0 < count X c" by (simp only: count_greater_zero_iff)
  with le have "count Y c = 0" unfolding plus_multiset.rep_eq by arith
  then show "c \<notin># Y" by (simp only: count_eq_zero_iff) simp
  from c have "c \<in># X + Y" by simp
  then show "1 \<le> c \<and> c \<le> n" unfolding assms by auto
qed

lemma mb_coreD:
  assumes "mb_core L b"
  shows "chunk_size \<le> mb_hard_budget b" "mb_hard_budget b mod chunk_size = 0"
    "mb_allocated b = chunk_size * int (mb_next_chunk b)" "mb_allocated b \<le> mb_hard_budget b"
    "tally (\<lambda>r. mset (held r)) b + mset (mb_free b) + L = mset [1 ..< Suc (mb_next_chunk b)]"
    "mb_owned b = tally mr_owned b" "counters_ok b" "distinct (mb_requests b)"
    "\<And>i. i \<in> set (mb_requests b) \<Longrightarrow> 1 \<le> i" "\<And>i. i \<in> set (mb_requests b) \<Longrightarrow> i \<le> mb_next_request b"
    "\<And>i. i \<in> set (mb_requests b) \<Longrightarrow> request_ok (mb_chunk_heap b) i (request b i)"
    "\<And>i. 1 \<le> i \<Longrightarrow> i \<le> mb_next_request b \<Longrightarrow> i \<notin> set (mb_requests b) \<Longrightarrow> mr_closed (request b i)"
  using assms unfolding mb_core_def by blast+

lemma held_once:
  assumes core: "mb_core L b" and i: "i \<in> set (mb_requests b)" and c: "c \<in> set (held (request b i))"
  shows "c \<notin> set (mb_free b)" "c \<notin># L" "1 \<le> c" "c \<le> mb_next_chunk b"
    "\<And>j. j \<in> set (mb_requests b) \<Longrightarrow> j \<noteq> i \<Longrightarrow> c \<notin> set (held (request b j))"
proof -
  obtain rest where t: "tally (\<lambda>r. mset (held r)) b = mset (held (request b i)) + rest"
    and r: "\<And>j. j \<in> set (mb_requests b) \<Longrightarrow> j \<noteq> i \<Longrightarrow> \<exists>rest'. rest = mset (held (request b j)) + rest'"
    by (rule tally_split [OF i, where f = "\<lambda>r. mset (held r)"]) blast
  have eq: "mset (held (request b i)) + (rest + mset (mb_free b) + L) = mset [1 ..< Suc (mb_next_chunk b)]"
    using mb_coreD(5) [OF core] by (simp add: t ac_simps)
  have c': "c \<in># mset (held (request b i))" using c by simp
  note out = mset_upt_one [OF eq c']
  from out show "c \<notin> set (mb_free b)" "c \<notin># L" "1 \<le> c" "c \<le> mb_next_chunk b" by simp_all
  show "c \<notin> set (held (request b j))" if "j \<in> set (mb_requests b)" "j \<noteq> i" for j
    using r [OF that] out by auto
qed

lemma transit_not_held:
  assumes core: "mb_core L b" and c: "c \<in># L"
  shows "c \<notin> set (mb_free b)" "1 \<le> c" "c \<le> mb_next_chunk b"
    "\<And>j. j \<in> set (mb_requests b) \<Longrightarrow> c \<notin> set (held (request b j))"
proof -
  have eq: "L + (tally (\<lambda>r. mset (held r)) b + mset (mb_free b)) = mset [1 ..< Suc (mb_next_chunk b)]"
    using mb_coreD(5) [OF core] by (simp add: ac_simps)
  show "c \<notin> set (mb_free b)" "1 \<le> c" "c \<le> mb_next_chunk b"
    using mset_upt_one [OF eq c] by simp_all
  show "c \<notin> set (held (request b j))" if "j \<in> set (mb_requests b)" for j
    using held_once(2) [OF core that] c by blast
qed

text \<open>A request looks only at the chunks it holds.\<close>

lemma request_ok_heap:
  assumes ok: "request_ok ch i r" and same: "\<And>c. c \<in> set (held r) \<Longrightarrow> ch' c = ch c"
  shows "request_ok ch' i r"
proof -
  have "lease_ok ch' i l" if "mr_pending r = Some l" for l
  proof -
    from ok that have "lease_ok ch i l" by (simp add: request_ok_def)
    then obtain c where c: "ls_chunk l = Some c" by (auto simp: lease_ok_def)
    with that have "ch' c = ch c" by (intro same) (simp add: held_def)
    with \<open>lease_ok ch i l\<close> c show ?thesis by (simp add: lease_ok_def)
  qed
  moreover have "mc_owner (ch' c) = i \<and> mc_generation (ch' c) = g"
    if "map_of (mr_chunks r) c = Some g" for c g
  proof -
    from that have "c \<in> fst ` set (mr_chunks r)" by (rule map_of_SomeD [THEN imageI, of _ _ _ fst, simplified])
    then have "ch' c = ch c" by (intro same) (simp add: held_def)
    with ok that show ?thesis by (simp add: request_ok_def)
  qed
  ultimately show ?thesis using ok unfolding request_ok_def by blast
qed

subsection \<open>One request changes\<close>

lemma tally_update:
  fixes f :: "mb_request \<Rightarrow> 'a :: cancel_comm_monoid_add"
  assumes "mb_requests b' = mb_requests b" and "quiet (request b' i) = quiet r'"
    and "\<And>j. j \<noteq> i \<Longrightarrow> quiet (request b' j) = quiet (request b j)"
    and "distinct (mb_requests b)" and "i \<in> set (mb_requests b)"
    and f: "\<And>r r'. quiet r = quiet r' \<Longrightarrow> f r = f r'"
  shows "tally f b' + f (request b i) = tally f b + f r'"
proof -
  have "tally f b' = tally f (modify_request i (\<lambda>_. r') b)"
    by (rule tally_quiet [OF _ _ f]) (simp_all add: assms(1-3))
  then show ?thesis using tally_modify [OF assms(4,5), of f "\<lambda>_. r'"] by simp
qed

lemma mb_core_update:
  assumes core: "mb_core L b" and i: "i \<in> set (mb_requests b)"
    and same: "mb_hard_budget b' = mb_hard_budget b" "mb_allocated b' = mb_allocated b"
      "mb_requests b' = mb_requests b" "mb_next_request b' = mb_next_request b"
      "mb_next_chunk b' = mb_next_chunk b"
    and now: "quiet (request b' i) = quiet r'"
    and others: "\<And>j. j \<noteq> i \<Longrightarrow> quiet (request b' j) = quiet (request b j)"
    and owned: "mb_owned b' = mb_owned b - mr_owned (request b i) + mr_owned r'"
    and counters:
      "mb_base_only b' = mb_base_only b - base_count (request b i) + base_count r'"
      "mb_indebted b' = mb_indebted b - debt_count (request b i) + debt_count r'"
      "mb_debt_bytes b' = mb_debt_bytes b - debt_sum (request b i) + debt_sum r'"
    and chunks: "mset (held r') + mset (mb_free b') + L' =
      mset (held (request b i)) + mset (mb_free b) + L"
    and ok: "request_ok (mb_chunk_heap b') i r'"
    and heap: "\<And>j c. j \<in> set (mb_requests b) \<Longrightarrow> j \<noteq> i \<Longrightarrow> c \<in> set (held (request b j)) \<Longrightarrow>
      mb_chunk_heap b' c = mb_chunk_heap b c"
  shows "mb_core L' b'"
proof -
  note D = mb_coreD [OF core]
  note upd = tally_update [OF same(3) now others D(8) i]
  note tallies =
    upd [where f = mr_owned, OF _ quiet_eqD(2), simplified]
    upd [where f = base_count, OF _ quiet_values(2), simplified]
    upd [where f = debt_count, OF _ quiet_values(3), simplified]
    upd [where f = debt_sum, OF _ quiet_values(4), simplified]
    upd [where f = "\<lambda>r. mset (held r)", OF _ arg_cong [OF quiet_values(1)], simplified]
  have "mb_owned b' = tally mr_owned b'" using D(6) owned tallies(1) by simp
  moreover have "counters_ok b'"
    using D(7) counters tallies(2-4) by (simp add: counters_ok_def)
  moreover have "tally (\<lambda>r. mset (held r)) b' + mset (mb_free b') + L' = mset [1 ..< Suc (mb_next_chunk b')]"
  proof -
    let ?t = "tally (\<lambda>r. mset (held r))"
    have "?t b' + mset (mb_free b') + L' + mset (held (request b i)) =
        ?t b + (mset (held r') + mset (mb_free b') + L')"
      using tallies(5) by (simp add: ac_simps)
    also have "\<dots> = ?t b + mset (mb_free b) + L + mset (held (request b i))"
      unfolding chunks by (simp add: ac_simps)
    finally show ?thesis using D(5) by (simp add: same)
  qed
  moreover have "request_ok (mb_chunk_heap b') j (request b' j)" if j: "j \<in> set (mb_requests b)" for j
  proof (cases "j = i")
    case True
    with ok now show ?thesis using quiet_values(5) by blast
  next
    case False
    from request_ok_heap [OF D(11) [OF j]] heap [OF j False]
    have "request_ok (mb_chunk_heap b') j (request b j)" by blast
    then show ?thesis using quiet_values(5) [OF others [OF False]] by blast
  qed
  moreover have "mr_closed (request b' j)"
    if j: "1 \<le> j" "j \<le> mb_next_request b" "j \<notin> set (mb_requests b)" for j
  proof -
    from j i have "j \<noteq> i" by blast
    then show ?thesis using D(12) [OF j] quiet_eqD(5) [OF others] by simp
  qed
  ultimately show ?thesis using D(1-4,8-10) unfolding mb_core_def same by blast
qed

lemma quiet_update [simp]:
  "quiet (r\<lparr>mr_waiting := w\<rparr>) = (quiet r)\<lparr>mr_waiting := w\<rparr>"
  "quiet (r\<lparr>mr_notified := w\<rparr>) = (quiet r)\<lparr>mr_notified := w\<rparr>"
  "quiet (r\<lparr>mr_closed := w\<rparr>) = (quiet r)\<lparr>mr_closed := w\<rparr>"
  "quiet (r\<lparr>mr_live := v\<rparr>) = quiet r"
  by (simp_all add: quiet_def)

lemma request_okD:
  assumes "request_ok ch i r"
  shows "mr_owned r = chunk_size * int (length (held r))" "mr_owned r \<le> request_cap"
    "0 \<le> mr_target r" "mr_target r \<le> request_cap" "mr_target r mod chunk_size = 0"
    "mr_debt r = max 0 (mr_owned r - mr_target r)"
    "mr_notified r \<longleftrightarrow> mr_pending r \<noteq> None" "\<not> mr_notify_closed r"
    "mr_waiting r \<Longrightarrow> mr_pending r = None" "\<And>l. mr_pending r = Some l \<Longrightarrow> lease_ok ch i l"
    "distinct_keys (mr_chunks r)"
    "\<And>c g. map_of (mr_chunks r) c = Some g \<Longrightarrow> mc_owner (ch c) = i \<and> mc_generation (ch c) = g"
  using assms unfolding request_ok_def by blast+

text \<open>Granting the chunk in transit \<open>c\<close>.\<close>

lemma grant_core:
  assumes core: "mb_core {#c#} b" and i: "i \<in> set (mb_requests b)"
    and r: "mr_pending (request b i) = None" "mr_owned (request b i) + chunk_size \<le> mr_target (request b i)"
  shows "\<exists>b'. send_notification i (grant i c b) = Inr b' \<and> mb_core {#} b'"
proof -
  let ?r = "request b i"
  note ok = request_okD [OF mb_coreD(11) [OF core i]]
  define r' where "r' = recompute_debt (?r\<lparr>mr_waiting := False,
    mr_pending := Some \<lparr>ls_chunk = Some c, ls_request = i, ls_generation = mb_next_grant b + 1\<rparr>,
    mr_owned := mr_owned ?r + chunk_size, mr_notified := True\<rparr>)"
  let ?g = "grant i c b"
  let ?b' = "modify_request i (\<lambda>r. r\<lparr>mr_notified := True\<rparr>) ?g"
  have send: "send_notification i ?g = Inr ?b'"
    using ok(7,8) r(1)
    by (simp add: send_notification_def grant_def Let_def recompute_debt_def)
  have held': "held r' = c # held ?r"
    using r(1) by (simp add: r'_def held_def recompute_debt_def Let_def)
  have free: "c \<notin> set (held ?r)" using transit_not_held(4) [OF core _ i] by simp
  have "mb_core {#} ?b'"
  proof (rule mb_core_update [OF core i, where r' = r'])
    show "request_ok (mb_chunk_heap ?b') i r'"
      unfolding request_ok_def held'
    proof (intro conjI)
      show "\<forall>d g. map_of (mr_chunks r') d = Some g \<longrightarrow>
          mc_owner (mb_chunk_heap ?b' d) = i \<and> mc_generation (mb_chunk_heap ?b' d) = g"
      proof (intro allI impI)
        fix d g assume "map_of (mr_chunks r') d = Some g"
        then have m: "map_of (mr_chunks ?r) d = Some g" by (simp add: r'_def recompute_debt_def Let_def)
        then have "d \<in> set (held ?r)" by (force simp: held_def dest: map_of_SomeD)
        with free have "d \<noteq> c" by blast
        with ok(12) [OF m] show "mc_owner (mb_chunk_heap ?b' d) = i \<and> mc_generation (mb_chunk_heap ?b' d) = g"
          by (simp add: grant_def Let_def)
      qed
    qed (use ok r in \<open>simp_all add: r'_def recompute_debt_def Let_def grant_def lease_ok_def algebra_simps\<close>)
    show "mb_chunk_heap ?b' d = mb_chunk_heap b d"
      if "j \<in> set (mb_requests b)" "j \<noteq> i" "d \<in> set (held (request b j))" for j d
    proof -
      have "d \<noteq> c" using transit_not_held(4) [OF core _ that(1)] that(3) by auto
      then show ?thesis by (simp add: grant_def Let_def)
    qed
    show "mset (held r') + mset (mb_free ?b') + {#} = mset (held ?r) + mset (mb_free b) + {#c#}"
      by (simp add: held') (simp add: grant_def Let_def)
  qed (simp_all add: grant_def Let_def r'_def recompute_debt_def counter_values quiet_def
      base_count_def debt_count_def debt_sum_def)
  with send show ?thesis by blast
qed

text \<open>Releasing a chunk, once \<open>g\<close> has taken it off the request.\<close>

lemma held_distinct:
  assumes core: "mb_core L b" and i: "i \<in> set (mb_requests b)"
    and split: "mset (held (request b i)) = add_mset c M"
  shows "c \<notin># M"
proof -
  obtain rest where t: "tally (\<lambda>r. mset (held r)) b = mset (held (request b i)) + rest"
    by (rule tally_split [OF i, where f = "\<lambda>r. mset (held r)"]) blast
  have "{#c#} + (M + rest + mset (mb_free b) + L) = mset [1 ..< Suc (mb_next_chunk b)]"
    using mb_coreD(5) [OF core] by (simp add: t split ac_simps)
  from mset_upt_one(1) [OF this, of c] show ?thesis by simp
qed

lemma release_core:
  assumes core: "mb_core L b" and i: "i \<in> set (mb_requests b)"
    and g: "mr_owned (g (request b i)) = mr_owned (request b i)"
      "mr_debt (g (request b i)) = mr_debt (request b i)"
    and held: "mset (held (request b i)) = add_mset c (mset (held (g (request b i))))"
    and ok: "request_ok (mb_chunk_heap b) i
      (recompute_debt ((g (request b i))\<lparr>mr_owned := mr_owned (request b i) - chunk_size\<rparr>))"
  shows "mb_core L (release_owned_chunk i c (modify_request i g b))"
proof -
  let ?r = "request b i"
  let ?r' = "recompute_debt ((g ?r)\<lparr>mr_owned := mr_owned ?r - chunk_size\<rparr>)"
  let ?b' = "release_owned_chunk i c (modify_request i g b)"
  have held': "held ?r' = held (g ?r)" by (simp add: held_def recompute_debt_def Let_def)
  have c: "c \<in> set (held ?r)" using held by (metis set_mset_mset union_single_eq_member)
  show ?thesis
  proof (rule mb_core_update [OF core i, where r' = ?r'])
    show "request_ok (mb_chunk_heap ?b') i ?r'"
    proof (rule request_ok_heap [OF ok])
      fix d assume "d \<in> set (held ?r')"
      then have "d \<noteq> c" using held_distinct [OF core i held] by (auto simp: held')
      then show "mb_chunk_heap ?b' d = mb_chunk_heap b d"
        by (simp add: release_owned_chunk_def Let_def)
    qed
    show "mb_chunk_heap ?b' d = mb_chunk_heap b d"
      if "j \<in> set (mb_requests b)" "j \<noteq> i" "d \<in> set (held (request b j))" for j d
    proof -
      have "d \<noteq> c" using held_once(5) [OF core i c that(1,2)] that(3) by blast
      then show ?thesis by (simp add: release_owned_chunk_def Let_def)
    qed
    show "mset (held ?r') + mset (mb_free ?b') + L = mset (held ?r) + mset (mb_free b) + L"
      by (simp add: held' held) (simp add: release_owned_chunk_def Let_def)
  qed (simp_all add: release_owned_chunk_def Let_def recompute_debt_def counter_values quiet_def
      base_count_def debt_count_def debt_sum_def g)
qed

lemma request_ok_less:
  assumes ok: "request_ok ch i r" and held: "mset (held r) = add_mset c (mset (held r'))"
    and same: "mr_target r' = mr_target r" "mr_notify_closed r' = mr_notify_closed r"
      "mr_notified r' \<longleftrightarrow> mr_pending r' \<noteq> None" "mr_waiting r' \<Longrightarrow> mr_pending r' = None"
    and sub: "\<And>l. mr_pending r' = Some l \<Longrightarrow> mr_pending r = Some l" "distinct_keys (mr_chunks r')"
      "\<And>d g. map_of (mr_chunks r') d = Some g \<Longrightarrow> map_of (mr_chunks r) d = Some g"
  shows "request_ok ch i (recompute_debt (r'\<lparr>mr_owned := mr_owned r - chunk_size\<rparr>))"
proof -
  note D = request_okD [OF ok]
  have len: "length (held r) = Suc (length (held r'))"
    using arg_cong [OF held, of size] by (simp del: size_mset add: size_mset [symmetric])
  have held': "held (recompute_debt (r'\<lparr>mr_owned := x\<rparr>)) = held r'" for x
    by (simp add: held_def recompute_debt_def Let_def)
  have "\<forall>l. mr_pending r' = Some l \<longrightarrow> lease_ok ch i l" using D(10) sub(1) by blast
  moreover have "\<forall>d g. map_of (mr_chunks r') d = Some g \<longrightarrow> mc_owner (ch d) = i \<and> mc_generation (ch d) = g"
    using D(12) sub(3) by blast
  moreover have "mr_owned r - chunk_size = chunk_size * int (length (held r'))"
    using D(1) by (simp add: len algebra_simps)
  moreover have "mr_owned r - chunk_size \<le> request_cap" using D(2) chunk_size_pos by linarith
  ultimately show ?thesis using D(3-5,8) same sub(2)
    unfolding request_ok_def held' by (simp add: recompute_debt_def Let_def max_def)
qed

lemma reclaim_core:
  assumes core: "mb_core L b" and i: "i \<in> set (mb_requests b)"
    and l: "mr_pending (request b i) = Some l"
  shows "\<exists>b' c. reclaim_pending i l b = Inr b' \<and> mb_core L b' \<and> ls_chunk l = Some c \<and>
    b' = release_owned_chunk i c (modify_request i (\<lambda>r. r\<lparr>mr_pending := None, mr_notified := False\<rparr>) b)"
proof -
  note ok = mb_coreD(11) [OF core i]
  from request_okD(10) [OF ok l] obtain c where c: "ls_chunk l = Some c" "ls_request l = i"
    "mc_owner (mb_chunk_heap b c) = i" "mc_generation (mb_chunk_heap b c) = ls_generation l"
    by (auto simp: lease_ok_def)
  let ?g = "\<lambda>r. r\<lparr>mr_pending := None, mr_notified := False\<rparr>"
  have held: "mset (held (request b i)) = add_mset c (mset (held (?g (request b i))))"
    by (simp add: held_def l c)
  have "drain_notification i (modify_request i (\<lambda>r. r\<lparr>mr_pending := None\<rparr>) b) = modify_request i ?g b"
    by (simp add: drain_notification_def modify_request_def)
  then have "reclaim_pending i l b = Inr (release_owned_chunk i c (modify_request i ?g b))"
    by (simp add: reclaim_pending_def c)
  moreover have "mb_core L (release_owned_chunk i c (modify_request i ?g b))"
    by (rule release_core [where g = ?g, OF core i _ _ held request_ok_less [OF ok held]])
       (use request_okD(11) [OF ok] in simp_all)
  ultimately show ?thesis using c(1) by blast
qed

lemma mset_delete_key:
  "distinct_keys m \<Longrightarrow> map_of m c = Some g \<Longrightarrow>
   mset (map fst m) = add_mset c (mset (map fst (AList.delete c m)))"
proof (induction m)
  case Nil
  then show ?case by simp
next
  case (Cons a m)
  show ?case
  proof (cases "fst a = c")
    case True
    with Cons.prems(1) have "c \<notin> fst ` set m" by auto
    then have "AList.delete c m = m" by (induction m) auto
    with True show ?thesis by (cases a) simp
  next
    case False
    with Cons show ?thesis by (cases a) simp
  qed
qed

lemma release_accepted_core:
  assumes core: "mb_core L b" and i: "i \<in> set (mb_requests b)"
    and c: "map_of (mr_chunks (request b i)) c = Some g"
  shows "mb_core L (release_accepted i c b)"
proof -
  note ok = mb_coreD(11) [OF core i]
  let ?g = "\<lambda>r. r\<lparr>mr_chunks := AList.delete c (mr_chunks r)\<rparr>"
  have held: "mset (held (request b i)) = add_mset c (mset (held (?g (request b i))))"
    using mset_delete_key [OF request_okD(11) [OF ok] c] by (simp add: held_def)
  show ?thesis unfolding release_accepted_def
    by (rule release_core [where g = ?g, OF core i _ _ held request_ok_less [OF ok held]])
       (use request_okD(7,9,11) [OF ok] in
         \<open>auto simp: AList.delete_conv' distinct_delete split: if_splits\<close>)
qed

subsection \<open>Scheduling\<close>

lemma mb_core_simps [simp]:
  "mb_core L (b\<lparr>mb_waiters := W\<rparr>) \<longleftrightarrow> mb_core L b"
  "waiters_ok V (b\<lparr>mb_waiters := W\<rparr>) \<longleftrightarrow> waiters_ok V b"
  by (simp_all add: mb_core_def counters_ok_def tally_def waiters_ok_def)

lemma take_chunk_core:
  assumes core: "mb_core {#} b" and t: "take_chunk b = (Some c, b')"
  shows "mb_core {#c#} b'"
proof (cases "mb_free b = []")
  case True
  note D = mb_coreD [OF core]
  from t True have c: "c = mb_next_chunk b + 1" and le: "mb_allocated b + chunk_size \<le> mb_hard_budget b"
    and b': "b' = b\<lparr>mb_next_chunk := c, mb_chunk_heap := (mb_chunk_heap b)(c := \<lparr>mc_generation = 0, mc_owner = 0\<rparr>),
      mb_allocated := mb_allocated b + chunk_size\<rparr>"
    by (auto simp: take_chunk_def Let_def split: if_splits)
  have tal: "tally f b' = tally f b" for f :: "mb_request \<Rightarrow> 'a :: comm_monoid_add"
    by (rule tally_cong) (simp_all add: b')
  have "request_ok (mb_chunk_heap b') j (request b j)" if j: "j \<in> set (mb_requests b)" for j
    using held_once(4) [OF core j] by (intro request_ok_heap [OF D(11) [OF j]]) (force simp: b' c)
  moreover have "tally (\<lambda>r. mset (held r)) b' + mset (mb_free b') + {#c#} = mset [1 ..< Suc (mb_next_chunk b')]"
    using D(5) True by (simp add: b' c tally_def)
  moreover have "counters_ok b'" "mb_owned b' = tally mr_owned b'"
    using D(6,7) by (simp_all add: counters_ok_def b' tally_def)
  moreover have "mb_allocated b' = chunk_size * int (mb_next_chunk b')"
    using D(3) by (simp add: b' c algebra_simps)
  ultimately show ?thesis using D(1,2,8-10,12) le unfolding mb_core_def by (simp add: b')
next
  case False
  note D = mb_coreD [OF core]
  from False t have c: "c = last (mb_free b)" and b': "b' = b\<lparr>mb_free := butlast (mb_free b)\<rparr>"
    by (auto simp: take_chunk_def)
  have "mset (mb_free b) = mset (butlast (mb_free b) @ [last (mb_free b)])" using False by simp
  then have free: "mset (mb_free b) = mset (mb_free b') + {#c#}" by (simp add: b' c)
  have tal: "tally f b' = tally f b" for f :: "mb_request \<Rightarrow> 'a :: comm_monoid_add"
    by (rule tally_cong) (simp_all add: b')
  have "tally (\<lambda>r. mset (held r)) b' + mset (mb_free b') + {#c#} = mset [1 ..< Suc (mb_next_chunk b')]"
    using D(5) unfolding free tal by (simp add: b' add.assoc)
  moreover have "counters_ok b'" "mb_owned b' = tally mr_owned b'"
    using D(6,7) by (simp_all add: counters_ok_def b' tally_def)
  ultimately show ?thesis using D(1-4,8-12) unfolding mb_core_def by (simp add: b')
qed

lemma take_chunk_frame:
  assumes "take_chunk b = (x, b')"
  shows "mb_hard_budget b' = mb_hard_budget b" "mb_requests b' = mb_requests b"
    "mb_next_request b' = mb_next_request b" "mb_waiters b' = mb_waiters b"
    "mb_request_heap b' = mb_request_heap b"
    "mb_free b' \<noteq> [] \<Longrightarrow> mb_free b \<noteq> []" "mb_allocated b \<le> mb_allocated b'"
  using assms less_imp_le [OF chunk_size_pos]
  by (auto simp: take_chunk_def Let_def split: if_splits)

lemma can_grant_cong:
  assumes "quiet (request b' w) = quiet (request b w)" and "mb_hard_budget b' = mb_hard_budget b"
    and "mb_free b' \<noteq> [] \<Longrightarrow> mb_free b \<noteq> []" and "mb_allocated b \<le> mb_allocated b'"
    and "can_grant b' w"
  shows "can_grant b w"
proof -
  have "mb_free b \<noteq> [] \<or> mb_allocated b + chunk_size \<le> mb_hard_budget b"
    if "mb_free b' \<noteq> [] \<or> mb_allocated b' + chunk_size \<le> mb_hard_budget b'"
    using that assms(2-4) by linarith
  with assms(5) show ?thesis
    unfolding can_grant_def Let_def quiet_eqD [OF assms(1)] by (simp split: if_splits)
qed

text \<open>What scheduling leaves alone.\<close>

definition mb_frame :: "media_buffer \<Rightarrow> media_buffer \<Rightarrow> bool" where
  "mb_frame b b' \<longleftrightarrow>
     mb_hard_budget b' = mb_hard_budget b \<and> mb_requests b' = mb_requests b \<and>
     mb_next_request b' = mb_next_request b \<and>
     (\<forall>j. mr_target (request b' j) = mr_target (request b j) \<and>
          mr_closed (request b' j) = mr_closed (request b j) \<and>
          mr_chunks (request b' j) = mr_chunks (request b j))"

lemma mb_frame_trans [trans]: "mb_frame a b \<Longrightarrow> mb_frame b c \<Longrightarrow> mb_frame a c"
  by (simp add: mb_frame_def)

lemma mb_frame_refl [simp]: "mb_frame b b"
  by (simp add: mb_frame_def)

lemma mb_frame_project [simp]: "mb_frame b (project_request i b)"
  by (simp add: mb_frame_def)

lemma mb_frame_waiters [simp]: "mb_frame b (b\<lparr>mb_waiters := W\<rparr>)"
  by (simp add: mb_frame_def)

lemma mb_frame_keeps:
  assumes "mb_frame b b'"
  shows "none_closed b' \<longleftrightarrow> none_closed b" "targets_ok b' \<longleftrightarrow> targets_ok b"
  using assms by (auto simp: mb_frame_def none_closed_def targets_ok_def)

lemma grant_frame:
  assumes "send_notification i (grant i c b) = Inr b'"
  shows "mb_frame b b'" "mb_waiters b' = mb_waiters b" "mb_free b' = mb_free b"
    "mb_allocated b' = mb_allocated b" "\<not> mr_waiting (request b' i)"
    "\<And>j. j \<noteq> i \<Longrightarrow> quiet (request b' j) = quiet (request b j)"
proof -
  from assms have b': "b' = modify_request i (\<lambda>r. r\<lparr>mr_notified := True\<rparr>) (grant i c b)"
    by (auto simp: send_notification_def split: if_splits)
  show "mb_frame b b'" "mb_waiters b' = mb_waiters b" "mb_free b' = mb_free b"
    "mb_allocated b' = mb_allocated b" "\<not> mr_waiting (request b' i)"
    "\<And>j. j \<noteq> i \<Longrightarrow> quiet (request b' j) = quiet (request b j)"
    by (simp_all add: b' grant_def Let_def mb_frame_def recompute_debt_def)
qed

lemma schedule_loop_ok:
  assumes "mb_core {#} b" and "waiters_ok (mb_waiters b @ pop) b" and "blocked (mb_waiters b) b"
  shows "\<exists>b'. schedule_loop pop b = Inr b' \<and> mb_core {#} b' \<and> waiters_ok (mb_waiters b') b' \<and>
    blocked (mb_waiters b') b' \<and> mb_frame b b' \<and> subseq (mb_waiters b') (mb_waiters b @ pop)"
  using assms
proof (induction pop arbitrary: b)
  case Nil
  then show ?case by simp
next
  case (Cons i pop)
  note core = Cons.prems(1) and wait = Cons.prems(2) and block = Cons.prems(3)
  from wait have i: "i \<in> set (mb_requests b)" "mr_waiting (request b i)"
    by (auto simp: waiters_ok_def)
  show ?case
  proof (cases "can_grant b i")
    case False
    let ?b = "project_request i (b\<lparr>mb_waiters := mb_waiters b @ [i]\<rparr>)"
    have same: "can_grant ?b w \<Longrightarrow> can_grant b w" for w
      by (rule can_grant_cong [of ?b]) simp_all
    have "blocked (mb_waiters ?b) ?b" using block False same by (auto simp: blocked_def)
    moreover have "mb_core {#} ?b" "waiters_ok (mb_waiters ?b @ pop) ?b" using core wait by simp_all
    ultimately obtain b' where "schedule_loop pop ?b = Inr b'" "mb_core {#} b'" "waiters_ok (mb_waiters b') b'"
      "blocked (mb_waiters b') b'" "mb_frame ?b b'" "subseq (mb_waiters b') (mb_waiters ?b @ pop)"
      using Cons.IH by blast
    moreover have "mb_frame b ?b" using mb_frame_trans [OF mb_frame_waiters mb_frame_project] .
    ultimately show ?thesis using False mb_frame_trans by fastforce
  next
    case True
    then have "take_chunk b \<noteq> (None, b0)" for b0
      by (auto simp: can_grant_def take_chunk_def Let_def split: if_splits)
    then obtain c b1 where t: "take_chunk b = (Some c, b1)" by (metis option.exhaust surj_pair)
    note tf = take_chunk_frame [OF t]
    from True have r: "mr_pending (request b1 i) = None"
      "mr_owned (request b1 i) + chunk_size \<le> mr_target (request b1 i)"
      unfolding tf by (auto simp: can_grant_def Let_def split: if_splits)
    from grant_core [OF take_chunk_core [OF core t] _ r] i obtain b2
      where b2: "send_notification i (grant i c b1) = Inr b2" "mb_core {#} b2" by (auto simp: tf)
    note gf = grant_frame [OF b2(1)]
    have frame: "mb_frame b b2" using gf(1) by (simp add: mb_frame_def tf)
    have others: "quiet (request b2 j) = quiet (request b j)" if "j \<noteq> i" for j
      using gf(6) [OF that] by (simp add: tf)
    have "waiters_ok (mb_waiters b2 @ pop) b2"
    proof -
      have d: "distinct (mb_waiters b @ pop)" using wait by (auto simp: waiters_ok_def)
      have "set (mb_waiters b @ pop) = {j \<in> set (mb_requests b). mr_waiting (request b j)} - {i}"
        using wait by (auto simp: waiters_ok_def)
      also have "\<dots> = {j \<in> set (mb_requests b2). mr_waiting (request b2 j)}"
      proof -
        have req: "mb_requests b2 = mb_requests b" using frame by (simp add: mb_frame_def)
        have "mr_waiting (request b2 j) \<longleftrightarrow> mr_waiting (request b j) \<and> j \<noteq> i" for j
          using gf(5) quiet_eqD(4) [OF others] by (cases "j = i") simp_all
        then show ?thesis unfolding req by blast
      qed
      finally show ?thesis using d by (simp add: waiters_ok_def gf(2) tf)
    qed
    moreover have "blocked (mb_waiters b2) b2"
    proof -
      have "can_grant b w" if "can_grant b2 w" "w \<noteq> i" for w
        by (rule can_grant_cong [OF others [OF that(2)] _ _ _ that(1)])
           (use frame gf(3,4) tf(6,7) in \<open>auto simp: mb_frame_def\<close>)
      moreover have "i \<notin> set (mb_waiters b)" using wait by (auto simp: waiters_ok_def)
      ultimately show ?thesis using block unfolding blocked_def gf(2) tf by blast
    qed
    ultimately obtain b' where "schedule_loop pop b2 = Inr b'" "mb_core {#} b'"
      "waiters_ok (mb_waiters b') b'" "blocked (mb_waiters b') b'" "mb_frame b2 b'"
      "subseq (mb_waiters b') (mb_waiters b @ pop)"
      using Cons.IH [OF b2(2)] by (auto simp: gf(2) tf)
    moreover have "subseq (mb_waiters b @ pop) (mb_waiters b @ i # pop)"
      by (rule list_emb_append_mono) auto
    ultimately show ?thesis using True t b2(1) mb_frame_trans [OF frame] subseq_order.trans by fastforce
  qed
qed

lemma length_waiters:
  "waiters_ok W b \<Longrightarrow> length W \<le> length (mb_requests b)"
  unfolding waiters_ok_def
  by (metis (no_types, lifting) card_length card_mono distinct_card finite_set le_trans
      mem_Collect_eq subsetI)

text \<open>The conservation law of the pool.\<close>

lemma size_sum_list_mset:
  fixes f :: "'b \<Rightarrow> 'c multiset"
  shows "size (sum_list (map f xs)) = sum_list (map (\<lambda>x. size (f x)) xs)"
  by (induction xs) simp_all

lemma sum_list_scaled:
  "(\<And>x. x \<in> set xs \<Longrightarrow> f x = k * int (g x)) \<Longrightarrow>
   sum_list (map f xs) = k * int (sum_list (map g xs))"
  by (induction xs) (simp_all add: algebra_simps)

lemma pool_conserved:
  assumes core: "mb_core {#} b"
  shows "mb_allocated b = mb_owned b + chunk_size * int (length (mb_free b))" "0 \<le> mb_owned b"
    "mb_owned b mod chunk_size = 0"
proof -
  note D = mb_coreD [OF core]
  let ?n = "sum_list (map (\<lambda>i. length (held (request b i))) (mb_requests b))"
  have owned: "mb_owned b = chunk_size * int ?n"
    unfolding D(6) tally_def
    by (rule sum_list_scaled) (use request_okD(1) [OF D(11)] in blast)
  have "?n + length (mb_free b) = size (mset [1 ..< Suc (mb_next_chunk b)])"
    unfolding D(5) [symmetric] by (simp add: tally_def size_sum_list_mset)
  then have "mb_next_chunk b = ?n + length (mb_free b)" by simp
  then show "mb_allocated b = mb_owned b + chunk_size * int (length (mb_free b))"
    unfolding D(3) owned by (simp only: of_nat_add distrib_left)
  show "0 \<le> mb_owned b" "mb_owned b mod chunk_size = 0"
    unfolding owned by simp_all
qed

lemma assert_accounting_ok:
  assumes core: "mb_core {#} b" and wait: "waiters_ok (mb_waiters b) b"
  shows "assert_accounting b = Inr b"
proof -
  note D = mb_coreD [OF core] and P = pool_conserved [OF core]
  have "int (length (mb_free b)) * chunk_size \<le> mb_hard_budget b"
    using P(1,2) D(4) by (simp add: mult.commute)
  then have free: "int (length (mb_free b)) \<le> mb_hard_budget b div chunk_size"
    using zdiv_mono1 [OF _ chunk_size_pos, of "int (length (mb_free b)) * chunk_size"]
      chunk_size_pos by (metis less_irrefl nonzero_mult_div_cancel_right)
  have "mb_allocated b \<ge> 0" "mb_owned b \<le> mb_allocated b"
    using P(1,2) by simp_all
  with D(1-4) P free length_waiters [OF wait] show ?thesis
    by (simp add: assert_accounting_def Let_def mult.commute)
qed

lemma schedule_and_assert_ok:
  assumes "mb_pre b"
  obtains b' where "schedule_and_assert b = Inr b'" "mb_inv b'" "mb_frame b b'"
    "subseq (mb_waiters b') (mb_waiters b)"
proof -
  let ?b = "b\<lparr>mb_waiters := []\<rparr>"
  have "mb_core {#} ?b" "waiters_ok (mb_waiters ?b @ mb_waiters b) ?b" "blocked (mb_waiters ?b) ?b"
    using assms by (simp_all add: mb_pre_def blocked_def)
  from schedule_loop_ok [OF this] obtain b' where b': "schedule b = Inr b'" "mb_core {#} b'"
    "waiters_ok (mb_waiters b') b'" "blocked (mb_waiters b') b'" "mb_frame ?b b'"
    "subseq (mb_waiters b') (mb_waiters b)"
    by (auto simp: schedule_def)
  have frame: "mb_frame b b'" using mb_frame_trans [OF mb_frame_waiters b'(5)] .
  have "schedule_and_assert b = Inr b'"
    using b'(1) assert_accounting_ok [OF b'(2,3)] by (simp add: schedule_and_assert_def)
  moreover have "mb_inv b'"
    using assms b' mb_frame_keeps [OF frame] by (simp add: mb_inv_def mb_pre_def)
  ultimately show ?thesis using that frame b'(6) by blast
qed

subsection \<open>Targets\<close>

lemma retarget_core:
  assumes core: "mb_core L b" and i: "i \<in> set (mb_requests b)"
    and t: "0 \<le> t" "t \<le> request_cap" "t mod chunk_size = 0"
  shows "mb_core L (retarget t i b)"
proof -
  note ok = mb_coreD(11) [OF core i]
  let ?r' = "recompute_debt ((request b i)\<lparr>mr_target := t\<rparr>)"
  have held: "held ?r' = held (request b i)" by (simp add: held_def recompute_debt_def Let_def)
  show ?thesis
  proof (rule mb_core_update [OF core i, where r' = ?r'])
    show "request_ok (mb_chunk_heap (retarget t i b)) i ?r'"
      using ok t unfolding request_ok_def held
      by (simp add: retarget_def recompute_debt_def Let_def max_def)
  qed (simp_all only: held, simp_all add: retarget_def recompute_debt_def Let_def counter_values
      quiet_def base_count_def debt_count_def debt_sum_def)
qed

lemma retarget_frame:
  "mb_hard_budget (retarget t i b) = mb_hard_budget b" "mb_requests (retarget t i b) = mb_requests b"
  "mb_next_request (retarget t i b) = mb_next_request b" "mb_waiters (retarget t i b) = mb_waiters b"
  "mr_waiting (request (retarget t i b) j) = mr_waiting (request b j)"
  "mr_closed (request (retarget t i b) j) = mr_closed (request b j)"
  "mr_chunks (request (retarget t i b) j) = mr_chunks (request b j)"
  "mr_target (request (retarget t i b) j) = (if j = i then t else mr_target (request b j))"
  by (simp_all add: retarget_def recompute_debt_def Let_def)

lemma fold_retarget:
  assumes "mb_core L b" and "set xs \<subseteq> set (mb_requests b)"
    and t: "0 \<le> t" "t \<le> request_cap" "t mod chunk_size = 0"
  shows "mb_core L (fold (retarget t) xs b) \<and>
    mb_hard_budget (fold (retarget t) xs b) = mb_hard_budget b \<and>
    mb_requests (fold (retarget t) xs b) = mb_requests b \<and>
    mb_next_request (fold (retarget t) xs b) = mb_next_request b \<and>
    mb_waiters (fold (retarget t) xs b) = mb_waiters b \<and>
    (\<forall>j. mr_waiting (request (fold (retarget t) xs b) j) = mr_waiting (request b j) \<and>
         mr_closed (request (fold (retarget t) xs b) j) = mr_closed (request b j) \<and>
         mr_chunks (request (fold (retarget t) xs b) j) = mr_chunks (request b j) \<and>
         mr_target (request (fold (retarget t) xs b) j) = (if j \<in> set xs then t else mr_target (request b j)))"
  using assms(1,2)
proof (induction xs arbitrary: b)
  case Nil
  then show ?case by simp
next
  case (Cons i xs)
  then have "mb_core L (retarget t i b)" by (intro retarget_core t) simp_all
  from Cons.IH [OF this] Cons.prems(2) show ?case by (simp add: retarget_frame)
qed

lemma recompute_targets_ok:
  assumes core: "mb_core L b" and wait: "waiters_ok W b"
  shows "mb_core L (recompute_targets b)" "waiters_ok W (recompute_targets b)"
    "targets_ok (recompute_targets b)" "none_closed (recompute_targets b) \<longleftrightarrow> none_closed b"
    "mb_waiters (recompute_targets b) = mb_waiters b" "mb_requests (recompute_targets b) = mb_requests b"
    "mb_hard_budget (recompute_targets b) = mb_hard_budget b"
    "mb_next_request (recompute_targets b) = mb_next_request b"
    "mr_closed (request (recompute_targets b) j) = mr_closed (request b j)"
    "mr_chunks (request (recompute_targets b) j) = mr_chunks (request b j)"
  using fold_retarget [OF core subset_refl, of "request_target (mb_hard_budget b) (length (mb_requests b))"]
    request_target_ok wait core
  by (auto simp: recompute_targets_def waiters_ok_def targets_ok_def none_closed_def Let_def)

section \<open>The operations keep the invariant\<close>

lemma mb_preD:
  assumes "mb_pre b"
  shows "mb_core {#} b" "waiters_ok (mb_waiters b) b" "none_closed b" "targets_ok b"
  using assms by (simp_all add: mb_pre_def)

lemma mb_inv_pre: "mb_inv b \<Longrightarrow> mb_pre b"
  by (simp add: mb_inv_def)

definition handle :: "media_buffer \<Rightarrow> nat \<Rightarrow> bool" where
  "handle b i \<longleftrightarrow> 1 \<le> i \<and> i \<le> mb_next_request b"

lemma open_handle:
  assumes "mb_pre b" and "handle b i"
  shows "i \<in> set (mb_requests b) \<longleftrightarrow> \<not> mr_closed (request b i)"
  using assms mb_coreD(12) [OF mb_preD(1), OF assms(1)]
  by (auto simp: mb_pre_def none_closed_def handle_def)

lemma new_media_buffer_inv: "new_media_buffer n = Inr b \<Longrightarrow> mb_inv b \<and> mb_hard_budget b = n \<and> mb_waiters b = []"
  by (auto simp: new_media_buffer_def mb_inv_def mb_pre_def mb_core_def waiters_ok_def none_closed_def
      targets_ok_def blocked_def counters_ok_def tally_def split: if_splits)

lemma register_pre:
  assumes pre: "mb_pre b"
  defines "i \<equiv> mb_next_request b + 1"
  defines "b1 \<equiv> add_request_counters i (b\<lparr>mb_next_request := i,
    mb_request_heap := (mb_request_heap b)(i := fresh_request), mb_requests := mb_requests b @ [i]\<rparr>)"
  shows "mb_core {#} b1" "waiters_ok (mb_waiters b) b1" "none_closed b1"
proof -
  note D = mb_coreD [OF mb_preD(1) [OF pre]]
  have new: "i \<notin> set (mb_requests b)" using D(10) [of i] by (auto simp: i_def)
  have heap: "request b1 j = request b j" if "j \<in> set (mb_requests b)" for j
    using that new by (auto simp: b1_def)
  have fresh: "request b1 i = fresh_request" by (simp add: b1_def)
  have reqs: "mb_requests b1 = mb_requests b @ [i]" by (simp add: b1_def)
  have tal: "tally f b1 = tally f b + f fresh_request" for f :: "mb_request \<Rightarrow> 'a :: comm_monoid_add"
    unfolding tally_def reqs using heap fresh by (simp cong: map_cong)
  have "counters_ok b1" using D(7)
    by (simp add: counters_ok_def tal) (simp add: b1_def counter_values)
  moreover have "request_ok (mb_chunk_heap b1) j (request b1 j)" if "j \<in> set (mb_requests b1)" for j
  proof (cases "j = i")
    case True
    then show ?thesis by (simp add: fresh request_ok_def held_def) (simp add: fresh_request_def request_cap_def)
  next
    case False
    with that have "j \<in> set (mb_requests b)" by (simp add: reqs)
    with D(11) [OF this] show ?thesis by (simp add: heap) (simp add: b1_def)
  qed
  moreover have "mb_owned b1 = tally mr_owned b1"
    using D(6) by (simp add: tal) (simp add: b1_def fresh_request_def)
  moreover have "tally (\<lambda>r. mset (held r)) b1 + mset (mb_free b1) + {#} = mset [1 ..< Suc (mb_next_chunk b1)]"
  proof -
    have "mset (held fresh_request) = {#}" by (simp add: held_def fresh_request_def)
    with D(5) show ?thesis unfolding tal by (simp add: b1_def)
  qed
  moreover have "mr_closed (request b1 j)"
    if "1 \<le> j" "j \<le> mb_next_request b1" "j \<notin> set (mb_requests b1)" for j
    using that D(12) [of j] by (auto simp: b1_def i_def)
  moreover have "1 \<le> j \<and> j \<le> mb_next_request b1" if "j \<in> set (mb_requests b1)" for j
    using that D(9,10) [of j] by (auto simp: b1_def i_def)
  moreover have "distinct (mb_requests b1)" using D(8) new by (simp add: reqs)
  ultimately show "mb_core {#} b1" using D(1-4) unfolding mb_core_def by (simp add: b1_def)
  have "i \<notin> set (mb_waiters b)" using mb_preD(2) [OF pre] new by (simp add: waiters_ok_def)
  then show "waiters_ok (mb_waiters b) b1"
    using mb_preD(2) [OF pre] heap fresh by (auto simp: waiters_ok_def reqs fresh_request_def)
  show "none_closed b1"
    using mb_preD(3) [OF pre] heap fresh by (auto simp: none_closed_def reqs fresh_request_def)
qed

lemma register_inv:
  assumes inv: "mb_inv b"
  obtains b' where "register b = Inr (b', mb_next_request b + 1)" "mb_inv b'"
    "mb_requests b' = mb_requests b @ [mb_next_request b + 1]" "mb_hard_budget b' = mb_hard_budget b"
    "mb_next_request b' = mb_next_request b + 1" "subseq (mb_waiters b') (mb_waiters b)"
proof -
  let ?i = "mb_next_request b + 1"
  let ?b1 = "add_request_counters ?i (b\<lparr>mb_next_request := ?i,
    mb_request_heap := (mb_request_heap b)(?i := fresh_request), mb_requests := mb_requests b @ [?i]\<rparr>)"
  note pre = register_pre [OF mb_inv_pre [OF inv]]
  note R = recompute_targets_ok [OF pre(1,2)]
  have "mb_pre (recompute_targets ?b1)" unfolding mb_pre_def R(4,5) using R(1-3) pre(3) by simp
  from schedule_and_assert_ok [OF this] obtain b' where
    b': "schedule_and_assert (recompute_targets ?b1) = Inr b'" "mb_inv b'"
      "mb_frame (recompute_targets ?b1) b'" "subseq (mb_waiters b') (mb_waiters (recompute_targets ?b1))"
    by blast
  have "register b = Inr (b', ?i)" using b'(1) by (simp add: register_def Let_def)
  then show ?thesis
    using that b'(2-4) unfolding mb_frame_def R(5,6,7,8) by simp
qed

text \<open>An operation that leaves the pool's free space and the other requests alone.\<close>

lemma inv_local:
  assumes inv: "mb_inv b" and core: "mb_core {#} b'" and wait: "waiters_ok (mb_waiters b') b'"
    and same: "mb_hard_budget b' = mb_hard_budget b" "mb_requests b' = mb_requests b"
      "mb_free b' = mb_free b" "mb_allocated b' = mb_allocated b"
      "set (mb_waiters b') \<subseteq> set (mb_waiters b)"
    and others: "\<And>j. j \<noteq> i \<Longrightarrow> quiet (request b' j) = quiet (request b j)"
    and this_one: "mr_closed (request b' i) = mr_closed (request b i)"
      "mr_target (request b' i) = mr_target (request b i)"
      "i \<notin> set (mb_waiters b') \<or> quiet (request b' i) = quiet (request b i)"
  shows "mb_inv b'"
proof -
  have all: "mr_closed (request b' j) = mr_closed (request b j) \<and> mr_target (request b' j) = mr_target (request b j)" for j
    using quiet_eqD(1,5) [OF others] this_one(1,2) by (cases "j = i") simp_all
  have "can_grant b w" if "w \<in> set (mb_waiters b')" "can_grant b' w" for w
  proof -
    have "quiet (request b' w) = quiet (request b w)" using that(1) this_one(3) others by (cases "w = i") blast+
    then show ?thesis by (rule can_grant_cong) (simp_all add: same that)
  qed
  with inv have "blocked (mb_waiters b') b'" using same(5) by (auto simp: mb_inv_def blocked_def)
  moreover have "none_closed b'" "targets_ok b'"
    using inv all by (simp_all add: mb_inv_def mb_pre_def none_closed_def targets_ok_def same)
  ultimately show ?thesis using core wait by (simp add: mb_inv_def mb_pre_def)
qed

lemma attach_live_inv:
  assumes inv: "mb_inv b" and i: "handle b i"
  shows "mb_inv (attach_live i l b)"
proof (cases "mr_closed (request b i)")
  case True
  with inv show ?thesis by (simp add: attach_live_def)
next
  case False
  let ?b = "modify_request i (\<lambda>r. r\<lparr>mr_live := Some l\<rparr>) b"
  note pre = mb_inv_pre [OF inv]
  have i: "i \<in> set (mb_requests b)" using False open_handle [OF pre i] by blast
  have q: "quiet (request ?b j) = quiet (request b j)" for j by (simp add: quiet_def)
  have "mb_core {#} ?b"
    by (rule mb_core_update [OF mb_preD(1) [OF pre] i, where r' = "request b i"])
       (use mb_coreD(11) [OF mb_preD(1) [OF pre] i] in \<open>simp_all add: quiet_def\<close>)
  moreover have "waiters_ok (mb_waiters ?b) ?b"
    using mb_preD(2) [OF pre] quiet_eqD(4) [OF q] by (simp add: waiters_ok_def)
  ultimately have "mb_inv (project_request i ?b)"
    by (intro inv_local [OF inv, where i = i]) (simp_all add: q)
  with False show ?thesis by (simp add: attach_live_def)
qed

lemma request_optional_inv:
  assumes inv: "mb_inv b" and i: "handle b i"
  obtains b' x where "request_optional i b = Inr (b', x)" "mb_inv b'" "mb_next_request b' = mb_next_request b"
    "subseq (mb_waiters b') (mb_waiters b @ [i])" "mb_hard_budget b' = mb_hard_budget b"
proof (cases "mr_closed (request b i) \<or> mr_pending (request b i) \<noteq> None \<or> mr_waiting (request b i)")
  case True
  then have "\<exists>x. request_optional i b = Inr (b, x)" by (auto simp: request_optional_def)
  then show ?thesis using that inv list_emb_append2 [OF subseq_order.order_refl] by blast
next
  case False
  note pre = mb_inv_pre [OF inv]
  note core = mb_preD(1) [OF pre]
  have i: "i \<in> set (mb_requests b)" using False open_handle [OF pre i] by blast
  let ?b = "(modify_request i (\<lambda>r. r\<lparr>mr_waiting := True\<rparr>) b)\<lparr>mb_waiters := mb_waiters b @ [i]\<rparr>"
  let ?r' = "(request b i)\<lparr>mr_waiting := True\<rparr>"
  have held: "held ?r' = held (request b i)" by (simp add: held_def)
  have "mb_core {#} ?b"
    by (rule mb_core_update [OF core i, where r' = ?r'])
       (use mb_coreD(11) [OF core i] False in
         \<open>simp_all add: request_ok_def held base_count_def debt_count_def debt_sum_def\<close>)
  moreover have "waiters_ok (mb_waiters ?b) ?b"
    using mb_preD(2) [OF pre] i False by (auto simp: waiters_ok_def)
  moreover have "none_closed ?b" "targets_ok ?b"
    using mb_preD(3,4) [OF pre] by (auto simp: none_closed_def targets_ok_def)
  ultimately have "mb_pre ?b" by (simp add: mb_pre_def)
  from schedule_and_assert_ok [OF this] obtain b' where b': "schedule_and_assert ?b = Inr b'" "mb_inv b'"
    "mb_frame ?b b'" "subseq (mb_waiters b') (mb_waiters b @ [i])" by auto
  then have "request_optional i b = Inr (b', Inr ())" using False by (simp add: request_optional_def Let_def)
  then show ?thesis using that b'(2-4) by (simp add: mb_frame_def)
qed

lemma accept_optional_inv:
  assumes inv: "mb_inv b" and i: "handle b i"
  obtains b' x where "accept_optional i b = Inr (b', x)" "mb_inv b'" "mb_next_request b' = mb_next_request b"
    "mb_waiters b' = mb_waiters b" "mb_hard_budget b' = mb_hard_budget b"
proof (cases "mr_closed (request b i) \<or> mr_pending (request b i) = None")
  case True
  then have "\<exists>x. accept_optional i b = Inr (b, x)" by (auto simp: accept_optional_def)
  then show ?thesis using that inv by blast
next
  case False
  note pre = mb_inv_pre [OF inv]
  note core = mb_preD(1) [OF pre]
  have i: "i \<in> set (mb_requests b)" using False open_handle [OF pre i] by blast
  note ok = request_okD [OF mb_coreD(11) [OF core i]]
  from False obtain l where l: "mr_pending (request b i) = Some l" by blast
  from ok(10) [OF l] obtain c where c: "ls_chunk l = Some c" "ls_request l = i"
    "mc_owner (mb_chunk_heap b c) = i" "mc_generation (mb_chunk_heap b c) = ls_generation l"
    by (auto simp: lease_ok_def)
  have new: "c \<notin> fst ` set (mr_chunks (request b i))"
    using held_distinct [OF core i, of c "mset (map fst (mr_chunks (request b i)))"]
    by (simp add: held_def l c)
  let ?r' = "(request b i)\<lparr>mr_pending := None, mr_notified := False,
    mr_chunks := mr_chunks (request b i) @ [(c, ls_generation l)]\<rparr>"
  let ?b = "modify_request i (\<lambda>r. r\<lparr>mr_chunks := (case ls_chunk l of None \<Rightarrow> mr_chunks r
      | Some c \<Rightarrow> AList.update c (ls_generation l) (mr_chunks r))\<rparr>)
    (drain_notification i (modify_request i (\<lambda>r. r\<lparr>mr_pending := None\<rparr>) b))"
  have r: "request ?b i = ?r'" by (simp add: drain_notification_def c update_fresh_key [OF new])
  have others: "request ?b j = request b j" if "j \<noteq> i" for j using that by (simp add: drain_notification_def)
  have held: "mset (held ?r') = mset (held (request b i))" by (simp add: held_def l c)
  have "mb_core {#} ?b"
  proof (rule mb_core_update [OF core i, where r' = ?r'])
    have "length (held ?r') = length (held (request b i))" using held by (metis size_mset)
    then show "request_ok (mb_chunk_heap ?b) i ?r'"
      using ok(1-9,11,12) new c
      by (auto simp: request_ok_def drain_notification_def map_add_Some_iff split: if_splits)
    show "quiet (request ?b i) = quiet ?r'" by (simp only: r)
  qed (simp_all add: r others held, simp_all add: drain_notification_def base_count_def debt_count_def debt_sum_def)
  moreover have "waiters_ok (mb_waiters ?b) ?b"
    using mb_preD(2) [OF pre] by (auto simp: waiters_ok_def drain_notification_def)
  ultimately have inv': "mb_inv ?b"
    by (intro inv_local [OF inv, where i = i])
       (use ok(9) l mb_preD(2) [OF pre] in \<open>auto simp: others drain_notification_def waiters_ok_def\<close>)
  then have "accept_optional i b = Inr (?b, Inr l)"
    using False l assert_accounting_ok [OF mb_preD(1,2), OF mb_inv_pre mb_inv_pre]
    by (simp add: accept_optional_def Let_def)
  then show ?thesis using that inv' by (simp add: drain_notification_def)
qed

lemma release_frame [simp]:
  "mb_hard_budget (release_owned_chunk i c b) = mb_hard_budget b"
  "mb_requests (release_owned_chunk i c b) = mb_requests b"
  "mb_next_request (release_owned_chunk i c b) = mb_next_request b"
  "mb_waiters (release_owned_chunk i c b) = mb_waiters b"
  "mr_waiting (request (release_owned_chunk i c b) j) = mr_waiting (request b j)"
  "mr_closed (request (release_owned_chunk i c b) j) = mr_closed (request b j)"
  "mr_target (request (release_owned_chunk i c b) j) = mr_target (request b j)"
  "mr_pending (request (release_owned_chunk i c b) j) = mr_pending (request b j)"
  "mr_chunks (request (release_owned_chunk i c b) j) = mr_chunks (request b j)"
  by (simp_all add: release_owned_chunk_def recompute_debt_def Let_def)

lemma reclaim_frame:
  assumes "reclaim_pending i l b = Inr b'"
  shows "mb_hard_budget b' = mb_hard_budget b" "mb_requests b' = mb_requests b"
    "mb_next_request b' = mb_next_request b" "mb_waiters b' = mb_waiters b"
    "mr_waiting (request b' j) = mr_waiting (request b j)"
    "mr_closed (request b' j) = mr_closed (request b j)"
    "mr_target (request b' j) = mr_target (request b j)"
    "mr_pending (request b' i) = None" "mr_chunks (request b' j) = mr_chunks (request b j)"
  using assms
  by (auto simp: reclaim_pending_def drain_notification_def split: option.splits if_splits)

lemma pre_keep:
  assumes "mb_pre b" and "mb_core {#} b'" and "mb_hard_budget b' = mb_hard_budget b"
    and "mb_requests b' = mb_requests b" and "mb_waiters b' = mb_waiters b"
    and "\<And>j. mr_waiting (request b' j) = mr_waiting (request b j)"
    and "\<And>j. mr_closed (request b' j) = mr_closed (request b j)"
    and "\<And>j. mr_target (request b' j) = mr_target (request b j)"
  shows "mb_pre b'"
  using assms by (simp add: mb_pre_def waiters_ok_def none_closed_def targets_ok_def)

lemma subseq_remove1: "subseq (remove1 x xs) xs"
  by (induction xs) auto

text \<open>Leaving the queue of waiters.\<close>

lemma remove_waiter_core:
  assumes core: "mb_core L b" and wait: "waiters_ok (mb_waiters b) b"
    and i: "i \<in> set (mb_requests b)" "mr_waiting (request b i)"
  defines "b' \<equiv> modify_request i (\<lambda>r. r\<lparr>mr_waiting := False\<rparr>) (b\<lparr>mb_waiters := remove1 i (mb_waiters b)\<rparr>)"
  shows "remove_waiter i b = Inr b'" "mb_core L b'" "waiters_ok (mb_waiters b') b'"
proof -
  show "remove_waiter i b = Inr b'"
    using wait i by (simp add: remove_waiter_def waiters_ok_def b'_def)
  let ?r' = "(request b i)\<lparr>mr_waiting := False\<rparr>"
  have held: "held ?r' = held (request b i)" by (simp add: held_def)
  show "mb_core L b'" unfolding b'_def
    by (rule mb_core_update [OF core i(1), where r' = ?r'])
       (use mb_coreD(11) [OF core i(1)] in
         \<open>simp_all add: request_ok_def held base_count_def debt_count_def debt_sum_def\<close>)
  show "waiters_ok (mb_waiters b') b'"
    using wait i by (auto simp: waiters_ok_def b'_def set_remove1_eq)
qed

lemma cancel_optional_inv:
  assumes inv: "mb_inv b" and i: "handle b i"
  obtains b' x where "cancel_optional i b = Inr (b', x)" "mb_inv b'" "mb_next_request b' = mb_next_request b"
    "subseq (mb_waiters b') (mb_waiters b)" "mb_hard_budget b' = mb_hard_budget b"
proof (cases "mr_closed (request b i)")
  case True
  then show ?thesis using that [of b] inv by (simp add: cancel_optional_def)
next
  case False
  note pre = mb_inv_pre [OF inv]
  note core = mb_preD(1) [OF pre] and wait = mb_preD(2) [OF pre]
  have i: "i \<in> set (mb_requests b)" using False open_handle [OF pre i] by blast
  note ok = request_okD [OF mb_coreD(11) [OF core i]]
  show ?thesis
  proof (cases "mr_pending (request b i)")
    case (Some l)
    from reclaim_core [OF core i Some] obtain b1 where b1: "reclaim_pending i l b = Inr b1" "mb_core {#} b1" by blast
    note F = reclaim_frame [OF b1(1)]
    have "mb_pre b1" by (rule pre_keep [OF pre b1(2)]) (simp_all add: F)
    then show ?thesis
      by (rule schedule_and_assert_ok)
         (use that Some False b1(1) F(1,3,4) in \<open>auto simp: cancel_optional_def mb_frame_def\<close>)
  next
    case None
    show ?thesis
    proof (cases "mr_waiting (request b i)")
      case False
      then show ?thesis using that [of b] inv None assert_accounting_ok [OF core wait] \<open>\<not> mr_closed (request b i)\<close>
        by (simp add: cancel_optional_def)
    next
      case True
      note R = remove_waiter_core [OF core wait i True]
      let ?b = "modify_request i (\<lambda>r. r\<lparr>mr_waiting := False\<rparr>) (b\<lparr>mb_waiters := remove1 i (mb_waiters b)\<rparr>)"
      have "mb_inv (project_request i ?b)"
        by (rule inv_local [OF inv, where i = i])
           (use R(2,3) wait set_remove1_subset in \<open>auto simp: waiters_ok_def\<close>)
      moreover have "assert_accounting (project_request i ?b) = Inr (project_request i ?b)"
        using R(2,3) by (intro assert_accounting_ok) simp_all
      moreover have "subseq (remove1 i (mb_waiters b)) (mb_waiters b)"
        by (rule subseq_remove1)
      ultimately show ?thesis using that R(1) None True \<open>\<not> mr_closed (request b i)\<close>
        by (simp add: cancel_optional_def)
    qed
  qed
qed

lemma release_optional_inv:
  assumes inv: "mb_inv b" and i: "handle b i"
  obtains b' x where "release_optional i l b = Inr (b', x)" "mb_inv b'" "mb_next_request b' = mb_next_request b"
    "subseq (mb_waiters b') (mb_waiters b)" "mb_hard_budget b' = mb_hard_budget b"
proof (cases "mr_closed (request b i) \<or> \<not> valid_accepted_lease b i l")
  case True
  then have "\<exists>x. release_optional i l b = Inr (b, x)" by (auto simp: release_optional_def)
  then show ?thesis using that inv by blast
next
  case False
  note pre = mb_inv_pre [OF inv]
  have i: "i \<in> set (mb_requests b)" using False open_handle [OF pre i] by blast
  from False obtain c where c: "ls_chunk l = Some c" "map_of (mr_chunks (request b i)) c = Some (ls_generation l)"
    by (auto simp: valid_accepted_lease_def split: option.splits if_splits)
  have core: "mb_core {#} (release_accepted i c b)"
    by (rule release_accepted_core [OF mb_preD(1) [OF pre] i c(2)])
  have "mb_pre (release_accepted i c b)"
    by (rule pre_keep [OF pre core]) (simp_all add: release_accepted_def)
  then show ?thesis
    by (rule schedule_and_assert_ok)
       (use that False c(1) in \<open>auto simp: release_optional_def mb_frame_def release_accepted_def\<close>)
qed

subsection \<open>Closing a request\<close>

lemma close_chunks_core:
  assumes "mb_core L b" and "i \<in> set (mb_requests b)" and "distinct cs"
    and "set cs = set (map fst (mr_chunks (request b i)))"
  shows "mb_core L (fold (release_accepted i) cs b) \<and>
    mr_chunks (request (fold (release_accepted i) cs b) i) = [] \<and>
    mb_hard_budget (fold (release_accepted i) cs b) = mb_hard_budget b \<and>
    mb_requests (fold (release_accepted i) cs b) = mb_requests b \<and>
    mb_next_request (fold (release_accepted i) cs b) = mb_next_request b \<and>
    mb_waiters (fold (release_accepted i) cs b) = mb_waiters b \<and>
    mr_pending (request (fold (release_accepted i) cs b) i) = mr_pending (request b i) \<and>
    (\<forall>j. mr_waiting (request (fold (release_accepted i) cs b) j) = mr_waiting (request b j) \<and>
         mr_closed (request (fold (release_accepted i) cs b) j) = mr_closed (request b j))"
  using assms
proof (induction cs arbitrary: b)
  case Nil
  then show ?case by simp
next
  case (Cons c cs)
  let ?b = "release_accepted i c b" and ?m = "mr_chunks (request b i)"
  from Cons.prems(4) have "c \<in> set (map fst ?m)" by (metis list.set_intros(1))
  then obtain g where g: "map_of ?m c = Some g" by (metis domD dom_map_of_conv_image_fst set_map)
  have "mr_chunks (request ?b i) = AList.delete c ?m" by (simp add: release_accepted_def)
  then have "set (map fst (mr_chunks (request ?b i))) = set (map fst ?m) - {c}"
    by (simp only: delete_keys set_removeAll)
  also have "\<dots> = set cs" unfolding Cons.prems(4) [symmetric] using Cons.prems(3) by auto
  finally have keys: "set cs = set (map fst (mr_chunks (request ?b i)))" ..
  have "mb_core L ?b" by (rule release_accepted_core [OF Cons.prems(1,2) g])
  from Cons.IH [OF this _ _ keys] Cons.prems(2,3) show ?case
    by (simp add: release_accepted_def)
qed

text \<open>The request, holding nothing, leaves the pool.\<close>

lemma close_remove_core:
  assumes core: "mb_core L b" and i: "i \<in> set (mb_requests b)" and closed: "mr_closed (request b i)"
    and empty: "mr_pending (request b i) = None" "mr_chunks (request b i) = []"
    and wait: "waiters_ok (mb_waiters b) b" "\<not> mr_waiting (request b i)"
    and others: "\<And>j. j \<in> set (mb_requests b) \<Longrightarrow> j \<noteq> i \<Longrightarrow> \<not> mr_closed (request b j)"
  obtains b' where "close_step_remove i b = Inr b'" "mb_core L b'" "waiters_ok (mb_waiters b') b'"
    "none_closed b'" "mb_requests b' = remove1 i (mb_requests b)" "mb_waiters b' = mb_waiters b"
    "mb_next_request b' = mb_next_request b" "mb_hard_budget b' = mb_hard_budget b"
    "\<And>j. mr_closed (request b' j) = mr_closed (request b j)"
    "\<And>j. j \<noteq> i \<Longrightarrow> mr_chunks (request b' j) = mr_chunks (request b j)"
proof -
  note D = mb_coreD [OF core]
  note ok = request_okD [OF D(11) [OF i]]
  let ?b = "modify_request i (\<lambda>r. r\<lparr>mr_notify_closed := True\<rparr>)
    ((remove_request_counters i b)\<lparr>mb_requests := remove1 i (mb_requests b)\<rparr>)"
  have close: "close_step_remove i b = Inr ?b" using i by (simp add: close_step_remove_def Let_def)
  have held: "held (request b i) = []" using empty by (simp add: held_def)
  have owned: "mr_owned (request b i) = 0" using ok(1) held by simp
  have set': "set (remove1 i (mb_requests b)) = set (mb_requests b) - {i}" using D(8) by simp
  have tal: "tally f b = f (request b i) + tally f ?b" for f :: "mb_request \<Rightarrow> 'a :: comm_monoid_add"
  proof -
    have "tally f b = f (request b i) + sum_list (map (\<lambda>j. f (request b j)) (remove1 i (mb_requests b)))"
      unfolding tally_def by (rule sum_list_map_remove1 [OF i])
    also have "map (\<lambda>j. f (request b j)) (remove1 i (mb_requests b)) =
        map (\<lambda>j. f (request ?b j)) (mb_requests ?b)"
      using set' by (auto intro!: map_cong)
    finally show ?thesis by (simp only: tally_def)
  qed
  have "counters_ok ?b"
    using D(7) tal [of base_count] tal [of debt_count] tal [of debt_sum]
    by (simp add: counters_ok_def counter_values)
  moreover have "mb_owned ?b = tally mr_owned ?b" using D(6) tal [of mr_owned] owned by simp
  moreover have "tally (\<lambda>r. mset (held r)) ?b + mset (mb_free ?b) + L = mset [1 ..< Suc (mb_next_chunk ?b)]"
    using D(5) tal [of "\<lambda>r. mset (held r)"] held by simp
  moreover have "request_ok (mb_chunk_heap ?b) j (request ?b j)" if "j \<in> set (mb_requests ?b)" for j
    using that set' D(11) by auto
  moreover have "mr_closed (request ?b j)" if "1 \<le> j" "j \<le> mb_next_request ?b" "j \<notin> set (mb_requests ?b)" for j
    using that set' D(12) closed by auto
  moreover have "1 \<le> j \<and> j \<le> mb_next_request ?b" if "j \<in> set (mb_requests ?b)" for j
    using that set' D(9,10) by auto
  moreover have "distinct (mb_requests ?b)" using D(8) by simp
  ultimately have core': "mb_core L ?b" using D(1-4) unfolding mb_core_def by simp
  moreover have "waiters_ok (mb_waiters ?b) ?b" using wait set' by (auto simp: waiters_ok_def)
  moreover have "none_closed ?b" using others set' by (auto simp: none_closed_def)
  ultimately show ?thesis using that close by simp
qed

lemma close_request_inv:
  assumes inv: "mb_inv b" and h: "handle b i"
  obtains b' where "close_request i b = Inr b'" "mb_inv b'" "mb_next_request b' = mb_next_request b"
    "mb_hard_budget b' = mb_hard_budget b" "mr_closed (request b' i)"
    "subseq (mb_waiters b') (mb_waiters b)"
    "mb_requests b' = remove1 i (mb_requests b)"
proof (cases "mr_closed (request b i)")
  case True
  then have "i \<notin> set (mb_requests b)" using open_handle [OF mb_inv_pre [OF inv] h] by blast
  with True show ?thesis using that [of b] inv by (simp add: close_request_def remove1_idem)
next
  case False
  note pre = mb_inv_pre [OF inv]
  note core = mb_preD(1) [OF pre] and wait = mb_preD(2) [OF pre]
  have i: "i \<in> set (mb_requests b)" using False open_handle [OF pre h] by blast
  let ?b0 = "modify_request i (\<lambda>r. r\<lparr>mr_closed := True\<rparr>) b"
  have core0: "mb_core {#} ?b0"
    by (rule mb_core_update [OF core i, where r' = "(request b i)\<lparr>mr_closed := True\<rparr>"])
       (use mb_coreD(11) [OF core i] in
         \<open>simp_all add: request_ok_def held_def base_count_def debt_count_def debt_sum_def\<close>)
  have wait0: "waiters_ok (mb_waiters ?b0) ?b0" using wait by (auto simp: waiters_ok_def)
  have "\<exists>b1. close_step_waiter i ?b0 = Inr b1 \<and> mb_core {#} b1 \<and> waiters_ok (mb_waiters b1) b1 \<and>
      \<not> mr_waiting (request b1 i) \<and> mb_frame ?b0 b1 \<and> subseq (mb_waiters b1) (mb_waiters b)"
  proof (cases "mr_waiting (request ?b0 i)")
    case True
    from remove_waiter_core [OF core0 wait0 _ True] i True show ?thesis
      by (simp add: close_step_waiter_def mb_frame_def subseq_remove1)
  next
    case False
    with core0 wait0 show ?thesis by (simp add: close_step_waiter_def)
  qed
  then obtain b1 where b1: "close_step_waiter i ?b0 = Inr b1" "mb_core {#} b1" "waiters_ok (mb_waiters b1) b1"
    "\<not> mr_waiting (request b1 i)" "mb_frame ?b0 b1" "subseq (mb_waiters b1) (mb_waiters b)" by blast
  have i1: "i \<in> set (mb_requests b1)" using b1(5) i by (simp add: mb_frame_def)
  note ok1 = request_okD [OF mb_coreD(11) [OF b1(2) i1]]
  have "\<exists>b2. close_step_pending i b1 = Inr b2 \<and> mb_core {#} b2 \<and> mb_waiters b2 = mb_waiters b1 \<and>
      mr_pending (request b2 i) = None \<and> mb_frame b1 b2 \<and>
      (\<forall>j. mr_waiting (request b2 j) = mr_waiting (request b1 j))"
  proof (cases "mr_pending (request b1 i)")
    case None
    then have "\<not> mr_notified (request b1 i)" using ok1(7) by simp
    then have "(request b1 i)\<lparr>mr_notified := False\<rparr> = request b1 i" by (cases "request b1 i") simp
    then have "drain_notification i b1 = b1" by (simp add: drain_notification_def modify_request_def)
    with None b1(2) show ?thesis by (simp add: close_step_pending_def)
  next
    case (Some l)
    from reclaim_core [OF b1(2) i1 Some] obtain b2 where b2: "reclaim_pending i l b1 = Inr b2" "mb_core {#} b2" by blast
    with Some reclaim_frame [OF b2(1)] show ?thesis by (simp add: close_step_pending_def mb_frame_def)
  qed
  then obtain b2 where b2: "close_step_pending i b1 = Inr b2" "mb_core {#} b2" "mb_waiters b2 = mb_waiters b1"
    "mr_pending (request b2 i) = None" "mb_frame b1 b2"
    "\<And>j. mr_waiting (request b2 j) = mr_waiting (request b1 j)" by blast
  have i2: "i \<in> set (mb_requests b2)" using b2(5) i1 by (simp add: mb_frame_def)
  have "distinct (map fst (mr_chunks (request b2 i)))"
    using request_okD(11) [OF mb_coreD(11) [OF b2(2) i2]] .
  note C = close_chunks_core [OF b2(2) i2 this refl, folded close_step_chunks_def]
  let ?b3 = "close_step_chunks i b2"
  have closed3: "mr_closed (request ?b3 j) \<longleftrightarrow> mr_closed (request ?b0 j)" for j
    using C b2(5) b1(5) by (simp add: mb_frame_def)
  have reqs3: "mb_requests ?b3 = mb_requests b" using C b2(5) b1(5) by (simp add: mb_frame_def)
  have wait3: "waiters_ok (mb_waiters ?b3) ?b3" "\<not> mr_waiting (request ?b3 i)"
    using b1(3,4) C b2(3,5,6) by (simp_all add: waiters_ok_def mb_frame_def)
  have "\<not> mr_closed (request ?b3 j)" if "j \<in> set (mb_requests ?b3)" "j \<noteq> i" for j
    using that mb_preD(3) [OF pre] by (simp add: closed3 reqs3 none_closed_def)
  moreover have "mr_closed (request ?b3 i)" "mr_pending (request ?b3 i) = None" "mr_chunks (request ?b3 i) = []"
    "mb_core {#} ?b3" "i \<in> set (mb_requests ?b3)"
    using C b2(4) closed3 [of i] i2 by simp_all
  ultimately obtain b4 where b4: "close_step_remove i ?b3 = Inr b4" "mb_core {#} b4"
    "waiters_ok (mb_waiters b4) b4" "none_closed b4" "mb_requests b4 = remove1 i (mb_requests ?b3)"
    "mb_waiters b4 = mb_waiters ?b3" "mb_next_request b4 = mb_next_request ?b3"
    "mb_hard_budget b4 = mb_hard_budget ?b3" "mr_closed (request b4 i)"
    using close_remove_core [of "{#}" ?b3 i, OF _ _ _ _ _ wait3] by metis
  have same4: "mb_waiters b4 = mb_waiters b1" "mb_next_request b4 = mb_next_request b"
    "mb_hard_budget b4 = mb_hard_budget b" "mb_requests b4 = remove1 i (mb_requests b)"
    using C b1(5) b2(3,5) b4(5-8) reqs3 by (simp_all add: mb_frame_def)
  note R = recompute_targets_ok [OF b4(2,3)]
  have "mb_pre (recompute_targets b4)" using R(1-5) b4(4) by (simp add: mb_pre_def)
  then obtain b5 where b5: "schedule_and_assert (recompute_targets b4) = Inr b5" "mb_inv b5"
    "mb_frame (recompute_targets b4) b5" "subseq (mb_waiters b5) (mb_waiters b1)"
    by (rule schedule_and_assert_ok) (simp add: R(5) same4)
  have "close_request i b = Inr b5"
    using False b1(1) b2(1) b4(1) b5(1) by (simp add: close_request_def Let_def)
  then show ?thesis
    using that b5(2-4) same4 b4(9) R(5-9) b1(6) subseq_order.trans by (fastforce simp: mb_frame_def)
qed

section \<open>Reachable states\<close>

datatype mb_op =
    OpRegister
  | OpAttach nat live_projection
  | OpRequest nat
  | OpAccept nat
  | OpCancel nat
  | OpRelease nat lease
  | OpClose nat

fun op_handle :: "mb_op \<Rightarrow> nat option" where
  "op_handle OpRegister = None"
| "op_handle (OpAttach i _) = Some i"
| "op_handle (OpRequest i) = Some i"
| "op_handle (OpAccept i) = Some i"
| "op_handle (OpCancel i) = Some i"
| "op_handle (OpRelease i _) = Some i"
| "op_handle (OpClose i) = Some i"

fun mb_exec :: "mb_op \<Rightarrow> media_buffer \<Rightarrow> mb_panic + media_buffer" where
  "mb_exec OpRegister b = map_sum id fst (register b)"
| "mb_exec (OpAttach i l) b = Inr (attach_live i l b)"
| "mb_exec (OpRequest i) b = map_sum id fst (request_optional i b)"
| "mb_exec (OpAccept i) b = map_sum id fst (accept_optional i b)"
| "mb_exec (OpCancel i) b = map_sum id fst (cancel_optional i b)"
| "mb_exec (OpRelease i l) b = map_sum id fst (release_optional i l b)"
| "mb_exec (OpClose i) b = close_request i b"

text \<open>
  Callers reach a request only through the pointer \<open>register\<close> returned, and may pass any lease
  they ever saw.
\<close>

inductive mb_reachable :: "int \<Rightarrow> media_buffer \<Rightarrow> bool" for budget :: int where
  mb_start: "new_media_buffer budget = Inr b \<Longrightarrow> mb_reachable budget b"
| mb_step: "mb_reachable budget b \<Longrightarrow> (\<And>i. op_handle op = Some i \<Longrightarrow> handle b i) \<Longrightarrow>
    mb_exec op b = Inr b' \<Longrightarrow> mb_reachable budget b'"

inductive_cases mb_reachableE: "mb_reachable budget b"

lemma exec_inv:
  assumes inv: "mb_inv b" and h: "\<And>i. op_handle op = Some i \<Longrightarrow> handle b i"
  shows "\<exists>b'. mb_exec op b = Inr b' \<and> mb_inv b' \<and> mb_hard_budget b' = mb_hard_budget b"
proof (cases op)
  case OpRegister
  show ?thesis by (rule register_inv [OF inv]) (simp add: OpRegister)
next
  case (OpAttach i l)
  with attach_live_inv [OF inv h [of i]] show ?thesis by (simp add: attach_live_def)
next
  case (OpRequest i)
  show ?thesis by (rule request_optional_inv [OF inv h [of i]]) (simp_all add: OpRequest)
next
  case (OpAccept i)
  show ?thesis by (rule accept_optional_inv [OF inv h [of i]]) (simp_all add: OpAccept)
next
  case (OpCancel i)
  show ?thesis by (rule cancel_optional_inv [OF inv h [of i]]) (simp_all add: OpCancel)
next
  case (OpRelease i l)
  show ?thesis by (rule release_optional_inv [OF inv h [of i], where l = l]) (simp_all add: OpRelease)
next
  case (OpClose i)
  show ?thesis by (rule close_request_inv [OF inv h [of i]]) (simp_all add: OpClose)
qed

lemma reachable_inv: "mb_reachable budget b \<Longrightarrow> mb_inv b \<and> mb_hard_budget b = budget"
proof (induction rule: mb_reachable.induct)
  case (mb_start b)
  then show ?case using new_media_buffer_inv by blast
next
  case (mb_step b op b')
  then show ?case using exec_inv [of b op] by auto
qed

end
