(* ===== verification/Media_Buffer_Theorems.thy ===== *)
theory Media_Buffer_Theorems
  imports Media_Buffer_Safety
begin

text \<open>
  The properties of the chunk pool of \<open>Media_Buffer\<close>: where grants come from and why a released
  lease stays dead, a concrete run of the pool, and the properties of every reachable state.
\<close>

section \<open>Where grants come from\<close>

text \<open>The grant \<open>g\<close> of chunk \<open>c\<close> to request \<open>j\<close> is pending or accepted.\<close>

definition has_grant :: "media_buffer \<Rightarrow> nat \<Rightarrow> nat \<Rightarrow> nat \<Rightarrow> bool" where
  "has_grant b j c g \<longleftrightarrow>
     (\<exists>l. mr_pending (request b j) = Some l \<and> ls_chunk l = Some c \<and> ls_generation l = g) \<or>
     map_of (mr_chunks (request b j)) c = Some g"

text \<open>All grants of \<open>b\<close> are grants of \<open>a\<close> or were numbered since.\<close>

definition grants_from :: "media_buffer \<Rightarrow> media_buffer \<Rightarrow> bool" where
  "grants_from a b \<longleftrightarrow>
     mb_next_grant a \<le> mb_next_grant b \<and>
     (\<forall>j c g. has_grant b j c g \<longrightarrow>
        has_grant a j c g \<or> mb_next_grant a < g \<and> g \<le> mb_next_grant b)"

lemma has_grant_local [simp]:
  "has_grant (project_request i b) j c g \<longleftrightarrow> has_grant b j c g"
  "has_grant (b\<lparr>mb_waiters := W\<rparr>) j c g \<longleftrightarrow> has_grant b j c g"
  "has_grant (release_owned_chunk i d b) j c g \<longleftrightarrow> has_grant b j c g"
  "has_grant (retarget t i b) j c g \<longleftrightarrow> has_grant b j c g"
  "has_grant (modify_request i (\<lambda>r. r\<lparr>mr_waiting := w\<rparr>) b) j c g \<longleftrightarrow> has_grant b j c g"
  "has_grant (modify_request i (\<lambda>r. r\<lparr>mr_closed := w\<rparr>) b) j c g \<longleftrightarrow> has_grant b j c g"
  "has_grant (modify_request i (\<lambda>r. r\<lparr>mr_notified := w\<rparr>) b) j c g \<longleftrightarrow> has_grant b j c g"
  "has_grant (modify_request i (\<lambda>r. r\<lparr>mr_live := v\<rparr>) b) j c g \<longleftrightarrow> has_grant b j c g"
  by (simp_all add: has_grant_def retarget_def recompute_debt_def Let_def)

lemma next_grant_local [simp]:
  "mb_next_grant (release_owned_chunk i d b) = mb_next_grant b"
  "mb_next_grant (retarget t i b) = mb_next_grant b"
  by (simp_all add: release_owned_chunk_def retarget_def Let_def)

lemma grants_from_refl [simp]: "grants_from b b"
  by (simp add: grants_from_def)

lemma grants_from_keep:
  "grants_from a b \<Longrightarrow> mb_next_grant b' = mb_next_grant b \<Longrightarrow>
   (\<And>j c g. has_grant b' j c g \<Longrightarrow> has_grant b j c g) \<Longrightarrow> grants_from a b'"
  unfolding grants_from_def by metis

lemma grants_from_new:
  "grants_from a b \<Longrightarrow> mb_next_grant b' = mb_next_grant b + 1 \<Longrightarrow>
   (\<And>j c g. has_grant b' j c g \<Longrightarrow> has_grant b j c g \<or> g = mb_next_grant b + 1) \<Longrightarrow> grants_from a b'"
  unfolding grants_from_def by (metis le_add1 le_trans less_add_one order.strict_trans1 order_refl)

lemma grants_from_local [simp]:
  "grants_from a (project_request i b) \<longleftrightarrow> grants_from a b"
  "grants_from a (b\<lparr>mb_waiters := W\<rparr>) \<longleftrightarrow> grants_from a b"
  "grants_from a (release_owned_chunk i d b) \<longleftrightarrow> grants_from a b"
  "grants_from a (retarget t i b) \<longleftrightarrow> grants_from a b"
  "grants_from a (modify_request i (\<lambda>r. r\<lparr>mr_waiting := w\<rparr>) b) \<longleftrightarrow> grants_from a b"
  "grants_from a (modify_request i (\<lambda>r. r\<lparr>mr_closed := w\<rparr>) b) \<longleftrightarrow> grants_from a b"
  "grants_from a (modify_request i (\<lambda>r. r\<lparr>mr_notified := w\<rparr>) b) \<longleftrightarrow> grants_from a b"
  "grants_from a (modify_request i (\<lambda>r. r\<lparr>mr_live := v\<rparr>) b) \<longleftrightarrow> grants_from a b"
  by (simp_all only: grants_from_def has_grant_local next_grant_local modify_request_simps
      project_request_simps) simp_all

lemma grants_from_take:
  assumes "grants_from a b" and "take_chunk b = (x, b1)"
  shows "grants_from a b1"
  by (rule grants_from_keep [OF assms(1)])
     (use assms(2) in \<open>auto simp: take_chunk_def has_grant_def Let_def split: if_splits\<close>)

lemma grants_from_send:
  assumes "grants_from a b" and "send_notification i (grant i d b) = Inr b'"
  shows "grants_from a b'"
proof (rule grants_from_new [OF assms(1)])
  from assms(2) have b': "b' = modify_request i (\<lambda>r. r\<lparr>mr_notified := True\<rparr>) (grant i d b)"
    by (auto simp: send_notification_def split: if_splits)
  show "mb_next_grant b' = mb_next_grant b + 1"
    by (simp add: b' grant_def Let_def)
  show "has_grant b j c g \<or> g = mb_next_grant b + 1" if "has_grant b' j c g" for j c g
    using that unfolding b' has_grant_local
    by (auto simp: has_grant_def grant_def recompute_debt_def Let_def split: if_splits)
qed

lemma grants_from_schedule:
  "schedule_loop pop b = Inr b' \<Longrightarrow> grants_from a b \<Longrightarrow> grants_from a b'"
proof (induction pop b rule: schedule_loop.induct)
  case (1 b)
  then show ?case by simp
next
  case (2 i pop b)
  show ?case
  proof (cases "can_grant b i")
    case False
    with 2 show ?thesis by simp
  next
    case True
    obtain x b1 where t: "take_chunk b = (x, b1)" by fastforce
    note g1 = grants_from_take [OF 2(5) t]
    show ?thesis
    proof (cases x)
      case None
      with 2(2) [OF _ t [symmetric]] 2(4) True t g1 show ?thesis by simp
    next
      case (Some c)
      with 2(4) True t obtain b2 where b2: "send_notification i (grant i c b1) = Inr b2"
        by (auto split: sum.splits)
      from 2(3) [OF _ t [symmetric] Some b2] 2(4) True t Some b2 grants_from_send [OF g1 b2]
      show ?thesis by simp
    qed
  qed
qed

lemma assert_accounting_same: "assert_accounting b = Inr b' \<Longrightarrow> b' = b"
  by (auto simp: assert_accounting_def Let_def split: if_splits)

lemma grants_from_schedule_and_assert:
  assumes "schedule_and_assert b = Inr b'" and "grants_from a b"
  shows "grants_from a b'"
proof -
  from assms(1) obtain b1 where "schedule_loop (mb_waiters b) (b\<lparr>mb_waiters := []\<rparr>) = Inr b1" "b' = b1"
    by (auto simp: schedule_and_assert_def schedule_def dest: assert_accounting_same split: sum.splits)
  with assms(2) grants_from_schedule [of "mb_waiters b"] show ?thesis by simp
qed

lemma grants_from_recompute: "grants_from a b \<Longrightarrow> grants_from a (recompute_targets b)"
proof -
  have "grants_from a b \<Longrightarrow> grants_from a (fold (retarget t) is b)" for t "is"
    by (induction "is" arbitrary: b) simp_all
  then show "grants_from a b \<Longrightarrow> ?thesis" by (simp add: recompute_targets_def Let_def)
qed

lemma grants_from_forget:
  "grants_from a b \<Longrightarrow> grants_from a (modify_request i (\<lambda>r. r\<lparr>mr_pending := None\<rparr>) b)"
  "grants_from a b \<Longrightarrow> grants_from a (modify_request i (\<lambda>r. r\<lparr>mr_chunks := AList.delete d (mr_chunks r)\<rparr>) b)"
  by (erule grants_from_keep; auto simp: has_grant_def AList.delete_conv' split: if_splits)+

lemma grants_from_reclaim:
  "reclaim_pending i l b = Inr b' \<Longrightarrow> grants_from a b \<Longrightarrow> grants_from a b'"
  by (auto simp: reclaim_pending_def drain_notification_def grants_from_forget split: option.splits if_splits)

lemma grants_from_remove_waiter:
  "remove_waiter i b = Inr b' \<Longrightarrow> grants_from a b \<Longrightarrow> grants_from a b'"
  by (auto simp: remove_waiter_def split: if_splits)

lemma grants_from_close:
  assumes "close_request i b = Inr b'" and "grants_from a b"
  shows "grants_from a b'"
proof (cases "mr_closed (request b i)")
  case True
  with assms show ?thesis by (simp add: close_request_def)
next
  case False
  with assms(1) obtain b1 b2 b3 where
    b1: "close_step_waiter i (modify_request i (\<lambda>r. r\<lparr>mr_closed := True\<rparr>) b) = Inr b1" and
    b2: "close_step_pending i b1 = Inr b2" and
    b3: "close_step_remove i (close_step_chunks i b2) = Inr b3" and
    b4: "schedule_and_assert (recompute_targets b3) = Inr b'"
    by (auto simp: close_request_def Let_def split: sum.splits)
  have "grants_from a b1"
    using b1 assms(2) by (auto simp: close_step_waiter_def grants_from_remove_waiter split: if_splits)
  then have r2: "grants_from a b2"
    using b2 by (auto simp: close_step_pending_def grants_from_reclaim drain_notification_def split: option.splits)
  have "grants_from a (fold (release_accepted i) cs b)" if "grants_from a b" for cs b
    using that by (induction cs arbitrary: b) (simp_all add: release_accepted_def grants_from_forget)
  with r2 have "grants_from a (close_step_chunks i b2)" by (simp add: close_step_chunks_def)
  then have "grants_from a b3"
    by (rule grants_from_keep)
       (use b3 in \<open>auto simp: close_step_remove_def Let_def has_grant_def split: if_splits\<close>)
  with b4 show ?thesis using grants_from_schedule_and_assert grants_from_recompute by blast
qed

lemma map_sum_Inr: "map_sum f g x = Inr y \<longleftrightarrow> (\<exists>z. x = Inr z \<and> y = g z)"
  by (cases x) auto

lemma grants_from_exec:
  assumes "mb_exec op b = Inr b'" and r: "grants_from a b"
  shows "grants_from a b'"
proof (cases op)
  case OpRegister
  let ?b1 = "b\<lparr>mb_next_request := mb_next_request b + 1,
    mb_request_heap := (mb_request_heap b)(mb_next_request b + 1 := fresh_request),
    mb_requests := mb_requests b @ [mb_next_request b + 1]\<rparr>"
  have "grants_from a (add_request_counters (mb_next_request b + 1) ?b1)"
    by (rule grants_from_keep [OF r])
       (auto simp: has_grant_def fresh_request_def add_request_counters_def Let_def split: if_splits)
  moreover have "schedule_and_assert (recompute_targets (add_request_counters (mb_next_request b + 1) ?b1)) = Inr b'"
    using OpRegister assms(1) by (simp add: register_def Let_def map_sum_Inr)
  ultimately show ?thesis using grants_from_schedule_and_assert grants_from_recompute by blast
next
  case (OpAttach i l)
  with assms show ?thesis by (auto simp: attach_live_def)
next
  case (OpRequest i)
  with assms show ?thesis
    by (auto simp: request_optional_def Let_def map_sum_Inr dest: grants_from_schedule_and_assert split: if_splits)
next
  case (OpAccept i)
  have "grants_from a b'" if "\<not> mr_closed (request b i)" "mr_pending (request b i) = Some l" for l
    by (rule grants_from_keep [OF r])
       (use OpAccept assms(1) that in
         \<open>auto simp: accept_optional_def Let_def map_sum_Inr drain_notification_def has_grant_def
           AList.update_conv' dest!: assert_accounting_same split: if_splits option.splits\<close>)
  with OpAccept assms show ?thesis by (auto simp: accept_optional_def split: if_splits option.splits)
next
  case (OpCancel i)
  with assms show ?thesis
    by (auto simp: cancel_optional_def map_sum_Inr dest!: assert_accounting_same grants_from_reclaim grants_from_remove_waiter
        grants_from_schedule_and_assert split: if_splits sum.splits option.splits)
next
  case (OpRelease i l)
  have "grants_from a (release_accepted i d b)" for d
    using r by (simp add: release_accepted_def grants_from_forget)
  with OpRelease assms grants_from_schedule_and_assert show ?thesis
    by (auto simp: release_optional_def map_sum_Inr split: if_splits)
next
  case (OpClose i)
  with assms grants_from_close show ?thesis by simp
qed


section \<open>Runs\<close>

definition mb_apply :: "mb_op \<Rightarrow> mb_panic + media_buffer \<Rightarrow> mb_panic + media_buffer" where
  "mb_apply op s = (case s of Inl p \<Rightarrow> Inl p | Inr b \<Rightarrow> mb_exec op b)"

definition mb_run :: "mb_op list \<Rightarrow> media_buffer \<Rightarrow> mb_panic + media_buffer" where
  "mb_run ops b = fold mb_apply ops (Inr b)"

fun handles_ok :: "mb_op list \<Rightarrow> media_buffer \<Rightarrow> bool" where
  "handles_ok [] b \<longleftrightarrow> True"
| "handles_ok (op # ops) b \<longleftrightarrow>
     (case op_handle op of None \<Rightarrow> True | Some i \<Rightarrow> handle b i) \<and>
     (case mb_exec op b of Inl _ \<Rightarrow> True | Inr b' \<Rightarrow> handles_ok ops b')"

lemma fold_apply_Inl [simp]: "fold mb_apply ops (Inl p) = Inl p"
  by (induction ops) (simp_all add: mb_apply_def)

lemma mb_run_simps [simp]:
  "mb_run [] b = Inr b"
  "mb_run (op # ops) b = (case mb_exec op b of Inl p \<Rightarrow> Inl p | Inr b' \<Rightarrow> mb_run ops b')"
  by (simp_all add: mb_run_def mb_apply_def split: sum.splits)

lemma run_reachable:
  "mb_reachable n b \<Longrightarrow> handles_ok ops b \<Longrightarrow> mb_run ops b = Inr b' \<Longrightarrow> mb_reachable n b'"
proof (induction ops arbitrary: b)
  case Nil
  then show ?case by simp
next
  case (Cons op ops)
  then obtain b1 where b1: "mb_exec op b = Inr b1" by (auto split: sum.splits)
  have "mb_reachable n b1" by (rule mb_step [OF Cons.prems(1) _ b1]) (use Cons.prems(2) in auto)
  then show ?case using Cons.IH Cons.prems(2,3) b1 by simp
qed

lemma grants_from_run: "mb_run ops b = Inr b' \<Longrightarrow> grants_from a b \<Longrightarrow> grants_from a b'"
  by (induction ops arbitrary: b) (auto dest: grants_from_exec split: sum.splits)


lemma reachable_grants:
  "mb_reachable n b \<Longrightarrow> has_grant b j c g \<Longrightarrow> g \<le> mb_next_grant b"
proof (induction arbitrary: j c g rule: mb_reachable.induct)
  case (mb_start b)
  then show ?case by (auto simp: new_media_buffer_def has_grant_def fresh_request_def split: if_splits)
next
  case (mb_step b op b')
  have "grants_from b b'" using grants_from_exec [OF mb_step.hyps(3)] by simp
  then show ?case using mb_step unfolding grants_from_def by (meson le_trans)
qed

section \<open>A concrete run\<close>

text \<open>One request on a pool of one chunk: it holds the chunk and waits for another.\<close>

lemma project_unattached:
  assumes "mr_live (request b i) = None"
  shows "project_request i b = b"
proof -
  have "(request b i)\<lparr>mr_live := None\<rparr> = request b i" using assms by (cases "request b i") simp
  then have heap: "(mb_request_heap b)(i := (request b i)\<lparr>mr_live := None\<rparr>) = mb_request_heap b"
    by (simp only: fun_upd_triv)
  have "project_request i b = b\<lparr>mb_request_heap := (mb_request_heap b)(i := (request b i)\<lparr>mr_live := None\<rparr>)\<rparr>"
    using assms by (simp add: project_request_def modify_request_def)
  then show ?thesis unfolding heap by simp
qed

lemmas mb_eval = register_def request_optional_def accept_optional_def fresh_request_def
  modify_request_def add_request_counters_def remove_request_counters_def recompute_debt_def
  retarget_def request_target_def recompute_targets_def can_grant_def take_chunk_def grant_def
  send_notification_def schedule_def assert_accounting_def schedule_and_assert_def
  drain_notification_def align_size_def chunk_size_def request_cap_def Let_def project_unattached

definition demo_state :: "nat list \<Rightarrow> bool \<Rightarrow> mb_request \<Rightarrow> media_buffer" where
  "demo_state waiters granted r =
     \<lparr>mb_hard_budget = 32768, mb_allocated = (if granted then 32768 else 0), mb_owned = (if granted then 32768 else 0),
      mb_free = [], mb_requests = [1], mb_waiters = waiters, mb_next_request = 1,
      mb_next_chunk = (if granted then 1 else 0), mb_next_grant = (if granted then 1 else 0),
      mb_base_only = (if granted then 0 else 1), mb_indebted = 0, mb_debt_bytes = 0,
      mb_request_heap = (\<lambda>_. fresh_request)(1 := r),
      mb_chunk_heap = (if granted then (\<lambda>_. \<lparr>mc_generation = 0, mc_owner = 0\<rparr>)(1 := \<lparr>mc_generation = 1, mc_owner = 1\<rparr>)
         else (\<lambda>_. \<lparr>mc_generation = 0, mc_owner = 0\<rparr>))\<rparr>"

lemma demo1:
  "mb_exec OpRegister (projr (new_media_buffer 32768)) = Inr (demo_state [] False (fresh_request\<lparr>mr_target := 32768\<rparr>))"
  by (simp add: mb_eval new_media_buffer_def demo_state_def del: modify_request_simps counters_simps)

lemma demo2_grant:
  "grant 1 1 (demo_state [] True (fresh_request\<lparr>mr_target := 32768, mr_waiting := True\<rparr>)
      \<lparr>mb_owned := 0, mb_base_only := 1, mb_next_grant := 0,
       mb_chunk_heap := (\<lambda>_. \<lparr>mc_generation = 0, mc_owner = 0\<rparr>)\<rparr>) =
    demo_state [] True (fresh_request\<lparr>mr_target := 32768, mr_owned := 32768,
      mr_pending := Some \<lparr>ls_chunk = Some 1, ls_request = 1, ls_generation = 1\<rparr>\<rparr>)"
  by (simp add: mb_eval demo_state_def del: modify_request_simps counters_simps)


lemma demo2_take:
  "take_chunk (demo_state [] False (fresh_request\<lparr>mr_target := 32768, mr_waiting := True\<rparr>)) =
    (Some 1, (demo_state [] True (fresh_request\<lparr>mr_target := 32768, mr_waiting := True\<rparr>)
      \<lparr>mb_owned := 0, mb_base_only := 1, mb_next_grant := 0,
       mb_chunk_heap := (\<lambda>_. \<lparr>mc_generation = 0, mc_owner = 0\<rparr>)\<rparr>))"
  by (simp add: take_chunk_def demo_state_def chunk_size_def fun_upd_idem)

lemma demo2_wait:
  "(modify_request 1 (\<lambda>r. r\<lparr>mr_waiting := True\<rparr>) (demo_state [] False (fresh_request\<lparr>mr_target := 32768\<rparr>)))
    \<lparr>mb_waiters := W\<rparr> = demo_state W False (fresh_request\<lparr>mr_target := 32768, mr_waiting := True\<rparr>)"
  by (simp add: modify_request_def demo_state_def)

lemma demo2:
  "mb_exec (OpRequest 1) (demo_state [] False (fresh_request\<lparr>mr_target := 32768\<rparr>)) =
    Inr (demo_state [] True (fresh_request\<lparr>mr_target := 32768, mr_owned := 32768, mr_notified := True,
     mr_pending := Some \<lparr>ls_chunk = Some 1, ls_request = 1, ls_generation = 1\<rparr>\<rparr>))"
proof -
  let ?r = "fresh_request\<lparr>mr_target := 32768, mr_waiting := True\<rparr>"
  have "schedule_loop [1] (demo_state [] False ?r) =
      Inr (demo_state [] True (fresh_request\<lparr>mr_target := 32768, mr_owned := 32768, mr_notified := True,
        mr_pending := Some \<lparr>ls_chunk = Some 1, ls_request = 1, ls_generation = 1\<rparr>\<rparr>))"
    by (simp only: schedule_loop.simps demo2_take demo2_grant prod.case option.case)
       (simp add: can_grant_def send_notification_def demo_state_def fresh_request_def chunk_size_def modify_request_def)
  moreover have "(demo_state [1] False ?r)\<lparr>mb_waiters := []\<rparr> = demo_state [] False ?r"
    "mb_waiters (demo_state [1] False ?r) = [1]"
    by (simp_all add: demo_state_def)
  ultimately have "schedule (demo_state [1] False ?r) =
      Inr (demo_state [] True (fresh_request\<lparr>mr_target := 32768, mr_owned := 32768, mr_notified := True,
        mr_pending := Some \<lparr>ls_chunk = Some 1, ls_request = 1, ls_generation = 1\<rparr>\<rparr>))"
    by (simp only: schedule_def)
  then have "schedule_and_assert (demo_state [1] False ?r) =
      Inr (demo_state [] True (fresh_request\<lparr>mr_target := 32768, mr_owned := 32768, mr_notified := True,
        mr_pending := Some \<lparr>ls_chunk = Some 1, ls_request = 1, ls_generation = 1\<rparr>\<rparr>))"
    by (simp add: schedule_and_assert_def) (simp add: assert_accounting_def demo_state_def chunk_size_def)
  moreover have "request_optional 1 (demo_state [] False (fresh_request\<lparr>mr_target := 32768\<rparr>)) =
      map_sum id (\<lambda>b. (b, Inr ())) (schedule_and_assert (demo_state [1] False ?r))"
    by (simp add: request_optional_def demo_state_def fresh_request_def modify_request_def)
  ultimately show ?thesis by simp
qed

lemma demo3:
  "mb_exec (OpAccept 1) (demo_state [] True (fresh_request\<lparr>mr_target := 32768, mr_owned := 32768, mr_notified := True,
     mr_pending := Some \<lparr>ls_chunk = Some 1, ls_request = 1, ls_generation = 1\<rparr>\<rparr>)) =
    Inr (demo_state [] True (fresh_request\<lparr>mr_target := 32768, mr_owned := 32768, mr_chunks := [(1, 1)]\<rparr>))"
  by (simp add: mb_eval demo_state_def del: modify_request_simps counters_simps)

lemma demo4:
  "mb_exec (OpRequest 1) (demo_state [] True (fresh_request\<lparr>mr_target := 32768, mr_owned := 32768, mr_chunks := [(1, 1)]\<rparr>)) =
    Inr (demo_state [1] True (fresh_request\<lparr>mr_target := 32768, mr_owned := 32768, mr_waiting := True, mr_chunks := [(1, 1)]\<rparr>))"
  by (simp add: mb_eval demo_state_def del: modify_request_simps counters_simps)

definition demo_ops :: "mb_op list" where
  "demo_ops = [OpRegister, OpRequest 1, OpAccept 1, OpRequest 1]"

definition demo_pool :: media_buffer where
  "demo_pool = demo_state [1] True (fresh_request\<lparr>mr_target := 32768, mr_owned := 32768,
     mr_waiting := True, mr_chunks := [(1, 1)]\<rparr>)"

lemma demo_starts: "new_media_buffer 32768 = Inr (projr (new_media_buffer 32768))"
  by (simp add: new_media_buffer_def chunk_size_def)

lemma demo_run: "mb_run demo_ops (projr (new_media_buffer 32768)) = Inr demo_pool"
  by (simp add: demo_ops_def demo_pool_def demo1 demo2 demo3 demo4 del: mb_exec.simps One_nat_def)

lemma demo_reachable: "mb_reachable 32768 demo_pool"
proof (rule run_reachable [OF mb_start [OF demo_starts] _ demo_run])
  show "handles_ok demo_ops (projr (new_media_buffer 32768))"
    by (simp add: demo_ops_def demo1 demo2 demo3 demo4 handle_def del: mb_exec.simps One_nat_def)
       (simp add: demo_state_def)
qed

definition demo_lease :: lease where
  "demo_lease = \<lparr>ls_chunk = Some 1, ls_request = 1, ls_generation = 1\<rparr>"

lemma demo_facts:
  "mb_requests demo_pool = [1]" "mr_chunks (request demo_pool 1) = [(1, 1)]"
  "mr_waiting (request demo_pool 1)" "handle demo_pool 1" "mb_chunk_heap demo_pool 1 = \<lparr>mc_generation = 1, mc_owner = 1\<rparr>"
  by (simp_all add: demo_pool_def demo_state_def handle_def)

lemmas demo_simps = demo_facts demo_facts [simplified]

section \<open>What every reachable state satisfies\<close>

text \<open>
  C18: no sequence of pool operations, with any leases and in any order, makes the buffer panic
  (accounting, missing waiter, occupied notification, invalid pending lease, send on a closed
  channel): in a reachable state every operation on a registered request returns.
\<close>

theorem media_buffer_never_panics:
  assumes "mb_reachable budget b" and "\<And>i. op_handle op = Some i \<Longrightarrow> handle b i"
  shows "\<exists>b'. mb_exec op b = Inr b' \<and> mb_reachable budget b'"
  using exec_inv [of b op] reachable_inv [OF assms(1)] assms mb_step by blast

theorem media_buffer_never_panics_witness:
  "\<exists>b'. mb_exec (OpClose 1) demo_pool = Inr b' \<and> mb_reachable 32768 b'"
  by (rule media_buffer_never_panics [OF demo_reachable]) (simp add: demo_simps)

text \<open>
  C19: the pool never exceeds its hard budget, and its books balance: what is allocated is what
  the open requests own plus what is free, the owned total is the sum over the requests, and
  the snapshot's counters (requests without a chunk, requests in debt, bytes of debt) are the
  true counts.
\<close>

theorem pool_books_balance:
  assumes "mb_reachable budget b"
  shows "sn_allocated (pool_snapshot b) = sn_owned (pool_snapshot b) + sn_free (pool_snapshot b) \<and>
    0 \<le> sn_owned (pool_snapshot b) \<and> sn_allocated (pool_snapshot b) \<le> budget \<and>
    sn_owned (pool_snapshot b) = (\<Sum>i\<leftarrow>mb_requests b. rs_owned (buffer_request_snapshot i b)) \<and>
    sn_base_only (pool_snapshot b) = int (length (filter (\<lambda>i. rs_owned (buffer_request_snapshot i b) = 0) (mb_requests b))) \<and>
    sn_indebted (pool_snapshot b) = int (length (filter (\<lambda>i. rs_debt (buffer_request_snapshot i b) > 0) (mb_requests b))) \<and>
    sn_debt_bytes (pool_snapshot b) = (\<Sum>i\<leftarrow>mb_requests b. rs_debt (buffer_request_snapshot i b))"
proof -
  from reachable_inv [OF assms] have core: "mb_core {#} b" and hard: "mb_hard_budget b = budget"
    by (simp_all add: mb_inv_def mb_pre_def)
  note D = mb_coreD [OF core] and P = pool_conserved [OF core]
  have count: "(\<Sum>i\<leftarrow>xs. if Q i then 1 else 0) = int (length (filter Q xs))" for Q and xs :: "nat list"
    by (induction xs) simp_all
  have "tally debt_sum b = (\<Sum>i\<leftarrow>mb_requests b. mr_debt (request b i))"
    unfolding tally_def
    by (intro arg_cong [where f = sum_list] map_cong refl) (simp add: debt_sum_def request_okD(6) [OF D(11)])
  then show ?thesis using D(4,6,7) P hard
    by (simp add: pool_snapshot_def buffer_request_snapshot_def Let_def counters_ok_def tally_def
        base_count_def debt_count_def count mult.commute)
qed

theorem pool_books_balance_witness:
  "sn_allocated (pool_snapshot demo_pool) = sn_owned (pool_snapshot demo_pool) + sn_free (pool_snapshot demo_pool) \<and>
   sn_owned (pool_snapshot demo_pool) = 32768"
  using pool_books_balance [OF demo_reachable]
  by (simp add: demo_simps buffer_request_snapshot_def Let_def) (simp add: demo_pool_def demo_state_def pool_snapshot_def)

text \<open>
  C20: memory is never shared: a chunk held by an open request (granted or accepted) is marked
  with that request as owner, is not in the free list, is not held by any other open request,
  and the request holds it once.
\<close>

theorem chunks_never_shared:
  assumes "mb_reachable budget b" and "i \<in> set (mb_requests b)" and "c \<in> set (held (request b i))"
  shows "mc_owner (mb_chunk_heap b c) = i \<and> c \<notin> set (mb_free b) \<and> count_list (held (request b i)) c = 1 \<and>
    (\<forall>j \<in> set (mb_requests b). j \<noteq> i \<longrightarrow> c \<notin> set (held (request b j)))"
proof -
  from reachable_inv [OF assms(1)] have core: "mb_core {#} b" by (simp add: mb_inv_def mb_pre_def)
  note H = held_once [OF core assms(2,3)] and ok = request_okD [OF mb_coreD(11) [OF core assms(2)]]
  have "mc_owner (mb_chunk_heap b c) = i"
  proof (cases "c \<in> fst ` set (mr_chunks (request b i))")
    case True
    then show ?thesis using ok(12) by (metis domD dom_map_of_conv_image_fst)
  next
    case False
    with assms(3) obtain l where "mr_pending (request b i) = Some l" "ls_chunk l = Some c"
      by (cases "mr_pending (request b i)"; cases "ls_chunk (the (mr_pending (request b i)))")
         (auto simp: held_def)
    with ok(10) show ?thesis by (auto simp: lease_ok_def)
  qed
  moreover have "count_list (held (request b i)) c = 1"
  proof -
    obtain M where M: "mset (held (request b i)) = add_mset c M"
      using assms(3) by (metis mset_add set_mset_mset)
    have "count (mset (held (request b i))) c = 1"
      using held_distinct [OF core assms(2) M] by (simp add: M not_in_iff)
    then show ?thesis by (simp add: count_mset)
  qed
  ultimately show ?thesis using H(1,5) by blast
qed

theorem chunks_never_shared_witness:
  "mc_owner (mb_chunk_heap demo_pool 1) = 1 \<and> 1 \<notin> set (mb_free demo_pool)"
  using chunks_never_shared [OF demo_reachable, of 1 1] by (simp add: demo_simps held_def)

text \<open>
  the pool is shared fairly: every open request has the same target, the aligned share of
  the budget (at most 512 MiB), the targets together fit the budget, and a request is in debt by
  exactly what it owns above its target.
\<close>

theorem targets_are_fair_shares:
  assumes "mb_reachable budget b" and "i \<in> set (mb_requests b)"
  shows "rs_target (buffer_request_snapshot i b) = request_target budget (length (mb_requests b)) \<and>
    int (length (mb_requests b)) * rs_target (buffer_request_snapshot i b) \<le> budget \<and>
    rs_debt (buffer_request_snapshot i b) =
      max 0 (rs_owned (buffer_request_snapshot i b) - rs_target (buffer_request_snapshot i b))"
proof -
  from reachable_inv [OF assms(1)] have core: "mb_core {#} b" and hard: "mb_hard_budget b = budget"
    and targets: "targets_ok b" by (simp_all add: mb_inv_def mb_pre_def)
  note D = mb_coreD [OF core]
  let ?n = "int (length (mb_requests b))"
  have n: "0 < ?n" using assms(2) by (cases "mb_requests b") auto
  have share: "request_target budget (length (mb_requests b)) \<le> budget div ?n"
  proof -
    have "0 \<le> budget div ?n" using n D(1) chunk_size_pos hard
      by (metis less_imp_le order.strict_trans2 pos_imp_zdiv_nonneg_iff)
    moreover have "budget div ?n div chunk_size * chunk_size \<le> budget div ?n"
      using pos_mod_sign [OF chunk_size_pos] by (simp add: minus_mod_eq_div_mult [symmetric])
    ultimately show ?thesis by (auto simp: request_target_def align_size_def Let_def)
  qed
  then have "?n * request_target budget (length (mb_requests b)) \<le> ?n * (budget div ?n)"
    using n by (simp add: mult_left_mono)
  also have "\<dots> \<le> budget"
    using pos_mod_sign [OF n, of budget] by (simp add: minus_mod_eq_mult_div [symmetric])
  finally show ?thesis
    using targets assms(2) hard request_okD(6) [OF D(11) [OF assms(2)]]
    by (simp add: targets_ok_def buffer_request_snapshot_def Let_def)
qed

theorem targets_are_fair_shares_witness:
  "rs_target (buffer_request_snapshot 1 demo_pool) = request_target 32768 1 \<and>
   rs_debt (buffer_request_snapshot 1 demo_pool) = 0"
  using targets_are_fair_shares [OF demo_reachable, of 1]
  by (simp add: demo_simps buffer_request_snapshot_def Let_def) (simp add: demo_pool_def demo_state_def)

text \<open>
  a chunk cannot be released twice or through a stale lease: once \<open>ReleaseOptional\<close> accepts a
  lease, the same lease is refused, without effect, in every later state, whatever operations
  run in between (also when the chunk was granted again).
\<close>

theorem released_lease_stays_dead:
  assumes "mb_reachable budget b" and "handle b i" and "release_optional i l b = Inr (b', Inr ())"
    and "mb_run ops b' = Inr b''"
  shows "\<exists>e. release_optional i l b'' = Inr (b'', Inl e)"
proof -
  from assms(3) have open_i: "\<not> mr_closed (request b i)" and valid: "valid_accepted_lease b i l"
    by (auto simp: release_optional_def split: if_splits)
  from valid obtain c where c: "ls_chunk l = Some c" "mc_generation (mb_chunk_heap b c) = ls_generation l"
    "map_of (mr_chunks (request b i)) c = Some (ls_generation l)"
    by (auto simp: valid_accepted_lease_def split: option.splits if_splits)
  note core = mb_preD(1) [OF mb_inv_pre, OF conjunct1 [OF reachable_inv [OF assms(1)]]]
  have i: "i \<in> set (mb_requests b)"
    using open_i open_handle [OF mb_inv_pre, OF conjunct1 [OF reachable_inv [OF assms(1)]] assms(2)] by blast
  note ok = request_okD [OF mb_coreD(11) [OF core i]]
  let ?b = "release_accepted i c b"
  have "\<not> has_grant ?b i c (ls_generation l)"
  proof -
    have "c \<in> set (map fst (mr_chunks (request b i)))" using c(3) by (force dest: map_of_SomeD)
    moreover obtain M where "mset (map fst (mr_chunks (request b i))) = add_mset c M"
      using calculation by (metis mset_add set_mset_mset)
    ultimately have "ls_chunk p \<noteq> Some c" if "mr_pending (request b i) = Some p" for p
      using held_distinct [OF core i, of c "mset (map fst (mr_chunks (request b i)))"] that
      by (auto simp: held_def)
    then show ?thesis by (auto simp: has_grant_def release_accepted_def AList.delete_conv')
  qed
  moreover have "ls_generation l \<le> mb_next_grant b"
    using reachable_grants [OF assms(1), of i c] c(3) by (auto simp: has_grant_def)
  moreover have "grants_from ?b b''"
  proof -
    have "schedule_and_assert ?b = Inr b'"
      using assms(3) open_i valid c(1) by (auto simp: release_optional_def map_sum_Inr)
    then show ?thesis using grants_from_schedule_and_assert grants_from_refl grants_from_run assms(4) by blast
  qed
  moreover have "mb_next_grant ?b = mb_next_grant b" by (simp add: release_accepted_def release_owned_chunk_def Let_def)
  ultimately have "\<not> has_grant b'' i c (ls_generation l)"
    unfolding grants_from_def by (metis leD)
  then show ?thesis
    by (auto simp: release_optional_def valid_accepted_lease_def c(1) has_grant_def)
qed

theorem released_lease_stays_dead_witness:
  "\<exists>b' e. release_optional 1 demo_lease demo_pool = Inr (b', Inr ()) \<and>
    release_optional 1 demo_lease b' = Inr (b', Inl e)"
proof -
  obtain b' x where r: "release_optional 1 demo_lease demo_pool = Inr (b', x)"
    by (rule release_optional_inv [where l = demo_lease, OF conjunct1 [OF reachable_inv [OF demo_reachable]] demo_facts(4)])
  have "\<not> mr_closed (request demo_pool 1)" "valid_accepted_lease demo_pool 1 demo_lease"
    by (simp_all add: valid_accepted_lease_def demo_lease_def demo_simps)
       (simp add: demo_pool_def demo_state_def fresh_request_def)
  with r have "x = Inr ()" by (auto simp: release_optional_def map_sum_Inr)
  with r have r: "release_optional 1 demo_lease demo_pool = Inr (b', Inr ())" by simp
  from released_lease_stays_dead [OF demo_reachable demo_facts(4) r, of "[]"] r show ?thesis by auto
qed

text \<open>
  C30: the pool never sits on memory a waiter could use: in a reachable state no waiting request
  is grantable, so the reason shown for every waiting request is one of the three blockers.
\<close>

theorem no_grantable_waiter:
  assumes "mb_reachable budget b" and "i \<in> set (mb_requests b)" and "mr_waiting (request b i)"
  shows "\<not> can_grant b i \<and> request_blocker b i \<noteq> BlockerNone"
proof -
  from reachable_inv [OF assms(1)] have inv: "mb_inv b" by simp
  then have core: "mb_core {#} b" by (simp add: mb_inv_def mb_pre_def)
  have "i \<in> set (mb_waiters b)" using inv assms(2,3) by (auto simp: mb_inv_def mb_pre_def waiters_ok_def)
  with inv have no: "\<not> can_grant b i" by (auto simp: mb_inv_def blocked_def)
  have "mr_pending (request b i) = None" "0 \<le> mr_debt (request b i)" "\<not> mr_closed (request b i)"
    using request_okD(6,9) [OF mb_coreD(11) [OF core assms(2)]] assms(2,3) inv
    by (simp_all add: mb_inv_def mb_pre_def none_closed_def)
  with no assms(3) show ?thesis
    by (auto simp: can_grant_def request_blocker_def Let_def split: if_splits)
qed

theorem no_grantable_waiter_witness:
  "\<not> can_grant demo_pool 1 \<and> request_blocker demo_pool 1 \<noteq> BlockerNone"
  by (rule no_grantable_waiter [OF demo_reachable]) (simp_all add: demo_simps)

text \<open>
  waiting requests are served in the order they asked: an operation may take requests out of
  the queue, and \<open>RequestOptional\<close> appends its own, but no two waiters ever swap places.
\<close>

theorem waiters_keep_order:
  assumes "mb_reachable budget b" and "\<And>i. op_handle op = Some i \<Longrightarrow> handle b i"
    and "mb_exec op b = Inr b'"
  shows "subseq (mb_waiters b') (mb_waiters b @ (case op of OpRequest i \<Rightarrow> [i] | _ \<Rightarrow> []))"
proof -
  from reachable_inv [OF assms(1)] have inv: "mb_inv b" by simp
  show ?thesis
  proof (cases op)
    case OpRegister
    show ?thesis by (rule register_inv [OF inv]) (use assms(3) in \<open>simp add: OpRegister\<close>)
  next
    case (OpAttach i l)
    with assms(3) show ?thesis by (auto simp: attach_live_def)
  next
    case (OpRequest i)
    show ?thesis by (rule request_optional_inv [OF inv assms(2) [of i]]) (use assms(3) in \<open>simp_all add: OpRequest\<close>)
  next
    case (OpAccept i)
    show ?thesis by (rule accept_optional_inv [OF inv assms(2) [of i]]) (use assms(3) in \<open>simp_all add: OpAccept\<close>)
  next
    case (OpCancel i)
    show ?thesis by (rule cancel_optional_inv [OF inv assms(2) [of i]]) (use assms(3) in \<open>simp_all add: OpCancel\<close>)
  next
    case (OpRelease i l)
    show ?thesis
      by (rule release_optional_inv [OF inv assms(2) [of i], where l = l]) (use assms(3) in \<open>simp_all add: OpRelease\<close>)
  next
    case (OpClose i)
    show ?thesis by (rule close_request_inv [OF inv assms(2) [of i]]) (use assms(3) in \<open>simp_all add: OpClose\<close>)
  qed
qed

theorem waiters_keep_order_witness:
  "\<exists>b'. mb_exec (OpCancel 1) demo_pool = Inr b' \<and> subseq (mb_waiters b') [1]"
proof -
  have h: "\<And>i. op_handle (OpCancel 1) = Some i \<Longrightarrow> handle demo_pool i" by (simp add: demo_simps)
  from exec_inv [OF conjunct1 [OF reachable_inv [OF demo_reachable]] h]
  obtain b' where b': "mb_exec (OpCancel 1) demo_pool = Inr b'" by blast
  from waiters_keep_order [OF demo_reachable h b'] b' show ?thesis
    by (simp add: demo_pool_def demo_state_def)
qed

section \<open>The telemetry word\<close>

lemma packed_field_value:
  assumes "0 \<le> x" and "x \<le> request_cap" and "x mod chunk_size = 0"
  shows "uint (packed_field x) * chunk_size = x" and "packed_field x < 2 ^ 20"
proof -
  have q: "0 \<le> x div chunk_size" "x div chunk_size \<le> 16384"
    using assms by (auto simp: chunk_size_def request_cap_def)
  then have u: "uint (word_of_int (x div chunk_size) :: 64 word) = x div chunk_size"
    by (simp add: uint_word_of_int)
  then have "packed_field x = word_of_int (x div chunk_size)"
    using q by (auto simp: packed_field_def Let_def word_less_def)
  then show "uint (packed_field x) * chunk_size = x" "packed_field x < 2 ^ 20"
    using assms(3) q u by (auto simp: word_less_def)
qed

lemma small_bit:
  fixes w :: "64 word"
  assumes "w < 2 ^ 20" and "bit w n"
  shows "n < 20"
proof -
  have "uint w < 2 ^ 20" using assms(1) by (simp add: word_less_def)
  then have "take_bit 20 (uint w) = uint w" by (simp add: take_bit_int_eq_self)
  moreover have "bit (uint w) n" using assms(2) bit_imp_le_length [OF assms(2)] by (simp add: bit_uint_iff)
  ultimately show ?thesis by (metis bit_take_bit_iff)
qed

lemma unpack_fields:
  fixes p q r :: "64 word"
  assumes "p < 2 ^ 20" and "q < 2 ^ 20" and "r < 2 ^ 20"
  shows "and (or (or p (push_bit 20 q)) (push_bit 40 r)) 0xFFFFF = p"
    "and (drop_bit 20 (or (or p (push_bit 20 q)) (push_bit 40 r))) 0xFFFFF = q"
    "and (drop_bit 40 (or (or p (push_bit 20 q)) (push_bit 40 r))) 0xFFFFF = r"
proof -
  have m: "(0xFFFFF :: 64 word) = mask 20" by (simp add: mask_eq_exp_minus_1)
  show "and (or (or p (push_bit 20 q)) (push_bit 40 r)) 0xFFFFF = p"
    "and (drop_bit 20 (or (or p (push_bit 20 q)) (push_bit 40 r))) 0xFFFFF = q"
    "and (drop_bit 40 (or (or p (push_bit 20 q)) (push_bit 40 r))) 0xFFFFF = r"
    unfolding m using small_bit [OF assms(1)] small_bit [OF assms(2)] small_bit [OF assms(3)]
    by (fastforce intro!: bit_word_eqI simp: bit_simps)+
qed

text \<open>
  the telemetry word loses nothing: for every open request of a reachable state, unpacking
  the packed target, owned and debt bytes gives them back (no field of 20 bits overflows).
\<close>

theorem telemetry_word_faithful:
  assumes "mb_reachable budget b" and "i \<in> set (mb_requests b)"
  shows "unpack_allocation (pack_allocation (mr_target (request b i)) (mr_owned (request b i)) (mr_debt (request b i)))
    = (mr_target (request b i), mr_owned (request b i), mr_debt (request b i))"
proof -
  from reachable_inv [OF assms(1)] have core: "mb_core {#} b" by (simp add: mb_inv_def mb_pre_def)
  note ok = request_okD [OF mb_coreD(11) [OF core assms(2)]]
  let ?r = "request b i"
  have owned: "0 \<le> mr_owned ?r" "mr_owned ?r mod chunk_size = 0" using ok(1) by simp_all
  have "(mr_owned ?r - mr_target ?r) mod chunk_size = 0" using owned(2) ok(5) by (simp add: mod_diff_eq [symmetric])
  then have debt: "0 \<le> mr_debt ?r" "mr_debt ?r \<le> request_cap" "mr_debt ?r mod chunk_size = 0"
    using ok(2,3,6) by (auto simp: max_def request_cap_def)
  note F = packed_field_value [OF ok(3,4,5)] packed_field_value [OF owned(1) ok(2) owned(2)]
    packed_field_value [OF debt]
  show ?thesis
    unfolding unpack_allocation_def pack_allocation_def unpack_fields [OF F(2,4,6)] F(1,3,5) ..
qed

theorem telemetry_word_faithful_witness:
  "unpack_allocation (pack_allocation 32768 32768 0) = (32768, 32768, 0)"
proof -
  have "mr_target (request demo_pool 1) = 32768" "mr_owned (request demo_pool 1) = 32768" "mr_debt (request demo_pool 1) = 0"
    by (simp_all add: demo_pool_def demo_state_def fresh_request_def)
  with telemetry_word_faithful [OF demo_reachable, of 1] show ?thesis by (simp add: demo_simps)
qed

end
