(* ===== verification/Eviction.thy ===== *)
theory Eviction
  imports Prelude
begin

text \<open>
  The interface of a bounded cache to its reservation loop. Both caches of the gateway (the
  artifact catalog and the source range cache) make room the same way: while the cache is full,
  evict one entry; give up when there is nothing to evict. The contract of one eviction is
  stated once, and the lemmas say what the loop then guarantees.
\<close>

locale eviction_loop =
  fixes full :: "'s \<Rightarrow> bool" and evict :: "'s \<Rightarrow> 'f + 's" and loop :: "'s \<Rightarrow> 'f + 's"
    and entries :: "'s \<Rightarrow> nat" and inv :: "'s \<Rightarrow> bool" and fail_inv :: "'f \<Rightarrow> bool"
  assumes unfold: "loop s = (if full s then (case evict s of Inl f \<Rightarrow> Inl f | Inr s' \<Rightarrow> loop s') else Inr s)"
    and shrinks: "inv s \<Longrightarrow> evict s = Inr s' \<Longrightarrow> entries s' < entries s"
    and keeps: "inv s \<Longrightarrow> evict s = Inr s' \<Longrightarrow> inv s'"
    and fails: "inv s \<Longrightarrow> evict s = Inl f \<Longrightarrow> fail_inv f"
begin

lemma loop_result:
  "inv s \<Longrightarrow> case loop s of Inl f \<Rightarrow> fail_inv f | Inr s' \<Rightarrow> inv s' \<and> \<not> full s' \<and> entries s' \<le> entries s"
proof (induction "entries s" arbitrary: s rule: less_induct)
  case less
  show ?case
  proof (cases "full s")
    case False
    with less.prems show ?thesis by (simp add: unfold [of s])
  next
    case True
    show ?thesis
    proof (cases "evict s")
      case (Inl f)
      with True fails [OF less.prems] show ?thesis by (simp add: unfold [of s])
    next
      case (Inr s')
      with less.hyps [of s'] shrinks [OF less.prems Inr] keeps [OF less.prems Inr] True
      show ?thesis by (simp add: unfold [of s] split: sum.splits)
    qed
  qed
qed

lemma loop_inv: "inv s \<Longrightarrow> loop s = Inr s' \<Longrightarrow> inv s'"
  and loop_room: "inv s \<Longrightarrow> loop s = Inr s' \<Longrightarrow> \<not> full s'"
  and loop_entries: "inv s \<Longrightarrow> loop s = Inr s' \<Longrightarrow> entries s' \<le> entries s"
  and loop_fail: "inv s \<Longrightarrow> loop s = Inl f \<Longrightarrow> fail_inv f"
  using loop_result [of s] by simp_all

lemma loop_roomy: "\<not> full s \<Longrightarrow> loop s = Inr s"
  by (simp add: unfold [of s])

end

text \<open>A loop that evicts only what nothing holds on to.\<close>

locale safe_eviction = eviction_loop +
  fixes protected :: "'a \<Rightarrow> 'p set" and loses :: "'b \<Rightarrow> 'p set"
  assumes spares: "inv s \<Longrightarrow> evict s = Inr s' \<Longrightarrow> protected s \<subseteq> protected s'"
    and spares_fail: "inv s \<Longrightarrow> evict s = Inl f \<Longrightarrow> protected s \<subseteq> loses f"
begin

lemma loop_spares:
  "inv s \<Longrightarrow> case loop s of Inl f \<Rightarrow> protected s \<subseteq> loses f | Inr s' \<Rightarrow> protected s \<subseteq> protected s'"
proof (induction "entries s" arbitrary: s rule: less_induct)
  case less
  show ?case
  proof (cases "full s")
    case False
    then show ?thesis by (simp add: unfold [of s])
  next
    case True
    show ?thesis
    proof (cases "evict s")
      case (Inl f)
      with True spares_fail [OF less.prems] show ?thesis by (simp add: unfold [of s])
    next
      case (Inr s')
      from less.hyps [OF shrinks [OF less.prems Inr] keeps [OF less.prems Inr]]
      have "case loop s' of Inl f \<Rightarrow> protected s' \<subseteq> loses f | Inr t \<Rightarrow> protected s' \<subseteq> protected t" .
      with spares [OF less.prems Inr] True Inr show ?thesis
        by (auto simp: unfold [of s] split: sum.splits)
    qed
  qed
qed

end

text \<open>Sums of a share per object, when one object changes.\<close>

lemma sum_change:
  fixes f g :: "'a \<Rightarrow> int"
  assumes "finite A" and "i \<in> A" and "\<And>j. j \<in> A \<Longrightarrow> j \<noteq> i \<Longrightarrow> g j = f j"
  shows "sum g A = sum f A - f i + g i"
proof -
  have "sum g (A - {i}) = sum f (A - {i})" using assms(3) by (intro sum.cong) auto
  with sum.remove [OF assms(1,2), of f] sum.remove [OF assms(1,2), of g] show ?thesis by simp
qed

end
