(* ===== verification/Artifact_Catalog.thy ===== *)
theory Artifact_Catalog
  imports Eviction
begin

text \<open>
  \<open>internal/transcode/cache.go\<close>: the catalog of converted media segments. It owns the complete
  artifacts and the bytes reserved by writers, evicts the least recently used artifact that
  nobody reads or waits for, and keeps a dropped artifact until its last reader closes.

  Artifacts, writers and leases are objects in heaps, a pointer is an index. What the file
  system answers (a file is created, opened, removed, renamed) is an argument of the operation.
  The two critical sections of \<open>Write\<close> are two operations; between them the bytes in flight
  belong to the writer. The scan of \<open>evictOne\<close> over the map takes the entries in the order of the
  association list.
\<close>

section \<open>State\<close>

datatype catalog_error = CapacityError | NotFoundError | WorkerError | IOError

record artifact =
  ar_path :: string
  ar_size :: int
  ar_pins :: int
  ar_used :: time
  ar_retired :: bool

record cache_writer =
  wr_file :: string
  wr_key :: string
  wr_bytes :: int
  wr_done :: bool
  wr_inflight :: int  \<comment> \<open>reserved by a \<open>Write\<close> that has not returned\<close>

record artifact_lease =
  le_entry :: nat
  le_closed :: bool

record catalog =
  ct_root :: string
  ct_budget :: int
  ct_used :: int
  ct_reserved :: int
  ct_entries :: "(string, nat) gomap"
  ct_wanted :: "(string, int) gomap"
  ct_hits :: nat
  ct_misses :: nat
  ct_evictions :: nat
  ct_artifacts :: "nat \<Rightarrow> artifact"
  ct_next_artifact :: nat
  ct_writers :: "nat \<Rightarrow> cache_writer"
  ct_next_writer :: nat
  ct_leases :: "nat \<Rightarrow> artifact_lease"
  ct_next_lease :: nat

definition max_cache_artifacts :: nat where "max_cache_artifacts = 16384"

definition blank_artifact :: artifact where
  "blank_artifact = \<lparr>ar_path = '''', ar_size = 0, ar_pins = 0, ar_used = 0, ar_retired = False\<rparr>"

definition empty_catalog :: "string \<Rightarrow> int \<Rightarrow> catalog" where
  "empty_catalog root budget =
     \<lparr>ct_root = root, ct_budget = budget, ct_used = 0, ct_reserved = 0, ct_entries = [], ct_wanted = [],
      ct_hits = 0, ct_misses = 0, ct_evictions = 0, ct_artifacts = (\<lambda>_. blank_artifact),
      ct_next_artifact = 0,
      ct_writers = (\<lambda>_. \<lparr>wr_file = '''', wr_key = '''', wr_bytes = 0, wr_done = False, wr_inflight = 0\<rparr>),
      ct_next_writer = 0, ct_leases = (\<lambda>_. \<lparr>le_entry = 0, le_closed = False\<rparr>), ct_next_lease = 0\<rparr>"

abbreviation artifact_at :: "catalog \<Rightarrow> nat \<Rightarrow> artifact" where
  "artifact_at c a \<equiv> ct_artifacts c a"

definition set_artifact :: "nat \<Rightarrow> artifact \<Rightarrow> catalog \<Rightarrow> catalog" where
  "set_artifact a v c = c\<lparr>ct_artifacts := (ct_artifacts c)(a := v)\<rparr>"

definition set_writer :: "nat \<Rightarrow> cache_writer \<Rightarrow> catalog \<Rightarrow> catalog" where
  "set_writer w v c = c\<lparr>ct_writers := (ct_writers c)(w := v)\<rparr>"

section \<open>Operations\<close>

definition wanted_count :: "catalog \<Rightarrow> string \<Rightarrow> int" where
  "wanted_count c key = (case map_of (ct_wanted c) key of None \<Rightarrow> 0 | Some n \<Rightarrow> n)"

definition protect :: "string \<Rightarrow> int \<Rightarrow> catalog \<Rightarrow> catalog" where
  "protect key delta c =
     (let n = wanted_count c key + delta
      in if n \<le> 0 then c\<lparr>ct_wanted := AList.delete key (AList.update key n (ct_wanted c))\<rparr>
         else c\<lparr>ct_wanted := AList.update key n (ct_wanted c)\<rparr>)"

definition open_artifact ::
  "string \<Rightarrow> bool \<Rightarrow> time \<Rightarrow> catalog \<Rightarrow> (catalog_error + nat) \<times> catalog" where
  "open_artifact key readable now c =
     (case map_of (ct_entries c) key of
        None \<Rightarrow> (Inl NotFoundError, c\<lparr>ct_misses := ct_misses c + 1\<rparr>)
      | Some a \<Rightarrow>
          (if ar_retired (artifact_at c a) then (Inl NotFoundError, c\<lparr>ct_misses := ct_misses c + 1\<rparr>)
           else if \<not> readable then (Inl NotFoundError, c)
           else (let v = artifact_at c a;
                     c = set_artifact a (v\<lparr>ar_pins := ar_pins v + 1, ar_used := now\<rparr>) c;
                     l = ct_next_lease c
                 in (Inr l, c\<lparr>ct_hits := ct_hits c + 1,
                              ct_leases := (ct_leases c)(l := \<lparr>le_entry = a, le_closed = False\<rparr>),
                              ct_next_lease := l + 1\<rparr>))))"

definition close_lease :: "nat \<Rightarrow> catalog \<Rightarrow> catalog" where
  "close_lease l c =
     (if le_closed (ct_leases c l) then c
      else (let a = le_entry (ct_leases c l);
                c = c\<lparr>ct_leases := (ct_leases c)(l := (ct_leases c l)\<lparr>le_closed := True\<rparr>)\<rparr>;
                v = artifact_at c a;
                c = set_artifact a (v\<lparr>ar_pins := ar_pins v - 1\<rparr>) c
            in if ar_retired v \<and> ar_pins v - 1 = 0 then c\<lparr>ct_used := ct_used c - ar_size v\<rparr> else c))"

definition has_artifact :: "string \<Rightarrow> catalog \<Rightarrow> bool" where
  "has_artifact key c =
     (case map_of (ct_entries c) key of None \<Rightarrow> False | Some a \<Rightarrow> \<not> ar_retired (artifact_at c a))"

definition begin_write :: "string \<Rightarrow> string option \<Rightarrow> catalog \<Rightarrow> (catalog_error + nat) \<times> catalog" where
  "begin_write key temp c =
     (case temp of
        None \<Rightarrow> (Inl CapacityError, c)
      | Some file \<Rightarrow>
          (let w = ct_next_writer c
           in (Inr w, (set_writer w \<lparr>wr_file = file, wr_key = key, wr_bytes = 0, wr_done = False,
                                     wr_inflight = 0\<rparr> c)\<lparr>ct_next_writer := w + 1\<rparr>)))"

text \<open>The candidate of \<open>evictOne\<close>: a strictly earlier use replaces the one found so far.\<close>

definition evictable :: "catalog \<Rightarrow> string \<times> nat \<Rightarrow> bool" where
  "evictable c e =
     (\<not> ar_retired (artifact_at c (snd e)) \<and> ar_pins (artifact_at c (snd e)) = 0 \<and>
      wanted_count c (fst e) = 0)"

fun oldest_of :: "catalog \<Rightarrow> (string \<times> nat) list \<Rightarrow> (string \<times> nat) option \<Rightarrow> (string \<times> nat) option" where
  "oldest_of c [] best = best"
| "oldest_of c (e # es) best =
     oldest_of c es
       (if evictable c e \<and>
           (case best of None \<Rightarrow> True
            | Some o' \<Rightarrow> ar_used (artifact_at c (snd e)) < ar_used (artifact_at c (snd o')))
        then Some e else best)"

text \<open>\<open>removed path\<close>: \<open>os.Remove\<close> succeeds or the file does not exist.\<close>

definition evict_one :: "(string \<Rightarrow> bool) \<Rightarrow> catalog \<Rightarrow> catalog_error + catalog" where
  "evict_one removed c =
     (case oldest_of c (ct_entries c) None of
        None \<Rightarrow> Inl CapacityError
      | Some (key, a) \<Rightarrow>
          (if \<not> removed (ar_path (artifact_at c a)) then Inl CapacityError
           else Inr (c\<lparr>ct_entries := AList.delete key (ct_entries c),
                       ct_used := ct_used c - ar_size (artifact_at c a),
                       ct_evictions := ct_evictions c + 1\<rparr>)))"

lemma oldest_of_in: "oldest_of c es best = Some e \<Longrightarrow> best = Some e \<or> e \<in> set es \<and> evictable c e"
  by (induction es arbitrary: best) (force split: if_splits)+

lemma evict_one_shrinks:
  assumes "evict_one removed c = Inr c'"
  shows "length (ct_entries c') < length (ct_entries c)"
proof -
  from assms obtain key a where o: "oldest_of c (ct_entries c) None = Some (key, a)"
    and c': "ct_entries c' = AList.delete key (ct_entries c)"
    by (auto simp: evict_one_def split: option.splits if_splits)
  from oldest_of_in [OF o] have "(key, a) \<in> set (ct_entries c)" by auto
  then show ?thesis unfolding c' AList.delete_eq by (intro length_filter_less) auto
qed

text \<open>The loop of \<open>reserve\<close>: \<open>Inl\<close> carries the error and what was evicted before it.\<close>

function reserve_loop :: "(string \<Rightarrow> bool) \<Rightarrow> int \<Rightarrow> catalog \<Rightarrow> (catalog_error \<times> catalog) + catalog" where
  "reserve_loop removed n c =
     (if ct_used c + ct_reserved c + n > ct_budget c
      then (case evict_one removed c of Inl e \<Rightarrow> Inl (e, c) | Inr c' \<Rightarrow> reserve_loop removed n c')
      else Inr c)"
  by pat_completeness auto
termination
  by (relation "measure (\<lambda>(_, _, c). length (ct_entries c))") (auto dest: evict_one_shrinks)

declare reserve_loop.simps [simp del]

definition reserve :: "(string \<Rightarrow> bool) \<Rightarrow> int \<Rightarrow> catalog \<Rightarrow> (catalog_error \<times> catalog) + catalog" where
  "reserve removed n c =
     (if n < 0 \<or> n > ct_budget c then Inl (CapacityError, c)
      else (case reserve_loop removed n c of
              Inl e \<Rightarrow> Inl e
            | Inr c \<Rightarrow> Inr (c\<lparr>ct_reserved := ct_reserved c + n\<rparr>)))"

text \<open>\<open>Write\<close> of \<open>n\<close> bytes, of which the file takes \<open>written\<close>.\<close>

definition write_reserve ::
  "(string \<Rightarrow> bool) \<Rightarrow> nat \<Rightarrow> int \<Rightarrow> catalog \<Rightarrow> (catalog_error \<times> catalog) + catalog" where
  "write_reserve removed w n c =
     map_sum id (\<lambda>c. set_writer w ((ct_writers c w)\<lparr>wr_inflight := n\<rparr>) c) (reserve removed n c)"

definition write_settle :: "nat \<Rightarrow> int \<Rightarrow> catalog \<Rightarrow> catalog" where
  "write_settle w written c =
     (let v = ct_writers c w
      in set_writer w (v\<lparr>wr_bytes := wr_bytes v + written, wr_inflight := 0\<rparr>)
           (c\<lparr>ct_reserved := ct_reserved c - (wr_inflight v - written)\<rparr>))"

definition abort_write :: "nat \<Rightarrow> catalog \<Rightarrow> catalog" where
  "abort_write w c =
     (let v = ct_writers c w
      in if wr_done v then c
         else set_writer w (v\<lparr>wr_done := True\<rparr>) (c\<lparr>ct_reserved := ct_reserved c - wr_bytes v\<rparr>))"

definition artifact_path :: "string \<Rightarrow> string \<Rightarrow> string" where
  "artifact_path root file = root @ ''/'' @ file @ ''.m4s''"

definition publish :: "nat \<Rightarrow> time \<Rightarrow> catalog \<Rightarrow> catalog" where
  "publish w now c =
     (let v = ct_writers c w; a = ct_next_artifact c
      in set_writer w (v\<lparr>wr_done := True\<rparr>)
           (set_artifact a
             \<lparr>ar_path = artifact_path (ct_root c) (wr_file v), ar_size = wr_bytes v, ar_pins = 0,
              ar_used = now, ar_retired = False\<rparr>
             (c\<lparr>ct_reserved := ct_reserved c - wr_bytes v, ct_used := ct_used c + wr_bytes v,
                ct_entries := AList.update (wr_key v) a (ct_entries c), ct_next_artifact := a + 1\<rparr>)))"

definition commit_write ::
  "(string \<Rightarrow> bool) \<Rightarrow> bool \<Rightarrow> bool \<Rightarrow> time \<Rightarrow> nat \<Rightarrow> catalog \<Rightarrow> catalog_error option \<times> catalog" where
  "commit_write removed closes renames now w c =
     (let v = ct_writers c w
      in if wr_done v then (Some WorkerError, c)
         else if \<not> closes then (Some IOError, abort_write w c)
         else if map_of (ct_entries c) (wr_key v) \<noteq> None
         then (None, set_writer w (v\<lparr>wr_done := True\<rparr>) (c\<lparr>ct_reserved := ct_reserved c - wr_bytes v\<rparr>))
         else (case (if length (ct_entries c) \<ge> max_cache_artifacts then evict_one removed c else Inr c) of
                 Inl e \<Rightarrow> (Some e, c)
               | Inr c \<Rightarrow> (if \<not> renames then (Some IOError, c) else (None, publish w now c))))"

definition has_prefix :: "string \<Rightarrow> string \<Rightarrow> bool" where
  "has_prefix p key = (\<not> (length key < length p \<or> take (length p) key \<noteq> p))"

fun drop_artifacts :: "(string \<times> nat) list \<Rightarrow> catalog \<Rightarrow> catalog" where
  "drop_artifacts [] c = c"
| "drop_artifacts ((key, a) # es) c =
     (let v = artifact_at c a;
          c = set_artifact a (v\<lparr>ar_retired := True\<rparr>) (c\<lparr>ct_entries := AList.delete key (ct_entries c)\<rparr>)
      in drop_artifacts es (if ar_pins v = 0 then c\<lparr>ct_used := ct_used c - ar_size v\<rparr> else c))"

definition drop_prefix :: "string \<Rightarrow> catalog \<Rightarrow> catalog" where
  "drop_prefix p c = drop_artifacts (filter (\<lambda>e. has_prefix p (fst e)) (ct_entries c)) c"

record catalog_stats =
  cs_used :: int
  cs_reserved :: int
  cs_pinned :: int
  cs_hits :: nat
  cs_misses :: nat
  cs_evictions :: nat

definition stats :: "catalog \<Rightarrow> catalog_stats" where
  "stats c =
     \<lparr>cs_used = ct_used c, cs_reserved = ct_reserved c,
      cs_pinned = (\<Sum>e\<leftarrow>ct_entries c.
        if ar_pins (artifact_at c (snd e)) > 0 then ar_size (artifact_at c (snd e)) else 0),
      cs_hits = ct_hits c, cs_misses = ct_misses c, cs_evictions = ct_evictions c\<rparr>"

definition artifact_keys :: "string \<Rightarrow> catalog \<Rightarrow> (string, int) gomap" where
  "artifact_keys p c =
     map (\<lambda>(key, a). (key, ar_size (artifact_at c a)))
       (filter (\<lambda>(key, a). has_prefix p key \<and> \<not> ar_retired (artifact_at c a)) (ct_entries c))"

text \<open>\<open>store\<close> writes the whole segment at once; the deferred \<open>abort\<close> runs on every return.\<close>

definition store ::
  "(string \<Rightarrow> bool) \<Rightarrow> string option \<Rightarrow> int \<Rightarrow> bool \<Rightarrow> bool \<Rightarrow> time \<Rightarrow> string \<Rightarrow> int \<Rightarrow> catalog \<Rightarrow>
   catalog_error option \<times> catalog" where
  "store removed temp written closes renames now key n c =
     (case begin_write key temp c of
        (Inl e, c) \<Rightarrow> (Some e, c)
      | (Inr w, c) \<Rightarrow>
          (case write_reserve removed w n c of
             Inl (e, c) \<Rightarrow> (Some e, abort_write w c)
           | Inr c \<Rightarrow>
               (let c = write_settle w written c
                in if written < n then (Some IOError, abort_write w c)
                   else (case commit_write removed closes renames now w c of
                           (e, c) \<Rightarrow> (e, abort_write w c)))))"

section \<open>The invariant\<close>

text \<open>An artifact occupies the disk while it is listed or read; a writer until it is done.\<close>

definition live :: "catalog \<Rightarrow> nat \<Rightarrow> bool" where
  "live c a \<longleftrightarrow> a \<in> snd ` set (ct_entries c) \<or> ar_pins (artifact_at c a) > 0"

definition share :: "catalog \<Rightarrow> nat \<Rightarrow> int" where
  "share c a = (if live c a then ar_size (artifact_at c a) else 0)"

definition owed :: "catalog \<Rightarrow> nat \<Rightarrow> int" where
  "owed c w = (if wr_done (ct_writers c w) then 0 else wr_bytes (ct_writers c w)) + wr_inflight (ct_writers c w)"

definition reads :: "catalog \<Rightarrow> nat \<Rightarrow> nat \<Rightarrow> int" where
  "reads c a l = (if \<not> le_closed (ct_leases c l) \<and> le_entry (ct_leases c l) = a then 1 else 0)"

definition entries_ok :: "catalog \<Rightarrow> bool" where
  "entries_ok c \<longleftrightarrow>
     distinct_keys (ct_entries c) \<and> distinct (map snd (ct_entries c)) \<and>
     (\<forall>a \<in> snd ` set (ct_entries c). a < ct_next_artifact c \<and> \<not> ar_retired (artifact_at c a))"

definition artifacts_ok :: "catalog \<Rightarrow> bool" where
  "artifacts_ok c \<longleftrightarrow>
     (\<forall>a < ct_next_artifact c. 0 \<le> ar_size (artifact_at c a) \<and>
        ar_pins (artifact_at c a) = (\<Sum>l < ct_next_lease c. reads c a l) \<and>
        (ar_pins (artifact_at c a) > 0 \<and> a \<notin> snd ` set (ct_entries c) \<longrightarrow> ar_retired (artifact_at c a))) \<and>
     (\<forall>l < ct_next_lease c. le_entry (ct_leases c l) < ct_next_artifact c)"

definition writers_ok :: "catalog \<Rightarrow> bool" where
  "writers_ok c \<longleftrightarrow>
     (\<forall>w < ct_next_writer c. 0 \<le> wr_bytes (ct_writers c w) \<and> 0 \<le> wr_inflight (ct_writers c w))"

definition cat_inv :: "catalog \<Rightarrow> bool" where
  "cat_inv c \<longleftrightarrow>
     entries_ok c \<and> artifacts_ok c \<and> writers_ok c \<and>
     ct_used c = (\<Sum>a < ct_next_artifact c. share c a) \<and>
     ct_reserved c = (\<Sum>w < ct_next_writer c. owed c w) \<and>
     ct_used c + ct_reserved c \<le> ct_budget c \<and>
     length (ct_entries c) \<le> max_cache_artifacts"

lemma cat_invD:
  assumes "cat_inv c"
  shows "entries_ok c" "artifacts_ok c" "writers_ok c"
    "ct_used c = (\<Sum>a < ct_next_artifact c. share c a)"
    "ct_reserved c = (\<Sum>w < ct_next_writer c. owed c w)"
    "ct_used c + ct_reserved c \<le> ct_budget c" "length (ct_entries c) \<le> max_cache_artifacts"
  using assms by (simp_all add: cat_inv_def)

lemma empty_catalog_inv: "0 \<le> budget \<Longrightarrow> cat_inv (empty_catalog root budget)"
  by (simp add: cat_inv_def empty_catalog_def entries_ok_def artifacts_ok_def writers_ok_def)

subsection \<open>Eviction\<close>

lemma snd_delete:
  assumes "distinct_keys m" and "distinct (map snd m)" and "map_of m k = Some a"
  shows "snd ` set (AList.delete k m) = snd ` set m - {a}"
  using assms
proof (induction m)
  case Nil
  then show ?case by simp
next
  case (Cons e m)
  show ?case
  proof (cases "fst e = k")
    case True
    with Cons.prems have "AList.delete k (e # m) = m" "snd e = a"
      by (cases e; simp add: delete_id)+
    with Cons.prems(2) show ?thesis by auto
  next
    case False
    with Cons.prems(3) have m: "map_of m k = Some a" by (cases e) simp
    then have "a \<in> snd ` set m" by (metis imageI map_of_SomeD snd_conv)
    with Cons.prems(2) have "snd e \<noteq> a" by auto
    moreover have "snd ` set (AList.delete k m) = snd ` set m - {a}" using Cons m by simp
    ultimately show ?thesis using False by (cases e) auto
  qed
qed

lemma evict_oneE:
  assumes "evict_one removed c = Inr c'" and ok: "entries_ok c"
  obtains key a where "map_of (ct_entries c) key = Some a" "ar_pins (artifact_at c a) = 0"
    "wanted_count c key = 0" "a \<in> snd ` set (ct_entries c)"
    "c' = c\<lparr>ct_entries := AList.delete key (ct_entries c),
            ct_used := ct_used c - ar_size (artifact_at c a), ct_evictions := ct_evictions c + 1\<rparr>"
    "snd ` set (ct_entries c') = snd ` set (ct_entries c) - {a}"
proof -
  from assms(1) obtain key a where o: "oldest_of c (ct_entries c) None = Some (key, a)"
    and c': "c' = c\<lparr>ct_entries := AList.delete key (ct_entries c),
            ct_used := ct_used c - ar_size (artifact_at c a), ct_evictions := ct_evictions c + 1\<rparr>"
    by (auto simp: evict_one_def split: option.splits if_splits)
  from oldest_of_in [OF o] have e: "(key, a) \<in> set (ct_entries c)" "evictable c (key, a)" by auto
  from imageI [OF e(1), of snd] have a: "a \<in> snd ` set (ct_entries c)" by simp
  have "distinct_keys (ct_entries c)" using ok by (simp add: entries_ok_def)
  from in_set_map_of [OF this] e(1) have m: "map_of (ct_entries c) key = Some a" by blast
  have "snd ` set (ct_entries c') = snd ` set (ct_entries c) - {a}"
    using ok m by (simp add: c' entries_ok_def snd_delete)
  moreover have "ar_pins (artifact_at c a) = 0" "wanted_count c key = 0"
    using e(2) by (simp_all add: evictable_def)
  ultimately show ?thesis using m a c' by (intro that [of key a])
qed

lemma evict_one_inv:
  assumes inv: "cat_inv c" and e: "evict_one removed c = Inr c'"
  shows "cat_inv c'"
proof -
  note D = cat_invD [OF inv]
  from e D(1) obtain key a where a: "map_of (ct_entries c) key = Some a" "ar_pins (artifact_at c a) = 0"
    "a \<in> snd ` set (ct_entries c)"
    and c': "c' = c\<lparr>ct_entries := AList.delete key (ct_entries c),
            ct_used := ct_used c - ar_size (artifact_at c a), ct_evictions := ct_evictions c + 1\<rparr>"
    and set': "snd ` set (ct_entries c') = snd ` set (ct_entries c) - {a}"
    by (rule evict_oneE)
  have an: "a < ct_next_artifact c" using D(1) a(3) by (auto simp: entries_ok_def)
  have art: "artifact_at c' = artifact_at c" by (simp add: c')
  have live': "live c' b \<longleftrightarrow> live c b \<and> b \<noteq> a" for b
    unfolding live_def set' art using a(2) by auto
  have "(\<Sum>b < ct_next_artifact c. share c' b) = (\<Sum>b < ct_next_artifact c. share c b) - share c a + share c' a"
    using an by (intro sum_change) (auto simp: share_def live' art)
  moreover have "share c a = ar_size (artifact_at c a)" "share c' a = 0"
    using a(3) by (simp_all add: share_def live') (simp add: live_def)
  moreover have "entries_ok c'"
    using D(1) set' by (auto simp: entries_ok_def c' AList.delete_eq distinct_map_filter)
  moreover have "artifacts_ok c'"
    using D(2) a(2) unfolding artifacts_ok_def set' by (auto simp: c' reads_def)
  moreover have "0 \<le> ar_size (artifact_at c a)" using D(2) an by (simp add: artifacts_ok_def)
  moreover have "length (ct_entries c') \<le> max_cache_artifacts"
    using evict_one_shrinks [OF e] D(7) by simp
  moreover have "ct_used c' = ct_used c - ar_size (artifact_at c a)"
    "ct_reserved c' = ct_reserved c" "ct_budget c' = ct_budget c" "ct_writers c' = ct_writers c"
    "ct_next_writer c' = ct_next_writer c" "ct_next_artifact c' = ct_next_artifact c"
    by (simp_all add: c')
  moreover from this have "owed c' = owed c" by (auto simp: owed_def)
  ultimately show ?thesis
    using D(3-6) by (simp add: cat_inv_def writers_ok_def)
qed

text \<open>What \<open>evictOne\<close> must not touch: entries that are read or waited for.\<close>

definition in_use :: "catalog \<Rightarrow> (string \<times> nat) set" where
  "in_use c = {(key, a) \<in> set (ct_entries c). ar_pins (artifact_at c a) > 0 \<or> wanted_count c key > 0}"

interpretation catalog_eviction: safe_eviction
  "\<lambda>c. ct_used c + ct_reserved c + n > ct_budget c"
  "\<lambda>c. map_sum (\<lambda>e. (e, c)) id (evict_one removed c)"
  "reserve_loop removed n" "\<lambda>c. length (ct_entries c)" cat_inv "\<lambda>(e, c). cat_inv c"
  in_use "\<lambda>(e, c). in_use c"
  for n removed
proof
  show "reserve_loop removed n c =
      (if ct_used c + ct_reserved c + n > ct_budget c
       then (case map_sum (\<lambda>e. (e, c)) id (evict_one removed c) of
               Inl f \<Rightarrow> Inl f | Inr s' \<Rightarrow> reserve_loop removed n s')
       else Inr c)" for c
    by (simp add: reserve_loop.simps [of removed n c] split: sum.splits)
next
  fix c c' assume inv: "cat_inv c" and "map_sum (\<lambda>e. (e, c)) id (evict_one removed c) = Inr c'"
  then have e: "evict_one removed c = Inr c'" by (cases "evict_one removed c") auto
  show "length (ct_entries c') < length (ct_entries c)" by (rule evict_one_shrinks [OF e])
  show "cat_inv c'" by (rule evict_one_inv [OF inv e])
  from e cat_invD(1) [OF inv] obtain key a where a: "map_of (ct_entries c) key = Some a"
    "ar_pins (artifact_at c a) = 0" "wanted_count c key = 0"
    and c': "c' = c\<lparr>ct_entries := AList.delete key (ct_entries c),
            ct_used := ct_used c - ar_size (artifact_at c a), ct_evictions := ct_evictions c + 1\<rparr>"
    by (rule evict_oneE)
  have "distinct_keys (ct_entries c)" using cat_invD(1) [OF inv] by (simp add: entries_ok_def)
  from in_set_map_of [OF this, of key] a(1)
  have "(key, b) \<in> set (ct_entries c) \<longleftrightarrow> b = a" for b by (metis option.inject)
  moreover have "set (ct_entries c') = {e \<in> set (ct_entries c). fst e \<noteq> key}"
    unfolding c' by (auto simp: AList.delete_eq)
  moreover have "artifact_at c' = artifact_at c" "wanted_count c' = wanted_count c"
    unfolding c' by (simp_all add: wanted_count_def fun_eq_iff)
  ultimately show "in_use c \<subseteq> in_use c'"
    using a(2,3) by (auto simp: in_use_def)
next
  fix c f assume inv: "cat_inv c" and "map_sum (\<lambda>e. (e, c)) id (evict_one removed c) = Inl f"
  then show "(case f of (e, c) \<Rightarrow> cat_inv c)" "in_use c \<subseteq> (case f of (e, c) \<Rightarrow> in_use c)"
    by (cases "evict_one removed c"; auto)+
qed

subsection \<open>Every operation keeps the books\<close>

lemma set_writer_simps [simp]:
  "ct_root (set_writer w v c) = ct_root c" "ct_budget (set_writer w v c) = ct_budget c"
  "ct_used (set_writer w v c) = ct_used c" "ct_reserved (set_writer w v c) = ct_reserved c"
  "ct_entries (set_writer w v c) = ct_entries c" "ct_wanted (set_writer w v c) = ct_wanted c"
  "ct_artifacts (set_writer w v c) = ct_artifacts c"
  "ct_next_artifact (set_writer w v c) = ct_next_artifact c"
  "ct_writers (set_writer w v c) = (ct_writers c)(w := v)"
  "ct_next_writer (set_writer w v c) = ct_next_writer c" "ct_leases (set_writer w v c) = ct_leases c"
  "ct_next_lease (set_writer w v c) = ct_next_lease c"
  by (simp_all add: set_writer_def)

lemma set_artifact_simps [simp]:
  "ct_root (set_artifact a v c) = ct_root c" "ct_budget (set_artifact a v c) = ct_budget c"
  "ct_used (set_artifact a v c) = ct_used c" "ct_reserved (set_artifact a v c) = ct_reserved c"
  "ct_entries (set_artifact a v c) = ct_entries c" "ct_wanted (set_artifact a v c) = ct_wanted c"
  "ct_artifacts (set_artifact a v c) = (ct_artifacts c)(a := v)"
  "ct_next_artifact (set_artifact a v c) = ct_next_artifact c"
  "ct_writers (set_artifact a v c) = ct_writers c"
  "ct_next_writer (set_artifact a v c) = ct_next_writer c" "ct_leases (set_artifact a v c) = ct_leases c"
  "ct_next_lease (set_artifact a v c) = ct_next_lease c"
  by (simp_all add: set_artifact_def)

text \<open>A change of one writer and of the reservation, with everything else as it was.\<close>

lemma writer_step:
  assumes inv: "cat_inv c" and w: "w < ct_next_writer c"
    and same: "ct_entries c' = ct_entries c" "ct_artifacts c' = ct_artifacts c"
      "ct_next_artifact c' = ct_next_artifact c" "ct_leases c' = ct_leases c"
      "ct_next_lease c' = ct_next_lease c" "ct_used c' = ct_used c" "ct_budget c' = ct_budget c"
      "ct_next_writer c' = ct_next_writer c"
    and writer: "ct_writers c' = (ct_writers c)(w := v)" "0 \<le> wr_bytes v" "0 \<le> wr_inflight v"
    and reserved: "ct_reserved c' = ct_reserved c - owed c w + owed c' w"
    and room: "ct_used c + ct_reserved c' \<le> ct_budget c"
  shows "cat_inv c'"
proof -
  note D = cat_invD [OF inv]
  have "(\<Sum>j < ct_next_writer c. owed c' j) = (\<Sum>j < ct_next_writer c. owed c j) - owed c w + owed c' w"
    using w by (intro sum_change) (auto simp: owed_def writer)
  moreover have "share c' = share c" "reads c' = reads c"
    by (simp_all add: share_def live_def reads_def fun_eq_iff same)
  ultimately show ?thesis
    using D reserved room writer
    by (simp add: cat_inv_def entries_ok_def artifacts_ok_def writers_ok_def same)
qed

lemma cat_inv_same:
  assumes "cat_inv c" and "ct_entries c' = ct_entries c" "ct_artifacts c' = ct_artifacts c"
      "ct_next_artifact c' = ct_next_artifact c" "ct_leases c' = ct_leases c"
      "ct_next_lease c' = ct_next_lease c" "ct_used c' = ct_used c" "ct_budget c' = ct_budget c"
      "ct_next_writer c' = ct_next_writer c" "ct_writers c' = ct_writers c" "ct_reserved c' = ct_reserved c"
  shows "cat_inv c'"
proof -
  have "share c' = share c" "reads c' = reads c" "owed c' = owed c"
    by (simp_all add: share_def live_def reads_def owed_def fun_eq_iff assms(2-))
  with assms show ?thesis
    by (simp add: cat_inv_def entries_ok_def artifacts_ok_def writers_ok_def)
qed

lemma protect_inv [preserved]: "cat_inv c \<Longrightarrow> cat_inv (protect key d c)"
  by (erule cat_inv_same) (simp_all add: protect_def Let_def)

lemma begin_write_inv [preserved]:
  assumes inv: "cat_inv c"
  shows "cat_inv (snd (begin_write key temp c))"
proof (cases temp)
  case None
  with inv show ?thesis by (simp add: begin_write_def)
next
  case (Some f)
  let ?c = "snd (begin_write key temp c)" and ?w = "ct_next_writer c"
  note D = cat_invD [OF inv]
  have w: "ct_writers ?c = (ct_writers c)(?w := \<lparr>wr_file = f, wr_key = key, wr_bytes = 0, wr_done = False,
      wr_inflight = 0\<rparr>)" "ct_next_writer ?c = ?w + 1"
    by (simp_all add: begin_write_def Some Let_def)
  have same: "ct_entries ?c = ct_entries c" "ct_artifacts ?c = ct_artifacts c"
      "ct_next_artifact ?c = ct_next_artifact c" "ct_leases ?c = ct_leases c"
      "ct_next_lease ?c = ct_next_lease c" "ct_used ?c = ct_used c" "ct_budget ?c = ct_budget c"
      "ct_reserved ?c = ct_reserved c"
    by (simp_all add: begin_write_def Some Let_def)
  have "(\<Sum>j < ?w. owed ?c j) = (\<Sum>j < ?w. owed c j)"
    by (intro sum.cong) (auto simp: owed_def w)
  moreover have "owed ?c ?w = 0" by (simp add: owed_def w)
  moreover have "share ?c = share c" "reads ?c = reads c"
    by (simp_all add: share_def live_def reads_def fun_eq_iff same)
  ultimately show ?thesis using D
    by (simp add: cat_inv_def entries_ok_def artifacts_ok_def writers_ok_def same w less_Suc_eq)
qed

text \<open>The reservation loop touches neither the writers nor the budget.\<close>

lemma reserve_loop_frame:
  "reserve_loop removed n c = Inr c' \<Longrightarrow>
     ct_writers c' = ct_writers c \<and> ct_next_writer c' = ct_next_writer c \<and>
     ct_budget c' = ct_budget c \<and> ct_artifacts c' = ct_artifacts c \<and> ct_reserved c' = ct_reserved c"
proof (induction removed n c rule: reserve_loop.induct)
  case (1 removed n c)
  from "1.prems" show ?case
    using "1.IH" by (auto simp: reserve_loop.simps [of removed n c] evict_one_def
        split: if_splits sum.splits option.splits)
qed

lemma write_reserve_inv [preserved]:
  assumes inv: "cat_inv c" and w: "w < ct_next_writer c" "wr_inflight (ct_writers c w) = 0"
  shows "case write_reserve removed w n c of Inl (e, c') \<Rightarrow> cat_inv c' | Inr c' \<Rightarrow> cat_inv c'"
proof (cases "n < 0 \<or> n > ct_budget c")
  case True
  with inv show ?thesis by (auto simp: write_reserve_def reserve_def)
next
  case False
  show ?thesis
  proof (cases "reserve_loop removed n c")
    case (Inl f)
    with False catalog_eviction.loop_fail [OF inv Inl] show ?thesis
      by (auto simp: write_reserve_def reserve_def split: prod.splits)
  next
    case (Inr c1)
    note F = reserve_loop_frame [OF Inr]
    have inv1: "cat_inv c1" by (rule catalog_eviction.loop_inv [OF inv Inr])
    have room: "ct_used c1 + ct_reserved c1 + n \<le> ct_budget c1"
      using catalog_eviction.loop_room [OF inv Inr] by simp
    let ?v = "(ct_writers c1 w)\<lparr>wr_inflight := n\<rparr>"
    let ?c = "set_writer w ?v (c1\<lparr>ct_reserved := ct_reserved c1 + n\<rparr>)"
    have "cat_inv ?c"
      by (rule writer_step [OF inv1, where w = w and v = ?v])
         (use F w cat_invD(3) [OF inv1] False room in \<open>auto simp: writers_ok_def owed_def\<close>)
    with False Inr F show ?thesis by (simp add: write_reserve_def reserve_def)
  qed
qed

lemma write_settle_inv [preserved]:
  assumes inv: "cat_inv c" and w: "w < ct_next_writer c"
    and n: "0 \<le> n" "n \<le> wr_inflight (ct_writers c w)" "wr_done (ct_writers c w) \<Longrightarrow> n = 0"
  shows "cat_inv (write_settle w n c)"
proof -
  let ?v = "ct_writers c w"
  let ?v' = "?v\<lparr>wr_bytes := wr_bytes ?v + n, wr_inflight := 0\<rparr>"
  show ?thesis
    by (rule writer_step [OF inv w, where v = ?v'])
       (use n cat_invD(3,6) [OF inv] w in \<open>auto simp: write_settle_def Let_def writers_ok_def owed_def\<close>)
qed

lemma abort_write_inv [preserved]:
  assumes inv: "cat_inv c" and w: "w < ct_next_writer c"
  shows "cat_inv (abort_write w c)"
proof (cases "wr_done (ct_writers c w)")
  case True
  with inv show ?thesis by (simp add: abort_write_def Let_def)
next
  case False
  let ?v = "ct_writers c w"
  show ?thesis
    by (rule writer_step [OF inv w, where v = "?v\<lparr>wr_done := True\<rparr>"])
       (use False cat_invD(3,6) [OF inv] w in \<open>auto simp: abort_write_def Let_def writers_ok_def owed_def\<close>)
qed

lemma misses_inv: "cat_inv c \<Longrightarrow> cat_inv (c\<lparr>ct_misses := m\<rparr>)"
  by (erule cat_inv_same) simp_all

lemma open_artifact_inv [preserved]:
  assumes inv: "cat_inv c"
  shows "cat_inv (snd (open_artifact key readable now c))"
proof (cases "\<exists>a. map_of (ct_entries c) key = Some a \<and> \<not> ar_retired (artifact_at c a) \<and> readable")
  case False
  then show ?thesis using inv misses_inv
    by (auto simp: open_artifact_def Let_def split: option.splits)
next
  case True
  then obtain a where a: "map_of (ct_entries c) key = Some a" "\<not> ar_retired (artifact_at c a)" "readable" by blast
  note D = cat_invD [OF inv]
  let ?c = "snd (open_artifact key readable now c)" and ?l = "ct_next_lease c"
  have in_a: "a \<in> snd ` set (ct_entries c)" using a(1) by (metis imageI map_of_SomeD snd_conv)
  have an: "a < ct_next_artifact c" using D(1) in_a by (auto simp: entries_ok_def)
  have c: "ct_artifacts ?c = (ct_artifacts c)(a := (artifact_at c a)
        \<lparr>ar_pins := ar_pins (artifact_at c a) + 1, ar_used := now\<rparr>)"
      "ct_leases ?c = (ct_leases c)(?l := \<lparr>le_entry = a, le_closed = False\<rparr>)" "ct_next_lease ?c = ?l + 1"
      "ct_entries ?c = ct_entries c" "ct_next_artifact ?c = ct_next_artifact c"
      "ct_used ?c = ct_used c" "ct_reserved ?c = ct_reserved c" "ct_budget ?c = ct_budget c"
      "ct_writers ?c = ct_writers c" "ct_next_writer ?c = ct_next_writer c"
    using a by (simp_all add: open_artifact_def Let_def)
  have "share ?c = share c" "owed ?c = owed c"
    using in_a by (auto simp: share_def live_def owed_def fun_eq_iff c)
  moreover have "(\<Sum>l < ?l + 1. reads ?c b l) = (\<Sum>l < ?l. reads c b l) + (if b = a then 1 else 0)" for b
  proof -
    have "(\<Sum>l < ?l. reads ?c b l) = (\<Sum>l < ?l. reads c b l)"
      by (intro sum.cong) (auto simp: reads_def c)
    then show ?thesis by (simp add: reads_def c)
  qed
  ultimately show ?thesis
    using D an in_a a(2)
    by (auto simp: cat_inv_def entries_ok_def artifacts_ok_def writers_ok_def c less_Suc_eq simp del: sum.lessThan_Suc)
qed

lemma close_lease_inv [preserved]:
  assumes inv: "cat_inv c" and l: "l < ct_next_lease c"
  shows "cat_inv (close_lease l c)"
proof (cases "le_closed (ct_leases c l)")
  case True
  with inv show ?thesis by (simp add: close_lease_def)
next
  case False
  note D = cat_invD [OF inv]
  let ?c = "close_lease l c" and ?a = "le_entry (ct_leases c l)"
  let ?v = "artifact_at c ?a"
  let ?gone = "ar_retired ?v \<and> ar_pins ?v - 1 = 0"
  have an: "?a < ct_next_artifact c" using D(2) l by (auto simp: artifacts_ok_def)
  have c: "ct_artifacts ?c = (ct_artifacts c)(?a := ?v\<lparr>ar_pins := ar_pins ?v - 1\<rparr>)"
      "ct_leases ?c = (ct_leases c)(l := (ct_leases c l)\<lparr>le_closed := True\<rparr>)" "ct_next_lease ?c = ct_next_lease c"
      "ct_entries ?c = ct_entries c" "ct_next_artifact ?c = ct_next_artifact c"
      "ct_used ?c = (if ?gone then ct_used c - ar_size ?v else ct_used c)"
      "ct_reserved ?c = ct_reserved c" "ct_budget ?c = ct_budget c"
      "ct_writers ?c = ct_writers c" "ct_next_writer ?c = ct_next_writer c"
    using False by (simp_all add: close_lease_def Let_def)
  have pins: "(\<Sum>j < ct_next_lease c. reads ?c b j) =
      (\<Sum>j < ct_next_lease c. reads c b j) - (if b = ?a then 1 else 0)" for b
  proof -
    have "(\<Sum>j < ct_next_lease c. reads ?c b j) = (\<Sum>j < ct_next_lease c. reads c b j) - reads c b l + reads ?c b l"
      using l by (intro sum_change) (auto simp: reads_def c)
    then show ?thesis using False by (auto simp: reads_def c)
  qed
  have "ar_pins ?v = (\<Sum>j < ct_next_lease c. reads c ?a j)" using D(2) an by (simp add: artifacts_ok_def)
  also have "\<dots> \<ge> reads c ?a l" using l by (intro member_le_sum) (auto simp: reads_def)
  finally have pos: "ar_pins ?v \<ge> 1" using False by (simp add: reads_def)
  have retired: "ar_retired ?v \<longleftrightarrow> ?a \<notin> snd ` set (ct_entries c)"
    using D(1,2) an pos by (auto simp: entries_ok_def artifacts_ok_def)
  have "live c ?a" using pos by (simp add: live_def)
  have sum: "(\<Sum>b < ct_next_artifact c. share ?c b) = (\<Sum>b < ct_next_artifact c. share c b) - share c ?a + share ?c ?a"
    using an by (intro sum_change) (auto simp: share_def live_def c)
  have "share c ?a = ar_size ?v" using \<open>live c ?a\<close> by (simp add: share_def)
  moreover have "share ?c ?a = (if ?gone then 0 else ar_size ?v)"
    using retired pos by (auto simp: share_def live_def c)
  moreover have "0 \<le> ar_size ?v" using D(2) an by (simp add: artifacts_ok_def)
  moreover have "owed ?c = owed c" by (simp add: owed_def fun_eq_iff c)
  moreover have "entries_ok ?c" using D(1) by (auto simp: entries_ok_def c)
  moreover have "artifacts_ok ?c"
    using D(2) pins retired unfolding artifacts_ok_def c by (auto simp: c split: if_splits)
  moreover have "writers_ok ?c" using D(3) by (simp add: writers_ok_def c)
  ultimately show ?thesis using D(4-7) sum
    unfolding cat_inv_def c by (simp split: if_splits)
qed

lemma publish_inv:
  assumes inv: "cat_inv c" and w: "w < ct_next_writer c" "\<not> wr_done (ct_writers c w)" "wr_inflight (ct_writers c w) = 0"
    and new: "map_of (ct_entries c) (wr_key (ct_writers c w)) = None"
    and room: "length (ct_entries c) < max_cache_artifacts"
  shows "cat_inv (publish w now c)"
proof -
  note D = cat_invD [OF inv]
  let ?c = "publish w now c" and ?v = "ct_writers c w" and ?a = "ct_next_artifact c"
  let ?e = "AList.update (wr_key ?v) ?a (ct_entries c)"
  have c: "ct_entries ?c = ?e" "ct_next_artifact ?c = ?a + 1" "ct_leases ?c = ct_leases c"
    "ct_next_lease ?c = ct_next_lease c" "ct_used ?c = ct_used c + wr_bytes ?v"
    "ct_reserved ?c = ct_reserved c - wr_bytes ?v" "ct_budget ?c = ct_budget c"
    "ct_writers ?c = (ct_writers c)(w := ?v\<lparr>wr_done := True\<rparr>)" "ct_next_writer ?c = ct_next_writer c"
    "ct_artifacts ?c = (ct_artifacts c)(?a := \<lparr>ar_path = artifact_path (ct_root c) (wr_file ?v),
       ar_size = wr_bytes ?v, ar_pins = 0, ar_used = now, ar_retired = False\<rparr>)"
    by (simp_all add: publish_def Let_def)
  have e: "?e = ct_entries c @ [(wr_key ?v, ?a)]"
    using new by (induction "ct_entries c") (auto simp: update_fresh_key map_of_eq_None_iff)
  have old: "a < ?a" if "a \<in> snd ` set (ct_entries c)" for a
    using D(1) that by (auto simp: entries_ok_def)
  have no_reads: "reads c ?a l = 0" if "l < ct_next_lease c" for l
    using D(2) that by (auto simp: artifacts_ok_def reads_def)
  have reads: "reads ?c = reads c" by (simp add: reads_def fun_eq_iff c)
  have "(\<Sum>b < ?a. share ?c b) = (\<Sum>b < ?a. share c b)"
    by (intro sum.cong) (auto simp: share_def live_def c e)
  moreover have "share ?c ?a = wr_bytes ?v" by (simp add: share_def live_def c e)
  moreover have "(\<Sum>j < ct_next_writer c. owed ?c j) = (\<Sum>j < ct_next_writer c. owed c j) - owed c w + owed ?c w"
    using w by (intro sum_change) (auto simp: owed_def c)
  moreover have "owed c w = wr_bytes ?v" "owed ?c w = 0" using w by (simp_all add: owed_def c)
  moreover have "entries_ok ?c"
    using D(1) old new by (auto simp: entries_ok_def c e map_of_eq_None_iff less_Suc_eq)
  moreover have "artifacts_ok ?c"
    using D(2,3) w no_reads unfolding artifacts_ok_def reads c
    by (auto simp: c e less_Suc_eq writers_ok_def)
  moreover have "writers_ok ?c" using D(3) w by (simp add: writers_ok_def c)
  ultimately show ?thesis using D(4-7) room
    unfolding cat_inv_def c by (simp add: e)
qed

lemma commit_write_inv [preserved]:
  assumes inv: "cat_inv c" and w: "w < ct_next_writer c" "wr_inflight (ct_writers c w) = 0"
  shows "cat_inv (snd (commit_write removed closes renames now w c))"
proof -
  let ?v = "ct_writers c w"
  consider (finished) "wr_done ?v" | (noclose) "\<not> wr_done ?v" "\<not> closes"
    | (dup) "\<not> wr_done ?v" "closes" "map_of (ct_entries c) (wr_key ?v) \<noteq> None"
    | (new) "\<not> wr_done ?v" "closes" "map_of (ct_entries c) (wr_key ?v) = None"
    by blast
  then show ?thesis
  proof cases
    case finished
    with inv show ?thesis by (simp add: commit_write_def Let_def)
  next
    case noclose
    with abort_write_inv [OF inv w(1)] show ?thesis by (simp add: commit_write_def Let_def)
  next
    case dup
    have "cat_inv (abort_write w c)" by (rule abort_write_inv [OF inv w(1)])
    with dup show ?thesis by (simp add: commit_write_def abort_write_def Let_def)
  next
    case new
    show ?thesis
    proof (cases "length (ct_entries c) \<ge> max_cache_artifacts")
      case False
      with new inv publish_inv [OF inv w(1) _ w(2)] show ?thesis by (simp add: commit_write_def Let_def)
    next
      case True
      show ?thesis
      proof (cases "evict_one removed c")
        case (Inl e)
        with new True inv show ?thesis by (simp add: commit_write_def Let_def)
      next
        case (Inr c1)
        have inv1: "cat_inv c1" by (rule evict_one_inv [OF inv Inr])
        from Inr cat_invD(1) [OF inv] obtain key a where c1:
          "c1 = c\<lparr>ct_entries := AList.delete key (ct_entries c),
            ct_used := ct_used c - ar_size (artifact_at c a), ct_evictions := ct_evictions c + 1\<rparr>"
          by (rule evict_oneE)
        have "length (ct_entries c1) < max_cache_artifacts"
          using evict_one_shrinks [OF Inr] cat_invD(7) [OF inv] by simp
        moreover have "map_of (ct_entries c1) (wr_key (ct_writers c1 w)) = None"
          using new by (simp add: c1 AList.delete_conv')
        ultimately have "cat_inv (publish w now c1)"
          using new w by (intro publish_inv [OF inv1]) (simp_all add: c1)
        with new True Inr inv1 show ?thesis by (simp add: commit_write_def Let_def)
      qed
    qed
  qed
qed

lemma drop_one_inv:
  assumes inv: "cat_inv c" and e: "(key, a) \<in> set (ct_entries c)"
  defines "v \<equiv> artifact_at c a"
  defines "c1 \<equiv> set_artifact a (v\<lparr>ar_retired := True\<rparr>) (c\<lparr>ct_entries := AList.delete key (ct_entries c)\<rparr>)"
  shows "cat_inv (if ar_pins v = 0 then c1\<lparr>ct_used := ct_used c1 - ar_size v\<rparr> else c1)" 
proof -
  define c2 where "c2 = (if ar_pins v = 0 then c1\<lparr>ct_used := ct_used c1 - ar_size v\<rparr> else c1)"
  note D = cat_invD [OF inv]
  have dk: "distinct_keys (ct_entries c)" "distinct (map snd (ct_entries c))" using D(1) by (simp_all add: entries_ok_def)
  have m: "map_of (ct_entries c) key = Some a" using in_set_map_of [OF dk(1)] e by blast
  have set': "snd ` set (AList.delete key (ct_entries c)) = snd ` set (ct_entries c) - {a}"
    by (rule snd_delete [OF dk m])
  have in_a: "a \<in> snd ` set (ct_entries c)" using e by force
  have an: "a < ct_next_artifact c" using D(1) in_a by (auto simp: entries_ok_def)
  have c: "ct_entries c2 = AList.delete key (ct_entries c)" "ct_next_artifact c2 = ct_next_artifact c"
    "ct_leases c2 = ct_leases c" "ct_next_lease c2 = ct_next_lease c" "ct_reserved c2 = ct_reserved c"
    "ct_budget c2 = ct_budget c" "ct_writers c2 = ct_writers c" "ct_next_writer c2 = ct_next_writer c"
    "ct_artifacts c2 = (ct_artifacts c)(a := v\<lparr>ar_retired := True\<rparr>)"
    "ct_used c2 = (if ar_pins v = 0 then ct_used c - ar_size v else ct_used c)"
    by (simp_all add: c2_def c1_def)
  have pins: "0 \<le> ar_pins v"
    using D(2) an by (auto simp: artifacts_ok_def v_def reads_def intro!: sum_nonneg)
  have size: "0 \<le> ar_size v" using D(2) an by (simp add: artifacts_ok_def v_def)
  have "(\<Sum>b < ct_next_artifact c. share c2 b) = (\<Sum>b < ct_next_artifact c. share c b) - share c a + share c2 a"
    using an by (intro sum_change) (auto simp: share_def live_def c set')
  also have "share c a = ar_size v" using in_a by (simp add: share_def live_def v_def)
  also have "share c2 a = (if ar_pins v = 0 then 0 else ar_size v)"
    using pins unfolding share_def live_def c set' by auto
  finally have used: "ct_used c2 = (\<Sum>b < ct_next_artifact c. share c2 b)"
    unfolding c D(4) by simp
  have "ct_used c2 \<le> ct_used c" unfolding c using size by simp
  then have "ct_used c2 + ct_reserved c2 \<le> ct_budget c2" using D(6) unfolding c(5,6) by linarith
  moreover have "owed c2 = owed c" by (rule ext) (simp only: owed_def c)
  then have "ct_reserved c2 = (\<Sum>w < ct_next_writer c2. owed c2 w)" using D(5) by (simp only: c(5,8))
  moreover have reads: "reads c2 = reads c" by (intro ext) (simp only: reads_def c)
  moreover have "entries_ok c2"
    using D(1) dk unfolding entries_ok_def c set' by (auto simp: AList.delete_eq distinct_map_filter)
  moreover have "artifacts_ok c2"
    using D(2) unfolding artifacts_ok_def reads c set' by (auto simp: v_def)
  moreover have "writers_ok c2" using D(3) by (simp add: writers_ok_def c)
  moreover have "length (ct_entries c2) \<le> max_cache_artifacts"
    unfolding c by (rule le_trans [OF length_delete_le D(7)])
  ultimately have "cat_inv c2" using used unfolding cat_inv_def c(2) by blast
  then show ?thesis by (simp only: c2_def)
qed

lemma drop_artifacts_inv:
  "cat_inv c \<Longrightarrow> set es \<subseteq> set (ct_entries c) \<Longrightarrow> distinct_keys es \<Longrightarrow> cat_inv (drop_artifacts es c)"
proof (induction es arbitrary: c)
  case Nil
  then show ?case by simp
next
  case (Cons e es)
  obtain key a where e: "e = (key, a)" by (cases e)
  let ?c1 = "set_artifact a ((artifact_at c a)\<lparr>ar_retired := True\<rparr>) (c\<lparr>ct_entries := AList.delete key (ct_entries c)\<rparr>)"
  let ?c = "if ar_pins (artifact_at c a) = 0 then ?c1\<lparr>ct_used := ct_used ?c1 - ar_size (artifact_at c a)\<rparr> else ?c1"
  have inv': "cat_inv ?c" using drop_one_inv [OF Cons.prems(1)] Cons.prems(2) by (simp add: e)
  have "ct_entries ?c = AList.delete key (ct_entries c)" by simp
  moreover have "set es \<subseteq> set (AList.delete key (ct_entries c))"
    using Cons.prems(2,3) by (force simp: e AList.delete_eq)
  ultimately have "cat_inv (drop_artifacts es ?c)" using Cons.IH [OF inv'] Cons.prems(3) by simp
  then show ?case by (simp add: e Let_def del: set_artifact_simps) 
qed

lemma drop_prefix_inv [preserved]: "cat_inv c \<Longrightarrow> cat_inv (drop_prefix p c)"
  unfolding drop_prefix_def
  by (rule drop_artifacts_inv) (auto simp: cat_inv_def entries_ok_def)

section \<open>Runs\<close>

datatype cat_op =
    CatProtect string int
  | CatOpen string bool time
  | CatClose nat
  | CatBegin string "string option"
  | CatReserve "string \<Rightarrow> bool" nat int
  | CatSettle nat int
  | CatAbort nat
  | CatCommit "string \<Rightarrow> bool" bool bool time nat
  | CatDrop string

fun cat_exec :: "cat_op \<Rightarrow> catalog \<Rightarrow> catalog" where
  "cat_exec (CatProtect key d) c = protect key d c"
| "cat_exec (CatOpen key readable now) c = snd (open_artifact key readable now c)"
| "cat_exec (CatClose l) c = close_lease l c"
| "cat_exec (CatBegin key temp) c = snd (begin_write key temp c)"
| "cat_exec (CatReserve removed w n) c =
     (case write_reserve removed w n c of Inl (_, c') \<Rightarrow> c' | Inr c' \<Rightarrow> c')"
| "cat_exec (CatSettle w n) c = write_settle w n c"
| "cat_exec (CatAbort w) c = abort_write w c"
| "cat_exec (CatCommit removed closes renames now w) c = snd (commit_write removed closes renames now w c)"
| "cat_exec (CatDrop p) c = drop_prefix p c"

text \<open>
  What a caller may do: it uses leases and writers it was given, one call per writer at a time;
  a file takes between nothing and all of the bytes in flight, and nothing once it is closed.
\<close>

fun cat_legal :: "cat_op \<Rightarrow> catalog \<Rightarrow> bool" where
  "cat_legal (CatClose l) c \<longleftrightarrow> l < ct_next_lease c"
| "cat_legal (CatReserve _ w n) c \<longleftrightarrow> w < ct_next_writer c \<and> wr_inflight (ct_writers c w) = 0"
| "cat_legal (CatSettle w n) c \<longleftrightarrow>
     w < ct_next_writer c \<and> 0 \<le> n \<and> n \<le> wr_inflight (ct_writers c w) \<and> (wr_done (ct_writers c w) \<longrightarrow> n = 0)"
| "cat_legal (CatAbort w) c \<longleftrightarrow> w < ct_next_writer c"
| "cat_legal (CatCommit _ _ _ _ w) c \<longleftrightarrow> w < ct_next_writer c \<and> wr_inflight (ct_writers c w) = 0"
| "cat_legal _ c \<longleftrightarrow> True"

inductive cat_reachable :: "string \<Rightarrow> int \<Rightarrow> catalog \<Rightarrow> bool" for root :: string and budget :: int where
  cat_start: "cat_reachable root budget (empty_catalog root budget)"
| cat_step: "cat_reachable root budget c \<Longrightarrow> cat_legal op c \<Longrightarrow> cat_reachable root budget (cat_exec op c)"

lemma cat_exec_inv: "cat_inv c \<Longrightarrow> cat_legal op c \<Longrightarrow> cat_inv (cat_exec op c)"
proof (cases op)
  case (CatReserve removed w n)
  assume "cat_inv c" "cat_legal op c"
  with CatReserve write_reserve_inv [of c w removed n] show ?thesis
    by (auto split: sum.splits)
qed (simp_all add: preserved)

lemma evict_one_budget: "evict_one removed c = Inr c' \<Longrightarrow> ct_budget c' = ct_budget c"
  by (auto simp: evict_one_def split: option.splits if_splits)

lemma reserve_loop_fail_budget: "reserve_loop removed n c = Inl f \<Longrightarrow> ct_budget (snd f) = ct_budget c"
proof (induction removed n c rule: reserve_loop.induct)
  case (1 removed n c)
  from "1.prems" show ?case
    using "1.IH" by (auto simp: reserve_loop.simps [of removed n c] split: if_splits sum.splits
        dest: evict_one_budget)
qed

lemma drop_artifacts_budget: "ct_budget (drop_artifacts es c) = ct_budget c"
  by (induction es c rule: drop_artifacts.induct) (simp_all add: Let_def)

lemma cat_exec_budget: "ct_budget (cat_exec op c) = ct_budget c"
proof (cases op)
  case (CatReserve removed w n)
  then show ?thesis
    by (auto simp: write_reserve_def reserve_def split: sum.splits dest: reserve_loop_fail_budget reserve_loop_frame)
next
  case (CatCommit removed closes renames now w)
  then show ?thesis
    by (auto simp: commit_write_def publish_def abort_write_def Let_def split: sum.splits
        dest: evict_one_budget)
qed (auto simp: protect_def open_artifact_def close_lease_def begin_write_def write_settle_def
    abort_write_def drop_prefix_def drop_artifacts_budget Let_def split: option.splits)

lemma cat_reachable_inv:
  "cat_reachable root budget c \<Longrightarrow> 0 \<le> budget \<Longrightarrow> cat_inv c \<and> ct_budget c = budget"
  by (induction rule: cat_reachable.induct)
     (simp_all add: empty_catalog_inv cat_exec_inv cat_exec_budget, simp add: empty_catalog_def)

lemma reserve_loop_subset:
  "reserve_loop removed n c = Inr c' \<Longrightarrow> set (ct_entries c') \<subseteq> set (ct_entries c)"
proof (induction removed n c rule: reserve_loop.induct)
  case (1 removed n c)
  have "set (ct_entries b) \<subseteq> set (ct_entries c)" if "evict_one removed c = Inr b" for b
    using that by (auto simp: evict_one_def AList.delete_eq split: option.splits if_splits)
  with "1.prems" show ?case
    using "1.IH" by (fastforce simp: reserve_loop.simps [of removed n c] split: if_splits sum.splits)
qed

lemma commit_frame:
  "commit_write removed closes renames now w c = (e, c') \<Longrightarrow> ct_next_writer c' = ct_next_writer c"
  by (auto simp: commit_write_def Let_def abort_write_def publish_def evict_one_def
      split: if_splits sum.splits option.splits)

lemma drop_artifacts_frame:
  "ct_entries (drop_artifacts es c) = filter (\<lambda>e. fst e \<notin> fst ` set es) (ct_entries c)"
  "ct_leases (drop_artifacts es c) = ct_leases c"
  "ar_pins (artifact_at (drop_artifacts es c) a) = ar_pins (artifact_at c a)"
proof (induction es c rule: drop_artifacts.induct)
  case (1 c)
  case 1 show ?case by simp
  case 2 show ?case by simp
  case 3 show ?case by simp
next
  case (2 key b es c)
  case 1
  show ?case using "2.IH"(1) [OF refl refl] by (auto simp: Let_def AList.delete_eq intro!: filter_cong)
  case 2
  show ?case using "2.IH"(2) [OF refl refl] by (simp add: Let_def)
  case 3
  show ?case using "2.IH"(3) [OF refl refl] by (simp add: Let_def)
qed

section \<open>Properties\<close>

text \<open>
  C36: the catalog never promises more disk than its budget: in every reachable state the bytes
  of the artifacts that are listed or still read, plus the bytes reserved by unfinished writers,
  are exactly the \<open>used\<close> and \<open>reserved\<close> counters and together fit the budget, and there are at
  most 16384 listed artifacts.
\<close>

theorem catalog_within_budget:
  assumes "cat_reachable root budget c" and "0 \<le> budget"
  shows "cs_used (stats c) = (\<Sum>a < ct_next_artifact c. if live c a then ar_size (artifact_at c a) else 0) \<and>
    cs_reserved (stats c) = (\<Sum>w < ct_next_writer c. owed c w) \<and>
    cs_used (stats c) + cs_reserved (stats c) \<le> budget \<and>
    0 \<le> cs_used (stats c) \<and> 0 \<le> cs_reserved (stats c) \<and>
    length (ct_entries c) \<le> max_cache_artifacts"
proof -
  from cat_reachable_inv [OF assms] have inv: "cat_inv c" and b: "ct_budget c = budget" by simp_all
  note D = cat_invD [OF inv]
  have "0 \<le> (\<Sum>a < ct_next_artifact c. share c a)"
    using D(2) by (intro sum_nonneg) (simp add: share_def artifacts_ok_def)
  moreover have "0 \<le> (\<Sum>w < ct_next_writer c. owed c w)"
    using D(3) by (intro sum_nonneg) (auto simp: owed_def writers_ok_def)
  ultimately show ?thesis using D(4-7) b by (simp add: stats_def share_def [abs_def])
qed

definition demo_catalog_ops :: "cat_op list" where
  "demo_catalog_ops =
     [CatBegin ''j/0'' (Some ''part-1''), CatReserve (\<lambda>_. True) 0 60, CatSettle 0 60,
      CatCommit (\<lambda>_. True) True True 5 0, CatOpen ''j/0'' True 6,
      CatBegin ''k/0'' (Some ''part-2''), CatReserve (\<lambda>_. True) 1 30, CatSettle 1 30,
      CatCommit (\<lambda>_. True) True True 7 1, CatBegin ''k/1'' (Some ''part-3'')]"

definition demo_catalog :: catalog where
  "demo_catalog = fold cat_exec demo_catalog_ops (empty_catalog ''/c'' 100)"

fun legal_run :: "cat_op list \<Rightarrow> catalog \<Rightarrow> bool" where
  "legal_run [] c \<longleftrightarrow> True"
| "legal_run (op # ops) c \<longleftrightarrow> cat_legal op c \<and> legal_run ops (cat_exec op c)"

lemma legal_run_reachable:
  "cat_reachable root budget c \<Longrightarrow> legal_run ops c \<Longrightarrow> cat_reachable root budget (fold cat_exec ops c)"
  by (induction ops arbitrary: c) (auto intro: cat_step)

lemmas catalog_eval = empty_catalog_def begin_write_def write_reserve_def reserve_def
  reserve_loop.simps write_settle_def commit_write_def publish_def open_artifact_def set_writer_def
  set_artifact_def blank_artifact_def max_cache_artifacts_def artifact_path_def

lemma demo_catalog_reachable: "cat_reachable ''/c'' 100 demo_catalog"
  unfolding demo_catalog_def
  by (rule legal_run_reachable [OF cat_start]) (simp add: demo_catalog_ops_def catalog_eval)

lemma demo_catalog_facts:
  "ct_entries demo_catalog = [(''j/0'', 0), (''k/0'', 1)]" "ct_wanted demo_catalog = []"
  "ar_pins (artifact_at demo_catalog 0) = 1" "ar_pins (artifact_at demo_catalog 1) = 0"
  "ar_used (artifact_at demo_catalog 1) = 7" "ar_size (artifact_at demo_catalog 1) = 30"
  "\<not> ar_retired (artifact_at demo_catalog 1)" "\<not> ar_retired (artifact_at demo_catalog 0)" "ar_path (artifact_at demo_catalog 1) = ''/c/part-2.m4s''"
  "ct_next_writer demo_catalog = 3" "wr_inflight (ct_writers demo_catalog 2) = 0"
  "ct_used demo_catalog = 90" "ct_reserved demo_catalog = 0"
  by (simp_all add: demo_catalog_def demo_catalog_ops_def catalog_eval)

lemmas demo_catalog_simps = demo_catalog_facts demo_catalog_facts [simplified]

theorem catalog_within_budget_witness:
  "cs_used (stats demo_catalog) = 90 \<and> cs_used (stats demo_catalog) + cs_reserved (stats demo_catalog) \<le> 100"
  using catalog_within_budget [OF demo_catalog_reachable] demo_catalog_facts(12) by (simp add: stats_def)

text \<open>
  making room never touches a segment somebody reads or waits for: whatever a \<open>Write\<close> or a
  \<open>commit\<close> evicts, also when it fails in the end, every listed artifact that is pinned by a
  lease or protected by a waiting playback is still listed.
\<close>

theorem eviction_spares_what_is_in_use:
  assumes "cat_reachable root budget c" and "0 \<le> budget"
  shows "in_use c \<subseteq> in_use (cat_exec (CatReserve removed w n) c) \<and>
    in_use c \<subseteq> in_use (snd (commit_write removed closes renames now w c))"
proof
  from cat_reachable_inv [OF assms] have inv: "cat_inv c" by simp
  have writer: "in_use (set_writer w v (c1\<lparr>ct_reserved := r\<rparr>)) = in_use c1" for v c1 r
    by (simp add: in_use_def wanted_count_def)
  have "in_use c \<subseteq> in_use (case write_reserve removed w n c of Inl (_, c') \<Rightarrow> c' | Inr c' \<Rightarrow> c')"
  proof (cases "n < 0 \<or> n > ct_budget c")
    case True
    then show ?thesis by (simp add: write_reserve_def reserve_def)
  next
    case False
    with catalog_eviction.loop_spares [OF inv, of removed n] show ?thesis
      by (auto simp: write_reserve_def reserve_def writer split: sum.splits prod.splits)
  qed
  then show "in_use c \<subseteq> in_use (cat_exec (CatReserve removed w n) c)" by simp
next
  from cat_reachable_inv [OF assms] have inv: "cat_inv c" by simp
  have evict: "in_use c \<subseteq> in_use c1" if "evict_one removed c = Inr c1" for c1
    using catalog_eviction.spares [OF inv, of removed c1] that by simp
  have publish: "in_use c1 \<subseteq> in_use (publish w now c1)"
    if "cat_inv c1" "map_of (ct_entries c1) (wr_key (ct_writers c1 w)) = None" for c1
  proof -
    have "wr_key (ct_writers c1 w) \<notin> fst ` set (ct_entries c1)" using that(2) by (simp add: map_of_eq_None_iff)
    moreover have "a < ct_next_artifact c1" if "(k, a) \<in> set (ct_entries c1)" for k a
      using cat_invD(1) [OF \<open>cat_inv c1\<close>] that by (force simp: entries_ok_def)
    ultimately show ?thesis
      by (auto simp: in_use_def publish_def Let_def update_fresh_key wanted_count_def)
  qed
  have drop: "in_use (set_writer w v (c\<lparr>ct_reserved := r\<rparr>)) = in_use c" for v r
    by (simp add: in_use_def wanted_count_def)
  show "in_use c \<subseteq> in_use (snd (commit_write removed closes renames now w c))"
  proof (cases "wr_done (ct_writers c w) \<or> \<not> closes \<or> map_of (ct_entries c) (wr_key (ct_writers c w)) \<noteq> None")
    case True
    then show ?thesis by (auto simp: commit_write_def Let_def abort_write_def drop split: sum.splits)
  next
    case False
    then have new: "map_of (ct_entries c) (wr_key (ct_writers c w)) = None" by simp
    show ?thesis
    proof (cases "length (ct_entries c) \<ge> max_cache_artifacts")
      case True
      show ?thesis
      proof (cases "evict_one removed c")
        case (Inl e)
        with False True show ?thesis by (simp add: commit_write_def Let_def)
      next
        case (Inr c1)
        then have "ct_writers c1 = ct_writers c" "map_of (ct_entries c1) (wr_key (ct_writers c1 w)) = None"
          using new by (auto simp: evict_one_def AList.delete_conv' split: option.splits if_splits)
        with publish [OF evict_one_inv [OF inv Inr]] evict [OF Inr] False True Inr
        show ?thesis by (auto simp: commit_write_def Let_def)
      qed
    next
      case False': False
      with False publish [OF inv new] show ?thesis by (simp add: commit_write_def Let_def)
    qed
  qed
qed

theorem eviction_spares_what_is_in_use_witness:
  "(''j/0'', 0) \<in> in_use (cat_exec (CatReserve (\<lambda>_. True) 2 20) demo_catalog)"
proof -
  have "(''j/0'', 0) \<in> in_use demo_catalog" by (simp add: in_use_def demo_catalog_simps)
  moreover have "in_use demo_catalog \<subseteq> in_use (cat_exec (CatReserve (\<lambda>_. True) 2 20) demo_catalog)"
    by (rule conjunct1 [OF eviction_spares_what_is_in_use [OF demo_catalog_reachable]]) simp
  ultimately show ?thesis by blast
qed

lemma oldest_of_least:
  "oldest_of c es best = Some o' \<Longrightarrow>
   (\<forall>e \<in> set es. evictable c e \<longrightarrow> ar_used (artifact_at c (snd o')) \<le> ar_used (artifact_at c (snd e))) \<and>
   (\<forall>b. best = Some b \<longrightarrow> ar_used (artifact_at c (snd o')) \<le> ar_used (artifact_at c (snd b)))"
proof (induction es arbitrary: best)
  case Nil
  then show ?case by simp
next
  case (Cons e es)
  let ?best = "if evictable c e \<and> (case best of None \<Rightarrow> True
    | Some o' \<Rightarrow> ar_used (artifact_at c (snd e)) < ar_used (artifact_at c (snd o'))) then Some e else best"
  from Cons.prems have "oldest_of c es ?best = Some o'" by simp
  note IH = Cons.IH [OF this]
  let ?u = "\<lambda>e. ar_used (artifact_at c (snd e))"
  have "(evictable c e \<longrightarrow> ?u o' \<le> ?u e) \<and> (\<forall>b. best = Some b \<longrightarrow> ?u o' \<le> ?u b)"
  proof (cases "evictable c e \<and> (case best of None \<Rightarrow> True | Some o' \<Rightarrow> ?u e < ?u o')")
    case True
    then have "?best = Some e" by (rule if_P)
    with IH have le: "?u o' \<le> ?u e" by blast
    have "?u e \<le> ?u b" if "best = Some b" for b using True that by simp
    with le show ?thesis using order_trans by blast
  next
    case False
    then have best: "?best = best" by (rule if_not_P)
    have le: "?u o' \<le> ?u b" if "best = Some b" for b using IH that unfolding best by blast
    have "\<exists>b. best = Some b \<and> ?u b \<le> ?u e" if "evictable c e"
      using False that by (cases best) auto
    with le show ?thesis using order_trans by blast
  qed
  with IH show ?case by simp
qed

text \<open>
  the victim of an eviction is least recently used: it was listed, nobody reads it or waits
  for it, and no other such artifact was used earlier; nothing else leaves the catalog.
\<close>

theorem evicts_least_recently_used:
  assumes "cat_reachable root budget c" and "0 \<le> budget" and "evict_one removed c = Inr c'"
  shows "\<exists>key a. (key, a) \<in> set (ct_entries c) \<and> evictable c (key, a) \<and>
    set (ct_entries c') = set (ct_entries c) - {(key, a)} \<and>
    (\<forall>e \<in> set (ct_entries c). evictable c e \<longrightarrow> ar_used (artifact_at c a) \<le> ar_used (artifact_at c (snd e)))"
proof -
  from cat_reachable_inv [OF assms(1,2)] have "distinct_keys (ct_entries c)"
    by (simp add: cat_inv_def entries_ok_def)
  note uniq = in_set_map_of [OF this]
  from assms(3) obtain key a where o: "oldest_of c (ct_entries c) None = Some (key, a)"
    and c': "ct_entries c' = AList.delete key (ct_entries c)"
    by (auto simp: evict_one_def split: option.splits if_splits)
  from oldest_of_in [OF o] have e: "(key, a) \<in> set (ct_entries c)" "evictable c (key, a)" by auto
  have "set (ct_entries c') = set (ct_entries c) - {(key, a)}"
  proof -
    have "(k, b) \<in> set (ct_entries c) \<and> k = key \<longleftrightarrow> (k, b) \<in> set (ct_entries c) \<and> (k, b) = (key, a)" for k b
      using uniq [of key] e(1) by (metis option.inject prod.inject)
    then show ?thesis unfolding c' AList.delete_eq by auto
  qed
  with e oldest_of_least [OF o] show ?thesis by auto
qed

theorem evicts_least_recently_used_witness:
  "\<exists>c' key a. evict_one (\<lambda>_. True) demo_catalog = Inr c' \<and> (key, a) \<in> set (ct_entries demo_catalog) \<and>
    set (ct_entries c') = set (ct_entries demo_catalog) - {(key, a)}"
proof -
  have "\<not> isl (evict_one (\<lambda>_. True) demo_catalog)"
    by (simp add: evict_one_def evictable_def wanted_count_def demo_catalog_simps)
  then obtain c' where "evict_one (\<lambda>_. True) demo_catalog = Inr c'" by (cases "evict_one (\<lambda>_. True) demo_catalog") auto
  with evicts_least_recently_used [OF demo_catalog_reachable _ this] show ?thesis by auto
qed

text \<open>
  what \<open>store\<close> accepts can be opened: after a successful store the key is listed, with the
  size that was written unless the segment had been published before, and opening it succeeds
  with a lease on that artifact.
\<close>

theorem store_then_open:
  assumes "store removed temp written closes renames now key n c = (None, c')" and "cat_inv c"
    and "written \<le> n"
  shows "\<exists>a. map_of (ct_entries c') key = Some a \<and> has_artifact key c' \<and>
    (map_of (ct_entries c) key = None \<longrightarrow> ar_size (artifact_at c' a) = n) \<and>
    (\<exists>l c''. open_artifact key True later c' = (Inr l, c'') \<and> le_entry (ct_leases c'' l) = a)"
proof -
  let ?w = "ct_next_writer c"
  from assms(1) obtain f where temp: "temp = Some f" by (cases temp) (auto simp: store_def begin_write_def)
  define c0 where "c0 = snd (begin_write key temp c)"
  have w0: "ct_writers c0 ?w = \<lparr>wr_file = f, wr_key = key, wr_bytes = 0, wr_done = False, wr_inflight = 0\<rparr>"
    "?w < ct_next_writer c0" "ct_entries c0 = ct_entries c" "fst (begin_write key temp c) = Inr ?w"
    by (simp_all add: c0_def begin_write_def temp Let_def)
  have bw: "begin_write key temp c = (Inr ?w, c0)" using w0(4) by (metis prod.collapse c0_def)
  have inv0: "cat_inv c0" unfolding c0_def by (rule begin_write_inv [OF assms(2)])
  from assms(1) bw obtain c1 where c1: "write_reserve removed ?w n c0 = Inr c1"
    by (auto simp: store_def split: sum.splits prod.splits)
  have inv1: "cat_inv c1" using write_reserve_inv [OF inv0 w0(2), of removed n] w0(1) c1 by simp
  from c1 obtain c01 where loop: "reserve_loop removed n c0 = Inr c01" and n: "0 \<le> n"
    and c1_eq: "c1 = set_writer ?w ((ct_writers c01 ?w)\<lparr>wr_inflight := n\<rparr>) (c01\<lparr>ct_reserved := ct_reserved c01 + n\<rparr>)"
    by (auto simp: write_reserve_def reserve_def split: if_splits sum.splits)
  note F = reserve_loop_frame [OF loop]
  have keys: "set (ct_entries c01) \<subseteq> set (ct_entries c)"
    using reserve_loop_subset [OF loop] w0(3) by simp
  let ?c2 = "write_settle ?w written c1"
  have written: "\<not> written < n" "written = n" and com: "\<exists>c3. commit_write removed closes renames now ?w ?c2 = (None, c3) \<and>
      c' = abort_write ?w c3"
  proof -
    have eq: "store removed temp written closes renames now key n c =
        (if written < n then (Some IOError, abort_write ?w ?c2)
         else (case commit_write removed closes renames now ?w ?c2 of (e, c) \<Rightarrow> (e, abort_write ?w c)))"
      by (simp only: store_def bw c1 prod.case sum.case Let_def)
    show "\<not> written < n" using assms(1) unfolding eq by (simp split: if_splits)
    with assms(3) show "written = n" by simp
    from assms(1) \<open>\<not> written < n\<close>
    show "\<exists>c3. commit_write removed closes renames now ?w ?c2 = (None, c3) \<and> c' = abort_write ?w c3"
      unfolding eq by (cases "commit_write removed closes renames now ?w ?c2") simp
  qed
  then obtain c3 where c3: "commit_write removed closes renames now ?w ?c2 = (None, c3)" "c' = abort_write ?w c3" by blast
  have w2: "ct_writers ?c2 ?w = \<lparr>wr_file = f, wr_key = key, wr_bytes = n, wr_done = False, wr_inflight = 0\<rparr>"
    "ct_entries ?c2 = ct_entries c01" "?w < ct_next_writer ?c2"
    using F w0 written by (simp_all add: write_settle_def Let_def c1_eq)
  have inv2: "cat_inv ?c2"
    by (rule write_settle_inv [OF inv1]) (use F w0 written n in \<open>simp_all add: c1_eq\<close>)
  have inv3: "cat_inv c'"
    using commit_write_inv [OF inv2 w2(3), of removed closes renames now] w2(1) c3 abort_write_inv [of c3 ?w]
      commit_frame [OF c3(1)] w2(3) by simp
  have c': "ct_entries c' = ct_entries c3" "ct_artifacts c' = ct_artifacts c3"
    by (simp_all add: c3(2) abort_write_def Let_def)
  have "\<exists>a. map_of (ct_entries c3) key = Some a \<and>
    (map_of (ct_entries c) key = None \<longrightarrow> ar_size (artifact_at c3 a) = n)"
  proof (cases "map_of (ct_entries c01) key")
    case (Some a)
    then have "map_of (ct_entries c) key \<noteq> None"
      using keys by (auto simp: map_of_eq_None_iff dest!: map_of_SomeD intro: rev_image_eqI)
    moreover have "ct_entries c3 = ct_entries c01"
      using c3(1) Some by (auto simp: commit_write_def Let_def w2 split: if_splits)
    ultimately show ?thesis using Some by auto
  next
    case None
    then obtain c4 where c4: "c3 = publish ?w now c4" "ct_writers c4 = ct_writers ?c2"
      using c3(1) by (auto simp: commit_write_def Let_def w2 evict_one_def split: if_splits sum.splits option.splits)
    then show ?thesis by (simp add: publish_def Let_def w2 AList.update_conv')
  qed
  then obtain a where a: "map_of (ct_entries c') key = Some a"
    "map_of (ct_entries c) key = None \<longrightarrow> ar_size (artifact_at c' a) = n" by (auto simp: c')
  have "\<not> ar_retired (artifact_at c' a)"
    using cat_invD(1) [OF inv3] a(1) by (auto simp: entries_ok_def dest!: map_of_SomeD)
  with a show ?thesis by (simp add: has_artifact_def open_artifact_def Let_def)
qed

theorem store_then_open_witness:
  "\<exists>a. map_of (ct_entries (snd (store (\<lambda>_. True) (Some ''part-9'') 5 True True 1 ''k/7'' 5 (empty_catalog ''/c'' 10)))) ''k/7'' = Some a"
proof -
  have "store (\<lambda>_. True) (Some ''part-9'') 5 True True 1 ''k/7'' 5 (empty_catalog ''/c'' 10) =
      (None, snd (store (\<lambda>_. True) (Some ''part-9'') 5 True True 1 ''k/7'' 5 (empty_catalog ''/c'' 10)))"
    by (simp add: store_def catalog_eval abort_write_def)
  from store_then_open [OF this empty_catalog_inv] show ?thesis by auto
qed

text \<open>
  ending a conversion forgets exactly its segments: after \<open>dropPrefix\<close> a key is listed if and
  only if it was listed before and does not start with the prefix, and every lease that was open
  stays valid, its artifact still counted until the lease is closed.
\<close>

theorem drop_prefix_forgets_exactly:
  assumes "cat_reachable root budget c" and "0 \<le> budget"
  shows "(has_artifact key (drop_prefix p c) \<longleftrightarrow> has_artifact key c \<and> \<not> has_prefix p key) \<and>
    (\<forall>l < ct_next_lease c. \<not> le_closed (ct_leases c l) \<longrightarrow>
      \<not> le_closed (ct_leases (drop_prefix p c) l) \<and>
      live (drop_prefix p c) (le_entry (ct_leases (drop_prefix p c) l)))"
proof
  from cat_reachable_inv [OF assms] have inv: "cat_inv c" by simp
  note D = cat_invD [OF inv]
  let ?es = "filter (\<lambda>e. has_prefix p (fst e)) (ct_entries c)"
  have entries: "ct_entries (drop_prefix p c) = filter (\<lambda>e. \<not> has_prefix p (fst e)) (ct_entries c)"
    unfolding drop_prefix_def drop_artifacts_frame
    by (rule filter_cong) (auto simp: rev_image_eqI)
  have dk: "distinct_keys (ct_entries c)" using D(1) by (simp add: entries_ok_def)
  have retired: "\<not> ar_retired (artifact_at c a)" if "map_of (ct_entries c) k = Some a" for k a
    using D(1) that by (auto simp: entries_ok_def dest!: map_of_SomeD)
  have inv': "cat_inv (drop_prefix p c)" by (rule drop_prefix_inv [OF inv])
  have retired': "\<not> ar_retired (artifact_at (drop_prefix p c) a)"
    if "map_of (ct_entries (drop_prefix p c)) k = Some a" for k a
    using cat_invD(1) [OF inv'] that by (auto simp: entries_ok_def dest!: map_of_SomeD)
  show "has_artifact key (drop_prefix p c) \<longleftrightarrow> has_artifact key c \<and> \<not> has_prefix p key"
    using retired [of key] retired' [of key]
    by (auto simp: has_artifact_def entries map_of_filter_keys [OF dk] split: option.splits if_splits)
  show "\<forall>l < ct_next_lease c. \<not> le_closed (ct_leases c l) \<longrightarrow>
      \<not> le_closed (ct_leases (drop_prefix p c) l) \<and>
      live (drop_prefix p c) (le_entry (ct_leases (drop_prefix p c) l))"
  proof (intro allI impI)
    fix l assume l: "l < ct_next_lease c" "\<not> le_closed (ct_leases c l)"
    let ?a = "le_entry (ct_leases c l)"
    have "?a < ct_next_artifact c" using D(2) l by (simp add: artifacts_ok_def)
    then have "ar_pins (artifact_at c ?a) = (\<Sum>j < ct_next_lease c. reads c ?a j)"
      using D(2) by (simp add: artifacts_ok_def)
    also have "\<dots> \<ge> reads c ?a l" using l by (intro member_le_sum) (auto simp: reads_def)
    finally have "ar_pins (artifact_at c ?a) > 0" using l by (simp add: reads_def)
    then show "\<not> le_closed (ct_leases (drop_prefix p c) l) \<and>
      live (drop_prefix p c) (le_entry (ct_leases (drop_prefix p c) l))"
      using l by (simp add: drop_prefix_def drop_artifacts_frame live_def)
  qed
qed

theorem drop_prefix_forgets_exactly_witness:
  "has_artifact ''j/0'' (drop_prefix ''k/'' demo_catalog) \<and> \<not> has_artifact ''k/0'' (drop_prefix ''k/'' demo_catalog)"
proof -
  have "has_artifact ''j/0'' demo_catalog"
    by (simp add: has_artifact_def demo_catalog_simps)
  then show ?thesis
    using drop_prefix_forgets_exactly [OF demo_catalog_reachable, of "''j/0''" "''k/''"]
      drop_prefix_forgets_exactly [OF demo_catalog_reachable, of "''k/0''" "''k/''"]
    by (simp add: has_prefix_def)
qed

end
