(* ===== verification/Source_Cache.thy ===== *)
theory Source_Cache
  imports Eviction
begin

text \<open>
  \<open>internal/sourcecache\<close> (\<open>cache.go\<close>, \<open>reader.go\<close>, \<open>capture.go\<close>): the cache of immutable byte
  ranges of a media source. \<open>Open\<close> serves a range from a cached block that covers it, joins a
  fill that covers it, or starts a fill after reserving its bytes; \<open>Capture\<close> offers pages that a
  consumer read anyway. Blocks are evicted in LRU order unless a reader holds them or a
  completed fill has promised them to a waiting \<open>Open\<close>.

  Entries, flights and readers are objects in heaps, a pointer is an index. The map of maps
  \<open>entries[key][span]\<close> is one association list from key and span, and so is \<open>flights\<close>. Each
  operation is one critical section of the mutex; what the file system and the source answer
  is an argument.
\<close>

section \<open>Byte ranges\<close>

definition max_cached_range_bytes :: int where "max_cached_range_bytes = 4194304"
definition capture_page_bytes :: nat where "capture_page_bytes = 65536"
definition capture_queue_pages :: nat where "capture_queue_pages = 16"

record byte_range =
  br_offset :: int
  br_length :: int

text \<open>The \<open>int64\<close> subtractions wrap around.\<close>

definition covers :: "byte_range \<Rightarrow> byte_range \<Rightarrow> bool" where
  "covers r s =
     (br_offset r \<le> br_offset s \<and>
      wrap64 (br_offset s - br_offset r) \<le> wrap64 (br_length r - br_length s))"

section \<open>State\<close>

datatype sc_error = SCClosed | InvalidRange | InvalidKey | CacheIOError | ContextError | SourceError

record sc_entry =
  se_key :: string
  se_span :: byte_range
  se_path :: string
  se_pins :: int

record sc_flight =
  sf_key :: string
  sf_span :: byte_range
  sf_waiters :: int
  sf_finished :: bool
  sf_result :: "nat option"
  sf_err :: "sc_error option"
  sf_capture :: bool
  sf_cancelled :: bool

record sc_reader =
  sr_entry :: nat
  sr_start :: int   \<comment> \<open>offset of the section in the block\<close>
  sr_length :: int
  sr_hit :: bool
  sr_closed :: bool

record source_cache =
  sc_budget :: int
  sc_max_entries :: nat
  sc_closed :: bool
  sc_disabled :: bool
  sc_entries :: "(string \<times> byte_range, nat) gomap"
  sc_flights :: "(string \<times> byte_range, nat) gomap"
  sc_lru :: "nat list"
  sc_used :: int
  sc_reserved :: int
  sc_inflight :: int
  sc_hits :: nat
  sc_misses :: nat
  sc_coalesced :: nat
  sc_bypasses :: nat
  sc_evictions :: nat
  sc_storage_errors :: nat
  sc_captured :: int
  sc_capture_drops :: nat
  sc_capture_stopped :: bool
  sc_entry_heap :: "nat \<Rightarrow> sc_entry"
  sc_next_entry :: nat
  sc_flight_heap :: "nat \<Rightarrow> sc_flight"
  sc_next_flight :: nat
  sc_reader_heap :: "nat \<Rightarrow> sc_reader"
  sc_next_reader :: nat

definition no_range :: byte_range where "no_range = \<lparr>br_offset = 0, br_length = 0\<rparr>"

definition new_source_cache :: "int \<Rightarrow> int \<Rightarrow> source_cache option" where
  "new_source_cache budget max_entries =
     (if budget \<le> 0 \<or> max_entries < 0 \<or> max_entries > 65536 then None
      else Some \<lparr>sc_budget = budget, sc_max_entries = (if max_entries = 0 then 4096 else nat max_entries),
        sc_closed = False, sc_disabled = False, sc_entries = [], sc_flights = [], sc_lru = [],
        sc_used = 0, sc_reserved = 0, sc_inflight = 0, sc_hits = 0, sc_misses = 0, sc_coalesced = 0,
        sc_bypasses = 0, sc_evictions = 0, sc_storage_errors = 0, sc_captured = 0,
        sc_capture_drops = 0, sc_capture_stopped = False,
        sc_entry_heap = (\<lambda>_. \<lparr>se_key = '''', se_span = no_range, se_path = '''', se_pins = 0\<rparr>),
        sc_next_entry = 0,
        sc_flight_heap = (\<lambda>_. \<lparr>sf_key = '''', sf_span = no_range, sf_waiters = 0, sf_finished = False,
          sf_result = None, sf_err = None, sf_capture = False, sf_cancelled = False\<rparr>),
        sc_next_flight = 0,
        sc_reader_heap = (\<lambda>_. \<lparr>sr_entry = 0, sr_start = 0, sr_length = 0, sr_hit = False, sr_closed = False\<rparr>),
        sc_next_reader = 0\<rparr>)"

abbreviation entry_at :: "source_cache \<Rightarrow> nat \<Rightarrow> sc_entry" where
  "entry_at c e \<equiv> sc_entry_heap c e"

abbreviation flight_at :: "source_cache \<Rightarrow> nat \<Rightarrow> sc_flight" where
  "flight_at c f \<equiv> sc_flight_heap c f"

definition set_pins :: "nat \<Rightarrow> int \<Rightarrow> source_cache \<Rightarrow> source_cache" where
  "set_pins e n c = c\<lparr>sc_entry_heap := (sc_entry_heap c)(e := (entry_at c e)\<lparr>se_pins := n\<rparr>)\<rparr>"

definition set_flight :: "nat \<Rightarrow> sc_flight \<Rightarrow> source_cache \<Rightarrow> source_cache" where
  "set_flight f v c = c\<lparr>sc_flight_heap := (sc_flight_heap c)(f := v)\<rparr>"

definition valid_key :: "string \<Rightarrow> bool" where
  "valid_key key =
     (key \<noteq> '''' \<and> length key \<le> 512 \<and>
      \<not> contains_any key [CHR '' '', CHR 0x09, CHR 0x0D, CHR 0x0A, CHR ''/'', CHR ''?'', CHR 0x5C, CHR 0x00] \<and>
      \<not> contains key ''://'')"

section \<open>Reservation and eviction\<close>

definition disable_locked :: "source_cache \<Rightarrow> source_cache" where
  "disable_locked c =
     c\<lparr>sc_disabled := True, sc_storage_errors := sc_storage_errors c + 1, sc_capture_stopped := True\<rparr>"

text \<open>The last unpinned entry of the LRU list.\<close>

definition lru_victim :: "source_cache \<Rightarrow> nat option" where
  "lru_victim c = find (\<lambda>e. se_pins (entry_at c e) = 0) (rev (sc_lru c))"

text \<open>One turn of the loop of \<open>reserveLocked\<close>; \<open>Inl\<close> is the state when it gives up.\<close>

definition evict_lru :: "(string \<Rightarrow> bool) \<Rightarrow> source_cache \<Rightarrow> source_cache + source_cache" where
  "evict_lru removed c =
     (case lru_victim c of
        None \<Rightarrow> Inl c
      | Some e \<Rightarrow>
          (let v = entry_at c e
           in if \<not> removed (se_path v) then Inl (disable_locked c)
              else Inr (c\<lparr>sc_entries := AList.delete (se_key v, se_span v) (sc_entries c),
                          sc_lru := remove1 e (sc_lru c),
                          sc_used := sc_used c - br_length (se_span v),
                          sc_evictions := sc_evictions c + 1\<rparr>)))"

definition reserve_full :: "int \<Rightarrow> source_cache \<Rightarrow> bool" where
  "reserve_full n c =
     (sc_used c + sc_reserved c > sc_budget c - n \<or>
      int (length (sc_lru c)) + sc_inflight c \<ge> int (sc_max_entries c))"

lemma lru_victim_in: "lru_victim c = Some e \<Longrightarrow> e \<in> set (sc_lru c) \<and> se_pins (entry_at c e) = 0"
  unfolding lru_victim_def find_Some_iff by (metis length_rev nth_mem set_rev)

lemma evict_lru_shrinks:
  assumes "evict_lru removed c = Inr c'"
  shows "length (sc_lru c') < length (sc_lru c)"
proof -
  from assms obtain e where e: "lru_victim c = Some e" and c': "sc_lru c' = remove1 e (sc_lru c)"
    by (auto simp: evict_lru_def Let_def split: option.splits if_splits)
  from lru_victim_in [OF e] have "e \<in> set (sc_lru c)" by simp
  then have "0 < length (sc_lru c)" by (rule length_pos_if_in_set)
  with \<open>e \<in> set (sc_lru c)\<close> show ?thesis unfolding c' by (simp add: length_remove1)
qed

function reserve_loop_locked ::
  "(string \<Rightarrow> bool) \<Rightarrow> int \<Rightarrow> source_cache \<Rightarrow> source_cache + source_cache" where
  "reserve_loop_locked removed n c =
     (if reserve_full n c
      then (case evict_lru removed c of Inl c' \<Rightarrow> Inl c' | Inr c' \<Rightarrow> reserve_loop_locked removed n c')
      else Inr c)"
  by pat_completeness auto
termination
  by (relation "measure (\<lambda>(_, _, c). length (sc_lru c))") (auto dest: evict_lru_shrinks)

declare reserve_loop_locked.simps [simp del]

definition reserve_locked :: "(string \<Rightarrow> bool) \<Rightarrow> int \<Rightarrow> source_cache \<Rightarrow> bool \<times> source_cache" where
  "reserve_locked removed n c =
     (case reserve_loop_locked removed n c of
        Inl c \<Rightarrow> (False, c)
      | Inr c \<Rightarrow> (True, c\<lparr>sc_reserved := sc_reserved c + n\<rparr>))"

section \<open>Readers\<close>

text \<open>\<open>readerLocked\<close>; \<open>readable\<close> is whether the block's file opens.\<close>

definition reader_locked ::
  "nat \<Rightarrow> byte_range \<Rightarrow> bool \<Rightarrow> bool \<Rightarrow> bool \<Rightarrow> source_cache \<Rightarrow> nat option \<times> source_cache" where
  "reader_locked e span hit promised readable c =
     (if \<not> readable then (None, if promised then set_pins e (se_pins (entry_at c e) - 1) c else c)
      else (let c = (if promised then c else set_pins e (se_pins (entry_at c e) + 1) c);
                r = sc_next_reader c
            in (Some r, c\<lparr>sc_lru := e # remove1 e (sc_lru c),
                          sc_reader_heap := (sc_reader_heap c)(r :=
                            \<lparr>sr_entry = e, sr_start = br_offset span - br_offset (se_span (entry_at c e)),
                             sr_length = br_length span, sr_hit = hit, sr_closed = False\<rparr>),
                          sc_next_reader := r + 1\<rparr>)))"

definition close_reader :: "nat \<Rightarrow> source_cache \<Rightarrow> source_cache" where
  "close_reader r c =
     (let v = sc_reader_heap c r
      in if sr_closed v then c
         else (set_pins (sr_entry v) (se_pins (entry_at c (sr_entry v)) - 1) c)
                \<lparr>sc_reader_heap := (sc_reader_heap c)(r := v\<lparr>sr_closed := True\<rparr>)\<rparr>)"

section \<open>Opening a range\<close>

datatype open_result =
    OpenFailed sc_error
  | OpenEmpty
  | OpenDirect  \<comment> \<open>the caller streams from the source\<close>
  | OpenReader nat
  | OpenWait nat bool  \<comment> \<open>wait for the flight; joined an existing one?\<close>

definition covering :: "string \<Rightarrow> byte_range \<Rightarrow> (string \<times> byte_range, nat) gomap \<Rightarrow> nat option" where
  "covering key span m =
     map_option snd (find (\<lambda>((k, s), _). k = key \<and> covers s span) m)"

definition start_flight :: "string \<Rightarrow> byte_range \<Rightarrow> int \<Rightarrow> bool \<Rightarrow> source_cache \<Rightarrow> nat \<times> source_cache" where
  "start_flight key span waiters capture c =
     (let f = sc_next_flight c
      in (f, (set_flight f \<lparr>sf_key = key, sf_span = span, sf_waiters = waiters, sf_finished = False,
                            sf_result = None, sf_err = None, sf_capture = capture, sf_cancelled = False\<rparr> c)
               \<lparr>sc_next_flight := f + 1, sc_flights := AList.update (key, span) f (sc_flights c),
                sc_inflight := sc_inflight c + 1\<rparr>))"

text \<open>\<open>Open\<close> of a bounded, valid range: a covering block, a covering flight, or a new flight.\<close>

definition open_cached ::
  "string \<Rightarrow> byte_range \<Rightarrow> bool \<Rightarrow> (string \<Rightarrow> bool) \<Rightarrow> source_cache \<Rightarrow> open_result \<times> source_cache" where
  "open_cached key span readable removed c =
     (case covering key span (sc_entries c) of
        Some e \<Rightarrow>
          (case reader_locked e span True False readable c of
             (Some r, c) \<Rightarrow> (OpenReader r, c\<lparr>sc_hits := sc_hits c + 1\<rparr>)
           | (None, c) \<Rightarrow> (OpenDirect, (disable_locked c)\<lparr>sc_bypasses := sc_bypasses c + 1\<rparr>))
      | None \<Rightarrow>
     (case covering key span (sc_flights c) of
        Some f \<Rightarrow>
          (OpenWait f True,
           (set_flight f ((flight_at c f)\<lparr>sf_waiters := sf_waiters (flight_at c f) + 1\<rparr>) c)
             \<lparr>sc_coalesced := sc_coalesced c + 1\<rparr>)
      | None \<Rightarrow>
     (let c = c\<lparr>sc_misses := sc_misses c + 1\<rparr>
      in case reserve_locked removed (br_length span) c of
           (False, c) \<Rightarrow> (OpenDirect, c\<lparr>sc_bypasses := sc_bypasses c + 1\<rparr>)
         | (True, c) \<Rightarrow>
             (case start_flight key span 1 False c of (f, c) \<Rightarrow> (OpenWait f False, c)))))"

definition open_range ::
  "bool \<Rightarrow> string \<Rightarrow> int \<Rightarrow> int \<Rightarrow> bool \<Rightarrow> bool \<Rightarrow> (string \<Rightarrow> bool) \<Rightarrow> source_cache \<Rightarrow> open_result \<times> source_cache" where
  "open_range cancelled key offset len has_fetch readable removed c =
     (if cancelled then (OpenFailed ContextError, c)
      else if \<not> valid_key key then (OpenFailed InvalidKey, c)
      else if \<not> has_fetch \<or> offset < 0 \<or> len < - 1 \<or> len > 0 \<and> offset > max_int64 - len
      then (OpenFailed InvalidRange, c)
      else if sc_closed c then (OpenFailed SCClosed, c)
      else if len = 0 then (OpenEmpty, c)
      else if len = - 1 \<or> len > max_cached_range_bytes \<or> len > sc_budget c \<or> sc_disabled c
      then (OpenDirect, c\<lparr>sc_bypasses := sc_bypasses c + 1\<rparr>)
      else open_cached key \<lparr>br_offset = offset, br_length = len\<rparr> readable removed c)"

definition detach_locked :: "nat \<Rightarrow> source_cache \<Rightarrow> source_cache" where
  "detach_locked f c =
     (let v = flight_at c f
      in if map_of (sc_flights c) (sf_key v, sf_span v) = Some f
         then c\<lparr>sc_flights := AList.delete (sf_key v, sf_span v) (sc_flights c)\<rparr> else c)"

text \<open>
  The second half of \<open>wait\<close>, after its \<open>select\<close>: the caller's context is done, the cache is
  closed, or the flight is. Returns the reader, the error, or that the caller goes direct.
\<close>

definition wait_done ::
  "bool \<Rightarrow> nat \<Rightarrow> byte_range \<Rightarrow> bool \<Rightarrow> bool \<Rightarrow> source_cache \<Rightarrow> open_result \<times> source_cache" where
  "wait_done cancelled f span hit readable c =
     (let c = set_flight f ((flight_at c f)\<lparr>sf_waiters := sf_waiters (flight_at c f) - 1\<rparr>) c;
          v = flight_at c f
      in if cancelled \<or> sc_closed c
         then (OpenFailed (if cancelled then ContextError else SCClosed),
               if sf_finished v \<and> sf_result v \<noteq> None
               then set_pins (the (sf_result v)) (se_pins (entry_at c (the (sf_result v))) - 1) c
               else if \<not> sf_finished v \<and> sf_waiters v = 0 \<and> \<not> sf_capture v
               then set_flight f (v\<lparr>sf_cancelled := True\<rparr>) (detach_locked f c)
               else c)
         else (case sf_err v of
                 Some e \<Rightarrow>
                   (if e = CacheIOError then (OpenDirect, c\<lparr>sc_bypasses := sc_bypasses c + 1\<rparr>)
                    else (OpenFailed e, c))
               | None \<Rightarrow>
         (case sf_result v of
            None \<Rightarrow> (OpenDirect, c)  \<comment> \<open>not reached: a finished flight has a result or an error\<close>
          | Some e \<Rightarrow>
              (case reader_locked e span hit True readable c of
                 (Some r, c) \<Rightarrow> (OpenReader r, c)
               | (None, c) \<Rightarrow> (OpenDirect, (disable_locked c)\<lparr>sc_bypasses := sc_bypasses c + 1\<rparr>)))))"

text \<open>
  \<open>finish\<close>: \<open>path\<close> is the block that was written, if any; \<open>err\<close> the failure of the fill.
\<close>

definition finish_flight ::
  "nat \<Rightarrow> string \<Rightarrow> sc_error option \<Rightarrow> (string \<Rightarrow> bool) \<Rightarrow> source_cache \<Rightarrow> source_cache" where
  "finish_flight f path err removed c =
     (let c = detach_locked f c;
          c = c\<lparr>sc_inflight := sc_inflight c - 1\<rparr>;
          v = flight_at c f;
          err = (if err = None \<and> (sc_closed c \<or> sf_waiters v = 0 \<and> \<not> sf_capture v)
                 then Some ContextError else err)
      in case err of
           Some e \<Rightarrow>
             (let gone = (path = '''' \<or> removed path);
                  c = (if gone then c\<lparr>sc_reserved := sc_reserved c - br_length (sf_span v)\<rparr> else c);
                  c = (if \<not> gone \<or> e = CacheIOError then disable_locked c else c)
              in set_flight f (v\<lparr>sf_err := Some e, sf_finished := True\<rparr>) c)
         | None \<Rightarrow>
             (let i = sc_next_entry c;
                  c = c\<lparr>sc_reserved := sc_reserved c - br_length (sf_span v),
                        sc_used := sc_used c + br_length (sf_span v),
                        sc_captured := sc_captured c + (if sf_capture v then br_length (sf_span v) else 0),
                        sc_entry_heap := (sc_entry_heap c)(i :=
                          \<lparr>se_key = sf_key v, se_span = sf_span v, se_path = path, se_pins = sf_waiters v\<rparr>),
                        sc_next_entry := i + 1, sc_lru := i # sc_lru c,
                        sc_entries := AList.update (sf_key v, sf_span v) i (sc_entries c)\<rparr>
              in set_flight f (v\<lparr>sf_result := Some i, sf_finished := True\<rparr>) c))"

section \<open>Capture\<close>

text \<open>\<open>offer\<close>, up to the write of the page: the flight it starts, if any.\<close>

definition offer_page ::
  "string \<Rightarrow> byte_range \<Rightarrow> (string \<Rightarrow> bool) \<Rightarrow> source_cache \<Rightarrow> nat option \<times> source_cache" where
  "offer_page key span removed c =
     (if sc_closed c \<or> sc_disabled c \<or> br_length span > sc_budget c
      then (None, c\<lparr>sc_capture_drops := sc_capture_drops c + 1\<rparr>)
      else if covering key span (sc_entries c) \<noteq> None then (None, c)
      else if covering key span (sc_flights c) \<noteq> None then (None, c)
      else (case reserve_locked removed (br_length span) c of
              (False, c) \<Rightarrow> (None, c\<lparr>sc_capture_drops := sc_capture_drops c + 1\<rparr>)
            | (True, c) \<Rightarrow> map_prod Some id (start_flight key span 0 True c)))"

definition close_cache :: "source_cache \<Rightarrow> source_cache" where
  "close_cache c =
     fold close_reader [0 ..< sc_next_reader c] (c\<lparr>sc_capture_stopped := True, sc_closed := True\<rparr>)"

record sc_snapshot =
  ss_budget :: int
  ss_max_entries :: nat
  ss_cached :: int
  ss_reserved :: int
  ss_entries :: nat
  ss_inflight :: int
  ss_pinned_entries :: nat
  ss_pinned_bytes :: int
  ss_hits :: nat
  ss_misses :: nat
  ss_coalesced :: nat
  ss_bypasses :: nat
  ss_evictions :: nat
  ss_storage_errors :: nat
  ss_disabled :: bool

definition cache_snapshot :: "source_cache \<Rightarrow> sc_snapshot" where
  "cache_snapshot c =
     (let pinned = filter (\<lambda>e. se_pins (entry_at c e) > 0) (sc_lru c)
      in \<lparr>ss_budget = sc_budget c, ss_max_entries = sc_max_entries c, ss_cached = sc_used c,
          ss_reserved = sc_reserved c, ss_entries = length (sc_lru c), ss_inflight = sc_inflight c,
          ss_pinned_entries = length pinned,
          ss_pinned_bytes = (\<Sum>e\<leftarrow>pinned. br_length (se_span (entry_at c e))),
          ss_hits = sc_hits c, ss_misses = sc_misses c, ss_coalesced = sc_coalesced c,
          ss_bypasses = sc_bypasses c, ss_evictions = sc_evictions c,
          ss_storage_errors = sc_storage_errors c, ss_disabled = sc_disabled c\<rparr>)"

section \<open>Filling a block\<close>

text \<open>
  The copy loop of \<open>writeRange\<close>: each read of the source returns some bytes and maybe an error
  (\<open>EOF\<close> or another). The buffer has 32 KiB. \<open>None\<close> is waiting for the source.
\<close>

datatype read_error = EOF | ReadFailed
datatype fill_error = FillCacheIO | UnexpectedEOF | FillRead | NoProgress

record source_read =
  rd_bytes :: "8 word list"
  rd_error :: "read_error option"
  rd_written :: bool  \<comment> \<open>the file takes the bytes\<close>

fun copy_range :: "nat \<Rightarrow> 8 word list \<Rightarrow> source_read list \<Rightarrow> (fill_error option \<times> 8 word list) option" where
  "copy_range 0 out reads = Some (None, out)"
| "copy_range remaining out [] = None"
| "copy_range remaining out (r # reads) =
     (let data = take (min 32768 remaining) (rd_bytes r);
          n = length data
      in if n > 0 \<and> \<not> rd_written r then Some (Some FillCacheIO, out)
         else (let out = out @ data; left = remaining - n
               in if rd_error r \<noteq> None \<and> \<not> (left = 0 \<and> rd_error r = Some EOF)
                  then Some (Some (if rd_error r = Some EOF then UnexpectedEOF else FillRead), out)
                  else if n = 0 \<and> rd_error r = None then Some (Some NoProgress, out)
                  else copy_range left out reads))"

section \<open>Capturing what a consumer reads\<close>

record capture_reader =
  cr_offset :: int
  cr_buffer :: "8 word list"

text \<open>
  \<open>flush\<close>: the page is handed to the writer when its range is representable and the queue takes
  it; the offset moves on either way. Returns the page that was queued.
\<close>

definition flush_page :: "bool \<Rightarrow> capture_reader \<Rightarrow> (int \<times> 8 word list) option \<times> capture_reader" where
  "flush_page accepted r =
     (let n = int (length (cr_buffer r))
      in if cr_buffer r = [] then (None, r)
         else if cr_offset r \<ge> 0 \<and> cr_offset r \<le> max_int64 - n
         then (if accepted then Some (cr_offset r, cr_buffer r) else None,
               r\<lparr>cr_offset := cr_offset r + n, cr_buffer := []\<rparr>)
         else (None, r\<lparr>cr_offset := - 1, cr_buffer := []\<rparr>))"

text \<open>
  The loop of \<open>Read\<close> over the bytes one read returned; \<open>decisions\<close> says of each flush whether
  the queue takes the page (an exhausted list refuses).
\<close>

function capture_bytes ::
  "bool list \<Rightarrow> 8 word list \<Rightarrow> capture_reader \<Rightarrow> (int \<times> 8 word list) list \<times> capture_reader" where
  "capture_bytes decisions remaining r =
     (if remaining = [] \<or> length (cr_buffer r) \<ge> capture_page_bytes then ([], r)
      else (let n = min (capture_page_bytes - length (cr_buffer r)) (length remaining);
                r = r\<lparr>cr_buffer := cr_buffer r @ take n remaining\<rparr>;
                remaining = drop n remaining
            in if length (cr_buffer r) = capture_page_bytes
               then (case flush_page (decisions \<noteq> [] \<and> hd decisions) r of
                       (page, r) \<Rightarrow>
                         (case capture_bytes (tl decisions) remaining r of
                            (pages, r) \<Rightarrow> (case page of None \<Rightarrow> pages | Some p \<Rightarrow> p # pages, r)))
               else capture_bytes decisions remaining r))"
  by pat_completeness auto
termination
  by (relation "measure (\<lambda>(_, remaining, _). length remaining)") (auto simp: capture_page_bytes_def)

declare capture_bytes.simps [simp del]

end
