(* ===== verification/Source_Cache_Safety.thy ===== *)
theory Source_Cache_Safety
  imports Source_Cache
begin

text \<open>
  Safety of the source range cache: the invariant of its states, its preservation by every
  critical section, and the properties of every reachable state.
\<close>

section \<open>Ranges\<close>

definition range_ok :: "byte_range \<Rightarrow> bool" where
  "range_ok s \<longleftrightarrow> 0 \<le> br_offset s \<and> 0 < br_length s \<and> br_offset s + br_length s \<le> max_int64"

lemma covers_iff:
  assumes "range_ok r" and "range_ok s"
  shows "covers r s \<longleftrightarrow>
    br_offset r \<le> br_offset s \<and> br_offset s + br_length s \<le> br_offset r + br_length r"
proof -
  have "wrap64 (br_length r - br_length s) = br_length r - br_length s"
    using assms by (intro wrap64_id) (auto simp: range_ok_def in_int64_def)
  moreover have "br_offset r \<le> br_offset s \<Longrightarrow> wrap64 (br_offset s - br_offset r) = br_offset s - br_offset r"
    using assms by (intro wrap64_id) (auto simp: range_ok_def in_int64_def)
  ultimately show ?thesis by (auto simp: covers_def)
qed

lemma covers_refl: "range_ok s \<Longrightarrow> covers s s"
  by (simp add: covers_iff)

section \<open>The invariant\<close>

definition promised :: "source_cache \<Rightarrow> nat \<Rightarrow> nat \<Rightarrow> int" where
  "promised c e f =
     (if sf_finished (flight_at c f) \<and> sf_result (flight_at c f) = Some e then sf_waiters (flight_at c f) else 0)"

definition reading :: "source_cache \<Rightarrow> nat \<Rightarrow> nat \<Rightarrow> int" where
  "reading c e r = (if \<not> sr_closed (sc_reader_heap c r) \<and> sr_entry (sc_reader_heap c r) = e then 1 else 0)"

definition pending_bytes :: "source_cache \<Rightarrow> nat \<Rightarrow> int" where
  "pending_bytes c f = (if sf_finished (flight_at c f) then 0 else br_length (sf_span (flight_at c f)))"

definition pending_count :: "source_cache \<Rightarrow> nat \<Rightarrow> int" where
  "pending_count c f = (if sf_finished (flight_at c f) then 0 else 1)"

definition entry_size :: "source_cache \<Rightarrow> nat \<Rightarrow> int" where
  "entry_size c e = br_length (se_span (entry_at c e))"

definition store_ok :: "source_cache \<Rightarrow> bool" where
  "store_ok c \<longleftrightarrow>
     distinct (sc_lru c) \<and> distinct_keys (sc_entries c) \<and>
     (\<forall>e \<in> set (sc_lru c). e < sc_next_entry c \<and> range_ok (se_span (entry_at c e))) \<and>
     (\<forall>k e. map_of (sc_entries c) k = Some e \<longleftrightarrow>
        e \<in> set (sc_lru c) \<and> k = (se_key (entry_at c e), se_span (entry_at c e))) \<and>
     sc_used c = (\<Sum>e \<in> set (sc_lru c). entry_size c e)"

definition flight_listed :: "source_cache \<Rightarrow> string \<times> byte_range \<Rightarrow> nat \<Rightarrow> bool" where
  "flight_listed c k f \<longleftrightarrow>
     f < sc_next_flight c \<and> \<not> sf_finished (flight_at c f) \<and>
     k = (sf_key (flight_at c f), sf_span (flight_at c f)) \<and> map_of (sc_entries c) k = None"

definition flight_ok :: "source_cache \<Rightarrow> nat \<Rightarrow> sc_flight \<Rightarrow> bool" where
  "flight_ok c f v \<longleftrightarrow>
     range_ok (sf_span v) \<and> 0 \<le> sf_waiters v \<and>
     (\<not> sf_finished v \<and> (0 < sf_waiters v \<or> sf_capture v) \<longrightarrow>
        map_of (sc_flights c) (sf_key v, sf_span v) = Some f) \<and>
     (\<not> sf_finished v \<longrightarrow> sf_result v = None \<and> sf_err v = None) \<and>
     (sf_finished v \<longrightarrow> (sf_result v = None \<longleftrightarrow> sf_err v \<noteq> None)) \<and>
     (\<forall>e. sf_result v = Some e \<longrightarrow>
        e < sc_next_entry c \<and> se_span (entry_at c e) = sf_span v \<and> se_key (entry_at c e) = sf_key v)"

definition flights_ok :: "source_cache \<Rightarrow> bool" where
  "flights_ok c \<longleftrightarrow>
     distinct_keys (sc_flights c) \<and>
     (\<forall>k f. map_of (sc_flights c) k = Some f \<longrightarrow> flight_listed c k f) \<and>
     (\<forall>f < sc_next_flight c. flight_ok c f (flight_at c f))"

lemma flights_okI:
  assumes "distinct_keys (sc_flights c)"
    and "\<And>k f. map_of (sc_flights c) k = Some f \<Longrightarrow> flight_listed c k f"
    and "\<And>f. f < sc_next_flight c \<Longrightarrow> flight_ok c f (flight_at c f)"
  shows "flights_ok c"
  using assms unfolding flights_ok_def by blast

lemma flights_okD:
  assumes "flights_ok c"
  shows "distinct_keys (sc_flights c)"
    and "map_of (sc_flights c) k = Some f \<Longrightarrow> flight_listed c k f"
    and "f < sc_next_flight c \<Longrightarrow> flight_ok c f (flight_at c f)"
  using assms unfolding flights_ok_def by blast+

definition pins_ok :: "source_cache \<Rightarrow> bool" where
  "pins_ok c \<longleftrightarrow>
     (\<forall>e < sc_next_entry c.
        se_pins (entry_at c e) =
          (\<Sum>f < sc_next_flight c. promised c e f) + (\<Sum>r < sc_next_reader c. reading c e r) \<and>
        (0 < se_pins (entry_at c e) \<longrightarrow> e \<in> set (sc_lru c)))"

definition readers_ok :: "source_cache \<Rightarrow> bool" where
  "readers_ok c \<longleftrightarrow>
     (\<forall>r < sc_next_reader c. sr_entry (sc_reader_heap c r) < sc_next_entry c \<and>
        0 \<le> sr_start (sc_reader_heap c r) \<and> 0 < sr_length (sc_reader_heap c r) \<and>
        sr_start (sc_reader_heap c r) + sr_length (sc_reader_heap c r)
          \<le> br_length (se_span (entry_at c (sr_entry (sc_reader_heap c r)))))"

definition budget_ok :: "source_cache \<Rightarrow> bool" where
  "budget_ok c \<longleftrightarrow>
     (\<Sum>f < sc_next_flight c. pending_bytes c f) \<le> sc_reserved c \<and>
     sc_inflight c = (\<Sum>f < sc_next_flight c. pending_count c f) \<and>
     sc_used c + sc_reserved c \<le> sc_budget c \<and>
     int (length (sc_lru c)) + sc_inflight c \<le> int (sc_max_entries c)"

definition sc_inv :: "source_cache \<Rightarrow> bool" where
  "sc_inv c \<longleftrightarrow> store_ok c \<and> flights_ok c \<and> pins_ok c \<and> readers_ok c \<and> budget_ok c"

lemma sc_invD:
  assumes "sc_inv c"
  shows "store_ok c" "flights_ok c" "pins_ok c" "readers_ok c" "budget_ok c"
  using assms by (simp_all add: sc_inv_def)

lemma new_source_cache_inv:
  "new_source_cache budget n = Some c \<Longrightarrow> sc_inv c \<and> sc_budget c = budget"
  by (auto simp: new_source_cache_def sc_inv_def store_ok_def flights_ok_def pins_ok_def readers_ok_def
      budget_ok_def split: if_splits)

text \<open>The counters and flags do not matter.\<close>

lemma sc_inv_same:
  assumes "sc_inv c" and "sc_entry_heap c' = sc_entry_heap c" "sc_next_entry c' = sc_next_entry c"
    "sc_flight_heap c' = sc_flight_heap c" "sc_next_flight c' = sc_next_flight c"
    "sc_reader_heap c' = sc_reader_heap c" "sc_next_reader c' = sc_next_reader c"
    "sc_entries c' = sc_entries c" "sc_flights c' = sc_flights c" "sc_lru c' = sc_lru c"
    "sc_used c' = sc_used c" "sc_reserved c' = sc_reserved c" "sc_inflight c' = sc_inflight c"
    "sc_budget c' = sc_budget c" "sc_max_entries c' = sc_max_entries c"
  shows "sc_inv c'"
proof -
  have funs: "promised c' = promised c" "reading c' = reading c" "pending_bytes c' = pending_bytes c"
    "pending_count c' = pending_count c" "entry_size c' = entry_size c"
    by (simp_all add: promised_def reading_def pending_bytes_def pending_count_def entry_size_def
        fun_eq_iff assms(2-))
  from assms(1) show ?thesis
    unfolding sc_inv_def store_ok_def flights_ok_def flight_listed_def flight_ok_def pins_ok_def readers_ok_def budget_ok_def
      funs assms(2-) .
qed

lemma sc_inv_counters [simp]:
  "sc_inv c \<Longrightarrow> sc_inv (c\<lparr>sc_bypasses := n\<rparr>)" "sc_inv c \<Longrightarrow> sc_inv (c\<lparr>sc_hits := n\<rparr>)"
  "sc_inv c \<Longrightarrow> sc_inv (c\<lparr>sc_coalesced := n\<rparr>)" "sc_inv c \<Longrightarrow> sc_inv (c\<lparr>sc_misses := n\<rparr>)"
  "sc_inv c \<Longrightarrow> sc_inv (c\<lparr>sc_capture_drops := n\<rparr>)" "sc_inv c \<Longrightarrow> sc_inv (disable_locked c)"
  "sc_inv c \<Longrightarrow> sc_inv (c\<lparr>sc_capture_stopped := b1, sc_closed := b2\<rparr>)"
  by (erule sc_inv_same; simp add: disable_locked_def)+

subsection \<open>Eviction\<close>

lemma evict_lru_inv:
  assumes inv: "sc_inv c" and e: "evict_lru removed c = Inr c'"
  shows "sc_inv c'"
proof -
  note D = sc_invD [OF inv]
  from e obtain v where v: "lru_victim c = Some v" and c': "c' = c\<lparr>
      sc_entries := AList.delete (se_key (entry_at c v), se_span (entry_at c v)) (sc_entries c),
      sc_lru := remove1 v (sc_lru c), sc_used := sc_used c - br_length (se_span (entry_at c v)),
      sc_evictions := sc_evictions c + 1\<rparr>"
    by (auto simp: evict_lru_def Let_def split: option.splits if_splits)
  from lru_victim_in [OF v] have vin: "v \<in> set (sc_lru c)" and pins: "se_pins (entry_at c v) = 0" by simp_all
  have d: "distinct (sc_lru c)" using D(1) by (simp add: store_ok_def)
  have same: "sc_entry_heap c' = sc_entry_heap c" "sc_next_entry c' = sc_next_entry c"
    "sc_flight_heap c' = sc_flight_heap c" "sc_next_flight c' = sc_next_flight c"
    "sc_reader_heap c' = sc_reader_heap c" "sc_next_reader c' = sc_next_reader c"
    "sc_flights c' = sc_flights c" "sc_reserved c' = sc_reserved c" "sc_inflight c' = sc_inflight c"
    "sc_budget c' = sc_budget c" "sc_max_entries c' = sc_max_entries c"
    and lru: "sc_lru c' = remove1 v (sc_lru c)" "set (sc_lru c') = set (sc_lru c) - {v}"
    and used: "sc_used c' = sc_used c - entry_size c v"
    and entries: "sc_entries c' = AList.delete (se_key (entry_at c v), se_span (entry_at c v)) (sc_entries c)"
    using d by (simp_all add: c' entry_size_def)
  have funs: "promised c' = promised c" "reading c' = reading c" "pending_bytes c' = pending_bytes c"
    "pending_count c' = pending_count c" "entry_size c' = entry_size c"
    by (simp_all add: promised_def reading_def pending_bytes_def pending_count_def entry_size_def
        fun_eq_iff same)
  have look: "map_of (sc_entries c') k = (if k = (se_key (entry_at c v), se_span (entry_at c v)) then None
      else map_of (sc_entries c) k)" for k
    by (simp add: entries AList.delete_conv')
  have sum: "(\<Sum>e \<in> set (sc_lru c'). entry_size c e) = sc_used c - entry_size c v"
    using D(1) vin unfolding lru by (simp add: store_ok_def sum_diff1)
  have keys: "\<And>k e. map_of (sc_entries c) k = Some e \<longleftrightarrow>
      e \<in> set (sc_lru c) \<and> k = (se_key (entry_at c e), se_span (entry_at c e))"
    using D(1) unfolding store_ok_def by blast
  have "map_of (sc_entries c') k = Some e \<longleftrightarrow>
      e \<in> set (sc_lru c) - {v} \<and> k = (se_key (entry_at c e), se_span (entry_at c e))" for k e
    unfolding look using keys [of k e] keys [of k v] vin
    by (metis Diff_iff insert_iff empty_iff option.distinct(1) option.inject)
  then have "\<forall>k e. map_of (sc_entries c') k = Some e \<longleftrightarrow>
      e \<in> set (sc_lru c') \<and> k = (se_key (entry_at c e), se_span (entry_at c e))"
    unfolding lru(2) by blast
  moreover have "distinct_keys (sc_entries c')" using D(1) by (simp add: entries store_ok_def)
  moreover have "distinct (sc_lru c')" using d by (simp add: lru(1))
  moreover have "\<forall>e \<in> set (sc_lru c'). e < sc_next_entry c \<and> range_ok (se_span (entry_at c e))"
    using D(1) unfolding store_ok_def lru(2) by blast
  ultimately have "store_ok c'"
    unfolding store_ok_def same funs used sum by blast
  moreover have "flights_ok c'"
  proof (rule flights_okI)
    show "distinct_keys (sc_flights c')" using flights_okD(1) [OF D(2)] by (simp add: same)
    show "flight_listed c' k f" if "map_of (sc_flights c') k = Some f" for k f
      using flights_okD(2) [OF D(2), of k f] that by (auto simp: flight_listed_def same look)
    show "flight_ok c' f (flight_at c' f)" if "f < sc_next_flight c'" for f
      using flights_okD(3) [OF D(2), of f] that by (simp add: flight_ok_def same)
  qed
  moreover have "pins_ok c'" using D(3) pins unfolding pins_ok_def same funs lru(2) by auto
  moreover have "readers_ok c'" using D(4) unfolding readers_ok_def same .
  moreover have "budget_ok c'"
  proof -
    have "0 < entry_size c v" using D(1) vin by (auto simp: store_ok_def range_ok_def entry_size_def)
    moreover have "length (sc_lru c') \<le> length (sc_lru c)" unfolding lru(1) by (simp add: length_remove1)
    ultimately show ?thesis using D(5) unfolding budget_ok_def same funs used by linarith
  qed
  ultimately show ?thesis by (simp add: sc_inv_def)
qed

text \<open>The blocks that somebody reads or was promised.\<close>

definition pinned_entries :: "source_cache \<Rightarrow> nat set" where
  "pinned_entries c = {e \<in> set (sc_lru c). se_pins (entry_at c e) > 0}"

interpretation source_eviction: safe_eviction
  "reserve_full n" "evict_lru removed" "reserve_loop_locked removed n" "\<lambda>c. length (sc_lru c)"
  sc_inv sc_inv pinned_entries pinned_entries
  for n removed
proof
  show "reserve_loop_locked removed n c =
      (if reserve_full n c then (case evict_lru removed c of Inl f \<Rightarrow> Inl f | Inr s' \<Rightarrow> reserve_loop_locked removed n s')
       else Inr c)" for c
    by (simp add: reserve_loop_locked.simps [of removed n c])
next
  fix c c' assume inv: "sc_inv c" and e: "evict_lru removed c = Inr c'"
  show "length (sc_lru c') < length (sc_lru c)" by (rule evict_lru_shrinks [OF e])
  show "sc_inv c'" by (rule evict_lru_inv [OF inv e])
  from e obtain v where v: "lru_victim c = Some v" and lru: "sc_lru c' = remove1 v (sc_lru c)"
    "sc_entry_heap c' = sc_entry_heap c"
    by (auto simp: evict_lru_def Let_def split: option.splits if_splits)
  from lru_victim_in [OF v] show "pinned_entries c \<subseteq> pinned_entries c'"
    by (auto simp: pinned_entries_def lru) (metis in_set_remove1 less_irrefl)
next
  fix c f assume inv: "sc_inv c" and e: "evict_lru removed c = Inl f"
  then have f: "f = c \<or> f = disable_locked c"
    by (auto simp: evict_lru_def Let_def split: option.splits if_splits)
  with inv show "sc_inv f" by auto
  from f show "pinned_entries c \<subseteq> pinned_entries f" by (auto simp: pinned_entries_def disable_locked_def)
qed

lemma evict_lru_frame:
  assumes "evict_lru removed c = Inr c'"
  shows "sc_flights c' = sc_flights c" "sc_flight_heap c' = sc_flight_heap c"
    "sc_next_flight c' = sc_next_flight c" "sc_entry_heap c' = sc_entry_heap c"
    "sc_reserved c' = sc_reserved c" "sc_inflight c' = sc_inflight c" "sc_budget c' = sc_budget c"
    "sc_max_entries c' = sc_max_entries c" "set (sc_entries c') \<subseteq> set (sc_entries c)"
  using assms by (auto simp: evict_lru_def Let_def dest!: in_set_deleteD split: option.splits if_splits)

lemma reserve_loop_locked_frame:
  "reserve_loop_locked removed n c = Inr c' \<Longrightarrow>
     sc_flights c' = sc_flights c \<and> sc_flight_heap c' = sc_flight_heap c \<and>
     sc_next_flight c' = sc_next_flight c \<and> sc_entry_heap c' = sc_entry_heap c \<and>
     sc_reserved c' = sc_reserved c \<and> sc_inflight c' = sc_inflight c \<and> sc_budget c' = sc_budget c \<and>
     sc_max_entries c' = sc_max_entries c \<and> set (sc_entries c') \<subseteq> set (sc_entries c)"
proof (induction removed n c rule: reserve_loop_locked.induct)
  case (1 removed n c)
  show ?case
  proof (cases "reserve_full n c")
    case False
    with "1.prems" show ?thesis by (simp add: reserve_loop_locked.simps [of removed n c])
  next
    case True
    with "1.prems" obtain b where b: "evict_lru removed c = Inr b" "reserve_loop_locked removed n b = Inr c'"
      by (auto simp: reserve_loop_locked.simps [of removed n c] split: sum.splits)
    from "1.IH" [OF True b] evict_lru_frame [OF b(1)] show ?thesis by auto
  qed
qed

subsection \<open>Starting and joining flights\<close>

lemma covering_None:
  assumes "covering key span m = None" and "range_ok span"
  shows "map_of m (key, span) = None"
proof (rule ccontr)
  assume "map_of m (key, span) \<noteq> None"
  then obtain e where "((key, span), e) \<in> set m" by (auto dest: map_of_SomeD)
  with assms covers_refl show False by (auto simp: covering_def find_None_iff)
qed

lemma covering_Some:
  assumes "covering key span m = Some e" and "distinct_keys m"
  obtains s where "map_of m (key, s) = Some e" "covers s span"
proof -
  from assms(1) obtain s where "((key, s), e) \<in> set m" "covers s span"
    by (auto simp: covering_def find_Some_iff) (metis nth_mem)
  then show ?thesis using that in_set_map_of [OF assms(2)] by blast
qed

lemma start_flight_inv:
  assumes inv: "sc_inv c" and span: "range_ok span" and w: "0 \<le> w"
    and new: "map_of (sc_entries c) (key, span) = None" "map_of (sc_flights c) (key, span) = None"
    and reserve: "reserve_locked removed (br_length span) c = (True, c1)"
  shows "sc_inv (snd (start_flight key span w cap c1))"
proof -
  from reserve obtain c0 where loop: "reserve_loop_locked removed (br_length span) c = Inr c0"
    and c1: "c1 = c0\<lparr>sc_reserved := sc_reserved c0 + br_length span\<rparr>"
    by (auto simp: reserve_locked_def split: sum.splits)
  have inv0: "sc_inv c0" by (rule source_eviction.loop_inv [OF inv loop])
  note D = sc_invD [OF inv0] and F = reserve_loop_locked_frame [OF loop]
  have room: "\<not> reserve_full (br_length span) c0" by (rule source_eviction.loop_room [OF inv loop])
  have new0: "map_of (sc_entries c0) (key, span) = None" "map_of (sc_flights c0) (key, span) = None"
    using new F by (auto simp: map_of_eq_None_iff)
  define c2 where "c2 = snd (start_flight key span w cap c1)"
  let ?f = "sc_next_flight c0"
  let ?v = "\<lparr>sf_key = key, sf_span = span, sf_waiters = w, sf_finished = False, sf_result = None,
    sf_err = None, sf_capture = cap, sf_cancelled = False\<rparr>"
  have same: "sc_entry_heap c2 = sc_entry_heap c0" "sc_next_entry c2 = sc_next_entry c0"
    "sc_reader_heap c2 = sc_reader_heap c0" "sc_next_reader c2 = sc_next_reader c0"
    "sc_entries c2 = sc_entries c0" "sc_lru c2 = sc_lru c0" "sc_used c2 = sc_used c0"
    "sc_budget c2 = sc_budget c0" "sc_max_entries c2 = sc_max_entries c0"
    and c2: "sc_flight_heap c2 = (sc_flight_heap c0)(?f := ?v)" "sc_next_flight c2 = ?f + 1"
      "sc_flights c2 = AList.update (key, span) ?f (sc_flights c0)" "sc_inflight c2 = sc_inflight c0 + 1"
      "sc_reserved c2 = sc_reserved c0 + br_length span"
    by (simp_all add: c2_def start_flight_def set_flight_def Let_def c1)
  have old: "promised c2 e f = promised c0 e f" "pending_bytes c2 f = pending_bytes c0 f"
    "pending_count c2 f = pending_count c0 f" if "f < ?f" for e f
    using that by (simp_all add: promised_def pending_bytes_def pending_count_def c2)
  have funs: "reading c2 = reading c0" "entry_size c2 = entry_size c0"
    by (simp_all add: reading_def entry_size_def fun_eq_iff same)
  have at: "promised c2 e ?f = 0" "pending_bytes c2 ?f = br_length span" "pending_count c2 ?f = 1" for e
    by (simp_all add: promised_def pending_bytes_def pending_count_def c2)
  have "store_ok c2" using D(1) unfolding store_ok_def same funs .
  moreover have "pins_ok c2"
    using D(3) unfolding pins_ok_def same funs c2(2) by (simp add: old at)
  moreover have "readers_ok c2" using D(4) unfolding readers_ok_def same .
  moreover have "budget_ok c2"
    using D(5) room unfolding budget_ok_def same c2(2,4,5) reserve_full_def by (simp add: old at)
  moreover have "flights_ok c2"
  proof (rule flights_okI)
    show "distinct_keys (sc_flights c2)" using flights_okD(1) [OF D(2)] by (simp add: c2)
    have look: "map_of (sc_flights c2) k = (if k = (key, span) then Some ?f else map_of (sc_flights c0) k)" for k
      unfolding c2(3) by (simp add: AList.update_conv')
    fix k f assume "map_of (sc_flights c2) k = Some f"
    then consider "k = (key, span)" "f = ?f" | "map_of (sc_flights c0) k = Some f"
      unfolding look by (metis option.inject)
    then show "flight_listed c2 k f"
    proof cases
      case 1
      with new0 show ?thesis by (simp add: flight_listed_def c2 same)
    next
      case 2
      from flights_okD(2) [OF D(2) 2] show ?thesis by (auto simp: flight_listed_def c2 same)
    qed
  next
    fix f assume "f < sc_next_flight c2"
    then consider "f = ?f" | "f < ?f" by (auto simp: c2(2) less_Suc_eq)
    then show "flight_ok c2 f (flight_at c2 f)"
    proof cases
      case 1
      with span w show ?thesis by (simp add: flight_ok_def c2 AList.update_conv')
    next
      case 2
      have "(sf_key (flight_at c0 f), sf_span (flight_at c0 f)) \<noteq> (key, span)"
        if "map_of (sc_flights c0) (sf_key (flight_at c0 f), sf_span (flight_at c0 f)) = Some f"
        using that new0(2) by auto
      with flights_okD(3) [OF D(2) 2] 2 show ?thesis
        by (auto simp: flight_ok_def c2 same AList.update_conv')
    qed
  qed
  ultimately show ?thesis by (simp add: sc_inv_def c2_def [symmetric])
qed

text \<open>Joining a flight of the map.\<close>

lemma join_flight_inv:
  assumes inv: "sc_inv c" and f: "map_of (sc_flights c) k = Some f"
  shows "sc_inv (set_flight f ((flight_at c f)\<lparr>sf_waiters := sf_waiters (flight_at c f) + 1\<rparr>) c)" (is "sc_inv ?c")
proof -
  note D = sc_invD [OF inv]
  have fl: "\<not> sf_finished (flight_at c f)" "k = (sf_key (flight_at c f), sf_span (flight_at c f))"
    using flights_okD(2) [OF D(2) f] by (simp_all add: flight_listed_def)
  define c2 where "c2 = ?c"
  have same: "sc_entry_heap c2 = sc_entry_heap c" "sc_next_entry c2 = sc_next_entry c"
    "sc_reader_heap c2 = sc_reader_heap c" "sc_next_reader c2 = sc_next_reader c"
    "sc_entries c2 = sc_entries c" "sc_lru c2 = sc_lru c" "sc_used c2 = sc_used c"
    "sc_budget c2 = sc_budget c" "sc_max_entries c2 = sc_max_entries c" "sc_flights c2 = sc_flights c"
    "sc_next_flight c2 = sc_next_flight c" "sc_reserved c2 = sc_reserved c" "sc_inflight c2 = sc_inflight c"
    and heap: "sc_flight_heap c2 = (sc_flight_heap c)(f := (flight_at c f)\<lparr>sf_waiters := sf_waiters (flight_at c f) + 1\<rparr>)"
    by (simp_all add: c2_def set_flight_def)
  have funs: "promised c2 = promised c" "pending_bytes c2 = pending_bytes c" "pending_count c2 = pending_count c"
    "reading c2 = reading c" "entry_size c2 = entry_size c"
    using fl by (auto simp: promised_def pending_bytes_def pending_count_def reading_def entry_size_def
        fun_eq_iff same heap)
  have "flights_ok c2"
  proof (rule flights_okI)
    show "distinct_keys (sc_flights c2)" using flights_okD(1) [OF D(2)] by (simp add: same)
    fix k' f' assume "map_of (sc_flights c2) k' = Some f'"
    then have "flight_listed c k' f'" using flights_okD(2) [OF D(2)] by (simp add: same)
    then show "flight_listed c2 k' f'"
      by (auto simp: flight_listed_def same heap)
  next
    fix f' assume "f' < sc_next_flight c2"
    then have "flight_ok c f' (flight_at c f')" using flights_okD(3) [OF D(2)] by (simp add: same)
    then show "flight_ok c2 f' (flight_at c2 f')"
      using f fl by (cases "f' = f") (simp_all add: flight_ok_def same heap)
  qed
  moreover have "store_ok c2" using D(1) unfolding store_ok_def same funs .
  moreover have "pins_ok c2" using D(3) unfolding pins_ok_def same funs .
  moreover have "readers_ok c2" using D(4) unfolding readers_ok_def same .
  moreover have "budget_ok c2" using D(5) unfolding budget_ok_def same funs .
  ultimately show ?thesis by (simp add: c2_def sc_inv_def)
qed

subsection \<open>Readers\<close>

lemma reader_inv:
  assumes inv: "sc_inv c" and e: "e \<in> set (sc_lru c)" and span: "range_ok span" "covers (se_span (entry_at c e)) span"
  shows "sc_inv (snd (reader_locked e span hit False readable c))"
proof (cases readable)
  case False
  with inv show ?thesis by (simp add: reader_locked_def)
next
  case True
  note D = sc_invD [OF inv]
  define c2 where "c2 = snd (reader_locked e span hit False readable c)"
  let ?r = "sc_next_reader c"
  have en: "e < sc_next_entry c" "range_ok (se_span (entry_at c e))" using D(1) e by (auto simp: store_ok_def)
  have same: "sc_next_entry c2 = sc_next_entry c" "sc_flight_heap c2 = sc_flight_heap c"
    "sc_entries c2 = sc_entries c" "sc_used c2 = sc_used c"
    "sc_budget c2 = sc_budget c" "sc_max_entries c2 = sc_max_entries c" "sc_flights c2 = sc_flights c"
    "sc_next_flight c2 = sc_next_flight c" "sc_reserved c2 = sc_reserved c" "sc_inflight c2 = sc_inflight c"
    and c2: "sc_next_reader c2 = ?r + 1" "sc_lru c2 = e # remove1 e (sc_lru c)"
      "sc_entry_heap c2 = (sc_entry_heap c)(e := (entry_at c e)\<lparr>se_pins := se_pins (entry_at c e) + 1\<rparr>)"
      "sc_reader_heap c2 = (sc_reader_heap c)(?r := \<lparr>sr_entry = e,
         sr_start = br_offset span - br_offset (se_span (entry_at c e)), sr_length = br_length span,
         sr_hit = hit, sr_closed = False\<rparr>)"
    using True by (simp_all add: c2_def reader_locked_def set_pins_def Let_def)
  have d: "distinct (sc_lru c)" using D(1) by (simp add: store_ok_def)
  have lru: "distinct (sc_lru c2)" "set (sc_lru c2) = set (sc_lru c)" "length (sc_lru c2) = length (sc_lru c)"
    using d e length_pos_if_in_set [OF e] by (auto simp: c2 length_remove1)
  have span_same: "se_span (entry_at c2 i) = se_span (entry_at c i)" "se_key (entry_at c2 i) = se_key (entry_at c i)" for i
    by (simp_all add: c2)
  have funs: "promised c2 = promised c" "pending_bytes c2 = pending_bytes c" "pending_count c2 = pending_count c"
    "entry_size c2 = entry_size c"
    by (auto simp: promised_def pending_bytes_def pending_count_def entry_size_def fun_eq_iff same span_same)
  have reads: "(\<Sum>r < sc_next_reader c2. reading c2 i r) = (\<Sum>r < ?r. reading c i r) + (if i = e then 1 else 0)" for i
  proof -
    have "(\<Sum>r < ?r. reading c2 i r) = (\<Sum>r < ?r. reading c i r)"
      by (intro sum.cong) (auto simp: reading_def c2)
    then show ?thesis by (simp add: c2(1)) (simp add: reading_def c2)
  qed
  have "store_ok c2" using D(1) lru unfolding store_ok_def same funs span_same by simp
  moreover have "flights_ok c2"
    using D(2) unfolding flights_ok_def flight_listed_def flight_ok_def same span_same .
  moreover have "pins_ok c2"
    using D(3) e unfolding pins_ok_def same funs reads lru by (auto simp: c2)
  moreover have "readers_ok c2"
    using D(4) en span covers_iff [OF en(2) span(1)] unfolding readers_ok_def same span_same
    by (auto simp: c2 less_Suc_eq range_ok_def)
  moreover have "budget_ok c2" using D(5) lru unfolding budget_ok_def same funs by simp
  ultimately show ?thesis by (simp add: sc_inv_def c2_def)
qed

lemma close_reader_inv:
  assumes inv: "sc_inv c" and r: "r < sc_next_reader c"
  shows "sc_inv (close_reader r c)"
proof (cases "sr_closed (sc_reader_heap c r)")
  case True
  with inv show ?thesis by (simp add: close_reader_def)
next
  case False
  note D = sc_invD [OF inv]
  let ?e = "sr_entry (sc_reader_heap c r)"
  define c2 where "c2 = close_reader r c"
  have same: "sc_next_entry c2 = sc_next_entry c" "sc_flight_heap c2 = sc_flight_heap c"
    "sc_entries c2 = sc_entries c" "sc_used c2 = sc_used c" "sc_next_reader c2 = sc_next_reader c"
    "sc_budget c2 = sc_budget c" "sc_max_entries c2 = sc_max_entries c" "sc_flights c2 = sc_flights c"
    "sc_next_flight c2 = sc_next_flight c" "sc_reserved c2 = sc_reserved c" "sc_inflight c2 = sc_inflight c"
    "sc_lru c2 = sc_lru c"
    and c2: "sc_entry_heap c2 = (sc_entry_heap c)(?e := (entry_at c ?e)\<lparr>se_pins := se_pins (entry_at c ?e) - 1\<rparr>)"
      "sc_reader_heap c2 = (sc_reader_heap c)(r := (sc_reader_heap c r)\<lparr>sr_closed := True\<rparr>)"
    using False by (simp_all add: c2_def close_reader_def set_pins_def Let_def)
  have span_same: "se_span (entry_at c2 i) = se_span (entry_at c i)" "se_key (entry_at c2 i) = se_key (entry_at c i)" for i
    by (simp_all add: c2)
  have funs: "promised c2 = promised c" "pending_bytes c2 = pending_bytes c" "pending_count c2 = pending_count c"
    "entry_size c2 = entry_size c"
    by (auto simp: promised_def pending_bytes_def pending_count_def entry_size_def fun_eq_iff same span_same)
  have reads: "(\<Sum>j < sc_next_reader c. reading c2 i j) = (\<Sum>j < sc_next_reader c. reading c i j) - (if i = ?e then 1 else 0)" for i
  proof -
    have "(\<Sum>j < sc_next_reader c. reading c2 i j) =
        (\<Sum>j < sc_next_reader c. reading c i j) - reading c i r + reading c2 i r"
      using r by (intro sum_change) (auto simp: reading_def c2)
    then show ?thesis using False by (auto simp: reading_def c2)
  qed
  have "store_ok c2" using D(1) unfolding store_ok_def same funs span_same .
  moreover have "flights_ok c2"
    using D(2) unfolding flights_ok_def flight_listed_def flight_ok_def same span_same .
  moreover have "pins_ok c2" using D(3) unfolding pins_ok_def same funs reads by (auto simp: c2)
  moreover have "readers_ok c2" using D(4) unfolding readers_ok_def same span_same by (auto simp: c2)
  moreover have "budget_ok c2" using D(5) unfolding budget_ok_def same funs .
  ultimately show ?thesis by (simp add: sc_inv_def c2_def)
qed

subsection \<open>Finishing a flight\<close>

lemma detach_frame:
  "sc_entry_heap (detach_locked f c) = sc_entry_heap c" "sc_next_entry (detach_locked f c) = sc_next_entry c"
  "sc_flight_heap (detach_locked f c) = sc_flight_heap c" "sc_next_flight (detach_locked f c) = sc_next_flight c"
  "sc_reader_heap (detach_locked f c) = sc_reader_heap c" "sc_next_reader (detach_locked f c) = sc_next_reader c"
  "sc_entries (detach_locked f c) = sc_entries c" "sc_lru (detach_locked f c) = sc_lru c"
  "sc_used (detach_locked f c) = sc_used c" "sc_reserved (detach_locked f c) = sc_reserved c"
  "sc_inflight (detach_locked f c) = sc_inflight c" "sc_budget (detach_locked f c) = sc_budget c"
  "sc_max_entries (detach_locked f c) = sc_max_entries c" "sc_closed (detach_locked f c) = sc_closed c"
  "sc_captured (detach_locked f c) = sc_captured c"
  by (simp_all add: detach_locked_def Let_def)

text \<open>Detaching takes at most the flight's own listing away.\<close>

lemma detach_flights:
  "map_of (sc_flights (detach_locked f c)) k =
    (if k = (sf_key (flight_at c f), sf_span (flight_at c f)) \<and> map_of (sc_flights c) k = Some f
     then None else map_of (sc_flights c) k)"
  "distinct_keys (sc_flights c) \<Longrightarrow> distinct_keys (sc_flights (detach_locked f c))"
  by (auto simp: detach_locked_def Let_def AList.delete_conv')

lemma detached_not_listed:
  assumes "flights_ok c"
  shows "map_of (sc_flights (detach_locked f c)) k \<noteq> Some f"
  using flights_okD(2) [OF assms, of k f] unfolding detach_flights by (auto simp: flight_listed_def)

text \<open>One flight of the detached map becomes \<open>v\<close>.\<close>

lemma flights_ok_detach:
  assumes ok: "flights_ok c" and f: "f < sc_next_flight c"
    and flights: "sc_flights c' = sc_flights (detach_locked f c)"
    and heap: "sc_flight_heap c' = (sc_flight_heap c)(f := v)" "sc_next_flight c' = sc_next_flight c"
    and entries: "\<And>k g. map_of (sc_flights c') k = Some g \<Longrightarrow> map_of (sc_entries c) k = None \<Longrightarrow>
      map_of (sc_entries c') k = None"
    and old: "\<And>e. e < sc_next_entry c \<Longrightarrow> e < sc_next_entry c' \<and>
      se_span (entry_at c' e) = se_span (entry_at c e) \<and> se_key (entry_at c' e) = se_key (entry_at c e)"
    and v: "flight_ok c' f v"
  shows "flights_ok c'"
proof (rule flights_okI)
  show "distinct_keys (sc_flights c')" unfolding flights by (rule detach_flights(2) [OF flights_okD(1) [OF ok]])
next
  fix k g assume m: "map_of (sc_flights c') k = Some g"
  then have "map_of (sc_flights c) k = Some g" unfolding flights detach_flights by (simp split: if_splits)
  note listed = flights_okD(2) [OF ok this]
  moreover have "g \<noteq> f" using m detached_not_listed [OF ok] unfolding flights by blast
  ultimately show "flight_listed c' k g"
    using entries [OF m] by (auto simp: flight_listed_def heap)
next
  fix g assume g: "g < sc_next_flight c'"
  show "flight_ok c' g (flight_at c' g)"
  proof (cases "g = f")
    case True
    with v show ?thesis by (simp add: heap)
  next
    case False
    have okg: "flight_ok c g (flight_at c g)" using flights_okD(3) [OF ok] g by (simp add: heap)
    have "map_of (sc_flights c') k = Some g" if "map_of (sc_flights c) k = Some g" for k
      using that False unfolding flights detach_flights by auto
    with okg old False show ?thesis by (auto simp: flight_ok_def heap)
  qed
qed

lemma finish_flight_inv:
  assumes inv: "sc_inv c" and f: "f < sc_next_flight c" "\<not> sf_finished (flight_at c f)"
  shows "sc_inv (finish_flight f path err removed c)"
proof -
  note D = sc_invD [OF inv]
  let ?v = "flight_at c f"
  note okf = flights_okD(3) [OF D(2) f(1)]
  let ?err = "if err = None \<and> (sc_closed c \<or> sf_waiters ?v = 0 \<and> \<not> sf_capture ?v) then Some ContextError else err"
  define c2 where "c2 = finish_flight f path err removed c"
  have size: "0 < br_length (sf_span ?v)" using okf by (simp add: flight_ok_def range_ok_def)
  have sums:
    "(\<Sum>g < sc_next_flight c. pending_bytes c' g) = (\<Sum>g < sc_next_flight c. pending_bytes c g) - br_length (sf_span ?v)"
    "(\<Sum>g < sc_next_flight c. pending_count c' g) = (\<Sum>g < sc_next_flight c. pending_count c g) - 1"
    if "sc_flight_heap c' = (sc_flight_heap c)(f := v)" "sf_finished v" for c' v
  proof -
    have "(\<Sum>g < sc_next_flight c. pending_bytes c' g) =
        (\<Sum>g < sc_next_flight c. pending_bytes c g) - pending_bytes c f + pending_bytes c' f"
      using f by (intro sum_change) (auto simp: pending_bytes_def that)
    then show "(\<Sum>g < sc_next_flight c. pending_bytes c' g) = (\<Sum>g < sc_next_flight c. pending_bytes c g) - br_length (sf_span ?v)"
      using f by (simp add: pending_bytes_def that)
    have "(\<Sum>g < sc_next_flight c. pending_count c' g) =
        (\<Sum>g < sc_next_flight c. pending_count c g) - pending_count c f + pending_count c' f"
      using f by (intro sum_change) (auto simp: pending_count_def that)
    then show "(\<Sum>g < sc_next_flight c. pending_count c' g) = (\<Sum>g < sc_next_flight c. pending_count c g) - 1"
      using f by (simp add: pending_count_def that)
  qed
  have "sc_inv c2"
  proof (cases ?err)
    case (Some e)
    have same: "sc_entry_heap c2 = sc_entry_heap c" "sc_next_entry c2 = sc_next_entry c"
      "sc_next_flight c2 = sc_next_flight c" "sc_reader_heap c2 = sc_reader_heap c"
      "sc_next_reader c2 = sc_next_reader c" "sc_entries c2 = sc_entries c" "sc_lru c2 = sc_lru c"
      "sc_used c2 = sc_used c" "sc_budget c2 = sc_budget c" "sc_max_entries c2 = sc_max_entries c"
      and c2: "sc_flight_heap c2 = (sc_flight_heap c)(f := ?v\<lparr>sf_err := Some e, sf_finished := True\<rparr>)"
        "sc_flights c2 = sc_flights (detach_locked f c)" "sc_inflight c2 = sc_inflight c - 1"
        "sc_reserved c2 = (if path = '''' \<or> removed path then sc_reserved c - br_length (sf_span ?v) else sc_reserved c)"
      using Some by (simp_all add: c2_def finish_flight_def Let_def set_flight_def disable_locked_def detach_frame)
    have funs: "reading c2 = reading c" "entry_size c2 = entry_size c"
      by (simp_all add: reading_def entry_size_def fun_eq_iff same)
    have res: "sf_result ?v = None" using okf f(2) by (simp add: flight_ok_def)
    have prom: "promised c2 = promised c" using f(2) res by (auto simp: promised_def fun_eq_iff c2)
    note S = sums [OF c2(1), simplified]
    have "store_ok c2" using D(1) unfolding store_ok_def same funs .
    moreover have "pins_ok c2" using D(3) unfolding pins_ok_def same funs prom .
    moreover have "readers_ok c2" using D(4) unfolding readers_ok_def same .
    moreover have "budget_ok c2"
      using D(5) size unfolding budget_ok_def same c2(3,4) S by (auto split: if_splits)
    moreover have "flights_ok c2"
      by (rule flights_ok_detach [OF D(2) f(1) c2(2,1) same(3)])
         (use okf res in \<open>auto simp: same flight_ok_def\<close>)
    ultimately show ?thesis by (simp add: sc_inv_def)
  next
    case None
    let ?i = "sc_next_entry c"
    let ?k = "(sf_key ?v, sf_span ?v)"
    have live: "0 < sf_waiters ?v \<or> sf_capture ?v"
      using None okf by (auto simp: flight_ok_def split: if_splits)
    have listed: "map_of (sc_flights c) ?k = Some f" using okf f(2) live by (simp add: flight_ok_def)
    have new: "map_of (sc_entries c) ?k = None" using flights_okD(2) [OF D(2) listed] by (simp add: flight_listed_def)
    have same: "sc_next_flight c2 = sc_next_flight c" "sc_reader_heap c2 = sc_reader_heap c"
      "sc_next_reader c2 = sc_next_reader c" "sc_budget c2 = sc_budget c" "sc_max_entries c2 = sc_max_entries c"
      and c2: "sc_flight_heap c2 = (sc_flight_heap c)(f := ?v\<lparr>sf_result := Some ?i, sf_finished := True\<rparr>)"
        "sc_flights c2 = sc_flights (detach_locked f c)" "sc_inflight c2 = sc_inflight c - 1"
        "sc_reserved c2 = sc_reserved c - br_length (sf_span ?v)" "sc_used c2 = sc_used c + br_length (sf_span ?v)"
        "sc_next_entry c2 = ?i + 1" "sc_lru c2 = ?i # sc_lru c" "sc_entries c2 = AList.update ?k ?i (sc_entries c)"
        "sc_entry_heap c2 = (sc_entry_heap c)(?i := \<lparr>se_key = sf_key ?v, se_span = sf_span ?v, se_path = path,
           se_pins = sf_waiters ?v\<rparr>)"
      using None by (simp_all add: c2_def finish_flight_def Let_def set_flight_def detach_frame split: if_splits)
    have look: "map_of (sc_entries c2) k = (if k = ?k then Some ?i else map_of (sc_entries c) k)" for k
      unfolding c2(8) by (simp add: AList.update_conv')
    have older: "e < ?i" if "e \<in> set (sc_lru c)" for e using D(1) that by (auto simp: store_ok_def)
    have at: "entry_at c2 e = entry_at c e" if "e < ?i" for e using that by (simp add: c2)
    have res: "sf_result ?v = None" using okf f(2) by (simp add: flight_ok_def)
    have reads: "reading c2 = reading c" by (simp add: reading_def fun_eq_iff same)
    have prom: "(\<Sum>g < sc_next_flight c. promised c2 e g) =
        (\<Sum>g < sc_next_flight c. promised c e g) + (if e = ?i then sf_waiters ?v else 0)" for e
    proof -
      have "(\<Sum>g < sc_next_flight c. promised c2 e g) =
          (\<Sum>g < sc_next_flight c. promised c e g) - promised c e f + promised c2 e f"
        using f by (intro sum_change) (auto simp: promised_def c2)
      then show ?thesis using f(2) by (simp add: promised_def c2)
    qed
    have none: "(\<Sum>g < sc_next_flight c. promised c ?i g) = 0" "(\<Sum>r < sc_next_reader c. reading c ?i r) = 0"
    proof -
      have "sf_result (flight_at c g) \<noteq> Some ?i" if "g < sc_next_flight c" for g
        using flights_okD(3) [OF D(2) that] by (auto simp: flight_ok_def)
      then show "(\<Sum>g < sc_next_flight c. promised c ?i g) = 0" by (intro sum.neutral) (auto simp: promised_def)
      have "sr_entry (sc_reader_heap c r) \<noteq> ?i" if "r < sc_next_reader c" for r
        using D(4) that by (auto simp: readers_ok_def)
      then show "(\<Sum>r < sc_next_reader c. reading c ?i r) = 0" by (intro sum.neutral) (auto simp: reading_def)
    qed
    note S = sums [OF c2(1), simplified]
    have keys: "map_of (sc_entries c) k = Some e \<longleftrightarrow>
        e \<in> set (sc_lru c) \<and> k = (se_key (entry_at c e), se_span (entry_at c e))" for k e
      using D(1) unfolding store_ok_def by blast
    have "store_ok c2"
    proof -
      have "map_of (sc_entries c2) k = Some e \<longleftrightarrow>
          e \<in> set (sc_lru c2) \<and> k = (se_key (entry_at c2 e), se_span (entry_at c2 e))" for k e
      proof (cases "e = ?i")
        case True
        with keys [of k e] older [of ?i] new show ?thesis unfolding look by (auto simp: c2)
      next
        case False
        with keys [of k e] older [of e] new show ?thesis
          unfolding look by (auto simp: c2(7) at c2(9))
      qed
      moreover have "(\<Sum>e \<in> set (sc_lru c2). entry_size c2 e) = sc_used c2"
      proof -
        have "(\<Sum>e \<in> set (sc_lru c). entry_size c2 e) = (\<Sum>e \<in> set (sc_lru c). entry_size c e)"
          using older at by (intro sum.cong) (auto simp: entry_size_def)
        moreover have "?i \<notin> set (sc_lru c)" using older by blast
        ultimately show ?thesis using D(1) by (simp add: c2(5,7) store_ok_def) (simp add: entry_size_def c2)
      qed
      moreover have "distinct (sc_lru c2)" "distinct_keys (sc_entries c2)"
        using D(1) older unfolding c2(7,8) by (auto simp: store_ok_def)
      moreover have "\<forall>e \<in> set (sc_lru c2). e < sc_next_entry c2 \<and> range_ok (se_span (entry_at c2 e))"
        using D(1) older okf unfolding c2(6,7,9) by (auto simp: store_ok_def flight_ok_def less_Suc_eq)
      ultimately show ?thesis unfolding store_ok_def by simp
    qed
    moreover have "pins_ok c2"
      unfolding pins_ok_def same prom reads c2(6,7)
      using D(3) none by (auto simp: pins_ok_def less_Suc_eq c2(9))
    moreover have "readers_ok c2"
      using D(4) unfolding readers_ok_def same c2(6) by (auto simp: c2(9))
    moreover have "budget_ok c2"
      using D(5) unfolding budget_ok_def same c2(3,4,5,7) S by auto
    moreover have "flights_ok c2"
    proof (rule flights_ok_detach [OF D(2) f(1) c2(2,1) same(1)])
      fix k g assume g: "map_of (sc_flights c2) k = Some g" "map_of (sc_entries c) k = None"
      have "k \<noteq> ?k" using g(1) listed unfolding c2(2) detach_flights by (auto split: if_splits)
      with g(2) show "map_of (sc_entries c2) k = None" unfolding look by simp
    next
      show "flight_ok c2 f (?v\<lparr>sf_result := Some ?i, sf_finished := True\<rparr>)"
        using okf f(2) by (simp add: flight_ok_def c2(6,9))
    qed (simp add: c2(6,9))
    ultimately show ?thesis by (simp add: sc_inv_def)
  qed
  then show ?thesis by (simp add: c2_def)
qed

subsection \<open>Waiting\<close>

abbreviation leave :: "source_cache \<Rightarrow> nat \<Rightarrow> sc_flight" where
  "leave c f \<equiv> (flight_at c f)\<lparr>sf_waiters := sf_waiters (flight_at c f) - 1\<rparr>"

lemma promised_leave:
  assumes "f < sc_next_flight c" and "sc_flight_heap c2 = (sc_flight_heap c)(f := leave c f)"
  shows "(\<Sum>g < sc_next_flight c. promised c2 e g) = (\<Sum>g < sc_next_flight c. promised c e g) -
    (if sf_finished (flight_at c f) \<and> sf_result (flight_at c f) = Some e then 1 else 0)"
proof -
  have "(\<Sum>g < sc_next_flight c. promised c2 e g) =
      (\<Sum>g < sc_next_flight c. promised c e g) - promised c e f + promised c2 e f"
    using assms by (intro sum_change) (auto simp: promised_def)
  then show ?thesis by (auto simp: promised_def assms(2))
qed

text \<open>Leaving a flight that promised nothing.\<close>

lemma leave_inv:
  assumes inv: "sc_inv c" and f: "f < sc_next_flight c" "0 < sf_waiters (flight_at c f)"
    and r: "\<not> (sf_finished (flight_at c f) \<and> sf_result (flight_at c f) \<noteq> None)"
  shows "sc_inv (set_flight f (leave c f) c)"
    and "sf_waiters (flight_at c f) = 1 \<Longrightarrow> \<not> sf_capture (flight_at c f) \<Longrightarrow>
      sc_inv (set_flight f ((leave c f)\<lparr>sf_cancelled := b\<rparr>) (detach_locked f (set_flight f (leave c f) c)))"
proof -
  note D = sc_invD [OF inv]
  note okf = flights_okD(3) [OF D(2) f(1)]
  have gen: "sc_inv c2"
    if same: "sc_entry_heap c2 = sc_entry_heap c" "sc_next_entry c2 = sc_next_entry c"
      "sc_reader_heap c2 = sc_reader_heap c" "sc_next_reader c2 = sc_next_reader c"
      "sc_entries c2 = sc_entries c" "sc_lru c2 = sc_lru c" "sc_used c2 = sc_used c"
      "sc_budget c2 = sc_budget c" "sc_max_entries c2 = sc_max_entries c"
      "sc_next_flight c2 = sc_next_flight c" "sc_reserved c2 = sc_reserved c" "sc_inflight c2 = sc_inflight c"
      and heap: "sc_flight_heap c2 = (sc_flight_heap c)(f := (leave c f)\<lparr>sf_cancelled := b'\<rparr>)"
      and ok: "flights_ok c2" for c2 b'
  proof -
    have funs: "promised c2 = promised c" "pending_bytes c2 = pending_bytes c" "pending_count c2 = pending_count c"
      "reading c2 = reading c" "entry_size c2 = entry_size c"
      using r by (auto simp: promised_def pending_bytes_def pending_count_def reading_def entry_size_def
          fun_eq_iff same heap)
    have "store_ok c2" using D(1) unfolding store_ok_def same funs .
    moreover have "pins_ok c2" using D(3) unfolding pins_ok_def same funs .
    moreover have "readers_ok c2" using D(4) unfolding readers_ok_def same .
    moreover have "budget_ok c2" using D(5) unfolding budget_ok_def same funs .
    ultimately show ?thesis using ok by (simp add: sc_inv_def)
  qed
  let ?c1 = "set_flight f (leave c f) c"
  have eta: "leave c f = (leave c f)\<lparr>sf_cancelled := sf_cancelled (flight_at c f)\<rparr>"
    by (cases "flight_at c f") simp
  show "sc_inv ?c1"
  proof (rule gen)
    show "sc_flight_heap ?c1 = (sc_flight_heap c)(f := (leave c f)\<lparr>sf_cancelled := sf_cancelled (flight_at c f)\<rparr>)"
      by (subst eta [symmetric]) (simp add: set_flight_def)
    show "flights_ok ?c1"
    proof (rule flights_okI)
      show "distinct_keys (sc_flights ?c1)" using flights_okD(1) [OF D(2)] by (simp add: set_flight_def)
      show "flight_listed ?c1 k g" if "map_of (sc_flights ?c1) k = Some g" for k g
        using flights_okD(2) [OF D(2), of k g] that by (auto simp: flight_listed_def set_flight_def)
      show "flight_ok ?c1 g (flight_at ?c1 g)" if "g < sc_next_flight ?c1" for g
        using flights_okD(3) [OF D(2), of g] that f(2)
        by (cases "g = f") (auto simp: flight_ok_def set_flight_def)
    qed
  qed (simp_all add: set_flight_def)
  assume one: "sf_waiters (flight_at c f) = 1" and cap: "\<not> sf_capture (flight_at c f)"
  let ?c2 = "set_flight f ((leave c f)\<lparr>sf_cancelled := b\<rparr>) (detach_locked f ?c1)"
  have det: "sc_flights (detach_locked f ?c1) = sc_flights (detach_locked f c)"
    by (simp add: detach_locked_def set_flight_def Let_def)
  show "sc_inv ?c2"
  proof (rule gen)
    show heap: "sc_flight_heap ?c2 = (sc_flight_heap c)(f := (leave c f)\<lparr>sf_cancelled := b\<rparr>)"
      by (simp add: set_flight_def detach_frame)
    show "flights_ok ?c2"
    proof (rule flights_ok_detach [OF D(2) f(1) _ heap])
      show "sc_flights ?c2 = sc_flights (detach_locked f c)" using det by (simp add: set_flight_def)
      show "flight_ok ?c2 f ((leave c f)\<lparr>sf_cancelled := b\<rparr>)"
        using okf one cap r by (auto simp: flight_ok_def set_flight_def detach_frame)
    qed (simp_all add: set_flight_def detach_frame)
  qed (simp_all add: set_flight_def detach_frame)
qed

text \<open>Giving up the block a finished flight promised.\<close>

lemma unpromise_inv:
  assumes inv: "sc_inv c" and f: "f < sc_next_flight c" "0 < sf_waiters (flight_at c f)"
    and r: "sf_finished (flight_at c f)" "sf_result (flight_at c f) = Some e"
  shows "sc_inv (set_pins e (se_pins (entry_at c e) - 1) (set_flight f (leave c f) c))" (is "sc_inv ?c2")
proof -
  note D = sc_invD [OF inv]
  note okf = flights_okD(3) [OF D(2) f(1)]
  define c2 where "c2 = ?c2"
  have same: "sc_next_entry c2 = sc_next_entry c" "sc_reader_heap c2 = sc_reader_heap c"
    "sc_next_reader c2 = sc_next_reader c" "sc_entries c2 = sc_entries c" "sc_lru c2 = sc_lru c"
    "sc_used c2 = sc_used c" "sc_budget c2 = sc_budget c" "sc_max_entries c2 = sc_max_entries c"
    "sc_next_flight c2 = sc_next_flight c" "sc_reserved c2 = sc_reserved c" "sc_inflight c2 = sc_inflight c"
    "sc_flights c2 = sc_flights c"
    and heap: "sc_flight_heap c2 = (sc_flight_heap c)(f := leave c f)"
      "sc_entry_heap c2 = (sc_entry_heap c)(e := (entry_at c e)\<lparr>se_pins := se_pins (entry_at c e) - 1\<rparr>)"
    by (simp_all add: c2_def set_pins_def set_flight_def)
  have span_same: "se_span (entry_at c2 i) = se_span (entry_at c i)" "se_key (entry_at c2 i) = se_key (entry_at c i)" for i
    by (simp_all add: heap)
  have funs: "pending_bytes c2 = pending_bytes c" "pending_count c2 = pending_count c"
    "reading c2 = reading c" "entry_size c2 = entry_size c"
    by (auto simp: pending_bytes_def pending_count_def reading_def entry_size_def fun_eq_iff same heap)
  note prom = promised_leave [OF f(1) heap(1)]
  have "store_ok c2" using D(1) unfolding store_ok_def same funs span_same .
  moreover have "pins_ok c2"
    using D(3) r unfolding pins_ok_def same funs prom by (auto simp: heap(2))
  moreover have "readers_ok c2" using D(4) unfolding readers_ok_def same span_same .
  moreover have "budget_ok c2" using D(5) unfolding budget_ok_def same funs .
  moreover have "flights_ok c2"
  proof (rule flights_okI)
    show "distinct_keys (sc_flights c2)" using flights_okD(1) [OF D(2)] by (simp add: same)
    show "flight_listed c2 k g" if "map_of (sc_flights c2) k = Some g" for k g
      using flights_okD(2) [OF D(2), of k g] that by (auto simp: flight_listed_def same heap)
    show "flight_ok c2 g (flight_at c2 g)" if "g < sc_next_flight c2" for g
      using flights_okD(3) [OF D(2), of g] that f(2)
      by (cases "g = f") (auto simp: flight_ok_def same heap)
  qed
  ultimately show ?thesis by (simp add: sc_inv_def c2_def)
qed

text \<open>The block a finished flight promised is still there.\<close>

lemma promise_listed:
  assumes inv: "sc_inv c" and f: "f < sc_next_flight c" "0 < sf_waiters (flight_at c f)"
    and r: "sf_finished (flight_at c f)" "sf_result (flight_at c f) = Some e"
  shows "e \<in> set (sc_lru c)" "se_span (entry_at c e) = sf_span (flight_at c f)" "0 < se_pins (entry_at c e)"
proof -
  note D = sc_invD [OF inv]
  note okf = flights_okD(3) [OF D(2) f(1)]
  show "se_span (entry_at c e) = sf_span (flight_at c f)" using okf r by (simp add: flight_ok_def)
  have e: "e < sc_next_entry c" using okf r by (simp add: flight_ok_def)
  have "promised c e f \<le> (\<Sum>g < sc_next_flight c. promised c e g)"
    using f flights_okD(3) [OF D(2)] by (intro member_le_sum) (auto simp: promised_def flight_ok_def)
  moreover have "0 \<le> (\<Sum>r < sc_next_reader c. reading c e r)" by (intro sum_nonneg) (simp add: reading_def)
  ultimately show "0 < se_pins (entry_at c e)" using D(3) e f r by (auto simp: pins_ok_def promised_def)
  then show "e \<in> set (sc_lru c)" using D(3) e by (auto simp: pins_ok_def)
qed

text \<open>Taking it over: giving up the promise and opening an unpromised reader commute.\<close>

lemma promised_reader:
  assumes "e \<in> set (sc_lru c)"
  shows "reader_locked e span hit True True (set_flight f v c) =
    reader_locked e span hit False True (set_pins e (se_pins (entry_at c e) - 1) (set_flight f v c))"
  by (simp add: reader_locked_def set_pins_def set_flight_def Let_def)

lemma wait_done_inv:
  assumes inv: "sc_inv c" and f: "f < sc_next_flight c" "0 < sf_waiters (flight_at c f)"
    and span: "range_ok span" "covers (sf_span (flight_at c f)) span"
    and woken: "cancelled \<or> sc_closed c \<or> sf_finished (flight_at c f)"
  shows "sc_inv (snd (wait_done cancelled f span hit readable c))"
proof -
  let ?v = "flight_at c f" and ?c1 = "set_flight f (leave c f) c"
  note ok = flights_okD(3) [OF sc_invD(2) [OF inv] f(1)]
  have at: "flight_at (set_flight f v c) f = v" "sc_closed (set_flight f v c) = sc_closed c"
    "entry_at (set_flight f v c) = entry_at c" for v
    by (simp_all add: set_flight_def)
  show ?thesis
  proof (cases "sf_finished ?v \<and> sf_result ?v \<noteq> None")
    case True
    then obtain e where e: "sf_finished ?v" "sf_result ?v = Some e" by blast
    note L = promise_listed [OF inv f e] and U = unpromise_inv [OF inv f e]
    have noerr: "sf_err ?v = None" using ok e by (simp add: flight_ok_def)
    show ?thesis
    proof (cases "cancelled \<or> sc_closed c")
      case True
      with e U show ?thesis by (simp add: wait_done_def Let_def at)
    next
      case False
      let ?p = "set_pins e (se_pins (entry_at c e) - 1) ?c1"
      show ?thesis
      proof (cases readable)
        case True
        have lru: "e \<in> set (sc_lru ?p)" "se_span (entry_at ?p e) = sf_span ?v"
          using L by (simp_all add: set_pins_def set_flight_def)
        have "sc_inv (snd (reader_locked e span hit False True ?p))"
          by (rule reader_inv [OF U lru(1) span(1)]) (simp add: lru span)
        with False e noerr True show ?thesis
          by (auto simp: wait_done_def Let_def at promised_reader [OF L(1)] split: prod.splits option.splits)
      next
        case False': False
        with False e noerr U show ?thesis by (simp add: wait_done_def Let_def at reader_locked_def)
      qed
    qed
  next
    case False
    note L = leave_inv [OF inv f False]
    show ?thesis
    proof (cases "cancelled \<or> sc_closed c")
      case True
      with False L show ?thesis by (auto simp: wait_done_def Let_def at)
    next
      case False': False
      with woken False ok obtain e where "sf_finished ?v" "sf_err ?v = Some e"
        by (auto simp: flight_ok_def)
      with False' L(1) show ?thesis by (auto simp: wait_done_def Let_def at)
    qed
  qed
qed

subsection \<open>Opening, offering and closing\<close>

lemma open_cached_inv:
  assumes inv: "sc_inv c" and span: "range_ok span"
  shows "sc_inv (snd (open_cached key span readable removed c))"
proof (cases "covering key span (sc_entries c)")
  case (Some e)
  note D = sc_invD [OF inv]
  have dk: "distinct_keys (sc_entries c)" using D(1) by (simp add: store_ok_def)
  obtain s where s: "map_of (sc_entries c) (key, s) = Some e" "covers s span"
    by (rule covering_Some [OF Some dk])
  have keys: "map_of (sc_entries c) k = Some e \<longleftrightarrow>
      e \<in> set (sc_lru c) \<and> k = (se_key (entry_at c e), se_span (entry_at c e))" for k
    using D(1) unfolding store_ok_def by blast
  have "e \<in> set (sc_lru c)" "covers (se_span (entry_at c e)) span" using s keys by auto
  from reader_inv [OF inv this(1) span this(2), of True readable] Some
  show ?thesis by (auto simp: open_cached_def split: prod.splits option.splits)
next
  case None
  note D = sc_invD [OF inv]
  show ?thesis
  proof (cases "covering key span (sc_flights c)")
    case (Some f)
    obtain s where s: "map_of (sc_flights c) (key, s) = Some f"
      by (rule covering_Some [OF Some flights_okD(1) [OF D(2)]])
    from join_flight_inv [OF inv s] None Some show ?thesis by (simp add: open_cached_def)
  next
    case None': None
    let ?c = "c\<lparr>sc_misses := sc_misses c + 1\<rparr>"
    have inv': "sc_inv ?c" using inv by simp
    have new: "map_of (sc_entries ?c) (key, span) = None" "map_of (sc_flights ?c) (key, span) = None"
      using covering_None [OF None span] covering_None [OF None' span] by simp_all
    show ?thesis
    proof (cases "reserve_locked removed (br_length span) ?c")
      case (Pair ok c1)
      show ?thesis
      proof (cases ok)
        case True
        with Pair start_flight_inv [OF inv' span _ new, where w = 1 and cap = False]
        have "sc_inv (snd (start_flight key span 1 False c1))" by simp
        with True Pair None None' show ?thesis
          by (cases "start_flight key span 1 False c1") (simp add: open_cached_def Let_def)
      next
        case False
        with Pair have "reserve_loop_locked removed (br_length span) ?c = Inl c1"
          by (auto simp: reserve_locked_def split: sum.splits)
        from source_eviction.loop_fail [OF inv' this] False Pair None None'
        show ?thesis by (simp add: open_cached_def Let_def)
      qed
    qed
  qed
qed

lemma open_range_inv:
  assumes inv: "sc_inv c"
  shows "sc_inv (snd (open_range cancelled key offset len has_fetch readable removed c))"
  using inv open_cached_inv [OF inv, of "\<lparr>br_offset = offset, br_length = len\<rparr>"]
  by (auto simp: open_range_def range_ok_def)

lemma offer_page_inv:
  assumes inv: "sc_inv c" and span: "range_ok span"
  shows "sc_inv (snd (offer_page key span removed c))"
proof (cases "sc_closed c \<or> sc_disabled c \<or> br_length span > sc_budget c \<or>
    covering key span (sc_entries c) \<noteq> None \<or> covering key span (sc_flights c) \<noteq> None")
  case True
  with inv show ?thesis by (auto simp: offer_page_def)
next
  case False
  then have new: "map_of (sc_entries c) (key, span) = None" "map_of (sc_flights c) (key, span) = None"
    using covering_None span by blast+
  show ?thesis
  proof (cases "reserve_locked removed (br_length span) c")
    case (Pair ok c1)
    show ?thesis
    proof (cases ok)
      case True
      with start_flight_inv [OF inv span _ new, of 0 removed c1] Pair False
      show ?thesis by (auto simp: offer_page_def)
    next
      case no: False
      with Pair have "reserve_loop_locked removed (br_length span) c = Inl c1"
        by (auto simp: reserve_locked_def split: sum.splits)
      from source_eviction.loop_fail [OF inv this] no Pair False show ?thesis by (auto simp: offer_page_def)
    qed
  qed
qed

lemma close_cache_inv:
  assumes inv: "sc_inv c"
  shows "sc_inv (close_cache c)"
proof -
  have all: "sc_inv c \<Longrightarrow> set rs \<subseteq> {..< sc_next_reader c} \<Longrightarrow>
      sc_inv (fold close_reader rs c)" for rs c
  proof (induction rs arbitrary: c)
    case (Cons r rs)
    then have "sc_inv (close_reader r c)" by (intro close_reader_inv) auto
    moreover have "sc_next_reader (close_reader r c) = sc_next_reader c"
      by (simp add: close_reader_def set_pins_def Let_def)
    ultimately show ?case using Cons by simp
  qed simp
  show ?thesis unfolding close_cache_def by (rule all) (use inv in auto)
qed

section \<open>Runs of the cache\<close>

datatype sc_op =
    ScOpen bool string int int bool bool "string \<Rightarrow> bool"
  | ScWait bool nat byte_range bool bool
  | ScFinish nat string "sc_error option" "string \<Rightarrow> bool"
  | ScOffer string byte_range "string \<Rightarrow> bool"
  | ScCloseReader nat
  | ScClose

fun sc_exec :: "sc_op \<Rightarrow> source_cache \<Rightarrow> source_cache" where
  "sc_exec (ScOpen cancelled key off len fetch readable removed) c =
     snd (open_range cancelled key off len fetch readable removed c)"
| "sc_exec (ScWait cancelled f span hit readable) c = snd (wait_done cancelled f span hit readable c)"
| "sc_exec (ScFinish f path err removed) c = finish_flight f path err removed c"
| "sc_exec (ScOffer key span removed) c = snd (offer_page key span removed c)"
| "sc_exec (ScCloseReader r) c = close_reader r c"
| "sc_exec ScClose c = close_cache c"

text \<open>
  What the code's callers do: \<open>wait\<close> goes on when its \<open>select\<close> fires, for a flight the caller is
  counted in and a span the flight covers; a flight is finished once; pages are representable.
\<close>

fun sc_legal :: "sc_op \<Rightarrow> source_cache \<Rightarrow> bool" where
  "sc_legal (ScWait cancelled f span hit readable) c \<longleftrightarrow>
     f < sc_next_flight c \<and> 0 < sf_waiters (flight_at c f) \<and> range_ok span \<and>
     covers (sf_span (flight_at c f)) span \<and>
     (cancelled \<or> sc_closed c \<or> sf_finished (flight_at c f))"
| "sc_legal (ScFinish f path err removed) c \<longleftrightarrow> f < sc_next_flight c \<and> \<not> sf_finished (flight_at c f)"
| "sc_legal (ScOffer key span removed) c \<longleftrightarrow> range_ok span"
| "sc_legal (ScCloseReader r) c \<longleftrightarrow> r < sc_next_reader c"
| "sc_legal _ c \<longleftrightarrow> True"

inductive sc_reachable :: "int \<Rightarrow> int \<Rightarrow> source_cache \<Rightarrow> bool" for budget :: int and entries :: int where
  sc_start: "new_source_cache budget entries = Some c \<Longrightarrow> sc_reachable budget entries c"
| sc_step: "sc_reachable budget entries c \<Longrightarrow> sc_legal op c \<Longrightarrow> sc_reachable budget entries (sc_exec op c)"

inductive_cases sc_reachable_elim: "sc_reachable budget entries c"

lemma sc_exec_inv: "sc_inv c \<Longrightarrow> sc_legal op c \<Longrightarrow> sc_inv (sc_exec op c)"
  by (cases op) (simp_all add: open_range_inv wait_done_inv finish_flight_inv offer_page_inv
      close_reader_inv close_cache_inv)

lemma reserve_loop_budget:
  "(case reserve_loop_locked removed n c of Inl d \<Rightarrow> sc_budget d | Inr d \<Rightarrow> sc_budget d) = sc_budget c"
proof (induction removed n c rule: reserve_loop_locked.induct)
  case (1 removed n c)
  show ?case
  proof (cases "reserve_full n c")
    case False
    then show ?thesis by (simp add: reserve_loop_locked.simps [of removed n c])
  next
    case True
    show ?thesis
    proof (cases "evict_lru removed c")
      case (Inl d)
      then have "d = c \<or> d = disable_locked c"
        by (auto simp: evict_lru_def Let_def split: option.splits if_splits)
      with True Inl show ?thesis by (auto simp: reserve_loop_locked.simps [of removed n c] disable_locked_def)
    next
      case (Inr d)
      from "1.IH" [OF True Inr] evict_lru_frame(7) [OF Inr] True Inr show ?thesis
        by (simp add: reserve_loop_locked.simps [of removed n c])
    qed
  qed
qed

lemma reserve_locked_budget: "sc_budget (snd (reserve_locked removed n c)) = sc_budget c"
  using reserve_loop_budget [of removed n c] by (auto simp: reserve_locked_def split: sum.splits)

lemma budget_frames [simp]:
  "sc_budget (set_pins e n c) = sc_budget c" "sc_budget (set_flight f v c) = sc_budget c"
  "sc_budget (disable_locked c) = sc_budget c" "sc_budget (detach_locked f c) = sc_budget c"
  "sc_budget (snd (start_flight key span w cap c)) = sc_budget c"
  "sc_budget (snd (reader_locked e span hit taken readable c)) = sc_budget c"
  "sc_budget (close_reader r c) = sc_budget c"
  by (simp_all add: set_pins_def set_flight_def disable_locked_def detach_locked_def start_flight_def
      reader_locked_def close_reader_def Let_def)

lemma close_readers_budget: "sc_budget (fold close_reader rs c) = sc_budget c"
  by (induction rs arbitrary: c) simp_all

lemma sc_exec_budget: "sc_budget (sc_exec op c) = sc_budget c"
proof (cases op)
  case (ScOpen cancelled key off len fetch readable removed)
  have "sc_budget (snd (open_cached key span readable removed c)) = sc_budget c" for span
    using budget_frames(6) [of _ span True False readable c]
      reserve_locked_budget [of removed "br_length span" "c\<lparr>sc_misses := sc_misses c + 1\<rparr>"]
      budget_frames(5) [of key span 1 False]
    by (auto simp: open_cached_def Let_def simp del: budget_frames(5,6) split: option.splits prod.splits bool.splits)
       (metis snd_conv)+
  with ScOpen show ?thesis by (simp add: open_range_def)
next
  case (ScWait cancelled f span hit readable)
  then show ?thesis
    using budget_frames(6) [of _ span hit True readable]
    by (auto simp: wait_done_def Let_def simp del: budget_frames(6) split: option.splits prod.splits)
       (metis snd_conv budget_frames(2))+
next
  case (ScFinish f path err removed)
  then show ?thesis by (auto simp: finish_flight_def Let_def split: option.splits)
next
  case (ScOffer key span removed)
  then show ?thesis
    using reserve_locked_budget [of removed "br_length span" c]
    by (auto simp: offer_page_def split: prod.splits bool.splits)
next
  case (ScCloseReader r)
  then show ?thesis by simp
next
  case ScClose
  then show ?thesis by (simp add: close_cache_def close_readers_budget)
qed

lemma sc_reachable_inv: "sc_reachable budget entries c \<Longrightarrow> sc_inv c \<and> sc_budget c = budget"
  by (induction rule: sc_reachable.induct) (auto simp: new_source_cache_inv sc_exec_inv sc_exec_budget)

end
