(* ===== verification/Source_Cache_Theorems.thy ===== *)
theory Source_Cache_Theorems
  imports Source_Cache_Safety
begin

text \<open>
  The properties of the source range cache in every state its callers can bring it to, and of
  the two loops that move bytes: the fill of a block and the capture of pages.
\<close>

section \<open>A run\<close>

text \<open>
  A fill of 100 bytes that two opens share, its publication, one of them served, a second block
  that is being filled. Both opens of the first block were counted, one still has its promise.
\<close>

lemma reserve_roomy:
  "\<not> reserve_full n c \<Longrightarrow> reserve_locked removed n c = (True, c\<lparr>sc_reserved := sc_reserved c + n\<rparr>)"
  by (simp add: reserve_locked_def source_eviction.loop_roomy)

definition source0 :: source_cache where "source0 = the (new_source_cache 150 0)"
definition source1 :: source_cache where
  "source1 = sc_exec (ScOpen False ''k'' 0 100 True True (\<lambda>_. True)) source0"
definition source2 :: source_cache where
  "source2 = sc_exec (ScOpen False ''k'' 10 20 True True (\<lambda>_. True)) source1"
definition source3 :: source_cache where
  "source3 = sc_exec (ScFinish 0 ''/c/block-1'' None (\<lambda>_. True)) source2"
definition source4 :: source_cache where
  "source4 = sc_exec (ScWait False 0 \<lparr>br_offset = 10, br_length = 20\<rparr> True True) source3"
definition source5 :: source_cache where
  "source5 = sc_exec (ScOpen False ''k'' 200 50 True True (\<lambda>_. True)) source4"

lemma valid_k: "valid_key ''k''"
  by (simp add: valid_key_def contains_any_def contains_def sublist_code)

lemmas source_eval = open_range_def open_cached_def covering_def covers_def
  reserve_roomy reserve_full_def start_flight_def set_flight_def valid_k
  finish_flight_def detach_locked_def wait_done_def reader_locked_def set_pins_def max_cached_range_bytes_def
  wrap64_def

lemma source0_facts:
  "sc_entries source0 = []" "sc_flights source0 = []" "sc_lru source0 = []" "sc_used source0 = 0"
  "sc_reserved source0 = 0" "sc_inflight source0 = 0" "sc_budget source0 = 150" "sc_max_entries source0 = 4096"
  "sc_closed source0 = False" "sc_disabled source0 = False" "sc_next_flight source0 = 0"
  "sc_next_entry source0 = 0" "sc_next_reader source0 = 0"
  by (simp_all add: source0_def new_source_cache_def)

lemma source1_facts:
  "sc_entries source1 = []" "sc_flights source1 = [((''k'', \<lparr>br_offset = 0, br_length = 100\<rparr>), 0)]"
  "sc_lru source1 = []" "sc_used source1 = 0"
  "sc_reserved source1 = 100" "sc_inflight source1 = 1" "sc_budget source1 = 150" "sc_max_entries source1 = 4096"
  "sc_closed source1 = False" "sc_disabled source1 = False" "sc_next_flight source1 = 1"
  "sc_next_entry source1 = 0" "sc_next_reader source1 = 0"
  "flight_at source1 0 = \<lparr>sf_key = ''k'', sf_span = \<lparr>br_offset = 0, br_length = 100\<rparr>, sf_waiters = 1,
     sf_finished = False, sf_result = None, sf_err = None, sf_capture = False, sf_cancelled = False\<rparr>"
  by (simp_all add: source1_def source_eval source0_facts)
lemma source2_facts:
  "sc_entries source2 = []" "sc_flights source2 = [((''k'', \<lparr>br_offset = 0, br_length = 100\<rparr>), 0)]"
  "sc_lru source2 = []" "sc_used source2 = 0"
  "sc_reserved source2 = 100" "sc_inflight source2 = 1" "sc_budget source2 = 150" "sc_max_entries source2 = 4096"
  "sc_closed source2 = False" "sc_disabled source2 = False" "sc_next_flight source2 = 1"
  "sc_next_entry source2 = 0" "sc_next_reader source2 = 0"
  "flight_at source2 0 = \<lparr>sf_key = ''k'', sf_span = \<lparr>br_offset = 0, br_length = 100\<rparr>, sf_waiters = 2,
     sf_finished = False, sf_result = None, sf_err = None, sf_capture = False, sf_cancelled = False\<rparr>"
  by (simp_all add: source2_def source_eval source1_facts)

lemma source3_facts:
  "sc_entries source3 = [((''k'', \<lparr>br_offset = 0, br_length = 100\<rparr>), 0)]" "sc_flights source3 = []"
  "sc_lru source3 = [0]" "sc_used source3 = 100"
  "sc_reserved source3 = 0" "sc_inflight source3 = 0" "sc_budget source3 = 150" "sc_max_entries source3 = 4096"
  "sc_closed source3 = False" "sc_disabled source3 = False" "sc_next_flight source3 = 1"
  "sc_next_entry source3 = 1" "sc_next_reader source3 = 0"
  "flight_at source3 0 = \<lparr>sf_key = ''k'', sf_span = \<lparr>br_offset = 0, br_length = 100\<rparr>, sf_waiters = 2,
     sf_finished = True, sf_result = Some 0, sf_err = None, sf_capture = False, sf_cancelled = False\<rparr>"
  "entry_at source3 0 = \<lparr>se_key = ''k'', se_span = \<lparr>br_offset = 0, br_length = 100\<rparr>,
     se_path = ''/c/block-1'', se_pins = 2\<rparr>"
  by (simp_all add: source3_def source_eval source2_facts)

lemma source4_facts:
  "sc_entries source4 = [((''k'', \<lparr>br_offset = 0, br_length = 100\<rparr>), 0)]" "sc_flights source4 = []"
  "sc_lru source4 = [0]" "sc_used source4 = 100"
  "sc_reserved source4 = 0" "sc_inflight source4 = 0" "sc_budget source4 = 150" "sc_max_entries source4 = 4096"
  "sc_closed source4 = False" "sc_disabled source4 = False" "sc_next_flight source4 = 1"
  "sc_next_entry source4 = 1" "sc_next_reader source4 = 1"
  "flight_at source4 0 = \<lparr>sf_key = ''k'', sf_span = \<lparr>br_offset = 0, br_length = 100\<rparr>, sf_waiters = 1,
     sf_finished = True, sf_result = Some 0, sf_err = None, sf_capture = False, sf_cancelled = False\<rparr>"
  "entry_at source4 0 = \<lparr>se_key = ''k'', se_span = \<lparr>br_offset = 0, br_length = 100\<rparr>,
     se_path = ''/c/block-1'', se_pins = 2\<rparr>"
  "sc_reader_heap source4 0 = \<lparr>sr_entry = 0, sr_start = 10, sr_length = 20, sr_hit = True, sr_closed = False\<rparr>"
  by (simp_all add: source4_def source_eval source3_facts)

lemma source5_facts:
  "sc_entries source5 = [((''k'', \<lparr>br_offset = 0, br_length = 100\<rparr>), 0)]"
  "sc_flights source5 = [((''k'', \<lparr>br_offset = 200, br_length = 50\<rparr>), 1)]"
  "sc_lru source5 = [0]" "sc_used source5 = 100"
  "sc_reserved source5 = 50" "sc_inflight source5 = 1" "sc_budget source5 = 150" "sc_max_entries source5 = 4096"
  "sc_closed source5 = False" "sc_disabled source5 = False" "sc_next_flight source5 = 2"
  "sc_next_entry source5 = 1" "sc_next_reader source5 = 1"
  "flight_at source5 0 = \<lparr>sf_key = ''k'', sf_span = \<lparr>br_offset = 0, br_length = 100\<rparr>, sf_waiters = 1,
     sf_finished = True, sf_result = Some 0, sf_err = None, sf_capture = False, sf_cancelled = False\<rparr>"
  "flight_at source5 1 = \<lparr>sf_key = ''k'', sf_span = \<lparr>br_offset = 200, br_length = 50\<rparr>, sf_waiters = 1,
     sf_finished = False, sf_result = None, sf_err = None, sf_capture = False, sf_cancelled = False\<rparr>"
  "entry_at source5 0 = \<lparr>se_key = ''k'', se_span = \<lparr>br_offset = 0, br_length = 100\<rparr>,
     se_path = ''/c/block-1'', se_pins = 2\<rparr>"
  "sc_reader_heap source5 0 = \<lparr>sr_entry = 0, sr_start = 10, sr_length = 20, sr_hit = True, sr_closed = False\<rparr>"
  by (simp_all add: source5_def source_eval source4_facts)

lemmas source5_simps = source5_facts source5_facts [simplified]

lemma source5_reachable: "sc_reachable 150 0 source5"
proof -
  have "sc_reachable 150 0 source0"
    by (rule sc_start) (simp add: source0_def new_source_cache_def)
  then have "sc_reachable 150 0 source1" unfolding source1_def by (rule sc_step) simp
  then have "sc_reachable 150 0 source2" unfolding source2_def by (rule sc_step) simp
  then have "sc_reachable 150 0 source3" unfolding source3_def
    by (rule sc_step) (simp add: source2_facts source2_facts [simplified])
  then have "sc_reachable 150 0 source4" unfolding source4_def
    by (rule sc_step) (simp add: source3_facts source3_facts [simplified] range_ok_def covers_def wrap64_def)
  then show ?thesis unfolding source5_def by (rule sc_step) simp
qed

section \<open>Properties of every reachable state\<close>

lemma sum_sublist_le:
  fixes f :: "'a \<Rightarrow> int"
  assumes "distinct xs" and "\<And>x. x \<in> set xs \<Longrightarrow> 0 \<le> f x"
  shows "0 \<le> (\<Sum>x\<leftarrow>filter p xs. f x) \<and> (\<Sum>x\<leftarrow>filter p xs. f x) \<le> (\<Sum>x \<in> set xs. f x)"
  using assms by (induction xs) (auto intro: add_increasing)

text \<open>
  the bytes the cache reports are the sizes of its blocks, and together with the bytes that
  are reserved for fills in progress they never exceed the budget; blocks and fills together
  never exceed the entry limit; the blocks that are read make up at most the cached bytes.
\<close>

theorem source_cache_within_budget:
  assumes "sc_reachable budget entries c"
  shows "ss_cached (cache_snapshot c) = (\<Sum>e \<in> set (sc_lru c). entry_size c e) \<and>
    ss_cached (cache_snapshot c) + ss_reserved (cache_snapshot c) \<le> budget \<and>
    (\<Sum>f < sc_next_flight c. pending_bytes c f) \<le> ss_reserved (cache_snapshot c) \<and>
    int (ss_entries (cache_snapshot c)) + ss_inflight (cache_snapshot c) \<le> int (ss_max_entries (cache_snapshot c)) \<and>
    0 \<le> ss_pinned_bytes (cache_snapshot c) \<and> ss_pinned_bytes (cache_snapshot c) \<le> ss_cached (cache_snapshot c)"
proof -
  from sc_reachable_inv [OF assms] have inv: "sc_inv c" and b: "sc_budget c = budget" by simp_all
  note D = sc_invD [OF inv]
  have "0 \<le> entry_size c e" if "e \<in> set (sc_lru c)" for e
    using that D(1) by (auto simp: store_ok_def range_ok_def entry_size_def)
  with D(1) sum_sublist_le [of "sc_lru c" "entry_size c" "\<lambda>e. 0 < se_pins (entry_at c e)"]
  have "0 \<le> ss_pinned_bytes (cache_snapshot c) \<and>
      ss_pinned_bytes (cache_snapshot c) \<le> (\<Sum>e \<in> set (sc_lru c). entry_size c e)"
    by (simp add: cache_snapshot_def store_ok_def entry_size_def [abs_def] Let_def)
  with D(1,5) b show ?thesis by (simp add: cache_snapshot_def store_ok_def budget_ok_def Let_def)
qed

theorem source_cache_within_budget_witness:
  "ss_cached (cache_snapshot source5) = 100 \<and> ss_reserved (cache_snapshot source5) = 50 \<and>
   ss_cached (cache_snapshot source5) + ss_reserved (cache_snapshot source5) \<le> 150"
  using source_cache_within_budget [OF source5_reachable]
  by (simp add: cache_snapshot_def source5_simps Let_def)

text \<open>
  C38: a block that somebody reads stays: in every reachable state the block of an open reader is
  pinned, listed under its key and range, and the reader's window lies inside it; so does the
  block a completed fill promised to an \<open>Open\<close> that has not collected it yet.
\<close>

theorem blocks_in_use_stay_cached:
  assumes "sc_reachable budget entries c"
  shows "(\<forall>r < sc_next_reader c. \<not> sr_closed (sc_reader_heap c r) \<longrightarrow>
      (let v = sc_reader_heap c r; e = entry_at c (sr_entry v)
       in map_of (sc_entries c) (se_key e, se_span e) = Some (sr_entry v) \<and> 0 < se_pins e \<and>
          0 \<le> sr_start v \<and> sr_start v + sr_length v \<le> br_length (se_span e))) \<and>
    (\<forall>f < sc_next_flight c. \<forall>e. 0 < sf_waiters (flight_at c f) \<and> sf_result (flight_at c f) = Some e \<longrightarrow>
      map_of (sc_entries c) (sf_key (flight_at c f), sf_span (flight_at c f)) = Some e)"
proof (intro conjI allI impI)
  from sc_reachable_inv [OF assms] have inv: "sc_inv c" by simp
  note D = sc_invD [OF inv]
  have keys: "map_of (sc_entries c) (se_key (entry_at c e), se_span (entry_at c e)) = Some e" if "e \<in> set (sc_lru c)" for e
    using that D(1) by (simp add: store_ok_def)
  {
    fix r assume r: "r < sc_next_reader c" "\<not> sr_closed (sc_reader_heap c r)"
    let ?e = "sr_entry (sc_reader_heap c r)"
    have e: "?e < sc_next_entry c" using D(4) r by (simp add: readers_ok_def)
    have "reading c ?e r \<le> (\<Sum>r < sc_next_reader c. reading c ?e r)"
      using r by (intro member_le_sum) (auto simp: reading_def)
    moreover have "0 \<le> (\<Sum>f < sc_next_flight c. promised c ?e f)"
      using flights_okD(3) [OF D(2)] by (intro sum_nonneg) (auto simp: promised_def flight_ok_def)
    ultimately have "0 < se_pins (entry_at c ?e)" using D(3) e r by (simp add: pins_ok_def reading_def)
    then show "let v = sc_reader_heap c r; e = entry_at c (sr_entry v)
       in map_of (sc_entries c) (se_key e, se_span e) = Some (sr_entry v) \<and> 0 < se_pins e \<and>
          0 \<le> sr_start v \<and> sr_start v + sr_length v \<le> br_length (se_span e)"
      using D(3,4) e r keys by (simp add: pins_ok_def readers_ok_def Let_def)
  next
    fix f e assume f: "f < sc_next_flight c" "0 < sf_waiters (flight_at c f) \<and> sf_result (flight_at c f) = Some e"
    from flights_okD(3) [OF D(2) f(1)] f
    have ok: "sf_finished (flight_at c f)" "se_key (entry_at c e) = sf_key (flight_at c f)"
      by (auto simp: flight_ok_def)
    from promise_listed [OF inv f(1) _ ok(1), of e] f ok keys [of e]
    show "map_of (sc_entries c) (sf_key (flight_at c f), sf_span (flight_at c f)) = Some e" by simp
  }
qed

theorem blocks_in_use_stay_cached_witness:
  "map_of (sc_entries source5) (''k'', \<lparr>br_offset = 0, br_length = 100\<rparr>) = Some 0 \<and>
   sc_lru source5 = [0] \<and> sr_closed (sc_reader_heap source5 0) = False"
  using blocks_in_use_stay_cached [OF source5_reachable]
  by (simp add: source5_simps)

text \<open>
  C37: what a reader serves is what was asked for: when \<open>Open\<close> answers with a cached reader, or
  \<open>wait\<close> does after a fill, the reader's block belongs to the requested source key, its window
  starts at the requested offset, has the requested length, and lies inside the block.
\<close>

theorem reader_serves_requested_range:
  assumes "sc_reachable budget entries c"
    and "open_range cancelled key off len fetch readable removed c = (OpenReader r, c') \<or>
      sc_legal (ScWait cancelled f \<lparr>br_offset = off, br_length = len\<rparr> hit readable) c \<and>
      key = sf_key (flight_at c f) \<and>
      wait_done cancelled f \<lparr>br_offset = off, br_length = len\<rparr> hit readable c = (OpenReader r, c')"
  shows "let v = sc_reader_heap c' r; e = entry_at c' (sr_entry v)
    in se_key e = key \<and> br_offset (se_span e) + sr_start v = off \<and> sr_length v = len \<and>
       0 \<le> sr_start v \<and> sr_start v + sr_length v \<le> br_length (se_span e)"
proof -
  from sc_reachable_inv [OF assms(1)] have inv: "sc_inv c" by simp
  note D = sc_invD [OF inv]
  let ?s = "\<lparr>br_offset = off, br_length = len\<rparr>"
  have reader: "let v = sc_reader_heap c2 r; e = entry_at c2 (sr_entry v)
      in se_key e = se_key (entry_at c1 i) \<and> br_offset (se_span e) + sr_start v = off \<and> sr_length v = len \<and>
         0 \<le> sr_start v \<and> sr_start v + sr_length v \<le> br_length (se_span e)"
    if "reader_locked i ?s h p readable c1 = (Some r, c2)"
      and "range_ok ?s" "range_ok (se_span (entry_at c1 i))" "covers (se_span (entry_at c1 i)) ?s" for i h p c1 c2
    using that covers_iff [OF that(3,2)]
    by (auto simp: reader_locked_def set_pins_def Let_def split: if_splits)
  from assms(2) show ?thesis
  proof (elim disjE conjE)
    assume o: "open_range cancelled key off len fetch readable removed c = (OpenReader r, c')"
    then have ok: "range_ok ?s" and o: "open_cached key ?s readable removed c = (OpenReader r, c')"
      by (auto simp: open_range_def range_ok_def split: if_splits)
    from o obtain i c2 where i: "covering key ?s (sc_entries c) = Some i"
      and c2: "reader_locked i ?s True False readable c = (Some r, c2)"
      and c': "c' = c2\<lparr>sc_hits := sc_hits c2 + 1\<rparr>"
      by (auto simp: open_cached_def Let_def start_flight_def split: option.splits prod.splits bool.splits)
    have dk: "distinct_keys (sc_entries c)" using D(1) by (simp add: store_ok_def)
    obtain s where s: "map_of (sc_entries c) (key, s) = Some i" "covers s ?s"
      by (rule covering_Some [OF i dk])
    have "i \<in> set (sc_lru c) \<and> (key, s) = (se_key (entry_at c i), se_span (entry_at c i))"
      using s D(1) unfolding store_ok_def by blast
    with D(1) have "range_ok (se_span (entry_at c i))" "s = se_span (entry_at c i)" "key = se_key (entry_at c i)"
      by (auto simp: store_ok_def)
    with reader [OF c2 ok] s show ?thesis by (simp add: c')
  next
    assume legal: "sc_legal (ScWait cancelled f ?s hit readable) c" and k: "key = sf_key (flight_at c f)"
      and w: "wait_done cancelled f ?s hit readable c = (OpenReader r, c')"
    from flights_okD(3) [OF D(2), of f] legal have fok: "flight_ok c f (flight_at c f)" by simp
    from w obtain i where i: "sf_result (flight_at c f) = Some i"
      and rd: "reader_locked i ?s hit True readable (set_flight f (leave c f) c) = (Some r, c')"
      by (auto simp: wait_done_def set_flight_def Let_def split: if_splits option.splits prod.splits)
    from fok i have "se_span (entry_at c i) = sf_span (flight_at c f)" "se_key (entry_at c i) = key"
      "range_ok (sf_span (flight_at c f))" by (auto simp: flight_ok_def k)
    with reader [OF rd] legal show ?thesis by (simp add: set_flight_def)
  qed
qed

theorem reader_serves_requested_range_witness:
  "let c' = snd (open_range False ''k'' 30 40 True True (\<lambda>_. True) source5); v = sc_reader_heap c' 1
   in sr_start v = 30 \<and> sr_length v = 40 \<and> sr_entry v = 0"
proof -
  let ?c = "snd (open_range False ''k'' 30 40 True True (\<lambda>_. True) source5)"
  have o: "open_range False ''k'' 30 40 True True (\<lambda>_. True) source5 = (OpenReader 1, ?c)"
    by (simp add: source_eval source5_simps Let_def)
  have "sr_entry (sc_reader_heap ?c 1) = 0" "se_span (entry_at ?c 0) = \<lparr>br_offset = 0, br_length = 100\<rparr>"
    by (simp_all add: source_eval source5_simps Let_def)
  with reader_serves_requested_range [OF source5_reachable disjI1 [OF o]] show ?thesis
    by (simp add: Let_def)
qed

text \<open>
  C39: a fill is shared, not repeated, and a completed one serves everybody who waited: no two
  unfinished fills that somebody wants are for the same key and range; and once a fill
  completed without an error, every \<open>Open\<close> counted in it gets a reader of its block, whatever
  happened in between, if the cache is not closed and the block's file opens.
\<close>

theorem fills_shared_and_delivered:
  assumes "sc_reachable budget entries c" and "f < sc_next_flight c" and "0 < sf_waiters (flight_at c f)"
  shows "(\<forall>g < sc_next_flight c. g \<noteq> f \<and> \<not> sf_finished (flight_at c f) \<and> \<not> sf_finished (flight_at c g) \<and>
        (0 < sf_waiters (flight_at c g) \<or> sf_capture (flight_at c g)) \<longrightarrow>
        (sf_key (flight_at c g), sf_span (flight_at c g)) \<noteq> (sf_key (flight_at c f), sf_span (flight_at c f))) \<and>
    (sf_finished (flight_at c f) \<and> sf_err (flight_at c f) = None \<and> \<not> sc_closed c \<longrightarrow>
        fst (wait_done False f span hit True c) = OpenReader (sc_next_reader c))"
proof
  from sc_reachable_inv [OF assms(1)] have inv: "sc_inv c" by simp
  note D = sc_invD [OF inv]
  note okf = flights_okD(3) [OF D(2) assms(2)]
  show "\<forall>g < sc_next_flight c. g \<noteq> f \<and> \<not> sf_finished (flight_at c f) \<and> \<not> sf_finished (flight_at c g) \<and>
      (0 < sf_waiters (flight_at c g) \<or> sf_capture (flight_at c g)) \<longrightarrow>
      (sf_key (flight_at c g), sf_span (flight_at c g)) \<noteq> (sf_key (flight_at c f), sf_span (flight_at c f))"
    using okf flights_okD(3) [OF D(2)] assms(3) by (fastforce simp: flight_ok_def)
  show "sf_finished (flight_at c f) \<and> sf_err (flight_at c f) = None \<and> \<not> sc_closed c \<longrightarrow>
      fst (wait_done False f span hit True c) = OpenReader (sc_next_reader c)"
    using okf by (auto simp: flight_ok_def wait_done_def reader_locked_def set_flight_def Let_def)
qed

theorem fills_shared_and_delivered_witness:
  "fst (wait_done False 0 \<lparr>br_offset = 50, br_length = 50\<rparr> True True source5) = OpenReader 1"
  using fills_shared_and_delivered [OF source5_reachable, of 0 "\<lparr>br_offset = 50, br_length = 50\<rparr>" True]
  by (simp add: source5_simps)

section \<open>Filling a block\<close>

text \<open>An \<open>io.Reader\<close> returns at most as many bytes as the buffer it was given holds.\<close>

fun reads_fit :: "nat \<Rightarrow> source_read list \<Rightarrow> bool" where
  "reads_fit remaining [] \<longleftrightarrow> True"
| "reads_fit remaining (r # reads) \<longleftrightarrow>
     (remaining = 0 \<or> length (rd_bytes r) \<le> min 32768 remaining \<and>
       reads_fit (remaining - length (rd_bytes r)) reads)"

definition source_bytes :: "source_read list \<Rightarrow> 8 word list" where
  "source_bytes reads = concat (map rd_bytes reads)"

lemma copy_range_prefix:
  "copy_range n out reads = Some (None, res) \<Longrightarrow> reads_fit n reads \<Longrightarrow>
     res = out @ take n (source_bytes reads) \<and> length res = length out + n"
proof (induction n out reads rule: copy_range.induct)
  case (3 m out r reads)
  let ?n = "length (rd_bytes r)"
  from "3.prems"(2) have fit: "?n \<le> min 32768 (Suc m)" "reads_fit (Suc m - ?n) reads" by simp_all
  then have data: "take (min 32768 (Suc m)) (rd_bytes r) = rd_bytes r" by simp
  from "3.prems"(1) have step: "copy_range (Suc m - ?n) (out @ rd_bytes r) reads = Some (None, res)"
    and go: "\<not> (?n > 0 \<and> \<not> rd_written r)" "\<not> (rd_error r \<noteq> None \<and> \<not> (Suc m - ?n = 0 \<and> rd_error r = Some EOF))"
      "\<not> (?n = 0 \<and> rd_error r = None)"
    unfolding copy_range.simps(3) Let_def data by (simp_all split: if_splits)
  from "3.IH" [OF data [symmetric] refl _ refl refl] step go
  have "res = (out @ rd_bytes r) @ take (Suc m - ?n) (source_bytes reads) \<and>
      length res = length (out @ rd_bytes r) + (Suc m - ?n)" using fit(2) by blast
  then have res: "res = (out @ rd_bytes r) @ take (Suc m - ?n) (source_bytes reads)"
    and len: "length res = length (out @ rd_bytes r) + (Suc m - ?n)" by blast+
  have "?n \<le> Suc m" using fit(1) by simp
  with len have "length res = length out + Suc m" by simp
  with \<open>?n \<le> Suc m\<close> show ?case by (simp only:) (simp add: res source_bytes_def)
qed (simp_all add: source_bytes_def)

text \<open>
  a block holds exactly the bytes of its range: when the copy loop of a fill succeeds it
  wrote the first \<open>n\<close> bytes the source delivered, all of them, whatever the sizes of the reads
  and whether the last one came with \<open>EOF\<close>; and a source that ends early is never a success.
\<close>

theorem fill_copies_the_range:
  assumes "reads_fit n reads"
  shows "(\<forall>res. copy_range n [] reads = Some (None, res) \<longrightarrow>
      res = take n (source_bytes reads) \<and> length res = n) \<and>
    (length (source_bytes reads) < n \<longrightarrow> (\<forall>res. copy_range n [] reads \<noteq> Some (None, res)))"
proof -
  have prefix: "res = take n (source_bytes reads) \<and> length res = n"
    if "copy_range n [] reads = Some (None, res)" for res
    using copy_range_prefix [OF that assms] unfolding append_Nil list.size add_0 .
  have "n \<le> length (source_bytes reads)" if "copy_range n [] reads = Some (None, res)" for res
    using prefix [OF that] by (metis length_take min.cobounded1)
  with prefix show ?thesis by fastforce
qed

definition demo_reads :: "source_read list" where
  "demo_reads =
     [\<lparr>rd_bytes = [1, 2], rd_error = None, rd_written = True\<rparr>,
      \<lparr>rd_bytes = [3], rd_error = Some EOF, rd_written = True\<rparr>]"

theorem fill_copies_the_range_witness:
  "copy_range 3 [] demo_reads = Some (None, [1, 2, 3]) \<and> [1, 2, 3] = take 3 (source_bytes demo_reads)"
proof
  show r: "copy_range 3 [] demo_reads = Some (None, [1, 2, 3])"
    by (simp add: demo_reads_def numeral_3_eq_3)
  have "reads_fit 3 demo_reads" by (simp add: demo_reads_def)
  from fill_copies_the_range [OF this] r show "[1, 2, 3] = take 3 (source_bytes demo_reads)" by blast
qed

section \<open>Capturing pages\<close>

definition page_ok :: "int \<Rightarrow> 8 word list \<Rightarrow> int \<times> 8 word list \<Rightarrow> bool" where
  "page_ok off stream p \<longleftrightarrow>
     length (snd p) = capture_page_bytes \<and> off \<le> fst p \<and> fst p + int capture_page_bytes \<le> max_int64 \<and>
     nat (fst p - off) + capture_page_bytes \<le> length stream \<and>
     snd p = take capture_page_bytes (drop (nat (fst p - off)) stream)"

lemma page_ok_later:
  assumes "page_ok (off + int n) (drop n stream) p" and "n \<le> length stream"
  shows "page_ok off stream p"
proof -
  have "nat (fst p - off) = n + nat (fst p - (off + int n))"
    using assms(1) by (simp add: page_ok_def nat_eq_iff)
  with assms show ?thesis by (auto simp: page_ok_def add.commute)
qed

lemma page_bytes: "0 < capture_page_bytes"
  by (simp add: capture_page_bytes_def)

lemmas capture_unfold = capture_bytes.simps [unfolded Let_def]

lemma capture_bytes_short:
  "length (cr_buffer r) + length rem < capture_page_bytes \<Longrightarrow>
     capture_bytes d rem r = ([], r\<lparr>cr_buffer := cr_buffer r @ rem\<rparr>)"
  by (cases "rem = []") (simp_all add: capture_unfold [of d rem r] capture_unfold [of d "[]"] min_def)

lemma capture_bytes_page:
  assumes "length (cr_buffer r) < capture_page_bytes" and "capture_page_bytes \<le> length (cr_buffer r @ rem)"
  shows "capture_bytes d rem r =
    (let stream = cr_buffer r @ rem;
         flushed = flush_page (d \<noteq> [] \<and> hd d) (r\<lparr>cr_buffer := take capture_page_bytes stream\<rparr>);
         later = capture_bytes (tl d) (drop capture_page_bytes stream) (snd flushed)
     in (case fst flushed of None \<Rightarrow> fst later | Some p \<Rightarrow> p # fst later, snd later))"
proof -
  let ?n = "capture_page_bytes - length (cr_buffer r)"
  have n: "min ?n (length rem) = ?n" "rem \<noteq> []" using assms by auto
  have "cr_buffer r @ take ?n rem = take capture_page_bytes (cr_buffer r @ rem)"
    "drop ?n rem = drop capture_page_bytes (cr_buffer r @ rem)" using assms by simp_all
  with n assms show ?thesis
    by (simp add: capture_unfold [of d rem r] case_prod_unfold Let_def split: option.split)
qed

lemma flush_page_buffer [simp]: "cr_buffer (snd (flush_page a r)) = []"
  by (simp add: flush_page_def Let_def)

lemma flush_page_valid:
  "cr_buffer r \<noteq> [] \<Longrightarrow> 0 \<le> cr_offset r \<and> cr_offset r \<le> max_int64 - int (length (cr_buffer r)) \<Longrightarrow>
     flush_page a r = (if a then Some (cr_offset r, cr_buffer r) else None,
       r\<lparr>cr_offset := cr_offset r + int (length (cr_buffer r)), cr_buffer := []\<rparr>)"
  by (simp add: flush_page_def Let_def)

lemma flush_page_invalid:
  "cr_buffer r \<noteq> [] \<Longrightarrow> \<not> (0 \<le> cr_offset r \<and> cr_offset r \<le> max_int64 - int (length (cr_buffer r))) \<Longrightarrow>
     flush_page a r = (None, r\<lparr>cr_offset := - 1, cr_buffer := []\<rparr>)"
  by (auto simp: flush_page_def Let_def)

lemma capture_negative:
  "cr_offset r < 0 \<Longrightarrow> length (cr_buffer r) < capture_page_bytes \<Longrightarrow> fst (capture_bytes d rem r) = []"
proof (induction "length rem" arbitrary: d rem r rule: less_induct)
  case less
  show ?case
  proof (cases "length (cr_buffer r @ rem) < capture_page_bytes")
    case True
    then show ?thesis by (simp add: capture_bytes_short)
  next
    case False
    let ?s = "cr_buffer r @ rem"
    define r2 where "r2 = snd (flush_page (d \<noteq> [] \<and> hd d) (r\<lparr>cr_buffer := take capture_page_bytes ?s\<rparr>))"
    have nonempty: "take capture_page_bytes ?s \<noteq> []" using False page_bytes by (auto simp del: take_append)
    note flushed = flush_page_invalid [of "r\<lparr>cr_buffer := take capture_page_bytes ?s\<rparr>" "d \<noteq> [] \<and> hd d"]
    have r2: "cr_offset r2 < 0" "cr_buffer r2 = []"
      and none: "fst (flush_page (d \<noteq> [] \<and> hd d) (r\<lparr>cr_buffer := take capture_page_bytes ?s\<rparr>)) = None"
      using flushed nonempty less.prems(1) by (simp_all add: r2_def del: take_append)
    have "length (drop capture_page_bytes ?s) < length rem" using False less.prems(2) by simp
    from less.hyps [OF this r2(1)] r2(2) page_bytes less.prems False none show ?thesis
      by (simp add: capture_bytes_page [of r rem d] Let_def r2_def del: take_append drop_append)
  qed
qed

definition capture_ok ::
  "capture_reader \<Rightarrow> 8 word list \<Rightarrow> bool list \<Rightarrow> (int \<times> 8 word list) list \<times> capture_reader \<Rightarrow> bool" where
  "capture_ok r stream d res \<longleftrightarrow>
     (\<forall>p \<in> set (fst res). page_ok (cr_offset r) stream p) \<and>
     (0 \<le> cr_offset r \<and> cr_offset r + int (length stream) \<le> max_int64 \<longrightarrow>
       cr_offset r \<le> cr_offset (snd res) \<and>
       cr_offset (snd res) + int (length (cr_buffer (snd res))) = cr_offset r + int (length stream) \<and>
       cr_buffer (snd res) = drop (nat (cr_offset (snd res) - cr_offset r)) stream \<and>
       length (cr_buffer (snd res)) < capture_page_bytes \<and>
       (list_all id d \<and> length stream div capture_page_bytes \<le> length d \<longrightarrow>
         concat (map snd (fst res)) @ cr_buffer (snd res) = stream))"

text \<open>One page more in front.\<close>

lemma capture_ok_page:
  assumes r2: "cr_offset r2 = cr_offset r + int capture_page_bytes"
    and size: "capture_page_bytes \<le> length stream"
    and later: "capture_ok r2 (drop capture_page_bytes stream) (tl d) later"
    and range: "0 \<le> cr_offset r" "cr_offset r \<le> max_int64 - int capture_page_bytes"
    and page: "page = (if d \<noteq> [] \<and> hd d then Some (cr_offset r, take capture_page_bytes stream) else None)"
  shows "capture_ok r stream d (case page of None \<Rightarrow> fst later | Some p \<Rightarrow> p # fst later, snd later)"
proof -
  let ?n = capture_page_bytes and ?o = "cr_offset (snd later)"
  have "page_ok (cr_offset r) stream p" if "p \<in> set (fst later)" for p
    using later that page_ok_later [OF _ size] by (simp add: capture_ok_def r2)
  moreover have "page_ok (cr_offset r) stream (cr_offset r, take ?n stream)"
    using size range by (simp add: page_ok_def)
  moreover have "drop (nat (?o - cr_offset r2)) (drop ?n stream) = drop (nat (?o - cr_offset r)) stream"
    if "cr_offset r2 \<le> ?o"
  proof -
    have "nat (?o - cr_offset r2) + ?n = nat (?o - cr_offset r)" using that by (simp add: r2 nat_eq_iff)
    then show ?thesis by simp
  qed
  moreover have "length stream div ?n = Suc (length (drop ?n stream) div ?n)"
    using size page_bytes by (simp add: div_if)
  ultimately show ?thesis
    using later size range page append_take_drop_id [of ?n stream] unfolding capture_ok_def
    by (cases d) (auto simp: r2 simp del: append_take_drop_id)
qed

lemma capture_pages:
  "length (cr_buffer r) < capture_page_bytes \<Longrightarrow> capture_ok r (cr_buffer r @ rem) d (capture_bytes d rem r)"
proof (induction "length rem" arbitrary: d rem r rule: less_induct)
  case less
  let ?s = "cr_buffer r @ rem" and ?n = capture_page_bytes
  show ?case
  proof (cases "length ?s < ?n")
    case True
    then show ?thesis by (simp add: capture_bytes_short capture_ok_def)
  next
    case False
    let ?f = "flush_page (d \<noteq> [] \<and> hd d) (r\<lparr>cr_buffer := take ?n ?s\<rparr>)"
    let ?later = "capture_bytes (tl d) (drop ?n ?s) (snd ?f)"
    have len: "length (take ?n ?s) = ?n" "take ?n ?s \<noteq> []"
      using False page_bytes by (auto simp del: take_append)
    have step: "capture_bytes d rem r =
        (case fst ?f of None \<Rightarrow> fst ?later | Some p \<Rightarrow> p # fst ?later, snd ?later)"
      using capture_bytes_page [of r rem d] less.prems False by (simp add: Let_def del: take_append drop_append)
    have buf: "cr_buffer (snd ?f) = []" by simp
    have shorter: "length (drop ?n ?s) < length rem" using False less.prems by simp
    show ?thesis
    proof (cases "0 \<le> cr_offset r \<and> cr_offset r \<le> max_int64 - int ?n")
      case False': False
      then have neg: "cr_offset (snd ?f) < 0" "fst ?f = None"
        using flush_page_invalid [of "r\<lparr>cr_buffer := take ?n ?s\<rparr>"] len by (simp_all del: take_append)
      with capture_negative [OF neg(1), of "tl d" "drop ?n ?s"] buf page_bytes step False' False show ?thesis
        by (auto simp: capture_ok_def simp del: take_append drop_append)
    next
      case True
      then have off: "cr_offset (snd ?f) = cr_offset r + int ?n"
        and page: "fst ?f = (if d \<noteq> [] \<and> hd d then Some (cr_offset r, take ?n ?s) else None)"
        using flush_page_valid [of "r\<lparr>cr_buffer := take ?n ?s\<rparr>"] len by (simp_all del: take_append)
      have "capture_ok (snd ?f) (drop ?n ?s) (tl d) ?later"
        using less.hyps [OF shorter, of "snd ?f" "tl d"] buf page_bytes by (simp del: take_append drop_append)
      from capture_ok_page [OF off _ this _ _ page] True False step show ?thesis by (simp del: take_append drop_append)
    qed
  qed
qed



end
