(* ===== verification/Gateway_Json.thy ===== *)
theory Gateway_Json
  imports Prelude Complex_Main
begin

text \<open>
  The data the gateway's personal features compute with: \<open>float64\<close> numbers, JSON values as
  \<open>encoding/json\<close> decodes them, the field accessors of \<open>internal/gateway/server.go\<close>, and query
  parameters (\<open>url.Values\<close>) with the accessors of \<open>server.go\<close> and \<open>userdata.go\<close>.
\<close>

section \<open>Numbers\<close>

text \<open>
  A \<open>float64\<close> is a rational number, an infinity (\<open>True\<close> is positive) or not a number; the sign
  of zero is dropped, no operation here observes it. \<open>fl64\<close> rounds a rational to the nearest
  number with a 53 bit significand, ties to even; the magnitudes of the code (ticks, counts,
  percentages) stay between \<open>2 ^ -63\<close> and \<open>2 ^ 70\<close>, where nothing over- or underflows.
\<close>

datatype f64 = Fin rat | Infinite bool | NaN

fun f64_less :: "f64 \<Rightarrow> f64 \<Rightarrow> bool" where
  "f64_less (Fin x) (Fin y) \<longleftrightarrow> x < y"
| "f64_less (Fin x) (Infinite p) \<longleftrightarrow> p"
| "f64_less (Infinite p) (Fin y) \<longleftrightarrow> \<not> p"
| "f64_less (Infinite p) (Infinite q) \<longleftrightarrow> \<not> p \<and> q"
| "f64_less _ _ \<longleftrightarrow> False"

definition f64_ge :: "f64 \<Rightarrow> f64 \<Rightarrow> bool" where
  "f64_ge a b \<longleftrightarrow> f64_less b a \<or> a = b \<and> a \<noteq> NaN"

fun bit_length :: "nat \<Rightarrow> nat" where
  "bit_length n = (if n = 0 then 0 else Suc (bit_length (n div 2)))"

declare bit_length.simps [simp del]

definition round_half_even :: "int \<Rightarrow> int \<Rightarrow> int" where
  "round_half_even p q =
     (let d = p div q; r = p mod q
      in if 2 * r < q \<or> 2 * r = q \<and> even d then d else d + 1)"

definition scaled_round :: "int \<Rightarrow> int \<Rightarrow> int \<Rightarrow> int" where
  "scaled_round p q e =
     (if e \<ge> 0 then round_half_even p (q * 2 ^ nat e) else round_half_even (p * 2 ^ nat (- e)) q)"

definition round_pos :: "int \<Rightarrow> int \<Rightarrow> rat" where
  "round_pos p q =
     (let e = int (bit_length (nat p)) - int (bit_length (nat q)) - 53;
          m = scaled_round p q e;
          (m, e) = (if m < 2 ^ 53 then (m, e) else (scaled_round p q (e + 1), e + 1))
      in if e \<ge> 0 then of_int (m * 2 ^ nat e) else of_int m / of_int (2 ^ nat (- e)))"

definition fl64 :: "rat \<Rightarrow> rat" where
  "fl64 x =
     (case quotient_of x of
        (p, q) \<Rightarrow> if p = 0 then 0 else if p > 0 then round_pos p q else - round_pos (- p) q)"

text \<open>\<open>(float64(a) / float64(b)) * 100\<close>, and \<open>float64(a) / float64(b)\<close>.\<close>

definition ratio64 :: "int \<Rightarrow> int \<Rightarrow> rat" where
  "ratio64 a b = fl64 (fl64 (of_int a) / fl64 (of_int b))"

definition percent64 :: "int \<Rightarrow> int \<Rightarrow> rat" where
  "percent64 a b = fl64 (ratio64 a b * 100)"

text \<open>
  \<open>int64(x)\<close> cuts the fraction off. Out of range the result is up to the implementation; this
  is amd64's.
\<close>

fun f64_to_int64 :: "f64 \<Rightarrow> int" where
  "f64_to_int64 (Fin x) =
     (let n = (if x < 0 then - \<lfloor>- x\<rfloor> else \<lfloor>x\<rfloor>)
      in if in_int64 n then n else - 9223372036854775808)"
| "f64_to_int64 _ = - 9223372036854775808"

text \<open>\<open>strconv.ParseInt(s, 10, 64)\<close> (and \<open>Atoi\<close>), \<open>strconv.ParseBool\<close>.\<close>

definition digit_value :: "char \<Rightarrow> int" where
  "digit_value c = int (of_char c) - 48"

definition all_digits :: "string \<Rightarrow> bool" where
  "all_digits s \<longleftrightarrow> s \<noteq> [] \<and> list_all (\<lambda>c. CHR ''0'' \<le> c \<and> c \<le> CHR ''9'') s"

definition digits_value :: "string \<Rightarrow> int" where
  "digits_value s = foldl (\<lambda>n c. 10 * n + digit_value c) 0 s"

definition parse_int64 :: "string \<Rightarrow> int option" where
  "parse_int64 s =
     (let neg = (s \<noteq> [] \<and> hd s = CHR ''-'');
          ds = (if s \<noteq> [] \<and> (hd s = CHR ''-'' \<or> hd s = CHR ''+'') then tl s else s);
          n = (if neg then - digits_value ds else digits_value ds)
      in if all_digits ds \<and> in_int64 n then Some n else None)"

definition parse_bool :: "string \<Rightarrow> bool option" where
  "parse_bool s =
     (if s \<in> {''1'', ''t'', ''T'', ''TRUE'', ''true'', ''True''} then Some True
      else if s \<in> {''0'', ''f'', ''F'', ''FALSE'', ''false'', ''False''} then Some False
      else None)"

section \<open>JSON values\<close>

text \<open>
  \<open>any\<close> as the code holds it: \<open>json.Number\<close> (a decoder with \<open>UseNumber\<close>), \<open>float64\<close> (one without)
  and \<open>int\<close> (put there by the gateway) are different. An object is an association list; where
  its keys differ in case only, the code picks one at random, the model the first.
\<close>

datatype json =
    JNull
  | JBool bool
  | JNumber string
  | JFloat f64
  | JInt int
  | JString string
  | JArray "json list"
  | JObject "(string \<times> json) list"

type_synonym jobject = "(string \<times> json) list"

definition field :: "jobject \<Rightarrow> string \<Rightarrow> json option" where
  "field obj name = map_option snd (find (\<lambda>(k, _). equal_fold k name) obj)"

definition string_field :: "jobject \<Rightarrow> string \<Rightarrow> string option" where
  "string_field obj name =
     (case field obj name of Some (JString s) \<Rightarrow> if s = [] then None else Some s | _ \<Rightarrow> None)"

text \<open>\<open>s, _ := stringField(obj, name)\<close>.\<close>

definition string_or_empty :: "jobject \<Rightarrow> string \<Rightarrow> string" where
  "string_or_empty obj name = (case string_field obj name of Some s \<Rightarrow> s | None \<Rightarrow> [])"

definition map_field :: "jobject \<Rightarrow> string \<Rightarrow> jobject option" where
  "map_field obj name = (case field obj name of Some (JObject m) \<Rightarrow> Some m | _ \<Rightarrow> None)"

definition bool_field :: "jobject \<Rightarrow> string \<Rightarrow> bool option" where
  "bool_field obj name = (case field obj name of Some (JBool b) \<Rightarrow> Some b | _ \<Rightarrow> None)"

definition int64_field :: "jobject \<Rightarrow> string \<Rightarrow> int option" where
  "int64_field obj name =
     (case field obj name of
        Some (JNumber s) \<Rightarrow> parse_int64 s
      | Some (JFloat x) \<Rightarrow> Some (f64_to_int64 x)
      | Some (JInt n) \<Rightarrow> Some n
      | Some (JString s) \<Rightarrow> parse_int64 (trim_space s)
      | _ \<Rightarrow> None)"

text \<open>\<open>strconv.ParseFloat\<close> is an argument: nothing depends on which number it reads.\<close>

definition float64_field :: "(string \<Rightarrow> f64 option) \<Rightarrow> jobject \<Rightarrow> string \<Rightarrow> f64 option" where
  "float64_field parse_float obj name =
     (case field obj name of
        Some (JNumber s) \<Rightarrow> parse_float s
      | Some (JFloat x) \<Rightarrow> Some x
      | Some (JInt n) \<Rightarrow> Some (Fin (fl64 (of_int n)))
      | Some (JString s) \<Rightarrow> parse_float (trim_space s)
      | _ \<Rightarrow> None)"

definition total_record_count :: "json \<Rightarrow> int option" where
  "total_record_count value =
     (case value of JObject obj \<Rightarrow> int64_field obj ''TotalRecordCount'' | _ \<Rightarrow> None)"

fun maps_from_any_list :: "json list \<Rightarrow> jobject list" where
  "maps_from_any_list [] = []"
| "maps_from_any_list (JObject m # list) = m # maps_from_any_list list"
| "maps_from_any_list (_ # list) = maps_from_any_list list"

definition extract_items :: "json \<Rightarrow> jobject list" where
  "extract_items value =
     (case value of
        JArray list \<Rightarrow> maps_from_any_list list
      | JObject obj \<Rightarrow>
          (case map_of obj ''Items'' of Some (JArray items) \<Rightarrow> maps_from_any_list items | _ \<Rightarrow> [])
      | _ \<Rightarrow> [])"

definition keeps_item :: "(jobject \<Rightarrow> bool) \<Rightarrow> json \<Rightarrow> bool" where
  "keeps_item keep item = (case item of JObject m \<Rightarrow> keep m | _ \<Rightarrow> True)"

definition filter_items_value :: "json \<Rightarrow> (jobject \<Rightarrow> bool) \<Rightarrow> json" where
  "filter_items_value value keep =
     (case value of
        JArray list \<Rightarrow> JArray (filter (keeps_item keep) list)
      | JObject obj \<Rightarrow>
          (case map_of obj ''Items'' of
             Some (JArray items) \<Rightarrow>
               (let filtered = filter (keeps_item keep) items
                in JObject (AList.update ''TotalRecordCount'' (JInt (int (length filtered)))
                     (AList.update ''Items'' (JArray filtered) obj)))
           | _ \<Rightarrow> value)
      | _ \<Rightarrow> value)"

definition item_child_count :: "jobject \<Rightarrow> int" where
  "item_child_count item =
     (case List.map_filter (\<lambda>name. case int64_field item name of
          Some v \<Rightarrow> if v > 0 then Some v else None | None \<Rightarrow> None)
        [''RecursiveItemCount'', ''ChildCount'', ''Count''] of
        [] \<Rightarrow> 0 | v # _ \<Rightarrow> v)"

section \<open>Query parameters\<close>

type_synonym query_values = "(string, string list) gomap"

definition query_all :: "query_values \<Rightarrow> string \<Rightarrow> string list" where
  "query_all q name = (case map_of q name of Some vs \<Rightarrow> vs | None \<Rightarrow> [])"

definition query_get :: "query_values \<Rightarrow> string \<Rightarrow> string" where
  "query_get q name = (case query_all q name of v # _ \<Rightarrow> v | [] \<Rightarrow> [])"

definition query_set :: "string \<Rightarrow> string \<Rightarrow> query_values \<Rightarrow> query_values" where
  "query_set name v q = AList.update name [v] q"

definition int_query :: "query_values \<Rightarrow> string \<Rightarrow> int \<Rightarrow> int" where
  "int_query q name fallback = (case parse_int64 (query_get q name) of Some v \<Rightarrow> v | None \<Rightarrow> fallback)"

fun first_value :: "query_values \<Rightarrow> string list \<Rightarrow> string" where
  "first_value values [] = []"
| "first_value values (name # names) =
     (let v = trim_space (query_get values name) in if v \<noteq> [] then v else first_value values names)"

text \<open>The first name with a value decides, whether it parses or not.\<close>

definition int64_value :: "query_values \<Rightarrow> string list \<Rightarrow> int option" where
  "int64_value values names =
     (let raw = first_value values names in if raw = [] then None else parse_int64 raw)"

definition float64_value :: "(string \<Rightarrow> f64 option) \<Rightarrow> query_values \<Rightarrow> string list \<Rightarrow> f64 option" where
  "float64_value parse_float values names =
     (let raw = first_value values names in if raw = [] then None else parse_float raw)"

definition bool_value :: "query_values \<Rightarrow> string list \<Rightarrow> bool option" where
  "bool_value values names =
     (let raw = first_value values names in if raw = [] then None else parse_bool raw)"

definition split_filter_values :: "string list \<Rightarrow> string list" where
  "split_filter_values values =
     filter (\<lambda>part. part \<noteq> []) (map trim_space (concat (map (split_char (CHR '','')) values)))"

definition lower_set :: "string list \<Rightarrow> string list" where
  "lower_set values = map to_lower (filter (\<lambda>v. v \<noteq> []) values)"

definition is_id_resolution_projection_param :: "string \<Rightarrow> bool" where
  "is_id_resolution_projection_param name =
     (to_lower name \<in> {''fields'', ''enableimagetypes'', ''imagetypelimit'', ''enableimages'',
        ''enableuserdata'', ''enableuserdatas'', ''enabletotalrecordcount''})"

definition query_for_id_resolution :: "query_values \<Rightarrow> query_values" where
  "query_for_id_resolution q = filter (\<lambda>(name, _). is_id_resolution_projection_param name) q"

definition item_matches_resolution_query :: "jobject \<Rightarrow> query_values \<Rightarrow> bool" where
  "item_matches_resolution_query item q =
     (let media_types = lower_set (split_filter_values (query_all q ''MediaTypes''));
          include_types = lower_set (split_filter_values (query_all q ''IncludeItemTypes''));
          exclude_types = lower_set (split_filter_values (query_all q ''ExcludeItemTypes''));
          parent_id = trim_space (query_get q ''ParentId'');
          series_id = trim_space (query_get q ''SeriesId'')
      in (media_types = [] \<or> to_lower (string_or_empty item ''MediaType'') \<in> set media_types) \<and>
         (include_types = [] \<or> to_lower (string_or_empty item ''Type'') \<in> set include_types) \<and>
         to_lower (string_or_empty item ''Type'') \<notin> set exclude_types \<and>
         (parent_id = [] \<or> string_or_empty item ''ParentId'' = parent_id) \<and>
         (series_id = [] \<or> string_or_empty item ''SeriesId'' = series_id))"

text \<open>
  \<open>pageItems\<close> (and \<open>pageResolvedPersonalItems\<close>): \<open>None\<close> is the run-time panic of a slice whose
  upper bound, a sum that wraps around, is negative.
\<close>

definition page_slice :: "int \<Rightarrow> int \<Rightarrow> 'a list \<Rightarrow> 'a list option" where
  "page_slice start limit items =
     (let start = (if start < 0 then 0 else start)
      in if start \<ge> int (length items) then Some []
         else if limit \<le> 0 \<or> wrap64 (start + limit) > int (length items) then Some (drop (nat start) items)
         else if wrap64 (start + limit) < start then None
         else Some (take (nat (wrap64 (start + limit) - start)) (drop (nat start) items)))"

definition page_items :: "'a list \<Rightarrow> query_values \<Rightarrow> 'a list option" where
  "page_items items q = page_slice (int_query q ''StartIndex'' 0) (int_query q ''Limit'' 0) items"

section \<open>Paths\<close>

definition equal_path :: "string \<Rightarrow> string \<Rightarrow> bool" where
  "equal_path a b = equal_fold (trim_right_char (CHR ''/'') a) (trim_right_char (CHR ''/'') b)"

definition path_parts :: "string \<Rightarrow> string list" where
  "path_parts rel = split_char (CHR ''/'') (trim_char (CHR ''/'') rel)"

definition is_resume_path :: "string \<Rightarrow> bool" where
  "is_resume_path rel =
     (case path_parts rel of
        [a, _, b, c] \<Rightarrow> equal_fold a ''Users'' \<and> equal_fold b ''Items'' \<and> equal_fold c ''Resume''
      | _ \<Rightarrow> False)"

definition is_latest_items_path :: "string \<Rightarrow> bool" where
  "is_latest_items_path rel =
     (case path_parts rel of
        [a, _, b, c] \<Rightarrow> equal_fold a ''Users'' \<and> equal_fold b ''Items'' \<and> equal_fold c ''Latest''
      | _ \<Rightarrow> False)"

definition is_next_up_path :: "string \<Rightarrow> bool" where
  "is_next_up_path rel = equal_path rel ''/Shows/NextUp''"

definition is_sessions_path :: "string \<Rightarrow> bool" where
  "is_sessions_path rel = equal_path rel ''/Sessions''"

definition rel_user_matches :: "string \<Rightarrow> string \<Rightarrow> bool" where
  "rel_user_matches rel synthetic_user_id =
     (case path_parts rel of
        a # b # _ \<Rightarrow> \<not> equal_fold a ''Users'' \<or> b = synthetic_user_id
      | _ \<Rightarrow> True)"

definition path_user_matches :: "string \<Rightarrow> string \<Rightarrow> string \<Rightarrow> bool" where
  "path_user_matches request_path gateway_base_path synthetic_user_id =
     rel_user_matches (trim_prefix request_path (trim_right_char (CHR ''/'') gateway_base_path))
       synthetic_user_id"

definition is_allowed_personal_item_list_path :: "string \<Rightarrow> bool" where
  "is_allowed_personal_item_list_path rel =
     (case path_parts rel of
        [a, _, c] \<Rightarrow> a \<noteq> [] \<and>
          (equal_fold a ''Users'' \<and> equal_fold c ''Items'' \<or>
           equal_fold a ''Shows'' \<and> (equal_fold c ''Episodes'' \<or> equal_fold c ''Seasons''))
      | [a] \<Rightarrow> a \<noteq> [] \<and> equal_fold a ''Items''
      | _ \<Rightarrow> False)"

definition is_clearly_non_item_endpoint :: "string \<Rightarrow> bool" where
  "is_clearly_non_item_endpoint rel =
     (let parts = path_parts rel; a = hd parts
      in a = [] \<or>
         (if equal_fold a ''Users'' then length parts \<le> 2
          else to_lower a \<in> {''system'', ''sessions'', ''displaypreferences'', ''devices'', ''plugins'',
            ''scheduledtasks'', ''startup'', ''auth'', ''web'', ''swagger''}))"

definition query_has_personal_filter :: "query_values \<Rightarrow> bool" where
  "query_has_personal_filter q \<longleftrightarrow>
     query_get q ''IsPlayed'' \<noteq> [] \<or> query_get q ''IsFavorite'' \<noteq> [] \<or> query_get q ''IsResumable'' \<noteq> [] \<or>
     list_ex (\<lambda>f. to_lower f \<in> {''isplayed'', ''isunplayed'', ''isresumable'', ''isfavorite''})
       (split_filter_values (query_all q ''Filters''))"

definition should_localize_personal_filter :: "string \<Rightarrow> query_values \<Rightarrow> bool" where
  "should_localize_personal_filter rel q \<longleftrightarrow>
     query_has_personal_filter q \<and> is_allowed_personal_item_list_path rel"

end
