(* ===== verification/Playback_State.thy ===== *)
theory Playback_State
  imports Gateway_Json
begin

text \<open>
  The personal playback state of one user and item, and everything the gateway computes from it
  (\<open>internal/gateway/types.go\<close>, \<open>item_resolution.go\<close>, the pure functions of \<open>userdata.go\<close> and the
  playback part of \<open>server.go\<close>): what a playback report says, what stopping does, how metadata
  and fingerprints are reconciled with the upstream item, how states become filters, resume and
  next-up lists, and how they are written into an item's \<open>UserData\<close>.
\<close>

section \<open>States\<close>

definition emby_ticks_per_second :: int where "emby_ticks_per_second = 10000000"
definition personal_id_batch_limit :: nat where "personal_id_batch_limit = 200"
definition personal_scan_batch_limit :: nat where "personal_scan_batch_limit = 100"
definition personal_scan_item_limit :: nat where "personal_scan_item_limit = 2000"
definition latest_backfill_limit :: int where "latest_backfill_limit = 300"

record playback_state =
  ps_id :: string
  ps_gateway_user :: string
  ps_synthetic_user :: string
  ps_item :: string
  ps_item_name :: string
  ps_item_type :: string
  ps_series :: string
  ps_series_name :: string
  ps_season :: string
  ps_index :: int
  ps_parent_index :: int
  ps_runtime :: int
  ps_position :: int
  ps_played :: bool
  ps_percentage :: "f64 option"
  ps_last_played :: "time option"
  ps_play_count :: int
  ps_favorite :: bool
  ps_likes :: "bool option"
  ps_hide :: bool
  ps_fingerprint :: string
  ps_orphaned :: "time option"
  ps_last_seen :: "time option"
  ps_updated :: time

definition fresh_state :: "string \<Rightarrow> string \<Rightarrow> string \<Rightarrow> playback_state" where
  "fresh_state gateway_user synthetic_user item =
     \<lparr>ps_id = [], ps_gateway_user = gateway_user, ps_synthetic_user = synthetic_user, ps_item = item,
      ps_item_name = [], ps_item_type = [], ps_series = [], ps_series_name = [], ps_season = [],
      ps_index = 0, ps_parent_index = 0, ps_runtime = 0, ps_position = 0, ps_played = False,
      ps_percentage = None, ps_last_played = None, ps_play_count = 0, ps_favorite = False,
      ps_likes = None, ps_hide = False, ps_fingerprint = [], ps_orphaned = None, ps_last_seen = None,
      ps_updated = 0\<rparr>"

definition is_resumable :: "playback_state \<Rightarrow> bool" where
  "is_resumable s \<longleftrightarrow> ps_position s > 0 \<and> \<not> ps_played s \<and> \<not> ps_hide s"

definition state_recency :: "playback_state \<Rightarrow> time" where
  "state_recency s = (case ps_last_played s of Some t \<Rightarrow> t | None \<Rightarrow> ps_updated s)"

definition needs_metadata :: "playback_state \<Rightarrow> bool" where
  "needs_metadata s \<longleftrightarrow>
     trim_space (ps_item_name s) = [] \<or> trim_space (ps_item_type s) = [] \<or>
     equal_fold (ps_item_type s) ''Episode'' \<and> trim_space (ps_series s) = []"

section \<open>Fingerprints\<close>

text \<open>A fingerprint is \<open>type=...|name=...|seriesid=...\<close> of what the upstream item has.\<close>

definition item_fingerprint :: "jobject \<Rightarrow> string" where
  "item_fingerprint item =
     join_with ''|'' (concat (map (\<lambda>key. case string_field item key of
          Some v \<Rightarrow> [to_lower key @ ''='' @ v] | None \<Rightarrow> [])
        [''Type'', ''Name'', ''SeriesId'']))"

definition fingerprint_parts :: "string \<Rightarrow> (string, string) gomap" where
  "fingerprint_parts fp =
     fold (\<lambda>part parts. case cut_char (CHR ''='') part of
          Some (name, v) \<Rightarrow> if name = [] then parts else AList.update name v parts
        | None \<Rightarrow> parts)
       (split_char (CHR ''|'') fp) []"

definition fingerprint_covers :: "string \<Rightarrow> string \<Rightarrow> bool" where
  "fingerprint_covers new old =
     (let olds = fingerprint_parts old; news = fingerprint_parts new
      in olds = [] \<or> list_all (\<lambda>(key, _). map_of news key \<noteq> None) olds)"

definition fingerprints_compatible :: "string \<Rightarrow> string \<Rightarrow> bool" where
  "fingerprints_compatible a b =
     (let as = fingerprint_parts a; bs = fingerprint_parts b
      in as = [] \<or> bs = [] \<or>
         list_all (\<lambda>(key, v). case map_of bs key of Some w \<Rightarrow> w = v | None \<Rightarrow> True) as)"

section \<open>Metadata of the upstream item\<close>

abbreviation or_keep :: "'a option \<Rightarrow> 'a \<Rightarrow> 'a" where
  "or_keep v old \<equiv> (case v of Some x \<Rightarrow> x | None \<Rightarrow> old)"

definition merge_item_metadata :: "jobject \<Rightarrow> playback_state \<Rightarrow> playback_state" where
  "merge_item_metadata item s =
     (let s = s\<lparr>ps_item_name := or_keep (string_field item ''Name'') (ps_item_name s),
                ps_item_type := or_keep (string_field item ''Type'') (ps_item_type s),
                ps_series := or_keep (string_field item ''SeriesId'') (ps_series s),
                ps_series_name := or_keep (string_field item ''SeriesName'') (ps_series_name s),
                ps_season := or_keep (string_field item ''SeasonId'') (ps_season s),
                ps_index := or_keep (int64_field item ''IndexNumber'') (ps_index s),
                ps_parent_index := or_keep (int64_field item ''ParentIndexNumber'') (ps_parent_index s),
                ps_runtime := or_keep (int64_field item ''RunTimeTicks'') (ps_runtime s)\<rparr>;
          new = item_fingerprint item
      in if new = [] then s
         else if ps_fingerprint s = [] \<or> fingerprint_covers new (ps_fingerprint s)
         then s\<lparr>ps_fingerprint := new\<rparr> else s)"

datatype resolution_outcome = ResolutionMissing | ResolutionFingerprintMismatch | ResolutionKeep

definition reconcile_resolved_item ::
  "jobject option \<Rightarrow> time \<Rightarrow> playback_state \<Rightarrow> resolution_outcome \<times> playback_state" where
  "reconcile_resolved_item item now s =
     (case item of
        None \<Rightarrow> (ResolutionMissing, s\<lparr>ps_orphaned := Some now\<rparr>)
      | Some item \<Rightarrow>
          (let fp = item_fingerprint item
           in if ps_fingerprint s \<noteq> [] \<and> fp \<noteq> [] \<and> \<not> fingerprints_compatible (ps_fingerprint s) fp
              then (ResolutionFingerprintMismatch, s\<lparr>ps_orphaned := Some now\<rparr>)
              else (ResolutionKeep,
                merge_item_metadata item (s\<lparr>ps_orphaned := None, ps_last_seen := Some now\<rparr>))))"

definition resolution_should_persist ::
  "playback_state \<Rightarrow> playback_state \<Rightarrow> resolution_outcome \<Rightarrow> bool" where
  "resolution_should_persist before after outcome \<longleftrightarrow>
     outcome \<noteq> ResolutionKeep \<or>
     ps_orphaned before \<noteq> None \<and> ps_orphaned after = None \<or>
     ps_item_name before \<noteq> ps_item_name after \<or> ps_item_type before \<noteq> ps_item_type after \<or>
     ps_series before \<noteq> ps_series after \<or> ps_series_name before \<noteq> ps_series_name after \<or>
     ps_season before \<noteq> ps_season after \<or> ps_index before \<noteq> ps_index after \<or>
     ps_parent_index before \<noteq> ps_parent_index after \<or> ps_runtime before \<noteq> ps_runtime after \<or>
     ps_fingerprint before \<noteq> ps_fingerprint after"

text \<open>\<open>enrichPlaybackStateMetadata\<close>, with the upstream's answer: a JSON value of a 2xx response.\<close>

definition enrich_metadata :: "json option \<Rightarrow> time \<Rightarrow> playback_state \<Rightarrow> playback_state" where
  "enrich_metadata answer now s =
     (if ps_item s = [] then s
      else (case answer of
              Some (JObject item) \<Rightarrow>
                (merge_item_metadata item s)\<lparr>ps_orphaned := None, ps_last_seen := Some now\<rparr>
            | _ \<Rightarrow> s))"

section \<open>Playback reports\<close>

record playback_details =
  pd_item :: string
  pd_position :: "int option"
  pd_played :: "bool option"
  pd_percentage :: "f64 option"
  pd_item_name :: string
  pd_item_type :: string
  pd_series :: string
  pd_series_name :: string
  pd_season :: string
  pd_index :: "int option"
  pd_parent_index :: "int option"
  pd_runtime :: "int option"
  pd_fingerprint :: string

definition no_details :: playback_details where
  "no_details =
     \<lparr>pd_item = [], pd_position = None, pd_played = None, pd_percentage = None, pd_item_name = [],
      pd_item_type = [], pd_series = [], pd_series_name = [], pd_season = [], pd_index = None,
      pd_parent_index = None, pd_runtime = None, pd_fingerprint = []\<rparr>"

abbreviation first_some :: "'a option \<Rightarrow> 'a option \<Rightarrow> 'a option" where
  "first_some a b \<equiv> (case a of Some x \<Rightarrow> Some x | None \<Rightarrow> b)"

text \<open>Both \<open>FromJSON\<close> and \<open>FromValues\<close> return the details and whether an item was named.\<close>

definition details_from_json ::
  "(string \<Rightarrow> f64 option) \<Rightarrow> json \<Rightarrow> playback_details \<times> bool" where
  "details_from_json parse_float v =
     (case v of
        JObject obj \<Rightarrow>
          (let item = map_field obj ''Item'';
               d = (case item of
                      None \<Rightarrow> no_details
                    | Some i \<Rightarrow> no_details
                        \<lparr>pd_item_name := string_or_empty i ''Name'', pd_item_type := string_or_empty i ''Type'',
                         pd_series := string_or_empty i ''SeriesId'',
                         pd_series_name := string_or_empty i ''SeriesName'',
                         pd_season := string_or_empty i ''SeasonId'',
                         pd_index := int64_field i ''IndexNumber'',
                         pd_parent_index := int64_field i ''ParentIndexNumber'',
                         pd_runtime := int64_field i ''RunTimeTicks'',
                         pd_fingerprint := item_fingerprint i\<rparr>);
               d = d\<lparr>pd_item := (case string_field obj ''ItemId'' of Some name \<Rightarrow> name
                       | None \<Rightarrow> (case item of Some i \<Rightarrow> string_or_empty i ''Id'' | None \<Rightarrow> [])),
                     pd_position := first_some (int64_field obj ''PositionTicks'')
                       (int64_field obj ''PlaybackPositionTicks''),
                     pd_runtime := first_some (pd_runtime d) (int64_field obj ''RunTimeTicks''),
                     pd_played := bool_field obj ''Played'',
                     pd_percentage := float64_field parse_float obj ''PlayedPercentage''\<rparr>
           in (d, pd_item d \<noteq> []))
      | _ \<Rightarrow> (no_details, False))"

definition details_from_values ::
  "(string \<Rightarrow> f64 option) \<Rightarrow> query_values \<Rightarrow> playback_details \<times> bool" where
  "details_from_values parse_float values =
     (let d = no_details
        \<lparr>pd_item := first_value values [''ItemId'', ''ItemID'', ''Item.Id'', ''Id''],
         pd_position := int64_value values [''PositionTicks'', ''PlaybackPositionTicks''],
         pd_runtime := int64_value values [''RunTimeTicks''],
         pd_played := bool_value values [''Played''],
         pd_percentage := float64_value parse_float values [''PlayedPercentage'']\<rparr>
      in (d, pd_item d \<noteq> []))"

text \<open>The query fills what the body left open, if the query names an item.\<close>

definition merge_details ::
  "(string \<Rightarrow> f64 option) \<Rightarrow> playback_details \<Rightarrow> query_values \<Rightarrow> playback_details" where
  "merge_details parse_float d values =
     (case details_from_values parse_float values of
        (q, False) \<Rightarrow> d
      | (q, True) \<Rightarrow>
          d\<lparr>pd_item := (if pd_item d = [] then pd_item q else pd_item d),
            pd_position := first_some (pd_position d) (pd_position q),
            pd_runtime := first_some (pd_runtime d) (pd_runtime q),
            pd_played := first_some (pd_played d) (pd_played q),
            pd_percentage := first_some (pd_percentage d) (pd_percentage q)\<rparr>)"

text \<open>
  What the body of a report is, as the media type and the decoders of the library say: nothing
  but white space, a form, a JSON value (when the content type or the first byte says so), or
  anything else.
\<close>

datatype report_body = BodyBlank | BodyForm query_values | BodyJSON json | BodyOther

definition details_from_request ::
  "(string \<Rightarrow> f64 option) \<Rightarrow> query_values \<Rightarrow> report_body \<Rightarrow> playback_details \<times> bool" where
  "details_from_request parse_float query body =
     (case body of
        BodyForm values \<Rightarrow>
          details_from_values parse_float (fold (\<lambda>(k, vs). AList.update k vs) values query)
      | BodyJSON v \<Rightarrow>
          (case details_from_json parse_float v of
             (d, True) \<Rightarrow> (merge_details parse_float d query, True)
           | (d, False) \<Rightarrow>
               (case details_from_values parse_float query of
                  (q, True) \<Rightarrow>
                    (if pd_position d \<noteq> None \<or> pd_runtime d \<noteq> None \<or> pd_played d \<noteq> None \<or> pd_percentage d \<noteq> None
                     then (merge_details parse_float d query, True) else (q, True))
                | (q, False) \<Rightarrow> (q, False)))
      | _ \<Rightarrow> details_from_values parse_float query)"

text \<open>What \<open>recordPlaybackRequest\<close> copies from the report into the state.\<close>

definition apply_details :: "playback_details \<Rightarrow> playback_state \<Rightarrow> playback_state" where
  "apply_details d s =
     s\<lparr>ps_item_name := (if pd_item_name d \<noteq> [] then pd_item_name d else ps_item_name s),
       ps_item_type := (if pd_item_type d \<noteq> [] then pd_item_type d else ps_item_type s),
       ps_series := (if pd_series d \<noteq> [] then pd_series d else ps_series s),
       ps_series_name := (if pd_series_name d \<noteq> [] then pd_series_name d else ps_series_name s),
       ps_season := (if pd_season d \<noteq> [] then pd_season d else ps_season s),
       ps_index := or_keep (pd_index d) (ps_index s),
       ps_parent_index := or_keep (pd_parent_index d) (ps_parent_index s),
       ps_runtime := or_keep (pd_runtime d) (ps_runtime s),
       ps_fingerprint := (if pd_fingerprint d \<noteq> [] then pd_fingerprint d else ps_fingerprint s),
       ps_position := or_keep (pd_position d) (ps_position s),
       ps_percentage := first_some (pd_percentage d) (ps_percentage s),
       ps_played := or_keep (pd_played d) (ps_played s)\<rparr>"

record resume_policy =
  rp_min_pct :: f64
  rp_max_pct :: f64
  rp_min_duration :: f64

definition resume_policy_for_state :: "resume_policy \<Rightarrow> playback_state \<Rightarrow> resume_policy" where
  "resume_policy_for_state cfg s =
     (if equal_fold (ps_item_type s) ''AudioBook'' \<or> equal_fold (ps_item_type s) ''Book''
      then cfg\<lparr>rp_min_duration := Fin 0\<rparr> else cfg)"

definition apply_stopped :: "time \<Rightarrow> bool \<Rightarrow> resume_policy \<Rightarrow> playback_state \<Rightarrow> playback_state" where
  "apply_stopped now was_played policy s =
     (let position = max 0 (ps_position s); runtime = ps_runtime s;
          (completed, position, pct) =
            (if \<not> ps_played s \<and> runtime > 0 \<and> position > 0
             then (let percentage = Fin (percent64 position runtime);
                       duration = Fin (ratio64 runtime emby_ticks_per_second)
                   in if f64_less percentage (rp_min_pct policy) then (False, 0, None)
                      else if f64_less (rp_max_pct policy) percentage \<or>
                              position \<ge> runtime - emby_ticks_per_second
                      then (True, position, ps_percentage s)
                      else if f64_less (Fin 0) (rp_min_duration policy) \<and>
                              f64_less duration (rp_min_duration policy)
                      then (True, position, ps_percentage s)
                      else (False, position, ps_percentage s))
             else (ps_played s, position, ps_percentage s));
          completed = (completed \<or> (case pct of Some p \<Rightarrow> f64_ge p (rp_max_pct policy) | None \<Rightarrow> False))
      in if completed
         then s\<lparr>ps_last_played := Some now, ps_played := True, ps_position := 0,
                ps_percentage := Some (Fin 100),
                ps_play_count := (if was_played then ps_play_count s else wrap64 (ps_play_count s + 1))\<rparr>
         else s\<lparr>ps_position := position, ps_percentage := pct\<rparr>)"

definition playback_event_name :: "string \<Rightarrow> string" where
  "playback_event_name rel =
     (if equal_path rel ''/Sessions/Playing/Progress'' then ''progress''
      else if equal_path rel ''/Sessions/Playing/Stopped'' then ''stopped''
      else ''playing'')"

text \<open>
  The state a report leaves: \<open>answer\<close> is what the upstream says of the item when it is asked.
\<close>

definition reported_state ::
  "time \<Rightarrow> string \<Rightarrow> playback_details \<Rightarrow> resume_policy \<Rightarrow> json option \<Rightarrow> playback_state \<Rightarrow> playback_state" where
  "reported_state now event d cfg answer s =
     (let was_played = ps_played s;
          s = apply_details d s;
          s = (if event = ''stopped''
               then (let s = (if ps_runtime s \<le> 0 \<or> needs_metadata s then enrich_metadata answer now s else s)
                     in apply_stopped now was_played (resume_policy_for_state cfg s) s)
               else s)
      in s\<lparr>ps_updated := now\<rparr>)"

end
