(* ===== verification/Personal_Lists.thy ===== *)
theory Personal_Lists
  imports Playback_State
begin

text \<open>
  The lists the gateway computes from playback states (\<open>userdata.go\<close>, \<open>personalquery.go\<close>, the
  \<open>UserData\<close> overlay of \<open>server.go\<close>): personal filters, resume grouping, the series that are
  active, the next episode of a series, aggregates over a series or season.
\<close>

section \<open>Filters\<close>

record state_filter =
  fl_played :: "bool option"
  fl_favorite :: "bool option"
  fl_resumable :: "bool option"
  fl_series :: string
  fl_season :: string
  fl_orphaned :: bool

definition no_filter :: state_filter where
  "no_filter = \<lparr>fl_played = None, fl_favorite = None, fl_resumable = None, fl_series = [],
     fl_season = [], fl_orphaned = False\<rparr>"

definition state_matches :: "state_filter \<Rightarrow> playback_state \<Rightarrow> bool" where
  "state_matches f s \<longleftrightarrow>
     (fl_orphaned f \<or> ps_orphaned s = None) \<and>
     (case fl_played f of Some v \<Rightarrow> ps_played s = v | None \<Rightarrow> True) \<and>
     (case fl_favorite f of Some v \<Rightarrow> ps_favorite s = v | None \<Rightarrow> True) \<and>
     (case fl_resumable f of Some v \<Rightarrow> is_resumable s = v | None \<Rightarrow> True) \<and>
     (fl_series f = [] \<or> ps_series s = fl_series f) \<and>
     (fl_season f = [] \<or> ps_season s = fl_season f)"

definition states_matching_filter :: "playback_state list \<Rightarrow> state_filter \<Rightarrow> playback_state list" where
  "states_matching_filter states f = filter (state_matches f) states"

definition playback_state_ids :: "playback_state list \<Rightarrow> string list" where
  "playback_state_ids states = filter (\<lambda>i. i \<noteq> []) (map ps_item states)"

definition playback_state_set :: "playback_state list \<Rightarrow> string set" where
  "playback_state_set states = set (playback_state_ids states)"

text \<open>\<open>sort.Strings\<close> of the keys of a map.\<close>

definition sorted_keys :: "string list \<Rightarrow> string list" where
  "sorted_keys ids = stable_sort (<) (remdups ids)"

record filter_op =
  op_positive :: bool
  op_filter :: state_filter

definition op_of_filter :: "string \<Rightarrow> filter_op option" where
  "op_of_filter f =
     (let name = to_lower f
      in if name = ''isplayed'' then Some \<lparr>op_positive = True, op_filter = no_filter\<lparr>fl_played := Some True\<rparr>\<rparr>
         else if name = ''isfavorite'' then Some \<lparr>op_positive = True, op_filter = no_filter\<lparr>fl_favorite := Some True\<rparr>\<rparr>
         else if name = ''isresumable'' then Some \<lparr>op_positive = True, op_filter = no_filter\<lparr>fl_resumable := Some True\<rparr>\<rparr>
         else if name = ''isunplayed'' then Some \<lparr>op_positive = False, op_filter = no_filter\<lparr>fl_played := Some True\<rparr>\<rparr>
         else None)"

definition bool_params :: "(string \<times> state_filter) list" where
  "bool_params =
     [(''IsPlayed'', no_filter\<lparr>fl_played := Some True\<rparr>),
      (''IsFavorite'', no_filter\<lparr>fl_favorite := Some True\<rparr>),
      (''IsResumable'', no_filter\<lparr>fl_resumable := Some True\<rparr>)]"

definition op_of_param :: "query_values \<Rightarrow> string \<times> state_filter \<Rightarrow> filter_op option" where
  "op_of_param q p =
     (if query_get q (fst p) = [] then None
      else map_option (\<lambda>v. \<lparr>op_positive = v, op_filter = snd p\<rparr>) (parse_bool (query_get q (fst p))))"

definition filter_ops :: "query_values \<Rightarrow> filter_op list" where
  "filter_ops q =
     List.map_filter op_of_filter (split_filter_values (query_all q ''Filters'')) @
     List.map_filter (op_of_param q) bool_params"

text \<open>The query that is left for the upstream; a parameter that is present but empty stays.\<close>

definition remaining_query :: "query_values \<Rightarrow> query_values" where
  "remaining_query q =
     (let remaining = filter (\<lambda>f. op_of_filter f = None) (split_filter_values (query_all q ''Filters''));
          q = fold (\<lambda>p q. if query_get q (fst p) = [] then q else AList.delete (fst p) q) bool_params q;
          q = AList.delete ''Filters'' q
      in if remaining = [] then q else query_set ''Filters'' (join_with '','' remaining) q)"

definition intersect_positive :: "string list \<Rightarrow> string list option \<Rightarrow> string list option" where
  "intersect_positive ids acc =
     (case acc of None \<Rightarrow> Some ids | Some old \<Rightarrow> Some (filter (\<lambda>i. i \<in> set ids) old))"

fun apply_ops :: "playback_state list \<Rightarrow> filter_op list \<Rightarrow> string list option \<Rightarrow> string list \<Rightarrow>
    string list option \<times> string list" where
  "apply_ops states [] pos exclude = (pos, exclude)"
| "apply_ops states (op # ops) pos exclude =
     (let matched = states_matching_filter states (op_filter op)
      in if op_positive op
         then apply_ops states ops (intersect_positive (playback_state_ids matched) pos) exclude
         else apply_ops states ops pos (exclude @ map ps_item matched))"

text \<open>
  \<open>personalFilterIDs\<close>, given what the store lists: the items to keep (\<open>None\<close> without a positive
  filter), the items to leave out, and the query that is left.
\<close>

definition personal_filter_ids ::
  "playback_state list \<Rightarrow> query_values \<Rightarrow> (string list option \<times> string list) \<times> query_values" where
  "personal_filter_ids states q =
     (let ops = filter_ops q
      in (if ops = [] then (None, [])
          else map_prod (map_option sorted_keys) sorted_keys (apply_ops states ops None []),
          remaining_query q))"

section \<open>Resume\<close>

definition item_series_id :: "jobject \<Rightarrow> string" where
  "item_series_id m = string_or_empty m ''SeriesId''"

text \<open>The fallback to \<open>SeriesID\<close> finds nothing new: field names are compared caseless.\<close>

fun group_resume_items :: "string list \<Rightarrow> json list \<Rightarrow> json list" where
  "group_resume_items seen [] = []"
| "group_resume_items seen (item # items) =
     (let series = (case item of
          JObject m \<Rightarrow>
            (if string_or_empty m ''SeriesId'' \<noteq> [] then string_or_empty m ''SeriesId''
             else string_or_empty m ''SeriesID'')
        | _ \<Rightarrow> [])
      in if series = [] then item # group_resume_items seen items
         else if series \<in> set seen then group_resume_items seen items
         else item # group_resume_items (series # seen) items)"

definition resume_candidates :: "playback_state list \<Rightarrow> playback_state list" where
  "resume_candidates states =
     stable_sort (\<lambda>a b. state_recency a > state_recency b)
       (states_matching_filter states (no_filter\<lparr>fl_resumable := Some True, fl_orphaned := True\<rparr>))"

section \<open>Next up\<close>

definition series_has_activity :: "playback_state list \<Rightarrow> string \<Rightarrow> bool" where
  "series_has_activity states series \<longleftrightarrow>
     series \<noteq> [] \<and>
     list_ex (\<lambda>s. ps_orphaned s = None \<and> ps_series s = series \<and> (ps_played s \<or> ps_position s > 0)) states"

definition is_active :: "playback_state \<Rightarrow> bool" where
  "is_active s \<longleftrightarrow> ps_item s \<noteq> [] \<and> ps_orphaned s = None \<and> (ps_played s \<or> ps_position s \<noteq> 0)"

definition newest_incomplete_active :: "playback_state list \<Rightarrow> int \<Rightarrow> string list" where
  "newest_incomplete_active states limit =
     (if limit \<le> 0 then []
      else map ps_item (take (nat limit)
        (stable_sort (\<lambda>a b. state_recency a > state_recency b)
          (filter (\<lambda>s. is_active s \<and> needs_metadata s) states))))"

definition next_up_played :: "playback_state list \<Rightarrow> string set" where
  "next_up_played states =
     playback_state_set (filter (\<lambda>s. ps_played s \<and> ps_orphaned s = None) states)"

definition latest_by_series :: "playback_state list \<Rightarrow> (string, time) gomap" where
  "latest_by_series states =
     fold (\<lambda>s latest.
         if ps_series s = [] \<or> ps_orphaned s \<noteq> None then latest
         else if state_recency s > (case map_of latest (ps_series s) of Some t \<Rightarrow> t | None \<Rightarrow> 0)
         then AList.update (ps_series s) (state_recency s) latest else latest)
       states []"

definition recently_active_series :: "playback_state list \<Rightarrow> string list" where
  "recently_active_series states =
     map fst (stable_sort (\<lambda>a b. snd a > snd b) (latest_by_series states))"

text \<open>\<open>episodeIndex\<close>; \<open>None\<close> is an invalid one.\<close>

type_synonym episode_index = "(int \<times> int) option"

definition index_after :: "int \<times> int \<Rightarrow> int \<times> int \<Rightarrow> bool" where
  "index_after a b = (if fst a \<noteq> fst b then fst a > fst b else snd a > snd b)"

definition item_episode_index :: "jobject \<Rightarrow> episode_index" where
  "item_episode_index item =
     (case (int64_field item ''IndexNumber'', int64_field item ''ParentIndexNumber'') of
        (Some episode, Some season) \<Rightarrow> Some (season, episode)
      | _ \<Rightarrow> None)"

definition episode_after :: "jobject \<Rightarrow> episode_index \<Rightarrow> bool" where
  "episode_after item prev =
     (case prev of None \<Rightarrow> True
      | Some l \<Rightarrow> (case item_episode_index item of Some i \<Rightarrow> index_after i l | None \<Rightarrow> False))"

definition episode_order_less :: "jobject \<Rightarrow> jobject \<Rightarrow> bool" where
  "episode_order_less a b =
     (case (item_episode_index a, item_episode_index b) of
        (Some i, Some j) \<Rightarrow> index_after j i
      | (Some i, None) \<Rightarrow> True
      | _ \<Rightarrow> False)"

definition later_index :: "int \<times> int \<Rightarrow> episode_index \<Rightarrow> episode_index" where
  "later_index i prev =
     (case prev of None \<Rightarrow> Some i | Some l \<Rightarrow> if index_after i l then Some i else prev)"

definition last_watched_index :: "playback_state list \<Rightarrow> string \<Rightarrow> episode_index" where
  "last_watched_index states series =
     fold (\<lambda>s. later_index (ps_parent_index s, ps_index s))
       (filter (\<lambda>s. ps_series s = series \<and> ps_orphaned s = None \<and> (ps_played s \<or> ps_position s \<noteq> 0)) states)
       None"

definition last_watched_from_items :: "jobject list \<Rightarrow> playback_state list \<Rightarrow> episode_index" where
  "last_watched_from_items episodes states =
     (let active = map ps_item (filter is_active states)
      in fold (\<lambda>e prev.
           (let i = string_or_empty e ''Id''
            in if i = [] \<or> i \<notin> set active then prev
               else (case item_episode_index e of None \<Rightarrow> prev | Some idx \<Rightarrow> later_index idx prev)))
         episodes None)"

text \<open>The episode \<open>writeNextUpItems\<close> offers for one series, from its sorted episodes.\<close>

definition next_episode :: "playback_state list \<Rightarrow> jobject list \<Rightarrow> jobject option" where
  "next_episode states episodes =
     (let episodes = stable_sort episode_order_less episodes;
          prev = last_watched_from_items episodes states;
          played = next_up_played states
      in find (\<lambda>e. (let i = string_or_empty e ''Id''
           in i \<noteq> [] \<and> i \<notin> played \<and> episode_after e prev)) episodes)"

section \<open>Resolving states against upstream items\<close>

text \<open>\<open>byID\<close>: the last item with an id wins.\<close>

definition items_by_id :: "jobject list \<Rightarrow> (string, jobject) gomap" where
  "items_by_id items =
     fold (\<lambda>item m. let i = string_or_empty item ''Id'' in if i = [] then m else AList.update i item m)
       items []"

definition unique_requested_ids :: "jobject list \<Rightarrow> string list \<Rightarrow> string list" where
  "unique_requested_ids items requested =
     remdups (filter (\<lambda>i. i \<noteq> [] \<and> i \<in> set requested) (map (\<lambda>item. string_or_empty item ''Id'') items))"

definition id_resolution_complete :: "json \<Rightarrow> string list \<Rightarrow> jobject list \<Rightarrow> bool" where
  "id_resolution_complete value requested items =
     (case total_record_count value of
        None \<Rightarrow> False
      | Some n \<Rightarrow>
          int (length (unique_requested_ids items requested)) = n \<and>
          n \<le> int (length (remdups requested)))"

text \<open>One state of \<open>applyResolvedItemsToStates\<close>: the new state, and whether it is persisted.\<close>

definition apply_resolved_item ::
  "(string, jobject) gomap \<Rightarrow> string list option \<Rightarrow> bool \<Rightarrow> time \<Rightarrow> playback_state \<Rightarrow> playback_state \<times> bool" where
  "apply_resolved_item by_id requested orphan_missing now s =
     (if ps_item s = [] \<or> (case requested of Some ids \<Rightarrow> ps_item s \<notin> set ids | None \<Rightarrow> False) then (s, False)
      else (case map_of by_id (ps_item s) of
              None \<Rightarrow>
                (if \<not> orphan_missing then (s, False)
                 else (case reconcile_resolved_item None now s of
                         (outcome, s') \<Rightarrow> (s', resolution_should_persist s s' outcome)))
            | Some item \<Rightarrow>
                (case reconcile_resolved_item (Some item) now s of
                   (outcome, s') \<Rightarrow> (s', resolution_should_persist s s' outcome))))"

definition apply_resolved_items ::
  "jobject list \<Rightarrow> string list option \<Rightarrow> bool \<Rightarrow> time \<Rightarrow> playback_state list \<Rightarrow>
     playback_state list \<times> playback_state list" where
  "apply_resolved_items items requested orphan_missing now states =
     (let results = map (apply_resolved_item (items_by_id items) requested orphan_missing now) states
      in (map fst results, map fst (filter snd results)))"

text \<open>
  \<open>fetchCompleteSeriesEpisodes\<close>: the answers of the upstream to the pages, in order (\<open>None\<close> is a
  failed request). Returns the episodes and whether they are all; \<open>None\<close> when the first page fails.
\<close>

fun add_new_items :: "jobject list \<Rightarrow> string list \<Rightarrow> jobject list \<Rightarrow> jobject list \<times> string list" where
  "add_new_items all seen [] = (all, seen)"
| "add_new_items all seen (item # items) =
     (let i = string_or_empty item ''Id''
      in if i = [] \<or> i \<in> set seen then add_new_items all seen items
         else add_new_items (all @ [item]) (i # seen) items)"

definition is_total :: "int option \<Rightarrow> jobject list \<Rightarrow> bool" where
  "is_total known all = (case known of Some t \<Rightarrow> t \<ge> 0 \<and> int (length all) = t | None \<Rightarrow> False)"

text \<open>
  The loop from page \<open>n\<close> on, \<open>fuel\<close> pages long; \<open>total\<close> is the first non-negative count an answer
  gave.
\<close>

fun fetch_episodes ::
  "(nat \<Rightarrow> json option) \<Rightarrow> nat \<Rightarrow> nat \<Rightarrow> jobject list \<Rightarrow> string list \<Rightarrow> int option \<Rightarrow>
     (jobject list \<times> bool) option" where
  "fetch_episodes page n 0 all seen known = Some (all, is_total known all)"
| "fetch_episodes page n (Suc fuel) all seen known =
     (case page n of
        None \<Rightarrow> if n = 0 then None else Some (all, False)
      | Some value \<Rightarrow>
          (let known = (case known of Some t \<Rightarrow> Some t
                 | None \<Rightarrow> (case total_record_count value of
                       Some t \<Rightarrow> if t < 0 then None else Some t | None \<Rightarrow> None));
               batch = extract_items value;
               (all', seen) = add_new_items all seen batch
           in if is_total known all' then Some (all', True)
              else if (case known of Some t \<Rightarrow> int (length all') > t | None \<Rightarrow> False) then Some (all', False)
              else if length all' = length all \<or> length batch < personal_scan_batch_limit
              then Some (all', is_total known all')
              else fetch_episodes page (n + 1) fuel all' seen known))"

definition fetch_complete_series_episodes :: "(nat \<Rightarrow> json option) \<Rightarrow> (jobject list \<times> bool) option" where
  "fetch_complete_series_episodes page =
     fetch_episodes page 0 (personal_scan_item_limit div personal_scan_batch_limit) [] [] None"

section \<open>Aggregates\<close>

record aggregate =
  ag_played :: int
  ag_known :: int
  ag_total :: int
  ag_last_played :: "time option"
  ag_last_activity :: "time option"

definition no_aggregate :: aggregate where
  "no_aggregate = \<lparr>ag_played = 0, ag_known = 0, ag_total = 0, ag_last_played = None, ag_last_activity = None\<rparr>"

record aggregates =
  ags_series :: "(string, aggregate) gomap"
  ags_seasons :: "(string, aggregate) gomap"

definition later_time :: "time \<Rightarrow> time option \<Rightarrow> time option" where
  "later_time t old = (case old of None \<Rightarrow> Some t | Some o' \<Rightarrow> if t > o' then Some t else old)"

definition add_to_aggregate :: "playback_state \<Rightarrow> aggregate \<Rightarrow> aggregate" where
  "add_to_aggregate s a =
     (let activity = (case ps_last_played s of Some t \<Rightarrow> max (ps_updated s) t | None \<Rightarrow> ps_updated s)
      in a\<lparr>ag_known := ag_known a + 1,
           ag_played := ag_played a + (if ps_played s then 1 else 0),
           ag_last_played := (case ps_last_played s of Some t \<Rightarrow> later_time t (ag_last_played a)
             | None \<Rightarrow> ag_last_played a),
           ag_last_activity := (if activity \<noteq> 0 then later_time activity (ag_last_activity a)
             else ag_last_activity a)\<rparr>)"

definition aggregate_item_ids :: "jobject list \<Rightarrow> string list \<times> string list" where
  "aggregate_item_ids items =
     (let of_type = (\<lambda>t. rev (remdups (rev (map (\<lambda>i. string_or_empty i ''Id'')
            (filter (\<lambda>i. equal_fold (string_or_empty i ''Type'') t) items)))))
      in (of_type ''Series'', of_type ''Season''))"

definition apply_aggregate_total :: "string \<Rightarrow> int \<Rightarrow> aggregates \<Rightarrow> aggregates" where
  "apply_aggregate_total i cnt ags =
     (let ags = (case map_of (ags_series ags) i of
            Some a \<Rightarrow> ags\<lparr>ags_series := AList.update i (a\<lparr>ag_total := cnt\<rparr>) (ags_series ags)\<rparr> | None \<Rightarrow> ags)
      in (case map_of (ags_seasons ags) i of
            Some a \<Rightarrow> ags\<lparr>ags_seasons := AList.update i (a\<lparr>ag_total := cnt\<rparr>) (ags_seasons ags)\<rparr> | None \<Rightarrow> ags))"

definition aggregate_for_item :: "jobject \<Rightarrow> string \<Rightarrow> aggregates \<Rightarrow> aggregate option" where
  "aggregate_for_item item i ags =
     (let t = string_or_empty item ''Type''
      in if equal_fold t ''Series'' \<and> map_of (ags_series ags) i \<noteq> None then map_of (ags_series ags) i
         else if equal_fold t ''Season'' then map_of (ags_seasons ags) i
         else None)"

section \<open>The \<open>UserData\<close> overlay\<close>

text \<open>\<open>t.UTC().Format(time.RFC3339)\<close>.\<close>

fun show_nat :: "nat \<Rightarrow> string" where
  "show_nat n = (if n < 10 then [char_of (48 + n)] else show_nat (n div 10) @ [char_of (48 + n mod 10)])"

declare show_nat.simps [simp del]

definition padded :: "nat \<Rightarrow> int \<Rightarrow> string" where
  "padded width n =
     (let ds = show_nat (nat n) in replicate (width - length ds) (CHR ''0'') @ ds)"

definition is_leap :: "int \<Rightarrow> bool" where
  "is_leap y \<longleftrightarrow> y mod 4 = 0 \<and> (y mod 100 \<noteq> 0 \<or> y mod 400 = 0)"

fun month_day :: "int \<Rightarrow> int \<Rightarrow> int list \<Rightarrow> int \<times> int" where
  "month_day m d [] = (m, d + 1)"
| "month_day m d (l # ls) = (if d < l then (m, d + 1) else month_day (m + 1) (d - l) ls)"

definition civil_date :: "int \<Rightarrow> int \<times> int \<times> int" where
  "civil_date days =
     (let n400 = days div 146097; d = days mod 146097;
          n100 = min 3 (d div 36524); d = d - 36524 * n100;
          n4 = d div 1461; d = d - 1461 * n4;
          n1 = min 3 (d div 365); d = d - 365 * n1;
          y = 400 * n400 + 100 * n100 + 4 * n4 + n1 + 1;
          (m, d) = month_day 1 d [31, if is_leap y then 29 else 28, 31, 30, 31, 30, 31, 31, 30, 31, 30]
      in (y, m, d))"

definition format_rfc3339 :: "time \<Rightarrow> string" where
  "format_rfc3339 t =
     (let secs = t div second; s = secs mod 86400; (y, m, d) = civil_date (secs div 86400)
      in padded 4 y @ ''-'' @ padded 2 m @ ''-'' @ padded 2 d @ ''T'' @
         padded 2 (s div 3600) @ '':'' @ padded 2 (s div 60 mod 60) @ '':'' @ padded 2 (s mod 60) @ ''Z'')"

definition played_percentage_for_item :: "playback_state \<Rightarrow> jobject \<Rightarrow> f64 option" where
  "played_percentage_for_item s item =
     (let runtime = (case int64_field item ''RunTimeTicks'' of
            Some t \<Rightarrow> if t > 0 then t else ps_runtime s | None \<Rightarrow> ps_runtime s)
      in if runtime \<le> 0 \<or> ps_position s \<le> 0 then None
         else Some (Fin (min 100 (max 0 (percent64 (ps_position s) runtime)))))"

definition apply_aggregate_user_data :: "jobject \<Rightarrow> aggregate option \<Rightarrow> jobject \<Rightarrow> jobject" where
  "apply_aggregate_user_data item ag ud =
     (case ag of None \<Rightarrow> ud
      | Some a \<Rightarrow>
          (let cnt = (if item_child_count item > 0 then item_child_count item else ag_total a)
           in if cnt \<le> 0 then ud
              else (let played = min (ag_played a) cnt;
                        ud = AList.update ''UnplayedItemCount'' (JInt (cnt - played)) ud;
                        ud = AList.update ''Played'' (JBool (played \<ge> cnt)) ud;
                        ud = (if played > 0
                              then AList.update ''PlayedPercentage'' (JFloat (Fin (percent64 played cnt))) ud
                              else AList.delete ''PlayedPercentage'' ud)
                    in (case ag_last_played a of
                          Some t \<Rightarrow> AList.update ''LastPlayedDate'' (JString (format_rfc3339 t)) ud
                        | None \<Rightarrow> ud))))"

definition put_or_delete :: "string \<Rightarrow> json option \<Rightarrow> jobject \<Rightarrow> jobject" where
  "put_or_delete key v ud = (case v of Some j \<Rightarrow> AList.update key j ud | None \<Rightarrow> AList.delete key ud)"

definition apply_state_to_user_data ::
  "playback_state \<Rightarrow> jobject \<Rightarrow> aggregate option \<Rightarrow> jobject \<Rightarrow> jobject" where
  "apply_state_to_user_data s item ag ud =
     (let ud = AList.update ''Played'' (JBool (ps_played s)) ud;
          ud = AList.update ''PlaybackPositionTicks'' (JInt (ps_position s)) ud;
          ud = put_or_delete ''PlayedPercentage''
            (if ps_played s then Some (JFloat (Fin 100))
             else map_option JFloat (first_some (played_percentage_for_item s item) (ps_percentage s))) ud;
          ud = put_or_delete ''LastPlayedDate'' (map_option (\<lambda>t. JString (format_rfc3339 t)) (ps_last_played s)) ud;
          ud = AList.update ''PlayCount'' (JInt (ps_play_count s)) ud;
          ud = AList.update ''IsFavorite'' (JBool (ps_favorite s)) ud;
          ud = AList.update ''ItemId'' (JString (ps_item s)) ud;
          ud = AList.update ''Key'' (JString (ps_item s)) ud;
          ud = AList.delete ''Rating'' ud;
          ud = put_or_delete ''UnplayedItemCount'' (if ps_played s then Some (JInt 0) else None) ud;
          ud = apply_aggregate_user_data item ag ud
      in put_or_delete ''Likes'' (map_option JBool (ps_likes s)) ud)"

definition user_data_dto :: "playback_state \<Rightarrow> jobject" where
  "user_data_dto s = apply_state_to_user_data s [] None []"

definition is_base_item_type :: "string \<Rightarrow> bool" where
  "is_base_item_type t =
     (to_lower t \<in> {''adultvideo'', ''aggregatefolder'', ''audio'', ''audiobook'', ''basepluginfolder'',
        ''book'', ''boxset'', ''channel'', ''channelfolderitem'', ''collectionfolder'', ''episode'',
        ''folder'', ''game'', ''gamesystem'', ''genre'', ''livetvchannel'', ''livetvprogram'',
        ''manualplaylistsfolder'', ''movie'', ''musicalbum'', ''musicartist'', ''musicgenre'',
        ''musicvideo'', ''person'', ''photo'', ''photoalbum'', ''playlist'', ''program'', ''recording'',
        ''season'', ''series'', ''studio'', ''trailer'', ''tvchannel'', ''tvprogram'', ''userrootfolder'',
        ''userview'', ''video'', ''year''})"

definition is_base_item_json :: "jobject \<Rightarrow> bool" where
  "is_base_item_json obj \<longleftrightarrow>
     string_field obj ''Id'' \<noteq> None \<and>
     (field obj ''UserData'' \<noteq> None \<or>
      (case string_field obj ''Type'' of Some t \<Rightarrow> is_base_item_type t | None \<Rightarrow> False) \<or>
      list_ex (\<lambda>name. field obj name \<noteq> None)
        [''MediaType'', ''RunTimeTicks'', ''SeriesId'', ''SeasonId'', ''ProviderIds'', ''MediaSources''])"

definition select_base_items :: "json \<Rightarrow> jobject list" where
  "select_base_items v =
     (case v of
        JObject obj \<Rightarrow>
          (if is_base_item_json obj then [obj]
           else (case map_field obj ''Item'' of
                   Some w \<Rightarrow> if is_base_item_json w then [w] else [] | None \<Rightarrow> []) @
                (case field obj ''Items'' of
                   Some (JArray vs) \<Rightarrow> filter is_base_item_json (maps_from_any_list vs) | _ \<Rightarrow> []))
      | JArray vs \<Rightarrow> filter is_base_item_json (maps_from_any_list vs)
      | _ \<Rightarrow> [])"

definition item_ids_from_base_items :: "jobject list \<Rightarrow> string list" where
  "item_ids_from_base_items items = rev (remdups (rev (map (\<lambda>i. string_or_empty i ''Id'') items)))"

text \<open>
  \<open>overlayUserData\<close> of one item, which it changes in place: the object under \<open>UserData\<close> (in
  whatever case), or a new one.
\<close>

definition overlay_item ::
  "string \<Rightarrow> string \<Rightarrow> (string, playback_state) gomap \<Rightarrow> aggregates \<Rightarrow> jobject \<Rightarrow> jobject" where
  "overlay_item gateway_user synthetic_user states ags item =
     (let i = string_or_empty item ''Id'';
          (key, ud) = (case find (\<lambda>(k, _). equal_fold k ''UserData'') item of
             Some (k, JObject m) \<Rightarrow> (k, m) | _ \<Rightarrow> (''UserData'', []));
          s = (case map_of states i of Some s \<Rightarrow> s | None \<Rightarrow> fresh_state gateway_user synthetic_user i)
      in AList.update key (JObject (apply_state_to_user_data s item (aggregate_for_item item i ags) ud)) item)"

end
