(* ===== verification/Gateway_Types.thy ===== *)
theory Gateway_Types
  imports Personal_Lists Path_Policy Route_Policy
begin

text \<open>
  The records the gateway stores and the rules they obey (\<open>internal/gateway/types.go\<close>): the upstream
  source and its endpoints, updates of its authentication and server information, sessions.
  A base URL is stored with what \<open>url.Parse\<close> makes of it. All the messages of an error class are
  one error, as \<open>errors.Is\<close> sees them.
\<close>

section \<open>Errors\<close>

datatype gw_error =
    ErrInvalidCredentials
  | ErrNotFound
  | ErrBadRequest
  | ErrUpstreamNotFound
  | ErrInvalidUpstreamTopology
  | ErrUpstreamAuthConflict
  | ErrUpstreamServerInfoConflict
  | ErrStoreUnavailable
  | ErrContext

section \<open>Strings\<close>

text \<open>
  \<open>utf8.RuneCountInString\<close>: the size of the first rune of a string of bytes; an invalid byte counts
  as a rune of its own.
\<close>

definition byte_in :: "int \<Rightarrow> int \<Rightarrow> char \<Rightarrow> bool" where
  "byte_in lo hi c \<longleftrightarrow> lo \<le> of_char c \<and> of_char c \<le> hi"

definition continues :: "char list \<Rightarrow> bool" where
  "continues cs \<longleftrightarrow> list_all (byte_in 0x80 0xBF) cs"

definition rune_size :: "string \<Rightarrow> nat" where
  "rune_size s =
     (case s of
        a # b # rest \<Rightarrow>
          (if byte_in 0xC2 0xDF a \<and> continues [b] then 2
           else if byte_in 0xE0 0xEF a \<and> rest \<noteq> [] \<and> continues (take 1 rest) \<and>
             byte_in (if a = CHR 0xE0 then 0xA0 else 0x80) (if a = CHR 0xED then 0x9F else 0xBF) b then 3
           else if byte_in 0xF0 0xF4 a \<and> length rest \<ge> 2 \<and> continues (take 2 rest) \<and>
             byte_in (if a = CHR 0xF0 then 0x90 else 0x80) (if a = CHR 0xF4 then 0x8F else 0xBF) b then 4
           else 1)
      | _ \<Rightarrow> 1)"

lemma rune_size_pos: "0 < rune_size s"
  by (simp add: rune_size_def split: list.splits)

function rune_count :: "string \<Rightarrow> nat" where
  "rune_count s = (if s = [] then 0 else Suc (rune_count (drop (rune_size s) s)))"
  by pat_completeness auto
termination
  by (relation "measure length") (auto simp: rune_size_pos)

declare rune_count.simps [simp del]

definition is_trimmed :: "string \<Rightarrow> bool" where
  "is_trimmed v \<longleftrightarrow> v \<noteq> [] \<and> trim_space v = v"

definition valid_generation :: "string \<Rightarrow> bool" where
  "valid_generation v \<longleftrightarrow> is_trimmed v \<and> length v \<le> 128"

definition valid_source_id :: "string \<Rightarrow> bool" where
  "valid_source_id v \<longleftrightarrow> is_trimmed v \<and> rune_count v \<le> 15"

definition valid_server_id :: "string \<Rightarrow> bool" where
  "valid_server_id v \<longleftrightarrow> is_trimmed v \<and> rune_count v \<le> 255"

definition valid_optional_server_name :: "string \<Rightarrow> bool" where
  "valid_optional_server_name v \<longleftrightarrow> v = [] \<or> is_trimmed v \<and> rune_count v \<le> 255"

definition valid_optional_server_version :: "string \<Rightarrow> bool" where
  "valid_optional_server_version v \<longleftrightarrow> v = [] \<or> is_trimmed v \<and> rune_count v \<le> 80"

definition valid_device_id :: "string \<Rightarrow> bool" where
  "valid_device_id v \<longleftrightarrow> is_trimmed v \<and> length v \<le> 255"

definition valid_backend_user_id :: "string \<Rightarrow> bool" where
  "valid_backend_user_id v \<longleftrightarrow> is_trimmed v \<and> length v \<le> 80"

definition valid_token :: "string \<Rightarrow> bool" where
  "valid_token v \<longleftrightarrow> is_trimmed v"

section \<open>The client the gateway presents itself as\<close>

record client_identity =
  ci_user_agent :: string
  ci_client :: string
  ci_device :: string
  ci_device_id :: string
  ci_version :: string

definition default_client_identity :: client_identity where
  "default_client_identity =
     \<lparr>ci_user_agent = ''SenPlayer/6.1.3'', ci_client = ''SenPlayer'', ci_device = ''Mac'',
      ci_device_id = [], ci_version = ''6.1.3''\<rparr>"

definition with_defaults :: "client_identity \<Rightarrow> client_identity" where
  "with_defaults i =
     (let d = default_client_identity;
          pick = (\<lambda>f. if trim_space (f i) = [] then f d else f i)
      in i\<lparr>ci_user_agent := pick ci_user_agent, ci_client := pick ci_client,
           ci_device := pick ci_device, ci_version := pick ci_version\<rparr>)"

section \<open>Source and endpoints\<close>

record upstream_source =
  us_id :: string
  us_key :: string
  us_server_id :: string
  us_server_name :: string
  us_server_version :: string
  us_version_checked :: "time option"
  us_username :: string
  us_password :: string
  us_user_id :: string
  us_token :: string
  us_generation :: string
  us_token_updated :: "time option"
  us_last_login :: "time option"
  us_last_login_error :: string
  us_identity :: client_identity

text \<open>What \<open>url.Parse\<close> says of a base URL.\<close>

record parsed_url =
  pu_scheme :: string
  pu_host :: string
  pu_has_user :: bool
  pu_force_query :: bool
  pu_raw_query :: string
  pu_fragment :: string

record endpoint =
  ep_id :: string
  ep_source :: string
  ep_key :: string
  ep_base_url :: string
  ep_parsed :: "parsed_url option"
  ep_enabled :: bool
  ep_default :: bool
  ep_websocket :: bool
  ep_websocket_probed :: "time option"
  ep_websocket_error :: string

record upstream_runtime =
  ur_source :: upstream_source
  ur_endpoints :: "endpoint list"

definition default_of :: "endpoint list \<Rightarrow> endpoint option" where
  "default_of eps = find ep_default eps"

definition by_key :: "endpoint list \<Rightarrow> string \<Rightarrow> endpoint option" where
  "by_key eps key = find (\<lambda>e. ep_key e = key) eps"

definition enabled_endpoints :: "endpoint list \<Rightarrow> endpoint list" where
  "enabled_endpoints eps = filter ep_enabled eps"

definition enabled_by_key :: "endpoint list \<Rightarrow> string \<Rightarrow> endpoint option" where
  "enabled_by_key eps key = find (\<lambda>e. ep_enabled e \<and> ep_key e = key) eps"

definition default_endpoint :: "upstream_runtime option \<Rightarrow> gw_error + endpoint" where
  "default_endpoint r =
     (case r of
        None \<Rightarrow> Inl ErrInvalidUpstreamTopology
      | Some r \<Rightarrow>
          (case default_of (ur_endpoints r) of
             Some e \<Rightarrow> if ep_enabled e then Inr e else Inl ErrInvalidUpstreamTopology
           | None \<Rightarrow> Inl ErrInvalidUpstreamTopology))"

definition endpoint_for_key :: "upstream_runtime option \<Rightarrow> string \<Rightarrow> endpoint option" where
  "endpoint_for_key r key = (case r of None \<Rightarrow> None | Some r \<Rightarrow> enabled_by_key (ur_endpoints r) key)"

definition valid_endpoint_url :: "parsed_url option \<Rightarrow> bool" where
  "valid_endpoint_url u =
     (case u of
        None \<Rightarrow> False
      | Some u \<Rightarrow>
          (pu_scheme u = ''http'' \<or> pu_scheme u = ''https'') \<and> pu_host u \<noteq> [] \<and> \<not> pu_has_user u \<and>
          \<not> pu_force_query u \<and> pu_raw_query u = [] \<and> pu_fragment u = [])"

definition validate_endpoint :: "string \<Rightarrow> endpoint \<Rightarrow> gw_error option" where
  "validate_endpoint source_id e =
     (if trim_space (ep_id e) = [] \<or> ep_source e \<noteq> source_id \<or> trim_space (ep_key e) = []
      then Some ErrInvalidUpstreamTopology
      else if \<not> valid_endpoint_url (ep_parsed e) then Some ErrInvalidUpstreamTopology
      else None)"

definition validate_endpoints :: "string \<Rightarrow> endpoint list \<Rightarrow> gw_error option" where
  "validate_endpoints source_id eps =
     (if eps = [] then Some ErrInvalidUpstreamTopology
      else if list_ex (\<lambda>e. validate_endpoint source_id e \<noteq> None) eps then Some ErrInvalidUpstreamTopology
      else if length (filter ep_default eps) = 0 then Some ErrInvalidUpstreamTopology
      else if length (filter ep_default eps) > 1 then Some ErrInvalidUpstreamTopology
      else (case default_of eps of
              Some d \<Rightarrow> if ep_enabled d then None else Some ErrInvalidUpstreamTopology
            | None \<Rightarrow> Some ErrInvalidUpstreamTopology))"

definition time_unset :: "time option \<Rightarrow> bool" where
  "time_unset t \<longleftrightarrow> t = None \<or> t = Some 0"

definition validate_persisted_auth :: "upstream_source \<Rightarrow> gw_error option" where
  "validate_persisted_auth s =
     (if \<not> valid_generation (us_generation s) \<or> \<not> valid_device_id (ci_device_id (us_identity s)) \<or>
         \<not> valid_backend_user_id (us_user_id s) \<or> \<not> valid_token (us_token s) \<or>
         time_unset (us_token_updated s) \<or> time_unset (us_last_login s)
      then Some ErrInvalidUpstreamTopology else None)"

definition validate_runtime :: "upstream_runtime \<Rightarrow> gw_error option" where
  "validate_runtime r =
     (let s = ur_source r; i = us_identity s
      in if trim_space (us_id s) = [] \<or> us_key s \<noteq> ''default'' \<or> trim_space (us_server_id s) = [] \<or>
            trim_space (us_username s) = [] \<or> trim_space (us_password s) = []
         then Some ErrInvalidUpstreamTopology
         else if trim_space (ci_user_agent i) = [] \<or> trim_space (ci_client i) = [] \<or>
            trim_space (ci_device i) = [] \<or> trim_space (ci_device_id i) = [] \<or> trim_space (ci_version i) = []
         then Some ErrInvalidUpstreamTopology
         else if us_generation s \<noteq> [] \<and> validate_persisted_auth s \<noteq> None then validate_persisted_auth s
         else validate_endpoints (us_id s) (ur_endpoints r))"

section \<open>Updates of the source\<close>

record auth_update =
  au_source :: string
  au_expected :: string
  au_generation :: string
  au_device :: string
  au_user :: string
  au_token :: string
  au_at :: time

definition validate_auth_update :: "auth_update \<Rightarrow> gw_error option" where
  "validate_auth_update u =
     (if trim_space (au_source u) = [] \<or> \<not> valid_generation (au_generation u) \<or>
         au_expected u \<noteq> [] \<and> \<not> valid_generation (au_expected u) \<or>
         au_generation u = au_expected u \<or> \<not> valid_device_id (au_device u) \<or>
         \<not> valid_backend_user_id (au_user u) \<or> \<not> valid_token (au_token u) \<or> au_at u = 0
      then Some ErrBadRequest else None)"

record server_info_update =
  si_source :: string
  si_server :: string
  si_name :: string
  si_version :: string
  si_checked :: time

definition validate_server_info_update :: "server_info_update \<Rightarrow> gw_error option" where
  "validate_server_info_update u =
     (if \<not> valid_source_id (si_source u) \<or> \<not> valid_server_id (si_server u) \<or>
         \<not> valid_optional_server_name (si_name u) \<or> \<not> valid_optional_server_version (si_version u) \<or>
         si_checked u = 0
      then Some ErrBadRequest else None)"

section \<open>Sessions, users and logs\<close>

record session =
  gs_token_hash :: string
  gs_user :: string
  gs_username :: string
  gs_synthetic_user :: string
  gs_client :: string
  gs_device :: string
  gs_device_id :: string
  gs_version :: string
  gs_remote_ip :: string
  gs_created :: time
  gs_expires :: time
  gs_revoked :: "time option"

definition session_active :: "session option \<Rightarrow> time \<Rightarrow> bool" where
  "session_active s now =
     (case s of None \<Rightarrow> False
      | Some s \<Rightarrow> gs_revoked s = None \<and> (gs_expires s = 0 \<or> now < gs_expires s))"

record gateway_user =
  gu_id :: string
  gu_username :: string
  gu_synthetic :: string
  gu_enabled :: bool

record audit_log =
  al_id :: string
  al_user :: string
  al_synthetic_user :: string
  al_event :: string
  al_message :: string
  al_remote_ip :: string
  al_method :: string
  al_path :: string
  al_status :: int
  al_error_kind :: string
  al_direction :: string
  al_bytes :: int
  al_duration_ms :: int
  al_upstream_status :: int
  al_committed :: bool
  al_created :: time

record playback_event =
  pe_id :: string
  pe_user :: string
  pe_synthetic_user :: string
  pe_item :: string
  pe_item_name :: string
  pe_event :: string
  pe_position :: int
  pe_played :: "bool option"
  pe_percentage :: "f64 option"
  pe_remote_ip :: string
  pe_created :: time

record child_count =
  cc_item :: string
  cc_count :: int
  cc_updated :: time

record display_preference =
  dp_id :: string
  dp_user :: string
  dp_synthetic_user :: string
  dp_preference :: string
  dp_client :: string
  dp_payload :: string
  dp_updated :: time

end
