(* ===== verification/Memory_Store.thy ===== *)
theory Memory_Store
  imports Gateway_Types
begin

text \<open>
  The in-memory store (\<open>internal/gateway/memory_store.go\<close>). Each operation is one critical section
  of its mutex; \<open>now\<close> is the clock reading where the code takes one; \<open>ctx\<close> says whether the
  context is done before the lock and under it. What is stored are values: the code copies
  everything in and out. The iteration over a Go map is the order of the association list.
\<close>

record memory_user =
  mu_user :: gateway_user
  mu_password :: string

record memory_store =
  ms_users :: "(string, memory_user) gomap"
  ms_sessions :: "(string, session) gomap"
  ms_audit :: "audit_log list"
  ms_policies :: "policy list"
  ms_events :: "playback_event list"
  ms_states :: "(string, playback_state) gomap"
  ms_counts :: "(string, child_count) gomap"
  ms_preferences :: "(string, display_preference) gomap"
  ms_sources :: "(string, upstream_source) gomap"
  ms_endpoints :: "(string, endpoint) gomap"
  ms_rules :: "route_rule list"

definition new_memory_store :: memory_store where
  "new_memory_store =
     \<lparr>ms_users = [], ms_sessions = [], ms_audit = [], ms_policies = [], ms_events = [], ms_states = [],
      ms_counts = [], ms_preferences = [], ms_sources = [], ms_endpoints = [], ms_rules = []\<rparr>"

definition playback_state_key :: "string \<Rightarrow> string \<Rightarrow> string" where
  "playback_state_key user item = user @ [CHR 0x00] @ item"

definition display_preference_key :: "string \<Rightarrow> string \<Rightarrow> string \<Rightarrow> string" where
  "display_preference_key user pref client = user @ [CHR 0x00] @ pref @ [CHR 0x00] @ client"

definition or_now :: "time \<Rightarrow> time \<Rightarrow> time" where
  "or_now now t = (if t = 0 then now else t)"

section \<open>The upstream\<close>

definition load_runtime ::
  "(string, upstream_source) gomap \<Rightarrow> (string, endpoint) gomap \<Rightarrow> gw_error + upstream_runtime \<times> string" where
  "load_runtime sources endpoints =
     (if sources = [] \<and> endpoints = [] then Inl ErrUpstreamNotFound
      else (case sources of
              [(key, source)] \<Rightarrow>
                (if key \<noteq> us_id source then Inl ErrInvalidUpstreamTopology
                 else if list_ex (\<lambda>(k, e). k \<noteq> ep_id e \<or> validate_endpoint (us_id source) e \<noteq> None) endpoints
                 then Inl ErrInvalidUpstreamTopology
                 else (let eps = map snd endpoints; r = \<lparr>ur_source = source, ur_endpoints = eps\<rparr>
                       in case validate_endpoints (us_id source) eps of
                            Some err \<Rightarrow> Inl err
                          | None \<Rightarrow> (case validate_runtime r of Some err \<Rightarrow> Inl err | None \<Rightarrow> Inr (r, key))))
            | _ \<Rightarrow> Inl ErrInvalidUpstreamTopology))"

definition load_default_upstream_runtime :: "bool \<times> bool \<Rightarrow> memory_store \<Rightarrow> gw_error + upstream_runtime" where
  "load_default_upstream_runtime ctx m =
     (if fst ctx \<or> snd ctx then Inl ErrContext
      else map_sum id fst (load_runtime (ms_sources m) (ms_endpoints m)))"

text \<open>Why an update did not match.\<close>

definition unmatched_error :: "gw_error \<Rightarrow> string \<Rightarrow> memory_store \<Rightarrow> gw_error" where
  "unmatched_error conflict source_id m =
     (case load_runtime (ms_sources m) (ms_endpoints m) of
        Inl err \<Rightarrow> err
      | Inr (r, _) \<Rightarrow> if us_id (ur_source r) \<noteq> source_id then ErrUpstreamNotFound else conflict)"

definition cas_upstream_auth :: "bool \<times> bool \<Rightarrow> auth_update \<Rightarrow> memory_store \<Rightarrow> gw_error option \<times> memory_store" where
  "cas_upstream_auth ctx u m =
     (if fst ctx then (Some ErrContext, m)
      else if validate_auth_update u \<noteq> None then (validate_auth_update u, m)
      else if snd ctx then (Some ErrContext, m)
      else (case map_of (ms_sources m) (au_source u) of
              None \<Rightarrow> (Some (unmatched_error ErrUpstreamAuthConflict (au_source u) m), m)
            | Some s \<Rightarrow>
                (if us_id s = au_source u \<and> us_key s = ''default'' \<and> us_generation s = au_expected u
                 then (None, m\<lparr>ms_sources := AList.update (au_source u)
                   (s\<lparr>us_generation := au_generation u,
                      us_identity := (us_identity s)\<lparr>ci_device_id := au_device u\<rparr>,
                      us_user_id := au_user u, us_token := au_token u,
                      us_token_updated := Some (au_at u), us_last_login := Some (au_at u),
                      us_last_login_error := []\<rparr>) (ms_sources m)\<rparr>)
                 else (Some (unmatched_error ErrUpstreamAuthConflict (au_source u) m), m))))"

definition update_server_info ::
  "bool \<times> bool \<Rightarrow> server_info_update \<Rightarrow> memory_store \<Rightarrow> gw_error option \<times> memory_store" where
  "update_server_info ctx u m =
     (if fst ctx then (Some ErrContext, m)
      else if validate_server_info_update u \<noteq> None then (validate_server_info_update u, m)
      else if snd ctx then (Some ErrContext, m)
      else (case map_of (ms_sources m) (si_source u) of
              None \<Rightarrow> (Some (unmatched_error ErrUpstreamServerInfoConflict (si_source u) m), m)
            | Some s \<Rightarrow>
                (if us_id s = si_source u \<and> us_key s = ''default'' \<and> us_server_id s = si_server u
                 then (None, m\<lparr>ms_sources := AList.update (si_source u)
                   (s\<lparr>us_server_name := (if si_name u \<noteq> [] then si_name u else us_server_name s),
                      us_server_version := (if si_version u \<noteq> [] then si_version u else us_server_version s),
                      us_version_checked := Some (si_checked u - si_checked u mod 1000000)\<rparr>) (ms_sources m)\<rparr>)
                 else (Some (unmatched_error ErrUpstreamServerInfoConflict (si_source u) m), m))))"

section \<open>Users, logs, policies\<close>

definition authenticate_user :: "string \<Rightarrow> string \<Rightarrow> memory_store \<Rightarrow> gw_error + gateway_user" where
  "authenticate_user username password m =
     (case find (\<lambda>(_, u). gu_username (mu_user u) = username \<and> mu_password u = password \<and> gu_enabled (mu_user u))
        (ms_users m) of
        Some (_, u) \<Rightarrow> Inr (mu_user u) | None \<Rightarrow> Inl ErrInvalidCredentials)"

definition find_user_by_username :: "string \<Rightarrow> memory_store \<Rightarrow> gw_error + gateway_user" where
  "find_user_by_username username m =
     (case find (\<lambda>(_, u). gu_username (mu_user u) = username) (ms_users m) of
        Some (_, u) \<Rightarrow> Inr (mu_user u) | None \<Rightarrow> Inl ErrNotFound)"

definition list_public_users :: "memory_store \<Rightarrow> gateway_user list" where
  "list_public_users m = map (\<lambda>(_, u). mu_user u) (ms_users m)"

definition find_user_by_synthetic_id :: "string \<Rightarrow> memory_store \<Rightarrow> gw_error + gateway_user" where
  "find_user_by_synthetic_id sid m =
     (case find (\<lambda>(_, u). gu_synthetic (mu_user u) = sid) (ms_users m) of
        Some (_, u) \<Rightarrow> Inr (mu_user u) | None \<Rightarrow> Inl ErrNotFound)"

definition record_audit :: "time \<Rightarrow> audit_log \<Rightarrow> memory_store \<Rightarrow> memory_store" where
  "record_audit now e m = m\<lparr>ms_audit := ms_audit m @ [e\<lparr>al_created := or_now now (al_created e)\<rparr>]\<rparr>"

definition check_path_policy :: "string \<Rightarrow> string \<Rightarrow> memory_store \<Rightarrow> decision" where
  "check_path_policy method path m = decide (ms_policies m) method path"

definition list_route_rules :: "bool \<Rightarrow> memory_store \<Rightarrow> gw_error + route_rule list" where
  "list_route_rules cancelled m =
     (if cancelled then Inl ErrContext else Inr (filter rr_enabled (ms_rules m)))"

section \<open>Playback\<close>

definition record_playback_event :: "time \<Rightarrow> playback_event \<Rightarrow> memory_store \<Rightarrow> memory_store" where
  "record_playback_event now e m =
     m\<lparr>ms_events := ms_events m @ [e\<lparr>pe_created := or_now now (pe_created e)\<rparr>]\<rparr>"

definition find_playback_state :: "string \<Rightarrow> string \<Rightarrow> memory_store \<Rightarrow> gw_error + playback_state" where
  "find_playback_state user item m =
     (case map_of (ms_states m) (playback_state_key user item) of
        Some s \<Rightarrow> Inr s | None \<Rightarrow> Inl ErrNotFound)"

definition list_states_by_ids :: "string \<Rightarrow> string list \<Rightarrow> memory_store \<Rightarrow> (string, playback_state) gomap" where
  "list_states_by_ids user items m =
     fold (\<lambda>i states.
         if i = [] then states
         else (case map_of (ms_states m) (playback_state_key user i) of
                 None \<Rightarrow> states
               | Some s \<Rightarrow> if ps_orphaned s \<noteq> None then states else AList.update i s states))
       items []"

definition add_state_to :: "string list \<Rightarrow> string \<Rightarrow> playback_state \<Rightarrow> (string, aggregate) gomap \<Rightarrow> (string, aggregate) gomap" where
  "add_state_to ids i s ags =
     (if i \<in> set ids
      then AList.update i (add_to_aggregate s (case map_of ags i of Some a \<Rightarrow> a | None \<Rightarrow> no_aggregate)) ags
      else ags)"

definition playback_id_set :: "string list \<Rightarrow> string list" where
  "playback_id_set ids = remdups (filter (\<lambda>i. i \<noteq> []) ids)"

definition list_aggregates :: "string \<Rightarrow> string list \<Rightarrow> string list \<Rightarrow> memory_store \<Rightarrow> aggregates" where
  "list_aggregates user series_ids season_ids m =
     (let series = playback_id_set series_ids; seasons = playback_id_set season_ids;
          states = filter (\<lambda>s. ps_gateway_user s = user \<and> ps_orphaned s = None) (map snd (ms_states m))
      in if series = [] \<and> seasons = [] then \<lparr>ags_series = [], ags_seasons = []\<rparr>
         else \<lparr>ags_series = fold (\<lambda>s. add_state_to series (ps_series s) s) states [],
               ags_seasons = fold (\<lambda>s. add_state_to seasons (ps_season s) s) states []\<rparr>)"

definition list_child_counts :: "string list \<Rightarrow> memory_store \<Rightarrow> (string, child_count) gomap" where
  "list_child_counts items m =
     fold (\<lambda>i counts. case map_of (ms_counts m) i of
         Some c \<Rightarrow> AList.update i c counts | None \<Rightarrow> counts) items []"

definition save_child_counts :: "time \<Rightarrow> child_count list \<Rightarrow> memory_store \<Rightarrow> memory_store" where
  "save_child_counts now counts m =
     m\<lparr>ms_counts := fold (\<lambda>c counts.
         if cc_item c = [] \<or> cc_count c \<le> 0 then counts
         else AList.update (cc_item c) (c\<lparr>cc_updated := or_now now (cc_updated c)\<rparr>) counts)
       counts (ms_counts m)\<rparr>"

definition save_playback_state :: "time \<Rightarrow> playback_state \<Rightarrow> memory_store \<Rightarrow> memory_store" where
  "save_playback_state now s m =
     m\<lparr>ms_states := AList.update (playback_state_key (ps_gateway_user s) (ps_item s))
         (s\<lparr>ps_updated := or_now now (ps_updated s)\<rparr>) (ms_states m)\<rparr>"

definition resolve_into :: "playback_state \<Rightarrow> playback_state \<Rightarrow> playback_state" where
  "resolve_into s old =
     old\<lparr>ps_synthetic_user := ps_synthetic_user s, ps_item_name := ps_item_name s,
         ps_item_type := ps_item_type s, ps_series := ps_series s, ps_series_name := ps_series_name s,
         ps_season := ps_season s, ps_index := ps_index s, ps_parent_index := ps_parent_index s,
         ps_runtime := ps_runtime s, ps_fingerprint := ps_fingerprint s,
         ps_orphaned := ps_orphaned s, ps_last_seen := ps_last_seen s\<rparr>"

definition save_playback_resolution :: "time \<Rightarrow> playback_state \<Rightarrow> memory_store \<Rightarrow> memory_store" where
  "save_playback_resolution now s m =
     (let key = playback_state_key (ps_gateway_user s) (ps_item s)
      in case map_of (ms_states m) key of
           Some old \<Rightarrow> m\<lparr>ms_states := AList.update key (resolve_into s old) (ms_states m)\<rparr>
         | None \<Rightarrow> m\<lparr>ms_states := AList.update key (s\<lparr>ps_updated := or_now now (ps_updated s)\<rparr>) (ms_states m)\<rparr>)"

definition list_playback_states :: "string \<Rightarrow> state_filter \<Rightarrow> memory_store \<Rightarrow> playback_state list" where
  "list_playback_states user f m =
     filter (\<lambda>s. ps_gateway_user s = user \<and> state_matches f s) (map snd (ms_states m))"

section \<open>Preferences and sessions\<close>

definition find_display_preference ::
  "string \<Rightarrow> string \<Rightarrow> string \<Rightarrow> memory_store \<Rightarrow> gw_error + display_preference" where
  "find_display_preference user pref client m =
     (case map_of (ms_preferences m) (display_preference_key user pref client) of
        Some p \<Rightarrow> Inr p | None \<Rightarrow> Inl ErrNotFound)"

definition save_display_preference :: "time \<Rightarrow> display_preference \<Rightarrow> memory_store \<Rightarrow> memory_store" where
  "save_display_preference now p m =
     m\<lparr>ms_preferences := AList.update (display_preference_key (dp_user p) (dp_preference p) (dp_client p))
         (p\<lparr>dp_updated := or_now now (dp_updated p)\<rparr>) (ms_preferences m)\<rparr>"

definition save_session :: "session \<Rightarrow> memory_store \<Rightarrow> memory_store" where
  "save_session s m = m\<lparr>ms_sessions := AList.update (gs_token_hash s) s (ms_sessions m)\<rparr>"

definition find_session :: "string \<Rightarrow> memory_store \<Rightarrow> gw_error + session" where
  "find_session token_hash m =
     (case map_of (ms_sessions m) token_hash of Some s \<Rightarrow> Inr s | None \<Rightarrow> Inl ErrNotFound)"

definition session_token_exists :: "string \<Rightarrow> memory_store \<Rightarrow> bool" where
  "session_token_exists token_hash m \<longleftrightarrow> map_of (ms_sessions m) token_hash \<noteq> None"

definition revoke_session :: "time \<Rightarrow> string \<Rightarrow> memory_store \<Rightarrow> gw_error option \<times> memory_store" where
  "revoke_session now token_hash m =
     (case map_of (ms_sessions m) token_hash of
        Some s \<Rightarrow> (None, m\<lparr>ms_sessions := AList.update token_hash (s\<lparr>gs_revoked := Some now\<rparr>) (ms_sessions m)\<rparr>)
      | None \<Rightarrow> (Some ErrNotFound, m))"

end
