(* ===== verification/Upstream_Auth.thy ===== *)
theory Upstream_Auth
  imports Memory_Store
begin

text \<open>
  The gateway's login at the upstream (\<open>upstream_auth.go\<close>), the projection of the upstream onto one
  request (\<open>upstream_snapshot.go\<close>), the choice of the endpoint and the refresh after an unauthorized
  answer (\<open>server.go\<close>). Logins share one flight per source: \<open>singleflight\<close> is an argument, which
  answers with what some caller's \<open>lead\<close> returned. What the upstream answers, the clock, the
  generated identifiers, the state of the contexts and what others do to the store between two of
  its accesses are arguments too.
\<close>

section \<open>One request's view of the upstream\<close>

record request_snapshot =
  rs_base_url :: string
  rs_endpoint_key :: string
  rs_server_id :: string
  rs_user_id :: string
  rs_token :: string
  rs_identity :: client_identity

definition snapshot_from_endpoint :: "upstream_runtime option \<Rightarrow> string \<Rightarrow> gw_error + request_snapshot" where
  "snapshot_from_endpoint runtime key =
     (case runtime of
        None \<Rightarrow> Inl ErrInvalidUpstreamTopology
      | Some r \<Rightarrow>
          (case validate_runtime r of
             Some err \<Rightarrow> Inl err
           | None \<Rightarrow>
               (case validate_persisted_auth (ur_source r) of
                  Some err \<Rightarrow> Inl err
                | None \<Rightarrow>
                    (case (if key = [] then (case default_endpoint (Some r) of Inr e \<Rightarrow> Some e | Inl _ \<Rightarrow> None)
                           else enabled_by_key (ur_endpoints r) key) of
                       None \<Rightarrow> Inl ErrInvalidUpstreamTopology
                     | Some e \<Rightarrow>
                         Inr \<lparr>rs_base_url = ep_base_url e, rs_endpoint_key = ep_key e,
                              rs_server_id = us_server_id (ur_source r), rs_user_id = us_user_id (ur_source r),
                              rs_token = us_token (ur_source r), rs_identity = us_identity (ur_source r)\<rparr>))))"

definition snapshot_from_runtime :: "upstream_runtime option \<Rightarrow> gw_error + request_snapshot" where
  "snapshot_from_runtime runtime = snapshot_from_endpoint runtime []"

text \<open>\<open>selectUpstreamSnapshot\<close>; \<open>rules\<close> is what the store lists.\<close>

definition select_upstream_snapshot ::
  "gw_error + route_rule list \<Rightarrow> upstream_runtime \<Rightarrow> bool \<Rightarrow> string \<Rightarrow> string \<Rightarrow> gw_error + request_snapshot" where
  "select_upstream_snapshot rules runtime is_upgrade method rel =
     (let transport = (if is_upgrade then transport_websocket else transport_http)
      in case rules of
           Inl err \<Rightarrow> Inl err
         | Inr rules \<Rightarrow>
             (let key = (if rules = [] then []
                else select rules \<lparr>rq_method = method, rq_path = rel, rq_transport = transport\<rparr>);
                  key = (if key \<noteq> [] \<and> enabled_by_key (ur_endpoints runtime) key = None then [] else key)
              in snapshot_from_endpoint (Some runtime) key))"

section \<open>The login\<close>

text \<open>What a login needs of the store; the booleans say whether the context is done.\<close>

record 's auth_ops =
  ao_load :: "bool \<times> bool \<Rightarrow> 's \<Rightarrow> gw_error + upstream_runtime"
  ao_cas :: "bool \<times> bool \<Rightarrow> auth_update \<Rightarrow> 's \<Rightarrow> gw_error option \<times> 's"

definition memory_auth_ops :: "memory_store auth_ops" where
  "memory_auth_ops = \<lparr>ao_load = load_default_upstream_runtime, ao_cas = cas_upstream_auth\<rparr>"

datatype auth_error =
    AuthStore gw_error
  | AuthLeaderCanceled
  | AuthCallerCanceled
  | AuthGenerator
  | AuthIdentifierCollision
  | AuthTokenCollision
  | AuthLogin
  | AuthPersistenceMismatch

definition auth_satisfied :: "upstream_runtime option \<Rightarrow> string \<Rightarrow> bool \<Rightarrow> bool" where
  "auth_satisfied runtime failed_token refresh =
     (case runtime of
        None \<Rightarrow> False
      | Some r \<Rightarrow>
          us_generation (ur_source r) \<noteq> [] \<and> (refresh \<longrightarrow> us_token (ur_source r) \<noteq> failed_token))"

text \<open>\<open>freshIdentifiers\<close>: \<open>ids\<close> are what the generators return, \<open>None\<close> for an error.\<close>

fun fresh_identifiers :: "upstream_source \<Rightarrow> (string option \<times> string option) list \<Rightarrow> auth_error + string \<times> string" where
  "fresh_identifiers source [] = Inl AuthIdentifierCollision"
| "fresh_identifiers source ((device, generation) # ids) =
     (case device of
        None \<Rightarrow> Inl AuthGenerator
      | Some d \<Rightarrow>
          (case generation of
             None \<Rightarrow> Inl AuthGenerator
           | Some g \<Rightarrow>
               (if d \<noteq> ci_device_id (us_identity source) \<and> g \<noteq> us_generation source then Inr (d, g)
                else fresh_identifiers source ids)))"

definition generator_attempts :: nat where
  "generator_attempts = 4"

text \<open>
  The answer to the login request: none, or the token a prefix of the body names
  (\<open>extractUpstreamAccessToken\<close>, a streaming use of the JSON library), whether reading the body
  failed or passed the limit, the status, and token, server and user of the decoded body.
\<close>

datatype login_answer =
    NoAnswer
  | Answer (la_early: string) (la_read_failed: bool) (la_too_large: bool) (la_status: int)
      (la_payload: "(string \<times> string \<times> string) option")

record login_result =
  lg_token :: string
  lg_user :: string

definition auth_login ::
  "upstream_runtime \<Rightarrow> login_answer \<Rightarrow> login_result \<times> bool" where
  "auth_login runtime answer =
     (let none = \<lparr>lg_token = [], lg_user = []\<rparr>
      in case default_endpoint (Some runtime) of
           Inl _ \<Rightarrow> (none, False)
         | Inr _ \<Rightarrow>
             (case answer of
                NoAnswer \<Rightarrow> (none, False)
              | Answer early read_failed large status payload \<Rightarrow>
                  (let early_result = \<lparr>lg_token = early, lg_user = []\<rparr>
                   in if read_failed \<or> large \<or> status < 200 \<or> status \<ge> 300 then (early_result, False)
                      else (case payload of
                              None \<Rightarrow> (early_result, False)
                            | Some (token, server, user) \<Rightarrow>
                                (\<lparr>lg_token = token, lg_user = user\<rparr>,
                                 is_trimmed token \<and> is_trimmed user \<and> is_trimmed server \<and>
                                 server = us_server_id (ur_source runtime))))))"

definition ownership_matches :: "upstream_runtime \<Rightarrow> auth_update \<Rightarrow> bool" where
  "ownership_matches runtime u \<longleftrightarrow>
     us_id (ur_source runtime) = au_source u \<and> us_generation (ur_source runtime) = au_generation u \<and>
     ci_device_id (us_identity (ur_source runtime)) = au_device u \<and>
     us_user_id (ur_source runtime) = au_user u \<and> us_token (ur_source runtime) = au_token u"

section \<open>Giving tokens back\<close>

record logout_request =
  lo_base_url :: string
  lo_device :: string
  lo_user :: string
  lo_token :: string

text \<open>\<open>logout\<close>, where \<open>url_ok\<close> says which base URLs a request can be built for.\<close>

definition auth_logout :: "(string \<Rightarrow> bool) \<Rightarrow> endpoint \<Rightarrow> string \<Rightarrow> string \<Rightarrow> string \<Rightarrow> logout_request list" where
  "auth_logout url_ok e device user token =
     (if is_trimmed token \<and> url_ok (ep_base_url e)
      then [\<lparr>lo_base_url = ep_base_url e, lo_device = device, lo_user = user, lo_token = token\<rparr>] else [])"

definition cleanup_with_current ::
  "(string \<Rightarrow> bool) \<Rightarrow> login_result \<Rightarrow> upstream_runtime \<Rightarrow> string \<Rightarrow> upstream_runtime \<Rightarrow> logout_request list" where
  "cleanup_with_current url_ok result runtime device current =
     (if lg_token result = [] \<or> lg_token result = us_token (ur_source runtime) \<or>
         us_token (ur_source current) = lg_token result then []
      else (case default_endpoint (Some runtime) of
              Inl _ \<Rightarrow> []
            | Inr e \<Rightarrow> auth_logout url_ok e device (lg_user result) (lg_token result)))"

definition cleanup_invocation ::
  "(string \<Rightarrow> bool) \<Rightarrow> login_result \<Rightarrow> upstream_runtime \<Rightarrow> string \<Rightarrow> gw_error + upstream_runtime \<Rightarrow> logout_request list" where
  "cleanup_invocation url_ok result runtime device loaded =
     (if lg_token result = [] \<or> lg_token result = us_token (ur_source runtime) then []
      else (case loaded of
              Inl _ \<Rightarrow> []
            | Inr current \<Rightarrow> cleanup_with_current url_ok result runtime device current))"

definition retire_old ::
  "(string \<Rightarrow> bool) \<Rightarrow> upstream_runtime \<Rightarrow> gw_error + upstream_runtime \<Rightarrow> logout_request list" where
  "retire_old url_ok runtime loaded =
     (let s = ur_source runtime
      in if us_generation s = [] \<or> \<not> is_trimmed (us_token s) \<or> \<not> is_trimmed (us_user_id s) \<or>
            \<not> is_trimmed (ci_device_id (us_identity s)) then []
         else (case loaded of
                 Inl _ \<Rightarrow> []
               | Inr current \<Rightarrow>
                   (if us_token (ur_source current) = us_token s then []
                    else (case default_endpoint (Some runtime) of
                            Inl _ \<Rightarrow> []
                          | Inr e \<Rightarrow> auth_logout url_ok e (ci_device_id (us_identity s)) (us_user_id s) (us_token s)))))"

section \<open>The leader of a flight\<close>

text \<open>
  What a leader meets: the contexts where it looks at them, what others did to the store before its
  later accesses, generated identifiers, the answer to its login, the clock.
\<close>

record 's lead_env =
  le_ctx_load :: "bool \<times> bool"
  le_ctx_login :: bool
  le_ctx_cas :: "bool \<times> bool"
  le_ctx_reload :: "bool \<times> bool"
  le_ctx_cleanup :: "bool \<times> bool"
  le_ctx_error :: bool
  le_before_cas :: "'s \<Rightarrow> 's"
  le_before_reload :: "'s \<Rightarrow> 's"
  le_before_cleanup :: "'s \<Rightarrow> 's"
  le_ids :: "(string option \<times> string option) list"
  le_answer :: "upstream_runtime \<Rightarrow> string \<Rightarrow> login_answer"
  le_url_ok :: "string \<Rightarrow> bool"
  le_now :: time

definition leader_error :: "'s lead_env \<Rightarrow> auth_error \<Rightarrow> auth_error" where
  "leader_error env e = (if le_ctx_error env then AuthLeaderCanceled else e)"

text \<open>From the compare and swap on; the result, the logouts and the store.\<close>

definition lead_persist ::
  "'s auth_ops \<Rightarrow> 's lead_env \<Rightarrow> upstream_runtime \<Rightarrow> login_result \<Rightarrow> string \<Rightarrow> string \<Rightarrow> 's \<Rightarrow>
     (auth_error + upstream_runtime) \<times> logout_request list \<times> 's" where
  "lead_persist ops env runtime result device generation st =
     (let u = \<lparr>au_source = us_id (ur_source runtime), au_expected = us_generation (ur_source runtime),
               au_generation = generation, au_device = device, au_user = lg_user result,
               au_token = lg_token result, au_at = le_now env\<rparr>;
          (failed, st) = ao_cas ops (le_ctx_cas env) u (le_before_cas env st);
          st = le_before_reload env st;
          loaded = ao_load ops (le_ctx_reload env) st
      in case failed of
           Some err \<Rightarrow>
             (case loaded of
                Inl _ \<Rightarrow> (Inl (leader_error env (AuthStore err)), [], st)
              | Inr current \<Rightarrow>
                  (if ownership_matches current u then (Inr current, [], st)
                   else (let logouts = cleanup_with_current (le_url_ok env) result runtime device current
                         in if err = ErrUpstreamAuthConflict then (Inr current, logouts, st)
                            else (Inl (leader_error env (AuthStore err)), logouts, st))))
         | None \<Rightarrow>
             (case loaded of
                Inl err \<Rightarrow> (Inl (leader_error env (AuthStore err)), [], st)
              | Inr current \<Rightarrow>
                  (if ownership_matches current u
                   then (let st = le_before_cleanup env st
                         in (Inr current, retire_old (le_url_ok env) runtime (ao_load ops (le_ctx_cleanup env) st), st))
                   else if us_generation (ur_source current) \<noteq> au_expected u \<and>
                           us_generation (ur_source current) \<noteq> au_generation u
                   then (Inr current, [], st)
                   else (Inl AuthPersistenceMismatch, [], st))))"

definition lead ::
  "'s auth_ops \<Rightarrow> 's lead_env \<Rightarrow> string \<Rightarrow> bool \<Rightarrow> 's \<Rightarrow>
     (auth_error + upstream_runtime) \<times> logout_request list \<times> 's" where
  "lead ops env failed_token refresh st =
     (case ao_load ops (le_ctx_load env) st of
        Inl err \<Rightarrow> (Inl (leader_error env (AuthStore err)), [], st)
      | Inr runtime \<Rightarrow>
          (if auth_satisfied (Some runtime) failed_token refresh then (Inr runtime, [], st)
           else (case fresh_identifiers (ur_source runtime) (take generator_attempts (le_ids env)) of
                   Inl err \<Rightarrow> (Inl err, [], st)
                 | Inr (device, generation) \<Rightarrow>
                     (let (result, accepted) = auth_login runtime (le_answer env runtime device);
                          st' = le_before_cleanup env st;
                          cleanup = cleanup_invocation (le_url_ok env) result runtime device
                            (ao_load ops (le_ctx_cleanup env) st')
                      in if \<not> accepted then (Inl (leader_error env AuthLogin), cleanup, st')
                         else if lg_token result = us_token (ur_source runtime)
                         then (Inl AuthTokenCollision, [], st)
                         else if le_ctx_login env then (Inl AuthLeaderCanceled, cleanup, st')
                         else lead_persist ops env runtime result device generation st))))"

section \<open>Callers\<close>

text \<open>
  What a caller receives from the flight it joins: it gave up first, or what the leader returned.
  Other callers' flights may change the store.
\<close>

datatype flight_answer = CallerDone | Shared "auth_error + upstream_runtime"

type_synonym 's auth_flight = "'s \<Rightarrow> flight_answer \<times> 's"

text \<open>
  \<open>run\<close> with the flights it may join; \<open>ctx\<close> says what the context is when a turn begins, at the load
  of that turn and after the flight. \<open>None\<close>: it would join one more flight than given.
\<close>

fun auth_run ::
  "'s auth_ops \<Rightarrow> (bool \<Rightarrow> bool \<times> (bool \<times> bool) \<times> bool) \<Rightarrow> string \<Rightarrow> bool \<Rightarrow> bool \<Rightarrow> 's auth_flight list \<Rightarrow> 's \<Rightarrow>
     (auth_error + upstream_runtime) option \<times> 's" where
  "auth_run ops ctx failed_token refresh retried flights st =
     (case ctx retried of (done_first, done_load, done_after) \<Rightarrow>
       (if done_first then (Some (Inl AuthCallerCanceled), st)
        else (case ao_load ops done_load st of
                Inl err \<Rightarrow> (Some (Inl (AuthStore err)), st)
              | Inr runtime \<Rightarrow>
                  (if auth_satisfied (Some runtime) failed_token refresh then (Some (Inr runtime), st)
                   else (case flights of
                           [] \<Rightarrow> (None, st)
                         | flight # flights \<Rightarrow>
                             (case flight st of
                                (CallerDone, st) \<Rightarrow> (Some (Inl AuthCallerCanceled), st)
                              | (Shared (Inl err), st) \<Rightarrow>
                                  (if err = AuthLeaderCanceled \<and> \<not> done_after \<and> \<not> retried
                                   then auth_run ops ctx failed_token refresh True flights st
                                   else (Some (Inl err), st))
                              | (Shared (Inr r), st) \<Rightarrow>
                                  (if auth_satisfied (Some r) failed_token refresh then (Some (Inr r), st)
                                   else if retried then (Some (Inl (AuthStore ErrUpstreamAuthConflict)), st)
                                   else auth_run ops ctx failed_token refresh True flights st)))))))"

declare auth_run.simps [simp del]

definition auth_ensure ::
  "'s auth_ops \<Rightarrow> (bool \<Rightarrow> bool \<times> (bool \<times> bool) \<times> bool) \<Rightarrow> 's auth_flight list \<Rightarrow> 's \<Rightarrow>
     (auth_error + upstream_runtime) option \<times> 's" where
  "auth_ensure ops ctx flights st = auth_run ops ctx [] False False flights st"

definition auth_refresh ::
  "'s auth_ops \<Rightarrow> (bool \<Rightarrow> bool \<times> (bool \<times> bool) \<times> bool) \<Rightarrow> string \<Rightarrow> 's auth_flight list \<Rightarrow> 's \<Rightarrow>
     (auth_error + upstream_runtime) option \<times> 's" where
  "auth_refresh ops ctx failed_token flights st =
     (if \<not> is_trimmed failed_token then (Some (Inl (AuthStore ErrBadRequest)), st)
      else auth_run ops ctx failed_token True False flights st)"

section \<open>Unauthorized answers\<close>

text \<open>
  \<open>refreshAfterUnauthorized\<close>; \<open>probe\<close> is whether a request with a snapshot's credentials is answered
  401 (\<open>None\<close>: it failed), \<open>runtime\<close> what the store loads, \<open>refreshed\<close> what the refresh of the
  snapshot's token returns. The result: the snapshot to go on with, whether the expiry was
  confirmed, an error.
\<close>

definition refresh_after_unauthorized ::
  "(request_snapshot \<Rightarrow> bool option) \<Rightarrow> gw_error + upstream_runtime \<Rightarrow> (string \<Rightarrow> auth_error + upstream_runtime) \<Rightarrow>
     request_snapshot \<Rightarrow> request_snapshot \<times> bool \<times> bool" where
  "refresh_after_unauthorized probe runtime refreshed upstream =
     (let confirm = (if rs_endpoint_key upstream = [] then Inr upstream
           else (case runtime of
                   Inl err \<Rightarrow> Inl err
                 | Inr r \<Rightarrow> map_sum id (\<lambda>d. if rs_base_url d \<noteq> rs_base_url upstream then d else upstream)
                              (snapshot_from_runtime (Some r))))
      in case confirm of
           Inl _ \<Rightarrow> (upstream, False, True)
         | Inr c \<Rightarrow>
             (case probe c of
                None \<Rightarrow> (upstream, False, True)
              | Some False \<Rightarrow> (upstream, False, False)
              | Some True \<Rightarrow>
                  (case refreshed (rs_token upstream) of
                     Inl _ \<Rightarrow> (upstream, True, True)
                   | Inr r \<Rightarrow>
                       (case snapshot_from_endpoint (Some r) (rs_endpoint_key upstream) of
                          Inl _ \<Rightarrow> (upstream, True, True)
                        | Inr s \<Rightarrow> (s, True, False)))))"

end
