(* ===== verification/Playback_Handlers.thy ===== *)
theory Playback_Handlers
  imports Memory_Store Playback_Guard
begin

text \<open>
  The handlers that read and write personal playback state (\<open>userdata.go\<close> and
  \<open>recordPlaybackRequest\<close> of \<open>server.go\<close>), over the operations they use of the \<open>Store\<close> interface,
  and the contract those operations have. What the upstream answers is an argument: a JSON value
  where a request succeeds with a 2xx status, \<open>None\<close> otherwise.
\<close>

section \<open>The store as the handlers use it\<close>

record 's playback_ops =
  po_find :: "string \<Rightarrow> string \<Rightarrow> 's \<Rightarrow> gw_error + playback_state option"
  po_save :: "time \<Rightarrow> playback_state \<Rightarrow> 's \<Rightarrow> gw_error option \<times> 's"
  po_resolve :: "time \<Rightarrow> playback_state \<Rightarrow> 's \<Rightarrow> gw_error option \<times> 's"
  po_list :: "string \<Rightarrow> state_filter \<Rightarrow> 's \<Rightarrow> gw_error + playback_state list"
  po_event :: "time \<Rightarrow> playback_event \<Rightarrow> 's \<Rightarrow> gw_error option \<times> 's"
  po_audit :: "time \<Rightarrow> audit_log \<Rightarrow> 's \<Rightarrow> 's"
  po_counts :: "time \<Rightarrow> child_count list \<Rightarrow> 's \<Rightarrow> 's"

definition memory_ops :: "memory_store playback_ops" where
  "memory_ops =
     \<lparr>po_find = (\<lambda>user item m. map_sum id Some (find_playback_state user item m)),
      po_save = (\<lambda>now s m. (None, save_playback_state now s m)),
      po_resolve = (\<lambda>now s m. (None, save_playback_resolution now s m)),
      po_list = (\<lambda>user f m. Inr (list_playback_states user f m)),
      po_event = (\<lambda>now e m. (None, record_playback_event now e m)),
      po_audit = record_audit,
      po_counts = save_child_counts\<rparr>"

definition state_for_item :: "'s playback_ops \<Rightarrow> session \<Rightarrow> string \<Rightarrow> 's \<Rightarrow> gw_error + playback_state" where
  "state_for_item ops sess item st =
     (case po_find ops (gs_user sess) item st of
        Inr (Some s) \<Rightarrow> Inr (s\<lparr>ps_synthetic_user := gs_synthetic_user sess\<rparr>)
      | Inr None \<Rightarrow> Inl ErrStoreUnavailable
      | Inl err \<Rightarrow>
          (if err = ErrNotFound then Inr (fresh_state (gs_user sess) (gs_synthetic_user sess) item)
           else Inl err))"

section \<open>Playback reports\<close>

definition audit_of :: "session \<Rightarrow> string \<Rightarrow> string \<Rightarrow> string \<Rightarrow> string \<Rightarrow> string \<Rightarrow> int \<Rightarrow> audit_log" where
  "audit_of sess event message remote_ip method path status =
     \<lparr>al_id = [], al_user = gs_user sess, al_synthetic_user = gs_synthetic_user sess, al_event = event,
      al_message = message, al_remote_ip = remote_ip, al_method = method, al_path = path,
      al_status = status, al_error_kind = [], al_direction = [], al_bytes = 0, al_duration_ms = 0,
      al_upstream_status = 0, al_committed = False, al_created = 0\<rparr>"

record report_request =
  rpt_rel :: string
  rpt_query :: query_values
  rpt_body :: "report_body option"   \<comment> \<open>\<open>None\<close>: reading it failed\<close>
  rpt_remote :: string

text \<open>
  \<open>recordPlaybackRequest\<close>; telemetry events and the notes of the subtitle and transcoding managers
  are left out; \<open>clock\<close> is what the guards read. The result is the error, the guards and the store.
\<close>

definition record_playback_request ::
  "'s playback_ops \<Rightarrow> (string \<Rightarrow> f64 option) \<Rightarrow> resume_policy \<Rightarrow> session \<Rightarrow> report_request \<Rightarrow> time \<Rightarrow> time \<Rightarrow>
     json option \<Rightarrow> guard_tracker \<Rightarrow> 's \<Rightarrow> gw_error option \<times> guard_tracker \<times> 's" where
  "record_playback_request ops parse_float cfg sess r clock now answer guards st =
     (case rpt_body r of
        None \<Rightarrow> (Some ErrBadRequest, guards, st)
      | Some body \<Rightarrow>
          (case details_from_request parse_float (rpt_query r) body of (d, ok) \<Rightarrow>
            (if \<not> ok \<or> pd_item d = [] then (None, guards, st)
             else (let event = playback_event_name (rpt_rel r);
                       key = \<lparr>gk_token_hash = gs_token_hash sess, gk_item_id = pd_item d\<rparr>;
                       (guards, active, eligible) = suppress key clock guards
                   in if active
                      then (None, guards,
                        if eligible
                        then po_audit ops now (audit_of sess ''playback_report_suppressed''
                          ''playback report suppressed after concurrent playback denial'' (rpt_remote r)
                          ''POST'' (rpt_rel r) 204) st
                        else st)
                      else (let (err, st) = po_event ops now
                                  \<lparr>pe_id = [], pe_user = gs_user sess, pe_synthetic_user = gs_synthetic_user sess,
                                   pe_item = pd_item d, pe_item_name = [], pe_event = event,
                                   pe_position = or_keep (pd_position d) 0, pe_played = pd_played d,
                                   pe_percentage = pd_percentage d, pe_remote_ip = rpt_remote r,
                                   pe_created = now\<rparr> st;
                                st = (if err = None then st
                                      else po_audit ops now (audit_of sess ''playback_event_persist_failed''
                                        ''playback event persist failed'' (rpt_remote r) ''POST'' (rpt_rel r) 0) st)
                            in case state_for_item ops sess (pd_item d) st of
                                 Inl err \<Rightarrow> (Some err, guards, st)
                               | Inr s \<Rightarrow>
                                   (case po_save ops now (reported_state now event d cfg answer s) st of
                                      (err, st) \<Rightarrow> (err, guards, st)))))))"

section \<open>Writes of personal state\<close>

datatype reply = Pass | Status int | StatusJSON int json | StatusRaw int string

definition apply_user_data_body ::
  "(string \<Rightarrow> f64 option) \<Rightarrow> jobject \<Rightarrow> time \<Rightarrow> playback_state \<Rightarrow> playback_state" where
  "apply_user_data_body parse_float body now s =
     (let s = (case bool_field body ''Played'' of
            None \<Rightarrow> s
          | Some played \<Rightarrow>
              s\<lparr>ps_play_count := (if played \<and> \<not> ps_played s then wrap64 (ps_play_count s + 1) else ps_play_count s),
                ps_played := played,
                ps_last_played := (if played then Some now else ps_last_played s)\<rparr>)
      in s\<lparr>ps_position := or_keep (int64_field body ''PositionTicks'')
             (or_keep (int64_field body ''PlaybackPositionTicks'') (ps_position s)),
           ps_percentage := first_some (float64_field parse_float body ''PlayedPercentage'') (ps_percentage s),
           ps_play_count := or_keep (int64_field body ''PlayCount'') (ps_play_count s),
           ps_favorite := or_keep (bool_field body ''Favorite'')
             (or_keep (bool_field body ''IsFavorite'') (ps_favorite s)),
           ps_likes := first_some (bool_field body ''Likes'') (ps_likes s)\<rparr>)"

text \<open>\<open>readJSONBody\<close>: an object, \<open>None\<close> for an error; a blank body or \<open>null\<close> is the empty object.\<close>

definition request_likes :: "query_values \<Rightarrow> jobject option \<Rightarrow> bool option" where
  "request_likes q body =
     (if query_get q ''Likes'' \<noteq> [] then parse_bool (query_get q ''Likes'')
      else (case body of Some b \<Rightarrow> bool_field b ''Likes'' | None \<Rightarrow> None))"

definition request_hide :: "query_values \<Rightarrow> bool option" where
  "request_hide q =
     (let raw = trim_space (query_get q ''Hide'') in if raw = [] then None else parse_bool raw)"

definition write_state ::
  "'s playback_ops \<Rightarrow> session \<Rightarrow> time \<Rightarrow> time \<Rightarrow> json option \<Rightarrow> string \<Rightarrow>
     (playback_state \<Rightarrow> playback_state) \<Rightarrow> 's \<Rightarrow> reply \<times> 's" where
  "write_state ops sess now seen answer item upd st =
     (case state_for_item ops sess item st of
        Inl _ \<Rightarrow> (Status 500, st)
      | Inr s \<Rightarrow>
          (let s = (enrich_metadata answer seen (upd s))\<lparr>ps_updated := now\<rparr>
           in case po_save ops now s st of
                (None, st) \<Rightarrow> (StatusJSON 200 (JObject (user_data_dto s)), st)
              | (Some _, st) \<Rightarrow> (Status 500, st)))"

definition mark_played :: "bool \<Rightarrow> time \<Rightarrow> playback_state \<Rightarrow> playback_state" where
  "mark_played played now s =
     (if played
      then s\<lparr>ps_played := True, ps_play_count := wrap64 (ps_play_count s + 1), ps_position := 0,
             ps_percentage := Some (Fin 100), ps_last_played := Some now\<rparr>
      else s\<lparr>ps_played := False, ps_position := 0, ps_percentage := None\<rparr>)"

definition handle_personal_state_write ::
  "'s playback_ops \<Rightarrow> (string \<Rightarrow> f64 option) \<Rightarrow> session \<Rightarrow> string \<Rightarrow> string \<Rightarrow> query_values \<Rightarrow>
     jobject option \<Rightarrow> time \<Rightarrow> time \<Rightarrow> json option \<Rightarrow> 's \<Rightarrow> reply \<times> 's" where
  "handle_personal_state_write ops parse_float sess method rel q body now seen answer st =
     (let post = (method = ''POST''); delete = (method = ''DELETE'');
          go = (\<lambda>item upd. write_state ops sess now seen answer item upd st)
      in case path_parts rel of
           a # user # b # item # rest \<Rightarrow>
             (if \<not> equal_fold a ''Users'' then (Pass, st)
              else if user \<noteq> gs_synthetic_user sess then (Status 403, st)
              else (case rest of
                      [] \<Rightarrow>
                        (if equal_fold b ''PlayedItems'' then
                           if \<not> post \<and> \<not> delete then (Pass, st) else go item (mark_played post now)
                         else if equal_fold b ''FavoriteItems'' then
                           if \<not> post \<and> \<not> delete then (Pass, st) else go item (\<lambda>s. s\<lparr>ps_favorite := post\<rparr>)
                         else (Pass, st))
                    | [act] \<Rightarrow>
                        (if \<not> equal_fold b ''Items'' then (Pass, st)
                         else if equal_fold act ''Rating'' then
                           if \<not> post \<and> \<not> delete then (Pass, st)
                           else go item (\<lambda>s. s\<lparr>ps_likes := (if delete then None else request_likes q body)\<rparr>)
                         else if equal_fold act ''UserData'' \<and> post then
                           (case body of None \<Rightarrow> (Status 400, st)
                            | Some b \<Rightarrow> go item (apply_user_data_body parse_float b now))
                         else if equal_fold act ''HideFromResume'' then
                           if \<not> post then (Pass, st)
                           else (case request_hide q of None \<Rightarrow> (Status 400, st)
                                 | Some hide \<Rightarrow> go item (\<lambda>s. s\<lparr>ps_hide := hide\<rparr>))
                         else (Pass, st))
                    | _ \<Rightarrow> (Pass, st)))
         | _ \<Rightarrow> (Pass, st))"

section \<open>Resolving items\<close>

definition learned_counts :: "jobject list \<Rightarrow> (string \<times> int) list" where
  "learned_counts items =
     fold (\<lambda>item m. let i = string_or_empty item ''Id''; n = item_child_count item
        in if i = [] \<or> n \<le> 0 then m else AList.update i n m) items []"

definition learn_child_counts :: "'s playback_ops \<Rightarrow> time \<Rightarrow> jobject list \<Rightarrow> 's \<Rightarrow> 's" where
  "learn_child_counts ops now items st =
     (let counts = learned_counts items
      in if counts = [] then st
         else po_counts ops now (map (\<lambda>(i, n). \<lparr>cc_item = i, cc_count = n, cc_updated = 0\<rparr>) counts) st)"

text \<open>
  \<open>resolveItemsByID\<close>: \<open>backend\<close> answers the request for a batch of ids, \<open>rewrite\<close> prepares an item
  for the client (\<open>None\<close> when that is not an object).
\<close>

fun resolve_batch ::
  "'s playback_ops \<Rightarrow> session \<Rightarrow> query_values \<Rightarrow> (jobject \<Rightarrow> jobject option) \<Rightarrow> time \<Rightarrow>
     (string, jobject) gomap \<Rightarrow> string list \<Rightarrow> 's \<Rightarrow> (gw_error + jobject list) \<times> 's" where
  "resolve_batch ops sess q rewrite now by_id [] st = (Inr [], st)"
| "resolve_batch ops sess q rewrite now by_id (i # ids) st =
     (case state_for_item ops sess i st of
        Inl err \<Rightarrow> (Inl err, st)
      | Inr s \<Rightarrow>
          (case map_of by_id i of
             None \<Rightarrow>
               (case po_resolve ops now (snd (reconcile_resolved_item None now s)) st of
                  (Some _, st) \<Rightarrow> (Inl ErrStoreUnavailable, st)
                | (None, st) \<Rightarrow> resolve_batch ops sess q rewrite now by_id ids st)
           | Some item \<Rightarrow>
               (if \<not> item_matches_resolution_query item q
                then resolve_batch ops sess q rewrite now by_id ids st
                else (case reconcile_resolved_item (Some item) now s of (outcome, s) \<Rightarrow>
                       (case po_resolve ops now s st of
                          (Some _, st) \<Rightarrow> (Inl ErrStoreUnavailable, st)
                        | (None, st) \<Rightarrow>
                            (case resolve_batch ops sess q rewrite now by_id ids st of
                               (Inr items, st) \<Rightarrow>
                                 (Inr (if outcome = ResolutionKeep
                                       then (case rewrite item of Some m \<Rightarrow> m # items | None \<Rightarrow> items)
                                       else items), st)
                             | (Inl err, st) \<Rightarrow> (Inl err, st)))))))"

function resolve_items_by_id ::
  "'s playback_ops \<Rightarrow> session \<Rightarrow> query_values \<Rightarrow> (jobject \<Rightarrow> jobject option) \<Rightarrow> time \<Rightarrow>
     (string list \<Rightarrow> json option) \<Rightarrow> string list \<Rightarrow> 's \<Rightarrow> (gw_error + jobject list) \<times> 's" where
  "resolve_items_by_id ops sess q rewrite now backend ids st =
     (if ids = [] then (Inr [], st)
      else (let batch = take personal_id_batch_limit ids; later = drop personal_id_batch_limit ids
            in case backend batch of
                 None \<Rightarrow> resolve_items_by_id ops sess q rewrite now backend later st
               | Some value \<Rightarrow>
                   (case resolve_batch ops sess q rewrite now (items_by_id (extract_items value)) batch st of
                      (Inl err, st) \<Rightarrow> (Inl err, st)
                    | (Inr items, st) \<Rightarrow>
                        (case resolve_items_by_id ops sess q rewrite now backend later st of
                           (Inl err, st) \<Rightarrow> (Inl err, st)
                         | (Inr others, st) \<Rightarrow> (Inr (items @ others), st)))))"
  by pat_completeness auto
termination
  by (relation "measure (\<lambda>(_, _, _, _, _, _, ids, _). length ids)")
     (auto simp: personal_id_batch_limit_def)

declare resolve_items_by_id.simps [simp del]

text \<open>\<open>writeResumeItems\<close>; the inner \<open>None\<close> is a panic of \<open>pageItems\<close>.\<close>

definition write_resume_items ::
  "'s playback_ops \<Rightarrow> session \<Rightarrow> bool \<Rightarrow> query_values \<Rightarrow> (jobject \<Rightarrow> jobject option) \<Rightarrow> time \<Rightarrow>
     (string list \<Rightarrow> json option) \<Rightarrow> 's \<Rightarrow> reply option \<times> 's" where
  "write_resume_items ops sess user_matches q rewrite now backend st =
     (if \<not> user_matches then (Some (Status 403), st)
      else (case po_list ops (gs_user sess) (no_filter\<lparr>fl_resumable := Some True, fl_orphaned := True\<rparr>) st of
              Inl _ \<Rightarrow> (Some (Status 500), st)
            | Inr states \<Rightarrow>
                (let states = stable_sort (\<lambda>a b. state_recency a > state_recency b) states
                 in case resolve_items_by_id ops sess q rewrite now backend (playback_state_ids states) st of
                      (Inl _, st) \<Rightarrow> (Some (Status 500), st)
                    | (Inr items, st) \<Rightarrow>
                        (let items = group_resume_items [] (map JObject items)
                         in (map_option (\<lambda>paged. StatusJSON 200 (JObject
                               [(''Items'', JArray paged), (''TotalRecordCount'', JInt (int (length items))),
                                (''StartIndex'', JInt (int_query q ''StartIndex'' 0))])) (page_items items q), st)))))"

section \<open>Next up\<close>

fun persist_all :: "'s playback_ops \<Rightarrow> time \<Rightarrow> playback_state list \<Rightarrow> 's \<Rightarrow> 's" where
  "persist_all ops now [] st = st"
| "persist_all ops now (s # ss) st = persist_all ops now ss (snd (po_resolve ops now s st))"

text \<open>\<open>repairIncompleteNextUpStates\<close>.\<close>

definition repair_incomplete_states ::
  "'s playback_ops \<Rightarrow> time \<Rightarrow> (string list \<Rightarrow> json option) \<Rightarrow> playback_state list \<Rightarrow> 's \<Rightarrow>
     playback_state list \<times> 's" where
  "repair_incomplete_states ops now backend states st =
     (let ids = newest_incomplete_active states (int personal_id_batch_limit)
      in if ids = [] then (states, st)
         else (case backend ids of
                 None \<Rightarrow> (states, st)
               | Some value \<Rightarrow>
                   (let items = extract_items value;
                        (states, persisted) = apply_resolved_items items (Some ids)
                          (id_resolution_complete value ids items) now states
                    in (states, persist_all ops now persisted st))))"

text \<open>One series of the loop of \<open>writeNextUpItems\<close>: the item offered, the states, the store.\<close>

definition next_up_series ::
  "'s playback_ops \<Rightarrow> (jobject \<Rightarrow> jobject option) \<Rightarrow> time \<Rightarrow> bool \<Rightarrow> string \<Rightarrow> (jobject list \<times> bool) option \<Rightarrow>
     playback_state list \<Rightarrow> 's \<Rightarrow> jobject option \<times> playback_state list \<times> 's" where
  "next_up_series ops rewrite now explicit series fetched states st =
     (case fetched of
        None \<Rightarrow> (None, states, st)
      | Some (episodes, whole) \<Rightarrow>
          (let st = (if whole \<and> episodes \<noteq> []
                     then po_counts ops now [\<lparr>cc_item = series, cc_count = int (length episodes), cc_updated = 0\<rparr>] st
                     else st);
               (states, persisted) = apply_resolved_items (stable_sort episode_order_less episodes) None False now states;
               st = persist_all ops now persisted st
           in if \<not> whole then (None, states, st)
              else if \<not> explicit \<and> \<not> series_has_activity states series then (None, states, st)
              else (Option.bind (next_episode states episodes) rewrite, states, st)))"

fun next_up_loop ::
  "'s playback_ops \<Rightarrow> (jobject \<Rightarrow> jobject option) \<Rightarrow> time \<Rightarrow> bool \<Rightarrow> (string \<Rightarrow> nat \<Rightarrow> json option) \<Rightarrow>
     string list \<Rightarrow> playback_state list \<Rightarrow> 's \<Rightarrow> jobject list \<times> 's" where
  "next_up_loop ops rewrite now explicit page [] states st = ([], st)"
| "next_up_loop ops rewrite now explicit page (series # others) states st =
     (case next_up_series ops rewrite now explicit series (fetch_complete_series_episodes (page series)) states st of
        (item, states, st) \<Rightarrow>
          (case next_up_loop ops rewrite now explicit page others states st of
             (items, st) \<Rightarrow> (case item of Some i \<Rightarrow> i # items | None \<Rightarrow> items, st)))"

definition write_next_up_items ::
  "'s playback_ops \<Rightarrow> session \<Rightarrow> query_values \<Rightarrow> (jobject \<Rightarrow> jobject option) \<Rightarrow> time \<Rightarrow>
     (string list \<Rightarrow> json option) \<Rightarrow> (string \<Rightarrow> nat \<Rightarrow> json option) \<Rightarrow> 's \<Rightarrow> reply option \<times> 's" where
  "write_next_up_items ops sess q rewrite now backend page st =
     (case po_list ops (gs_user sess) no_filter st of
        Inl _ \<Rightarrow> (Some (Status 500), st)
      | Inr states \<Rightarrow>
          (let series_id = trim_space (query_get q ''SeriesId'');
               (states, st) = (if series_id = [] then repair_incomplete_states ops now backend states st
                 else (states, st));
               series = (if series_id = [] then recently_active_series states else [series_id]);
               max_series = wrap64 (int_query q ''Limit'' 20 + 20);
               series = (if max_series > 0 \<and> int (length series) > max_series
                         then take (nat max_series) series else series);
               (items, st) = next_up_loop ops rewrite now (series_id \<noteq> []) page series states st
           in (map_option (\<lambda>paged. StatusJSON 200 (JObject
                 [(''Items'', JArray (map JObject paged)), (''TotalRecordCount'', JInt (int (length items))),
                  (''StartIndex'', JInt (int_query q ''StartIndex'' 0))])) (page_items items q), st)))"

end
