(* ===== verification/Playback_Theorems.thy ===== *)
theory Playback_Theorems
  imports Personal_Lists
begin

text \<open>
  The properties of the personal playback state and of the lists computed from it: when a stopped
  playback is resumable, completed or started over; what reconciling a state with an upstream item
  may change; which episode is next; what the personal filters select.
\<close>

section \<open>Stopping\<close>

lemmas stop_simps = apply_stopped_def Let_def is_resumable_def

definition reached_end :: "resume_policy \<Rightarrow> playback_state \<Rightarrow> bool" where
  "reached_end policy s \<longleftrightarrow>
     f64_less (rp_max_pct policy) (Fin (percent64 (ps_position s) (ps_runtime s))) \<or>
     ps_runtime s - emby_ticks_per_second \<le> ps_position s"

definition too_short :: "resume_policy \<Rightarrow> playback_state \<Rightarrow> bool" where
  "too_short policy s \<longleftrightarrow>
     f64_less (Fin 0) (rp_min_duration policy) \<and>
     f64_less (Fin (ratio64 (ps_runtime s) emby_ticks_per_second)) (rp_min_duration policy)"

definition barely_started :: "resume_policy \<Rightarrow> playback_state \<Rightarrow> bool" where
  "barely_started policy s \<longleftrightarrow>
     f64_less (Fin (percent64 (ps_position s) (ps_runtime s))) (rp_min_pct policy)"

definition reported_complete :: "resume_policy \<Rightarrow> playback_state \<Rightarrow> bool" where
  "reported_complete policy s \<longleftrightarrow>
     (case ps_percentage s of Some p \<Rightarrow> f64_ge p (rp_max_pct policy) | None \<Rightarrow> False)"

text \<open>
  the three outcomes of stopping an item of known length inside it, not marked as played: it
  starts over from the beginning, with nothing left of the old percentage, when it was barely
  started; otherwise it counts as played when it reached the end, is too short to be resumed, or
  the client's percentage says so; otherwise the position is kept, and the item can be resumed
  unless it is hidden.
\<close>

theorem stopped_outcomes:
  assumes "\<not> ps_played s" and "0 < ps_runtime s" and "0 < ps_position s"
  shows "let s' = apply_stopped now was_played policy s
    in (if barely_started policy s
        then \<not> ps_played s' \<and> ps_position s' = 0 \<and> ps_percentage s' = None
        else if reached_end policy s \<or> too_short policy s \<or> reported_complete policy s
        then ps_played s' \<and> ps_position s' = 0 \<and> ps_percentage s' = Some (Fin 100)
        else \<not> ps_played s' \<and> ps_position s' = ps_position s \<and> ps_percentage s' = ps_percentage s) \<and>
       (is_resumable s' \<longleftrightarrow>
          \<not> ps_hide s \<and> \<not> barely_started policy s \<and> \<not> reached_end policy s \<and>
          \<not> too_short policy s \<and> \<not> reported_complete policy s)"
  using assms
  by (auto simp: stop_simps barely_started_def reached_end_def too_short_def reported_complete_def)

definition demo_state :: playback_state where
  "demo_state = (fresh_state ''u'' ''x'' ''i'')\<lparr>ps_runtime := 72000000000, ps_position := 36000000000\<rparr>"

definition demo_policy :: resume_policy where
  "demo_policy = \<lparr>rp_min_pct = NaN, rp_max_pct = NaN, rp_min_duration = Fin 0\<rparr>"

theorem stopped_outcomes_witness:
  "is_resumable (apply_stopped 7 False demo_policy demo_state) \<and>
   ps_position (apply_stopped 7 False demo_policy demo_state) = 36000000000"
  using stopped_outcomes [of demo_state 7 False demo_policy]
  by (simp add: demo_state_def demo_policy_def fresh_state_def barely_started_def reached_end_def
      too_short_def reported_complete_def emby_ticks_per_second_def Let_def)

lemma stopped_state:
  "let s' = apply_stopped now was_played policy s
   in 0 \<le> ps_position s' \<and>
      (ps_played s \<longrightarrow> ps_played s') \<and>
      (ps_played s' \<longrightarrow> ps_position s' = 0 \<and> ps_percentage s' = Some (Fin 100) \<and> ps_last_played s' = Some now) \<and>
      ps_play_count s' =
        (if ps_played s' \<and> \<not> was_played then wrap64 (ps_play_count s + 1) else ps_play_count s) \<and>
      (\<not> ps_played s' \<longrightarrow> ps_last_played s' = ps_last_played s)"
  by (auto simp: apply_stopped_def Let_def split: option.splits)

text \<open>Nothing else of the state is touched by a stop, and metadata never touches the playback.\<close>

lemma stopped_frame [simp]:
  "ps_gateway_user (apply_stopped now wp policy s) = ps_gateway_user s"
  "ps_item (apply_stopped now wp policy s) = ps_item s"
  "ps_favorite (apply_stopped now wp policy s) = ps_favorite s"
  "ps_likes (apply_stopped now wp policy s) = ps_likes s"
  "ps_hide (apply_stopped now wp policy s) = ps_hide s"
  by (auto simp: apply_stopped_def Let_def)

lemma merge_frame [simp]:
  "ps_gateway_user (merge_item_metadata item s) = ps_gateway_user s"
  "ps_item (merge_item_metadata item s) = ps_item s"
  "ps_position (merge_item_metadata item s) = ps_position s"
  "ps_played (merge_item_metadata item s) = ps_played s"
  "ps_percentage (merge_item_metadata item s) = ps_percentage s"
  "ps_last_played (merge_item_metadata item s) = ps_last_played s"
  "ps_play_count (merge_item_metadata item s) = ps_play_count s"
  "ps_favorite (merge_item_metadata item s) = ps_favorite s"
  "ps_likes (merge_item_metadata item s) = ps_likes s"
  "ps_hide (merge_item_metadata item s) = ps_hide s"
  "ps_orphaned (merge_item_metadata item s) = ps_orphaned s"
  "ps_last_seen (merge_item_metadata item s) = ps_last_seen s"
  "ps_updated (merge_item_metadata item s) = ps_updated s"
  by (simp_all add: merge_item_metadata_def Let_def)

lemma enrich_frame [simp]:
  "ps_gateway_user (enrich_metadata answer now s) = ps_gateway_user s"
  "ps_item (enrich_metadata answer now s) = ps_item s"
  "ps_position (enrich_metadata answer now s) = ps_position s"
  "ps_played (enrich_metadata answer now s) = ps_played s"
  "ps_percentage (enrich_metadata answer now s) = ps_percentage s"
  "ps_last_played (enrich_metadata answer now s) = ps_last_played s"
  "ps_play_count (enrich_metadata answer now s) = ps_play_count s"
  "ps_favorite (enrich_metadata answer now s) = ps_favorite s"
  "ps_likes (enrich_metadata answer now s) = ps_likes s"
  "ps_hide (enrich_metadata answer now s) = ps_hide s"
  by (simp_all add: enrich_metadata_def split: option.split json.split)

lemma details_frame [simp]:
  "ps_gateway_user (apply_details d s) = ps_gateway_user s"
  "ps_item (apply_details d s) = ps_item s"
  "ps_play_count (apply_details d s) = ps_play_count s"
  "ps_last_played (apply_details d s) = ps_last_played s"
  "ps_favorite (apply_details d s) = ps_favorite s"
  "ps_likes (apply_details d s) = ps_likes s"
  "ps_hide (apply_details d s) = ps_hide s"
  by (simp_all add: apply_details_def)

lemma reported_frame [simp]:
  "ps_gateway_user (reported_state now event d cfg answer s) = ps_gateway_user s"
  "ps_item (reported_state now event d cfg answer s) = ps_item s"
  "ps_favorite (reported_state now event d cfg answer s) = ps_favorite s"
  "ps_likes (reported_state now event d cfg answer s) = ps_likes s"
  "ps_hide (reported_state now event d cfg answer s) = ps_hide s"
  "ps_updated (reported_state now event d cfg answer s) = now"
  by (simp_all add: reported_state_def Let_def)

lemma reported_stop:
  obtains x policy where
    "reported_state now ''stopped'' d cfg answer s = (apply_stopped now (ps_played s) policy x)\<lparr>ps_updated := now\<rparr>"
    "ps_play_count x = ps_play_count s"
proof
  let ?x = "if ps_runtime (apply_details d s) \<le> 0 \<or> needs_metadata (apply_details d s)
    then enrich_metadata answer now (apply_details d s) else apply_details d s"
  show "reported_state now ''stopped'' d cfg answer s =
      (apply_stopped now (ps_played s) (resume_policy_for_state cfg ?x) ?x)\<lparr>ps_updated := now\<rparr>"
    by (simp add: reported_state_def Let_def)
  show "ps_play_count ?x = ps_play_count s" by simp
qed

lemma reported_count:
  "ps_play_count (reported_state now ''stopped'' d cfg answer s) =
     (if ps_played (reported_state now ''stopped'' d cfg answer s) \<and> \<not> ps_played s
      then wrap64 (ps_play_count s + 1) else ps_play_count s)"
proof -
  obtain x policy where x: "reported_state now ''stopped'' d cfg answer s =
      (apply_stopped now (ps_played s) policy x)\<lparr>ps_updated := now\<rparr>" "ps_play_count x = ps_play_count s"
    by (rule reported_stop)
  with stopped_state [of now "ps_played s" policy x] show ?thesis
    by (cases "ps_played s") (simp_all add: Let_def)
qed

text \<open>
  a play is counted once: whatever reports follow one another for an item that was not played,
  a stop that completes it adds one to the play count, and no stop reported after that adds another
  until something other than a report marks it as unplayed.
\<close>

theorem play_counted_once:
  assumes "ps_played (reported_state now ''stopped'' d cfg answer s)"
  defines "s' \<equiv> reported_state now ''stopped'' d cfg answer s"
  shows "ps_play_count s' = (if ps_played s then ps_play_count s else wrap64 (ps_play_count s + 1)) \<and>
    ps_position s' = 0 \<and> ps_last_played s' = Some now \<and>
    ps_play_count (reported_state now' ''stopped'' d' cfg' answer' s') = ps_play_count s'"
proof -
  obtain x policy where "s' = (apply_stopped now (ps_played s) policy x)\<lparr>ps_updated := now\<rparr>"
    unfolding s'_def by (rule reported_stop)
  with assms(1) stopped_state [of now "ps_played s" policy x]
  have "ps_position s' = 0 \<and> ps_last_played s' = Some now" by (simp add: s'_def Let_def)
  with assms(1) reported_count [of now d cfg answer s] reported_count [of now' d' cfg' answer' s']
  show ?thesis by (simp add: s'_def)
qed

theorem play_counted_once_witness:
  "ps_play_count (reported_state 9 ''stopped'' no_details demo_policy None
     (reported_state 5 ''stopped'' (no_details\<lparr>pd_played := Some True\<rparr>) demo_policy None demo_state)) = 1"
proof -
  let ?s = "reported_state 5 ''stopped'' (no_details\<lparr>pd_played := Some True\<rparr>) demo_policy None demo_state"
  have "ps_played ?s"
    by (simp add: reported_state_def apply_stopped_def apply_details_def enrich_metadata_def Let_def
        no_details_def demo_state_def fresh_state_def)
  from play_counted_once [OF this, of 9 no_details demo_policy None] show ?thesis
    by (simp add: demo_state_def fresh_state_def wrap64_def)
qed

section \<open>Reconciling with the upstream item\<close>

lemma fingerprint_parts_distinct: "distinct_keys (fingerprint_parts fp)"
proof -
  have "distinct_keys m \<Longrightarrow> distinct_keys (fold (\<lambda>part parts. case cut_char (CHR ''='') part of
      Some (name, v) \<Rightarrow> if name = [] then parts else AList.update name v parts
    | None \<Rightarrow> parts) ps m)" for ps and m :: "(string, string) gomap"
    by (induction ps arbitrary: m) (auto split: option.split)
  then show ?thesis by (simp add: fingerprint_parts_def)
qed

lemma fingerprints_compatible_refl: "fingerprints_compatible fp fp"
  unfolding fingerprints_compatible_def Let_def list_all_iff
  using in_set_map_of [OF fingerprint_parts_distinct, of _ _ fp] by fastforce

lemma merged_fingerprint:
  "ps_fingerprint (merge_item_metadata item s) =
     (if item_fingerprint item = [] then ps_fingerprint s
      else if ps_fingerprint s = [] \<or> fingerprint_covers (item_fingerprint item) (ps_fingerprint s)
      then item_fingerprint item else ps_fingerprint s)"
  by (simp add: merge_item_metadata_def Let_def)

lemma merge_fields:
  "ps_id (merge_item_metadata item s) = ps_id s"
  "ps_synthetic_user (merge_item_metadata item s) = ps_synthetic_user s"
  "ps_item_name (merge_item_metadata item s) = or_keep (string_field item ''Name'') (ps_item_name s)"
  "ps_item_type (merge_item_metadata item s) = or_keep (string_field item ''Type'') (ps_item_type s)"
  "ps_series (merge_item_metadata item s) = or_keep (string_field item ''SeriesId'') (ps_series s)"
  "ps_series_name (merge_item_metadata item s) = or_keep (string_field item ''SeriesName'') (ps_series_name s)"
  "ps_season (merge_item_metadata item s) = or_keep (string_field item ''SeasonId'') (ps_season s)"
  "ps_index (merge_item_metadata item s) = or_keep (int64_field item ''IndexNumber'') (ps_index s)"
  "ps_parent_index (merge_item_metadata item s) =
     or_keep (int64_field item ''ParentIndexNumber'') (ps_parent_index s)"
  "ps_runtime (merge_item_metadata item s) = or_keep (int64_field item ''RunTimeTicks'') (ps_runtime s)"
  by (simp_all add: merge_item_metadata_def Let_def)

lemma merge_again:
  "merge_item_metadata item ((merge_item_metadata item s)\<lparr>ps_last_seen := t\<rparr>) =
     (merge_item_metadata item s)\<lparr>ps_last_seen := t\<rparr>"
  by (rule playback_state.equality) (simp_all add: merge_fields merged_fingerprint split: option.split)

lemma reconcile_frame:
  assumes "reconcile_resolved_item item now s = (outcome, s')"
  shows "ps_position s' = ps_position s" "ps_played s' = ps_played s" "ps_percentage s' = ps_percentage s"
    "ps_last_played s' = ps_last_played s" "ps_play_count s' = ps_play_count s"
    "ps_favorite s' = ps_favorite s" "ps_likes s' = ps_likes s" "ps_hide s' = ps_hide s"
    "ps_updated s' = ps_updated s" "ps_gateway_user s' = ps_gateway_user s" "ps_item s' = ps_item s"
  using assms by (auto simp: reconcile_resolved_item_def Let_def split: option.splits if_splits)

lemma reconcile_orphaned:
  "ps_orphaned (snd (reconcile_resolved_item item now s)) =
     (if fst (reconcile_resolved_item item now s) = ResolutionKeep then None else Some now)"
  by (simp add: reconcile_resolved_item_def Let_def split: option.split)

text \<open>
  reconciling a state with what the upstream has decides only whether it is an orphan: the
  user's own data (position, played, percentage, dates, count, favourite, likes, hidden) is never
  touched; a state is orphaned exactly when the item is gone or contradicts the fingerprint; and
  a kept state is stable, reconciling it with the same item again keeps it again and changes
  nothing but the time it was seen.
\<close>

theorem reconcile_only_orphans:
  assumes "reconcile_resolved_item item now s = (outcome, s')"
  shows "(ps_position s', ps_played s', ps_percentage s', ps_last_played s', ps_play_count s',
      ps_favorite s', ps_likes s', ps_hide s') =
     (ps_position s, ps_played s, ps_percentage s, ps_last_played s, ps_play_count s,
      ps_favorite s, ps_likes s, ps_hide s) \<and>
    ps_orphaned s' = (if outcome = ResolutionKeep then None else Some now) \<and>
    (outcome = ResolutionKeep \<longleftrightarrow>
      (\<exists>i. item = Some i \<and> (ps_fingerprint s = [] \<or> item_fingerprint i = [] \<or>
         fingerprints_compatible (ps_fingerprint s) (item_fingerprint i)))) \<and>
    (outcome = ResolutionKeep \<longrightarrow>
      reconcile_resolved_item item later s' = (ResolutionKeep, s'\<lparr>ps_last_seen := Some later\<rparr>))"
proof -
  have again: "reconcile_resolved_item (Some i) later s' = (ResolutionKeep, s'\<lparr>ps_last_seen := Some later\<rparr>)"
    if i: "item = Some i" and keep: "outcome = ResolutionKeep" for i
  proof -
    let ?t = "s\<lparr>ps_orphaned := None, ps_last_seen := Some now\<rparr>"
    from assms i keep have s': "s' = merge_item_metadata i ?t"
      and ok: "ps_fingerprint s = [] \<or> item_fingerprint i = [] \<or>
        fingerprints_compatible (ps_fingerprint s) (item_fingerprint i)"
      by (auto simp: reconcile_resolved_item_def Let_def split: if_splits)
    have fp: "ps_fingerprint s' = [] \<or> item_fingerprint i = [] \<or>
        fingerprints_compatible (ps_fingerprint s') (item_fingerprint i)"
      using ok fingerprints_compatible_refl by (auto simp: s' merged_fingerprint)
    have "merge_item_metadata i (s'\<lparr>ps_last_seen := Some later\<rparr>) = s'\<lparr>ps_last_seen := Some later\<rparr>"
      by (simp add: s' merge_again)
    moreover have "ps_orphaned s' = None" by (simp add: s')
    then have "s'\<lparr>ps_orphaned := None, ps_last_seen := Some later\<rparr> = s'\<lparr>ps_last_seen := Some later\<rparr>" by simp
    ultimately show ?thesis using fp by (auto simp: reconcile_resolved_item_def Let_def)
  qed
  show ?thesis
  proof (intro conjI)
    show "outcome = ResolutionKeep \<longrightarrow>
        reconcile_resolved_item item later s' = (ResolutionKeep, s'\<lparr>ps_last_seen := Some later\<rparr>)"
    proof
      assume keep: "outcome = ResolutionKeep"
      with assms obtain i where i: "item = Some i" by (cases item) (simp_all add: reconcile_resolved_item_def)
      from again [OF i keep] i show "reconcile_resolved_item item later s' = (ResolutionKeep, s'\<lparr>ps_last_seen := Some later\<rparr>)"
        by (simp only:)
    qed
    show "ps_orphaned s' = (if outcome = ResolutionKeep then None else Some now)"
      using reconcile_orphaned [of item now s] assms by simp
    show "outcome = ResolutionKeep \<longleftrightarrow>
        (\<exists>i. item = Some i \<and> (ps_fingerprint s = [] \<or> item_fingerprint i = [] \<or>
           fingerprints_compatible (ps_fingerprint s) (item_fingerprint i)))"
      using assms by (cases item) (auto simp: reconcile_resolved_item_def Let_def split: if_splits)
  qed (simp add: reconcile_frame [OF assms])
qed

definition demo_item :: jobject where
  "demo_item = [(''Id'', JString ''i''), (''Name'', JString ''Pilot''), (''Type'', JString ''Episode'')]"

theorem reconcile_only_orphans_witness:
  "\<exists>s'. reconcile_resolved_item (Some demo_item) 5 demo_state = (ResolutionKeep, s') \<and>
     ps_position s' = 36000000000 \<and> ps_orphaned s' = None"
proof -
  obtain outcome s' where r: "reconcile_resolved_item (Some demo_item) 5 demo_state = (outcome, s')"
    by (cases "reconcile_resolved_item (Some demo_item) 5 demo_state")
  have "ps_fingerprint demo_state = []" "ps_position demo_state = 36000000000"
    by (simp_all add: demo_state_def fresh_state_def)
  with reconcile_only_orphans [OF r, of 5] r show ?thesis by simp
qed

section \<open>The next episode\<close>

text \<open>
  Where an episode stands in its series: numbered ones in the order of season and number,
  then those without numbers.
\<close>

datatype episode_rank = Numbered int int | Unnumbered

instantiation episode_rank :: linorder
begin

fun less_eq_episode_rank :: "episode_rank \<Rightarrow> episode_rank \<Rightarrow> bool" where
  "less_eq_episode_rank (Numbered a b) (Numbered c d) \<longleftrightarrow> a < c \<or> a = c \<and> b \<le> d"
| "less_eq_episode_rank (Numbered a b) Unnumbered \<longleftrightarrow> True"
| "less_eq_episode_rank Unnumbered (Numbered c d) \<longleftrightarrow> False"
| "less_eq_episode_rank Unnumbered Unnumbered \<longleftrightarrow> True"

definition less_episode_rank :: "episode_rank \<Rightarrow> episode_rank \<Rightarrow> bool" where
  "less_episode_rank a b \<longleftrightarrow> a \<le> b \<and> \<not> b \<le> (a :: episode_rank)"

instance
proof
  fix x y z :: episode_rank
  show "x < y \<longleftrightarrow> x \<le> y \<and> \<not> y \<le> x" by (simp add: less_episode_rank_def)
  show "x \<le> x" by (cases x) simp_all
  show "x \<le> z" if "x \<le> y" "y \<le> z" using that by (cases x; cases y; cases z) auto
  show "x = y" if "x \<le> y" "y \<le> x" using that by (cases x; cases y) auto
  show "x \<le> y \<or> y \<le> x" by (cases x; cases y) auto
qed

end

definition rank_of :: "episode_index \<Rightarrow> episode_rank" where
  "rank_of i = (case i of Some (s, e) \<Rightarrow> Numbered s e | None \<Rightarrow> Unnumbered)"

lemma index_after_rank: "index_after a b \<longleftrightarrow> rank_of (Some b) < rank_of (Some a)"
  by (auto simp: index_after_def rank_of_def less_episode_rank_def split: prod.split)

interpretation episode_order: keyed_order episode_order_less "\<lambda>_. True" "\<lambda>e. rank_of (item_episode_index e)"
  by unfold_locales
     (auto simp: episode_order_less_def index_after_rank less_episode_rank_def rank_of_def split: option.splits)

text \<open>The index of the last watched episode is the greatest one.\<close>

definition watched_indices :: "jobject list \<Rightarrow> playback_state list \<Rightarrow> (int \<times> int) set" where
  "watched_indices episodes states =
     {i. \<exists>e \<in> set episodes. string_or_empty e ''Id'' \<noteq> [] \<and>
        (\<exists>s \<in> set states. is_active s \<and> ps_item s = string_or_empty e ''Id'') \<and> item_episode_index e = Some i}"

definition greatest_index :: "episode_index \<Rightarrow> (int \<times> int) set \<Rightarrow> bool" where
  "greatest_index m A \<longleftrightarrow>
     (case m of None \<Rightarrow> A = {} | Some i \<Rightarrow> i \<in> A \<and> (\<forall>j \<in> A. rank_of (Some j) \<le> rank_of (Some i)))"

lemma greatest_later:
  assumes "greatest_index m A"
  shows "greatest_index (later_index i m) (insert i A)"
proof (cases m)
  case None
  with assms show ?thesis by (simp add: greatest_index_def later_index_def)
next
  case (Some l)
  with assms have l: "l \<in> A" "\<forall>j \<in> A. rank_of (Some j) \<le> rank_of (Some l)" by (simp_all add: greatest_index_def)
  show ?thesis
  proof (cases "rank_of (Some l) < rank_of (Some i)")
    case True
    with l have "\<forall>j \<in> A. rank_of (Some j) \<le> rank_of (Some i)" by (meson le_less_trans less_imp_le)
    with True Some show ?thesis by (simp add: greatest_index_def later_index_def index_after_rank)
  next
    case False
    with l Some show ?thesis by (simp add: greatest_index_def later_index_def index_after_rank)
  qed
qed

lemma last_watched_greatest:
  "greatest_index (last_watched_from_items episodes states) (watched_indices episodes states)"
proof -
  let ?active = "map ps_item (filter is_active states)"
  let ?f = "\<lambda>e prev. let i = string_or_empty e ''Id'' in if i = [] \<or> i \<notin> set ?active then prev
    else (case item_episode_index e of None \<Rightarrow> prev | Some idx \<Rightarrow> later_index idx prev)"
  have "greatest_index m A \<Longrightarrow> greatest_index (fold ?f es m) (A \<union> watched_indices es states)" for es m A
  proof (induction es arbitrary: m A)
    case (Cons e es)
    let ?i = "string_or_empty e ''Id''"
    show ?case
    proof (cases "?i = [] \<or> ?i \<notin> set ?active \<or> item_episode_index e = None")
      case True
      then have "watched_indices (e # es) states = watched_indices es states" "?f e m = m"
        by (auto simp: watched_indices_def image_iff Let_def)
      with Cons show ?thesis by simp
    next
      case False
      then obtain idx where idx: "item_episode_index e = Some idx" by blast
      with False have "watched_indices (e # es) states = insert idx (watched_indices es states)"
        "?f e m = later_index idx m"
        by (auto simp: watched_indices_def image_iff Let_def)
      moreover from Cons.IH [OF greatest_later [OF Cons.prems, of idx]]
      have "greatest_index (fold ?f es (later_index idx m)) (insert idx A \<union> watched_indices es states)" .
      ultimately show ?thesis by simp
    qed
  qed (simp add: watched_indices_def)
  from this [of None "{}" episodes] show ?thesis
    by (simp add: last_watched_from_items_def greatest_index_def)
qed

lemma watched_indices_set: "set xs = set ys \<Longrightarrow> watched_indices xs states = watched_indices ys states"
  by (simp add: watched_indices_def)

text \<open>What the user would call a candidate: not played, and after everything watched.\<close>

definition next_candidate :: "playback_state list \<Rightarrow> jobject list \<Rightarrow> jobject \<Rightarrow> bool" where
  "next_candidate states episodes e \<longleftrightarrow>
     string_or_empty e ''Id'' \<noteq> [] \<and> string_or_empty e ''Id'' \<notin> next_up_played states \<and>
     (\<forall>i \<in> watched_indices episodes states.
        \<exists>j. item_episode_index e = Some j \<and> rank_of (Some i) < rank_of (Some j))"

lemma episode_after_candidate:
  assumes "greatest_index m A"
  shows "episode_after e m \<longleftrightarrow> (\<forall>i \<in> A. \<exists>j. item_episode_index e = Some j \<and> rank_of (Some i) < rank_of (Some j))"
proof (cases m)
  case None
  with assms show ?thesis by (simp add: greatest_index_def episode_after_def)
next
  case (Some l)
  with assms have "l \<in> A" "\<forall>j \<in> A. rank_of (Some j) \<le> rank_of (Some l)" by (simp_all add: greatest_index_def)
  with Some show ?thesis
    by (cases "item_episode_index e"; cases l)
       (auto simp: episode_after_def index_after_rank intro: le_less_trans)
qed

lemma find_sorted_least:
  assumes "sorted_wrt (\<lambda>a b. \<not> lt b a) xs" and "find P xs = Some x" and "\<not> lt x x"
  shows "P x \<and> x \<in> set xs \<and> (\<forall>y \<in> set xs. P y \<longrightarrow> \<not> lt y x)"
  using assms by (induction xs) (auto split: if_splits)

text \<open>
  C33: the next episode of a series is what it should be, whatever the order in which the upstream
  lists the episodes: an unplayed episode after every watched one, and no other such episode comes
  before it; and none is offered only when there is none.
\<close>

theorem next_episode_correct:
  "(\<forall>e. next_episode states episodes = Some e \<longrightarrow>
      e \<in> set episodes \<and> next_candidate states episodes e \<and>
      (\<forall>x \<in> set episodes. next_candidate states episodes x \<longrightarrow>
        rank_of (item_episode_index e) \<le> rank_of (item_episode_index x))) \<and>
   (next_episode states episodes = None \<longleftrightarrow> (\<forall>x \<in> set episodes. \<not> next_candidate states episodes x))"
proof -
  let ?sorted = "stable_sort episode_order_less episodes"
  let ?P = "\<lambda>e. string_or_empty e ''Id'' \<noteq> [] \<and> string_or_empty e ''Id'' \<notin> next_up_played states \<and>
    episode_after e (last_watched_from_items ?sorted states)"
  have P: "?P e \<longleftrightarrow> next_candidate states episodes e" for e
    using episode_after_candidate [OF last_watched_greatest, of e ?sorted states]
      watched_indices_set [of ?sorted episodes states] by (simp add: next_candidate_def)
  have next_ep: "next_episode states episodes = find ?P ?sorted"
    by (simp add: next_episode_def Let_def)
  have sorted: "sorted_wrt (\<lambda>a b. \<not> episode_order_less b a) ?sorted"
    by (rule episode_order.sorted_stable_sort) simp
  show ?thesis
  proof (intro conjI allI impI)
    fix e assume "next_episode states episodes = Some e"
    with find_sorted_least [OF sorted, of ?P e] episode_order.irrefl [of e]
    have e: "?P e \<and> e \<in> set ?sorted \<and> (\<forall>x \<in> set ?sorted. ?P x \<longrightarrow> \<not> episode_order_less x e)"
      unfolding next_ep by blast
    then show "e \<in> set episodes" "next_candidate states episodes e" unfolding P by simp_all
    from e show "\<forall>x \<in> set episodes. next_candidate states episodes x \<longrightarrow>
        rank_of (item_episode_index e) \<le> rank_of (item_episode_index x)"
      unfolding P by (simp add: episode_order.lt_key not_less)
  next
    show "next_episode states episodes = None \<longleftrightarrow> (\<forall>x \<in> set episodes. \<not> next_candidate states episodes x)"
      unfolding next_ep find_None_iff P set_stable_sort by blast
  qed
qed

definition demo_episodes :: "jobject list" where
  "demo_episodes =
     [[(''Id'', JString ''e2''), (''IndexNumber'', JInt 2), (''ParentIndexNumber'', JInt 1)],
      [(''Id'', JString ''e3''), (''IndexNumber'', JInt 3), (''ParentIndexNumber'', JInt 1)],
      [(''Id'', JString ''e1''), (''IndexNumber'', JInt 1), (''ParentIndexNumber'', JInt 1)]]"

definition demo_states :: "playback_state list" where
  "demo_states = [(fresh_state ''u'' ''x'' ''e1'')\<lparr>ps_played := True\<rparr>]"

theorem next_episode_correct_witness:
  "map_option (\<lambda>e. string_or_empty e ''Id'') (next_episode demo_states demo_episodes) = Some ''e2'' \<and>
   next_candidate demo_states demo_episodes (hd demo_episodes)"
proof -
  have n: "next_episode demo_states demo_episodes = Some (hd demo_episodes)"
    by (simp add: next_episode_def demo_states_def demo_episodes_def stable_sort_def Let_def
        episode_order_less_def item_episode_index_def int64_field_def field_def index_after_def
        last_watched_from_items_def is_active_def fresh_state_def string_or_empty_def string_field_def
        next_up_played_def playback_state_set_def playback_state_ids_def episode_after_def later_index_def
        equal_fold_def to_lower_def lower_char_def)
  have "string_or_empty (hd demo_episodes) ''Id'' = ''e2''"
    by (simp add: demo_episodes_def string_or_empty_def string_field_def field_def)
  with next_episode_correct [of demo_states demo_episodes] n show ?thesis by simp
qed

section \<open>Personal filters\<close>

definition positive_holds :: "playback_state list \<Rightarrow> filter_op list \<Rightarrow> string \<Rightarrow> bool" where
  "positive_holds states ops i \<longleftrightarrow>
     (\<forall>op \<in> set ops. op_positive op \<longrightarrow>
        i \<noteq> [] \<and> (\<exists>s \<in> set states. ps_item s = i \<and> state_matches (op_filter op) s))"

lemma apply_ops_exclude:
  "set (snd (apply_ops states ops pos exclude)) =
     set exclude \<union> {ps_item s | s op. s \<in> set states \<and> op \<in> set ops \<and> \<not> op_positive op \<and> state_matches (op_filter op) s}"
  by (induction states ops pos exclude rule: apply_ops.induct)
     (auto simp: Let_def states_matching_filter_def)

lemma apply_ops_keep:
  "(fst (apply_ops states ops pos exclude) = None \<longleftrightarrow> pos = None \<and> (\<forall>op \<in> set ops. \<not> op_positive op)) \<and>
   (\<forall>keep. fst (apply_ops states ops pos exclude) = Some keep \<longrightarrow>
      (\<forall>i. i \<in> set keep \<longleftrightarrow> (case pos of Some p \<Rightarrow> i \<in> set p | None \<Rightarrow> True) \<and> positive_holds states ops i))"
proof (induction states ops pos exclude rule: apply_ops.induct)
  case (1 states pos exclude)
  then show ?case by (auto simp: positive_holds_def)
next
  case (2 states op ops pos exclude)
  show ?case
  proof (cases "op_positive op")
    case False
    with "2.IH"(2) [OF refl] show ?thesis by (simp add: Let_def positive_holds_def)
  next
    case True
    let ?ids = "playback_state_ids (states_matching_filter states (op_filter op))"
    have ids: "i \<in> set ?ids \<longleftrightarrow> i \<noteq> [] \<and> (\<exists>s \<in> set states. ps_item s = i \<and> state_matches (op_filter op) s)" for i
      by (auto simp: playback_state_ids_def states_matching_filter_def)
    have one: "positive_holds states (op # ops) i \<longleftrightarrow> i \<in> set ?ids \<and> positive_holds states ops i" for i
      using True ids by (auto simp: positive_holds_def)
    have "(case intersect_positive ?ids pos of Some p \<Rightarrow> i \<in> set p | None \<Rightarrow> True) \<longleftrightarrow>
        (case pos of Some p \<Rightarrow> i \<in> set p | None \<Rightarrow> True) \<and> i \<in> set ?ids" for i
      by (auto simp: intersect_positive_def split: option.split)
    moreover have "intersect_positive ?ids pos \<noteq> None"
      by (simp add: intersect_positive_def split: option.split)
    ultimately show ?thesis using "2.IH"(1) [OF refl True] True unfolding one by (simp add: Let_def)
  qed
qed

interpretation string_order: keyed_order "(<) :: string \<Rightarrow> string \<Rightarrow> bool" "\<lambda>_. True" "\<lambda>s. s"
  by unfold_locales simp

lemma sorted_keys: "set (sorted_keys ids) = set ids" "distinct (sorted_keys ids)"
  "sorted_wrt (\<lambda>a b. \<not> b < a) (sorted_keys ids)"
proof -
  show "set (sorted_keys ids) = set ids" by (simp add: sorted_keys_def)
  have "mset (sorted_keys ids) = mset (remdups ids)" by (simp add: sorted_keys_def)
  then show "distinct (sorted_keys ids)" by (metis distinct_remdups mset_eq_imp_distinct_iff)
  show "sorted_wrt (\<lambda>a b. \<not> b < a) (sorted_keys ids)"
    unfolding sorted_keys_def by (rule string_order.sorted_stable_sort) simp
qed

text \<open>
  the personal filters of a query select by the user's states alone: with a positive filter
  exactly the items that every positive filter holds of are listed, once each and in order;
  exactly the items a negative filter holds of are left out.
\<close>

theorem personal_filters_exact:
  "(\<forall>keep. fst (fst (personal_filter_ids states q)) = Some keep \<longrightarrow>
      distinct keep \<and> sorted_wrt (\<lambda>a b. \<not> b < a) keep \<and>
      (\<forall>i. i \<in> set keep \<longleftrightarrow> positive_holds states (filter_ops q) i)) \<and>
   (fst (fst (personal_filter_ids states q)) = None \<longleftrightarrow> (\<forall>op \<in> set (filter_ops q). \<not> op_positive op)) \<and>
   (\<forall>i. i \<in> set (snd (fst (personal_filter_ids states q))) \<longleftrightarrow>
      (\<exists>s \<in> set states. \<exists>op \<in> set (filter_ops q). \<not> op_positive op \<and> ps_item s = i \<and> state_matches (op_filter op) s))"
proof (cases "filter_ops q = []")
  case True
  then show ?thesis by (simp add: personal_filter_ids_def)
next
  case False
  let ?r = "apply_ops states (filter_ops q) None []"
  have ids: "fst (personal_filter_ids states q) = (map_option sorted_keys (fst ?r), sorted_keys (snd ?r))"
    using False by (cases ?r) (simp add: personal_filter_ids_def Let_def)
  show ?thesis
    unfolding ids fst_conv snd_conv sorted_keys apply_ops_exclude
    using apply_ops_keep [of states "filter_ops q" None "[]"] sorted_keys by auto
qed

theorem personal_filters_exact_witness:
  "\<exists>keep. fst (fst (personal_filter_ids [demo_state\<lparr>ps_played := True\<rparr>] [(''Filters'', [''IsPlayed''])])) = Some keep \<and>
     distinct keep \<and> ''i'' \<in> set keep"
proof -
  let ?q = "[(''Filters'', [''IsPlayed''])]" and ?s = "[demo_state\<lparr>ps_played := True\<rparr>]"
  have ops: "filter_ops ?q = [\<lparr>op_positive = True, op_filter = no_filter\<lparr>fl_played := Some True\<rparr>\<rparr>]"
    by code_simp
  have "positive_holds ?s (filter_ops ?q) ''i''"
    unfolding ops by (simp add: positive_holds_def state_matches_def no_filter_def demo_state_def fresh_state_def)
  with personal_filters_exact [of ?s ?q] ops show ?thesis by auto
qed

section \<open>Pages\<close>

text \<open>
  a page is the requested part of the list, unless the sum of start and limit leaves the
  64 bit range: then the slice bound is negative and the handler panics, for every list that
  reaches up to the start.
\<close>

theorem page_slice_correct:
  assumes "in_int64 start" and "in_int64 limit" and "int (length items) \<le> max_int64"
  shows "page_slice start limit items =
    (if 0 < start \<and> 0 < limit \<and> start < int (length items) \<and> max_int64 < start + limit then None
     else if 0 < limit then Some (take (nat limit) (drop (nat start) items))
     else Some (drop (nat start) items))"
proof (cases "0 < limit \<and> (if start < 0 then 0 else start) < int (length items)")
  case False
  then show ?thesis by (auto simp: page_slice_def Let_def nat_le_iff)
next
  case True
  let ?s = "if start < 0 then 0 else start"
  have s: "0 \<le> ?s" "?s < int (length items)" "nat ?s = nat start" using True by (auto split: if_splits)
  show ?thesis
  proof (cases "max_int64 < ?s + limit")
    case over: True
    then have "wrap64 (?s + limit) = ?s + limit - 18446744073709551616"
      using assms s by (intro wrap64_over) (auto simp: in_int64_def)
    moreover have "0 < start" using over assms by (auto simp: in_int64_def split: if_splits)
    ultimately show ?thesis using True over s assms
      by (simp add: page_slice_def Let_def in_int64_def)
  next
    case False
    then have w: "wrap64 (?s + limit) = ?s + limit"
      using True s assms by (intro wrap64_id) (auto simp: in_int64_def)
    have "\<not> (0 < start \<and> max_int64 < start + limit)" using False by (auto split: if_splits)
    moreover have "drop (nat start) items = take (nat limit) (drop (nat start) items)"
      if "int (length items) < ?s + limit" using that True by (auto split: if_splits)
    ultimately show ?thesis using True s w unfolding page_slice_def Let_def
      by (auto simp del: take_all_iff)
  qed
qed

theorem page_slice_correct_witness:
  "page_slice 1 9223372036854775807 [JNull, JNull] = None"
  using page_slice_correct [of 1 9223372036854775807 "[JNull, JNull]"]
  by (simp add: in_int64_def)

end
