(* ===== verification/Store_Theorems.thy ===== *)
theory Store_Theorems
  imports Playback_Handlers Playback_Theorems
begin

text \<open>
  The contract between the handlers of personal state and the store, and what follows: users are
  isolated from one another, a write is read back, reports are accounted for. The in-memory store
  provides the contract. Further properties of the store: updates of the upstream's authentication
  are atomic and keep the topology valid; aggregates count what the states say.
\<close>

section \<open>The contract of the store\<close>

text \<open>What the user did, as opposed to what is known about the item.\<close>

definition user_part ::
  "playback_state \<Rightarrow> (int \<times> bool \<times> f64 option \<times> time option \<times> int) \<times> bool \<times> bool option \<times> bool \<times> time" where
  "user_part s =
     ((ps_position s, ps_played s, ps_percentage s, ps_last_played s, ps_play_count s),
      ps_favorite s, ps_likes s, ps_hide s, ps_updated s)"

lemma apply_resolved_item_user: "ps_gateway_user (fst (apply_resolved_item by_id requested orphan now s)) = ps_gateway_user s"
  by (auto simp: apply_resolved_item_def reconcile_frame split: option.splits prod.splits)

lemma apply_resolved_items_own:
  assumes "apply_resolved_items items requested orphan now states = (ss, ps)"
    and "\<forall>s \<in> set states. ps_gateway_user s = me"
  shows "(\<forall>s \<in> set ss. ps_gateway_user s = me) \<and> (\<forall>s \<in> set ps. ps_gateway_user s = me)"
  using assms by (auto simp: apply_resolved_items_def Let_def apply_resolved_item_user)

locale playback_store =
  fixes ops :: "'s playback_ops" and ok :: "string \<Rightarrow> bool" and inv :: "'s \<Rightarrow> bool"
  assumes find_key: "inv st \<Longrightarrow> ok u \<Longrightarrow> po_find ops u i st = Inr (Some s) \<Longrightarrow>
      ps_gateway_user s = u \<and> ps_item s = i"
    and save_inv: "inv st \<Longrightarrow> ok (ps_gateway_user s) \<Longrightarrow> inv (snd (po_save ops now s st))"
    and find_saved: "inv st \<Longrightarrow> ok (ps_gateway_user s) \<Longrightarrow> po_save ops now s st = (None, st') \<Longrightarrow>
      po_find ops (ps_gateway_user s) (ps_item s) st' = Inr (Some (s\<lparr>ps_updated := or_now now (ps_updated s)\<rparr>))"
    and save_other: "inv st \<Longrightarrow> ok (ps_gateway_user s) \<Longrightarrow> ok u \<Longrightarrow> (u, i) \<noteq> (ps_gateway_user s, ps_item s) \<Longrightarrow>
      po_find ops u i (snd (po_save ops now s st)) = po_find ops u i st"
    and resolve_inv: "inv st \<Longrightarrow> ok (ps_gateway_user s) \<Longrightarrow> inv (snd (po_resolve ops now s st))"
    and resolve_old: "inv st \<Longrightarrow> ok (ps_gateway_user s) \<Longrightarrow> po_resolve ops now s st = (None, st') \<Longrightarrow>
      po_find ops (ps_gateway_user s) (ps_item s) st = Inr (Some old) \<Longrightarrow>
      po_find ops (ps_gateway_user s) (ps_item s) st' = Inr (Some (resolve_into s old))"
    and resolve_other: "inv st \<Longrightarrow> ok (ps_gateway_user s) \<Longrightarrow> ok u \<Longrightarrow> (u, i) \<noteq> (ps_gateway_user s, ps_item s) \<Longrightarrow>
      po_find ops u i (snd (po_resolve ops now s st)) = po_find ops u i st"
    and resolve_failed: "inv st \<Longrightarrow> po_resolve ops now s st = (Some err, st') \<Longrightarrow> po_find ops u i st' = po_find ops u i st"
    and event_frame: "inv (snd (po_event ops now e st)) = inv st"
      "po_find ops u i (snd (po_event ops now e st)) = po_find ops u i st"
    and audit_frame: "inv (po_audit ops now a st) = inv st" "po_find ops u i (po_audit ops now a st) = po_find ops u i st"
    and counts_frame: "inv (po_counts ops now cs st) = inv st" "po_find ops u i (po_counts ops now cs st) = po_find ops u i st"
    and list_own: "inv st \<Longrightarrow> ok u \<Longrightarrow> po_list ops u f st = Inr ss \<Longrightarrow> s \<in> set ss \<Longrightarrow> ps_gateway_user s = u"
begin

lemma state_for_item_key:
  assumes "inv st" "ok (gs_user sess)" "state_for_item ops sess i st = Inr s"
  shows "ps_gateway_user s = gs_user sess \<and> ps_item s = i"
  using assms find_key [OF assms(1,2), of i]
  by (auto simp: state_for_item_def fresh_state_def split: sum.splits option.splits if_splits)

lemma write_state_other:
  assumes "inv st" "ok (gs_user sess)" and frame: "\<And>s. ps_gateway_user (upd s) = ps_gateway_user s \<and> ps_item (upd s) = ps_item s"
    and "ok u" "u \<noteq> gs_user sess"
  shows "po_find ops u i (snd (write_state ops sess now seen answer item upd st)) = po_find ops u i st"
proof (cases "state_for_item ops sess item st")
  case (Inr s)
  let ?s = "(enrich_metadata answer seen (upd s))\<lparr>ps_updated := now\<rparr>"
  from state_for_item_key [OF assms(1,2) Inr] frame have "ps_gateway_user ?s = gs_user sess" by simp
  with save_other [OF assms(1), of ?s u i now] assms(2,4,5) Inr show ?thesis
    by (auto simp: write_state_def Let_def split: prod.split option.split)
qed (simp add: write_state_def)

lemma write_state_read_back:
  assumes "inv st" "ok (gs_user sess)" and frame: "\<And>s. ps_gateway_user (upd s) = ps_gateway_user s \<and> ps_item (upd s) = ps_item s"
    and w: "write_state ops sess now seen answer item upd st = (StatusJSON code body, st')" and "now \<noteq> 0"
  shows "\<exists>old. state_for_item ops sess item st = Inr old \<and>
    po_find ops (gs_user sess) item st' = Inr (Some ((enrich_metadata answer seen (upd old))\<lparr>ps_updated := now\<rparr>)) \<and>
    body = JObject (user_data_dto ((enrich_metadata answer seen (upd old))\<lparr>ps_updated := now\<rparr>)) \<and> code = 200"
proof (cases "state_for_item ops sess item st")
  case (Inl e)
  with w show ?thesis by (simp add: write_state_def)
next
  case (Inr old)
  let ?s = "(enrich_metadata answer seen (upd old))\<lparr>ps_updated := now\<rparr>"
  from state_for_item_key [OF assms(1,2) Inr] frame
  have key: "ps_gateway_user ?s = gs_user sess" "ps_item ?s = item" by simp_all
  from w Inr have "po_save ops now ?s st = (None, st')" "code = 200" "body = JObject (user_data_dto ?s)"
    by (auto simp: write_state_def Let_def split: prod.splits option.splits)
  with find_saved [OF assms(1), of ?s now st'] key assms(2,5) Inr show ?thesis
    by (simp add: or_now_def)
qed

lemma report_other:
  assumes "inv st" "ok (gs_user sess)" "ok u" "u \<noteq> gs_user sess"
  shows "po_find ops u i (snd (snd (record_playback_request ops pf cfg sess r clock now answer guards st))) =
    po_find ops u i st"
proof (cases "rpt_body r")
  case None
  then show ?thesis by (simp add: record_playback_request_def)
next
  case (Some body)
  obtain d named where d: "details_from_request pf (rpt_query r) body = (d, named)" by fastforce
  obtain guards' active eligible where g:
    "suppress \<lparr>gk_token_hash = gs_token_hash sess, gk_item_id = pd_item d\<rparr> clock guards = (guards', active, eligible)"
    by (metis prod_cases3)
  have save: "po_find ops u i (snd (po_save ops now (reported_state now event d cfg answer s) st1)) = po_find ops u i st"
    if st1: "inv st1" "po_find ops u i st1 = po_find ops u i st"
      and s: "state_for_item ops sess (pd_item d) st1 = Inr s" for st1 s event
    using save_other [OF st1(1), of "reported_state now event d cfg answer s" u i now]
      state_for_item_key [OF st1(1) assms(2) s] assms st1(2) by simp
  show ?thesis
    using Some d g assms(1) event_frame audit_frame
    by (auto simp: record_playback_request_def Let_def save split: prod.split sum.split)
       (metis (no_types, lifting) save snd_conv event_frame audit_frame)+
qed

lemma write_state_inv:
  assumes "inv st" "ok (gs_user sess)" and frame: "\<And>s. ps_gateway_user (upd s) = ps_gateway_user s \<and> ps_item (upd s) = ps_item s"
  shows "inv (snd (write_state ops sess now seen answer item upd st))"
proof (cases "state_for_item ops sess item st")
  case (Inr s)
  let ?s = "(enrich_metadata answer seen (upd s))\<lparr>ps_updated := now\<rparr>"
  from state_for_item_key [OF assms(1,2) Inr] frame have "ps_gateway_user ?s = gs_user sess" by simp
  with save_inv [OF assms(1), of ?s now] assms(2) Inr show ?thesis
    by (auto simp: write_state_def Let_def split: prod.split option.split)
qed (simp add: write_state_def assms)

lemma report_inv:
  assumes "inv st" "ok (gs_user sess)"
  shows "inv (snd (snd (record_playback_request ops pf cfg sess r clock now answer guards st)))"
proof (cases "rpt_body r")
  case None
  with assms show ?thesis by (simp add: record_playback_request_def)
next
  case (Some body)
  obtain d named where d: "details_from_request pf (rpt_query r) body = (d, named)" by fastforce
  obtain guards' active eligible where g:
    "suppress \<lparr>gk_token_hash = gs_token_hash sess, gk_item_id = pd_item d\<rparr> clock guards = (guards', active, eligible)"
    by (metis prod_cases3)
  have save: "inv (snd (po_save ops now (reported_state now event d cfg answer s) st1))"
    if "inv st1" and s: "state_for_item ops sess (pd_item d) st1 = Inr s" for st1 s event
    using save_inv [OF that(1), of "reported_state now event d cfg answer s" now]
      state_for_item_key [OF that(1) assms(2) s] assms by simp
  show ?thesis
    using Some d g assms(1) event_frame audit_frame
    by (auto simp: record_playback_request_def Let_def save split: prod.split sum.split)
       (metis (no_types, lifting) save snd_conv event_frame audit_frame)+
qed

text \<open>Resolving items keeps what the user did.\<close>

definition spares :: "string \<Rightarrow> 's \<Rightarrow> 's \<Rightarrow> bool" where
  "spares me st st' \<longleftrightarrow>
     (\<forall>u j. ok u \<and> u \<noteq> me \<longrightarrow> po_find ops u j st' = po_find ops u j st) \<and>
     (\<forall>u j old. ok u \<and> po_find ops u j st = Inr (Some old) \<longrightarrow>
        (\<exists>new. po_find ops u j st' = Inr (Some new) \<and> user_part new = user_part old))"

lemma keeps_refl: "spares me st st"
  by (auto simp: spares_def)

lemma keeps_trans: "spares me a b \<Longrightarrow> spares me b c \<Longrightarrow> spares me a c"
  unfolding spares_def by metis

lemma resolve_spares:
  assumes "inv st" "ok (ps_gateway_user s)" and p: "po_resolve ops now s st = (e, st')"
  shows "inv st' \<and> spares (ps_gateway_user s) st st'"
proof
  show "inv st'" using resolve_inv [OF assms(1,2), of now] p by simp
  have others: "po_find ops u j st' = po_find ops u j st" if "ok u" "(u, j) \<noteq> (ps_gateway_user s, ps_item s)" for u j
    using resolve_other [OF assms(1,2) that, of now] p by simp
  have "\<exists>new. po_find ops u j st' = Inr (Some new) \<and> user_part new = user_part old"
    if "ok u" and old: "po_find ops u j st = Inr (Some old)" for u j old
  proof (cases e)
    case None
    with others [OF that(1)] resolve_old [OF assms(1,2), of now st' old] p old show ?thesis
      by (cases "(u, j) = (ps_gateway_user s, ps_item s)") (simp_all add: user_part_def resolve_into_def)
  next
    case (Some err)
    with resolve_failed [OF assms(1)] p old show ?thesis by simp
  qed
  with others show "spares (ps_gateway_user s) st st'" by (simp add: spares_def)
qed

lemma resolve_step:
  assumes "inv st" "ok (gs_user sess)"
    and s: "state_for_item ops sess i st = Inr s" and r: "reconcile_resolved_item item t s = (outcome, s')"
    and p: "po_resolve ops now s' st = (e, st')"
  shows "inv st' \<and> spares (gs_user sess) st st'"
proof -
  have "ps_gateway_user s' = gs_user sess"
    using state_for_item_key [OF assms(1,2) s] reconcile_frame [OF r] by simp
  with resolve_spares [OF assms(1) _ p] assms(2) show ?thesis by simp
qed

lemma resolve_batch_keeps:
  assumes "ok (gs_user sess)"
  shows "inv st \<Longrightarrow> inv (snd (resolve_batch ops sess q rewrite now by_id ids st)) \<and>
    spares (gs_user sess) st (snd (resolve_batch ops sess q rewrite now by_id ids st))"
proof (induction ids arbitrary: st)
  case Nil
  then show ?case by (simp add: keeps_refl)
next
  case (Cons i ids)
  show ?case
  proof (cases "state_for_item ops sess i st")
    case (Inl e)
    with Cons.prems show ?thesis by (simp add: keeps_refl)
  next
    case (Inr s)
    define item where "item = map_of by_id i"
    obtain outcome s' where r: "reconcile_resolved_item item now s = (outcome, s')" by fastforce
    obtain e st1 where p: "po_resolve ops now s' st = (e, st1)" by fastforce
    note step = resolve_step [OF Cons.prems assms Inr r p]
    show ?thesis
    proof (cases "item \<noteq> None \<and> \<not> item_matches_resolution_query (the item) q")
      case True
      with Inr Cons.IH [OF Cons.prems] show ?thesis by (auto simp: item_def)
    next
      case False
      have "snd (resolve_batch ops sess q rewrite now by_id (i # ids) st) =
          (case e of None \<Rightarrow> snd (resolve_batch ops sess q rewrite now by_id ids st1) | Some _ \<Rightarrow> st1)"
        using False Inr r p unfolding item_def
        by (cases "map_of by_id i") (auto split: option.split prod.split sum.split)
      with step Cons.IH [of st1] show ?thesis by (cases e) (auto intro: keeps_trans)
    qed
  qed
qed

lemma resolve_items_keeps:
  assumes "ok (gs_user sess)"
  shows "inv st \<Longrightarrow> inv (snd (resolve_items_by_id ops sess q rewrite now backend ids st)) \<and>
    spares (gs_user sess) st (snd (resolve_items_by_id ops sess q rewrite now backend ids st))"
proof (induction "length ids" arbitrary: ids st rule: less_induct)
  case less
  show ?case
  proof (cases "ids = []")
    case True
    with less.prems show ?thesis by (simp add: resolve_items_by_id.simps [of _ _ _ _ _ _ "[]"] keeps_refl)
  next
    case False
    let ?later = "drop personal_id_batch_limit ids"
    have shorter: "length ?later < length ids" using False by (simp add: personal_id_batch_limit_def)
    note IH = less.hyps [OF shorter]
    show ?thesis
    proof (cases "backend (take personal_id_batch_limit ids)")
      case None
      with False IH [OF less.prems] show ?thesis
        by (simp add: resolve_items_by_id.simps [of _ _ _ _ _ _ ids] Let_def)
    next
      case (Some v)
      obtain r st1 where b: "resolve_batch ops sess q rewrite now (items_by_id (extract_items v))
          (take personal_id_batch_limit ids) st = (r, st1)" by fastforce
      with resolve_batch_keeps [OF assms less.prems] have k: "inv st1" "spares (gs_user sess) st st1"
        by (metis snd_conv)+
      have "snd (resolve_items_by_id ops sess q rewrite now backend ids st) =
          (case r of Inl _ \<Rightarrow> st1 | Inr _ \<Rightarrow> snd (resolve_items_by_id ops sess q rewrite now backend ?later st1))"
        using False Some b
        by (simp add: resolve_items_by_id.simps [of _ _ _ _ _ _ ids] Let_def split: sum.split prod.split)
      with k IH [of st1] show ?thesis by (cases r) (auto intro: keeps_trans)
    qed
  qed
qed

lemma persist_all_keeps:
  assumes "ok me"
  shows "inv st \<Longrightarrow> \<forall>s \<in> set ss. ps_gateway_user s = me \<Longrightarrow>
    inv (persist_all ops now ss st) \<and> spares me st (persist_all ops now ss st)"
proof (induction ss arbitrary: st)
  case Nil
  then show ?case by (simp add: keeps_refl)
next
  case (Cons s ss)
  obtain e st1 where p: "po_resolve ops now s st = (e, st1)" by fastforce
  from resolve_spares [OF Cons.prems(1) _ p] Cons.prems assms have "inv st1" "spares me st st1" by auto
  with Cons.IH [of st1] Cons.prems(2) p show ?case by (auto intro: keeps_trans)
qed

lemma repair_keeps:
  assumes "ok me" "inv st" "\<forall>s \<in> set states. ps_gateway_user s = me"
    and r: "repair_incomplete_states ops now backend states st = (states', st')"
  shows "inv st' \<and> spares me st st' \<and> (\<forall>s \<in> set states'. ps_gateway_user s = me)"
proof (cases "newest_incomplete_active states (int personal_id_batch_limit) = [] \<or>
    backend (newest_incomplete_active states (int personal_id_batch_limit)) = None")
  case True
  then have "repair_incomplete_states ops now backend states st = (states, st)"
    unfolding repair_incomplete_states_def Let_def by (elim disjE) simp_all
  with r have "states' = states" "st' = st" by simp_all
  with assms show ?thesis by (simp add: keeps_refl)
next
  case False
  then obtain ids v where v: "ids = newest_incomplete_active states (int personal_id_batch_limit)" "ids \<noteq> []"
    "backend ids = Some v" by auto
  obtain ss ps where a: "apply_resolved_items (extract_items v) (Some ids)
      (id_resolution_complete v ids (extract_items v)) now states = (ss, ps)" by fastforce
  have "states' = ss" "st' = persist_all ops now ps st"
    using r v a by (simp_all add: repair_incomplete_states_def Let_def)
  with apply_resolved_items_own [OF a assms(3)] persist_all_keeps [OF assms(1,2), of ps now] show ?thesis by simp
qed

lemma next_up_series_keeps:
  assumes "ok me" "inv st" "\<forall>s \<in> set states. ps_gateway_user s = me"
    and r: "next_up_series ops rewrite now explicit series fetched states st = (item, states', st')"
  shows "inv st' \<and> spares me st st' \<and> (\<forall>s \<in> set states'. ps_gateway_user s = me)"
proof (cases fetched)
  case None
  with assms show ?thesis by (simp add: next_up_series_def keeps_refl)
next
  case (Some f)
  obtain episodes whole where f: "f = (episodes, whole)" by fastforce
  obtain ss ps where a: "apply_resolved_items (stable_sort episode_order_less episodes) None False now states = (ss, ps)"
    by fastforce
  define st1 where "st1 = (if whole \<and> episodes \<noteq> []
    then po_counts ops now [\<lparr>cc_item = series, cc_count = int (length episodes), cc_updated = 0\<rparr>] st else st)"
  have "inv st1" "spares me st st1"
    using assms(2) by (auto simp: st1_def counts_frame spares_def)
  moreover have "states' = ss" "st' = persist_all ops now ps st1"
    using r Some f a st1_def by (auto simp: next_up_series_def Let_def split: if_splits)
  ultimately show ?thesis
    using apply_resolved_items_own [OF a assms(3)] persist_all_keeps [OF assms(1), of st1 ps now]
    by (auto intro: keeps_trans)
qed

lemma next_up_loop_keeps:
  assumes "ok me"
  shows "inv st \<Longrightarrow> \<forall>s \<in> set states. ps_gateway_user s = me \<Longrightarrow>
    inv (snd (next_up_loop ops rewrite now explicit page series states st)) \<and>
    spares me st (snd (next_up_loop ops rewrite now explicit page series states st))"
proof (induction series arbitrary: states st)
  case Nil
  then show ?case by (simp add: keeps_refl)
next
  case (Cons s series)
  obtain item states1 st1 where r: "next_up_series ops rewrite now explicit s
      (fetch_complete_series_episodes (page s)) states st = (item, states1, st1)"
    by (metis prod_cases3)
  note one = next_up_series_keeps [OF assms Cons.prems r]
  with Cons.IH [of st1 states1] r show ?case
    by (auto split: prod.split intro: keeps_trans)
qed

lemma next_up_keeps:
  assumes "ok (gs_user sess)" "inv st"
  shows "inv (snd (write_next_up_items ops sess q rewrite now backend page st)) \<and>
    spares (gs_user sess) st (snd (write_next_up_items ops sess q rewrite now backend page st))"
proof (cases "po_list ops (gs_user sess) no_filter st")
  case (Inl e)
  with assms show ?thesis by (simp add: write_next_up_items_def keeps_refl)
next
  case (Inr states)
  with list_own [OF assms(2,1)] have own: "\<forall>s \<in> set states. ps_gateway_user s = gs_user sess" by auto
  obtain states1 st1 where r: "(if trim_space (query_get q ''SeriesId'') = []
      then repair_incomplete_states ops now backend states st else (states, st)) = (states1, st1)" by fastforce
  have st1: "inv st1" "spares (gs_user sess) st st1" "\<forall>s \<in> set states1. ps_gateway_user s = gs_user sess"
    using repair_keeps [OF assms own, of now backend states1 st1] r own assms keeps_refl by (auto split: if_splits)
  have "\<exists>explicit series. snd (write_next_up_items ops sess q rewrite now backend page st) =
      snd (next_up_loop ops rewrite now explicit page series states1 st1)"
  proof (cases "trim_space (query_get q ''SeriesId'') = []")
    case True
    with Inr r have "snd (write_next_up_items ops sess q rewrite now backend page st) =
        snd (next_up_loop ops rewrite now False page
          (let series = recently_active_series states1; limit = wrap64 (int_query q ''Limit'' 20 + 20)
           in if limit > 0 \<and> int (length series) > limit then take (nat limit) series else series) states1 st1)"
      by (simp add: write_next_up_items_def Let_def split: prod.split)
    then show ?thesis by blast
  next
    case False
    with Inr r have "snd (write_next_up_items ops sess q rewrite now backend page st) =
        snd (next_up_loop ops rewrite now True page [trim_space (query_get q ''SeriesId'')] states1 st1)"
      by (cases "0 < wrap64 (int_query q ''Limit'' 20 + 20)")
         (simp_all add: write_next_up_items_def Let_def del: next_up_loop.simps split: prod.split)
    then show ?thesis by blast
  qed
  with next_up_loop_keeps [OF assms(1) st1(1,3)] st1(2) show ?thesis by (metis keeps_trans)
qed

end

section \<open>The in-memory store provides it\<close>

text \<open>User ids without a zero byte keep the keys apart.\<close>

definition plain_id :: "string \<Rightarrow> bool" where
  "plain_id u \<longleftrightarrow> CHR 0x00 \<notin> set u"

lemma playback_state_key_inject:
  assumes "plain_id u" and "plain_id v"
  shows "playback_state_key u i = playback_state_key v j \<longleftrightarrow> u = v \<and> i = j"
proof
  assume k: "playback_state_key u i = playback_state_key v j"
  have "takeWhile (\<lambda>c. c \<noteq> CHR 0x00) (playback_state_key w k) = w" if "plain_id w" for w k
    using that unfolding plain_id_def playback_state_key_def by (subst takeWhile_append2) auto
  from this [OF assms(1), of i] this [OF assms(2), of j] k have "u = v" by simp
  with k show "u = v \<and> i = j" by (simp add: playback_state_key_def)
qed simp

definition memory_inv :: "memory_store \<Rightarrow> bool" where
  "memory_inv m \<longleftrightarrow>
     distinct (map fst (ms_states m)) \<and>
     (\<forall>k s. map_of (ms_states m) k = Some s \<longrightarrow>
        plain_id (ps_gateway_user s) \<and> k = playback_state_key (ps_gateway_user s) (ps_item s))"

lemma memory_inv_update:
  "memory_inv m \<Longrightarrow> plain_id (ps_gateway_user s) \<Longrightarrow>
     memory_inv (m\<lparr>ms_states := AList.update (playback_state_key (ps_gateway_user s) (ps_item s)) s (ms_states m)\<rparr>)"
  by (auto simp: memory_inv_def update_conv' distinct_update split: if_splits)

lemma resolve_into_key [simp]:
  "ps_gateway_user (resolve_into s old) = ps_gateway_user old" "ps_item (resolve_into s old) = ps_item old"
  by (simp_all add: resolve_into_def)

lemmas memory_simps = memory_ops_def find_playback_state_def save_playback_state_def
  save_playback_resolution_def record_playback_event_def record_audit_def update_conv'

interpretation memory: playback_store memory_ops plain_id memory_inv
proof
  fix st :: memory_store and s :: playback_state and now u i
  assume inv: "memory_inv st"
  show "ps_gateway_user s = u \<and> ps_item s = i"
    if "plain_id u" "po_find memory_ops u i st = Inr (Some s)"
    using inv that playback_state_key_inject [of u "ps_gateway_user s" i "ps_item s"]
    by (auto simp: memory_simps memory_inv_def split: option.splits)
  assume ok: "plain_id (ps_gateway_user s)"
  show "memory_inv (snd (po_save memory_ops now s st))"
    using memory_inv_update [OF inv, of "s\<lparr>ps_updated := or_now now (ps_updated s)\<rparr>"] ok
    by (simp add: memory_simps)
  show "po_find memory_ops (ps_gateway_user s) (ps_item s) st' =
      Inr (Some (s\<lparr>ps_updated := or_now now (ps_updated s)\<rparr>))" if "po_save memory_ops now s st = (None, st')" for st'
    using that by (auto simp: memory_simps)
  show "po_find memory_ops u i (snd (po_save memory_ops now s st)) = po_find memory_ops u i st"
    if "plain_id u" "(u, i) \<noteq> (ps_gateway_user s, ps_item s)"
    using that ok by (auto simp: memory_simps playback_state_key_inject)
  show "memory_inv (snd (po_resolve memory_ops now s st))"
  proof (cases "map_of (ms_states st) (playback_state_key (ps_gateway_user s) (ps_item s))")
    case None
    then show ?thesis
      using memory_inv_update [OF inv, of "s\<lparr>ps_updated := or_now now (ps_updated s)\<rparr>"] ok
      by (simp add: memory_simps Let_def)
  next
    case (Some old)
    with inv ok have old: "plain_id (ps_gateway_user old)"
      "playback_state_key (ps_gateway_user s) (ps_item s) = playback_state_key (ps_gateway_user old) (ps_item old)"
      by (auto simp: memory_inv_def)
    from memory_inv_update [OF inv, of "resolve_into s old"] old Some show ?thesis
      by (simp add: memory_simps Let_def)
  qed
  show "po_find memory_ops (ps_gateway_user s) (ps_item s) st' = Inr (Some (resolve_into s old))"
    if "po_resolve memory_ops now s st = (None, st')"
      "po_find memory_ops (ps_gateway_user s) (ps_item s) st = Inr (Some old)" for st' old
    using that by (auto simp: memory_simps Let_def split: option.splits)
  show "po_find memory_ops u i (snd (po_resolve memory_ops now s st)) = po_find memory_ops u i st"
    if "plain_id u" "(u, i) \<noteq> (ps_gateway_user s, ps_item s)"
    using that ok by (auto simp: memory_simps Let_def playback_state_key_inject split: option.split)
next
  show "po_find memory_ops u i st' = po_find memory_ops u i st"
    if "po_resolve memory_ops now s st = (Some e, st')" for e u i now s and st st' :: memory_store
    using that by (simp add: memory_ops_def)
  fix now e u i a and st :: memory_store
  show "memory_inv (snd (po_event memory_ops now e st)) = memory_inv st"
    "memory_inv (po_audit memory_ops now a st) = memory_inv st"
    by (simp_all add: memory_simps memory_inv_def)
  show "po_find memory_ops u i (snd (po_event memory_ops now e st)) = po_find memory_ops u i st"
    "po_find memory_ops u i (po_audit memory_ops now a st) = po_find memory_ops u i st"
    by (simp_all add: memory_simps)
  show "memory_inv (po_counts memory_ops now cs st) = memory_inv st"
    "po_find memory_ops u i (po_counts memory_ops now cs st) = po_find memory_ops u i st" for cs
    by (simp_all add: memory_simps save_child_counts_def memory_inv_def)
  show "ps_gateway_user s = u" if "po_list memory_ops u f st = Inr ss" "s \<in> set ss" for f ss s
    using that by (auto simp: memory_simps list_playback_states_def)
qed

section \<open>Personal writes\<close>

lemma mark_played_key: "ps_gateway_user (mark_played b now s) = ps_gateway_user s" "ps_item (mark_played b now s) = ps_item s"
  by (simp_all add: mark_played_def)

lemma apply_body_key:
  "ps_gateway_user (apply_user_data_body pf b now s) = ps_gateway_user s"
  "ps_item (apply_user_data_body pf b now s) = ps_item s"
  by (simp_all add: apply_user_data_body_def Let_def split: option.split)

text \<open>What the handler may do: answer without a write, or one write of the session's own state.\<close>

definition own_write ::
  "'s playback_ops \<Rightarrow> session \<Rightarrow> time \<Rightarrow> time \<Rightarrow> json option \<Rightarrow> 's \<Rightarrow> reply \<times> 's \<Rightarrow> bool" where
  "own_write ops sess now seen answer st res \<longleftrightarrow>
     (\<exists>r \<in> {Pass, Status 403, Status 400}. res = (r, st)) \<or>
     (\<exists>item upd. (\<forall>s. ps_gateway_user (upd s) = ps_gateway_user s \<and> ps_item (upd s) = ps_item s) \<and>
        res = write_state ops sess now seen answer item upd st)"

lemma own_reply: "r \<in> {Pass, Status 403, Status 400} \<Longrightarrow> own_write ops sess now seen answer st (r, st)"
  by (auto simp: own_write_def)

lemma own_go:
  "(\<And>s. ps_gateway_user (upd s) = ps_gateway_user s \<and> ps_item (upd s) = ps_item s) \<Longrightarrow>
     own_write ops sess now seen answer st (write_state ops sess now seen answer item upd st)"
  by (auto simp: own_write_def)

lemma own_cases:
  "own_write ops sess now seen answer st x \<Longrightarrow> own_write ops sess now seen answer st y \<Longrightarrow>
     own_write ops sess now seen answer st (if b then x else y)"
  "own_write ops sess now seen answer st x \<Longrightarrow> (\<And>c cs. own_write ops sess now seen answer st (f c cs)) \<Longrightarrow>
     own_write ops sess now seen answer st (case l of [] \<Rightarrow> x | c # cs \<Rightarrow> f c cs)"
  "own_write ops sess now seen answer st x \<Longrightarrow> (\<And>v. own_write ops sess now seen answer st (g v)) \<Longrightarrow>
     own_write ops sess now seen answer st (case m of None \<Rightarrow> x | Some v \<Rightarrow> g v)"
  by (simp_all split: list.split option.split)

lemma personal_write_own:
  "own_write ops sess now seen answer st
     (handle_personal_state_write ops pf sess method rel q body now seen answer st)"
  unfolding handle_personal_state_write_def Let_def
  by (intro own_cases own_reply own_go) (simp_all add: mark_played_key apply_body_key)

lemma personal_write_forbidden:
  assumes "path_parts rel = a # user # b # item # rest" and "equal_fold a ''Users''"
    and "user \<noteq> gs_synthetic_user sess"
  shows "handle_personal_state_write ops pf sess method rel q body now seen answer st = (Status 403, st)"
  using assms by (simp add: handle_personal_state_write_def Let_def)

section \<open>Properties of the personal features\<close>

text \<open>The requests of users that change personal state, as the handlers run them one after another.\<close>

datatype personal_request =
    WriteState session string string query_values "jobject option" time time "json option"
  | Report session report_request time time "json option"
  | Resume session query_values time "string list \<Rightarrow> json option"
  | NextUp session query_values time "string list \<Rightarrow> json option" "string \<Rightarrow> nat \<Rightarrow> json option"

fun request_user :: "personal_request \<Rightarrow> string" where
  "request_user (WriteState sess _ _ _ _ _ _ _) = gs_user sess"
| "request_user (Report sess _ _ _ _) = gs_user sess"
| "request_user (Resume sess _ _ _) = gs_user sess"
| "request_user (NextUp sess _ _ _ _) = gs_user sess"

fun serve ::
  "(string \<Rightarrow> f64 option) \<Rightarrow> resume_policy \<Rightarrow> (jobject \<Rightarrow> jobject option) \<Rightarrow> personal_request \<Rightarrow>
     guard_tracker \<times> memory_store \<Rightarrow> guard_tracker \<times> memory_store" where
  "serve pf cfg rewrite (WriteState sess method rel q body now seen answer) (g, m) =
     (g, snd (handle_personal_state_write memory_ops pf sess method rel q body now seen answer m))"
| "serve pf cfg rewrite (Report sess r clock now answer) (g, m) =
     snd (record_playback_request memory_ops pf cfg sess r clock now answer g m)"
| "serve pf cfg rewrite (Resume sess q now backend) (g, m) =
     (g, snd (write_resume_items memory_ops sess True q rewrite now backend m))"
| "serve pf cfg rewrite (NextUp sess q now backend page) (g, m) =
     (g, snd (write_next_up_items memory_ops sess q rewrite now backend page m))"

lemma serve_other:
  assumes "memory_inv m" "plain_id (request_user r)"
  shows "memory_inv (snd (serve pf cfg rewrite r (g, m))) \<and>
    (\<forall>u i. plain_id u \<and> u \<noteq> request_user r \<longrightarrow>
       find_playback_state u i (snd (serve pf cfg rewrite r (g, m))) = find_playback_state u i m)"
proof -
  have find: "find_playback_state u i m1 = find_playback_state u i m2"
    if "po_find memory_ops u i m1 = po_find memory_ops u i m2" for u i m1 m2
    using that by (auto simp: memory_ops_def find_playback_state_def split: option.splits)
  show ?thesis
  proof (cases r)
    case (WriteState sess me rel q body now seen answer)
    have own: "own_write memory_ops sess now seen answer m
        (handle_personal_state_write memory_ops pf sess me rel q body now seen answer m)"
      by (rule personal_write_own)
    with assms WriteState show ?thesis
      unfolding own_write_def
      by (auto intro!: find memory.write_state_inv memory.write_state_other)
  next
    case (Report sess rr clock now answer)
    with assms memory.report_inv [of m sess] memory.report_other [of m sess]
    show ?thesis by (auto intro!: find)
  next
    case (Resume sess q now backend)
    let ?ids = "playback_state_ids (stable_sort (\<lambda>a b. state_recency a > state_recency b)
      (list_playback_states (gs_user sess) (no_filter\<lparr>fl_resumable := Some True, fl_orphaned := True\<rparr>) m))"
    let ?r = "resolve_items_by_id memory_ops sess q rewrite now backend ?ids m"
    have "snd (serve pf cfg rewrite r (g, m)) = snd ?r"
      using Resume
      by (simp add: write_resume_items_def memory_ops_def Let_def split: sum.split prod.split)
    with memory.resolve_items_keeps [of sess m q rewrite now backend ?ids] assms Resume show ?thesis
      by (auto simp: memory.spares_def intro!: find)
  next
    case (NextUp sess q now backend page)
    with memory.next_up_keeps [of sess m q rewrite now backend page] assms show ?thesis
      by (auto simp: memory.spares_def intro!: find)
  qed
qed


section \<open>Properties\<close>

lemma serve_all_other:
  assumes "memory_inv (snd w)" "\<forall>r \<in> set rs. plain_id (request_user r)"
  shows "memory_inv (snd (fold (serve pf cfg rewrite) rs w)) \<and>
    (\<forall>u i. plain_id u \<and> (\<forall>r \<in> set rs. request_user r \<noteq> u) \<longrightarrow>
       find_playback_state u i (snd (fold (serve pf cfg rewrite) rs w)) = find_playback_state u i (snd w))"
  using assms
proof (induction rs arbitrary: w)
  case (Cons r rs)
  obtain g m where w: "w = (g, m)" by fastforce
  from serve_other [of m r pf cfg rewrite g] Cons.prems w
  have one: "memory_inv (snd (serve pf cfg rewrite r w))"
    "\<And>u i. plain_id u \<Longrightarrow> u \<noteq> request_user r \<Longrightarrow>
       find_playback_state u i (snd (serve pf cfg rewrite r w)) = find_playback_state u i (snd w)" by auto
  with Cons.IH [OF one(1)] Cons.prems(2) show ?case by auto
qed simp

text \<open>
  users are isolated from one another: whatever the requests of the others are, in whatever
  order they run, and from whatever store the earlier requests of everybody led to, the playback
  states of a user who sends none of them stay what they were.
\<close>

theorem users_isolated:
  assumes "ms_states m = []"
    and "\<forall>r \<in> set (earlier @ others). plain_id (request_user r)" and "plain_id u"
    and "\<forall>r \<in> set others. request_user r \<noteq> u"
  shows "find_playback_state u i (snd (fold (serve pf cfg rewrite) (earlier @ others) (g, m))) =
    find_playback_state u i (snd (fold (serve pf cfg rewrite) earlier (g, m)))"
proof -
  let ?w = "fold (serve pf cfg rewrite) earlier (g, m)"
  have "memory_inv m" using assms(1) by (simp add: memory_inv_def)
  with serve_all_other [of "(g, m)" earlier pf cfg rewrite] assms(2) have "memory_inv (snd ?w)" by simp
  with serve_all_other [of ?w others pf cfg rewrite] assms(2-4) show ?thesis by simp
qed

definition demo_session :: "string \<Rightarrow> string \<Rightarrow> session" where
  "demo_session user synthetic =
     \<lparr>gs_token_hash = user, gs_user = user, gs_username = [], gs_synthetic_user = synthetic, gs_client = [],
      gs_device = [], gs_device_id = [], gs_version = [], gs_remote_ip = [], gs_created = 0, gs_expires = 0,
      gs_revoked = None\<rparr>"

theorem users_isolated_witness:
  "find_playback_state ''u'' ''i'' (snd (fold (serve (\<lambda>_. None) demo_policy Some)
      [WriteState (demo_session ''u'' ''x'') ''POST'' ''/Users/x/FavoriteItems/i'' [] None 5 5 None,
       WriteState (demo_session ''v'' ''y'') ''DELETE'' ''/Users/y/FavoriteItems/i'' [] None 6 6 None]
      (new_tracker, new_memory_store))) =
   find_playback_state ''u'' ''i'' (snd (fold (serve (\<lambda>_. None) demo_policy Some)
      [WriteState (demo_session ''u'' ''x'') ''POST'' ''/Users/x/FavoriteItems/i'' [] None 5 5 None]
      (new_tracker, new_memory_store)))"
  using users_isolated [of new_memory_store
      "[WriteState (demo_session ''u'' ''x'') ''POST'' ''/Users/x/FavoriteItems/i'' [] None 5 5 None]"
      "[WriteState (demo_session ''v'' ''y'') ''DELETE'' ''/Users/y/FavoriteItems/i'' [] None 6 6 None]"
      "''u''" "''i''" "\<lambda>_. None" demo_policy Some new_tracker]
  by (simp add: new_memory_store_def plain_id_def demo_session_def)


text \<open>What an accepted write does to the state, by the path and the method.\<close>

lemma action_names:
  "equal_fold act ''HideFromResume'' \<Longrightarrow> \<not> equal_fold act ''Rating'' \<and> \<not> equal_fold act ''UserData''"
  "equal_fold act ''FavoriteItems'' \<Longrightarrow> \<not> equal_fold act ''PlayedItems''"
proof -
  have names: "to_lower ''HideFromResume'' = ''hidefromresume''" "to_lower ''Rating'' = ''rating''"
    "to_lower ''UserData'' = ''userdata''" "to_lower ''FavoriteItems'' = ''favoriteitems''"
    "to_lower ''PlayedItems'' = ''playeditems''" by code_simp+
  show "equal_fold act ''HideFromResume'' \<Longrightarrow> \<not> equal_fold act ''Rating'' \<and> \<not> equal_fold act ''UserData''"
    "equal_fold act ''FavoriteItems'' \<Longrightarrow> \<not> equal_fold act ''PlayedItems''"
    by (simp_all add: equal_fold_def names)
qed

definition acts_as :: "string \<Rightarrow> string \<Rightarrow> string list \<Rightarrow> query_values \<Rightarrow> (playback_state \<Rightarrow> playback_state) \<Rightarrow> bool" where
  "acts_as method kind rest q upd \<longleftrightarrow>
     (\<forall>s. ps_gateway_user (upd s) = ps_gateway_user s \<and> ps_item (upd s) = ps_item s) \<and>
     (rest = [] \<and> equal_fold kind ''PlayedItems'' \<longrightarrow>
        (\<forall>s. ps_played (upd s) = (method = ''POST'') \<and> ps_position (upd s) = 0)) \<and>
     (rest = [] \<and> equal_fold kind ''FavoriteItems'' \<longrightarrow> (\<forall>s. ps_favorite (upd s) = (method = ''POST''))) \<and>
     (\<forall>act. rest = [act] \<and> equal_fold act ''HideFromResume'' \<longrightarrow> (\<forall>s. Some (ps_hide (upd s)) = request_hide q))"

lemma personal_write_acts:
  assumes "path_parts rel = a # user # kind # item # rest"
    and h: "handle_personal_state_write ops pf sess method rel q body now seen answer st = (StatusJSON code dto, st')"
  shows "user = gs_synthetic_user sess \<and>
    (\<exists>upd. acts_as method kind rest q upd \<and>
       write_state ops sess now seen answer item upd st = (StatusJSON code dto, st'))"
proof -
  note key = mark_played_key apply_body_key
  have user: "equal_fold a ''Users''" "user = gs_synthetic_user sess"
    using assms by (auto simp: handle_personal_state_write_def Let_def split: if_splits)
  consider (none) "rest = []" | (one) act where "rest = [act]" | (more) b c cs where "rest = b # c # cs"
    by (metis neq_Nil_conv)
  then show ?thesis
  proof cases
    case none
    have go: "acts_as method kind rest q upd"
      if "\<And>s. ps_gateway_user (upd s) = ps_gateway_user s \<and> ps_item (upd s) = ps_item s"
        "equal_fold kind ''PlayedItems'' \<longrightarrow> (\<forall>s. ps_played (upd s) = (method = ''POST'') \<and> ps_position (upd s) = 0)"
        "equal_fold kind ''FavoriteItems'' \<longrightarrow> (\<forall>s. ps_favorite (upd s) = (method = ''POST''))" for upd
      using that none by (simp add: acts_as_def)
    show ?thesis
    proof (cases "equal_fold kind ''PlayedItems''")
      case True
      then have "\<not> equal_fold kind ''FavoriteItems''" using action_names(2) by blast
      with True have "acts_as method kind rest q (mark_played (method = ''POST'') now)"
        by (intro go) (simp_all add: key, simp add: mark_played_def)
      with True h assms(1) user none show ?thesis
        by (auto simp: handle_personal_state_write_def Let_def split: if_splits)
    next
      case False
      then have "acts_as method kind rest q (\<lambda>s. s\<lparr>ps_favorite := (method = ''POST'')\<rparr>)"
        by (intro go) simp_all
      with False h assms(1) user none show ?thesis
        by (auto simp: handle_personal_state_write_def Let_def split: if_splits)
    qed
  next
    case (one act)
    have ex: "\<exists>upd. acts_as meth kind [act] q upd \<and> write_state ops sess now seen answer item upd st = res"
      if "write_state ops sess now seen answer item upd st = res"
        "\<And>s. ps_gateway_user (upd s) = ps_gateway_user s \<and> ps_item (upd s) = ps_item s"
        "equal_fold act ''HideFromResume'' \<Longrightarrow> \<forall>s. Some (ps_hide (upd s)) = request_hide q" for upd meth res
      using that by (auto simp: acts_as_def)
    from h assms(1) user one show ?thesis
      by (auto simp: handle_personal_state_write_def Let_def key dest: action_names
          intro: ex split: if_splits option.splits)
  next
    case more
    with h assms(1) user show ?thesis by (simp add: handle_personal_state_write_def Let_def)
  qed
qed

text \<open>
  C27: an accepted personal write is read back: the state found afterwards under the session's
  user and the item of the path is the one the answer describes, stamped with the time of the
  write, and it says what was asked: played or not (with the position reset), favorite or not,
  hidden or not. Nobody but the user named in the path is answered so.
\<close>

theorem personal_write_read_back:
  assumes "memory_inv m" and "plain_id (gs_user sess)" and "now \<noteq> 0"
    and "path_parts rel = a # user # kind # item # rest"
    and "handle_personal_state_write memory_ops pf sess method rel q body now seen answer m = (StatusJSON code dto, m')"
  shows "\<exists>s. find_playback_state (gs_user sess) item m' = Inr s \<and> code = 200 \<and> dto = JObject (user_data_dto s) \<and>
    ps_updated s = now \<and> user = gs_synthetic_user sess \<and>
    (rest = [] \<and> equal_fold kind ''PlayedItems'' \<longrightarrow> ps_played s = (method = ''POST'') \<and> ps_position s = 0) \<and>
    (rest = [] \<and> equal_fold kind ''FavoriteItems'' \<longrightarrow> ps_favorite s = (method = ''POST'')) \<and>
    (\<forall>act. rest = [act] \<and> equal_fold act ''HideFromResume'' \<longrightarrow> Some (ps_hide s) = request_hide q)"
proof -
  from personal_write_acts [OF assms(4,5)] obtain upd where user: "user = gs_synthetic_user sess"
    and acts: "acts_as method kind rest q upd"
    and w: "write_state memory_ops sess now seen answer item upd m = (StatusJSON code dto, m')" by blast
  from memory.write_state_read_back [OF assms(1,2) _ w assms(3)] acts obtain old where
    r: "po_find memory_ops (gs_user sess) item m' = Inr (Some ((enrich_metadata answer seen (upd old))\<lparr>ps_updated := now\<rparr>))"
      "dto = JObject (user_data_dto ((enrich_metadata answer seen (upd old))\<lparr>ps_updated := now\<rparr>))" "code = 200"
    by (auto simp: acts_as_def)
  have "find_playback_state (gs_user sess) item m' = Inr ((enrich_metadata answer seen (upd old))\<lparr>ps_updated := now\<rparr>)"
    using r(1) by (auto simp: memory_ops_def find_playback_state_def split: option.splits)
  with r(2,3) acts user show ?thesis by (simp add: acts_as_def)
qed

theorem personal_write_read_back_witness:
  "\<exists>m' s. find_playback_state ''u'' ''i'' m' = Inr s \<and> ps_favorite s"
proof -
  let ?s = "demo_session ''u'' ''x''"
  let ?h = "handle_personal_state_write memory_ops (\<lambda>_. None) ?s ''POST'' ''/Users/x/FavoriteItems/i'' [] None 5 5 None
    new_memory_store"
  have parts: "path_parts ''/Users/x/FavoriteItems/i'' = [''Users'', ''x'', ''FavoriteItems'', ''i'']" by code_simp
  have names: "equal_fold ''Users'' ''Users''" "equal_fold ''FavoriteItems'' ''FavoriteItems''"
    "\<not> equal_fold ''FavoriteItems'' ''PlayedItems''" by code_simp+
  have "\<exists>dto m'. ?h = (StatusJSON 200 dto, m')"
    using parts names by (simp add: handle_personal_state_write_def write_state_def state_for_item_def
        demo_session_def memory_ops_def find_playback_state_def new_memory_store_def Let_def)
  then obtain dto m' where h: "?h = (StatusJSON 200 dto, m')" by blast
  from personal_write_read_back [OF _ _ _ parts h] names show ?thesis
    by (auto simp: memory_inv_def new_memory_store_def plain_id_def demo_session_def)
qed





text \<open>
  what is learned about items never costs a user anything: whatever the upstream answers to
  the requests for resume and next-up items, every user's position, play state, count, favorite,
  rating and visibility stay, of every item; only what is known about the item may change.
\<close>

theorem resolving_keeps_user_data:
  assumes "memory_inv m" and "plain_id (gs_user sess)" and "plain_id u" and "find_playback_state u i m = Inr old"
    and "m' = snd (write_resume_items memory_ops sess user_matches q rewrite now backend m) \<or>
      m' = snd (write_next_up_items memory_ops sess q rewrite now backend page m)"
  shows "\<exists>new. find_playback_state u i m' = Inr new \<and> user_part new = user_part old"
proof -
  have find: "po_find memory_ops u i st = Inr (Some s) \<longleftrightarrow> find_playback_state u i st = Inr s" for st s
    by (cases "find_playback_state u i st") (simp_all add: memory_ops_def)
  have "memory.spares (gs_user sess) m (snd (write_next_up_items memory_ops sess q rewrite now backend page m))"
    using memory.next_up_keeps [OF assms(2,1)] by simp
  moreover have "memory.spares (gs_user sess) m
      (snd (write_resume_items memory_ops sess user_matches q rewrite now backend m))"
  proof (cases user_matches)
    case True
    let ?ids = "playback_state_ids (stable_sort (\<lambda>a b. state_recency a > state_recency b)
      (list_playback_states (gs_user sess) (no_filter\<lparr>fl_resumable := Some True, fl_orphaned := True\<rparr>) m))"
    have "snd (write_resume_items memory_ops sess user_matches q rewrite now backend m) =
        snd (resolve_items_by_id memory_ops sess q rewrite now backend ?ids m)"
      using True by (simp add: write_resume_items_def memory_ops_def Let_def split: sum.split prod.split)
    with memory.resolve_items_keeps [OF assms(2,1), of q rewrite now backend ?ids] show ?thesis by simp
  qed (simp add: write_resume_items_def memory.keeps_refl)
  ultimately have "memory.spares (gs_user sess) m m'" using assms(5) by auto
  with assms(3,4) find show ?thesis unfolding memory.spares_def by metis
qed

theorem resolving_keeps_user_data_witness:
  "\<exists>new. find_playback_state ''u'' ''i''
      (snd (write_resume_items memory_ops (demo_session ''u'' ''x'') True [] Some 9
        (\<lambda>_. Some (JObject [(''Items'', JArray [])])) (save_playback_state 5 demo_state new_memory_store))) = Inr new \<and>
     user_part new = user_part (demo_state\<lparr>ps_updated := 5\<rparr>)"
proof -
  let ?m = "save_playback_state 5 demo_state new_memory_store"
  have "memory_inv ?m"
    by (simp add: memory_inv_def new_memory_store_def save_playback_state_def plain_id_def demo_state_def fresh_state_def)
  moreover have "find_playback_state ''u'' ''i'' ?m = Inr (demo_state\<lparr>ps_updated := 5\<rparr>)"
    by (simp add: memory_simps new_memory_store_def demo_state_def fresh_state_def or_now_def)
  ultimately show ?thesis
    by (intro resolving_keeps_user_data disjI1 refl) (simp_all add: demo_session_def plain_id_def)
qed


section \<open>The upstream's authentication\<close>

lemma cas_accepted:
  assumes "cas_upstream_auth ctx u m = (None, m')"
  obtains s where "map_of (ms_sources m) (au_source u) = Some s" "us_id s = au_source u" "us_key s = ''default''"
    "us_generation s = au_expected u" "validate_auth_update u = None"
    "m' = m\<lparr>ms_sources := AList.update (au_source u)
       (s\<lparr>us_generation := au_generation u, us_identity := (us_identity s)\<lparr>ci_device_id := au_device u\<rparr>,
          us_user_id := au_user u, us_token := au_token u,
          us_token_updated := Some (au_at u), us_last_login := Some (au_at u),
          us_last_login_error := []\<rparr>) (ms_sources m)\<rparr>"
  using assms by (auto simp: cas_upstream_auth_def split: if_splits option.splits)

text \<open>An accepted update of a complete topology leaves a complete one.\<close>

lemma cas_keeps_runtime:
  assumes cas: "cas_upstream_auth ctx u m = (None, m')"
    and load: "load_default_upstream_runtime (False, False) m = Inr r"
  shows "\<exists>r'. load_default_upstream_runtime (False, False) m' = Inr r' \<and> ur_endpoints r' = ur_endpoints r \<and>
    us_id (ur_source r') = us_id (ur_source r) \<and>
    (us_generation (ur_source r'), us_token (ur_source r'), us_user_id (ur_source r'),
       ci_device_id (us_identity (ur_source r'))) = (au_generation u, au_token u, au_user u, au_device u)"
proof -
  from cas_accepted [OF cas] obtain s where s: "map_of (ms_sources m) (au_source u) = Some s"
    "us_id s = au_source u" and valid: "validate_auth_update u = None"
    and m': "m' = m\<lparr>ms_sources := AList.update (au_source u)
       (s\<lparr>us_generation := au_generation u, us_identity := (us_identity s)\<lparr>ci_device_id := au_device u\<rparr>,
          us_user_id := au_user u, us_token := au_token u,
          us_token_updated := Some (au_at u), us_last_login := Some (au_at u),
          us_last_login_error := []\<rparr>) (ms_sources m)\<rparr>" by blast
  from load obtain k s0 where one: "ms_sources m = [(k, s0)]"
    by (auto simp: load_default_upstream_runtime_def load_runtime_def split: list.splits if_splits)
  with s have "k = au_source u" "s0 = s" by (auto split: if_splits)
  define s' where "s' = s\<lparr>us_generation := au_generation u, us_identity := (us_identity s)\<lparr>ci_device_id := au_device u\<rparr>,
    us_user_id := au_user u, us_token := au_token u, us_token_updated := Some (au_at u),
    us_last_login := Some (au_at u), us_last_login_error := []\<rparr>"
  have sources: "ms_sources m = [(us_id s, s)]" "ms_sources m' = [(us_id s, s')]" "ms_endpoints m' = ms_endpoints m"
    using one \<open>k = au_source u\<close> \<open>s0 = s\<close> s(2) m' by (simp_all add: s'_def)
  have id: "us_id s' = us_id s" by (simp add: s'_def)
  have run: "ur_source r = s" "ur_endpoints r = map snd (ms_endpoints m)" "validate_runtime r = None"
    "\<not> list_ex (\<lambda>(k, e). k \<noteq> ep_id e \<or> validate_endpoint (us_id s) e \<noteq> None) (ms_endpoints m)"
    "validate_endpoints (us_id s) (map snd (ms_endpoints m)) = None"
    using load sources(1)
    by (auto simp: load_default_upstream_runtime_def load_runtime_def Let_def split: if_splits option.splits)
  have auth: "validate_persisted_auth s' = None"
    using valid by (auto simp: validate_persisted_auth_def validate_auth_update_def s'_def time_unset_def split: if_splits)
  have device: "trim_space (au_device u) \<noteq> []"
    using valid by (auto simp: validate_auth_update_def valid_device_id_def is_trimmed_def split: if_splits)
  have valid': "validate_runtime \<lparr>ur_source = s', ur_endpoints = map snd (ms_endpoints m)\<rparr> = None"
    using run(3) auth device run(1,2) by (auto simp: validate_runtime_def Let_def s'_def split: if_splits)
  have "load_default_upstream_runtime (False, False) m' =
      Inr \<lparr>ur_source = s', ur_endpoints = map snd (ms_endpoints m)\<rparr>"
    using run(4,5) valid' id sources
    by (simp add: load_default_upstream_runtime_def load_runtime_def Let_def)
  with run(1,2) id show ?thesis by (simp add: s'_def)
qed

text \<open>
  C29: updates of the upstream's authentication are a compare and swap on its generation: of two
  updates that expect the same generation at most one is accepted, the other is an error and
  changes nothing; and an accepted update leaves a complete topology complete, with all of token,
  user, device and generation of that update and the same endpoints.
\<close>

theorem auth_update_single_winner:
  assumes "cas_upstream_auth c1 u1 m = (None, m1)" and "load_default_upstream_runtime (False, False) m = Inr r"
    and "au_source u2 = au_source u1" and "au_expected u2 = au_expected u1"
  shows "fst (cas_upstream_auth c2 u2 m1) \<noteq> None \<and> snd (cas_upstream_auth c2 u2 m1) = m1 \<and>
    (\<exists>r'. load_default_upstream_runtime (False, False) m1 = Inr r' \<and> ur_endpoints r' = ur_endpoints r \<and>
       us_id (ur_source r') = us_id (ur_source r) \<and>
       (us_generation (ur_source r'), us_token (ur_source r'), us_user_id (ur_source r'),
          ci_device_id (us_identity (ur_source r'))) = (au_generation u1, au_token u1, au_user u1, au_device u1))"
proof -
  have lost: "fst (cas_upstream_auth c2 u2 m1) \<noteq> None"
  proof
    assume "fst (cas_upstream_auth c2 u2 m1) = None"
    then obtain m2 where "cas_upstream_auth c2 u2 m1 = (None, m2)" by (metis prod.collapse)
    from cas_accepted [OF this] obtain s2 where "map_of (ms_sources m1) (au_source u2) = Some s2"
      "us_generation s2 = au_expected u2" by blast
    moreover have "validate_auth_update u1 = None \<and>
        (\<exists>s1. map_of (ms_sources m1) (au_source u1) = Some s1 \<and> us_generation s1 = au_generation u1)"
      by (rule cas_accepted [OF assms(1)]) (simp add: update_conv')
    ultimately show False using assms(3,4) by (auto simp: validate_auth_update_def split: if_splits)
  qed
  moreover have "snd (cas_upstream_auth c2 u2 m1) = m1"
    using lost by (auto simp: cas_upstream_auth_def split: option.split)
  ultimately show ?thesis using cas_keeps_runtime [OF assms(1,2)] by blast
qed

definition demo_source :: upstream_source where
  "demo_source =
     \<lparr>us_id = ''s'', us_key = ''default'', us_server_id = ''srv'', us_server_name = [], us_server_version = [],
      us_version_checked = None, us_username = ''me'', us_password = ''pw'', us_user_id = [], us_token = [],
      us_generation = [], us_token_updated = None, us_last_login = None, us_last_login_error = [],
      us_identity = \<lparr>ci_user_agent = ''a'', ci_client = ''c'', ci_device = ''d'', ci_device_id = ''i'', ci_version = ''1''\<rparr>\<rparr>"

definition demo_endpoint :: endpoint where
  "demo_endpoint =
     \<lparr>ep_id = ''e'', ep_source = ''s'', ep_key = ''main'', ep_base_url = ''http://h'',
      ep_parsed = Some \<lparr>pu_scheme = ''http'', pu_host = ''h'', pu_has_user = False, pu_force_query = False,
        pu_raw_query = [], pu_fragment = []\<rparr>,
      ep_enabled = True, ep_default = True, ep_websocket = False, ep_websocket_probed = None,
      ep_websocket_error = []\<rparr>"

definition demo_update :: "string \<Rightarrow> auth_update" where
  "demo_update gen =
     \<lparr>au_source = ''s'', au_expected = [], au_generation = gen, au_device = ''dev'', au_user = ''bu'',
      au_token = ''tok'', au_at = 5\<rparr>"

definition demo_upstream :: memory_store where
  "demo_upstream = new_memory_store\<lparr>ms_sources := [(''s'', demo_source)], ms_endpoints := [(''e'', demo_endpoint)]\<rparr>"

theorem auth_update_single_winner_witness:
  "\<exists>m1. cas_upstream_auth (False, False) (demo_update ''g1'') demo_upstream = (None, m1) \<and>
     fst (cas_upstream_auth (False, False) (demo_update ''g2'') m1) \<noteq> None \<and>
     snd (cas_upstream_auth (False, False) (demo_update ''g2'') m1) = m1"
proof -
  have trims: "trim_space ''s'' = ''s''" "trim_space ''srv'' = ''srv''" "trim_space ''me'' = ''me''"
    "trim_space ''pw'' = ''pw''" "trim_space ''a'' = ''a''" "trim_space ''c'' = ''c''" "trim_space ''d'' = ''d''"
    "trim_space ''i'' = ''i''" "trim_space ''1'' = ''1''" "trim_space ''e'' = ''e''" "trim_space ''main'' = ''main''"
    by code_simp+
  have "validate_auth_update (demo_update ''g1'') = None" by code_simp
  then have "\<exists>m1. cas_upstream_auth (False, False) (demo_update ''g1'') demo_upstream = (None, m1)"
    by (simp add: cas_upstream_auth_def demo_upstream_def new_memory_store_def demo_source_def demo_update_def)
  then obtain m1 where m1: "cas_upstream_auth (False, False) (demo_update ''g1'') demo_upstream = (None, m1)" by blast
  have url: "valid_endpoint_url (ep_parsed demo_endpoint)" by code_simp
  have eps: "validate_endpoints ''s'' [demo_endpoint] = None" "validate_endpoint ''s'' demo_endpoint = None"
    using trims url by (simp_all add: validate_endpoints_def validate_endpoint_def demo_endpoint_def default_of_def)
  have "\<exists>r. load_default_upstream_runtime (False, False) demo_upstream = Inr r"
    using trims eps
    by (simp add: load_default_upstream_runtime_def load_runtime_def demo_upstream_def new_memory_store_def
        validate_runtime_def demo_source_def Let_def) (simp add: demo_endpoint_def)
  then obtain r where r: "load_default_upstream_runtime (False, False) demo_upstream = Inr r" by blast
  from auth_update_single_winner [OF m1 r, of "demo_update ''g2''" "(False, False)"] m1 show ?thesis
    by (auto simp: demo_update_def)
qed

end
