(* ===== verification/Upstream_Auth_Theorems.thy ===== *)
theory Upstream_Auth_Theorems
  imports Upstream_Auth Store_Theorems
begin

text \<open>
  Properties of the gateway's login at the upstream: a refresh never hands out the token that failed
  and needs at most two flights, tokens in use are never logged out, an undisturbed refresh installs
  the new token, and the choice of an endpoint never fails because of a stale rule.
\<close>

section \<open>Callers\<close>

lemma auth_run_satisfied:
  "auth_run ops ctx failed_token refresh retried flights st = (Some (Inr r), st') \<Longrightarrow>
     auth_satisfied (Some r) failed_token refresh"
proof (induction flights arbitrary: retried st)
  case Nil
  then show ?case by (auto simp: auth_run.simps [of _ _ _ _ _ "[]"] split: prod.splits sum.splits if_splits)
next
  case (Cons f flights)
  from Cons.prems show ?case
    by (subst (asm) auth_run.simps)
       (auto split: prod.splits sum.splits if_splits flight_answer.splits dest: Cons.IH)
qed

lemma auth_run_retried:
  "flights \<noteq> [] \<Longrightarrow> fst (auth_run ops ctx failed_token refresh True flights st) \<noteq> None"
  by (subst auth_run.simps)
     (auto split: prod.split sum.split list.split flight_answer.split)

lemma auth_run_returns:
  assumes "length flights \<ge> 2"
  shows "fst (auth_run ops ctx failed_token refresh False flights st) \<noteq> None"
proof -
  obtain f g gs where "flights = f # g # gs"
    using assms by (metis One_nat_def Suc_1 Suc_le_length_iff)
  moreover have "fst (auth_run ops ctx failed_token refresh True (g # gs) st1) \<noteq> None" for st1
    by (rule auth_run_retried) simp
  ultimately show ?thesis
    by (subst auth_run.simps) (auto split: prod.split sum.split flight_answer.split)
qed

text \<open>
  a refresh never returns an upstream that still carries the token that failed, or one without
  a login, whatever flights of other callers it shared and whatever those wanted.
\<close>

theorem refresh_never_returns_failed_token:
  assumes "auth_refresh ops ctx failed_token flights st = (Some (Inr r), st')"
  shows "us_token (ur_source r) \<noteq> failed_token \<and> us_generation (ur_source r) \<noteq> []"
  using assms auth_run_satisfied [of ops ctx failed_token True False flights st r st']
  by (auto simp: auth_refresh_def auth_satisfied_def split: if_splits)

text \<open>
  C32: a caller waits for at most two flights: with two at hand, both entries return a result.
\<close>

theorem two_flights_suffice:
  assumes "length flights \<ge> 2"
  shows "fst (auth_ensure ops ctx flights st) \<noteq> None \<and> fst (auth_refresh ops ctx failed_token flights st) \<noteq> None"
  using auth_run_returns [OF assms] by (simp add: auth_ensure_def auth_refresh_def)

section \<open>Leaders\<close>

lemma cleanup_with_current_safe:
  "l \<in> set (cleanup_with_current url_ok result runtime device current) \<Longrightarrow>
     lo_token l = lg_token result \<and> lo_token l \<noteq> us_token (ur_source current) \<and>
     lo_token l \<noteq> us_token (ur_source runtime)"
  by (auto simp: cleanup_with_current_def auth_logout_def split: if_splits sum.splits)

lemma cleanup_invocation_safe:
  "l \<in> set (cleanup_invocation url_ok result runtime device loaded) \<Longrightarrow>
     lo_token l = lg_token result \<and> (\<exists>current. loaded = Inr current \<and> lo_token l \<noteq> us_token (ur_source current)) \<and>
     lo_token l \<noteq> us_token (ur_source runtime)"
  by (auto simp: cleanup_invocation_def dest: cleanup_with_current_safe split: if_splits sum.splits)

lemma retire_old_safe:
  "l \<in> set (retire_old url_ok runtime loaded) \<Longrightarrow>
     lo_token l = us_token (ur_source runtime) \<and> (\<exists>current. loaded = Inr current \<and> lo_token l \<noteq> us_token (ur_source current))"
  by (auto simp: retire_old_def Let_def auth_logout_def split: if_splits sum.splits)

lemma logout_lengths:
  "length (cleanup_with_current url_ok result runtime device current) \<le> 1"
  "length (cleanup_invocation url_ok result runtime device loaded) \<le> 1"
  "length (retire_old url_ok runtime loaded) \<le> 1"
  by (auto simp: cleanup_with_current_def cleanup_invocation_def retire_old_def Let_def auth_logout_def
      split: sum.split)

definition not_held :: "'s auth_ops \<Rightarrow> 's \<Rightarrow> string \<Rightarrow> bool" where
  "not_held ops st token \<longleftrightarrow>
     (\<exists>c current. ao_load ops c st = Inr current \<and> token \<noteq> us_token (ur_source current))"

lemma not_heldI: "ao_load ops c st = Inr current \<Longrightarrow> token \<noteq> us_token (ur_source current) \<Longrightarrow> not_held ops st token"
  unfolding not_held_def by blast

definition logouts_safe ::
  "'s auth_ops \<Rightarrow> (auth_error + upstream_runtime) \<times> logout_request list \<times> 's \<Rightarrow> bool" where
  "logouts_safe ops out \<longleftrightarrow>
     (case out of (res, logouts, st) \<Rightarrow>
        length logouts \<le> 1 \<and>
        (\<forall>l \<in> set logouts.
           (case res of Inr r \<Rightarrow> lo_token l \<noteq> us_token (ur_source r) | Inl _ \<Rightarrow> True) \<and>
           not_held ops st (lo_token l)))"

lemma lead_persist_safe:
  assumes "lg_token result \<noteq> us_token (ur_source runtime)"
  shows "logouts_safe ops (lead_persist ops env runtime result device generation st)"
proof -
  define u where "u = \<lparr>au_source = us_id (ur_source runtime), au_expected = us_generation (ur_source runtime),
    au_generation = generation, au_device = device, au_user = lg_user result,
    au_token = lg_token result, au_at = le_now env\<rparr>"
  obtain failed st1 where cas: "ao_cas ops (le_ctx_cas env) u (le_before_cas env st) = (failed, st1)" by fastforce
  define st2 where "st2 = le_before_reload env st1"
  show ?thesis
  proof (cases "ao_load ops (le_ctx_reload env) st2")
    case (Inl err)
    with cas u_def st2_def show ?thesis
      by (cases failed) (simp_all add: lead_persist_def Let_def logouts_safe_def)
  next
    case (Inr current)
    show ?thesis
    proof (cases failed)
      case (Some err)
      have "lead_persist ops env runtime result device generation st =
        (if ownership_matches current u then (Inr current, [], st2)
         else if err = ErrUpstreamAuthConflict
         then (Inr current, cleanup_with_current (le_url_ok env) result runtime device current, st2)
         else (Inl (leader_error env (AuthStore err)), cleanup_with_current (le_url_ok env) result runtime device current, st2))"
        using cas Some Inr unfolding lead_persist_def u_def [symmetric] by (simp add: st2_def Let_def)
      with Inr logout_lengths(1) show ?thesis
        by (auto simp: logouts_safe_def dest!: cleanup_with_current_safe intro: not_heldI)
    next
      case None
      define st3 where "st3 = le_before_cleanup env st2"
      have out: "lead_persist ops env runtime result device generation st =
        (if ownership_matches current u
         then (Inr current, retire_old (le_url_ok env) runtime (ao_load ops (le_ctx_cleanup env) st3), st3)
         else if us_generation (ur_source current) \<noteq> au_expected u \<and> us_generation (ur_source current) \<noteq> au_generation u
         then (Inr current, [], st2) else (Inl AuthPersistenceMismatch, [], st2))"
        using cas None Inr unfolding lead_persist_def u_def [symmetric] by (simp add: st2_def st3_def Let_def)
      have "us_token (ur_source current) \<noteq> us_token (ur_source runtime)" if "ownership_matches current u"
        using that assms by (simp add: ownership_matches_def u_def)
      with out logout_lengths(3) show ?thesis
        by (auto simp: logouts_safe_def dest!: retire_old_safe intro: not_heldI)
    qed
  qed
qed

lemma none: "logouts_safe ops (res, [], st)"
  by (simp add: logouts_safe_def)

text \<open>
  a leader logs out at most one token, never one that is in use: not the token of the upstream
  it returns, and not the one the store holds when it logs out. This holds whatever others do to
  the store meanwhile, and whether the login, the update or its confirmation failed.
\<close>

theorem logouts_spare_tokens_in_use:
  "logouts_safe ops (lead ops env failed_token refresh st)"
proof (cases "ao_load ops (le_ctx_load env) st")
  case (Inl e)
  then show ?thesis by (simp add: lead_def logouts_safe_def)
next
  case (Inr runtime)
  show ?thesis
  proof (cases "auth_satisfied (Some runtime) failed_token refresh")
    case True
    with Inr show ?thesis by (simp add: lead_def logouts_safe_def)
  next
    case unsat: False
    show ?thesis
    proof (cases "fresh_identifiers (ur_source runtime) (take generator_attempts (le_ids env))")
      case (Inl e)
      with Inr unsat show ?thesis by (simp add: lead_def logouts_safe_def)
    next
      case ids: (Inr dg)
      obtain device generation where dg: "dg = (device, generation)" by fastforce
      obtain result accepted where login: "auth_login runtime (le_answer env runtime device) = (result, accepted)" by fastforce
      define st' where "st' = le_before_cleanup env st"
      define logouts where "logouts = cleanup_invocation (le_url_ok env) result runtime device
        (ao_load ops (le_ctx_cleanup env) st')"
      have out: "lead ops env failed_token refresh st =
        (if \<not> accepted then (Inl (leader_error env AuthLogin), logouts, st')
         else if lg_token result = us_token (ur_source runtime) then (Inl AuthTokenCollision, [], st)
         else if le_ctx_login env then (Inl AuthLeaderCanceled, logouts, st')
         else lead_persist ops env runtime result device generation st)"
        using Inr unsat ids dg login by (simp add: lead_def st'_def logouts_def Let_def)
      have failed: "logouts_safe ops (Inl e, logouts, st')" for e
        using logout_lengths(2) by (auto simp: logouts_safe_def logouts_def dest!: cleanup_invocation_safe intro: not_heldI)
      show ?thesis
        unfolding out by (auto simp: none failed lead_persist_safe)
    qed
  qed
qed


section \<open>A store of logins\<close>

text \<open>A leader nobody interferes with.\<close>

definition quiet :: "'s lead_env \<Rightarrow> bool" where
  "quiet env \<longleftrightarrow>
     le_ctx_load env = (False, False) \<and> \<not> le_ctx_login env \<and> le_ctx_cas env = (False, False) \<and>
     le_ctx_reload env = (False, False) \<and> le_ctx_cleanup env = (False, False) \<and> \<not> le_ctx_error env \<and>
     le_before_cas env = id \<and> le_before_reload env = id \<and> le_before_cleanup env = id"

text \<open>What the login relies on of the store, when nobody interferes.\<close>

locale auth_store =
  fixes ops :: "'s auth_ops"
  assumes load_done: "ao_load ops c st = Inr r \<Longrightarrow> ao_load ops (False, False) st = Inr r"
    and cas_accepts: "ao_load ops (False, False) st = Inr r \<Longrightarrow> us_id (ur_source r) = au_source u \<Longrightarrow>
      us_generation (ur_source r) = au_expected u \<Longrightarrow> validate_auth_update u = None \<Longrightarrow>
      \<exists>st' r'. ao_cas ops (False, False) u st = (None, st') \<and> ao_load ops (False, False) st' = Inr r' \<and>
        ownership_matches r' u \<and> ur_endpoints r' = ur_endpoints r"
begin

lemma lead_installs:
  assumes q: "quiet env" and load: "ao_load ops (False, False) st = Inr runtime"
    and unsat: "\<not> auth_satisfied (Some runtime) failed_token refresh"
    and ids: "fresh_identifiers (ur_source runtime) (take generator_attempts (le_ids env)) = Inr (device, generation)"
    and login: "auth_login runtime (le_answer env runtime device) = (result, True)"
    and new: "lg_token result \<noteq> us_token (ur_source runtime)"
    and valid: "validate_auth_update \<lparr>au_source = us_id (ur_source runtime),
      au_expected = us_generation (ur_source runtime), au_generation = generation, au_device = device,
      au_user = lg_user result, au_token = lg_token result, au_at = le_now env\<rparr> = None"
  shows "\<exists>r st'. lead ops env failed_token refresh st = (Inr r, retire_old (le_url_ok env) runtime (Inr r), st') \<and>
    ao_load ops (False, False) st' = Inr r \<and> us_token (ur_source r) = lg_token result \<and>
    us_generation (ur_source r) = generation \<and> ur_endpoints r = ur_endpoints runtime"
proof -
  define u where "u = \<lparr>au_source = us_id (ur_source runtime), au_expected = us_generation (ur_source runtime),
    au_generation = generation, au_device = device, au_user = lg_user result,
    au_token = lg_token result, au_at = le_now env\<rparr>"
  have "\<exists>st' r. ao_cas ops (False, False) u st = (None, st') \<and> ao_load ops (False, False) st' = Inr r \<and>
      ownership_matches r u \<and> ur_endpoints r = ur_endpoints runtime"
    by (rule cas_accepts [OF load]) (use valid in \<open>simp_all add: u_def\<close>)
  then obtain st' r where
    cas: "ao_cas ops (False, False) u st = (None, st')" and r: "ao_load ops (False, False) st' = Inr r"
    "ownership_matches r u" "ur_endpoints r = ur_endpoints runtime" by blast
  have "lead ops env failed_token refresh st = lead_persist ops env runtime result device generation st"
    using q load unsat ids login new by (simp add: lead_def quiet_def)
  also have "\<dots> = (Inr r, retire_old (le_url_ok env) runtime (Inr r), st')"
    using q cas r unfolding lead_persist_def u_def [symmetric] by (simp add: quiet_def)
  finally show ?thesis using r by (auto simp: ownership_matches_def u_def)
qed

end

lemma cas_memory_accepts:
  assumes "load_default_upstream_runtime (False, False) m = Inr r" and "us_id (ur_source r) = au_source u"
    and "us_generation (ur_source r) = au_expected u" and "validate_auth_update u = None"
  shows "\<exists>m'. cas_upstream_auth (False, False) u m = (None, m')"
proof -
  from assms(1) obtain k where one: "ms_sources m = [(k, ur_source r)]" "k = us_id (ur_source r)"
    "us_key (ur_source r) = ''default''"
    by (auto simp: load_default_upstream_runtime_def load_runtime_def validate_runtime_def Let_def
        split: list.splits if_splits option.splits)
  with assms(2-4) show ?thesis by (simp add: cas_upstream_auth_def)
qed

interpretation memory_auth: auth_store memory_auth_ops
proof
  fix c st r
  show "ao_load memory_auth_ops (False, False) st = Inr r" if "ao_load memory_auth_ops c st = Inr r"
    using that by (auto simp: memory_auth_ops_def load_default_upstream_runtime_def split: if_splits)
next
  fix st r u
  assume load: "ao_load memory_auth_ops (False, False) st = Inr r" and u: "us_id (ur_source r) = au_source u"
    "us_generation (ur_source r) = au_expected u" "validate_auth_update u = None"
  then obtain st' where cas: "cas_upstream_auth (False, False) u st = (None, st')"
    using cas_memory_accepts [of st r u] by (auto simp: memory_auth_ops_def)
  from cas_keeps_runtime [OF cas] load u(1) show "\<exists>st' r'. ao_cas memory_auth_ops (False, False) u st = (None, st') \<and>
      ao_load memory_auth_ops (False, False) st' = Inr r' \<and> ownership_matches r' u \<and> ur_endpoints r' = ur_endpoints r"
    using cas by (auto simp: memory_auth_ops_def ownership_matches_def)
qed



definition demo_login_source :: upstream_source where
  "demo_login_source = demo_source\<lparr>us_generation := ''g1'', us_user_id := ''bu'', us_token := ''tok'',
     us_token_updated := Some 5, us_last_login := Some 5\<rparr>"

definition demo_login_store :: memory_store where
  "demo_login_store = new_memory_store\<lparr>ms_sources := [(''s'', demo_login_source)], ms_endpoints := [(''e'', demo_endpoint)]\<rparr>"

definition demo_runtime :: upstream_runtime where
  "demo_runtime = \<lparr>ur_source = demo_login_source, ur_endpoints = [demo_endpoint]\<rparr>"

definition demo_env :: "memory_store lead_env" where
  "demo_env =
     \<lparr>le_ctx_load = (False, False), le_ctx_login = False, le_ctx_cas = (False, False), le_ctx_reload = (False, False),
      le_ctx_cleanup = (False, False), le_ctx_error = False, le_before_cas = id, le_before_reload = id,
      le_before_cleanup = id, le_ids = [(Some ''i'', Some ''g1''), (Some ''d2'', Some ''g2'')],
      le_answer = (\<lambda>_ _. Answer ''new'' False False 200 (Some (''new'', ''srv'', ''bu''))),
      le_url_ok = (\<lambda>_. True), le_now = 9\<rparr>"

lemma demo_loads: "load_default_upstream_runtime (False, False) demo_login_store = Inr demo_runtime"
  by code_simp

theorem refresh_never_returns_failed_token_witness:
  "\<exists>r m'. auth_refresh memory_auth_ops (\<lambda>_. (False, (False, False), False)) ''old'' [] demo_login_store =
     (Some (Inr r), m') \<and> us_token (ur_source r) \<noteq> ''old''"
proof -
  have "is_trimmed ''old''" by code_simp
  then have r: "auth_refresh memory_auth_ops (\<lambda>_. (False, (False, False), False)) ''old'' [] demo_login_store =
      (Some (Inr demo_runtime), demo_login_store)"
    using demo_loads
    by (simp add: auth_refresh_def auth_run.simps memory_auth_ops_def auth_satisfied_def demo_runtime_def
        demo_login_source_def demo_source_def)
  from refresh_never_returns_failed_token [OF r] r show ?thesis by blast
qed

theorem two_flights_suffice_witness:
  "fst (auth_ensure memory_auth_ops (\<lambda>_. (False, (False, False), False)) [Pair CallerDone, Pair CallerDone] demo_upstream) \<noteq> None"
  by (rule two_flights_suffice [THEN conjunct1]) simp


section \<open>The endpoint of a request\<close>

lemma default_of_valid:
  assumes "validate_endpoints i eps = None"
  shows "\<exists>e. default_of eps = Some e \<and> e \<in> set eps \<and> ep_default e \<and> ep_enabled e"
proof -
  from assms obtain e where e: "default_of eps = Some e" "ep_enabled e"
    by (auto simp: validate_endpoints_def split: if_splits option.splits)
  then show ?thesis by (auto simp: default_of_def find_Some_iff)
qed

lemma enabled_by_key_in:
  "enabled_by_key eps key = Some e \<Longrightarrow> e \<in> set eps \<and> ep_enabled e \<and> ep_key e = key"
  by (auto simp: enabled_by_key_def find_Some_iff)

lemma enabled_by_key_none:
  "enabled_by_key eps key = None \<longleftrightarrow> (\<forall>e \<in> set eps. \<not> (ep_enabled e \<and> ep_key e = key))"
  by (auto simp: enabled_by_key_def find_None_iff)

text \<open>
  a stale rule can never break proxying: with a complete upstream that has a login, every
  request is given an enabled endpoint and the upstream's token. It is the endpoint the winning
  rule names when that one is enabled, and the default endpoint otherwise.
\<close>

theorem stale_rules_fall_back:
  assumes "load_default_upstream_runtime c m = Inr r" and "validate_persisted_auth (ur_source r) = None"
    and "rules = filter rr_enabled (ms_rules m)"
    and "key = (if rules = [] then []
      else select rules \<lparr>rq_method = method, rq_path = rel,
        rq_transport = (if is_upgrade then transport_websocket else transport_http)\<rparr>)"
  shows "\<exists>s e. select_upstream_snapshot (list_route_rules False m) r is_upgrade method rel = Inr s \<and>
    e \<in> set (ur_endpoints r) \<and> ep_enabled e \<and> rs_endpoint_key s = ep_key e \<and> rs_base_url s = ep_base_url e \<and>
    rs_token s = us_token (ur_source r) \<and>
    (if key \<noteq> [] \<and> (\<exists>e' \<in> set (ur_endpoints r). ep_enabled e' \<and> ep_key e' = key) then ep_key e = key else ep_default e)"
proof -
  have valid: "validate_runtime r = None" "validate_endpoints (us_id (ur_source r)) (ur_endpoints r) = None"
    using assms(1)
    by (auto simp: load_default_upstream_runtime_def load_runtime_def Let_def
        split: list.splits if_splits option.splits)
  from default_of_valid [OF valid(2)] obtain d where d: "default_of (ur_endpoints r) = Some d"
    "d \<in> set (ur_endpoints r)" "ep_default d" "ep_enabled d" by blast
  define used where "used = (if key \<noteq> [] \<and> enabled_by_key (ur_endpoints r) key = None then [] else key)"
  have sel: "select_upstream_snapshot (list_route_rules False m) r is_upgrade method rel =
      snapshot_from_endpoint (Some r) used"
    using assms(3,4) by (simp add: select_upstream_snapshot_def list_route_rules_def used_def Let_def)
  show ?thesis
  proof (cases "used = []")
    case True
    with sel valid(1) assms(2) d have "select_upstream_snapshot (list_route_rules False m) r is_upgrade method rel =
        Inr \<lparr>rs_base_url = ep_base_url d, rs_endpoint_key = ep_key d, rs_server_id = us_server_id (ur_source r),
             rs_user_id = us_user_id (ur_source r), rs_token = us_token (ur_source r), rs_identity = us_identity (ur_source r)\<rparr>"
      by (simp add: snapshot_from_endpoint_def default_endpoint_def)
    moreover have "\<not> (key \<noteq> [] \<and> (\<exists>e' \<in> set (ur_endpoints r). ep_enabled e' \<and> ep_key e' = key))"
      using True by (auto simp: used_def enabled_by_key_none split: if_splits)
    ultimately show ?thesis using d by auto
  next
    case False
    then obtain e where e: "enabled_by_key (ur_endpoints r) key = Some e" and "used = key" "key \<noteq> []"
      by (auto simp: used_def split: if_splits)
    with sel valid(1) assms(2) have "select_upstream_snapshot (list_route_rules False m) r is_upgrade method rel =
        Inr \<lparr>rs_base_url = ep_base_url e, rs_endpoint_key = ep_key e, rs_server_id = us_server_id (ur_source r),
             rs_user_id = us_user_id (ur_source r), rs_token = us_token (ur_source r), rs_identity = us_identity (ur_source r)\<rparr>"
      by (simp add: snapshot_from_endpoint_def)
    with enabled_by_key_in [OF e] \<open>key \<noteq> []\<close> show ?thesis by auto
  qed
qed

theorem stale_rules_fall_back_witness:
  "\<exists>s. select_upstream_snapshot (list_route_rules False demo_login_store) demo_runtime True ''GET'' ''/x'' = Inr s \<and>
     rs_token s = ''tok''"
proof -
  have "validate_persisted_auth (ur_source demo_runtime) = None" by code_simp
  from stale_rules_fall_back [OF demo_loads this refl refl, of True "''GET''" "''/x''"]
  show ?thesis by (auto simp: demo_runtime_def demo_login_source_def)
qed

text \<open>
  The refresh after an unauthorized answer probes the default endpoint with what the store holds
  now, not with the credentials that failed: once another request has replaced the expired token,
  a request that was sent to another endpoint with the expired one is answered 401 and is not
  tried again, where the same request to the default endpoint would be.
\<close>

definition demo_cdn :: endpoint where
  "demo_cdn = demo_endpoint\<lparr>ep_id := ''f'', ep_key := ''cdn'', ep_base_url := ''http://cdn'', ep_default := False\<rparr>"

lemma stale_token_kept:
  "let fresh = demo_runtime\<lparr>ur_source := demo_login_source\<lparr>us_token := ''new''\<rparr>, ur_endpoints := [demo_endpoint, demo_cdn]\<rparr>;
       stale = (\<lambda>e. \<lparr>rs_base_url = ep_base_url e, rs_endpoint_key = ep_key e, rs_server_id = ''srv'', rs_user_id = ''bu'',
         rs_token = ''tok'', rs_identity = us_identity demo_source\<rparr>);
       probe = (\<lambda>s. Some (rs_token s = ''tok''));
       again = (\<lambda>e. refresh_after_unauthorized probe (Inr fresh) (\<lambda>_. Inr fresh) (stale e))
   in again demo_cdn = (stale demo_cdn, False, False) \<and>
      (case again demo_endpoint of (s, confirmed, failed) \<Rightarrow> rs_token s = ''new'' \<and> confirmed \<and> \<not> failed)"
  by code_simp

end
