(* ===== verification/Personal_Query.thy ===== *)
theory Personal_Query
  imports Playback_Handlers
begin

text \<open>
  Lists filtered by personal state (\<open>personalquery.go\<close>), the latest items, the sessions list and
  the display preferences (\<open>userdata.go\<close>), and the dispatcher of all personal requests
  (\<open>handlePersonalDataRequest\<close>). The upstream's answers are arguments: for a batch of ids a JSON
  value (\<open>None\<close>: an error or a status outside 2xx), for a page of a list a value with its status
  (\<open>None\<close>: an error). \<open>rewrite\<close> prepares a value for the client, \<open>format_float\<close> is
  \<open>strconv.FormatFloat(v, 'f', 8, 64)\<close>.
\<close>

section \<open>The query\<close>

record state_flags =
  sf_played :: bool
  sf_favorite :: bool
  sf_resumable :: bool

definition no_flags :: state_flags where
  "no_flags = \<lparr>sf_played = False, sf_favorite = False, sf_resumable = False\<rparr>"

definition any_flag :: "state_flags \<Rightarrow> bool" where
  "any_flag f \<longleftrightarrow> sf_played f \<or> sf_favorite f \<or> sf_resumable f"

record personal_query =
  pq_raw :: query_values
  pq_backend :: query_values
  pq_positive :: state_flags
  pq_negative :: state_flags
  pq_series :: string
  pq_parent :: string
  pq_type :: string
  pq_start :: int
  pq_limit :: int
  pq_sort_by :: "string list"
  pq_sort_order :: "string list"

definition personal_filter_names :: "string list" where
  "personal_filter_names = [''isplayed'', ''isunplayed'', ''isfavorite'', ''isresumable'']"

text \<open>One value of \<open>Filters\<close>.\<close>

definition apply_filter :: "string \<Rightarrow> personal_query \<Rightarrow> personal_query" where
  "apply_filter f pq =
     (let name = to_lower f
      in if name = ''isplayed'' then pq\<lparr>pq_positive := (pq_positive pq)\<lparr>sf_played := True\<rparr>\<rparr>
         else if name = ''isunplayed'' then pq\<lparr>pq_negative := (pq_negative pq)\<lparr>sf_played := True\<rparr>\<rparr>
         else if name = ''isfavorite'' then pq\<lparr>pq_positive := (pq_positive pq)\<lparr>sf_favorite := True\<rparr>\<rparr>
         else if name = ''isresumable'' then pq\<lparr>pq_positive := (pq_positive pq)\<lparr>sf_resumable := True\<rparr>\<rparr>
         else pq)"

definition apply_bool_filter ::
  "string \<Rightarrow> (state_flags \<Rightarrow> state_flags) \<Rightarrow> personal_query \<Rightarrow> personal_query" where
  "apply_bool_filter name raise pq =
     (let raw = query_get (pq_raw pq) name
      in if raw = [] then pq
         else (let pq = (case parse_bool raw of
                      None \<Rightarrow> pq
                    | Some True \<Rightarrow> pq\<lparr>pq_positive := raise (pq_positive pq)\<rparr>
                    | Some False \<Rightarrow> pq\<lparr>pq_negative := raise (pq_negative pq)\<rparr>)
               in pq\<lparr>pq_backend := AList.delete name (pq_backend pq)\<rparr>))"

definition apply_path_constraints :: "string \<Rightarrow> personal_query \<Rightarrow> personal_query" where
  "apply_path_constraints rel pq =
     (let pq = (case path_parts rel of
            [a, b, c] \<Rightarrow>
              (if equal_fold a ''Shows'' \<and> equal_fold c ''Episodes'' then pq\<lparr>pq_series := b, pq_type := ''Episode''\<rparr>
               else if equal_fold a ''Shows'' \<and> equal_fold c ''Seasons'' then pq\<lparr>pq_series := b, pq_type := ''Season''\<rparr>
               else pq)
          | _ \<Rightarrow> pq);
          series = trim_space (query_get (pq_raw pq) ''SeriesId'');
          pq = (if series \<noteq> [] then pq\<lparr>pq_series := series\<rparr> else pq);
          parent = trim_space (query_get (pq_raw pq) ''ParentId'')
      in if parent \<noteq> [] then pq\<lparr>pq_parent := parent\<rparr> else pq)"

definition parse_personal_query :: "string \<Rightarrow> query_values \<Rightarrow> personal_query" where
  "parse_personal_query rel q =
     (let filters = split_filter_values (query_all q ''Filters'');
          remaining = filter (\<lambda>f. to_lower f \<notin> set personal_filter_names) filters;
          backend = AList.delete ''Filters'' q;
          pq = \<lparr>pq_raw = q,
                pq_backend = (if remaining = [] then backend else query_set ''Filters'' (join_with '','' remaining) backend),
                pq_positive = no_flags, pq_negative = no_flags, pq_series = [], pq_parent = [], pq_type = [],
                pq_start = int_query q ''StartIndex'' 0, pq_limit = int_query q ''Limit'' 0,
                pq_sort_by = split_filter_values (query_all q ''SortBy''),
                pq_sort_order = split_filter_values (query_all q ''SortOrder'')\<rparr>;
          pq = fold apply_filter filters pq;
          pq = apply_bool_filter ''IsPlayed'' (\<lambda>f. f\<lparr>sf_played := True\<rparr>) pq;
          pq = apply_bool_filter ''IsFavorite'' (\<lambda>f. f\<lparr>sf_favorite := True\<rparr>) pq;
          pq = apply_bool_filter ''IsResumable'' (\<lambda>f. f\<lparr>sf_resumable := True\<rparr>) pq
      in apply_path_constraints rel pq)"

definition has_positive :: "personal_query \<Rightarrow> bool" where
  "has_positive pq \<longleftrightarrow> any_flag (pq_positive pq)"

definition has_only_negative :: "personal_query \<Rightarrow> bool" where
  "has_only_negative pq \<longleftrightarrow> \<not> any_flag (pq_positive pq) \<and> any_flag (pq_negative pq)"

section \<open>Matching\<close>

definition flagged :: "state_flags \<Rightarrow> playback_state \<Rightarrow> bool" where
  "flagged f s \<longleftrightarrow>
     sf_played f \<and> ps_played s \<or> sf_favorite f \<and> ps_favorite s \<or> sf_resumable f \<and> is_resumable s"

definition matches_state :: "personal_query \<Rightarrow> playback_state \<Rightarrow> bool" where
  "matches_state pq s \<longleftrightarrow>
     (sf_played (pq_positive pq) \<longrightarrow> ps_played s) \<and> (sf_favorite (pq_positive pq) \<longrightarrow> ps_favorite s) \<and>
     (sf_resumable (pq_positive pq) \<longrightarrow> is_resumable s) \<and> \<not> flagged (pq_negative pq) s"

definition matches_known_structure :: "personal_query \<Rightarrow> playback_state \<Rightarrow> bool" where
  "matches_known_structure pq s \<longleftrightarrow>
     (let include_types = lower_set (split_filter_values (query_all (pq_raw pq) ''IncludeItemTypes''));
          exclude_types = lower_set (split_filter_values (query_all (pq_raw pq) ''ExcludeItemTypes''))
      in (pq_series pq = [] \<or> ps_series s = [] \<or> ps_series s = pq_series pq) \<and>
         (pq_parent pq = [] \<or> ps_season s = [] \<or> ps_season s = pq_parent pq) \<and>
         (pq_type pq = [] \<or> ps_item_type s = [] \<or> equal_fold (ps_item_type s) (pq_type pq)) \<and>
         (include_types = [] \<or> ps_item_type s = [] \<or> to_lower (ps_item_type s) \<in> set include_types) \<and>
         to_lower (ps_item_type s) \<notin> set exclude_types)"

definition matches_complete_structure :: "personal_query \<Rightarrow> playback_state \<Rightarrow> bool" where
  "matches_complete_structure pq s \<longleftrightarrow>
     (let include_types = lower_set (split_filter_values (query_all (pq_raw pq) ''IncludeItemTypes''));
          exclude_types = lower_set (split_filter_values (query_all (pq_raw pq) ''ExcludeItemTypes''))
      in (pq_series pq = [] \<or> ps_series s = pq_series pq) \<and>
         (pq_parent pq = [] \<or> ps_season s = pq_parent pq) \<and>
         (pq_type pq = [] \<or> equal_fold (ps_item_type s) (pq_type pq)) \<and>
         (include_types = [] \<or> to_lower (ps_item_type s) \<in> set include_types) \<and>
         to_lower (ps_item_type s) \<notin> set exclude_types)"

definition matches_resolved_path :: "personal_query \<Rightarrow> jobject \<Rightarrow> bool" where
  "matches_resolved_path pq item \<longleftrightarrow>
     (pq_series pq = [] \<or> string_or_empty item ''SeriesId'' = pq_series pq) \<and>
     (pq_parent pq = [] \<or> string_or_empty item ''ParentId'' = pq_parent pq \<or>
        string_or_empty item ''SeasonId'' = pq_parent pq) \<and>
     (pq_type pq = [] \<or> equal_fold (string_or_empty item ''Type'') (pq_type pq))"

definition is_backend_only_param :: "string \<Rightarrow> bool" where
  "is_backend_only_param name \<longleftrightarrow>
     to_lower name \<notin> {''api_key'', ''userid'', ''ids'', ''startindex'', ''limit'', ''sortby'', ''sortorder'',
       ''fields'', ''enableimagetypes'', ''imagetypelimit'', ''enableimages'', ''enableuserdata'',
       ''enableuserdatas'', ''enabletotalrecordcount'', ''mediatypes'', ''includeitemtypes'',
       ''excludeitemtypes'', ''parentid'', ''seriesid''}"

definition has_backend_only_filters :: "personal_query \<Rightarrow> bool" where
  "has_backend_only_filters pq = list_ex (\<lambda>(name, _). is_backend_only_param name) (pq_backend pq)"

definition query_for_backend_id_filter :: "query_values \<Rightarrow> query_values" where
  "query_for_backend_id_filter q = AList.delete ''Limit'' (AList.delete ''StartIndex'' q)"

section \<open>Sorting\<close>

type_synonym resolved_item = "jobject \<times> playback_state"

definition compare_int :: "int \<Rightarrow> int \<Rightarrow> int" where
  "compare_int a b = (if a = b then 0 else if a < b then - 1 else 1)"

definition f64_equal :: "f64 \<Rightarrow> f64 \<Rightarrow> bool" where
  "f64_equal a b \<longleftrightarrow> a = b \<and> a \<noteq> NaN"

definition compare_float :: "f64 \<Rightarrow> f64 \<Rightarrow> int" where
  "compare_float a b = (if f64_equal a b then 0 else if f64_less a b then - 1 else 1)"

definition compare_string :: "string \<Rightarrow> string \<Rightarrow> int" where
  "compare_string a b = (if a = b then 0 else if a < b then - 1 else 1)"

definition sort_string_value ::
  "(string \<Rightarrow> f64 option) \<Rightarrow> (f64 \<Rightarrow> string) \<Rightarrow> jobject \<Rightarrow> string \<Rightarrow> string" where
  "sort_string_value parse_float format_float item name =
     (case List.map_filter (string_field item) [name, ''SortName'', ''Name''] of
        v # _ \<Rightarrow> to_lower v
      | [] \<Rightarrow> (case float64_field parse_float item name of Some v \<Rightarrow> format_float v | None \<Rightarrow> []))"

definition compare_resolved ::
  "(string \<Rightarrow> f64 option) \<Rightarrow> (f64 \<Rightarrow> string) \<Rightarrow> string \<Rightarrow> resolved_item \<Rightarrow> resolved_item \<Rightarrow> int" where
  "compare_resolved parse_float format_float name a b =
     (let low = to_lower name
      in if low = ''dateplayed'' \<or> low = ''lastplayeddate''
         then compare_int (state_recency (snd a)) (state_recency (snd b))
         else if low = ''playcount'' then compare_int (ps_play_count (snd a)) (ps_play_count (snd b))
         else (case (float64_field parse_float (fst a) name, float64_field parse_float (fst b) name) of
                 (Some x, Some y) \<Rightarrow> compare_float x y
               | _ \<Rightarrow> compare_string (sort_string_value parse_float format_float (fst a) name)
                        (sort_string_value parse_float format_float (fst b) name)))"

definition sort_order_desc :: "string list \<Rightarrow> nat \<Rightarrow> bool" where
  "sort_order_desc orders i =
     (let desc = (\<lambda>o'. equal_fold o' ''Descending'' \<or> equal_fold o' ''Desc'')
      in if i < length orders then desc (orders ! i) else if orders \<noteq> [] then desc (last orders) else False)"

fun resolved_less ::
  "(string \<Rightarrow> f64 option) \<Rightarrow> (f64 \<Rightarrow> string) \<Rightarrow> string list \<Rightarrow> nat \<Rightarrow> string list \<Rightarrow> resolved_item \<Rightarrow> resolved_item \<Rightarrow> bool" where
  "resolved_less parse_float format_float orders i [] a b =
     (state_recency (snd a) > state_recency (snd b))"
| "resolved_less parse_float format_float orders i (name # names) a b =
     (let c = compare_resolved parse_float format_float name a b
      in if c = 0 then resolved_less parse_float format_float orders (i + 1) names a b
         else if sort_order_desc orders i then c > 0 else c < 0)"

definition sort_resolved ::
  "(string \<Rightarrow> f64 option) \<Rightarrow> (f64 \<Rightarrow> string) \<Rightarrow> personal_query \<Rightarrow> resolved_item list \<Rightarrow> resolved_item list" where
  "sort_resolved parse_float format_float pq items =
     (if pq_sort_by pq = [] then items
      else stable_sort (resolved_less parse_float format_float (pq_sort_order pq) 0 (pq_sort_by pq)) items)"

definition sort_states :: "personal_query \<Rightarrow> playback_state list \<Rightarrow> playback_state list" where
  "sort_states pq states =
     (if pq_sort_by pq = [] then stable_sort (\<lambda>a b. state_recency a > state_recency b) states else states)"

definition resolution_fields_for_sort :: "string \<Rightarrow> string list" where
  "resolution_fields_for_sort name =
     (let low = to_lower name
      in if low = ''datecreated'' then [''DateCreated'']
         else if low = ''premieredate'' then [''PremiereDate'']
         else if low \<in> {''communityrating'', ''criticrating'', ''officialrating'', ''productionyear''} then [name]
         else [])"

definition append_resolution_fields :: "query_values \<Rightarrow> string list \<Rightarrow> query_values" where
  "append_resolution_fields q sort_by =
     (let fields = split_filter_values (query_all q ''Fields'');
          added = fold (\<lambda>f fields. if to_lower f \<in> set (map to_lower fields) then fields else fields @ [f])
            (concat (map resolution_fields_for_sort sort_by)) fields
      in if added = [] then q else query_set ''Fields'' (join_with '','' added) q)"


section \<open>Items by positive filters\<close>

datatype resolve_error = ResolveStore | ResolveBackend

text \<open>The loop over the ids of one batch in \<open>resolvePersonalItemsByID\<close>.\<close>

fun resolve_personal_batch ::
  "'s playback_ops \<Rightarrow> session \<Rightarrow> personal_query \<Rightarrow> (jobject \<Rightarrow> jobject option) \<Rightarrow> time \<Rightarrow>
     (string, jobject) gomap \<Rightarrow> string list \<Rightarrow> 's \<Rightarrow> (resolve_error + resolved_item list) \<times> 's" where
  "resolve_personal_batch ops sess pq rewrite now by_id [] st = (Inr [], st)"
| "resolve_personal_batch ops sess pq rewrite now by_id (i # ids) st =
     (case state_for_item ops sess i st of
        Inl _ \<Rightarrow> (Inl ResolveStore, st)
      | Inr s \<Rightarrow>
          (case map_of by_id i of
             None \<Rightarrow>
               (case po_resolve ops now (snd (reconcile_resolved_item None now s)) st of
                  (Some _, st) \<Rightarrow> (Inl ResolveStore, st)
                | (None, st) \<Rightarrow> resolve_personal_batch ops sess pq rewrite now by_id ids st)
           | Some item \<Rightarrow>
               (if \<not> item_matches_resolution_query item (pq_raw pq) \<or> \<not> matches_resolved_path pq item
                then resolve_personal_batch ops sess pq rewrite now by_id ids st
                else (case reconcile_resolved_item (Some item) now s of (outcome, s) \<Rightarrow>
                       (case po_resolve ops now s st of
                          (Some _, st) \<Rightarrow> (Inl ResolveStore, st)
                        | (None, st) \<Rightarrow>
                            (case resolve_personal_batch ops sess pq rewrite now by_id ids st of
                               (Inr items, st) \<Rightarrow>
                                 (Inr (if outcome = ResolutionKeep
                                       then (case rewrite item of Some m \<Rightarrow> (m, s) # items | None \<Rightarrow> items)
                                       else items), st)
                             | (Inl err, st) \<Rightarrow> (Inl err, st)))))))"

function resolve_personal_items ::
  "'s playback_ops \<Rightarrow> session \<Rightarrow> personal_query \<Rightarrow> (jobject \<Rightarrow> jobject option) \<Rightarrow> time \<Rightarrow>
     (string list \<Rightarrow> json option) \<Rightarrow> string list \<Rightarrow> 's \<Rightarrow> (resolve_error + resolved_item list) \<times> 's" where
  "resolve_personal_items ops sess pq rewrite now backend ids st =
     (if ids = [] then (Inr [], st)
      else (let batch = take personal_id_batch_limit ids; later = drop personal_id_batch_limit ids
            in case backend batch of
                 None \<Rightarrow> (Inl ResolveBackend, st)
               | Some value \<Rightarrow>
                   (let items = extract_items value; st = learn_child_counts ops now items st
                    in case resolve_personal_batch ops sess pq rewrite now (items_by_id items) batch st of
                         (Inl err, st) \<Rightarrow> (Inl err, st)
                       | (Inr items, st) \<Rightarrow>
                           (case resolve_personal_items ops sess pq rewrite now backend later st of
                              (Inl err, st) \<Rightarrow> (Inl err, st)
                            | (Inr others, st) \<Rightarrow> (Inr (items @ others), st)))))"
  by pat_completeness auto
termination
  by (relation "measure (\<lambda>(_, _, _, _, _, _, ids, _). length ids)")
     (auto simp: personal_id_batch_limit_def)

declare resolve_personal_items.simps [simp del]

text \<open>
  \<open>filterResolvedPersonalItemsWithBackend\<close>: what the upstream lists for the ids with all its own
  filters, and the items as it answers them then.
\<close>

definition allow_item ::
  "(jobject \<Rightarrow> jobject option) \<Rightarrow> jobject \<Rightarrow> string list \<times> (string, resolved_item) gomap \<Rightarrow>
     string list \<times> (string, resolved_item) gomap" where
  "allow_item rewrite item acc =
     (case acc of (allowed, by_id) \<Rightarrow>
       (let i = string_or_empty item ''Id''
        in if i = [] then (allowed, by_id)
           else (i # allowed,
                 (case (map_of by_id i, rewrite item) of
                    (Some (_, s), Some m) \<Rightarrow> AList.update i (m, s) by_id
                  | _ \<Rightarrow> by_id))))"

function allowed_items ::
  "(jobject \<Rightarrow> jobject option) \<Rightarrow> (string list \<Rightarrow> json option) \<Rightarrow> string list \<Rightarrow>
     string list \<times> (string, resolved_item) gomap \<Rightarrow> (string list \<times> (string, resolved_item) gomap) option" where
  "allowed_items rewrite backend ids acc =
     (if ids = [] then Some acc
      else (case backend (take personal_id_batch_limit ids) of
              None \<Rightarrow> None
            | Some value \<Rightarrow>
                allowed_items rewrite backend (drop personal_id_batch_limit ids)
                  (fold (allow_item rewrite) (extract_items value) acc)))"
  by pat_completeness auto
termination
  by (relation "measure (\<lambda>(_, _, ids, _). length ids)") (auto simp: personal_id_batch_limit_def)

declare allowed_items.simps [simp del]

definition filter_resolved_with_backend ::
  "(jobject \<Rightarrow> jobject option) \<Rightarrow> (string list \<Rightarrow> json option) \<Rightarrow> personal_query \<Rightarrow> resolved_item list \<Rightarrow>
     resolved_item list option" where
  "filter_resolved_with_backend rewrite backend pq items =
     (if items = [] \<or> \<not> has_backend_only_filters pq then Some items
      else (let known = filter (\<lambda>it. ps_item (snd it) \<noteq> []) items
            in map_option (\<lambda>(allowed, by_id).
                 map (\<lambda>it. or_keep (map_of by_id (ps_item (snd it))) it)
                   (filter (\<lambda>it. ps_item (snd it) \<in> set allowed) items))
                 (allowed_items rewrite backend (map (ps_item \<circ> snd) known)
                   ([], fold (\<lambda>it m. AList.update (ps_item (snd it)) it m) known []))))"

definition list_reply :: "json list \<Rightarrow> int \<Rightarrow> int \<Rightarrow> json" where
  "list_reply items n start =
     JObject [(''Items'', JArray items), (''TotalRecordCount'', JInt n), (''StartIndex'', JInt start)]"

text \<open>
  What a personal list meets: \<open>lq_ids\<close> answers the requests by id, \<open>lq_filter\<close> those with the
  upstream's own filters, \<open>lq_page\<close> the pages of a list (start and length).
\<close>

record list_env =
  lq_parse_float :: "string \<Rightarrow> f64 option"
  lq_format_float :: "f64 \<Rightarrow> string"
  lq_rewrite :: "json \<Rightarrow> json"
  lq_now :: time
  lq_ids :: "string list \<Rightarrow> json option"
  lq_filter :: "string list \<Rightarrow> json option"
  lq_page :: "int \<Rightarrow> int \<Rightarrow> (json \<times> int) option"
  lq_whole :: "(json \<times> int) option"

definition rewrite_object :: "list_env \<Rightarrow> jobject \<Rightarrow> jobject option" where
  "rewrite_object env item = (case lq_rewrite env (JObject item) of JObject m \<Rightarrow> Some m | _ \<Rightarrow> None)"

definition write_positive ::
  "'s playback_ops \<Rightarrow> session \<Rightarrow> list_env \<Rightarrow> personal_query \<Rightarrow> 's \<Rightarrow> reply option \<times> 's" where
  "write_positive ops sess env pq st =
     (case po_list ops (gs_user sess) no_filter st of
        Inl _ \<Rightarrow> (Some (Status 500), st)
      | Inr states \<Rightarrow>
          (let candidates = filter (\<lambda>s. matches_state pq s \<and> matches_known_structure pq s) states
           in if candidates = [] then (Some (StatusJSON 200 (list_reply [] 0 (pq_start pq))), st)
              else (case resolve_personal_items ops sess pq (rewrite_object env) (lq_now env) (lq_ids env)
                      (playback_state_ids (sort_states pq candidates)) st of
                      (Inl ResolveStore, st) \<Rightarrow> (Some (Status 500), st)
                    | (Inl ResolveBackend, st) \<Rightarrow> (Some (Status 502), st)
                    | (Inr resolved, st) \<Rightarrow>
                        (case filter_resolved_with_backend (rewrite_object env) (lq_filter env) pq resolved of
                           None \<Rightarrow> (Some (Status 502), st)
                         | Some resolved \<Rightarrow>
                             (let resolved = sort_resolved (lq_parse_float env) (lq_format_float env) pq resolved
                              in (map_option (\<lambda>paged. StatusJSON 200
                                    (list_reply (map (JObject \<circ> fst) paged) (int (length resolved)) (pq_start pq)))
                                    (page_slice (pq_start pq) (pq_limit pq) resolved), st))))))"


section \<open>Items by negative filters\<close>

definition exclude_set :: "playback_state list \<Rightarrow> personal_query \<Rightarrow> string list" where
  "exclude_set states pq =
     map ps_item (filter (\<lambda>s. ps_orphaned s = None \<and> matches_known_structure pq s \<and> flagged (pq_negative pq) s) states)"

definition estimate_negative_total :: "int \<Rightarrow> playback_state list \<Rightarrow> personal_query \<Rightarrow> int" where
  "estimate_negative_total upstream_total states pq =
     (let excluded = length (filter (\<lambda>s. ps_orphaned s = None \<and> matches_complete_structure pq s \<and>
            flagged (pq_negative pq) s) states);
          n = wrap64 (upstream_total - int excluded)
      in if n < 0 then 0 else n)"

text \<open>The scan of one batch: the items kept so far, those skipped and those scanned.\<close>

record scan =
  sn_items :: "json list"
  sn_skipped :: int
  sn_scanned :: int

fun scan_batch ::
  "(json \<Rightarrow> json) \<Rightarrow> string list \<Rightarrow> int \<Rightarrow> int \<Rightarrow> jobject list \<Rightarrow> scan \<Rightarrow> scan" where
  "scan_batch rewrite exclude start limit [] sn = sn"
| "scan_batch rewrite exclude start limit (item # items) sn =
     (let sn = sn\<lparr>sn_scanned := sn_scanned sn + 1\<rparr>; i = string_or_empty item ''Id''
      in if i \<noteq> [] \<and> i \<in> set exclude then scan_batch rewrite exclude start limit items sn
         else if sn_skipped sn < start
         then scan_batch rewrite exclude start limit items (sn\<lparr>sn_skipped := sn_skipped sn + 1\<rparr>)
         else (let sn = sn\<lparr>sn_items := sn_items sn @ [rewrite (JObject item)]\<rparr>
               in if int (length (sn_items sn)) \<ge> limit \<or> sn_scanned sn \<ge> int personal_scan_item_limit then sn
                  else scan_batch rewrite exclude start limit items sn))"

lemma scan_batch_mono: "sn_scanned sn \<le> sn_scanned (scan_batch rewrite exclude start limit items sn)"
proof (induction items arbitrary: sn)
  case (Cons item items)
  show ?case
    using Cons.IH [of "sn\<lparr>sn_scanned := sn_scanned sn + 1\<rparr>"]
      Cons.IH [of "sn\<lparr>sn_scanned := sn_scanned sn + 1, sn_skipped := sn_skipped sn + 1\<rparr>"]
      Cons.IH [of "sn\<lparr>sn_scanned := sn_scanned sn + 1, sn_items := sn_items sn @ [rewrite (JObject item)]\<rparr>"]
    by (auto simp: Let_def)
qed simp

lemma scan_batch_progress:
  "items \<noteq> [] \<Longrightarrow> sn_scanned sn < sn_scanned (scan_batch rewrite exclude start limit items sn)"
proof (cases items)
  case (Cons item rest)
  then show ?thesis
    using scan_batch_mono [of "sn\<lparr>sn_scanned := sn_scanned sn + 1\<rparr>" rewrite exclude start limit rest]
      scan_batch_mono [of "sn\<lparr>sn_scanned := sn_scanned sn + 1, sn_skipped := sn_skipped sn + 1\<rparr>" rewrite exclude start limit rest]
      scan_batch_mono [of "sn\<lparr>sn_scanned := sn_scanned sn + 1, sn_items := sn_items sn @ [rewrite (JObject item)]\<rparr>"
        rewrite exclude start limit rest]
    by (auto simp: Let_def)
qed simp

text \<open>What the loop of \<open>writeNegativePersonalItems\<close> carries besides the scan and the store.\<close>

record scan_loop =
  sl_scan :: scan
  sl_start :: int
  sl_status :: int
  sl_total :: int
  sl_fetched :: "jobject list"

definition scan_page ::
  "'s playback_ops \<Rightarrow> list_env \<Rightarrow> string list \<Rightarrow> personal_query \<Rightarrow> int \<Rightarrow> json \<times> int \<Rightarrow> scan_loop \<Rightarrow> 's \<Rightarrow>
     scan_loop \<times> 's" where
  "scan_page ops env exclude pq limit answer sl st =
     (case answer of (value, status) \<Rightarrow>
       (let batch = extract_items value;
            sl = sl\<lparr>sl_status := status,
                    sl_total := (case total_record_count value of
                       Some n \<Rightarrow> if sl_total sl < 0 then n else sl_total sl | None \<Rightarrow> sl_total sl)\<rparr>
        in if batch = [] then (sl, st)
           else (sl\<lparr>sl_scan := scan_batch (lq_rewrite env) exclude (pq_start pq) limit batch (sl_scan sl),
                    sl_start := sl_start sl + int (length batch),
                    sl_fetched := sl_fetched sl @ batch\<rparr>,
                 learn_child_counts ops (lq_now env) batch st)))"

text \<open>\<open>None\<close> when a page cannot be fetched. \<open>sl_fetched\<close> records what was, for the proofs.\<close>

function scan_pages ::
  "'s playback_ops \<Rightarrow> list_env \<Rightarrow> string list \<Rightarrow> personal_query \<Rightarrow> int \<Rightarrow> int \<Rightarrow> scan_loop \<Rightarrow> 's \<Rightarrow>
     scan_loop option \<times> 's" where
  "scan_pages ops env exclude pq limit batch_limit sl st =
     (if sn_scanned (sl_scan sl) < int personal_scan_item_limit \<and> int (length (sn_items (sl_scan sl))) < limit
      then (case lq_page env (sl_start sl) batch_limit of
              None \<Rightarrow> (None, st)
            | Some answer \<Rightarrow>
                (let n = length (extract_items (fst answer)); step = scan_page ops env exclude pq limit answer sl st
                 in if n = 0 \<or> int n < batch_limit then (Some (fst step), snd step)
                    else scan_pages ops env exclude pq limit batch_limit (fst step) (snd step)))
      else (Some sl, st))"
  by pat_completeness auto
termination
proof (relation "measure (\<lambda>(_, _, _, _, _, _, sl, _). nat (int personal_scan_item_limit - sn_scanned (sl_scan sl)))")
  fix ops :: "'s playback_ops" and env exclude pq limit batch_limit sl st answer n step
  assume c: "sn_scanned (sl_scan sl) < int personal_scan_item_limit \<and> int (length (sn_items (sl_scan sl))) < limit"
    and n: "n = length (extract_items (fst answer))" "\<not> (n = 0 \<or> int n < batch_limit)"
    and x: "step = scan_page ops env exclude pq limit answer sl st"
  from n have "extract_items (fst answer) \<noteq> []" by auto
  with x have "sn_scanned (sl_scan (fst step)) > sn_scanned (sl_scan sl)"
    by (auto simp: scan_page_def Let_def scan_batch_progress split: prod.split)
  with c have "nat (int personal_scan_item_limit - sn_scanned (sl_scan (fst step))) <
      nat (int personal_scan_item_limit - sn_scanned (sl_scan sl))" by simp
  then show "((ops, env, exclude, pq, limit, batch_limit, fst step, snd step),
      (ops, env, exclude, pq, limit, batch_limit, sl, st))
    \<in> measure (\<lambda>(_, _, _, _, _, _, sl, _). nat (int personal_scan_item_limit - sn_scanned (sl_scan sl)))"
    by (simp add: case_prod_beta)
qed simp

declare scan_pages.simps [simp del]

definition negative_limits :: "int \<Rightarrow> int \<times> int" where
  "negative_limits limit =
     (let no_limit = (limit \<le> 0);
          batch = (if no_limit then int personal_scan_batch_limit else wrap64 (limit * 3))
      in (if no_limit then int personal_scan_item_limit else limit, max (int personal_scan_batch_limit) batch))"

definition negative_total :: "scan_loop \<Rightarrow> playback_state list \<Rightarrow> personal_query \<Rightarrow> int" where
  "negative_total sl states pq =
     (let n = int (length (sn_items (sl_scan sl)))
      in if sl_total sl \<ge> 0 \<and> \<not> has_backend_only_filters pq
         then max (wrap64 (n + pq_start pq)) (estimate_negative_total (sl_total sl) states pq)
         else if sl_total sl \<ge> 0 then sl_total sl else n)"

definition empty_scan :: scan_loop where
  "empty_scan =
     \<lparr>sl_scan = \<lparr>sn_items = [], sn_skipped = 0, sn_scanned = 0\<rparr>, sl_start = 0, sl_status = 200, sl_total = - 1,
      sl_fetched = []\<rparr>"

definition write_negative ::
  "'s playback_ops \<Rightarrow> session \<Rightarrow> list_env \<Rightarrow> personal_query \<Rightarrow> 's \<Rightarrow> reply \<times> 's" where
  "write_negative ops sess env pq st =
     (case po_list ops (gs_user sess) no_filter st of
        Inl _ \<Rightarrow> (Status 500, st)
      | Inr states \<Rightarrow>
          (case negative_limits (pq_limit pq) of
             (limit, batch_limit) \<Rightarrow>
               (case scan_pages ops env (exclude_set states pq) pq limit batch_limit empty_scan st of
                  (None, st) \<Rightarrow> (Status 502, st)
                | (Some sl, st) \<Rightarrow>
                    (StatusJSON (sl_status sl)
                       (list_reply (sn_items (sl_scan sl)) (negative_total sl states pq) (pq_start pq)), st))))"

section \<open>Latest items, sessions, display preferences\<close>

fun keep_latest :: "(json \<Rightarrow> json) \<Rightarrow> string list \<Rightarrow> nat \<Rightarrow> jobject list \<Rightarrow> json list" where
  "keep_latest rewrite played n [] = []"
| "keep_latest rewrite played n (item # items) =
     (let i = string_or_empty item ''Id''
      in if i \<noteq> [] \<and> i \<in> set played then keep_latest rewrite played n items
         else rewrite (JObject item) # (if n \<le> 1 then [] else keep_latest rewrite played (n - 1) items))"

function latest_loop ::
  "'s playback_ops \<Rightarrow> list_env \<Rightarrow> string list \<Rightarrow> int \<Rightarrow> int \<Rightarrow> json list \<times> int \<Rightarrow> 's \<Rightarrow>
     (json list \<times> int) option \<times> 's" where
  "latest_loop ops env played limit request_limit res st =
     (if request_limit \<le> latest_backfill_limit \<and> 0 < request_limit
      then (case lq_page env 0 request_limit of
              None \<Rightarrow> (None, st)
            | Some (value, status) \<Rightarrow>
                (let extracted = extract_items value; st = learn_child_counts ops (lq_now env) extracted st;
                     kept = keep_latest (lq_rewrite env) played (nat limit) extracted
                 in if int (length kept) \<ge> limit \<or> int (length extracted) < request_limit
                    then (Some (kept, status), st)
                    else latest_loop ops env played limit (request_limit * 3) (kept, status) st))
      else (Some res, st))"
  by pat_completeness auto
termination
  by (relation "measure (\<lambda>(_, _, _, _, n, _, _). nat (latest_backfill_limit + 1 - n))") auto

declare latest_loop.simps [simp del]

definition latest_limit :: "query_values \<Rightarrow> int" where
  "latest_limit q =
     (let limit = int_query q ''Limit'' 0
      in min latest_backfill_limit (if limit \<le> 0 then 20 else limit))"

definition write_latest ::
  "'s playback_ops \<Rightarrow> session \<Rightarrow> list_env \<Rightarrow> string \<Rightarrow> query_values \<Rightarrow> 's \<Rightarrow> reply \<times> 's" where
  "write_latest ops sess env rel q st =
     (if \<not> rel_user_matches rel (gs_synthetic_user sess) then (Status 403, st)
      else (let limit = latest_limit q;
                played = (case po_list ops (gs_user sess) (no_filter\<lparr>fl_played := Some True\<rparr>) st of
                   Inr states \<Rightarrow> playback_state_ids states | Inl _ \<Rightarrow> [])
            in case latest_loop ops env played limit limit ([], 200) st of
                 (None, st) \<Rightarrow> (Status 502, st)
               | (Some (items, status), st) \<Rightarrow> (StatusJSON status (JArray items), st)))"

definition write_filtered_sessions :: "list_env \<Rightarrow> string \<Rightarrow> reply" where
  "write_filtered_sessions env device =
     (case lq_whole env of
        None \<Rightarrow> Status 502
      | Some (value, status) \<Rightarrow>
          (if device = [] then StatusJSON status (JArray [])
           else StatusJSON status (filter_items_value (lq_rewrite env value)
             (\<lambda>item. string_or_empty item ''DeviceId'' = device))))"


definition is_playback_report_request :: "string \<Rightarrow> string \<Rightarrow> bool" where
  "is_playback_report_request method rel \<longleftrightarrow>
     method = ''POST'' \<and> (equal_path rel ''/Sessions/Playing'' \<or> equal_path rel ''/Sessions/Playing/Progress'' \<or>
       equal_path rel ''/Sessions/Playing/Stopped'')"

definition is_playback_keepalive_request :: "string \<Rightarrow> string \<Rightarrow> bool" where
  "is_playback_keepalive_request method rel \<longleftrightarrow> method = ''POST'' \<and> equal_path rel ''/Sessions/Playing/Ping''"

definition is_session_capabilities_request :: "string \<Rightarrow> string \<Rightarrow> bool" where
  "is_session_capabilities_request method rel \<longleftrightarrow>
     method = ''POST'' \<and> (equal_path rel ''/Sessions/Capabilities'' \<or> equal_path rel ''/Sessions/Capabilities/Full'')"

text \<open>\<open>raw\<close> is the body, \<open>None\<close> when it cannot be read, with whether it is valid JSON.\<close>

definition handle_display_preferences ::
  "session \<Rightarrow> string \<Rightarrow> string \<Rightarrow> query_values \<Rightarrow> (string \<times> bool) option \<Rightarrow> time \<Rightarrow> memory_store \<Rightarrow>
     reply \<times> memory_store" where
  "handle_display_preferences sess method rel q raw now m =
     (case path_parts rel of
        [a, pref] \<Rightarrow>
          (if \<not> equal_fold a ''DisplayPreferences'' \<or> method \<noteq> ''GET'' \<and> method \<noteq> ''POST'' then (Pass, m)
           else (let client = query_get q ''Client''; client = (if client = [] then gs_client sess else client)
                 in if method = ''GET''
                    then (case find_display_preference (gs_user sess) pref client m of
                            Inr p \<Rightarrow>
                              (if trim_space (dp_payload p) = [] then (StatusJSON 200 (JObject []), m)
                               else (StatusRaw 200 (dp_payload p), m))
                          | Inl _ \<Rightarrow> (StatusJSON 200 (JObject []), m))
                    else (case raw of
                            None \<Rightarrow> (Status 400, m)
                          | Some (data, valid) \<Rightarrow>
                              (let blank = (trim_space data = []); data = (if blank then ''{}'' else data)
                               in if \<not> blank \<and> \<not> valid then (Status 400, m)
                                  else (StatusRaw 200 data,
                                    save_display_preference now
                                      \<lparr>dp_id = [], dp_user = gs_user sess, dp_synthetic_user = gs_synthetic_user sess,
                                       dp_preference = pref, dp_client = client, dp_payload = data, dp_updated = now\<rparr> m)))))
      | _ \<Rightarrow> (Pass, m))"

section \<open>The dispatcher\<close>

text \<open>
  A request for personal data with everything its handling reads. \<open>pr_object\<close> is \<open>readJSONBody\<close>,
  \<open>pr_item\<close> the answer to the request for an item's metadata, \<open>pr_device\<close> the device the gateway
  shows to the upstream.
\<close>

record personal_req =
  pr_method :: string
  pr_path :: string
  pr_rel :: string
  pr_query :: query_values
  pr_remote :: string
  pr_report :: "report_body option"
  pr_object :: "jobject option"
  pr_raw :: "(string \<times> bool) option"
  pr_clock :: time
  pr_now :: time
  pr_seen :: time
  pr_item :: "json option"
  pr_list :: list_env
  pr_episodes :: "string \<Rightarrow> nat \<Rightarrow> json option"
  pr_device :: string

definition handle_local_session_state ::
  "resume_policy \<Rightarrow> session \<Rightarrow> personal_req \<Rightarrow> guard_tracker \<Rightarrow> memory_store \<Rightarrow> reply \<times> guard_tracker \<times> memory_store" where
  "handle_local_session_state cfg sess r guards m =
     (if is_playback_report_request (pr_method r) (pr_rel r)
      then (case record_playback_request memory_ops (lq_parse_float (pr_list r)) cfg sess
              \<lparr>rpt_rel = pr_rel r, rpt_query = pr_query r, rpt_body = pr_report r, rpt_remote = pr_remote r\<rparr>
              (pr_clock r) (pr_now r) (pr_item r) guards m of
              (err, guards, m) \<Rightarrow>
                ((case err of None \<Rightarrow> Status 204
                  | Some e \<Rightarrow> if e = ErrBadRequest then Status 400 else Status 500), guards, m))
      else if is_playback_keepalive_request (pr_method r) (pr_rel r) \<or>
              is_session_capabilities_request (pr_method r) (pr_rel r)
      then (Status 204, guards, m)
      else (Pass, guards, m))"

definition write_personal_filtered ::
  "session \<Rightarrow> personal_req \<Rightarrow> memory_store \<Rightarrow> reply option \<times> memory_store" where
  "write_personal_filtered sess r m =
     (if \<not> rel_user_matches (pr_rel r) (gs_synthetic_user sess) then (Some (Status 403), m)
      else (let pq = parse_personal_query (pr_rel r) (pr_query r)
            in if has_positive pq then write_positive memory_ops sess (pr_list r) pq m
               else if has_only_negative pq
               then (case write_negative memory_ops sess (pr_list r) pq m of (reply, m) \<Rightarrow> (Some reply, m))
               else (case lq_whole (pr_list r) of
                       None \<Rightarrow> (Some (Status 502), m)
                     | Some (value, status) \<Rightarrow> (Some (StatusJSON status (lq_rewrite (pr_list r) value)), m))))"

text \<open>The requests with the method GET.\<close>

definition handle_personal_get ::
  "string \<Rightarrow> session \<Rightarrow> personal_req \<Rightarrow> memory_store \<Rightarrow> reply option \<times> memory_store" where
  "handle_personal_get base sess r m =
     (let rel = pr_rel r; q = pr_query r; env = pr_list r
      in if is_resume_path rel
         then write_resume_items memory_ops sess (path_user_matches (pr_path r) base (gs_synthetic_user sess)) q
                (rewrite_object env) (pr_now r) (lq_ids env) m
         else if is_next_up_path rel
         then write_next_up_items memory_ops sess q (rewrite_object env) (pr_now r) (lq_ids env) (pr_episodes r) m
         else if is_latest_items_path rel
         then (case write_latest memory_ops sess env rel q m of (reply, m) \<Rightarrow> (Some reply, m))
         else if is_sessions_path rel then (Some (write_filtered_sessions env (pr_device r)), m)
         else if query_has_personal_filter q \<and> \<not> is_allowed_personal_item_list_path rel \<and>
                 \<not> is_clearly_non_item_endpoint rel
         then (Some (Status 400), m)
         else if should_localize_personal_filter rel q then write_personal_filtered sess r m
         else (Some Pass, m))"

text \<open>\<open>handlePersonalDataRequest\<close>; no reply is a panic of the handler.\<close>

definition handle_personal_data_request ::
  "resume_policy \<Rightarrow> string \<Rightarrow> session \<Rightarrow> personal_req \<Rightarrow> guard_tracker \<Rightarrow> memory_store \<Rightarrow>
     reply option \<times> guard_tracker \<times> memory_store" where
  "handle_personal_data_request cfg base sess r guards m =
     (case handle_local_session_state cfg sess r guards m of
        (reply, guards, m) \<Rightarrow>
          (if reply \<noteq> Pass then (Some reply, guards, m)
           else (case handle_display_preferences sess (pr_method r) (pr_rel r) (pr_query r) (pr_raw r) (pr_now r) m of
                   (reply, m) \<Rightarrow>
                     (if reply \<noteq> Pass then (Some reply, guards, m)
                      else (case handle_personal_state_write memory_ops (lq_parse_float (pr_list r)) sess (pr_method r)
                              (pr_rel r) (pr_query r) (pr_object r) (pr_now r) (pr_seen r) (pr_item r) m of
                              (reply, m) \<Rightarrow>
                                (if reply \<noteq> Pass then (Some reply, guards, m)
                                 else if pr_method r \<noteq> ''GET'' then (Some Pass, guards, m)
                                 else (case handle_personal_get base sess r m of
                                         (reply, m) \<Rightarrow> (reply, guards, m))))))))"

end
