(* ===== verification/Personal_Query_Theorems.thy ===== *)
theory Personal_Query_Theorems
  imports Personal_Query Store_Theorems
begin

text \<open>
  Properties of the lists filtered by personal state and of the dispatcher: no personal request of
  a user touches another user's states, a list filtered positively holds only items whose states
  match, a list filtered negatively is the exact page of what the upstream lists without the
  excluded items.
\<close>

section \<open>What listing does to the store\<close>

context playback_store
begin

lemma learn_keeps: "inv (learn_child_counts ops now items st) = inv st \<and> spares me st (learn_child_counts ops now items st)"
  by (simp add: learn_child_counts_def Let_def counts_frame spares_def)

lemma resolve_personal_batch_keeps:
  assumes "ok (gs_user sess)"
  shows "inv st \<Longrightarrow> inv (snd (resolve_personal_batch ops sess pq rewrite now by_id ids st)) \<and>
    spares (gs_user sess) st (snd (resolve_personal_batch ops sess pq rewrite now by_id ids st))"
proof (induction ids arbitrary: st)
  case Nil
  then show ?case by (simp add: keeps_refl)
next
  case (Cons i ids)
  show ?case
  proof (cases "state_for_item ops sess i st")
    case (Inl e)
    with Cons.prems show ?thesis by (simp add: keeps_refl)
  next
    case (Inr s)
    define item where "item = map_of by_id i"
    obtain outcome s' where r: "reconcile_resolved_item item now s = (outcome, s')" by fastforce
    obtain e st1 where p: "po_resolve ops now s' st = (e, st1)" by fastforce
    note step = resolve_step [OF Cons.prems assms Inr r p]
    show ?thesis
    proof (cases "item \<noteq> None \<and>
        (\<not> item_matches_resolution_query (the item) (pq_raw pq) \<or> \<not> matches_resolved_path pq (the item))")
      case True
      with Inr Cons.IH [OF Cons.prems] show ?thesis by (auto simp: item_def)
    next
      case False
      have "snd (resolve_personal_batch ops sess pq rewrite now by_id (i # ids) st) =
          (case e of None \<Rightarrow> snd (resolve_personal_batch ops sess pq rewrite now by_id ids st1) | Some _ \<Rightarrow> st1)"
        using False Inr r p unfolding item_def
        by (cases "map_of by_id i") (auto split: option.split prod.split sum.split)
      with step Cons.IH [of st1] show ?thesis by (cases e) (auto intro: keeps_trans)
    qed
  qed
qed

lemma resolve_personal_items_keeps:
  assumes "ok (gs_user sess)"
  shows "inv st \<Longrightarrow> inv (snd (resolve_personal_items ops sess pq rewrite now backend ids st)) \<and>
    spares (gs_user sess) st (snd (resolve_personal_items ops sess pq rewrite now backend ids st))"
proof (induction "length ids" arbitrary: ids st rule: less_induct)
  case less
  show ?case
  proof (cases "ids = [] \<or> backend (take personal_id_batch_limit ids) = None")
    case True
    then have "snd (resolve_personal_items ops sess pq rewrite now backend ids st) = st"
      by (subst resolve_personal_items.simps) (auto simp: Let_def split: option.split)
    with less.prems show ?thesis by (simp add: keeps_refl)
  next
    case False
    then obtain v where v: "ids \<noteq> []" "backend (take personal_id_batch_limit ids) = Some v" by auto
    let ?later = "drop personal_id_batch_limit ids"
    have shorter: "length ?later < length ids" using v by (simp add: personal_id_batch_limit_def)
    define st0 where "st0 = learn_child_counts ops now (extract_items v) st"
    have st0: "inv st0" "spares (gs_user sess) st st0" using learn_keeps less.prems by (auto simp: st0_def)
    obtain r st1 where b: "resolve_personal_batch ops sess pq rewrite now (items_by_id (extract_items v))
        (take personal_id_batch_limit ids) st0 = (r, st1)" by fastforce
    with resolve_personal_batch_keeps [OF assms st0(1)] have k: "inv st1" "spares (gs_user sess) st0 st1"
      by (metis snd_conv)+
    have "snd (resolve_personal_items ops sess pq rewrite now backend ids st) =
        (case r of Inl _ \<Rightarrow> st1 | Inr _ \<Rightarrow> snd (resolve_personal_items ops sess pq rewrite now backend ?later st1))"
      using v b by (subst resolve_personal_items.simps) (simp add: Let_def st0_def split: sum.split prod.split)
    with k st0(2) less.hyps [OF shorter k(1)] show ?thesis by (cases r) (auto intro: keeps_trans)
  qed
qed

lemma scan_page_keeps:
  "inv st \<Longrightarrow> inv (snd (scan_page ops env exclude pq limit answer sl st)) \<and>
     spares me st (snd (scan_page ops env exclude pq limit answer sl st))"
  using learn_keeps by (cases answer) (simp add: scan_page_def Let_def keeps_refl)

lemma scan_pages_keeps:
  "inv st \<Longrightarrow> inv (snd (scan_pages ops env exclude pq limit batch_limit sl st)) \<and>
     spares me st (snd (scan_pages ops env exclude pq limit batch_limit sl st))"
proof (induction "nat (int personal_scan_item_limit - sn_scanned (sl_scan sl))" arbitrary: sl st rule: less_induct)
  case less
  show ?case
  proof (cases "sn_scanned (sl_scan sl) < int personal_scan_item_limit \<and> int (length (sn_items (sl_scan sl))) < limit")
    case False
    with less.prems show ?thesis by (subst (1 2) scan_pages.simps) (auto simp: keeps_refl)
  next
    case go: True
    show ?thesis
    proof (cases "lq_page env (sl_start sl) batch_limit")
      case None
      with go less.prems show ?thesis by (subst (1 2) scan_pages.simps) (simp add: keeps_refl)
    next
      case (Some answer)
      obtain sl1 st1 where p: "scan_page ops env exclude pq limit answer sl st = (sl1, st1)" by fastforce
      from scan_page_keeps [OF less.prems, of env exclude pq limit answer sl] p
      have one: "inv st1" "spares me st st1" by (metis snd_conv)+
      let ?n = "length (extract_items (fst answer))"
      show ?thesis
      proof (cases "?n = 0 \<or> int ?n < batch_limit")
        case True
        with go Some p one show ?thesis by (subst (1 2) scan_pages.simps) (auto simp: Let_def)
      next
        case False
        then have "extract_items (fst answer) \<noteq> []" by auto
        then have "sn_scanned (sl_scan sl1) > sn_scanned (sl_scan sl)"
          using p by (auto simp: scan_page_def Let_def scan_batch_progress split: prod.splits)
        with go less.hyps [of sl1 st1] one
        have "inv (snd (scan_pages ops env exclude pq limit batch_limit sl1 st1)) \<and>
            spares me st1 (snd (scan_pages ops env exclude pq limit batch_limit sl1 st1))" by simp
        with go Some p one False show ?thesis
          by (subst (1 2) scan_pages.simps) (auto simp: Let_def intro: keeps_trans)
      qed
    qed
  qed
qed

lemma latest_loop_keeps:
  "inv st \<Longrightarrow> inv (snd (latest_loop ops env played limit n res st)) \<and>
     spares me st (snd (latest_loop ops env played limit n res st))"
proof (induction "nat (latest_backfill_limit + 1 - n)" arbitrary: n res st rule: less_induct)
  case less
  show ?case
  proof (cases "n \<le> latest_backfill_limit \<and> 0 < n")
    case False
    with less.prems show ?thesis by (subst (1 2) latest_loop.simps) (auto simp: keeps_refl)
  next
    case go: True
    show ?thesis
    proof (cases "lq_page env 0 n")
      case None
      with go less.prems show ?thesis by (subst (1 2) latest_loop.simps) (simp add: keeps_refl)
    next
      case (Some answer)
      obtain doc status where v: "answer = (doc, status)" by fastforce
      define st1 where "st1 = learn_child_counts ops (lq_now env) (extract_items doc) st"
      have one: "inv st1" "spares me st st1" using learn_keeps less.prems by (auto simp: st1_def)
      define kept where "kept = keep_latest (lq_rewrite env) played (nat limit) (extract_items doc)"
      have "snd (latest_loop ops env played limit n res st) =
          (if int (length kept) \<ge> limit \<or> int (length (extract_items doc)) < n then st1
           else snd (latest_loop ops env played limit (n * 3) (kept, status) st1))"
        using go Some v by (subst latest_loop.simps) (simp add: Let_def st1_def kept_def)
      with one go less.hyps [of "n * 3" st1 "(kept, status)"] show ?thesis by (auto intro: keeps_trans)
    qed
  qed
qed

end

section \<open>Isolation of users\<close>

text \<open>
  In the memory store: a transition that keeps the invariant and every other user's states.
\<close>

definition own_step :: "session \<Rightarrow> memory_store \<Rightarrow> memory_store \<Rightarrow> bool" where
  "own_step sess m m' \<longleftrightarrow>
     memory_inv m' \<and>
     (\<forall>u i. plain_id u \<and> u \<noteq> gs_user sess \<longrightarrow> find_playback_state u i m' = find_playback_state u i m)"

lemma own_step_refl: "memory_inv m \<Longrightarrow> own_step sess m m"
  by (simp add: own_step_def)

lemma own_step_trans: "own_step sess a b \<Longrightarrow> own_step sess b c \<Longrightarrow> own_step sess a c"
  by (auto simp: own_step_def)

lemma own_step_ops:
  assumes "memory_inv m'" and "\<And>u i. plain_id u \<Longrightarrow> u \<noteq> gs_user sess \<Longrightarrow>
    po_find memory_ops u i m' = po_find memory_ops u i m"
  shows "own_step sess m m'"
proof -
  have "find_playback_state u i m' = find_playback_state u i m" if "po_find memory_ops u i m' = po_find memory_ops u i m" for u i
    using that by (auto simp: memory_ops_def find_playback_state_def split: option.splits)
  with assms show ?thesis by (auto simp: own_step_def)
qed

lemma own_step_spares: "memory_inv m' \<Longrightarrow> memory.spares (gs_user sess) m m' \<Longrightarrow> own_step sess m m'"
  by (rule own_step_ops) (auto simp: memory.spares_def)

lemma own_step_preferences:
  "memory_inv m \<Longrightarrow> own_step sess m (save_display_preference now p m)"
  by (rule own_step_ops) (simp_all add: memory_inv_def memory_simps save_display_preference_def)

section \<open>The handlers\<close>

lemma memory_list: "po_list memory_ops u f m = Inr (list_playback_states u f m)"
  by (simp add: memory_ops_def)

lemma own_step_write:
  assumes "memory_inv m" "plain_id (gs_user sess)"
  shows "own_step sess m (snd (handle_personal_state_write memory_ops pf sess method rel q body now seen answer m))"
proof -
  let ?r = "handle_personal_state_write memory_ops pf sess method rel q body now seen answer m"
  have own: "own_write memory_ops sess now seen answer m ?r" by (rule personal_write_own)
  then consider (reply) r where "?r = (r, m)" | (saved) item upd where
    "\<forall>s. ps_gateway_user (upd s) = ps_gateway_user s \<and> ps_item (upd s) = ps_item s"
    "?r = write_state memory_ops sess now seen answer item upd m"
    unfolding own_write_def by blast
  then show ?thesis
  proof cases
    case reply
    with assms show ?thesis by (simp add: own_step_refl)
  next
    case saved
    with assms show ?thesis
      by (intro own_step_ops) (auto intro!: memory.write_state_inv memory.write_state_other)
  qed
qed

lemma own_step_report:
  assumes "memory_inv m" "plain_id (gs_user sess)"
  shows "own_step sess m (snd (snd (record_playback_request memory_ops pf cfg sess r clock now answer guards m)))"
  using assms by (intro own_step_ops) (auto intro!: memory.report_inv memory.report_other)

lemma own_step_resume:
  assumes "memory_inv m" "plain_id (gs_user sess)"
  shows "own_step sess m (snd (write_resume_items memory_ops sess user_matches q rewrite now backend m))"
proof (cases user_matches)
  case True
  let ?ids = "playback_state_ids (stable_sort (\<lambda>a b. state_recency a > state_recency b)
    (list_playback_states (gs_user sess) (no_filter\<lparr>fl_resumable := Some True, fl_orphaned := True\<rparr>) m))"
  have "snd (write_resume_items memory_ops sess user_matches q rewrite now backend m) =
      snd (resolve_items_by_id memory_ops sess q rewrite now backend ?ids m)"
    using True by (simp add: write_resume_items_def memory_ops_def Let_def split: sum.split prod.split)
  with memory.resolve_items_keeps [OF assms(2,1), of q rewrite now backend ?ids] show ?thesis
    by (simp add: own_step_spares)
qed (simp add: write_resume_items_def own_step_refl assms)

lemma own_step_next_up:
  assumes "memory_inv m" "plain_id (gs_user sess)"
  shows "own_step sess m (snd (write_next_up_items memory_ops sess q rewrite now backend page m))"
  using memory.next_up_keeps [OF assms(2,1)] by (intro own_step_spares) auto

lemma own_step_positive:
  assumes "memory_inv m" "plain_id (gs_user sess)"
  shows "own_step sess m (snd (write_positive memory_ops sess env pq m))"
proof -
  define states where "states = list_playback_states (gs_user sess) no_filter m"
  define candidates where "candidates = filter (\<lambda>s. matches_state pq s \<and> matches_known_structure pq s) states"
  let ?r = "resolve_personal_items memory_ops sess pq (rewrite_object env) (lq_now env) (lq_ids env)
    (playback_state_ids (sort_states pq candidates)) m"
  have "snd (write_positive memory_ops sess env pq m) = (if candidates = [] then m else snd ?r)"
    unfolding write_positive_def memory_ops_def playback_ops.select_convs sum.case states_def [symmetric]
      candidates_def [symmetric] Let_def
    by (simp split: sum.split prod.split resolve_error.split option.split)
  with memory.resolve_personal_items_keeps [OF assms(2,1), of pq "rewrite_object env" "lq_now env" "lq_ids env"] assms(1)
  show ?thesis by (auto simp: own_step_refl intro: own_step_spares)
qed

lemma own_step_negative:
  assumes "memory_inv m"
  shows "own_step sess m (snd (write_negative memory_ops sess env pq m))"
proof -
  obtain limit batch where l: "negative_limits (pq_limit pq) = (limit, batch)" by fastforce
  have "snd (write_negative memory_ops sess env pq m) = snd (scan_pages memory_ops env
      (exclude_set (list_playback_states (gs_user sess) no_filter m) pq) pq limit batch empty_scan m)"
    using l by (simp add: write_negative_def memory_ops_def split: prod.split option.split)
  with memory.scan_pages_keeps [OF assms] show ?thesis by (auto intro: own_step_spares)
qed

lemma own_step_latest:
  assumes "memory_inv m"
  shows "own_step sess m (snd (write_latest memory_ops sess env rel q m))"
proof (cases "rel_user_matches rel (gs_synthetic_user sess)")
  case True
  then have "\<exists>played limit. snd (write_latest memory_ops sess env rel q m) =
      snd (latest_loop memory_ops env played limit limit ([], 200) m)"
    by (auto simp: write_latest_def Let_def memory_list case_prod_beta split: option.split)
  with memory.latest_loop_keeps [OF assms] show ?thesis by (auto intro: own_step_spares)
qed (simp add: write_latest_def own_step_refl assms)

lemma own_step_preferences_request:
  assumes "memory_inv m"
  shows "own_step sess m (snd (handle_display_preferences sess method rel q raw now m))"
  using assms
  by (auto simp: handle_display_preferences_def Let_def own_step_refl own_step_preferences
      split: list.split option.split sum.split)

lemma own_step_get:
  assumes "memory_inv m" "plain_id (gs_user sess)"
  shows "own_step sess m (snd (handle_personal_get base sess r m))"
proof -
  have filtered: "own_step sess m (snd (write_personal_filtered sess r m))"
    using own_step_positive [OF assms] own_step_negative [OF assms(1)] own_step_refl [OF assms(1)]
    by (auto simp: write_personal_filtered_def Let_def case_prod_beta split: option.split)
  show ?thesis
    unfolding handle_personal_get_def Let_def
    using own_step_resume [OF assms] own_step_next_up [OF assms] filtered own_step_refl [OF assms(1)]
      own_step_latest [OF assms(1)]
    by (auto simp: case_prod_beta)
qed

lemma own_step_local:
  assumes "memory_inv m" "plain_id (gs_user sess)"
  shows "own_step sess m (snd (snd (handle_local_session_state cfg sess r guards m)))"
  using own_step_report [OF assms] own_step_refl [OF assms(1)]
  by (auto simp: handle_local_session_state_def case_prod_beta)

lemma own_step_request:
  assumes "memory_inv m" "plain_id (gs_user sess)"
  shows "own_step sess m (snd (snd (handle_personal_data_request cfg base sess r guards m)))"
proof -
  obtain r1 g1 m1 where h1: "handle_local_session_state cfg sess r guards m = (r1, g1, m1)" by (metis prod_cases3)
  obtain r2 m2 where h2: "handle_display_preferences sess (pr_method r) (pr_rel r) (pr_query r) (pr_raw r) (pr_now r) m1 = (r2, m2)"
    by fastforce
  obtain r3 m3 where h3: "handle_personal_state_write memory_ops (lq_parse_float (pr_list r)) sess (pr_method r)
      (pr_rel r) (pr_query r) (pr_object r) (pr_now r) (pr_seen r) (pr_item r) m2 = (r3, m3)" by fastforce
  obtain r4 m4 where h4: "handle_personal_get base sess r m3 = (r4, m4)" by fastforce
  have s1: "own_step sess m m1" using own_step_local [OF assms, of cfg r guards] h1 by simp
  then have "own_step sess m1 m2"
    using own_step_preferences_request [of m1 sess "pr_method r" "pr_rel r" "pr_query r" "pr_raw r" "pr_now r"] h2
    by (simp add: own_step_def)
  with s1 have s2: "own_step sess m m2" by (rule own_step_trans)
  then have "own_step sess m2 m3" using own_step_write [OF _ assms(2), of m2] h3 by (metis own_step_def snd_conv)
  with s2 have s3: "own_step sess m m3" by (rule own_step_trans)
  then have "own_step sess m3 m4" using own_step_get [OF _ assms(2), of m3] h4 by (metis own_step_def snd_conv)
  with s3 have s4: "own_step sess m m4" by (rule own_step_trans)
  show ?thesis
    using h1 h2 h3 h4 s1 s2 s3 s4 by (simp add: handle_personal_data_request_def)
qed


section \<open>Properties\<close>

text \<open>Requests as they are served one after another.\<close>

definition serve_request ::
  "resume_policy \<Rightarrow> string \<Rightarrow> session \<times> personal_req \<Rightarrow> guard_tracker \<times> memory_store \<Rightarrow> guard_tracker \<times> memory_store" where
  "serve_request cfg base call w =
     (case (call, w) of ((sess, r), (g, m)) \<Rightarrow> snd (handle_personal_data_request cfg base sess r g m))"

lemma serve_requests_inv:
  "memory_inv (snd w) \<Longrightarrow> \<forall>(sess, r) \<in> set calls. plain_id (gs_user sess) \<Longrightarrow>
     memory_inv (snd (fold (serve_request cfg base) calls w))"
proof (induction calls arbitrary: w)
  case (Cons c calls)
  obtain sess r g m where c: "c = (sess, r)" "w = (g, m)" by fastforce
  with own_step_request [of m sess cfg base r g] Cons.prems have "memory_inv (snd (serve_request cfg base c w))"
    by (auto simp: serve_request_def own_step_def)
  with Cons show ?case by simp
qed simp

lemma serve_requests_other:
  "memory_inv (snd w) \<Longrightarrow> \<forall>(sess, r) \<in> set calls. plain_id (gs_user sess) \<and> gs_user sess \<noteq> u \<Longrightarrow> plain_id u \<Longrightarrow>
     find_playback_state u i (snd (fold (serve_request cfg base) calls w)) = find_playback_state u i (snd w)"
proof (induction calls arbitrary: w)
  case (Cons c calls)
  obtain sess r g m where c: "c = (sess, r)" "w = (g, m)" by fastforce
  with own_step_request [of m sess cfg base r g] Cons.prems
  have "memory_inv (snd (serve_request cfg base c w))"
    "find_playback_state u i (snd (serve_request cfg base c w)) = find_playback_state u i (snd w)"
    by (auto simp: serve_request_def own_step_def)
  with Cons show ?case by simp
qed simp

text \<open>
  C26: users are isolated from one another: whatever personal requests the others send (reports,
  writes, preferences, resume, next-up, latest and filtered lists), in whatever order, and from
  whatever store the earlier requests of everybody led to, the playback states of a user who sends
  none of them stay what they were.
\<close>

theorem personal_requests_isolated:
  assumes "ms_states m = []" and "\<forall>(sess, r) \<in> set (earlier @ others). plain_id (gs_user sess)"
    and "\<forall>(sess, r) \<in> set others. gs_user sess \<noteq> u" and "plain_id u"
  shows "find_playback_state u i (snd (fold (serve_request cfg base) (earlier @ others) (g, m))) =
    find_playback_state u i (snd (fold (serve_request cfg base) earlier (g, m)))"
proof -
  have "memory_inv m" using assms(1) by (simp add: memory_inv_def)
  with assms(2) have "memory_inv (snd (fold (serve_request cfg base) earlier (g, m)))"
    by (intro serve_requests_inv) auto
  with assms(2-4) show ?thesis by (auto intro!: serve_requests_other)
qed

definition demo_list_env :: list_env where
  "demo_list_env =
     \<lparr>lq_parse_float = (\<lambda>_. None), lq_format_float = (\<lambda>_. []), lq_rewrite = id, lq_now = 7,
      lq_ids = (\<lambda>ids. Some (JArray (map (\<lambda>i. JObject [(''Id'', JString i)]) ids))), lq_filter = (\<lambda>_. None),
      lq_page = (\<lambda>s n. if s = 0 then Some (JArray [JObject [(''Id'', JString ''a'')], JObject [(''Id'', JString ''i'')],
        JObject [(''Id'', JString ''b'')]], 200) else None), lq_whole = None\<rparr>"

definition demo_request :: "string \<Rightarrow> string \<Rightarrow> personal_req" where
  "demo_request method rel =
     \<lparr>pr_method = method, pr_path = rel, pr_rel = rel, pr_query = [], pr_remote = [], pr_report = None,
      pr_object = None, pr_raw = None, pr_clock = 5, pr_now = 5, pr_seen = 5, pr_item = None,
      pr_list = demo_list_env, pr_episodes = (\<lambda>_ _. None), pr_device = []\<rparr>"

theorem personal_requests_isolated_witness:
  "find_playback_state ''u'' ''i'' (snd (fold (serve_request demo_policy [])
      ([(demo_session ''u'' ''x'', demo_request ''POST'' ''/Users/x/FavoriteItems/i'')] @
       [(demo_session ''v'' ''y'', demo_request ''DELETE'' ''/Users/y/FavoriteItems/i'')]) (new_tracker, new_memory_store))) =
   find_playback_state ''u'' ''i'' (snd (fold (serve_request demo_policy [])
      [(demo_session ''u'' ''x'', demo_request ''POST'' ''/Users/x/FavoriteItems/i'')] (new_tracker, new_memory_store)))"
  by (rule personal_requests_isolated) (simp_all add: new_memory_store_def plain_id_def demo_session_def)

section \<open>Lists by positive filters\<close>

text \<open>Items of the upstream as the client sees them.\<close>

definition shown_for :: "(jobject \<Rightarrow> jobject option) \<Rightarrow> string \<Rightarrow> jobject \<Rightarrow> bool" where
  "shown_for rewrite i m \<longleftrightarrow> (\<exists>item. string_or_empty item ''Id'' = i \<and> rewrite item = Some m)"

definition keyed_by_id :: "(string, jobject) gomap \<Rightarrow> bool" where
  "keyed_by_id by_id \<longleftrightarrow> (\<forall>i item. map_of by_id i = Some item \<longrightarrow> string_or_empty item ''Id'' = i)"

lemma keyed_update: "keyed_by_id by_id \<Longrightarrow> keyed_by_id (AList.update (string_or_empty item ''Id'') item by_id)"
proof -
  assume k: "keyed_by_id by_id"
  have "string_or_empty it ''Id'' = i"
    if u: "map_of (AList.update k item by_id) i = Some it" and "k = string_or_empty item ''Id''" for i it k
  proof (cases "i = k")
    case True
    with u have "it = item" by (simp add: update_conv')
    with True that(2) show ?thesis by blast
  next
    case False
    with u have "map_of by_id i = Some it" by (simp add: update_conv')
    with k show ?thesis unfolding keyed_by_id_def by blast
  qed
  then show ?thesis unfolding keyed_by_id_def by blast
qed

lemma keyed_items: "keyed_by_id (items_by_id items)"
proof -
  define f where "f = (\<lambda>(item :: jobject) m. let i = string_or_empty item ''Id''
    in if i = [] then m else AList.update i item m)"
  have step: "keyed_by_id (f item acc)" if "keyed_by_id acc" for item acc
    unfolding f_def Let_def using that keyed_update by (cases "string_or_empty item ''Id'' = []") simp_all
  have "keyed_by_id (fold f items acc)" if "keyed_by_id acc" for acc
    using that
  proof (induction items arbitrary: acc)
    case (Cons item items)
    from Cons.IH [OF step [OF Cons.prems]] show ?case by simp
  qed simp
  moreover have "keyed_by_id []" by (simp add: keyed_by_id_def)
  ultimately show ?thesis unfolding items_by_id_def f_def by blast
qed

lemma state_for_item_item: "state_for_item memory_ops sess i m = Inr s \<Longrightarrow> memory_inv m \<Longrightarrow> plain_id (gs_user sess) \<Longrightarrow> ps_item s = i"
  using memory.state_for_item_key by blast

lemma resolved_batch_items:
  assumes "plain_id (gs_user sess)" and keyed: "keyed_by_id by_id"
  shows "memory_inv m \<Longrightarrow> resolve_personal_batch memory_ops sess pq rewrite now by_id ids m = (Inr items, m') \<Longrightarrow>
    \<forall>(x, s) \<in> set items. ps_item s \<in> set ids \<and> shown_for rewrite (ps_item s) x"
proof (induction ids arbitrary: m items)
  case (Cons i ids)
  obtain s where s: "state_for_item memory_ops sess i m = Inr s"
    using Cons.prems(2) by (auto split: sum.splits)
  have item: "ps_item s = i" by (rule state_for_item_item [OF s Cons.prems(1) assms(1)])
  define it where "it = map_of by_id i"
  obtain outcome s' where r: "reconcile_resolved_item it now s = (outcome, s')" by fastforce
  have p: "po_resolve memory_ops now s' m = (None, save_playback_resolution now s' m)" by (simp add: memory_ops_def)
  have inv': "memory_inv (save_playback_resolution now s' m)"
    using memory.resolve_step [OF Cons.prems(1) assms(1) s r p] by simp
  have s': "ps_item s' = i" using reconcile_frame [OF r] item by simp
  show ?case
  proof (cases it)
    case None
    with Cons.prems s r p it_def have "resolve_personal_batch memory_ops sess pq rewrite now by_id ids
        (save_playback_resolution now s' m) = (Inr items, m')" by simp
    from Cons.IH [OF inv' this] show ?thesis by auto
  next
    case (Some item)
    show ?thesis
    proof (cases "\<not> item_matches_resolution_query item (pq_raw pq) \<or> \<not> matches_resolved_path pq item")
      case True
      with Cons.prems s Some it_def have "resolve_personal_batch memory_ops sess pq rewrite now by_id ids m = (Inr items, m')"
        by auto
      from Cons.IH [OF Cons.prems(1) this] show ?thesis by auto
    next
      case False
      with Cons.prems(2) s Some it_def r p obtain others where
        o: "resolve_personal_batch memory_ops sess pq rewrite now by_id ids (save_playback_resolution now s' m) = (Inr others, m')"
        and items: "items = (if outcome = ResolutionKeep
           then (case rewrite item of Some x \<Rightarrow> (x, s') # others | None \<Rightarrow> others) else others)"
        by (auto split: sum.splits prod.splits)
      have "shown_for rewrite i x" if "rewrite item = Some x" for x
        using that keyed Some it_def by (auto simp: shown_for_def keyed_by_id_def)
      with items s' Cons.IH [OF inv' o] show ?thesis by (auto split: if_splits option.splits)
    qed
  qed
qed simp

lemma resolved_personal_items:
  assumes "plain_id (gs_user sess)"
  shows "memory_inv m \<Longrightarrow> resolve_personal_items memory_ops sess pq rewrite now backend ids m = (Inr items, m') \<Longrightarrow>
    \<forall>(x, s) \<in> set items. ps_item s \<in> set ids \<and> shown_for rewrite (ps_item s) x"
proof (induction "length ids" arbitrary: ids m items rule: less_induct)
  case less
  show ?case
  proof (cases "ids = []")
    case True
    with less.prems show ?thesis by (simp add: resolve_personal_items.simps [of _ _ _ _ _ _ "[]"])
  next
    case False
    let ?later = "drop personal_id_batch_limit ids" and ?batch = "take personal_id_batch_limit ids"
    have "backend ?batch \<noteq> None"
      using less.prems(2) False by (subst (asm) resolve_personal_items.simps) (auto simp: Let_def split: option.splits)
    then obtain v where v: "backend ?batch = Some v" by blast
    define m0 where "m0 = learn_child_counts memory_ops now (extract_items v) m"
    have m0: "memory_inv m0" using memory.learn_keeps less.prems(1) by (simp add: m0_def)
    from less.prems(2) False v obtain found m1 others where
      b: "resolve_personal_batch memory_ops sess pq rewrite now (items_by_id (extract_items v)) ?batch m0 = (Inr found, m1)"
      and l: "resolve_personal_items memory_ops sess pq rewrite now backend ?later m1 = (Inr others, m')"
      and items: "items = found @ others"
      by (subst (asm) resolve_personal_items.simps) (auto simp: Let_def m0_def split: sum.splits prod.splits)
    have m1: "memory_inv m1"
      using memory.resolve_personal_batch_keeps [OF assms m0] b by (metis snd_conv)
    have shorter: "length ?later < length ids" using False by (simp add: personal_id_batch_limit_def)
    from resolved_batch_items [OF assms keyed_items m0 b] less.hyps [OF shorter m1 l] items
    show ?thesis by (auto dest: in_set_takeD in_set_dropD)
  qed
qed


definition good_items :: "(jobject \<Rightarrow> jobject option) \<Rightarrow> string set \<Rightarrow> resolved_item \<Rightarrow> bool" where
  "good_items rewrite ids it \<longleftrightarrow> ps_item (snd it) \<in> ids \<and> shown_for rewrite (ps_item (snd it)) (fst it)"

definition good_by_id :: "(jobject \<Rightarrow> jobject option) \<Rightarrow> string set \<Rightarrow> (string, resolved_item) gomap \<Rightarrow> bool" where
  "good_by_id rewrite ids by_id \<longleftrightarrow>
     (\<forall>i it. map_of by_id i = Some it \<longrightarrow> ps_item (snd it) = i \<and> good_items rewrite ids it)"

lemma good_update:
  "good_by_id rewrite ids by_id \<Longrightarrow> good_items rewrite ids it \<Longrightarrow>
     good_by_id rewrite ids (AList.update (ps_item (snd it)) it by_id)"
  unfolding good_by_id_def update_conv' by (auto split: if_splits)

lemma good_initial:
  "\<forall>it \<in> set items. good_items rewrite ids it \<Longrightarrow> good_by_id rewrite ids by_id \<Longrightarrow>
     good_by_id rewrite ids (fold (\<lambda>it m. AList.update (ps_item (snd it)) it m) items by_id)"
  by (induction items arbitrary: by_id) (simp_all add: good_update)

lemma good_allow:
  assumes "good_by_id rewrite ids (snd acc)"
  shows "good_by_id rewrite ids (snd (allow_item rewrite item acc))"
proof -
  obtain allowed by_id where acc: "acc = (allowed, by_id)" by fastforce
  define i where "i = string_or_empty item ''Id''"
  have "good_by_id rewrite ids (AList.update i (x, s) by_id)" if "map_of by_id i = Some (y, s)" "rewrite item = Some x" for x y s
  proof -
    have "ps_item s = i" "i \<in> ids" using assms that acc by (auto simp: good_by_id_def good_items_def)
    moreover have "shown_for rewrite i x" using that(2) by (auto simp: shown_for_def i_def)
    ultimately show ?thesis using good_update [of rewrite ids by_id "(x, s)"] assms acc by (simp add: good_items_def)
  qed
  with assms acc show ?thesis
    by (auto simp: allow_item_def Let_def i_def split: option.split)
qed

lemma good_allowed:
  "good_by_id rewrite ids (snd acc) \<Longrightarrow> allowed_items rewrite backend is acc = Some acc' \<Longrightarrow>
     good_by_id rewrite ids (snd acc')"
proof (induction rewrite backend "is" acc rule: allowed_items.induct)
  case (1 rewrite backend "is" acc)
  have fold: "good_by_id rewrite ids (snd a) \<Longrightarrow> good_by_id rewrite ids (snd (fold (allow_item rewrite) items a))" for items a
    by (induction items arbitrary: a) (simp_all add: good_allow)
  show ?case
  proof (cases "is = []")
    case True
    with 1 show ?thesis by (simp add: allowed_items.simps [of _ _ "[]"])
  next
    case False
    then obtain v where v: "backend (take personal_id_batch_limit is) = Some v"
      "allowed_items rewrite backend (drop personal_id_batch_limit is) (fold (allow_item rewrite) (extract_items v) acc) = Some acc'"
      using 1(3) by (subst (asm) allowed_items.simps) (auto split: option.splits)
    from 1(1) [OF False v(1) fold [OF 1(2)] v(2)] show ?thesis .
  qed
qed

lemma good_filtered:
  assumes "filter_resolved_with_backend rewrite backend pq items = Some items'"
    and "\<forall>it \<in> set items. good_items rewrite ids it"
  shows "\<forall>it \<in> set items'. good_items rewrite ids it"
proof (cases "items = [] \<or> \<not> has_backend_only_filters pq")
  case True
  with assms show ?thesis by (simp add: filter_resolved_with_backend_def)
next
  case False
  let ?known = "filter (\<lambda>it. ps_item (snd it) \<noteq> []) items"
  from False assms(1) obtain allowed by_id where a: "allowed_items rewrite backend (map (ps_item \<circ> snd) ?known)
      ([], fold (\<lambda>it m. AList.update (ps_item (snd it)) it m) ?known []) = Some (allowed, by_id)"
    and items': "items' = map (\<lambda>it. or_keep (map_of by_id (ps_item (snd it))) it)
      (filter (\<lambda>it. ps_item (snd it) \<in> set allowed) items)"
    by (auto simp: filter_resolved_with_backend_def Let_def)
  have "good_by_id rewrite ids (fold (\<lambda>it m. AList.update (ps_item (snd it)) it m) ?known [])"
    using assms(2) by (intro good_initial) (auto simp: good_by_id_def)
  with good_allowed [OF _ a] have "good_by_id rewrite ids by_id" by simp
  with assms(2) items' show ?thesis
    by (auto simp: good_by_id_def split: option.splits)
qed

lemma page_slice_subset: "page_slice start limit items = Some page \<Longrightarrow> set page \<subseteq> set items"
  by (auto simp: page_slice_def Let_def split: if_splits dest: in_set_takeD in_set_dropD)

lemma sort_resolved_set [simp]: "set (sort_resolved pf ff pq items) = set items"
  by (simp add: sort_resolved_def)

lemma sort_states_set [simp]: "set (sort_states pq states) = set states"
  by (simp add: sort_states_def)

lemma listed_found:
  assumes "memory_inv m" and "s \<in> set (list_playback_states u f m)"
  shows "find_playback_state u (ps_item s) m = Inr s \<and> state_matches f s"
proof -
  from assms(2) obtain k where k: "(k, s) \<in> set (ms_states m)" and s: "ps_gateway_user s = u" "state_matches f s"
    by (auto simp: list_playback_states_def)
  from assms(1) k have "map_of (ms_states m) k = Some s" by (auto simp: memory_inv_def)
  with assms(1) s show ?thesis by (auto simp: memory_inv_def find_playback_state_def)
qed

text \<open>
  a list filtered by what the user did (played, favorite, resumable) shows only items whose
  states match: each listed item is what the client sees of an upstream item with an id for which
  the user's stored state, not orphaned, satisfies every filter and the structure asked for.
\<close>

theorem positive_lists_only_matches:
  assumes "memory_inv m" and "plain_id (gs_user sess)"
    and "write_positive memory_ops sess env pq m = (Some (StatusJSON code (list_reply items n start)), m')"
    and "j \<in> set items"
  shows "\<exists>x s. j = JObject x \<and> shown_for (rewrite_object env) (ps_item s) x \<and>
    find_playback_state (gs_user sess) (ps_item s) m = Inr s \<and> ps_orphaned s = None \<and>
    matches_state pq s \<and> matches_known_structure pq s"
proof -
  define candidates where "candidates = filter (\<lambda>s. matches_state pq s \<and> matches_known_structure pq s)
    (list_playback_states (gs_user sess) no_filter m)"
  let ?ids = "playback_state_ids (sort_states pq candidates)"
  have nonempty: "candidates \<noteq> []"
    using assms(3,4) by (auto simp: write_positive_def memory_list candidates_def list_reply_def Let_def)
  obtain res m1 where r: "resolve_personal_items memory_ops sess pq (rewrite_object env) (lq_now env) (lq_ids env) ?ids m = (res, m1)"
    by fastforce
  have out: "write_positive memory_ops sess env pq m =
    (case (res, m1) of
       (Inl ResolveStore, st) \<Rightarrow> (Some (Status 500), st)
     | (Inl ResolveBackend, st) \<Rightarrow> (Some (Status 502), st)
     | (Inr resolved, st) \<Rightarrow>
         (case filter_resolved_with_backend (rewrite_object env) (lq_filter env) pq resolved of
            None \<Rightarrow> (Some (Status 502), st)
          | Some resolved \<Rightarrow>
              (let resolved = sort_resolved (lq_parse_float env) (lq_format_float env) pq resolved
               in (map_option (\<lambda>paged. StatusJSON 200
                     (list_reply (map (JObject \<circ> fst) paged) (int (length resolved)) (pq_start pq)))
                     (page_slice (pq_start pq) (pq_limit pq) resolved), st))))"
    using nonempty r unfolding write_positive_def memory_list candidates_def by (simp add: Let_def)
  with assms(3) obtain resolved resolved' paged where res: "res = Inr resolved"
    and f: "filter_resolved_with_backend (rewrite_object env) (lq_filter env) pq resolved = Some resolved'"
    and p: "page_slice (pq_start pq) (pq_limit pq)
      (sort_resolved (lq_parse_float env) (lq_format_float env) pq resolved') = Some paged"
    and items: "items = map (JObject \<circ> fst) paged"
    by (auto simp: list_reply_def Let_def split: sum.splits resolve_error.splits option.splits)
  have "\<forall>it \<in> set resolved. good_items (rewrite_object env) (set ?ids) it"
    using resolved_personal_items [OF assms(2,1) r [unfolded res]] by (auto simp: good_items_def)
  then have "\<forall>it \<in> set resolved'. good_items (rewrite_object env) (set ?ids) it" by (rule good_filtered [OF f])
  moreover from assms(4) items obtain it where "it \<in> set paged" "j = JObject (fst it)" by auto
  ultimately have it: "good_items (rewrite_object env) (set ?ids) it" "j = JObject (fst it)"
    using page_slice_subset [OF p] by auto
  then obtain s where s: "s \<in> set candidates" "ps_item s = ps_item (snd it)"
    by (auto simp: good_items_def playback_state_ids_def)
  have "find_playback_state (gs_user sess) (ps_item s) m = Inr s \<and> state_matches no_filter s"
    using s(1) assms(1) by (intro listed_found) (auto simp: candidates_def)
  with s it show ?thesis
    by (intro exI [of _ "fst it"] exI [of _ s])
       (auto simp: candidates_def good_items_def state_matches_def no_filter_def)
qed


definition demo_played_store :: memory_store where
  "demo_played_store = save_playback_state 5 (demo_state\<lparr>ps_played := True\<rparr>) new_memory_store"

definition demo_played_query :: personal_query where
  "demo_played_query = parse_personal_query ''/Users/x/Items'' [(''Filters'', [''IsPlayed''])]"

theorem positive_lists_only_matches_witness:
  "\<exists>s. find_playback_state ''u'' ''i'' demo_played_store = Inr s \<and> matches_state demo_played_query s"
proof -
  let ?j = "JObject [(''Id'', JString ''i'')]"
  have "fst (write_positive memory_ops (demo_session ''u'' ''x'') demo_list_env demo_played_query demo_played_store) =
      Some (StatusJSON 200 (list_reply [?j] 1 0))"
    by code_simp
  then obtain m' where w: "write_positive memory_ops (demo_session ''u'' ''x'') demo_list_env demo_played_query
      demo_played_store = (Some (StatusJSON 200 (list_reply [?j] 1 0)), m')"
    by (metis prod.collapse)
  have inv: "memory_inv demo_played_store" "plain_id (gs_user (demo_session ''u'' ''x''))"
    by (simp_all add: memory_inv_def new_memory_store_def save_playback_state_def plain_id_def demo_state_def
        fresh_state_def demo_played_store_def demo_session_def)
  obtain x s where s: "?j = JObject x" "shown_for (rewrite_object demo_list_env) (ps_item s) x"
    "find_playback_state ''u'' (ps_item s) demo_played_store = Inr s" "matches_state demo_played_query s"
    using positive_lists_only_matches [OF inv w, of ?j] by (auto simp: demo_session_def)
  then have "ps_item s = ''i''"
    by (auto simp: shown_for_def rewrite_object_def demo_list_env_def string_or_empty_def string_field_def field_def)
  with s show ?thesis by auto
qed

section \<open>Lists by negative filters\<close>

definition visible_items :: "string list \<Rightarrow> jobject list \<Rightarrow> jobject list" where
  "visible_items exclude items =
     filter (\<lambda>item. \<not> (string_or_empty item ''Id'' \<noteq> [] \<and> string_or_empty item ''Id'' \<in> set exclude)) items"

lemma visible_append [simp]: "visible_items exclude (xs @ ys) = visible_items exclude xs @ visible_items exclude ys"
  by (simp add: visible_items_def)

definition scanned_to :: "(json \<Rightarrow> json) \<Rightarrow> string list \<Rightarrow> int \<Rightarrow> scan \<Rightarrow> jobject list \<Rightarrow> bool" where
  "scanned_to rewrite exclude start sn seen \<longleftrightarrow>
     sn_items sn = map (rewrite \<circ> JObject) (drop (nat start) (visible_items exclude seen)) \<and>
     sn_skipped sn = min (int (nat start)) (int (length (visible_items exclude seen))) \<and>
     sn_scanned sn = int (length seen)"

lemma scanned_item:
  assumes "scanned_to rewrite exclude start sn seen"
  shows "string_or_empty item ''Id'' \<noteq> [] \<and> string_or_empty item ''Id'' \<in> set exclude \<Longrightarrow>
      scanned_to rewrite exclude start (sn\<lparr>sn_scanned := sn_scanned sn + 1\<rparr>) (seen @ [item])"
    and "\<not> (string_or_empty item ''Id'' \<noteq> [] \<and> string_or_empty item ''Id'' \<in> set exclude) \<Longrightarrow> sn_skipped sn < start \<Longrightarrow>
      scanned_to rewrite exclude start
        (sn\<lparr>sn_scanned := sn_scanned sn + 1, sn_skipped := sn_skipped sn + 1\<rparr>) (seen @ [item])"
    and "\<not> (string_or_empty item ''Id'' \<noteq> [] \<and> string_or_empty item ''Id'' \<in> set exclude) \<Longrightarrow> \<not> sn_skipped sn < start \<Longrightarrow>
      scanned_to rewrite exclude start
        (sn\<lparr>sn_scanned := sn_scanned sn + 1, sn_items := sn_items sn @ [rewrite (JObject item)]\<rparr>) (seen @ [item])"
proof -
  have seen: "sn_items sn = map (rewrite \<circ> JObject) (drop (nat start) (visible_items exclude seen))"
    "sn_skipped sn = min (int (nat start)) (int (length (visible_items exclude seen)))" "sn_scanned sn = int (length seen)"
    using assms by (simp_all add: scanned_to_def)
  show "string_or_empty item ''Id'' \<noteq> [] \<and> string_or_empty item ''Id'' \<in> set exclude \<Longrightarrow>
      scanned_to rewrite exclude start (sn\<lparr>sn_scanned := sn_scanned sn + 1\<rparr>) (seen @ [item])"
    using seen by (simp add: scanned_to_def) (simp add: visible_items_def)
  assume "\<not> (string_or_empty item ''Id'' \<noteq> [] \<and> string_or_empty item ''Id'' \<in> set exclude)"
  then have one: "visible_items exclude [item] = [item]" by (simp add: visible_items_def)
  show "scanned_to rewrite exclude start
      (sn\<lparr>sn_scanned := sn_scanned sn + 1, sn_skipped := sn_skipped sn + 1\<rparr>) (seen @ [item])" if "sn_skipped sn < start"
  proof -
    have "length (visible_items exclude seen) < nat start" using that seen(2) by (auto simp: min_def split: if_splits)
    with seen one show ?thesis by (simp add: scanned_to_def)
  qed
  show "scanned_to rewrite exclude start
      (sn\<lparr>sn_scanned := sn_scanned sn + 1, sn_items := sn_items sn @ [rewrite (JObject item)]\<rparr>) (seen @ [item])"
    if "\<not> sn_skipped sn < start"
  proof -
    have "nat start \<le> length (visible_items exclude seen)" using that seen(2) by (auto simp: min_def split: if_splits)
    with seen one show ?thesis by (simp add: scanned_to_def)
  qed
qed

lemma scan_batch_exact:
  assumes "scanned_to rewrite exclude start sn seen" and "int (length (sn_items sn)) < limit"
  shows "\<exists>k \<le> length items. scanned_to rewrite exclude start (scan_batch rewrite exclude start limit items sn) (seen @ take k items) \<and>
    int (length (sn_items (scan_batch rewrite exclude start limit items sn))) \<le> limit \<and>
    (k < length items \<longrightarrow>
       int (length (sn_items (scan_batch rewrite exclude start limit items sn))) = limit \<or>
       int personal_scan_item_limit \<le> int (length seen + k))"
  using assms
proof (induction items arbitrary: sn seen)
  case (Cons item items)
  note one = scanned_item [OF Cons.prems(1), of item]
  have later: ?case
    if s: "scanned_to rewrite exclude start sn1 (seen @ [item])" and l: "int (length (sn_items sn1)) < limit"
      and e: "scan_batch rewrite exclude start limit (item # items) sn = scan_batch rewrite exclude start limit items sn1" for sn1
  proof -
    from Cons.IH [OF s l] obtain k where "k \<le> length items"
      "scanned_to rewrite exclude start (scan_batch rewrite exclude start limit items sn1) ((seen @ [item]) @ take k items)"
      "int (length (sn_items (scan_batch rewrite exclude start limit items sn1))) \<le> limit"
      "k < length items \<longrightarrow> int (length (sn_items (scan_batch rewrite exclude start limit items sn1))) = limit \<or>
         int personal_scan_item_limit \<le> int (length (seen @ [item]) + k)" by blast
    then show ?thesis unfolding e by (intro exI [of _ "Suc k"]) auto
  qed
  consider (skip) "string_or_empty item ''Id'' \<noteq> [] \<and> string_or_empty item ''Id'' \<in> set exclude"
    | (early) "\<not> (string_or_empty item ''Id'' \<noteq> [] \<and> string_or_empty item ''Id'' \<in> set exclude)" "sn_skipped sn < start"
    | (take) "\<not> (string_or_empty item ''Id'' \<noteq> [] \<and> string_or_empty item ''Id'' \<in> set exclude)" "\<not> sn_skipped sn < start"
    by blast
  then show ?case
  proof cases
    case skip
    with Cons.prems(2) show ?thesis by (intro later [OF one(1)]) (auto simp: Let_def)
  next
    case early
    with Cons.prems(2) show ?thesis by (intro later [OF one(2)]) (auto simp: Let_def)
  next
    case take
    let ?sn = "sn\<lparr>sn_scanned := sn_scanned sn + 1, sn_items := sn_items sn @ [rewrite (JObject item)]\<rparr>"
    note s = one(3) [OF take]
    show ?thesis
    proof (cases "int (length (sn_items ?sn)) \<ge> limit \<or> sn_scanned ?sn \<ge> int personal_scan_item_limit")
      case True
      then have e: "scan_batch rewrite exclude start limit (item # items) sn = ?sn" using take by (auto simp: Let_def)
      have "sn_scanned ?sn = int (length (seen @ [item]))" using s by (simp only: scanned_to_def)
      with True s Cons.prems(2) show ?thesis
        unfolding e by (intro exI [of _ "Suc 0"]) auto
    next
      case False
      then show ?thesis using take by (intro later [OF s]) (auto simp: Let_def)
    qed
  qed
qed simp

definition loop_exact :: "list_env \<Rightarrow> string list \<Rightarrow> personal_query \<Rightarrow> int \<Rightarrow> scan_loop \<Rightarrow> bool" where
  "loop_exact env exclude pq limit sl \<longleftrightarrow>
     (\<exists>k \<le> length (sl_fetched sl).
        scanned_to (lq_rewrite env) exclude (pq_start pq) (sl_scan sl) (take k (sl_fetched sl)) \<and>
        int (length (sn_items (sl_scan sl))) \<le> limit \<and>
        (k < length (sl_fetched sl) \<longrightarrow>
           int (length (sn_items (sl_scan sl))) = limit \<or> int personal_scan_item_limit \<le> int k)) \<and>
     sl_start sl = int (length (sl_fetched sl))"

lemma scan_page_exact:
  assumes "loop_exact env exclude pq limit sl"
    and "sn_scanned (sl_scan sl) < int personal_scan_item_limit" "int (length (sn_items (sl_scan sl))) < limit"
  shows "loop_exact env exclude pq limit (fst (scan_page ops env exclude pq limit answer sl st))"
proof -
  obtain doc status where a: "answer = (doc, status)" by fastforce
  from assms(1) obtain k where k: "k \<le> length (sl_fetched sl)"
    "scanned_to (lq_rewrite env) exclude (pq_start pq) (sl_scan sl) (take k (sl_fetched sl))"
    "k < length (sl_fetched sl) \<longrightarrow>
       int (length (sn_items (sl_scan sl))) = limit \<or> int personal_scan_item_limit \<le> int k"
    by (auto simp: loop_exact_def)
  have "sn_scanned (sl_scan sl) = int k" using k(1,2) by (simp add: scanned_to_def)
  with k(1,3) assms(2,3) have "k = length (sl_fetched sl)" by auto
  with k(2) have all: "scanned_to (lq_rewrite env) exclude (pq_start pq) (sl_scan sl) (sl_fetched sl)" by simp
  show ?thesis
  proof (cases "extract_items doc = []")
    case True
    with assms(1) a show ?thesis by (simp add: scan_page_def Let_def loop_exact_def)
  next
    case False
    from scan_batch_exact [OF all assms(3), of "extract_items doc"] obtain n where n: "n \<le> length (extract_items doc)"
      "scanned_to (lq_rewrite env) exclude (pq_start pq)
        (scan_batch (lq_rewrite env) exclude (pq_start pq) limit (extract_items doc) (sl_scan sl))
        (sl_fetched sl @ take n (extract_items doc))"
      "int (length (sn_items (scan_batch (lq_rewrite env) exclude (pq_start pq) limit (extract_items doc) (sl_scan sl)))) \<le> limit"
      "n < length (extract_items doc) \<longrightarrow>
        int (length (sn_items (scan_batch (lq_rewrite env) exclude (pq_start pq) limit (extract_items doc) (sl_scan sl)))) = limit \<or>
        int personal_scan_item_limit \<le> int (length (sl_fetched sl) + n)" by blast
    have "sl_start sl = int (length (sl_fetched sl))" using assms(1) by (simp add: loop_exact_def)
    with n False a show ?thesis
      unfolding loop_exact_def
      by (intro conjI exI [of _ "length (sl_fetched sl) + n"]) (auto simp: scan_page_def Let_def)
  qed
qed


text \<open>Why the loop stopped: enough items, enough scanned, or a short page.\<close>

definition loop_over :: "list_env \<Rightarrow> int \<Rightarrow> int \<Rightarrow> scan_loop \<Rightarrow> bool" where
  "loop_over env limit batch_limit sl \<longleftrightarrow>
     int (length (sn_items (sl_scan sl))) \<ge> limit \<or> sn_scanned (sl_scan sl) \<ge> int personal_scan_item_limit \<or>
     (\<exists>start answer. lq_page env start batch_limit = Some answer \<and>
        start + int (length (extract_items (fst answer))) = sl_start sl \<and>
        (extract_items (fst answer) = [] \<or> int (length (extract_items (fst answer))) < batch_limit))"

lemma scan_pages_exact:
  "loop_exact env exclude pq limit sl \<Longrightarrow>
     scan_pages ops env exclude pq limit batch_limit sl st = (Some sl', st') \<Longrightarrow>
     loop_exact env exclude pq limit sl' \<and> loop_over env limit batch_limit sl'"
proof (induction "nat (int personal_scan_item_limit - sn_scanned (sl_scan sl))" arbitrary: sl st rule: less_induct)
  case less
  show ?case
  proof (cases "sn_scanned (sl_scan sl) < int personal_scan_item_limit \<and> int (length (sn_items (sl_scan sl))) < limit")
    case False
    with less.prems(2) have "sl' = sl" by (subst (asm) scan_pages.simps) (auto split: if_splits)
    with less.prems(1) False show ?thesis by (auto simp: loop_over_def)
  next
    case go: True
    with less.prems(2) obtain answer where a: "lq_page env (sl_start sl) batch_limit = Some answer"
      by (subst (asm) scan_pages.simps) (auto split: option.splits)
    obtain sl1 st1 where p: "scan_page ops env exclude pq limit answer sl st = (sl1, st1)" by fastforce
    have exact: "loop_exact env exclude pq limit sl1"
      using scan_page_exact [OF less.prems(1), of ops answer st] go p by simp
    let ?batch = "extract_items (fst answer)"
    show ?thesis
    proof (cases "?batch = [] \<or> int (length ?batch) < batch_limit")
      case True
      with less.prems(2) go a p have "sl' = sl1"
        by (subst (asm) scan_pages.simps) (auto simp: Let_def)
      moreover have "sl_start sl + int (length ?batch) = sl_start sl1"
        using p by (cases answer) (auto simp: scan_page_def Let_def split: if_splits)
      ultimately show ?thesis using exact a True unfolding loop_over_def by blast
    next
      case False
      then have "sn_scanned (sl_scan sl1) > sn_scanned (sl_scan sl)"
        using p by (auto simp: scan_page_def Let_def scan_batch_progress split: prod.splits)
      moreover have "scan_pages ops env exclude pq limit batch_limit sl1 st1 = (Some sl', st')"
        using less.prems(2) go a p False by (subst (asm) scan_pages.simps) (auto simp: Let_def)
      ultimately show ?thesis using less.hyps [of sl1 st1] go exact by simp
    qed
  qed
qed

text \<open>
  C34: a list filtered by what the user did not do is a page of what the upstream lists: of the
  items fetched, in the order of the upstream, the items with excluded ids are left out, the first
  \<open>StartIndex\<close> of the others are passed over, and the rest is listed up to the limit. It is shorter
  than the limit only if the scan limit was reached or the upstream's pages ended. The items are
  the exact prefix: what was fetched and not listed was not looked at, or excluded, or passed over.
\<close>

theorem negative_scan_exact:
  assumes "scan_pages ops env exclude pq limit batch_limit empty_scan st = (Some sl, st')" and "1 \<le> limit"
  shows "\<exists>k \<le> length (sl_fetched sl).
    sn_items (sl_scan sl) =
      map (lq_rewrite env \<circ> JObject) (drop (nat (pq_start pq)) (visible_items exclude (take k (sl_fetched sl)))) \<and>
    int (length (sn_items (sl_scan sl))) \<le> limit \<and>
    (k < length (sl_fetched sl) \<longrightarrow>
       int (length (sn_items (sl_scan sl))) = limit \<or> int personal_scan_item_limit \<le> int k) \<and>
    loop_over env limit batch_limit sl"
proof -
  have "loop_exact env exclude pq limit empty_scan"
    using assms(2) by (simp add: loop_exact_def empty_scan_def scanned_to_def visible_items_def)
  from scan_pages_exact [OF this assms(1)] show ?thesis
    by (auto simp: loop_exact_def scanned_to_def)
qed

theorem negative_scan_exact_witness:
  "\<exists>sl st'. scan_pages memory_ops demo_list_env [''i''] (parse_personal_query [] []) 2 100 empty_scan new_memory_store = (Some sl, st') \<and>
     int (length (sn_items (sl_scan sl))) \<le> 2"
proof -
  have "fst (scan_pages memory_ops demo_list_env [''i''] (parse_personal_query [] []) 2 100 empty_scan new_memory_store) \<noteq> None"
    by code_simp
  then obtain sl st' where s: "scan_pages memory_ops demo_list_env [''i''] (parse_personal_query [] []) 2 100 empty_scan
      new_memory_store = (Some sl, st')" by (metis not_None_eq prod.collapse)
  from negative_scan_exact [OF s] s show ?thesis by auto
qed

section \<open>Sorting\<close>

text \<open>
  The comparison of two items goes by the numeric field when both have it and by their names
  otherwise, so a list in which only some items have the field can have a cycle: its order then
  depends on the order it came in.
\<close>

lemma sort_order_cycles:
  "let item = (\<lambda>name rating. ([(''Name'', JString name)] @ rating, demo_state));
       a = item ''a'' [(''CommunityRating'', JInt 10)]; b = item ''c'' [(''CommunityRating'', JInt 9)]; c = item ''b'' [];
       less = resolved_less (\<lambda>_. None) (\<lambda>_. []) [] 0 [''CommunityRating'']
   in less b a \<and> less a c \<and> less c b"
  by code_simp


section \<open>Latest items\<close>

lemma keep_latest_unplayed:
  "j \<in> set (keep_latest rewrite played n items) \<Longrightarrow>
     \<exists>item. j = rewrite (JObject item) \<and>
       \<not> (string_or_empty item ''Id'' \<noteq> [] \<and> string_or_empty item ''Id'' \<in> set played)"
  by (induction rewrite played n items rule: keep_latest.induct) (auto simp: Let_def split: if_splits)

lemma keep_latest_length: "1 \<le> n \<Longrightarrow> length (keep_latest rewrite played n items) \<le> n"
proof (induction items arbitrary: n)
  case (Cons item items)
  show ?case
  proof (cases "n \<le> 1")
    case True
    with Cons show ?thesis by (auto simp: Let_def)
  next
    case False
    then have "1 \<le> n - 1" by linarith
    from Cons.IH [OF this] False have "Suc (length (keep_latest rewrite played (n - 1) items)) \<le> n" by linarith
    with False Cons.IH [OF Cons.prems] show ?thesis by (auto simp: Let_def)
  qed
qed simp

lemma latest_loop_kept:
  "(\<exists>items. fst res = keep_latest (lq_rewrite env) played (nat limit) items) \<Longrightarrow>
     latest_loop ops env played limit n res st = (Some res', st') \<Longrightarrow>
     \<exists>items. fst res' = keep_latest (lq_rewrite env) played (nat limit) items"
proof (induction "nat (latest_backfill_limit + 1 - n)" arbitrary: n res st rule: less_induct)
  case less
  show ?case
  proof (cases "n \<le> latest_backfill_limit \<and> 0 < n")
    case False
    with less.prems(2) have "res' = res" by (subst (asm) latest_loop.simps) (auto split: if_splits)
    with less.prems(1) show ?thesis by simp
  next
    case go: True
    with less.prems(2) obtain doc status where a: "lq_page env 0 n = Some (doc, status)"
      by (subst (asm) latest_loop.simps) (auto split: option.splits)
    define st1 where "st1 = learn_child_counts ops (lq_now env) (extract_items doc) st"
    define kept where "kept = keep_latest (lq_rewrite env) played (nat limit) (extract_items doc)"
    have e: "(if int (length kept) \<ge> limit \<or> int (length (extract_items doc)) < n then (Some (kept, status), st1)
        else latest_loop ops env played limit (n * 3) (kept, status) st1) = (Some res', st')"
      using less.prems(2) go a by (subst (asm) latest_loop.simps) (auto simp: Let_def st1_def kept_def split: if_splits)
    show ?thesis
    proof (cases "int (length kept) \<ge> limit \<or> int (length (extract_items doc)) < n")
      case True
      with e kept_def show ?thesis by auto
    next
      case False
      with e less.hyps [of "n * 3" "(kept, status)" st1] go kept_def show ?thesis by auto
    qed
  qed
qed

text \<open>
  the latest items are at most as many as asked for, never more than 300, and none of them is
  an item the user has played, as far as the user's states say.
\<close>

theorem latest_lists_unplayed:
  assumes "memory_inv m" and "plain_id (gs_user sess)"
    and "write_latest memory_ops sess env rel q m = (StatusJSON code (JArray items), m')"
  shows "int (length items) \<le> latest_limit q \<and> latest_limit q \<le> 300 \<and>
    (\<forall>j \<in> set items. \<exists>item. j = lq_rewrite env (JObject item) \<and>
       \<not> (\<exists>s. string_or_empty item ''Id'' \<noteq> [] \<and> ps_played s \<and> ps_orphaned s = None \<and>
           find_playback_state (gs_user sess) (string_or_empty item ''Id'') m = Inr s))"
proof -
  let ?played = "playback_state_ids (list_playback_states (gs_user sess) (no_filter\<lparr>fl_played := Some True\<rparr>) m)"
  have l: "1 \<le> latest_limit q" "latest_limit q \<le> 300"
    by (auto simp: latest_limit_def Let_def latest_backfill_limit_def)
  from assms(3) obtain status where "latest_loop memory_ops env ?played (latest_limit q) (latest_limit q) ([], 200) m =
      (Some (items, status), m')"
    by (auto simp: write_latest_def memory_list Let_def split: if_splits prod.splits option.splits)
  moreover have "\<exists>items. fst ([] :: json list, 200 :: int) = keep_latest (lq_rewrite env) ?played (nat (latest_limit q)) items"
    by (intro exI [of _ "[]"]) simp
  ultimately obtain shown where items: "items = keep_latest (lq_rewrite env) ?played (nat (latest_limit q)) shown"
    using latest_loop_kept [of "([], 200)" env ?played "latest_limit q" memory_ops "latest_limit q" m "(items, status)" m']
    unfolding fst_conv by blast
  have played: "i \<in> set ?played"
    if "i \<noteq> []" "ps_played s" "ps_orphaned s = None" "find_playback_state (gs_user sess) i m = Inr s" for i s
  proof -
    have "po_find memory_ops (gs_user sess) i m = Inr (Some s)" using that(4) by (simp add: memory_ops_def)
    from memory.find_key [OF assms(1,2) this] have key: "ps_gateway_user s = gs_user sess" "ps_item s = i" by simp_all
    have "s \<in> snd ` set (ms_states m)"
      using that(4) by (force simp: find_playback_state_def split: option.splits dest: map_of_SomeD)
    with key that(1-3) show ?thesis
      by (auto simp: playback_state_ids_def list_playback_states_def state_matches_def no_filter_def image_iff)
  qed
  have "1 \<le> nat (latest_limit q)" using l by linarith
  then have "length items \<le> nat (latest_limit q)" unfolding items by (rule keep_latest_length)
  with l have "int (length items) \<le> latest_limit q" by linarith
  with l keep_latest_unplayed [of _ "lq_rewrite env" ?played "nat (latest_limit q)" shown] played items
  show ?thesis by blast
qed

theorem latest_lists_unplayed_witness:
  "\<exists>items m'. write_latest memory_ops (demo_session ''u'' ''x'') demo_list_env ''/Users/x/Items/Latest'' [] demo_played_store =
      (StatusJSON 200 (JArray items), m') \<and> length items = 2 \<and> int (length items) \<le> latest_limit []"
proof -
  let ?w = "write_latest memory_ops (demo_session ''u'' ''x'') demo_list_env ''/Users/x/Items/Latest'' [] demo_played_store"
  let ?items = "[JObject [(''Id'', JString ''a'')], JObject [(''Id'', JString ''b'')]]"
  have "fst ?w = StatusJSON 200 (JArray ?items)" by code_simp
  then obtain m' where w: "?w = (StatusJSON 200 (JArray ?items), m')" by (metis prod.collapse)
  have "memory_inv demo_played_store" "plain_id (gs_user (demo_session ''u'' ''x''))"
    by (simp_all add: memory_inv_def new_memory_store_def save_playback_state_def plain_id_def demo_state_def
        fresh_state_def demo_played_store_def demo_session_def)
  from latest_lists_unplayed [OF this w] w show ?thesis by simp
qed

end
