(* ===== verification/Http_Values.thy ===== *)
theory Http_Values
  imports Gateway_Json Gateway_Types
begin

text \<open>
  The parts of \<open>net/url\<close>, \<open>net/http\<close> and \<open>encoding/base64\<close> the gateway's treatment of requests
  rests on: percent escapes, query strings, headers, cookies, runes and unpadded base64url.
  A header is a Go map from canonical names to values. \<open>net/http\<close>'s limit on the number of
  cookies of a request is left out.
\<close>

section \<open>Percent escapes\<close>

definition hex_value :: "char \<Rightarrow> nat option" where
  "hex_value c =
     (let n = of_char c
      in if 48 \<le> n \<and> n \<le> 57 then Some (n - 48)
         else if 97 \<le> n \<and> n \<le> 102 then Some (n - 87)
         else if 65 \<le> n \<and> n \<le> 70 then Some (n - 55)
         else None)"

definition is_hex :: "char \<Rightarrow> bool" where
  "is_hex c \<longleftrightarrow> hex_value c \<noteq> None"

definition hex_digit :: "nat \<Rightarrow> char" where
  "hex_digit n = ''0123456789ABCDEF'' ! n"

text \<open>\<open>url.QueryUnescape\<close> (with \<open>form\<close>) and \<open>url.PathUnescape\<close>: \<open>None\<close> is an \<open>EscapeError\<close>.\<close>

fun unescape :: "bool \<Rightarrow> string \<Rightarrow> string option" where
  "unescape form [] = Some []"
| "unescape form (c # cs) =
     (if c = CHR ''%''
      then (case cs of
              a # b # rest \<Rightarrow>
                (case (hex_value a, hex_value b) of
                   (Some x, Some y) \<Rightarrow> map_option (\<lambda>s. char_of (16 * x + y) # s) (unescape form rest)
                 | _ \<Rightarrow> None)
            | _ \<Rightarrow> None)
      else map_option (\<lambda>s. (if form \<and> c = CHR ''+'' then CHR '' '' else c) # s) (unescape form cs))"

abbreviation query_unescape :: "string \<Rightarrow> string option" where
  "query_unescape \<equiv> unescape True"

abbreviation path_unescape :: "string \<Rightarrow> string option" where
  "path_unescape \<equiv> unescape False"

definition is_alnum :: "char \<Rightarrow> bool" where
  "is_alnum c \<longleftrightarrow> byte_in 48 57 c \<or> byte_in 65 90 c \<or> byte_in 97 122 c"

text \<open>\<open>url.QueryEscape\<close>.\<close>

definition escape_char :: "char \<Rightarrow> string" where
  "escape_char c =
     (if is_alnum c \<or> c \<in> set ''-_.~'' then [c]
      else if c = CHR '' '' then ''+''
      else [CHR ''%'', hex_digit (of_char c div 16), hex_digit (of_char c mod 16)])"

definition query_escape :: "string \<Rightarrow> string" where
  "query_escape s = concat (map escape_char s)"

section \<open>Query strings\<close>

text \<open>
  \<open>url.ParseQuery\<close>: the values that could be read, and whether an error was met. \<open>net/url\<close> reads
  no query of more than 10000 parameters.
\<close>

definition query_part :: "string \<Rightarrow> query_values \<times> bool \<Rightarrow> query_values \<times> bool" where
  "query_part part acc =
     (let (q, failed) = acc
      in if CHR '';'' \<in> set part then (q, True)
         else if part = [] then (q, failed)
         else (let (k, v) = (case cut_char (CHR ''='') part of Some kv \<Rightarrow> kv | None \<Rightarrow> (part, []))
               in case (query_unescape k, query_unescape v) of
                    (Some k, Some v) \<Rightarrow> (AList.update k (query_all q k @ [v]) q, failed)
                  | _ \<Rightarrow> (q, True)))"

definition max_query_params :: nat where "max_query_params = 10000"

definition parse_query :: "string \<Rightarrow> query_values \<times> bool" where
  "parse_query raw =
     (let parts = split_char (CHR ''&'') raw
      in if max_query_params < length parts then ([], True)
         else fold query_part parts ([], False))"

text \<open>\<open>Values.Encode\<close>: the keys in order.\<close>

definition encode_query :: "query_values \<Rightarrow> string" where
  "encode_query q =
     join_with ''&'' (concat (map (\<lambda>k. map (\<lambda>v. query_escape k @ ''='' @ query_escape v) (query_all q k))
       (stable_sort (<) (map fst q))))"

section \<open>Headers\<close>

type_synonym header = "(string, string list) gomap"

definition is_token_byte :: "char \<Rightarrow> bool" where
  "is_token_byte c \<longleftrightarrow> is_alnum c \<or> c \<in> set ''!#$%&*+-.^_`|~'' \<or> c = CHR 0x27"

fun canonical_from :: "bool \<Rightarrow> string \<Rightarrow> string" where
  "canonical_from upper [] = []"
| "canonical_from upper (c # cs) =
     (if upper then upper_char c else lower_char c) # canonical_from (c = CHR ''-'') cs"

text \<open>\<open>http.CanonicalHeaderKey\<close>.\<close>

definition canonical_key :: "string \<Rightarrow> string" where
  "canonical_key k = (if list_all is_token_byte k then canonical_from True k else k)"

definition header_values :: "header \<Rightarrow> string \<Rightarrow> string list" where
  "header_values h k = (case map_of h (canonical_key k) of Some vs \<Rightarrow> vs | None \<Rightarrow> [])"

definition header_get :: "header \<Rightarrow> string \<Rightarrow> string" where
  "header_get h k = (case header_values h k of v # _ \<Rightarrow> v | [] \<Rightarrow> [])"

definition header_set :: "string \<Rightarrow> string \<Rightarrow> header \<Rightarrow> header" where
  "header_set k v h = AList.update (canonical_key k) [v] h"

definition header_add :: "string \<Rightarrow> string \<Rightarrow> header \<Rightarrow> header" where
  "header_add k v h = AList.update (canonical_key k) (header_values h k @ [v]) h"

definition header_del :: "string \<Rightarrow> header \<Rightarrow> header" where
  "header_del k h = AList.delete (canonical_key k) h"

section \<open>Cookies\<close>

definition trim_blank :: "string \<Rightarrow> string" where
  "trim_blank s =
     (let blank = (\<lambda>c. c \<in> {CHR '' '', CHR 0x09, CHR 0x0A, CHR 0x0D})
      in rev (dropWhile blank (rev (dropWhile blank s))))"

definition is_token :: "string \<Rightarrow> bool" where
  "is_token s \<longleftrightarrow> s \<noteq> [] \<and> list_all is_token_byte s"

definition cookie_value :: "string \<Rightarrow> string option" where
  "cookie_value raw =
     (let v = (if 1 < length raw \<and> hd raw = CHR 0x22 \<and> last raw = CHR 0x22 then butlast (tl raw) else raw)
      in if list_all (\<lambda>c. byte_in 0x20 0x7E c \<and> c \<notin> {CHR 0x22, CHR '';'', CHR 0x5C}) v then Some v else None)"

definition read_cookie :: "string \<Rightarrow> (string \<times> string) option" where
  "read_cookie part =
     (let part = trim_blank part
      in if part = [] then None
         else (let (n, v) = (case cut_char (CHR ''='') part of Some nv \<Rightarrow> nv | None \<Rightarrow> (part, []));
                   n = trim_blank n
               in if \<not> is_token n then None else map_option (Pair n) (cookie_value v)))"

text \<open>\<open>Request.Cookies\<close>: names and values.\<close>

definition read_cookies :: "header \<Rightarrow> (string \<times> string) list" where
  "read_cookies h =
     List.map_filter read_cookie (concat (map (split_char (CHR '';'')) (header_values h ''Cookie'')))"

section \<open>Runes\<close>

text \<open>
  The runes of a string as \<open>range\<close> yields them, each as the bytes \<open>WriteRune\<close> writes: an invalid
  byte becomes the replacement character.
\<close>

function runes :: "string \<Rightarrow> string list" where
  "runes s =
     (if s = [] then []
      else (let n = rune_size s; r = take n s
            in (if n = 1 \<and> \<not> byte_in 0 0x7F (hd s) then [CHR 0xEF, CHR 0xBF, CHR 0xBD] else r) # runes (drop n s)))"
  by pat_completeness auto
termination
  by (relation "measure length") (auto simp: rune_size_pos)

declare runes.simps [simp del]

text \<open>A string every rune of which is encoded correctly.\<close>

definition valid_utf8 :: "string \<Rightarrow> bool" where
  "valid_utf8 s \<longleftrightarrow> concat (runes s) = s"

section \<open>Base64\<close>

definition base64_alphabet :: string where
  "base64_alphabet = ''ABCDEFGHIJKLMNOPQRSTUVWXYZabcdefghijklmnopqrstuvwxyz0123456789-_''"

definition base64_digit :: "nat \<Rightarrow> char" where
  "base64_digit n = base64_alphabet ! n"

definition base64_value :: "char \<Rightarrow> nat option" where
  "base64_value c =
     (let n = of_char c
      in if 65 \<le> n \<and> n \<le> 90 then Some (n - 65)
         else if 97 \<le> n \<and> n \<le> 122 then Some (n - 71)
         else if 48 \<le> n \<and> n \<le> 57 then Some (n + 4)
         else if n = 45 then Some 62 else if n = 95 then Some 63 else None)"

text \<open>\<open>RawURLEncoding.EncodeToString\<close>.\<close>

fun base64_encode :: "nat list \<Rightarrow> string" where
  "base64_encode (a # b # c # rest) =
     [base64_digit (a div 4), base64_digit (a mod 4 * 16 + b div 16),
      base64_digit (b mod 16 * 4 + c div 64), base64_digit (c mod 64)] @ base64_encode rest"
| "base64_encode [a, b] =
     [base64_digit (a div 4), base64_digit (a mod 4 * 16 + b div 16), base64_digit (b mod 16 * 4)]"
| "base64_encode [a] = [base64_digit (a div 4), base64_digit (a mod 4 * 16)]"
| "base64_encode [] = []"

fun base64_groups :: "nat list \<Rightarrow> nat list option" where
  "base64_groups (p # q # r # s # rest) =
     map_option (\<lambda>bs. [p * 4 + q div 16, q mod 16 * 16 + r div 4, r mod 4 * 64 + s] @ bs) (base64_groups rest)"
| "base64_groups [p, q, r] = Some [p * 4 + q div 16, q mod 16 * 16 + r div 4]"
| "base64_groups [p, q] = Some [p * 4 + q div 16]"
| "base64_groups [p] = None"
| "base64_groups [] = Some []"

text \<open>
  \<open>RawURLEncoding.DecodeString\<close>: line ends are skipped, other bytes outside the alphabet are an
  error, bits after the last byte are ignored.
\<close>

definition base64_decode :: "string \<Rightarrow> nat list option" where
  "base64_decode s =
     (let ds = map base64_value (filter (\<lambda>c. c \<noteq> CHR 0x0A \<and> c \<noteq> CHR 0x0D) s)
      in if None \<in> set ds then None else base64_groups (map the ds))"


section \<open>Replacing\<close>

text \<open>\<open>strings.ReplaceAll\<close>; the empty string occurs before every rune and at the end.\<close>

function insert_between :: "string \<Rightarrow> string \<Rightarrow> string" where
  "insert_between new s =
     (if s = [] then new else new @ take (rune_size s) s @ insert_between new (drop (rune_size s) s))"
  by pat_completeness auto
termination
  by (relation "measure (length \<circ> snd)") (auto simp: rune_size_pos)

declare insert_between.simps [simp del]

function replace_nonempty :: "string \<Rightarrow> string \<Rightarrow> string \<Rightarrow> string" where
  "replace_nonempty old new s =
     (if old = [] then s
      else if prefix old s then new @ replace_nonempty old new (drop (length old) s)
      else (case s of [] \<Rightarrow> [] | c # cs \<Rightarrow> c # replace_nonempty old new cs))"
  by pat_completeness auto
termination
  by (relation "measure (\<lambda>(old, new, s). length s)") (auto simp: prefix_def)

declare replace_nonempty.simps [simp del]

definition replace_all :: "string \<Rightarrow> string \<Rightarrow> string \<Rightarrow> string" where
  "replace_all old new s = (if old = [] then insert_between new s else replace_nonempty old new s)"

section \<open>Slash-separated paths\<close>

text \<open>\<open>path.Clean\<close>: the segments kept so far, the last one first.\<close>

fun clean_segments :: "bool \<Rightarrow> string list \<Rightarrow> string list \<Rightarrow> string list" where
  "clean_segments rooted kept [] = rev kept"
| "clean_segments rooted kept (seg # segs) =
     (if seg = [] \<or> seg = ''.'' then clean_segments rooted kept segs
      else if seg = ''..''
      then (case kept of
              k # ks \<Rightarrow> if k = ''..'' then clean_segments rooted (''..'' # kept) segs else clean_segments rooted ks segs
            | [] \<Rightarrow> clean_segments rooted (if rooted then [] else [''..'']) segs)
      else clean_segments rooted (seg # kept) segs)"

definition path_clean :: "string \<Rightarrow> string" where
  "path_clean p =
     (if p = [] then ''.''
      else (let rooted = (hd p = CHR ''/'');
                body = join_with ''/'' (clean_segments rooted [] (split_char (CHR ''/'') p))
            in if rooted then CHR ''/'' # body else if body = [] then ''.'' else body))"

text \<open>\<open>path.Join\<close> of two elements, and \<open>path.Dir\<close>.\<close>

definition path_join :: "string \<Rightarrow> string \<Rightarrow> string" where
  "path_join a b =
     (case filter (\<lambda>e. e \<noteq> []) [a, b] of [] \<Rightarrow> [] | es \<Rightarrow> path_clean (join_with ''/'' es))"

definition path_dir :: "string \<Rightarrow> string" where
  "path_dir p = path_clean (rev (dropWhile (\<lambda>c. c \<noteq> CHR ''/'') (rev p)))"

section \<open>Requests\<close>

text \<open>
  What the gateway reads of an \<open>http.Request\<close>: \<open>hr_path\<close> is \<open>URL.Path\<close>, \<open>hr_escaped\<close> is
  \<open>URL.EscapedPath()\<close>, \<open>hr_body\<close> is \<open>None\<close> for a nil body.
\<close>

record http_request =
  hr_method :: string
  hr_path :: string
  hr_escaped :: string
  hr_raw_query :: string
  hr_header :: header
  hr_host :: string
  hr_tls :: bool
  hr_remote_addr :: string
  hr_body :: "string option"

abbreviation request_query :: "http_request \<Rightarrow> query_values" where
  "request_query r \<equiv> fst (parse_query (hr_raw_query r))"

end
