(* ===== verification/Http_Url.thy ===== *)
theory Http_Url
  imports Http_Values
begin

text \<open>
  \<open>net/url\<close>: escaping by component, \<open>url.Parse\<close> and the components of a URL the gateway looks at.
  Whether the text between brackets is an IPv6 address is an argument (\<open>ip6\<close>, decided by
  \<open>net/netip\<close>).
\<close>

section \<open>Escaping\<close>

datatype url_part = UrlPath | UrlHost | UrlZone | UrlUser | UrlFragment

definition should_escape :: "url_part \<Rightarrow> char \<Rightarrow> bool" where
  "should_escape part c =
     (if is_alnum c then False
      else if part \<in> {UrlHost, UrlZone} \<and> (c \<in> set ''!$&()*+,;=:[]<>'' \<or> c = CHR 0x27 \<or> c = CHR 0x22) then False
      else if c \<in> set ''-_.~'' then False
      else if c \<in> set ''$&+,/:;=?@''
      then (case part of
              UrlPath \<Rightarrow> c = CHR ''?''
            | UrlUser \<Rightarrow> c \<in> set ''@/?:''
            | UrlFragment \<Rightarrow> False
            | _ \<Rightarrow> True)
      else if part = UrlFragment \<and> c \<in> set ''!()*'' then False
      else True)"

definition url_escape :: "url_part \<Rightarrow> string \<Rightarrow> string" where
  "url_escape part s =
     concat (map (\<lambda>c. if should_escape part c
       then [CHR ''%'', hex_digit (of_char c div 16), hex_digit (of_char c mod 16)] else [c]) s)"

text \<open>
  In a host only bytes outside ASCII (and \<open>%25\<close>) may be escaped, and only some characters may
  stand unescaped.
\<close>

fun host_bytes_ok :: "url_part \<Rightarrow> string \<Rightarrow> bool" where
  "host_bytes_ok part [] = True"
| "host_bytes_ok part (c # cs) =
     (if c = CHR ''%''
      then (case cs of
              a # b # rest \<Rightarrow>
                (case (hex_value a, hex_value b) of
                   (Some x, Some y) \<Rightarrow>
                     (if part = UrlHost then \<not> (x < 8 \<and> \<not> (a = CHR ''2'' \<and> b = CHR ''5''))
                      else \<not> (\<not> (a = CHR ''2'' \<and> b = CHR ''5'') \<and> 16 * x + y \<noteq> 32 \<and>
                        should_escape UrlHost (char_of (16 * x + y)))) \<and> host_bytes_ok part rest
                 | _ \<Rightarrow> False)
            | _ \<Rightarrow> False)
      else \<not> (byte_in 0 0x7F c \<and> should_escape part c) \<and> host_bytes_ok part cs)"

definition unescape_host :: "url_part \<Rightarrow> string \<Rightarrow> string option" where
  "unescape_host part s = (if host_bytes_ok part s then path_unescape s else None)"

definition valid_encoded :: "url_part \<Rightarrow> string \<Rightarrow> bool" where
  "valid_encoded part s \<longleftrightarrow>
     list_all (\<lambda>c. c \<in> set ''!$&()*+,;=:@[]%'' \<or> c = CHR 0x27 \<or> \<not> should_escape part c) s"

section \<open>URLs\<close>

record url =
  u_scheme :: string
  u_opaque :: string
  u_user :: "(string \<times> string option) option"
  u_host :: string
  u_path :: string
  u_raw_path :: string
  u_force_query :: bool
  u_raw_query :: string
  u_fragment :: string
  u_raw_fragment :: string

definition empty_url :: url where
  "empty_url =
     \<lparr>u_scheme = [], u_opaque = [], u_user = None, u_host = [], u_path = [], u_raw_path = [],
      u_force_query = False, u_raw_query = [], u_fragment = [], u_raw_fragment = []\<rparr>"

text \<open>The part before the last occurrence of a character, and the part after it.\<close>

definition cut_last :: "char \<Rightarrow> string \<Rightarrow> (string \<times> string) option" where
  "cut_last d s = map_option (\<lambda>(a, b). (rev b, rev a)) (cut_char d (rev s))"

text \<open>\<open>getScheme\<close>: an error, or the scheme (empty if there is none) and the rest.\<close>

fun scheme_from :: "string \<Rightarrow> string \<Rightarrow> string \<Rightarrow> (string \<times> string) option" where
  "scheme_from raw seen [] = Some ([], raw)"
| "scheme_from raw seen (c # cs) =
     (if is_letter c then scheme_from raw (seen @ [c]) cs
      else if is_digit c \<or> c \<in> set ''+-.''
      then (if seen = [] then Some ([], raw) else scheme_from raw (seen @ [c]) cs)
      else if c = CHR '':'' then (if seen = [] then None else Some (seen, cs))
      else Some ([], raw))"

definition valid_optional_port :: "string \<Rightarrow> bool" where
  "valid_optional_port p \<longleftrightarrow> p = [] \<or> (hd p = CHR '':'' \<and> list_all is_digit (tl p))"

definition parse_host :: "(string \<Rightarrow> bool) \<Rightarrow> string \<Rightarrow> string option" where
  "parse_host ip6 host =
     (if prefix ''['' host
      then (case cut_last (CHR '']'') host of
              None \<Rightarrow> None
            | Some (inside, port) \<Rightarrow>
                if \<not> valid_optional_port port \<or> \<not> ip6 (tl inside) then None
                else map_option (\<lambda>h. h @ '']'' @ port) (unescape_host UrlZone inside))
      else (case cut_last (CHR '':'') host of
              Some (h, port) \<Rightarrow>
                if \<not> list_all is_digit port \<or> CHR '':'' \<in> set h then None else unescape_host UrlHost host
            | None \<Rightarrow> unescape_host UrlHost host))"

definition valid_userinfo :: "string \<Rightarrow> bool" where
  "valid_userinfo s \<longleftrightarrow> list_all (\<lambda>c. is_alnum c \<or> c \<in> set ''-._:~!$&()*+,;=%@'' \<or> c = CHR 0x27) s"

definition parse_authority ::
  "(string \<Rightarrow> bool) \<Rightarrow> string \<Rightarrow> ((string \<times> string option) option \<times> string) option" where
  "parse_authority ip6 authority =
     (case cut_last (CHR ''@'') authority of
        None \<Rightarrow> map_option (Pair None) (parse_host ip6 authority)
      | Some (info, host) \<Rightarrow>
          (case parse_host ip6 host of
             None \<Rightarrow> None
           | Some h \<Rightarrow>
               if \<not> valid_userinfo info then None
               else (case cut_char (CHR '':'') info of
                       None \<Rightarrow> map_option (\<lambda>u. (Some (u, None), h)) (path_unescape info)
                     | Some (u, p) \<Rightarrow>
                         (case (path_unescape u, path_unescape p) of
                            (Some u, Some p) \<Rightarrow> Some (Some (u, Some p), h)
                          | _ \<Rightarrow> None))))"

definition set_path :: "string \<Rightarrow> url \<Rightarrow> url option" where
  "set_path p u =
     map_option (\<lambda>path. u\<lparr>u_path := path, u_raw_path := (if p = url_escape UrlPath path then [] else p)\<rparr>)
       (path_unescape p)"

definition set_fragment :: "string \<Rightarrow> url \<Rightarrow> url option" where
  "set_fragment f u =
     map_option (\<lambda>frag. u\<lparr>u_fragment := frag, u_raw_fragment := (if f = url_escape UrlFragment frag then [] else f)\<rparr>)
       (path_unescape f)"

text \<open>\<open>url.parse\<close> without the fragment, step by step.\<close>

definition split_query :: "string \<Rightarrow> string \<times> string \<times> bool" where
  "split_query rest =
     (if suffix ''?'' rest \<and> CHR ''?'' \<notin> set (butlast rest) then (butlast rest, [], True)
      else (case cut_char (CHR ''?'') rest of Some (p, q) \<Rightarrow> (p, q, False) | None \<Rightarrow> (rest, [], False)))"

definition parse_hier :: "(string \<Rightarrow> bool) \<Rightarrow> string \<Rightarrow> url \<Rightarrow> url option" where
  "parse_hier ip6 rest u =
     (if prefix ''//'' rest \<and> (u_scheme u \<noteq> [] \<or> \<not> prefix ''///'' rest)
      then (let authority = takeWhile (\<lambda>c. c \<noteq> CHR ''/'') (drop 2 rest);
                path = dropWhile (\<lambda>c. c \<noteq> CHR ''/'') (drop 2 rest)
            in case parse_authority ip6 authority of
                 None \<Rightarrow> None
               | Some (user, host) \<Rightarrow> set_path path (u\<lparr>u_user := user, u_host := host\<rparr>))
      else set_path rest u)"

definition parse_reference :: "(string \<Rightarrow> bool) \<Rightarrow> string \<Rightarrow> url option" where
  "parse_reference ip6 raw =
     (if list_ex (\<lambda>c. byte_in 0 0x1F c \<or> c = CHR 0x7F) raw then None
      else if raw = ''*'' then Some (empty_url\<lparr>u_path := ''*''\<rparr>)
      else (case scheme_from raw [] raw of
              None \<Rightarrow> None
            | Some (scheme, rest) \<Rightarrow>
                (case split_query rest of
                   (rest, query, force) \<Rightarrow>
                     (let u = empty_url\<lparr>u_scheme := to_lower scheme, u_force_query := force, u_raw_query := query\<rparr>
                      in if \<not> prefix ''/'' rest \<and> scheme \<noteq> [] then Some (u\<lparr>u_opaque := rest\<rparr>)
                         else if \<not> prefix ''/'' rest \<and> CHR '':'' \<in> set (takeWhile (\<lambda>c. c \<noteq> CHR ''/'') rest) then None
                         else parse_hier ip6 rest u))))"

definition parse_url :: "(string \<Rightarrow> bool) \<Rightarrow> string \<Rightarrow> url option" where
  "parse_url ip6 raw =
     (case cut_char (CHR ''#'') raw of
        None \<Rightarrow> parse_reference ip6 raw
      | Some (before, frag) \<Rightarrow>
          (case parse_reference ip6 before of
             None \<Rightarrow> None
           | Some u \<Rightarrow> if frag = [] then Some u else set_fragment frag u))"

section \<open>Components\<close>

definition escaped_component :: "url_part \<Rightarrow> string \<Rightarrow> string \<Rightarrow> string" where
  "escaped_component part plain raw =
     (if raw \<noteq> [] \<and> valid_encoded part raw \<and> path_unescape raw = Some plain then raw
      else if part = UrlPath \<and> plain = ''*'' then plain
      else url_escape part plain)"

definition escaped_path :: "url \<Rightarrow> string" where
  "escaped_path u = escaped_component UrlPath (u_path u) (u_raw_path u)"

definition escaped_fragment :: "url \<Rightarrow> string" where
  "escaped_fragment u = escaped_component UrlFragment (u_fragment u) (u_raw_fragment u)"

definition user_string :: "url \<Rightarrow> string" where
  "user_string u =
     (case u_user u of
        None \<Rightarrow> []
      | Some (name, None) \<Rightarrow> url_escape UrlUser name
      | Some (name, Some pw) \<Rightarrow> url_escape UrlUser name @ '':'' @ url_escape UrlUser pw)"

text \<open>\<open>URL.Hostname\<close> and \<open>URL.Port\<close>.\<close>

definition split_host_port :: "string \<Rightarrow> string \<times> string" where
  "split_host_port hostport =
     (let (host, port) =
        (case cut_last (CHR '':'') hostport of
           Some (h, p) \<Rightarrow> if list_all is_digit p then (h, p) else (hostport, [])
         | None \<Rightarrow> (hostport, []))
      in if prefix ''['' host \<and> suffix '']'' host then (butlast (tl host), port) else (host, port))"

abbreviation host_name :: "url \<Rightarrow> string" where
  "host_name u \<equiv> fst (split_host_port (u_host u))"

abbreviation host_port :: "url \<Rightarrow> string" where
  "host_port u \<equiv> snd (split_host_port (u_host u))"

end
