(* ===== verification/Credentials.thy ===== *)
theory Credentials
  imports Http_Values Upstream_Auth
begin

text \<open>
  The credentials of a client in its request (\<open>auth_header.go\<close>, \<open>credential_query.go\<close>): the
  structured authorization header, which token of a request counts, the identity of a client at
  login, the guard against foreign gateway tokens in a query, and the rewriting of the query
  that goes upstream. \<open>HashToken\<close> (SHA-256) is an argument.
\<close>

section \<open>The structured authorization header\<close>

record auth_header =
  ah_scheme :: string
  ah_user_id :: string
  ah_client :: string
  ah_device :: string
  ah_device_id :: string
  ah_version :: string
  ah_token :: string
  ah_fields :: "(string, string) gomap"

definition empty_auth_header :: auth_header where
  "empty_auth_header =
     \<lparr>ah_scheme = [], ah_user_id = [], ah_client = [], ah_device = [], ah_device_id = [], ah_version = [],
      ah_token = [], ah_fields = []\<rparr>"

abbreviation quote :: char where
  "quote \<equiv> CHR 0x22"

fun split_fields_from :: "bool \<Rightarrow> string \<Rightarrow> string list \<Rightarrow> string list" where
  "split_fields_from in_quote current [] = (let part = trim_space current in if part \<noteq> [] then [part] else [])"
| "split_fields_from in_quote current (r # rs) =
     (if r = [quote] then split_fields_from (\<not> in_quote) (current @ r) rs
      else if r = '','' then
        (if in_quote then split_fields_from in_quote (current @ r) rs
         else (let part = trim_space current
               in (if part \<noteq> [] then [part] else []) @ split_fields_from in_quote [] rs))
      else split_fields_from in_quote (current @ r) rs)"

definition split_header_fields :: "string \<Rightarrow> string list" where
  "split_header_fields s = split_fields_from False [] (runes s)"

definition set_auth_field :: "string \<Rightarrow> auth_header \<Rightarrow> auth_header" where
  "set_auth_field part h =
     (case cut_char (CHR ''='') part of
        None \<Rightarrow> h
      | Some (key, val) \<Rightarrow>
          (let key = trim_space key; val = trim_char quote (trim_space val);
               h = h\<lparr>ah_fields := AList.update key val (ah_fields h)\<rparr>; name = to_lower key
           in if name = ''userid'' then h\<lparr>ah_user_id := val\<rparr>
              else if name = ''client'' then h\<lparr>ah_client := val\<rparr>
              else if name = ''device'' then h\<lparr>ah_device := val\<rparr>
              else if name = ''deviceid'' then h\<lparr>ah_device_id := val\<rparr>
              else if name = ''version'' then h\<lparr>ah_version := val\<rparr>
              else if name = ''token'' then h\<lparr>ah_token := val\<rparr>
              else h))"

definition parse_emby_auth_header :: "string \<Rightarrow> auth_header" where
  "parse_emby_auth_header value =
     (let value = trim_space value
      in if value = [] then empty_auth_header
         else (case cut_char (CHR '' '') value of
                 None \<Rightarrow> empty_auth_header\<lparr>ah_scheme := value\<rparr>
               | Some (scheme, tail) \<Rightarrow>
                   fold set_auth_field (split_header_fields tail) (empty_auth_header\<lparr>ah_scheme := scheme\<rparr>)))"

definition set_nonempty :: "string \<Rightarrow> string \<Rightarrow> (string, string) gomap \<Rightarrow> (string, string) gomap" where
  "set_nonempty k v m = (if v = [] then m else AList.update k v m)"

definition auth_header_string :: "auth_header \<Rightarrow> string" where
  "auth_header_string h =
     (let scheme = (if ah_scheme h = [] then ''Emby'' else ah_scheme h);
          fs = set_nonempty ''Token'' (ah_token h) (set_nonempty ''Version'' (ah_version h)
            (set_nonempty ''DeviceId'' (ah_device_id h) (set_nonempty ''Device'' (ah_device h)
              (set_nonempty ''Client'' (ah_client h) (set_nonempty ''UserId'' (ah_user_id h) (ah_fields h))))));
          part = (\<lambda>k. k @ ''='' @ [quote] @ filter (\<lambda>c. c \<noteq> quote) (the (map_of fs k)) @ [quote])
      in scheme @ '' '' @ join_with '', '' (map part (stable_sort (<) (map fst fs))))"

section \<open>The token of a request\<close>

datatype token_source =
    TokenSourceNone | TokenSourceTokenHeader | TokenSourceAuthHeader | TokenSourceStrictQuery | TokenSourceGenericQuery

record credential =
  cr_token :: string
  cr_source :: token_source
  cr_query_key :: string

definition no_credential :: credential where
  "no_credential = \<lparr>cr_token = [], cr_source = TokenSourceNone, cr_query_key = []\<rparr>"

definition strict_query_auth_keys :: "string list" where
  "strict_query_auth_keys = [''api_key'', ''access_token'', ''X-Emby-Token'']"

definition generic_query_auth_key :: string where
  "generic_query_auth_key = ''token''"

text \<open>The first value that is not blank, trimmed; empty when there is none.\<close>

fun first_nonblank :: "string list \<Rightarrow> string" where
  "first_nonblank [] = []"
| "first_nonblank (v # vs) = (let t = trim_space v in if t \<noteq> [] then t else first_nonblank vs)"

abbreviation first_header :: "header \<Rightarrow> string \<Rightarrow> string" where
  "first_header h name \<equiv> first_nonblank (header_values h name)"

definition emby_auth_header_token :: "string \<Rightarrow> string option" where
  "emby_auth_header_token value =
     (let auth = parse_emby_auth_header value; token = trim_space (ah_token auth)
      in if token = [] then None
         else if \<not> equal_fold (ah_scheme auth) ''Emby'' \<and> \<not> equal_fold (ah_scheme auth) ''MediaBrowser'' then None
         else Some token)"

definition token_header_names :: "string list" where
  "token_header_names = [''X-Emby-Token'', ''X-MediaBrowser-Token'']"

definition auth_header_names :: "string list" where
  "auth_header_names = [''X-Emby-Authorization'', ''Authorization'']"

definition extract_credential :: "http_request \<Rightarrow> credential" where
  "extract_credential r =
     (let h = hr_header r; q = request_query r
      in case find (\<lambda>name. first_header h name \<noteq> []) token_header_names of
           Some name \<Rightarrow> \<lparr>cr_token = first_header h name, cr_source = TokenSourceTokenHeader, cr_query_key = []\<rparr>
         | None \<Rightarrow>
             (case find (\<lambda>name. first_header h name \<noteq> []) auth_header_names of
                Some name \<Rightarrow>
                  (case emby_auth_header_token (first_header h name) of
                     Some token \<Rightarrow> \<lparr>cr_token = token, cr_source = TokenSourceAuthHeader, cr_query_key = []\<rparr>
                   | None \<Rightarrow> no_credential)
              | None \<Rightarrow>
                  (case find (\<lambda>key. first_nonblank (query_all q key) \<noteq> []) strict_query_auth_keys of
                     Some key \<Rightarrow>
                       \<lparr>cr_token = first_nonblank (query_all q key), cr_source = TokenSourceStrictQuery, cr_query_key = key\<rparr>
                   | None \<Rightarrow>
                       (let token = first_nonblank (query_all q generic_query_auth_key)
                        in if token \<noteq> []
                           then \<lparr>cr_token = token, cr_source = TokenSourceGenericQuery,
                                 cr_query_key = generic_query_auth_key\<rparr>
                           else no_credential))))"

definition extract_token :: "http_request \<Rightarrow> string" where
  "extract_token r = cr_token (extract_credential r)"

section \<open>The client at login\<close>

record login_identity =
  li_client :: string
  li_device :: string
  li_device_id :: string
  li_version :: string

definition decode_device_name :: "string \<Rightarrow> string" where
  "decode_device_name raw =
     (let raw = trim_space raw
      in if raw = [] then []
         else (case query_unescape raw of Some d \<Rightarrow> trim_space d | None \<Rightarrow> raw))"

text \<open>The first that is not empty.\<close>

definition first_of :: "string list \<Rightarrow> string" where
  "first_of vs = (case find (\<lambda>v. v \<noteq> []) vs of Some v \<Rightarrow> v | None \<Rightarrow> [])"

definition extract_client_identity :: "http_request \<Rightarrow> login_identity" where
  "extract_client_identity r =
     (let h = hr_header r; q = request_query r;
          chosen = first_of (map (first_header h) auth_header_names);
          auth = (if chosen \<noteq> [] then parse_emby_auth_header chosen else empty_auth_header)
      in \<lparr>li_client = first_of [trim_space (ah_client auth), trim_space (first_header h ''X-Emby-Client''),
            first_nonblank (query_all q ''X-Emby-Client'')],
          li_device = first_of [decode_device_name (ah_device auth),
            decode_device_name (first_header h ''X-Emby-Device-Name''),
            first_nonblank (query_all q ''X-Emby-Device-Name'')],
          li_device_id = first_of [trim_space (ah_device_id auth), trim_space (first_header h ''X-Emby-Device-Id''),
            first_nonblank (query_all q ''X-Emby-Device-Id'')],
          li_version = first_of [trim_space (ah_version auth), trim_space (first_header h ''X-Emby-Client-Version''),
            first_nonblank (query_all q ''X-Emby-Client-Version'')]\<rparr>)"

section \<open>Credentials in the query\<close>

datatype query_error = MalformedQuery | CredentialConflict | CredentialStore

definition is_strict_query_auth_key :: "string \<Rightarrow> bool" where
  "is_strict_query_auth_key key \<longleftrightarrow> key = ''api_key'' \<or> key = ''access_token'' \<or> key = ''X-Emby-Token''"

definition is_gateway_shaped_token :: "string \<Rightarrow> bool" where
  "is_gateway_shaped_token token \<longleftrightarrow>
     length token = 43 \<and>
     (case base64_decode token of
        None \<Rightarrow> False
      | Some decoded \<Rightarrow> length decoded = 32 \<and> base64_encode decoded = token)"

definition validate_raw_query :: "string \<Rightarrow> query_error option" where
  "validate_raw_query raw = (if snd (parse_query raw) then Some MalformedQuery else None)"

definition accepts_client_credentials :: "string \<Rightarrow> string \<Rightarrow> bool" where
  "accepts_client_credentials me rel \<longleftrightarrow>
     (if me = ''POST'' \<and> equal_path rel ''/Users/AuthenticateByName'' then False
      else if me = ''GET'' \<and> equal_path rel ''/System/Info/Public'' then False
      else if (me = ''GET'' \<or> me = ''POST'') \<and> equal_path rel ''/System/Ping'' then False
      else if me = ''GET'' \<and> equal_path rel ''/Users/Public'' then False
      else if me = ''GET'' \<and> equal_path rel ''/Branding/Configuration'' then False
      else if me = ''GET'' \<and> equal_path rel ''/Branding/Css.css'' then False
      else True)"

text \<open>The loop of \<open>guardGenericQueryTokens\<close>: the distinct gateway-shaped tokens, or a conflict.\<close>

fun shaped_tokens :: "string \<Rightarrow> string list \<Rightarrow> string list \<Rightarrow> query_error + string list" where
  "shaped_tokens gateway_token shaped [] = Inr shaped"
| "shaped_tokens gateway_token shaped (v # vs) =
     (let token = trim_space v
      in if token = [] \<or> token = gateway_token then shaped_tokens gateway_token shaped vs
         else if \<not> is_gateway_shaped_token token then shaped_tokens gateway_token shaped vs
         else if token \<in> set shaped then shaped_tokens gateway_token shaped vs
         else if 1 < length (shaped @ [token]) then Inl CredentialConflict
         else shaped_tokens gateway_token (shaped @ [token]) vs)"

text \<open>\<open>exists\<close> is \<open>SessionTokenExists\<close> for the hash of a token.\<close>

definition guard_generic_query_tokens ::
  "(string \<Rightarrow> gw_error + bool) \<Rightarrow> string list \<Rightarrow> string \<Rightarrow> query_error option" where
  "guard_generic_query_tokens exists vs gateway_token =
     (case shaped_tokens gateway_token [] vs of
        Inl err \<Rightarrow> Some err
      | Inr [] \<Rightarrow> None
      | Inr (t # _) \<Rightarrow>
          (case exists t of Inl _ \<Rightarrow> Some CredentialStore | Inr True \<Rightarrow> Some CredentialConflict | Inr False \<Rightarrow> None))"

definition guard_proxy_query_credentials ::
  "(string \<Rightarrow> gw_error + bool) \<Rightarrow> string \<Rightarrow> string \<Rightarrow> query_error option" where
  "guard_proxy_query_credentials exists raw gateway_token =
     (case parse_query raw of
        (q, failed) \<Rightarrow>
          if failed then Some MalformedQuery
          else guard_generic_query_tokens exists (query_all q generic_query_auth_key) gateway_token)"

definition rewrite_query_value :: "string \<Rightarrow> session \<Rightarrow> request_snapshot \<Rightarrow> string \<Rightarrow> string" where
  "rewrite_query_value gateway_token s upstream val =
     (if gateway_token \<noteq> [] \<and> val = gateway_token then rs_token upstream
      else if val = gs_synthetic_user s then rs_user_id upstream
      else val)"

definition rewrite_strict_key :: "request_snapshot \<Rightarrow> string \<Rightarrow> query_values \<Rightarrow> query_values" where
  "rewrite_strict_key upstream key q =
     (let vs = query_all q key
      in if vs = [] then q
         else AList.update key (map (\<lambda>v. if trim_space v \<noteq> [] then rs_token upstream else v) vs) q)"

definition rewrite_proxy_query_values ::
  "query_values \<Rightarrow> string \<Rightarrow> session \<Rightarrow> request_snapshot \<Rightarrow> query_values" where
  "rewrite_proxy_query_values q gateway_token s upstream =
     fold (rewrite_strict_key upstream) strict_query_auth_keys
       (map (\<lambda>(k, vs). (k, map (rewrite_query_value gateway_token s upstream) vs)) q)"

definition credential_query_status :: "query_error \<Rightarrow> int" where
  "credential_query_status err =
     (case err of CredentialStore \<Rightarrow> 503 | MalformedQuery \<Rightarrow> 400 | CredentialConflict \<Rightarrow> 400)"

section \<open>Opaque tokens\<close>

text \<open>\<open>NewOpaqueToken\<close> (\<open>token.go\<close>): \<open>random\<close> is what \<open>rand.Read\<close> fills in, \<open>None\<close> if it fails.\<close>

definition new_opaque_token :: "(string \<Rightarrow> string) \<Rightarrow> nat list option \<Rightarrow> (string \<times> string) option" where
  "new_opaque_token hash random = map_option (\<lambda>b. let token = base64_encode b in (token, hash token)) random"

end
