(* ===== verification/Response_Rewrite.thy ===== *)
theory Response_Rewrite
  imports Http_Url Credentials
begin

text \<open>
  What the gateway does to the upstream's answers (\<open>response_url.go\<close> and the rewriting functions of
  \<open>server.go\<close>): references to media, playlists and locations are moved under the gateway's base
  and get the client's token, references that still hold the upstream's token are dropped; JSON
  values, bodies and headers have the upstream's token and identifiers replaced.
\<close>

section \<open>Whose answer, for whom\<close>

text \<open>
  The arguments the rewriting functions share: the session, the upstream, the client's token (empty
  when a cookie authenticated), the public base and the server id of the gateway, and \<open>ip6\<close>.
\<close>

record rewrite_env =
  rw_ip6 :: "string \<Rightarrow> bool"
  rw_session :: "session option"
  rw_upstream :: request_snapshot
  rw_token :: string
  rw_base :: string
  rw_server_id :: string

abbreviation rw_parse :: "rewrite_env \<Rightarrow> string \<Rightarrow> url option" where
  "rw_parse e \<equiv> parse_url (rw_ip6 e)"

abbreviation backend_token :: "rewrite_env \<Rightarrow> string" where
  "backend_token e \<equiv> rs_token (rw_upstream e)"

definition rw_synthetic :: "rewrite_env \<Rightarrow> string" where
  "rw_synthetic e = (case rw_session e of Some s \<Rightarrow> gs_synthetic_user s | None \<Rightarrow> [])"

section \<open>References that must not be shown\<close>

definition has_url_controls :: "string \<Rightarrow> bool" where
  "has_url_controls v \<longleftrightarrow> contains_any v [CHR 0x0D, CHR 0x0A]"

fun has_malformed_percent_escape :: "string \<Rightarrow> bool" where
  "has_malformed_percent_escape [] = False"
| "has_malformed_percent_escape (c # cs) =
     (if c \<noteq> CHR ''%'' then has_malformed_percent_escape cs
      else (case cs of
              a # b # rest \<Rightarrow> if \<not> is_hex a \<or> \<not> is_hex b then True else has_malformed_percent_escape rest
            | _ \<Rightarrow> True))"

definition decoded_url_component :: "string \<Rightarrow> string" where
  "decoded_url_component v =
     (case query_unescape v of
        Some d \<Rightarrow> d
      | None \<Rightarrow> (case path_unescape v of Some d \<Rightarrow> d | None \<Rightarrow> v))"

definition contains_backend_token :: "(string \<Rightarrow> bool) \<Rightarrow> string \<Rightarrow> string \<Rightarrow> bool" where
  "contains_backend_token ip6 v token =
     (if token = [] then False
      else if contains v token \<or> contains (decoded_url_component v) token then True
      else (case parse_url ip6 v of
              None \<Rightarrow> False
            | Some u \<Rightarrow>
                list_ex (\<lambda>part. contains part token \<or> contains (decoded_url_component part) token)
                  [escaped_path u, u_raw_query u, escaped_fragment u, user_string u]))"

definition unsafe_reference :: "(string \<Rightarrow> bool) \<Rightarrow> string \<Rightarrow> string \<Rightarrow> bool" where
  "unsafe_reference ip6 v token \<longleftrightarrow>
     has_url_controls v \<or> has_malformed_percent_escape v \<or> contains_backend_token ip6 v token"

definition safe_output :: "(string \<Rightarrow> bool) \<Rightarrow> string \<Rightarrow> string \<Rightarrow> string" where
  "safe_output ip6 v token = (if unsafe_reference ip6 v token then [] else v)"

abbreviation safe :: "rewrite_env \<Rightarrow> string \<Rightarrow> string" where
  "safe e v \<equiv> safe_output (rw_ip6 e) v (backend_token e)"

section \<open>Which paths are media, and whose\<close>

definition normalized_port :: "url \<Rightarrow> string" where
  "normalized_port u =
     (if host_port u \<noteq> [] then host_port u
      else if to_lower (u_scheme u) = ''http'' then ''80''
      else if to_lower (u_scheme u) = ''https'' then ''443''
      else [])"

definition same_origin :: "url \<Rightarrow> url \<Rightarrow> bool" where
  "same_origin a b \<longleftrightarrow>
     equal_fold (u_scheme a) (u_scheme b) \<and> equal_fold (host_name a) (host_name b) \<and>
     normalized_port a = normalized_port b"

abbreviation trim_slash :: "string \<Rightarrow> string" where
  "trim_slash \<equiv> trim_right_char (CHR ''/'')"

definition media_path_after_prefix :: "string \<Rightarrow> string \<Rightarrow> string option" where
  "media_path_after_prefix escaped pre =
     (let pre = trim_slash pre;
          rest = (if pre = [] then Some escaped
                  else if prefix (to_lower pre @ ''/'') (to_lower escaped) then Some (drop (length pre) escaped)
                  else None)
      in case rest of
           None \<Rightarrow> None
         | Some path \<Rightarrow>
             (let parts = split_char (CHR ''/'') (trim_prefix path ''/'')
              in if length parts < 3 \<or>
                    \<not> equal_fold (parts ! 0) ''Videos'' \<and> \<not> equal_fold (parts ! 0) ''Audio'' \<or> parts ! 1 = []
                 then None else Some (CHR ''/'' # join_with ''/'' parts)))"

text \<open>The first answer of a list of attempts.\<close>

fun first_some :: "('a \<Rightarrow> 'b option) \<Rightarrow> 'a list \<Rightarrow> 'b option" where
  "first_some f [] = None"
| "first_some f (x # xs) = (case f x of Some y \<Rightarrow> Some y | None \<Rightarrow> first_some f xs)"

definition conventional_media_path :: "string \<Rightarrow> string option" where
  "conventional_media_path escaped =
     first_some (media_path_after_prefix escaped) [[], ''/emby'', ''/mediabrowser'']"

definition path_suffix_after_prefix :: "string \<Rightarrow> string \<Rightarrow> string option" where
  "path_suffix_after_prefix escaped pre =
     (let pre = trim_slash pre
      in if pre = [] then (if prefix ''/'' escaped then Some escaped else None)
         else if equal_fold escaped pre then Some ''/''
         else if \<not> prefix (to_lower pre @ ''/'') (to_lower escaped) then None
         else Some (drop (length pre) escaped))"

text \<open>The prefixes without those that occurred before, case aside.\<close>

fun unseen :: "string list \<Rightarrow> string list \<Rightarrow> string list" where
  "unseen seen [] = []"
| "unseen seen (p # ps) =
     (if to_lower p \<in> set seen then unseen seen ps else p # unseen (to_lower p # seen) ps)"

definition configured_origin_suffix :: "rewrite_env \<Rightarrow> url \<Rightarrow> string option" where
  "configured_origin_suffix e u =
     (case rw_parse e (rs_base_url (rw_upstream e)) of
        None \<Rightarrow> None
      | Some backend \<Rightarrow>
          if \<not> same_origin u backend then None
          else (let configured = trim_slash (escaped_path backend); folded = to_lower (escaped_path u)
                in if list_ex (\<lambda>c. prefix c folded \<and> folded \<noteq> c \<and> \<not> prefix (c @ ''/'') folded)
                        [''/emby'', ''/mediabrowser'']
                   then None
                   else first_some (path_suffix_after_prefix (escaped_path u))
                     (unseen [] (if configured = [] then [''/emby'', ''/mediabrowser'', []]
                                 else [configured, ''/emby'', ''/mediabrowser'', []]))))"

definition qualifying_media_path :: "rewrite_env \<Rightarrow> url \<Rightarrow> string option" where
  "qualifying_media_path e u =
     (let path = escaped_path u
      in case (case configured_origin_suffix e u of
                 Some suf \<Rightarrow> media_path_after_prefix suf [] | None \<Rightarrow> None) of
           Some media \<Rightarrow> Some media
         | None \<Rightarrow>
             (case rw_parse e (rw_base e) of
                None \<Rightarrow> conventional_media_path path
              | Some public \<Rightarrow>
                  if same_origin u public
                  then (case media_path_after_prefix path (escaped_path public) of
                          Some media \<Rightarrow> Some media
                        | None \<Rightarrow> conventional_media_path path)
                  else conventional_media_path path))"

definition relative_media_path :: "rewrite_env \<Rightarrow> url \<Rightarrow> string option" where
  "relative_media_path e u =
     (case (case rw_parse e (rw_base e) of
              Some public \<Rightarrow> media_path_after_prefix (escaped_path u) (escaped_path public)
            | None \<Rightarrow> None) of
        Some media \<Rightarrow> Some media
      | None \<Rightarrow> conventional_media_path (escaped_path u))"

definition resolve_relative_path :: "rewrite_env \<Rightarrow> string \<Rightarrow> string \<Rightarrow> string" where
  "resolve_relative_path e ref request_rel =
     (if ref = [] then []
      else (case rw_parse e (rw_base e) of
              None \<Rightarrow> []
            | Some public \<Rightarrow>
                (let base = trim_slash (escaped_path public)
                 in if prefix ''/'' ref
                    then (if base \<noteq> [] \<and> prefix (to_lower base @ ''/'') (to_lower ref) then drop (length base) ref else ref)
                    else path_join (path_dir request_rel) ref)))"

section \<open>The query of an owned reference\<close>

text \<open>One parameter: an error, nothing, or the parameter.\<close>

definition rewrite_owned_part :: "rewrite_env \<Rightarrow> string \<Rightarrow> string option option" where
  "rewrite_owned_part e part =
     (let (key, val) = (case cut_char (CHR ''='') part of Some (k, v) \<Rightarrow> (k, Some v) | None \<Rightarrow> (part, None));
          up = rw_upstream e
      in case query_unescape key of
           None \<Rightarrow> None
         | Some decoded_key \<Rightarrow>
             if is_strict_query_auth_key decoded_key then Some None
             else (case val of
                     None \<Rightarrow> Some (Some part)
                   | Some v \<Rightarrow>
                       (case query_unescape v of
                          None \<Rightarrow> None
                        | Some d \<Rightarrow>
                            Some (Some
                              (if rs_token up \<noteq> [] \<and> d = rs_token up then key @ ''='' @ query_escape (rw_token e)
                               else if rs_user_id up \<noteq> [] \<and> d = rs_user_id up then key @ ''='' @ query_escape (rw_synthetic e)
                               else if rs_server_id up \<noteq> [] \<and> d = rs_server_id up then key @ ''='' @ query_escape (rw_server_id e)
                               else part)))))"

fun rewrite_owned_parts :: "rewrite_env \<Rightarrow> string list \<Rightarrow> string list option" where
  "rewrite_owned_parts e [] = Some []"
| "rewrite_owned_parts e (part # parts) =
     (case rewrite_owned_part e part of
        None \<Rightarrow> None
      | Some None \<Rightarrow> rewrite_owned_parts e parts
      | Some (Some p) \<Rightarrow> map_option ((#) p) (rewrite_owned_parts e parts))"

definition rewrite_owned_query :: "rewrite_env \<Rightarrow> string \<Rightarrow> bool \<Rightarrow> string option" where
  "rewrite_owned_query e raw add_token =
     map_option (\<lambda>out. join_with ''&'' (if add_token \<and> rw_token e \<noteq> [] then out @ [''api_key='' @ query_escape (rw_token e)] else out))
       (rewrite_owned_parts e (if raw = [] then [] else split_char (CHR ''&'') raw))"

definition query_and_fragment :: "url \<Rightarrow> string" where
  "query_and_fragment u =
     (if u_force_query u \<or> u_raw_query u \<noteq> [] then CHR ''?'' # u_raw_query u else []) @
     (if u_fragment u \<noteq> [] then CHR ''#'' # escaped_fragment u else [])"

section \<open>Media references\<close>

definition format_owned_url :: "rewrite_env \<Rightarrow> string \<Rightarrow> url \<Rightarrow> bool \<Rightarrow> string" where
  "format_owned_url e media u absolute =
     (if absolute then trim_slash (rw_base e) @ media @ query_and_fragment u else media @ query_and_fragment u)"

text \<open>An owned path with the rewritten query of \<open>u\<close>; empty when the query cannot be decoded.\<close>

definition owned_reference :: "rewrite_env \<Rightarrow> string \<Rightarrow> url \<Rightarrow> bool \<Rightarrow> bool \<Rightarrow> string" where
  "owned_reference e path u add_token absolute =
     (case rewrite_owned_query e (u_raw_query u) add_token of
        None \<Rightarrow> []
      | Some query \<Rightarrow> safe e (format_owned_url e path (u\<lparr>u_raw_query := query\<rparr>) absolute))"

definition rewrite_media_reference :: "rewrite_env \<Rightarrow> string \<Rightarrow> bool \<Rightarrow> string" where
  "rewrite_media_reference e v absolute =
     (if has_url_controls v then []
      else (case rw_parse e v of
              None \<Rightarrow> []
            | Some u \<Rightarrow>
                if u_scheme u \<noteq> [] then
                  (if u_host u = [] \<or> u_user u \<noteq> None \<or>
                      \<not> equal_fold (u_scheme u) ''http'' \<and> \<not> equal_fold (u_scheme u) ''https'' then safe e v
                   else (case qualifying_media_path e u of
                           Some media \<Rightarrow> owned_reference e media u True absolute
                         | None \<Rightarrow> safe e v))
                else if u_host u \<noteq> [] then safe e v
                else (case relative_media_path e u of
                        Some media \<Rightarrow> owned_reference e media u True absolute
                      | None \<Rightarrow> safe e v)))"

section \<open>Playlists\<close>

definition rewrite_m3u8_reference :: "rewrite_env \<Rightarrow> string \<Rightarrow> string \<Rightarrow> string" where
  "rewrite_m3u8_reference e playlist_rel v =
     (if has_url_controls v then []
      else (case rw_parse e v of
              None \<Rightarrow> []
            | Some u \<Rightarrow>
                if u_host u \<noteq> [] \<and> u_scheme u = [] then safe e v
                else if u_scheme u \<noteq> [] then
                  (if qualifying_media_path e u \<noteq> None then rewrite_media_reference e v True
                   else (case configured_origin_suffix e u of
                           Some path \<Rightarrow> owned_reference e path u True True
                         | None \<Rightarrow> safe e v))
                else (let resolved = resolve_relative_path e (escaped_path u) playlist_rel
                      in if resolved = [] then safe e v else owned_reference e resolved u True True)))"

text \<open>\<open>m3u8URIAttribute.ReplaceAllStringFunc\<close>: every \<open>URI="..."\<close> of a line, from the left.\<close>

definition uri_attribute :: string where
  "uri_attribute = ''URI='' @ [quote]"

function replace_uris :: "(string \<Rightarrow> string) \<Rightarrow> string \<Rightarrow> string" where
  "replace_uris f s =
     (case (if prefix uri_attribute s then cut_char quote (drop (length uri_attribute) s) else None) of
        Some (v, rest) \<Rightarrow> uri_attribute @ f v @ [quote] @ replace_uris f rest
      | None \<Rightarrow> (case s of [] \<Rightarrow> [] | c # cs \<Rightarrow> c # replace_uris f cs))"
  by pat_completeness auto
termination
  by (relation "measure (length \<circ> snd)")
    (auto simp: cut_char_Some_iff uri_attribute_def prefix_def split: if_splits)

declare replace_uris.simps [simp del]

fun split_crlf :: "string \<Rightarrow> string list" where
  "split_crlf [] = [[]]"
| "split_crlf [c] = [[c]]"
| "split_crlf (c # d # rest) =
     (if c = CHR 0x0D \<and> d = CHR 0x0A then [] # split_crlf rest
      else (case split_crlf (d # rest) of [] \<Rightarrow> [[c]] | w # ws \<Rightarrow> (c # w) # ws))"

definition rewrite_m3u8_line :: "rewrite_env \<Rightarrow> string \<Rightarrow> string \<Rightarrow> string" where
  "rewrite_m3u8_line e playlist_rel line =
     (if \<not> prefix ''#'' line then rewrite_m3u8_reference e playlist_rel line
      else replace_uris (rewrite_m3u8_reference e playlist_rel) line)"

definition rewrite_m3u8 :: "rewrite_env \<Rightarrow> string \<Rightarrow> string \<Rightarrow> string" where
  "rewrite_m3u8 e playlist_rel data =
     (if rw_session e = None then data
      else if contains data [CHR 0x0D, CHR 0x0A]
      then join_with [CHR 0x0D, CHR 0x0A] (map (rewrite_m3u8_line e playlist_rel) (split_crlf data))
      else join_with [CHR 0x0A] (map (rewrite_m3u8_line e playlist_rel) (split_char (CHR 0x0A) data)))"

section \<open>Locations\<close>

definition resource_image_parts :: "string list \<Rightarrow> bool" where
  "resource_image_parts parts \<longleftrightarrow>
     (length parts = 4 \<or> length parts = 5) \<and>
     (equal_fold (parts ! 0) ''Items'' \<or> equal_fold (parts ! 0) ''Users'') \<and> parts ! 1 \<noteq> [] \<and>
     equal_fold (parts ! 2) ''Images'' \<and> parts ! 3 \<noteq> [] \<and>
     (length parts = 5 \<longrightarrow> parts ! 4 \<noteq> [] \<and> list_all is_digit (parts ! 4))"

definition is_resource_redirect_path :: "string \<Rightarrow> bool" where
  "is_resource_redirect_path rel \<longleftrightarrow>
     \<not> (length rel < 2 \<or> hd rel \<noteq> CHR ''/'' \<or> contains rel [CHR 0x5C] \<or> has_url_controls rel) \<and>
     (let parts = split_char (CHR ''/'') (tl rel)
      in resource_image_parts parts \<or>
         3 \<le> length parts \<and> (equal_fold (parts ! 0) ''Videos'' \<or> equal_fold (parts ! 0) ''Audio'') \<and> parts ! 1 \<noteq> [] \<or>
         length parts = 3 \<and> equal_fold (parts ! 0) ''Items'' \<and> parts ! 1 \<noteq> [] \<and> equal_fold (parts ! 2) ''Download'')"

definition rewrite_response_location :: "rewrite_env \<Rightarrow> string \<Rightarrow> string \<Rightarrow> string" where
  "rewrite_response_location e request_rel v =
     (if has_url_controls v then []
      else (case rw_parse e v of
              None \<Rightarrow> []
            | Some u \<Rightarrow>
                if u_host u \<noteq> [] \<and> u_scheme u = [] then safe e v
                else if u_scheme u = [] then
                  (let resolved = (if escaped_path u = [] then request_rel
                                   else resolve_relative_path e (escaped_path u) request_rel)
                   in if resolved = [] then [] else owned_reference e resolved u (is_resource_redirect_path resolved) True)
                else if qualifying_media_path e u \<noteq> None then rewrite_media_reference e v True
                else (case configured_origin_suffix e u of
                        Some path \<Rightarrow> owned_reference e path u (is_resource_redirect_path path) True
                      | None \<Rightarrow> safe e v)))"

section \<open>Strings, JSON values, headers\<close>

definition rewrite_string :: "rewrite_env \<Rightarrow> string \<Rightarrow> string" where
  "rewrite_string e s =
     (let up = rw_upstream e;
          s = (if rs_token up \<noteq> [] then replace_all (rs_token up) (rw_token e) s else s);
          s = (if rs_user_id up \<noteq> [] then replace_all (rs_user_id up) (rw_synthetic e) s else s)
      in if rs_server_id up \<noteq> [] then replace_all (rs_server_id up) (rw_server_id e) s else s)"

definition rewrite_bytes :: "rewrite_env \<Rightarrow> string \<Rightarrow> string" where
  "rewrite_bytes e data = (if rw_session e = None then data else rewrite_string e data)"

text \<open>The value of one key of an object, from the value itself and from it rewritten.\<close>

definition rewrite_identifier :: "rewrite_env \<Rightarrow> string \<Rightarrow> string \<Rightarrow> string" where
  "rewrite_identifier e k s =
     (let up = rw_upstream e; name = to_lower k
      in if name = ''accesstoken'' then (if rs_token up \<noteq> [] \<and> s = rs_token up then rw_token e else s)
         else if name = ''serverid'' then (if s = rs_server_id up \<or> s = [] then rw_server_id e else s)
         else if name = ''userid'' then (if rs_user_id up \<noteq> [] \<and> s = rs_user_id up then rw_synthetic e else s)
         else if name = ''id''
         then (if rs_user_id up \<noteq> [] \<and> s = rs_user_id up then rw_synthetic e
               else if s = rs_server_id up then rw_server_id e else s)
         else s)"

definition rewrite_member :: "rewrite_env \<Rightarrow> string \<Rightarrow> json \<Rightarrow> json \<Rightarrow> json" where
  "rewrite_member e k raw rewritten =
     (let media = rw_session e \<noteq> None \<and> (equal_fold k ''DirectStreamUrl'' \<or> equal_fold k ''TranscodingUrl'');
          v = (case raw of JString s \<Rightarrow> if media then JString (rewrite_media_reference e s False) else rewritten
               | _ \<Rightarrow> rewritten)
      in case v of
           JString s \<Rightarrow> if rw_session e \<noteq> None then JString (rewrite_identifier e k s) else v
         | _ \<Rightarrow> v)"

definition set_present :: "string \<Rightarrow> json \<Rightarrow> jobject \<Rightarrow> jobject" where
  "set_present k v obj = (if map_of obj k = None then obj else AList.update k v obj)"

definition set_addresses :: "string \<Rightarrow> jobject \<Rightarrow> jobject" where
  "set_addresses base obj =
     (if base = [] then obj
      else set_present ''LocalAddresses'' (JArray [JString base])
        (set_present ''RemoteAddresses'' (JArray [JString base])
          (set_present ''WanAddress'' (JString base) (set_present ''LocalAddress'' (JString base) obj))))"

primrec rewrite_json :: "rewrite_env \<Rightarrow> json \<Rightarrow> json" where
  "rewrite_json e JNull = JNull"
| "rewrite_json e (JBool b) = JBool b"
| "rewrite_json e (JNumber n) = JNumber n"
| "rewrite_json e (JFloat x) = JFloat x"
| "rewrite_json e (JInt n) = JInt n"
| "rewrite_json e (JString s) = JString (if rw_session e = None then s else rewrite_string e s)"
| "rewrite_json e (JArray xs) = JArray (map (rewrite_json e) xs)"
| "rewrite_json e (JObject kvs) =
     JObject (set_addresses (rw_base e)
       (map2 (\<lambda>(k, raw) (_, new). (k, rewrite_member e k raw new)) kvs (map (map_prod id (rewrite_json e)) kvs)))"

definition is_hop_header :: "string \<Rightarrow> bool" where
  "is_hop_header k \<longleftrightarrow>
     to_lower k \<in> {''connection'', ''proxy-connection'', ''keep-alive'', ''proxy-authenticate'',
       ''proxy-authorization'', ''te'', ''trailer'', ''transfer-encoding'', ''upgrade''}"

definition resource_cookie_name :: string where
  "resource_cookie_name = ''__Secure-EmbyGatewayResource''"

text \<open>One value of the upstream's header: the value for the client, or nothing.\<close>

definition rewrite_response_header :: "rewrite_env \<Rightarrow> string \<Rightarrow> string \<Rightarrow> string \<Rightarrow> string option" where
  "rewrite_response_header e rel k v =
     (if equal_fold k ''Set-Cookie'' \<and> prefix (resource_cookie_name @ ''='') (trim_space v) then None
      else if equal_fold k ''Location'' \<or> equal_fold k ''Content-Location''
      then Some (rewrite_response_location e rel v)
      else Some (rewrite_string e v))"

definition copy_response_headers :: "rewrite_env \<Rightarrow> string \<Rightarrow> header \<Rightarrow> header \<Rightarrow> header" where
  "copy_response_headers e rel dst src =
     fold (\<lambda>(k, vs) dst.
        if is_hop_header k \<or> equal_fold k ''Content-Length'' then dst
        else fold (header_add k) (List.map_filter (rewrite_response_header e rel k) vs) dst) src dst"


end
