(* ===== verification/Resource_Cookies.thy ===== *)
theory Resource_Cookies
  imports Response_Rewrite
begin

text \<open>
  The cookie that authenticates media elements of the web client (\<open>resource_cookie.go\<close>): for which
  requests it counts, which token it carries, what is cached, and how it is kept from the
  upstream. The clock is an argument.
\<close>

section \<open>The cookie\<close>

definition resource_cookie_path :: "string \<Rightarrow> string" where
  "resource_cookie_path base_path =
     (let base = CHR ''/'' # trim_char (CHR ''/'') base_path
      in if base = ''/'' then base else trim_right_char (CHR ''/'') base)"

record set_cookie =
  ck_name :: string
  ck_value :: string
  ck_path :: string
  ck_expires :: time
  ck_max_age :: int

text \<open>\<open>int(d.Seconds())\<close>: \<open>Seconds\<close> is a \<open>float64\<close>, the conversion truncates.\<close>

definition whole_seconds :: "duration \<Rightarrow> int" where
  "whole_seconds d =
     (let sec = (if d < 0 then - ((- d) div second) else d div second); nsec = d - sec * second
      in f64_to_int64 (Fin (fl64 (fl64 (of_int sec) + fl64 (of_int nsec / of_int second)))))"

definition resource_cookie :: "string \<Rightarrow> string \<Rightarrow> time \<Rightarrow> time \<Rightarrow> set_cookie" where
  "resource_cookie base_path token expires now =
     (let max_age = whole_seconds (time_sub expires now)
      in \<lparr>ck_name = resource_cookie_name, ck_value = token, ck_path = resource_cookie_path base_path,
          ck_expires = expires, ck_max_age = (if max_age < 1 then 1 else max_age)\<rparr>)"

definition cleared_resource_cookie :: "string \<Rightarrow> set_cookie" where
  "cleared_resource_cookie base_path =
     \<lparr>ck_name = resource_cookie_name, ck_value = [], ck_path = resource_cookie_path base_path,
      ck_expires = 62135596801 * second, ck_max_age = - 1\<rparr>"

section \<open>Routes the cookie opens\<close>

datatype resource_route_kind = ResourceRouteNone | ResourceRouteImage | ResourceRouteMedia

definition header_has_token :: "header \<Rightarrow> string \<Rightarrow> string \<Rightarrow> bool" where
  "header_has_token h name token \<longleftrightarrow>
     list_ex (\<lambda>v. list_ex (\<lambda>part. equal_fold (trim_space part) token) (split_char (CHR '','') v)) (header_values h name)"

definition is_upgrade_request :: "http_request \<Rightarrow> bool" where
  "is_upgrade_request r \<longleftrightarrow>
     equal_fold (header_get (hr_header r) ''Upgrade'') ''websocket'' \<and>
     header_has_token (hr_header r) ''Connection'' ''upgrade''"

definition canonical_resource_route :: "http_request \<Rightarrow> string \<Rightarrow> bool" where
  "canonical_resource_route r rel \<longleftrightarrow>
     \<not> (length rel < 2 \<or> rel ! 0 \<noteq> CHR ''/'' \<or> rel ! 1 = CHR ''/'' \<or> path_clean rel \<noteq> rel \<or>
        suffix ''/'' rel \<or> contains rel [CHR 0x5C] \<or> has_url_controls rel) \<and>
     (let escaped = to_lower (hr_escaped r)
      in \<not> contains escaped ''%2f'' \<and> \<not> contains escaped ''%5c'' \<and> \<not> contains escaped ''%2e'')"

definition resource_route :: "http_request \<Rightarrow> string \<Rightarrow> resource_route_kind" where
  "resource_route r rel =
     (if hr_method r \<noteq> ''GET'' \<and> hr_method r \<noteq> ''HEAD'' then ResourceRouteNone
      else if is_upgrade_request r then ResourceRouteNone
      else if \<not> canonical_resource_route r rel then ResourceRouteNone
      else (let parts = split_char (CHR ''/'') (tl rel)
            in if resource_image_parts parts then ResourceRouteImage
               else if 3 \<le> length parts \<and>
                 (equal_fold (parts ! 0) ''Videos'' \<or> equal_fold (parts ! 0) ''Audio'') \<and> parts ! 1 \<noteq> []
               then (if list_ex (\<lambda>p. p = []) (drop 2 parts) then ResourceRouteNone else ResourceRouteMedia)
               else if length parts = 3 \<and> equal_fold (parts ! 0) ''Items'' \<and> parts ! 1 \<noteq> [] \<and>
                 equal_fold (parts ! 2) ''Download'' then ResourceRouteMedia
               else ResourceRouteNone))"

section \<open>Credentials next to the cookie\<close>

definition credential_headers :: "string list" where
  "credential_headers = [''X-Emby-Token'', ''X-MediaBrowser-Token'', ''X-Emby-Authorization'', ''Authorization'']"

definition credential_keys :: "string list" where
  "credential_keys = strict_query_auth_keys @ [generic_query_auth_key]"

definition has_explicit_credential_input :: "http_request \<Rightarrow> bool" where
  "has_explicit_credential_input r \<longleftrightarrow>
     list_ex (\<lambda>name. list_ex (\<lambda>v. trim_space v \<noteq> []) (header_values (hr_header r) name)) credential_headers \<or>
     list_ex (\<lambda>key. list_ex (\<lambda>v. trim_space v \<noteq> []) (query_all (request_query r) key)) credential_keys"

definition has_auth_control_occurrence :: "http_request \<Rightarrow> bool" where
  "has_auth_control_occurrence r \<longleftrightarrow>
     list_ex (\<lambda>(k, _). list_ex (equal_fold k) credential_headers) (hr_header r) \<or>
     (case parse_query (hr_raw_query r) of
        (q, failed) \<Rightarrow> failed \<or> list_ex (\<lambda>key. map_of q key \<noteq> None) credential_keys)"

text \<open>
  The scan over the cookies of the name: a second one, or one refused by \<open>bad\<close>, ends it with no
  token.
\<close>

fun scan_cookies :: "(string \<Rightarrow> bool) \<Rightarrow> string \<Rightarrow> (string \<times> string) list \<Rightarrow> string option" where
  "scan_cookies bad token [] = (if token \<noteq> [] then Some token else None)"
| "scan_cookies bad token ((name, val) # cookies) =
     (if name \<noteq> resource_cookie_name then scan_cookies bad token cookies
      else if token \<noteq> [] \<or> bad val then None
      else scan_cookies bad val cookies)"

definition resource_cookie_token :: "http_request \<Rightarrow> string \<Rightarrow> (string \<times> resource_route_kind) option" where
  "resource_cookie_token r rel =
     (let kind = resource_route r rel
      in if kind = ResourceRouteNone \<or> has_explicit_credential_input r then None
         else map_option (\<lambda>t. (t, kind)) (scan_cookies (\<lambda>v. trim_space v = []) [] (read_cookies (hr_header r))))"

definition resource_cookie_token_for_logout :: "http_request \<Rightarrow> string option" where
  "resource_cookie_token_for_logout r = scan_cookies (\<lambda>v. v = []) [] (read_cookies (hr_header r))"

definition resource_cookie_matches :: "http_request \<Rightarrow> string \<Rightarrow> bool" where
  "resource_cookie_matches r token \<longleftrightarrow> resource_cookie_token_for_logout r = Some token"

section \<open>Caching\<close>

definition has_no_store_directive :: "string list \<Rightarrow> bool" where
  "has_no_store_directive vs \<longleftrightarrow>
     list_ex (\<lambda>v. list_ex (\<lambda>d.
        let d = trim_space d; name = (case cut_char (CHR ''='') d of Some (n, _) \<Rightarrow> n | None \<Rightarrow> d)
        in equal_fold (trim_space name) ''no-store'') (split_char (CHR '','') v)) vs"

fun vary_parts :: "string list \<Rightarrow> string list \<Rightarrow> string list" where
  "vary_parts seen [] = []"
| "vary_parts seen (p # ps) =
     (let p = trim_space p
      in if p = [] \<or> to_lower p \<in> set seen then vary_parts seen ps
         else p # vary_parts (to_lower p # seen) ps)"

definition merge_vary_cookie :: "header \<Rightarrow> header" where
  "merge_vary_cookie h =
     (let vs = header_values h ''Vary''
      in if list_ex (\<lambda>v. trim_space v = ''*'') vs then h
         else (let parts = vary_parts [] (concat (map (split_char (CHR '','')) vs));
                   parts = (if list_ex (\<lambda>p. to_lower p = ''cookie'') parts then parts else parts @ [''Cookie''])
               in header_set ''Vary'' (join_with '', '' parts) (header_del ''Vary'' h)))"

definition apply_resource_cache_policy :: "resource_route_kind \<Rightarrow> int \<Rightarrow> header \<Rightarrow> header" where
  "apply_resource_cache_policy kind status h =
     (if kind = ResourceRouteNone then h
      else (let h = merge_vary_cookie h
            in if kind = ResourceRouteImage \<or> status \<noteq> 200 \<and> status \<noteq> 206 \<and> status \<noteq> 304
               then header_set ''Cache-Control'' ''private, no-store'' h
               else if has_no_store_directive (header_values h ''Cache-Control'')
               then header_set ''Cache-Control'' ''private, no-store'' h
               else header_set ''Cache-Control'' ''private'' h))"

section \<open>Keeping cookies of the gateway from the upstream\<close>

definition web_context_cookie_name :: string where
  "web_context_cookie_name = ''EmbyGatewayWebContext''"

text \<open>One part of a \<open>Cookie\<close> header: what is kept of it.\<close>

definition keep_cookie_part :: "string \<Rightarrow> string option" where
  "keep_cookie_part part =
     (let part = trim_space part
      in if (case cut_char (CHR ''='') part of
               Some (name, _) \<Rightarrow> name = resource_cookie_name \<or> name = web_context_cookie_name | None \<Rightarrow> False)
         then None
         else if part \<noteq> [] then Some part else None)"

definition strip_resource_cookie :: "header \<Rightarrow> header" where
  "strip_resource_cookie h =
     (let vs = header_values h ''Cookie''
      in if vs = [] then h
         else (let kept = List.map_filter keep_cookie_part (concat (map (split_char (CHR '';'')) vs));
                   h = header_del ''Cookie'' h
               in if kept \<noteq> [] then header_set ''Cookie'' (join_with ''; '' kept) h else h))"

end
