(* ===== verification/Outgoing_Request.thy ===== *)
theory Outgoing_Request
  imports Resource_Cookies
begin

text \<open>
  The request the gateway sends to the upstream for a client's request (\<open>server.go\<close>) and what a
  redirect to another origin may take along (\<open>proxy_redirect.go\<close>). The record \<open>url\<close> is what
  \<open>url.Parse\<close> made of a URL.
\<close>

section \<open>Headers\<close>

definition copy_request_headers :: "header \<Rightarrow> header" where
  "copy_request_headers src =
     strip_resource_cookie
       (fold (\<lambda>(k, vs) dst.
          if is_hop_header k \<or> equal_fold k ''Content-Length'' \<or> equal_fold k ''Accept-Encoding'' then dst
          else fold (header_add k) vs dst) src [])"

definition backend_auth_header :: "client_identity \<Rightarrow> string \<Rightarrow> string \<Rightarrow> auth_header" where
  "backend_auth_header identity user_id token =
     (let i = with_defaults identity
      in \<lparr>ah_scheme = ''Emby'', ah_user_id = user_id, ah_client = ci_client i, ah_device = ci_device i,
          ah_device_id = ci_device_id i, ah_version = ci_version i, ah_token = token, ah_fields = []\<rparr>)"

definition set_token_header :: "string \<Rightarrow> string \<Rightarrow> header \<Rightarrow> header" where
  "set_token_header token name h = (if header_values h name \<noteq> [] then header_set name token h else h)"

definition rewrite_request_headers :: "request_snapshot \<Rightarrow> header \<Rightarrow> header" where
  "rewrite_request_headers upstream h =
     (let token = rs_token upstream;
          h = fold (set_token_header token) token_header_names (strip_resource_cookie h);
          h = (if header_values h ''X-Emby-Token'' = [] then header_set ''X-Emby-Token'' token h else h);
          identity = with_defaults (rs_identity upstream);
          h = header_set ''User-Agent'' (ci_user_agent identity) h;
          auth = auth_header_string (backend_auth_header identity (rs_user_id upstream) token);
          h = header_set ''X-Emby-Authorization'' auth h
      in if header_values h ''Authorization'' \<noteq> [] then header_set ''Authorization'' auth h else h)"

section \<open>URL and body\<close>

text \<open>\<open>backendURL\<close>: the URL of a relative path at a base; its path is set decoded.\<close>

definition backend_url :: "(string \<Rightarrow> bool) \<Rightarrow> string \<Rightarrow> string \<Rightarrow> url option" where
  "backend_url ip6 base rel =
     (if trim_space base = [] then None
      else map_option (\<lambda>u. u\<lparr>u_path := path_join (trim_right_char (CHR ''/'') (u_path u))
          (CHR ''/'' # trim_left_char (CHR ''/'') rel)\<rparr>) (parse_url ip6 base))"

datatype proxy_url_error = BadBackendUrl | BadQuery

text \<open>
  \<open>proxyURL\<close>. The code prints the URL and parses it again, which gives the same URL; the query is
  kept as its values, \<open>Encode\<close> prints them.
\<close>

definition proxy_url ::
  "(string \<Rightarrow> bool) \<Rightarrow> request_snapshot \<Rightarrow> session \<Rightarrow> string \<Rightarrow> string \<Rightarrow> string \<Rightarrow> proxy_url_error + url \<times> query_values" where
  "proxy_url ip6 upstream s rel raw_query gateway_token =
     (case backend_url ip6 (rs_base_url upstream) rel of
        None \<Rightarrow> Inl BadBackendUrl
      | Some u \<Rightarrow>
          (case parse_query raw_query of
             (q, failed) \<Rightarrow>
               if failed then Inl BadQuery
               else (let q = rewrite_proxy_query_values q gateway_token s upstream
                     in Inr (u\<lparr>u_path := replace_all (gs_synthetic_user s) (rs_user_id upstream) (u_path u),
                         u_raw_query := encode_query q\<rparr>, q))))"

definition rewrite_request_body_data :: "session \<Rightarrow> request_snapshot \<Rightarrow> string \<Rightarrow> string \<Rightarrow> string" where
  "rewrite_request_body_data s upstream gateway_token data =
     replace_all (gs_synthetic_user s) (rs_user_id upstream) (replace_all gateway_token (rs_token upstream) data)"

text \<open>\<open>isRewriteableContentType\<close>; \<open>media_type\<close> is \<open>mime.ParseMediaType\<close>.\<close>

definition is_rewriteable_content_type :: "(string \<Rightarrow> string) \<Rightarrow> string \<Rightarrow> bool" where
  "is_rewriteable_content_type media_type ct \<longleftrightarrow>
     ct = [] \<or>
     (let mt = media_type ct
      in mt = ''application/json'' \<or> suffix ''+json'' mt \<or> prefix ''text/'' mt \<or>
         mt = ''application/x-www-form-urlencoded'')"

datatype body_error = BodyTooLarge

text \<open>
  \<open>rewriteRequestBody\<close>: the body sent, the data kept for a retry, and whether there may be one. A
  body of at most 10 MiB is read.
\<close>

definition rewrite_request_body ::
  "(string \<Rightarrow> string) \<Rightarrow> http_request \<Rightarrow> session \<Rightarrow> request_snapshot \<Rightarrow> string \<Rightarrow>
     body_error + string option \<times> string option \<times> bool" where
  "rewrite_request_body media_type r s upstream gateway_token =
     (case hr_body r of
        None \<Rightarrow> Inr (None, None, True)
      | Some data \<Rightarrow>
          if hr_method r = ''GET'' \<or> hr_method r = ''HEAD'' then Inr (None, None, True)
          else if \<not> is_rewriteable_content_type media_type (header_get (hr_header r) ''Content-Type'')
          then Inr (Some data, None, False)
          else if 10 * 2 ^ 20 < length data then Inl BodyTooLarge
          else Inr (Some (rewrite_request_body_data s upstream gateway_token data), Some data, True))"

section \<open>Redirects\<close>

definition add_token :: "string \<Rightarrow> string list \<Rightarrow> string list" where
  "add_token t ts = (let t = trim_space t in if t = [] then ts else List.insert t ts)"

text \<open>\<open>withRedirectCredentialTokens\<close>: the tokens a request must not take to another origin.\<close>

definition redirect_credential_tokens :: "string list \<Rightarrow> string list \<Rightarrow> string list" where
  "redirect_credential_tokens existing tokens = fold add_token tokens existing"

definition redirect_tokens :: "header \<Rightarrow> string list" where
  "redirect_tokens h =
     fold (\<lambda>(name, vs) ts.
        if equal_fold name ''X-Emby-Token'' \<or> equal_fold name ''X-MediaBrowser-Token'' then fold add_token vs ts
        else if \<not> equal_fold name ''Authorization'' \<and> \<not> equal_fold name ''X-Emby-Authorization'' \<and>
          \<not> equal_fold name ''X-MediaBrowser-Authorization'' then ts
        else fold (\<lambda>v ts.
          let auth = parse_emby_auth_header v
          in if (equal_fold (ah_scheme auth) ''Emby'' \<or> equal_fold (ah_scheme auth) ''MediaBrowser'') \<and> ah_token auth \<noteq> []
             then List.insert (ah_token auth) ts else ts) vs ts) h []"

definition redirect_auth_tokens :: "header \<Rightarrow> string list \<Rightarrow> string list" where
  "redirect_auth_tokens h context_tokens = fold List.insert context_tokens (redirect_tokens h)"

definition is_cross_origin_sensitive_header :: "string \<Rightarrow> bool" where
  "is_cross_origin_sensitive_header name \<longleftrightarrow>
     list_ex (equal_fold name) [''Authorization'', ''Proxy-Authorization'', ''WWW-Authenticate'', ''Proxy-Authenticate'',
       ''Cookie'', ''Cookie2'', ''Referer''] \<or>
     prefix ''x-emby-'' (to_lower name) \<or> prefix ''x-mediabrowser-'' (to_lower name)"

definition sensitive_segment :: "string list \<Rightarrow> string \<Rightarrow> bool" where
  "sensitive_segment tokens segment \<longleftrightarrow>
     (let (name, val) = (case cut_char (CHR ''='') segment of Some (n, v) \<Rightarrow> (n, Some v) | None \<Rightarrow> (segment, None));
          key = (case query_unescape name of Some k \<Rightarrow> k | None \<Rightarrow> name)
      in is_strict_query_auth_key key \<or>
         key = generic_query_auth_key \<and>
         (case val of
            None \<Rightarrow> False
          | Some v \<Rightarrow> (case query_unescape v of Some d \<Rightarrow> d \<in> set tokens | None \<Rightarrow> False)))"

definition remove_sensitive_query_segments :: "string list \<Rightarrow> string \<Rightarrow> string" where
  "remove_sensitive_query_segments tokens raw =
     (let segments = split_char (CHR ''&'') raw
      in if list_ex (sensitive_segment tokens) segments
         then join_with ''&'' (filter (\<lambda>s. \<not> sensitive_segment tokens s) segments) else raw)"

text \<open>A request on its way: headers, URL, whether there is a body, the tokens of its context.\<close>

record hop =
  hop_header :: header
  hop_url :: url
  hop_body :: bool
  hop_tokens :: "string list"

definition sanitize_cross_origin_redirect :: "string list \<Rightarrow> hop \<Rightarrow> hop" where
  "sanitize_cross_origin_redirect tokens req =
     (let u = hop_url req;
          req = req\<lparr>hop_header := filter (\<lambda>(k, _). \<not> is_cross_origin_sensitive_header k) (hop_header req)\<rparr>
      in if u_raw_query u = [] then req
         else req\<lparr>hop_url := u\<lparr>u_raw_query := remove_sensitive_query_segments tokens (u_raw_query u)\<rparr>\<rparr>)"

datatype redirect_error = TooManyRedirects | CrossOriginRedirectBody | ClientRefuses

text \<open>
  \<open>CheckRedirect\<close> of the proxy client: \<open>via\<close> are the requests made so far, \<open>original\<close> the check of
  the configured client (\<open>None\<close>: it has none).
\<close>

definition check_redirect :: "(hop \<Rightarrow> hop list \<Rightarrow> bool) option \<Rightarrow> hop \<Rightarrow> hop list \<Rightarrow> redirect_error + hop" where
  "check_redirect original req via =
     (let err = (case original of
            Some ok \<Rightarrow> if \<not> ok req via then Some ClientRefuses else None
          | None \<Rightarrow> if 10 \<le> length via then Some TooManyRedirects else None)
      in case err of
           Some err \<Rightarrow> Inl err
         | None \<Rightarrow>
             (case via of
                [] \<Rightarrow> Inr req
              | first # _ \<Rightarrow>
                  if same_origin (hop_url req) (hop_url first) then Inr req
                  else if hop_body req then Inl CrossOriginRedirectBody
                  else Inr (sanitize_cross_origin_redirect
                    (redirect_auth_tokens (hop_header first) (hop_tokens first)) req)))"

end
