(* ===== verification/Credential_Theorems.thy ===== *)
theory Credential_Theorems
  imports Outgoing_Request
begin

text \<open>
  Properties of the credentials of requests: what has the shape of a gateway token, that no other
  session's token goes upstream in a query, when the resource cookie counts, what headers and
  query the upstream gets, and what a redirect to another origin may take along.
\<close>

section \<open>Base64\<close>

lemma base64_alphabet_values: "map base64_value base64_alphabet = map Some [0..<64]"
  by (simp add: base64_alphabet_def base64_value_def upt_rec)

lemma base64_value_digit [simp]: "n < 64 \<Longrightarrow> base64_value (base64_digit n) = Some n"
proof -
  assume n: "n < 64"
  have "map base64_value base64_alphabet ! n = map Some [0..<64] ! n" by (simp only: base64_alphabet_values)
  moreover have "length base64_alphabet = 64" by (simp add: base64_alphabet_def)
  ultimately show ?thesis using n by (simp add: base64_digit_def)
qed

lemma base64_digit_bounds:
  assumes "a < (256 :: nat)" and "b < 256" and "c < 256"
  shows "a div 4 < 64" and "a mod 4 * 16 + b div 16 < 64" and "b mod 16 * 4 + c div 64 < 64" and "c mod 64 < 64"
    and "a mod 4 * 16 < 64" and "b mod 16 * 4 < 64"
proof -
  show "a div 4 < 64" using assms(1) by (simp add: less_mult_imp_div_less)
  have b: "b div 16 < 16" and c: "c div 64 < 4" using assms by (simp_all add: less_mult_imp_div_less)
  have a4: "a mod 4 < 4" and b16: "b mod 16 < 16" by simp_all
  show "a mod 4 * 16 + b div 16 < 64" using a4 b by linarith
  show "b mod 16 * 4 + c div 64 < 64" using b16 c by linarith
  show "c mod 64 < 64" "a mod 4 * 16 < 64" "b mod 16 * 4 < 64" using a4 b16 by simp_all
qed

lemma base64_regroup:
  assumes "b < (256 :: nat)" and "c < 256"
  shows "a div 4 * 4 + (a mod 4 * 16 + b div 16) div 16 = a"
    and "(a mod 4 * 16 + b div 16) mod 16 * 16 + (b mod 16 * 4 + c div 64) div 4 = b"
    and "(b mod 16 * 4 + c div 64) mod 4 * 64 + c mod 64 = c"
    and "a div 4 * 4 + a mod 4 * 16 div 16 = a"
    and "(a mod 4 * 16 + b div 16) mod 16 * 16 + b mod 16 * 4 div 4 = b"
proof -
  have b: "b div 16 < 16" and c: "c div 64 < 4" using assms by (simp_all add: less_mult_imp_div_less)
  have b16: "b div 16 mod 16 = b div 16" using b by simp
  have c4: "c div 64 mod 4 = c div 64" using c by simp
  have 1: "(a mod 4 * 16 + b div 16) div 16 = a mod 4"
    using b by simp
  have 3: "(b mod 16 * 4 + c div 64) div 4 = b mod 16"
    using c by simp
  show "a div 4 * 4 + (a mod 4 * 16 + b div 16) div 16 = a" "a div 4 * 4 + a mod 4 * 16 div 16 = a"
    by (simp_all add: 1)
  show "(a mod 4 * 16 + b div 16) mod 16 * 16 + (b mod 16 * 4 + c div 64) div 4 = b"
    "(a mod 4 * 16 + b div 16) mod 16 * 16 + b mod 16 * 4 div 4 = b"
    by (simp_all add: 3 b16)
  show "(b mod 16 * 4 + c div 64) mod 4 * 64 + c mod 64 = c" by (simp add: c4)
qed

abbreviation bytes_ok :: "nat list \<Rightarrow> bool" where
  "bytes_ok bs \<equiv> list_all (\<lambda>b. b < 256) bs"

lemma base64_encode_values:
  "bytes_ok bs \<Longrightarrow> \<exists>ds. map base64_value (base64_encode bs) = map Some ds \<and> base64_groups ds = Some bs"
proof (induction bs rule: base64_encode.induct)
  case (1 a b c rest)
  then obtain ds where ds: "map base64_value (base64_encode rest) = map Some ds" "base64_groups ds = Some rest"
    by auto
  from 1(2) have abc: "a < 256" "b < 256" "c < 256" by simp_all
  let ?ds = "[a div 4, a mod 4 * 16 + b div 16, b mod 16 * 4 + c div 64, c mod 64] @ ds"
  have "map base64_value (base64_encode (a # b # c # rest)) = map Some ?ds"
    using ds(1) base64_digit_bounds [OF abc] by simp
  moreover have "base64_groups ?ds = Some (a # b # c # rest)"
    using ds(2) base64_regroup [OF abc(2,3)] by simp
  ultimately show ?case by blast
next
  case (2 a b)
  then have ab: "a < 256" "b < 256" by simp_all
  let ?ds = "[a div 4, a mod 4 * 16 + b div 16, b mod 16 * 4]"
  have "map base64_value (base64_encode [a, b]) = map Some ?ds"
    using base64_digit_bounds [OF ab, of 0] by simp
  moreover have "base64_groups ?ds = Some [a, b]"
    using base64_regroup [OF ab(2), of 0] by simp
  ultimately show ?case by blast
next
  case (3 a)
  then have a: "a < 256" by simp
  let ?ds = "[a div 4, a mod 4 * 16]"
  have "map base64_value (base64_encode [a]) = map Some ?ds"
    using base64_digit_bounds [OF a, of 0 0] by simp
  moreover have "base64_groups ?ds = Some [a]"
    using base64_regroup [of 0 0] by simp
  ultimately show ?case by blast
qed simp

lemma base64_value_less: "base64_value c = Some n \<Longrightarrow> n < 64"
  by (auto simp: base64_value_def Let_def split: if_splits)

lemma base64_value_line_end [simp]: "base64_value (CHR 0x0A) = None" "base64_value (CHR 0x0D) = None"
  by (simp_all add: base64_value_def)

lemma base64_round_trip:
  assumes "bytes_ok bs"
  shows "base64_decode (base64_encode bs) = Some bs"
proof -
  obtain ds where ds: "map base64_value (base64_encode bs) = map Some ds" "base64_groups ds = Some bs"
    using base64_encode_values [OF assms] by blast
  have val: "base64_value c \<noteq> None" if "c \<in> set (base64_encode bs)" for c
  proof -
    from that have "base64_value c \<in> set (map base64_value (base64_encode bs))" by simp
    then show "base64_value c \<noteq> None" by (auto simp: ds(1))
  qed
  have keep: "c \<noteq> CHR 0x0A \<and> c \<noteq> CHR 0x0D" if "c \<in> set (base64_encode bs)" for c
    using val [OF that] by auto
  have "filter (\<lambda>c. c \<noteq> CHR 0x0A \<and> c \<noteq> CHR 0x0D) (base64_encode bs) = base64_encode bs"
    using keep by (intro filter_True) blast
  then show ?thesis using ds by (simp add: base64_decode_def image_iff comp_def)
qed

lemma base64_groups_bytes: "base64_groups ds = Some bs \<Longrightarrow> list_all (\<lambda>d. d < 64) ds \<Longrightarrow> bytes_ok bs"
proof (induction ds arbitrary: bs rule: base64_groups.induct)
  case (1 p q r s rest)
  from 1(3) have d: "p < 64" "q < 64" "r < 64" "s < 64" by simp_all
  then have "q div 16 < 4" "r div 4 < 16" "q mod 16 < 16" "r mod 4 < 4" by (simp_all add: less_mult_imp_div_less)
  with d have "p * 4 + q div 16 < 256" and "q mod 16 * 16 + r div 4 < 256" and "r mod 4 * 64 + s < 256"
    by linarith+
  with 1 show ?case by auto
next
  case (2 p q r)
  from 2(2) have d: "p < 64" "q < 64" "r < 64" by simp_all
  then have "q div 16 < 4" "r div 4 < 16" "q mod 16 < 16" by (simp_all add: less_mult_imp_div_less)
  with d have "p * 4 + q div 16 < 256" and "q mod 16 * 16 + r div 4 < 256" by linarith+
  with 2 show ?case by auto
next
  case (3 p q)
  from 3(2) have "p < 64" "q div 16 < 4" by (simp_all add: less_mult_imp_div_less)
  then have "p * 4 + q div 16 < 256" by linarith
  with 3 show ?case by auto
qed auto

lemma base64_decode_bytes:
  assumes "base64_decode s = Some bs"
  shows "bytes_ok bs"
proof -
  define t where "t = filter (\<lambda>c. c \<noteq> CHR 0x0A \<and> c \<noteq> CHR 0x0D) s"
  from assms have none: "None \<notin> base64_value ` set t" and groups: "base64_groups (map the (map base64_value t)) = Some bs"
    by (auto simp: base64_decode_def Let_def t_def [symmetric] split: if_splits)
  have "the (base64_value c) < 64" if "c \<in> set t" for c
  proof -
    from none that have "base64_value c \<noteq> None" by (metis image_eqI)
    then obtain n where "base64_value c = Some n" by blast
    then show ?thesis using base64_value_less by simp
  qed
  then show ?thesis by (intro base64_groups_bytes [OF groups]) (simp add: list_all_iff)
qed

lemma base64_encode_length: "length (base64_encode bs) = (4 * length bs + 2) div 3"
  by (induction bs rule: base64_encode.induct) auto

lemma issued_tokens_shaped:
  assumes "new_opaque_token hash (Some bs) = Some (token, h)" and "length bs = 32" and "bytes_ok bs"
  shows "is_gateway_shaped_token token"
proof -
  have "token = base64_encode bs" using assms(1) by (simp add: new_opaque_token_def Let_def)
  with assms(2,3) show ?thesis
    by (simp add: is_gateway_shaped_token_def base64_round_trip base64_encode_length)
qed

text \<open>
  A query value has the shape of a gateway token exactly when \<open>NewOpaqueToken\<close> can issue it: the
  check that guards the query accepts every token the gateway ever issued, and nothing else.
\<close>

theorem shaped_iff_issuable:
  "is_gateway_shaped_token token \<longleftrightarrow>
     (\<exists>bs. length bs = 32 \<and> bytes_ok bs \<and> new_opaque_token hash (Some bs) = Some (token, hash token))"
proof
  assume "is_gateway_shaped_token token"
  then obtain bs where "base64_decode token = Some bs" "length bs = 32" "base64_encode bs = token"
    by (auto simp: is_gateway_shaped_token_def split: option.splits)
  then show "\<exists>bs. length bs = 32 \<and> bytes_ok bs \<and> new_opaque_token hash (Some bs) = Some (token, hash token)"
    by (auto simp: new_opaque_token_def Let_def dest: base64_decode_bytes)
next
  assume "\<exists>bs. length bs = 32 \<and> bytes_ok bs \<and> new_opaque_token hash (Some bs) = Some (token, hash token)"
  then show "is_gateway_shaped_token token" using issued_tokens_shaped by blast
qed


section \<open>Foreign tokens in a query\<close>

text \<open>A value that carries a gateway-shaped token other than the client's.\<close>

definition foreign_token :: "string \<Rightarrow> string \<Rightarrow> bool" where
  "foreign_token gateway_token v \<longleftrightarrow>
     trim_space v \<noteq> [] \<and> trim_space v \<noteq> gateway_token \<and> is_gateway_shaped_token (trim_space v)"

lemma shaped_tokens_collect:
  "shaped_tokens gw shaped vs = Inr out \<Longrightarrow> length shaped \<le> 1 \<Longrightarrow>
     set out = set shaped \<union> trim_space ` {v \<in> set vs. foreign_token gw v} \<and> length out \<le> 1"
proof (induction vs arbitrary: shaped)
  case (Cons v vs)
  show ?case
  proof (cases "foreign_token gw v \<and> trim_space v \<notin> set shaped")
    case True
    with Cons.prems(1) have one: "length (shaped @ [trim_space v]) \<le> 1"
      and rest: "shaped_tokens gw (shaped @ [trim_space v]) vs = Inr out"
      by (auto simp: foreign_token_def Let_def split: if_splits)
    from Cons.IH [OF rest one] True show ?thesis by auto
  next
    case False
    then have "shaped_tokens gw shaped (v # vs) = shaped_tokens gw shaped vs"
      by (auto simp: foreign_token_def Let_def)
    with Cons.IH [of shaped] Cons.prems False show ?thesis by auto
  qed
qed simp

text \<open>
  When the guard lets a query pass, no value under \<open>token\<close>, blanks around it aside, is a token the
  gateway issued to another session: the store knows no session, active or not, with its hash.
\<close>

theorem no_foreign_session_token_forwarded:
  assumes "guard_proxy_query_credentials (\<lambda>t. Inr (session_token_exists (hash t) m)) raw gateway_token = None"
    and "v \<in> set (query_all (fst (parse_query raw)) generic_query_auth_key)"
    and "trim_space v \<noteq> gateway_token"
    and "new_opaque_token hash (Some bs) = Some (trim_space v, h)" and "length bs = 32" and "list_all (\<lambda>b. b < 256) bs"
  shows "map_of (ms_sessions m) h = None"
proof -
  obtain q where q: "parse_query raw = (q, False)"
    using assms(1) by (auto simp: guard_proxy_query_credentials_def split: prod.splits if_splits)
  let ?vs = "query_all q generic_query_auth_key"
  from assms(1) q have guard: "guard_generic_query_tokens (\<lambda>t. Inr (session_token_exists (hash t) m)) ?vs gateway_token = None"
    by (simp add: guard_proxy_query_credentials_def)
  then obtain out where out: "shaped_tokens gateway_token [] ?vs = Inr out"
    by (auto simp: guard_generic_query_tokens_def split: sum.splits)
  have h: "h = hash (trim_space v)"
    using assms(4) by (auto simp: new_opaque_token_def Let_def)
  have "new_opaque_token hash (Some bs) = Some (trim_space v, hash (trim_space v))"
    using assms(4) h by simp
  then have shaped: "is_gateway_shaped_token (trim_space v)"
    using assms(5,6) by (intro issued_tokens_shaped)
  then have "trim_space v \<noteq> []" by (auto simp: is_gateway_shaped_token_def)
  with assms(2,3) q shaped have "v \<in> {v \<in> set ?vs. foreign_token gateway_token v}"
    by (simp add: foreign_token_def)
  with shaped_tokens_collect [OF out] have "trim_space v \<in> set out" and "length out \<le> 1" by auto
  then have "out = [trim_space v]" by (cases out) auto
  with guard out have "\<not> session_token_exists (hash (trim_space v)) m"
    by (simp add: guard_generic_query_tokens_def split: bool.splits)
  then show ?thesis by (simp add: session_token_exists_def h)
qed

section \<open>Headers\<close>

lemma header_values_set: "header_values (header_set k v h) k' = (if canonical_key k = canonical_key k' then [v] else header_values h k')"
  by (simp add: header_values_def header_set_def update_conv')

lemma header_values_add:
  "header_values (header_add k v h) k' = header_values h k' @ (if canonical_key k = canonical_key k' then [v] else [])"
  by (simp add: header_values_def header_add_def update_conv')

lemma header_values_del: "header_values (header_del k h) k' = (if canonical_key k = canonical_key k' then [] else header_values h k')"
  by (simp add: header_values_def header_del_def delete_conv')

lemmas header_simps = header_values_set header_values_add header_values_del

lemma upper_lower_char: "upper_char (lower_char c) = upper_char c"
  by (auto simp: upper_char_def lower_char_def Let_def)

lemma lower_upper_char: "lower_char (upper_char c) = lower_char c"
  by (auto simp: upper_char_def lower_char_def Let_def)

lemma lower_char_dash: "lower_char c = CHR ''-'' \<longleftrightarrow> c = CHR ''-''"
  by (rule lower_char_caseless) (simp add: caseless_def)

lemma canonical_from_to_lower: "canonical_from u (to_lower k) = canonical_from u k"
  by (induction u k rule: canonical_from.induct) (simp_all add: to_lower_def upper_lower_char lower_char_dash)

lemma to_lower_canonical_from: "to_lower (canonical_from u k) = to_lower k"
  by (induction u k rule: canonical_from.induct) (simp_all add: to_lower_def lower_upper_char)

lemma token_byte_lower: "is_token_byte (lower_char c) \<longleftrightarrow> is_token_byte c"
proof (cases "byte_in 65 90 c")
  case True
  then have "byte_in 97 122 (lower_char c)"
    by (auto simp: byte_in_def lower_char_def)
  with True show ?thesis by (simp add: is_token_byte_def is_alnum_def)
next
  case False
  then have "lower_char c = c" by (auto simp: byte_in_def lower_char_def Let_def)
  then show ?thesis by simp
qed

lemma token_bytes_lower: "list_all is_token_byte (to_lower k) \<longleftrightarrow> list_all is_token_byte k"
  by (induction k) (simp_all add: to_lower_def token_byte_lower)

lemma to_lower_canonical_key [simp]: "to_lower (canonical_key k) = to_lower k"
  by (simp add: canonical_key_def to_lower_canonical_from)

text \<open>Names that agree up to case have the same canonical form.\<close>

lemma canonical_key_fold:
  assumes "equal_fold k name" and "list_all is_token_byte name"
  shows "canonical_key k = canonical_key name"
proof -
  have lower: "to_lower k = to_lower name" using assms(1) by (simp add: equal_fold_def)
  then have "list_all is_token_byte k" using assms(2) token_bytes_lower by metis
  with assms(2) show ?thesis
    using lower canonical_from_to_lower [of True k] canonical_from_to_lower [of True name]
    by (simp add: canonical_key_def)
qed

lemma canonical_key_idem [simp]: "canonical_key (canonical_key k) = canonical_key k"
proof (cases "list_all is_token_byte k")
  case True
  then show ?thesis
    by (intro canonical_key_fold) (simp_all add: equal_fold_def)
next
  case False
  then show ?thesis by (simp add: canonical_key_def)
qed

text \<open>A header as the gateway builds it: one entry for a name, in its canonical form.\<close>

definition is_canonical :: "string \<Rightarrow> bool" where
  "is_canonical k \<longleftrightarrow> canonical_key k = k"

lemma is_canonical_key [simp]: "is_canonical (canonical_key k)"
  by (simp add: is_canonical_def)

definition tidy_header :: "header \<Rightarrow> bool" where
  "tidy_header h \<longleftrightarrow> distinct_keys h \<and> (\<forall>(k, vs) \<in> set h. is_canonical k)"

lemma tidy_header_update:
  assumes "tidy_header h" and "is_canonical k"
  shows "tidy_header (AList.update k v h)"
proof -
  have "is_canonical k'" if "(k', vs) \<in> set (AList.update k v h)" for k' vs
    using in_set_updateD [OF that] assms by (auto simp: tidy_header_def)
  then have "\<forall>(k', vs) \<in> set (AList.update k v h). is_canonical k'" by blast
  then show ?thesis using assms(1) by (simp add: tidy_header_def)
qed

lemma tidy_header_simps [simp]:
  "tidy_header []"
  "tidy_header h \<Longrightarrow> tidy_header (header_set k v h)"
  "tidy_header h \<Longrightarrow> tidy_header (header_add k v h)"
  by (simp_all add: header_set_def header_add_def tidy_header_update) (simp add: tidy_header_def)

lemma tidy_header_del [simp]:
  assumes "tidy_header h"
  shows "tidy_header (header_del k h)"
proof -
  have "is_canonical k'" if "(k', vs) \<in> set (AList.delete (canonical_key k) h)" for k' vs
    using in_set_deleteD [OF that] assms by (auto simp: tidy_header_def)
  then have "\<forall>(k', vs) \<in> set (AList.delete (canonical_key k) h). is_canonical k'" by blast
  then show ?thesis using assms by (simp add: tidy_header_def header_del_def)
qed

lemma tidy_values:
  assumes "tidy_header h" and "(k, vs) \<in> set h" and "equal_fold k name" and "list_all is_token_byte name"
  shows "header_values h name = vs"
proof -
  have "is_canonical k" using assms(1,2) by (auto simp: tidy_header_def)
  then have "canonical_key name = k"
    using canonical_key_fold [OF assms(3,4)] by (simp add: is_canonical_def)
  moreover have "map_of h k = Some vs" using assms(1,2) by (simp add: tidy_header_def in_set_map_of [symmetric])
  ultimately show ?thesis by (simp add: header_values_def)
qed

text \<open>The names a header has, case aside.\<close>

definition header_names :: "header \<Rightarrow> string set" where
  "header_names h = (\<lambda>(k, _). to_lower k) ` set h"

lemma keys_update: "fst ` set (AList.update k v m) = insert k (fst ` set m)"
  using dom_update [of k v m] by (simp add: dom_map_of_conv_image_fst)

lemma header_names_simps [simp]:
  "header_names [] = {}"
  "header_names (header_set k v h) = insert (to_lower k) (header_names h)"
  "header_names (header_add k v h) = insert (to_lower k) (header_names h)"
  "header_names (header_del k h) \<subseteq> header_names h"
proof -
  have names: "header_names h = to_lower ` (fst ` set h)" for h
    by (simp add: header_names_def image_image case_prod_unfold)
  show "header_names [] = {}" by (simp add: header_names_def)
  show "header_names (header_set k v h) = insert (to_lower k) (header_names h)"
    "header_names (header_add k v h) = insert (to_lower k) (header_names h)"
    by (simp_all add: names header_set_def header_add_def keys_update)
  show "header_names (header_del k h) \<subseteq> header_names h"
    unfolding names header_del_def by (intro image_mono set_delete_subset)
qed

section \<open>Cookies\<close>

lemma split_join_sep:
  "\<forall>w \<in> set (w # ws). CHR '';'' \<notin> set w \<Longrightarrow>
     split_char (CHR '';'') (join_with ''; '' (w # ws)) = w # map ((#) (CHR '' '')) ws"
proof (induction ws arbitrary: w)
  case Nil
  then show ?case by (simp add: split_char_none)
next
  case (Cons v vs)
  have "split_char (CHR '';'') (join_with ''; '' (w # v # vs)) =
      w # split_char (CHR '';'') (CHR '' '' # join_with ''; '' (v # vs))"
    using Cons.prems split_char_append_sep [of "CHR '';''" w "CHR '' '' # join_with ''; '' (v # vs)"] by simp
  with Cons.IH [of v] Cons.prems show ?case by simp
qed

lemma trim_space_subset: "set (trim_space s) \<subseteq> set s"
  using set_mono_prefix [OF trim_space_right_prefix] set_mono_suffix [OF trim_by_suffix [of space_runes s]]
  unfolding trim_space_def trim_space_left_def by blast

lemma trim_space_blank [simp]: "trim_space (CHR '' '' # s) = trim_space s"
  by (simp add: trim_space_def trim_space_left_def trim_by.simps [of space_runes "CHR '' '' # s"])
    (simp add: space_runes_def)

lemma kept_part:
  assumes "part \<in> set (split_char (CHR '';'') v)" and "keep_cookie_part part = Some p"
  shows "trim_space p = p" and "CHR '';'' \<notin> set p"
    and "cut_char (CHR ''='') p = Some (n, w) \<Longrightarrow> n \<noteq> resource_cookie_name \<and> n \<noteq> web_context_cookie_name"
proof -
  have p: "p = trim_space part" using assms(2) by (auto simp: keep_cookie_part_def Let_def split: if_splits)
  then show "trim_space p = p" by simp
  show "CHR '';'' \<notin> set p" using split_char_no_sep [OF assms(1)] p trim_space_subset by blast
  show "cut_char (CHR ''='') p = Some (n, w) \<Longrightarrow> n \<noteq> resource_cookie_name \<and> n \<noteq> web_context_cookie_name"
    using assms(2) p by (auto simp: keep_cookie_part_def Let_def split: if_splits)
qed

text \<open>No cookie of the gateway is left in a value of the \<open>Cookie\<close> header.\<close>

definition free_of_gateway_cookies :: "string \<Rightarrow> bool" where
  "free_of_gateway_cookies v \<longleftrightarrow>
     (\<forall>part \<in> set (split_char (CHR '';'') v). \<forall>n w. cut_char (CHR ''='') (trim_space part) = Some (n, w) \<longrightarrow>
        n \<noteq> resource_cookie_name \<and> n \<noteq> web_context_cookie_name)"

lemma map_filter_set: "x \<in> set (List.map_filter f xs) \<longleftrightarrow> (\<exists>y \<in> set xs. f y = Some x)"
  by (induction xs) (auto simp: List.map_filter_simps split: option.splits)

lemma strip_cookie_values:
  assumes "v \<in> set (header_values (strip_resource_cookie h) ''Cookie'')"
  shows "free_of_gateway_cookies v"
proof -
  let ?parts = "concat (map (split_char (CHR '';'')) (header_values h ''Cookie''))"
  define kept where "kept = List.map_filter keep_cookie_part ?parts"
  from assms have "kept \<noteq> []" and v: "v = join_with ''; '' kept"
    by (auto simp: strip_resource_cookie_def Let_def kept_def header_simps split: if_splits)
  then obtain k ks where ks: "kept = k # ks" by (cases kept) auto
  have from_part: "\<exists>part u. part \<in> set (split_char (CHR '';'') u) \<and> keep_cookie_part part = Some w" if "w \<in> set kept" for w
    using that by (auto simp: kept_def map_filter_set)
  have "CHR '';'' \<notin> set w" if "w \<in> set kept" for w
    using from_part [OF that] kept_part(2) by blast
  then have split: "split_char (CHR '';'') v = k # map ((#) (CHR '' '')) ks"
    unfolding v ks by (intro split_join_sep) (simp add: ks)
  show ?thesis
    unfolding free_of_gateway_cookies_def
  proof (intro ballI allI impI)
    fix part n w
    assume part: "part \<in> set (split_char (CHR '';'') v)" and cut: "cut_char (CHR ''='') (trim_space part) = Some (n, w)"
    from part have "part = k \<or> (\<exists>x \<in> set ks. part = CHR '' '' # x)" by (auto simp: split)
    then obtain q where q: "q \<in> set kept" "trim_space part = trim_space q"
      using trim_space_blank ks by (metis list.set_intros)
    then obtain part' u where orig: "part' \<in> set (split_char (CHR '';'') u)" "keep_cookie_part part' = Some q"
      using from_part by blast
    with q(2) cut have "cut_char (CHR ''='') q = Some (n, w)" using kept_part(1) [OF orig] by simp
    then show "n \<noteq> resource_cookie_name \<and> n \<noteq> web_context_cookie_name" using kept_part(3) [OF orig] by blast
  qed
qed

lemma strip_resource_cookie_tidy [simp]: "tidy_header h \<Longrightarrow> tidy_header (strip_resource_cookie h)"
  by (simp add: strip_resource_cookie_def Let_def)

lemma strip_resource_cookie_names: "header_names (strip_resource_cookie h) \<subseteq> insert ''cookie'' (header_names h)"
proof -
  have cookie: "to_lower ''Cookie'' = ''cookie''" by code_simp
  show ?thesis
    using header_names_simps(4) [of "''Cookie''" h]
    by (simp add: strip_resource_cookie_def Let_def cookie subset_insertI2)
qed

lemma add_all_tidy: "tidy_header h \<Longrightarrow> tidy_header (fold (header_add k) vs h)"
  by (induction vs arbitrary: h) auto

lemma add_all_names: "header_names (fold (header_add k) vs h) \<subseteq> insert (to_lower k) (header_names h)"
proof (induction vs arbitrary: h)
  case (Cons v vs)
  from Cons.IH [of "header_add k v h"] show ?case by simp
qed auto

definition hop_free :: "header \<Rightarrow> bool" where
  "hop_free h \<longleftrightarrow> (\<forall>(k, vs) \<in> set h. \<not> is_hop_header k)"

lemma is_hop_header_lower: "is_hop_header (to_lower k) = is_hop_header k"
  by (simp add: is_hop_header_def)

lemma hop_free_names: "hop_free h \<longleftrightarrow> (\<forall>n \<in> header_names h. \<not> is_hop_header n)"
  by (auto simp: hop_free_def header_names_def is_hop_header_lower)

lemma copied_headers: "tidy_header (copy_request_headers src) \<and> hop_free (copy_request_headers src)"
proof -
  let ?step = "\<lambda>(k, vs) dst.
    if is_hop_header k \<or> equal_fold k ''Content-Length'' \<or> equal_fold k ''Accept-Encoding'' then dst
    else fold (header_add k) vs dst"
  have "tidy_header (fold ?step src dst) \<and> hop_free (fold ?step src dst)" if "tidy_header dst" "hop_free dst" for dst
    using that
  proof (induction src arbitrary: dst)
    case (Cons kv src)
    obtain k vs where kv: "kv = (k, vs)" by (cases kv)
    show ?case
    proof (cases "is_hop_header k \<or> equal_fold k ''Content-Length'' \<or> equal_fold k ''Accept-Encoding''")
      case True
      with Cons kv show ?thesis by auto
    next
      case False
      moreover have "hop_free (fold (header_add k) vs dst)"
        using False Cons.prems(2) add_all_names [of k vs dst]
        by (auto simp: hop_free_names is_hop_header_lower)
      ultimately show ?thesis using Cons.IH Cons.prems(1) kv by (simp add: add_all_tidy)
    qed
  qed simp
  from this [of "[]"] have "tidy_header (fold ?step src [])" and "hop_free (fold ?step src [])"
    by (simp_all add: hop_free_def)
  moreover have "\<not> is_hop_header ''cookie''" by code_simp
  ultimately show ?thesis
    using strip_resource_cookie_names [of "fold ?step src []"]
    unfolding copy_request_headers_def by (auto simp: hop_free_names)
qed

lemma set_token_header_tidy [simp]: "tidy_header h \<Longrightarrow> tidy_header (set_token_header v k h)"
  by (simp add: set_token_header_def)

lemma set_token_header_names: "header_names (set_token_header v k h) \<subseteq> insert (to_lower k) (header_names h)"
  by (auto simp: set_token_header_def)

lemma set_token_header_values:
  "header_values (set_token_header v k h) k' =
     (if canonical_key k = canonical_key k' \<and> header_values h k \<noteq> [] then [v] else header_values h k')"
  by (simp add: set_token_header_def header_simps)

lemma canonical_names:
  "canonical_key ''X-Emby-Token'' = ''X-Emby-Token''" "canonical_key ''X-MediaBrowser-Token'' = ''X-Mediabrowser-Token''"
  "canonical_key ''User-Agent'' = ''User-Agent''" "canonical_key ''Authorization'' = ''Authorization''"
  "canonical_key ''X-Emby-Authorization'' = ''X-Emby-Authorization''" "canonical_key ''Cookie'' = ''Cookie''"
  by code_simp+

text \<open>The authorization header the gateway presents to the upstream.\<close>

definition upstream_authorization :: "request_snapshot \<Rightarrow> string" where
  "upstream_authorization upstream =
     auth_header_string (backend_auth_header (with_defaults (rs_identity upstream)) (rs_user_id upstream) (rs_token upstream))"

lemma rewritten_headers:
  fixes upstream h
  defines "out \<equiv> rewrite_request_headers upstream h"
  shows "header_values out ''X-Emby-Token'' = [rs_token upstream]"
    and "header_values out ''X-MediaBrowser-Token'' \<in> {[], [rs_token upstream]}"
    and "header_values out ''X-Emby-Authorization'' = [upstream_authorization upstream]"
    and "header_values out ''Authorization'' \<in> {[], [upstream_authorization upstream]}"
    and "header_values out ''User-Agent'' = [ci_user_agent (with_defaults (rs_identity upstream))]"
    and "header_values out ''Cookie'' = header_values (strip_resource_cookie h) ''Cookie''"
    and "tidy_header h \<Longrightarrow> tidy_header out"
  unfolding out_def rewrite_request_headers_def Let_def token_header_names_def upstream_authorization_def
  by (simp_all add: header_simps set_token_header_values canonical_names)

definition sent_names :: "string set" where
  "sent_names = {''x-emby-token'', ''x-mediabrowser-token'', ''user-agent'', ''x-emby-authorization'', ''authorization'', ''cookie''}"

lemma lower_names:
  "to_lower ''X-Emby-Token'' = ''x-emby-token''" "to_lower ''X-MediaBrowser-Token'' = ''x-mediabrowser-token''"
  "to_lower ''User-Agent'' = ''user-agent''" "to_lower ''Authorization'' = ''authorization''"
  "to_lower ''X-Emby-Authorization'' = ''x-emby-authorization''" "to_lower ''Cookie'' = ''cookie''"
  by code_simp+

lemma sent_names_simps:
  "''x-emby-token'' \<in> sent_names" "''x-mediabrowser-token'' \<in> sent_names" "''user-agent'' \<in> sent_names"
  "''x-emby-authorization'' \<in> sent_names" "''authorization'' \<in> sent_names" "''cookie'' \<in> sent_names"
  by (simp_all add: sent_names_def)

lemma sent_not_hop: "n \<in> sent_names \<Longrightarrow> \<not> is_hop_header n"
proof -
  have "list_all (\<lambda>n. \<not> is_hop_header n)
      [''x-emby-token'', ''x-mediabrowser-token'', ''user-agent'', ''x-emby-authorization'', ''authorization'', ''cookie'']"
    by code_simp
  then show "n \<in> sent_names \<Longrightarrow> \<not> is_hop_header n" by (auto simp: sent_names_def)
qed

lemma names_within_set: "header_names h \<subseteq> A \<Longrightarrow> to_lower k \<in> A \<Longrightarrow> header_names (header_set k v h) \<subseteq> A"
  by simp

lemma names_within_token: "header_names h \<subseteq> A \<Longrightarrow> to_lower k \<in> A \<Longrightarrow> header_names (set_token_header v k h) \<subseteq> A"
  using set_token_header_names [of v k h] by blast

lemma names_within_if: "header_names h \<subseteq> A \<Longrightarrow> header_names h' \<subseteq> A \<Longrightarrow> header_names (if c then h else h') \<subseteq> A"
  by simp

lemma rewritten_names: "header_names (rewrite_request_headers upstream h) \<subseteq> sent_names \<union> header_names h"
proof -
  let ?A = "sent_names \<union> header_names h"
  have "header_names (strip_resource_cookie h) \<subseteq> ?A"
    using strip_resource_cookie_names [of h] sent_names_simps(6) by blast
  then show ?thesis
    unfolding rewrite_request_headers_def Let_def token_header_names_def fold_simps
    by (intro names_within_if names_within_set names_within_token) (simp_all add: lower_names sent_names_simps)
qed

definition token_bytes_names :: "string list" where
  "token_bytes_names = [''X-Emby-Token'', ''X-MediaBrowser-Token'', ''X-Emby-Authorization'', ''Authorization'',
     ''User-Agent'', ''Cookie'']"

lemma token_bytes_names: "list_all (list_all is_token_byte) token_bytes_names"
  by code_simp


section \<open>The query\<close>

lemma query_all_rewrite_strict:
  "query_all (rewrite_strict_key up key q) k =
     (if k = key then map (\<lambda>v. if trim_space v \<noteq> [] then rs_token up else v) (query_all q k) else query_all q k)"
  by (auto simp: rewrite_strict_key_def Let_def query_all_def update_conv')

lemma values_rewrite_strict:
  assumes "(k, vs) \<in> set (rewrite_strict_key up key q)" and "v \<in> set vs"
  shows "v = rs_token up \<or> (\<exists>(k', ws) \<in> set q. v \<in> set ws)"
proof -
  have "v = rs_token up \<or> v \<in> set (query_all q key)" if "v \<in> set (map (\<lambda>v. if trim_space v \<noteq> [] then rs_token up else v) (query_all q key))"
    using that by auto
  moreover have "\<exists>(k', ws) \<in> set q. v \<in> set ws" if "v \<in> set (query_all q key)"
    using that map_of_SomeD [of q key] by (fastforce simp: query_all_def split: option.splits)
  ultimately show ?thesis
    using assms by (auto simp: rewrite_strict_key_def Let_def dest!: in_set_updateD split: if_splits)
qed

lemma values_rewrite_all_strict:
  assumes "(k, vs) \<in> set (fold (rewrite_strict_key up) keys q)" and "v \<in> set vs"
  shows "v = rs_token up \<or> (\<exists>(k', ws) \<in> set q. v \<in> set ws)"
  using assms
proof (induction keys arbitrary: q)
  case (Cons key keys)
  then have "v = rs_token up \<or> (\<exists>(k', ws) \<in> set (rewrite_strict_key up key q). v \<in> set ws)" by simp
  then show ?case using values_rewrite_strict by blast
qed auto

lemma strict_values_rewritten:
  "key \<in> set keys \<or> (\<forall>v \<in> set (query_all q key). trim_space v = [] \<or> v = rs_token up) \<Longrightarrow>
     v \<in> set (query_all (fold (rewrite_strict_key up) keys q) key) \<Longrightarrow> trim_space v = [] \<or> v = rs_token up"
proof (induction keys arbitrary: q)
  case (Cons k keys)
  show ?case
    using Cons.prems by (intro Cons.IH [of "rewrite_strict_key up k q"]) (auto simp: query_all_rewrite_strict)
qed auto


section \<open>The resource cookie\<close>

lemma first_nonblank_Nil: "first_nonblank vs = [] \<longleftrightarrow> \<not> list_ex (\<lambda>v. trim_space v \<noteq> []) vs"
  by (induction vs) (auto simp: Let_def)

text \<open>The values of the gateway's cookie in a request.\<close>

abbreviation gateway_cookies :: "(string \<times> string) list \<Rightarrow> string list" where
  "gateway_cookies cookies \<equiv> map snd (filter (\<lambda>c. fst c = resource_cookie_name) cookies)"

lemma scan_cookies_single:
  assumes "bad []"
  shows "scan_cookies bad token cookies = Some t \<Longrightarrow>
     (if token = [] then gateway_cookies cookies = [t] \<and> \<not> bad t else gateway_cookies cookies = [] \<and> t = token)"
proof (induction cookies arbitrary: token)
  case (Cons c cookies)
  obtain name val where c: "c = (name, val)" by (cases c)
  show ?case
  proof (cases "name = resource_cookie_name")
    case True
    with Cons.prems c have "token = []" "\<not> bad val" "scan_cookies bad val cookies = Some t"
      by (auto split: if_splits)
    moreover from this(2) assms have "val \<noteq> []" by auto
    ultimately show ?thesis using Cons.IH [of val] c True by simp
  next
    case False
    with Cons c show ?thesis by simp
  qed
qed (auto split: if_splits)

lemma no_explicit_no_token:
  assumes "\<not> has_explicit_credential_input r"
  shows "extract_credential r = no_credential"
proof -
  have "first_header (hr_header r) name = []" if "name \<in> set credential_headers" for name
    using assms that by (auto simp: has_explicit_credential_input_def first_nonblank_Nil list_ex_iff)
  moreover have "first_nonblank (query_all (request_query r) key) = []" if "key \<in> set credential_keys" for key
    using assms that by (auto simp: has_explicit_credential_input_def first_nonblank_Nil list_ex_iff)
  ultimately show ?thesis
    by (simp add: extract_credential_def Let_def token_header_names_def auth_header_names_def credential_headers_def
        credential_keys_def strict_query_auth_keys_def)
qed

text \<open>
  C24: The resource cookie authenticates a request only when no other credential is selected, only for GET and
  HEAD on a canonical image or media path, and only when the request has exactly one cookie of
  that name, with a value that is not blank.
\<close>

theorem cookie_only_without_credentials:
  assumes "resource_cookie_token r rel = Some (token, kind)"
  shows "extract_token r = [] \<and> (hr_method r = ''GET'' \<or> hr_method r = ''HEAD'') \<and> \<not> is_upgrade_request r \<and>
    kind = resource_route r rel \<and> kind \<noteq> ResourceRouteNone \<and> path_clean rel = rel \<and>
    gateway_cookies (read_cookies (hr_header r)) = [token] \<and> trim_space token \<noteq> []"
proof -
  from assms have kind: "kind = resource_route r rel" "kind \<noteq> ResourceRouteNone"
    and none: "\<not> has_explicit_credential_input r"
    and scan: "scan_cookies (\<lambda>v. trim_space v = []) [] (read_cookies (hr_header r)) = Some token"
    by (auto simp: resource_cookie_token_def Let_def split: if_splits)
  have "extract_token r = []"
    using no_explicit_no_token [OF none] by (simp add: extract_token_def no_credential_def)
  moreover have "hr_method r = ''GET'' \<or> hr_method r = ''HEAD''" "\<not> is_upgrade_request r" "path_clean rel = rel"
    using kind by (auto simp: resource_route_def canonical_resource_route_def split: if_splits)
  moreover have "gateway_cookies (read_cookies (hr_header r)) = [token] \<and> trim_space token \<noteq> []"
    using scan_cookies_single [OF _ scan] by simp
  ultimately show ?thesis using kind by blast
qed

section \<open>Redirects\<close>

lemma split_char_join_with:
  "\<forall>w \<in> set ws. d \<notin> set w \<Longrightarrow> ws \<noteq> [] \<Longrightarrow> split_char d (join_with [d] ws) = ws"
proof (induction "[d]" ws rule: join_with.induct)
  case (3 w v vs)
  then show ?case using split_char_append_sep [of d w "join_with [d] (v # vs)"] by simp
qed (simp_all add: split_char_none)


section \<open>Samples\<close>

definition sample_upstream :: request_snapshot where
  "sample_upstream =
     \<lparr>rs_base_url = ''http://media.example/emby'', rs_endpoint_key = ''main'', rs_server_id = ''srv'',
      rs_user_id = ''u9'', rs_token = ''up'', rs_identity = default_client_identity\<rparr>"

definition sample_session :: session where
  "sample_session =
     \<lparr>gs_token_hash = ''h'', gs_user = ''g'', gs_username = ''ann'', gs_synthetic_user = ''s1'', gs_client = [],
      gs_device = [], gs_device_id = [], gs_version = [], gs_remote_ip = [], gs_created = 0, gs_expires = 0,
      gs_revoked = None\<rparr>"

definition sample_request :: "string \<Rightarrow> header \<Rightarrow> http_request" where
  "sample_request raw h =
     \<lparr>hr_method = ''GET'', hr_path = ''/emby/Items/7/Images/Primary'', hr_escaped = ''/emby/Items/7/Images/Primary'',
      hr_raw_query = raw, hr_header = h, hr_host = [], hr_tls = False, hr_remote_addr = [], hr_body = None\<rparr>"

definition sample_proxied :: "string \<Rightarrow> (proxy_url_error + url \<times> query_values)" where
  "sample_proxied raw = proxy_url (\<lambda>_. False) sample_upstream sample_session ''/Items'' raw ''abc''"

lemma sample_query:
  "map_sum id snd (sample_proxied ''api_key=abc&sig=abc&UserId=s1'') =
     Inr [(''api_key'', [''up'']), (''sig'', [''up'']), (''UserId'', [''u9''])]"
  by code_simp

lemma no_foreign_session_token_forwarded_witness:
  "\<exists>token. guard_proxy_query_credentials (\<lambda>t. Inr (session_token_exists t new_memory_store)) (''token='' @ token) ''abc'' = None \<and>
     new_opaque_token (\<lambda>t. t) (Some (replicate 32 0)) = Some (token, token) \<and> map_of (ms_sessions new_memory_store) token = None"
proof -
  let ?token = "replicate 43 (CHR ''A'')"
  have token: "new_opaque_token (\<lambda>t. t) (Some (replicate 32 0)) = Some (?token, ?token)" by code_simp
  have guard: "guard_proxy_query_credentials (\<lambda>t. Inr (session_token_exists t new_memory_store)) (''token='' @ ?token) ''abc'' = None"
    by code_simp
  have mem: "?token \<in> set (query_all (fst (parse_query (''token='' @ ?token))) generic_query_auth_key)" by code_simp
  have trim: "trim_space ?token = ?token" by code_simp
  have other: "trim_space ?token \<noteq> ''abc''" unfolding trim by code_simp
  have issued: "new_opaque_token (\<lambda>t. t) (Some (replicate 32 0)) = Some (trim_space ?token, ?token)"
    unfolding trim by (rule token)
  have "map_of (ms_sessions new_memory_store) ?token = None"
    by (rule no_foreign_session_token_forwarded [OF guard mem other issued]) (simp, code_simp)
  with token guard show ?thesis by blast
qed



lemma cookie_only_without_credentials_witness:
  "resource_cookie_token (sample_request [] [(''Cookie'', [''__Secure-EmbyGatewayResource=tok''])]) ''/Items/7/Images/Primary'' =
     Some (''tok'', ResourceRouteImage) \<and>
   extract_token (sample_request [] [(''Cookie'', [''__Secure-EmbyGatewayResource=tok''])]) = []"
proof -
  let ?r = "sample_request [] [(''Cookie'', [''__Secure-EmbyGatewayResource=tok''])]"
  have "resource_cookie_token ?r ''/Items/7/Images/Primary'' = Some (''tok'', ResourceRouteImage)" by code_simp
  with cookie_only_without_credentials [OF this] show ?thesis by blast
qed

definition sample_hop :: "string \<Rightarrow> string \<Rightarrow> header \<Rightarrow> hop" where
  "sample_hop host query h =
     \<lparr>hop_header = h, hop_url = empty_url\<lparr>u_scheme := ''http'', u_host := host, u_raw_query := query\<rparr>, hop_body = False,
      hop_tokens = [''abc'']\<rparr>"


section \<open>What still goes through\<close>

text \<open>
  A token under \<open>token\<close> with a blank before it authenticates the request, but only values equal to the
  token are replaced: the client's token goes upstream.
\<close>

lemma padded_token_leaks:
  "extract_token (sample_request ''token=%20abc'' []) = ''abc'' \<and>
   map_sum id snd (sample_proxied ''token=%20abc'') = Inr [(''token'', ['' abc''])]"
  by code_simp

text \<open>
  \<open>net/http\<close> trims the name of a cookie, the part of the header it stands in is kept as it is: with a blank
  before the equals sign the gateway's cookie authenticates and goes upstream.
\<close>

lemma spaced_cookie_leaks:
  "resource_cookie_token (sample_request [] [(''Cookie'', [''__Secure-EmbyGatewayResource =tok''])]) ''/Items/7/Images/Primary'' =
     Some (''tok'', ResourceRouteImage) \<and>
   header_values (copy_request_headers [(''Cookie'', [''__Secure-EmbyGatewayResource =tok''])]) ''Cookie'' =
     [''__Secure-EmbyGatewayResource =tok'']"
  by code_simp

text \<open>
  \<open>X-MediaBrowser-Authorization\<close> counts as a credential where a redirect leaves the origin, the request to
  the upstream keeps the client's.
\<close>

lemma mediabrowser_authorization_kept:
  "is_cross_origin_sensitive_header ''X-MediaBrowser-Authorization'' \<and>
   header_values (rewrite_request_headers sample_upstream
     (copy_request_headers [(''X-Mediabrowser-Authorization'', [''MediaBrowser Token=abc''])])) ''X-MediaBrowser-Authorization'' =
     [''MediaBrowser Token=abc'']"
  by code_simp

end
