(* ===== verification/Response_Theorems.thy ===== *)
theory Response_Theorems
  imports Credential_Theorems
begin

text \<open>
  Properties of the rewriting of answers: no reference the gateway hands out holds the upstream's
  token, and a reference it takes over names the client's token exactly once.
\<close>

section \<open>References\<close>

lemma unsafe_empty: "\<not> unsafe_reference ip6 [] token"
proof -
  have "parse_url ip6 [] = Some empty_url"
    by (simp add: parse_url_def parse_reference_def split_query_def parse_hier_def set_path_def url_escape_def empty_url_def)
  moreover have "to_lower [] = []" by simp
  ultimately show ?thesis
    by (simp add: unsafe_reference_def has_url_controls_def contains_any_def contains_backend_token_def contains_def
        decoded_url_component_def escaped_path_def escaped_fragment_def escaped_component_def user_string_def
        url_escape_def empty_url_def)
qed

lemma safe_output_safe [simp]: "\<not> unsafe_reference ip6 (safe_output ip6 v token) token"
  by (simp add: safe_output_def unsafe_empty)

lemma owned_reference_safe [simp]: "\<not> unsafe_reference (rw_ip6 e) (owned_reference e path u add absolute) (backend_token e)"
  by (simp add: owned_reference_def unsafe_empty split: option.splits)

lemma media_reference_safe [simp]: "\<not> unsafe_reference (rw_ip6 e) (rewrite_media_reference e v absolute) (backend_token e)"
  by (simp add: rewrite_media_reference_def unsafe_empty split: option.splits)

lemma m3u8_reference_safe [simp]: "\<not> unsafe_reference (rw_ip6 e) (rewrite_m3u8_reference e rel v) (backend_token e)"
  by (simp add: rewrite_m3u8_reference_def unsafe_empty Let_def split: option.splits)

lemma location_safe [simp]: "\<not> unsafe_reference (rw_ip6 e) (rewrite_response_location e rel v) (backend_token e)"
  by (simp add: rewrite_response_location_def unsafe_empty Let_def split: option.splits)

lemma header_values_add_all:
  "header_values (fold (header_add k) vs h) k' = header_values h k' @ (if canonical_key k = canonical_key k' then vs else [])"
  by (induction vs arbitrary: h) (simp_all add: header_simps)


section \<open>The query of an owned reference\<close>

lemma hex_digits: "n < 16 \<Longrightarrow> hex_value (hex_digit n) = Some n"
proof -
  have "list_all (\<lambda>n. hex_value (hex_digit n) = Some n) [0..<16]"
    by (simp add: hex_value_def hex_digit_def upt_rec)
  then show "n < 16 \<Longrightarrow> hex_value (hex_digit n) = Some n" by (simp add: list_all_iff)
qed

lemma unescape_append_char:
  "unescape True (escape_char c @ s) = map_option ((#) c) (unescape True s)"
proof -
  have byte: "of_char c < (256 :: nat)" by (rule nat_of_char_less_256)
  have hexes: "hex_value (hex_digit (of_char c div 16)) = Some (of_char c div 16)"
    "hex_value (hex_digit (of_char c mod 16)) = Some (of_char c mod 16)"
    using byte by (simp_all add: hex_digits less_mult_imp_div_less)
  have whole: "char_of (16 * (of_char c div 16) + of_char c mod 16 :: nat) = c"
    by simp
  have unescaped: "c \<noteq> CHR ''%'' \<and> c \<noteq> CHR ''+''" if "is_alnum c \<or> c \<in> set ''-_.~''"
  proof -
    have "\<not> (is_alnum (CHR ''%'') \<or> CHR ''%'' \<in> set ''-_.~'')" "\<not> (is_alnum (CHR ''+'') \<or> CHR ''+'' \<in> set ''-_.~'')"
      by code_simp+
    with that show ?thesis by blast
  qed
  consider (plain) "is_alnum c \<or> c \<in> set ''-_.~''" | (space) "\<not> (is_alnum c \<or> c \<in> set ''-_.~'')" "c = CHR '' ''"
    | (hex) "\<not> (is_alnum c \<or> c \<in> set ''-_.~'')" "c \<noteq> CHR '' ''" by blast
  then show ?thesis
  proof cases
    case plain
    then have "escape_char c = [c]" by (simp add: escape_char_def)
    with unescaped [OF plain] show ?thesis by simp
  next
    case space
    then have "escape_char c = ''+''" by (simp add: escape_char_def)
    with space show ?thesis by simp
  next
    case hex
    then have "escape_char c = [CHR ''%'', hex_digit (of_char c div 16), hex_digit (of_char c mod 16)]"
      by (simp add: escape_char_def)
    with hexes whole show ?thesis by simp
  qed
qed

lemma query_escape_round_trip: "query_unescape (query_escape s) = Some s"
proof (induction s)
  case (Cons c s)
  have "query_escape (c # s) = escape_char c @ query_escape s" by (simp add: query_escape_def)
  with Cons show ?case by (simp add: unescape_append_char)
qed (simp add: query_escape_def)

lemma query_escape_bytes: "c \<in> set (query_escape s) \<Longrightarrow> is_alnum c \<or> c \<in> set ''-_.~+%''"
proof -
  have hex: "is_alnum (hex_digit n)" if "n < 16" for n
  proof -
    have "list_all (\<lambda>n. is_alnum (hex_digit n)) [0..<16]"
      by (simp add: is_alnum_def byte_in_def hex_digit_def upt_rec)
    with that show ?thesis by (simp add: list_all_iff)
  qed
  have byte: "of_char d div 16 < (16 :: nat)" "of_char d mod 16 < (16 :: nat)" for d :: char
    using nat_of_char_less_256 [of d] by (simp_all add: less_mult_imp_div_less del: nat_of_char_less_256)
  assume "c \<in> set (query_escape s)"
  then obtain d where "c \<in> set (escape_char d)" by (auto simp: query_escape_def)
  then show "is_alnum c \<or> c \<in> set ''-_.~+%''"
    using hex byte by (auto simp: escape_char_def split: if_splits)
qed

lemma query_escape_separators: "CHR ''&'' \<notin> set (query_escape s)" "CHR '';'' \<notin> set (query_escape s)" "CHR ''='' \<notin> set (query_escape s)"
proof -
  have out: "\<not> (is_alnum (CHR ''&'') \<or> CHR ''&'' \<in> set ''-_.~+%'')" "\<not> (is_alnum (CHR '';'') \<or> CHR '';'' \<in> set ''-_.~+%'')"
    "\<not> (is_alnum (CHR ''='') \<or> CHR ''='' \<in> set ''-_.~+%'')"
    by code_simp+
  show "CHR ''&'' \<notin> set (query_escape s)" "CHR '';'' \<notin> set (query_escape s)" "CHR ''='' \<notin> set (query_escape s)"
    using query_escape_bytes out by blast+
qed

text \<open>What a part of a query adds to the values of a key.\<close>

definition part_values :: "string \<Rightarrow> string \<Rightarrow> string list" where
  "part_values part key =
     (if CHR '';'' \<in> set part \<or> part = [] then []
      else (let (k, v) = (case cut_char (CHR ''='') part of Some kv \<Rightarrow> kv | None \<Rightarrow> (part, []))
            in case (query_unescape k, query_unescape v) of
                 (Some k, Some v) \<Rightarrow> if k = key then [v] else []
               | _ \<Rightarrow> []))"

lemma query_part_values: "query_all (fst (query_part part acc)) key = query_all (fst acc) key @ part_values part key"
  by (cases acc) (auto simp: query_part_def part_values_def Let_def query_all_def update_conv' split: option.splits prod.splits)

lemma fold_query_part_values:
  "query_all (fst (fold query_part parts acc)) key = query_all (fst acc) key @ concat (map (\<lambda>p. part_values p key) parts)"
  by (induction parts arbitrary: acc) (simp_all add: query_part_values)

lemma parse_query_values:
  "length (split_char (CHR ''&'') raw) \<le> max_query_params \<Longrightarrow>
     query_all (fst (parse_query raw)) key = concat (map (\<lambda>p. part_values p key) (split_char (CHR ''&'') raw))"
  by (simp add: parse_query_def Let_def fold_query_part_values) (simp add: query_all_def)

lemma cut_char_key: "cut_char d s = Some (k, v) \<Longrightarrow> cut_char d (k @ d # w) = Some (k, w)"
  by (auto simp: cut_char_Some_iff)

lemma part_values_pair:
  assumes "cut_char (CHR ''='') part = Some (k, v)" and "query_unescape k = Some dk"
  shows "set (part_values part key) \<subseteq> {d. query_unescape v = Some d}" and "dk \<noteq> key \<Longrightarrow> part_values part key = []"
  using assms by (auto simp: part_values_def split: option.splits)

lemma owned_part_cases:
  assumes "rewrite_owned_part e part = Some (Some p)"
  obtains (bare) dk where "p = part" "cut_char (CHR ''='') part = None" "query_unescape part = Some dk"
      "\<not> is_strict_query_auth_key dk"
  | (kept) k v dk d where "p = part" "cut_char (CHR ''='') part = Some (k, v)" "query_unescape k = Some dk"
      "\<not> is_strict_query_auth_key dk" "query_unescape v = Some d" "backend_token e = [] \<or> d \<noteq> backend_token e"
  | (replaced) k v dk d where "p = k @ CHR ''='' # query_escape d" "cut_char (CHR ''='') part = Some (k, v)"
      "query_unescape k = Some dk" "\<not> is_strict_query_auth_key dk"
      "d = rw_token e \<or> d = rw_synthetic e \<or> d = rw_server_id e"
proof (cases "cut_char (CHR ''='') part")
  case None
  with assms bare show ?thesis by (auto simp: rewrite_owned_part_def Let_def split: option.splits if_splits)
next
  case (Some kv)
  obtain k v where kv: "kv = (k, v)" by (cases kv)
  with assms Some obtain dk d where dk: "query_unescape k = Some dk" "\<not> is_strict_query_auth_key dk" "query_unescape v = Some d"
    by (auto simp: rewrite_owned_part_def Let_def split: option.splits if_splits)
  with assms Some kv have "(p = part \<and> (backend_token e = [] \<or> d \<noteq> backend_token e)) \<or>
      (\<exists>d'. p = k @ CHR ''='' # query_escape d' \<and> (d' = rw_token e \<or> d' = rw_synthetic e \<or> d' = rw_server_id e))"
    by (auto simp: rewrite_owned_part_def Let_def split: if_splits)
  with kept replaced Some kv dk show ?thesis by blast
qed

lemma owned_part_values:
  assumes "rewrite_owned_part e part = Some (Some p)"
  shows "is_strict_query_auth_key key \<Longrightarrow> part_values p key = []"
    and "CHR ''&'' \<notin> set part \<Longrightarrow> CHR ''&'' \<notin> set p"
    and "backend_token e \<notin> {[], rw_token e, rw_synthetic e, rw_server_id e} \<Longrightarrow> backend_token e \<notin> set (part_values p key)"
proof -
  show "is_strict_query_auth_key key \<Longrightarrow> part_values p key = []"
    using assms
  proof (cases rule: owned_part_cases)
    case (bare dk)
    assume "is_strict_query_auth_key key"
    with bare show ?thesis by (auto simp: part_values_def)
  next
    case (kept k v dk d)
    assume "is_strict_query_auth_key key"
    with kept have "dk \<noteq> key" by auto
    with kept show ?thesis using part_values_pair(2) by blast
  next
    case (replaced k v dk d)
    assume "is_strict_query_auth_key key"
    with replaced have "dk \<noteq> key" by auto
    with replaced show ?thesis using part_values_pair(2) cut_char_key by blast
  qed
  show "CHR ''&'' \<notin> set part \<Longrightarrow> CHR ''&'' \<notin> set p"
    using assms
  proof (cases rule: owned_part_cases)
    case (replaced k v dk d)
    assume "CHR ''&'' \<notin> set part"
    with replaced show ?thesis by (auto simp: cut_char_Some_iff query_escape_separators)
  qed simp_all
  show "backend_token e \<notin> {[], rw_token e, rw_synthetic e, rw_server_id e} \<Longrightarrow> backend_token e \<notin> set (part_values p key)"
    using assms
  proof (cases rule: owned_part_cases)
    case (bare dk)
    assume "backend_token e \<notin> {[], rw_token e, rw_synthetic e, rw_server_id e}"
    with bare show ?thesis by (auto simp: part_values_def)
  next
    case (kept k v dk d)
    assume "backend_token e \<notin> {[], rw_token e, rw_synthetic e, rw_server_id e}"
    with kept part_values_pair(1) [OF kept(2,3), of key] show ?thesis by auto
  next
    case (replaced k v dk d)
    assume "backend_token e \<notin> {[], rw_token e, rw_synthetic e, rw_server_id e}"
    with replaced part_values_pair(1) [OF cut_char_key [OF replaced(2)] replaced(3), of "query_escape d" key]
    show ?thesis by (auto simp: query_escape_round_trip)
  qed
qed

lemma owned_parts:
  "rewrite_owned_parts e parts = Some out \<Longrightarrow>
     length out \<le> length parts \<and> (\<forall>p \<in> set out. \<exists>part \<in> set parts. rewrite_owned_part e part = Some (Some p))"
  by (induction parts arbitrary: out) (fastforce split: option.splits)+

text \<open>
  The query of a reference the gateway takes over names a token once: \<open>api_key\<close> has the client's token as
  its only value, no other key that names a token is left, and no value is the upstream's token.
\<close>

theorem owned_query_carries_the_client_token:
  assumes "rewrite_owned_query e raw True = Some q" and "rw_token e \<noteq> []"
    and "length (split_char (CHR ''&'') raw) < max_query_params"
  shows "query_all (fst (parse_query q)) ''api_key'' = [rw_token e] \<and>
    (\<forall>key. is_strict_query_auth_key key \<and> key \<noteq> ''api_key'' \<longrightarrow> query_all (fst (parse_query q)) key = []) \<and>
    (backend_token e \<notin> {[], rw_token e, rw_synthetic e, rw_server_id e} \<longrightarrow>
       (\<forall>key. backend_token e \<notin> set (query_all (fst (parse_query q)) key)))"
proof -
  define parts where "parts = (if raw = [] then [] else split_char (CHR ''&'') raw)"
  define api where "api = ''api_key='' @ query_escape (rw_token e)"
  obtain out where out: "rewrite_owned_parts e parts = Some out" and q: "q = join_with ''&'' (out @ [api])"
    using assms(1,2) by (auto simp: rewrite_owned_query_def parts_def api_def)
  have parts: "length parts < max_query_params" "\<forall>part \<in> set parts. CHR ''&'' \<notin> set part"
    using assms(3) by (auto simp: parts_def max_query_params_def dest: split_char_no_sep)
  have from_part: "\<exists>part \<in> set parts. rewrite_owned_part e part = Some (Some p)" if "p \<in> set out" for p
    using owned_parts [OF out] that by blast
  have sep: "CHR ''&'' \<notin> set p" if "p \<in> set (out @ [api])" for p
  proof (cases "p = api")
    case True
    then show ?thesis using query_escape_separators(1) by (simp add: api_def)
  next
    case False
    with that obtain part where "part \<in> set parts" "rewrite_owned_part e part = Some (Some p)"
      using from_part by auto
    then show ?thesis using parts(2) owned_part_values(2) by blast
  qed
  then have split: "split_char (CHR ''&'') q = out @ [api]"
    unfolding q by (intro split_char_join_with) auto
  have "length (split_char (CHR ''&'') q) \<le> max_query_params"
    using owned_parts [OF out] parts(1) by (simp add: split)
  then have vals: "query_all (fst (parse_query q)) key = concat (map (\<lambda>p. part_values p key) (out @ [api]))" for key
    by (simp add: parse_query_values split)
  have cut: "cut_char (CHR ''='') api = Some (''api_key'', query_escape (rw_token e))"
    by (auto simp: api_def cut_char_Some_iff)
  have key: "query_unescape ''api_key'' = Some ''api_key''" by code_simp
  have api_none: "part_values api k = []" if "k \<noteq> ''api_key''" for k
    using part_values_pair(2) [OF cut key] that by auto
  have "api \<noteq> []" "CHR '';'' \<notin> set api" using query_escape_separators by (auto simp: api_def)
  then have api_some: "part_values api ''api_key'' = [rw_token e]"
    using cut key by (simp add: part_values_def query_escape_round_trip)
  have strict: "concat (map (\<lambda>p. part_values p k) out) = []" if "is_strict_query_auth_key k" for k
  proof -
    have "part_values p k = []" if "p \<in> set out" for p
      using from_part [OF that] owned_part_values(1) \<open>is_strict_query_auth_key k\<close> by blast
    then show ?thesis by simp
  qed
  have clean: "backend_token e \<notin> set (concat (map (\<lambda>p. part_values p k) out))"
    if "backend_token e \<notin> {[], rw_token e, rw_synthetic e, rw_server_id e}" for k
  proof -
    have "backend_token e \<notin> set (part_values p k)" if "p \<in> set out" for p
      using from_part [OF that] owned_part_values(3) \<open>backend_token e \<notin> {[], rw_token e, rw_synthetic e, rw_server_id e}\<close> by blast
    then show ?thesis by simp
  qed
  have "query_all (fst (parse_query q)) ''api_key'' = [rw_token e]"
    using strict [of "''api_key''"] by (simp add: vals api_some is_strict_query_auth_key_def)
  moreover have "query_all (fst (parse_query q)) k = []" if "is_strict_query_auth_key k" "k \<noteq> ''api_key''" for k
    using strict [OF that(1)] api_none [OF that(2)] by (simp add: vals)
  moreover have "backend_token e \<notin> set (query_all (fst (parse_query q)) k)"
    if "backend_token e \<notin> {[], rw_token e, rw_synthetic e, rw_server_id e}" for k
    using clean [OF that, of k] api_none [of k] api_some that by (cases "k = ''api_key''") (auto simp: vals)
  ultimately show ?thesis by blast
qed

definition sample_env :: rewrite_env where
  "sample_env =
     \<lparr>rw_ip6 = (\<lambda>_. False), rw_session = Some sample_session, rw_upstream = sample_upstream, rw_token = ''abc'',
      rw_base = ''https://gw.example/emby'', rw_server_id = ''gw''\<rparr>"

lemma owned_query_carries_the_client_token_witness:
  "\<exists>q. rewrite_owned_query sample_env ''Static=true&api_key=up&sig=up'' True = Some q \<and>
     query_all (fst (parse_query q)) ''api_key'' = [''abc'']"
proof -
  have q: "rewrite_owned_query sample_env ''Static=true&api_key=up&sig=up'' True = Some ''Static=true&sig=abc&api_key=abc''"
    by code_simp
  have "length (split_char (CHR ''&'') ''Static=true&api_key=up&sig=up'') < max_query_params"
    by (simp add: max_query_params_def)
  from owned_query_carries_the_client_token [OF q _ this] q show ?thesis by (simp add: sample_env_def)
qed


text \<open>
  A playlist is split at \<open>CR LF\<close> as soon as it has one. A reference after a lone \<open>LF\<close> then belongs to the
  comment line before it and goes out as it came, with the upstream's token.
\<close>

lemma mixed_line_ends_leak:
  "rewrite_m3u8 sample_env ''/Videos/1/main.m3u8''
     (''#EXTINF:1'' @ [CHR 0x0A] @ ''seg.ts?api_key=up'' @ [CHR 0x0D, CHR 0x0A] @ ''#EXT-X-ENDLIST'') =
   ''#EXTINF:1'' @ [CHR 0x0A] @ ''seg.ts?api_key=up'' @ [CHR 0x0D, CHR 0x0A] @ ''#EXT-X-ENDLIST''"
  by code_simp

lemma single_line_ends_rewritten:
  "rewrite_m3u8 sample_env ''/Videos/1/main.m3u8''
     (''#EXTINF:1'' @ [CHR 0x0A] @ ''seg.ts?api_key=up'' @ [CHR 0x0A] @ ''#EXT-X-ENDLIST'') =
   ''#EXTINF:1'' @ [CHR 0x0A] @ ''https://gw.example/emby/Videos/1/seg.ts?api_key=abc'' @ [CHR 0x0A] @ ''#EXT-X-ENDLIST''"
  by code_simp

end
