(* ===== verification/Gateway_Requests.thy ===== *)
theory Gateway_Requests
  imports Outgoing_Request
begin

text \<open>
  What the handlers of \<open>internal/gateway/server.go\<close> share: which request paths are accepted and what
  they are relative to the gateway's base, who asks, how the gateway names itself, the limiter of
  failed logins, the answers and the objects that describe users.
\<close>

section \<open>Request paths\<close>

text \<open>The scan of \<open>validRequestPath\<close> over the escaped path.\<close>

fun escapes_ok :: "string \<Rightarrow> bool" where
  "escapes_ok [] \<longleftrightarrow> True"
| "escapes_ok (c # cs) \<longleftrightarrow>
     c \<noteq> CHR 0x5C \<and> c \<noteq> CHR 0x00 \<and>
     (if c = CHR ''%''
      then (case cs of
              a # b # rest \<Rightarrow>
                is_hex a \<and> is_hex b \<and> to_lower [a, b] \<notin> {''2f'', ''5c'', ''00''} \<and> escapes_ok rest
            | _ \<Rightarrow> False)
      else escapes_ok cs)"

text \<open>The loop over the segments: empty ones only at both ends, no dots.\<close>

definition segments_ok :: "string list \<Rightarrow> bool" where
  "segments_ok segs \<longleftrightarrow>
     list_all (\<lambda>i. segs ! i \<noteq> ''.'' \<and> segs ! i \<noteq> ''..'' \<and>
       (segs ! i = [] \<longrightarrow> i = 0 \<or> i = length segs - 1)) [0..<length segs]"

definition valid_request_path :: "http_request \<Rightarrow> bool" where
  "valid_request_path r \<longleftrightarrow>
     (let raw = (if hr_escaped r = [] then hr_path r else hr_escaped r)
      in escapes_ok raw \<and>
         (case path_unescape raw of
            None \<Rightarrow> False
          | Some decoded \<Rightarrow>
              \<not> contains_any decoded [CHR 0x5C, CHR 0x00] \<and> segments_ok (split_char (CHR ''/'') decoded)))"

definition relative_path :: "string \<Rightarrow> string \<Rightarrow> string option" where
  "relative_path base_path request_path =
     (let base = trim_right_char (CHR ''/'') base_path
      in if request_path = base then Some ''/''
         else if \<not> prefix (base @ ''/'') request_path then None
         else Some (CHR ''/'' # trim_prefix request_path (base @ ''/'')))"

definition is_single_user_path :: "string \<Rightarrow> bool" where
  "is_single_user_path rel \<longleftrightarrow>
     (case path_parts rel of
        [a, b] \<Rightarrow> equal_fold a ''Users'' \<and> \<not> equal_fold b ''Public''
      | _ \<Rightarrow> False)"

definition playback_info_item_id :: "string \<Rightarrow> string \<Rightarrow> string option" where
  "playback_info_item_id me rel =
     (if me \<noteq> ''GET'' \<and> me \<noteq> ''POST'' then None
      else (case path_parts rel of
              [a, item, b] \<Rightarrow>
                (if equal_fold a ''Items'' \<and> trim_space item \<noteq> [] \<and> equal_fold b ''PlaybackInfo''
                 then Some item else None)
            | _ \<Rightarrow> None))"

section \<open>Who asks\<close>

text \<open>\<open>net.SplitHostPort\<close>: the host of \<open>host:port\<close> or \<open>[host]:port\<close>.\<close>

definition split_host :: "string \<Rightarrow> string option" where
  "split_host hostport =
     (if CHR '':'' \<notin> set hostport then None
      else (let i = length hostport - 1 - length (takeWhile (\<lambda>c. c \<noteq> CHR '':'') (rev hostport))
            in if hd hostport = CHR ''[''
               then (case cut_char (CHR '']'') hostport of
                       None \<Rightarrow> None
                     | Some (front, _) \<Rightarrow>
                         (if length front + 1 \<noteq> i \<or> CHR ''['' \<in> set (drop 1 hostport) \<or>
                             CHR '']'' \<in> set (drop i hostport) then None
                          else Some (drop 1 front)))
               else (if CHR '':'' \<in> set (take i hostport) \<or> CHR ''['' \<in> set hostport \<or>
                        CHR '']'' \<in> set hostport then None
                     else Some (take i hostport))))"

definition remote_ip :: "http_request \<Rightarrow> string" where
  "remote_ip r =
     (let xff = trim_space (header_get (hr_header r) ''X-Forwarded-For'')
      in if xff \<noteq> []
         then (case cut_char (CHR '','') xff of Some (first, _) \<Rightarrow> trim_space first | None \<Rightarrow> xff)
         else (case split_host (hr_remote_addr r) of Some host \<Rightarrow> host | None \<Rightarrow> hr_remote_addr r))"

section \<open>Configuration\<close>

record gateway_config =
  gc_base_path :: string
  gc_public_base :: string
  gc_server_id :: string
  gc_resume :: resume_policy

text \<open>The defaults \<open>NewServer\<close> fills in.\<close>

definition with_config_defaults :: "gateway_config \<Rightarrow> gateway_config" where
  "with_config_defaults cfg =
     (let base = (if gc_base_path cfg = [] then ''/emby'' else gc_base_path cfg);
          base = (if prefix ''/'' base then base else CHR ''/'' # base);
          positive = (\<lambda>x d. if f64_less (Fin 0) x then x else if x = NaN then x else Fin d);
          p = gc_resume cfg
      in cfg\<lparr>gc_base_path := base,
             gc_server_id := (if gc_server_id cfg = [] then ''emby-auth-gateway'' else gc_server_id cfg),
             gc_resume := p\<lparr>rp_min_pct := positive (rp_min_pct p) 5, rp_max_pct := positive (rp_max_pct p) 90,
               rp_min_duration := positive (rp_min_duration p) 300\<rparr>\<rparr>)"

definition public_gateway_base :: "gateway_config \<Rightarrow> string" where
  "public_gateway_base cfg =
     (let base = trim_right_char (CHR ''/'') (gc_public_base cfg);
          path_part = trim_right_char (CHR ''/'') (gc_base_path cfg)
      in if base = [] then path_part else if suffix path_part base then base else base @ path_part)"

definition gateway_base_for_request :: "gateway_config \<Rightarrow> http_request \<Rightarrow> string" where
  "gateway_base_for_request cfg r =
     (if trim_space (gc_public_base cfg) \<noteq> [] then public_gateway_base cfg
      else (let forwarded = header_get (hr_header r) ''X-Forwarded-Host'';
                host = (if forwarded = [] then hr_host r else forwarded);
                proto = header_get (hr_header r) ''X-Forwarded-Proto'';
                scheme = (if proto = [] then (if hr_tls r then ''https'' else ''http'') else proto)
            in if host = [] then public_gateway_base cfg
               else trim_right_char (CHR ''/'') (scheme @ ''://'' @ host) @
                 trim_right_char (CHR ''/'') (gc_base_path cfg)))"

section \<open>The limiter of failed logins\<close>

record login_entry =
  le_count :: int
  le_blocked_till :: time

type_synonym login_limiter = "(string, login_entry) gomap"

definition login_failure_limit :: int where "login_failure_limit = 5"
definition login_failure_block :: duration where "login_failure_block = minute"

definition login_blocked :: "string \<Rightarrow> time \<Rightarrow> login_limiter \<Rightarrow> bool \<times> login_limiter" where
  "login_blocked key now l =
     (case map_of l key of
        None \<Rightarrow> (False, l)
      | Some e \<Rightarrow>
          (if le_blocked_till e = 0 then (False, l)
           else if now < le_blocked_till e then (True, l)
           else (False, AList.delete key l)))"

definition record_login_failure :: "string \<Rightarrow> time \<Rightarrow> login_limiter \<Rightarrow> login_limiter" where
  "record_login_failure key now l =
     (let e = (case map_of l key of Some e \<Rightarrow> e | None \<Rightarrow> \<lparr>le_count = 0, le_blocked_till = 0\<rparr>);
          e = e\<lparr>le_count := le_count e + 1\<rparr>;
          e = (if login_failure_limit \<le> le_count e then e\<lparr>le_blocked_till := now + login_failure_block\<rparr> else e)
      in AList.update key e l)"

definition clear_login_failures :: "string \<Rightarrow> login_limiter \<Rightarrow> login_limiter" where
  "clear_login_failures key l = AList.delete key l"

definition login_failure_key :: "string \<Rightarrow> http_request \<Rightarrow> string" where
  "login_failure_key username r = to_lower (trim_space username) @ [CHR 0x00] @ remote_ip r"

section \<open>Answers\<close>

text \<open>
  A body is nothing, text, a value printed as JSON, or bytes, with whether the handler completed them
  (otherwise it aborted the connection).
\<close>

datatype body = NoBody | TextBody string | JSONBody json | Bytes string bool

record response =
  re_status :: int
  re_header :: header
  re_cookies :: "set_cookie list"
  re_body :: body

text \<open>\<open>http.Error\<close> and \<open>writeJSON\<close>.\<close>

definition http_error :: "header \<Rightarrow> string \<Rightarrow> int \<Rightarrow> response" where
  "http_error h message status =
     \<lparr>re_status = status,
      re_header = header_set ''X-Content-Type-Options'' ''nosniff''
        (header_set ''Content-Type'' ''text/plain; charset=utf-8'' (header_del ''Content-Length'' h)),
      re_cookies = [], re_body = TextBody (message @ [CHR 0x0A])\<rparr>"

definition write_json :: "header \<Rightarrow> set_cookie list \<Rightarrow> int \<Rightarrow> json \<Rightarrow> response" where
  "write_json h cookies status v =
     \<lparr>re_status = status, re_header = header_set ''Content-Type'' ''application/json'' h, re_cookies = cookies,
      re_body = JSONBody v\<rparr>"

definition write_header :: "header \<Rightarrow> int \<Rightarrow> response" where
  "write_header h status = \<lparr>re_status = status, re_header = h, re_cookies = [], re_body = NoBody\<rparr>"

definition write_credential_query_error :: "header \<Rightarrow> query_error \<Rightarrow> response" where
  "write_credential_query_error h err =
     http_error h
       (case err of CredentialStore \<Rightarrow> ''service unavailable'' | _ \<Rightarrow> ''bad request'') (credential_query_status err)"

section \<open>Users\<close>

definition user_dto :: "string \<Rightarrow> string \<Rightarrow> string \<Rightarrow> jobject" where
  "user_dto username synthetic server_id =
     [(''Name'', JString username), (''ServerId'', JString server_id), (''ServerName'', JString ''Emby Gateway''),
      (''Id'', JString synthetic), (''HasPassword'', JBool True), (''HasConfiguredPassword'', JBool True),
      (''EnableAutoLogin'', JBool False)]"

definition user_configuration :: jobject where
  "user_configuration =
     [(''PlayDefaultAudioTrack'', JBool True), (''SubtitleMode'', JString ''Smart''),
      (''RememberAudioSelections'', JBool True), (''RememberSubtitleSelections'', JBool True),
      (''EnableNextEpisodeAutoPlay'', JBool True), (''HidePlayedInLatest'', JBool True),
      (''HidePlayedInMoreLikeThis'', JBool False), (''HidePlayedInSuggestions'', JBool False),
      (''EnableLocalPassword'', JBool False), (''DisplayMissingEpisodes'', JBool False),
      (''ResumeRewindSeconds'', JInt 0), (''OrderedViews'', JArray []), (''LatestItemsExcludes'', JArray []),
      (''MyMediaExcludes'', JArray [])]"

definition user_policy :: jobject where
  "user_policy =
     [(''IsAdministrator'', JBool False), (''IsHidden'', JBool False), (''IsDisabled'', JBool False),
      (''EnableUserPreferenceAccess'', JBool True), (''EnableRemoteControlOfOtherUsers'', JBool False),
      (''EnableSharedDeviceControl'', JBool False), (''EnableRemoteAccess'', JBool True),
      (''EnableMediaPlayback'', JBool True), (''EnableAudioPlaybackTranscoding'', JBool True),
      (''EnableVideoPlaybackTranscoding'', JBool True), (''EnablePlaybackRemuxing'', JBool True),
      (''EnableContentDownloading'', JBool True), (''EnableLiveTvAccess'', JBool False),
      (''EnableLiveTvManagement'', JBool False), (''EnableUserCreatedContent'', JBool False),
      (''EnableCollectionManagement'', JBool False), (''EnableSubtitleManagement'', JBool False),
      (''EnableContentDeletion'', JBool False), (''EnablePublicSharing'', JBool False),
      (''EnableContentDeletionFromFolders'', JArray []), (''RestrictedFeatures'', JArray []),
      (''EnableMediaConversion'', JBool False), (''EnableAllChannels'', JBool True),
      (''EnableAllFolders'', JBool True), (''EnableAllDevices'', JBool True), (''BlockedTags'', JArray []),
      (''AccessSchedules'', JArray []), (''BlockUnratedItems'', JArray []), (''EnabledChannels'', JArray []),
      (''EnabledFolders'', JArray []), (''EnabledDevices'', JArray [])]"

definition private_user_dto :: "string \<Rightarrow> string \<Rightarrow> string \<Rightarrow> jobject" where
  "private_user_dto username synthetic server_id =
     user_dto username synthetic server_id @
       [(''Configuration'', JObject user_configuration), (''Policy'', JObject user_policy)]"

definition authentication_result_dto :: "gateway_user \<Rightarrow> session \<Rightarrow> string \<Rightarrow> string \<Rightarrow> jobject" where
  "authentication_result_dto user s token server_id =
     [(''AccessToken'', JString token), (''ServerId'', JString server_id),
      (''User'', JObject (private_user_dto (gu_username user) (gu_synthetic user) server_id)),
      (''SessionInfo'', JObject
        [(''ServerId'', JString server_id), (''UserId'', JString (gu_synthetic user)),
         (''UserName'', JString (gu_username user)), (''Client'', JString (gs_client s)),
         (''DeviceName'', JString (gs_device s)), (''DeviceId'', JString (gs_device_id s)),
         (''ApplicationVersion'', JString (gs_version s)), (''SupportedCommands'', JArray []),
         (''PlayableMediaTypes'', JArray []), (''AdditionalUsers'', JArray [])])]"

end
