(* ===== verification/Media_Copy.thy ===== *)
theory Media_Copy
  imports Gateway_Requests
begin

text \<open>
  Bodies on their way to the client: the copy of media with its announced length
  (\<open>media_copy.go\<close>), the check of images while they stream (\<open>server.go\<close>) and of whole images
  (\<open>anonymous_image.go\<close>), and which bodies count as media (\<open>server.go\<close>, \<open>media_deadline.go\<close>). A reader
  is the list of what its reads return, and \<open>EOF\<close> after that; a writer the list of what its writes
  return, and everything succeeds after that.
\<close>

section \<open>Reading and writing\<close>

datatype io_error =
    EndOfFile
  | UnexpectedEndOfFile
  | ContextCanceled
  | DeadlineExceeded
  | NetTimeout
  | ShortWrite
  | NoProgress
  | LengthMismatch
  | InvalidRead
  | InvalidWrite
  | OtherError string

text \<open>One \<open>Read\<close>: the bytes and the error, or a count out of range. One \<open>Write\<close>: count and error.\<close>

datatype read_result = ReadResult string "io_error option" | ReadOutOfRange
type_synonym write_result = "int \<times> io_error option"

datatype direction = NoDirection | Upstream | Downstream

section \<open>Copying media\<close>

definition media_copy_buffer_size :: nat where "media_copy_buffer_size = 32 * 1024"
definition empty_read_limit :: nat where "empty_read_limit = 100"

text \<open>\<open>mc_sent\<close> are the bytes the writer took; the code counts them only.\<close>

record copy_result =
  mc_bytes_read :: int
  mc_bytes_written :: int
  mc_direction :: direction
  mc_err :: "io_error option"
  mc_sent :: string

definition finish_copy :: "direction \<Rightarrow> io_error option \<Rightarrow> copy_result \<Rightarrow> copy_result" where
  "finish_copy d err res = res\<lparr>mc_direction := d, mc_err := err\<rparr>"

text \<open>The part of one turn that writes: the result, whether the copy ends with it, the writes left.\<close>

definition write_part ::
  "string \<Rightarrow> write_result list \<Rightarrow> copy_result \<Rightarrow> copy_result \<times> bool \<times> write_result list" where
  "write_part chunk writes res =
     (if chunk = [] then (res, False, writes)
      else (let (written, err) = (case writes of [] \<Rightarrow> (int (length chunk), None) | w # _ \<Rightarrow> w);
                writes = drop 1 writes
            in if written < 0 \<or> int (length chunk) < written
               then (finish_copy Downstream (Some InvalidWrite) res, True, writes)
               else (let res = res\<lparr>mc_bytes_written := mc_bytes_written res + written,
                           mc_sent := mc_sent res @ take (nat written) chunk\<rparr>
                     in if err \<noteq> None then (finish_copy Downstream err res, True, writes)
                        else if written < int (length chunk)
                        then (finish_copy Downstream (Some ShortWrite) res, True, writes)
                        else (res, False, writes))))"

text \<open>The end of one turn: the result when the copy ends with it.\<close>

definition end_of_turn :: "int \<Rightarrow> io_error option \<Rightarrow> copy_result \<Rightarrow> copy_result option" where
  "end_of_turn expected err res =
     (case err of
        None \<Rightarrow> None
      | Some e \<Rightarrow>
          Some (if e \<noteq> EndOfFile then finish_copy Upstream (Some e) res
                else if 0 \<le> expected \<and> mc_bytes_read res < expected
                then finish_copy Upstream (Some UnexpectedEndOfFile) res
                else finish_copy NoDirection None res))"

text \<open>
  One turn of \<open>copyMediaBody\<close>: the empty reads in a row, the result and whether the copy ends with
  it. \<open>expected\<close> is negative when no length was announced.
\<close>

definition copy_turn ::
  "int \<Rightarrow> read_result \<Rightarrow> nat \<Rightarrow> copy_result \<Rightarrow> write_result list \<Rightarrow> (nat \<times> copy_result \<times> bool) \<times> write_result list" where
  "copy_turn expected r idle res writes =
     (case r of
        ReadOutOfRange \<Rightarrow> ((idle, finish_copy Upstream (Some InvalidRead) res, True), writes)
      | ReadResult chunk err \<Rightarrow>
          (let settle = (\<lambda>idle res. case end_of_turn expected err res of
                 Some res \<Rightarrow> (idle, res, True) | None \<Rightarrow> (idle, res, False))
           in if media_copy_buffer_size < length chunk
              then ((idle, finish_copy Upstream (Some InvalidRead) res, True), writes)
              else if chunk \<noteq> []
              then (let res = res\<lparr>mc_bytes_read := mc_bytes_read res + int (length chunk)\<rparr>;
                        mismatch = (0 \<le> expected \<and> expected < mc_bytes_read res);
                        len = (if mismatch then int (length chunk) - (mc_bytes_read res - expected)
                               else int (length chunk));
                        (res, ended, writes) = write_part (if 0 < len then take (nat len) chunk else []) writes res
                    in if ended then ((0, res, True), writes)
                       else if mismatch then ((0, finish_copy Upstream (Some LengthMismatch) res, True), writes)
                       else (settle 0 res, writes))
              else if err = None
              then (if empty_read_limit \<le> Suc idle
                    then ((Suc idle, finish_copy Upstream (Some NoProgress) res, True), writes)
                    else (settle (Suc idle) res, writes))
              else (settle idle res, writes)))"

fun copy_media_loop ::
  "int \<Rightarrow> nat \<Rightarrow> copy_result \<Rightarrow> read_result list \<Rightarrow> write_result list \<Rightarrow> copy_result" where
  "copy_media_loop expected idle res [] writes =
     (case copy_turn expected (ReadResult [] (Some EndOfFile)) idle res writes of ((_, res, _), _) \<Rightarrow> res)"
| "copy_media_loop expected idle res (r # reads) writes =
     (case copy_turn expected r idle res writes of
        ((idle, res, ended), writes) \<Rightarrow>
          if ended then res else copy_media_loop expected idle res reads writes)"

definition copy_media_body :: "int \<Rightarrow> read_result list \<Rightarrow> write_result list \<Rightarrow> copy_result" where
  "copy_media_body expected reads writes =
     copy_media_loop expected 0
       \<lparr>mc_bytes_read = 0, mc_bytes_written = 0, mc_direction = NoDirection, mc_err = None, mc_sent = []\<rparr> reads writes"

text \<open>\<open>readLimited\<close>: the whole body, unless it is longer than the limit or cannot be read.\<close>

fun read_all :: "read_result list \<Rightarrow> string \<times> io_error option" where
  "read_all [] = ([], None)"
| "read_all (ReadOutOfRange # reads) = ([], Some InvalidRead)"
| "read_all (ReadResult chunk err # reads) =
     (case err of
        None \<Rightarrow> (case read_all reads of (data, err) \<Rightarrow> (chunk @ data, err))
      | Some e \<Rightarrow> (chunk, if e = EndOfFile then None else Some e))"

definition read_limited :: "nat \<Rightarrow> read_result list \<Rightarrow> io_error + string" where
  "read_limited limit reads =
     (case read_all reads of
        (data, err) \<Rightarrow>
          if limit < length data then Inl (OtherError ''response body exceeds limit'')
          else (case err of Some e \<Rightarrow> Inl e | None \<Rightarrow> Inr data))"

text \<open>A read with room for \<open>n\<close> bytes: what it returns and what is left to read.\<close>

definition first_read :: "nat \<Rightarrow> read_result list \<Rightarrow> string \<times> io_error option \<times> read_result list" where
  "first_read n reads =
     (case reads of
        [] \<Rightarrow> ([], Some EndOfFile, [])
      | ReadOutOfRange # rest \<Rightarrow> ([], Some InvalidRead, [])
      | ReadResult chunk err # rest \<Rightarrow>
          (if n < length chunk then (take n chunk, None, ReadResult (drop n chunk) err # rest)
           else (chunk, err, if err = None then rest else [])))"

text \<open>The chunks of a body up to its end or the error that ends it.\<close>

fun body_chunks :: "read_result list \<Rightarrow> string list \<times> io_error option" where
  "body_chunks [] = ([], None)"
| "body_chunks (ReadOutOfRange # reads) = ([], Some InvalidRead)"
| "body_chunks (ReadResult chunk err # reads) =
     (case err of
        None \<Rightarrow> (case body_chunks reads of (cs, err) \<Rightarrow> (chunk # cs, err))
      | Some e \<Rightarrow> ([chunk], if e = EndOfFile then None else Some e))"

text \<open>A body that is in memory, as the copy reads it.\<close>

function buffer_reads :: "string \<Rightarrow> read_result list" where
  "buffer_reads data =
     (if data = [] then []
      else ReadResult (take media_copy_buffer_size data) None # buffer_reads (drop media_copy_buffer_size data))"
  by pat_completeness auto
termination
  by (relation "measure length") (auto simp: media_copy_buffer_size_def)

declare buffer_reads.simps [simp del]

datatype copy_outcome =
    CopySuccess
  | CopyCanceled
  | CopyUpstreamError
  | CopyDownstreamError
  | CopyShortWrite
  | CopyLengthMismatch
  | CopyInvalidRead
  | CopyInvalidWrite
  | CopyNoProgress
  | CopyInvariantError

definition classify_media_copy_outcome :: "direction \<Rightarrow> io_error option \<Rightarrow> bool \<Rightarrow> copy_outcome" where
  "classify_media_copy_outcome d err invariant_observed =
     (if d = Downstream
      then (if err = Some InvalidWrite then CopyInvalidWrite
            else if err = Some ShortWrite then CopyShortWrite else CopyDownstreamError)
      else if err = Some ContextCanceled \<or> err = Some DeadlineExceeded then CopyCanceled
      else if d = Upstream
      then (if err = Some LengthMismatch then CopyLengthMismatch
            else if err = Some InvalidRead then CopyInvalidRead
            else if err = Some NoProgress then CopyNoProgress else CopyUpstreamError)
      else if invariant_observed then CopyInvariantError
      else CopySuccess)"

definition is_timeout_error :: "io_error option \<Rightarrow> bool" where
  "is_timeout_error err \<longleftrightarrow> err = Some DeadlineExceeded \<or> err = Some NetTimeout"

text \<open>
  What \<open>auditMediaCopyFailure\<close> records: event, message, kind of error; nothing when the client went
  away.
\<close>

definition media_copy_audit :: "copy_result \<Rightarrow> (string \<times> string \<times> string) option" where
  "media_copy_audit res =
     (if mc_direction res = Downstream \<and> \<not> is_timeout_error (mc_err res) then None
      else if mc_direction res = Downstream
      then Some (''proxy_media_downstream_timeout'', ''downstream media stream timed out'', ''downstream_timeout'')
      else Some (''proxy_media_upstream_failed'', ''upstream media stream failed'',
        if mc_err res = Some UnexpectedEndOfFile then ''upstream_unexpected_eof''
        else if mc_err res = Some LengthMismatch then ''upstream_length_mismatch''
        else ''upstream_read_error''))"

section \<open>Images while they stream\<close>

definition image_tail_size :: nat where "image_tail_size = 12"

definition png_signature :: string where
  "png_signature = [CHR 0x89] @ ''PNG'' @ [CHR 0x0D, CHR 0x0A, CHR 0x1A, CHR 0x0A]"

definition png_end :: string where
  "png_end = [CHR 0x00, CHR 0x00, CHR 0x00, CHR 0x00] @ ''IEND'' @ [CHR 0xAE, CHR 0x42, CHR 0x60, CHR 0x82]"

definition jpeg_start :: string where "jpeg_start = [CHR 0xFF, CHR 0xD8]"
definition jpeg_end :: string where "jpeg_end = [CHR 0xFF, CHR 0xD9]"

text \<open>\<open>binary.LittleEndian.Uint32\<close> of four bytes.\<close>

definition le_uint32 :: "string \<Rightarrow> int" where
  "le_uint32 bs = (case map of_char bs of
     [a, b, c, d] \<Rightarrow> a + 256 * b + 65536 * c + 16777216 * d | _ \<Rightarrow> 0)"

text \<open>The validator: the media type, the first and last bytes, the count, and what it passed on.\<close>

record image_validator =
  iv_type :: string
  iv_prefix :: string
  iv_tail :: string
  iv_total :: int
  iv_passthrough :: bool
  iv_out :: string

definition new_image_validator :: "string \<Rightarrow> image_validator" where
  "new_image_validator media_type =
     \<lparr>iv_type = media_type, iv_prefix = [], iv_tail = [], iv_total = 0,
      iv_passthrough = (media_type \<noteq> ''image/jpeg'' \<and> media_type \<noteq> ''image/png'' \<and> media_type \<noteq> ''image/webp''),
      iv_out = []\<rparr>"

text \<open>\<open>Write\<close> for a writer that takes everything.\<close>

definition image_write :: "string \<Rightarrow> image_validator \<Rightarrow> image_validator" where
  "image_write p v =
     (if p = [] then v
      else (let v = v\<lparr>iv_total := iv_total v + int (length p),
                  iv_prefix := (if length (iv_prefix v) < image_tail_size
                    then iv_prefix v @ take (image_tail_size - length (iv_prefix v)) p else iv_prefix v)\<rparr>;
                combined = iv_tail v @ p
            in if iv_passthrough v then v\<lparr>iv_out := iv_out v @ p\<rparr>
               else if length combined \<le> image_tail_size then v\<lparr>iv_tail := combined\<rparr>
               else (let flush = length combined - image_tail_size
                     in v\<lparr>iv_out := iv_out v @ take flush combined, iv_tail := drop flush combined\<rparr>)))"

definition image_ok :: "image_validator \<Rightarrow> bool" where
  "image_ok v \<longleftrightarrow>
     (let p = iv_prefix v; t = iv_tail v
      in if iv_type v = ''image/jpeg''
         then 2 \<le> length p \<and> 2 \<le> length t \<and> take 2 p = jpeg_start \<and> drop (length t - 2) t = jpeg_end
         else if iv_type v = ''image/png''
         then length png_signature \<le> length p \<and> take (length png_signature) p = png_signature \<and> t = png_end
         else if iv_type v = ''image/webp''
         then 12 \<le> length p \<and> take 4 p = ''RIFF'' \<and> take 4 (drop 8 p) = ''WEBP'' \<and>
           le_uint32 (take 4 (drop 4 p)) + 8 = iv_total v
         else True)"

text \<open>\<open>Finish\<close>: everything the client received, and whether it succeeds.\<close>

definition image_finish :: "image_validator \<Rightarrow> string \<times> bool" where
  "image_finish v =
     (if iv_passthrough v then (iv_out v, True)
      else if \<not> image_ok v then (iv_out v, False)
      else (iv_out v @ iv_tail v, True))"

section \<open>Whole images\<close>

definition valid_anonymous_full_image :: "string \<Rightarrow> string \<Rightarrow> bool" where
  "valid_anonymous_full_image data media_type \<longleftrightarrow>
     (let n = length data
      in if media_type = ''image/jpeg''
         then 4 \<le> n \<and> take 2 data = jpeg_start \<and> drop (n - 2) data = jpeg_end
         else if media_type = ''image/png''
         then 20 \<le> n \<and> take 8 data = png_signature \<and> drop (n - 12) data = png_end
         else if media_type = ''image/webp''
         then 12 \<le> n \<and> take 4 data = ''RIFF'' \<and> take 4 (drop 8 data) = ''WEBP'' \<and>
           le_uint32 (take 4 (drop 4 data)) + 8 = int n
         else if media_type = ''image/gif''
         then 14 \<le> n \<and> (prefix ''GIF87a'' data \<or> prefix ''GIF89a'' data) \<and> data ! (n - 1) = CHR 0x3B
         else False)"

text \<open>\<open>strings.Fields\<close>.\<close>

fun take_field :: "string \<Rightarrow> string" where
  "take_field [] = []"
| "take_field (c # cs) = (if list_ex (\<lambda>w. prefix w (c # cs)) space_runes then [] else c # take_field cs)"

lemma take_field_length: "length (take_field s) \<le> length s"
  by (induction s) auto

function space_fields :: "string \<Rightarrow> string list" where
  "space_fields s =
     (let s = trim_space_left s; f = take_field s
      in if f = [] then [] else f # space_fields (drop (length f) s))"
  by pat_completeness auto
termination
proof (relation "measure length", goal_cases)
  case (2 s x f)
  then show ?case
    using trim_space_left_length [of s] take_field_length [of x]
    by (metis diff_less dual_order.strict_trans2 in_measure length_drop length_greater_0_conv order_less_le_trans)
qed simp

declare space_fields.simps [simp del]

definition anonymous_content_range_length :: "string \<Rightarrow> int \<Rightarrow> int option" where
  "anonymous_content_range_length v content_length =
     (case space_fields v of
        [unit_name, range_spec] \<Rightarrow>
          (if unit_name \<noteq> ''bytes'' then None
           else (case split_char (CHR ''/'') range_spec of
                   [from_to, size_part] \<Rightarrow>
                     (case split_char (CHR ''-'') from_to of
                        [a, b] \<Rightarrow>
                          (case (parse_int64 a, parse_int64 b) of
                             (Some start, Some stop) \<Rightarrow>
                               (if start < 0 \<or> stop < start then None
                                else if size_part \<noteq> ''*'' \<and> (case parse_int64 size_part of None \<Rightarrow> True | Some n \<Rightarrow> n \<le> stop)
                                then None
                                else (let len = wrap64 (wrap64 (stop - start) + 1)
                                      in if 0 \<le> content_length \<and> len \<noteq> content_length then None else Some len))
                           | _ \<Rightarrow> None)
                      | _ \<Rightarrow> None)
                 | _ \<Rightarrow> None))
      | _ \<Rightarrow> None)"

section \<open>Kinds of bodies\<close>

definition is_json_content_type :: "(string \<Rightarrow> string) \<Rightarrow> string \<Rightarrow> bool" where
  "is_json_content_type media_type ct \<longleftrightarrow>
     (let mt = media_type ct in mt = ''application/json'' \<or> suffix ''+json'' mt)"

definition is_image_content_type :: "(string \<Rightarrow> string) \<Rightarrow> string \<Rightarrow> bool" where
  "is_image_content_type media_type ct \<longleftrightarrow> prefix ''image/'' (media_type ct)"

definition is_m3u8_content_type :: "(string \<Rightarrow> string) \<Rightarrow> string \<Rightarrow> bool" where
  "is_m3u8_content_type media_type ct \<longleftrightarrow>
     media_type ct \<in> {''application/vnd.apple.mpegurl'', ''application/x-mpegurl'', ''audio/mpegurl''}"

definition is_streaming_content_type :: "(string \<Rightarrow> string) \<Rightarrow> string \<Rightarrow> bool" where
  "is_streaming_content_type media_type ct \<longleftrightarrow>
     (let mt = media_type ct
      in prefix ''video/'' mt \<or> prefix ''audio/'' mt \<or> prefix ''image/'' mt \<or> mt = ''application/octet-stream'')"

text \<open>\<open>bytes.TrimSpace\<close> is \<open>strings.TrimSpace\<close>.\<close>

definition looks_like_json :: "string \<Rightarrow> bool" where
  "looks_like_json data \<longleftrightarrow>
     (let data = trim_space data in data \<noteq> [] \<and> (hd data = CHR ''{'' \<or> hd data = CHR ''[''))"

definition response_allows_body :: "string \<Rightarrow> int \<Rightarrow> bool" where
  "response_allows_body me status \<longleftrightarrow>
     me \<noteq> ''HEAD'' \<and> 200 \<le> status \<and> status \<noteq> 204 \<and> status \<noteq> 205 \<and> status \<noteq> 304"

text \<open>The answer of the upstream as far as its kind matters: status, headers, path of its request.\<close>

definition is_media_stream_response ::
  "(string \<Rightarrow> string) \<Rightarrow> http_request \<Rightarrow> string \<Rightarrow> int \<Rightarrow> header \<Rightarrow> string \<Rightarrow> bool" where
  "is_media_stream_response media_type r rel status h sent_path \<longleftrightarrow>
     (let ct = header_get h ''Content-Type''
      in response_allows_body (hr_method r) status \<and>
         \<not> (is_image_content_type media_type ct \<or> is_json_content_type media_type ct \<or>
            is_m3u8_content_type media_type ct \<or> suffix ''.m3u8'' (to_lower sent_path)) \<and>
         (is_streaming_content_type media_type ct \<or>
          prefix ''/videos/'' (to_lower rel) \<and>
          (trim_space (header_get (hr_header r) ''Range'') \<noteq> [] \<or> status = 206 \<or>
           trim_space (header_get h ''Content-Range'') \<noteq> [])))"

end
