(* ===== verification/Media_Copy_Theorems.thy ===== *)
theory Media_Copy_Theorems
  imports Media_Copy
begin

text \<open>
  What the copy of media delivers, and that the check of a streaming image is the check of the
  whole image.
\<close>

section \<open>The copy of media\<close>

text \<open>
  The copy so far, when \<open>data\<close> has been read: everything read was sent, within the announced length.
\<close>

definition copy_so_far :: "int \<Rightarrow> string \<Rightarrow> copy_result \<Rightarrow> bool" where
  "copy_so_far expected data res \<longleftrightarrow>
     mc_sent res = data \<and> mc_bytes_read res = int (length data) \<and> mc_bytes_written res = int (length data) \<and>
     (0 \<le> expected \<longrightarrow> mc_bytes_read res \<le> expected)"

text \<open>A copy that is over, when \<open>data\<close> is the whole body.\<close>

definition copy_over :: "int \<Rightarrow> string \<Rightarrow> copy_result \<Rightarrow> bool" where
  "copy_over expected data res \<longleftrightarrow>
     prefix (mc_sent res) data \<and> mc_bytes_written res = int (length (mc_sent res)) \<and>
     (0 \<le> expected \<longrightarrow> mc_bytes_written res \<le> expected) \<and>
     (mc_err res = None \<longrightarrow> mc_sent res = data \<and> (0 \<le> expected \<longrightarrow> int (length data) = expected))"

lemma finish_copy_simps [simp]:
  "mc_sent (finish_copy d err res) = mc_sent res"
  "mc_bytes_read (finish_copy d err res) = mc_bytes_read res"
  "mc_bytes_written (finish_copy d err res) = mc_bytes_written res"
  "mc_err (finish_copy d err res) = err"
  "mc_direction (finish_copy d err res) = d"
  by (simp_all add: finish_copy_def)

lemma copy_over_failed:
  assumes "copy_so_far expected data res"
  shows "copy_over expected (data @ rest) (finish_copy d (Some e) res)"
  using assms by (auto simp: copy_so_far_def copy_over_def)

text \<open>Writing a chunk: all of it and the copy goes on, or a part of it and the copy is over.\<close>

lemma write_part_result:
  assumes "write_part chunk writes res = (res', ended, writes')"
  shows "mc_bytes_read res' = mc_bytes_read res \<and>
    (\<exists>part. prefix part chunk \<and> mc_sent res' = mc_sent res @ part \<and>
       mc_bytes_written res' = mc_bytes_written res + int (length part) \<and>
       (if ended then mc_err res' \<noteq> None else part = chunk))"
proof (cases "chunk = []")
  case True
  then show ?thesis using assms by (auto simp: write_part_def)
next
  case False
  obtain w err where w: "(case writes of [] \<Rightarrow> (int (length chunk), None) | w # _ \<Rightarrow> w) = (w, err)"
    by fastforce
  let ?part = "if w < 0 \<or> int (length chunk) < w then [] else take (nat w) chunk"
  have "prefix ?part chunk" by (simp add: take_is_prefix)
  moreover have "(if ended then mc_err res' \<noteq> None else ?part = chunk) \<and> mc_sent res' = mc_sent res @ ?part \<and>
    mc_bytes_written res' = mc_bytes_written res + int (length ?part) \<and> mc_bytes_read res' = mc_bytes_read res"
    using assms False w by (auto simp: write_part_def Let_def split: if_splits)
  ultimately show ?thesis by blast
qed

lemma end_of_turn_over:
  assumes "copy_so_far expected data res" "end_of_turn expected (Some e) res = Some res'"
  shows "copy_over expected data res'"
  using assms by (auto simp: end_of_turn_def copy_so_far_def copy_over_def split: if_splits)

lemma copy_turn_over:
  assumes far: "copy_so_far expected data res"
    and turn: "copy_turn expected (ReadResult chunk err) idle res writes = ((idle', res', ended), writes')"
  shows "if ended then copy_over expected (data @ chunk @ (if err = None then rest else [])) res'
    else err = None \<and> copy_so_far expected (data @ chunk) res'"
proof (cases "media_copy_buffer_size < length chunk \<or> chunk = []")
  case True
  show ?thesis
  proof (cases "chunk = []")
    case empty: True
    show ?thesis
    proof (cases err)
      case None
      then show ?thesis
        using turn empty far copy_over_failed [OF far, of rest Upstream NoProgress]
        by (auto simp: copy_turn_def end_of_turn_def split: if_splits)
    next
      case (Some e)
      then obtain r where "end_of_turn expected err res = Some r" by (auto simp: end_of_turn_def)
      then show ?thesis using turn empty Some end_of_turn_over [OF far] by (auto simp: copy_turn_def)
    qed
  next
    case False
    then show ?thesis
      using turn True copy_over_failed [OF far, of "chunk @ (if err = None then rest else [])" Upstream InvalidRead]
      by (auto simp: copy_turn_def)
  qed
next
  case False
  define res1 where "res1 = res\<lparr>mc_bytes_read := mc_bytes_read res + int (length chunk)\<rparr>"
  define mismatch where "mismatch \<longleftrightarrow> 0 \<le> expected \<and> expected < mc_bytes_read res1"
  define len where "len = (if mismatch then int (length chunk) - (mc_bytes_read res1 - expected) else int (length chunk))"
  define piece where "piece = (if 0 < len then take (nat len) chunk else [])"
  obtain res2 over writes2 where w: "write_part piece writes res1 = (res2, over, writes2)"
    by (metis prod_cases3)
  obtain part where part: "prefix part piece" "mc_sent res2 = data @ part"
    "mc_bytes_written res2 = int (length data) + int (length part)"
    "mc_bytes_read res2 = int (length data) + int (length chunk)"
    "if over then mc_err res2 \<noteq> None else part = piece"
    using write_part_result [OF w] far by (auto simp: res1_def copy_so_far_def)
  have piece: "prefix piece chunk" by (simp add: piece_def take_is_prefix)
  have part_chunk: "prefix (data @ part) (data @ chunk @ x)" for x
    using prefix_order.trans [OF part(1) piece] by (simp add: prefix_prefix)
  have room: "0 \<le> expected \<longrightarrow> int (length data) + int (length piece) \<le> expected"
    using far by (auto simp: piece_def len_def mismatch_def res1_def copy_so_far_def)
  have part_room: "0 \<le> expected \<longrightarrow> int (length data) + int (length part) \<le> expected"
    using room prefix_length_le [OF part(1)] by linarith
  have copy: "copy_turn expected (ReadResult chunk err) idle res writes =
    (case write_part piece writes res1 of
       (res, ended, writes) \<Rightarrow>
         (if ended then ((0, res, True), writes)
          else if mismatch then ((0, finish_copy Upstream (Some LengthMismatch) res, True), writes)
          else ((case end_of_turn expected err res of Some r \<Rightarrow> (0, r, True) | None \<Rightarrow> (0, res, False)), writes)))"
    using False unfolding copy_turn_def piece_def len_def mismatch_def res1_def Let_def by simp
  have res: "((idle', res', ended), writes') =
    (if over then ((0, res2, True), writes2)
     else if mismatch then ((0, finish_copy Upstream (Some LengthMismatch) res2, True), writes2)
     else ((case end_of_turn expected err res2 of Some r \<Rightarrow> (0, r, True) | None \<Rightarrow> (0, res2, False)), writes2))"
    using turn [symmetric] copy w by simp
  consider "over" | "\<not> over" "mismatch" | "\<not> over" "\<not> mismatch" by blast
  then show ?thesis
  proof cases
    case 1
    then show ?thesis using res part part_chunk part_room by (auto simp: copy_over_def)
  next
    case 2
    then show ?thesis using res part part_chunk part_room by (auto simp: copy_over_def)
  next
    case 3
    have "piece = chunk" using 3 False by (auto simp: piece_def len_def)
    then have far2: "copy_so_far expected (data @ chunk) res2"
      using 3 part room by (auto simp: copy_so_far_def mismatch_def res1_def)
    show ?thesis
    proof (cases err)
      case None
      then show ?thesis using res 3 far2 by (auto simp: end_of_turn_def)
    next
      case (Some e)
      then obtain r where "end_of_turn expected err res2 = Some r" by (auto simp: end_of_turn_def)
      then show ?thesis using res 3 Some end_of_turn_over [OF far2] by auto
    qed
  qed
qed

lemma copy_turn_out_of_range:
  assumes "copy_so_far expected data res"
    "copy_turn expected ReadOutOfRange idle res writes = ((idle', res', ended), writes')"
  shows "ended \<and> copy_over expected data res'"
  using assms copy_over_failed [OF assms(1), of "[]"] by (auto simp: copy_turn_def)

lemma copy_loop_over:
  "copy_so_far expected data res \<Longrightarrow>
     copy_over expected (data @ fst (read_all reads)) (copy_media_loop expected idle res reads writes)"
proof (induction reads arbitrary: data idle res writes)
  case Nil
  obtain idle' res' ended writes' where
    turn: "copy_turn expected (ReadResult [] (Some EndOfFile)) idle res writes = ((idle', res', ended), writes')"
    by (metis prod.exhaust)
  then show ?case using copy_turn_over [OF Nil turn, of "[]"] by (auto split: if_splits)
next
  case (Cons r reads)
  obtain idle' res' ended writes' where turn: "copy_turn expected r idle res writes = ((idle', res', ended), writes')"
    by (metis prod.exhaust)
  show ?case
  proof (cases r)
    case (ReadResult chunk err)
    note over = copy_turn_over [OF Cons.prems turn [unfolded ReadResult], of "fst (read_all reads)"]
    then show ?thesis
      using turn ReadResult Cons.IH [of "data @ chunk" res' idle' writes']
      by (cases ended) (auto split: option.splits prod.splits)
  next
    case ReadOutOfRange
    then show ?thesis using copy_turn_out_of_range [OF Cons.prems turn [unfolded ReadOutOfRange]] turn by simp
  qed
qed

text \<open>
  C17: Copying media never sends more than the announced length nor anything the upstream did not
  send, in order from the start; when it succeeds, exactly the whole body was sent and it has the
  announced length.
\<close>

theorem media_copy_exact:
  "prefix (mc_sent (copy_media_body expected reads writes)) (fst (read_all reads)) \<and>
   mc_bytes_written (copy_media_body expected reads writes) = int (length (mc_sent (copy_media_body expected reads writes))) \<and>
   (0 \<le> expected \<longrightarrow> mc_bytes_written (copy_media_body expected reads writes) \<le> expected) \<and>
   (mc_err (copy_media_body expected reads writes) = None \<longrightarrow>
      mc_sent (copy_media_body expected reads writes) = fst (read_all reads) \<and>
      (0 \<le> expected \<longrightarrow> int (length (fst (read_all reads))) = expected))"
proof -
  have "copy_over expected ([] @ fst (read_all reads)) (copy_media_body expected reads writes)"
    unfolding copy_media_body_def by (rule copy_loop_over) (simp add: copy_so_far_def)
  then show ?thesis unfolding copy_over_def append_Nil .
qed

lemma media_copy_exact_witness:
  "mc_sent (copy_media_body 5 [ReadResult ''abc'' None, ReadResult [] None, ReadResult ''de'' (Some EndOfFile)] []) = ''abcde''"
proof -
  have "mc_err (copy_media_body 5 [ReadResult ''abc'' None, ReadResult [] None, ReadResult ''de'' (Some EndOfFile)] []) = None"
    by (simp add: copy_media_body_def copy_turn_def write_part_def end_of_turn_def media_copy_buffer_size_def
        empty_read_limit_def)
  then show ?thesis
    using media_copy_exact [of 5 "[ReadResult ''abc'' None, ReadResult [] None, ReadResult ''de'' (Some EndOfFile)]" "[]"]
    by simp
qed

section \<open>Images\<close>

text \<open>What the validator knows after the bytes \<open>data\<close>.\<close>

definition has_seen :: "string \<Rightarrow> image_validator \<Rightarrow> bool" where
  "has_seen data v \<longleftrightarrow>
     iv_prefix v = take 12 data \<and> iv_total v = int (length data) \<and>
     (if iv_passthrough v then iv_out v = data
      else iv_tail v = drop (length data - 12) data \<and> iv_out v = take (length data - 12) data)"

lemma has_seen_new: "has_seen [] (new_image_validator media_type)"
  by (simp add: has_seen_def new_image_validator_def)

lemma image_write_type [simp]:
  "iv_type (image_write p v) = iv_type v" "iv_passthrough (image_write p v) = iv_passthrough v"
  by (simp_all add: image_write_def Let_def)

lemma tail_append:
  "drop (length (drop (length d - n) d @ p) - n) (drop (length d - n) d @ p) = drop (length (d @ p) - n) (d @ p)"
  "take (length d - n) d @ take (length (drop (length d - n) d @ p) - n) (drop (length d - n) d @ p) =
     take (length (d @ p) - n) (d @ p)"
proof -
  obtain k where k: "length d \<le> n \<and> k = 0 \<or> length d = k + n" by (metis le_add_diff_inverse2 nat_le_linear)
  show "drop (length (drop (length d - n) d @ p) - n) (drop (length d - n) d @ p) = drop (length (d @ p) - n) (d @ p)"
    using k by (elim disjE conjE) (simp_all add: add.commute)
  have "take (k + length p) d = take k d @ take (length p) (drop k d)" by (rule take_add)
  then show "take (length d - n) d @ take (length (drop (length d - n) d @ p) - n) (drop (length d - n) d @ p) =
     take (length (d @ p) - n) (d @ p)"
    using k by (elim disjE conjE) (simp_all add: add.commute)
qed

lemma image_write_seen:
  assumes "has_seen data v"
  shows "has_seen (data @ p) (image_write p v)"
proof (cases "p = []")
  case True
  then show ?thesis using assms by (simp add: image_write_def)
next
  case False
  have prefix: "iv_prefix (image_write p v) = take 12 (data @ p)"
    using assms False
    by (cases "length data < 12") (simp_all add: has_seen_def image_write_def Let_def image_tail_size_def min_def)
  have total: "iv_total (image_write p v) = int (length (data @ p))"
    using assms False by (simp add: has_seen_def image_write_def Let_def)
  show ?thesis
  proof (cases "iv_passthrough v")
    case True
    then show ?thesis using assms False prefix total by (simp add: has_seen_def image_write_def Let_def)
  next
    case checked: False
    let ?c = "iv_tail v @ p"
    have "iv_tail (image_write p v) = drop (length ?c - 12) ?c \<and>
      iv_out (image_write p v) = iv_out v @ take (length ?c - 12) ?c"
      using False checked by (simp add: image_write_def Let_def image_tail_size_def)
    then show ?thesis
      using assms checked prefix total tail_append [of data 12 p] by (simp add: has_seen_def)
  qed
qed

lemma image_writes_seen: "has_seen data v \<Longrightarrow> has_seen (data @ concat chunks) (fold image_write chunks v)"
  by (induction chunks arbitrary: data v) (simp, metis append.assoc concat.simps(2) fold_simps(2) image_write_seen)

lemma image_writes_type:
  "iv_type (fold image_write chunks v) = iv_type v \<and> iv_passthrough (fold image_write chunks v) = iv_passthrough v"
  by (induction chunks arbitrary: v) simp_all

lemma jpeg_short:
  assumes "take 2 data = jpeg_start" "drop (length data - 2) data = jpeg_end"
  shows "4 \<le> length data"
proof (rule ccontr)
  assume "\<not> 4 \<le> length data"
  then consider "length data \<le> 1" | "length data = 2" | "length data = 3" by linarith
  then show False
  proof cases
    case 1
    then show ?thesis using assms by (cases data) (auto simp: jpeg_start_def)
  next
    case 2
    then show ?thesis using assms by (simp add: jpeg_start_def jpeg_end_def)
  next
    case 3
    then obtain a b c where "data = [a, b, c]" by (auto simp: length_Suc_conv numeral_3_eq_3)
    then show ?thesis using assms by (simp add: jpeg_start_def jpeg_end_def)
  qed
qed

lemma png_short:
  assumes "take 8 data = png_signature" "drop (length data - 12) data = png_end"
  shows "20 \<le> length data"
proof (rule ccontr)
  assume short: "\<not> 20 \<le> length data"
  have "length (drop (length data - 12) data) = 12" using assms by (simp add: png_end_def)
  then have long: "12 \<le> length data" by auto
  define i where "i = length data - 12"
  have i: "i < 8" using short long by (simp add: i_def)
  have "data ! i = png_signature ! i" using assms(1) i by (metis nth_take)
  moreover have "data ! i = png_end ! 0"
    using assms(2) long by (metis (full_types) i_def nth_drop add.right_neutral diff_le_self)
  moreover have "\<forall>i\<in>set [0..<8]. png_signature ! i \<noteq> png_end ! 0"
    by (simp add: png_signature_def png_end_def upt_rec)
  ultimately show False using i by (metis atLeastLessThan_iff le0 set_upt)
qed

text \<open>
  However a JPEG, PNG or WebP image is cut into chunks, the check of the stream succeeds exactly
  when the check of the whole image does; then everything was sent, otherwise at least the last
  twelve bytes were held back.
\<close>

theorem image_stream_check_exact:
  assumes "media_type \<in> {''image/jpeg'', ''image/png'', ''image/webp''}"
  shows "image_finish (fold image_write chunks (new_image_validator media_type)) =
    (if valid_anonymous_full_image (concat chunks) media_type then (concat chunks, True)
     else (take (length (concat chunks) - 12) (concat chunks), False))"
proof -
  let ?data = "concat chunks"
  define v where "v = fold image_write chunks (new_image_validator media_type)"
  have type: "iv_type v = media_type" "\<not> iv_passthrough v"
    using assms by (auto simp: v_def image_writes_type new_image_validator_def)
  have seen: "iv_prefix v = take 12 ?data" "iv_total v = int (length ?data)"
    "iv_tail v = drop (length ?data - 12) ?data" "iv_out v = take (length ?data - 12) ?data"
    using image_writes_seen [OF has_seen_new, of chunks media_type] type by (auto simp: has_seen_def v_def)
  have starts: "take k (take 12 ?data) = take k ?data" if "k \<le> 12" for k using that by (simp add: min_def)
  have ends: "drop (length (drop (length ?data - 12) ?data) - 2) (drop (length ?data - 12) ?data) =
      drop (length ?data - 2) ?data"
    by (cases "12 \<le> length ?data") simp_all
  have "image_ok v \<longleftrightarrow> valid_anonymous_full_image ?data media_type"
  proof -
    consider "media_type = ''image/jpeg''" | "media_type = ''image/png''" | "media_type = ''image/webp''"
      using assms by blast
    then show ?thesis
    proof cases
      case 1
      have "image_ok v \<longleftrightarrow> 2 \<le> length (take 12 ?data) \<and> 2 \<le> length (drop (length ?data - 12) ?data) \<and>
          take 2 ?data = jpeg_start \<and> drop (length ?data - 2) ?data = jpeg_end"
        unfolding image_ok_def Let_def type(1) seen starts [of 2, simplified] ends using 1 by simp
      then show ?thesis using 1 jpeg_short [of ?data] by (auto simp: valid_anonymous_full_image_def)
    next
      case 2
      have "length png_signature = 8" by (simp add: png_signature_def)
      then have "image_ok v \<longleftrightarrow> 8 \<le> length (take 12 ?data) \<and> take 8 ?data = png_signature \<and>
          drop (length ?data - 12) ?data = png_end"
        unfolding image_ok_def Let_def type(1) seen using 2 starts [of 8] by simp
      then show ?thesis using 2 png_short [of ?data] by (auto simp: valid_anonymous_full_image_def)
    next
      case 3
      have "image_ok v \<longleftrightarrow> 12 \<le> length ?data \<and> take 4 ?data = ''RIFF'' \<and> take 4 (drop 8 ?data) = ''WEBP'' \<and>
          le_uint32 (take 4 (drop 4 ?data)) + 8 = int (length ?data)"
        unfolding image_ok_def Let_def type(1) seen using 3 by (simp add: drop_take min_def)
      then show ?thesis using 3 by (simp add: valid_anonymous_full_image_def Let_def)
    qed
  qed
  then show ?thesis using type seen by (simp add: image_finish_def v_def [symmetric])
qed

theorem image_stream_check_exact_witness:
  "image_finish (fold image_write [jpeg_start, jpeg_end] (new_image_validator ''image/jpeg'')) = (jpeg_start @ jpeg_end, True)"
proof -
  have "valid_anonymous_full_image (concat [jpeg_start, jpeg_end]) ''image/jpeg''"
    by (simp add: valid_anonymous_full_image_def jpeg_start_def jpeg_end_def)
  then show ?thesis using image_stream_check_exact [of "''image/jpeg''" "[jpeg_start, jpeg_end]"] by simp
qed

text \<open>A range up to the greatest offset is accepted with a length that has wrapped around.\<close>

lemma content_range_length_wraps:
  "anonymous_content_range_length ''bytes 0-9223372036854775807/*'' (- 1) = Some (- 9223372036854775808)"
  by code_simp

end
