(* ===== verification/Anonymous_Images.thy ===== *)
theory Anonymous_Images
  imports Media_Copy Memory_Store
begin

text \<open>
  The upstream's public information (\<open>server_info.go\<close>) and images for clients without a session:
  the validation of the upstream they come from (\<open>anonymous_image_namespace.go\<close>) and the requests
  for them (\<open>anonymous_image.go\<close>). What the upstream answers, the clock and what others do to the
  store meanwhile are arguments.
\<close>

section \<open>Public information of the upstream\<close>


datatype probe_error = ProbeUnavailable | ProbeConflict

record public_info =
  pi_server_id :: string
  pi_name :: string
  pi_version :: string

text \<open>
  The answer to the probe: none, or the status and the decoded body (\<open>None\<close>: it cannot be read or
  is longer than 1 MiB or no JSON object of strings).
\<close>

type_synonym probe_answer = "(int \<times> (string \<times> string \<times> string) option) option"

text \<open>The headers of a request in the gateway's own name, without credentials.\<close>

definition public_headers :: "client_identity \<Rightarrow> string \<Rightarrow> header \<Rightarrow> header" where
  "public_headers identity user_agent h =
     header_set ''X-Emby-Authorization'' (auth_header_string (backend_auth_header identity [] []))
       (header_set ''User-Agent'' user_agent h)"

definition probe_upstream_public ::
  "(string \<Rightarrow> bool) \<Rightarrow> (url \<Rightarrow> header \<Rightarrow> probe_answer) \<Rightarrow> upstream_runtime \<Rightarrow> probe_error + public_info" where
  "probe_upstream_public ip6 send runtime =
     (if validate_runtime runtime \<noteq> None then Inl ProbeUnavailable
      else (case default_endpoint (Some runtime) of
              Inl _ \<Rightarrow> Inl ProbeUnavailable
            | Inr e \<Rightarrow>
                (case backend_url ip6 (ep_base_url e) ''/System/Info/Public'' of
                   None \<Rightarrow> Inl ProbeUnavailable
                 | Some u \<Rightarrow>
                     (let identity = us_identity (ur_source runtime)
                      in case send u (public_headers identity (ci_user_agent identity) []) of
                           None \<Rightarrow> Inl ProbeUnavailable
                         | Some (status, payload) \<Rightarrow>
                             (if status < 200 \<or> 300 \<le> status then Inl ProbeUnavailable
                              else (case payload of
                                      None \<Rightarrow> Inl ProbeUnavailable
                                    | Some (server_id, name, version) \<Rightarrow>
                                        (if trim_space server_id = [] \<or> server_id \<noteq> trim_space server_id
                                         then Inl ProbeUnavailable
                                         else if server_id \<noteq> us_server_id (ur_source runtime) then Inl ProbeConflict
                                         else Inr \<lparr>pi_server_id = server_id, pi_name = trim_space name,
                                                pi_version = trim_space version\<rparr>)))))))"

subsection \<open>Versions\<close>

definition is_plain_numeric_version :: "string \<Rightarrow> bool" where
  "is_plain_numeric_version v \<longleftrightarrow>
     (let v = trim_space v in v \<noteq> [] \<and> list_all (\<lambda>c. is_digit c \<or> c = CHR ''.'') v)"

definition numeric_version_core :: "string \<Rightarrow> string" where
  "numeric_version_core v = takeWhile (\<lambda>c. is_digit c \<or> c = CHR ''.'') (trim_space v)"

definition atoi_zero :: "string \<Rightarrow> int" where
  "atoi_zero v = (case parse_int64 v of Some n \<Rightarrow> n | None \<Rightarrow> 0)"

definition version_parts :: "string \<Rightarrow> int list" where
  "version_parts v = map atoi_zero (filter (\<lambda>p. p \<noteq> []) (split_char (CHR ''.'') (numeric_version_core v)))"

fun compare_parts :: "int list \<Rightarrow> int list \<Rightarrow> int" where
  "compare_parts [] [] = 0"
| "compare_parts [] (b # bs) = (if 0 > b then 1 else if 0 < b then - 1 else compare_parts [] bs)"
| "compare_parts (a # as) [] = (if a > 0 then 1 else if a < 0 then - 1 else compare_parts as [])"
| "compare_parts (a # as) (b # bs) = (if a > b then 1 else if a < b then - 1 else compare_parts as bs)"

definition compare_versions :: "string \<Rightarrow> string \<Rightarrow> int" where
  "compare_versions a b =
     (let c = compare_parts (version_parts a) (version_parts b)
      in if c \<noteq> 0 then c
         else if is_plain_numeric_version a \<and> \<not> is_plain_numeric_version b then 1
         else if \<not> is_plain_numeric_version a \<and> is_plain_numeric_version b then - 1
         else if a = b then 0 else if a < b then - 1 else 1)"

section \<open>The upstream anonymous images come from\<close>

record namespace_key =
  nk_source :: string
  nk_server :: string
  nk_endpoint :: string
  nk_base_url :: string
  nk_identity :: client_identity

record image_origin =
  io_base_url :: string
  io_identity :: client_identity
  io_server :: string

record image_namespace =
  in_origin :: image_origin
  in_key :: namespace_key
  in_validated :: time
  in_available :: bool
  in_diagnostic :: string

definition namespace_max_age :: duration where "namespace_max_age = 2 * hour"

definition namespace_key_for :: "upstream_runtime \<Rightarrow> namespace_key option" where
  "namespace_key_for runtime =
     (if validate_runtime runtime \<noteq> None then None
      else (case default_endpoint (Some runtime) of
              Inl _ \<Rightarrow> None
            | Inr e \<Rightarrow>
                Some \<lparr>nk_source = us_id (ur_source runtime), nk_server = us_server_id (ur_source runtime),
                      nk_endpoint = ep_id e, nk_base_url = ep_base_url e,
                      nk_identity = us_identity (ur_source runtime)\<rparr>))"

definition image_origin_for :: "upstream_runtime \<Rightarrow> image_origin" where
  "image_origin_for runtime =
     (case default_endpoint (Some runtime) of
        Inl _ \<Rightarrow> \<lparr>io_base_url = [], io_identity = \<lparr>ci_user_agent = [], ci_client = [], ci_device = [],
                  ci_device_id = [], ci_version = []\<rparr>, io_server = []\<rparr>
      | Inr e \<Rightarrow> \<lparr>io_base_url = ep_base_url e, io_identity = us_identity (ur_source runtime),
                  io_server = us_server_id (ur_source runtime)\<rparr>)"

datatype namespace_error = NamespaceStatic | NamespaceMismatch | NamespaceTransient

definition no_namespace :: "string \<Rightarrow> image_namespace" where
  "no_namespace message =
     \<lparr>in_origin = \<lparr>io_base_url = [], io_identity = \<lparr>ci_user_agent = [], ci_client = [], ci_device = [],
        ci_device_id = [], ci_version = []\<rparr>, io_server = []\<rparr>,
      in_key = \<lparr>nk_source = [], nk_server = [], nk_endpoint = [], nk_base_url = [],
        nk_identity = \<lparr>ci_user_agent = [], ci_client = [], ci_device = [], ci_device_id = [], ci_version = []\<rparr>\<rparr>,
      in_validated = 0, in_available = False, in_diagnostic = message\<rparr>"

text \<open>
  \<open>ValidateAnonymousImageNamespace\<close>: \<open>loaded\<close> is what the store loads before the probe, \<open>reloaded\<close>
  after it. The new namespace and the error.
\<close>

definition validate_image_namespace ::
  "(string \<Rightarrow> bool) \<Rightarrow> (url \<Rightarrow> header \<Rightarrow> probe_answer) \<Rightarrow> gw_error + upstream_runtime \<Rightarrow>
     gw_error + upstream_runtime \<Rightarrow> time \<Rightarrow> image_namespace \<times> namespace_error option" where
  "validate_image_namespace ip6 send loaded reloaded now =
     (case loaded of
        Inl _ \<Rightarrow> (no_namespace ''anonymous image singleton topology unavailable'', Some NamespaceStatic)
      | Inr runtime \<Rightarrow>
          (case namespace_key_for runtime of
             None \<Rightarrow> (no_namespace ''anonymous image singleton topology invalid'', Some NamespaceStatic)
           | Some key \<Rightarrow>
               (case probe_upstream_public ip6 send runtime of
                  Inl err \<Rightarrow>
                    (no_namespace ''anonymous image active endpoint probe unavailable'',
                     Some (if err = ProbeConflict then NamespaceMismatch else NamespaceTransient))
                | Inr _ \<Rightarrow>
                    (case reloaded of
                       Inl _ \<Rightarrow>
                         (no_namespace ''anonymous image singleton changed during validation'', Some NamespaceTransient)
                     | Inr current \<Rightarrow>
                         (if namespace_key_for current \<noteq> Some key
                          then (no_namespace ''anonymous image singleton changed during validation'',
                                Some NamespaceTransient)
                          else (\<lparr>in_origin = image_origin_for current, in_key = key, in_validated = now,
                                 in_available = True, in_diagnostic = ''available''\<rparr>, None))))))"

definition validated_image_origin ::
  "gw_error + upstream_runtime \<Rightarrow> time \<Rightarrow> image_namespace \<Rightarrow> image_origin option" where
  "validated_image_origin loaded now ns =
     (if \<not> in_available ns \<or> namespace_max_age < time_sub now (in_validated ns) then None
      else (case loaded of
              Inl _ \<Rightarrow> None
            | Inr runtime \<Rightarrow>
                (if namespace_key_for runtime \<noteq> Some (in_key ns) then None else Some (in_origin ns))))"

definition namespace_changed :: "gw_error + upstream_runtime \<Rightarrow> image_namespace \<Rightarrow> bool" where
  "namespace_changed loaded ns \<longleftrightarrow>
     (case loaded of Inl _ \<Rightarrow> True | Inr runtime \<Rightarrow> namespace_key_for runtime \<noteq> Some (in_key ns))"

section \<open>Requests for images without credentials\<close>

definition is_anonymous_item_image_route :: "http_request \<Rightarrow> string \<Rightarrow> bool" where
  "is_anonymous_item_image_route r rel \<longleftrightarrow>
     (hr_method r = ''GET'' \<or> hr_method r = ''HEAD'') \<and> canonical_resource_route r rel \<and>
     (let parts = split_char (CHR ''/'') (tl rel); n = length parts
      in (n = 4 \<or> n = 5) \<and>
         equal_fold (parts ! 0) ''Items'' \<and> parts ! 1 \<noteq> [] \<and> equal_fold (parts ! 2) ''Images'' \<and> parts ! 3 \<noteq> [] \<and>
         (n = 5 \<longrightarrow> parts ! 4 \<noteq> [] \<and> list_all is_digit (parts ! 4)))"

definition has_reserved_resource_cookie :: "http_request \<Rightarrow> bool" where
  "has_reserved_resource_cookie r \<longleftrightarrow>
     list_ex (\<lambda>v. list_ex (\<lambda>part.
        let part = trim_space part
        in (case cut_char (CHR ''='') part of Some (name, _) \<Rightarrow> name | None \<Rightarrow> part) = resource_cookie_name)
       (split_char (CHR '';'') v)) (header_values (hr_header r) ''Cookie'')"

text \<open>One part of the query: an error, or what is kept of it.\<close>

definition anonymous_query_part :: "string \<Rightarrow> string option option" where
  "anonymous_query_part part =
     (let (key, val) = (case cut_char (CHR ''='') part of Some (k, v) \<Rightarrow> (k, Some v) | None \<Rightarrow> (part, None))
      in case query_unescape key of
           None \<Rightarrow> None
         | Some decoded \<Rightarrow>
             (if is_strict_query_auth_key decoded \<or> decoded = generic_query_auth_key then Some None
              else if equal_fold decoded ''UserId'' \<or> equal_fold decoded ''ServerId''
              then (case val of
                      None \<Rightarrow> Some None
                    | Some v \<Rightarrow>
                        (case query_unescape v of
                           None \<Rightarrow> None
                         | Some d \<Rightarrow> if trim_space d \<noteq> [] then None else Some None))
              else if (case val of Some v \<Rightarrow> query_unescape v = None | None \<Rightarrow> False) then None
              else Some (Some part)))"

fun anonymous_query_parts :: "string list \<Rightarrow> string list option" where
  "anonymous_query_parts [] = Some []"
| "anonymous_query_parts (p # ps) =
     (case anonymous_query_part p of
        None \<Rightarrow> None
      | Some kept \<Rightarrow>
          map_option (\<lambda>out. case kept of Some part \<Rightarrow> part # out | None \<Rightarrow> out) (anonymous_query_parts ps))"

definition anonymous_image_query :: "string \<Rightarrow> string option" where
  "anonymous_image_query raw =
     (if raw = [] then Some []
      else map_option (join_with ''&'') (anonymous_query_parts (split_char (CHR ''&'') raw)))"

definition copy_named :: "(string \<Rightarrow> string \<Rightarrow> bool) \<Rightarrow> header \<Rightarrow> string list \<Rightarrow> header \<Rightarrow> header" where
  "copy_named keep src names dst =
     fold (\<lambda>name dst. fold (\<lambda>v dst. if keep name v then header_add name v dst else dst) (header_values src name) dst)
       names dst"

definition copy_anonymous_request_headers :: "header \<Rightarrow> header \<Rightarrow> header" where
  "copy_anonymous_request_headers src dst =
     copy_named (\<lambda>_ _. True) src [''Range'', ''If-Range'', ''If-None-Match'', ''If-Modified-Since'', ''Accept''] dst"

definition copy_anonymous_response_headers :: "header \<Rightarrow> header \<Rightarrow> header" where
  "copy_anonymous_response_headers src dst =
     (let dst = copy_named (\<lambda>name v. \<not> (name = ''Content-Disposition'' \<and>
            (contains_any v [CHR 0x0D, CHR 0x0A] \<or> contains (to_lower v) ''filename*=''))) src
            [''Content-Type'', ''ETag'', ''Last-Modified'', ''Accept-Ranges'', ''Content-Range'', ''Content-Disposition''] dst;
          len = header_get src ''Content-Length''
      in if len \<noteq> [] then header_set ''Content-Length'' len dst else dst)"

text \<open>The answer of the upstream: status, headers, announced length (negative: none), body.\<close>

record upstream_answer =
  ua_status :: int
  ua_header :: header
  ua_length :: int
  ua_reads :: "read_result list"
  ua_path :: string

definition anonymous_image_error :: "header \<Rightarrow> string \<Rightarrow> int \<Rightarrow> response" where
  "anonymous_image_error h text status =
     http_error (header_del ''Content-Length'' (header_set ''Cache-Control'' ''no-store'' h)) text status"

abbreviation bad_gateway :: "header \<Rightarrow> response" where
  "bad_gateway h \<equiv> anonymous_image_error h ''Bad Gateway'' 502"

definition anonymous_image_body_limit :: nat where "anonymous_image_body_limit = 32 * 1024 * 1024"

definition set_content_length :: "(int \<Rightarrow> string) \<Rightarrow> int \<Rightarrow> header \<Rightarrow> header" where
  "set_content_length decimal len h = (if 0 \<le> len then header_set ''Content-Length'' (decimal len) h else h)"

text \<open>
  \<open>writeAnonymousFullImage\<close>: \<open>slot\<close> is whether one of the four slots for checks is free, \<open>decimal\<close>
  is \<open>strconv.FormatInt\<close>.
\<close>

definition write_anonymous_full_image ::
  "(string \<Rightarrow> string) \<Rightarrow> (int \<Rightarrow> string) \<Rightarrow> bool \<Rightarrow> header \<Rightarrow> http_request \<Rightarrow> upstream_answer \<Rightarrow> response" where
  "write_anonymous_full_image media_type decimal slot h r a =
     (let ct = header_get (ua_header a) ''Content-Type''
      in if \<not> is_image_content_type media_type ct then bad_gateway h
         else if hr_method r = ''HEAD'' then write_header (copy_anonymous_response_headers (ua_header a) h) 200
         else if \<not> slot then anonymous_image_error h ''Service Unavailable'' 503
         else (case read_limited anonymous_image_body_limit (ua_reads a) of
                 Inl _ \<Rightarrow> bad_gateway h
               | Inr data \<Rightarrow>
                   (if data = [] \<or> \<not> valid_anonymous_full_image data (media_type ct) then bad_gateway h
                    else (write_header (set_content_length decimal (int (length data))
                            (copy_anonymous_response_headers (ua_header a) h)) 200)
                         \<lparr>re_body := Bytes data True\<rparr>)))"

text \<open>\<open>writeAnonymousPartialImage\<close>: one byte is read first and read again by the copy.\<close>

definition write_anonymous_partial_image ::
  "(string \<Rightarrow> string) \<Rightarrow> write_result list \<Rightarrow> header \<Rightarrow> http_request \<Rightarrow> upstream_answer \<Rightarrow>
     response \<times> copy_result option" where
  "write_anonymous_partial_image media_type writes h r a =
     (case anonymous_content_range_length (header_get (ua_header a) ''Content-Range'') (ua_length a) of
        None \<Rightarrow> (bad_gateway h, None)
      | Some expected \<Rightarrow>
          (if \<not> is_image_content_type media_type (header_get (ua_header a) ''Content-Type'') then (bad_gateway h, None)
           else if hr_method r = ''HEAD''
           then (write_header (copy_anonymous_response_headers (ua_header a) h) 206, None)
           else (case first_read 1 (ua_reads a) of
                   (first, err, rest) \<Rightarrow>
                     (if err \<noteq> None \<and> err \<noteq> Some EndOfFile \<or> length first \<noteq> 1 then (bad_gateway h, None)
                      else (let res = copy_media_body expected (ReadResult first None # rest) writes
                            in ((write_header (copy_anonymous_response_headers (ua_header a) h) 206)
                                  \<lparr>re_body := Bytes (mc_sent res) (mc_err res = None)\<rparr>, Some res))))))"

definition write_anonymous_image_response ::
  "(string \<Rightarrow> string) \<Rightarrow> (int \<Rightarrow> string) \<Rightarrow> bool \<Rightarrow> write_result list \<Rightarrow> header \<Rightarrow> http_request \<Rightarrow> upstream_answer \<Rightarrow>
     response \<times> copy_result option" where
  "write_anonymous_image_response media_type decimal slot writes h r a =
     (let h = header_set ''Cache-Control'' ''no-store'' h; status = ua_status a
      in if 300 \<le> status \<and> status < 400 \<and> status \<noteq> 304 then (bad_gateway h, None)
         else if status = 304 then (write_header (copy_anonymous_response_headers (ua_header a) h) 304, None)
         else if status = 200 then (write_anonymous_full_image media_type decimal slot h r a, None)
         else if status = 206 then write_anonymous_partial_image media_type writes h r a
         else (write_header h status, None))"

text \<open>A request as it leaves the gateway.\<close>

record sent_request =
  sr_method :: string
  sr_url :: url
  sr_header :: header
  sr_body :: "string option"

text \<open>\<open>handleAnonymousItemImage\<close>: the request sent, if any, and the answer.\<close>

definition handle_anonymous_item_image ::
  "(string \<Rightarrow> bool) \<Rightarrow> (string \<Rightarrow> string) \<Rightarrow> (int \<Rightarrow> string) \<Rightarrow> (sent_request \<Rightarrow> upstream_answer option) \<Rightarrow> bool \<Rightarrow>
     write_result list \<Rightarrow> image_origin option \<Rightarrow> header \<Rightarrow> http_request \<Rightarrow> string \<Rightarrow>
     sent_request list \<times> response \<times> copy_result option" where
  "handle_anonymous_item_image ip6 media_type decimal send slot writes origin h r rel =
     (let h = header_set ''Cache-Control'' ''no-store'' h;
          unavailable = http_error h ''anonymous image service unavailable'' 503
      in case origin of
           None \<Rightarrow> ([], unavailable, None)
         | Some o' \<Rightarrow>
             (case anonymous_image_query (hr_raw_query r) of
                None \<Rightarrow> ([], http_error h ''bad request'' 400, None)
              | Some query \<Rightarrow>
                  (case backend_url ip6 (io_base_url o') rel of
                     None \<Rightarrow> ([], unavailable, None)
                   | Some u \<Rightarrow>
                       (let identity = with_defaults (io_identity o');
                            req = \<lparr>sr_method = hr_method r, sr_url = u\<lparr>u_raw_query := query\<rparr>,
                              sr_header = public_headers identity (ci_user_agent identity)
                                (copy_anonymous_request_headers (hr_header r) []), sr_body = None\<rparr>
                        in case send req of
                             None \<Rightarrow> ([req], bad_gateway h, None)
                           | Some a \<Rightarrow>
                               (case write_anonymous_image_response media_type decimal slot writes h r a of
                                  (resp, res) \<Rightarrow> ([req], resp, res))))))"

end
