(* ===== verification/Anonymous_Image_Theorems.thy ===== *)
theory Anonymous_Image_Theorems
  imports Response_Theorems Anonymous_Images Store_Theorems
begin

text \<open>
  Images that are served without a session: what the request to the upstream carries, and how long
  the upstream they come from is trusted.
\<close>

section \<open>The query\<close>

definition credential_key :: "string \<Rightarrow> bool" where
  "credential_key key \<longleftrightarrow> is_strict_query_auth_key key \<or> key = generic_query_auth_key"

lemma kept_query_part:
  assumes "anonymous_query_part part = Some (Some p)"
  shows "p = part \<and> (credential_key key \<longrightarrow> part_values part key = [])"
proof -
  obtain k v where kv: "(case cut_char (CHR ''='') part of Some (k, v) \<Rightarrow> (k, Some v) | None \<Rightarrow> (part, None)) = (k, v)"
    by fastforce
  obtain d where d: "query_unescape k = Some d"
    using assms unfolding anonymous_query_part_def Let_def kv by (cases "query_unescape k") simp_all
  have plain: "\<not> credential_key d" "p = part"
    using assms unfolding anonymous_query_part_def Let_def kv prod.case d option.case credential_key_def
    by (auto split: if_splits option.splits)
  have "fst (case cut_char (CHR ''='') part of Some kv \<Rightarrow> kv | None \<Rightarrow> (part, [])) = k"
    using kv by (auto split: option.splits)
  then have "part_values part key = []" if "credential_key key"
    using plain(1) that d by (auto simp: part_values_def Let_def case_prod_beta split: option.split)
  with plain show ?thesis by simp
qed

lemma kept_parts:
  "anonymous_query_parts parts = Some out \<Longrightarrow> p \<in> set out \<Longrightarrow>
     p \<in> set parts \<and> (credential_key key \<longrightarrow> part_values p key = [])"
proof (induction parts arbitrary: out)
  case (Cons part parts)
  obtain kept out' where one: "anonymous_query_part part = Some kept" "anonymous_query_parts parts = Some out'"
    and out: "out = (case kept of Some q \<Rightarrow> q # out' | None \<Rightarrow> out')"
    using Cons.prems(1) by (auto split: option.splits)
  show ?case
  proof (cases "p \<in> set out'")
    case True
    with Cons.IH [OF one(2)] show ?thesis by auto
  next
    case False
    with out Cons.prems(2) have "kept = Some p" by (auto split: option.splits)
    with one(1) kept_query_part [of part p key] show ?thesis by auto
  qed
qed simp

lemma anonymous_query_free:
  assumes "anonymous_image_query raw = Some q" and "credential_key key"
  shows "query_all (fst (parse_query q)) key = []"
proof (cases "length (split_char (CHR ''&'') q) \<le> max_query_params")
  case False
  then show ?thesis by (simp add: parse_query_def Let_def query_all_def)
next
  case True
  have "part_values p key = []" if "p \<in> set (split_char (CHR ''&'') q)" for p
  proof (cases "raw = []")
    case True
    with assms(1) have "q = []" by (simp add: anonymous_image_query_def)
    with that show ?thesis by (simp add: part_values_def)
  next
    case False
    then obtain out where out: "anonymous_query_parts (split_char (CHR ''&'') raw) = Some out" "q = join_with ''&'' out"
      using assms(1) by (auto simp: anonymous_image_query_def)
    show ?thesis
    proof (cases "out = []")
      case True
      with out(2) that show ?thesis by (simp add: part_values_def)
    next
      case False
      have "\<forall>w \<in> set out. CHR ''&'' \<notin> set w"
        using kept_parts [OF out(1)] split_char_no_sep [of _ "CHR ''&''" raw] by blast
      with False have "split_char (CHR ''&'') q = out" unfolding out(2) by (intro split_char_join_with)
      with that kept_parts [OF out(1), of p key] assms(2) show ?thesis by simp
    qed
  qed
  then show ?thesis using True by (simp add: parse_query_values)
qed

section \<open>The headers\<close>

lemma copy_named_names: "header_names (copy_named keep src names dst) \<subseteq> to_lower ` set names \<union> header_names dst"
proof (induction names arbitrary: dst)
  case (Cons name names)
  have one: "header_names (fold (\<lambda>v dst. if keep name v then header_add name v dst else dst) vs dst) \<subseteq>
      insert (to_lower name) (header_names dst)" for vs dst
  proof (induction vs arbitrary: dst)
    case (Cons v vs)
    show ?case using Cons.IH [of "header_add name v dst"] Cons.IH [of dst] by auto
  qed auto
  have "header_names (copy_named keep src (name # names) dst) \<subseteq> to_lower ` set names \<union>
      header_names (fold (\<lambda>v dst. if keep name v then header_add name v dst else dst) (header_values src name) dst)"
    using Cons.IH by (simp add: copy_named_def)
  with one [of "header_values src name" dst] show ?case by auto
qed (simp add: copy_named_def)

definition anonymous_names :: "string set" where
  "anonymous_names = {''range'', ''if-range'', ''if-none-match'', ''if-modified-since'', ''accept'', ''user-agent'',
     ''x-emby-authorization''}"

lemma anonymous_header_names:
  "header_names (public_headers identity agent (copy_anonymous_request_headers src [])) \<subseteq> anonymous_names"
proof -
  have lower: "to_lower ''Range'' = ''range''" "to_lower ''If-Range'' = ''if-range''"
    "to_lower ''If-None-Match'' = ''if-none-match''" "to_lower ''If-Modified-Since'' = ''if-modified-since''"
    "to_lower ''Accept'' = ''accept''" "to_lower ''User-Agent'' = ''user-agent''"
    "to_lower ''X-Emby-Authorization'' = ''x-emby-authorization''" by code_simp+
  have "header_names (copy_anonymous_request_headers src []) \<subseteq>
      to_lower ` set [''Range'', ''If-Range'', ''If-None-Match'', ''If-Modified-Since'', ''Accept''] \<union> header_names []"
    unfolding copy_anonymous_request_headers_def by (rule copy_named_names)
  also have "... \<subseteq> anonymous_names"
    unfolding list.set image_insert lower by (simp add: anonymous_names_def)
  finally show ?thesis
    unfolding public_headers_def header_names_simps lower by (simp add: anonymous_names_def)
qed

text \<open>
  C16: The request sent for an image without a session carries no credential, neither the client's nor
  the gateway's: its headers are five about ranges, conditions and accepted types, the gateway's user
  agent and an authorization that names no user and no token; no key of its query that could hold a
  token has a value; it has no body. At most one request is sent, with the client's method, and none
  unless the upstream was checked.
\<close>

theorem anonymous_image_carries_nothing:
  assumes "handle_anonymous_item_image ip6 media_type decimal send slot writes origin h r rel = (sent, resp, res)"
  shows "length sent \<le> 1 \<and> (origin = None \<longrightarrow> sent = []) \<and>
    (\<forall>req \<in> set sent. \<exists>o'. origin = Some o' \<and> sr_method req = hr_method r \<and> sr_body req = None \<and>
       header_names (sr_header req) \<subseteq> anonymous_names \<and>
       header_values (sr_header req) ''X-Emby-Authorization'' =
         [auth_header_string (backend_auth_header (with_defaults (io_identity o')) [] [])] \<and>
       (\<forall>key. credential_key key \<longrightarrow> query_all (fst (parse_query (u_raw_query (sr_url req)))) key = []))"
proof (cases origin)
  case None
  with assms show ?thesis by (simp add: handle_anonymous_item_image_def Let_def)
next
  case (Some o')
  show ?thesis
  proof (cases "sent = []")
    case False
    then obtain query u where q: "anonymous_image_query (hr_raw_query r) = Some query"
      and u: "backend_url ip6 (io_base_url o') rel = Some u"
      using assms Some by (auto simp: handle_anonymous_item_image_def Let_def split: option.splits)
    define headers where "headers = public_headers (with_defaults (io_identity o'))
      (ci_user_agent (with_defaults (io_identity o'))) (copy_anonymous_request_headers (hr_header r) [])"
    have "sent = [\<lparr>sr_method = hr_method r, sr_url = u\<lparr>u_raw_query := query\<rparr>, sr_header = headers, sr_body = None\<rparr>]"
      using assms unfolding handle_anonymous_item_image_def Let_def Some q u option.case headers_def [symmetric]
      by (simp split: option.splits prod.splits)
    moreover have "header_names headers \<subseteq> anonymous_names" unfolding headers_def by (rule anonymous_header_names)
    moreover have "header_values headers ''X-Emby-Authorization'' =
        [auth_header_string (backend_auth_header (with_defaults (io_identity o')) [] [])]"
      by (simp add: headers_def public_headers_def header_simps)
    ultimately show ?thesis using Some anonymous_query_free [OF q] by simp
  qed simp
qed

text \<open>A request with a session cookie: it is sent, its query is the size only, its cookie stays here.\<close>

definition sample_image_request :: http_request where
  "sample_image_request =
     \<lparr>hr_method = ''GET'', hr_path = ''/emby/Items/7/Images/Primary'', hr_escaped = ''/emby/Items/7/Images/Primary'',
      hr_raw_query = ''maxWidth=300'', hr_header = [(''Cookie'', [''a=b'']), (''Accept'', [''image/png''])],
      hr_host = [], hr_tls = False, hr_remote_addr = [], hr_body = None\<rparr>"

definition sample_image_origin :: image_origin where
  "sample_image_origin =
     \<lparr>io_base_url = ''http://media.example'', io_identity = default_client_identity, io_server = ''srv''\<rparr>"

lemma anonymous_image_carries_nothing_witness:
  "\<exists>req resp res. handle_anonymous_item_image (\<lambda>_. False) (\<lambda>s. s) (\<lambda>_. []) (\<lambda>_. None) True [] (Some sample_image_origin) []
       sample_image_request ''/Items/7/Images/Primary'' = ([req], resp, res) \<and>
     header_values (hr_header sample_image_request) ''Cookie'' = [''a=b''] \<and>
     header_names (sr_header req) \<subseteq> anonymous_names \<and> query_all (fst (parse_query (u_raw_query (sr_url req)))) ''token'' = []"
proof -
  let ?run = "handle_anonymous_item_image (\<lambda>_. False) (\<lambda>s. s) (\<lambda>_. []) (\<lambda>_. None) True [] (Some sample_image_origin) []
       sample_image_request ''/Items/7/Images/Primary''"
  obtain sent resp res where run: "?run = (sent, resp, res)" by (cases ?run) auto
  have target: "backend_url (\<lambda>_. False) (io_base_url sample_image_origin) ''/Items/7/Images/Primary'' \<noteq> None"
    and query: "anonymous_image_query (hr_raw_query sample_image_request) \<noteq> None"
    and key: "credential_key ''token''"
    and cookie: "header_values (hr_header sample_image_request) ''Cookie'' = [''a=b'']" by code_simp+
  have "sent \<noteq> []"
    using run target query by (auto simp: handle_anonymous_item_image_def Let_def split: option.splits)
  with anonymous_image_carries_nothing [OF run] obtain req where req: "sent = [req]"
    by (cases sent) auto
  show ?thesis
    using anonymous_image_carries_nothing [OF run] run req key cookie by simp
qed

section \<open>The upstream\<close>

text \<open>
  Images are taken without a session only from an upstream that was checked at most two hours ago
  and that is still the one of the store: the same source, server, endpoint, base URL and identity as
  before and after the check.
\<close>

theorem image_origin_checked:
  assumes "validate_image_namespace ip6 send before after checked = (ns, err)"
    and "validated_image_origin loaded now ns = Some o'"
  shows "err = None \<and> time_sub now checked \<le> 2 * hour \<and>
    (\<exists>r1 r2 r3 key. before = Inr r1 \<and> after = Inr r2 \<and> loaded = Inr r3 \<and>
       namespace_key_for r1 = Some key \<and> namespace_key_for r2 = Some key \<and> namespace_key_for r3 = Some key \<and>
       io_base_url o' = nk_base_url key \<and> io_server o' = nk_server key \<and> io_identity o' = nk_identity key)"
proof -
  have on: "in_available ns" "time_sub now (in_validated ns) \<le> 2 * hour"
    using assms(2) by (auto simp: validated_image_origin_def namespace_max_age_def not_less split: if_splits)
  obtain r3 where r3: "loaded = Inr r3" "namespace_key_for r3 = Some (in_key ns)" "o' = in_origin ns"
    using assms(2) by (auto simp: validated_image_origin_def split: sum.splits if_splits)
  have off: "\<not> in_available (no_namespace message)" for message by (simp add: no_namespace_def)
  obtain r1 r2 key where r: "before = Inr r1" "after = Inr r2" "namespace_key_for r1 = Some key" "namespace_key_for r2 = Some key"
    and ns: "ns = \<lparr>in_origin = image_origin_for r2, in_key = key, in_validated = checked, in_available = True,
      in_diagnostic = ''available''\<rparr>" "err = None"
    using assms(1) on(1) off
    by (auto simp: validate_image_namespace_def split: sum.splits option.splits if_splits)
  have "io_base_url (image_origin_for r2) = nk_base_url key \<and> io_server (image_origin_for r2) = nk_server key \<and>
      io_identity (image_origin_for r2) = nk_identity key"
    using r(4) by (auto simp: image_origin_for_def namespace_key_for_def split: sum.splits if_splits)
  with on r3 r ns show ?thesis by simp
qed

text \<open>An upstream whose check succeeded fifty seconds ago.\<close>

definition checked_runtime :: upstream_runtime where
  "checked_runtime = \<lparr>ur_source = demo_source, ur_endpoints = [demo_endpoint]\<rparr>"

theorem image_origin_checked_witness:
  "\<exists>ns err o'. validate_image_namespace (\<lambda>_. False) (\<lambda>_ _. Some (200, Some (''srv'', ''n'', ''v''))) (Inr checked_runtime)
       (Inr checked_runtime) 50 = (ns, err) \<and>
     validated_image_origin (Inr checked_runtime) 100 ns = Some o' \<and> err = None \<and> time_sub 100 50 \<le> 2 * hour"
proof -
  let ?run = "validate_image_namespace (\<lambda>_. False) (\<lambda>_ _. Some (200, Some (''srv'', ''n'', ''v''))) (Inr checked_runtime)
       (Inr checked_runtime) 50"
  obtain ns err where run: "?run = (ns, err)" by fastforce
  have "validated_image_origin (Inr checked_runtime) 100 (fst ?run) \<noteq> None" by code_simp
  then obtain o' where o': "validated_image_origin (Inr checked_runtime) 100 ns = Some o'" using run by auto
  show ?thesis using image_origin_checked [OF run o'] run o' by blast
qed

end
