(* ===== verification/Upstream_Path.thy ===== *)
theory Upstream_Path
  imports Gateway_Requests
begin

text \<open>
  The path that path policies and handlers see against the path sent to the upstream: for a request
  path the gateway accepts, joining it to the base of the upstream changes nothing but a trailing
  slash.
\<close>

section \<open>Paths as lists of segments\<close>

definition slashed :: "string list \<Rightarrow> string" where
  "slashed ws = concat (map ((#) (CHR ''/'')) ws)"

lemma slashed_simps [simp]: "slashed [] = []" "slashed (w # ws) = CHR ''/'' # w @ slashed ws" "slashed (vs @ ws) = slashed vs @ slashed ws"
  by (simp_all add: slashed_def)

lemma slashed_join: "ws \<noteq> [] \<Longrightarrow> CHR ''/'' # join_with ''/'' ws = slashed ws"
  by (induction "''/''" ws rule: join_with.induct) auto

lemma split_slashed: "\<forall>w \<in> set ws. CHR ''/'' \<notin> set w \<Longrightarrow> split_char (CHR ''/'') (slashed ws) = [] # ws"
proof (induction ws)
  case (Cons w ws)
  show ?case
  proof (cases ws)
    case Nil
    with Cons.prems show ?thesis by (simp add: split_char_none)
  next
    case (Cons v vs)
    with Cons.IH Cons.prems have "split_char (CHR ''/'') (CHR ''/'' # v @ slashed vs) = [] # v # vs" by simp
    then have "split_char (CHR ''/'') (v @ slashed vs) = v # vs" by simp
    with Cons Cons.prems show ?thesis by (simp add: split_char_append_sep)
  qed
qed simp

lemma slashed_split: "split_char (CHR ''/'') s = [] # ws \<Longrightarrow> s = slashed ws"
  using split_char_join [of "CHR ''/''" s] slashed_join [of ws] by (cases ws) auto

lemma split_char_append: "split_char d (a @ d # b) = split_char d a @ split_char d b"
proof (induction a)
  case (Cons c a)
  then show ?case by (cases "split_char d a") (auto split: list.split)
qed simp

lemma clean_segments_plain:
  "\<forall>w \<in> set ws. w \<noteq> ''.'' \<and> w \<noteq> ''..'' \<Longrightarrow>
     clean_segments rooted kept ws = rev kept @ filter (\<lambda>w. w \<noteq> []) ws"
  by (induction ws arbitrary: kept) auto

lemma path_clean_slashed:
  assumes "\<forall>w \<in> set ws. CHR ''/'' \<notin> set w \<and> w \<noteq> ''.'' \<and> w \<noteq> ''..''" and "filter (\<lambda>w. w \<noteq> []) ws \<noteq> []"
  shows "path_clean (slashed ws) = slashed (filter (\<lambda>w. w \<noteq> []) ws)"
proof -
  have "ws \<noteq> []" using assms(2) by auto
  then obtain v vs where v: "ws = v # vs" by (cases ws) auto
  have "split_char (CHR ''/'') (slashed ws) = [] # ws" using assms(1) by (intro split_slashed) auto
  moreover have "clean_segments True [] ([] # ws) = filter (\<lambda>w. w \<noteq> []) ws"
    using clean_segments_plain [of "[] # ws" True "[]"] assms(1) by auto
  ultimately show ?thesis
    using v slashed_join [OF assms(2)] by (simp add: path_clean_def)
qed

lemma trim_right_slashed:
  assumes "\<forall>w \<in> set ws. CHR ''/'' \<notin> set w" and "\<forall>w \<in> set (butlast ws). w \<noteq> []" and "ws \<noteq> [[]]"
  shows "trim_right_char (CHR ''/'') (slashed ws) = slashed (filter (\<lambda>w. w \<noteq> []) ws)"
proof -
  have full: "trim_right_char (CHR ''/'') (slashed vs) = slashed vs"
    if "\<forall>w \<in> set vs. CHR ''/'' \<notin> set w \<and> w \<noteq> []" for vs
  proof (cases vs rule: rev_cases)
    case (snoc us u)
    then have "u \<noteq> []" "CHR ''/'' \<notin> set u" using that by auto
    then obtain u' c where "u = u' @ [c]" "c \<noteq> CHR ''/''" by (cases u rule: rev_cases) auto
    then show ?thesis using snoc by (simp add: trim_right_char_def)
  qed (simp add: trim_right_char_def)
  show ?thesis
  proof (cases ws rule: rev_cases)
    case (snoc us u)
    have us: "\<forall>w \<in> set us. CHR ''/'' \<notin> set w \<and> w \<noteq> []" using assms(1,2) snoc by simp
    then have "filter (\<lambda>w. w \<noteq> []) us = us" by (simp add: filter_id_conv)
    moreover have "trim_right_char (CHR ''/'') (s @ ''/'') = trim_right_char (CHR ''/'') s" for s
      by (simp add: trim_right_char_def)
    moreover have "trim_right_char (CHR ''/'') (slashed us @ CHR ''/'' # u) = slashed us @ CHR ''/'' # u" if "u \<noteq> []"
      using full [of "us @ [u]"] us that assms(1) snoc by simp
    ultimately show ?thesis using full [OF us] snoc by (cases "u = []") auto
  qed (simp add: trim_right_char_def)
qed

section \<open>Accepted paths\<close>

text \<open>The segments of an accepted path behind the gateway's base.\<close>

lemma relative_segments:
  assumes "segments_ok (split_char (CHR ''/'') p)" and "relative_path base p = Some rel" and "rel \<noteq> ''/''"
  obtains ws where "rel = slashed ws" "ws \<noteq> [[]]" "ws \<noteq> []" "\<forall>w \<in> set (butlast ws). w \<noteq> []"
    "\<forall>w \<in> set ws. CHR ''/'' \<notin> set w \<and> w \<noteq> ''.'' \<and> w \<noteq> ''..''"
proof -
  define b where "b = trim_right_char (CHR ''/'') base"
  obtain rest where p: "p = b @ CHR ''/'' # rest" and rel: "rel = CHR ''/'' # rest"
    using assms(2,3)
    by (auto simp: relative_path_def b_def [symmetric] Let_def trim_prefix_def prefix_def split: if_splits)
  define ws where "ws = split_char (CHR ''/'') rest"
  define xs where "xs = split_char (CHR ''/'') b"
  have split: "split_char (CHR ''/'') p = xs @ ws" by (simp add: p ws_def xs_def split_char_append)
  have ne: "ws \<noteq> []" "xs \<noteq> []" by (simp_all add: ws_def xs_def)
  have ok: "ws ! j \<noteq> ''.'' \<and> ws ! j \<noteq> ''..'' \<and> (ws ! j = [] \<longrightarrow> j = length ws - 1)" if "j < length ws" for j
  proof -
    have "length xs + j < length (xs @ ws)" using that by simp
    then have "(xs @ ws) ! (length xs + j) \<noteq> ''.'' \<and> (xs @ ws) ! (length xs + j) \<noteq> ''..'' \<and>
        ((xs @ ws) ! (length xs + j) = [] \<longrightarrow> length xs + j = 0 \<or> length xs + j = length (xs @ ws) - 1)"
      using assms(1) unfolding split segments_ok_def list_all_iff by (metis atLeastLessThan_iff le0 set_upt)
    moreover have "(xs @ ws) ! (length xs + j) = ws ! j" by simp
    ultimately show ?thesis using ne that by auto
  qed
  show ?thesis
  proof (rule that)
    have "split_char (CHR ''/'') rel = [] # ws" by (simp add: rel ws_def)
    then show "rel = slashed ws" by (rule slashed_split)
    show "ws \<noteq> [[]]"
    proof
      assume "ws = [[]]"
      then have "rest = []" using split_char_join [of "CHR ''/''" rest] by (simp add: ws_def)
      with rel assms(3) show False by simp
    qed
    show "ws \<noteq> []" by (rule ne)
    show "\<forall>w \<in> set (butlast ws). w \<noteq> []"
    proof
      fix w assume "w \<in> set (butlast ws)"
      then obtain j where "j < length ws - 1" "w = ws ! j" by (auto simp: in_set_conv_nth nth_butlast)
      then show "w \<noteq> []" using ok [of j] by auto
    qed
    show "\<forall>w \<in> set ws. CHR ''/'' \<notin> set w \<and> w \<noteq> ''.'' \<and> w \<noteq> ''..''"
      using ok split_char_no_sep [of _ "CHR ''/''" rest] by (auto simp: in_set_conv_nth ws_def [symmetric])
  qed
qed

section \<open>The path sent\<close>



end
