(* ===== verification/Request_Gate.thy ===== *)
theory Request_Gate
  imports Anonymous_Images Personal_Query Upstream_Auth
begin

text \<open>
  The handlers of \<open>internal/gateway/server.go\<close> that answer themselves: login, logout, the current
  user, public information; what every request passes first, the session and the path policy. The
  store is a record of operations, \<open>memory_session_ops\<close> the in-memory store. SHA-256, random bytes,
  \<open>json.Unmarshal\<close>, \<open>mime.ParseMediaType\<close> and the clock are arguments; telemetry events are left out.
\<close>

section \<open>The store and the state\<close>

record 's session_ops =
  so_authenticate :: "string \<Rightarrow> string \<Rightarrow> 's \<Rightarrow> gw_error + gateway_user option"
  so_find_user :: "string \<Rightarrow> 's \<Rightarrow> gw_error + gateway_user option"
  so_public_users :: "'s \<Rightarrow> gw_error + gateway_user list"
  so_save_session :: "session \<Rightarrow> 's \<Rightarrow> gw_error option \<times> 's"
  so_find_session :: "string \<Rightarrow> 's \<Rightarrow> gw_error + session option"
  so_exists :: "string \<Rightarrow> 's \<Rightarrow> gw_error + bool"
  so_revoke :: "time \<Rightarrow> string \<Rightarrow> 's \<Rightarrow> gw_error option \<times> 's"
  so_policy :: "string \<Rightarrow> string \<Rightarrow> 's \<Rightarrow> gw_error + decision"
  so_audit :: "time \<Rightarrow> audit_log \<Rightarrow> 's \<Rightarrow> 's"
  so_runtime :: "bool \<times> bool \<Rightarrow> 's \<Rightarrow> gw_error + upstream_runtime"
  so_update_info :: "bool \<times> bool \<Rightarrow> server_info_update \<Rightarrow> 's \<Rightarrow> gw_error option \<times> 's"
  so_rules :: "bool \<Rightarrow> 's \<Rightarrow> gw_error + route_rule list"
  so_auth :: "'s auth_ops"
  so_personal :: "session \<Rightarrow> personal_req \<Rightarrow> guard_tracker \<Rightarrow> 's \<Rightarrow> reply option \<times> guard_tracker \<times> 's"

definition memory_session_ops :: "gateway_config \<Rightarrow> memory_store session_ops" where
  "memory_session_ops cfg =
     \<lparr>so_authenticate = (\<lambda>u p m. map_sum id Some (authenticate_user u p m)),
      so_find_user = (\<lambda>u m. map_sum id Some (find_user_by_username u m)),
      so_public_users = (\<lambda>m. Inr (list_public_users m)),
      so_save_session = (\<lambda>s m. (None, save_session s m)),
      so_find_session = (\<lambda>k m. map_sum id Some (find_session k m)),
      so_exists = (\<lambda>k m. Inr (session_token_exists k m)),
      so_revoke = revoke_session,
      so_policy = (\<lambda>me rel m. Inr (check_path_policy me rel m)),
      so_audit = record_audit,
      so_runtime = load_default_upstream_runtime,
      so_update_info = update_server_info,
      so_rules = list_route_rules,
      so_auth = memory_auth_ops,
      so_personal = handle_personal_data_request (gc_resume cfg) (gc_base_path cfg)\<rparr>"

record 's gateway =
  gw_store :: 's
  gw_logins :: login_limiter
  gw_guards :: guard_tracker
  gw_images :: image_namespace

abbreviation with_store :: "('s \<Rightarrow> 's) \<Rightarrow> 's gateway \<Rightarrow> 's gateway" where
  "with_store f g \<equiv> g\<lparr>gw_store := f (gw_store g)\<rparr>"

section \<open>Audit\<close>

definition audit_entry :: "string \<times> string \<Rightarrow> string \<Rightarrow> string \<Rightarrow> string \<Rightarrow> string \<Rightarrow> string \<Rightarrow> int \<Rightarrow> audit_log" where
  "audit_entry user event message remote me path status =
     \<lparr>al_id = [], al_user = fst user, al_synthetic_user = snd user, al_event = event,
      al_message = message, al_remote_ip = remote, al_method = me, al_path = path,
      al_status = status, al_error_kind = [], al_direction = [], al_bytes = 0, al_duration_ms = 0,
      al_upstream_status = 0, al_committed = False, al_created = 0\<rparr>"

text \<open>\<open>audit\<close>: the time of the entry is \<open>now\<close>; an error of the store is dropped.\<close>

definition audit :: "'s session_ops \<Rightarrow> time \<Rightarrow> audit_log \<Rightarrow> 's gateway \<Rightarrow> 's gateway" where
  "audit ops now e = with_store (so_audit ops now (e\<lparr>al_created := or_now now (al_created e)\<rparr>))"

text \<open>\<open>auditForRequest\<close>: the entry names the user of the request's token, active or not.\<close>

definition audit_for_request ::
  "'s session_ops \<Rightarrow> (string \<Rightarrow> string) \<Rightarrow> http_request \<Rightarrow> string \<Rightarrow> string \<Rightarrow> string \<Rightarrow> int \<Rightarrow> 's gateway \<Rightarrow> audit_log" where
  "audit_for_request ops hash r rel event message status g =
     (let token = extract_token r;
          user = (if token = [] then ([], [])
                  else (case so_find_session ops (hash token) (gw_store g) of
                          Inr (Some s) \<Rightarrow> (gs_user s, gs_synthetic_user s) | _ \<Rightarrow> ([], [])))
      in audit_entry user event message (remote_ip r) (hr_method r) rel status)"

definition audit_login_failure ::
  "'s session_ops \<Rightarrow> time \<Rightarrow> http_request \<Rightarrow> string \<Rightarrow> string \<Rightarrow> int \<Rightarrow> 's gateway \<Rightarrow> 's gateway" where
  "audit_login_failure ops now r username message status g =
     (let user = (if trim_space username = [] then ([], [])
                  else (case so_find_user ops username (gw_store g) of
                          Inr (Some u) \<Rightarrow> (gu_id u, gu_synthetic u) | _ \<Rightarrow> ([], [])))
      in audit ops now (audit_entry user ''login_failure'' message (remote_ip r) (hr_method r) (hr_path r) status) g)"

section \<open>Session and path policy\<close>

definition active_session ::
  "'s session_ops \<Rightarrow> (string \<Rightarrow> string) \<Rightarrow> time \<Rightarrow> string \<Rightarrow> 's gateway \<Rightarrow> session option" where
  "active_session ops hash now token g =
     (if token = [] then None
      else (case so_find_session ops (hash token) (gw_store g) of
              Inl _ \<Rightarrow> None
            | Inr s \<Rightarrow> if session_active s now then s else None))"

definition unauthorized :: "header \<Rightarrow> response" where
  "unauthorized h = http_error h ''unauthorized'' 401"

definition path_policy_allows ::
  "'s session_ops \<Rightarrow> (string \<Rightarrow> string) \<Rightarrow> time \<Rightarrow> header \<Rightarrow> http_request \<Rightarrow> string \<Rightarrow> 's gateway \<Rightarrow>
     response option \<times> 's gateway" where
  "path_policy_allows ops hash now h r rel g =
     (case so_policy ops (hr_method r) rel (gw_store g) of
        Inl _ \<Rightarrow>
          (Some (http_error h ''path policy unavailable'' 500),
           audit ops now (audit_for_request ops hash r rel ''path_policy_error'' ''path policy check failed'' 500 g) g)
      | Inr d \<Rightarrow>
          (if \<not> dec_allowed d
           then (let message = (if dec_policy_id d \<noteq> [] \<or> dec_reason d \<noteq> []
                   then ''path policy denied request: policy='' @ dec_policy_id d @ '' reason='' @ dec_reason d
                   else ''path policy denied request'')
                 in (Some (http_error (header_set ''Cache-Control'' ''no-store'' h) ''forbidden'' 403),
                     audit ops now (audit_for_request ops hash r rel ''path_denied'' message 403 g) g))
           else (None, g)))"

section \<open>Login\<close>

record authenticate_form =
  af_username :: string
  af_pw :: string
  af_password :: string

record login_env =
  lv_hash :: "string \<Rightarrow> string"
  lv_random :: "nat list option"
  lv_unmarshal :: "string \<Rightarrow> authenticate_form option"
  lv_media_type :: "string \<Rightarrow> string"
  lv_now_blocked :: time
  lv_now_failure :: time
  lv_now :: time
  lv_now_audit :: time
  lv_now_cookie :: time

definition session_ttl :: duration where "session_ttl = 30 * 24 * hour"

text \<open>The body is read up to 2 MiB; a form or JSON.\<close>

definition parse_authenticate_body :: "login_env \<Rightarrow> http_request \<Rightarrow> authenticate_form option" where
  "parse_authenticate_body env r =
     (let data = (case hr_body r of Some b \<Rightarrow> b | None \<Rightarrow> [])
      in if 2 * 2 ^ 20 < length data then None
         else if lv_media_type env (header_get (hr_header r) ''Content-Type'') = ''application/x-www-form-urlencoded''
         then (case parse_query data of
                 (q, failed) \<Rightarrow>
                   if failed then None
                   else Some \<lparr>af_username = query_get q ''Username'', af_pw = query_get q ''Pw'',
                          af_password = query_get q ''Password''\<rparr>)
         else lv_unmarshal env data)"

definition new_session :: "login_env \<Rightarrow> http_request \<Rightarrow> gateway_user \<Rightarrow> string \<Rightarrow> session" where
  "new_session env r user token_hash =
     (let i = extract_client_identity r
      in \<lparr>gs_token_hash = token_hash, gs_user = gu_id user, gs_username = gu_username user,
          gs_synthetic_user = gu_synthetic user, gs_client = li_client i, gs_device = li_device i,
          gs_device_id = li_device_id i, gs_version = li_version i, gs_remote_ip = remote_ip r,
          gs_created = lv_now env, gs_expires = lv_now env + session_ttl, gs_revoked = None\<rparr>)"

text \<open>The part of \<open>handleAuthenticate\<close> after the password was accepted.\<close>

definition open_session ::
  "'s session_ops \<Rightarrow> gateway_config \<Rightarrow> login_env \<Rightarrow> header \<Rightarrow> http_request \<Rightarrow> gateway_user \<Rightarrow> 's gateway \<Rightarrow>
     response \<times> 's gateway" where
  "open_session ops cfg env h r user g =
     (case new_opaque_token (lv_hash env) (lv_random env) of
        None \<Rightarrow> (http_error h ''token generation failed'' 500, g)
      | Some (token, token_hash) \<Rightarrow>
          (let s = new_session env r user token_hash;
               note = (\<lambda>event message status. audit ops (lv_now_audit env)
                 (audit_entry (gu_id user, gu_synthetic user) event message (remote_ip r) (hr_method r) (hr_path r) status))
           in case so_save_session ops s (gw_store g) of
                (Some err, st) \<Rightarrow>
                  (http_error h ''session save failed'' 500,
                   note ''session_save_failure'' ''session save failed'' 500 (g\<lparr>gw_store := st\<rparr>))
              | (None, st) \<Rightarrow>
                  (write_json (header_set ''Cache-Control'' ''no-store'' h)
                     [resource_cookie (gc_base_path cfg) token (gs_expires s) (lv_now_cookie env)] 200
                     (JObject (authentication_result_dto user s token (gc_server_id cfg))),
                   note ''login_success'' ''login succeeded'' 200 (g\<lparr>gw_store := st\<rparr>))))"

definition handle_authenticate ::
  "'s session_ops \<Rightarrow> gateway_config \<Rightarrow> login_env \<Rightarrow> header \<Rightarrow> http_request \<Rightarrow> 's gateway \<Rightarrow> response \<times> 's gateway" where
  "handle_authenticate ops cfg env h r g =
     (case parse_authenticate_body env r of
        None \<Rightarrow> (http_error h ''bad request'' 400, g)
      | Some form \<Rightarrow>
          (let username = af_username form; key = login_failure_key username r;
               failed = (\<lambda>message status. audit_login_failure ops (lv_now_audit env) r username message status);
               (blocked, logins) = login_blocked key (lv_now_blocked env) (gw_logins g);
               g = g\<lparr>gw_logins := logins\<rparr>;
               password = (if af_pw form = [] then af_password form else af_pw form)
           in if blocked then (http_error h ''failed to authenticate'' 401, failed ''login blocked'' 401 g)
              else if username = [] \<or> password = []
              then (http_error h ''bad request'' 400, failed ''missing credentials'' 400 g)
              else (let refuse = (http_error h ''failed to authenticate'' 401,
                          failed ''invalid credentials'' 401
                            (g\<lparr>gw_logins := record_login_failure key (lv_now_failure env) (gw_logins g)\<rparr>))
                    in case so_authenticate ops username password (gw_store g) of
                         Inr (Some user) \<Rightarrow>
                           (if \<not> gu_enabled user then refuse
                            else open_session ops cfg env h r user
                              (g\<lparr>gw_logins := clear_login_failures key (gw_logins g)\<rparr>))
                       | _ \<Rightarrow> refuse)))"

section \<open>Logout and users\<close>

record serve_env =
  sv_hash :: "string \<Rightarrow> string"
  sv_now :: time
  sv_now_audit :: time
  sv_now_revoke :: time

definition handle_logout ::
  "'s session_ops \<Rightarrow> gateway_config \<Rightarrow> serve_env \<Rightarrow> header \<Rightarrow> http_request \<Rightarrow> string \<Rightarrow> 's gateway \<Rightarrow>
     response \<times> 's gateway" where
  "handle_logout ops cfg env h r rel g =
     (let token = extract_token r;
          note = (\<lambda>user event message status. audit ops (sv_now_audit env)
            (audit_entry user event message (remote_ip r) (hr_method r) rel status))
      in case active_session ops (sv_hash env) (sv_now env) token g of
           None \<Rightarrow> (unauthorized h, note ([], []) ''logout_failure'' ''session unavailable'' 401 g)
         | Some s \<Rightarrow>
             (let user = (gs_user s, gs_synthetic_user s)
              in case so_revoke ops (sv_now_revoke env) (sv_hash env token) (gw_store g) of
                   (Some err, st) \<Rightarrow>
                     (http_error h ''session revoke failed'' 500,
                      note user ''logout_failure'' ''session revoke failed'' 500 (g\<lparr>gw_store := st\<rparr>))
                 | (None, st) \<Rightarrow>
                     ((write_header h 200)\<lparr>re_cookies :=
                        (if resource_cookie_matches r token then [cleared_resource_cookie (gc_base_path cfg)] else [])\<rparr>,
                      note user ''logout_success'' ''logout succeeded'' 200 (g\<lparr>gw_store := st\<rparr>))))"

definition handle_public_users ::
  "'s session_ops \<Rightarrow> gateway_config \<Rightarrow> header \<Rightarrow> 's gateway \<Rightarrow> response" where
  "handle_public_users ops cfg h g =
     (case so_public_users ops (gw_store g) of
        Inl _ \<Rightarrow> http_error h ''users unavailable'' 500
      | Inr users \<Rightarrow>
          write_json h [] 200 (JArray (map (\<lambda>u. JObject (user_dto (gu_username u) (gu_synthetic u) (gc_server_id cfg)))
            (filter gu_enabled users))))"

text \<open>\<open>exists\<close> of \<open>guardProxyQueryCredentials\<close> on the store.\<close>

abbreviation token_exists :: "'s session_ops \<Rightarrow> (string \<Rightarrow> string) \<Rightarrow> 's gateway \<Rightarrow> string \<Rightarrow> gw_error + bool" where
  "token_exists ops hash g t \<equiv> so_exists ops (hash t) (gw_store g)"

definition handle_current_user ::
  "'s session_ops \<Rightarrow> gateway_config \<Rightarrow> serve_env \<Rightarrow> header \<Rightarrow> http_request \<Rightarrow> string \<Rightarrow> 's gateway \<Rightarrow> response" where
  "handle_current_user ops cfg env h r rel g =
     (case path_parts rel of
        [_, requested] \<Rightarrow>
          (let token = extract_token r
           in case active_session ops (sv_hash env) (sv_now env) token g of
                None \<Rightarrow> unauthorized h
              | Some s \<Rightarrow>
                  (case guard_proxy_query_credentials (token_exists ops (sv_hash env) g) (hr_raw_query r) token of
                     Some err \<Rightarrow> write_credential_query_error h err
                   | None \<Rightarrow>
                       (if \<not> equal_fold requested ''Me'' \<and> requested \<noteq> gs_synthetic_user s
                        then http_error h ''forbidden'' 403
                        else write_json (header_set ''Cache-Control'' ''no-store'' h) [] 200
                          (JObject (private_user_dto (gs_username s) (gs_synthetic_user s) (gc_server_id cfg))))))
      | _ \<Rightarrow> http_error h ''404 page not found'' 404)"

section \<open>Public information\<close>

text \<open>
  \<open>RefreshUpstreamServerInfo\<close>: \<open>send\<close> answers the two probes, \<open>meanwhile\<close> is what others do to the
  store while the second one runs. Whether it fails, and the state.
\<close>

definition refresh_upstream_server_info ::
  "'s session_ops \<Rightarrow> (string \<Rightarrow> bool) \<Rightarrow> (nat \<Rightarrow> url \<Rightarrow> header \<Rightarrow> probe_answer) \<Rightarrow> ('s \<Rightarrow> 's) \<Rightarrow> bool \<times> bool \<Rightarrow>
     time \<Rightarrow> time \<Rightarrow> 's gateway \<Rightarrow> bool \<times> 's gateway" where
  "refresh_upstream_server_info ops ip6 send meanwhile ctx now now_validated g =
     (let (failed, st) =
            (case so_runtime ops ctx (gw_store g) of
               Inl _ \<Rightarrow> (True, gw_store g)
             | Inr runtime \<Rightarrow>
                 (case probe_upstream_public ip6 (send 0) runtime of
                    Inl _ \<Rightarrow> (True, gw_store g)
                  | Inr info \<Rightarrow>
                      (case so_update_info ops ctx
                         \<lparr>si_source = us_id (ur_source runtime), si_server = us_server_id (ur_source runtime),
                          si_name = pi_name info, si_version = pi_version info, si_checked = now\<rparr> (gw_store g) of
                         (err, st) \<Rightarrow> (err \<noteq> None, st))));
          st' = meanwhile st;
          (ns, err) = validate_image_namespace ip6 (send 1) (so_runtime ops ctx st) (so_runtime ops ctx st') now_validated
      in (failed \<or> err \<noteq> None, g\<lparr>gw_store := st', gw_images := ns\<rparr>))"

definition default_backend_version :: string where "default_backend_version = ''4.8.11.0''"

definition public_system_info_version ::
  "'s session_ops \<Rightarrow> (string \<Rightarrow> bool) \<Rightarrow> (nat \<Rightarrow> url \<Rightarrow> header \<Rightarrow> probe_answer) \<Rightarrow> ('s \<Rightarrow> 's) \<Rightarrow> bool \<times> bool \<Rightarrow>
     time \<Rightarrow> time \<Rightarrow> 's gateway \<Rightarrow> string \<times> 's gateway" where
  "public_system_info_version ops ip6 send meanwhile ctx now now_validated g =
     (case so_runtime ops ctx (gw_store g) of
        Inl _ \<Rightarrow> (default_backend_version, g)
      | Inr runtime \<Rightarrow>
          (let v = trim_space (us_server_version (ur_source runtime))
           in if v \<noteq> [] then (v, g)
              else (case refresh_upstream_server_info ops ip6 send meanwhile ctx now now_validated g of
                      (failed, g) \<Rightarrow>
                        if failed then (default_backend_version, g)
                        else (case so_runtime ops ctx (gw_store g) of
                                Inl _ \<Rightarrow> (default_backend_version, g)
                              | Inr runtime \<Rightarrow>
                                  (let v = trim_space (us_server_version (ur_source runtime))
                                   in (if v \<noteq> [] then v else default_backend_version, g))))))"

definition public_system_info :: "gateway_config \<Rightarrow> string \<Rightarrow> string \<Rightarrow> jobject" where
  "public_system_info cfg base version =
     [(''Id'', JString (gc_server_id cfg)), (''ServerId'', JString (gc_server_id cfg)),
      (''ServerName'', JString ''Emby Gateway''), (''Version'', JString version), (''LocalAddress'', JString base),
      (''WanAddress'', JString base), (''RemoteAddresses'', JArray [JString base]),
      (''LocalAddresses'', JArray [JString base])]"

definition handle_ping :: "header \<Rightarrow> response" where
  "handle_ping h =
     (write_header (header_set ''Content-Type'' ''text/plain; charset=utf-8'' h) 200)
       \<lparr>re_body := TextBody ''Emby Server is running''\<rparr>"

definition handle_branding_configuration :: "header \<Rightarrow> response" where
  "handle_branding_configuration h =
     (write_header (header_set ''Cache-Control'' ''no-store''
        (header_set ''Content-Type'' ''application/json; charset=utf-8'' h)) 200)\<lparr>re_body := TextBody ''{}''\<rparr>"

definition handle_branding_css :: "header \<Rightarrow> response" where
  "handle_branding_css h =
     write_header (header_set ''Cache-Control'' ''no-store'' (header_set ''Content-Type'' ''text/css; charset=utf-8'' h)) 200"

end
