(* ===== verification/Proxy_Response.thy ===== *)
theory Proxy_Response
  imports Request_Gate
begin

text \<open>
  The answer of the upstream on its way to the client (\<open>server.go\<close>, \<open>missing_content_type.go\<close>,
  \<open>proxy_failure.go\<close>): JSON with the user's own playback data, playlists, text, images and media.
  Subtitles and audio conversion are not configured, and the pool of media buffers is off. The
  JSON parser, \<open>mime.ParseMediaType\<close> and \<open>strconv.FormatInt\<close> are arguments, as is what the client's
  connection takes of a media body; it takes all of any other body.
\<close>

section \<open>The user's playback data in an answer\<close>

record 's overlay_ops =
  oo_states :: "string \<Rightarrow> string list \<Rightarrow> 's \<Rightarrow> gw_error + (string, playback_state) gomap"
  oo_aggregates :: "string \<Rightarrow> string list \<Rightarrow> string list \<Rightarrow> 's \<Rightarrow> gw_error + aggregates"
  oo_counts :: "string list \<Rightarrow> 's \<Rightarrow> gw_error + (string, child_count) gomap"
  oo_save_counts :: "time \<Rightarrow> child_count list \<Rightarrow> 's \<Rightarrow> 's"

definition memory_overlay_ops :: "memory_store overlay_ops" where
  "memory_overlay_ops =
     \<lparr>oo_states = (\<lambda>user ids m. Inr (list_states_by_ids user ids m)),
      oo_aggregates = (\<lambda>user series seasons m. Inr (list_aggregates user series seasons m)),
      oo_counts = (\<lambda>ids m. Inr (list_child_counts ids m)),
      oo_save_counts = save_child_counts\<rparr>"

definition aggregate_child_count_lookups :: nat where "aggregate_child_count_lookups = 5"

text \<open>\<open>fetchItemChildCount\<close> of what the upstream answers.\<close>

definition fetched_child_count :: "(json \<times> int) option \<Rightarrow> int" where
  "fetched_child_count answer =
     (case answer of
        None \<Rightarrow> 0
      | Some (v, status) \<Rightarrow>
          (if status < 200 \<or> 300 \<le> status then 0
           else (case total_record_count v of Some n \<Rightarrow> if 0 < n then n else 0 | None \<Rightarrow> 0)))"

text \<open>The first loop: known counts are applied, the first five others are missing.\<close>

fun apply_known_counts ::
  "(string, child_count) gomap \<Rightarrow> string list \<Rightarrow> aggregates \<Rightarrow> string list \<Rightarrow> aggregates \<times> string list" where
  "apply_known_counts counts [] ags missing = (ags, missing)"
| "apply_known_counts counts (i # ids) ags missing =
     (case map_of counts i of
        Some c \<Rightarrow>
          (if 0 < cc_count c
           then apply_known_counts counts ids (apply_aggregate_total i (cc_count c) ags) missing
           else apply_known_counts counts ids ags
             (if length missing < aggregate_child_count_lookups then missing @ [i] else missing))
      | None \<Rightarrow>
          apply_known_counts counts ids ags
            (if length missing < aggregate_child_count_lookups then missing @ [i] else missing))"

definition apply_child_counts ::
  "'s overlay_ops \<Rightarrow> (string \<Rightarrow> (json \<times> int) option) \<Rightarrow> time \<Rightarrow> jobject list \<Rightarrow> aggregates \<Rightarrow> 's \<Rightarrow>
     aggregates \<times> 's" where
  "apply_child_counts ops fetch now items ags st =
     (let (series, seasons) = aggregate_item_ids items; ids = series @ seasons;
          counts = (case oo_counts ops ids st of Inr m \<Rightarrow> m | Inl _ \<Rightarrow> []);
          (ags, missing) = apply_known_counts counts ids ags [];
          found = filter (\<lambda>(_, n). 0 < n) (map (\<lambda>i. (i, fetched_child_count (fetch i))) missing);
          ags = fold (\<lambda>(i, n). apply_aggregate_total i n) found ags
      in (ags, if found = [] then st
               else oo_save_counts ops now
                 (map (\<lambda>(i, n). \<lparr>cc_item = i, cc_count = n, cc_updated = 0\<rparr>) found) st))"

text \<open>\<open>overlayUserData\<close> changes the items that \<open>selectBaseItems\<close> finds where they are.\<close>

definition overlay_member :: "(jobject \<Rightarrow> jobject) \<Rightarrow> json \<Rightarrow> json" where
  "overlay_member f v = (case v of JObject obj \<Rightarrow> if is_base_item_json obj then JObject (f obj) else v | _ \<Rightarrow> v)"

text \<open>The value under the first key that is the name in some case.\<close>

fun map_member :: "string \<Rightarrow> (json \<Rightarrow> json) \<Rightarrow> jobject \<Rightarrow> jobject" where
  "map_member name f [] = []"
| "map_member name f ((k, v) # obj) = (if equal_fold k name then (k, f v) # obj else (k, v) # map_member name f obj)"

definition overlay_json :: "(jobject \<Rightarrow> jobject) \<Rightarrow> json \<Rightarrow> json" where
  "overlay_json f v =
     (case v of
        JObject obj \<Rightarrow>
          (if is_base_item_json obj then JObject (f obj)
           else JObject (map_member ''Items'' (\<lambda>v. case v of JArray vs \<Rightarrow> JArray (map (overlay_member f) vs) | _ \<Rightarrow> v)
             (map_member ''Item'' (overlay_member f) obj)))
      | JArray vs \<Rightarrow> JArray (map (overlay_member f) vs)
      | _ \<Rightarrow> v)"

definition rewrite_proxy_json ::
  "'s overlay_ops \<Rightarrow> (string \<Rightarrow> (json \<times> int) option) \<Rightarrow> time \<Rightarrow> rewrite_env \<Rightarrow> json \<Rightarrow> 's \<Rightarrow> json \<times> 's" where
  "rewrite_proxy_json ops fetch now e v st =
     (let rewritten = rewrite_json e v
      in case rw_session e of
           None \<Rightarrow> (rewritten, st)
         | Some s \<Rightarrow>
             (let items = select_base_items rewritten;
                  states = (case oo_states ops (gs_user s) (item_ids_from_base_items items) st of
                    Inr m \<Rightarrow> m | Inl _ \<Rightarrow> []);
                  (series, seasons) = aggregate_item_ids items;
                  ags = (case oo_aggregates ops (gs_user s) series seasons st of
                    Inr a \<Rightarrow> a | Inl _ \<Rightarrow> \<lparr>ags_series = [], ags_seasons = []\<rparr>);
                  (ags, st) = apply_child_counts ops fetch now items ags st
              in (overlay_json (overlay_item (gs_user s) (gs_synthetic_user s) states ags) rewritten, st)))"

section \<open>Failures before the headers\<close>

datatype proxy_failure_class = ProxyFailureCanceled | ProxyFailureTimeout | ProxyFailureOther

definition classify_proxy_failure :: "bool \<Rightarrow> io_error \<Rightarrow> proxy_failure_class" where
  "classify_proxy_failure ctx_done err =
     (if ctx_done \<or> err = ContextCanceled then ProxyFailureCanceled
      else if err = DeadlineExceeded \<or> is_timeout_error (Some err) then ProxyFailureTimeout
      else ProxyFailureOther)"

record failure_details =
  fd_event :: string
  fd_audit :: string
  fd_body :: string
  fd_kind :: string
  fd_duration_ms :: int
  fd_status :: int

text \<open>
  What the handlers of an answer share: \<open>pe_ctx_done\<close> is whether the client went away, \<open>pe_writes\<close>
  what its connection takes, \<open>pe_error_text\<close> the texts of errors, \<open>pe_fetch\<close> answers the requests for
  the number of children of an item.
\<close>

record 's proxy_env =
  pe_ops :: "'s session_ops"
  pe_overlay :: "'s overlay_ops"
  pe_media_type :: "string \<Rightarrow> string"
  pe_decimal :: "int \<Rightarrow> string"
  pe_unmarshal :: "string \<Rightarrow> json option"
  pe_error_text :: "io_error \<Rightarrow> string"
  pe_fetch :: "string \<Rightarrow> (json \<times> int) option"
  pe_writes :: "write_result list"
  pe_ctx_done :: bool
  pe_now :: time
  pe_duration_ms :: int

text \<open>No response is a panic of the handler, which aborts the connection.\<close>

definition pre_header_failure ::
  "'s proxy_env \<Rightarrow> header \<Rightarrow> http_request \<Rightarrow> string \<Rightarrow> resource_route_kind \<Rightarrow> session \<Rightarrow> io_error \<Rightarrow> failure_details \<Rightarrow>
     's gateway \<Rightarrow> response option \<times> 's gateway" where
  "pre_header_failure env h r rel kind s err d g =
     (let c = classify_proxy_failure (pe_ctx_done env) err
      in if c = ProxyFailureCanceled then (None, g)
         else (let status = (if c = ProxyFailureTimeout then 504 else 502);
                   error_kind = (if c = ProxyFailureTimeout then ''upstream_timeout'' else fd_kind d);
                   entry = (audit_entry (gs_user s, gs_synthetic_user s) (fd_event d) (fd_audit d) (remote_ip r)
                     (hr_method r) rel status)\<lparr>al_error_kind := error_kind, al_direction := ''upstream'',
                       al_duration_ms := fd_duration_ms d, al_upstream_status := fd_status d\<rparr>
               in (Some (http_error (apply_resource_cache_policy kind status h) (fd_body d) status),
                   audit (pe_ops env) (pe_now env) entry g)))"

definition read_failure :: "'s proxy_env \<Rightarrow> int \<Rightarrow> failure_details" where
  "read_failure env status =
     \<lparr>fd_event = ''proxy_read_failed'', fd_audit = ''backend response read failed'', fd_body = ''response read failed'',
      fd_kind = ''upstream_read_error'', fd_duration_ms = pe_duration_ms env, fd_status = status\<rparr>"

section \<open>Bodies that are streamed\<close>

definition session_audit ::
  "('s, 'more) proxy_env_scheme \<Rightarrow> session \<Rightarrow> string \<Rightarrow> string \<Rightarrow> http_request \<Rightarrow> string \<Rightarrow> int \<Rightarrow> 's gateway \<Rightarrow> 's gateway" where
  "session_audit env s event message r rel status =
     audit (pe_ops env) (pe_now env)
       (audit_entry (gs_user s, gs_synthetic_user s) event message (remote_ip r) (hr_method r) rel status)"

text \<open>\<open>abortProxyBody\<close>: what was sent stays sent.\<close>

definition abort_proxy_body ::
  "'s proxy_env \<Rightarrow> header \<Rightarrow> int \<Rightarrow> string \<Rightarrow> http_request \<Rightarrow> string \<Rightarrow> session \<Rightarrow> string \<Rightarrow> 's gateway \<Rightarrow>
     response option \<times> 's gateway" where
  "abort_proxy_body env h status sent r rel s message g =
     (Some ((write_header h status)\<lparr>re_body := Bytes sent False\<rparr>),
      session_audit env s ''proxy_read_failed'' message r rel 502 g)"

definition copy_proxy_body ::
  "'s proxy_env \<Rightarrow> header \<Rightarrow> int \<Rightarrow> string \<Rightarrow> read_result list \<Rightarrow> http_request \<Rightarrow> string \<Rightarrow> session \<Rightarrow> 's gateway \<Rightarrow>
     response option \<times> 's gateway" where
  "copy_proxy_body env h status sent reads r rel s g =
     (case read_all reads of
        (data, None) \<Rightarrow> (Some ((write_header h status)\<lparr>re_body := Bytes (sent @ data) True\<rparr>), g)
      | (data, Some e) \<Rightarrow> abort_proxy_body env h status (sent @ data) r rel s (pe_error_text env e) g)"

text \<open>\<open>writeMediaResponseOrAbort\<close> with \<open>copyMediaReaderOrAbort\<close>.\<close>

definition write_media ::
  "'s proxy_env \<Rightarrow> header \<Rightarrow> int \<Rightarrow> int \<Rightarrow> read_result list \<Rightarrow> http_request \<Rightarrow> string \<Rightarrow> session \<Rightarrow> 's gateway \<Rightarrow>
     response option \<times> 's gateway" where
  "write_media env h status len reads r rel s g =
     (let h = set_content_length (pe_decimal env) len h;
          res = copy_media_body len reads (pe_writes env);
          resp = (write_header h status)\<lparr>re_body := Bytes (mc_sent res) (mc_err res = None)\<rparr>
      in if mc_err res = None \<or> pe_ctx_done env then (Some resp, g)
         else (case media_copy_audit res of
                 None \<Rightarrow> (Some resp, g)
               | Some (event, message, kind) \<Rightarrow>
                   (Some resp, audit (pe_ops env) (pe_now env)
                      ((audit_entry (gs_user s, gs_synthetic_user s) event message (remote_ip r) (hr_method r) rel status)
                        \<lparr>al_error_kind := kind,
                         al_direction := (if mc_direction res = Downstream then ''downstream'' else ''upstream''),
                         al_bytes := mc_bytes_written res, al_duration_ms := pe_duration_ms env,
                         al_upstream_status := status, al_committed := True\<rparr>) g)))"

section \<open>Images\<close>

definition reject_invalid_image ::
  "'s proxy_env \<Rightarrow> header \<Rightarrow> http_request \<Rightarrow> string \<Rightarrow> resource_route_kind \<Rightarrow> session \<Rightarrow> string \<Rightarrow> 's gateway \<Rightarrow>
     response option \<times> 's gateway" where
  "reject_invalid_image env h r rel kind s message g =
     (let h = (if kind = ResourceRouteImage then merge_vary_cookie (header_set ''Cache-Control'' ''private, no-store'' h)
               else header_set ''Cache-Control'' ''no-store'' h);
          h = header_del ''Last-Modified'' (header_del ''ETag'' h)
      in (Some (http_error h ''invalid image response'' 502),
          session_audit env s ''proxy_invalid_image'' message r rel 502 g))"

definition incomplete_image_text :: "string \<Rightarrow> string" where
  "incomplete_image_text media_type =
     (if media_type = ''image/jpeg'' then ''backend returned an incomplete JPEG image''
      else if media_type = ''image/png'' then ''backend returned an incomplete PNG image''
      else ''backend returned an incomplete WebP image'')"

definition write_image_proxy_response ::
  "'s proxy_env \<Rightarrow> header \<Rightarrow> http_request \<Rightarrow> string \<Rightarrow> resource_route_kind \<Rightarrow> upstream_answer \<Rightarrow> session \<Rightarrow> 's gateway \<Rightarrow>
     response option \<times> 's gateway" where
  "write_image_proxy_response env h r rel kind a s g =
     (case first_read image_tail_size (ua_reads a) of
        (first, err, rest) \<Rightarrow>
          (if err \<noteq> None \<and> err \<noteq> Some EndOfFile
           then pre_header_failure env
             (header_del ''Last-Modified'' (header_del ''ETag'' (header_set ''Cache-Control'' ''no-store'' h))) r rel kind s
             (the err) \<lparr>fd_event = ''proxy_invalid_image'', fd_audit = ''backend image response read failed'',
               fd_body = ''invalid image response'', fd_kind = ''upstream_read_error'',
               fd_duration_ms = pe_duration_ms env, fd_status = ua_status a\<rparr> g
           else if first = []
           then reject_invalid_image env h r rel kind s
             (if err = Some EndOfFile then ''backend returned an empty image''
              else ''backend returned an invalid image response'') g
           else (let h = set_content_length (pe_decimal env) (ua_length a) h; status = ua_status a;
                     full = (status = 200 \<and> trim_space (header_get (hr_header r) ''Range'') = [] \<and>
                       trim_space (header_get (ua_header a) ''Content-Range'') = []);
                     media_type = pe_media_type env (header_get (ua_header a) ''Content-Type'')
                 in if \<not> full then copy_proxy_body env h status first rest r rel s g
                    else (case body_chunks rest of
                            (chunks, read_err) \<Rightarrow>
                              (let v = fold image_write (first # chunks) (new_image_validator media_type)
                               in case read_err of
                                    Some e \<Rightarrow> abort_proxy_body env h status (iv_out v) r rel s (pe_error_text env e) g
                                  | None \<Rightarrow>
                                      (case image_finish v of
                                         (sent, True) \<Rightarrow> (Some ((write_header h status)\<lparr>re_body := Bytes sent True\<rparr>), g)
                                       | (sent, False) \<Rightarrow>
                                           abort_proxy_body env h status sent r rel s
                                             (incomplete_image_text media_type) g))))))"

section \<open>JSON, playlists and text\<close>

definition proxy_json_limit :: nat where "proxy_json_limit = 20 * 1024 * 1024"
definition proxy_m3u8_limit :: nat where "proxy_m3u8_limit = 20 * 1024 * 1024"
definition missing_content_type_sniff_size :: nat where "missing_content_type_sniff_size = 512"

definition write_json_value ::
  "'s proxy_env \<Rightarrow> rewrite_env \<Rightarrow> header \<Rightarrow> int \<Rightarrow> json \<Rightarrow> 's gateway \<Rightarrow> response option \<times> 's gateway" where
  "write_json_value env e h status v g =
     (case rewrite_proxy_json (pe_overlay env) (pe_fetch env) (pe_now env) e v (gw_store g) of
        (v, st) \<Rightarrow> (Some (write_json (header_del ''Content-Length'' h) [] status v), g\<lparr>gw_store := st\<rparr>))"

text \<open>
  \<open>sniffMissingContentType\<close>: whether the first byte among 512 that is no blank opens a JSON container,
  or the error met before.
\<close>

definition sniff_missing_content_type :: "read_result list \<Rightarrow> io_error + bool" where
  "sniff_missing_content_type reads =
     (case read_all reads of
        (data, err) \<Rightarrow>
          (case find (\<lambda>c. c \<notin> {CHR '' '', CHR 0x09, CHR 0x0D, CHR 0x0A}) (take missing_content_type_sniff_size data) of
             Some c \<Rightarrow> Inr (c = CHR ''{'' \<or> c = CHR ''['')
           | None \<Rightarrow>
               (if length data < missing_content_type_sniff_size
                then (case err of Some e \<Rightarrow> Inl e | None \<Rightarrow> Inr False) else Inr False)))"

definition write_missing_content_type ::
  "'s proxy_env \<Rightarrow> rewrite_env \<Rightarrow> header \<Rightarrow> http_request \<Rightarrow> string \<Rightarrow> resource_route_kind \<Rightarrow> upstream_answer \<Rightarrow> session \<Rightarrow>
     's gateway \<Rightarrow> response option \<times> 's gateway" where
  "write_missing_content_type env e h r rel kind a s g =
     (let fail = (\<lambda>err. pre_header_failure env h r rel kind s err (read_failure env (ua_status a)) g)
      in case sniff_missing_content_type (ua_reads a) of
           Inl err \<Rightarrow> fail err
         | Inr False \<Rightarrow> write_media env h (ua_status a) (ua_length a) (ua_reads a) r rel s g
         | Inr True \<Rightarrow>
             (case read_limited proxy_json_limit (ua_reads a) of
                Inl err \<Rightarrow> fail err
              | Inr data \<Rightarrow>
                  (case pe_unmarshal env data of
                     Some v \<Rightarrow> write_json_value env e h (ua_status a) v g
                   | None \<Rightarrow> write_media env h (ua_status a) (ua_length a) (buffer_reads data) r rel s g)))"

text \<open>\<open>writeProxyResponseWithSnapshot\<close>; \<open>h\<close> are the headers set so far.\<close>

definition write_proxy_response ::
  "'s proxy_env \<Rightarrow> rewrite_env \<Rightarrow> header \<Rightarrow> http_request \<Rightarrow> string \<Rightarrow> resource_route_kind \<Rightarrow> upstream_answer \<Rightarrow> session \<Rightarrow>
     's gateway \<Rightarrow> response option \<times> 's gateway" where
  "write_proxy_response env e h r rel kind a s g =
     (let ct = header_get (ua_header a) ''Content-Type''; status = ua_status a; mt = pe_media_type env;
          h' = (if kind \<noteq> ResourceRouteNone then header_del ''Cache-Control'' h else h);
          h' = apply_resource_cache_policy kind status (copy_response_headers e rel h' (ua_header a));
          fail = (\<lambda>err. pre_header_failure env h' r rel kind s err (read_failure env status) g)
      in if \<not> response_allows_body (hr_method r) status
         then (Some (write_header (set_content_length (pe_decimal env) (ua_length a) h') status), g)
         else if is_image_content_type mt ct \<and> 200 \<le> status \<and> status < 300 \<and> ua_length a = 0
         then reject_invalid_image env h r rel kind s ''backend returned an empty image'' g
         else if is_m3u8_content_type mt ct \<or> suffix ''.m3u8'' (to_lower (ua_path a))
         then (case read_limited proxy_m3u8_limit (ua_reads a) of
                 Inl err \<Rightarrow> fail err
               | Inr data \<Rightarrow>
                   (Some ((write_header (header_del ''Content-Length'' h') status)
                      \<lparr>re_body := Bytes (rewrite_m3u8 e data rel) True\<rparr>), g))
         else if is_media_stream_response mt r rel status (ua_header a) (ua_path a)
         then write_media env h' status (ua_length a) (ua_reads a) r rel s g
         else if is_streaming_content_type mt ct
         then (if is_image_content_type mt ct then write_image_proxy_response env h' r rel kind a s g
               else write_media env h' status (ua_length a) (ua_reads a) r rel s g)
         else if status = 200 \<and> trim_space ct = [] then write_missing_content_type env e h' r rel kind a s g
         else if is_json_content_type mt ct \<or> trim_space ct = []
         then (case read_limited proxy_json_limit (ua_reads a) of
                 Inl err \<Rightarrow> fail err
               | Inr data \<Rightarrow>
                   (case (if looks_like_json data then pe_unmarshal env data else None) of
                      Some v \<Rightarrow> write_json_value env e h' status v g
                    | None \<Rightarrow> (Some ((write_header h' status)\<lparr>re_body := Bytes (rewrite_bytes e data) True\<rparr>), g)))
         else copy_proxy_body env (set_content_length (pe_decimal env) (ua_length a) h') status [] (ua_reads a) r rel s g)"

end
