(* ===== verification/Download_Fallback.thy ===== *)
theory Download_Fallback
  imports Proxy_Response
begin

text \<open>
  A download the upstream forbids is served from the item's direct stream
  (\<open>internal/gateway/download_fallback.go\<close>). \<open>mime.FormatMediaType\<close>, the JSON of the request and the
  decoding of its answer are arguments, as is what the upstream answers.
\<close>

definition download_item_id :: "string \<Rightarrow> string \<Rightarrow> string option" where
  "download_item_id me rel =
     (if me \<noteq> ''GET'' \<and> me \<noteq> ''HEAD'' then None
      else (case path_parts rel of
              [a, item, b] \<Rightarrow>
                (if equal_fold a ''Items'' \<and> trim_space item \<noteq> [] \<and> equal_fold b ''Download'' then Some item else None)
            | _ \<Rightarrow> None))"

record download_source =
  ds_id :: string
  ds_name :: string
  ds_headers :: "(string, string) gomap"
  ds_container :: string
  ds_direct_url :: string
  ds_direct_play :: bool
  ds_direct_stream :: bool

record download_playback =
  dl_error :: bool
  dl_sources :: "download_source list"

fun select_download_source :: "download_source list \<Rightarrow> string \<Rightarrow> download_source option" where
  "select_download_source [] requested = None"
| "select_download_source (s # ss) requested =
     (if requested \<noteq> [] \<and> ds_id s \<noteq> requested then select_download_source ss requested
      else if trim_space (ds_direct_url s) = [] \<or> \<not> ds_direct_play s \<and> \<not> ds_direct_stream s
      then (if requested \<noteq> [] then None else select_download_source ss requested)
      else Some s)"

section \<open>Headers a source asks for\<close>

definition protected_download_header :: "string \<Rightarrow> bool" where
  "protected_download_header name \<longleftrightarrow>
     is_hop_header name \<or>
     to_lower name \<in> {''accept-encoding'', ''authorization'', ''content-length'', ''host'', ''if-match'',
       ''if-modified-since'', ''if-none-match'', ''if-range'', ''if-unmodified-since'', ''range'',
       ''x-emby-authorization'', ''x-emby-token'', ''x-mediabrowser-token''}"

definition valid_download_header :: "string \<Rightarrow> string \<Rightarrow> bool" where
  "valid_download_header name v \<longleftrightarrow>
     name \<noteq> [] \<and> \<not> protected_download_header name \<and> \<not> contains_any v [CHR 0x0D, CHR 0x0A] \<and>
     list_all is_token_byte name"

section \<open>The name of the file\<close>

text \<open>\<open>unicode.IsControl\<close> of an encoded rune; an invalid byte becomes U+FFFD.\<close>

definition download_rune :: "string \<Rightarrow> string" where
  "download_rune r =
     (case r of
        [c] \<Rightarrow>
          (if c = CHR ''/'' \<or> c = CHR 0x5C \<or> byte_in 0x00 0x1F c \<or> c = CHR 0x7F then ''_''
           else if byte_in 0x80 0xFF c then [CHR 0xEF, CHR 0xBF, CHR 0xBD] else r)
      | [a, b] \<Rightarrow> if a = CHR 0xC2 \<and> byte_in 0x80 0x9F b then ''_'' else r
      | _ \<Rightarrow> r)"

definition trim_right_dots :: "string \<Rightarrow> string" where
  "trim_right_dots s = rev (dropWhile (\<lambda>c. c = CHR '' '' \<or> c = CHR ''.'') (rev s))"

text \<open>Runes are cut off the end while the name is too long; \<open>rs\<close> are its runes, the last one first.\<close>

fun shorten_name :: "string list \<Rightarrow> string list" where
  "shorten_name [] = []"
| "shorten_name (r # rs) = (if 220 < length (concat (r # rs)) then shorten_name rs else r # rs)"

definition sanitize_download_filename :: "string \<Rightarrow> string" where
  "sanitize_download_filename name =
     (let name = trim_right_dots (concat (map download_rune (runes (trim_space name))))
      in trim_right_dots (concat (rev (shorten_name (rev (runes name))))))"

definition valid_download_container :: "string \<Rightarrow> bool" where
  "valid_download_container c \<longleftrightarrow> c \<noteq> [] \<and> length c \<le> 16 \<and> list_all is_alnum c"

definition download_content_disposition :: "(string \<Rightarrow> string) \<Rightarrow> download_source \<Rightarrow> string \<Rightarrow> string" where
  "download_content_disposition format_name s item =
     (let name = sanitize_download_filename (ds_name s);
          name = (if name = [] then item else name);
          container = trim_space (ds_container s);
          name = (if valid_download_container container \<and> \<not> suffix (''.'' @ to_lower container) (to_lower name)
                  then name @ ''.'' @ container else name);
          v = format_name name
      in if v \<noteq> [] then v else ''attachment'')"

section \<open>The requests\<close>

text \<open>\<open>url.PathEscape\<close>.\<close>

definition path_escape :: "string \<Rightarrow> string" where
  "path_escape s =
     concat (map (\<lambda>c. if should_escape UrlPath c \<or> c \<in> set ''/;,?''
       then [CHR ''%'', hex_digit (of_char c div 16), hex_digit (of_char c mod 16)] else [c]) s)"

definition playback_info_request :: "string \<Rightarrow> string \<Rightarrow> string \<Rightarrow> jobject" where
  "playback_info_request item user media_source =
     [(''Id'', JString item), (''UserId'', JString user)] @
     (if media_source = [] then [] else [(''MediaSourceId'', JString media_source)]) @
     [(''EnableDirectPlay'', JBool True), (''EnableDirectStream'', JBool True), (''EnableTranscoding'', JBool False),
      (''IsPlayback'', JBool False)]"

text \<open>
  \<open>fetchDownloadPlaybackInfo\<close>: the request sent, if one can be built, and what the answer says.
  \<open>encode\<close> is \<open>json.Marshal\<close>, \<open>decode\<close> is \<open>json.Unmarshal\<close>.
\<close>

definition fetch_download_playback_info ::
  "(string \<Rightarrow> bool) \<Rightarrow> (jobject \<Rightarrow> string) \<Rightarrow> (string \<Rightarrow> download_playback option) \<Rightarrow>
     (sent_request \<Rightarrow> io_error + upstream_answer) \<Rightarrow> string \<Rightarrow> string \<Rightarrow> request_snapshot \<Rightarrow>
     sent_request list \<times> download_playback option" where
  "fetch_download_playback_info ip6 encode decode send item media_source upstream =
     (case backend_url ip6 (rs_base_url upstream) (''/Items/'' @ path_escape item @ ''/PlaybackInfo'') of
        None \<Rightarrow> ([], None)
      | Some u \<Rightarrow>
          (let req = \<lparr>sr_method = ''POST'', sr_url = u,
                 sr_header = rewrite_request_headers upstream (header_set ''Content-Type'' ''application/json'' []),
                 sr_body = Some (encode (playback_info_request item (rs_user_id upstream) media_source))\<rparr>
           in ([req],
               case send req of
                 Inl _ \<Rightarrow> None
               | Inr a \<Rightarrow>
                   (if ua_status a < 200 \<or> 300 \<le> ua_status a then None
                    else (case read_limited proxy_json_limit (ua_reads a) of Inl _ \<Rightarrow> None | Inr data \<Rightarrow> decode data)))))"

text \<open>\<open>downloadMediaURL\<close>.\<close>

definition download_media_url :: "rewrite_env \<Rightarrow> session \<Rightarrow> string \<Rightarrow> string \<Rightarrow> string \<Rightarrow> (url \<times> query_values) option" where
  "download_media_url e s raw item media_source =
     (case rw_parse e (rewrite_media_reference e raw False) of
        None \<Rightarrow> None
      | Some u \<Rightarrow>
          (if u_scheme u \<noteq> [] \<or> u_host u \<noteq> [] \<or> u_fragment u \<noteq> [] then None
           else if relative_media_path e u \<noteq> Some (escaped_path u) then None
           else (let parts = split_char (CHR ''/'') (trim_prefix (u_path u) ''/'');
                     signed = query_get (fst (parse_query (u_raw_query u))) ''MediaSourceId''
                 in if length parts < 3 \<or> parts ! 1 \<noteq> item then None
                    else if signed \<noteq> [] \<and> signed \<noteq> media_source then None
                    else (case proxy_url (rw_ip6 e) (rw_upstream e) s (u_path u) (u_raw_query u) (rw_token e) of
                            Inl _ \<Rightarrow> None | Inr uq \<Rightarrow> Some uq))))"

definition download_fallback_allowed :: "int \<Rightarrow> bool" where
  "download_fallback_allowed status \<longleftrightarrow> 200 \<le> status \<and> status < 300 \<or> status = 304 \<or> status = 416"

definition download_request_headers :: "header \<Rightarrow> download_source \<Rightarrow> request_snapshot \<Rightarrow> header" where
  "download_request_headers inbound s upstream =
     rewrite_request_headers upstream
       (fold (\<lambda>(name, v) h. if valid_download_header name v then header_set name v h else h) (ds_headers s)
         (copy_request_headers inbound))"

text \<open>\<open>tryDownloadDirectStreamFallback\<close>: the requests sent and the answer to serve instead.\<close>

definition try_download_fallback ::
  "(jobject \<Rightarrow> string) \<Rightarrow> (string \<Rightarrow> download_playback option) \<Rightarrow> (string \<Rightarrow> string) \<Rightarrow>
     (nat \<Rightarrow> sent_request \<Rightarrow> io_error + upstream_answer) \<Rightarrow> rewrite_env \<Rightarrow> http_request \<Rightarrow> string \<Rightarrow> session \<Rightarrow>
     sent_request list \<times> upstream_answer option" where
  "try_download_fallback encode decode format_name send e r rel s =
     (case download_item_id (hr_method r) rel of
        None \<Rightarrow> ([], None)
      | Some item \<Rightarrow>
          (let upstream = rw_upstream e;
               requested = trim_space (query_get (request_query r) ''MediaSourceId'')
           in case fetch_download_playback_info (rw_ip6 e) encode decode (send 0) item requested upstream of
                (sent, None) \<Rightarrow> (sent, None)
              | (sent, Some playback) \<Rightarrow>
                  (if dl_error playback then (sent, None)
                   else (case select_download_source (dl_sources playback) requested of
                           None \<Rightarrow> (sent, None)
                         | Some src \<Rightarrow>
                             (case download_media_url e s (ds_direct_url src) item (ds_id src) of
                                None \<Rightarrow> (sent, None)
                              | Some (u, _) \<Rightarrow>
                                  (let req = \<lparr>sr_method = hr_method r, sr_url = u,
                                         sr_header = download_request_headers (hr_header r) src upstream, sr_body = None\<rparr>;
                                       sent = sent @ [req]
                                   in case send 1 req of
                                        Inl _ \<Rightarrow> (sent, None)
                                      | Inr a \<Rightarrow>
                                          (if \<not> download_fallback_allowed (ua_status a) then (sent, None)
                                           else (sent, Some (if 200 \<le> ua_status a \<and> ua_status a < 300
                                             then a\<lparr>ua_header := header_set ''Content-Disposition''
                                               (download_content_disposition format_name src item) (ua_header a)\<rparr>
                                             else a)))))))))"

text \<open>The item is escaped twice: once here, once when the URL is printed.\<close>

lemma playback_info_item_escaped_twice:
  "map_option escaped_path (backend_url (\<lambda>_. False) ''http://h'' (''/Items/'' @ path_escape ''a b'' @ ''/PlaybackInfo'')) =
     Some ''/Items/a%2520b/PlaybackInfo''"
  by code_simp

end
