(* ===== verification/Proxy_Pipeline.thy ===== *)
theory Proxy_Pipeline
  imports Download_Fallback
begin

text \<open>
  The way of a request through the gateway (\<open>server.go\<close>): \<open>ServeHTTP\<close> and \<open>handleProxy\<close>, with neither
  subtitles nor audio conversion configured. What leaves the gateway for the upstream is a list of
  requests; \<open>px_send\<close> answers them, following redirects with \<open>check_redirect\<close>. The connection of a
  websocket belongs to \<open>httputil.ReverseProxy\<close>: the model ends with the request it is given.
\<close>

section \<open>Refused playback\<close>

text \<open>
  \<open>hasConcurrentPlaybackReason\<close>: \<open>members\<close> are the members, in order, when the data is one JSON
  object and nothing else.
\<close>

definition has_concurrent_playback_reason :: "(string \<times> json) list option \<Rightarrow> bool" where
  "has_concurrent_playback_reason members =
     (case members of
        None \<Rightarrow> False
      | Some ms \<Rightarrow>
          map snd (filter (\<lambda>(name, _). equal_fold name ''reason_code'') ms) =
            [JString ''max_concurrent_sessions_exceeded''])"

definition playback_denial_limit :: nat where "playback_denial_limit = 48 * 1024"

text \<open>\<open>isConcurrentPlaybackDenial\<close>: the body can be read again afterwards.\<close>

definition is_concurrent_playback_denial :: "(string \<Rightarrow> (string \<times> json) list option) \<Rightarrow> read_result list \<Rightarrow> bool" where
  "is_concurrent_playback_denial object_members reads =
     (case read_all reads of
        (data, err) \<Rightarrow>
          length data \<le> playback_denial_limit \<and> err = None \<and> has_concurrent_playback_reason (object_members data))"

definition concurrent_playback_response :: jobject where
  "concurrent_playback_response =
     [(''error'', JString ''playback_access_denied''),
      (''message'', JString ''Playback denied because the concurrent playback limit was exceeded.''),
      (''reason_code'', JString ''max_concurrent_sessions_exceeded'')]"

section \<open>The environment of a request\<close>

text \<open>
  \<open>px_first\<close> and \<open>px_second\<close> are the flights of a login the request may join, \<open>px_again\<close> those of a
  refresh; \<open>px_canceled\<close> is whether an error means that the client went away; \<open>px_meanwhile\<close> is what
  others do to the store while the upstream works.
\<close>

record 's pipeline_env = "'s proxy_env" +
  px_cfg :: gateway_config
  px_ip6 :: "string \<Rightarrow> bool"
  px_hash :: "string \<Rightarrow> string"
  px_members :: "string \<Rightarrow> (string \<times> json) list option"
  px_now_session :: time
  px_now_guard :: time
  px_now_done :: time
  px_personal :: personal_req
  px_auth_ctx :: "bool \<Rightarrow> bool \<times> (bool \<times> bool) \<times> bool"
  px_login :: "'s auth_flight \<times> 's auth_flight"
  px_refresh :: "'s auth_flight \<times> 's auth_flight"
  px_canceled :: "auth_error \<Rightarrow> bool"
  px_ctx :: "bool \<times> bool"
  px_probe :: "request_snapshot \<Rightarrow> bool option"
  px_send :: "nat \<Rightarrow> sent_request \<Rightarrow> io_error + upstream_answer"
  px_encode :: "jobject \<Rightarrow> string"
  px_decode :: "string \<Rightarrow> download_playback option"
  px_format_name :: "string \<Rightarrow> string"
  px_meanwhile :: "'s \<Rightarrow> 's"

datatype outcome =
    Answered "response option"
  | Upgraded url header

text \<open>Two flights suffice, so there is always a result (\<open>two_flights_suffice\<close>).\<close>

definition ensured ::
  "(auth_error + upstream_runtime) option \<times> 's \<Rightarrow> (auth_error + upstream_runtime) \<times> 's" where
  "ensured run = (case run of (Some res, st) \<Rightarrow> (res, st) | (None, st) \<Rightarrow> (Inl AuthCallerCanceled, st))"

definition personal_of :: "http_request \<Rightarrow> string \<Rightarrow> personal_req \<Rightarrow> personal_req" where
  "personal_of r rel p =
     p\<lparr>pr_method := hr_method r, pr_path := hr_path r, pr_rel := rel, pr_query := request_query r,
       pr_remote := remote_ip r\<rparr>"

text \<open>The answer of a personal handler; the texts of errors are left out.\<close>

definition personal_response :: "header \<Rightarrow> reply \<Rightarrow> response" where
  "personal_response h reply =
     (case reply of
        Pass \<Rightarrow> write_header h 200
      | Status n \<Rightarrow> write_header h n
      | StatusJSON n v \<Rightarrow> write_json h [] n v
      | StatusRaw n s \<Rightarrow> (write_header (header_set ''Content-Type'' ''application/json'' h) n)\<lparr>re_body := Bytes s True\<rparr>)"

definition rewrite_env_of :: "'s pipeline_env \<Rightarrow> http_request \<Rightarrow> session \<Rightarrow> request_snapshot \<Rightarrow> string \<Rightarrow> rewrite_env" where
  "rewrite_env_of env r s upstream token =
     \<lparr>rw_ip6 = px_ip6 env, rw_session = Some s, rw_upstream = upstream, rw_token = token,
      rw_base = gateway_base_for_request (px_cfg env) r, rw_server_id = gc_server_id (px_cfg env)\<rparr>"

section \<open>A refused token\<close>

text \<open>
  \<open>refreshAfterUnauthorized\<close> with its audit: the snapshot to go on with, whether it is a new one, the
  state. The refresh runs only when the expiry was confirmed.
\<close>

definition refresh_snapshot ::
  "'s pipeline_env \<Rightarrow> http_request \<Rightarrow> string \<Rightarrow> session \<Rightarrow> request_snapshot \<Rightarrow> string \<Rightarrow> 's gateway \<Rightarrow>
     request_snapshot \<times> bool \<times> 's gateway" where
  "refresh_snapshot env r rel s upstream occasion g =
     (let ops = pe_ops env;
          runtime = so_runtime ops (px_ctx env) (gw_store g);
          (res, st) = ensured (auth_refresh (so_auth ops) (px_auth_ctx env) (rs_token upstream)
            [fst (px_refresh env), snd (px_refresh env)] (gw_store g));
          (upstream, confirmed, failed) = refresh_after_unauthorized (px_probe env) runtime (\<lambda>_. res) upstream;
          g = (if confirmed then g\<lparr>gw_store := st\<rparr> else g)
      in if confirmed \<and> \<not> failed
         then (upstream, True,
           session_audit env s ''backend_token_refresh'' (''backend token refreshed '' @ occasion) r rel 200 g)
         else (upstream, False,
           if confirmed \<and> failed \<and> \<not> pe_ctx_done env
           then session_audit env s ''backend_token_refresh_failure''
             (''backend token refresh failed '' @ occasion) r rel 401 g
           else g))"

section \<open>Sending and answering\<close>

definition outgoing_request ::
  "http_request \<Rightarrow> request_snapshot \<Rightarrow> url \<Rightarrow> string option \<Rightarrow> sent_request" where
  "outgoing_request r upstream u body =
     \<lparr>sr_method = hr_method r, sr_url = u,
      sr_header = rewrite_request_headers upstream (copy_request_headers (hr_header r)), sr_body = body\<rparr>"

definition backend_unavailable :: "'s pipeline_env \<Rightarrow> failure_details" where
  "backend_unavailable env =
     \<lparr>fd_event = ''proxy_backend_unavailable'', fd_audit = ''backend unavailable'', fd_body = ''backend unavailable'',
      fd_kind = ''upstream_request_error'', fd_duration_ms = pe_duration_ms env, fd_status = 0\<rparr>"

definition bad_backend_url ::
  "'s pipeline_env \<Rightarrow> header \<Rightarrow> http_request \<Rightarrow> string \<Rightarrow> session \<Rightarrow> 's gateway \<Rightarrow> response option \<times> 's gateway" where
  "bad_backend_url env h r rel s g =
     (Some (http_error h ''bad backend url'' 502),
      session_audit env s ''proxy_backend_unavailable'' ''backend url unavailable'' r rel 502 g)"

definition write_concurrent_playback_denied ::
  "'s pipeline_env \<Rightarrow> header \<Rightarrow> http_request \<Rightarrow> string \<Rightarrow> session \<Rightarrow> guard_key \<Rightarrow> 's gateway \<Rightarrow>
     response option \<times> 's gateway" where
  "write_concurrent_playback_denied env h r rel s key g =
     (case deny key (px_now_guard env) (gw_guards g) of
        (guards, eligible) \<Rightarrow>
          (let g = g\<lparr>gw_guards := guards\<rparr>
           in (Some ((write_header (header_set ''Cache-Control'' ''no-store''
                 (header_set ''Content-Type'' ''application/json'' h)) 403)\<lparr>re_body := JSONBody (JObject concurrent_playback_response)\<rparr>),
               if eligible
               then session_audit env s ''playback_concurrency_denied''
                 ''playback denied because the concurrent playback limit was exceeded'' r rel 403 g
               else g)))"

text \<open>The parameters of a proxied request once its session and its upstream are known.\<close>

record proxied =
  px_request :: http_request
  px_rel :: string
  px_kind :: resource_route_kind
  px_session :: session
  px_token :: string
  px_by_cookie :: bool
  px_playback :: "string option"
  px_generation :: "64 word"

definition guard_key_of :: "proxied \<Rightarrow> guard_key" where
  "guard_key_of p =
     \<lparr>gk_token_hash = gs_token_hash (px_session p), gk_item_id = (case px_playback p of Some i \<Rightarrow> i | None \<Rightarrow> [])\<rparr>"

text \<open>The end of \<open>handleProxy\<close>: the fallback of a download, the guard, the answer.\<close>

definition finish_proxy ::
  "'s pipeline_env \<Rightarrow> header \<Rightarrow> proxied \<Rightarrow> request_snapshot \<Rightarrow> upstream_answer \<Rightarrow> 's gateway \<Rightarrow>
     sent_request list \<times> response option \<times> 's gateway" where
  "finish_proxy env h p upstream a g =
     (let r = px_request p; rel = px_rel p; s = px_session p;
          (sent, fallback) = (if ua_status a = 403
            then try_download_fallback (px_encode env) (px_decode env) (px_format_name env) (\<lambda>n. px_send env (n + 2))
              (rewrite_env_of env r s upstream (px_token p)) r rel s
            else ([], None));
          a = (case fallback of Some f \<Rightarrow> f | None \<Rightarrow> a);
          g = (if px_playback p \<noteq> None \<and> 200 \<le> ua_status a \<and> ua_status a < 300
               then g\<lparr>gw_guards := clear_if_generation (guard_key_of p) (px_generation p) (px_now_done env) (gw_guards g)\<rparr>
               else g);
          (resp, g) = write_proxy_response (proxy_env.truncate env)
            (rewrite_env_of env r s upstream (if px_by_cookie p then [] else px_token p)) h r rel (px_kind p) a s g
      in (sent, resp, g))"

text \<open>
  One attempt: the answer is a failure, a refusal of the playback, or goes on to \<open>next\<close>. \<open>n\<close> counts
  the attempts.
\<close>

definition attempt ::
  "'s pipeline_env \<Rightarrow> nat \<Rightarrow> header \<Rightarrow> proxied \<Rightarrow> sent_request \<Rightarrow>
     (upstream_answer \<Rightarrow> 's gateway \<Rightarrow> sent_request list \<times> response option \<times> 's gateway) \<Rightarrow> 's gateway \<Rightarrow>
     sent_request list \<times> response option \<times> 's gateway" where
  "attempt env n h p req proceed g =
     (let g = with_store (px_meanwhile env) g; r = px_request p; rel = px_rel p; s = px_session p
      in case px_send env n req of
           Inl err \<Rightarrow>
             (case pre_header_failure (proxy_env.truncate env) h r rel (px_kind p) s err (backend_unavailable env) g of
                (resp, g) \<Rightarrow> ([req], resp, g))
         | Inr a \<Rightarrow>
             (if px_playback p \<noteq> None \<and> ua_status a = 401 \<and> is_concurrent_playback_denial (px_members env) (ua_reads a)
              then (case write_concurrent_playback_denied env h r rel s (guard_key_of p) g of
                      (resp, g) \<Rightarrow> ([req], resp, g))
              else (case proceed a g of (sent, resp, g) \<Rightarrow> (req # sent, resp, g))))"

text \<open>From the unauthorized answer of the first attempt on, for a body that can be sent again.\<close>

definition retry_proxy ::
  "'s pipeline_env \<Rightarrow> header \<Rightarrow> proxied \<Rightarrow> string option \<Rightarrow> request_snapshot \<Rightarrow> upstream_answer \<Rightarrow> 's gateway \<Rightarrow>
     sent_request list \<times> response option \<times> 's gateway" where
  "retry_proxy env h p raw_body upstream a g =
     (let r = px_request p; rel = px_rel p; s = px_session p
      in case refresh_snapshot env r rel s upstream ''after unauthorized response'' g of
           (upstream', False, g) \<Rightarrow> finish_proxy env h p upstream a g
         | (upstream', True, g) \<Rightarrow>
             (case proxy_url (px_ip6 env) upstream' s rel (hr_raw_query r) (px_token p) of
                Inl _ \<Rightarrow> (case bad_backend_url env h r rel s g of (resp, g) \<Rightarrow> ([], resp, g))
              | Inr (u, _) \<Rightarrow>
                  attempt env 1 h p
                    (outgoing_request r upstream' u
                      (map_option (rewrite_request_body_data s upstream' (px_token p)) raw_body))
                    (finish_proxy env h p upstream') g))"

definition forward_request ::
  "'s pipeline_env \<Rightarrow> header \<Rightarrow> proxied \<Rightarrow> request_snapshot \<Rightarrow> url \<Rightarrow> 's gateway \<Rightarrow>
     sent_request list \<times> response option \<times> 's gateway" where
  "forward_request env h p upstream u g =
     (let r = px_request p
      in case rewrite_request_body (pe_media_type env) r (px_session p) upstream (px_token p) of
           Inl _ \<Rightarrow> ([], Some (http_error h ''bad request body'' 400), g)
         | Inr (body, raw_body, replayable) \<Rightarrow>
             attempt env 0 h p (outgoing_request r upstream u body)
               (\<lambda>a g. if ua_status a = 401 \<and> replayable then retry_proxy env h p raw_body upstream a g
                      else finish_proxy env h p upstream a g) g)"

section \<open>\<open>handleProxy\<close>\<close>

text \<open>From the choice of the upstream on.\<close>

definition route_proxy_request ::
  "'s pipeline_env \<Rightarrow> header \<Rightarrow> proxied \<Rightarrow> 's gateway \<Rightarrow> sent_request list \<times> outcome \<times> 's gateway" where
  "route_proxy_request env h p g =
     (let ops = pe_ops env; r = px_request p; rel = px_rel p; s = px_session p;
          auth_failed = http_error h ''backend authentication failed'' 502;
          (res, st) = ensured (auth_ensure (so_auth ops) (px_auth_ctx env)
            [fst (px_login env), snd (px_login env)] (gw_store g));
          g = g\<lparr>gw_store := st\<rparr>
      in case res of
           Inl err \<Rightarrow>
             (if px_canceled env err then ([], Answered None, g)
              else ([], Answered (Some auth_failed),
                session_audit env s ''backend_auth_failure'' ''backend authentication failed'' r rel 502 g))
         | Inr runtime \<Rightarrow>
             (case select_upstream_snapshot (so_rules ops (fst (px_ctx env)) st) runtime (is_upgrade_request r)
                (hr_method r) rel of
                Inl _ \<Rightarrow> ([], Answered (Some auth_failed), g)
              | Inr upstream \<Rightarrow>
                  (let (upstream, g) = (if is_upgrade_request r
                         then (case refresh_snapshot env r rel s upstream ''before upgrade'' g of (u, _, g) \<Rightarrow> (u, g))
                         else (upstream, g))
                   in case proxy_url (px_ip6 env) upstream s rel (hr_raw_query r) (px_token p) of
                        Inl BadQuery \<Rightarrow> ([], Answered (Some (write_credential_query_error h MalformedQuery)), g)
                      | Inl BadBackendUrl \<Rightarrow>
                          (case bad_backend_url env h r rel s g of (resp, g) \<Rightarrow> ([], Answered resp, g))
                      | Inr (u, _) \<Rightarrow>
                          (if is_upgrade_request r
                           then ([], Upgraded u (rewrite_request_headers upstream (hr_header r)), g)
                           else (case forward_request env h p upstream u g of
                                   (sent, resp, g) \<Rightarrow> (sent, Answered resp, g))))))"

definition handle_proxy ::
  "'s pipeline_env \<Rightarrow> header \<Rightarrow> http_request \<Rightarrow> string \<Rightarrow> 's gateway \<Rightarrow> sent_request list \<times> outcome \<times> 's gateway" where
  "handle_proxy env h r rel g =
     (let ops = pe_ops env; kind = resource_route r rel;
          h = apply_resource_cache_policy kind 401 h;
          explicit = extract_token r;
          (token, by_cookie) = (if explicit \<noteq> [] then (explicit, False)
            else (case resource_cookie_token r rel of Some (t, _) \<Rightarrow> (t, True) | None \<Rightarrow> ([], False)))
      in case active_session ops (px_hash env) (px_now_session env) token g of
           None \<Rightarrow> ([], Answered (Some (unauthorized h)), g)
         | Some s \<Rightarrow>
             (case guard_proxy_query_credentials (token_exists ops (px_hash env) g) (hr_raw_query r) token of
                Some err \<Rightarrow> ([], Answered (Some (write_credential_query_error h err)), g)
              | None \<Rightarrow>
                  (let playback = playback_info_item_id (hr_method r) rel;
                       key = \<lparr>gk_token_hash = gs_token_hash s, gk_item_id = (case playback of Some i \<Rightarrow> i | None \<Rightarrow> [])\<rparr>;
                       (guards, generation) = (if playback = None then (gw_guards g, 0)
                         else guard_snapshot key (px_now_guard env) (gw_guards g));
                       (reply, guards, st) = so_personal ops s (personal_of r rel (px_personal env)) guards (gw_store g);
                       g = g\<lparr>gw_guards := guards, gw_store := st\<rparr>
                   in case reply of
                        None \<Rightarrow> ([], Answered None, g)
                      | Some Pass \<Rightarrow>
                          route_proxy_request env h
                            \<lparr>px_request = r, px_rel = rel, px_kind = kind, px_session = s, px_token = token,
                             px_by_cookie = by_cookie, px_playback = playback, px_generation = generation\<rparr> g
                      | Some reply \<Rightarrow> ([], Answered (Some (personal_response h reply)), g))))"

section \<open>\<open>ServeHTTP\<close>\<close>

text \<open>
  What the handlers other than \<open>handleProxy\<close> meet: probes of the upstream, anonymous images, the
  version of the gateway.
\<close>

record 's server_env =
  sn_proxy :: "'s pipeline_env"
  sn_login :: login_env
  sn_serve :: serve_env
  sn_version :: string
  sn_probe :: "nat \<Rightarrow> url \<Rightarrow> header \<Rightarrow> probe_answer"
  sn_meanwhile :: "'s \<Rightarrow> 's"
  sn_now :: time
  sn_now_validated :: time
  sn_image_send :: "sent_request \<Rightarrow> upstream_answer option"
  sn_image_slot :: bool

text \<open>The audit of a media copy without a session.\<close>

definition audit_image_copy ::
  "'s server_env \<Rightarrow> http_request \<Rightarrow> copy_result option \<Rightarrow> 's gateway \<Rightarrow> 's gateway" where
  "audit_image_copy env r res g =
     (let px = sn_proxy env
      in case res of
           None \<Rightarrow> g
         | Some c \<Rightarrow>
             (if mc_err c = None \<or> pe_ctx_done px then g
              else (case media_copy_audit c of
                      None \<Rightarrow> g
                    | Some (event, message, kind) \<Rightarrow>
                        audit (pe_ops px) (pe_now px)
                          ((audit_entry ([], []) event message (remote_ip r) (hr_method r) (hr_path r) 206)
                            \<lparr>al_error_kind := kind,
                             al_direction := (if mc_direction c = Downstream then ''downstream'' else ''upstream''),
                             al_bytes := mc_bytes_written c, al_duration_ms := pe_duration_ms px,
                             al_upstream_status := 206, al_committed := True\<rparr>) g)))"

definition serve_anonymous_image ::
  "'s server_env \<Rightarrow> header \<Rightarrow> http_request \<Rightarrow> string \<Rightarrow> 's gateway \<Rightarrow> sent_request list \<times> outcome \<times> 's gateway" where
  "serve_anonymous_image env h r rel g =
     (let px = sn_proxy env;
          from_upstream = validated_image_origin (so_runtime (pe_ops px) (px_ctx px) (gw_store g)) (sn_now env) (gw_images g)
      in case handle_anonymous_item_image (px_ip6 px) (pe_media_type px) (pe_decimal px) (sn_image_send env)
             (sn_image_slot env) (pe_writes px) from_upstream h r rel of
           (sent, resp, res) \<Rightarrow> (sent, Answered (Some resp), audit_image_copy env r res g))"

definition serve_public_info ::
  "'s server_env \<Rightarrow> header \<Rightarrow> http_request \<Rightarrow> 's gateway \<Rightarrow> response \<times> 's gateway" where
  "serve_public_info env h r g =
     (let px = sn_proxy env
      in case public_system_info_version (pe_ops px) (px_ip6 px) (sn_probe env) (sn_meanwhile env) (px_ctx px)
             (sn_now env) (sn_now_validated env) g of
           (version, g) \<Rightarrow>
             (write_json h [] 200
                (JObject (public_system_info (px_cfg px) (gateway_base_for_request (px_cfg px) r) version)), g))"

text \<open>The choice of the handler.\<close>

definition dispatch ::
  "'s server_env \<Rightarrow> header \<Rightarrow> http_request \<Rightarrow> string \<Rightarrow> 's gateway \<Rightarrow> sent_request list \<times> outcome \<times> 's gateway" where
  "dispatch env h r rel g =
     (let px = sn_proxy env; ops = pe_ops px; cfg = px_cfg px; me = hr_method r;
          local = (\<lambda>(resp, g). ([], Answered (Some resp), g))
      in if me = ''POST'' \<and> equal_path rel ''/Users/AuthenticateByName''
         then local (handle_authenticate ops cfg (sn_login env) h r g)
         else if me = ''GET'' \<and> equal_path rel ''/System/Info/Public'' then local (serve_public_info env h r g)
         else if (me = ''GET'' \<or> me = ''POST'') \<and> equal_path rel ''/System/Ping'' then local (handle_ping h, g)
         else if me = ''POST'' \<and> equal_path rel ''/Sessions/Logout''
         then local (handle_logout ops cfg (sn_serve env) h r rel g)
         else if me = ''GET'' \<and> equal_path rel ''/Users/Public'' then local (handle_public_users ops cfg h g, g)
         else if me = ''GET'' \<and> is_single_user_path rel
         then local (handle_current_user ops cfg (sn_serve env) h r rel g, g)
         else if me = ''GET'' \<and> equal_path rel ''/Branding/Configuration''
         then local (handle_branding_configuration h, g)
         else if me = ''GET'' \<and> equal_path rel ''/Branding/Css.css'' then local (handle_branding_css h, g)
         else handle_proxy px h r rel g)"

definition serve_http ::
  "'s server_env \<Rightarrow> http_request \<Rightarrow> 's gateway \<Rightarrow> sent_request list \<times> outcome \<times> 's gateway" where
  "serve_http env r g =
     (let px = sn_proxy env; h = header_set ''X-Emby-Auth-Gateway-Version'' (sn_version env) [];
          stop = (\<lambda>resp. ([], Answered (Some resp), g))
      in if \<not> valid_request_path r
         then stop (http_error (header_set ''Cache-Control'' ''no-store'' h) ''invalid path'' 400)
         else (case relative_path (gc_base_path (px_cfg px)) (hr_path r) of
                 None \<Rightarrow> stop (http_error h ''404 page not found'' 404)
               | Some rel \<Rightarrow>
                   (let credentials = accepts_client_credentials (hr_method r) rel;
                        image = is_anonymous_item_image_route r rel;
                        h = (if credentials \<and> image then header_set ''Cache-Control'' ''no-store'' h else h)
                    in case (if credentials then validate_raw_query (hr_raw_query r) else None) of
                         Some err \<Rightarrow> stop (write_credential_query_error h err)
                       | None \<Rightarrow>
                           (case path_policy_allows (pe_ops px) (px_hash px) (pe_now px) h r rel g of
                              (Some resp, g) \<Rightarrow> ([], Answered (Some resp), g)
                            | (None, g) \<Rightarrow>
                                (if image \<and> \<not> has_auth_control_occurrence r \<and> \<not> has_reserved_resource_cookie r
                                 then serve_anonymous_image env h r rel g
                                 else dispatch env h r rel g)))))"

end
