(* ===== verification/Account_Frame.thy ===== *)
theory Account_Frame
  imports Proxy_Pipeline
begin

text \<open>
  The frame of the handlers of personal data: they use the store only through the operations on
  playback states, events, logs and child counts, so a part of the store these operations leave
  alone (accounts, sessions, path policies, the upstream) is left alone by every personal request.
\<close>

locale framed_store =
  fixes ops :: "'s playback_ops" and part :: "'s \<Rightarrow> 'a"
  assumes save_part: "part (snd (po_save ops now s st)) = part st"
    and resolve_part: "part (snd (po_resolve ops now s st)) = part st"
    and event_part: "part (snd (po_event ops now e st)) = part st"
    and audit_part: "part (po_audit ops now a st) = part st"
    and counts_part: "part (po_counts ops now cs st) = part st"
begin

lemmas parts = save_part resolve_part event_part audit_part counts_part

lemma save_part': "po_save ops now s st = (e, st') \<Longrightarrow> part st' = part st"
  using save_part [of now s st] by simp

lemma resolve_part': "po_resolve ops now s st = (e, st') \<Longrightarrow> part st' = part st"
  using resolve_part [of now s st] by simp

lemma event_part': "po_event ops now s st = (e, st') \<Longrightarrow> part st' = part st"
  using event_part [of now s st] by simp

lemma write_state_part: "part (snd (write_state ops sess now seen answer item upd st)) = part st"
  by (auto simp: write_state_def Let_def parts split: sum.split prod.split option.split dest: save_part')

lemma report_part: "part (snd (snd (record_playback_request ops pf cfg sess r clock now answer guards st))) = part st"
proof (cases "rpt_body r")
  case None
  then show ?thesis by (simp add: record_playback_request_def)
next
  case (Some body)
  obtain d named where d: "details_from_request pf (rpt_query r) body = (d, named)" by fastforce
  obtain guards' active eligible where g:
    "suppress \<lparr>gk_token_hash = gs_token_hash sess, gk_item_id = pd_item d\<rparr> clock guards = (guards', active, eligible)"
    by (metis prod_cases3)
  show ?thesis
    using Some d g
    by (auto simp: record_playback_request_def Let_def parts split: prod.split sum.split
        dest!: save_part' event_part')
qed

lemma personal_write_part:
  "part (snd (handle_personal_state_write ops pf sess me rel q body now seen answer st)) = part st"
  unfolding handle_personal_state_write_def Let_def
  by (auto simp: write_state_part split: list.split option.split)

lemma learn_part: "part (learn_child_counts ops now items st) = part st"
  by (simp add: learn_child_counts_def Let_def parts)

lemma resolve_batch_part: "part (snd (resolve_batch ops sess q rewrite now by_id ids st)) = part st"
proof (induction ids arbitrary: st)
  case (Cons i ids)
  have later: "part st2 = part st1" if "resolve_batch ops sess q rewrite now by_id ids st1 = (r, st2)" for st1 r st2
    using Cons.IH [of st1] that by simp
  show ?case
    using Cons.IH by (auto split: sum.split option.split prod.split dest!: resolve_part' later)
qed simp

lemma resolve_personal_batch_part: "part (snd (resolve_personal_batch ops sess pq rewrite now by_id ids st)) = part st"
proof (induction ids arbitrary: st)
  case (Cons i ids)
  have later: "part st2 = part st1" if "resolve_personal_batch ops sess pq rewrite now by_id ids st1 = (r, st2)" for st1 r st2
    using Cons.IH [of st1] that by simp
  show ?case
    using Cons.IH by (auto split: sum.split option.split prod.split dest!: resolve_part' later)
qed simp

lemma resolve_items_part: "part (snd (resolve_items_by_id ops sess q rewrite now backend ids st)) = part st"
proof (induction "length ids" arbitrary: ids st rule: less_induct)
  case less
  show ?case
  proof (cases "ids = []")
    case False
    let ?later = "drop personal_id_batch_limit ids"
    have shorter: "length ?later < length ids" using False by (simp add: personal_id_batch_limit_def)
    have later: "part st2 = part st1"
      if "resolve_items_by_id ops sess q rewrite now backend ?later st1 = (r, st2)" for st1 r st2
      using less [OF shorter, of st1] that by simp
    have batch: "part st2 = part st1"
      if "resolve_batch ops sess q rewrite now by_id batch_ids st1 = (r, st2)" for by_id batch_ids st1 r st2
      using resolve_batch_part [of sess q rewrite now by_id batch_ids st1] that by simp
    show ?thesis
      using False less [OF shorter, of st]
      by (subst resolve_items_by_id.simps)
        (auto simp: Let_def split: option.split sum.split prod.split dest!: batch later)
  qed (simp add: resolve_items_by_id.simps)
qed

lemma resolve_personal_items_part: "part (snd (resolve_personal_items ops sess pq rewrite now backend ids st)) = part st"
proof (induction "length ids" arbitrary: ids st rule: less_induct)
  case less
  show ?case
  proof (cases "ids = []")
    case False
    let ?later = "drop personal_id_batch_limit ids"
    have shorter: "length ?later < length ids" using False by (simp add: personal_id_batch_limit_def)
    have later: "part st2 = part st1"
      if "resolve_personal_items ops sess pq rewrite now backend ?later st1 = (r, st2)" for st1 r st2
      using less [OF shorter, of st1] that by simp
    have batch: "part st2 = part st"
      if "resolve_personal_batch ops sess pq rewrite now by_id batch_ids (learn_child_counts ops now items st) = (r, st2)"
      for by_id batch_ids items r st2
      using resolve_personal_batch_part [of sess pq rewrite now by_id batch_ids "learn_child_counts ops now items st"] that
      by (simp add: learn_part)
    show ?thesis
      using False
      by (subst resolve_personal_items.simps)
        (auto simp: Let_def split: option.split sum.split prod.split dest!: batch later)
  qed (simp add: resolve_personal_items.simps)
qed

lemma persist_all_part: "part (persist_all ops now ss st) = part st"
  by (induction ss arbitrary: st) (simp_all add: parts)

lemma repair_part: "repair_incomplete_states ops now backend states st = (states', st') \<Longrightarrow> part st' = part st"
  by (auto simp: repair_incomplete_states_def Let_def persist_all_part split: if_splits option.splits prod.splits)

lemma next_up_series_part:
  "next_up_series ops rewrite now explicit series fetched states st = (item, states', st') \<Longrightarrow> part st' = part st"
  by (auto simp: next_up_series_def Let_def persist_all_part parts split: if_splits option.splits prod.splits)

lemma next_up_loop_part: "part (snd (next_up_loop ops rewrite now explicit page series states st)) = part st"
proof (induction series arbitrary: states st)
  case (Cons one series)
  have later: "part st2 = part st1" if "next_up_loop ops rewrite now explicit page series ss st1 = (r, st2)" for ss st1 r st2
    using Cons.IH [of ss st1] that by simp
  show ?case by (auto split: prod.split option.split dest!: next_up_series_part later)
qed simp

lemma next_up_part: "part (snd (write_next_up_items ops sess q rewrite now backend page st)) = part st"
proof -
  have loop: "part st2 = part st1"
    if "next_up_loop ops rewrite now explicit page series states st1 = (r, st2)" for explicit series states st1 r st2
    using next_up_loop_part [of rewrite now explicit page series states st1] that by simp
  show ?thesis
    by (auto simp: write_next_up_items_def Let_def simp del: next_up_loop.simps split: sum.split prod.split if_splits dest!: loop repair_part)
qed

lemma resume_part: "part (snd (write_resume_items ops sess user_matches q rewrite now backend st)) = part st"
proof -
  have items: "part st2 = part st1"
    if "resolve_items_by_id ops sess q rewrite now backend ids st1 = (r, st2)" for ids st1 r st2
    using resolve_items_part [of sess q rewrite now backend ids st1] that by simp
  show ?thesis by (auto simp: write_resume_items_def Let_def split: sum.split prod.split dest!: items)
qed

lemma positive_part: "part (snd (write_positive ops sess env pq st)) = part st"
proof -
  have items: "part st2 = part st1"
    if "resolve_personal_items ops sess pq rewrite now backend ids st1 = (r, st2)" for rewrite now backend ids st1 r st2
    using resolve_personal_items_part [of sess pq rewrite now backend ids st1] that by simp
  show ?thesis
    by (auto simp: write_positive_def Let_def split: sum.split prod.split resolve_error.split option.split dest!: items)
qed

lemma scan_page_part: "part (snd (scan_page ops env exclude pq limit answer sl st)) = part st"
  by (cases answer) (simp add: scan_page_def Let_def learn_part)

lemma scan_pages_part: "part (snd (scan_pages ops env exclude pq limit batch_limit sl st)) = part st"
proof (induction "nat (int personal_scan_item_limit - sn_scanned (sl_scan sl))" arbitrary: sl st rule: less_induct)
  case less
  show ?case
  proof (cases "sn_scanned (sl_scan sl) < int personal_scan_item_limit \<and> int (length (sn_items (sl_scan sl))) < limit")
    case False
    then show ?thesis by (subst scan_pages.simps) auto
  next
    case go: True
    show ?thesis
    proof (cases "lq_page env (sl_start sl) batch_limit")
      case None
      with go show ?thesis by (subst scan_pages.simps) simp
    next
      case (Some answer)
      obtain sl1 st1 where p: "scan_page ops env exclude pq limit answer sl st = (sl1, st1)" by fastforce
      then have one: "part st1 = part st" using scan_page_part [of env exclude pq limit answer sl st] by simp
      show ?thesis
      proof (cases "extract_items (fst answer) = [] \<or> int (length (extract_items (fst answer))) < batch_limit")
        case True
        with go Some p one show ?thesis by (subst scan_pages.simps) (auto simp: Let_def)
      next
        case False
        then have "sn_scanned (sl_scan sl1) > sn_scanned (sl_scan sl)"
          using p by (auto simp: scan_page_def Let_def scan_batch_progress split: prod.splits)
        with go less [of sl1 st1] have "part (snd (scan_pages ops env exclude pq limit batch_limit sl1 st1)) = part st1"
          by simp
        with go Some p one False show ?thesis by (subst scan_pages.simps) (auto simp: Let_def)
      qed
    qed
  qed
qed

lemma negative_part: "part (snd (write_negative ops sess env pq st)) = part st"
proof -
  have pages: "part st2 = part st1"
    if "scan_pages ops env exclude pq limit batch sl st1 = (r, st2)" for exclude limit batch sl st1 r st2
    using scan_pages_part [of env exclude pq limit batch sl st1] that by simp
  show ?thesis by (auto simp: write_negative_def split: sum.split prod.split option.split dest!: pages)
qed

lemma latest_loop_part: "part (snd (latest_loop ops env played limit n res st)) = part st"
proof (induction "nat (latest_backfill_limit + 1 - n)" arbitrary: n res st rule: less_induct)
  case less
  show ?case
  proof (cases "n \<le> latest_backfill_limit \<and> 0 < n")
    case False
    then show ?thesis by (subst latest_loop.simps) auto
  next
    case True
    then have "nat (latest_backfill_limit + 1 - n * 3) < nat (latest_backfill_limit + 1 - n)" by auto
    from less [OF this] True show ?thesis
      by (subst latest_loop.simps) (auto simp: Let_def learn_part split: option.split)
  qed
qed

lemma latest_part: "part (snd (write_latest ops sess env rel q st)) = part st"
proof -
  have loop: "part st2 = part st1" if "latest_loop ops env played limit n res st1 = (r, st2)" for played limit n res st1 r st2
    using latest_loop_part [of env played limit n res st1] that by simp
  show ?thesis by (auto simp: write_latest_def Let_def split: prod.split option.split dest!: loop)
qed

end

section \<open>The in-memory store\<close>

text \<open>Users, sessions, path policies and the upstream: all that is not playback data or a log.\<close>

definition accounts :: "memory_store \<Rightarrow> (string, memory_user) gomap \<times> (string, session) gomap \<times> policy list \<times>
  (string, upstream_source) gomap \<times> (string, endpoint) gomap \<times> route_rule list" where
  "accounts m = (ms_users m, ms_sessions m, ms_policies m, ms_sources m, ms_endpoints m, ms_rules m)"

interpretation account_frame: framed_store memory_ops accounts
  by unfold_locales
    (auto simp: memory_ops_def accounts_def save_playback_state_def save_playback_resolution_def
      record_playback_event_def record_audit_def save_child_counts_def Let_def split: option.split)

lemma preferences_accounts:
  "accounts (snd (handle_display_preferences sess me rel q raw now m)) = accounts m"
  by (auto simp: handle_display_preferences_def Let_def save_display_preference_def accounts_def
      split: list.split option.split sum.split)

lemma personal_get_accounts: "accounts (snd (handle_personal_get base sess r m)) = accounts m"
proof -
  have filtered: "accounts (snd (write_personal_filtered sess r m)) = accounts m"
    using account_frame.positive_part account_frame.negative_part
    by (auto simp: write_personal_filtered_def Let_def case_prod_beta split: option.split)
  show ?thesis
    unfolding handle_personal_get_def Let_def
    using filtered account_frame.resume_part account_frame.next_up_part account_frame.latest_part
    by (auto simp: case_prod_beta)
qed

lemma local_state_accounts: "accounts (snd (snd (handle_local_session_state cfg sess r guards m))) = accounts m"
  using account_frame.report_part by (auto simp: handle_local_session_state_def case_prod_beta)

lemma personal_request_accounts:
  "accounts (snd (snd (handle_personal_data_request cfg base sess r guards m))) = accounts m"
proof -
  obtain r1 g1 m1 where h1: "handle_local_session_state cfg sess r guards m = (r1, g1, m1)" by (metis prod_cases3)
  obtain r2 m2 where h2: "handle_display_preferences sess (pr_method r) (pr_rel r) (pr_query r) (pr_raw r) (pr_now r) m1 = (r2, m2)"
    by fastforce
  obtain r3 m3 where h3: "handle_personal_state_write memory_ops (lq_parse_float (pr_list r)) sess (pr_method r)
      (pr_rel r) (pr_query r) (pr_object r) (pr_now r) (pr_seen r) (pr_item r) m2 = (r3, m3)" by fastforce
  obtain r4 m4 where h4: "handle_personal_get base sess r m3 = (r4, m4)" by fastforce
  have "accounts m1 = accounts m" using local_state_accounts [of cfg sess r guards m] h1 by simp
  moreover have "accounts m2 = accounts m1"
    using preferences_accounts [of sess "pr_method r" "pr_rel r" "pr_query r" "pr_raw r" "pr_now r" m1] h2 by simp
  moreover have "accounts m3 = accounts m2"
    using account_frame.personal_write_part [of "lq_parse_float (pr_list r)" sess "pr_method r" "pr_rel r" "pr_query r"
        "pr_object r" "pr_now r" "pr_seen r" "pr_item r" m2] h3 by simp
  moreover have "accounts m4 = accounts m3" using personal_get_accounts [of base sess r m3] h4 by simp
  ultimately show ?thesis
    using h1 h2 h3 h4 by (simp add: handle_personal_data_request_def)
qed

end
