(* ===== verification/Gate_Invariant.thy ===== *)
theory Gate_Invariant
  imports Account_Frame
begin

text \<open>
  What every request keeps of the store: a property of the store that its operations keep, and that
  others keep while the upstream works, holds after a whole request, however it ends.
\<close>

section \<open>What others do during a request\<close>

text \<open>
  Others (other requests, the leaders of login flights) keep \<open>holds\<close>, and a login of this request, if
  it succeeds, is issued a token whose hash is \<open>fresh\<close>.
\<close>

definition others_keep :: "('s \<Rightarrow> bool) \<Rightarrow> (string \<Rightarrow> bool) \<Rightarrow> 's server_env \<Rightarrow> bool" where
  "others_keep holds fresh env \<longleftrightarrow>
     (\<forall>st. holds st \<longrightarrow> holds (sn_meanwhile env st) \<and> holds (px_meanwhile (sn_proxy env) st) \<and>
        holds (snd (fst (px_login (sn_proxy env)) st)) \<and> holds (snd (snd (px_login (sn_proxy env)) st)) \<and>
        holds (snd (fst (px_refresh (sn_proxy env)) st)) \<and> holds (snd (snd (px_refresh (sn_proxy env)) st))) \<and>
     (case new_opaque_token (lv_hash (sn_login env)) (lv_random (sn_login env)) of
        Some (_, k) \<Rightarrow> fresh k | None \<Rightarrow> True)"

text \<open>Requests one after the other: the environment of each, and the request.\<close>

definition serve_all :: "('s server_env \<times> http_request) list \<Rightarrow> 's gateway \<Rightarrow> 's gateway" where
  "serve_all steps g = fold (\<lambda>(env, r) g. snd (snd (serve_http env r g))) steps g"

lemma auth_run_keeps:
  assumes "\<And>flight st. flight \<in> set flights \<Longrightarrow> holds st \<Longrightarrow> holds (snd (flight st))" and "holds st"
  shows "holds (snd (auth_run ops ctx failed refresh retried flights st))"
  using assms
proof (induction flights arbitrary: retried st)
  case Nil
  then show ?case by (subst auth_run.simps) (auto split: prod.split sum.split)
next
  case (Cons flight flights)
  obtain answer st' where f: "flight st = (answer, st')" by fastforce
  then have "holds st'" using Cons.prems(1) [of flight st] Cons.prems(2) by simp
  then show ?case
    using Cons f by (subst auth_run.simps) (auto split: prod.split sum.split flight_answer.split)
qed

lemma ensured_state: "snd (ensured run) = snd run"
  by (cases run) (auto simp: ensured_def split: option.split)

section \<open>The operations of the gateway keep the property\<close>

locale kept_property =
  fixes ops :: "'s session_ops" and overlay :: "'s overlay_ops" and holds :: "'s \<Rightarrow> bool"
    and fresh :: "string \<Rightarrow> bool"
  assumes keep_audit: "holds st \<Longrightarrow> holds (so_audit ops now e st)"
    and keep_save: "holds st \<Longrightarrow> fresh (gs_token_hash s) \<Longrightarrow> holds (snd (so_save_session ops s st))"
    and keep_revoke: "holds st \<Longrightarrow> holds (snd (so_revoke ops now k st))"
    and keep_info: "holds st \<Longrightarrow> holds (snd (so_update_info ops ctx u st))"
    and keep_personal: "holds st \<Longrightarrow> holds (snd (snd (so_personal ops s r guards st)))"
    and keep_counts: "holds st \<Longrightarrow> holds (oo_save_counts overlay now cs st)"
begin

lemma audit_keeps: "holds (gw_store g) \<Longrightarrow> holds (gw_store (audit ops now e g))"
  by (simp add: audit_def keep_audit)

lemma session_audit_keeps:
  "holds (gw_store g) \<Longrightarrow> pe_ops env = ops \<Longrightarrow> holds (gw_store (session_audit env s event message r rel status g))"
  by (simp add: session_audit_def audit_keeps)

lemma login_failure_keeps:
  "holds (gw_store g) \<Longrightarrow> holds (gw_store (audit_login_failure ops now r username message status g))"
  by (simp add: audit_login_failure_def Let_def audit_keeps)

lemma open_session_keeps:
  assumes "holds (gw_store g)"
    and fresh: "\<And>t k. new_opaque_token (lv_hash env) (lv_random env) = Some (t, k) \<Longrightarrow> fresh k"
  shows "holds (gw_store (snd (open_session ops cfg env h r user g)))"
proof (cases "new_opaque_token (lv_hash env) (lv_random env)")
  case None
  then show ?thesis using assms(1) by (simp add: open_session_def)
next
  case (Some issued)
  obtain token k where i: "issued = (token, k)" by fastforce
  obtain err st where s: "so_save_session ops (new_session env r user k) (gw_store g) = (err, st)" by fastforce
  have "gs_token_hash (new_session env r user k) = k" by (simp add: new_session_def Let_def)
  then have "holds st"
    using keep_save [OF assms(1), of "new_session env r user k"] fresh [of token k] s i Some by simp
  then show ?thesis
    using Some i s by (cases err) (simp_all add: open_session_def Let_def audit_keeps)
qed

lemma authenticate_keeps:
  assumes "holds (gw_store g)"
    and "\<And>t k. new_opaque_token (lv_hash env) (lv_random env) = Some (t, k) \<Longrightarrow> fresh k"
  shows "holds (gw_store (snd (handle_authenticate ops cfg env h r g)))"
  using assms
  by (auto simp: handle_authenticate_def Let_def login_failure_keeps open_session_keeps
      split: option.split prod.split sum.split)

lemma logout_keeps:
  assumes "holds (gw_store g)"
  shows "holds (gw_store (snd (handle_logout ops cfg env h r rel g)))"
proof -
  have gone: "holds st" if "so_revoke ops now k (gw_store g) = (err, st)" for now k err st
    using keep_revoke [OF assms, of now k] that by simp
  show ?thesis
    using assms
    by (auto simp: handle_logout_def Let_def audit_keeps gone split: option.split prod.split)
qed

lemma path_policy_keeps:
  "holds (gw_store g) \<Longrightarrow> holds (gw_store (snd (path_policy_allows ops hash now h r rel g)))"
  by (auto simp: path_policy_allows_def Let_def audit_keeps split: sum.split)

lemma server_info_keeps:
  assumes "holds (gw_store g)" and meanwhile: "\<And>st. holds st \<Longrightarrow> holds (meanwhile st)"
  shows "holds (gw_store (snd (refresh_upstream_server_info ops ip6 send meanwhile ctx now validated g)))"
proof -
  define p where "p = (case so_runtime ops ctx (gw_store g) of
        Inl _ \<Rightarrow> (True, gw_store g)
      | Inr runtime \<Rightarrow>
          (case probe_upstream_public ip6 (send 0) runtime of
             Inl _ \<Rightarrow> (True, gw_store g)
           | Inr info \<Rightarrow>
               (case so_update_info ops ctx
                  \<lparr>si_source = us_id (ur_source runtime), si_server = us_server_id (ur_source runtime),
                   si_name = pi_name info, si_version = pi_version info, si_checked = now\<rparr> (gw_store g) of
                  (err, st) \<Rightarrow> (err \<noteq> None, st))))"
  have "holds (snd p)"
    unfolding p_def using assms(1) keep_info [OF assms(1)]
    by (auto split: sum.split simp: case_prod_beta)
  moreover obtain failed st where "p = (failed, st)" by fastforce
  moreover obtain ns err where "validate_image_namespace ip6 (send 1) (so_runtime ops ctx st)
      (so_runtime ops ctx (meanwhile st)) validated = (ns, err)" by fastforce
  ultimately show ?thesis
    unfolding refresh_upstream_server_info_def p_def [symmetric] Let_def by (simp add: meanwhile)
qed

lemma public_info_keeps:
  assumes "holds (gw_store g)" and "\<And>st. holds st \<Longrightarrow> holds (meanwhile st)"
  shows "holds (gw_store (snd (public_system_info_version ops ip6 send meanwhile ctx now validated g)))"
proof -
  obtain failed g' where
    f: "refresh_upstream_server_info ops ip6 send meanwhile ctx now validated g = (failed, g')" by fastforce
  have g': "holds (gw_store g')"
    using server_info_keeps [where meanwhile = meanwhile, OF assms, of ip6 send ctx now validated] f by simp
  let ?result = "public_system_info_version ops ip6 send meanwhile ctx now validated g"
  have "snd ?result = g \<or> snd ?result = g'"
    unfolding public_system_info_version_def Let_def f prod.case
    by (cases "so_runtime ops ctx (gw_store g)"; cases "so_runtime ops ctx (gw_store g')") simp_all
  then show ?thesis using assms(1) g' by metis
qed

lemma refresh_keeps:
  assumes "holds (gw_store g)" and "pe_ops env = ops"
    and flights: "\<And>st. holds st \<Longrightarrow> holds (snd (fst (px_refresh env) st)) \<and> holds (snd (snd (px_refresh env) st))"
    and run: "refresh_snapshot env r rel s upstream occasion g = (u, renewed, g')"
  shows "holds (gw_store g')"
proof -
  let ?run = "auth_refresh (so_auth ops) (px_auth_ctx env) (rs_token upstream) [fst (px_refresh env), snd (px_refresh env)] (gw_store g)"
  have "holds (snd (auth_run (so_auth ops) (px_auth_ctx env) (rs_token upstream) True False
      [fst (px_refresh env), snd (px_refresh env)] (gw_store g)))"
  proof (rule auth_run_keeps [where holds = holds, OF _ assms(1)])
    show "holds (snd (flight st))"
      if "flight \<in> set [fst (px_refresh env), snd (px_refresh env)]" and "holds st" for flight st
      using that flights [of st] by auto
  qed
  then have "holds (snd ?run)" using assms(1) by (simp add: auth_refresh_def)
  then have "holds (snd (ensured ?run))" by (simp add: ensured_state)
  then show ?thesis
    using run assms(1,2)
    by (auto simp: refresh_snapshot_def Let_def session_audit_keeps case_prod_beta split: if_splits)
qed

section \<open>Answers\<close>

lemma child_counts_keep:
  "holds st \<Longrightarrow> holds (snd (apply_child_counts overlay fetch now items ags st))"
  by (auto simp: apply_child_counts_def Let_def keep_counts split: prod.split)

lemma rewrite_proxy_json_keeps:
  "holds st \<Longrightarrow> holds (snd (rewrite_proxy_json overlay fetch now e v st))"
  using child_counts_keep
  by (auto simp: rewrite_proxy_json_def Let_def case_prod_beta split: option.split)

lemma write_json_value_keeps:
  "holds (gw_store g) \<Longrightarrow> pe_overlay env = overlay \<Longrightarrow> holds (gw_store (snd (write_json_value env e h status v g)))"
  using rewrite_proxy_json_keeps by (auto simp: write_json_value_def case_prod_beta)

lemma pre_header_keeps:
  "holds (gw_store g) \<Longrightarrow> pe_ops env = ops \<Longrightarrow>
     holds (gw_store (snd (pre_header_failure env h r rel kind s err d g)))"
  by (auto simp: pre_header_failure_def Let_def audit_keeps)

lemma abort_keeps:
  "holds (gw_store g) \<Longrightarrow> pe_ops env = ops \<Longrightarrow>
     holds (gw_store (snd (abort_proxy_body env h status sent r rel s message g)))"
  by (simp add: abort_proxy_body_def session_audit_keeps)

lemma copy_keeps:
  "holds (gw_store g) \<Longrightarrow> pe_ops env = ops \<Longrightarrow>
     holds (gw_store (snd (copy_proxy_body env h status sent reads r rel s g)))"
  by (auto simp: copy_proxy_body_def abort_keeps split: prod.split option.split)

lemma media_keeps:
  "holds (gw_store g) \<Longrightarrow> pe_ops env = ops \<Longrightarrow>
     holds (gw_store (snd (write_media env h status len reads r rel s g)))"
  by (auto simp: write_media_def Let_def audit_keeps split: prod.split option.split)

lemma image_keeps:
  "holds (gw_store g) \<Longrightarrow> pe_ops env = ops \<Longrightarrow>
     holds (gw_store (snd (write_image_proxy_response env h r rel kind a s g)))"
  by (auto simp: write_image_proxy_response_def reject_invalid_image_def Let_def pre_header_keeps copy_keeps
      abort_keeps session_audit_keeps split: prod.split option.split bool.split)

lemma missing_type_keeps:
  "holds (gw_store g) \<Longrightarrow> pe_ops env = ops \<Longrightarrow> pe_overlay env = overlay \<Longrightarrow>
     holds (gw_store (snd (write_missing_content_type env e h r rel kind a s g)))"
  by (auto simp: write_missing_content_type_def Let_def pre_header_keeps media_keeps write_json_value_keeps
      split: sum.split bool.split option.split)

lemma response_keeps:
  assumes "holds (gw_store g)" and "pe_ops env = ops" and "pe_overlay env = overlay"
  shows "holds (gw_store (snd (write_proxy_response env e h r rel kind a s g)))"
  unfolding write_proxy_response_def Let_def reject_invalid_image_def
  using assms
  by (simp add: pre_header_keeps media_keeps write_json_value_keeps image_keeps missing_type_keeps copy_keeps
      session_audit_keeps split: sum.split option.split)

section \<open>A whole request\<close>

text \<open>What the request meets keeps the property, and it runs on the store of the locale.\<close>

definition quiet :: "'s server_env \<Rightarrow> bool" where
  "quiet env \<longleftrightarrow>
     others_keep holds fresh env \<and> pe_ops (sn_proxy env) = ops \<and> pe_overlay (sn_proxy env) = overlay"

definition quiet_proxy :: "'s pipeline_env \<Rightarrow> bool" where
  "quiet_proxy env \<longleftrightarrow> pe_ops env = ops \<and> pe_overlay env = overlay \<and>
     (\<forall>st. holds st \<longrightarrow> holds (px_meanwhile env st) \<and>
        holds (snd (fst (px_login env) st)) \<and> holds (snd (snd (px_login env) st)) \<and>
        holds (snd (fst (px_refresh env) st)) \<and> holds (snd (snd (px_refresh env) st)))"

lemma quiet_proxyI: "quiet env \<Longrightarrow> quiet_proxy (sn_proxy env)"
  by (simp add: quiet_def quiet_proxy_def others_keep_def)

lemma truncate_ops: "pe_ops (proxy_env.truncate env) = pe_ops env" "pe_overlay (proxy_env.truncate env) = pe_overlay env"
  by (simp_all add: proxy_env.truncate_def)

lemma finish_keeps:
  assumes "quiet_proxy env" and "holds (gw_store g)"
  shows "holds (gw_store (snd (snd (finish_proxy env h p upstream a g))))"
proof -
  have answer: "holds (gw_store (snd (write_proxy_response (proxy_env.truncate env) e h r rel kind a s g)))"
    if "holds (gw_store g)" for e a g r rel kind s
    using assms(1) that by (intro response_keeps) (simp_all add: quiet_proxy_def truncate_ops)
  show ?thesis
    unfolding finish_proxy_def Let_def case_prod_beta snd_conv
    by (rule answer) (simp add: assms(2))
qed

lemma attempt_keeps:
  assumes "quiet_proxy env" and "holds (gw_store g)"
    and proceed: "\<And>a g. holds (gw_store g) \<Longrightarrow> holds (gw_store (snd (snd (proceed a g))))"
  shows "holds (gw_store (snd (snd (attempt env n h p req proceed g))))"
proof -
  let ?g = "with_store (px_meanwhile env) g"
  have later: "holds (gw_store ?g)" using assms(1,2) by (simp add: quiet_proxy_def)
  have failure: "holds (gw_store (snd (pre_header_failure (proxy_env.truncate env) h r rel kind s err d ?g)))"
    for r rel kind s err d
    using assms(1) later by (intro pre_header_keeps) (simp_all add: quiet_proxy_def truncate_ops)
  have denied: "holds (gw_store (snd (write_concurrent_playback_denied env h r rel s key ?g)))" for r rel s key
    using assms(1) later
    by (auto simp: write_concurrent_playback_denied_def Let_def quiet_proxy_def session_audit_keeps split: prod.split)
  show ?thesis
    unfolding attempt_def Let_def case_prod_beta
    using failure denied proceed [OF later]
    by (auto split: sum.split)
qed

lemma retry_keeps:
  assumes "quiet_proxy env" and "holds (gw_store g)"
  shows "holds (gw_store (snd (snd (retry_proxy env h p raw upstream a g))))"
proof -
  obtain u renewed g' where
    f: "refresh_snapshot env (px_request p) (px_rel p) (px_session p) upstream ''after unauthorized response'' g = (u, renewed, g')"
    by (metis prod_cases3)
  have g': "holds (gw_store g')"
    using assms by (intro refresh_keeps [OF assms(2) _ _ f]) (auto simp: quiet_proxy_def)
  have "holds (gw_store (snd (bad_backend_url env h r rel s g')))" for r rel s
    using assms(1) g' by (simp add: bad_backend_url_def quiet_proxy_def session_audit_keeps)
  then show ?thesis
    unfolding retry_proxy_def Let_def f prod.case
    using finish_keeps [OF assms(1) g'] attempt_keeps [OF assms(1) g' finish_keeps [OF assms(1)]]
    by (auto simp: case_prod_beta split: bool.split sum.split)
qed

lemma forward_keeps:
  assumes "quiet_proxy env" and "holds (gw_store g)"
  shows "holds (gw_store (snd (snd (forward_request env h p upstream u g))))"
proof -
  have next_step: "holds (gw_store (snd (snd
      (if c a then retry_proxy env h p raw upstream a g else finish_proxy env h p upstream a g))))"
    if "holds (gw_store g)" for c raw and a :: upstream_answer and g
    using retry_keeps [OF assms(1) that] finish_keeps [OF assms(1) that] by simp
  show ?thesis
    unfolding forward_request_def Let_def
    using attempt_keeps [OF assms next_step] assms(2)
    by (auto split: sum.split prod.split)
qed

lemma route_keeps:
  assumes "quiet_proxy env" and "holds (gw_store g)"
  shows "holds (gw_store (snd (snd (route_proxy_request env h p g))))"
proof -
  let ?run = "auth_ensure (so_auth (pe_ops env)) (px_auth_ctx env) [fst (px_login env), snd (px_login env)] (gw_store g)"
  have "holds (snd ?run)"
    unfolding auth_ensure_def
  proof (rule auth_run_keeps [where holds = holds, OF _ assms(2)])
    show "holds (snd (flight st))"
      if "flight \<in> set [fst (px_login env), snd (px_login env)]" and "holds st" for flight st
      using that assms(1) by (auto simp: quiet_proxy_def)
  qed
  moreover obtain res st where e: "ensured ?run = (res, st)" by fastforce
  ultimately have st: "holds (gw_store (g\<lparr>gw_store := st\<rparr>))" using ensured_state [of ?run] by simp
  define g1 where "g1 = g\<lparr>gw_store := st\<rparr>"
  have g1: "holds (gw_store g1)" using st by (simp add: g1_def)
  have refreshed: "holds (gw_store g2)"
    if "refresh_snapshot env r rel s upstream occasion g1 = (u, renewed, g2)" for r rel s upstream occasion u renewed g2
    using assms(1) by (intro refresh_keeps [OF g1 _ _ that]) (auto simp: quiet_proxy_def)
  have bad: "holds (gw_store (snd (bad_backend_url env h r rel s g2)))" if "holds (gw_store g2)" for r rel s g2
    using assms(1) that by (simp add: bad_backend_url_def quiet_proxy_def session_audit_keeps)
  have audit: "holds (gw_store (session_audit env s event message r rel status g1))" for s event message r rel status
    using assms(1) g1 by (simp add: quiet_proxy_def session_audit_keeps)
  define url where "url = (\<lambda>upstream. proxy_url (px_ip6 env) upstream (px_session p) (px_rel p)
    (hr_raw_query (px_request p)) (px_token p))"
  have onward: "holds (gw_store (snd (snd
      (case url upstream of
         Inl BadQuery \<Rightarrow> ([], Answered (Some (write_credential_query_error h MalformedQuery)), g2)
       | Inl BadBackendUrl \<Rightarrow>
           (case bad_backend_url env h (px_request p) (px_rel p) (px_session p) g2 of (resp, g) \<Rightarrow> ([], Answered resp, g))
       | Inr (u, _) \<Rightarrow>
           (if is_upgrade_request (px_request p)
            then ([], Upgraded u (rewrite_request_headers upstream (hr_header (px_request p))), g2)
            else (case forward_request env h p upstream u g2 of (sent, resp, g) \<Rightarrow> (sent, Answered resp, g)))))))"
    if "holds (gw_store g2)" for upstream g2
    using that bad forward_keeps [OF assms(1) that]
    by (auto simp: case_prod_beta split: sum.split proxy_url_error.split)
  show ?thesis
  proof (cases res)
    case (Inl err)
    then show ?thesis
      using e audit g1 by (simp add: route_proxy_request_def Let_def g1_def)
  next
    case (Inr runtime)
    show ?thesis
    proof (cases "select_upstream_snapshot (so_rules (pe_ops env) (fst (px_ctx env)) st) runtime
        (is_upgrade_request (px_request p)) (hr_method (px_request p)) (px_rel p)")
      case (Inl err)
      with \<open>res = Inr runtime\<close> e g1 show ?thesis by (simp add: route_proxy_request_def Let_def g1_def)
    next
      case (Inr upstream)
      obtain u renewed g2 where f: "refresh_snapshot env (px_request p) (px_rel p) (px_session p) upstream ''before upgrade'' g1 =
          (u, renewed, g2)" by (metis prod_cases3)
      show ?thesis
        unfolding route_proxy_request_def Let_def e prod.case \<open>res = Inr runtime\<close> sum.case Inr
          g1_def [symmetric] f
        using onward [OF g1, of upstream] onward [OF refreshed [OF f], of u]
        unfolding url_def
        by (simp split: if_split)
    qed
  qed
qed

lemma proxy_keeps:
  assumes "quiet_proxy env" and "holds (gw_store g)"
  shows "holds (gw_store (snd (snd (handle_proxy env h r rel g))))"
proof -
  have ops: "pe_ops env = ops" using assms(1) by (simp add: quiet_proxy_def)
  have personal: "holds (gw_store (g\<lparr>gw_guards := guards', gw_store := st\<rparr>))"
    if "so_personal ops s req guards (gw_store g) = (reply, guards', st)" for s req guards reply guards' st
    using keep_personal [OF assms(2), of s req guards] that by simp
  define token where "token = (if extract_token r \<noteq> [] then (extract_token r, False)
    else case resource_cookie_token r rel of Some (t, _) \<Rightarrow> (t, True) | None \<Rightarrow> ([], False))"
  obtain t by_cookie where t: "token = (t, by_cookie)" by fastforce
  show ?thesis
  proof (cases "active_session ops (px_hash env) (px_now_session env) t g")
    case None
    then show ?thesis
      using assms(2) by (simp add: handle_proxy_def Let_def ops token_def [symmetric] t)
  next
    case (Some s)
    note active = this
    show ?thesis
    proof (cases "guard_proxy_query_credentials (token_exists ops (px_hash env) g) (hr_raw_query r) t")
      case (Some err)
      with active show ?thesis
        using assms(2) by (simp add: handle_proxy_def Let_def ops token_def [symmetric] t)
    next
      case None
      define snap where "snap = (if playback_info_item_id (hr_method r) rel = None then (gw_guards g, 0)
        else guard_snapshot \<lparr>gk_token_hash = gs_token_hash s,
               gk_item_id = (case playback_info_item_id (hr_method r) rel of Some i \<Rightarrow> i | None \<Rightarrow> [])\<rparr>
               (px_now_guard env) (gw_guards g))"
      obtain guards generation where snap: "snap = (guards, generation)" by fastforce
      obtain reply guards' st where
        run: "so_personal ops s (personal_of r rel (px_personal env)) guards (gw_store g) = (reply, guards', st)"
        by (metis prod_cases3)
      note kept = personal [OF run]
      show ?thesis
        unfolding handle_proxy_def Let_def ops token_def [symmetric] t prod.case active None option.case
          snap_def [symmetric] snap run
        using kept route_keeps [OF assms(1) kept]
        by (simp split: option.split reply.split)
    qed
  qed
qed

lemma image_request_keeps:
  assumes "pe_ops (sn_proxy env) = ops" and "holds (gw_store g)"
  shows "holds (gw_store (snd (snd (serve_anonymous_image env h r rel g))))"
proof -
  have "holds (gw_store (audit_image_copy env r res g))" for res
    using assms by (auto simp: audit_image_copy_def Let_def audit_keeps split: option.split prod.split)
  then show ?thesis by (simp add: serve_anonymous_image_def Let_def case_prod_beta)
qed

lemma dispatch_keeps:
  assumes "quiet env" and "holds (gw_store g)"
  shows "holds (gw_store (snd (snd (dispatch env h r rel g))))"
proof -
  have ops: "pe_ops (sn_proxy env) = ops" using assms(1) by (simp add: quiet_def)
  have "fresh k" if "new_opaque_token (lv_hash (sn_login env)) (lv_random (sn_login env)) = Some (t, k)" for t k
    using assms(1) that by (auto simp: quiet_def others_keep_def)
  note login = authenticate_keeps [OF assms(2) this]
  have "holds (sn_meanwhile env st)" if "holds st" for st
    using assms(1) that by (simp add: quiet_def others_keep_def)
  note info = public_info_keeps [where meanwhile = "sn_meanwhile env", OF assms(2) this]
  have info: "holds (gw_store (snd (serve_public_info env h r g)))"
    using info ops by (simp add: serve_public_info_def Let_def case_prod_beta)
  show ?thesis
    unfolding dispatch_def Let_def ops
    using login info logout_keeps [OF assms(2)] proxy_keeps [OF quiet_proxyI [OF assms(1)] assms(2)] assms(2)
    by (simp add: case_prod_beta)
qed

lemma serve_keeps:
  assumes "quiet env" and "holds (gw_store g)"
  shows "holds (gw_store (snd (snd (serve_http env r g))))"
proof -
  have ops: "pe_ops (sn_proxy env) = ops" using assms(1) by (simp add: quiet_def)
  have policy: "holds (gw_store g')"
    if "path_policy_allows ops hash now h r rel g = (resp, g')" for hash now h rel resp g'
    using path_policy_keeps [OF assms(2), of hash now h r rel] that by simp
  show ?thesis
    unfolding serve_http_def Let_def ops
    using assms(2) dispatch_keeps [OF assms(1) policy] image_request_keeps [OF ops policy] policy
    by (auto split: option.split prod.split)
qed

lemma serve_all_keeps:
  "(\<And>env r. (env, r) \<in> set steps \<Longrightarrow> quiet env) \<Longrightarrow> holds (gw_store g) \<Longrightarrow> holds (gw_store (serve_all steps g))"
proof (induction steps arbitrary: g)
  case (Cons one steps)
  obtain env r where one: "one = (env, r)" by fastforce
  have "holds (gw_store (snd (snd (serve_http env r g))))"
    using Cons.prems one by (intro serve_keeps) auto
  moreover have "quiet env'" if "(env', r') \<in> set steps" for env' r'
    using Cons.prems(1) [of env' r'] that by simp
  ultimately show ?case using Cons.IH [of "snd (snd (serve_http env r g))"] one by (simp add: serve_all_def)
qed (simp add: serve_all_def)

end

section \<open>Revoked tokens\<close>

text \<open>A token the in-memory store refuses for good: no session, or a revoked one.\<close>

definition refused :: "string \<Rightarrow> memory_store \<Rightarrow> bool" where
  "refused k m \<longleftrightarrow> (case map_of (ms_sessions m) k of None \<Rightarrow> True | Some s \<Rightarrow> gs_revoked s \<noteq> None)"

lemma refused_accounts: "accounts m' = accounts m \<Longrightarrow> refused k m' = refused k m"
  by (simp add: refused_def accounts_def)

end
