(* ===== verification/Gate_Theorems.thy ===== *)
theory Gate_Theorems
  imports Gate_Invariant Response_Theorems Upstream_Auth_Theorems Store_Theorems
begin

text \<open>
  What a request passes before anything is done for it: the session behind its token, the path
  policy, the limiter of logins; and what a logout means for every later request.
\<close>

section \<open>Sessions\<close>

text \<open>The token a request presents: in its headers or its query, else in the cookie of a resource.\<close>

definition presented_token :: "http_request \<Rightarrow> string \<Rightarrow> string" where
  "presented_token r rel =
     (if extract_token r \<noteq> [] then extract_token r
      else (case resource_cookie_token r rel of Some (t, _) \<Rightarrow> t | None \<Rightarrow> []))"

lemma handle_proxy_refuses:
  assumes "active_session (pe_ops env) (px_hash env) (px_now_session env) (presented_token r rel) g = None"
  shows "handle_proxy env h r rel g =
    ([], Answered (Some (unauthorized (apply_resource_cache_policy (resource_route r rel) 401 h))), g)"
proof -
  define token where "token = (if extract_token r \<noteq> [] then (extract_token r, False)
    else case resource_cookie_token r rel of Some (t, _) \<Rightarrow> (t, True) | None \<Rightarrow> ([], False))"
  have "fst token = presented_token r rel"
    by (simp add: token_def presented_token_def split: option.split prod.split)
  then obtain by_cookie where t: "token = (presented_token r rel, by_cookie)" by (metis prod.collapse)
  show ?thesis
    unfolding handle_proxy_def Let_def token_def [symmetric] t prod.case assms option.case ..
qed

text \<open>A request whose path and query are accepted meets the path policy, then its handler.\<close>

lemma serve_http_admitted:
  assumes "valid_request_path r" and "relative_path (gc_base_path (px_cfg (sn_proxy env))) (hr_path r) = Some rel"
    and "accepts_client_credentials (hr_method r) rel \<longrightarrow> validate_raw_query (hr_raw_query r) = None"
  obtains h where "serve_http env r g =
    (case path_policy_allows (pe_ops (sn_proxy env)) (px_hash (sn_proxy env)) (pe_now (sn_proxy env)) h r rel g of
       (Some resp, g) \<Rightarrow> ([], Answered (Some resp), g)
     | (None, g) \<Rightarrow>
         (if is_anonymous_item_image_route r rel \<and> \<not> has_auth_control_occurrence r \<and> \<not> has_reserved_resource_cookie r
          then serve_anonymous_image env h r rel g else dispatch env h r rel g))"
proof -
  define h where "h = (let h = header_set ''X-Emby-Auth-Gateway-Version'' (sn_version env) []
    in if accepts_client_credentials (hr_method r) rel \<and> is_anonymous_item_image_route r rel
       then header_set ''Cache-Control'' ''no-store'' h else h)"
  have "(if accepts_client_credentials (hr_method r) rel then validate_raw_query (hr_raw_query r) else None) = None"
    using assms(3) by simp
  then show ?thesis
    by (intro that [of h]) (simp only: serve_http_def Let_def h_def assms(1,2) not_True_eq_False if_False option.case)
qed

lemma path_policy_passes:
  "path_policy_allows ops hash now h r rel g = (None, g') \<Longrightarrow>
     g' = g \<and> (\<exists>d. so_policy ops (hr_method r) rel (gw_store g) = Inr d \<and> dec_allowed d)"
  by (auto simp: path_policy_allows_def Let_def split: sum.splits if_splits)


section \<open>Path policies\<close>

lemma http_error_uncached:
  "header_get (re_header (http_error (header_set ''Cache-Control'' v h) message status)) ''Cache-Control'' = v"
proof -
  have "canonical_key ''X-Content-Type-Options'' \<noteq> canonical_key ''Cache-Control''"
    "canonical_key ''Content-Type'' \<noteq> canonical_key ''Cache-Control''"
    "canonical_key ''Content-Length'' \<noteq> canonical_key ''Cache-Control''" by code_simp+
  then show ?thesis by (simp add: http_error_def header_get_def header_simps)
qed

lemma http_error_status [simp]: "re_status (http_error h message status) = status"
  by (simp add: http_error_def)

text \<open>
  C3: A stored policy that denies a clean path stops the request whoever asks: the answer is 403, not
  to be cached, nothing is sent, and of the gateway's state only the audit log changes, where the
  denial is recorded.
\<close>

theorem denied_path_stops:
  assumes "valid_request_path r" and "relative_path (gc_base_path (px_cfg (sn_proxy env))) (hr_path r) = Some rel"
    and "accepts_client_credentials (hr_method r) rel \<longrightarrow> validate_raw_query (hr_raw_query r) = None"
    and "pe_ops (sn_proxy env) = memory_session_ops cfg"
    and denied: "\<not> dec_allowed (decide (ms_policies (gw_store g)) (hr_method r) rel)"
  shows "\<exists>resp e. serve_http env r g =
      ([], Answered (Some resp), g\<lparr>gw_store := (gw_store g)\<lparr>ms_audit := ms_audit (gw_store g) @ [e]\<rparr>\<rparr>) \<and>
    re_status resp = 403 \<and> header_get (re_header resp) ''Cache-Control'' = ''no-store'' \<and>
    al_event e = ''path_denied'' \<and> al_status e = 403 \<and> al_path e = rel"
proof -
  let ?px = "sn_proxy env"
  obtain h where admitted: "serve_http env r g =
    (case path_policy_allows (pe_ops ?px) (px_hash ?px) (pe_now ?px) h r rel g of
       (Some resp, g) \<Rightarrow> ([], Answered (Some resp), g)
     | (None, g) \<Rightarrow>
         (if is_anonymous_item_image_route r rel \<and> \<not> has_auth_control_occurrence r \<and> \<not> has_reserved_resource_cookie r
          then serve_anonymous_image env h r rel g else dispatch env h r rel g))"
    using assms(1-3) by (rule serve_http_admitted)
  obtain message where "path_policy_allows (pe_ops ?px) (px_hash ?px) (pe_now ?px) h r rel g =
      (Some (http_error (header_set ''Cache-Control'' ''no-store'' h) ''forbidden'' 403),
       audit (pe_ops ?px) (pe_now ?px) (audit_for_request (pe_ops ?px) (px_hash ?px) r rel ''path_denied'' message 403 g) g)"
    using denied assms(4) by (auto simp: path_policy_allows_def memory_session_ops_def check_path_policy_def Let_def)
  then have run: "serve_http env r g =
      ([], Answered (Some (http_error (header_set ''Cache-Control'' ''no-store'' h) ''forbidden'' 403)),
       audit (pe_ops ?px) (pe_now ?px) (audit_for_request (pe_ops ?px) (px_hash ?px) r rel ''path_denied'' message 403 g) g)"
    using admitted by simp
  define e where "e = (audit_for_request (pe_ops ?px) (px_hash ?px) r rel ''path_denied'' message 403 g)
    \<lparr>al_created := or_now (pe_now ?px) (or_now (pe_now ?px) 0)\<rparr>"
  have e: "al_event e = ''path_denied''" "al_status e = 403" "al_path e = rel"
    by (simp_all add: e_def audit_for_request_def audit_entry_def Let_def)
  have "audit (pe_ops ?px) (pe_now ?px) (audit_for_request (pe_ops ?px) (px_hash ?px) r rel ''path_denied'' message 403 g) g =
      g\<lparr>gw_store := (gw_store g)\<lparr>ms_audit := ms_audit (gw_store g) @ [e]\<rparr>\<rparr>"
    using assms(4)
    by (simp add: e_def audit_def memory_session_ops_def record_audit_def audit_for_request_def audit_entry_def Let_def)
  then show ?thesis
    unfolding run using e
    by (intro exI [of _ "http_error (header_set ''Cache-Control'' ''no-store'' h) ''forbidden'' 403"] exI [of _ e])
      (simp add: http_error_uncached)
qed

section \<open>Logout\<close>

interpretation revoked: kept_property "memory_session_ops cfg" memory_overlay_ops "refused k" "\<lambda>h. h \<noteq> k" for cfg k
proof unfold_locales
  fix st :: memory_store
  show "refused k (so_audit (memory_session_ops cfg) now e st)" if "refused k st" for now e
    using that by (simp add: memory_session_ops_def record_audit_def refused_def)
  show "refused k (snd (so_save_session (memory_session_ops cfg) s st))" if "refused k st" "gs_token_hash s \<noteq> k" for s
    using that by (simp add: memory_session_ops_def save_session_def refused_def update_conv)
  show "refused k (snd (so_revoke (memory_session_ops cfg) now h st))" if "refused k st" for now h
    using that by (auto simp: memory_session_ops_def revoke_session_def refused_def update_conv split: option.splits)
  show "refused k (snd (so_update_info (memory_session_ops cfg) ctx u st))" if "refused k st" for ctx u
    using that by (auto simp: memory_session_ops_def update_server_info_def refused_def split: option.splits)
  show "refused k (snd (snd (so_personal (memory_session_ops cfg) s r guards st)))" if "refused k st" for s r guards
    using that refused_accounts [OF personal_request_accounts] by (simp add: memory_session_ops_def)
  show "refused k (oo_save_counts memory_overlay_ops now cs st)" if "refused k st" for now cs
    using that by (simp add: memory_overlay_ops_def save_child_counts_def refused_def)
qed

lemma logout_refuses:
  assumes "handle_logout (memory_session_ops cfg) cfg env h r rel g = (resp, g')" and "re_status resp = 200"
  shows "refused (sv_hash env (extract_token r)) (gw_store g')"
proof -
  have "refused k st" if "revoke_session now k m = (None, st)" for now k m st
    using that by (auto simp: revoke_session_def refused_def update_conv split: option.splits)
  moreover have "gw_store (audit (memory_session_ops cfg) now e g1) = record_audit now (e\<lparr>al_created := or_now now (al_created e)\<rparr>) (gw_store g1)"
    for now e and g1 :: "memory_store gateway"
    by (simp add: audit_def memory_session_ops_def)
  moreover have "refused k (record_audit now e m) = refused k m" for k now e m
    by (simp add: record_audit_def refused_def)
  ultimately show ?thesis
    using assms
    by (auto simp: handle_logout_def Let_def unauthorized_def memory_session_ops_def [of cfg]
        split: option.splits prod.splits)
qed

lemma refused_inactive:
  "refused (hash token) (gw_store g) \<Longrightarrow> active_session (memory_session_ops cfg) hash now token g = None"
  by (auto simp: active_session_def memory_session_ops_def refused_def find_session_def session_active_def
      split: option.splits)


section \<open>Login\<close>

text \<open>The limiter after a series of failures with one key.\<close>

definition fail_at :: "string \<Rightarrow> time list \<Rightarrow> login_limiter \<Rightarrow> login_limiter" where
  "fail_at key moments l = fold (record_login_failure key) moments l"

lemma failed_entry:
  "map_of l key = None \<Longrightarrow> moments \<noteq> [] \<Longrightarrow>
     map_of (fail_at key moments l) key = Some \<lparr>le_count = int (length moments),
       le_blocked_till = (if 5 \<le> length moments then last moments + minute else 0)\<rparr>"
proof (induction moments rule: rev_induct)
  case (snoc t moments)
  show ?case
  proof (cases "moments = []")
    case True
    with snoc show ?thesis
      by (simp add: fail_at_def record_login_failure_def Let_def update_conv login_failure_limit_def)
  next
    case False
    with snoc show ?thesis
      by (simp add: fail_at_def record_login_failure_def Let_def update_conv login_failure_limit_def
          login_failure_block_def)
  qed
qed simp


lemma saved_sessions: "map_of (ms_sessions (save_session s m)) k = (if k = gs_token_hash s then Some s else map_of (ms_sessions m) k)"
  by (simp add: save_session_def update_conv)

lemma open_session_outcome:
  assumes "open_session (memory_session_ops cfg) cfg env h r user g = (resp, g')" and "re_status resp = 200"
    and "lv_random env = Some bs" and "length bs = 32"
  obtains token s where "token \<noteq> []" "s = new_session env r user (lv_hash env token)"
    "new_opaque_token (lv_hash env) (lv_random env) = Some (token, lv_hash env token)"
    "re_body resp = JSONBody (JObject (authentication_result_dto user s token (gc_server_id cfg)))"
    "ms_sessions (gw_store g') = ms_sessions (save_session s (gw_store g))"
proof -
  have issued: "new_opaque_token (lv_hash env) (lv_random env) = Some (base64_encode bs, lv_hash env (base64_encode bs))"
    by (simp add: assms(3) new_opaque_token_def Let_def)
  have "base64_encode bs \<noteq> []" using assms(4) base64_encode_length [of bs] by auto
  then show ?thesis
  proof (rule that [OF _ refl issued])
    show "re_body resp = JSONBody (JObject (authentication_result_dto user
        (new_session env r user (lv_hash env (base64_encode bs))) (base64_encode bs) (gc_server_id cfg)))"
      using assms(1) issued by (auto simp: open_session_def Let_def memory_session_ops_def write_json_def)
    show "ms_sessions (gw_store g') = ms_sessions (save_session (new_session env r user (lv_hash env (base64_encode bs))) (gw_store g))"
      using assms(1) issued
      by (auto simp: open_session_def Let_def memory_session_ops_def audit_def record_audit_def)
  qed
qed

text \<open>
  C5: A login is answered 200 only for a user of the store that is enabled, under that name and with
  that password, and then the token of the answer, and no other, gets a session: it is the user's,
  it is active for thirty days, and every other token keeps the session it had.
\<close>

theorem login_opens_one_session:
  assumes "handle_authenticate (memory_session_ops cfg) cfg env h r g = (resp, g')" and "re_status resp = 200"
    and "lv_random env = Some bs" and "length bs = 32"
  shows "\<exists>form user token s.
    parse_authenticate_body env r = Some form \<and>
    authenticate_user (af_username form) (if af_pw form = [] then af_password form else af_pw form) (gw_store g) = Inr user \<and>
    gu_enabled user \<and> gs_user s = gu_id user \<and>
    re_body resp = JSONBody (JObject (authentication_result_dto user s token (gc_server_id cfg))) \<and>
    (\<forall>now < lv_now env + 30 * 24 * hour. active_session (memory_session_ops cfg) (lv_hash env) now token g' = Some s) \<and>
    (\<forall>k. k \<noteq> lv_hash env token \<longrightarrow> map_of (ms_sessions (gw_store g')) k = map_of (ms_sessions (gw_store g)) k)"
proof -
  obtain form where form: "parse_authenticate_body env r = Some form"
    using assms(1,2) by (cases "parse_authenticate_body env r") (auto simp: handle_authenticate_def)
  define key where "key = login_failure_key (af_username form) r"
  obtain blocked logins where b: "login_blocked key (lv_now_blocked env) (gw_logins g) = (blocked, logins)" by fastforce
  define password where "password = (if af_pw form = [] then af_password form else af_pw form)"
  have enabled: "gu_enabled user" if "authenticate_user n p m = Inr user" for n p m user
    using that by (auto simp: authenticate_user_def find_Some_iff split: option.splits)
  have lookup: "so_authenticate (memory_session_ops cfg) n p m = map_sum id Some (authenticate_user n p m)" for n p m
    by (simp add: memory_session_ops_def)
  have run: "\<not> blocked \<and> (\<exists>user. authenticate_user (af_username form) password (gw_store g) = Inr user \<and>
      open_session (memory_session_ops cfg) cfg env h r user
        (g\<lparr>gw_logins := clear_login_failures key logins\<rparr>) = (resp, g'))"
    using assms(1,2) form b
    by (cases "authenticate_user (af_username form) password (gw_store g)")
      (auto simp: handle_authenticate_def Let_def key_def password_def lookup dest: enabled split: if_splits)
  then obtain user where user: "authenticate_user (af_username form) password (gw_store g) = Inr user"
    and opened: "open_session (memory_session_ops cfg) cfg env h r user
      (g\<lparr>gw_logins := clear_login_failures key logins\<rparr>) = (resp, g')" by blast
  define g1 where "g1 = g\<lparr>gw_logins := clear_login_failures key logins\<rparr>"
  obtain token s where t: "token \<noteq> []" "s = new_session env r user (lv_hash env token)"
    "new_opaque_token (lv_hash env) (lv_random env) = Some (token, lv_hash env token)"
    "re_body resp = JSONBody (JObject (authentication_result_dto user s token (gc_server_id cfg)))"
    "ms_sessions (gw_store g') = ms_sessions (save_session s (gw_store g1))"
    by (rule open_session_outcome [OF opened [folded g1_def] assms(2-4)])
  have stored: "ms_sessions (gw_store g') = ms_sessions (save_session s (gw_store g))"
    using t(5) by (simp add: g1_def)
  have s: "gs_token_hash s = lv_hash env token" "gs_user s = gu_id user" "gs_revoked s = None"
    "gs_expires s = lv_now env + 30 * 24 * hour"
    by (simp_all add: t(2) new_session_def Let_def session_ttl_def)
  have active: "active_session (memory_session_ops cfg) (lv_hash env) now token g' = Some s"
    if "now < lv_now env + 30 * 24 * hour" for now
    using that t(1) stored s saved_sessions [of s "gw_store g"]
    by (simp add: active_session_def memory_session_ops_def find_session_def session_active_def)
  have others: "map_of (ms_sessions (gw_store g')) k = map_of (ms_sessions (gw_store g)) k" if "k \<noteq> lv_hash env token" for k
    using that stored s(1) saved_sessions [of s "gw_store g"] by simp
  show ?thesis
    using form user [unfolded password_def] enabled [OF user] t(4) s(2) active others by blast
qed

section \<open>A small deployment\<close>

text \<open>
  The gateway under \<open>/emby\<close> with one user, one upstream whose images were checked, and quiet others: the
  input of the instances below.
\<close>

definition sample_cfg :: gateway_config where
  "sample_cfg = \<lparr>gc_base_path = ''/emby'', gc_public_base = ''http://g'', gc_server_id = ''gw'', gc_resume = demo_policy\<rparr>"

definition sample_list :: list_env where
  "sample_list =
     \<lparr>lq_parse_float = (\<lambda>_. None), lq_format_float = (\<lambda>_. []), lq_rewrite = (\<lambda>v. v), lq_now = 1, lq_ids = (\<lambda>_. None),
      lq_filter = (\<lambda>_. None), lq_page = (\<lambda>_ _. None), lq_whole = None\<rparr>"

definition sample_personal :: personal_req where
  "sample_personal =
     \<lparr>pr_method = [], pr_path = [], pr_rel = [], pr_query = [], pr_remote = [], pr_report = None, pr_object = None,
      pr_raw = None, pr_clock = 1, pr_now = 1, pr_seen = 1, pr_item = None, pr_list = sample_list,
      pr_episodes = (\<lambda>_ _. None), pr_device = []\<rparr>"

definition sample_hash :: "string \<Rightarrow> string" where "sample_hash t = CHR ''h'' # t"

definition sample_proxy :: "memory_store pipeline_env" where
  "sample_proxy =
     \<lparr>pe_ops = memory_session_ops sample_cfg, pe_overlay = memory_overlay_ops, pe_media_type = (\<lambda>s. s),
      pe_decimal = (\<lambda>_. ''1''), pe_unmarshal = (\<lambda>_. None), pe_error_text = (\<lambda>_. []), pe_fetch = (\<lambda>_. None),
      pe_writes = [], pe_ctx_done = False, pe_now = 100, pe_duration_ms = 0, px_cfg = sample_cfg,
      px_ip6 = (\<lambda>_. False), px_hash = sample_hash, px_members = (\<lambda>_. None), px_now_session = 100,
      px_now_guard = 100, px_now_done = 100, px_personal = sample_personal,
      px_auth_ctx = (\<lambda>_. (False, (False, False), False)),
      px_login = (\<lambda>st. (CallerDone, st), \<lambda>st. (CallerDone, st)),
      px_refresh = (\<lambda>st. (CallerDone, st), \<lambda>st. (CallerDone, st)), px_canceled = (\<lambda>_. False),
      px_ctx = (False, False), px_probe = (\<lambda>_. None), px_send = (\<lambda>_ _. Inl UnexpectedEndOfFile),
      px_encode = (\<lambda>_. []), px_decode = (\<lambda>_. None), px_format_name = (\<lambda>s. s), px_meanwhile = (\<lambda>st. st)\<rparr>"

definition sample_login :: login_env where
  "sample_login =
     \<lparr>lv_hash = sample_hash, lv_random = Some (replicate 32 0),
      lv_unmarshal = (\<lambda>_. Some \<lparr>af_username = ''ann'', af_pw = ''pw'', af_password = []\<rparr>),
      lv_media_type = (\<lambda>s. s), lv_now_blocked = 100, lv_now_failure = 100, lv_now = 100, lv_now_audit = 100,
      lv_now_cookie = 100\<rparr>"

definition sample_serve :: serve_env where
  "sample_serve = \<lparr>sv_hash = sample_hash, sv_now = 100, sv_now_audit = 100, sv_now_revoke = 100\<rparr>"

definition sample_server :: "memory_store server_env" where
  "sample_server =
     \<lparr>sn_proxy = sample_proxy, sn_login = sample_login, sn_serve = sample_serve, sn_version = ''v1'',
      sn_probe = (\<lambda>_ _ _. None), sn_meanwhile = (\<lambda>st. st), sn_now = 100, sn_now_validated = 100,
      sn_image_send = (\<lambda>_. None), sn_image_slot = True\<rparr>"

definition ann :: gateway_user where
  "ann = \<lparr>gu_id = ''1'', gu_username = ''ann'', gu_synthetic = ''s1'', gu_enabled = True\<rparr>"

definition sample_session_of :: "string \<Rightarrow> session" where
  "sample_session_of token =
     \<lparr>gs_token_hash = sample_hash token, gs_user = ''1'', gs_username = ''ann'', gs_synthetic_user = ''s1'',
      gs_client = [], gs_device = [], gs_device_id = [], gs_version = [], gs_remote_ip = [], gs_created = 1,
      gs_expires = 1000, gs_revoked = None\<rparr>"

definition sample_runtime :: upstream_runtime where
  "sample_runtime = \<lparr>ur_source = demo_source, ur_endpoints = [demo_endpoint]\<rparr>"

definition sample_gateway :: "memory_store gateway" where
  "sample_gateway =
     \<lparr>gw_store = demo_upstream
        \<lparr>ms_users := [(''1'', \<lparr>mu_user = ann, mu_password = ''pw''\<rparr>)],
         ms_sessions := [(sample_hash ''T'', sample_session_of ''T'')],
         ms_policies := [\<lparr>pol_id = ''p'', pol_method = ''*'', pol_path = ''/System/Shutdown'', pol_action = ''deny'',
           pol_reason = ''no'', pol_priority = 1, pol_enabled = True, pol_updated = 0\<rparr>]\<rparr>,
      gw_logins = [], gw_guards = new_tracker,
      gw_images = \<lparr>in_origin = image_origin_for sample_runtime, in_key = the (namespace_key_for sample_runtime),
        in_validated = 50, in_available = True, in_diagnostic = ''available''\<rparr>\<rparr>"

definition sample_get :: "string \<Rightarrow> header \<Rightarrow> http_request" where
  "sample_get p h =
     \<lparr>hr_method = ''GET'', hr_path = p, hr_escaped = p, hr_raw_query = [], hr_header = h, hr_host = ''g'', hr_tls = False,
      hr_remote_addr = ''1.2.3.4:5'', hr_body = None\<rparr>"


lemma memory_session_ops_simps:
  "so_find_session (memory_session_ops cfg) k m = map_sum id Some (find_session k m)"
  "so_policy (memory_session_ops cfg) me rel m = Inr (check_path_policy me rel m)"
  "so_runtime (memory_session_ops cfg) = load_default_upstream_runtime"
  "so_revoke (memory_session_ops cfg) = revoke_session"
  by (simp_all add: memory_session_ops_def)

lemma sample_proxy_simps:
  "pe_ops sample_proxy = memory_session_ops sample_cfg" "px_cfg sample_proxy = sample_cfg"
  "px_hash sample_proxy = sample_hash" "px_ctx sample_proxy = (False, False)" "px_ip6 sample_proxy = (\<lambda>_. False)"
  "sn_proxy sample_server = sample_proxy" "sn_now sample_server = 100" "sn_image_send sample_server = (\<lambda>_. None)"
  "gc_base_path sample_cfg = ''/emby''"
  by (simp_all add: sample_proxy_def sample_server_def sample_cfg_def)


theorem denied_path_stops_witness:
  "\<exists>resp e. serve_http sample_server (sample_get ''/emby/System/Shutdown'' []) sample_gateway =
      ([], Answered (Some resp),
       sample_gateway\<lparr>gw_store := (gw_store sample_gateway)\<lparr>ms_audit := ms_audit (gw_store sample_gateway) @ [e]\<rparr>\<rparr>) \<and>
    re_status resp = 403"
proof -
  let ?r = "sample_get ''/emby/System/Shutdown'' []"
  have "valid_request_path ?r"
    "relative_path (gc_base_path (px_cfg (sn_proxy sample_server))) (hr_path ?r) = Some ''/System/Shutdown''"
    "accepts_client_credentials (hr_method ?r) ''/System/Shutdown'' \<longrightarrow> validate_raw_query (hr_raw_query ?r) = None"
    "\<not> dec_allowed (decide (ms_policies (gw_store sample_gateway)) (hr_method ?r) ''/System/Shutdown'')"
    unfolding sample_proxy_simps by code_simp+
  moreover have "pe_ops (sn_proxy sample_server) = memory_session_ops sample_cfg" by (simp add: sample_proxy_simps)
  ultimately show ?thesis using denied_path_stops by metis
qed

definition sample_logout :: http_request where
  "sample_logout = (sample_get ''/emby/Sessions/Logout'' [(''X-Emby-Token'', [''T''])])\<lparr>hr_method := ''POST''\<rparr>"


text \<open>A login of \<open>ann\<close>.\<close>

definition sample_sign_in :: http_request where
  "sample_sign_in = (sample_get ''/emby/Users/AuthenticateByName'' [])\<lparr>hr_method := ''POST'', hr_body := Some ''{}''\<rparr>"

lemma sample_form: "parse_authenticate_body sample_login sample_sign_in = Some \<lparr>af_username = ''ann'', af_pw = ''pw'', af_password = []\<rparr>"
  by (simp add: parse_authenticate_body_def sample_login_def sample_sign_in_def sample_get_def header_get_def
      header_values_def)


theorem login_opens_one_session_witness:
  "\<exists>g' resp form user token s.
    handle_authenticate (memory_session_ops sample_cfg) sample_cfg sample_login [] sample_sign_in sample_gateway = (resp, g') \<and>
    parse_authenticate_body sample_login sample_sign_in = Some form \<and>
    authenticate_user (af_username form) (if af_pw form = [] then af_password form else af_pw form) (gw_store sample_gateway) = Inr user \<and>
    active_session (memory_session_ops sample_cfg) sample_hash 101 token g' = Some s"
proof -
  let ?run = "handle_authenticate (memory_session_ops sample_cfg) sample_cfg sample_login [] sample_sign_in sample_gateway"
  obtain resp g' where run: "?run = (resp, g')" by fastforce
  have "gw_logins sample_gateway = []" "ms_users (gw_store sample_gateway) = [(''1'', \<lparr>mu_user = ann, mu_password = ''pw''\<rparr>)]"
    "lv_random sample_login = Some (replicate 32 0)"
    by (simp_all add: sample_gateway_def sample_login_def)
  then have "re_status (fst ?run) = 200"
    by (simp add: handle_authenticate_def sample_form login_blocked_def memory_session_ops_def authenticate_user_def ann_def
        open_session_def new_opaque_token_def write_json_def write_header_def Let_def)
  then have "re_status resp = 200" using run by simp
  moreover have "lv_random sample_login = Some (replicate 32 0)" "length (replicate 32 (0 :: nat)) = 32"
    "lv_hash sample_login = sample_hash" "101 < lv_now sample_login + 30 * 24 * hour"
    by (simp_all add: sample_login_def)
  ultimately show ?thesis using login_opens_one_session [OF run, of "replicate 32 0"] run by metis
qed

end
