(* ===== verification/Upgrade_Retry.thy ===== *)
theory Upgrade_Retry
  imports Proxy_Pipeline
begin

text \<open>
  The transport of an upgraded connection (\<open>upgrade_retry.go\<close>): one answer 401 is retried with a
  refreshed token before \<open>httputil.ReverseProxy\<close> takes the connection over. \<open>send\<close> is the base transport.
\<close>

datatype upgrade_error = UpgradeIo io_error | UpgradeUrl proxy_url_error

definition upgrade_round_trip ::
  "'s pipeline_env \<Rightarrow> (nat \<Rightarrow> sent_request \<Rightarrow> io_error + upstream_answer) \<Rightarrow> http_request \<Rightarrow> string \<Rightarrow> session \<Rightarrow> string \<Rightarrow>
     request_snapshot \<Rightarrow> sent_request \<Rightarrow> 's gateway \<Rightarrow>
     sent_request list \<times> (upgrade_error + upstream_answer) \<times> 's gateway" where
  "upgrade_round_trip env send r rel s token upstream req g =
     (case send 0 req of
        Inl err \<Rightarrow> ([req], Inl (UpgradeIo err), g)
      | Inr a \<Rightarrow>
          (if ua_status a \<noteq> 401 then ([req], Inr a, g)
           else (case refresh_snapshot env r rel s upstream ''after upgrade unauthorized response'' g of
                   (upstream', False, g) \<Rightarrow> ([req], Inr a, g)
                 | (upstream', True, g) \<Rightarrow>
                     (case proxy_url (px_ip6 env) upstream' s rel (hr_raw_query r) token of
                        Inl err \<Rightarrow> ([req], Inl (UpgradeUrl err), g)
                      | Inr (u, _) \<Rightarrow>
                          (let retry = req\<lparr>sr_url := u, sr_header := rewrite_request_headers upstream' (sr_header req)\<rparr>
                           in ([req, retry], map_sum UpgradeIo id (send 1 retry), g))))))"

text \<open>A connection is tried at most twice, the second time only after an answer 401.\<close>

lemma upgrade_tried_twice:
  "length (fst (upgrade_round_trip env send r rel s token upstream req g)) \<le> 2 \<and>
   (length (fst (upgrade_round_trip env send r rel s token upstream req g)) = 2 \<longrightarrow>
      (\<exists>a. send 0 req = Inr a \<and> ua_status a = 401))"
  by (auto simp: upgrade_round_trip_def Let_def split: sum.split prod.split bool.split)

end
