(* ===== verification/Registration.thy ===== *)
theory Registration
  imports Gateway_Requests
begin

text \<open>The fixed answers about registration under the root of the host (\<open>registration.go\<close>).\<close>

definition registration_prefix :: string where "registration_prefix = ''/admin/service/registration/''"

definition registration_route_name :: "string \<Rightarrow> string option" where
  "registration_route_name request_path =
     (if \<not> prefix registration_prefix request_path then None
      else (let name = trim_char (CHR ''/'') (trim_prefix request_path registration_prefix)
            in if name = [] \<or> CHR ''/'' \<in> set name then None else Some name))"

definition serve_registration :: "header \<Rightarrow> http_request \<Rightarrow> response" where
  "serve_registration h r =
     (if hr_method r \<notin> {''GET'', ''POST'', ''HEAD''}
      then http_error (header_set ''Allow'' ''GET, HEAD, POST'' h) ''method not allowed'' 405
      else (case registration_route_name (hr_path r) of
              None \<Rightarrow> http_error h ''404 page not found'' 404
            | Some name \<Rightarrow>
                (let h = header_set ''Cache-Control'' ''no-store'' h;
                     reply = (\<lambda>obj. write_json h [] 200 (JObject obj))
                 in if name = ''validateDevice''
                    then reply [(''cacheExpirationDays'', JInt 233), (''message'', JString ''Device Valid''),
                      (''resultCode'', JString ''GOOD'')]
                    else if name = ''validate''
                    then reply [(''featId'', JString []), (''registered'', JBool True), (''expDate'', JString ''2333-10-01''),
                      (''key'', JString [])]
                    else if name = ''getStatus''
                    then reply [(''deviceStatus'', JInt 0), (''planType'', JString ''Lifetime''), (''subscriptions'', JArray [])]
                    else http_error h ''404 page not found'' 404)))"

text \<open>A registration is reported valid at exactly three paths, short of slashes at their end.\<close>

lemma registration_answers:
  "re_status (serve_registration h r) = 200 \<longleftrightarrow>
     hr_method r \<in> {''GET'', ''POST'', ''HEAD''} \<and>
     (\<exists>name \<in> {''validateDevice'', ''validate'', ''getStatus''}. registration_route_name (hr_path r) = Some name)"
  by (auto simp: serve_registration_def Let_def http_error_def write_json_def write_header_def split: option.split)

end
