(* ===== verification/Ebml.thy ===== *)
theory Ebml
  imports Prelude
begin

text \<open>
  \<open>internal/subtitleindex/ebml.go\<close>: variable-length integers, the walk over the elements of a
  buffer, and the conversion of ticks. A byte of a buffer is a \<open>char\<close>, a \<open>uint64\<close> is a 64-bit word
  with the shifts and masks of the code.
\<close>

unbundle bit_operations_syntax

type_synonym uint64 = "64 word"

section \<open>Errors\<close>

datatype context_error = Canceled | DeadlineExceeded

datatype index_error =
    ErrUnsupported
  | ErrLimit
  | ErrSource
  | ErrIndex
  | ErrEmpty
  | ErrContext context_error

section \<open>Integers\<close>

definition byte_word :: "char \<Rightarrow> uint64" where
  "byte_word c = of_nat (of_char c)"

text \<open>\<open>for _, x := range b { v = v<<8 | uint64(x) }\<close>\<close>

definition shift_bytes :: "uint64 \<Rightarrow> string \<Rightarrow> uint64" where
  "shift_bytes v b = foldl (\<lambda>v x. push_bit 8 v OR byte_word x) v b"

text \<open>The loop of \<open>vint\<close> that looks for the marker bit of the first byte.\<close>

function vint_width :: "uint64 \<Rightarrow> nat \<Rightarrow> nat option" where
  "vint_width first n =
     (if first AND push_bit (8 - n) 1 \<noteq> 0 then Some n
      else if 8 < n + 1 then None else vint_width first (n + 1))"
  by pat_completeness auto
termination by (relation "measure (\<lambda>(_, n). 9 - n)") auto

declare vint_width.simps [simp del]

definition vint :: "string \<Rightarrow> bool \<Rightarrow> (uint64 \<times> nat) option" where
  "vint b keep_marker =
     (case b of
        [] \<Rightarrow> None
      | c # _ \<Rightarrow>
          if byte_word c = 0 then None
          else (case vint_width (byte_word c) 1 of
                  None \<Rightarrow> None
                | Some n \<Rightarrow>
                    if length b < n \<or> keep_marker \<and> 4 < n then None
                    else (let v = (if keep_marker then byte_word c
                                   else byte_word c AND (push_bit (8 - n) 1 - 1))
                          in Some (shift_bytes v (take (n - 1) (tl b)), n))))"

text \<open>The size of an element whose length is not known: all bits of its \<open>m\<close> bytes are set.\<close>

definition unknown_size :: "nat \<Rightarrow> uint64" where
  "unknown_size m = push_bit (7 * m) 1 - 1"

definition unsigned_integer :: "string \<Rightarrow> index_error + uint64" where
  "unsigned_integer b = (if b = [] \<or> 8 < length b then Inl ErrIndex else Inr (shift_bytes 0 b))"

definition milliseconds :: "uint64 \<Rightarrow> uint64 \<Rightarrow> index_error + int" where
  "milliseconds ticks scale =
     (if scale = 0 \<or> 1000000000 < scale \<or> word_of_int max_int64 div scale < ticks then Inl ErrIndex
      else (let n = sint (ticks * scale div 1000000)
            in if 72 * 3600 * 1000 < n then Inl ErrIndex else Inr n))"

section \<open>Elements of a buffer\<close>

lemma vint_width_pos: "vint_width w n = Some k \<Longrightarrow> n \<le> k"
  by (induction w n rule: vint_width.induct) (force simp: vint_width.simps split: if_splits)

lemma vint_width_le: "vint_width w n = Some k \<Longrightarrow> n \<le> 8 \<Longrightarrow> k \<le> 8"
proof (induction w n rule: vint_width.induct)
  case (1 w n)
  show ?case
  proof (cases "w AND push_bit (8 - n) 1 = 0 \<and> n < 8")
    case True
    with 1 show ?thesis by (simp add: vint_width.simps [of w n])
  next
    case False
    with 1 show ?thesis by (simp add: vint_width.simps [of w n] split: if_splits)
  qed
qed

lemma vint_length:
  "vint b keep = Some (v, n) \<Longrightarrow> 1 \<le> n \<and> n \<le> 8 \<and> n \<le> length b"
  by (auto simp: vint_def Let_def dest: vint_width_pos vint_width_le split: list.splits if_splits option.splits)

text \<open>
  \<open>children\<close>: the elements of a buffer in order. What the closure \<open>visit\<close> changes is the state
  \<open>s\<close>; the buffer is what is left of it.
\<close>

function children ::
  "('s \<Rightarrow> uint64 \<Rightarrow> string \<Rightarrow> index_error + 's) \<Rightarrow> string \<Rightarrow> 's \<Rightarrow> index_error + 's" where
  "children visit b s =
     (if b = [] then Inr s
      else (case vint b True of
              None \<Rightarrow> Inl ErrIndex
            | Some (i, n) \<Rightarrow>
                (case vint (drop n b) False of
                   None \<Rightarrow> Inl ErrIndex
                 | Some (sz, m) \<Rightarrow>
                     (let body = drop (n + m) b
                      in if sz = unknown_size m \<or> length body < unat sz then Inl ErrIndex
                         else (case visit s i (take (unat sz) body) of
                                 Inl e \<Rightarrow> Inl e
                               | Inr s' \<Rightarrow> children visit (drop (unat sz) body) s')))))"
  by pat_completeness auto
termination
  by (relation "measure (\<lambda>(_, b, _). length b)") (auto dest!: vint_length)

declare children.simps [simp del]

section \<open>What the integers are worth\<close>

text \<open>The value of the bytes as a number in base 256, the reference for the shifts.\<close>

definition base256 :: "nat \<Rightarrow> string \<Rightarrow> nat" where
  "base256 v b = foldl (\<lambda>v x. 256 * v + of_char x) v b"

lemma byte_word_unat [simp]: "unat (byte_word c) = of_char c"
proof -
  have "of_char c < (256 :: nat)" by simp
  then have "of_char c mod (18446744073709551616 :: nat) = of_char c" by (intro mod_less) linarith
  then show ?thesis by (simp add: byte_word_def unat_of_nat)
qed

lemma shift_bytes_Nil [simp]: "shift_bytes v [] = v"
  by (simp add: shift_bytes_def)

lemma shift_bytes_Cons [simp]: "shift_bytes v (x # b) = shift_bytes (push_bit 8 v OR byte_word x) b"
  by (simp add: shift_bytes_def)

lemma base256_Nil [simp]: "base256 k [] = k"
  by (simp add: base256_def)

lemma base256_Cons [simp]: "base256 k (x # b) = base256 (256 * k + of_char x) b"
  by (simp add: base256_def)

lemma shift_byte:
  assumes "unat v * 256 < 2 ^ 64"
  shows "unat (push_bit 8 v OR byte_word x) = 256 * unat v + of_char x"
proof -
  have byte: "of_char x < (256 :: nat)" by simp
  have high: "unat (push_bit 8 v) = 256 * unat v"
    using assms by (simp add: push_bit_eq_mult unat_word_ariths mult.commute)
  have "push_bit 8 v AND byte_word x = 0"
  proof (rule bit_eqI)
    fix i
    have "bit (byte_word x) i \<Longrightarrow> i < 8"
    proof -
      assume "bit (byte_word x) i"
      then have "bit (unat (byte_word x)) i" by (simp only: bit_unsigned_iff) simp
      moreover have "take_bit 8 (unat (byte_word x)) = unat (byte_word x)"
        by (simp only: byte_word_unat take_bit_nat_eq_self_iff) simp
      ultimately show "i < 8" by (metis bit_take_bit_iff)
    qed
    then show "bit (push_bit 8 v AND byte_word x) i = bit 0 i"
      by (auto simp: bit_and_iff bit_push_bit_iff)
  qed
  then have "push_bit 8 v OR byte_word x = push_bit 8 v + byte_word x"
    by (simp add: disjunctive_add_eq_or)
  moreover have "256 * unat v + of_char x < 2 ^ 64"
  proof -
    have "unat v < 72057594037927936" using assms by simp
    then have "256 * unat v + 255 < 18446744073709551616" by linarith
    with byte have "256 * unat v + of_char x < 18446744073709551616" by linarith
    then show ?thesis by simp
  qed
  ultimately show ?thesis
    by (simp add: unat_word_ariths high)
qed

lemma base256_bound: "base256 k b < (k + 1) * 256 ^ length b"
proof (induction b arbitrary: k)
  case Nil
  then show ?case by simp
next
  case (Cons x b)
  have "base256 (256 * k + of_char x) b < (256 * k + of_char x + 1) * 256 ^ length b" by (rule Cons)
  also have "\<dots> \<le> (256 * k + 256) * 256 ^ length b"
    by (rule mult_le_mono1) (use of_char_of [of "of_char x :: nat"] in \<open>simp add: Suc_leI\<close>)
  finally show ?case by (simp add: algebra_simps)
qed

lemma shift_bytes_value:
  "(unat v + 1) * 256 ^ length b \<le> 2 ^ 64 \<Longrightarrow> unat (shift_bytes v b) = base256 (unat v) b"
proof (induction b arbitrary: v)
  case Nil
  then show ?case by simp
next
  case (Cons x b)
  have "(unat v + 1) * 256 * 1 \<le> (unat v + 1) * 256 * 256 ^ length b" by (rule mult_le_mono2) simp
  moreover have "(unat v + 1) * 256 * 256 ^ length b \<le> 2 ^ 64"
    using Cons.prems by (simp only: length_Cons power_Suc mult.assoc)
  ultimately have small: "(unat v + 1) * 256 \<le> 2 ^ 64" by (simp only: mult_1_right)
  then have "unat v * 256 < 2 ^ 64" by simp
  then have step: "unat (push_bit 8 v OR byte_word x) = 256 * unat v + of_char x" by (rule shift_byte)
  have "of_char x < (256 :: nat)" by simp
  then have "(256 * unat v + of_char x + 1) * 256 ^ length b \<le> (256 * unat v + 256) * 256 ^ length b"
    by (intro mult_le_mono1) linarith
  also have "\<dots> \<le> 2 ^ 64" using Cons.prems by (simp add: algebra_simps)
  finally show ?case using Cons.IH [of "push_bit 8 v OR byte_word x"] step by simp
qed

lemma unsigned_integer_value:
  "unsigned_integer b = Inr w \<longleftrightarrow> 1 \<le> length b \<and> length b \<le> 8 \<and> w = shift_bytes 0 b \<and> unat w = base256 0 b"
proof -
  have "length b \<le> 8 \<Longrightarrow> unat (shift_bytes 0 b) = base256 0 b"
    using shift_bytes_value [of 0 b] power_increasing [of "length b" 8 "256 :: nat"] by simp
  then show ?thesis by (cases b) (auto simp: unsigned_integer_def)
qed

lemma sint_small: "unat w < 2 ^ 63 \<Longrightarrow> sint w = int (unat w)" for w :: uint64
proof -
  assume "unat w < 2 ^ 63"
  then have "int (unat w) < int (2 ^ 63)" by (simp only: of_nat_less_iff)
  then have "int (unat w) < 2 ^ 63" by simp
  moreover have "- (2 ^ 63) \<le> int (unat w)" by (rule order_trans [of _ 0]) simp_all
  ultimately have "signed_take_bit 63 (int (unat w)) = int (unat w)"
    by (intro signed_take_bit_int_eq_self)
  then show ?thesis by (simp add: sint_uint)
qed

text \<open>The product of ticks and scale does not wrap around, and a result is at most 72 hours.\<close>

lemma milliseconds_exact:
  assumes "milliseconds ticks scale = Inr n"
  shows "n = int (unat ticks * unat scale div 1000000)" and "0 \<le> n" and "n \<le> 72 * 3600 * 1000"
proof -
  have scale: "0 < unat scale" and fits: "unat ticks \<le> 9223372036854775807 div unat scale"
    and n: "n = sint (ticks * scale div 1000000)" and top: "n \<le> 72 * 3600 * 1000"
    using assms
    by (auto simp: milliseconds_def Let_def word_le_nat_alt unat_div unat_gt_0 not_less split: if_splits)
  have "unat ticks * unat scale \<le> 9223372036854775807"
    using fits scale by (simp add: less_eq_div_iff_mult_less_eq)
  then have prod: "unat (ticks * scale) = unat ticks * unat scale" by (simp add: unat_word_ariths)
  let ?q = "ticks * scale div 1000000"
  have q: "unat ?q = unat ticks * unat scale div 1000000" by (simp add: unat_div prod)
  have "unat ?q < 2 ^ 63"
    using \<open>unat ticks * unat scale \<le> 9223372036854775807\<close> div_le_dividend [of "unat ticks * unat scale" 1000000]
    by (simp add: q)
  then have "sint ?q = int (unat ?q)" by (rule sint_small)
  then show "n = int (unat ticks * unat scale div 1000000)" by (simp add: n q)
  then show "0 \<le> n" by simp
  show "n \<le> 72 * 3600 * 1000" by (rule top)
qed

section \<open>Writing elements\<close>

text \<open>
  A reference writer, from the format: an integer of \<open>n\<close> bytes is its value under the marker bit
  \<open>2 ^ (7 * n)\<close>, big endian.
\<close>

fun be_bytes :: "nat \<Rightarrow> nat \<Rightarrow> string" where
  "be_bytes 0 x = []"
| "be_bytes (Suc n) x = char_of (x div 256 ^ n) # be_bytes n (x mod 256 ^ n)"

definition put_vint :: "nat \<Rightarrow> nat \<Rightarrow> string" where
  "put_vint n v = be_bytes n (2 ^ (7 * n) + v)"

lemma length_be_bytes [simp]: "length (be_bytes n x) = n"
  by (induction n arbitrary: x) simp_all

lemma base256_be_bytes: "x < 256 ^ n \<Longrightarrow> base256 k (be_bytes n x) = k * 256 ^ n + x"
proof (induction n arbitrary: k x)
  case 0
  then show ?case by simp
next
  case (Suc n)
  have "x div 256 ^ n < 256" using Suc.prems by (simp add: less_mult_imp_div_less)
  then have "of_char (char_of (x div 256 ^ n) :: char) = x div 256 ^ n" by (simp add: take_bit_eq_mod)
  moreover have "(256 * k + x div 256 ^ n) * 256 ^ n + x mod 256 ^ n = k * 256 ^ Suc n + x"
    by (simp add: algebra_simps)
  ultimately show ?case using Suc.IH [of "x mod 256 ^ n" "256 * k + x div 256 ^ n"] by simp
qed

lemma word_low_bits: "unat (w AND (push_bit k 1 - 1)) = unat w mod 2 ^ k" for w :: uint64
proof -
  have "w AND (push_bit k 1 - 1) = take_bit k w"
    by (simp add: take_bit_eq_mask mask_eq_exp_minus_1 push_bit_eq_mult)
  then have "unat (w AND (push_bit k 1 - 1)) = unat (take_bit k w)" by (rule arg_cong)
  also have "\<dots> = take_bit k (unat w)" by (rule unsigned_take_bit_eq)
  finally show ?thesis by (simp only: take_bit_eq_mod)
qed

text \<open>The marker bit that is found first is the highest one that is set.\<close>

lemma vint_width_marker:
  assumes "1 \<le> m" and "m \<le> n" and "n \<le> 8" and "2 ^ (8 - n) \<le> unat w" and "unat w < 2 ^ (9 - n)"
  shows "vint_width w m = Some n"
  using assms
proof (induction w m rule: vint_width.induct)
  case (1 w m)
  have bit: "w AND push_bit (8 - m) 1 \<noteq> 0 \<longleftrightarrow> odd (unat w div 2 ^ (8 - m))"
  proof -
    have "w AND push_bit (8 - m) 1 \<noteq> 0 \<longleftrightarrow> bit w (8 - m)"
      by (simp add: push_bit_of_1 and_exp_eq_0_iff_not_bit)
    also have "\<dots> \<longleftrightarrow> bit (unat w) (8 - m)" by (simp add: bit_unsigned_iff)
    finally show ?thesis by (simp add: bit_nat_def bit_iff_odd)
  qed
  show ?case
  proof (cases "m = n")
    case True
    have "unat w div 2 ^ (8 - n) = 1"
    proof (rule div_nat_eqI)
      show "2 ^ (8 - n) * 1 \<le> unat w" using 1 by simp
      have "9 - n = Suc (8 - n)" using 1 by simp
      then show "unat w < 2 ^ (8 - n) * Suc 1" using 1 by simp
    qed
    then have "w AND push_bit (8 - m) 1 \<noteq> 0" using bit True by simp
    then have "vint_width w m = Some m" by (simp only: vint_width.simps [of w m] not_False_eq_True if_True)
    with True show ?thesis by simp
  next
    case False
    then have "9 - n \<le> 8 - m" using 1 by simp
    then have "unat w < 2 ^ (8 - m)" using 1 by (meson less_le_trans one_le_numeral power_increasing)
    then have off: "\<not> w AND push_bit (8 - m) 1 \<noteq> 0" using bit by simp
    have "m + 1 \<le> n" using False 1 by simp
    then have "vint_width w (m + 1) = Some n" using 1 off by simp
    moreover have "\<not> 8 < m + 1" using False 1 by simp
    ultimately show ?thesis using off by (simp only: vint_width.simps [of w m] if_False)
  qed
qed

text \<open>\<open>vint\<close> reads back what was written, with and without the marker bit.\<close>

lemma put_vint_parts:
  assumes "1 \<le> n" and "n \<le> 8" and "v < 2 ^ (7 * n)"
  shows "\<exists>c b. put_vint n v = c # b \<and> length b = n - 1 \<and> vint_width (byte_word c) 1 = Some n \<and> byte_word c \<noteq> 0 \<and>
    base256 (of_char c) b = 2 ^ (7 * n) + v \<and> base256 (of_char c mod 2 ^ (8 - n)) b = v \<and> (of_char c :: nat) < 2 ^ (9 - n)"
proof -
  obtain k where k: "n = Suc k" using assms(1) by (cases n) auto
  let ?x = "2 ^ (7 * n) + v" and ?t = "256 ^ k :: nat"
  have t: "?t = 2 ^ (8 * k)" by (simp add: power_mult)
  have split: "(2::nat) ^ (7 * n) = 2 ^ (8 - n) * ?t"
  proof -
    have "7 * n = (8 - n) + 8 * k" using assms k by simp
    then show ?thesis by (simp only: t power_add)
  qed
  have top: "?x < 2 ^ (9 - n) * ?t"
  proof -
    have "9 - n = Suc (8 - n)" using assms by simp
    then have "(2::nat) ^ (9 - n) * ?t = 2 * 2 ^ (7 * n)" by (simp add: split)
    then show ?thesis using assms(3) by simp
  qed
  define h where "h = ?x div ?t"
  have h: "2 ^ (8 - n) \<le> h" "h < 2 ^ (9 - n)" "h mod 2 ^ (8 - n) = v div ?t"
  proof -
    have eq: "h = 2 ^ (8 - n) + v div ?t" by (simp add: h_def split)
    then show "2 ^ (8 - n) \<le> h" by simp
    show "h < 2 ^ (9 - n)" unfolding h_def by (rule less_mult_imp_div_less) (rule top)
    have "v div ?t < 2 ^ (8 - n)" by (rule less_mult_imp_div_less) (use assms(3) split in simp)
    then show "h mod 2 ^ (8 - n) = v div ?t" by (simp add: eq)
  qed
  have "(2::nat) ^ (9 - n) \<le> 2 ^ 8" by (rule power_increasing) (use assms(1) in auto)
  with h(2) have "h < 256" by simp
  then have c: "of_char (char_of h :: char) = h" by (simp add: take_bit_eq_mod)
  have pos: "0 < h" using h(1) by (meson less_le_trans zero_less_numeral zero_less_power)
  have width: "vint_width (byte_word (char_of h)) 1 = Some n"
    by (rule vint_width_marker) (use assms h c in simp_all)
  have low: "?x mod ?t < ?t" and low': "v mod ?t < ?t" by simp_all
  have same: "?x mod ?t = v mod ?t" by (simp add: split)
  have "put_vint n v = char_of h # be_bytes k (?x mod ?t)" by (simp add: put_vint_def k h_def)
  moreover have "byte_word (char_of h) \<noteq> 0" using pos c by (metis byte_word_unat not_gr0 unat_0)
  moreover have "base256 h (be_bytes k (?x mod ?t)) = ?x"
    by (simp only: base256_be_bytes [OF low] h_def div_mult_mod_eq)
  moreover have "base256 (h mod 2 ^ (8 - n)) (be_bytes k (?x mod ?t)) = v"
    by (simp only: same base256_be_bytes [OF low'] h(3) div_mult_mod_eq)
  ultimately show ?thesis using width c h(2) k by auto
qed

lemma width_fits:
  assumes "a < (2 ^ j :: nat)" and "j + 8 * k \<le> 64"
  shows "(a + 1) * 256 ^ k \<le> 2 ^ 64"
proof -
  have "(a + 1) * 256 ^ k \<le> 2 ^ j * 2 ^ (8 * k)"
    unfolding power_mult by (rule mult_le_mono) (use assms(1) in auto)
  also have "\<dots> = 2 ^ (j + 8 * k)" by (simp only: power_add)
  also have "\<dots> \<le> 2 ^ 64" by (rule power_increasing) (use assms(2) in auto)
  finally show ?thesis .
qed

lemma vint_put:
  assumes n: "1 \<le> n" "n \<le> 8" and v: "v < 2 ^ (7 * n)"
  shows "map_option (map_prod unat id) (vint (put_vint n v @ rest) False) = Some (v, n)"
proof -
  obtain c b where p: "put_vint n v = c # b" "length b = n - 1" "vint_width (byte_word c) 1 = Some n"
    "byte_word c \<noteq> 0" "base256 (of_char c mod 2 ^ (8 - n)) b = v"
    using put_vint_parts [OF n v] by blast
  let ?w = "byte_word c AND (push_bit (8 - n) 1 - 1)"
  have w: "unat ?w = of_char c mod 2 ^ (8 - n)" by (simp only: word_low_bits byte_word_unat)
  have "(unat ?w + 1) * 256 ^ length b \<le> 2 ^ 64"
    by (rule width_fits [of _ "8 - n"]) (use n p(2) in \<open>simp_all only: w, auto\<close>)
  then have "unat (shift_bytes ?w b) = v" using p(5) by (simp only: shift_bytes_value w)
  then show ?thesis using p n by (simp add: vint_def Let_def)
qed

lemma vint_put_marker:
  assumes n: "1 \<le> n" "n \<le> 4" and v: "v < 2 ^ (7 * n)"
  shows "vint (put_vint n v @ rest) True = Some (of_nat (2 ^ (7 * n) + v), n)"
proof -
  have n8: "n \<le> 8" using n by simp
  obtain c b where p: "put_vint n v = c # b" "length b = n - 1" "vint_width (byte_word c) 1 = Some n"
    "byte_word c \<noteq> 0" "base256 (of_char c) b = 2 ^ (7 * n) + v" "(of_char c :: nat) < 2 ^ (9 - n)"
    using put_vint_parts [OF n(1) n8 v] by blast
  have "(unat (byte_word c) + 1) * 256 ^ length b \<le> 2 ^ 64"
    by (rule width_fits [of _ "9 - n"]) (use n p(2,6) in auto)
  then have "unat (shift_bytes (byte_word c) b) = 2 ^ (7 * n) + v"
    using p(5) by (simp only: shift_bytes_value byte_word_unat)
  then have "shift_bytes (byte_word c) b = of_nat (2 ^ (7 * n) + v)" by (metis of_nat_unat ucast_id)
  then show ?thesis using p n by (simp add: vint_def Let_def)
qed

text \<open>An element: its identifier (width and value without the marker), the width of its size, its body.\<close>

type_synonym written_element = "(nat \<times> nat) \<times> nat \<times> string"

fun element_ok :: "written_element \<Rightarrow> bool" where
  "element_ok ((n, i), m, body) \<longleftrightarrow>
     1 \<le> n \<and> n \<le> 4 \<and> i < 2 ^ (7 * n) \<and> 1 \<le> m \<and> m \<le> 8 \<and> length body < 2 ^ (7 * m) - 1"

fun put_element :: "written_element \<Rightarrow> string" where
  "put_element ((n, i), m, body) = put_vint n i @ put_vint m (length body) @ body"

fun element_id :: "written_element \<Rightarrow> uint64" where
  "element_id ((n, i), m, body) = of_nat (2 ^ (7 * n) + i)"

fun visit_all :: "('s \<Rightarrow> uint64 \<Rightarrow> string \<Rightarrow> index_error + 's) \<Rightarrow> written_element list \<Rightarrow> 's \<Rightarrow> index_error + 's" where
  "visit_all visit [] s = Inr s"
| "visit_all visit (e # es) s =
     (case visit s (element_id e) (snd (snd e)) of Inl err \<Rightarrow> Inl err | Inr s' \<Rightarrow> visit_all visit es s')"

text \<open>
  C9: What is written is read back: the walk over a sequence of elements visits each of them once and
  in order, with its identifier and its body, until a visit fails.
\<close>

lemma children_put:
  "list_all element_ok es \<Longrightarrow> children visit (concat (map put_element es)) s = visit_all visit es s"
proof (induction es arbitrary: s)
  case Nil
  then show ?case by (simp add: children.simps)
next
  case (Cons e es)
  obtain n i m body where e: "e = ((n, i), m, body)" by (metis surj_pair)
  have ok: "1 \<le> n" "n \<le> 4" "i < 2 ^ (7 * n)" "1 \<le> m" "m \<le> 8" "length body < 2 ^ (7 * m) - 1"
    using Cons.prems e by auto
  let ?rest = "concat (map put_element es)"
  let ?b = "put_vint n i @ put_vint m (length body) @ body @ ?rest"
  have len: "length (put_vint k v) = k" for k v by (simp add: put_vint_def)
  have ne: "?b \<noteq> []" using ok len [of n i] by auto
  have size: "length body < 2 ^ (7 * m)" using ok(6) by linarith
  obtain w where w: "vint (put_vint m (length body) @ body @ ?rest) False = Some (w, m)" "unat w = length body"
    using vint_put [OF ok(4,5) size, of "body @ ?rest"] by auto
  have "unat (unknown_size m) = 2 ^ (7 * m) - 1"
  proof -
    have "unknown_size m = of_nat (2 ^ (7 * m) - 1)"
      by (simp add: unknown_size_def of_nat_diff push_bit_eq_mult)
    moreover have "(2::nat) ^ (7 * m) < 2 ^ 64" by (rule power_strict_increasing) (use ok(5) in auto)
    then have "((2::nat) ^ (7 * m) - 1) mod 2 ^ 64 = 2 ^ (7 * m) - 1" by (intro mod_less) linarith
    then have "unat (of_nat (2 ^ (7 * m) - 1) :: uint64) = 2 ^ (7 * m) - 1"
      by (simp only: unat_of_nat) simp
    ultimately show ?thesis by simp
  qed
  then have known: "w \<noteq> unknown_size m" using w(2) ok(6) by auto
  have inside: "\<not> length (body @ ?rest) < unat w" using w(2) by simp
  have "children visit ?b s = (case visit s (element_id e) body of Inl err \<Rightarrow> Inl err | Inr s' \<Rightarrow> children visit ?rest s')"
  proof -
    define b where "b = ?b"
    have parts: "vint b True = Some (element_id e, n)" "drop n b = put_vint m (length body) @ body @ ?rest"
      "drop (n + m) b = body @ ?rest" "take (unat w) (body @ ?rest) = body" "drop (unat w) (body @ ?rest) = ?rest"
      using vint_put_marker [OF ok(1-3)] w(2) by (simp_all add: b_def e len)
    show ?thesis
      using ne known inside unfolding b_def [symmetric]
      by (simp only: children.simps [of visit b] parts w(1) option.case prod.case Let_def if_False simp_thms)
  qed
  then show ?case using Cons by (simp add: e split: sum.split)
qed

text \<open>Two elements, the second with a size of two bytes, and a walk that collects them.\<close>

lemma children_put_witness:
  "children (\<lambda>s i b. Inr (s @ [(i, b)])) (concat (map put_element [((1, 0x21), 1, ''ab''), ((4, 0xa45dfa3), 2, ''c'')])) [] =
     Inr [(0xa1, ''ab''), (0x1a45dfa3, ''c'')]"
proof -
  let ?es = "[((1, 0x21), 1, ''ab''), ((4, 0xa45dfa3), 2, ''c'')] :: written_element list"
  have "list_all element_ok ?es" by simp
  from children_put [OF this, of "\<lambda>s i b. Inr (s @ [(i, b)])" "[]"] show ?thesis by simp
qed

end
