(* ===== verification/Index_Reader.thy ===== *)
theory Index_Reader
  imports Ebml
begin

text \<open>
  \<open>internal/subtitleindex/types.go\<close> and \<open>reader.go\<close>: the limits of an extraction and the reader of
  pages. A reader fetches missing pages of 4096 bytes in merged ranges, before anything is sent it
  checks the plan against what is left of the limits, and it serves reads from the pages it keeps.

  What the context says and what the source answers is an argument: \<open>ix_context\<close> at the \<open>n\<close>-th check
  of the context, \<open>ix_answer\<close> for a range fetched after \<open>n\<close> checks. The four workers only decide
  which ranges are answered \<open>NotStarted\<close> after another one failed; results are used in the order of
  the ranges.
\<close>

section \<open>Limits\<close>

record index_limits =
  il_read_bytes :: int
  il_requests :: int
  il_output_bytes :: int
  il_cues :: int

definition normalized_limits :: "index_limits \<Rightarrow> index_error + index_limits" where
  "normalized_limits l =
     (if il_read_bytes l < 0 \<or> il_requests l < 0 \<or> il_output_bytes l < 0 \<or> il_cues l < 0 then Inl ErrLimit
      else (let l = (if il_read_bytes l = 0 then l\<lparr>il_read_bytes := 67108864\<rparr> else l);
                l = (if il_requests l = 0 then l\<lparr>il_requests := 2048\<rparr> else l);
                l = (if il_output_bytes l = 0 then l\<lparr>il_output_bytes := 8388608\<rparr> else l);
                l = (if il_cues l = 0 then l\<lparr>il_cues := 20000\<rparr> else l)
            in Inr \<lparr>il_read_bytes = min (il_read_bytes l) 134217728, il_requests = min (il_requests l) 8192,
                 il_output_bytes = min (il_output_bytes l) 16777216, il_cues = min (il_cues l) 100000\<rparr>))"

section \<open>Reader\<close>

definition page_size :: int where "page_size = 4096"

type_synonym interval = "int \<times> int"

text \<open>
  What happens to a range: the worker finds the context done, \<open>Open\<close> fails (or gives no body), or it
  gives a body with these bytes, whose \<open>Close\<close> may fail. On a failure the context may be done.
\<close>

datatype range_answer =
    NotStarted context_error
  | OpenFails "context_error option"
  | Body string bool "context_error option"

record index_source =
  ix_size :: int
  ix_limits :: index_limits
  ix_context :: "nat \<Rightarrow> context_error option"
  ix_answer :: "nat \<Rightarrow> interval \<Rightarrow> range_answer"

record reader =
  rd_used :: int
  rd_requests :: int
  rd_pages :: "(int \<times> string) list"
  rd_checks :: nat

text \<open>A step of the extraction on the reader; a failed step leaves what the reader counted.\<close>

type_synonym 'a reading = "reader \<Rightarrow> (index_error + 'a) \<times> reader"

definition rd_return :: "'a \<Rightarrow> 'a reading" where
  "rd_return x r = (Inr x, r)"

definition rd_fail :: "index_error \<Rightarrow> 'a reading" where
  "rd_fail e r = (Inl e, r)"

definition rd_bind :: "'a reading \<Rightarrow> ('a \<Rightarrow> 'b reading) \<Rightarrow> 'b reading" where
  "rd_bind m f r = (case m r of (Inl e, r') \<Rightarrow> (Inl e, r') | (Inr x, r') \<Rightarrow> f x r')"

definition rd_lift :: "index_error + 'a \<Rightarrow> 'a reading" where
  "rd_lift x r = (x, r)"

definition check_context :: "index_source \<Rightarrow> unit reading" where
  "check_context s r =
     (let r' = r\<lparr>rd_checks := Suc (rd_checks r)\<rparr>
      in case ix_context s (rd_checks r) of Some e \<Rightarrow> (Inl (ErrContext e), r') | None \<Rightarrow> (Inr (), r'))"

section \<open>The plan of a prefetch\<close>

text \<open>The pages of one wanted range that are neither known nor already missing.\<close>

function missing_pages :: "int \<Rightarrow> int list \<Rightarrow> int \<Rightarrow> int \<Rightarrow> int list \<Rightarrow> index_error + int list" where
  "missing_pages limit known stop p missing =
     (if stop \<le> p then Inr missing
      else (let missing' = (if p \<in> set known \<or> p \<in> set missing then missing else p # missing)
            in if limit + page_size < int (length missing') * page_size then Inl ErrLimit
               else if stop - p \<le> page_size then Inr missing'
               else missing_pages limit known stop (p + page_size) missing'))"
  by pat_completeness auto
termination
  by (relation "measure (\<lambda>(_, _, stop, p, _). nat (stop - p))") (auto simp: page_size_def)

declare missing_pages.simps [simp del]

fun wanted_pages :: "index_source \<Rightarrow> int list \<Rightarrow> interval list \<Rightarrow> int list \<Rightarrow> index_error + int list" where
  "wanted_pages s known [] missing = Inr missing"
| "wanted_pages s known ((start, stop) # ws) missing =
     (if start < 0 \<or> stop < start \<or> ix_size s < stop then Inl ErrIndex
      else if il_read_bytes (ix_limits s) < stop - start then Inl ErrLimit
      else (case missing_pages (il_read_bytes (ix_limits s)) known stop (start div page_size * page_size) missing of
              Inl e \<Rightarrow> Inl e
            | Inr missing' \<Rightarrow> wanted_pages s known ws missing'))"

text \<open>Pages at most 16 KiB apart become one range, up to 256 KiB; the last range comes first.\<close>

definition merge_page :: "int \<Rightarrow> interval list \<Rightarrow> int \<Rightarrow> interval list" where
  "merge_page whole ranges p =
     (let stop = p + min page_size (whole - p)
      in case ranges of
           (s, e) # rest \<Rightarrow>
             if p - e \<le> 16384 \<and> stop - s \<le> 262144 then (s, stop) # rest else (p, stop) # ranges
         | [] \<Rightarrow> [(p, stop)])"

definition merged_ranges :: "int \<Rightarrow> int list \<Rightarrow> interval list" where
  "merged_ranges whole positions = rev (foldl (merge_page whole) [] positions)"

definition range_bytes :: "interval list \<Rightarrow> int" where
  "range_bytes ws = sum_list (map (\<lambda>(s, e). e - s) ws)"

section \<open>The results of a prefetch\<close>

record fetched =
  ft_requests :: int
  ft_bytes :: string
  ft_err :: "index_error option"

definition failed_range :: "context_error option \<Rightarrow> index_error" where
  "failed_range ctx = (case ctx of Some e \<Rightarrow> ErrContext e | None \<Rightarrow> ErrSource)"

definition fetch_range :: "index_source \<Rightarrow> nat \<Rightarrow> interval \<Rightarrow> fetched" where
  "fetch_range s n w =
     (case ix_answer s n w of
        NotStarted e \<Rightarrow> \<lparr>ft_requests = 0, ft_bytes = [], ft_err = Some (ErrContext e)\<rparr>
      | OpenFails ctx \<Rightarrow> \<lparr>ft_requests = 1, ft_bytes = [], ft_err = Some (failed_range ctx)\<rparr>
      | Body content close_fails ctx \<Rightarrow>
          (let b = take (nat (snd w - fst w)) content
           in \<lparr>ft_requests = 1, ft_bytes = b,
               ft_err = (if int (length b) < snd w - fst w \<or> close_fails then Some (failed_range ctx) else None)\<rparr>))"

text \<open>\<open>for off := 0; off < len(b); off += pageSize { r.pages[w.start+off] = ... }\<close>\<close>

function store_pages :: "int \<Rightarrow> string \<Rightarrow> (int \<times> string) list \<Rightarrow> (int \<times> string) list" where
  "store_pages p b pages =
     (if b = [] then pages
      else store_pages (p + page_size) (drop 4096 b) (AList.update p (take 4096 b) pages))"
  by pat_completeness auto
termination
  by (relation "measure (\<lambda>(_, b, _). length b)") auto

declare store_pages.simps [simp del]

definition use_result :: "reader \<times> index_error option \<Rightarrow> interval \<times> fetched \<Rightarrow> reader \<times> index_error option" where
  "use_result acc result =
     (case acc of (r, failure) \<Rightarrow>
        (case result of (w, f) \<Rightarrow>
           (let r = r\<lparr>rd_requests := rd_requests r + ft_requests f, rd_used := rd_used r + int (length (ft_bytes f))\<rparr>
            in case ft_err f of
                 Some e \<Rightarrow> (r, if failure = None \<or> e = ErrSource then Some e else failure)
               | None \<Rightarrow> (r\<lparr>rd_pages := store_pages (fst w) (ft_bytes f) (rd_pages r)\<rparr>, failure))))"

definition dispatch_ranges :: "index_source \<Rightarrow> interval list \<Rightarrow> unit reading" where
  "dispatch_ranges s ranges r =
     (case foldl use_result (r, None) (map (\<lambda>w. (w, fetch_range s (rd_checks r) w)) ranges) of
        (r, failure) \<Rightarrow>
          rd_bind (check_context s) (\<lambda>_. case failure of Some e \<Rightarrow> rd_fail e | None \<Rightarrow> rd_return ()) r)"

definition prefetch :: "index_source \<Rightarrow> interval list \<Rightarrow> unit reading" where
  "prefetch s wanted =
     rd_bind (check_context s) (\<lambda>_ r.
       case wanted_pages s (map fst (rd_pages r)) wanted [] of
         Inl e \<Rightarrow> (Inl e, r)
       | Inr missing \<Rightarrow>
           if missing = [] then (Inr (), r)
           else (let ranges = merged_ranges (ix_size s) (sort missing)
                 in if il_read_bytes (ix_limits s) - rd_used r < range_bytes ranges
                       \<or> il_requests (ix_limits s) - rd_requests r < int (length ranges)
                    then (Inl ErrLimit, r)
                    else dispatch_ranges s ranges r))"

section \<open>Reading\<close>

text \<open>The copy loop of \<open>read\<close>: \<open>left\<close> bytes from \<open>pos\<close> on, page by page.\<close>

function copy_pages :: "(int \<times> string) list \<Rightarrow> int \<Rightarrow> nat \<Rightarrow> index_error + string" where
  "copy_pages pages pos left =
     (if left = 0 then Inr []
      else (let base = pos div page_size * page_size
            in case map_of pages base of
                 None \<Rightarrow> Inl ErrSource
               | Some page \<Rightarrow>
                   (let part = take left (drop (nat (pos - base)) page)
                    in if part = [] then Inl ErrSource
                       else map_sum id (\<lambda>rest. part @ rest)
                              (copy_pages pages (pos + int (length part)) (left - length part)))))"
  by pat_completeness auto
termination
  by (relation "measure (\<lambda>(_, _, left). left)") auto

declare copy_pages.simps [simp del]

definition read_range :: "index_source \<Rightarrow> int \<Rightarrow> int \<Rightarrow> string reading" where
  "read_range s offset len =
     rd_bind (check_context s) (\<lambda>_.
       if offset < 0 \<or> len < 0 \<or> ix_size s < offset \<or> ix_size s - offset < len then rd_fail ErrIndex
       else if il_read_bytes (ix_limits s) < len then rd_fail ErrLimit
       else if len = 0 then rd_return []
       else rd_bind (prefetch s [(offset, offset + len)]) (\<lambda>_ r. (copy_pages (rd_pages r) offset (nat len), r)))"

section \<open>Elements of the source\<close>

record element =
  el_id :: uint64
  el_start :: int
  el_end :: int
  el_unknown :: bool

text \<open>
  The header of an element from its first bytes; the sizes are \<open>uint64\<close>, the offsets \<open>int64\<close> with
  \<open>start \<le> boundary\<close>, which holds as the header was read before the boundary.
\<close>

definition element_header :: "int \<Rightarrow> int \<Rightarrow> string \<Rightarrow> index_error + element" where
  "element_header offset boundary b =
     (case vint b True of
        None \<Rightarrow> Inl ErrIndex
      | Some (i, n) \<Rightarrow>
          (case vint (drop n b) False of
             None \<Rightarrow> Inl ErrIndex
           | Some (sz, m) \<Rightarrow>
               (let start = offset + int (n + m);
                    unknown = (sz = unknown_size m);
                    sz = (if unknown then word_of_int (boundary - start) else sz)
                in if uint (word_of_int (boundary - start) :: uint64) < uint sz then Inl ErrIndex
                   else Inr \<lparr>el_id = i, el_start = start, el_end = start + sint sz, el_unknown = unknown\<rparr>)))"

definition read_element :: "index_source \<Rightarrow> int \<Rightarrow> int \<Rightarrow> element reading" where
  "read_element s offset boundary =
     (if offset < 0 \<or> boundary \<le> offset \<or> ix_size s < boundary then rd_fail ErrIndex
      else rd_bind (read_range s offset (min 12 (boundary - offset)))
             (\<lambda>b. rd_lift (element_header offset boundary b)))"

end
