(* ===== verification/Reader_Theorems.thy ===== *)
theory Reader_Theorems
  imports Index_Reader
begin

text \<open>
  The reader of pages: what every operation of it keeps, as a locale over any invariant that a
  prefetch keeps, its limits, and that a read gives the bytes of the source.
\<close>

named_theorems reads "readings keep an invariant of the reader"

section \<open>Readings\<close>

definition rd_keeps :: "(reader \<Rightarrow> bool) \<Rightarrow> 'a reading \<Rightarrow> bool" where
  "rd_keeps P m \<longleftrightarrow> (\<forall>r. P r \<longrightarrow> P (snd (m r)))"

lemma rd_keepsD: "rd_keeps P m \<Longrightarrow> P r \<Longrightarrow> P (snd (m r))"
  by (simp add: rd_keeps_def)

lemma rd_keeps_return [reads]: "rd_keeps P (rd_return x)"
  by (simp add: rd_keeps_def rd_return_def)

lemma rd_keeps_fail [reads]: "rd_keeps P (rd_fail e)"
  by (simp add: rd_keeps_def rd_fail_def)

lemma rd_keeps_lift [reads]: "rd_keeps P (rd_lift x)"
  by (simp add: rd_keeps_def rd_lift_def)

lemma rd_keeps_bind [reads]:
  "rd_keeps P m \<Longrightarrow> (\<And>x. rd_keeps P (f x)) \<Longrightarrow> rd_keeps P (rd_bind m f)"
  by (force simp: rd_keeps_def rd_bind_def split: prod.splits sum.splits)

lemma rd_keeps_if [reads]:
  "(b \<Longrightarrow> rd_keeps P m) \<Longrightarrow> (\<not> b \<Longrightarrow> rd_keeps P m') \<Longrightarrow> rd_keeps P (if b then m else m')"
  by simp

lemma rd_keeps_let [reads]: "(\<And>x. rd_keeps P (f x)) \<Longrightarrow> rd_keeps P (let x = y in f x)"
  by simp

lemma rd_keeps_option [reads]:
  "(x = None \<Longrightarrow> rd_keeps P m) \<Longrightarrow> (\<And>y. x = Some y \<Longrightarrow> rd_keeps P (f y)) \<Longrightarrow>
     rd_keeps P (case x of None \<Rightarrow> m | Some y \<Rightarrow> f y)"
  by (cases x) simp_all

lemma rd_keeps_prod [reads]: "(\<And>a b. rd_keeps P (f a b)) \<Longrightarrow> rd_keeps P (case x of (a, b) \<Rightarrow> f a b)"
  by (cases x) simp

lemma rd_bind_Inr:
  "rd_bind m f r = (Inr y, r'') \<longleftrightarrow> (\<exists>x r'. m r = (Inr x, r') \<and> f x r' = (Inr y, r''))"
  by (auto simp: rd_bind_def split: prod.splits sum.splits)

lemma rd_lift_Inr: "rd_lift x r = (Inr y, r') \<longleftrightarrow> x = Inr y \<and> r' = r"
  by (auto simp: rd_lift_def)

lemma rd_return_Inr: "rd_return x r = (Inr y, r') \<longleftrightarrow> y = x \<and> r' = r"
  by (auto simp: rd_return_def)

lemma rd_fail_Inr: "rd_fail e r \<noteq> (Inr y, r')"
  by (simp add: rd_fail_def)

lemmas rd_Inr = rd_bind_Inr rd_lift_Inr rd_return_Inr rd_fail_Inr

section \<open>What a prefetch keeps\<close>

text \<open>
  A plan that is dispatched. The contract of a reader's invariant, below: it does not depend on the count of checks, and using the
  answers for the ranges of a plan that fits the limits keeps it.
\<close>

definition range_ok :: "index_source \<Rightarrow> interval \<Rightarrow> bool" where
  "range_ok s w \<longleftrightarrow> 0 \<le> fst w \<and> fst w mod page_size = 0 \<and> fst w < snd w \<and> snd w \<le> ix_size s
     \<and> (snd w = ix_size s \<or> snd w mod page_size = 0)"

definition plan_fits :: "index_source \<Rightarrow> reader \<Rightarrow> interval list \<Rightarrow> bool" where
  "plan_fits s r ranges \<longleftrightarrow>
     range_bytes ranges \<le> il_read_bytes (ix_limits s) - rd_used r
       \<and> int (length ranges) \<le> il_requests (ix_limits s) - rd_requests r
       \<and> (\<forall>w \<in> set ranges. range_ok s w)"

definition use_answers :: "index_source \<Rightarrow> nat \<Rightarrow> interval list \<Rightarrow> reader \<times> index_error option \<Rightarrow> reader \<times> index_error option" where
  "use_answers s n ranges acc = foldl use_result acc (map (\<lambda>w. (w, fetch_range s n w)) ranges)"

text \<open>The pages of a plan are inside the source and start at multiples of the page size.\<close>

definition page_ok :: "index_source \<Rightarrow> int \<Rightarrow> bool" where
  "page_ok s p \<longleftrightarrow> 0 \<le> p \<and> p mod page_size = 0 \<and> p < ix_size s"

lemma missing_pages_ok:
  assumes "missing_pages limit known stop p missing = Inr missing'"
    and "0 \<le> p" and "p mod page_size = 0" and "stop \<le> ix_size s" and "list_all (page_ok s) missing"
  shows "list_all (page_ok s) missing'"
  using assms
proof (induction limit known stop p missing rule: missing_pages.induct)
  case (1 limit known stop p missing)
  let ?m = "if p \<in> set known \<or> p \<in> set missing then missing else p # missing"
  show ?case
  proof (cases "stop \<le> p")
    case False
    then have "page_ok s p" using "1.prems" by (simp add: page_ok_def)
    then have m: "list_all (page_ok s) ?m" using "1.prems" by simp
    have next_page: "0 \<le> p + page_size" "(p + page_size) mod page_size = 0"
      using "1.prems" by (simp_all add: page_size_def)
    from False "1.prems"(1) consider "missing' = ?m"
      | "\<not> limit + page_size < int (length ?m) * page_size" "\<not> stop - p \<le> page_size"
        "missing_pages limit known stop (p + page_size) ?m = Inr missing'"
      unfolding missing_pages.simps [of limit known stop p missing] Let_def
      by (cases "limit + page_size < int (length ?m) * page_size"; cases "stop - p \<le> page_size") simp_all
    then show ?thesis
    proof cases
      case 1
      with m show ?thesis by simp
    next
      case 2
      then show ?thesis using "1.IH" [OF False refl 2(1,2,3) next_page "1.prems"(4) m] by simp
    qed
  qed (use "1.prems" in \<open>simp add: missing_pages.simps\<close>)
qed

lemma wanted_pages_ok:
  "wanted_pages s known ws missing = Inr missing' \<Longrightarrow> list_all (page_ok s) missing \<Longrightarrow>
     list_all (page_ok s) missing'"
proof (induction s known ws missing rule: wanted_pages.induct)
  case (2 s known start stop ws missing)
  let ?limit = "il_read_bytes (ix_limits s)" and ?p = "start div page_size * page_size"
  obtain m where ok: "0 \<le> start" "stop \<le> ix_size s" "missing_pages ?limit known stop ?p missing = Inr m"
    "wanted_pages s known ws m = Inr missing'" "\<not> (start < 0 \<or> stop < start \<or> ix_size s < stop)" "\<not> ?limit < stop - start"
    using "2.prems"(1) by (auto split: if_splits sum.splits)
  have "list_all (page_ok s) m"
    by (rule missing_pages_ok [OF ok(3) _ _ ok(2) "2.prems"(2)]) (use ok(1) in \<open>simp_all add: page_size_def\<close>)
  then show ?case using "2.IH" [OF ok(5,6) ok(3,4)] by simp
qed simp

lemma merge_pages_ok:
  assumes "list_all (page_ok s) ps" and "sorted ps" and "list_all (range_ok s) ranges"
    and "\<forall>w \<in> set ranges. \<forall>p \<in> set ps. fst w \<le> p"
  shows "list_all (range_ok s) (foldl (merge_page (ix_size s)) ranges ps)"
  using assms
proof (induction ps arbitrary: ranges)
  case Nil
  then show ?case by simp
next
  case (Cons p ps)
  define stop where "stop = p + min page_size (ix_size s - p)"
  have p: "0 \<le> p" "p mod page_size = 0" "p < ix_size s" using Cons.prems(1) by (simp_all add: page_ok_def)
  then have stop: "p < stop" "stop \<le> ix_size s" "stop = ix_size s \<or> stop mod page_size = 0"
    by (auto simp: stop_def page_size_def min_def)
  have "list_all (range_ok s) (merge_page (ix_size s) ranges p) \<and>
      (\<forall>w \<in> set (merge_page (ix_size s) ranges p). \<forall>q \<in> set ps. fst w \<le> q)"
  proof (cases ranges)
    case Nil
    then show ?thesis using p stop Cons.prems(2) by (simp add: merge_page_def range_ok_def Let_def flip: stop_def)
  next
    case (Cons w rest)
    obtain a e where w: "w = (a, e)" by (cases w)
    have "a \<le> p" using Cons.prems(4) Cons w by simp
    then have "a < stop" using stop(1) by simp
    then have "range_ok s (a, stop)" using stop Cons.prems(3) Cons w by (simp add: range_ok_def)
    moreover have "range_ok s (p, stop)" using p stop by (simp add: range_ok_def)
    ultimately show ?thesis
      using Cons.prems Cons w by (auto simp: merge_page_def Let_def simp flip: stop_def)
  qed
  then show ?case using Cons.IH [of "merge_page (ix_size s) ranges p"] Cons.prems(1,2) by simp
qed

lemma merged_ranges_ok:
  assumes "list_all (page_ok s) missing"
  shows "\<forall>w \<in> set (merged_ranges (ix_size s) (sort missing)). range_ok s w"
proof -
  have "list_all (page_ok s) (sort missing)" using assms by (simp add: list_all_iff)
  then show ?thesis
    using merge_pages_ok [of s "sort missing" "[]"] by (simp add: merged_ranges_def list_all_iff)
qed

section \<open>The interface of an invariant\<close>

locale reader_invariant =
  fixes s :: index_source
    and holds :: "reader \<Rightarrow> bool"
  assumes checks_keep: "holds r \<Longrightarrow> holds (r\<lparr>rd_checks := n\<rparr>)"
    and answers_keep: "holds r \<Longrightarrow> plan_fits s r ranges \<Longrightarrow> holds (fst (use_answers s n ranges (r, None)))"
begin

lemma context_keeps [reads]: "rd_keeps holds (check_context s)"
  by (auto simp: rd_keeps_def check_context_def Let_def checks_keep split: option.splits)

lemma dispatch_keeps:
  assumes "holds r" and "plan_fits s r ranges"
  shows "holds (snd (dispatch_ranges s ranges r))"
proof -
  obtain r' failure where r': "use_answers s (rd_checks r) ranges (r, None) = (r', failure)"
    by (cases "use_answers s (rd_checks r) ranges (r, None)")
  have "holds r'" using answers_keep [OF assms, of "rd_checks r"] r' by simp
  moreover have "rd_keeps holds (rd_bind (check_context s) (\<lambda>_. case failure of Some e \<Rightarrow> rd_fail e | None \<Rightarrow> rd_return ()))"
    by (intro reads)
  ultimately show ?thesis
    using r' unfolding dispatch_ranges_def use_answers_def by (simp add: rd_keepsD)
qed

lemma prefetch_keeps [reads]: "rd_keeps holds (prefetch s wanted)"
  unfolding prefetch_def
proof (rule rd_keeps_bind)
  show "rd_keeps holds (\<lambda>r. case wanted_pages s (map fst (rd_pages r)) wanted [] of
      Inl e \<Rightarrow> (Inl e, r)
    | Inr missing \<Rightarrow>
        if missing = [] then (Inr (), r)
        else (let ranges = merged_ranges (ix_size s) (sort missing)
              in if il_read_bytes (ix_limits s) - rd_used r < range_bytes ranges
                    \<or> il_requests (ix_limits s) - rd_requests r < int (length ranges)
                 then (Inl ErrLimit, r) else dispatch_ranges s ranges r))"
    unfolding rd_keeps_def
  proof (intro allI impI)
    fix r assume "holds r"
    moreover have "plan_fits s r (merged_ranges (ix_size s) (sort missing))"
      if "wanted_pages s (map fst (rd_pages r)) wanted [] = Inr missing"
        and "range_bytes (merged_ranges (ix_size s) (sort missing)) \<le> il_read_bytes (ix_limits s) - rd_used r"
        and "int (length (merged_ranges (ix_size s) (sort missing))) \<le> il_requests (ix_limits s) - rd_requests r" for missing
      using merged_ranges_ok [OF wanted_pages_ok [OF that(1)]] that(2,3) by (simp add: plan_fits_def)
    ultimately show "holds (snd (case wanted_pages s (map fst (rd_pages r)) wanted [] of
        Inl e \<Rightarrow> (Inl e, r)
      | Inr missing \<Rightarrow>
          if missing = [] then (Inr (), r)
          else (let ranges = merged_ranges (ix_size s) (sort missing)
                in if il_read_bytes (ix_limits s) - rd_used r < range_bytes ranges
                      \<or> il_requests (ix_limits s) - rd_requests r < int (length ranges)
                   then (Inl ErrLimit, r) else dispatch_ranges s ranges r)))"
      by (auto simp: Let_def not_less dispatch_keeps split: sum.split)
  qed
qed (rule context_keeps)

lemma read_range_keeps [reads]: "rd_keeps holds (read_range s offset len)"
proof -
  have "rd_keeps holds (\<lambda>r. (copy_pages (rd_pages r) offset (nat len), r))" by (simp add: rd_keeps_def)
  then show ?thesis unfolding read_range_def by (intro reads)
qed

lemma read_element_keeps [reads]: "rd_keeps holds (read_element s offset boundary)"
  unfolding read_element_def by (intro reads)

end

section \<open>Limits are kept\<close>

definition within_limits :: "index_source \<Rightarrow> reader \<Rightarrow> bool" where
  "within_limits s r \<longleftrightarrow> 0 \<le> rd_used r \<and> rd_used r \<le> il_read_bytes (ix_limits s)
     \<and> 0 \<le> rd_requests r \<and> rd_requests r \<le> il_requests (ix_limits s)"

lemma fetched_bounds:
  "fst w \<le> snd w \<Longrightarrow> int (length (ft_bytes (fetch_range s n w))) \<le> snd w - fst w"
  "0 \<le> ft_requests (fetch_range s n w)"
  "ft_requests (fetch_range s n w) \<le> 1"
  by (auto simp: fetch_range_def Let_def split: range_answer.split)

lemma use_answers_counts:
  assumes "\<forall>w \<in> set ranges. range_ok s w"
  shows "rd_used r \<le> rd_used (fst (use_answers s n ranges (r, f)))
    \<and> rd_used (fst (use_answers s n ranges (r, f))) \<le> rd_used r + range_bytes ranges
    \<and> rd_requests r \<le> rd_requests (fst (use_answers s n ranges (r, f)))
    \<and> rd_requests (fst (use_answers s n ranges (r, f))) \<le> rd_requests r + int (length ranges)"
  using assms
proof (induction ranges arbitrary: r f)
  case Nil
  then show ?case by (simp add: use_answers_def range_bytes_def)
next
  case (Cons w ranges)
  obtain r' f' where step: "use_result (r, f) (w, fetch_range s n w) = (r', f')" by fastforce
  have "rd_used r' = rd_used r + int (length (ft_bytes (fetch_range s n w)))
      \<and> rd_requests r' = rd_requests r + ft_requests (fetch_range s n w)"
    using step by (auto simp: use_result_def Let_def split: option.splits)
  moreover have "fst w \<le> snd w" using Cons.prems by (simp add: range_ok_def)
  moreover have "use_answers s n (w # ranges) (r, f) = use_answers s n ranges (r', f')"
    using step by (simp add: use_answers_def)
  ultimately show ?case
    using Cons.IH [of r' f'] Cons.prems fetched_bounds [where w = w and s = s and n = n]
    by (auto simp: range_bytes_def case_prod_beta)
qed

interpretation budget: reader_invariant s "within_limits s" for s
proof
  fix r ranges n
  assume "within_limits s r" and fits: "plan_fits s r ranges"
  then show "within_limits s (fst (use_answers s n ranges (r, None)))"
    using use_answers_counts [of ranges s r n None] by (simp add: within_limits_def plan_fits_def)
qed (simp add: within_limits_def)

section \<open>Pages are the source's\<close>

text \<open>
  What the adapter behind \<open>Open\<close> promises: a body holds bytes of the file \<open>f\<close> from the start of the
  range on, perhaps too few or more than were asked for.
\<close>

definition serves :: "index_source \<Rightarrow> string \<Rightarrow> bool" where
  "serves s f \<longleftrightarrow> ix_size s = int (length f) \<and>
     (\<forall>n a e content fails ctx. ix_answer s n (a, e) = Body content fails ctx \<longrightarrow>
        prefix (take (nat (e - a)) content) (drop (nat a) f))"

definition pages_match :: "index_source \<Rightarrow> string \<Rightarrow> (int \<times> string) list \<Rightarrow> bool" where
  "pages_match s f pages \<longleftrightarrow>
     (\<forall>p b. map_of pages p = Some b \<longrightarrow> page_ok s p \<and> b = take 4096 (drop (nat p) f))"

lemma store_pages_match:
  assumes "pages_match s f pages" and "ix_size s = int (length f)" and "0 \<le> p" and "p mod page_size = 0"
    and "b = take k (drop (nat p) f)" and "k mod 4096 = 0 \<or> length f - nat p \<le> k"
  shows "pages_match s f (store_pages p b pages)"
  using assms
proof (induction p b pages arbitrary: k rule: store_pages.induct)
  case (1 p b pages)
  show ?case
  proof (cases "b = []")
    case False
    then have inside: "nat p < length f" "k \<noteq> 0" using "1.prems"(5) by auto
    have whole: "take 4096 b = take 4096 (drop (nat p) f)"
    proof (cases "k mod 4096 = 0")
      case True
      then have "4096 \<le> k" using inside by (auto elim: dvdE simp: mod_eq_0_iff_dvd)
      then show ?thesis using "1.prems"(5) by (simp add: min_def)
    next
      case False
      then show ?thesis using "1.prems"(5,6) by simp
    qed
    have pages: "pages_match s f (AList.update p (take 4096 b) pages)"
      using "1.prems"(1-4) inside(1) unfolding whole
      by (auto simp: pages_match_def update_conv page_ok_def)
    have rest: "drop 4096 b = take (k - 4096) (drop (nat (p + page_size)) f)"
      using "1.prems"(3,5) by (simp add: drop_take page_size_def nat_add_distrib add.commute)
    have "(k - 4096) mod 4096 = 0 \<or> length f - nat (p + page_size) \<le> k - 4096"
    proof (cases "k mod 4096 = 0")
      case True
      then show ?thesis by (auto simp: mod_eq_0_iff_dvd intro: dvd_diff_nat)
    next
      case False
      then have "length f - nat p \<le> k" using "1.prems"(6) by simp
      then have "length f - (nat p + 4096) \<le> k - 4096" by linarith
      then show ?thesis using "1.prems"(3) by (simp add: page_size_def nat_add_distrib)
    qed
    then show ?thesis
      using "1.IH" [OF False pages "1.prems"(2) _ _ rest] "1.prems"(3,4) False
      by (simp add: store_pages.simps [of p b pages] page_size_def)
  qed (use "1.prems" in \<open>simp add: store_pages.simps\<close>)
qed

lemma fetched_is_the_source:
  assumes "serves s f" and "range_ok s w" and "ft_err (fetch_range s n w) = None"
  shows "ft_bytes (fetch_range s n w) = take (nat (snd w - fst w)) (drop (nat (fst w)) f)"
proof -
  obtain a e where w: "w = (a, e)" by (cases w)
  obtain content fails ctx where body: "ix_answer s n (a, e) = Body content fails ctx"
    and bytes: "ft_bytes (fetch_range s n w) = take (nat (e - a)) content"
    and full: "int (length (take (nat (e - a)) content)) \<ge> e - a"
    using assms(3) w by (auto simp: fetch_range_def Let_def not_less split: range_answer.splits if_splits)
  have "prefix (take (nat (e - a)) content) (drop (nat a) f)"
    using assms(1) body unfolding serves_def by blast
  then obtain rest where "drop (nat a) f = take (nat (e - a)) content @ rest" by (auto simp: prefix_def)
  moreover have "length (take (nat (e - a)) content) = nat (e - a)" using full by simp
  ultimately have "take (nat (e - a)) (drop (nat a) f) = take (nat (e - a)) content" by simp
  then show ?thesis unfolding w fst_conv snd_conv using bytes w by metis
qed

lemma use_answers_match:
  assumes "serves s f" and "\<forall>w \<in> set ranges. range_ok s w" and "pages_match s f (rd_pages r)"
  shows "pages_match s f (rd_pages (fst (use_answers s n ranges (r, failure))))"
  using assms(2,3)
proof (induction ranges arbitrary: r failure)
  case Nil
  then show ?case by (simp add: use_answers_def)
next
  case (Cons w ranges)
  obtain r' f' where step: "use_result (r, failure) (w, fetch_range s n w) = (r', f')" by fastforce
  have w: "range_ok s w" using Cons.prems(1) by simp
  have size: "ix_size s = int (length f)" using assms(1) by (simp add: serves_def)
  have "pages_match s f (rd_pages r')"
  proof (cases "ft_err (fetch_range s n w)")
    case None
    have whole: "nat (snd w - fst w) mod 4096 = 0 \<or> length f - nat (fst w) \<le> nat (snd w - fst w)"
    proof (cases "snd w = ix_size s")
      case True
      then have "length f - nat (fst w) \<le> nat (snd w - fst w)" using w size unfolding range_ok_def by linarith
      then show ?thesis ..
    next
      case False
      then have "(snd w - fst w) mod 4096 = 0"
        using w by (auto simp: range_ok_def page_size_def mod_diff_eq [symmetric])
      moreover have "nat ((snd w - fst w) mod 4096) = nat (snd w - fst w) mod nat 4096"
        by (rule nat_mod_distrib) (use w in \<open>simp_all add: range_ok_def\<close>)
      ultimately show ?thesis by simp
    qed
    have "pages_match s f (store_pages (fst w) (ft_bytes (fetch_range s n w)) (rd_pages r))"
      by (rule store_pages_match [OF Cons.prems(2) size _ _ fetched_is_the_source [OF assms(1) w None] whole])
        (use w in \<open>simp_all add: range_ok_def\<close>)
    with step None show ?thesis by (auto simp: use_result_def Let_def)
  next
    case (Some e)
    with step Cons.prems(2) show ?thesis by (auto simp: use_result_def Let_def)
  qed
  moreover have "use_answers s n (w # ranges) (r, failure) = use_answers s n ranges (r', f')"
    using step by (simp add: use_answers_def)
  ultimately show ?case using Cons.IH [of r' f'] Cons.prems(1) by simp
qed

interpretation content: reader_invariant s "\<lambda>r. serves s f \<longrightarrow> pages_match s f (rd_pages r)" for s f
  by unfold_locales (auto simp: plan_fits_def use_answers_match)

lemma copy_pages_source:
  assumes "pages_match s f pages" and "copy_pages pages pos left = Inr b" and "0 \<le> pos"
  shows "b = take left (drop (nat pos) f) \<and> length b = left"
  using assms
proof (induction pages pos left arbitrary: b rule: copy_pages.induct)
  case (1 pages pos left)
  note pages = "1.prems"(1)
  show ?case
  proof (cases "left = 0")
    case True
    then show ?thesis using 1 by (simp add: copy_pages.simps)
  next
    case False
    define base where "base = pos div page_size * page_size"
    obtain page where page: "map_of pages base = Some page"
      using "1.prems"(2) False by (cases "map_of pages base") (simp_all add: copy_pages.simps [of pages pos left] base_def Let_def)
    define part where "part = take left (drop (nat (pos - base)) page)"
    have step: "copy_pages pages pos left =
        (if part = [] then Inl ErrSource
         else map_sum id (\<lambda>rest. part @ rest) (copy_pages pages (pos + int (length part)) (left - length part)))"
      using False page by (simp add: copy_pages.simps [of pages pos left] base_def part_def Let_def)
    have part: "part \<noteq> []" using "1.prems"(2) step by auto
    obtain rest where rest: "copy_pages pages (pos + int (length part)) (left - length part) = Inr rest"
      and b: "b = part @ rest"
      using "1.prems"(2) part unfolding step
      by (cases "copy_pages pages (pos + int (length part)) (left - length part)") auto
    have "0 \<le> pos + int (length part)" using "1.prems"(3) by simp
    note IH = "1.IH" [OF False base_def page part_def part pages rest this]
    have base: "0 \<le> base" "base \<le> pos" "pos < base + 4096"
      using "1.prems"(3) by (simp_all add: base_def page_size_def)
    have "page = take 4096 (drop (nat base) f)" using pages page unfolding pages_match_def by blast
    then have "part = take left (take (4096 - nat (pos - base)) (drop (nat base + nat (pos - base)) f))"
      by (simp add: part_def drop_take add.commute)
    moreover have "nat base + nat (pos - base) = nat pos" using base by simp
    ultimately have eq: "part = take (min left (4096 - nat (pos - base))) (drop (nat pos) f)" by simp
    then have "part = take (length part) (drop (nat pos) f)" by (metis append_eq_conv_conj append_take_drop_id)
    moreover have "length part \<le> left" by (simp add: part_def)
    moreover have "nat (pos + int (length part)) = length part + nat pos" using "1.prems"(3) by simp
    ultimately have "part @ rest = take left (drop (nat pos) f)"
      using IH by (metis add_diff_inverse_nat drop_drop linorder_not_less take_add)
    moreover have "length (part @ rest) = left"
      unfolding length_append conjunct2 [OF IH] using \<open>length part \<le> left\<close> by (rule le_add_diff_inverse)
    ultimately show ?thesis using b by simp
  qed
qed

text \<open>
  A read that succeeds gives exactly the bytes of the file it was asked for, as many as were asked
  for, when the adapter behind \<open>Open\<close> serves the file and the pages kept so far are the file's; the
  pages are the file's afterwards too.
\<close>

lemma read_range_source:
  assumes "serves s f" and "pages_match s f (rd_pages r)" and "read_range s offset len r = (Inr b, r')"
  shows "0 \<le> offset \<and> 0 \<le> len \<and> offset + len \<le> ix_size s \<and> b = take (nat len) (drop (nat offset) f)
    \<and> int (length b) = len \<and> pages_match s f (rd_pages r')"
proof -
  let ?checked = "if offset < 0 \<or> len < 0 \<or> ix_size s < offset \<or> ix_size s - offset < len then rd_fail ErrIndex
       else if il_read_bytes (ix_limits s) < len then rd_fail ErrLimit
       else if len = 0 then rd_return []
       else rd_bind (prefetch s [(offset, offset + len)]) (\<lambda>_ r. (copy_pages (rd_pages r) offset (nat len), r))"
  obtain r1 where r1: "?checked r1 = (Inr b, r')"
    using assms(3) unfolding read_range_def rd_bind_Inr by blast
  have inside: "0 \<le> offset" "0 \<le> len" "offset + len \<le> ix_size s"
    using r1 by (auto simp: rd_Inr split: if_splits)
  have pages: "pages_match s f (rd_pages r')"
    using rd_keepsD [OF content.read_range_keeps, of s f r offset len] assms by simp
  show ?thesis
  proof (cases "len = 0")
    case True
    then show ?thesis using r1 inside pages by (auto simp: rd_Inr split: if_splits)
  next
    case False
    then have "copy_pages (rd_pages r') offset (nat len) = Inr b"
      using r1 by (auto simp: rd_Inr split: if_splits)
    note b = copy_pages_source [OF pages this inside(1)]
    then have "int (length b) = int (nat len)" by (rule arg_cong [OF conjunct2])
    then have "int (length b) = len" using inside(2) by simp
    then show ?thesis using conjunct1 [OF b] inside pages by (intro conjI)
  qed
qed

end
