(* ===== verification/Matroska.thy ===== *)
theory Matroska
  imports Index_Reader Http_Values
begin

text \<open>
  \<open>internal/subtitleindex/matroska.go\<close>: the extraction of an indexed text subtitle from a Matroska
  file. The seek head gives the positions of the headers, the tracks name the stream, its cues
  locate one block per subtitle; the blocks are read in batches, checked against their cues and
  written as WebVTT.
\<close>

section \<open>Names\<close>

definition normalize_codec :: "string \<Rightarrow> string" where
  "normalize_codec codec =
     (if to_lower codec \<in> {''srt'', ''subrip'', ''s_text/utf8''} then ''subrip'' else to_lower codec)"

definition normalize_language :: "string \<Rightarrow> string" where
  "normalize_language language =
     (let l = to_lower language
      in if l \<in> {''en'', ''eng''} then ''eng''
         else if l \<in> {''zh'', ''chi'', ''zho''} then ''zho''
         else if l \<in> {''ja'', ''jpn''} then ''jpn''
         else if l \<in> {''ko'', ''kor''} then ''kor''
         else if l \<in> {''fr'', ''fre'', ''fra''} then ''fra''
         else if l \<in> {''de'', ''ger'', ''deu''} then ''deu''
         else if l \<in> {''es'', ''spa''} then ''spa''
         else if l \<in> {''und'', ''''} then ''und''
         else l)"

section \<open>WebVTT\<close>

fun decimal_digits :: "nat \<Rightarrow> string" where
  "decimal_digits n =
     (if n < 10 then [char_of (48 + n)] else decimal_digits (n div 10) @ [char_of (48 + n mod 10)])"

declare decimal_digits.simps [simp del]

definition padded :: "nat \<Rightarrow> nat \<Rightarrow> string" where
  "padded width n = (let d = decimal_digits n in replicate (width - length d) (CHR ''0'') @ d)"

text \<open>\<open>%02d:%02d:%02d.%03d\<close> of a time that is not negative.\<close>

definition clock :: "int \<Rightarrow> string" where
  "clock ms =
     (let n = nat ms
      in padded 2 (n div 3600000) @ '':'' @ padded 2 (n div 60000 mod 60) @ '':'' @
         padded 2 (n div 1000 mod 60) @ ''.'' @ padded 3 (n mod 1000))"

definition newline :: char where "newline = CHR 0x0A"

definition escape_byte :: "char \<Rightarrow> string" where
  "escape_byte c =
     (if c = CHR ''&'' then ''&amp;'' else if c = CHR ''<'' then ''&lt;'' else if c = CHR ''>'' then ''&gt;'' else [c])"

definition zero_width :: string where "zero_width = [CHR 0xE2, CHR 0x80, CHR 0x8B]"

definition vtt_text :: "string \<Rightarrow> string" where
  "vtt_text s =
     (let s = replace_all [CHR 0x0D] [newline] (replace_all [CHR 0x0D, newline] [newline] s);
          s = concat (map escape_byte (trim_space s))
      in join_with [newline] (map (\<lambda>l. if trim_space l = [] then zero_width else l) (split_char newline s)))"

section \<open>Tracks\<close>

record track =
  tk_index :: int
  tk_codec :: string
  tk_language :: string

record track_entry =
  te_number :: uint64
  te_kind :: uint64
  te_codec :: string
  te_language :: string
  te_unsupported :: bool
  te_fields :: "uint64 list"

definition visit_track_field :: "track_entry \<Rightarrow> uint64 \<Rightarrow> string \<Rightarrow> index_error + track_entry" where
  "visit_track_field t i b =
     (let single = (i \<in> {0xd7, 0x83, 0x86, 0x22b59c, 0x22b59d})
      in if single \<and> i \<in> set (te_fields t) then Inl ErrIndex
         else (let t = (if single then t\<lparr>te_fields := i # te_fields t\<rparr> else t)
               in if i = 0xd7 then map_sum id (\<lambda>v. t\<lparr>te_number := v\<rparr>) (unsigned_integer b)
                  else if i = 0x83 then map_sum id (\<lambda>v. t\<lparr>te_kind := v\<rparr>) (unsigned_integer b)
                  else if i = 0x86 then Inr (t\<lparr>te_codec := b\<rparr>)
                  else if i = 0x22b59c then
                    Inr (if 0x22b59d \<in> set (te_fields t) then t else t\<lparr>te_language := b\<rparr>)
                  else if i = 0x22b59d then Inr (t\<lparr>te_language := b\<rparr>)
                  else if i \<in> {0x6d80, 0x23314f, 0x537f, 0x56aa} then Inr (t\<lparr>te_unsupported := True\<rparr>)
                  else Inr t))"

record selection =
  sl_chosen :: uint64
  sl_ordinal :: int
  sl_seen :: "uint64 list"

definition visit_track :: "track \<Rightarrow> selection \<Rightarrow> uint64 \<Rightarrow> string \<Rightarrow> index_error + selection" where
  "visit_track want sel i b =
     (if i \<noteq> 0xae then Inr sel
      else (let index = sl_ordinal sel; sel = sel\<lparr>sl_ordinal := sl_ordinal sel + 1\<rparr>
            in if 1024 < sl_ordinal sel then Inl ErrLimit
               else (case children visit_track_field b
                       \<lparr>te_number = 0, te_kind = 0, te_codec = [], te_language = [], te_unsupported = False, te_fields = []\<rparr> of
                       Inl e \<Rightarrow> Inl e
                     | Inr t \<Rightarrow>
                         if te_number t = 0 \<or> te_number t \<in> set (sl_seen sel) \<or> te_kind t = 0 then Inl ErrIndex
                         else (let sel = sel\<lparr>sl_seen := te_number t # sl_seen sel\<rparr>
                               in if index = tk_index want then
                                    (if te_kind t \<noteq> 17 \<or> te_codec t \<noteq> ''S_TEXT/UTF8'' \<or> te_unsupported t then Inl ErrUnsupported
                                     else if tk_language want \<noteq> [] \<and> te_language t \<noteq> []
                                       \<and> normalize_language (tk_language want) \<noteq> normalize_language (te_language t) then Inl ErrIndex
                                     else Inr (sel\<lparr>sl_chosen := te_number t\<rparr>))
                                  else Inr sel))))"

definition select_track :: "string \<Rightarrow> track \<Rightarrow> index_error + uint64" where
  "select_track b want =
     (case children (visit_track want) b \<lparr>sl_chosen = 0, sl_ordinal = 0, sl_seen = []\<rparr> of
        Inl e \<Rightarrow> Inl e
      | Inr sel \<Rightarrow> if sl_chosen sel = 0 then Inl ErrIndex else Inr (sl_chosen sel))"

section \<open>Cues\<close>

record cue =
  cu_cluster :: uint64
  cu_relative :: uint64
  cu_time :: uint64
  cu_duration :: uint64

text \<open>A cue point: its time, when one was read, and the bodies of its positions.\<close>

definition visit_point :: "uint64 option \<times> string list \<Rightarrow> uint64 \<Rightarrow> string \<Rightarrow> index_error + (uint64 option \<times> string list)" where
  "visit_point p i b =
     (case p of (time, positions) \<Rightarrow>
        if i = 0xb3 then
          (if time \<noteq> None then Inl ErrIndex else map_sum id (\<lambda>t. (Some t, positions)) (unsigned_integer b))
        else if i = 0xb7 then
          (if 1024 < length positions + 1 then Inl ErrLimit else Inr (time, positions @ [b]))
        else Inr p)"

definition visit_position :: "(uint64 \<times> uint64) list \<Rightarrow> uint64 \<Rightarrow> string \<Rightarrow> index_error + (uint64 \<times> uint64) list" where
  "visit_position vals i b =
     (if i \<notin> {0xf7, 0xf1, 0xf0, 0xb2} then Inr vals
      else if map_of vals i \<noteq> None then Inl ErrIndex
      else map_sum id (\<lambda>v. (i, v) # vals) (unsigned_integer b))"

definition cue_field :: "(uint64 \<times> uint64) list \<Rightarrow> uint64 \<Rightarrow> uint64" where
  "cue_field vals i = (case map_of vals i of Some v \<Rightarrow> v | None \<Rightarrow> 0)"

definition add_cue ::
  "uint64 \<Rightarrow> int \<Rightarrow> int \<Rightarrow> uint64 \<Rightarrow> uint64 \<Rightarrow> cue list \<Rightarrow> string \<Rightarrow> index_error + cue list" where
  "add_cue number max_cues segment_size scale time cues b =
     (case children visit_position b [] of
        Inl e \<Rightarrow> Inl e
      | Inr vals \<Rightarrow>
          if cue_field vals 0xf7 \<noteq> number then Inr cues
          else if map_of vals 0xf1 = None \<or> map_of vals 0xf0 = None \<or> map_of vals 0xb2 = None then Inl ErrIndex
          else (let c = \<lparr>cu_cluster = cue_field vals 0xf1, cu_relative = cue_field vals 0xf0, cu_time = time,
                         cu_duration = cue_field vals 0xb2\<rparr>
                in if word_of_int segment_size \<le> cu_cluster c \<or> word_of_int segment_size \<le> cu_relative c
                      \<or> cu_duration c = 0 \<or> NOT 0 - cu_time c < cu_duration c then Inl ErrIndex
                   else (case milliseconds (cu_time c + cu_duration c) scale of
                           Inl e \<Rightarrow> Inl e
                         | Inr _ \<Rightarrow>
                             if \<exists>c' \<in> set cues. cu_cluster c' = cu_cluster c \<and> cu_relative c' = cu_relative c then Inl ErrIndex
                             else if max_cues < int (length cues + 1) then Inl ErrLimit
                             else Inr (cues @ [c]))))"

fun add_cues ::
  "uint64 \<Rightarrow> int \<Rightarrow> int \<Rightarrow> uint64 \<Rightarrow> uint64 \<Rightarrow> string list \<Rightarrow> cue list \<Rightarrow> index_error + cue list" where
  "add_cues number max_cues segment_size scale time [] cues = Inr cues"
| "add_cues number max_cues segment_size scale time (b # bs) cues =
     (case add_cue number max_cues segment_size scale time cues b of
        Inl e \<Rightarrow> Inl e
      | Inr cues' \<Rightarrow> add_cues number max_cues segment_size scale time bs cues')"

text \<open>The state of the walk over the cue points: their number and the cues of the track.\<close>

definition visit_cue ::
  "uint64 \<Rightarrow> int \<Rightarrow> int \<Rightarrow> uint64 \<Rightarrow> int \<times> cue list \<Rightarrow> uint64 \<Rightarrow> string \<Rightarrow> index_error + (int \<times> cue list)" where
  "visit_cue number max_cues segment_size scale st i b =
     (case st of (points, cues) \<Rightarrow>
        if i \<noteq> 0xbb then Inr st
        else if 200000 < points + 1 then Inl ErrLimit
        else (case children visit_point b (None, []) of
                Inl e \<Rightarrow> Inl e
              | Inr (None, _) \<Rightarrow> Inl ErrIndex
              | Inr (Some time, positions) \<Rightarrow>
                  map_sum id (\<lambda>cues'. (points + 1, cues'))
                    (add_cues number max_cues segment_size scale time positions cues)))"

definition read_cues :: "string \<Rightarrow> uint64 \<Rightarrow> int \<Rightarrow> int \<Rightarrow> uint64 \<Rightarrow> index_error + cue list" where
  "read_cues b number max_cues segment_size scale =
     (case children (visit_cue number max_cues segment_size scale) b (0, []) of
        Inl e \<Rightarrow> Inl e
      | Inr (_, cues) \<Rightarrow> if cues = [] then Inl ErrIndex else Inr cues)"

section \<open>Packets\<close>

record block_group =
  bg_block :: "string option"
  bg_duration :: "uint64 option"

definition visit_block :: "block_group \<Rightarrow> uint64 \<Rightarrow> string \<Rightarrow> index_error + block_group" where
  "visit_block g i b =
     (if i = 0xa1 then (if bg_block g \<noteq> None then Inl ErrIndex else Inr (g\<lparr>bg_block := Some b\<rparr>))
      else if i = 0x9b then
        (if bg_duration g \<noteq> None then Inl ErrIndex
         else map_sum id (\<lambda>d. g\<lparr>bg_duration := Some d\<rparr>) (unsigned_integer b))
      else if i \<in> {0xfb, 0x75a1, 0xa4, 0x75a2} then Inl ErrUnsupported
      else Inr g)"

text \<open>\<open>int64(int16(binary.BigEndian.Uint16(b)))\<close>\<close>

definition big_endian_int16 :: "char \<Rightarrow> char \<Rightarrow> int" where
  "big_endian_int16 a b = sint (word_of_int (256 * of_char a + of_char b) :: 16 word)"

definition read_packet :: "string \<Rightarrow> uint64 \<Rightarrow> cue \<Rightarrow> uint64 \<Rightarrow> index_error + string" where
  "read_packet b number c cluster_time =
     (case children visit_block b \<lparr>bg_block = None, bg_duration = None\<rparr> of
        Inl e \<Rightarrow> Inl e
      | Inr g \<Rightarrow>
          if bg_duration g \<noteq> Some (cu_duration c) then Inl ErrIndex
          else (let block = (case bg_block g of Some x \<Rightarrow> x | None \<Rightarrow> [])
                in case vint block False of
                     None \<Rightarrow> Inl ErrIndex
                   | Some (actual, n) \<Rightarrow>
                       if length block < n + 3 then Inl ErrIndex
                       else if actual \<noteq> number then Inl ErrIndex
                       else if byte_word (block ! (n + 2)) AND 6 \<noteq> 0 then Inl ErrUnsupported
                       else (let relative = big_endian_int16 (block ! n) (block ! (n + 1));
                                 moment = wrap64 (sint cluster_time + relative);
                                 text = drop (n + 3) block
                             in if word_of_int max_int64 < cluster_time \<or> moment < 0 \<or> word_of_int moment \<noteq> cu_time c then Inl ErrIndex
                                else if \<not> valid_utf8 text \<or> CHR 0x00 \<in> set text then Inl ErrUnsupported
                                else Inr text)))"

end
