(* ===== verification/Subtitle_Extraction.thy ===== *)
theory Subtitle_Extraction
  imports Matroska
begin

text \<open>
  \<open>internal/subtitleindex/matroska.go\<close>: \<open>locate\<close>, \<open>clusterTime\<close>, \<open>extractMatroska\<close> and \<open>Extract\<close>.
  The bounded loops over elements (4 at the top of the file, 32 in the segment, 16 in a cluster)
  recurse over their bound.
\<close>

section \<open>Positions of the headers\<close>

definition id_segment :: uint64 where "id_segment = 0x18538067"
definition id_seek_head :: uint64 where "id_seek_head = 0x114d9b74"
definition id_info :: uint64 where "id_info = 0x1549a966"
definition id_tracks :: uint64 where "id_tracks = 0x1654ae6b"
definition id_cues :: uint64 where "id_cues = 0x1c53bb6b"
definition id_cluster :: uint64 where "id_cluster = 0x1f43b675"

definition el_size :: "element \<Rightarrow> int" where
  "el_size e = el_end e - el_start e"

fun find_segment :: "index_source \<Rightarrow> nat \<Rightarrow> int \<Rightarrow> element reading" where
  "find_segment s 0 off = rd_fail ErrIndex"
| "find_segment s (Suc n) off =
     (if ix_size s \<le> off then rd_fail ErrIndex
      else rd_bind (read_element s off (ix_size s)) (\<lambda>e.
        if el_id e = id_segment then rd_return e
        else if el_unknown e then rd_fail ErrIndex
        else find_segment s n (el_end e)))"

type_synonym positions = "(uint64 \<times> int) list"

definition visit_seek_field ::
  "uint64 option \<times> uint64 option \<Rightarrow> uint64 \<Rightarrow> string \<Rightarrow> index_error + (uint64 option \<times> uint64 option)" where
  "visit_seek_field st i b =
     (case st of (target, pos) \<Rightarrow>
        if i \<noteq> 0x53ab \<and> i \<noteq> 0x53ac then Inr st
        else (case unsigned_integer b of
                Inl e \<Rightarrow> Inl e
              | Inr v \<Rightarrow>
                  if i = 0x53ab then (if target \<noteq> None then Inl ErrIndex else Inr (Some v, pos))
                  else (if pos \<noteq> None then Inl ErrIndex else Inr (target, Some v))))"

definition visit_seek :: "element \<Rightarrow> positions \<Rightarrow> uint64 \<Rightarrow> string \<Rightarrow> index_error + positions" where
  "visit_seek segment found i b =
     (if i \<noteq> 0x4dbb then Inr found
      else (case children visit_seek_field b (None, None) of
              Inl e \<Rightarrow> Inl e
            | Inr (Some target, Some pos) \<Rightarrow>
                if word_of_int (el_size segment) \<le> pos then Inl ErrIndex
                else (let p = el_start segment + sint pos
                      in if map_of found target \<noteq> None \<and> map_of found target \<noteq> Some p then Inl ErrIndex
                         else Inr (AList.update target p found))
            | Inr _ \<Rightarrow> Inl ErrIndex))"

definition read_seek_head :: "index_source \<Rightarrow> element \<Rightarrow> element \<Rightarrow> positions \<Rightarrow> positions reading" where
  "read_seek_head s segment e found =
     (if el_unknown e then rd_fail ErrIndex
      else if 1048576 < el_size e then rd_fail ErrLimit
      else rd_bind (read_range s (el_start e) (el_size e)) (\<lambda>b. rd_lift (children (visit_seek segment) b found)))"

fun scan_segment :: "index_source \<Rightarrow> element \<Rightarrow> nat \<Rightarrow> int \<Rightarrow> positions \<Rightarrow> positions reading" where
  "scan_segment s segment 0 off found = rd_return found"
| "scan_segment s segment (Suc n) off found =
     (if el_end segment \<le> off then rd_return found
      else rd_bind (read_element s off (el_end segment)) (\<lambda>e.
        (let found = AList.update (el_id e) off found
         in rd_bind (if el_id e = id_seek_head then read_seek_head s segment e found else rd_return found) (\<lambda>found.
              if el_id e = id_cluster then rd_return found
              else if el_unknown e then rd_fail ErrIndex
              else scan_segment s segment n (el_end e) found))))"

definition locate :: "index_source \<Rightarrow> (element \<times> positions) reading" where
  "locate s =
     rd_bind (find_segment s 4 0) (\<lambda>segment.
       rd_bind (scan_segment s segment 32 (el_start segment) []) (\<lambda>found. rd_return (segment, found)))"

text \<open>The closure \<open>load\<close>, with the bytes of metadata it has counted.\<close>

definition load_header ::
  "index_source \<Rightarrow> element \<Rightarrow> positions \<Rightarrow> int \<Rightarrow> uint64 \<Rightarrow> (string \<times> int) reading" where
  "load_header s segment found loaded i =
     (case map_of found i of
        None \<Rightarrow> rd_fail ErrIndex
      | Some pos \<Rightarrow>
          rd_bind (read_element s pos (el_end segment)) (\<lambda>e.
            if el_id e \<noteq> i \<or> el_unknown e then rd_fail ErrIndex
            else if 25165824 - loaded < el_size e then rd_fail ErrLimit
            else rd_bind (read_range s (el_start e) (el_size e)) (\<lambda>b. rd_return (b, loaded + el_size e))))"

definition visit_info :: "uint64 \<Rightarrow> uint64 \<Rightarrow> string \<Rightarrow> index_error + uint64" where
  "visit_info scale i b =
     (if i = 0x2ad7b1 then unsigned_integer b
      else if i = 0x3cb923 \<or> i = 0x3eb923 then Inl ErrUnsupported
      else Inr scale)"

section \<open>Clusters and blocks\<close>

fun scan_cluster :: "index_source \<Rightarrow> element \<Rightarrow> nat \<Rightarrow> int \<Rightarrow> uint64 reading" where
  "scan_cluster s cluster 0 off = rd_fail ErrIndex"
| "scan_cluster s cluster (Suc n) off =
     (if el_end cluster \<le> off then rd_fail ErrIndex
      else if 4096 < off - el_start cluster then rd_fail ErrIndex
      else rd_bind (read_element s off (el_end cluster)) (\<lambda>e.
        if el_unknown e then rd_fail ErrIndex
        else if el_id e = 0xe7 then
          (if 8 < el_size e then rd_fail ErrIndex
           else rd_bind (read_range s (el_start e) (el_size e)) (\<lambda>b. rd_lift (unsigned_integer b)))
        else scan_cluster s cluster n (el_end e)))"

definition cluster_time :: "index_source \<Rightarrow> element \<Rightarrow> uint64 reading" where
  "cluster_time s cluster = scan_cluster s cluster 16 (el_start cluster)"

record location =
  lo_cluster :: element
  lo_timestamp :: uint64
  lo_offset :: int

fun locate_cues :: "index_source \<Rightarrow> element \<Rightarrow> cue list \<Rightarrow> (int \<times> uint64) list \<Rightarrow> location list reading" where
  "locate_cues s segment [] known = rd_return []"
| "locate_cues s segment (c # cs) known =
     (let pos = el_start segment + sint (cu_cluster c)
      in rd_bind (read_element s pos (el_end segment)) (\<lambda>cl.
           if el_id cl \<noteq> id_cluster \<or> el_unknown cl then rd_fail ErrIndex
           else if word_of_int (el_size cl) \<le> cu_relative c then rd_fail ErrIndex
           else rd_bind (case map_of known pos of Some t \<Rightarrow> rd_return t | None \<Rightarrow> cluster_time s cl) (\<lambda>t.
             rd_bind (locate_cues s segment cs (AList.update pos t known)) (\<lambda>rest.
               rd_return (\<lparr>lo_cluster = cl, lo_timestamp = t,
                 lo_offset = el_start cl + sint (cu_relative c)\<rparr> # rest)))))"

fun locate_blocks :: "index_source \<Rightarrow> location list \<Rightarrow> element list reading" where
  "locate_blocks s [] = rd_return []"
| "locate_blocks s (l # ls) =
     rd_bind (read_element s (lo_offset l) (el_end (lo_cluster l))) (\<lambda>e.
       if el_id e \<noteq> 0xa0 \<or> el_unknown e then rd_fail ErrIndex
       else if 262144 < el_size e then rd_fail ErrLimit
       else rd_bind (locate_blocks s ls) (\<lambda>rest. rd_return (e # rest)))"

record packet =
  pk_time :: uint64
  pk_duration :: uint64
  pk_text :: string

fun read_packets :: "index_source \<Rightarrow> uint64 \<Rightarrow> (element \<times> cue \<times> location) list \<Rightarrow> packet list reading" where
  "read_packets s number [] = rd_return []"
| "read_packets s number ((e, c, l) # bs) =
     rd_bind (read_range s (el_start e) (el_size e)) (\<lambda>b.
       rd_bind (rd_lift (read_packet b number c (lo_timestamp l))) (\<lambda>text.
         rd_bind (read_packets s number bs) (\<lambda>rest.
           rd_return (if trim_space text = [] then rest
                      else \<lparr>pk_time = cu_time c, pk_duration = cu_duration c, pk_text = text\<rparr> # rest))))"

section \<open>Output\<close>

definition vtt_cue :: "int \<Rightarrow> int \<Rightarrow> string \<Rightarrow> string" where
  "vtt_cue start stop text = clock start @ '' --> '' @ clock stop @ [newline] @ text @ [newline, newline]"

fun write_packets :: "uint64 \<Rightarrow> int \<Rightarrow> packet list \<Rightarrow> string \<Rightarrow> index_error + string" where
  "write_packets scale limit [] out = Inr out"
| "write_packets scale limit (p # ps) out =
     (case milliseconds (pk_time p) scale of
        Inl e \<Rightarrow> Inl e
      | Inr start \<Rightarrow>
          (case milliseconds (pk_time p + pk_duration p) scale of
             Inl e \<Rightarrow> Inl ErrIndex
           | Inr stop \<Rightarrow>
               if stop \<le> start then Inl ErrIndex
               else (let line = vtt_cue start stop (vtt_text (pk_text p))
                     in if limit < int (length out) + int (length line) then Inl ErrLimit
                        else write_packets scale limit ps (out @ line))))"

definition vtt_header :: string where
  "vtt_header = ''WEBVTT'' @ [newline, newline]"

section \<open>The extraction\<close>

text \<open>The headers of the segment: the scale of the ticks, the number of the track and its cues.\<close>

definition read_headers ::
  "index_source \<Rightarrow> track \<Rightarrow> element \<Rightarrow> positions \<Rightarrow> (uint64 \<times> uint64 \<times> cue list) reading" where
  "read_headers s want segment found =
     rd_bind (load_header s segment found 0 id_info) (\<lambda>(info, loaded).
       rd_bind (rd_lift (children visit_info info 1000000)) (\<lambda>scale.
         rd_bind (rd_lift (milliseconds 1 scale)) (\<lambda>_.
           rd_bind (load_header s segment found loaded id_tracks) (\<lambda>(tracks, loaded).
             rd_bind (rd_lift (select_track tracks want)) (\<lambda>number.
               rd_bind (load_header s segment found loaded id_cues) (\<lambda>(index, _).
                 rd_bind (rd_lift (read_cues index number (il_cues (ix_limits s)) (el_size segment) scale)) (\<lambda>cues.
                   rd_return (scale, number, cues))))))))"

definition read_blocks :: "index_source \<Rightarrow> element \<Rightarrow> uint64 \<Rightarrow> cue list \<Rightarrow> packet list reading" where
  "read_blocks s segment number cues =
     rd_bind (prefetch s (map (\<lambda>c. let p = el_start segment + sint (cu_cluster c)
                                   in (p, p + min 64 (el_end segment - p))) cues)) (\<lambda>_.
       rd_bind (locate_cues s segment cues []) (\<lambda>locations.
         rd_bind (prefetch s (map (\<lambda>l. (lo_offset l, lo_offset l + min 512 (el_end (lo_cluster l) - lo_offset l))) locations)) (\<lambda>_.
           rd_bind (locate_blocks s locations) (\<lambda>blocks.
             rd_bind (prefetch s (map (\<lambda>e. (el_start e, el_end e)) blocks)) (\<lambda>_.
               read_packets s number (zip blocks (zip cues locations)))))))"

definition extract_matroska :: "index_source \<Rightarrow> track \<Rightarrow> (string \<times> nat) reading" where
  "extract_matroska s want =
     rd_bind (locate s) (\<lambda>(segment, found).
       rd_bind (read_headers s want segment found) (\<lambda>(scale, number, cues).
         rd_bind (read_blocks s segment number cues) (\<lambda>packets.
           if packets = [] then rd_fail ErrEmpty
           else rd_bind (rd_lift (write_packets scale (il_output_bytes (ix_limits s))
                  (stable_sort (\<lambda>p q. pk_time p < pk_time q) packets) vtt_header)) (\<lambda>out.
             rd_return (out, length packets)))))"

record extraction =
  ex_data :: string
  ex_format :: string
  ex_cues :: nat
  ex_read_bytes :: int
  ex_requests :: int

definition no_extraction :: extraction where
  "no_extraction = \<lparr>ex_data = [], ex_format = [], ex_cues = 0, ex_read_bytes = 0, ex_requests = 0\<rparr>"

text \<open>
  \<open>Extract\<close>: \<open>opens\<close> is whether the source has a function \<open>Open\<close>; the deadline of two minutes is
  part of what the context says.
\<close>

definition extract_subtitle :: "index_source \<Rightarrow> bool \<Rightarrow> string \<Rightarrow> track \<Rightarrow> extraction \<times> index_error option" where
  "extract_subtitle s opens container want =
     (if ix_size s \<le> 0 \<or> \<not> opens then (no_extraction, Some ErrSource)
      else if to_lower container \<noteq> ''mkv'' \<and> to_lower container \<noteq> ''matroska'' then (no_extraction, Some ErrUnsupported)
      else if tk_index want < 0 then (no_extraction, Some ErrIndex)
      else if normalize_codec (tk_codec want) \<noteq> ''subrip'' then (no_extraction, Some ErrUnsupported)
      else (case normalized_limits (ix_limits s) of
              Inl e \<Rightarrow> (no_extraction, Some e)
            | Inr limits \<Rightarrow>
                (case extract_matroska (s\<lparr>ix_limits := limits\<rparr>) want
                        \<lparr>rd_used = 0, rd_requests = 0, rd_pages = [], rd_checks = 0\<rparr> of
                   (Inl e, r) \<Rightarrow>
                     (no_extraction\<lparr>ex_read_bytes := rd_used r, ex_requests := rd_requests r\<rparr>, Some e)
                 | (Inr (out, n), r) \<Rightarrow>
                     (\<lparr>ex_data = out, ex_format = ''vtt'', ex_cues = n, ex_read_bytes = rd_used r,
                       ex_requests = rd_requests r\<rparr>, None))))"

end
