(* ===== verification/Subtitle_Theorems.thy ===== *)
theory Subtitle_Theorems
  imports Reader_Theorems Subtitle_Extraction
begin

text \<open>
  The extraction of a subtitle: it stays within its limits, it works on the bytes of the source, and
  what it gives is a WebVTT document whose cues cannot be broken by the text of the subtitle.
\<close>

section \<open>What every step of the extraction keeps\<close>

context reader_invariant
begin

lemma find_segment_keeps [reads]: "rd_keeps holds (find_segment s n off)"
  by (induction n arbitrary: off) (simp_all only: find_segment.simps, (intro reads | assumption)+)

lemma read_seek_head_keeps [reads]: "rd_keeps holds (read_seek_head s segment e found)"
  unfolding read_seek_head_def by (intro reads)

lemma scan_segment_keeps [reads]: "rd_keeps holds (scan_segment s segment n off found)"
  by (induction n arbitrary: off found) (simp_all only: scan_segment.simps, (intro reads | assumption)+)

lemma locate_keeps [reads]: "rd_keeps holds (locate s)"
  unfolding locate_def by (intro reads)

lemma load_header_keeps [reads]: "rd_keeps holds (load_header s segment found loaded i)"
  unfolding load_header_def by (intro reads)

lemma scan_cluster_keeps [reads]: "rd_keeps holds (scan_cluster s cluster n off)"
  by (induction n arbitrary: off) (simp_all only: scan_cluster.simps, (intro reads | assumption)+)

lemma cluster_time_keeps [reads]: "rd_keeps holds (cluster_time s cluster)"
  unfolding cluster_time_def by (intro reads)

lemma locate_cues_keeps [reads]: "rd_keeps holds (locate_cues s segment cs known)"
  by (induction cs arbitrary: known) (simp_all only: locate_cues.simps, (intro reads | assumption)+)

lemma locate_blocks_keeps [reads]: "rd_keeps holds (locate_blocks s ls)"
  by (induction ls) (simp_all only: locate_blocks.simps, (intro reads | assumption)+)

lemma read_packets_keeps [reads]: "rd_keeps holds (read_packets s number bs)"
proof (induction bs)
  case Nil
  then show ?case by (simp only: read_packets.simps) (intro reads)
next
  case (Cons b bs)
  obtain e c l where b: "b = (e, c, l)" by (cases b)
  show ?case unfolding b read_packets.simps by (intro reads Cons)
qed

lemma read_headers_keeps [reads]: "rd_keeps holds (read_headers s want segment found)"
  unfolding read_headers_def by (intro reads)

lemma read_blocks_keeps [reads]: "rd_keeps holds (read_blocks s segment number cues)"
  unfolding read_blocks_def by (intro reads)

lemma extract_matroska_keeps [reads]: "rd_keeps holds (extract_matroska s want)"
  unfolding extract_matroska_def by (intro reads)

end

section \<open>Limits\<close>

lemma normalized_limits_bounds:
  "normalized_limits l = Inr l' \<Longrightarrow>
     0 < il_read_bytes l' \<and> il_read_bytes l' \<le> 134217728 \<and> 0 < il_requests l' \<and> il_requests l' \<le> 8192
     \<and> 0 < il_output_bytes l' \<and> il_output_bytes l' \<le> 16777216 \<and> 0 < il_cues l' \<and> il_cues l' \<le> 100000"
  by (auto simp: normalized_limits_def Let_def split: if_splits)

text \<open>The limit that counts: the default for 0, capped by a hard bound.\<close>

definition limit_of :: "int \<Rightarrow> int \<Rightarrow> int \<Rightarrow> int" where
  "limit_of given standard most = (if given = 0 then standard else min given most)"

lemma normalized_limits_smaller:
  "normalized_limits l = Inr l' \<Longrightarrow>
     il_read_bytes l' = limit_of (il_read_bytes l) 67108864 134217728 \<and> il_requests l' = limit_of (il_requests l) 2048 8192
     \<and> il_output_bytes l' = limit_of (il_output_bytes l) 8388608 16777216"
  by (auto simp: normalized_limits_def limit_of_def Let_def split: if_splits)

lemma map_sum_id_Inr: "map_sum id f x = Inr y \<longleftrightarrow> (\<exists>z. x = Inr z \<and> y = f z)"
  by (cases x) auto

lemma add_cue_count:
  "add_cue number m sz scale time cues b = Inr cues' \<Longrightarrow> int (length cues) \<le> m \<Longrightarrow> int (length cues') \<le> m"
  by (auto simp: add_cue_def Let_def split: sum.splits if_splits)

lemma add_cues_count:
  "add_cues number m sz scale time bs cues = Inr cues' \<Longrightarrow> int (length cues) \<le> m \<Longrightarrow> int (length cues') \<le> m"
  by (induction number m sz scale time bs cues rule: add_cues.induct)
    (auto split: sum.splits dest: add_cue_count)

text \<open>A walk keeps what every visit keeps.\<close>

lemma children_keeps:
  assumes "children visit b s = Inr s'" and "holds s"
    and "\<And>s i b s'. visit s i b = Inr s' \<Longrightarrow> holds s \<Longrightarrow> holds s'"
  shows "holds s'"
  using assms
proof (induction visit b s rule: children.induct)
  case (1 visit b s)
  show ?case
  proof (cases "b = []")
    case True
    then show ?thesis using "1.prems"(1,2) by (simp add: children.simps)
  next
    case False
    note unfold = children.simps [of visit b s]
    obtain i n where i: "vint b True = Some (i, n)"
      using "1.prems"(1) False by (cases "vint b True") (auto simp: unfold)
    obtain sz m where m: "vint (drop n b) False = Some (sz, m)"
      using "1.prems"(1) False i by (cases "vint (drop n b) False") (auto simp: unfold)
    define body where "body = drop (n + m) b"
    have inside: "\<not> (sz = unknown_size m \<or> length body < unat sz)"
      using "1.prems"(1) False i m by (auto simp: unfold body_def Let_def)
    have eq: "children visit b s = (case visit s i (take (unat sz) body) of
        Inl e \<Rightarrow> Inl e | Inr s1 \<Rightarrow> children visit (drop (unat sz) body) s1)"
      using inside by (simp only: unfold False i m option.case prod.case Let_def body_def [symmetric] if_False)
    obtain s1 where s1: "visit s i (take (unat sz) body) = Inr s1"
      and rest: "children visit (drop (unat sz) body) s1 = Inr s'"
      using "1.prems"(1) unfolding eq by (auto split: sum.splits)
    show ?thesis
      using "1.IH" [OF False i refl m refl body_def inside s1 rest "1.prems"(3) [OF s1 "1.prems"(2)] "1.prems"(3)] .
  qed
qed

lemma read_cues_count:
  assumes "read_cues b number m sz scale = Inr cues" and "0 \<le> m"
  shows "int (length cues) \<le> m"
proof -
  obtain points where walk: "children (visit_cue number m sz scale) b (0, []) = Inr (points, cues)"
    using assms(1) by (auto simp: read_cues_def split: sum.splits if_splits)
  have "int (length (snd (points, cues))) \<le> m"
    by (rule children_keeps [where holds = "\<lambda>st. int (length (snd st)) \<le> m", OF walk])
      (use assms(2) in \<open>auto simp: visit_cue_def map_sum_id_Inr split: if_splits sum.splits option.splits prod.splits dest: add_cues_count\<close>)
  then show ?thesis by simp
qed

section \<open>The text of a cue\<close>

lemma split_char_chars: "w \<in> set (split_char d s) \<Longrightarrow> set w \<subseteq> set s"
proof (induction s arbitrary: w)
  case Nil
  then show ?case by simp
next
  case (Cons c s)
  obtain v vs where vs: "split_char d s = v # vs" by (cases "split_char d s") auto
  from Cons.prems consider "w = []" | "w \<in> set (split_char d s)" | "w = c # v"
    using vs by (auto split: if_splits)
  then show ?case
  proof cases
    case 3
    then show ?thesis using Cons.IH [of v] vs by auto
  qed (use Cons.IH in auto)
qed

lemma split_char_join_lines:
  "ls \<noteq> [] \<Longrightarrow> \<forall>l \<in> set ls. d \<notin> set l \<Longrightarrow> split_char d (join_with [d] ls) = ls"
proof (induction ls rule: induct_list012)
  case (3 a b ls)
  then show ?case by (simp add: split_char_append_sep)
qed (auto simp: split_char_none)

lemma escaped_bytes: "CHR ''<'' \<notin> set (concat (map escape_byte s)) \<and> CHR ''>'' \<notin> set (concat (map escape_byte s))"
  by (induction s) (auto simp: escape_byte_def)

text \<open>Every line of a cue's text has a printing rune and no angle bracket.\<close>

lemma vtt_text_lines:
  assumes "l \<in> set (split_char newline (vtt_text t))"
  shows "trim_space l \<noteq> [] \<and> CHR ''<'' \<notin> set l \<and> CHR ''>'' \<notin> set l"
proof -
  define s where "s = concat (map escape_byte
    (trim_space (replace_all [CHR 0x0D] [newline] (replace_all [CHR 0x0D, newline] [newline] t))))"
  let ?fill = "\<lambda>l. if trim_space l = [] then zero_width else l"
  let ?lines = "map ?fill (split_char newline s)"
  have width: "trim_space zero_width \<noteq> []" "newline \<notin> set zero_width" "CHR ''<'' \<notin> set zero_width"
    "CHR ''>'' \<notin> set zero_width" by code_simp+
  have "\<forall>l \<in> set ?lines. newline \<notin> set l"
    using width(2) by (auto dest: split_char_no_sep)
  then have "split_char newline (join_with [newline] ?lines) = ?lines"
    by (intro split_char_join_lines) simp_all
  moreover have "vtt_text t = join_with [newline] ?lines"
    by (simp only: vtt_text_def s_def Let_def)
  ultimately obtain w where w: "w \<in> set (split_char newline s)" "l = ?fill w"
    using assms by auto
  have "CHR ''<'' \<notin> set w \<and> CHR ''>'' \<notin> set w"
    using split_char_chars [OF w(1)] escaped_bytes unfolding s_def by blast
  with w(2) width show ?thesis by simp
qed

section \<open>The document\<close>

type_synonym timed_text = "int \<times> int \<times> string"

definition document :: "timed_text list \<Rightarrow> string" where
  "document cs = vtt_header @ concat (map (\<lambda>(start, stop, t). vtt_cue start stop (vtt_text t)) cs)"

definition timed_packet :: "uint64 \<Rightarrow> packet \<Rightarrow> timed_text \<Rightarrow> bool" where
  "timed_packet scale p c \<longleftrightarrow> milliseconds (pk_time p) scale = Inr (fst c)
     \<and> milliseconds (pk_time p + pk_duration p) scale = Inr (fst (snd c)) \<and> fst c < fst (snd c)
     \<and> snd (snd c) = pk_text p"

lemma write_packets_document:
  "write_packets scale limit ps out = Inr out' \<Longrightarrow>
     \<exists>cs. list_all2 (timed_packet scale) ps cs
       \<and> out' = out @ concat (map (\<lambda>(start, stop, t). vtt_cue start stop (vtt_text t)) cs)
       \<and> (ps \<noteq> [] \<or> int (length out) \<le> limit \<longrightarrow> int (length out') \<le> limit)"
proof (induction scale limit ps out rule: write_packets.induct)
  case (1 scale limit out)
  then show ?case by simp
next
  case (2 scale limit p ps out)
  obtain start stop where times: "milliseconds (pk_time p) scale = Inr start"
      "milliseconds (pk_time p + pk_duration p) scale = Inr stop" "\<not> stop \<le> start"
    using "2.prems" by (auto split: sum.splits if_splits)
  define line where "line = vtt_cue start stop (vtt_text (pk_text p))"
  have fits: "\<not> limit < int (length out) + int (length line)"
    and rest: "write_packets scale limit ps (out @ line) = Inr out'"
    using "2.prems" times by (auto simp: Let_def line_def split: if_splits)
  obtain cs where cs: "list_all2 (timed_packet scale) ps cs"
      "out' = (out @ line) @ concat (map (\<lambda>(start, stop, t). vtt_cue start stop (vtt_text t)) cs)"
      "ps \<noteq> [] \<or> int (length (out @ line)) \<le> limit \<longrightarrow> int (length out') \<le> limit"
    using "2.IH" [OF times line_def fits rest] by blast
  have "timed_packet scale p (start, stop, pk_text p)" using times by (simp add: timed_packet_def)
  then show ?case
    using cs fits by (intro exI [of _ "(start, stop, pk_text p) # cs"]) (simp add: line_def)
qed

lemma milliseconds_mono:
  "milliseconds a scale = Inr x \<Longrightarrow> milliseconds b scale = Inr y \<Longrightarrow> a \<le> b \<Longrightarrow> x \<le> y"
  using milliseconds_exact(1) [of a scale x] milliseconds_exact(1) [of b scale y]
  by (simp add: word_le_nat_alt div_le_mono mult_le_mono1)

lemma timed_sorted:
  "list_all2 (timed_packet scale) ps cs \<Longrightarrow> sorted_wrt (\<lambda>p q. \<not> pk_time q < pk_time p) ps \<Longrightarrow> sorted (map fst cs)"
proof (induction rule: list_all2_induct)
  case (Cons p ps c cs)
  have "fst c \<le> x" if x: "x \<in> fst ` set cs" for x
  proof -
    obtain c' where c': "c' \<in> set cs" "x = fst c'" using x by blast
    then obtain q where "q \<in> set ps" "timed_packet scale q c'"
      using Cons.hyps(2) by (metis in_set_conv_nth list_all2_conv_all_nth)
    then show ?thesis using Cons.hyps(1) Cons.prems c'(2) milliseconds_mono
      by (fastforce simp: timed_packet_def not_less)
  qed
  then show ?case using Cons by simp
qed simp

lemma read_packet_text: "read_packet b number c t = Inr text \<Longrightarrow> valid_utf8 text \<and> CHR 0x00 \<notin> set text"
  by (auto simp: read_packet_def Let_def split: sum.splits option.splits if_splits)

lemma read_packets_text:
  "read_packets s number bs r = (Inr ps, r') \<Longrightarrow> p \<in> set ps \<Longrightarrow>
     valid_utf8 (pk_text p) \<and> CHR 0x00 \<notin> set (pk_text p) \<and> trim_space (pk_text p) \<noteq> []"
proof (induction bs arbitrary: r ps)
  case Nil
  then show ?case by (simp add: rd_Inr)
next
  case (Cons x bs)
  obtain e c l where x: "x = (e, c, l)" by (cases x)
  show ?case
    using Cons.prems Cons.IH unfolding x read_packets.simps rd_Inr
    by (auto split: if_splits dest!: read_packet_text)
qed

interpretation packet_time: strict_weak_order "\<lambda>p q. pk_time p < pk_time q" "\<lambda>_. True"
  by unfold_locales auto

section \<open>Extractions\<close>

definition fresh_reader :: reader where
  "fresh_reader = \<lparr>rd_used = 0, rd_requests = 0, rd_pages = [], rd_checks = 0\<rparr>"

lemma extract_subtitle_run:
  assumes "extract_subtitle s opens container want = (x, err)"
  shows "(x = no_extraction \<and> err \<noteq> None) \<or>
    (\<exists>limits res r. normalized_limits (ix_limits s) = Inr limits
       \<and> extract_matroska (s\<lparr>ix_limits := limits\<rparr>) want fresh_reader = (res, r)
       \<and> ex_read_bytes x = rd_used r \<and> ex_requests x = rd_requests r
       \<and> (case res of Inl e \<Rightarrow> err = Some e \<and> ex_data x = [] \<and> ex_cues x = 0
          | Inr (out, n) \<Rightarrow> err = None \<and> ex_data x = out \<and> ex_cues x = n))"
proof (cases "normalized_limits (ix_limits s)")
  case (Inl e)
  then show ?thesis using assms by (auto simp: extract_subtitle_def split: if_splits)
next
  case (Inr limits)
  obtain res r where run: "extract_matroska (s\<lparr>ix_limits := limits\<rparr>) want fresh_reader = (res, r)" by fastforce
  then show ?thesis
    using assms Inr by (cases res)
      (auto simp: extract_subtitle_def no_extraction_def fresh_reader_def [symmetric] split: if_splits)
qed

lemma extract_matroska_Inr:
  assumes "extract_matroska s want r = (Inr (out, n), r')"
  shows "\<exists>scale ps. ps \<noteq> [] \<and> n = length ps \<and>
    (\<forall>p \<in> set ps. valid_utf8 (pk_text p) \<and> CHR 0x00 \<notin> set (pk_text p) \<and> trim_space (pk_text p) \<noteq> []) \<and>
    write_packets scale (il_output_bytes (ix_limits s)) (stable_sort (\<lambda>p q. pk_time p < pk_time q) ps) vtt_header = Inr out"
proof -
  obtain segment number cues scale packets r1 r2 where packets: "packets \<noteq> []" "n = length packets"
      "read_blocks s segment number cues r1 = (Inr packets, r2)"
      "write_packets scale (il_output_bytes (ix_limits s)) (stable_sort (\<lambda>p q. pk_time p < pk_time q) packets) vtt_header = Inr out"
    using assms unfolding extract_matroska_def
    by (auto simp: rd_Inr split: prod.splits if_splits)
  obtain bs r3 where "read_packets s number bs r3 = (Inr packets, r2)"
    using packets(3) unfolding read_blocks_def by (auto simp: rd_Inr)
  from read_packets_text [OF this] packets show ?thesis by blast
qed


text \<open>
  C8: An extraction stays within its limits whatever the file and the source do: it takes in at most
  the bytes and asks for at most the ranges the caller allowed, never more than 128 MiB in 8192 ranges,
  and its document is within the limit of the output, never above 16 MiB.
\<close>

theorem extraction_within_limits:
  "let x = fst (extract_subtitle s opens container want); l = ix_limits s
   in 0 \<le> ex_read_bytes x \<and> ex_read_bytes x \<le> max 0 (limit_of (il_read_bytes l) 67108864 134217728) \<and>
      0 \<le> ex_requests x \<and> ex_requests x \<le> max 0 (limit_of (il_requests l) 2048 8192) \<and>
      int (length (ex_data x)) \<le> max 0 (limit_of (il_output_bytes l) 8388608 16777216)"
proof -
  obtain x err where assms: "extract_subtitle s opens container want = (x, err)" by fastforce
  have "0 \<le> ex_read_bytes x \<and> ex_read_bytes x \<le> max 0 (limit_of (il_read_bytes (ix_limits s)) 67108864 134217728) \<and>
      0 \<le> ex_requests x \<and> ex_requests x \<le> max 0 (limit_of (il_requests (ix_limits s)) 2048 8192) \<and>
      int (length (ex_data x)) \<le> max 0 (limit_of (il_output_bytes (ix_limits s)) 8388608 16777216)"
  proof -
    consider (nothing) "x = no_extraction" "err \<noteq> None"
      | (ran) limits res r where "normalized_limits (ix_limits s) = Inr limits"
          "extract_matroska (s\<lparr>ix_limits := limits\<rparr>) want fresh_reader = (res, r)"
          "ex_read_bytes x = rd_used r" "ex_requests x = rd_requests r"
          "case res of Inl e \<Rightarrow> err = Some e \<and> ex_data x = [] \<and> ex_cues x = 0
           | Inr (out, n) \<Rightarrow> err = None \<and> ex_data x = out \<and> ex_cues x = n"
      using extract_subtitle_run [OF assms] by blast
    then show ?thesis
    proof cases
      case nothing
      then show ?thesis by (simp add: no_extraction_def)
    next
      case ran
      let ?s = "s\<lparr>ix_limits := limits\<rparr>"
      note bounds = normalized_limits_bounds [OF ran(1)] normalized_limits_smaller [OF ran(1)]
      have "within_limits ?s fresh_reader" using bounds by (simp add: within_limits_def fresh_reader_def)
      from rd_keepsD [OF budget.extract_matroska_keeps this, of want]
      have counts: "0 \<le> ex_read_bytes x" "ex_read_bytes x \<le> il_read_bytes limits"
          "0 \<le> ex_requests x" "ex_requests x \<le> il_requests limits"
        using ran by (simp_all add: within_limits_def)
      have "int (length (ex_data x)) \<le> il_output_bytes limits \<and> (err \<noteq> None \<longrightarrow> ex_data x = [] \<and> ex_cues x = 0)"
      proof (cases res)
        case (Inl e)
        then show ?thesis using ran(5) bounds by simp
      next
        case (Inr y)
        obtain out n where y: "y = (out, n)" by (cases y)
        obtain scale ps where "ps \<noteq> []"
          "write_packets scale (il_output_bytes limits) (stable_sort (\<lambda>p q. pk_time p < pk_time q) ps) vtt_header = Inr out"
          using extract_matroska_Inr [OF ran(2) [unfolded Inr y]] by auto
        then have "int (length out) \<le> il_output_bytes limits"
          using write_packets_document by fastforce
        then show ?thesis using ran(5) Inr y by simp
      qed
      then show ?thesis using counts bounds by simp
    qed
  qed
  then show ?thesis by (simp add: assms Let_def)
qed

end
