(* ===== verification/Subtitle_Sample.thy ===== *)
theory Subtitle_Sample
  imports Subtitle_Theorems
begin

text \<open>
  An extraction that succeeds: a file of 82 bytes with one track, one cue and one block, fetched with
  one request.
\<close>

section \<open>The file and its source\<close>

definition sample_file :: string where
  "sample_file =
     [CHR 0x18, CHR 0x53, CHR 0x80, CHR 0x67, CHR 0xCD, CHR 0x15, CHR 0x49, CHR 0xA9, CHR 0x66, CHR 0x80,
     CHR 0x16, CHR 0x54, CHR 0xAE, CHR 0x6B, CHR 0x95, CHR 0xAE, CHR 0x93, CHR 0xD7, CHR 0x81, CHR 0x01,
     CHR 0x83, CHR 0x81, CHR 0x11, CHR 0x86, CHR 0x8B, CHR 0x53, CHR 0x5F, CHR 0x54, CHR 0x45, CHR 0x58,
     CHR 0x54, CHR 0x2F, CHR 0x55, CHR 0x54, CHR 0x46, CHR 0x38, CHR 0x1C, CHR 0x53, CHR 0xBB, CHR 0x6B,
     CHR 0x93, CHR 0xBB, CHR 0x91, CHR 0xB3, CHR 0x81, CHR 0x05, CHR 0xB7, CHR 0x8C, CHR 0xF7, CHR 0x81,
     CHR 0x01, CHR 0xF1, CHR 0x81, CHR 0x37, CHR 0xF0, CHR 0x81, CHR 0x03, CHR 0xB2, CHR 0x81, CHR 0x02,
     CHR 0x1F, CHR 0x43, CHR 0xB6, CHR 0x75, CHR 0x91, CHR 0xE7, CHR 0x81, CHR 0x00, CHR 0xA0, CHR 0x8C,
     CHR 0xA1, CHR 0x87, CHR 0x81, CHR 0x00, CHR 0x05, CHR 0x00, CHR 0x3C, CHR 0x69, CHR 0x3E, CHR 0x9B,
     CHR 0x81, CHR 0x02]"

definition sample_source :: index_source where
  "sample_source =
     \<lparr>ix_size = int (length sample_file), ix_limits = \<lparr>il_read_bytes = 0, il_requests = 0, il_output_bytes = 0, il_cues = 0\<rparr>,
      ix_context = (\<lambda>_. None),
      ix_answer = (\<lambda>_ (a, e). Body (drop (nat a) sample_file) False None)\<rparr>"

definition sample_track :: track where
  "sample_track = \<lparr>tk_index = 0, tk_codec = ''srt'', tk_language = []\<rparr>"

definition sample_limits :: index_limits where
  "sample_limits = \<lparr>il_read_bytes = 67108864, il_requests = 2048, il_output_bytes = 8388608, il_cues = 20000\<rparr>"

definition bounded_source :: index_source where
  "bounded_source = sample_source\<lparr>ix_limits := sample_limits\<rparr>"

text \<open>The reader once the page of the file is there, after \<open>n\<close> checks of the context.\<close>

definition loaded :: "nat \<Rightarrow> reader" where
  "loaded n = \<lparr>rd_used = 82, rd_requests = 1, rd_pages = [(0, sample_file)], rd_checks = n\<rparr>"

lemma sample_length: "length sample_file = 82"
  by (simp add: sample_file_def)

lemma sample_source_simps:
  "ix_size bounded_source = 82" "ix_context bounded_source n = None"
  "il_read_bytes (ix_limits bounded_source) = 67108864" "il_requests (ix_limits bounded_source) = 2048"
  by (simp_all add: bounded_source_def sample_source_def sample_length sample_limits_def)

lemma loaded_checks: "rd_checks (loaded n) = n" "rd_pages (loaded n) = [(0, sample_file)]"
  "(loaded n)\<lparr>rd_checks := m\<rparr> = loaded m"
  by (simp_all add: loaded_def)

section \<open>Reading it\<close>

lemma check_loaded: "check_context bounded_source (loaded n) = (Inr (), loaded (Suc n))"
  by (simp add: check_context_def Let_def sample_source_simps loaded_checks)

definition inside_sample :: "interval \<Rightarrow> bool" where
  "inside_sample w \<longleftrightarrow> 0 \<le> fst w \<and> fst w \<le> snd w \<and> snd w \<le> 82"

lemma missing_loaded:
  assumes "0 \<le> start" and "start \<le> stop" and "stop \<le> 82"
  shows "missing_pages 67108864 [0] stop (start div page_size * page_size) [] = Inr []"
proof -
  have "start div page_size * page_size = 0" using assms by (simp add: page_size_def)
  then show ?thesis using assms by (simp add: missing_pages.simps page_size_def)
qed

lemma wanted_loaded: "list_all inside_sample ws \<Longrightarrow> wanted_pages bounded_source [0] ws [] = Inr []"
proof (induction ws)
  case (Cons w ws)
  obtain a e where w: "w = (a, e)" by (cases w)
  have "0 \<le> a" "a \<le> e" "e \<le> 82" using Cons.prems by (simp_all add: inside_sample_def w)
  then show ?case using Cons missing_loaded [of a e] by (simp add: w sample_source_simps)
qed simp

lemma prefetch_loaded:
  "list_all inside_sample ws \<Longrightarrow> prefetch bounded_source ws (loaded n) = (Inr (), loaded (Suc n))"
  by (simp add: prefetch_def rd_bind_def check_loaded loaded_checks wanted_loaded)

lemma copy_loaded:
  assumes "0 \<le> off" and "0 < len" and "off + len \<le> 82"
  shows "copy_pages [(0, sample_file)] off (nat len) = Inr (take (nat len) (drop (nat off) sample_file))"
proof -
  have base: "off div page_size * page_size = 0" using assms by (simp add: page_size_def)
  have size: "length (take (nat len) (drop (nat off) sample_file)) = nat len"
    using assms by (simp add: sample_length min_def) linarith
  then have "take (nat len) (drop (nat off) sample_file) \<noteq> []" using assms by (cases "nat len") auto
  then show ?thesis
    using assms size by (simp add: copy_pages.simps [of _ off] copy_pages.simps [of _ _ 0] base Let_def)
qed

lemma read_loaded:
  assumes "0 \<le> off" and "0 < len" and "off + len \<le> 82"
  shows "read_range bounded_source off len (loaded n) =
    (Inr (take (nat len) (drop (nat off) sample_file)), loaded (Suc (Suc n)))"
proof -
  have "list_all inside_sample [(off, off + len)]" using assms by (simp add: inside_sample_def)
  then show ?thesis
    using assms prefetch_loaded copy_loaded [OF assms]
    by (simp add: read_range_def rd_bind_def check_loaded sample_source_simps loaded_checks)
qed

lemma element_loaded:
  assumes "0 \<le> off" and "off < boundary" and "boundary \<le> 82"
  shows "read_element bounded_source off boundary (loaded n) =
    (element_header off boundary (take (nat (min 12 (boundary - off))) (drop (nat off) sample_file)), loaded (Suc (Suc n)))"
proof -
  have "0 < min 12 (boundary - off)" "off + min 12 (boundary - off) \<le> 82" using assms by auto
  note read = read_loaded [OF assms(1) this]
  show ?thesis using assms by (simp add: read_element_def rd_bind_def rd_lift_def read sample_source_simps)
qed

text \<open>The first read fetches the page.\<close>

lemma read_first:
  "read_element bounded_source 0 82 fresh_reader = (element_header 0 82 (take 12 sample_file), loaded 3)"
proof -
  have pages: "missing_pages 67108864 [] 12 0 [] = Inr [0]"
    by (simp add: missing_pages.simps page_size_def)
  have ranges: "merged_ranges 82 [0] = [(0, 82)]"
    by (simp add: merged_ranges_def merge_page_def page_size_def)
  have fetch: "fetch_range bounded_source n (0, 82) = \<lparr>ft_requests = 1, ft_bytes = sample_file, ft_err = None\<rparr>" for n
    by (simp add: fetch_range_def bounded_source_def sample_source_def sample_length Let_def)
  have "sample_file \<noteq> []" by (simp add: sample_file_def)
  then have store: "store_pages 0 sample_file [] = [(0, sample_file)]"
    by (simp add: store_pages.simps [of 0] store_pages.simps [of _ "[]"] sample_length)
  have dispatch: "dispatch_ranges bounded_source [(0, 82)] (fresh_reader\<lparr>rd_checks := 2\<rparr>) = (Inr (), loaded 3)"
    by (simp add: dispatch_ranges_def fetch use_result_def Let_def rd_bind_def check_context_def sample_source_simps
        rd_return_def store fresh_reader_def sample_length loaded_def)
  have check: "check_context bounded_source (fresh_reader\<lparr>rd_checks := n\<rparr>) = (Inr (), fresh_reader\<lparr>rd_checks := Suc n\<rparr>)" for n
    by (simp add: check_context_def Let_def sample_source_simps fresh_reader_def)
  have "fresh_reader = fresh_reader\<lparr>rd_checks := 0\<rparr>" by (simp add: fresh_reader_def)
  then have first: "check_context bounded_source fresh_reader = (Inr (), fresh_reader\<lparr>rd_checks := 1\<rparr>)"
    using check [of 0] by simp
  have "prefetch bounded_source [(0, 12)] (fresh_reader\<lparr>rd_checks := 1\<rparr>) = (Inr (), loaded 3)"
    using check [of 1] dispatch
    by (simp add: prefetch_def rd_bind_def sample_source_simps pages ranges Let_def range_bytes_def
        fresh_reader_def numeral_2_eq_2)
  then have "read_range bounded_source 0 12 fresh_reader = (Inr (take 12 sample_file), loaded 3)"
    using copy_loaded [of 0 12] by (simp add: read_range_def rd_bind_def first sample_source_simps loaded_checks)
  then show ?thesis by (simp add: read_element_def rd_bind_def rd_lift_def sample_source_simps)
qed

section \<open>The steps of the extraction\<close>

definition sample_segment :: element where
  "sample_segment = \<lparr>el_id = id_segment, el_start = 5, el_end = 82, el_unknown = False\<rparr>"

definition sample_positions :: positions where
  "sample_positions = [(id_info, 5), (id_tracks, 10), (id_cues, 36), (id_cluster, 60)]"

lemma sample_segment_simps:
  "el_id sample_segment = id_segment" "el_start sample_segment = 5" "el_end sample_segment = 82"
  by (simp_all add: sample_segment_def)

text \<open>An element of the file, read by the reader that has the page.\<close>

definition sample_element :: "int \<Rightarrow> int \<Rightarrow> index_error + element" where
  "sample_element off boundary =
     element_header off boundary (take (nat (min 12 (boundary - off))) (drop (nat off) sample_file))"

lemma element_at:
  "0 \<le> off \<Longrightarrow> off < boundary \<Longrightarrow> boundary \<le> 82 \<Longrightarrow>
     read_element bounded_source off boundary (loaded n) = (sample_element off boundary, loaded (n + 2))"
  by (simp add: element_loaded sample_element_def)

lemma sample_elements:
  "sample_element 0 82 = Inr sample_segment"
  "sample_element 5 82 = Inr \<lparr>el_id = id_info, el_start = 10, el_end = 10, el_unknown = False\<rparr>"
  "sample_element 10 82 = Inr \<lparr>el_id = id_tracks, el_start = 15, el_end = 36, el_unknown = False\<rparr>"
  "sample_element 36 82 = Inr \<lparr>el_id = id_cues, el_start = 41, el_end = 60, el_unknown = False\<rparr>"
  "sample_element 60 82 = Inr \<lparr>el_id = id_cluster, el_start = 65, el_end = 82, el_unknown = False\<rparr>"
  "sample_element 65 82 = Inr \<lparr>el_id = 0xe7, el_start = 67, el_end = 68, el_unknown = False\<rparr>"
  "sample_element 68 82 = Inr \<lparr>el_id = 0xa0, el_start = 70, el_end = 82, el_unknown = False\<rparr>"
  by code_simp+

lemma id_differ:
  "id_info \<noteq> id_seek_head" "id_tracks \<noteq> id_seek_head" "id_cues \<noteq> id_seek_head" "id_cluster \<noteq> id_seek_head"
  "id_info \<noteq> id_cluster" "id_tracks \<noteq> id_cluster" "id_cues \<noteq> id_cluster" "id_info \<noteq> id_tracks" "id_info \<noteq> id_cues"
  "id_tracks \<noteq> id_cues"
  by code_simp+

lemma sample_found: "find_segment bounded_source 4 0 fresh_reader = (Inr sample_segment, loaded 3)"
proof -
  have "find_segment bounded_source 4 0 = find_segment bounded_source (Suc 3) 0" by simp
  moreover have "element_header 0 82 (take 12 sample_file) = Inr sample_segment" by code_simp
  ultimately show ?thesis
    by (simp only: find_segment.simps)
      (simp add: rd_bind_def read_first sample_segment_simps rd_return_def sample_source_simps)
qed

lemma scan_step:
  assumes "0 \<le> off" and "off < 82" and "sample_element off 82 = Inr e" and "el_id e \<noteq> id_seek_head" and "\<not> el_unknown e"
  shows "scan_segment bounded_source sample_segment (Suc n) off found (loaded k) =
    (if el_id e = id_cluster then rd_return (AList.update (el_id e) off found)
     else scan_segment bounded_source sample_segment n (el_end e) (AList.update (el_id e) off found)) (loaded (k + 2))"
  using assms by (simp add: rd_bind_def rd_return_def sample_segment_simps element_at Let_def)

lemma sample_located: "locate bounded_source fresh_reader = (Inr (sample_segment, sample_positions), loaded 11)"
proof -
  have "scan_segment bounded_source sample_segment 32 5 [] (loaded 3) =
      scan_segment bounded_source sample_segment (Suc (Suc (Suc (Suc 28)))) 5 [] (loaded 3)" by simp
  also have "\<dots> = (Inr sample_positions, loaded 11)"
    by (simp only: scan_step sample_elements element.select_convs id_differ if_False simp_thms order_refl
        zero_le_numeral)
      (simp add: scan_step sample_elements id_differ rd_return_def sample_positions_def)
  finally show ?thesis
    by (simp add: locate_def rd_bind_def sample_found sample_segment_simps rd_return_def)
qed

lemma loaded_sums:
  "loaded (Suc (Suc (Suc n))) = loaded (n + 3)" "loaded (Suc (Suc (Suc (Suc n)))) = loaded (n + 4)"
  "loaded (Suc (n + 3)) = loaded (n + 4)" "loaded (3 + n) = loaded (n + 3)" "loaded (4 + n) = loaded (n + 4)" "loaded (6 + n) = loaded (n + 6)"
  by (simp_all add: eval_nat_numeral add.commute)

lemma load_sample:
  assumes "map_of sample_positions i = Some off" and "0 \<le> off" and "off < 82" and "sample_element off 82 = Inr e"
    and "el_id e = i" and "\<not> el_unknown e" and "el_size e \<le> 25165824 - got"
  shows "load_header bounded_source sample_segment sample_positions got i (loaded n) =
    rd_bind (read_range bounded_source (el_start e) (el_size e)) (\<lambda>b. rd_return (b, got + el_size e)) (loaded (n + 2))"
  using assms by (simp add: load_header_def rd_bind_def element_at sample_segment_simps not_less)

lemma read_nothing: "0 \<le> off \<Longrightarrow> off \<le> 82 \<Longrightarrow> read_range bounded_source off 0 (loaded n) = (Inr [], loaded (n + 1))"
  by (simp add: read_range_def rd_bind_def check_loaded sample_source_simps rd_return_def)

definition sample_cue :: cue where
  "sample_cue = \<lparr>cu_cluster = 55, cu_relative = 3, cu_time = 5, cu_duration = 2\<rparr>"

lemma sample_parts:
  "children visit_info [] 1000000 = Inr 1000000"
  "milliseconds 1 1000000 = Inr 1"
  "select_track (take 21 (drop 15 sample_file)) sample_track = Inr 1"
  "read_cues (take 19 (drop 41 sample_file)) 1 20000 77 1000000 = Inr [sample_cue]"
  "read_packet (take 12 (drop 70 sample_file)) 1 sample_cue 0 = Inr ''<i>''"
  "unsigned_integer (take (Suc 0) (drop 67 sample_file)) = Inr 0"
  "trim_space ''<i>'' \<noteq> []"
  by code_simp+

lemma sample_read_headers:
  "read_headers bounded_source sample_track sample_segment sample_positions (loaded 11) =
     (Inr (1000000, 1, [sample_cue]), loaded 22)"
proof -
  have info: "load_header bounded_source sample_segment sample_positions 0 id_info (loaded n) = (Inr ([], 0), loaded (n + 3))" for n
    by (subst load_sample [where off = 5 and e = "\<lparr>el_id = id_info, el_start = 10, el_end = 10, el_unknown = False\<rparr>"])
      (simp_all add: sample_positions_def sample_elements el_size_def rd_bind_def read_nothing rd_return_def loaded_sums)
  have tracks: "load_header bounded_source sample_segment sample_positions 0 id_tracks (loaded n) =
      (Inr (take 21 (drop 15 sample_file), 21), loaded (n + 4))" for n
    by (subst load_sample [where off = 10 and e = "\<lparr>el_id = id_tracks, el_start = 15, el_end = 36, el_unknown = False\<rparr>"])
      (simp_all add: sample_positions_def sample_elements el_size_def rd_bind_def read_loaded rd_return_def id_differ id_differ [symmetric]
        loaded_sums)
  have cues: "load_header bounded_source sample_segment sample_positions 21 id_cues (loaded n) =
      (Inr (take 19 (drop 41 sample_file), 40), loaded (n + 4))" for n
    by (subst load_sample [where off = 36 and e = "\<lparr>el_id = id_cues, el_start = 41, el_end = 60, el_unknown = False\<rparr>"])
      (simp_all add: sample_positions_def sample_elements el_size_def rd_bind_def read_loaded rd_return_def id_differ id_differ [symmetric]
        loaded_sums)
  have segment: "el_size sample_segment = 77" "il_cues (ix_limits bounded_source) = 20000"
    by (simp_all add: el_size_def sample_segment_simps bounded_source_def sample_limits_def)
  show ?thesis
    by (simp add: read_headers_def rd_bind_def rd_lift_def info tracks cues segment sample_parts rd_return_def)
qed

definition sample_cluster :: element where
  "sample_cluster = \<lparr>el_id = id_cluster, el_start = 65, el_end = 82, el_unknown = False\<rparr>"

lemma sample_cluster_time: "cluster_time bounded_source sample_cluster (loaded n) = (Inr 0, loaded (n + 4))"
proof -
  have time: "cluster_time bounded_source sample_cluster = scan_cluster bounded_source sample_cluster (Suc 15) 65"
    by (simp add: cluster_time_def sample_cluster_def)
  have cluster: "el_end sample_cluster = 82" "el_start sample_cluster = 65" by (simp_all add: sample_cluster_def)
  show ?thesis
    by (simp only: time scan_cluster.simps) (simp add: rd_bind_def rd_lift_def cluster element_at sample_elements el_size_def read_loaded sample_parts loaded_sums)
qed

lemma sample_blocks:
  "read_blocks bounded_source sample_segment 1 [sample_cue] (loaded n) =
     (Inr [\<lparr>pk_time = 5, pk_duration = 2, pk_text = ''<i>''\<rparr>], loaded (n + 13))"
proof -
  have cluster: "sample_element 60 82 = Inr sample_cluster" by (simp add: sample_elements sample_cluster_def)
  have cue: "cu_time sample_cue = 5" "cu_duration sample_cue = 2" by (simp_all add: sample_cue_def)
  have c: "sint (cu_cluster sample_cue) = 55" "sint (cu_relative sample_cue) = 3" by code_simp+
  have relative: "\<not> word_of_int (el_size sample_cluster) \<le> cu_relative sample_cue" by code_simp
  have located: "locate_cues bounded_source sample_segment [sample_cue] [] (loaded m) =
      (Inr [\<lparr>lo_cluster = sample_cluster, lo_timestamp = 0, lo_offset = 68\<rparr>], loaded (m + 6))" for m
    using relative sample_cluster_time [of "m + 2"]
    by (simp add: rd_bind_def sample_segment_simps c element_at cluster rd_return_def)
      (simp add: sample_cluster_def loaded_sums)
  have cluster_end: "el_end sample_cluster = 82" by (simp add: sample_cluster_def)
  have blocks: "locate_blocks bounded_source [\<lparr>lo_cluster = sample_cluster, lo_timestamp = 0, lo_offset = 68\<rparr>] (loaded m) =
      (Inr [\<lparr>el_id = 0xa0, el_start = 70, el_end = 82, el_unknown = False\<rparr>], loaded (m + 2))" for m
    by (simp add: rd_bind_def element_at sample_elements cluster_end el_size_def rd_return_def)
  have packets: "read_packets bounded_source 1 [(\<lparr>el_id = 0xa0, el_start = 70, el_end = 82, el_unknown = False\<rparr>, sample_cue,
      \<lparr>lo_cluster = sample_cluster, lo_timestamp = 0, lo_offset = 68\<rparr>)] (loaded m) =
      (Inr [\<lparr>pk_time = 5, pk_duration = 2, pk_text = ''<i>''\<rparr>], loaded (m + 2))" for m
    by (simp add: rd_bind_def rd_lift_def el_size_def read_loaded sample_parts rd_return_def cue)
  show ?thesis
    by (simp add: read_blocks_def rd_bind_def prefetch_loaded inside_sample_def sample_segment_simps c located
        blocks packets cluster_end add.commute del: locate_cues.simps locate_blocks.simps read_packets.simps)
qed

lemma sample_extracted: "snd (extract_subtitle sample_source True ''mkv'' sample_track) = None"
proof -
  have limits: "normalized_limits (ix_limits sample_source) = Inr sample_limits"
    by (simp add: sample_source_def normalized_limits_def sample_limits_def)
  have out: "\<exists>out. write_packets 1000000 (il_output_bytes (ix_limits bounded_source))
      (stable_sort (\<lambda>p q. pk_time p < pk_time q) [\<lparr>pk_time = 5, pk_duration = 2, pk_text = ''<i>''\<rparr>]) vtt_header = Inr out"
  proof -
    have "milliseconds 5 1000000 = Inr 5" "milliseconds (5 + 2) 1000000 = Inr 7"
      "vtt_text ''<i>'' = ''&lt;i&gt;''" by code_simp+
    moreover have "length (clock 5) = 12" "length (clock 7) = 12"
      by (simp_all add: clock_def padded_def decimal_digits.simps Let_def)
    ultimately show ?thesis
      by (simp add: stable_sort_def bounded_source_def sample_limits_def Let_def vtt_header_def vtt_cue_def)
  qed
  then obtain out where "write_packets 1000000 (il_output_bytes (ix_limits bounded_source))
      (stable_sort (\<lambda>p q. pk_time p < pk_time q) [\<lparr>pk_time = 5, pk_duration = 2, pk_text = ''<i>''\<rparr>]) vtt_header = Inr out" ..
  then have run: "extract_matroska bounded_source sample_track fresh_reader = (Inr (out, 1), loaded 35)"
    by (simp add: extract_matroska_def rd_bind_def sample_located sample_read_headers sample_blocks rd_lift_def rd_return_def)
  have "normalize_codec ''srt'' = ''subrip''" "to_lower ''mkv'' = ''mkv''" "0 < ix_size sample_source" by code_simp+
  then show ?thesis
    using run by (simp add: extract_subtitle_def limits sample_track_def fresh_reader_def flip: bounded_source_def)
qed


section \<open>Reads\<close>

lemma sample_served: "serves bounded_source sample_file"
  by (auto simp: serves_def bounded_source_def sample_source_def take_is_prefix)

text \<open>Five bytes of the file from the page that is there: the identifier of the cues and a size.\<close>

lemma read_range_source_witness:
  "\<exists>b. read_range bounded_source 36 5 (loaded 3) = (Inr b, loaded 5) \<and> b = take 5 (drop 36 sample_file) \<and> length b = 5"
proof -
  have pages: "pages_match bounded_source sample_file (rd_pages (loaded 3))"
    unfolding pages_match_def loaded_checks
    by (simp add: page_ok_def sample_source_simps page_size_def sample_length)
  have "read_range bounded_source 36 5 (loaded 3) = (Inr (take 5 (drop 36 sample_file)), loaded 5)"
    using read_loaded [of 36 5 3] by simp
  moreover from read_range_source [OF sample_served pages this]
  have "length (take 5 (drop 36 sample_file)) = 5" by linarith
  ultimately show ?thesis by simp
qed

end
