(* ===== verification/Subtitle_Text.thy ===== *)
theory Subtitle_Text
  imports Http_Values
begin

text \<open>
  \<open>internal/subtitles/text.go\<close>: which text documents count as subtitles, and how they are written. The
  regular expression of a timing line is a function from what is left of the line to what may be left
  after the next part of it.
\<close>

datatype text_error = EmptyDocument | TextUnavailable | TextCapacity

definition max_output :: nat where "max_output = 8388608"

abbreviation line_feed :: char where "line_feed \<equiv> CHR 0x0A"

section \<open>Timing lines\<close>

definition is_digit_byte :: "char \<Rightarrow> bool" where
  "is_digit_byte c \<longleftrightarrow> CHR ''0'' \<le> c \<and> c \<le> CHR ''9''"

text \<open>\<open>\s\<close>\<close>

definition is_blank_byte :: "char \<Rightarrow> bool" where
  "is_blank_byte c \<longleftrightarrow> c \<in> {CHR 0x09, CHR 0x0A, CHR 0x0C, CHR 0x0D, CHR 0x20}"

text \<open>\<open>[0-5][0-9]:[0-5][0-9][.,][0-9]{3}\<close>\<close>

definition after_minutes :: "string \<Rightarrow> string list" where
  "after_minutes s =
     (case s of
        a # b # c # d # e # f # g # h # i # rest \<Rightarrow>
          if CHR ''0'' \<le> a \<and> a \<le> CHR ''5'' \<and> is_digit_byte b \<and> c = CHR '':'' \<and> CHR ''0'' \<le> d \<and> d \<le> CHR ''5''
             \<and> is_digit_byte e \<and> (f = CHR ''.'' \<or> f = CHR '','') \<and> is_digit_byte g \<and> is_digit_byte h \<and> is_digit_byte i
          then [rest] else []
      | _ \<Rightarrow> [])"

text \<open>\<open>[0-9]{2,}:\<close>: the digits end at the colon, so they are all of them.\<close>

definition after_hours :: "string \<Rightarrow> string list" where
  "after_hours s =
     (case dropWhile is_digit_byte s of
        c # rest \<Rightarrow> if c = CHR '':'' \<and> 2 \<le> length (takeWhile is_digit_byte s) then [rest] else []
      | [] \<Rightarrow> [])"

definition after_time :: "string \<Rightarrow> string list" where
  "after_time s = after_minutes s @ concat (map after_minutes (after_hours s))"

text \<open>\<open>\s+\<close> before a byte that is not blank.\<close>

definition after_blanks :: "string \<Rightarrow> string list" where
  "after_blanks s =
     (if takeWhile is_blank_byte s = [] then [] else [dropWhile is_blank_byte s])"

definition after_arrow :: "string \<Rightarrow> string list" where
  "after_arrow s = (if prefix ''-->'' s then [drop 3 s] else [])"

text \<open>\<open>(?:\s.*)?$\<close>\<close>

definition ends_timing :: "string \<Rightarrow> bool" where
  "ends_timing s \<longleftrightarrow> (case s of [] \<Rightarrow> True | c # rest \<Rightarrow> is_blank_byte c \<and> line_feed \<notin> set rest)"

definition timing_line :: "string \<Rightarrow> bool" where
  "timing_line s \<longleftrightarrow>
     list_ex ends_timing
       (List.bind (List.bind (List.bind (List.bind (after_time s) after_blanks) after_arrow) after_blanks) after_time)"

section \<open>Documents\<close>

text \<open>\<open>strings.SplitN(s, sep, n)\<close> for a one-byte separator and a positive \<open>n\<close>.\<close>

fun split_n :: "nat \<Rightarrow> char \<Rightarrow> string \<Rightarrow> string list" where
  "split_n 0 d s = []"
| "split_n (Suc 0) d s = [s]"
| "split_n (Suc n) d s = (case cut_char d s of None \<Rightarrow> [s] | Some (a, b) \<Rightarrow> a # split_n n d b)"

text \<open>The loop over the lines of a document with timing lines: their number and the lines written.\<close>

fun timed_lines :: "bool \<Rightarrow> string list \<Rightarrow> nat \<times> string list" where
  "timed_lines srt [] = (0, [])"
| "timed_lines srt (l # ls) =
     (let (n, out) = timed_lines srt ls;
          found = (timing_line l \<and> ls \<noteq> [] \<and> trim_space (hd ls) \<noteq> [])
      in (if found then n + 1 else n,
          (if found \<and> srt then replace_all '','' ''.'' l else l) # out))"

definition dialogue_count :: "string \<Rightarrow> nat" where
  "dialogue_count s =
     length (filter (\<lambda>l. prefix ''dialogue:'' (to_lower l)
               \<and> (let parts = split_n 10 (CHR '','') l in length parts = 10 \<and> trim_space (parts ! 9) \<noteq> []))
             (split_char line_feed s))"

definition document_format :: "string \<Rightarrow> string" where
  "document_format format =
     (let f = to_lower (trim_prefix format ''.'')
      in if f = ''subrip'' then ''srt'' else if f = ''ssa'' then ''ass'' else if f = ''webvtt'' then ''vtt'' else f)"

definition normalize_text :: "string \<Rightarrow> string \<Rightarrow> text_error + (string \<times> string \<times> nat)" where
  "normalize_text data format =
     (if data = [] then Inl EmptyDocument
      else if max_output < length data \<or> \<not> valid_utf8 data \<or> CHR 0x00 \<in> set data then Inl TextUnavailable
      else (let s = trim_space (trim_prefix data [CHR 0xEF, CHR 0xBB, CHR 0xBF]);
                s = replace_all [CHR 0x0D] [line_feed] (replace_all [CHR 0x0D, line_feed] [line_feed] s);
                f = document_format format
            in if s = [] then Inl EmptyDocument
               else if f = ''vtt'' \<or> f = ''srt'' then
                 (if f = ''vtt'' \<and> s = ''WEBVTT'' then Inl EmptyDocument
                  else if f = ''vtt'' \<and> \<not> prefix (''WEBVTT'' @ [line_feed]) s \<and> \<not> prefix ''WEBVTT '' s then Inl TextUnavailable
                  else (case timed_lines (f = ''srt'') (split_char line_feed s) of
                          (n, ls) \<Rightarrow>
                            if n = 0 then Inl (if f = ''vtt'' then EmptyDocument else TextUnavailable)
                            else (let out = join_with [line_feed] ls @ [line_feed];
                                      out = (if f = ''srt'' then ''WEBVTT'' @ [line_feed, line_feed] @ out else out)
                                  in if max_output < length out then Inl TextCapacity else Inr (out, ''vtt'', n))))
               else if f = ''ass'' then
                 (if \<not> prefix ''[script info]'' (to_lower s) \<or> \<not> contains (to_lower s) ''[events]'' then Inl TextUnavailable
                  else if dialogue_count s = 0 then Inl EmptyDocument
                  else if max_output < length s + 1 then Inl TextCapacity
                  else Inr (s @ [line_feed], ''ass'', dialogue_count s))
               else Inl TextUnavailable))"

definition text_codec :: "string \<Rightarrow> bool" where
  "text_codec codec \<longleftrightarrow> to_lower codec \<in> {''srt'', ''subrip'', ''vtt'', ''webvtt'', ''ass'', ''ssa''}"

definition safe_label :: "string \<Rightarrow> string" where
  "safe_label s =
     (if contains s ''://'' then ''[media source]''
      else concat (take 160 (filter (\<lambda>r. \<not> (length r = 1 \<and> (of_char (hd r) < (32 :: nat) \<or> hd r = CHR 0x7F))) (runes s))))"

section \<open>What is accepted\<close>

lemma normalize_text_sound:
  assumes "normalize_text data format = Inr (out, f, n)"
  shows "0 < n \<and> out \<noteq> [] \<and> length out \<le> max_output \<and> (f = ''vtt'' \<or> f = ''ass'') \<and> valid_utf8 data \<and> CHR 0x00 \<notin> set data"
  using assms
  by (auto simp: normalize_text_def Let_def split: if_splits prod.splits)

lemma timed_lines_length: "length (snd (timed_lines srt ls)) = length ls"
  by (induction ls) (auto simp: Let_def split: prod.splits)

lemma timed_lines_vtt: "snd (timed_lines False ls) = ls"
  by (induction ls) (auto simp: Let_def split: prod.splits)

text \<open>A WebVTT document that is accepted is kept as it was, up to blanks at its ends and line ends.\<close>

lemma normalize_vtt:
  assumes "normalize_text data ''vtt'' = Inr (out, f, n)"
  shows "f = ''vtt'' \<and> out = replace_all [CHR 0x0D] [line_feed] (replace_all [CHR 0x0D, line_feed] [line_feed]
    (trim_space (trim_prefix data [CHR 0xEF, CHR 0xBB, CHR 0xBF]))) @ [line_feed]"
proof -
  have "document_format ''vtt'' = ''vtt''" by code_simp
  moreover have "join_with [line_feed] ls = s" if "timed_lines False (split_char line_feed s) = (k, ls)" for k ls s
    using timed_lines_vtt [of "split_char line_feed s"] split_char_join [of line_feed s] that by simp
  ultimately show ?thesis
    using assms by (auto simp: normalize_text_def Let_def split: if_splits prod.splits)
qed

lemma sample_timing_lines:
  "timing_line ''00:01.000 --> 00:02.000'' \<and> timing_line ''01:00:01,000  --> 100:00:02.000 align:start''
   \<and> \<not> timing_line ''00:01.000 -> 00:02.000'' \<and> \<not> timing_line ''1:00:01.000 --> 00:02.000''
   \<and> \<not> timing_line ''00:61.000 --> 00:62.000''"
  by code_simp

end
