(* ===== verification/Subtitle_Store.thy ===== *)
theory Subtitle_Store
  imports Eviction Subtitle_Text
begin

text \<open>
  \<open>internal/subtitles/store.go\<close>: the files of prepared subtitles, within a budget of bytes and 4096
  files. An artifact in use (a grant or a reader pins it) is never removed. A pointer to an artifact is
  its key and a number of its own, so that a file removed and written again is another artifact.

  What the file system answers is an argument: whether a file can be removed, written or opened.
\<close>

section \<open>State\<close>

definition max_artifacts :: nat where "max_artifacts = 4096"
definition artifact_lifetime :: duration where "artifact_lifetime = 168 * hour"

record text_artifact =
  ta_id :: nat
  ta_format :: string
  ta_size :: int
  ta_pins :: int
  ta_last :: time

record text_store =
  ts_budget :: int
  ts_used :: int
  ts_files :: "(string, text_artifact) gomap"
  ts_next :: nat

definition store_size :: "text_store \<Rightarrow> int" where
  "store_size s = sum_list (map (ta_size \<circ> snd) (ts_files s))"

section \<open>Making room\<close>

text \<open>The scan for the file that was used longest ago and that nothing pins.\<close>

fun oldest_unpinned :: "(string \<times> text_artifact) list \<Rightarrow> (string \<times> text_artifact) option \<Rightarrow> (string \<times> text_artifact) option" where
  "oldest_unpinned [] best = best"
| "oldest_unpinned (e # es) best =
     oldest_unpinned es
       (if ta_pins (snd e) = 0 \<and> (case best of None \<Rightarrow> True | Some b \<Rightarrow> ta_last (snd e) < ta_last (snd b))
        then Some e else best)"

definition artifact_file :: "string \<Rightarrow> text_artifact \<Rightarrow> string" where
  "artifact_file key a = key @ ''.'' @ ta_format a"

definition remove_oldest :: "(string \<Rightarrow> bool) \<Rightarrow> text_store \<Rightarrow> text_store + text_store" where
  "remove_oldest removed s =
     (case oldest_unpinned (ts_files s) None of
        None \<Rightarrow> Inl s
      | Some (key, a) \<Rightarrow>
          if \<not> removed (artifact_file key a) then Inl s
          else Inr (s\<lparr>ts_files := AList.delete key (ts_files s), ts_used := ts_used s - ta_size a\<rparr>))"

definition store_full :: "int \<Rightarrow> text_store \<Rightarrow> bool" where
  "store_full n s \<longleftrightarrow> ts_budget s - n < ts_used s \<or> max_artifacts \<le> length (ts_files s)"

lemma oldest_unpinned_in:
  "oldest_unpinned es best = Some e \<Longrightarrow> best = Some e \<or> e \<in> set es \<and> ta_pins (snd e) = 0"
  by (induction es arbitrary: best) (force split: if_splits)+

lemma remove_oldest_shrinks: "remove_oldest removed s = Inr s' \<Longrightarrow> length (ts_files s') < length (ts_files s)"
proof -
  assume "remove_oldest removed s = Inr s'"
  then obtain key a where o: "oldest_unpinned (ts_files s) None = Some (key, a)"
    and s': "ts_files s' = AList.delete key (ts_files s)"
    by (auto simp: remove_oldest_def split: option.splits if_splits)
  from oldest_unpinned_in [OF o] have "(key, a) \<in> set (ts_files s)" by auto
  then show ?thesis unfolding s' AList.delete_eq by (intro length_filter_less) auto
qed

function room_loop :: "(string \<Rightarrow> bool) \<Rightarrow> int \<Rightarrow> text_store \<Rightarrow> text_store + text_store" where
  "room_loop removed n s =
     (if store_full n s then (case remove_oldest removed s of Inl s' \<Rightarrow> Inl s' | Inr s' \<Rightarrow> room_loop removed n s')
      else Inr s)"
  by pat_completeness auto
termination
  by (relation "measure (\<lambda>(_, _, s). length (ts_files s))") (auto dest: remove_oldest_shrinks)

declare room_loop.simps [simp del]

text \<open>\<open>space\<close>: \<open>Inl\<close> when there is no room; what was removed on the way stays removed.\<close>

definition make_space :: "(string \<Rightarrow> bool) \<Rightarrow> int \<Rightarrow> text_store \<Rightarrow> text_store + text_store" where
  "make_space removed n s = (if n < 0 \<or> ts_budget s < n then Inl s else room_loop removed n s)"

section \<open>Operations\<close>

definition put_text ::
  "(string \<Rightarrow> bool) \<Rightarrow> bool \<Rightarrow> time \<Rightarrow> string \<Rightarrow> string \<Rightarrow> nat \<Rightarrow> text_store \<Rightarrow> text_artifact option \<times> text_store" where
  "put_text removed written now key format len s =
     (case map_of (ts_files s) key of
        Some a \<Rightarrow>
          (let a = a\<lparr>ta_last := now\<rparr> in (Some a, s\<lparr>ts_files := AList.update key a (ts_files s)\<rparr>))
      | None \<Rightarrow>
          if len = 0 \<or> max_output < len then (None, s)
          else (case make_space removed (int len) s of
                  Inl s \<Rightarrow> (None, s)
                | Inr s \<Rightarrow>
                    if \<not> written then (None, s)
                    else (let a = \<lparr>ta_id = ts_next s, ta_format = format, ta_size = int len, ta_pins = 0, ta_last = now\<rparr>
                          in (Some a, s\<lparr>ts_files := AList.update key a (ts_files s), ts_used := ts_used s + int len,
                                ts_next := ts_next s + 1\<rparr>))))"

text \<open>\<open>read\<close>: \<open>opened\<close> says whether the file opens and has the artifact's size.\<close>

definition read_text :: "bool \<Rightarrow> time \<Rightarrow> string \<Rightarrow> text_artifact \<Rightarrow> text_store \<Rightarrow> bool \<times> text_store" where
  "read_text opened now key a s =
     (if \<not> opened then (False, s) else (True, s\<lparr>ts_files := AList.update key (a\<lparr>ta_last := now\<rparr>) (ts_files s)\<rparr>))"

definition discard_text :: "(string \<Rightarrow> bool) \<Rightarrow> string \<Rightarrow> nat \<Rightarrow> text_store \<Rightarrow> bool \<times> text_store" where
  "discard_text removed key i s =
     (case map_of (ts_files s) key of
        None \<Rightarrow> (True, s)
      | Some a \<Rightarrow>
          if ta_id a \<noteq> i \<or> ta_pins a \<noteq> 0 \<or> \<not> removed (artifact_file key a) then (False, s)
          else (True, s\<lparr>ts_files := AList.delete key (ts_files s), ts_used := ts_used s - ta_size a\<rparr>))"

definition pin_text :: "int \<Rightarrow> string \<Rightarrow> text_store \<Rightarrow> text_store" where
  "pin_text d key s =
     (case map_of (ts_files s) key of
        None \<Rightarrow> s
      | Some a \<Rightarrow> s\<lparr>ts_files := AList.update key (a\<lparr>ta_pins := ta_pins a + d\<rparr>) (ts_files s)\<rparr>)"

section \<open>Opening\<close>

record dir_entry =
  de_name :: string
  de_regular :: bool
  de_size :: int
  de_modified :: time

definition is_hex_byte :: "char \<Rightarrow> bool" where
  "is_hex_byte c \<longleftrightarrow> is_digit_byte c \<or> CHR ''a'' \<le> c \<and> c \<le> CHR ''f'' \<or> CHR ''A'' \<le> c \<and> c \<le> CHR ''F''"

definition artifact_name :: "string \<Rightarrow> (string \<times> string) option" where
  "artifact_name name =
     (case cut_char (CHR ''.'') name of
        None \<Rightarrow> None
      | Some (key, format) \<Rightarrow>
          if length key = 64 \<and> list_all is_hex_byte key \<and> (format = ''vtt'' \<or> format = ''ass'') then Some (key, format) else None)"

text \<open>The loop over the entries of the directory; \<open>None\<close> when one of them is not the gateway's.\<close>

fun load_entries :: "(string \<Rightarrow> bool) \<Rightarrow> time \<Rightarrow> dir_entry list \<Rightarrow> text_store \<Rightarrow> text_store option" where
  "load_entries removed now [] s = Some s"
| "load_entries removed now (e # es) s =
     (if de_name e = ''.owner'' \<or> de_name e = ''.lock'' then load_entries removed now es s
      else if de_name e = ''.partial'' then (if removed (de_name e) then load_entries removed now es s else None)
      else (case artifact_name (de_name e) of
              None \<Rightarrow> None
            | Some (key, format) \<Rightarrow>
                if \<not> de_regular e \<or> int max_output < de_size e then None
                else if artifact_lifetime < time_sub now (de_modified e) then
                  (if removed (de_name e) then load_entries removed now es s else None)
                else load_entries removed now es
                       (s\<lparr>ts_files := AList.update key \<lparr>ta_id = ts_next s, ta_format = format, ta_size = de_size e, ta_pins = 0,
                            ta_last = de_modified e\<rparr> (ts_files s),
                          ts_used := ts_used s + de_size e, ts_next := ts_next s + 1\<rparr>)))"

text \<open>\<open>openStore\<close> after the lock and the marker of the directory are checked.\<close>

definition open_store :: "(string \<Rightarrow> bool) \<Rightarrow> time \<Rightarrow> int \<Rightarrow> dir_entry list \<Rightarrow> text_store option" where
  "open_store removed now budget entries =
     (if max_artifacts + 3 < length entries then None
      else (case load_entries removed now entries \<lparr>ts_budget = budget, ts_used = 0, ts_files = [], ts_next = 0\<rparr> of
              None \<Rightarrow> None
            | Some s \<Rightarrow> (case make_space removed 0 s of Inl _ \<Rightarrow> None | Inr s \<Rightarrow> Some s)))"

section \<open>The books of the store\<close>

text \<open>What holds of the files while room is made, and what holds between operations.\<close>

definition files_ok :: "text_store \<Rightarrow> bool" where
  "files_ok s \<longleftrightarrow> distinct_keys (ts_files s) \<and> (\<forall>a \<in> snd ` set (ts_files s). 0 \<le> ta_size a \<and> ta_id a < ts_next s)
     \<and> ts_used s = store_size s"

definition store_ok :: "text_store \<Rightarrow> bool" where
  "store_ok s \<longleftrightarrow> files_ok s \<and> ts_used s \<le> ts_budget s \<and> length (ts_files s) \<le> max_artifacts"

definition pinned_files :: "text_store \<Rightarrow> (string \<times> text_artifact) set" where
  "pinned_files s = {e \<in> set (ts_files s). ta_pins (snd e) \<noteq> 0}"

lemma size_delete:
  "distinct_keys m \<Longrightarrow> map_of m k = Some a \<Longrightarrow>
     sum_list (map (ta_size \<circ> snd) (AList.delete k m)) = sum_list (map (ta_size \<circ> snd) m) - ta_size a"
proof (induction m)
  case (Cons e m)
  then show ?case
  proof (cases "fst e = k")
    case True
    then have "k \<notin> fst ` set m" using Cons.prems(1) by auto
    then have "AList.delete k m = m" by (simp add: delete_id)
    then show ?thesis using True Cons.prems(2) by (cases e) auto
  next
    case False
    then show ?thesis using Cons by (cases e) auto
  qed
qed simp

lemma size_update:
  "distinct_keys m \<Longrightarrow>
     sum_list (map (ta_size \<circ> snd) (AList.update k a m)) =
       sum_list (map (ta_size \<circ> snd) m) - (case map_of m k of None \<Rightarrow> 0 | Some b \<Rightarrow> ta_size b) + ta_size a"
proof (induction m)
  case (Cons e m)
  then show ?case by (cases e) (auto split: option.splits)
qed simp

lemma remove_oldest_Inr:
  assumes "remove_oldest removed s = Inr s'"
  shows "\<exists>key a. (key, a) \<in> set (ts_files s) \<and> ta_pins a = 0 \<and>
    s' = s\<lparr>ts_files := AList.delete key (ts_files s), ts_used := ts_used s - ta_size a\<rparr>"
proof -
  obtain key a where o: "oldest_unpinned (ts_files s) None = Some (key, a)"
    and s': "s' = s\<lparr>ts_files := AList.delete key (ts_files s), ts_used := ts_used s - ta_size a\<rparr>"
    using assms by (auto simp: remove_oldest_def split: option.splits if_splits)
  from oldest_unpinned_in [OF o] s' show ?thesis by auto
qed

lemma remove_oldest_Inl: "remove_oldest removed s = Inl s' \<Longrightarrow> s' = s"
  by (auto simp: remove_oldest_def split: option.splits if_splits)

lemma remove_oldest_ok:
  assumes "files_ok s" and "remove_oldest removed s = Inr s'"
  shows "files_ok s'" and "pinned_files s \<subseteq> pinned_files s'" and "ts_budget s' = ts_budget s" and "ts_next s' = ts_next s"
proof -
  obtain key a where a: "(key, a) \<in> set (ts_files s)" "ta_pins a = 0"
    and s': "s' = s\<lparr>ts_files := AList.delete key (ts_files s), ts_used := ts_used s - ta_size a\<rparr>"
    using remove_oldest_Inr [OF assms(2)] by blast
  have keys: "distinct_keys (ts_files s)" using assms(1) by (simp add: files_ok_def)
  then have k: "map_of (ts_files s) key = Some a" using a(1) by simp
  show "files_ok s'"
    using assms(1) size_delete [OF keys k] set_delete_subset [of key "ts_files s"]
    by (auto simp: files_ok_def s' store_size_def)
  show "pinned_files s \<subseteq> pinned_files s'"
  proof
    fix e assume "e \<in> pinned_files s"
    moreover obtain k b where e: "e = (k, b)" by (cases e)
    ultimately have b: "(k, b) \<in> set (ts_files s)" "ta_pins b \<noteq> 0" by (auto simp: pinned_files_def)
    have "k \<noteq> key" using b a keys k by (metis eq_key_imp_eq_value)
    then show "e \<in> pinned_files s'" using b e by (simp add: pinned_files_def s' AList.delete_eq)
  qed
qed (use assms(2) remove_oldest_Inr in fastforce)+

interpretation text_room: safe_eviction "store_full n" "remove_oldest removed" "room_loop removed n"
  "length \<circ> ts_files" files_ok files_ok pinned_files pinned_files for n removed
proof
  fix s s'
  show "room_loop removed n s = (if store_full n s then (case remove_oldest removed s of Inl f \<Rightarrow> Inl f
      | Inr s' \<Rightarrow> room_loop removed n s') else Inr s)"
    by (rule room_loop.simps)
  assume ok: "files_ok s"
  { assume "remove_oldest removed s = Inr s'"
    then show "(length \<circ> ts_files) s' < (length \<circ> ts_files) s" and "files_ok s'" and "pinned_files s \<subseteq> pinned_files s'"
      using remove_oldest_shrinks remove_oldest_ok ok by auto }
  { assume "remove_oldest removed s = Inl s'"
    then show "files_ok s'" and "pinned_files s \<subseteq> pinned_files s'" using remove_oldest_Inl ok by auto }
qed

section \<open>What the operations keep\<close>

definition pins_of :: "text_store \<Rightarrow> string \<Rightarrow> int" where
  "pins_of s key = (case map_of (ts_files s) key of None \<Rightarrow> 0 | Some a \<Rightarrow> ta_pins a)"

definition id_of :: "text_store \<Rightarrow> string \<Rightarrow> nat option" where
  "id_of s key = map_option ta_id (map_of (ts_files s) key)"

text \<open>The pins are the same, and what is pinned is the same file.\<close>

definition spares_pinned :: "text_store \<Rightarrow> text_store \<Rightarrow> bool" where
  "spares_pinned s s' \<longleftrightarrow> pins_of s' = pins_of s \<and> (\<forall>k. pins_of s k \<noteq> 0 \<longrightarrow> id_of s' k = id_of s k)"

lemma spares_refl [simp, intro]: "spares_pinned s s"
  by (simp add: spares_pinned_def)

lemma spares_trans: "spares_pinned s t \<Longrightarrow> spares_pinned t u \<Longrightarrow> spares_pinned s u"
  by (auto simp: spares_pinned_def)

lemma room_loop_files:
  "room_loop removed n s = Inr s' \<or> room_loop removed n s = Inl s' \<Longrightarrow>
     set (ts_files s') \<subseteq> set (ts_files s) \<and> ts_budget s' = ts_budget s \<and> ts_next s' = ts_next s"
proof (induction removed n s rule: room_loop.induct)
  case (1 removed n s)
  note unfold = room_loop.simps [of removed n s]
  show ?case
  proof (cases "store_full n s")
    case False
    then show ?thesis using "1.prems" by (auto simp: unfold)
  next
    case full: True
    show ?thesis
    proof (cases "remove_oldest removed s")
      case (Inl t)
      then show ?thesis using "1.prems" full remove_oldest_Inl [OF Inl] by (auto simp: unfold)
    next
      case (Inr t)
      then have "set (ts_files t) \<subseteq> set (ts_files s) \<and> ts_budget t = ts_budget s \<and> ts_next t = ts_next s"
        using remove_oldest_Inr [OF Inr] set_delete_subset by fastforce
      moreover have "room_loop removed n t = Inr s' \<or> room_loop removed n t = Inl s'"
        using "1.prems" full Inr by (simp add: unfold)
      ultimately show ?thesis using "1.IH" [OF full Inr] by (simp add: subset_iff)
    qed
  qed
qed

lemma spares_subset:
  assumes "files_ok s" and "files_ok s'" and "set (ts_files s') \<subseteq> set (ts_files s)" and "pinned_files s \<subseteq> pinned_files s'"
  shows "spares_pinned s s'"
proof -
  have keys: "distinct_keys (ts_files s)" "distinct_keys (ts_files s')" using assms(1,2) by (simp_all add: files_ok_def)
  have same: "map_of (ts_files s') k = Some a \<Longrightarrow> map_of (ts_files s) k = Some a" for k a
  proof -
    assume "map_of (ts_files s') k = Some a"
    then have "(k, a) \<in> set (ts_files s')" by (rule map_of_SomeD)
    then have "(k, a) \<in> set (ts_files s)" using assms(3) by (rule subsetD [rotated])
    then show "map_of (ts_files s) k = Some a" using keys(1) by simp
  qed
  have kept: "map_of (ts_files s) k = Some a \<Longrightarrow> ta_pins a \<noteq> 0 \<Longrightarrow> map_of (ts_files s') k = Some a" for k a
  proof -
    assume a: "map_of (ts_files s) k = Some a" "ta_pins a \<noteq> 0"
    then have "(k, a) \<in> pinned_files s" using keys(1) by (simp add: pinned_files_def)
    then have "(k, a) \<in> set (ts_files s')" using assms(4) by (auto simp: pinned_files_def)
    then show "map_of (ts_files s') k = Some a" using keys(2) by simp
  qed
  have "pins_of s' k = pins_of s k" for k
  proof (cases "map_of (ts_files s') k")
    case None
    then show ?thesis using kept by (fastforce simp: pins_of_def split: option.splits)
  next
    case (Some a)
    then show ?thesis using same by (simp add: pins_of_def)
  qed
  moreover have "id_of s' k = id_of s k" if "pins_of s k \<noteq> 0" for k
    using that kept by (auto simp: pins_of_def id_of_def split: option.splits)
  ultimately show ?thesis by (simp add: spares_pinned_def fun_eq_iff)
qed

lemma make_space_ok:
  assumes "files_ok s" and "make_space removed n s = Inr s' \<or> make_space removed n s = Inl s'"
  shows "files_ok s'" and "spares_pinned s s'" and "ts_budget s' = ts_budget s" and "ts_next s' = ts_next s"
    and "set (ts_files s') \<subseteq> set (ts_files s)"
proof -
  consider "s' = s" | "room_loop removed n s = Inr s'" | "room_loop removed n s = Inl s'"
    using assms(2) by (auto simp: make_space_def split: if_splits)
  then have "files_ok s' \<and> pinned_files s \<subseteq> pinned_files s'"
    using assms(1) text_room.loop_result [OF assms(1), where n = n and removed = removed]
      text_room.loop_spares [OF assms(1), where n = n and removed = removed]
    by cases auto
  moreover have sub: "set (ts_files s') \<subseteq> set (ts_files s) \<and> ts_budget s' = ts_budget s \<and> ts_next s' = ts_next s"
    using assms(2) room_loop_files by (auto simp: make_space_def split: if_splits)
  ultimately show "files_ok s'" and "spares_pinned s s'" and "ts_budget s' = ts_budget s" and "ts_next s' = ts_next s"
    and "set (ts_files s') \<subseteq> set (ts_files s)"
    using spares_subset assms(1) by blast+
qed

lemma make_space_Inr:
  assumes "files_ok s" and "make_space removed n s = Inr s'"
  shows "ts_used s' + n \<le> ts_budget s'" and "length (ts_files s') < max_artifacts"
proof -
  have "\<not> store_full n s'"
    using text_room.loop_room [OF assms(1)] assms(2) by (auto simp: make_space_def split: if_splits)
  then show "ts_used s' + n \<le> ts_budget s'" and "length (ts_files s') < max_artifacts"
    by (auto simp: store_full_def)
qed

interpretation text_books: eviction_loop "store_full n" "remove_oldest removed" "room_loop removed n"
  "length \<circ> ts_files" store_ok store_ok for n removed
proof
  fix s s'
  show "room_loop removed n s = (if store_full n s then (case remove_oldest removed s of Inl f \<Rightarrow> Inl f
      | Inr s' \<Rightarrow> room_loop removed n s') else Inr s)"
    by (rule room_loop.simps)
  assume ok: "store_ok s"
  { assume oldest: "remove_oldest removed s = Inr s'"
    then show shrunk: "(length \<circ> ts_files) s' < (length \<circ> ts_files) s" using remove_oldest_shrinks by auto
    obtain key a where a: "(key, a) \<in> set (ts_files s)"
      and s': "s' = s\<lparr>ts_files := AList.delete key (ts_files s), ts_used := ts_used s - ta_size a\<rparr>"
      using remove_oldest_Inr [OF oldest] by blast
    have "0 \<le> ta_size a" using ok a by (force simp: store_ok_def files_ok_def)
    moreover have "files_ok s'" using ok remove_oldest_ok(1) [OF _ oldest] by (simp add: store_ok_def)
    ultimately show "store_ok s'" using ok shrunk by (simp add: store_ok_def s') }
  { assume "remove_oldest removed s = Inl s'"
    then show "store_ok s'" using remove_oldest_Inl ok by auto }
qed

lemma make_space_books:
  assumes "store_ok s" and "make_space removed n s = Inr s' \<or> make_space removed n s = Inl s'"
  shows "store_ok s'"
proof -
  consider "s' = s" | "room_loop removed n s = Inr s'" | "room_loop removed n s = Inl s'"
    using assms(2) by (auto simp: make_space_def split: if_splits)
  then show ?thesis
    using assms(1) text_books.loop_result [OF assms(1), where n = n and removed = removed] by cases auto
qed

text \<open>A file is replaced by one of the same size and number.\<close>

lemma touch_ok:
  assumes "store_ok s" and "map_of (ts_files s) key = Some a" and "ta_size b = ta_size a" and "ta_id b = ta_id a"
  shows "store_ok (s\<lparr>ts_files := AList.update key b (ts_files s)\<rparr>)"
proof -
  have "(key, a) \<in> set (ts_files s)" using assms(1,2) by (simp add: store_ok_def files_ok_def)
  then have b: "0 \<le> ta_size b" "ta_id b < ts_next s" using assms by (force simp: store_ok_def files_ok_def)+
  have "store_size (s\<lparr>ts_files := AList.update key b (ts_files s)\<rparr>) = store_size s"
    using assms size_update [of "ts_files s" key b] by (simp add: store_ok_def files_ok_def store_size_def)
  moreover have "\<forall>c \<in> snd ` set (AList.update key b (ts_files s)). 0 \<le> ta_size c \<and> ta_id c < ts_next s"
  proof
    fix c assume "c \<in> snd ` set (AList.update key b (ts_files s))"
    then obtain k where "(k, c) \<in> set (AList.update key b (ts_files s))" by auto
    then have "(k, c) \<in> insert (key, b) (set (ts_files s))" using set_update_subset by (rule rev_subsetD)
    then have "c = b \<or> c \<in> snd ` set (ts_files s)" by force
    then show "0 \<le> ta_size c \<and> ta_id c < ts_next s" using assms(1) b by (auto simp: store_ok_def files_ok_def)
  qed
  ultimately show ?thesis
    using assms(1) length_update_old [OF assms(2), of b] by (simp add: store_ok_def files_ok_def)
qed

lemma update_pins:
  "pins_of (s\<lparr>ts_files := AList.update key b (ts_files s)\<rparr>) = (pins_of s)(key := ta_pins b)"
  "id_of (s\<lparr>ts_files := AList.update key b (ts_files s)\<rparr>) = (id_of s)(key := Some (ta_id b))"
  by (auto simp: pins_of_def id_of_def update_conv fun_eq_iff)


lemma touch_same:
  "map_of (ts_files s) key = Some a \<Longrightarrow> ta_pins b = ta_pins a \<Longrightarrow> ta_id b = ta_id a \<Longrightarrow>
     spares_pinned s (s\<lparr>ts_files := AList.update key b (ts_files s)\<rparr>)"
  by (simp add: spares_pinned_def update_pins) (auto simp: pins_of_def id_of_def)

lemma read_text_ok:
  assumes "store_ok s" and "map_of (ts_files s) key = Some a"
  shows "store_ok (snd (read_text opened now key a s))" and "spares_pinned s (snd (read_text opened now key a s))"
    and "id_of (snd (read_text opened now key a s)) = id_of s"
proof -
  show "store_ok (snd (read_text opened now key a s))"
    using assms touch_ok [OF assms, of "a\<lparr>ta_last := now\<rparr>"] by (simp add: read_text_def)
  show "spares_pinned s (snd (read_text opened now key a s))"
    using touch_same [OF assms(2), of "a\<lparr>ta_last := now\<rparr>"] by (simp add: read_text_def)
  show "id_of (snd (read_text opened now key a s)) = id_of s"
    using assms(2) by (simp add: read_text_def update_pins) (auto simp: id_of_def)
qed

lemma pin_text_ok:
  assumes "store_ok s"
  shows "store_ok (pin_text d key s)"
proof (cases "map_of (ts_files s) key")
  case (Some a)
  then show ?thesis using touch_ok [OF assms Some, of "a\<lparr>ta_pins := ta_pins a + d\<rparr>"] by (simp add: pin_text_def)
qed (simp add: pin_text_def assms)

lemma pin_text_pins:
  "id_of s key \<noteq> None \<Longrightarrow> pins_of (pin_text d key s) = (pins_of s)(key := pins_of s key + d)"
  "id_of (pin_text d key s) = id_of s"
proof -
  show "pins_of (pin_text d key s) = (pins_of s)(key := pins_of s key + d)" if known: "id_of s key \<noteq> None"
  proof -
    obtain a where a: "map_of (ts_files s) key = Some a"
      using known by (cases "map_of (ts_files s) key") (simp_all add: id_of_def)
    then have "pins_of s key = ta_pins a" by (simp add: pins_of_def)
    then show ?thesis using a by (simp add: pin_text_def update_pins)
  qed
  show "id_of (pin_text d key s) = id_of s"
  proof (cases "map_of (ts_files s) key")
    case (Some a)
    then have "id_of s key = Some (ta_id a)" by (simp add: id_of_def)
    then show ?thesis using Some by (simp add: pin_text_def update_pins fun_upd_idem)
  qed (simp add: pin_text_def)
qed

lemma delete_files_ok:
  assumes "store_ok s" and "map_of (ts_files s) key = Some a"
  shows "store_ok (s\<lparr>ts_files := AList.delete key (ts_files s), ts_used := ts_used s - ta_size a\<rparr>)"
proof -
  have keys: "distinct_keys (ts_files s)" using assms(1) by (simp add: store_ok_def files_ok_def)
  have "0 \<le> ta_size a" using assms by (force simp: store_ok_def files_ok_def dest: map_of_SomeD)
  moreover have "length (AList.delete key (ts_files s)) \<le> length (ts_files s)" by (simp add: AList.delete_eq)
  ultimately show ?thesis
    using assms(1) size_delete [OF keys assms(2)] set_delete_subset [of key "ts_files s"]
    by (auto simp: store_ok_def files_ok_def store_size_def)
qed

lemma discard_text_ok:
  assumes "store_ok s"
  shows "store_ok (snd (discard_text removed key i s))" and "spares_pinned s (snd (discard_text removed key i s))"
proof -
  show "store_ok (snd (discard_text removed key i s))"
    using assms delete_files_ok [OF assms, of key] by (simp add: discard_text_def split: option.split)
  show "spares_pinned s (snd (discard_text removed key i s))"
    by (simp add: discard_text_def spares_pinned_def pins_of_def id_of_def fun_eq_iff delete_conv split: option.split)
qed


text \<open>A file is added after room was made for it.\<close>

lemma add_file_ok:
  assumes "store_ok s" and "map_of (ts_files s) key = None" and "ta_size a = n" and "0 \<le> n" and "ta_id a = ts_next s" and "ta_pins a = 0"
    and "ts_used s + n \<le> ts_budget s" and "length (ts_files s) < max_artifacts"
  defines "s' \<equiv> s\<lparr>ts_files := AList.update key a (ts_files s), ts_used := ts_used s + n, ts_next := ts_next s + 1\<rparr>"
  shows "store_ok s'" and "spares_pinned s s'" and "map_of (ts_files s') key = Some a"
proof -
  have files: "files_ok s" using assms(1) by (simp add: store_ok_def)
  have "store_size s' = store_size s + n"
    using files assms(2,3) size_update [of "ts_files s" key a] by (simp add: s'_def store_size_def files_ok_def)
  moreover have "\<forall>c \<in> snd ` set (ts_files s'). 0 \<le> ta_size c \<and> ta_id c < ts_next s'"
  proof
    fix c assume "c \<in> snd ` set (ts_files s')"
    then obtain k where "(k, c) \<in> set (AList.update key a (ts_files s))" by (auto simp: s'_def)
    then have "(k, c) \<in> insert (key, a) (set (ts_files s))" using set_update_subset by (rule rev_subsetD)
    then have "c = a \<or> c \<in> snd ` set (ts_files s)" by force
    then show "0 \<le> ta_size c \<and> ta_id c < ts_next s'" using files assms(3-5) by (auto simp: files_ok_def s'_def)
  qed
  ultimately have "files_ok s'" using files by (simp add: files_ok_def s'_def)
  moreover have "length (ts_files s') = Suc (length (ts_files s))"
    using length_update_new [OF assms(2)] by (simp add: s'_def)
  ultimately show "store_ok s'" using assms(7,8) by (simp add: store_ok_def) (simp add: s'_def)
  show "map_of (ts_files s') key = Some a" by (simp add: s'_def update_conv')
  show "spares_pinned s s'"
    using assms(2,6) by (auto simp: s'_def spares_pinned_def pins_of_def id_of_def fun_eq_iff update_conv)
qed

lemma put_text_ok:
  assumes "store_ok s" and "put_text removed written now key format n s = (result, s')"
  shows "store_ok s'" and "spares_pinned s s'" and "result = Some a \<Longrightarrow> map_of (ts_files s') key = Some a"
proof -
  have "store_ok s' \<and> spares_pinned s s' \<and> (result = Some a \<longrightarrow> map_of (ts_files s') key = Some a)"
  proof (cases "map_of (ts_files s) key")
    case (Some b)
    then have "result = Some (b\<lparr>ta_last := now\<rparr>)" "s' = s\<lparr>ts_files := AList.update key (b\<lparr>ta_last := now\<rparr>) (ts_files s)\<rparr>"
      using assms(2) by (simp_all add: put_text_def Let_def)
    then show ?thesis
      using touch_ok [OF assms(1) Some, of "b\<lparr>ta_last := now\<rparr>"] touch_same [OF Some, of "b\<lparr>ta_last := now\<rparr>"]
      by (auto simp: update_conv')
  next
    case None
    then consider "result = None" "s' = s"
      | t where "make_space removed (int n) s = Inl t \<or> make_space removed (int n) s = Inr t" "result = None" "s' = t"
      | t b where "make_space removed (int n) s = Inr t" "b = \<lparr>ta_id = ts_next t, ta_format = format, ta_size = int n, ta_pins = 0, ta_last = now\<rparr>"
        "result = Some b" "s' = t\<lparr>ts_files := AList.update key b (ts_files t), ts_used := ts_used t + int n, ts_next := ts_next t + 1\<rparr>"
      using assms(2) by (auto simp: put_text_def Let_def split: if_splits sum.splits)
    then show ?thesis
    proof cases
      case 2
      have "files_ok s" using assms(1) by (simp add: store_ok_def)
      then show ?thesis using 2 make_space_ok(2) make_space_books assms(1) by blast
    next
      case (3 t b)
      have files: "files_ok s" using assms(1) by (simp add: store_ok_def)
      note room = make_space_ok [OF files disjI1 [OF 3(1)]] make_space_Inr [OF files 3(1)]
      have t: "spares_pinned s t" "store_ok t" "set (ts_files t) \<subseteq> set (ts_files s)"
        using room make_space_books [OF assms(1) disjI1 [OF 3(1)]] by blast+
      have "fst ` set (ts_files t) \<subseteq> fst ` set (ts_files s)" using t(3) by (rule image_mono)
      moreover have "key \<notin> fst ` set (ts_files s)" using None by (simp add: map_of_eq_None_iff)
      ultimately have new: "map_of (ts_files t) key = None" by (auto simp: map_of_eq_None_iff)
      have "store_ok s' \<and> spares_pinned t s' \<and> map_of (ts_files s') key = Some b"
        using add_file_ok [OF t(2) new, of b "int n"] room 3(2,4) by simp
      then show ?thesis using 3(3) spares_trans [OF t(1)] by auto
    qed (simp add: assms(1))
  qed
  then show "store_ok s'" and "spares_pinned s s'" and "result = Some a \<Longrightarrow> map_of (ts_files s') key = Some a" by auto
qed


section \<open>The store that was opened\<close>

definition entry_keys :: "dir_entry list \<Rightarrow> string list" where
  "entry_keys es = List.map_filter (\<lambda>e. map_option fst (artifact_name (de_name e))) es"

definition unpinned_files :: "text_store \<Rightarrow> bool" where
  "unpinned_files s \<longleftrightarrow> (\<forall>a \<in> snd ` set (ts_files s). ta_pins a = 0)"

lemma load_entry_ok:
  assumes "files_ok s" and "unpinned_files s" and "map_of (ts_files s) key = None" and "0 \<le> ta_size a" and "ta_id a = ts_next s"
    and "ta_pins a = 0"
  defines "s' \<equiv> s\<lparr>ts_files := AList.update key a (ts_files s), ts_used := ts_used s + ta_size a, ts_next := ts_next s + 1\<rparr>"
  shows "files_ok s'" and "unpinned_files s'"
proof -
  have "store_size s' = store_size s + ta_size a"
    using assms(1,3) size_update [of "ts_files s" key a] by (simp add: s'_def store_size_def files_ok_def)
  moreover have old: "c = a \<or> c \<in> snd ` set (ts_files s)" if in_new: "c \<in> snd ` set (ts_files s')" for c
  proof -
    obtain k where "(k, c) \<in> set (AList.update key a (ts_files s))" using in_new by (auto simp: s'_def)
    then have "(k, c) \<in> insert (key, a) (set (ts_files s))" using set_update_subset by (rule rev_subsetD)
    then show ?thesis by force
  qed
  moreover have "\<forall>c \<in> snd ` set (ts_files s'). 0 \<le> ta_size c \<and> ta_id c < ts_next s'"
  proof
    fix c assume "c \<in> snd ` set (ts_files s')"
    then have "c = a \<or> c \<in> snd ` set (ts_files s)" by (rule old)
    then show "0 \<le> ta_size c \<and> ta_id c < ts_next s'" using assms(1,4,5) by (auto simp: files_ok_def s'_def)
  qed
  ultimately show "files_ok s'" using assms(1) by (simp add: files_ok_def) (simp add: s'_def)
  have "ta_pins c = 0" if "c \<in> snd ` set (ts_files s')" for c
    using old [OF that] assms(2,6) by (auto simp: unpinned_files_def)
  then show "unpinned_files s'" unfolding unpinned_files_def by (rule ballI)
qed

lemma load_entries_ok:
  assumes "files_ok s" and "unpinned_files s" and "\<forall>e \<in> set es. 0 \<le> de_size e" and "distinct (entry_keys es)"
    and "set (entry_keys es) \<inter> fst ` set (ts_files s) = {}" and "load_entries removed now es s = Some s'"
  shows "files_ok s' \<and> unpinned_files s' \<and> ts_budget s' = ts_budget s"
  using assms
proof (induction es arbitrary: s)
  case (Cons e es)
  have rest: "distinct (entry_keys es)" "set (entry_keys es) \<subseteq> set (entry_keys (e # es))"
    using Cons.prems(4) by (auto simp: entry_keys_def map_filter_simps split: option.splits)
  then have apart: "set (entry_keys es) \<inter> fst ` set (ts_files s) = {}" using Cons.prems(5) by blast
  have sizes: "\<forall>e \<in> set es. 0 \<le> de_size e" "0 \<le> de_size e" using Cons.prems(3) by simp_all
  consider "load_entries removed now es s = Some s'"
    | key format a where "artifact_name (de_name e) = Some (key, format)"
      "a = \<lparr>ta_id = ts_next s, ta_format = format, ta_size = de_size e, ta_pins = 0, ta_last = de_modified e\<rparr>"
      "load_entries removed now es (s\<lparr>ts_files := AList.update key a (ts_files s), ts_used := ts_used s + ta_size a,
         ts_next := ts_next s + 1\<rparr>) = Some s'"
    using Cons.prems(6) by (auto split: if_splits option.splits)
  then show ?case
  proof cases
    case 1
    then show ?thesis using Cons.IH [OF Cons.prems(1,2) sizes(1) rest(1) apart] by simp
  next
    case (2 key format a)
    have key: "key \<in> set (entry_keys (e # es))" "key \<notin> set (entry_keys es)"
      using 2(1) Cons.prems(4) by (simp_all add: entry_keys_def map_filter_simps)
    then have new: "map_of (ts_files s) key = None" using Cons.prems(5) by (auto simp: map_of_eq_None_iff)
    define t where "t = s\<lparr>ts_files := AList.update key a (ts_files s), ts_used := ts_used s + ta_size a, ts_next := ts_next s + 1\<rparr>"
    have "files_ok t" "unpinned_files t"
      unfolding t_def using load_entry_ok [OF Cons.prems(1,2) new, of a] 2(2) sizes(2) by simp_all
    moreover have "set (entry_keys es) \<inter> fst ` set (ts_files t) = {}" using key(2) apart by (simp add: t_def dom_update)
    ultimately have "files_ok s' \<and> unpinned_files s' \<and> ts_budget s' = ts_budget t"
      using Cons.IH [of t] sizes(1) rest(1) 2(3) by (simp add: t_def)
    then show ?thesis by (simp add: t_def)
  qed
qed simp

lemma open_store_ok:
  assumes "open_store removed now budget es = Some s" and "\<forall>e \<in> set es. 0 \<le> de_size e" and "distinct (entry_keys es)"
  shows "store_ok s" and "unpinned_files s" and "ts_budget s = budget"
proof -
  define s0 where "s0 = \<lparr>ts_budget = budget, ts_used = 0, ts_files = [], ts_next = 0\<rparr>"
  have s0: "files_ok s0" "unpinned_files s0" by (simp_all add: s0_def files_ok_def unpinned_files_def store_size_def)
  obtain t where t: "load_entries removed now es s0 = Some t" and room: "make_space removed 0 t = Inr s"
    using assms(1) by (auto simp: open_store_def s0_def split: if_splits option.splits sum.splits)
  have ok: "files_ok t" "unpinned_files t" "ts_budget t = ts_budget s0"
    using load_entries_ok [OF s0 assms(2,3) _ t] by (simp_all add: s0_def)
  note made = make_space_ok [OF ok(1) disjI1 [OF room]] make_space_Inr [OF ok(1) room]
  show "ts_budget s = budget" using made(3) ok(3) by (simp add: s0_def)
  show "store_ok s" using made(1,6,7) by (simp add: store_ok_def)
  show "unpinned_files s" using ok(2) made(5) unfolding unpinned_files_def by blast
qed

text \<open>Two files of one key, in both formats, are counted twice and kept once.\<close>

definition both_formats :: "dir_entry list" where
  "both_formats =
     [\<lparr>de_name = replicate 64 (CHR ''a'') @ ''.vtt'', de_regular = True, de_size = 10, de_modified = 0\<rparr>,
      \<lparr>de_name = replicate 64 (CHR ''a'') @ ''.ass'', de_regular = True, de_size = 7, de_modified = 0\<rparr>]"

lemma both_formats_names:
  "map (\<lambda>e. artifact_name (de_name e)) both_formats =
     [Some (replicate 64 (CHR ''a''), ''vtt''), Some (replicate 64 (CHR ''a''), ''ass'')]"
  by code_simp

lemma both_formats_counted_twice:
  "map_option (\<lambda>s. (ts_used s, store_size s))
     (load_entries (\<lambda>_. True) 0 both_formats \<lparr>ts_budget = 100, ts_used = 0, ts_files = [], ts_next = 0\<rparr>) = Some (17, 7)"
  using both_formats_names by (simp add: both_formats_def store_size_def max_output_def artifact_lifetime_def time_sub_def)

end
