(* ===== verification/Subtitle_Manager.thy ===== *)
theory Subtitle_Manager
  imports Subtitle_Store Subtitle_Extraction
begin

text \<open>
  \<open>internal/subtitles/manager.go\<close>: who may have which prepared subtitle. A job is a media source; its
  viewers are the reasons to prepare it, a grant is the right of one playback to one artifact, a reader is
  an artifact that is being sent. Everything below \<open>m.mu\<close> is one operation here, from \<open>Lock\<close> to
  \<open>Unlock\<close>; what happens between two of them is a function of the answers it gets.

  The clock, random numbers, the hash (\<open>h\<close>), the file system and the functions of an \<open>Input\<close> are arguments.
  A pointer to a job, a viewer or a grant is a number (\<open>cj_num\<close>, \<open>cv_id\<close>, \<open>cg_num\<close>), and the random number
  drawn for the pointer \<open>n\<close> is \<open>ids n\<close>. A critical section reads the clock once.
\<close>

section \<open>State\<close>

definition max_jobs :: nat where "max_jobs = 64"
definition max_tracks :: nat where "max_tracks = 64"
definition max_grants :: nat where "max_grants = 2048"
definition lease_lifetime :: duration where "lease_lifetime = 2 * minute"
definition preview_lifetime :: duration where "preview_lifetime = minute"
definition probe_lifetime :: duration where "probe_lifetime = 5 * minute"
definition retry_delay :: duration where "retry_delay = 30 * second"

record caption_track =
  ct_index :: int
  ct_codec :: string
  ct_language :: string
  ct_name :: string
  ct_external :: bool

text \<open>Of its functions an \<open>Input\<close> keeps here whether they are there.\<close>

record caption_input =
  ci_owner :: string
  ci_playback :: string
  ci_item :: string
  ci_source :: string
  ci_key :: string
  ci_name :: string
  ci_size :: int
  ci_container :: string
  ci_tracks :: "caption_track list"
  ci_opens :: bool
  ci_validates :: bool
  ci_fetches :: bool
  ci_checks_tracks :: bool

record caption_selection =
  sl_playback :: bool
  sl_recover :: bool
  sl_probe :: bool
  sl_index :: "int option"

record caption_ready =
  cr_index :: int
  cr_id :: string
  cr_format :: string

record caption_state =
  cs_track :: caption_track
  cs_state :: string
  cs_reason :: string
  cs_artifact :: string
  cs_version :: string
  cs_mode :: string
  cs_indexed :: bool
  cs_strong :: bool
  cs_format :: string
  cs_cues :: nat
  cs_requests :: int
  cs_read_bytes :: int
  cs_checked :: time

record caption_viewer =
  cv_id :: nat
  cv_input :: caption_input
  cv_touched :: time
  cv_selected :: "int option"
  cv_playback :: bool
  cv_recover :: bool

text \<open>
  \<open>cj_cancel\<close> is the function \<open>cancel\<close>: nil, or whether it was called. \<open>cj_signals\<close> numbers the channel
  \<open>changed\<close>: closing it and making a new one is the next number.
\<close>

record caption_job =
  cj_num :: nat
  cj_id :: string
  cj_item :: string
  cj_source :: string
  cj_name :: string
  cj_size :: int
  cj_created :: time
  cj_updated :: time
  cj_tracks :: "(int, caption_state) gomap"
  cj_viewers :: "(string, caption_viewer) gomap"
  cj_cancel :: "bool option"
  cj_running :: bool
  cj_signals :: nat

record caption_grant =
  cg_num :: nat
  cg_owner :: string
  cg_playback :: string
  cg_item :: string
  cg_job :: string
  cg_index :: int
  cg_artifact :: string
  cg_version :: string
  cg_indexed :: bool
  cg_strong :: bool
  cg_input :: caption_input
  cg_last :: time

text \<open>\<open>cm_readers\<close>: the readers that were handed out and not closed, with their artifact.\<close>

record captions =
  cm_workers :: nat
  cm_closed :: bool
  cm_jobs :: "(string, caption_job) gomap"
  cm_grants :: "(string, caption_grant) gomap"
  cm_store :: text_store
  cm_active :: nat
  cm_readers :: "(nat, string) gomap"
  cm_next :: nat

definition on_job :: "string \<Rightarrow> (caption_job \<Rightarrow> caption_job) \<Rightarrow> captions \<Rightarrow> captions" where
  "on_job key f s = s\<lparr>cm_jobs := AList.map_entry key f (cm_jobs s)\<rparr>"

definition on_track :: "int \<Rightarrow> (caption_state \<Rightarrow> caption_state) \<Rightarrow> caption_job \<Rightarrow> caption_job" where
  "on_track i f j = j\<lparr>cj_tracks := AList.map_entry i f (cj_tracks j)\<rparr>"

definition signal :: "time \<Rightarrow> caption_job \<Rightarrow> caption_job" where
  "signal now j = j\<lparr>cj_signals := cj_signals j + 1, cj_updated := now\<rparr>"

definition cancel_job :: "caption_job \<Rightarrow> caption_job" where
  "cancel_job j = j\<lparr>cj_cancel := map_option (\<lambda>_. True) (cj_cancel j)\<rparr>"

section \<open>Configuration\<close>

record caption_config =
  cc_cache_bytes :: int
  cc_source_bytes :: int
  cc_workers :: int
  cc_prepare :: duration
  cc_work :: duration
  cc_read_bytes :: int
  cc_requests :: int

definition default_captions :: "caption_config \<Rightarrow> caption_config" where
  "default_captions c =
     \<lparr>cc_cache_bytes = (if cc_cache_bytes c = 0 then 134217728 else cc_cache_bytes c),
      cc_source_bytes = (if cc_source_bytes c = 0 then 268435456 else cc_source_bytes c),
      cc_workers = (if cc_workers c = 0 then 1 else cc_workers c),
      cc_prepare = (if cc_prepare c = 0 then 2 * second else cc_prepare c),
      cc_work = (if cc_work c = 0 then 30 * second else cc_work c),
      cc_read_bytes = (if cc_read_bytes c = 0 then 67108864 else cc_read_bytes c),
      cc_requests = (if cc_requests c = 0 then 2048 else cc_requests c)\<rparr>"

definition captions_configured :: "caption_config \<Rightarrow> bool" where
  "captions_configured c \<longleftrightarrow>
     1 \<le> cc_cache_bytes c \<and> 1 \<le> cc_source_bytes c \<and> 1 \<le> cc_workers c \<and> cc_workers c \<le> 4
     \<and> 0 \<le> cc_prepare c \<and> cc_prepare c \<le> 5 * second \<and> 0 \<le> cc_work c \<and> cc_work c \<le> 2 * minute
     \<and> 1 \<le> cc_read_bytes c \<and> cc_read_bytes c \<le> 134217728 \<and> 1 \<le> cc_requests c \<and> cc_requests c \<le> 8192"

text \<open>\<open>New\<close>, with the entries of the cache directory and whether the source cache opens.\<close>

definition new_captions :: "(string \<Rightarrow> bool) \<Rightarrow> time \<Rightarrow> dir_entry list \<Rightarrow> bool \<Rightarrow> caption_config \<Rightarrow> captions option" where
  "new_captions removed now entries ranges c =
     (let c = default_captions c
      in if \<not> captions_configured c then None
         else (case open_store removed now (cc_cache_bytes c) entries of
                 None \<Rightarrow> None
               | Some st \<Rightarrow>
                   if \<not> ranges then None
                   else Some \<lparr>cm_workers = nat (cc_workers c), cm_closed = False, cm_jobs = [], cm_grants = [], cm_store = st,
                          cm_active = 0, cm_readers = [], cm_next = 0\<rparr>))"

section \<open>Inputs\<close>

definition viewer_key :: "(string list \<Rightarrow> string) \<Rightarrow> string \<Rightarrow> string \<Rightarrow> string" where
  "viewer_key h owner playback = h [owner, playback]"

text \<open>\<open>alive\<close>: the context is not done; \<open>valid\<close>: what \<open>Valid\<close> answers (no when there is none).\<close>

definition valid_input :: "bool \<Rightarrow> bool \<Rightarrow> caption_input \<Rightarrow> bool" where
  "valid_input alive valid i \<longleftrightarrow>
     alive \<and> ci_owner i \<noteq> [] \<and> ci_playback i \<noteq> [] \<and> ci_item i \<noteq> [] \<and> ci_source i \<noteq> [] \<and> ci_key i \<noteq> []
     \<and> length (ci_key i) \<le> 2048 \<and> length (ci_tracks i) \<le> max_tracks \<and> valid"

text \<open>\<open>inputLocked\<close>\<close>

definition wants_track :: "int \<Rightarrow> caption_viewer \<Rightarrow> bool" where
  "wants_track i v \<longleftrightarrow> (cv_playback v \<or> cv_recover v) \<and> cv_selected v = Some i"

definition input_of :: "int \<Rightarrow> bool \<Rightarrow> caption_job \<Rightarrow> caption_input option" where
  "input_of i selected_only j =
     map_option (\<lambda>e. cv_input (snd e)) (find (\<lambda>e. \<not> selected_only \<or> wants_track i (snd e)) (cj_viewers j))"

definition is_subrip :: "string \<Rightarrow> bool" where
  "is_subrip codec \<longleftrightarrow> equal_fold codec ''subrip'' \<or> equal_fold codec ''srt''"

definition recoverable :: "caption_state \<Rightarrow> bool" where
  "recoverable t \<longleftrightarrow> cs_reason t = ''upstream_empty'' \<and> \<not> ct_external (cs_track t) \<and> is_subrip (ct_codec (cs_track t))"

definition due :: "time \<Rightarrow> caption_state \<Rightarrow> bool" where
  "due now t \<longleftrightarrow>
     cs_state t = ''unknown''
     \<or> cs_state t \<noteq> ''ready'' \<and> retry_delay \<le> time_sub now (cs_checked t)
     \<or> cs_state t = ''ready'' \<and> \<not> cs_indexed t \<and> probe_lifetime \<le> time_sub now (cs_checked t)"

section \<open>Prepare\<close>

text \<open>\<open>startLocked\<close>\<close>

definition work_wanted :: "time \<Rightarrow> caption_job \<Rightarrow> bool" where
  "work_wanted now j \<longleftrightarrow>
     list_ex (\<lambda>(i, t). input_of (ct_index (cs_track t)) True j \<noteq> None \<and> recoverable t \<or> due now t) (cj_tracks j)"

definition start_job :: "time \<Rightarrow> string \<Rightarrow> captions \<Rightarrow> captions" where
  "start_job now key s =
     (case map_of (cm_jobs s) key of
        None \<Rightarrow> s
      | Some j \<Rightarrow>
          if cm_workers s \<le> cm_active s \<or> \<not> work_wanted now j then s
          else (on_job key (\<lambda>j. j\<lparr>cj_cancel := Some False, cj_running := True\<rparr>) s)\<lparr>cm_active := cm_active s + 1\<rparr>)"

text \<open>\<open>adoptPreviewsLocked\<close>\<close>

definition superseded :: "string \<Rightarrow> caption_input \<Rightarrow> string \<times> caption_viewer \<Rightarrow> bool" where
  "superseded actual i e \<longleftrightarrow>
     fst e \<noteq> actual \<and> \<not> cv_playback (snd e) \<and> ci_owner (cv_input (snd e)) = ci_owner i \<and> ci_item (cv_input (snd e)) = ci_item i"

definition adopt_grant :: "time \<Rightarrow> string \<Rightarrow> caption_input \<Rightarrow> caption_viewer \<Rightarrow> caption_grant \<Rightarrow> caption_grant" where
  "adopt_grant now key i v g =
     (if cg_job g = key \<and> cg_owner g = ci_owner i \<and> cg_item g = ci_item i \<and> cg_playback g = ci_playback (cv_input v)
      then g\<lparr>cg_playback := ci_playback i, cg_input := i, cg_last := now\<rparr> else g)"

definition map_grants :: "(caption_grant \<Rightarrow> caption_grant) \<Rightarrow> (string, caption_grant) gomap \<Rightarrow> (string, caption_grant) gomap" where
  "map_grants f = map (map_prod id f)"

definition adopt_previews :: "time \<Rightarrow> string \<Rightarrow> string \<Rightarrow> caption_input \<Rightarrow> bool \<Rightarrow> captions \<Rightarrow> captions" where
  "adopt_previews now key actual i retired s =
     (case map_of (cm_jobs s) key of
        None \<Rightarrow> s
      | Some j \<Rightarrow>
          let gone = filter (superseded actual i) (cj_viewers j);
              left = filter (\<lambda>e. \<not> superseded actual i e) (cj_viewers j);
              s = s\<lparr>cm_grants := fold (\<lambda>e. map_grants (adopt_grant now key i (snd e))) gone (cm_grants s)\<rparr>;
              wanted = list_ex (\<lambda>e. (cv_playback (snd e) \<or> cv_recover (snd e))
                         \<and> (case cv_selected (snd e) of None \<Rightarrow> False | Some x \<Rightarrow> 0 \<le> x)) left;
              f = (if (retired \<or> gone \<noteq> []) \<and> \<not> wanted then cancel_job else id)
          in on_job key (\<lambda>j. f (j\<lparr>cj_viewers := left\<rparr>)) s)"

text \<open>The tracks of the input are added to the job, up to 64.\<close>

fun add_tracks :: "caption_track list \<Rightarrow> (int, caption_state) gomap \<Rightarrow> (int, caption_state) gomap" where
  "add_tracks [] m = m"
| "add_tracks (t # ts) m =
     add_tracks ts
       (if 0 \<le> ct_index t \<and> ct_index t \<le> 1024 \<and> map_of m (ct_index t) = None \<and> length m < max_tracks
        then AList.update (ct_index t)
               \<lparr>cs_track = t, cs_state = ''unknown'', cs_reason = [], cs_artifact = [], cs_version = [], cs_mode = [],
                cs_indexed = False, cs_strong = False, cs_format = [], cs_cues = 0, cs_requests = 0, cs_read_bytes = 0,
                cs_checked = 0\<rparr> m
        else m)"

text \<open>What \<open>Prepare\<close> keeps after its first critical section.\<close>

record prepare_ticket =
  pt_job :: string
  pt_job_num :: nat
  pt_viewer :: string
  pt_admission :: nat
  pt_created :: bool
  pt_waits :: bool

definition new_job :: "nat \<Rightarrow> string \<Rightarrow> time \<Rightarrow> caption_input \<Rightarrow> caption_job" where
  "new_job n label now i =
     \<lparr>cj_num = n, cj_id = label, cj_item = safe_label (ci_item i), cj_source = safe_label (ci_source i),
      cj_name = safe_label (ci_name i), cj_size = ci_size i, cj_created = now, cj_updated = now, cj_tracks = [], cj_viewers = [],
      cj_cancel = None, cj_running = False, cj_signals = 0\<rparr>"

definition new_viewer :: "nat \<Rightarrow> time \<Rightarrow> caption_input \<Rightarrow> caption_selection \<Rightarrow> caption_viewer option \<Rightarrow> caption_viewer" where
  "new_viewer n now i sel existing =
     (let v = \<lparr>cv_id = n, cv_input = i, cv_touched = now, cv_selected = sl_index sel, cv_playback = sl_playback sel,
               cv_recover = sl_recover sel\<rparr>
      in case existing of
           None \<Rightarrow> v
         | Some e \<Rightarrow>
             if cv_playback e \<and> \<not> sl_playback sel
             then v\<lparr>cv_playback := True, cv_selected := cv_selected e, cv_recover := cv_recover e\<rparr> else v)"

definition job_running :: "string \<Rightarrow> captions \<Rightarrow> bool" where
  "job_running key s \<longleftrightarrow> (case map_of (cm_jobs s) key of None \<Rightarrow> False | Some j \<Rightarrow> cj_running j)"

text \<open>\<open>Prepare\<close> from the job on.\<close>

definition admit_viewer ::
  "(string list \<Rightarrow> string) \<Rightarrow> time \<Rightarrow> string \<Rightarrow> caption_input \<Rightarrow> caption_selection \<Rightarrow> captions \<Rightarrow> prepare_ticket option \<times> captions" where
  "admit_viewer h now key i sel s =
     (let s = on_job key (\<lambda>j. j\<lparr>cj_tracks := add_tracks (ci_tracks i) (cj_tracks j)\<rparr>) s;
          vk = viewer_key h (ci_owner i) (ci_playback i)
      in case map_of (cm_jobs s) key of
           None \<Rightarrow> (None, s)
         | Some j \<Rightarrow>
             (let existing = map_of (cj_viewers j) vk
              in if max_grants \<le> length (cj_viewers j) \<and> existing = None then (None, s)
                 else
                   (let n = cm_next s;
                        s = (on_job key (\<lambda>j. j\<lparr>cj_viewers := AList.update vk (new_viewer n now i sel existing) (cj_viewers j)\<rparr>) s)
                              \<lparr>cm_next := n + 1\<rparr>;
                        s = (if sl_playback sel
                             then adopt_previews now key vk i (case existing of None \<Rightarrow> False | Some e \<Rightarrow> \<not> cv_playback e) s else s);
                        s = (if sl_probe sel \<and> \<not> job_running key s then start_job now key s else s)
                    in (Some \<lparr>pt_job = key, pt_job_num = cj_num j, pt_viewer = vk, pt_admission = n, pt_created = (existing = None),
                          pt_waits = (sl_probe sel \<and> job_running key s)\<rparr>, s))))"

definition admit_caption ::
  "(string list \<Rightarrow> string) \<Rightarrow> (nat \<Rightarrow> string option) \<Rightarrow> time \<Rightarrow> bool \<Rightarrow> bool \<Rightarrow> caption_input \<Rightarrow> caption_selection \<Rightarrow> captions
     \<Rightarrow> prepare_ticket option \<times> captions" where
  "admit_caption h ids now alive valid i sel s =
     (let key = h [ci_key i, ci_source i]
      in if \<not> valid_input alive valid i \<or> cm_closed s then (None, s)
         else (case map_of (cm_jobs s) key of
                 Some _ \<Rightarrow> admit_viewer h now key i sel s
               | None \<Rightarrow>
                   if \<not> sl_probe sel \<or> max_jobs \<le> length (cm_jobs s) then (None, s)
                   else (case ids (cm_next s) of
                           None \<Rightarrow> (None, s)
                         | Some label \<Rightarrow>
                             admit_viewer h now key i sel
                               (s\<lparr>cm_jobs := AList.update key (new_job (cm_next s) label now i) (cm_jobs s),
                                  cm_next := cm_next s + 1\<rparr>))))"

text \<open>The wait of \<open>Prepare\<close> looks at the job after each signal.\<close>

definition prepare_done :: "int option \<Rightarrow> caption_job \<Rightarrow> bool" where
  "prepare_done selected j \<longleftrightarrow>
     \<not> cj_running j
     \<or> (case selected of None \<Rightarrow> False
        | Some i \<Rightarrow> (case map_of (cj_tracks j) i of None \<Rightarrow> False | Some t \<Rightarrow> cs_state t = ''ready''))"

definition cancel_prepare :: "bool \<Rightarrow> prepare_ticket \<Rightarrow> captions \<Rightarrow> captions" where
  "cancel_prepare canceled p s =
     (if \<not> canceled \<or> \<not> pt_created p then s
      else (case map_of (cm_jobs s) (pt_job p) of
              None \<Rightarrow> s
            | Some j \<Rightarrow>
                (case map_of (cj_viewers j) (pt_viewer p) of
                   None \<Rightarrow> s
                 | Some v \<Rightarrow>
                     if cv_id v \<noteq> pt_admission p then s
                     else if list_ex (\<lambda>(_, g). cg_job g = pt_job p \<and> cg_owner g = ci_owner (cv_input v)
                                        \<and> cg_playback g = ci_playback (cv_input v)) (cm_grants s) then s
                     else (let left = AList.delete (pt_viewer p) (cj_viewers j);
                               f = (if left = [] then cancel_job else id)
                           in on_job (pt_job p) (\<lambda>j. f (j\<lparr>cj_viewers := left\<rparr>)) s))))"

text \<open>\<open>readyLocked\<close>\<close>

definition grants_track :: "string \<Rightarrow> caption_input \<Rightarrow> caption_track \<Rightarrow> string \<Rightarrow> string \<times> caption_grant \<Rightarrow> bool" where
  "grants_track key i t artifact e \<longleftrightarrow>
     cg_owner (snd e) = ci_owner i \<and> cg_playback (snd e) = ci_playback i \<and> cg_item (snd e) = ci_item i \<and> cg_job (snd e) = key
     \<and> cg_index (snd e) = ct_index t \<and> cg_artifact (snd e) = artifact"

definition new_grant :: "nat \<Rightarrow> time \<Rightarrow> string \<Rightarrow> caption_input \<Rightarrow> caption_track \<Rightarrow> caption_state \<Rightarrow> caption_grant" where
  "new_grant n now key i t st =
     \<lparr>cg_num = n, cg_owner = ci_owner i, cg_playback = ci_playback i, cg_item = ci_item i, cg_job = key, cg_index = ct_index t,
      cg_artifact = cs_artifact st, cg_version = cs_version st, cg_indexed = cs_indexed st, cg_strong = cs_strong st,
      cg_input = i, cg_last = now\<rparr>"

definition state_of :: "string \<Rightarrow> int \<Rightarrow> captions \<Rightarrow> caption_state option" where
  "state_of key i s = (case map_of (cm_jobs s) key of None \<Rightarrow> None | Some j \<Rightarrow> map_of (cj_tracks j) i)"

definition grant_artifact ::
  "(nat \<Rightarrow> string option) \<Rightarrow> time \<Rightarrow> string \<Rightarrow> caption_input \<Rightarrow> caption_track \<Rightarrow> caption_state \<Rightarrow> text_artifact \<Rightarrow> captions
     \<Rightarrow> caption_ready option \<times> captions" where
  "grant_artifact ids now key i t st a s =
     (case find (grants_track key i t (cs_artifact st)) (cm_grants s) of
        Some (gid, g) \<Rightarrow>
          (Some \<lparr>cr_index = ct_index t, cr_id = gid, cr_format = ta_format a\<rparr>,
           s\<lparr>cm_grants := AList.update gid (g\<lparr>cg_input := i, cg_last := now\<rparr>) (cm_grants s)\<rparr>)
      | None \<Rightarrow>
          if max_grants \<le> length (cm_grants s) then (None, s)
          else (case ids (cm_next s) of
                  None \<Rightarrow> (None, s)
                | Some gid \<Rightarrow>
                    (Some \<lparr>cr_index = ct_index t, cr_id = gid, cr_format = ta_format a\<rparr>,
                     s\<lparr>cm_grants := AList.update gid (new_grant (cm_next s) now key i t st) (cm_grants s),
                       cm_store := pin_text 1 (cs_artifact st) (cm_store s), cm_next := cm_next s + 1\<rparr>)))"

definition grant_track ::
  "(nat \<Rightarrow> string option) \<Rightarrow> time \<Rightarrow> string \<Rightarrow> caption_input \<Rightarrow> (int \<Rightarrow> bool) \<Rightarrow> caption_track \<Rightarrow> captions
     \<Rightarrow> caption_ready option \<times> captions" where
  "grant_track ids now key i allowed t s =
     (if \<not> allowed (ct_index t) then (None, s)
      else (case state_of key (ct_index t) s of
              None \<Rightarrow> (None, s)
            | Some st \<Rightarrow>
                if cs_state st \<noteq> ''ready'' then (None, s)
                else (case map_of (ts_files (cm_store s)) (cs_artifact st) of
                        None \<Rightarrow> (None, on_job key (on_track (ct_index t) (\<lambda>st. st\<lparr>cs_state := ''unknown''\<rparr>)) s)
                      | Some a \<Rightarrow> grant_artifact ids now key i t st a s)))"

fun ready_tracks ::
  "(nat \<Rightarrow> string option) \<Rightarrow> time \<Rightarrow> string \<Rightarrow> caption_input \<Rightarrow> (int \<Rightarrow> bool) \<Rightarrow> caption_track list \<Rightarrow> captions
     \<Rightarrow> caption_ready list \<times> captions" where
  "ready_tracks ids now key i allowed [] s = ([], s)"
| "ready_tracks ids now key i allowed (t # ts) s =
     (case grant_track ids now key i allowed t s of
        (r, s) \<Rightarrow> (case ready_tracks ids now key i allowed ts s of (rs, s) \<Rightarrow> (case r of None \<Rightarrow> rs | Some r \<Rightarrow> r # rs, s)))"

definition finish_prepare ::
  "(nat \<Rightarrow> string option) \<Rightarrow> time \<Rightarrow> prepare_ticket \<Rightarrow> caption_input \<Rightarrow> (int \<Rightarrow> bool) \<Rightarrow> captions \<Rightarrow> caption_ready list \<times> captions" where
  "finish_prepare ids now p i allowed s =
     (case map_of (cm_jobs s) (pt_job p) of
        None \<Rightarrow> ([], s)
      | Some j \<Rightarrow>
          if cm_closed s \<or> cj_num j \<noteq> pt_job_num p \<or> map_of (cj_viewers j) (pt_viewer p) = None then ([], s)
          else ready_tracks ids now (pt_job p) i allowed (ci_tracks i) s)"

section \<open>The work on a job\<close>

text \<open>\<open>run\<close> begins with the order of the tracks: what a viewer waits for first, then upstream documents.\<close>

definition track_priority :: "caption_job \<Rightarrow> int \<Rightarrow> nat" where
  "track_priority j i =
     (if input_of i True j \<noteq> None then 0
      else (case map_of (cj_tracks j) i of
              None \<Rightarrow> 3
            | Some t \<Rightarrow>
                if ct_external (cs_track t) then 1
                else if equal_fold (ct_codec (cs_track t)) ''ass'' \<or> equal_fold (ct_codec (cs_track t)) ''ssa'' then 2
                else 3))"

definition run_order :: "caption_job \<Rightarrow> int list" where
  "run_order j =
     stable_sort (\<lambda>a b. track_priority j a < track_priority j b \<or> track_priority j a = track_priority j b \<and> a < b)
       (map fst (cj_tracks j))"

text \<open>The first loop: the input to use, whether the track is probed.\<close>

definition probe_track :: "time \<Rightarrow> string \<Rightarrow> int \<Rightarrow> captions \<Rightarrow> (caption_input option \<times> bool) \<times> captions" where
  "probe_track now key i s =
     (case map_of (cm_jobs s) key of
        None \<Rightarrow> ((None, False), s)
      | Some j \<Rightarrow>
          (let probe = (case map_of (cj_tracks j) i of None \<Rightarrow> False | Some t \<Rightarrow> due now t)
           in ((input_of i False j, probe),
               if probe
               then on_job key (\<lambda>j. signal now (on_track i (\<lambda>t. t\<lparr>cs_state := ''probing'', cs_mode := ''upstream'',
                                                         cs_reason := []\<rparr>) j)) s
               else s)))"

text \<open>After four probes the others wait for the next run.\<close>

definition postpone_track :: "string \<Rightarrow> int \<Rightarrow> captions \<Rightarrow> captions" where
  "postpone_track key i s = on_job key (on_track i (\<lambda>t. t\<lparr>cs_state := ''unknown''\<rparr>)) s"

definition failed_track :: "time \<Rightarrow> string \<Rightarrow> int \<Rightarrow> string \<Rightarrow> captions \<Rightarrow> captions" where
  "failed_track now key i reason s =
     on_job key (\<lambda>j. signal now (on_track i (\<lambda>t. t\<lparr>cs_state := ''unavailable'', cs_reason := reason, cs_checked := now\<rparr>) j)) s"

text \<open>What a probe gives: \<open>valid\<close> and \<open>fetched\<close> are the answers of \<open>Valid\<close> and \<open>Fetch\<close>.\<close>

definition probe_result ::
  "caption_input \<Rightarrow> caption_track \<Rightarrow> bool \<Rightarrow> (string \<times> string) option \<Rightarrow> string + (string \<times> string \<times> nat)" where
  "probe_result i t valid fetched =
     (if \<not> text_codec (ct_codec t) \<or> \<not> ci_fetches i then Inl ''unsupported''
      else (case (if valid then fetched else None) of
              None \<Rightarrow> Inl ''upstream_unavailable''
            | Some (data, format) \<Rightarrow>
                if data = [] then Inl ''upstream_empty''
                else (case normalize_text data format of
                        Inl e \<Rightarrow> Inl (if e = EmptyDocument then ''upstream_empty'' else ''invalid_subtitle'')
                      | Inr r \<Rightarrow> Inr r)))"

definition itoa :: "int \<Rightarrow> string" where
  "itoa n = (if n < 0 then ''-'' @ decimal_digits (nat (- n)) else decimal_digits (nat n))"

definition upstream_key :: "(string list \<Rightarrow> string) \<Rightarrow> string \<Rightarrow> caption_input \<Rightarrow> int \<Rightarrow> caption_track \<Rightarrow> string \<Rightarrow> string" where
  "upstream_key h boot i index t data = h [''upstream-v1'', boot, ci_key i, itoa index, ct_codec t, h [data]]"

text \<open>\<open>publish\<close>\<close>

record caption_text =
  cp_key :: string
  cp_data :: string
  cp_format :: string
  cp_cues :: nat
  cp_version :: string
  cp_indexed :: bool
  cp_strong :: bool
  cp_read_bytes :: int
  cp_requests :: int

definition publish_track ::
  "(string \<Rightarrow> bool) \<Rightarrow> bool \<Rightarrow> time \<Rightarrow> bool \<Rightarrow> string \<Rightarrow> int \<Rightarrow> caption_text \<Rightarrow> captions \<Rightarrow> captions" where
  "publish_track removed written now alive key i p s =
     (case map_of (cm_jobs s) key of
        None \<Rightarrow> s
      | Some j \<Rightarrow>
          if cm_closed s \<or> \<not> alive \<or> cj_viewers j = [] then failed_track now key i ''canceled_or_timeout'' s
          else (case put_text removed written now (cp_key p) (cp_format p) (length (cp_data p)) (cm_store s) of
                  (a, st) \<Rightarrow>
                    on_job key (\<lambda>j. signal now (on_track i (\<lambda>t.
                        (case a of
                           None \<Rightarrow> t\<lparr>cs_state := ''unavailable'', cs_reason := ''cache_capacity_or_storage''\<rparr>
                         | Some a \<Rightarrow>
                             t\<lparr>cs_state := ''ready'', cs_reason := [], cs_artifact := cp_key p, cs_format := cp_format p,
                               cs_cues := cp_cues p, cs_version := cp_version p, cs_indexed := cp_indexed p,
                               cs_strong := cp_strong p\<rparr>)
                        \<lparr>cs_read_bytes := cp_read_bytes p, cs_requests := cp_requests p, cs_checked := now\<rparr>) j))
                      (s\<lparr>cm_store := st\<rparr>)))"

text \<open>The second loop: a track whose document was empty may be extracted for a viewer who selected it.\<close>

definition mark_extraction :: "time \<Rightarrow> string \<Rightarrow> int \<Rightarrow> captions \<Rightarrow> caption_input option \<times> captions" where
  "mark_extraction now key i s =
     (case map_of (cm_jobs s) key of
        None \<Rightarrow> (None, s)
      | Some j \<Rightarrow>
          (case (input_of i True j, map_of (cj_tracks j) i) of
             (Some inp, Some t) \<Rightarrow>
               if recoverable t
               then (Some inp, on_job key (\<lambda>j. signal now (on_track i (\<lambda>t. t\<lparr>cs_state := ''extracting'', cs_mode := ''indexed'',
                                                                           cs_reason := []\<rparr>) j)) s)
               else (None, s)
           | _ \<Rightarrow> (None, s)))"

definition playback_selected :: "string \<Rightarrow> int \<Rightarrow> captions \<Rightarrow> bool" where
  "playback_selected key i s \<longleftrightarrow>
     (case map_of (cm_jobs s) key of
        None \<Rightarrow> False
      | Some j \<Rightarrow> list_ex (\<lambda>(_, v). cv_playback v \<and> cv_selected v = Some i) (cj_viewers j))"

text \<open>The deferred end of \<open>run\<close>.\<close>

definition run_end :: "time \<Rightarrow> string \<Rightarrow> captions \<Rightarrow> captions" where
  "run_end now key s =
     (on_job key (\<lambda>j. signal now (j\<lparr>cj_running := False, cj_cancel := None\<rparr>)) s)\<lparr>cm_active := cm_active s - 1\<rparr>"

section \<open>Extraction\<close>

text \<open>\<open>extract\<close>: the bytes and requests it may use, unless an actual playback selected the track.\<close>

definition extraction_limits :: "bool \<Rightarrow> int \<Rightarrow> int \<Rightarrow> index_limits" where
  "extraction_limits playback read_bytes requests =
     \<lparr>il_read_bytes = (if playback then read_bytes else min read_bytes 8388608),
      il_requests = (if playback then requests else min requests 128),
      il_output_bytes = int max_output, il_cues = 20000\<rparr>"

text \<open>\<open>validated\<close>: the answer of \<open>Validate\<close>.\<close>

definition source_version :: "caption_input \<Rightarrow> bool \<Rightarrow> (string \<times> bool) option \<Rightarrow> string + string" where
  "source_version i valid validated =
     (if \<not> ci_validates i \<or> \<not> ci_opens i \<or> \<not> valid then Inl ''source_unavailable''
      else (case validated of
              None \<Rightarrow> Inl ''source_unavailable''
            | Some (version, strong) \<Rightarrow>
                if \<not> strong \<or> version = [] then Inl ''source_validator_missing'' else Inr version))"

definition indexed_key :: "(string list \<Rightarrow> string) \<Rightarrow> caption_input \<Rightarrow> string \<Rightarrow> caption_track \<Rightarrow> string" where
  "indexed_key h i version t = h [''indexed-v1'', ci_key i, version, itoa (ct_index t), ct_codec t, ct_language t]"

text \<open>The artifact of an earlier extraction: its number, and whether it can be read.\<close>

definition read_indexed :: "bool \<Rightarrow> time \<Rightarrow> string \<Rightarrow> captions \<Rightarrow> (nat \<times> bool) option \<times> captions" where
  "read_indexed opened now key s =
     (case map_of (ts_files (cm_store s)) key of
        None \<Rightarrow> (None, s)
      | Some a \<Rightarrow> (case read_text opened now key a (cm_store s) of
                    (ok, st) \<Rightarrow> (Some (ta_id a, ok), s\<lparr>cm_store := st\<rparr>)))"

text \<open>What is read is published again when it is still a document.\<close>

definition cached_text :: "string \<Rightarrow> string \<Rightarrow> string \<Rightarrow> caption_text option" where
  "cached_text key version data =
     (if data = [] then None
      else (case normalize_text data ''vtt'' of
              Inl _ \<Rightarrow> None
            | Inr (out, format, n) \<Rightarrow>
                Some \<lparr>cp_key = key, cp_data = out, cp_format = format, cp_cues = n, cp_version = version, cp_indexed = True,
                  cp_strong = True, cp_read_bytes = 0, cp_requests = 0\<rparr>))"

definition discard_indexed :: "(string \<Rightarrow> bool) \<Rightarrow> string \<Rightarrow> nat \<Rightarrow> captions \<Rightarrow> bool \<times> captions" where
  "discard_indexed removed key n s =
     (case discard_text removed key n (cm_store s) of (ok, st) \<Rightarrow> (ok, s\<lparr>cm_store := st\<rparr>))"

definition extraction_failure :: "index_error \<Rightarrow> bool \<Rightarrow> string" where
  "extraction_failure e alive =
     (case e of
        ErrLimit \<Rightarrow> ''resource_limit''
      | ErrIndex \<Rightarrow> ''missing_index''
      | ErrUnsupported \<Rightarrow> ''unsupported''
      | ErrEmpty \<Rightarrow> ''empty_indexed_packets''
      | _ \<Rightarrow> if alive then ''source_unavailable'' else ''canceled_or_timeout'')"

definition count_extraction :: "string \<Rightarrow> int \<Rightarrow> extraction \<Rightarrow> captions \<Rightarrow> captions" where
  "count_extraction key i x s =
     on_job key (on_track i (\<lambda>t. t\<lparr>cs_read_bytes := ex_read_bytes x, cs_requests := ex_requests x\<rparr>)) s"

text \<open>What was extracted is published only if the source is still the same.\<close>

definition extraction_text ::
  "string \<Rightarrow> string \<Rightarrow> (string \<times> bool) option \<Rightarrow> bool \<Rightarrow> extraction \<Rightarrow> string + caption_text" where
  "extraction_text key version validated valid x =
     (case validated of
        None \<Rightarrow> Inl ''source_changed''
      | Some (end_version, end_strong) \<Rightarrow>
          if end_version \<noteq> version \<or> \<not> end_strong \<or> \<not> valid then Inl ''source_changed''
          else (case normalize_text (ex_data x) (ex_format x) of
                  Inl _ \<Rightarrow> Inl ''invalid_subtitle''
                | Inr (out, format, n) \<Rightarrow>
                    Inr \<lparr>cp_key = key, cp_data = out, cp_format = format, cp_cues = n, cp_version = version, cp_indexed = True,
                      cp_strong = True, cp_read_bytes = ex_read_bytes x, cp_requests = ex_requests x\<rparr>))"


section \<open>Open\<close>

text \<open>The first critical section: a copy of the grant.\<close>

definition find_grant :: "time \<Rightarrow> string \<Rightarrow> string \<Rightarrow> string \<Rightarrow> captions \<Rightarrow> caption_grant option" where
  "find_grant now owner item gid s =
     (case map_of (cm_grants s) gid of
        None \<Rightarrow> None
      | Some g \<Rightarrow>
          if cm_closed s \<or> cg_owner g \<noteq> owner \<or> cg_item g \<noteq> item \<or> lease_lifetime < time_sub now (cg_last g) then None
          else Some g)"

datatype open_answer = Granted | Refused | SourceChanged

text \<open>
  What is checked without the lock: the input, the policy of the track (\<open>allowed\<close> answers \<open>ValidTrack\<close>),
  and of an extracted subtitle that its source is still the same (\<open>validated\<close> answers \<open>Validate\<close>).
\<close>

definition check_grant :: "bool \<Rightarrow> bool \<Rightarrow> (caption_track \<Rightarrow> bool) \<Rightarrow> (string \<times> bool) option \<Rightarrow> caption_grant \<Rightarrow> open_answer" where
  "check_grant alive valid allowed validated g =
     (let i = cg_input g
      in if \<not> valid_input alive valid i then Refused
         else if ci_checks_tracks i
           \<and> \<not> (case find (\<lambda>t. ct_index t = cg_index g) (ci_tracks i) of None \<Rightarrow> False | Some t \<Rightarrow> allowed t) then Refused
         else if \<not> cg_indexed g then Granted
         else if \<not> ci_validates i then Refused
         else (case validated of
                 None \<Rightarrow> Refused
               | Some (version, strong) \<Rightarrow>
                   if version \<noteq> cg_version g \<or> cg_strong g \<and> \<not> strong then SourceChanged else Granted))"

definition source_changed :: "time \<Rightarrow> caption_grant \<Rightarrow> captions \<Rightarrow> captions" where
  "source_changed now g s =
     (case state_of (cg_job g) (cg_index g) s of
        None \<Rightarrow> s
      | Some t \<Rightarrow> if cs_artifact t = cg_artifact g then failed_track now (cg_job g) (cg_index g) ''source_changed'' s else s)"

text \<open>The last critical section: a reader, and the format of its artifact.\<close>

definition open_granted :: "bool \<Rightarrow> time \<Rightarrow> string \<Rightarrow> nat \<Rightarrow> captions \<Rightarrow> (nat \<times> string) option \<times> captions" where
  "open_granted opened now gid num s =
     (case map_of (cm_grants s) gid of
        None \<Rightarrow> (None, s)
      | Some g \<Rightarrow>
          if cm_closed s \<or> cg_num g \<noteq> num then (None, s)
          else (case map_of (ts_files (cm_store s)) (cg_artifact g) of
                  None \<Rightarrow> (None, s)
                | Some a \<Rightarrow>
                    (case read_text opened now (cg_artifact g) a (cm_store s) of
                       (ok, st) \<Rightarrow>
                         if \<not> ok then (None, s\<lparr>cm_store := st\<rparr>)
                         else (Some (cm_next s, ta_format a),
                               s\<lparr>cm_store := pin_text 1 (cg_artifact g) st,
                                 cm_grants := AList.update gid (g\<lparr>cg_last := now\<rparr>) (cm_grants s),
                                 cm_readers := AList.update (cm_next s) (cg_artifact g) (cm_readers s),
                                 cm_next := cm_next s + 1\<rparr>))))"

text \<open>\<open>Close\<close> of a reader; the second time it does nothing.\<close>

definition close_artifact_reader :: "nat \<Rightarrow> captions \<Rightarrow> captions" where
  "close_artifact_reader r s =
     (case map_of (cm_readers s) r of
        None \<Rightarrow> s
      | Some artifact \<Rightarrow>
          s\<lparr>cm_store := pin_text (- 1) artifact (cm_store s), cm_readers := AList.delete r (cm_readers s)\<rparr>)"

section \<open>Playbacks\<close>

definition granted_to :: "string \<Rightarrow> string \<Rightarrow> caption_grant \<Rightarrow> bool" where
  "granted_to owner playback g \<longleftrightarrow> cg_owner g = owner \<and> cg_playback g = playback"

text \<open>\<open>endLocked\<close>\<close>

definition end_viewer :: "string \<Rightarrow> caption_job \<Rightarrow> caption_job" where
  "end_viewer vk j =
     (let left = AList.delete vk (cj_viewers j)
      in (if left = [] then cancel_job else id) (j\<lparr>cj_viewers := left\<rparr>))"

definition end_playback :: "(string list \<Rightarrow> string) \<Rightarrow> string \<Rightarrow> string \<Rightarrow> captions \<Rightarrow> captions" where
  "end_playback h owner playback s =
     s\<lparr>cm_jobs := map (map_prod id (end_viewer (viewer_key h owner playback))) (cm_jobs s),
       cm_store := fold (\<lambda>(_, g). pin_text (- 1) (cg_artifact g))
                     (filter (\<lambda>e. granted_to owner playback (snd e)) (cm_grants s)) (cm_store s),
       cm_grants := filter (\<lambda>e. \<not> granted_to owner playback (snd e)) (cm_grants s)\<rparr>"

definition touch_playback :: "(string list \<Rightarrow> string) \<Rightarrow> time \<Rightarrow> string \<Rightarrow> string \<Rightarrow> captions \<Rightarrow> captions" where
  "touch_playback h now owner playback s =
     s\<lparr>cm_jobs := map (map_prod id (\<lambda>j. j\<lparr>cj_viewers :=
                    AList.map_entry (viewer_key h owner playback) (\<lambda>v. v\<lparr>cv_touched := now\<rparr>) (cj_viewers j)\<rparr>)) (cm_jobs s),
       cm_grants := map_grants (\<lambda>g. if granted_to owner playback g then g\<lparr>cg_last := now\<rparr> else g) (cm_grants s)\<rparr>"

text \<open>\<open>MovePlayback\<close>: a viewer already there keeps its input and its selection.\<close>

definition move_viewer :: "(string list \<Rightarrow> string) \<Rightarrow> string \<Rightarrow> string \<Rightarrow> string \<Rightarrow> caption_job \<Rightarrow> caption_job" where
  "move_viewer h owner old new j =
     (case map_of (cj_viewers j) (viewer_key h owner old) of
        None \<Rightarrow> j
      | Some v \<Rightarrow>
          (let left = AList.delete (viewer_key h owner old) (cj_viewers j);
               nk = viewer_key h owner new
           in j\<lparr>cj_viewers := AList.update nk
                  (case map_of left nk of
                     Some c \<Rightarrow> c\<lparr>cv_playback := cv_playback c \<or> cv_playback v, cv_touched := max (cv_touched v) (cv_touched c)\<rparr>
                   | None \<Rightarrow> v\<lparr>cv_input := (cv_input v)\<lparr>ci_playback := new\<rparr>\<rparr>) left\<rparr>))"

definition move_grant :: "(string list \<Rightarrow> string) \<Rightarrow> string \<Rightarrow> string \<Rightarrow> string \<Rightarrow> (string, caption_job) gomap \<Rightarrow> caption_grant \<Rightarrow> caption_grant" where
  "move_grant h owner old new jobs g =
     (if \<not> granted_to owner old g then g
      else (let g = g\<lparr>cg_playback := new, cg_input := (cg_input g)\<lparr>ci_playback := new\<rparr>\<rparr>
            in case map_of jobs (cg_job g) of
                 None \<Rightarrow> g
               | Some j \<Rightarrow>
                   (case map_of (cj_viewers j) (viewer_key h owner new) of
                      None \<Rightarrow> g
                    | Some c \<Rightarrow> if ci_item (cv_input c) = cg_item g then g\<lparr>cg_input := cv_input c\<rparr> else g)))"

definition move_playback :: "(string list \<Rightarrow> string) \<Rightarrow> string \<Rightarrow> string \<Rightarrow> string \<Rightarrow> captions \<Rightarrow> captions" where
  "move_playback h owner old new s =
     (if old = new \<or> new = [] then s
      else (let s = s\<lparr>cm_jobs := map (map_prod id (move_viewer h owner old new)) (cm_jobs s)\<rparr>
            in s\<lparr>cm_grants := map_grants (move_grant h owner old new (cm_jobs s)) (cm_grants s)\<rparr>))"

section \<open>Maintenance\<close>

text \<open>A viewer met by the loop over the viewers, if an earlier one has not taken it away.\<close>

definition expired_viewer :: "time \<Rightarrow> caption_viewer \<Rightarrow> bool" where
  "expired_viewer now v \<longleftrightarrow> (if cv_playback v then lease_lifetime else preview_lifetime) < time_sub now (cv_touched v)"

definition expire_viewer :: "(string list \<Rightarrow> string) \<Rightarrow> time \<Rightarrow> string \<Rightarrow> string \<Rightarrow> captions \<Rightarrow> captions" where
  "expire_viewer h now key vk s =
     (case map_of (cm_jobs s) key of
        None \<Rightarrow> s
      | Some j \<Rightarrow>
          (case map_of (cj_viewers j) vk of
             None \<Rightarrow> s
           | Some v \<Rightarrow> if expired_viewer now v then end_playback h (ci_owner (cv_input v)) (ci_playback (cv_input v)) s else s))"

definition idle_job :: "time \<Rightarrow> caption_job \<Rightarrow> bool" where
  "idle_job now j \<longleftrightarrow> \<not> cj_running j \<and> cj_viewers j = [] \<and> probe_lifetime < time_sub now (cj_updated j)"

definition maintain_captions :: "(string list \<Rightarrow> string) \<Rightarrow> time \<Rightarrow> captions \<Rightarrow> captions" where
  "maintain_captions h now s =
     (let s = fold (\<lambda>(key, vk). expire_viewer h now key vk)
                (concat (map (\<lambda>(key, j). map (\<lambda>e. (key, fst e)) (cj_viewers j)) (cm_jobs s))) s
      in s\<lparr>cm_jobs := filter (\<lambda>e. \<not> idle_job now (snd e)) (cm_jobs s)\<rparr>)"

definition close_captions :: "captions \<Rightarrow> captions" where
  "close_captions s = s\<lparr>cm_closed := True\<rparr>"

definition has_active_work :: "captions \<Rightarrow> bool" where
  "has_active_work s \<longleftrightarrow> 0 < cm_active s"

text \<open>The key under which ranges of a version of a source are kept in the source cache.\<close>

definition source_generation_key :: "(string list \<Rightarrow> string) \<Rightarrow> string \<Rightarrow> string \<Rightarrow> string" where
  "source_generation_key h base version = h [''source-generation-v1'', base, version]"

section \<open>Snapshot\<close>

text \<open>What the snapshot copies from the configuration and the source cache is left out.\<close>

record track_view =
  tv_index :: int
  tv_language :: string
  tv_name :: string
  tv_state :: string
  tv_format :: string
  tv_mode :: string
  tv_persistent :: bool
  tv_bytes :: int
  tv_cues :: nat
  tv_read_bytes :: int
  tv_requests :: int
  tv_reason :: string

record job_view =
  jv_id :: string
  jv_item :: string
  jv_source :: string
  jv_name :: string
  jv_size :: int
  jv_state :: string
  jv_created :: time
  jv_updated :: time
  jv_viewers :: nat
  jv_tracks :: "track_view list"

record captions_view =
  cw_enabled :: bool
  cw_workers :: nat
  cw_active :: nat
  cw_bytes :: int
  cw_grants :: nat
  cw_jobs :: "job_view list"

definition view_track :: "text_store \<Rightarrow> caption_state \<Rightarrow> track_view" where
  "view_track st t =
     \<lparr>tv_index = ct_index (cs_track t), tv_language = safe_label (ct_language (cs_track t)), tv_name = safe_label (ct_name (cs_track t)),
      tv_state = cs_state t, tv_format = cs_format t, tv_mode = (if cs_mode t = [] then ''upstream'' else cs_mode t),
      tv_persistent = (cs_indexed t \<and> cs_strong t),
      tv_bytes = (case map_of (ts_files st) (cs_artifact t) of None \<Rightarrow> 0 | Some a \<Rightarrow> ta_size a), tv_cues = cs_cues t,
      tv_read_bytes = cs_read_bytes t, tv_requests = cs_requests t, tv_reason = cs_reason t\<rparr>"

definition view_job :: "text_store \<Rightarrow> caption_job \<Rightarrow> job_view" where
  "view_job st j =
     \<lparr>jv_id = cj_id j, jv_item = cj_item j, jv_source = cj_source j, jv_name = cj_name j, jv_size = cj_size j,
      jv_state = (if cj_running j then ''preparing'' else ''idle''), jv_created = cj_created j, jv_updated = cj_updated j,
      jv_viewers = length (cj_viewers j),
      jv_tracks = stable_sort (\<lambda>a b. tv_index a < tv_index b) (map (view_track st \<circ> snd) (cj_tracks j))\<rparr>"

definition view_captions :: "captions \<Rightarrow> captions_view" where
  "view_captions s =
     \<lparr>cw_enabled = (\<not> cm_closed s), cw_workers = cm_workers s, cw_active = cm_active s, cw_bytes = ts_used (cm_store s),
      cw_grants = length (cm_grants s),
      cw_jobs = stable_sort (\<lambda>a b. jv_created b < jv_created a) (map (view_job (cm_store s) \<circ> snd) (cm_jobs s))\<rparr>"

end
