(* ===== verification/Subtitle_Steps.thy ===== *)
theory Subtitle_Steps
  imports Subtitle_Manager "HOL-Library.Multiset"
begin

text \<open>
  What every critical section of \<open>internal/subtitles/manager.go\<close> keeps, in any order and by any number of
  requests and workers: an artifact is pinned exactly as often as a grant or a reader uses it, so that it
  is never removed or replaced below them, and the bounds of the manager hold.
\<close>

section \<open>Invariant\<close>

definition used_artifacts :: "captions \<Rightarrow> string multiset" where
  "used_artifacts s = mset (map (cg_artifact \<circ> snd) (cm_grants s)) + mset (map snd (cm_readers s))"

definition books_ok :: "(nat \<Rightarrow> string option) \<Rightarrow> captions \<Rightarrow> bool" where
  "books_ok ids s \<longleftrightarrow>
     store_ok (cm_store s) \<and> distinct_keys (cm_grants s) \<and> distinct_keys (cm_readers s)
     \<and> (\<forall>e \<in> set (cm_grants s). cg_num (snd e) < cm_next s \<and> ids (cg_num (snd e)) = Some (fst e))
     \<and> (\<forall>r \<in> fst ` set (cm_readers s). r < cm_next s)
     \<and> length (cm_grants s) \<le> max_grants
     \<and> pins_of (cm_store s) = (\<lambda>k. int (count (used_artifacts s) k))"

definition job_ok :: "caption_job \<Rightarrow> bool" where
  "job_ok j \<longleftrightarrow>
     distinct_keys (cj_tracks j) \<and> length (cj_tracks j) \<le> max_tracks
     \<and> distinct_keys (cj_viewers j) \<and> length (cj_viewers j) \<le> max_grants
     \<and> (cj_cancel j \<noteq> None \<longleftrightarrow> cj_running j)"

definition jobs_ok :: "captions \<Rightarrow> bool" where
  "jobs_ok s \<longleftrightarrow>
     distinct_keys (cm_jobs s) \<and> length (cm_jobs s) \<le> max_jobs \<and> (\<forall>j \<in> snd ` set (cm_jobs s). job_ok j)
     \<and> cm_active s = length (filter (cj_running \<circ> snd) (cm_jobs s)) \<and> cm_active s \<le> cm_workers s"

text \<open>The numbers of artifacts that are pinned stay.\<close>

definition keeps_pinned :: "captions \<Rightarrow> captions \<Rightarrow> bool" where
  "keeps_pinned s s' \<longleftrightarrow> (\<forall>k. pins_of (cm_store s) k \<noteq> 0 \<longrightarrow> id_of (cm_store s') k = id_of (cm_store s) k)"

text \<open>What a grant is for never changes; a grant that was not there has a new number.\<close>

definition grant_terms :: "caption_grant \<Rightarrow> nat \<times> string \<times> string \<times> string \<times> int \<times> string \<times> string \<times> bool \<times> bool" where
  "grant_terms g = (cg_num g, cg_owner g, cg_item g, cg_job g, cg_index g, cg_artifact g, cg_version g, cg_indexed g, cg_strong g)"

lemma grant_terms_kept [simp]:
  "grant_terms (g\<lparr>cg_playback := p\<rparr>) = grant_terms g" "grant_terms (g\<lparr>cg_input := i\<rparr>) = grant_terms g"
  "grant_terms (g\<lparr>cg_last := now\<rparr>) = grant_terms g"
  by (simp_all add: grant_terms_def)

lemma grant_termsD:
  "grant_terms g = grant_terms g' \<Longrightarrow> cg_num g = cg_num g' \<and> cg_artifact g = cg_artifact g'"
  by (simp add: grant_terms_def)

definition lineage :: "captions \<Rightarrow> captions \<Rightarrow> bool" where
  "lineage s s' \<longleftrightarrow>
     cm_next s \<le> cm_next s'
     \<and> (\<forall>(gid, g') \<in> set (cm_grants s'). cg_num g' < cm_next s \<longrightarrow> (\<exists>g. (gid, g) \<in> set (cm_grants s) \<and> grant_terms g = grant_terms g'))"

definition same_artifacts :: "captions \<Rightarrow> captions \<Rightarrow> bool" where
  "same_artifacts s s' \<longleftrightarrow> id_of (cm_store s') = id_of (cm_store s) \<and> lineage s s'"

lemma lineage_subset [simp]: "set (cm_grants s') \<subseteq> set (cm_grants s) \<Longrightarrow> cm_next s \<le> cm_next s' \<Longrightarrow> lineage s s'"
  by (force simp: lineage_def)

lemma lineage_trans:
  assumes "lineage s t" and "lineage t u"
  shows "lineage s u"
proof -
  have "\<exists>g. (gid, g) \<in> set (cm_grants s) \<and> grant_terms g = grant_terms g''"
    if g'': "(gid, g'') \<in> set (cm_grants u)" "cg_num g'' < cm_next s" for gid g''
  proof -
    have "cg_num g'' < cm_next t" using g''(2) assms(1) by (simp add: lineage_def)
    then obtain g' where g': "(gid, g') \<in> set (cm_grants t)" "grant_terms g' = grant_terms g''"
      using assms(2) g''(1) by (auto simp: lineage_def)
    moreover from this have "cg_num g' < cm_next s" using g''(2) by (simp add: grant_terms_def)
    ultimately show ?thesis using assms(1) by (fastforce simp: lineage_def)
  qed
  then show ?thesis using assms by (auto simp: lineage_def)
qed

lemma same_artifacts_kept [intro]: "same_artifacts s s' \<Longrightarrow> keeps_pinned s s'"
  by (simp add: same_artifacts_def keeps_pinned_def)

lemma same_artifacts_refl [simp]: "same_artifacts s s"
  by (simp add: same_artifacts_def)

lemma same_artifacts_trans: "same_artifacts s t \<Longrightarrow> same_artifacts t u \<Longrightarrow> same_artifacts s u"
  by (auto simp: same_artifacts_def intro: lineage_trans)

lemma lineage_map: "(\<And>g. grant_terms (f g) = grant_terms g) \<Longrightarrow> lineage s (s\<lparr>cm_grants := map_grants f (cm_grants s)\<rparr>)"
  by (fastforce simp: lineage_def map_grants_def)

lemma lineage_update:
  "(gid, g) \<in> set (cm_grants s) \<Longrightarrow> grant_terms g' = grant_terms g \<Longrightarrow> set (cm_grants s') \<subseteq> insert (gid, g') (set (cm_grants s)) \<Longrightarrow>
     cm_next s \<le> cm_next s' \<Longrightarrow> lineage s s'"
  by (fastforce simp: lineage_def)

lemma lineage_new:
  "set (cm_grants s') \<subseteq> insert (gid, g) (set (cm_grants s)) \<Longrightarrow> cm_next s \<le> cg_num g \<Longrightarrow> cm_next s \<le> cm_next s' \<Longrightarrow> lineage s s'"
  by (fastforce simp: lineage_def)

section \<open>Maps\<close>

lemma map_entry_values: "\<forall>x. P x \<longrightarrow> P (f x) \<Longrightarrow> \<forall>x \<in> snd ` set m. P x \<Longrightarrow> \<forall>x \<in> snd ` set (AList.map_entry k f m). P x"
  by (induction m) auto

lemma length_map_entry [simp]: "length (AList.map_entry k f m) = length m"
  by (induction m) auto

lemma map_entry_keys [simp]: "map fst (AList.map_entry k f m) = map fst m"
  by (induction m) auto

lemma length_filter_map_entry:
  "\<forall>x. Q (f x) = Q x \<Longrightarrow> length (filter (Q \<circ> snd) (AList.map_entry k f m)) = length (filter (Q \<circ> snd) m)"
  by (induction m) auto

lemma length_filter_map_prod:
  "\<forall>x. Q (f x) = Q x \<Longrightarrow> length (filter (Q \<circ> snd) (map (map_prod id f) m)) = length (filter (Q \<circ> snd) m)"
  by (induction m) auto

lemma mset_update_new:
  "k \<notin> fst ` set m \<Longrightarrow> mset (map (f \<circ> snd) (AList.update k v m)) = add_mset (f v) (mset (map (f \<circ> snd) m))"
  by (simp add: update_fresh_key)

lemma map_update_same:
  "map_of m k = Some w \<Longrightarrow> f v = f w \<Longrightarrow> map (f \<circ> snd) (AList.update k v m) = map (f \<circ> snd) m"
  by (induction m) (auto split: if_splits)

lemma mset_delete:
  "distinct_keys m \<Longrightarrow> map_of m k = Some v \<Longrightarrow> mset (map (f \<circ> snd) (AList.delete k m)) = mset (map (f \<circ> snd) m) - {#f v#}"
proof (induction m)
  case (Cons e m)
  show ?case
  proof (cases "fst e = k")
    case True
    then have "k \<notin> fst ` set m" using Cons.prems(1) by auto
    then have "AList.delete k m = m" by (simp add: delete_id)
    then show ?thesis using True Cons.prems(2) by (cases e) simp
  next
    case False
    then have "map_of m k = Some v" using Cons.prems(2) by (cases e) auto
    moreover from this have "v \<in> snd ` set m" by (force dest: map_of_SomeD)
    then have "f v \<in># mset (map (f \<circ> snd) m)" by auto
    ultimately show ?thesis using False Cons.IH Cons.prems(1) by (cases e) simp
  qed
qed simp

section \<open>Jobs\<close>

text \<open>An operation on one job that keeps what holds of it.\<close>

definition job_safe :: "(caption_job \<Rightarrow> caption_job) \<Rightarrow> bool" where
  "job_safe f \<longleftrightarrow> (\<forall>j. job_ok j \<longrightarrow> job_ok (f j) \<and> cj_running (f j) = cj_running j)"

lemma job_safe_id [simp]: "job_safe id"
  by (simp add: job_safe_def)

lemma job_safe_comp: "job_safe f \<Longrightarrow> job_safe g \<Longrightarrow> job_safe (\<lambda>j. f (g j))"
  by (simp add: job_safe_def)

lemma job_safe_signal [simp]: "job_safe (signal now)"
  by (simp add: job_safe_def signal_def job_ok_def)

lemma job_safe_cancel [simp]: "job_safe cancel_job"
  by (simp add: job_safe_def cancel_job_def job_ok_def)

lemma job_safe_track [simp]: "job_safe (on_track i f)"
  by (simp add: job_safe_def on_track_def job_ok_def)

lemma job_safe_signal_track [simp]: "job_safe (\<lambda>j. signal now (on_track i f j))"
  by (rule job_safe_comp) simp_all

lemma on_job_select [simp]:
  "cm_workers (on_job key f s) = cm_workers s" "cm_closed (on_job key f s) = cm_closed s"
  "cm_grants (on_job key f s) = cm_grants s" "cm_store (on_job key f s) = cm_store s"
  "cm_active (on_job key f s) = cm_active s" "cm_readers (on_job key f s) = cm_readers s" "cm_next (on_job key f s) = cm_next s"
  "cm_jobs (on_job key f s) = AList.map_entry key f (cm_jobs s)"
  by (simp_all add: on_job_def)

lemma active_map_entry:
  assumes "\<forall>j \<in> snd ` set m. cj_running (f j) = cj_running j"
  shows "length (filter (cj_running \<circ> snd) (AList.map_entry k f m)) = length (filter (cj_running \<circ> snd) m)"
  using assms by (induction m) auto

lemma jobs_ok_on_job:
  assumes "jobs_ok s" and "\<And>j. (key, j) \<in> set (cm_jobs s) \<Longrightarrow> job_ok (f j) \<and> cj_running (f j) = cj_running j"
  shows "jobs_ok (on_job key f s)"
proof -
  have each: "job_ok j" if "(k, j) \<in> set (AList.map_entry key f m)" "set m \<subseteq> set (cm_jobs s)" for k j m
    using that assms(2) assms(1) by (induction m) (force simp: jobs_ok_def split: if_splits)+
  have active: "length (filter (cj_running \<circ> snd) (AList.map_entry key f m)) = length (filter (cj_running \<circ> snd) m)"
    if "set m \<subseteq> set (cm_jobs s)" for m
    using that assms(2) by (induction m) auto
  show ?thesis
    using assms(1) each [of _ _ "cm_jobs s"] active [of "cm_jobs s"] by (fastforce simp: jobs_ok_def)
qed

lemma jobs_ok_safe: "jobs_ok s \<Longrightarrow> job_safe f \<Longrightarrow> jobs_ok (on_job key f s)"
  by (rule jobs_ok_on_job) (auto simp: job_safe_def jobs_ok_def)

lemma jobs_ok_cong:
  "jobs_ok s \<Longrightarrow> cm_jobs s' = cm_jobs s \<Longrightarrow> cm_active s' = cm_active s \<Longrightarrow> cm_workers s' = cm_workers s \<Longrightarrow> jobs_ok s'"
  by (simp add: jobs_ok_def)

lemma jobs_ok_map:
  assumes "jobs_ok s" and "job_safe f"
  shows "jobs_ok (s\<lparr>cm_jobs := map (map_prod id f) (cm_jobs s)\<rparr>)"
proof -
  have active: "length (filter (cj_running \<circ> snd) (map (map_prod id f) m)) = length (filter (cj_running \<circ> snd) m)"
    if "\<forall>j \<in> snd ` set m. job_ok j" for m
    using that assms(2) by (induction m) (auto simp: job_safe_def)
  have keys: "map fst (map (map_prod id f) m) = map fst m" for m :: "(string, caption_job) gomap"
    by (induction m) auto
  have "\<forall>j \<in> snd ` set (map (map_prod id f) (cm_jobs s)). job_ok j"
    using assms by (auto simp: jobs_ok_def job_safe_def)
  then show ?thesis
    using assms(1) active [of "cm_jobs s"] by (simp only: jobs_ok_def keys captions.simps length_map) simp
qed

section \<open>Books\<close>

lemma books_ok_cong:
  "books_ok ids s \<Longrightarrow> cm_grants s' = cm_grants s \<Longrightarrow> cm_readers s' = cm_readers s \<Longrightarrow> cm_store s' = cm_store s \<Longrightarrow>
     cm_next s \<le> cm_next s' \<Longrightarrow> books_ok ids s'"
  by (auto simp: books_ok_def used_artifacts_def)

lemma books_ok_on_job [simp]: "books_ok ids (on_job key f s) = books_ok ids s"
  by (auto simp: books_ok_def used_artifacts_def)

lemma same_artifacts_on_job [simp]: "same_artifacts s (on_job key f s)"
  by (simp add: same_artifacts_def)

text \<open>The store is replaced by one that spares what is pinned.\<close>

lemma books_ok_store:
  "books_ok ids s \<Longrightarrow> store_ok st \<Longrightarrow> spares_pinned (cm_store s) st \<Longrightarrow> books_ok ids (s\<lparr>cm_store := st\<rparr>)"
  by (simp add: books_ok_def used_artifacts_def spares_pinned_def)

lemma keeps_pinned_store: "spares_pinned (cm_store s) st \<Longrightarrow> keeps_pinned s (s\<lparr>cm_store := st\<rparr>)"
  by (simp add: keeps_pinned_def spares_pinned_def)

lemma books_ok_map_grants:
  assumes "books_ok ids s" and "\<And>g. grant_terms (f g) = grant_terms g"
  shows "books_ok ids (s\<lparr>cm_grants := map_grants f (cm_grants s)\<rparr>)"
proof -
  have same: "cg_num (f g) = cg_num g \<and> cg_artifact (f g) = cg_artifact g" for g by (rule grant_termsD) (rule assms(2))
  have "map (cg_artifact \<circ> snd) (map_grants f m) = map (cg_artifact \<circ> snd) m" for m
    using same by (induction m) (auto simp: map_grants_def)
  then have used: "used_artifacts (s\<lparr>cm_grants := map_grants f (cm_grants s)\<rparr>) = used_artifacts s"
    by (simp add: used_artifacts_def del: mset_map map_map)
  have keys: "map fst (map_grants f m) = map fst m" for m by (induction m) (auto simp: map_grants_def)
  have "\<forall>e \<in> set (map_grants f (cm_grants s)). cg_num (snd e) < cm_next s \<and> ids (cg_num (snd e)) = Some (fst e)"
    using assms(1) same by (auto simp: books_ok_def map_grants_def)
  then show ?thesis using assms(1) unfolding books_ok_def used by (simp add: keys) (simp add: map_grants_def)
qed


section \<open>Operations that replace no file\<close>

definition captions_ok :: "(nat \<Rightarrow> string option) \<Rightarrow> captions \<Rightarrow> bool" where
  "captions_ok ids s \<longleftrightarrow> books_ok ids s \<and> jobs_ok s"

definition leads :: "(nat \<Rightarrow> string option) \<Rightarrow> captions \<Rightarrow> captions \<Rightarrow> bool" where
  "leads ids s s' \<longleftrightarrow> (captions_ok ids s \<longrightarrow> captions_ok ids s' \<and> same_artifacts s s')"

lemma leads_refl [simp, intro]: "leads ids s s"
  by (simp add: leads_def)

lemma leads_trans: "leads ids s t \<Longrightarrow> leads ids t u \<Longrightarrow> leads ids s u"
  using same_artifacts_trans by (auto simp: leads_def)

lemma leads_fold: "(\<And>e s. leads ids s (f e s)) \<Longrightarrow> leads ids s (fold f es s)"
  by (induction es arbitrary: s) (auto intro: leads_trans)

lemma leads_on_job [simp, intro]: "job_safe f \<Longrightarrow> leads ids s (on_job key f s)"
  using jobs_ok_safe by (auto simp: leads_def captions_ok_def)

lemma leads_this_job:
  assumes "map_of (cm_jobs s) key = Some j" and "job_ok j \<Longrightarrow> job_ok (f j) \<and> cj_running (f j) = cj_running j"
  shows "leads ids s (on_job key f s)"
proof (unfold leads_def, intro impI conjI)
  assume ok: "captions_ok ids s"
  have "jobs_ok (on_job key f s)"
  proof (rule jobs_ok_on_job)
    show "jobs_ok s" using ok by (simp add: captions_ok_def)
    fix j' assume "(key, j') \<in> set (cm_jobs s)"
    then have "j' = j" using ok assms(1) by (simp add: captions_ok_def jobs_ok_def)
    moreover have "job_ok j" using ok map_of_SomeD [OF assms(1)] by (force simp: captions_ok_def jobs_ok_def)
    ultimately show "job_ok (f j') \<and> cj_running (f j') = cj_running j'" using assms(2) by simp
  qed
  then show "captions_ok ids (on_job key f s)" using ok by (simp add: captions_ok_def)
qed simp

lemma leads_map_jobs: "job_safe f \<Longrightarrow> leads ids s (s\<lparr>cm_jobs := map (map_prod id f) (cm_jobs s)\<rparr>)"
  using jobs_ok_map [of s f] books_ok_cong [of ids s "s\<lparr>cm_jobs := map (map_prod id f) (cm_jobs s)\<rparr>"]
  by (auto simp: leads_def captions_ok_def same_artifacts_def)

lemma leads_map_grants:
  "(\<And>g. grant_terms (f g) = grant_terms g) \<Longrightarrow>
     leads ids s (s\<lparr>cm_grants := map_grants f (cm_grants s)\<rparr>)"
  using books_ok_map_grants [of ids s f] jobs_ok_cong [of s "s\<lparr>cm_grants := map_grants f (cm_grants s)\<rparr>"]
    lineage_map [of f s]
  by (auto simp: leads_def captions_ok_def same_artifacts_def)

lemma leads_next: "cm_next s \<le> n \<Longrightarrow> leads ids s (s\<lparr>cm_next := n\<rparr>)"
  using books_ok_cong [of ids s "s\<lparr>cm_next := n\<rparr>"] jobs_ok_cong [of s "s\<lparr>cm_next := n\<rparr>"]
  by (auto simp: leads_def captions_ok_def same_artifacts_def)

subsection \<open>Prepare\<close>

lemma add_tracks_ok:
  "distinct_keys m \<Longrightarrow> length m \<le> max_tracks \<Longrightarrow> distinct_keys (add_tracks ts m) \<and> length (add_tracks ts m) \<le> max_tracks"
  by (induction ts m rule: add_tracks.induct) (auto simp: length_update_new)

lemma job_safe_add_tracks: "job_safe (\<lambda>j. j\<lparr>cj_tracks := add_tracks ts (cj_tracks j)\<rparr>)"
  using add_tracks_ok by (simp add: job_safe_def job_ok_def)

lemma job_ok_new: "job_ok (new_job n label now i)"
  by (simp add: job_ok_def new_job_def)

lemma leads_new_job:
  assumes "map_of (cm_jobs s) key = None" and "length (cm_jobs s) < max_jobs" and "job_ok j" and "\<not> cj_running j"
  shows "leads ids s (s\<lparr>cm_jobs := AList.update key j (cm_jobs s)\<rparr>)"
proof (unfold leads_def, intro impI conjI)
  assume ok: "captions_ok ids s"
  have "key \<notin> fst ` set (cm_jobs s)" using assms(1) by (simp add: map_of_eq_None_iff)
  then have upd: "AList.update key j (cm_jobs s) = cm_jobs s @ [(key, j)]" by (rule update_fresh_key)
  have "jobs_ok (s\<lparr>cm_jobs := AList.update key j (cm_jobs s)\<rparr>)"
    using ok assms(2-4) \<open>key \<notin> fst ` set (cm_jobs s)\<close> by (auto simp: upd jobs_ok_def captions_ok_def)
  then show "captions_ok ids (s\<lparr>cm_jobs := AList.update key j (cm_jobs s)\<rparr>)"
    using ok books_ok_cong [of ids s] by (simp add: captions_ok_def)
qed (simp add: same_artifacts_def)

lemma viewers_updated:
  assumes "job_ok j" and "length (cj_viewers j) < max_grants \<or> map_of (cj_viewers j) vk \<noteq> None"
  shows "job_ok (j\<lparr>cj_viewers := AList.update vk v (cj_viewers j)\<rparr>)"
proof -
  have "length (AList.update vk v (cj_viewers j)) \<le> max_grants"
    using assms(1,2) length_update_new [of "cj_viewers j" vk v] length_update_old [of "cj_viewers j" vk _ v]
    by (cases "map_of (cj_viewers j) vk") (auto simp: job_ok_def)
  then show ?thesis using assms(1) by (simp add: job_ok_def)
qed

lemma job_ok_viewers:
  "job_ok j \<Longrightarrow> distinct_keys vs \<Longrightarrow> length vs \<le> length (cj_viewers j) \<Longrightarrow>
     job_ok (j\<lparr>cj_viewers := vs\<rparr>)"
  by (auto simp: job_ok_def subset_iff)

lemma leads_adopt: "leads ids s (adopt_previews now key actual i retired s)"
proof (cases "map_of (cm_jobs s) key")
  case (Some j)
  define gone where "gone = filter (superseded actual i) (cj_viewers j)"
  define left where "left = filter (\<lambda>e. \<not> superseded actual i e) (cj_viewers j)"
  define t where "t = s\<lparr>cm_grants := fold (\<lambda>e. map_grants (adopt_grant now key i (snd e))) gone (cm_grants s)\<rparr>"
  have "leads ids u (u\<lparr>cm_grants := fold (\<lambda>e. map_grants (adopt_grant now key i (snd e))) es (cm_grants u)\<rparr>)" for u es
  proof (induction es arbitrary: u)
    case (Cons e es)
    have "leads ids u (u\<lparr>cm_grants := map_grants (adopt_grant now key i (snd e)) (cm_grants u)\<rparr>)"
      by (rule leads_map_grants) (simp add: adopt_grant_def)
    then show ?case using Cons.IH [of "u\<lparr>cm_grants := map_grants (adopt_grant now key i (snd e)) (cm_grants u)\<rparr>"]
      by (auto intro: leads_trans)
  qed simp
  then have grants: "leads ids s t" by (simp add: t_def)
  have job: "job_ok j \<Longrightarrow> job_ok (j\<lparr>cj_viewers := left\<rparr>)"
    by (rule job_ok_viewers) (auto simp: left_def job_ok_def)
  have "leads ids t (on_job key (\<lambda>j. f (j\<lparr>cj_viewers := left\<rparr>)) t)" if "f = cancel_job \<or> f = id" for f
  proof (rule leads_this_job)
    show "map_of (cm_jobs t) key = Some j" using Some by (simp add: t_def)
    assume "job_ok j"
    then show "job_ok (f (j\<lparr>cj_viewers := left\<rparr>)) \<and> cj_running (f (j\<lparr>cj_viewers := left\<rparr>)) = cj_running j"
      using job [OF \<open>job_ok j\<close>] that job_safe_cancel [unfolded job_safe_def, rule_format] by (elim disjE) simp_all
  qed
  then have jobs: "leads ids t (on_job key (\<lambda>j. (if b then cancel_job else id) (j\<lparr>cj_viewers := left\<rparr>)) t)" for b by simp
  define wanted where "wanted \<longleftrightarrow> list_ex (\<lambda>e. (cv_playback (snd e) \<or> cv_recover (snd e))
    \<and> (case cv_selected (snd e) of None \<Rightarrow> False | Some x \<Rightarrow> 0 \<le> x)) left"
  have "adopt_previews now key actual i retired s =
      on_job key (\<lambda>j. (if (retired \<or> gone \<noteq> []) \<and> \<not> wanted then cancel_job else id) (j\<lparr>cj_viewers := left\<rparr>)) t"
    unfolding adopt_previews_def Some option.case Let_def gone_def [symmetric] left_def [symmetric] t_def [symmetric]
      wanted_def [symmetric] ..
  then show ?thesis using leads_trans [OF grants jobs] by simp
qed (simp add: adopt_previews_def)


lemma filter_flip_on:
  "map_of m key = Some j \<Longrightarrow> \<not> P j \<Longrightarrow> P (f j) \<Longrightarrow>
     length (filter (P \<circ> snd) (AList.map_entry key f m)) = length (filter (P \<circ> snd) m) + 1"
  by (induction m) (auto split: if_splits)

lemma map_entry_in:
  "e \<in> set (AList.map_entry key f m) \<Longrightarrow> distinct_keys m \<Longrightarrow> map_of m key = Some j \<Longrightarrow> e = (key, f j) \<or> e \<in> set m"
  by (induction m) (auto split: if_splits)

lemma jobs_ok_flip:
  assumes "jobs_ok s" and "map_of (cm_jobs s) key = Some j" and "job_ok j \<Longrightarrow> job_ok (f j)"
    and "length (filter (cj_running \<circ> snd) (AList.map_entry key f (cm_jobs s))) = n" and "n \<le> cm_workers s"
  shows "jobs_ok ((on_job key f s)\<lparr>cm_active := n\<rparr>)"
proof -
  have "job_ok j" using assms(1) map_of_SomeD [OF assms(2)] by (force simp: jobs_ok_def)
  then have "job_ok (snd e)" if "e \<in> set (AList.map_entry key f (cm_jobs s))" for e
    using map_entry_in [OF that _ assms(2)] assms(1,3) by (auto simp: jobs_ok_def)
  then show ?thesis using assms(1,4,5) by (simp add: jobs_ok_def)
qed

lemma leads_start: "\<not> job_running key s \<Longrightarrow> leads ids s (start_job now key s)"
proof (unfold leads_def, intro impI)
  assume idle: "\<not> job_running key s" and ok: "captions_ok ids s"
  show "captions_ok ids (start_job now key s) \<and> same_artifacts s (start_job now key s)"
  proof (cases "map_of (cm_jobs s) key")
    case (Some j)
    then have running: "\<not> cj_running j" using idle by (simp add: job_running_def)
    define f where "f = (\<lambda>j :: caption_job. j\<lparr>cj_cancel := Some False, cj_running := True\<rparr>)"
    define t where "t = (on_job key f s)\<lparr>cm_active := cm_active s + 1\<rparr>"
    have count: "length (filter (cj_running \<circ> snd) (AList.map_entry key f (cm_jobs s))) = cm_active s + 1"
      using filter_flip_on [OF Some, of cj_running f] running ok by (simp add: f_def captions_ok_def jobs_ok_def)
    have "jobs_ok t" if "cm_active s < cm_workers s"
      unfolding t_def using jobs_ok_flip [OF _ Some _ count] ok that by (simp add: captions_ok_def f_def job_ok_def)
    moreover have "books_ok ids t" using ok books_ok_cong [of ids s t] by (simp add: captions_ok_def t_def)
    moreover have "same_artifacts s t" by (simp add: same_artifacts_def t_def)
    ultimately have "cm_active s < cm_workers s \<longrightarrow> captions_ok ids t \<and> same_artifacts s t" by (simp add: captions_ok_def)
    then show ?thesis using ok Some by (simp add: start_job_def t_def f_def)
  qed (simp add: start_job_def ok)
qed

lemma leads_viewer:
  assumes "map_of (cm_jobs s) key = Some j" and "length (cj_viewers j) < max_grants \<or> map_of (cj_viewers j) vk \<noteq> None"
  shows "leads ids s ((on_job key (\<lambda>j. j\<lparr>cj_viewers := AList.update vk v (cj_viewers j)\<rparr>) s)\<lparr>cm_next := cm_next s + 1\<rparr>)"
proof -
  have "leads ids s (on_job key (\<lambda>j. j\<lparr>cj_viewers := AList.update vk v (cj_viewers j)\<rparr>) s)"
    by (rule leads_this_job [OF assms(1)]) (use viewers_updated assms(2) in simp)
  then show ?thesis by (rule leads_trans) (rule leads_next, simp)
qed

lemma new_viewer_input [simp]: "cv_input (new_viewer n now i sel existing) = i"
  by (simp add: new_viewer_def Let_def split: option.split)

lemma leads_admit_viewer: "leads ids s (snd (admit_viewer h now key i sel s))"
proof -
  define t where "t = on_job key (\<lambda>j. j\<lparr>cj_tracks := add_tracks (ci_tracks i) (cj_tracks j)\<rparr>) s"
  have t: "leads ids s t" unfolding t_def by (rule leads_on_job) (rule job_safe_add_tracks)
  define vk where "vk = viewer_key h (ci_owner i) (ci_playback i)"
  show ?thesis
  proof (cases "map_of (cm_jobs t) key")
    case None
    then show ?thesis using t by (simp add: admit_viewer_def t_def [symmetric] Let_def)
  next
    case (Some j)
    define full where "full \<longleftrightarrow> max_grants \<le> length (cj_viewers j) \<and> map_of (cj_viewers j) vk = None"
    define v where "v = new_viewer (cm_next t) now i sel (map_of (cj_viewers j) vk)"
    define u where "u = (on_job key (\<lambda>j. j\<lparr>cj_viewers := AList.update vk v (cj_viewers j)\<rparr>) t)\<lparr>cm_next := cm_next t + 1\<rparr>"
    define w where "w = (if sl_playback sel
      then adopt_previews now key vk i (case map_of (cj_viewers j) vk of None \<Rightarrow> False | Some e \<Rightarrow> \<not> cv_playback e) u else u)"
    define x where "x = (if sl_probe sel \<and> \<not> job_running key w then start_job now key w else w)"
    have "snd (admit_viewer h now key i sel s) = (if full then t else x)"
      by (simp only: admit_viewer_def t_def [symmetric] Let_def Some option.case vk_def [symmetric] full_def [symmetric]
          v_def [symmetric] u_def [symmetric] w_def [symmetric] x_def [symmetric] if_distrib [of snd] snd_conv)
    moreover have "leads ids s x" if "\<not> full"
    proof -
      have "leads ids t u"
        unfolding u_def by (rule leads_viewer [OF Some]) (use that in \<open>auto simp: full_def v_def vk_def\<close>)
      moreover have "leads ids u w" using leads_adopt by (simp add: w_def)
      moreover have "leads ids w x" using leads_start by (simp add: x_def)
      ultimately show ?thesis using t by (intro leads_trans [of ids s t x] leads_trans [of ids t u x] leads_trans [of ids u w x])
    qed
    ultimately show ?thesis using t by simp
  qed
qed

lemma leads_admit: "leads ids s (snd (admit_caption h ids' now alive valid i sel s))"
proof -
  define key where "key = h [ci_key i, ci_source i]"
  have new: "leads ids s (s\<lparr>cm_jobs := AList.update key (new_job (cm_next s) label now i) (cm_jobs s), cm_next := cm_next s + 1\<rparr>)"
    if "map_of (cm_jobs s) key = None" "length (cm_jobs s) < max_jobs" for label
  proof -
    have "leads ids s (s\<lparr>cm_jobs := AList.update key (new_job (cm_next s) label now i) (cm_jobs s)\<rparr>)"
      by (rule leads_new_job [OF that]) (simp_all add: job_ok_new, simp add: new_job_def)
    then show ?thesis
      using leads_next [of "s\<lparr>cm_jobs := AList.update key (new_job (cm_next s) label now i) (cm_jobs s)\<rparr>" "cm_next s + 1" ids]
      by (auto intro: leads_trans)
  qed
  define t where "t = (\<lambda>label. s\<lparr>cm_jobs := AList.update key (new_job (cm_next s) label now i) (cm_jobs s), cm_next := cm_next s + 1\<rparr>)"
  have "snd (admit_caption h ids' now alive valid i sel s) \<in>
      {s, snd (admit_viewer h now key i sel s)}
      \<union> {snd (admit_viewer h now key i sel (t label)) | label. map_of (cm_jobs s) key = None \<and> length (cm_jobs s) < max_jobs}"
    unfolding admit_caption_def key_def [symmetric] Let_def t_def by (auto simp: not_le split: option.split)
  moreover have "leads ids s (snd (admit_viewer h now key i sel (t label)))"
    if "map_of (cm_jobs s) key = None" "length (cm_jobs s) < max_jobs" for label
    using leads_trans [OF new [OF that] leads_admit_viewer] by (simp add: t_def)
  ultimately show ?thesis using leads_admit_viewer by auto
qed


lemma leads_cancel_prepare: "leads ids s (cancel_prepare canceled p s)"
proof -
  have "leads ids s (on_job (pt_job p) (\<lambda>j. (if b then cancel_job else id) (j\<lparr>cj_viewers := AList.delete (pt_viewer p) (cj_viewers j')\<rparr>)) s)"
    if "map_of (cm_jobs s) (pt_job p) = Some j'" for b j'
  proof (rule leads_this_job [OF that])
    assume ok: "job_ok j'"
    have "job_ok (j'\<lparr>cj_viewers := AList.delete (pt_viewer p) (cj_viewers j')\<rparr>)"
      by (rule job_ok_viewers [OF ok]) (use ok in \<open>simp_all add: job_ok_def length_delete_le\<close>)
    then show "job_ok ((if b then cancel_job else id) (j'\<lparr>cj_viewers := AList.delete (pt_viewer p) (cj_viewers j')\<rparr>))
        \<and> cj_running ((if b then cancel_job else id) (j'\<lparr>cj_viewers := AList.delete (pt_viewer p) (cj_viewers j')\<rparr>)) = cj_running j'"
      using job_safe_cancel [unfolded job_safe_def, rule_format] by (cases b) simp_all
  qed
  then show ?thesis by (simp add: cancel_prepare_def Let_def split: option.split)
qed

subsection \<open>Grants\<close>

definition distinct_ids :: "(nat \<Rightarrow> string option) \<Rightarrow> bool" where
  "distinct_ids ids \<longleftrightarrow> (\<forall>m n a. ids m = Some a \<longrightarrow> ids n = Some a \<longrightarrow> m = n)"

lemma leads_books:
  assumes "books_ok ids s \<Longrightarrow> books_ok ids s' \<and> same_artifacts s s'"
    and "cm_jobs s' = cm_jobs s" "cm_active s' = cm_active s" "cm_workers s' = cm_workers s"
  shows "leads ids s s'"
  using assms jobs_ok_cong [of s s'] by (simp add: leads_def captions_ok_def)

lemma leads_update_grant:
  assumes "map_of (cm_grants s) gid = Some g" and "grant_terms g' = grant_terms g"
  shows "leads ids s (s\<lparr>cm_grants := AList.update gid g' (cm_grants s)\<rparr>)"
proof (rule leads_books)
  assume ok: "books_ok ids s"
  define s' where "s' = s\<lparr>cm_grants := AList.update gid g' (cm_grants s)\<rparr>"
  have used: "used_artifacts s' = used_artifacts s"
    using map_update_same [OF assms(1), of cg_artifact g'] assms(2) by (simp add: used_artifacts_def s'_def grant_terms_def del: mset_map)
  have g: "(gid, g) \<in> set (cm_grants s)" using assms(1) by (rule map_of_SomeD)
  have "cg_num (snd e) < cm_next s \<and> ids (cg_num (snd e)) = Some (fst e)" if "e \<in> set (AList.update gid g' (cm_grants s))" for e
    using in_set_updateD [OF that] g assms(2) ok by (force simp: books_ok_def grant_terms_def)
  then have "books_ok ids s'"
    using ok length_update_old [OF assms(1), of g'] unfolding books_ok_def used by (simp add: s'_def)
  moreover have "lineage s s'" by (rule lineage_update [OF g assms(2)]) (use set_update_subset in \<open>simp_all add: s'_def\<close>)
  ultimately show "books_ok ids s' \<and> same_artifacts s s'" by (simp add: same_artifacts_def) (simp add: s'_def)
qed simp_all

lemma leads_new_grant:
  assumes "distinct_ids ids" and "ids (cm_next s) = Some gid" and "length (cm_grants s) < max_grants"
    and "map_of (ts_files (cm_store s)) (cg_artifact g) = Some a" and "cg_num g = cm_next s"
  shows "leads ids s (s\<lparr>cm_grants := AList.update gid g (cm_grants s), cm_store := pin_text 1 (cg_artifact g) (cm_store s),
    cm_next := cm_next s + 1\<rparr>)"
proof (rule leads_books)
  assume ok: "books_ok ids s"
  define s' where "s' = s\<lparr>cm_grants := AList.update gid g (cm_grants s), cm_store := pin_text 1 (cg_artifact g) (cm_store s),
    cm_next := cm_next s + 1\<rparr>"
  have new: "gid \<notin> fst ` set (cm_grants s)"
    using ok assms(1,2) by (fastforce simp: books_ok_def distinct_ids_def)
  have used: "used_artifacts s' = add_mset (cg_artifact g) (used_artifacts s)"
    using mset_update_new [OF new, of cg_artifact g] by (simp add: used_artifacts_def s'_def del: mset_map)
  have known: "id_of (cm_store s) (cg_artifact g) \<noteq> None" using assms(4) by (simp add: id_of_def)
  have "pins_of (cm_store s') = (\<lambda>k. int (count (used_artifacts s') k))"
    using pin_text_pins(1) [OF known, of 1] ok by (simp add: s'_def [symmetric] used) (simp add: s'_def books_ok_def fun_eq_iff)
  moreover have "store_ok (cm_store s')" using ok by (simp add: s'_def books_ok_def pin_text_ok)
  ultimately have "books_ok ids s'"
    using ok new assms(2,3,5) by (auto simp: books_ok_def s'_def update_fresh_key)
  moreover have "lineage s s'" by (rule lineage_new [of s' gid g s]) (use set_update_subset assms(5) in \<open>simp_all add: s'_def\<close>)
  ultimately show "books_ok ids s' \<and> same_artifacts s s'" by (simp add: same_artifacts_def) (simp add: s'_def pin_text_pins)
qed simp_all

lemma find_in: "find P m = Some x \<Longrightarrow> x \<in> set m \<and> P x"
  by (auto simp: find_Some_iff)


lemma leads_grant_track:
  assumes "distinct_ids ids"
  shows "leads ids s (snd (grant_track ids now key i allowed t s))"
proof -
  have given: "leads ids s (snd (grant_artifact ids now key i t st a s))"
    if a: "map_of (ts_files (cm_store s)) (cs_artifact st) = Some a" for st a
  proof (cases "find (grants_track key i t (cs_artifact st)) (cm_grants s)")
    case None
    have "leads ids s (s\<lparr>cm_grants := AList.update gid (new_grant (cm_next s) now key i t st) (cm_grants s),
        cm_store := pin_text 1 (cs_artifact st) (cm_store s), cm_next := cm_next s + 1\<rparr>)"
      if "ids (cm_next s) = Some gid" "length (cm_grants s) < max_grants" for gid
      using leads_new_grant [OF assms that, of "new_grant (cm_next s) now key i t st" a] a by (simp add: new_grant_def)
    then show ?thesis using None by (simp add: grant_artifact_def not_le split: option.split)
  next
    case (Some e)
    obtain gid g where e: "e = (gid, g)" by (cases e)
    have g: "(gid, g) \<in> set (cm_grants s)" using find_in [OF Some] e by simp
    have "leads ids s (s\<lparr>cm_grants := AList.update gid (g\<lparr>cg_input := i, cg_last := now\<rparr>) (cm_grants s)\<rparr>)"
    proof (cases "distinct_keys (cm_grants s)")
      case True
      then have "map_of (cm_grants s) gid = Some g" using g by simp
      then show ?thesis by (rule leads_update_grant) simp_all
    qed (simp add: leads_def captions_ok_def books_ok_def)
    then show ?thesis using Some e by (simp add: grant_artifact_def)
  qed
  show ?thesis
    unfolding grant_track_def using given by (auto split: option.split)
qed

lemma leads_ready:
  assumes "distinct_ids ids"
  shows "leads ids s (snd (ready_tracks ids now key i allowed ts s))"
proof (induction ts arbitrary: s)
  case (Cons t ts)
  obtain r u where u: "grant_track ids now key i allowed t s = (r, u)" by (cases "grant_track ids now key i allowed t s")
  have "leads ids s u" using leads_grant_track [OF assms, of s now key i allowed t] u by simp
  then show ?case using leads_trans Cons.IH [of u] u by (auto split: prod.split)
qed simp

lemma leads_finish_prepare: "distinct_ids ids \<Longrightarrow> leads ids s (snd (finish_prepare ids now p i allowed s))"
  using leads_ready by (simp add: finish_prepare_def split: option.split)

subsection \<open>The work on a job\<close>

lemma leads_probe: "leads ids s (snd (probe_track now key i s))"
  by (simp add: probe_track_def Let_def split: option.split)

lemma leads_postpone: "leads ids s (postpone_track key i s)"
  by (simp add: postpone_track_def)

lemma leads_failed: "leads ids s (failed_track now key i reason s)"
  by (simp add: failed_track_def)

lemma leads_mark: "leads ids s (snd (mark_extraction now key i s))"
  by (simp add: mark_extraction_def split: option.split)

lemma leads_count: "leads ids s (count_extraction key i x s)"
  by (simp add: count_extraction_def)

lemma leads_source_changed: "leads ids s (source_changed now g s)"
  using leads_failed by (simp add: source_changed_def split: option.split)

lemma filter_flip_off:
  "map_of m key = Some j \<Longrightarrow> P j \<Longrightarrow> \<not> P (f j) \<Longrightarrow>
     length (filter (P \<circ> snd) (AList.map_entry key f m)) = length (filter (P \<circ> snd) m) - 1"
proof (induction m)
  case (Cons e m)
  show ?case
  proof (cases "fst e = key")
    case False
    then have "map_of m key = Some j" using Cons.prems(1) by (cases e) auto
    then have "(key, j) \<in> set m" by (rule map_of_SomeD)
    then have "filter (P \<circ> snd) m \<noteq> []" using Cons.prems(2) by (force simp: filter_empty_conv)
    then have "0 < length (filter (\<lambda>a. P (snd a)) m)" by (simp add: comp_def)
    then show ?thesis using False Cons \<open>map_of m key = Some j\<close> by (cases e) auto
  qed (use Cons.prems in \<open>cases e, auto\<close>)
qed simp

lemma leads_run_end: "job_running key s \<Longrightarrow> leads ids s (run_end now key s)"
proof (unfold leads_def, intro impI)
  assume running: "job_running key s" and ok: "captions_ok ids s"
  obtain j where j: "map_of (cm_jobs s) key = Some j" "cj_running j" using running by (auto simp: job_running_def split: option.splits)
  define f where "f = (\<lambda>j. signal now (j\<lparr>cj_running := False, cj_cancel := None\<rparr>))"
  have count: "length (filter (cj_running \<circ> snd) (AList.map_entry key f (cm_jobs s))) = cm_active s - 1"
    using filter_flip_off [OF j(1), of cj_running f] j(2) ok by (simp add: f_def signal_def captions_ok_def jobs_ok_def)
  have t: "run_end now key s = (on_job key f s)\<lparr>cm_active := cm_active s - 1\<rparr>" by (simp add: run_end_def f_def)
  have jobs: "jobs_ok s" using ok by (simp add: captions_ok_def)
  have "cm_active s \<le> cm_workers s" using jobs by (simp add: jobs_ok_def)
  then have "jobs_ok (run_end now key s)"
    unfolding t by (intro jobs_ok_flip [OF jobs j(1) _ count]) (simp_all add: f_def signal_def job_ok_def)
  moreover have "books_ok ids (run_end now key s)" using ok books_ok_cong [of ids s "run_end now key s"] by (simp add: captions_ok_def t)
  moreover have "same_artifacts s (run_end now key s)" by (simp add: same_artifacts_def t)
  ultimately show "captions_ok ids (run_end now key s) \<and> same_artifacts s (run_end now key s)" by (simp add: captions_ok_def)
qed


subsection \<open>Readers and playbacks\<close>

lemma leads_store:
  "\<lbrakk>store_ok (cm_store s) \<Longrightarrow> store_ok st \<and> spares_pinned (cm_store s) st \<and> id_of st = id_of (cm_store s)\<rbrakk> \<Longrightarrow>
     leads ids s (s\<lparr>cm_store := st\<rparr>)"
proof (rule leads_books)
  assume st: "store_ok (cm_store s) \<Longrightarrow> store_ok st \<and> spares_pinned (cm_store s) st \<and> id_of st = id_of (cm_store s)"
    and ok: "books_ok ids s"
  then have "store_ok (cm_store s)" by (simp add: books_ok_def)
  from st [OF this] show "books_ok ids (s\<lparr>cm_store := st\<rparr>) \<and> same_artifacts s (s\<lparr>cm_store := st\<rparr>)"
    using books_ok_store [OF ok] by (simp add: same_artifacts_def)
qed simp_all

lemma leads_read: "leads ids s (snd (read_indexed opened now key s))"
proof (cases "map_of (ts_files (cm_store s)) key")
  case (Some a)
  have "leads ids s (s\<lparr>cm_store := snd (read_text opened now key a (cm_store s))\<rparr>)"
    by (rule leads_store) (use read_text_ok [OF _ Some] in blast)
  then show ?thesis by (simp add: read_indexed_def Some case_prod_beta)
qed (simp add: read_indexed_def)

lemma leads_new_reader:
  assumes "map_of (ts_files (cm_store s)) artifact = Some a"
  shows "leads ids s (s\<lparr>cm_store := pin_text 1 artifact (cm_store s), cm_readers := AList.update (cm_next s) artifact (cm_readers s),
    cm_next := cm_next s + 1\<rparr>)"
proof (rule leads_books)
  assume ok: "books_ok ids s"
  define s' where "s' = s\<lparr>cm_store := pin_text 1 artifact (cm_store s), cm_readers := AList.update (cm_next s) artifact (cm_readers s),
    cm_next := cm_next s + 1\<rparr>"
  have new: "cm_next s \<notin> fst ` set (cm_readers s)" using ok by (auto simp: books_ok_def)
  have used: "used_artifacts s' = add_mset artifact (used_artifacts s)"
    using mset_update_new [OF new, of id] by (simp add: used_artifacts_def s'_def del: mset_map)
  have known: "id_of (cm_store s) artifact \<noteq> None" using assms by (simp add: id_of_def)
  have "pins_of (cm_store s') = (\<lambda>k. int (count (used_artifacts s') k))"
    using pin_text_pins(1) [OF known, of 1] ok by (simp add: s'_def [symmetric] used) (simp add: s'_def books_ok_def fun_eq_iff)
  moreover have "store_ok (cm_store s')" using ok by (simp add: s'_def books_ok_def pin_text_ok)
  ultimately have "books_ok ids s'"
    using ok new by (auto simp: books_ok_def s'_def update_fresh_key)
  then show "books_ok ids s' \<and> same_artifacts s s'" by (simp add: same_artifacts_def s'_def pin_text_pins)
qed simp_all

lemma pinned_known: "pins_of st k \<noteq> 0 \<Longrightarrow> id_of st k \<noteq> None"
  by (auto simp: pins_of_def id_of_def split: option.splits)

lemma leads_close_reader: "leads ids s (close_artifact_reader r s)"
proof (cases "map_of (cm_readers s) r")
  case (Some artifact)
  define s' where "s' = s\<lparr>cm_store := pin_text (- 1) artifact (cm_store s), cm_readers := AList.delete r (cm_readers s)\<rparr>"
  have "leads ids s s'"
  proof (rule leads_books)
    assume ok: "books_ok ids s"
    then have gone: "mset (map snd (cm_readers s')) = mset (map snd (cm_readers s)) - {#artifact#}"
      using mset_delete [OF _ Some, of id] by (simp add: books_ok_def s'_def del: mset_map)
    have "artifact \<in># mset (map snd (cm_readers s))" using map_of_SomeD [OF Some] by force
    then have used: "used_artifacts s = add_mset artifact (used_artifacts s')"
      by (simp only: used_artifacts_def gone) (simp add: s'_def)
    have pins: "pins_of (cm_store s) = (\<lambda>k. int (count (used_artifacts s) k))" using ok by (simp add: books_ok_def)
    have known: "id_of (cm_store s) artifact \<noteq> None" by (rule pinned_known) (simp add: pins used)
    have "pins_of (cm_store s') = (\<lambda>k. int (count (used_artifacts s') k))"
      using pin_text_pins(1) [OF known, of "- 1"] pins by (simp add: used fun_eq_iff) (simp add: s'_def)
    moreover have "store_ok (cm_store s')" using ok by (simp add: s'_def books_ok_def pin_text_ok)
    moreover have "\<forall>r \<in> fst ` set (cm_readers s'). r < cm_next s'"
      using ok set_delete_subset [of r "cm_readers s"] by (auto simp: s'_def books_ok_def)
    ultimately have "books_ok ids s'" using ok by (simp add: books_ok_def) (simp add: s'_def)
    then show "books_ok ids s' \<and> same_artifacts s s'" by (simp add: same_artifacts_def s'_def pin_text_pins)
  qed (simp_all add: s'_def)
  then show ?thesis by (simp add: close_artifact_reader_def Some s'_def)
qed (simp add: close_artifact_reader_def)


lemma unpin_all:
  "store_ok st \<Longrightarrow> \<forall>g \<in> snd ` set gs. id_of st (cg_artifact g) \<noteq> None \<Longrightarrow>
     (let st' = fold (\<lambda>(_, g). pin_text (- 1) (cg_artifact g)) gs st
      in store_ok st' \<and> id_of st' = id_of st
         \<and> pins_of st' = (\<lambda>k. pins_of st k - int (count (mset (map (cg_artifact \<circ> snd) gs)) k)))"
proof (induction gs arbitrary: st)
  case (Cons e gs)
  define u where "u = pin_text (- 1) (cg_artifact (snd e)) st"
  have u: "store_ok u" "id_of u = id_of st"
    "pins_of u = (pins_of st)(cg_artifact (snd e) := pins_of st (cg_artifact (snd e)) - 1)"
    using Cons.prems pin_text_ok [OF Cons.prems(1)] pin_text_pins(1) [of st "cg_artifact (snd e)" "- 1"] pin_text_pins(2) by (simp_all add: u_def)
  have "fold (\<lambda>(_, g). pin_text (- 1) (cg_artifact g)) (e # gs) st = fold (\<lambda>(_, g). pin_text (- 1) (cg_artifact g)) gs u"
    by (simp add: u_def case_prod_beta)
  then show ?case using Cons.IH [OF u(1)] Cons.prems(2) by (simp add: Let_def u(2,3) fun_eq_iff)
qed (simp add: Let_def)

lemma job_ok_end_viewer: "job_safe (end_viewer vk)"
proof (unfold job_safe_def, intro allI impI)
  fix j assume ok: "job_ok j"
  have "job_ok (j\<lparr>cj_viewers := AList.delete vk (cj_viewers j)\<rparr>)"
    by (rule job_ok_viewers [OF ok]) (use ok in \<open>simp_all add: job_ok_def length_delete_le\<close>)
  then show "job_ok (end_viewer vk j) \<and> cj_running (end_viewer vk j) = cj_running j"
    using job_safe_cancel [unfolded job_safe_def, rule_format, of "j\<lparr>cj_viewers := AList.delete vk (cj_viewers j)\<rparr>"]
    by (cases "AList.delete vk (cj_viewers j) = []") (simp_all add: end_viewer_def Let_def)
qed

lemma mset_map_partition: "mset (map f m) = mset (map f (filter P m)) + mset (map f (filter (\<lambda>x. \<not> P x) m))"
  by (induction m) simp_all

lemma leads_end_grants:
  fixes s :: captions and drop_grant :: "caption_grant \<Rightarrow> bool"
  defines "gone \<equiv> filter (\<lambda>e. drop_grant (snd e)) (cm_grants s)"
    and "left \<equiv> filter (\<lambda>e. \<not> drop_grant (snd e)) (cm_grants s)"
  shows "leads ids s (s\<lparr>cm_store := fold (\<lambda>(_, g). pin_text (- 1) (cg_artifact g)) gone (cm_store s), cm_grants := left\<rparr>)"
proof (rule leads_books)
  define s' where "s' = s\<lparr>cm_store := fold (\<lambda>(_, g). pin_text (- 1) (cg_artifact g)) gone (cm_store s), cm_grants := left\<rparr>"
  assume ok: "books_ok ids s"
  have pins: "pins_of (cm_store s) = (\<lambda>k. int (count (used_artifacts s) k))" using ok by (simp add: books_ok_def)
  have used: "used_artifacts s = mset (map (cg_artifact \<circ> snd) gone) + used_artifacts s'"
    using mset_map_partition [of "cg_artifact \<circ> snd" "cm_grants s" "\<lambda>e. drop_grant (snd e)"]
    by (simp add: used_artifacts_def s'_def gone_def left_def del: mset_map mset_filter)
  have "id_of (cm_store s) (cg_artifact g) \<noteq> None" if "g \<in> snd ` set gone" for g
  proof (rule pinned_known)
    have "cg_artifact g \<in># mset (map (cg_artifact \<circ> snd) gone)" using that by auto
    then have "0 < count (used_artifacts s) (cg_artifact g)" unfolding used by (simp del: mset_map)
    then show "pins_of (cm_store s) (cg_artifact g) \<noteq> 0" by (simp add: pins)
  qed
  then have "store_ok (cm_store s') \<and> id_of (cm_store s') = id_of (cm_store s)
      \<and> pins_of (cm_store s') = (\<lambda>k. pins_of (cm_store s) k - int (count (mset (map (cg_artifact \<circ> snd) gone)) k))"
    using unpin_all [of "cm_store s" gone] ok by (simp add: s'_def Let_def books_ok_def del: mset_map)
  moreover from this have "pins_of (cm_store s') = (\<lambda>k. int (count (used_artifacts s') k))"
    by (simp add: pins used del: mset_map)
  moreover have "cm_grants s' = left" "cm_readers s' = cm_readers s" "cm_next s' = cm_next s" by (simp_all add: s'_def)
  moreover have "set left \<subseteq> set (cm_grants s)" "length left \<le> length (cm_grants s)" "distinct_keys (cm_grants s) \<Longrightarrow> distinct_keys left"
    by (auto simp: left_def)
  ultimately show "books_ok ids s' \<and> same_artifacts s s'"
    using ok by (auto simp: books_ok_def same_artifacts_def)
qed simp_all

lemma leads_end: "leads ids s (end_playback h' owner playback s)"
proof -
  define t where "t = s\<lparr>cm_store := fold (\<lambda>(_, g). pin_text (- 1) (cg_artifact g))
      (filter (\<lambda>e. granted_to owner playback (snd e)) (cm_grants s)) (cm_store s),
    cm_grants := filter (\<lambda>e. \<not> granted_to owner playback (snd e)) (cm_grants s)\<rparr>"
  have "leads ids s t" unfolding t_def by (rule leads_end_grants)
  moreover have "leads ids t (t\<lparr>cm_jobs := map (map_prod id (end_viewer (viewer_key h' owner playback))) (cm_jobs t)\<rparr>)"
    by (rule leads_map_jobs) (rule job_ok_end_viewer)
  moreover have "end_playback h' owner playback s =
      t\<lparr>cm_jobs := map (map_prod id (end_viewer (viewer_key h' owner playback))) (cm_jobs t)\<rparr>"
    by (simp add: end_playback_def t_def)
  ultimately show ?thesis using leads_trans by metis
qed


lemma viewer_entry_ok: "job_ok j \<Longrightarrow> job_ok (j\<lparr>cj_viewers := AList.map_entry vk f (cj_viewers j)\<rparr>)"
  by (simp add: job_ok_def)

lemma leads_touch: "leads ids s (touch_playback h' now owner playback s)"
proof -
  define f where "f = (\<lambda>j :: caption_job. j\<lparr>cj_viewers :=
    AList.map_entry (viewer_key h' owner playback) (\<lambda>v. v\<lparr>cv_touched := now\<rparr>) (cj_viewers j)\<rparr>)"
  define g where "g = (\<lambda>g. if granted_to owner playback g then g\<lparr>cg_last := now\<rparr> else g)"
  define t where "t = s\<lparr>cm_jobs := map (map_prod id f) (cm_jobs s)\<rparr>"
  have "leads ids s t"
    unfolding t_def by (rule leads_map_jobs) (simp add: job_safe_def f_def viewer_entry_ok)
  moreover have "leads ids t (t\<lparr>cm_grants := map_grants g (cm_grants t)\<rparr>)" by (rule leads_map_grants) (simp add: g_def)
  moreover have "touch_playback h' now owner playback s = t\<lparr>cm_grants := map_grants g (cm_grants t)\<rparr>"
    by (simp add: touch_playback_def t_def f_def g_def)
  ultimately show ?thesis using leads_trans by metis
qed

lemma job_ok_move: "job_safe (move_viewer h owner old new)"
proof (unfold job_safe_def, intro allI impI)
  fix j assume ok: "job_ok j"
  show "job_ok (move_viewer h owner old new j) \<and> cj_running (move_viewer h owner old new j) = cj_running j"
  proof (cases "map_of (cj_viewers j) (viewer_key h owner old)")
    case (Some v)
    define left where "left = AList.delete (viewer_key h owner old) (cj_viewers j)"
    define nk where "nk = viewer_key h owner new"
    define w where "w = (case map_of left nk of
        Some c \<Rightarrow> c\<lparr>cv_playback := cv_playback c \<or> cv_playback v, cv_touched := max (cv_touched v) (cv_touched c)\<rparr>
      | None \<Rightarrow> v\<lparr>cv_input := (cv_input v)\<lparr>ci_playback := new\<rparr>\<rparr>)"
    have left: "job_ok (j\<lparr>cj_viewers := left\<rparr>)"
      by (rule job_ok_viewers [OF ok]) (use ok in \<open>simp_all add: left_def job_ok_def length_delete_le\<close>)
    have "(viewer_key h owner old, v) \<in> set (cj_viewers j)" using Some by (rule map_of_SomeD)
    then have "length left < length (cj_viewers j)" unfolding left_def AList.delete_eq by (intro length_filter_less) auto
    then have room: "length left < max_grants" using ok by (simp add: job_ok_def)
    have "job_ok (j\<lparr>cj_viewers := AList.update nk w left\<rparr>)"
      using viewers_updated [OF left, of nk w] room by simp
    then show ?thesis by (simp add: move_viewer_def Some Let_def left_def nk_def w_def)
  qed (simp add: move_viewer_def ok)
qed


lemma leads_move: "leads ids s (move_playback h owner old new s)"
proof -
  define t where "t = s\<lparr>cm_jobs := map (map_prod id (move_viewer h owner old new)) (cm_jobs s)\<rparr>"
  have "leads ids s t" unfolding t_def by (rule leads_map_jobs) (rule job_ok_move)
  moreover have "leads ids t (t\<lparr>cm_grants := map_grants (move_grant h owner old new (cm_jobs t)) (cm_grants t)\<rparr>)"
    by (rule leads_map_grants) (simp add: move_grant_def Let_def split: option.split)
  ultimately show ?thesis using leads_trans by (simp add: move_playback_def t_def [symmetric] Let_def)
qed

lemma leads_expire: "leads ids s (expire_viewer h now key vk s)"
  using leads_end by (simp add: expire_viewer_def split: option.split)

lemma leads_drop_jobs: "leads ids s (s\<lparr>cm_jobs := filter (\<lambda>e. \<not> idle_job now (snd e)) (cm_jobs s)\<rparr>)"
proof (unfold leads_def, intro impI)
  assume ok: "captions_ok ids s"
  define s' where "s' = s\<lparr>cm_jobs := filter (\<lambda>e. \<not> idle_job now (snd e)) (cm_jobs s)\<rparr>"
  have "length (filter (cj_running \<circ> snd) (filter (\<lambda>e. \<not> idle_job now (snd e)) m)) = length (filter (cj_running \<circ> snd) m)"
    for m :: "(string, caption_job) gomap"
    by (induction m) (auto simp: idle_job_def)
  moreover have "length (filter (\<lambda>e. \<not> idle_job now (snd e)) (cm_jobs s)) \<le> length (cm_jobs s)" by simp
  ultimately have "jobs_ok s'" using ok by (auto simp: jobs_ok_def captions_ok_def s'_def simp del: length_filter_le)
  moreover have "books_ok ids s'" using ok books_ok_cong [of ids s s'] by (simp add: captions_ok_def s'_def)
  ultimately show "captions_ok ids s' \<and> same_artifacts s s'" by (simp add: captions_ok_def same_artifacts_def s'_def)
qed

lemma leads_maintain: "leads ids s (maintain_captions h now s)"
  unfolding maintain_captions_def Let_def
  by (rule leads_trans [OF _ leads_drop_jobs], rule leads_fold) (simp add: leads_expire case_prod_beta)

lemma leads_close: "leads ids s (close_captions s)"
  using books_ok_cong [of ids s "close_captions s"] jobs_ok_cong [of s "close_captions s"]
  by (simp add: close_captions_def leads_def captions_ok_def same_artifacts_def)

lemma leads_open: "leads ids s (snd (open_granted opened now gid num s))"
proof (cases "map_of (cm_grants s) gid")
  case g: (Some g)
  show ?thesis
  proof (cases "map_of (ts_files (cm_store s)) (cg_artifact g)")
    case (Some a)
    define st where "st = snd (read_text opened now (cg_artifact g) a (cm_store s))"
    define t where "t = s\<lparr>cm_store := st\<rparr>"
    define u where "u = t\<lparr>cm_grants := AList.update gid (g\<lparr>cg_last := now\<rparr>) (cm_grants t)\<rparr>"
    define w where "w = u\<lparr>cm_store := pin_text 1 (cg_artifact g) (cm_store u),
      cm_readers := AList.update (cm_next u) (cg_artifact g) (cm_readers u), cm_next := cm_next u + 1\<rparr>"
    have t: "leads ids s t" unfolding t_def st_def by (rule leads_store) (use read_text_ok [OF _ Some] in blast)
    have u: "leads ids t u" unfolding u_def by (rule leads_update_grant) (simp_all add: t_def g)
    have "map_of (ts_files st) (cg_artifact g) \<noteq> None" using Some by (simp add: st_def read_text_def update_conv')
    then obtain b where "map_of (ts_files (cm_store u)) (cg_artifact g) = Some b" by (auto simp: u_def t_def)
    then have w: "leads ids u w" unfolding w_def by (rule leads_new_reader)
    have "snd (open_granted opened now gid num s) \<in> {s, t, w}"
      by (simp add: open_granted_def g Some case_prod_beta st_def [symmetric]) (simp add: t_def u_def w_def)
    then show ?thesis using t leads_trans [OF t leads_trans [OF u w]] by auto
  qed (simp add: open_granted_def g)
qed (simp add: open_granted_def)


section \<open>Operations that write and remove files\<close>

definition advances :: "(nat \<Rightarrow> string option) \<Rightarrow> captions \<Rightarrow> captions \<Rightarrow> bool" where
  "advances ids s s' \<longleftrightarrow> (captions_ok ids s \<longrightarrow> captions_ok ids s' \<and> keeps_pinned s s' \<and> lineage s s')"

lemma leads_advances: "leads ids s s' \<Longrightarrow> advances ids s s'"
  by (auto simp: leads_def advances_def same_artifacts_def keeps_pinned_def)

lemma advances_store:
  assumes "store_ok (cm_store s) \<Longrightarrow> store_ok st \<and> spares_pinned (cm_store s) st"
  shows "advances ids s (s\<lparr>cm_store := st\<rparr>)"
proof (unfold advances_def, intro impI)
  assume ok: "captions_ok ids s"
  then have "store_ok st \<and> spares_pinned (cm_store s) st" using assms by (simp add: captions_ok_def books_ok_def)
  then show "captions_ok ids (s\<lparr>cm_store := st\<rparr>) \<and> keeps_pinned s (s\<lparr>cm_store := st\<rparr>) \<and> lineage s (s\<lparr>cm_store := st\<rparr>)"
    using ok books_ok_store [of ids s st] keeps_pinned_store [of s st] jobs_ok_cong [of s "s\<lparr>cm_store := st\<rparr>"]
    by (simp add: captions_ok_def)
qed

lemma advances_leads: "advances ids s t \<Longrightarrow> leads ids t u \<Longrightarrow> advances ids s u"
  by (auto simp: advances_def leads_def keeps_pinned_def same_artifacts_def intro: lineage_trans)

lemma advances_publish: "advances ids s (publish_track removed written now alive key i p s)"
proof (cases "map_of (cm_jobs s) key")
  case (Some j)
  obtain a st where put: "put_text removed written now (cp_key p) (cp_format p) (length (cp_data p)) (cm_store s) = (a, st)"
    by (cases "put_text removed written now (cp_key p) (cp_format p) (length (cp_data p)) (cm_store s)")
  have "advances ids s (s\<lparr>cm_store := st\<rparr>)"
    by (rule advances_store) (use put_text_ok(1,2) [OF _ put] in blast)
  then have "advances ids s (on_job key f (s\<lparr>cm_store := st\<rparr>))" if "job_safe f" for f
    by (rule advances_leads) (rule leads_on_job [OF that])
  then show ?thesis
    using leads_advances [OF leads_failed] by (simp add: publish_track_def Some put)
qed (simp add: publish_track_def leads_advances)

lemma advances_discard: "advances ids s (snd (discard_indexed removed key n s))"
proof -
  have "advances ids s (s\<lparr>cm_store := snd (discard_text removed key n (cm_store s))\<rparr>)"
    by (rule advances_store) (use discard_text_ok in blast)
  then show ?thesis by (simp add: discard_indexed_def case_prod_beta)
qed

section \<open>Steps\<close>

text \<open>
  Every critical section, by any request or worker, with any answers from outside. A worker ends a job that
  it runs.
\<close>

inductive captions_step :: "(string list \<Rightarrow> string) \<Rightarrow> (nat \<Rightarrow> string option) \<Rightarrow> captions \<Rightarrow> captions \<Rightarrow> bool"
  for h :: "string list \<Rightarrow> string" and ids :: "nat \<Rightarrow> string option" where
  admits: "captions_step h ids s (snd (admit_caption h ids now alive valid i sel s))"
| gives_up: "captions_step h ids s (cancel_prepare canceled p s)"
| finishes: "captions_step h ids s (snd (finish_prepare ids now p i allowed s))"
| probes: "captions_step h ids s (snd (probe_track now key n s))"
| postpones: "captions_step h ids s (postpone_track key n s)"
| fails: "captions_step h ids s (failed_track now key n reason s)"
| publishes: "captions_step h ids s (publish_track removed written now alive key n p s)"
| marks: "captions_step h ids s (snd (mark_extraction now key n s))"
| reads: "captions_step h ids s (snd (read_indexed opened now artifact s))"
| discards: "captions_step h ids s (snd (discard_indexed removed artifact k s))"
| counts: "captions_step h ids s (count_extraction key n x s)"
| ends_run: "job_running key s \<Longrightarrow> captions_step h ids s (run_end now key s)"
| notes_change: "captions_step h ids s (source_changed now g s)"
| opens: "captions_step h ids s (snd (open_granted opened now gid k s))"
| closes_reader: "captions_step h ids s (close_artifact_reader r s)"
| ends: "captions_step h ids s (end_playback h owner playback s)"
| touches: "captions_step h ids s (touch_playback h now owner playback s)"
| moves: "captions_step h ids s (move_playback h owner old new s)"
| maintains: "captions_step h ids s (maintain_captions h now s)"
| closes: "captions_step h ids s (close_captions s)"

lemmas step_leads = leads_cancel_prepare leads_probe leads_postpone leads_failed leads_mark leads_read leads_count leads_run_end
  leads_source_changed leads_open leads_close_reader leads_end leads_touch leads_move leads_maintain leads_close leads_admit
  leads_finish_prepare

lemma step_advances: "distinct_ids ids \<Longrightarrow> captions_step h ids s s' \<Longrightarrow> advances ids s s'"
  by (erule captions_step.cases) (auto intro: leads_advances step_leads advances_publish advances_discard)

definition captions_steps :: "(string list \<Rightarrow> string) \<Rightarrow> (nat \<Rightarrow> string option) \<Rightarrow> captions \<Rightarrow> captions \<Rightarrow> bool" where
  "captions_steps h ids = (captions_step h ids)\<^sup>*\<^sup>*"

lemma steps_ok:
  assumes "distinct_ids ids" and "captions_steps h ids s t" and "captions_ok ids s"
  shows "captions_ok ids t \<and> lineage s t"
  using assms(2) [unfolded captions_steps_def]
proof (induction rule: rtranclp_induct)
  case (step t u)
  then have "advances ids t u" using step_advances [OF assms(1)] by blast
  then show ?case using step.IH lineage_trans by (auto simp: advances_def)
qed (simp add: assms(3))

lemma new_captions_ok:
  assumes "new_captions removed now entries ranges c = Some s" and "\<forall>e \<in> set entries. 0 \<le> de_size e" and "distinct (entry_keys entries)"
  shows "captions_ok ids s"
proof -
  obtain st where st: "open_store removed now (cc_cache_bytes (default_captions c)) entries = Some st"
    and s: "s = \<lparr>cm_workers = nat (cc_workers (default_captions c)), cm_closed = False, cm_jobs = [], cm_grants = [], cm_store = st,
      cm_active = 0, cm_readers = [], cm_next = 0\<rparr>"
    using assms(1) by (auto simp: new_captions_def Let_def split: if_splits option.splits)
  note opened = open_store_ok [OF st assms(2,3)]
  have "pins_of st k = 0" for k
    using opened(2) by (force simp: pins_of_def unpinned_files_def split: option.split dest: map_of_SomeD)
  then have "books_ok ids s" using opened(1) by (simp add: books_ok_def s used_artifacts_def fun_eq_iff)
  then show ?thesis by (simp add: captions_ok_def jobs_ok_def s)
qed

end
