(* ===== verification/Subtitle_Manager_Theorems.thy ===== *)
theory Subtitle_Manager_Theorems
  imports Subtitle_Steps
begin

text \<open>
  What the manager of prepared subtitles guarantees, after any number of critical sections in any order: the
  books of the artifacts, that an artifact in use stays the file it is, and what has to hold for a subtitle
  to be opened. \<open>sample_captions\<close> is a short run in which a playback gets a subtitle.
\<close>

section \<open>A run\<close>

definition reachable_captions :: "(string list \<Rightarrow> string) \<Rightarrow> (nat \<Rightarrow> string option) \<Rightarrow> captions \<Rightarrow> bool" where
  "reachable_captions h ids s \<longleftrightarrow>
     (\<exists>removed now entries c s0. new_captions removed now entries True c = Some s0 \<and> list_all (\<lambda>e. 0 \<le> de_size e) entries
        \<and> distinct (entry_keys entries) \<and> captions_steps h ids s0 s)"

lemma reachable_ok: "distinct_ids ids \<Longrightarrow> reachable_captions h ids s \<Longrightarrow> captions_ok ids s"
  using steps_ok new_captions_ok by (fastforce simp: reachable_captions_def list_all_iff)

definition sample_config :: caption_config where
  "sample_config = \<lparr>cc_cache_bytes = 0, cc_source_bytes = 0, cc_workers = 0, cc_prepare = 0, cc_work = 0, cc_read_bytes = 0,
     cc_requests = 0\<rparr>"

definition sample_track :: caption_track where
  "sample_track = \<lparr>ct_index = 2, ct_codec = ''srt'', ct_language = ''eng'', ct_name = ''English'', ct_external = True\<rparr>"

definition sample_input :: caption_input where
  "sample_input = \<lparr>ci_owner = ''o'', ci_playback = ''p'', ci_item = ''i'', ci_source = ''s'', ci_key = ''k'', ci_name = ''film'',
     ci_size = 10, ci_container = ''mkv'', ci_tracks = [sample_track], ci_opens = True, ci_validates = True, ci_fetches = True,
     ci_checks_tracks = True\<rparr>"

definition sample_selection :: caption_selection where
  "sample_selection = \<lparr>sl_playback = True, sl_recover = False, sl_probe = True, sl_index = Some 2\<rparr>"

definition sample_ids :: "nat \<Rightarrow> string option" where
  "sample_ids n = Some (replicate n (CHR ''x''))"

definition sample_text :: caption_text where
  "sample_text = \<lparr>cp_key = ''a'', cp_data = ''WEBVTT'', cp_format = ''vtt'', cp_cues = 1, cp_version = [], cp_indexed = False,
     cp_strong = False, cp_read_bytes = 0, cp_requests = 0\<rparr>"

definition sample_start :: captions where
  "sample_start = \<lparr>cm_workers = 1, cm_closed = False, cm_jobs = [], cm_grants = [],
     cm_store = \<lparr>ts_budget = 134217728, ts_used = 0, ts_files = [], ts_next = 0\<rparr>, cm_active = 0, cm_readers = [], cm_next = 0\<rparr>"

definition sample_admitted :: captions where
  "sample_admitted = snd (admit_caption concat sample_ids 1 True True sample_input sample_selection sample_start)"

definition sample_published :: captions where
  "sample_published = publish_track (\<lambda>_. True) True 2 True ''ks'' 2 sample_text sample_admitted"

definition sample_ticket :: prepare_ticket where
  "sample_ticket = \<lparr>pt_job = ''ks'', pt_job_num = 0, pt_viewer = ''op'', pt_admission = 1, pt_created = True, pt_waits = True\<rparr>"

definition sample_granted :: captions where
  "sample_granted = snd (finish_prepare sample_ids 3 sample_ticket sample_input (\<lambda>_. True) sample_published)"

lemma sample_new: "new_captions (\<lambda>_. True) 0 [] True sample_config = Some sample_start"
  by (simp add: new_captions_def Let_def default_captions_def captions_configured_def sample_config_def sample_start_def
      open_store_def make_space_def room_loop.simps store_full_def max_artifacts_def)

lemma sample_ids_distinct: "distinct_ids sample_ids"
  by (auto simp: distinct_ids_def sample_ids_def)

lemma sample_reachable: "reachable_captions concat sample_ids sample_granted"
proof -
  have "captions_step concat sample_ids sample_start sample_admitted"
    unfolding sample_admitted_def by (rule admits)
  moreover have "captions_step concat sample_ids sample_admitted sample_published"
    unfolding sample_published_def by (rule publishes)
  moreover have "captions_step concat sample_ids sample_published sample_granted"
    unfolding sample_granted_def by (rule finishes)
  ultimately have "captions_steps concat sample_ids sample_start sample_granted"
    unfolding captions_steps_def by (meson rtranclp.rtrancl_refl rtranclp.rtrancl_into_rtrancl)
  moreover have "list_all (\<lambda>e. 0 \<le> de_size e) []" "distinct (entry_keys [])" by (simp_all add: entry_keys_def map_filter_simps)
  ultimately show ?thesis unfolding reachable_captions_def using sample_new by blast
qed

text \<open>The bounds are compared as integers when a run is evaluated.\<close>

lemma limits_as_integers [code_unfold]:
  "max_output < n \<longleftrightarrow> 8388608 < int n" "max_artifacts \<le> n \<longleftrightarrow> 4096 \<le> int n" "max_grants \<le> n \<longleftrightarrow> 2048 \<le> int n"
  by (simp_all add: max_output_def max_artifacts_def max_grants_def)

lemma sample_values:
  "cm_closed sample_granted = False"
  "map (\<lambda>(gid, g). (gid, cg_num g, cg_owner g, cg_item g, cg_artifact g)) (cm_grants sample_granted) = [(''xx'', 2, ''o'', ''i'', ''a'')]"
  "map (\<lambda>(key, a). (key, ta_id a, ta_pins a)) (ts_files (cm_store sample_granted)) = [(''a'', 0, 1)]"
  "cm_active sample_granted = 1"
  by code_simp+

definition sample_grant :: caption_grant where
  "sample_grant = snd (hd (cm_grants sample_granted))"

lemma sample_opens:
  "map_option cg_num (find_grant 4 ''o'' ''i'' ''xx'' sample_granted) = Some 2"
  "fst (open_granted True 5 ''xx'' 2 sample_granted) = Some (3, ''vtt'')"
  by code_simp+

section \<open>Books\<close>

text \<open>
  C12: In every state the manager of subtitles reaches, an artifact is pinned exactly as often as a grant or an
  open reader uses it, the bytes counted are those of the files and within the budget, and the bounds on
  files, grants, jobs, tracks, viewers and running workers hold.
\<close>

theorem subtitle_books:
  assumes "distinct_ids ids" and "reachable_captions h ids s"
  shows "pins_of (cm_store s) = (\<lambda>k. int (count (used_artifacts s) k))
    \<and> ts_used (cm_store s) = store_size (cm_store s) \<and> ts_used (cm_store s) \<le> ts_budget (cm_store s)
    \<and> length (ts_files (cm_store s)) \<le> max_artifacts \<and> length (cm_grants s) \<le> max_grants \<and> length (cm_jobs s) \<le> max_jobs
    \<and> list_all (\<lambda>(_, j). length (cj_tracks j) \<le> max_tracks \<and> length (cj_viewers j) \<le> max_grants) (cm_jobs s)
    \<and> cm_active s = length (filter (cj_running \<circ> snd) (cm_jobs s)) \<and> cm_active s \<le> cm_workers s"
proof -
  have ok: "books_ok ids s" "jobs_ok s" using reachable_ok [OF assms] by (simp_all add: captions_ok_def)
  have "list_all (\<lambda>(_, j). length (cj_tracks j) \<le> max_tracks \<and> length (cj_viewers j) \<le> max_grants) (cm_jobs s)"
    using ok(2) by (auto simp: jobs_ok_def job_ok_def list_all_iff)
  then show ?thesis using ok by (simp add: books_ok_def jobs_ok_def store_ok_def files_ok_def)
qed

theorem subtitle_books_witness:
  "pins_of (cm_store sample_granted) ''a'' = int (count (used_artifacts sample_granted) ''a'')"
  by (rule fun_cong [OF conjunct1 [OF subtitle_books [OF sample_ids_distinct sample_reachable]]])

text \<open>
  C11: An artifact that a grant or an open reader uses stays the file it is in every step: it is not removed to
  make room, not replaced and not discarded.
\<close>

theorem artifact_in_use_stays:
  assumes "distinct_ids ids" and "reachable_captions h ids s" and "captions_step h ids s s'" and "k \<in># used_artifacts s"
  shows "id_of (cm_store s) k \<noteq> None \<and> id_of (cm_store s') k = id_of (cm_store s) k"
proof -
  have ok: "captions_ok ids s" by (rule reachable_ok [OF assms(1,2)])
  have "pins_of (cm_store s) k \<noteq> 0" using ok assms(4) by (simp add: captions_ok_def books_ok_def)
  moreover have "keeps_pinned s s'" using step_advances [OF assms(1,3)] ok by (simp add: advances_def)
  ultimately show ?thesis using pinned_known by (simp add: keeps_pinned_def)
qed

theorem artifact_in_use_stays_witness:
  "id_of (cm_store (end_playback concat ''o'' ''p'' sample_granted)) ''a'' = id_of (cm_store sample_granted) ''a''"
proof -
  have "''a'' \<in> cg_artifact ` snd ` set (cm_grants sample_granted)" using sample_values(2) by force
  then have "''a'' \<in># used_artifacts sample_granted" by (force simp: used_artifacts_def)
  with artifact_in_use_stays [OF sample_ids_distinct sample_reachable ends] show ?thesis by blast
qed

section \<open>Opening\<close>

text \<open>
  C10: A subtitle is opened only under a grant of the user and the item asked for, used in the last two minutes,
  while the playback is still valid, its track still allowed and, if it was extracted, its source still the
  version it was extracted from; whatever happens between these checks and the opening, what is opened is
  the artifact of that grant, and it is pinned.
\<close>

theorem subtitle_opened_under_grant:
  assumes "distinct_ids ids" and "reachable_captions h ids s"
    and "find_grant now owner item gid s = Some g" and "check_grant alive valid allowed validated g = Granted"
    and "captions_steps h ids s t" and "open_granted opened later gid (cg_num g) t = (Some (r, format), u)"
  shows "cg_owner g = owner \<and> cg_item g = item \<and> time_sub now (cg_last g) \<le> lease_lifetime \<and> valid \<and> opened
    \<and> (ci_checks_tracks (cg_input g) \<longrightarrow> list_ex (\<lambda>t. ct_index t = cg_index g \<and> allowed t) (ci_tracks (cg_input g)))
    \<and> (cg_indexed g \<longrightarrow> map_option fst validated = Some (cg_version g))
    \<and> map_of (cm_readers u) r = Some (cg_artifact g) \<and> 0 < pins_of (cm_store u) (cg_artifact g)"
proof -
  have found: "map_of (cm_grants s) gid = Some g" "cg_owner g = owner" "cg_item g = item" "time_sub now (cg_last g) \<le> lease_lifetime"
    using assms(3) by (auto simp: find_grant_def split: option.splits if_splits)
  have ok: "captions_ok ids s" by (rule reachable_ok [OF assms(1,2)])
  have t: "captions_ok ids t" "lineage s t" using steps_ok [OF assms(1,5) ok] by simp_all
  obtain g' where g': "map_of (cm_grants t) gid = Some g'" "cg_num g' = cg_num g" "opened"
    and u: "map_of (cm_readers u) r = Some (cg_artifact g')"
    using assms(6) by (auto simp: open_granted_def read_text_def update_conv' split: option.splits if_splits)
  have "cg_num g < cm_next s" using ok map_of_SomeD [OF found(1)] by (force simp: captions_ok_def books_ok_def)
  then obtain g0 where "(gid, g0) \<in> set (cm_grants s)" "grant_terms g0 = grant_terms g'"
    using t(2) map_of_SomeD [OF g'(1)] g'(2) by (force simp: lineage_def)
  moreover from this have "g0 = g" using found(1) ok by (simp add: captions_ok_def books_ok_def)
  ultimately have artifact: "cg_artifact g' = cg_artifact g" by (simp add: grant_terms_def)
  have "captions_step h ids t u" using opens [of h ids t opened later gid "cg_num g"] assms(6) by simp
  then have "captions_ok ids u" using step_advances [OF assms(1)] t(1) by (auto simp: advances_def)
  moreover have "cg_artifact g \<in> snd ` set (cm_readers u)" using map_of_SomeD [OF u] artifact by force
  then have "cg_artifact g \<in># used_artifacts u" by (simp add: used_artifacts_def)
  ultimately have "0 < pins_of (cm_store u) (cg_artifact g)" by (simp add: captions_ok_def books_ok_def)
  moreover have "ci_checks_tracks (cg_input g) \<longrightarrow> list_ex (\<lambda>t. ct_index t = cg_index g \<and> allowed t) (ci_tracks (cg_input g))"
    using assms(4) find_in by (fastforce simp: check_grant_def Let_def list_ex_iff split: if_splits option.splits)
  moreover have "valid" "cg_indexed g \<longrightarrow> map_option fst validated = Some (cg_version g)"
    using assms(4) by (auto simp: check_grant_def Let_def valid_input_def split: if_splits option.splits)
  ultimately show ?thesis using found g'(3) u artifact by simp
qed

lemma sample_checked:
  "find_grant 4 ''o'' ''i'' ''xx'' sample_granted = Some sample_grant"
  "check_grant True True (\<lambda>_. True) None sample_grant = Granted" "cg_num sample_grant = 2"
  by code_simp+

theorem subtitle_opened_under_grant_witness:
  "0 < pins_of (cm_store (snd (open_granted True 5 ''xx'' 2 sample_granted))) (cg_artifact sample_grant)"
proof -
  define u where "u = snd (open_granted True 5 ''xx'' 2 sample_granted)"
  have "open_granted True 5 ''xx'' (cg_num sample_grant) sample_granted = (Some (3, ''vtt''), u)"
    using sample_opens(2) by (simp add: u_def sample_checked(3) prod_eq_iff)
  moreover have "captions_steps concat sample_ids sample_granted sample_granted" by (simp add: captions_steps_def)
  ultimately show ?thesis
    using subtitle_opened_under_grant [OF sample_ids_distinct sample_reachable sample_checked(1,2)] unfolding u_def by blast
qed

end
