(* ===== verification/Timeline.thy ===== *)
theory Timeline
  imports Prelude
begin

text \<open>
  \<open>internal/transcode/timeline.go\<close>, \<open>Timeline\<close> and \<open>makeTimeline\<close>: where the segments of a converted media
  begin. A segment begins at a keyframe, at least four seconds after the one before.
\<close>

section \<open>Segments\<close>

definition ticks_per_second :: int where "ticks_per_second = 10000000"
definition max_keyframes :: nat where "max_keyframes = 200000"
definition max_duration_ticks :: int where "max_duration_ticks = 72 * 3600 * ticks_per_second"
definition segment_target :: int where "segment_target = 4 * ticks_per_second"

record timeline =
  tl_cuts :: "int list"
  tl_keys :: "int list"

definition timeline_len :: "timeline \<Rightarrow> int" where
  "timeline_len t = int (length (tl_cuts t)) - 1"

text \<open>\<open>sort.Search(n, f)\<close>: the loop between \<open>i\<close> and \<open>j\<close>.\<close>

function search_loop :: "(nat \<Rightarrow> bool) \<Rightarrow> nat \<Rightarrow> nat \<Rightarrow> nat" where
  "search_loop f i j =
     (if i < j then (let m = (i + j) div 2 in if \<not> f m then search_loop f (m + 1) j else search_loop f i m) else i)"
  by pat_completeness auto
termination
  by (relation "measure (\<lambda>(_, i, j). j - i)") auto

declare search_loop.simps [simp del]

definition sort_search :: "nat \<Rightarrow> (nat \<Rightarrow> bool) \<Rightarrow> nat" where
  "sort_search n f = search_loop f 0 n"

definition segment_of :: "timeline \<Rightarrow> int \<Rightarrow> int" where
  "segment_of t ticks =
     max 0 (min (timeline_len t - 1) (int (sort_search (length (tl_cuts t)) (\<lambda>i. ticks < tl_cuts t ! i)) - 1))"

section \<open>Making a timeline\<close>

text \<open>The loop over the sorted keyframes: those of the media, once each.\<close>

fun unique_keys :: "int \<Rightarrow> int list \<Rightarrow> int list \<Rightarrow> int list" where
  "unique_keys duration [] unique = unique"
| "unique_keys duration (k # ks) unique =
     unique_keys duration ks
       (if 0 \<le> k \<and> k < duration \<and> (unique = [] \<or> last unique < k) then unique @ [k] else unique)"

text \<open>The loop that cuts.\<close>

fun cut_keys :: "int \<Rightarrow> int list \<Rightarrow> int list \<Rightarrow> int list" where
  "cut_keys next [] cuts = cuts"
| "cut_keys next (k # ks) cuts =
     (if next \<le> k then cut_keys (k + segment_target) ks (cuts @ [k]) else cut_keys next ks cuts)"

text \<open>\<open>makeTimeline\<close>; \<open>None\<close> is \<open>ErrIndex\<close>.\<close>

definition make_timeline :: "int list \<Rightarrow> int \<Rightarrow> timeline option" where
  "make_timeline keys duration =
     (if keys = [] \<or> max_keyframes < length keys \<or> duration \<le> 0 \<or> max_duration_ticks < duration then None
      else (let unique = unique_keys duration (sort keys) []
            in if unique = [] \<or> ticks_per_second < hd unique then None
               else (let cuts = cut_keys segment_target unique [0];
                         cuts = (if duration - last cuts < ticks_per_second div 10 \<and> 1 < length cuts then butlast cuts else cuts)
                     in Some \<lparr>tl_cuts = cuts @ [duration], tl_keys = unique\<rparr>)))"

section \<open>Binary search\<close>

lemma search_loop_stop: "\<not> i < j \<Longrightarrow> search_loop f i j = i"
  by (subst search_loop.simps) simp

lemma search_loop_step:
  "i < j \<Longrightarrow> search_loop f i j = (if f ((i + j) div 2) then search_loop f i ((i + j) div 2) else search_loop f ((i + j) div 2 + 1) j)"
  by (subst search_loop.simps) (simp add: Let_def)

lemma search_loop_bounds: "i \<le> j \<Longrightarrow> i \<le> search_loop f i j \<and> search_loop f i j \<le> j"
proof (induction f i j rule: search_loop.induct)
  case (1 f i j)
  show ?case
  proof (cases "i < j")
    case True
    define m where "m = (i + j) div 2"
    have m: "i \<le> m" "m < j" using True by (simp_all add: m_def)
    show ?thesis
    proof (cases "f m")
      case False
      then have "m + 1 \<le> search_loop f (m + 1) j \<and> search_loop f (m + 1) j \<le> j" using "1.IH"(1) [OF True m_def False] m by simp
      then show ?thesis using search_loop_step [OF True, of f] False m by (simp add: m_def [symmetric])
    next
      case fm: True
      then have "i \<le> search_loop f i m \<and> search_loop f i m \<le> m" using "1.IH"(2) [OF True m_def] m by simp
      then show ?thesis using search_loop_step [OF True, of f] fm m by (simp add: m_def [symmetric])
    qed
  qed (use "1.prems" search_loop_stop in simp)
qed

text \<open>On a predicate that stays true, the search finds where it becomes true.\<close>

lemma search_loop_least:
  assumes mono: "\<And>a b. f a \<Longrightarrow> a \<le> b \<Longrightarrow> b < n \<Longrightarrow> f b"
  shows "\<forall>k < i. \<not> f k \<Longrightarrow> \<forall>k. j \<le> k \<and> k < n \<longrightarrow> f k \<Longrightarrow> i \<le> j \<Longrightarrow> j \<le> n \<Longrightarrow>
    (\<forall>k < search_loop f i j. \<not> f k) \<and> (\<forall>k. search_loop f i j \<le> k \<and> k < n \<longrightarrow> f k)"
proof (induction "j - i" arbitrary: i j rule: less_induct)
  case less
  show ?case
  proof (cases "i < j")
    case True
    define m where "m = (i + j) div 2"
    have m: "i \<le> m" "m < j" using True by (simp_all add: m_def)
    show ?thesis
    proof (cases "f m")
      case False
      have "\<not> f k" if "k < m + 1" for k using False mono [of k m] that m less.prems(4) by auto
      then have "(\<forall>k < search_loop f (m + 1) j. \<not> f k) \<and> (\<forall>k. search_loop f (m + 1) j \<le> k \<and> k < n \<longrightarrow> f k)"
        by (intro less.hyps) (use less.prems(2,4) m in auto)
      then show ?thesis using search_loop_step [OF True, of f] False by (simp only: m_def [symmetric] if_False)
    next
      case fm: True
      have "f k" if "m \<le> k" "k < n" for k using fm mono that by blast
      then have "(\<forall>k < search_loop f i m. \<not> f k) \<and> (\<forall>k. search_loop f i m \<le> k \<and> k < n \<longrightarrow> f k)"
        by (intro less.hyps) (use less.prems(1,4) m in auto)
      then show ?thesis using search_loop_step [OF True, of f] fm by (simp only: m_def [symmetric] if_True)
    qed
  next
    case False
    then have "i = j" using less.prems(3) by simp
    then show ?thesis using less.prems search_loop_stop [of j j f] by simp
  qed
qed

lemma sort_search_least:
  assumes "\<And>a b. f a \<Longrightarrow> a \<le> b \<Longrightarrow> b < n \<Longrightarrow> f b"
  shows "sort_search n f \<le> n" and "k < sort_search n f \<Longrightarrow> \<not> f k" and "sort_search n f \<le> k \<Longrightarrow> k < n \<Longrightarrow> f k"
proof -
  have least: "(\<forall>k < sort_search n f. \<not> f k) \<and> (\<forall>k. sort_search n f \<le> k \<and> k < n \<longrightarrow> f k)"
    unfolding sort_search_def by (rule search_loop_least [OF assms]) auto
  show "sort_search n f \<le> n" using search_loop_bounds [of 0 n f] by (simp add: sort_search_def)
  show "k < sort_search n f \<Longrightarrow> \<not> f k" and "sort_search n f \<le> k \<Longrightarrow> k < n \<Longrightarrow> f k" using least by auto
qed

section \<open>What a timeline is\<close>

lemma sorted_le_last: "sorted_wrt (<) xs \<Longrightarrow> x \<in> set xs \<Longrightarrow> x \<le> (last xs :: int)"
proof (induction xs)
  case (Cons y ys)
  show ?case
  proof (cases "ys = []")
    case False
    then have "y < last ys" using Cons.prems(1) by simp
    then have "y \<le> last ys" by simp
    then show ?thesis using False Cons by auto
  qed (use Cons.prems in simp)
qed simp

lemma unique_keys_ok:
  "sorted_wrt (<) unique \<Longrightarrow> \<forall>k \<in> set unique. 0 \<le> k \<and> k < duration \<Longrightarrow>
     sorted_wrt (<) (unique_keys duration ks unique)
     \<and> (\<forall>k \<in> set (unique_keys duration ks unique). 0 \<le> k \<and> k < duration)
     \<and> set (unique_keys duration ks unique) \<subseteq> set unique \<union> set ks"
proof (induction duration ks unique rule: unique_keys.induct)
  case (2 duration k ks unique)
  define u where "u = (if 0 \<le> k \<and> k < duration \<and> (unique = [] \<or> last unique < k) then unique @ [k] else unique)"
  have "sorted_wrt (<) u"
  proof (cases "0 \<le> k \<and> k < duration \<and> (unique = [] \<or> last unique < k)")
    case True
    have "x < k" if x: "x \<in> set unique" for x
    proof -
      have ne: "unique \<noteq> []" using x by auto
      then show ?thesis using sorted_le_last [OF 2(2) x] True by simp
    qed
    then show ?thesis using 2(2) True by (simp add: u_def sorted_wrt_append)
  qed (use 2(2) in \<open>auto simp: u_def\<close>)
  moreover have "\<forall>k \<in> set u. 0 \<le> k \<and> k < duration" using 2(3) by (simp add: u_def)
  ultimately have "sorted_wrt (<) (unique_keys duration ks u) \<and> (\<forall>k \<in> set (unique_keys duration ks u). 0 \<le> k \<and> k < duration)
      \<and> set (unique_keys duration ks u) \<subseteq> set u \<union> set ks"
    by (rule "2.IH" [folded u_def])
  moreover have "set u \<subseteq> insert k (set unique)" by (auto simp: u_def)
  moreover have "unique_keys duration (k # ks) unique = unique_keys duration ks u" by (simp add: u_def)
  ultimately show ?case by auto
qed simp

lemma cut_keys_ok:
  "cuts \<noteq> [] \<Longrightarrow> next = last cuts + segment_target \<Longrightarrow> successively (\<lambda>a b. a + segment_target \<le> b) cuts \<Longrightarrow>
     prefix cuts (cut_keys next ks cuts)
     \<and> successively (\<lambda>a b. a + segment_target \<le> b) (cut_keys next ks cuts)
     \<and> set (cut_keys next ks cuts) \<subseteq> set cuts \<union> set ks"
proof (induction "next" ks cuts rule: cut_keys.induct)
  case (2 "next" k ks cuts)
  show ?case
  proof (cases "next \<le> k")
    case True
    have "successively (\<lambda>a b. a + segment_target \<le> b) (cuts @ [k])"
      using "2.prems" True by (simp add: successively_append_iff)
    then show ?thesis using "2.IH"(1) [OF True] True by (auto dest: prefix_order.trans [rotated] simp: prefix_def)
  next
    case False
    then show ?thesis using "2.IH"(2) "2.prems" by auto
  qed
qed simp

lemma spaced_sorted: "successively (\<lambda>a b. a + segment_target \<le> b) xs \<Longrightarrow> sorted_wrt (<) xs"
proof -
  assume "successively (\<lambda>a b. a + segment_target \<le> b) xs"
  then have "successively (<) xs" by (rule successively_mono) (simp add: segment_target_def ticks_per_second_def)
  then show "sorted_wrt (<) xs" by (simp add: successively_conv_sorted_wrt)
qed

lemma successively_butlast: "successively P xs \<Longrightarrow> successively P (butlast xs)"
  by (cases xs rule: rev_cases) (simp_all add: successively_append_iff)

text \<open>The cuts before the end of the media.\<close>

lemma make_timeline_cuts:
  assumes "make_timeline keys duration = Some t"
  obtains cuts where "tl_cuts t = cuts @ [duration]" and "cuts \<noteq> []" and "hd cuts = 0" and "0 < duration"
    and "successively (\<lambda>a b. a + segment_target \<le> b) cuts" and "set cuts \<subseteq> insert 0 (set keys)" and "\<forall>k \<in> set cuts. 0 \<le> k \<and> k < duration"
    and "length cuts = 1 \<or> last cuts + ticks_per_second div 10 \<le> duration"
proof -
  define unique where "unique = unique_keys duration (sort keys) []"
  define all where "all = cut_keys segment_target unique [0]"
  define cuts where "cuts = (if duration - last all < ticks_per_second div 10 \<and> 1 < length all then butlast all else all)"
  have "t = \<lparr>tl_cuts = cuts @ [duration], tl_keys = unique\<rparr>" and pos: "0 < duration"
    using assms unfolding make_timeline_def Let_def unique_def [symmetric] all_def [symmetric] cuts_def [symmetric]
    by (simp_all split: if_split_asm)
  then have t: "tl_cuts t = cuts @ [duration]" by simp
  have unique: "\<forall>k \<in> set unique. 0 \<le> k \<and> k < duration" "set unique \<subseteq> set keys"
    using unique_keys_ok [of "[]" duration "sort keys"] by (simp_all add: unique_def)
  have all: "prefix [0] all" "successively (\<lambda>a b. a + segment_target \<le> b) all" "set all \<subseteq> insert 0 (set unique)"
    using cut_keys_ok [of "[0]" segment_target unique] by (simp_all add: all_def)
  obtain rest where rest: "all = 0 # rest" using all(1) by (auto simp: prefix_def)
  have sub: "set cuts \<subseteq> set all" using set_mono_prefix [of "butlast all" all] by (auto simp: cuts_def dest: in_set_butlastD)
  have begins: "cuts \<noteq> []" "hd cuts = 0" by (auto simp: cuts_def rest)
  have spaced: "successively (\<lambda>a b. a + segment_target \<le> b) cuts" using all(2) successively_butlast [OF all(2)] by (simp add: cuts_def)
  have inside: "set cuts \<subseteq> insert 0 (set keys)" "\<forall>k \<in> set cuts. 0 \<le> k \<and> k < duration"
    using sub all(3) unique pos by auto
  have "length cuts = 1 \<or> last cuts + ticks_per_second div 10 \<le> duration"
  proof (cases "duration - last all < ticks_per_second div 10 \<and> 1 < length all")
    case True
    have "butlast all = [] \<or> last (butlast all) + segment_target \<le> last all"
      using all(2) by (cases all rule: rev_cases) (auto simp: successively_append_iff)
    moreover have "last all \<in> set all" using rest by simp
    then have "last all < duration" using all(3) unique pos by auto
    ultimately show ?thesis using True rest by (auto simp: cuts_def segment_target_def ticks_per_second_def)
  next
    case False
    then have eq: "cuts = all" unfolding cuts_def by (rule if_not_P)
    have "1 \<le> length all" by (simp add: rest)
    with False show ?thesis unfolding eq by linarith
  qed
  then show ?thesis by (rule that [OF t begins pos spaced inside])
qed

text \<open>
  The boundaries of the segments of a converted media begin with zero, increase and end with the duration;
  all between are keyframes, every segment but the last is at least four seconds long, and the last is at
  least a tenth of a second unless it is the only one.
\<close>

theorem timeline_sound:
  assumes "make_timeline keys duration = Some t"
  shows "hd (tl_cuts t) = 0 \<and> last (tl_cuts t) = duration \<and> sorted_wrt (<) (tl_cuts t)
    \<and> set (butlast (tl (tl_cuts t))) \<subseteq> set keys
    \<and> successively (\<lambda>a b. a + segment_target \<le> b) (butlast (tl_cuts t))
    \<and> (length (tl_cuts t) = 2 \<or> last (butlast (tl_cuts t)) + ticks_per_second div 10 \<le> duration)"
proof -
  obtain cuts where c: "tl_cuts t = cuts @ [duration]" "cuts \<noteq> []" "hd cuts = 0" "successively (\<lambda>a b. a + segment_target \<le> b) cuts"
    "set cuts \<subseteq> insert 0 (set keys)" "\<forall>k \<in> set cuts. 0 \<le> k \<and> k < duration" "length cuts = 1 \<or> last cuts + ticks_per_second div 10 \<le> duration"
    using make_timeline_cuts [OF assms] by metis
  obtain rest where rest: "cuts = 0 # rest" using c(2,3) by (cases cuts) auto
  have sorted: "sorted_wrt (<) cuts" using c(4) by (rule spaced_sorted)
  then have "0 \<notin> set rest" by (auto simp: rest)
  then have "set rest \<subseteq> set keys" using c(5) by (auto simp: rest)
  then show ?thesis using c(1,3,4,6,7) sorted by (simp add: sorted_wrt_append rest)
qed

text \<open>
  C14: Every instant of a converted media lies in the segment that \<open>Segment\<close> names for it.
\<close>

theorem segment_contains:
  assumes "make_timeline keys duration = Some t" and "0 \<le> ticks" and "ticks < duration"
  shows "0 \<le> segment_of t ticks \<and> segment_of t ticks < timeline_len t
    \<and> tl_cuts t ! nat (segment_of t ticks) \<le> ticks \<and> ticks < tl_cuts t ! (nat (segment_of t ticks) + 1)"
proof -
  define n where "n = length (tl_cuts t)"
  define f where "f = (\<lambda>i. ticks < tl_cuts t ! i)"
  define m where "m = sort_search n f"
  obtain cuts where c: "tl_cuts t = cuts @ [duration]" "cuts \<noteq> []" "hd cuts = 0" "successively (\<lambda>a b. a + segment_target \<le> b) cuts"
    "\<forall>k \<in> set cuts. 0 \<le> k \<and> k < duration"
    using make_timeline_cuts [OF assms(1)] by metis
  have "sorted_wrt (<) (tl_cuts t)" using c(5) spaced_sorted [OF c(4)] by (simp add: c(1) sorted_wrt_append)
  then have mono: "f b" if "f a" "a \<le> b" "b < n" for a b
    using that sorted_wrt_nth_less [of "(<)" "tl_cuts t" a b] by (cases "a = b") (auto simp: f_def n_def)
  have two: "2 \<le> n" using c(2) by (cases cuts) (auto simp: n_def c(1))
  have "\<not> f 0" using c(2,3) assms(2) by (cases cuts) (auto simp: f_def c(1))
  then have m0: "0 < m" using sort_search_least(3) [of f n 0] mono two by (auto simp: m_def intro: gr0I)
  have "f (n - 1)" using assms(3) by (simp add: f_def n_def c(1) nth_append)
  then have m1: "m \<le> n - 1" using sort_search_least(2) [of f n "n - 1"] mono by (force simp: m_def not_le)
  have seg: "segment_of t ticks = int m - 1"
    using m0 m1 by (simp add: segment_of_def timeline_len_def n_def [symmetric] f_def [symmetric] m_def [symmetric])
  have "\<not> f (m - 1)" using sort_search_least(2) [of f n "m - 1"] mono m0 by (simp add: m_def)
  moreover have "f m" using sort_search_least(3) [of f n m] mono m1 two by (simp add: m_def)
  ultimately show ?thesis using m0 m1 seg two by (simp add: f_def timeline_len_def n_def [symmetric] nat_diff_distrib' Suc_nat_eq_nat_zadd1 flip: n_def)
qed

section \<open>A timeline\<close>

lemma sample_timeline:
  "make_timeline [50000000, 0] 90000000 = Some \<lparr>tl_cuts = [0, 50000000, 90000000], tl_keys = [0, 50000000]\<rparr>"
  by (simp add: make_timeline_def max_keyframes_def max_duration_ticks_def ticks_per_second_def segment_target_def Let_def)

theorem timeline_sound_witness: "sorted_wrt (<) [0, 50000000, 90000000 :: int]"
  using timeline_sound [OF sample_timeline] by simp

theorem segment_contains_witness:
  "segment_of \<lparr>tl_cuts = [0, 50000000, 90000000], tl_keys = [0, 50000000]\<rparr> 60000000 < 2"
  using segment_contains [OF sample_timeline, of 60000000] by (simp add: timeline_len_def)

end
