(* ===== verification/Timeline_Index.thy ===== *)
theory Timeline_Index
  imports Timeline Ebml
begin

text \<open>
  \<open>internal/transcode/timeline.go\<close> from \<open>indexReader\<close> on: the bytes of a media are read through blocks of
  4096 bytes and at most 24 MiB of them; the keyframes of a Matroska file are its cues.

  The body that the \<open>n\<close>-th call of \<open>Open\<close> gives is an argument, and so is the arithmetic of \<open>float64\<close>.
\<close>

section \<open>Reader\<close>

text \<open>\<open>TlEnd\<close> is \<open>io.ErrUnexpectedEOF\<close>, \<open>TlPanic\<close> an index out of range.\<close>

datatype timeline_error = TlIndex | TlSource | TlEnd | TlPanic

definition max_index_bytes :: int where "max_index_bytes = 25165824"

record index_media =
  im_size :: int
  im_container :: string
  im_run_time :: int
  im_opens :: bool
  im_body :: "nat \<Rightarrow> int \<Rightarrow> int \<Rightarrow> string option"

record index_reader =
  ir_used :: int
  ir_blocks :: "(int, string) gomap"
  ir_opened :: nat

type_synonym 'a indexing = "index_reader \<Rightarrow> (timeline_error + 'a) \<times> index_reader"

definition ix_return :: "'a \<Rightarrow> 'a indexing" where
  "ix_return x r = (Inr x, r)"

definition ix_fail :: "timeline_error \<Rightarrow> 'a indexing" where
  "ix_fail e r = (Inl e, r)"

definition ix_bind :: "'a indexing \<Rightarrow> ('a \<Rightarrow> 'b indexing) \<Rightarrow> 'b indexing" where
  "ix_bind f g r = (case f r of (Inl e, r) \<Rightarrow> (Inl e, r) | (Inr x, r) \<Rightarrow> g x r)"

definition ix_lift :: "timeline_error + 'a \<Rightarrow> 'a indexing" where
  "ix_lift x r = (x, r)"

text \<open>\<open>fetch\<close>: \<open>io.ReadFull\<close> wants all \<open>n\<close> bytes of the body.\<close>

definition index_fetch :: "index_media \<Rightarrow> int \<Rightarrow> int \<Rightarrow> string indexing" where
  "index_fetch m off n r =
     (if max_index_bytes < ir_used r + n then (Inl TlIndex, r)
      else (case im_body m (ir_opened r) off n of
              None \<Rightarrow> (Inl TlSource, r\<lparr>ir_used := ir_used r + n, ir_opened := ir_opened r + 1\<rparr>)
            | Some body \<Rightarrow>
                (if length body < nat n then Inl TlSource else Inr (take (nat n) body),
                 r\<lparr>ir_used := ir_used r + n, ir_opened := ir_opened r + 1\<rparr>)))"

definition slice :: "int \<Rightarrow> int \<Rightarrow> string \<Rightarrow> string" where
  "slice i n b = take (nat n) (drop (nat i) b)"

definition index_read :: "index_media \<Rightarrow> int \<Rightarrow> int \<Rightarrow> string indexing" where
  "index_read m off n r =
     (if off < 0 \<or> n < 0 \<or> im_size m - off < n \<or> max_index_bytes < n then (Inl TlIndex, r)
      else (let start = off div 4096 * 4096
            in if n \<le> 4096 \<and> off + n \<le> start + 4096 then
                 (case map_of (ir_blocks r) start of
                    Some b \<Rightarrow> (Inr (slice (off - start) n b), r)
                  | None \<Rightarrow>
                      (case index_fetch m start (min 4096 (im_size m - start)) r of
                         (Inl e, r) \<Rightarrow> (Inl e, r)
                       | (Inr b, r) \<Rightarrow>
                           (Inr (slice (off - start) n b), r\<lparr>ir_blocks := AList.update start b (ir_blocks r)\<rparr>)))
               else index_fetch m off n r))"

section \<open>Elements\<close>

definition index_vint :: "string \<Rightarrow> bool \<Rightarrow> timeline_error + (uint64 \<times> nat)" where
  "index_vint b keep =
     (case b of
        [] \<Rightarrow> Inl TlIndex
      | c # _ \<Rightarrow>
          if byte_word c = 0 then Inl TlIndex
          else (case vint_width (byte_word c) 1 of
                  None \<Rightarrow> Inl TlIndex
                | Some n \<Rightarrow>
                    if length b < n then Inl TlEnd
                    else (let v = (if keep then byte_word c else byte_word c AND (push_bit (8 - n) 1 - 1))
                          in Inr (shift_bytes v (take (n - 1) (tl b)), n))))"

record index_element =
  ie_id :: uint64
  ie_start :: int
  ie_end :: int

definition index_element_header :: "int \<Rightarrow> int \<Rightarrow> string \<Rightarrow> timeline_error + index_element" where
  "index_element_header len off b =
     (case index_vint b True of
        Inl e \<Rightarrow> Inl e
      | Inr (i, n) \<Rightarrow>
          (case index_vint (drop n b) False of
             Inl e \<Rightarrow> Inl e
           | Inr (sz, m) \<Rightarrow>
               (let start = off + int (n + m);
                    rest = word_of_int (len - start) :: uint64;
                    sz = (if sz = unknown_size m then rest else sz)
                in if rest < sz then Inl TlIndex else Inr \<lparr>ie_id = i, ie_start = start, ie_end = start + sint sz\<rparr>)))"

definition index_ebml :: "index_media \<Rightarrow> int \<Rightarrow> index_element indexing" where
  "index_ebml m off =
     ix_bind (index_read m off (min 16 (im_size m - off))) (\<lambda>b. ix_lift (index_element_header (im_size m) off b))"

lemma index_vint_length: "index_vint b keep = Inr (v, n) \<Longrightarrow> 1 \<le> n \<and> n \<le> 8 \<and> n \<le> length b"
  by (auto simp: index_vint_def Let_def dest: vint_width_pos vint_width_le split: list.splits if_splits option.splits)

function index_elements ::
  "('s \<Rightarrow> uint64 \<Rightarrow> string \<Rightarrow> timeline_error + 's) \<Rightarrow> string \<Rightarrow> 's \<Rightarrow> timeline_error + 's" where
  "index_elements visit b s =
     (if b = [] then Inr s
      else (case index_vint b True of
              Inl e \<Rightarrow> Inl e
            | Inr (i, n) \<Rightarrow>
                (case index_vint (drop n b) False of
                   Inl e \<Rightarrow> Inl e
                 | Inr (sz, m) \<Rightarrow>
                     (let body = drop (n + m) b
                      in if length body < unat sz then Inl TlIndex
                         else (case visit s i (take (unat sz) body) of
                                 Inl e \<Rightarrow> Inl e
                               | Inr s' \<Rightarrow> index_elements visit (drop (unat sz) body) s')))))"
  by pat_completeness auto
termination
  by (relation "measure (\<lambda>(_, b, _). length b)") (auto dest!: index_vint_length)

declare index_elements.simps [simp del]

definition index_unsigned :: "string \<Rightarrow> timeline_error + uint64" where
  "index_unsigned b = (if b = [] \<or> 8 < length b then Inl TlIndex else Inr (shift_bytes 0 b))"

section \<open>Numbers\<close>

text \<open>
  \<open>float64\<close>: conversions from integers and bits, arithmetic, order, \<open>int64(x)\<close>, \<open>strconv.ParseFloat\<close> and
  \<open>strconv.FormatFloat(x, 'f', -1, 64)\<close>.
\<close>

record 'f floats =
  fo_int :: "int \<Rightarrow> 'f"
  fo_single :: "32 word \<Rightarrow> 'f"
  fo_double :: "uint64 \<Rightarrow> 'f"
  fo_add :: "'f \<Rightarrow> 'f \<Rightarrow> 'f"
  fo_sub :: "'f \<Rightarrow> 'f \<Rightarrow> 'f"
  fo_mul :: "'f \<Rightarrow> 'f \<Rightarrow> 'f"
  fo_div :: "'f \<Rightarrow> 'f \<Rightarrow> 'f"
  fo_abs :: "'f \<Rightarrow> 'f"
  fo_less :: "'f \<Rightarrow> 'f \<Rightarrow> bool"
  fo_le :: "'f \<Rightarrow> 'f \<Rightarrow> bool"
  fo_inf :: "'f \<Rightarrow> bool"
  fo_nan :: "'f \<Rightarrow> bool"
  fo_int64 :: "'f \<Rightarrow> int"
  fo_parse :: "string \<Rightarrow> 'f option"
  fo_format :: "'f \<Rightarrow> string"

section \<open>Matroska\<close>

type_synonym index_positions = "(uint64, int) gomap"

fun find_index_segment :: "index_media \<Rightarrow> nat \<Rightarrow> int \<Rightarrow> index_element indexing" where
  "find_index_segment m 0 off = ix_fail TlIndex"
| "find_index_segment m (Suc n) off =
     ix_bind (index_ebml m off) (\<lambda>e. if ie_id e = 0x18538067 then ix_return e else find_index_segment m n (ie_end e))"

definition visit_index_seek_field ::
  "uint64 \<times> uint64 \<Rightarrow> uint64 \<Rightarrow> string \<Rightarrow> timeline_error + (uint64 \<times> uint64)" where
  "visit_index_seek_field st i b =
     (case index_unsigned b of
        Inl e \<Rightarrow> Inl e
      | Inr v \<Rightarrow> Inr (if i = 0x53ab then (v, snd st) else if i = 0x53ac then (fst st, v) else st))"

definition visit_index_seek :: "index_element \<Rightarrow> index_positions \<Rightarrow> uint64 \<Rightarrow> string \<Rightarrow> timeline_error + index_positions" where
  "visit_index_seek segment found i b =
     (if i \<noteq> 0x4dbb then Inr found
      else (case index_elements visit_index_seek_field b (0, 0) of
              Inl e \<Rightarrow> Inl e
            | Inr (target, pos) \<Rightarrow>
                if word_of_int (ie_end segment - ie_start segment) < pos then Inl TlIndex
                else Inr (AList.update target (ie_start segment + sint pos) found)))"

text \<open>The headers of the segment, up to its first cluster.\<close>

fun scan_index_segment :: "index_media \<Rightarrow> index_element \<Rightarrow> nat \<Rightarrow> int \<Rightarrow> index_positions \<Rightarrow> index_positions indexing" where
  "scan_index_segment m segment 0 off found = ix_return found"
| "scan_index_segment m segment (Suc n) off found =
     (if ie_end segment \<le> off then ix_return found
      else ix_bind (index_ebml m off) (\<lambda>e.
        (let found = AList.update (ie_id e) off found
         in ix_bind (if ie_id e = 0x114d9b74
                     then ix_bind (index_read m (ie_start e) (ie_end e - ie_start e)) (\<lambda>b.
                       ix_lift (index_elements (visit_index_seek segment) b found))
                     else ix_return found) (\<lambda>found.
              if ie_id e = 0x1f43b675 then ix_return found
              else scan_index_segment m segment n (ie_end e) found))))"

definition load_index :: "index_media \<Rightarrow> index_positions \<Rightarrow> uint64 \<Rightarrow> string indexing" where
  "load_index m found i =
     (case map_of found i of
        None \<Rightarrow> ix_fail TlIndex
      | Some p \<Rightarrow> (\<lambda>r.
          (case index_ebml m p r of
             (Inl _, r) \<Rightarrow> (Inl TlIndex, r)
           | (Inr e, r) \<Rightarrow>
               if ie_id e \<noteq> i then (Inl TlIndex, r) else index_read m (ie_start e) (ie_end e - ie_start e) r)))"

definition be32 :: "string \<Rightarrow> 32 word" where
  "be32 b = ucast (shift_bytes 0 (take 4 b))"

definition be64 :: "string \<Rightarrow> uint64" where
  "be64 b = shift_bytes 0 (take 8 b)"

definition visit_index_info ::
  "'f floats \<Rightarrow> uint64 \<times> 'f \<Rightarrow> uint64 \<Rightarrow> string \<Rightarrow> timeline_error + (uint64 \<times> 'f)" where
  "visit_index_info fl st i b =
     (if i = 0x2ad7b1 then (case index_unsigned b of Inl e \<Rightarrow> Inl e | Inr v \<Rightarrow> Inr (v, snd st))
      else if i = 0x4489 then
        (if length b = 4 then Inr (fst st, fo_single fl (be32 b))
         else if length b = 8 then Inr (fst st, fo_double fl (be64 b))
         else Inl TlIndex)
      else Inr st)"

definition index_duration :: "'f floats \<Rightarrow> int \<Rightarrow> uint64 \<Rightarrow> 'f \<Rightarrow> int" where
  "index_duration fl run_time scale duration =
     (let ticks = fo_div fl (fo_mul fl duration (fo_int fl (uint scale))) (fo_int fl 100)
      in if fo_less fl (fo_int fl 0) duration \<and> \<not> fo_inf fl duration \<and> \<not> fo_nan fl duration
           \<and> fo_le fl ticks (fo_int fl max_duration_ticks)
         then fo_int64 fl ticks else run_time)"

record index_track =
  it_number :: uint64
  it_kind :: uint64
  it_codec :: string

definition visit_index_track_field :: "index_track \<Rightarrow> uint64 \<Rightarrow> string \<Rightarrow> timeline_error + index_track" where
  "visit_index_track_field t i b =
     (if i = 0xd7 then (case index_unsigned b of Inl e \<Rightarrow> Inl e | Inr v \<Rightarrow> Inr (t\<lparr>it_number := v\<rparr>))
      else if i = 0x83 then (case index_unsigned b of Inl e \<Rightarrow> Inl e | Inr v \<Rightarrow> Inr (t\<lparr>it_kind := v\<rparr>))
      else if i = 0x86 then Inr (t\<lparr>it_codec := b\<rparr>)
      else Inr t)"

definition visit_index_track :: "uint64 \<Rightarrow> uint64 \<Rightarrow> string \<Rightarrow> timeline_error + uint64" where
  "visit_index_track video i b =
     (if i \<noteq> 0xae then Inr video
      else (case index_elements visit_index_track_field b \<lparr>it_number = 0, it_kind = 0, it_codec = []\<rparr> of
              Inl e \<Rightarrow> Inl e
            | Inr t \<Rightarrow>
                if it_kind t \<noteq> 1 then Inr video
                else if video \<noteq> 0 \<or> it_codec t \<noteq> ''V_MPEG4/ISO/AVC'' \<and> it_codec t \<noteq> ''V_MPEGH/ISO/HEVC'' then Inl TlIndex
                else Inr (it_number t)))"

text \<open>The positions of a cue: the track, the offset of its cluster, whether decoding can begin there.\<close>

definition visit_index_position ::
  "uint64 \<times> uint64 \<times> bool \<Rightarrow> uint64 \<Rightarrow> string \<Rightarrow> timeline_error + (uint64 \<times> uint64 \<times> bool)" where
  "visit_index_position st i b =
     (case st of (track, pos, random) \<Rightarrow>
        if i = 0xdb then Inr (track, pos, False)
        else if i \<noteq> 0xf7 \<and> i \<noteq> 0xf1 \<and> i \<noteq> 0xea then Inr st
        else (case index_unsigned b of
                Inl e \<Rightarrow> Inl e
              | Inr v \<Rightarrow> Inr (if i = 0xf7 then v else track, if i = 0xf1 then v else pos, random \<and> \<not> (i = 0xea \<and> v \<noteq> 0))))"

definition visit_index_point ::
  "index_element \<Rightarrow> uint64 \<Rightarrow> uint64 \<times> bool \<Rightarrow> uint64 \<Rightarrow> string \<Rightarrow> timeline_error + (uint64 \<times> bool)" where
  "visit_index_point segment video st i b =
     (if i = 0xb3 then (case index_unsigned b of Inl e \<Rightarrow> Inl e | Inr v \<Rightarrow> Inr (v, snd st))
      else if i \<noteq> 0xb7 then Inr st
      else (case index_elements visit_index_position b (0, 0, True) of
              Inl e \<Rightarrow> Inl e
            | Inr (track, pos, random) \<Rightarrow>
                if track = video \<and> random then
                  (if word_of_int (ie_end segment - ie_start segment) \<le> pos then Inl TlIndex else Inr (fst st, True))
                else Inr st))"

definition visit_index_cue ::
  "index_element \<Rightarrow> uint64 \<Rightarrow> uint64 \<Rightarrow> int list \<Rightarrow> uint64 \<Rightarrow> string \<Rightarrow> timeline_error + int list" where
  "visit_index_cue segment video scale keys i b =
     (if i \<noteq> 0xbb then Inr keys
      else (case index_elements (visit_index_point segment video) b (0, False) of
              Inl e \<Rightarrow> Inl e
            | Inr (timecode, selected) \<Rightarrow>
                if \<not> selected then Inr keys
                else if word_of_int max_duration_ticks * 100 div scale < timecode \<or> max_keyframes \<le> length keys then Inl TlIndex
                else Inr (keys @ [sint (timecode * scale div 100)])))"

definition index_timeline :: "int list \<Rightarrow> int \<Rightarrow> timeline indexing" where
  "index_timeline keys duration = ix_lift (case make_timeline keys duration of None \<Rightarrow> Inl TlIndex | Some t \<Rightarrow> Inr t)"

definition no_index :: "(timeline_error + 'a) \<Rightarrow> timeline_error + 'a" where
  "no_index x = (case x of Inl _ \<Rightarrow> Inl TlIndex | Inr y \<Rightarrow> Inr y)"

definition matroska_timeline :: "'f floats \<Rightarrow> index_media \<Rightarrow> timeline indexing" where
  "matroska_timeline fl m =
     ix_bind (find_index_segment m 4 0) (\<lambda>segment.
       ix_bind (scan_index_segment m segment 32 (ie_start segment) []) (\<lambda>found.
         ix_bind (load_index m found 0x1549a966) (\<lambda>info.
           ix_bind (ix_lift (no_index (index_elements (visit_index_info fl) info (1000000, fo_int fl 0)))) (\<lambda>(scale, duration).
             if scale = 0 \<or> 1000000000 < scale then ix_fail TlIndex
             else ix_bind (load_index m found 0x1654ae6b) (\<lambda>tracks.
               ix_bind (ix_lift (no_index (index_elements visit_index_track tracks 0))) (\<lambda>video.
                 if video = 0 then ix_fail TlIndex
                 else ix_bind (load_index m found 0x1c53bb6b) (\<lambda>cues.
                   ix_bind (ix_lift (no_index (index_elements (visit_index_cue segment video scale) cues []))) (\<lambda>keys.
                     index_timeline keys (index_duration fl (im_run_time m) scale duration)))))))))"

end
