(* ===== verification/Mp4_Timeline.thy ===== *)
theory Mp4_Timeline
  imports Timeline_Index
begin

text \<open>
  \<open>internal/transcode/mp4.go\<close>: boxes, the sample tables of the video track and the keyframes in them.
\<close>

section \<open>Boxes\<close>

definition box_size :: "string \<Rightarrow> timeline_error + (nat \<times> nat)" where
  "box_size b =
     (if length b < 8 then Inl TlIndex
      else if be32 b = 1 \<and> length b < 16 then Inl TlIndex
      else (let header = (if be32 b = 1 then 16 else 8);
                sz = (if be32 b = 1 then be64 (drop 8 b) else if be32 b = 0 then of_nat (length b) else ucast (be32 b))
            in if sz < of_nat header \<or> of_nat (length b) < sz then Inl TlIndex else Inr (header, unat sz)))"

lemma box_size_header: "box_size b = Inr (header, sz) \<Longrightarrow> b \<noteq> [] \<and> 0 < header \<and> header \<le> sz"
  by (auto simp: box_size_def Let_def not_less word_le_nat_alt split: if_splits)

text \<open>\<open>walkBoxes\<close>: the kind and the body of every box, in order; \<open>s\<close> is what the closure changes.\<close>

function walk_boxes ::
  "('s \<Rightarrow> string \<Rightarrow> string \<Rightarrow> timeline_error + 's) \<Rightarrow> string \<Rightarrow> 's \<Rightarrow> timeline_error + 's" where
  "walk_boxes visit b s =
     (if b = [] then Inr s
      else (case box_size b of
              Inl e \<Rightarrow> Inl e
            | Inr (header, sz) \<Rightarrow>
                (case visit s (take 4 (drop 4 b)) (drop header (take sz b)) of
                   Inl e \<Rightarrow> Inl e
                 | Inr s' \<Rightarrow> walk_boxes visit (drop sz b) s')))"
  by pat_completeness auto
termination
  by (relation "measure (\<lambda>(_, b, _). length b)") (auto dest: box_size_header)

declare walk_boxes.simps [simp del]

definition visit_child :: "string \<Rightarrow> string option \<Rightarrow> string \<Rightarrow> string \<Rightarrow> timeline_error + string option" where
  "visit_child kind found k b =
     (if k \<noteq> kind then Inr found else if found \<noteq> None then Inl TlIndex else Inr (Some b))"

text \<open>\<open>child\<close>: the only box of a kind.\<close>

definition child_box :: "string \<Rightarrow> string \<Rightarrow> string option" where
  "child_box kind b = (case walk_boxes (visit_child kind) b None of Inl _ \<Rightarrow> None | Inr found \<Rightarrow> found)"

fun descendant_box :: "string list \<Rightarrow> string \<Rightarrow> string option" where
  "descendant_box [] b = Some b"
| "descendant_box (p # ps) b = (case child_box p b of None \<Rightarrow> None | Some b \<Rightarrow> descendant_box ps b)"

definition clock_scale :: "string \<Rightarrow> 32 word option" where
  "clock_scale b =
     (if length b < 16 then None
      else if hd b \<noteq> CHR 0x01 \<and> hd b \<noteq> CHR 0x00 then None
      else (let off = (if hd b = CHR 0x01 then 20 else 12)
            in if length b < off + 4 \<or> be32 (drop off b) = 0 then None else Some (be32 (drop off b))))"

section \<open>Sample tables\<close>

record sample_run =
  sr_count :: nat
  sr_value :: int

definition entry_run :: "bool \<Rightarrow> string \<Rightarrow> sample_run option" where
  "entry_run neg b =
     (if be32 b = 0 then None
      else Some \<lparr>sr_count = unat (be32 b), sr_value = (if neg then sint (be32 (drop 4 b)) else uint (be32 (drop 4 b)))\<rparr>)"

fun entry_runs :: "bool \<Rightarrow> nat \<Rightarrow> string \<Rightarrow> sample_run list option" where
  "entry_runs neg 0 b = Some []"
| "entry_runs neg (Suc n) b =
     (case entry_run neg b of
        None \<Rightarrow> None
      | Some r \<Rightarrow> (case entry_runs neg n (drop 8 b) of None \<Rightarrow> None | Some rs \<Rightarrow> Some (r # rs)))"

definition sample_runs :: "bool \<Rightarrow> string \<Rightarrow> sample_run list option" where
  "sample_runs neg b =
     (if length b < 8 then None
      else (let n = uint (be32 (drop 4 b))
            in if n = 0 \<or> 2000000 < n \<or> int (length b) - 8 < n * 8 then None else entry_runs neg (nat n) (drop 8 b)))"

text \<open>The samples that are keyframes, if the table names them.\<close>

fun sync_entries :: "nat \<Rightarrow> int \<Rightarrow> string \<Rightarrow> int list option" where
  "sync_entries 0 total_samples b = Some []"
| "sync_entries (Suc n) total_samples b =
     (let sample = uint (be32 b)
      in if sample = 0 \<or> total_samples < sample then None
         else (case sync_entries n total_samples (drop 4 b) of None \<Rightarrow> None | Some ks \<Rightarrow> Some (sample # ks)))"

definition sync_samples :: "int \<Rightarrow> string \<Rightarrow> int list option" where
  "sync_samples total_samples b =
     (if length b < 8 then None
      else (let n = uint (be32 (drop 4 b))
            in if int max_keyframes < n \<or> int (length b) - 8 < n * 4 then None else sync_entries (nat n) total_samples (drop 8 b)))"

text \<open>\<open>editShift\<close>\<close>

definition edit_entry :: "nat \<Rightarrow> string \<Rightarrow> (uint64 \<times> int) option" where
  "edit_entry entry d =
     (if be32 (drop (entry - 4) d) \<noteq> 0x10000 then None
      else if entry = 20 then Some (be64 d, sint (be64 (drop 8 d)))
      else Some (ucast (be32 d), sint (be32 (drop 4 d))))"

fun edit_entries :: "nat \<Rightarrow> nat \<Rightarrow> bool \<Rightarrow> string \<Rightarrow> uint64 \<times> int \<Rightarrow> (uint64 \<times> int) option" where
  "edit_entries entry 0 first b st = Some st"
| "edit_entries entry (Suc n) first b st =
     (case edit_entry entry b of
        None \<Rightarrow> None
      | Some (duration, m) \<Rightarrow>
          if m = -1 \<and> first then edit_entries entry n False (drop entry b) (duration, snd st)
          else if 0 \<le> m then edit_entries entry n False (drop entry b) (fst st, m)
          else None)"

definition edit_shift :: "'f floats \<Rightarrow> string \<Rightarrow> 32 word \<Rightarrow> 32 word \<Rightarrow> int option" where
  "edit_shift fl trak movie_scale scale =
     (case descendant_box [''edts'', ''elst''] trak of
        None \<Rightarrow> Some 0
      | Some b \<Rightarrow>
          if length b < 8 then None
          else (let count = unat (be32 (drop 4 b))
                in if count = 0 \<or> 2 < count \<or> hd b \<noteq> CHR 0x01 \<and> hd b \<noteq> CHR 0x00 then None
                   else (let entry = (if hd b = CHR 0x01 then 20 else 12)
                         in if length b < 8 + count * entry then None
                            else (case edit_entries entry count True (drop 8 b) (0, 0) of
                                    None \<Rightarrow> None
                                  | Some (gap, media) \<Rightarrow>
                                      (let shift = fo_sub fl (fo_div fl (fo_int fl (uint gap)) (fo_int fl (uint movie_scale)))
                                                     (fo_div fl (fo_int fl media) (fo_int fl (uint scale)))
                                       in if fo_less fl (fo_int fl (72 * 3600)) (fo_abs fl shift) then None
                                          else Some (fo_int64 fl (fo_mul fl shift (fo_int fl ticks_per_second))))))))"

section \<open>Keyframes\<close>

text \<open>
  The loop over the samples of one run of durations: \<open>ct\<close> is the rest of the composition offsets, the first
  of them with what is left of its count.
\<close>

record sample_state =
  ss_dts :: int
  ss_sample :: int
  ss_left :: int
  ss_offsets :: "sample_run list"
  ss_times :: "int list"

text \<open>The time of a keyframe.\<close>

definition key_time :: "'f floats \<Rightarrow> 32 word \<Rightarrow> int \<Rightarrow> int \<Rightarrow> int option" where
  "key_time fl scale shift pts =
     (let seconds = fo_div fl (fo_int fl pts) (fo_int fl (uint scale))
      in if fo_less fl (fo_int fl (72 * 3600)) (fo_abs fl seconds) then None
         else Some (fo_int64 fl (fo_mul fl seconds (fo_int fl ticks_per_second)) + shift))"

definition next_sample :: "'f floats \<Rightarrow> 32 word \<Rightarrow> int \<Rightarrow> int \<Rightarrow> (int \<Rightarrow> bool) \<Rightarrow> int \<Rightarrow> sample_state \<Rightarrow> sample_state option" where
  "next_sample fl scale shift samples key duration s =
     (case (if key (ss_sample s) then map_option (\<lambda>t. ss_times s @ [t]) (key_time fl scale shift (ss_dts s + sr_value (hd (ss_offsets s))))
            else Some (ss_times s)) of
        None \<Rightarrow> None
      | Some ts \<Rightarrow>
          (let s = s\<lparr>ss_dts := ss_dts s + duration, ss_sample := ss_sample s + 1, ss_left := ss_left s - 1, ss_times := ts\<rparr>
           in if ss_left s = 0 \<and> ss_sample s \<le> samples then
                (case tl (ss_offsets s) of
                   [] \<Rightarrow> None
                 | x # xs \<Rightarrow> Some (s\<lparr>ss_left := int (sr_count x), ss_offsets := x # xs\<rparr>))
              else Some s))"

fun run_samples :: "'f floats \<Rightarrow> 32 word \<Rightarrow> int \<Rightarrow> int \<Rightarrow> (int \<Rightarrow> bool) \<Rightarrow> int \<Rightarrow> nat \<Rightarrow> sample_state \<Rightarrow> sample_state option" where
  "run_samples fl scale shift samples key duration 0 s = Some s"
| "run_samples fl scale shift samples key duration (Suc n) s =
     (case next_sample fl scale shift samples key duration s of
        None \<Rightarrow> None
      | Some s \<Rightarrow> run_samples fl scale shift samples key duration n s)"

fun all_samples :: "'f floats \<Rightarrow> 32 word \<Rightarrow> int \<Rightarrow> int \<Rightarrow> (int \<Rightarrow> bool) \<Rightarrow> sample_run list \<Rightarrow> sample_state \<Rightarrow> sample_state option" where
  "all_samples fl scale shift samples key [] s = Some s"
| "all_samples fl scale shift samples key (r # rs) s =
     (if sr_value r \<le> 0 then None
      else (case run_samples fl scale shift samples key (sr_value r) (sr_count r) s of
              None \<Rightarrow> None
            | Some s \<Rightarrow> all_samples fl scale shift samples key rs s))"

text \<open>The video track: the only one, if any, whose handler is \<open>vide\<close>.\<close>

definition visit_trak :: "string option \<Rightarrow> string \<Rightarrow> string \<Rightarrow> timeline_error + string option" where
  "visit_trak video k b =
     (if k \<noteq> ''trak'' then Inr video
      else (case descendant_box [''mdia'', ''hdlr''] b of
              None \<Rightarrow> Inl TlIndex
            | Some handler \<Rightarrow>
                if length handler < 12 then Inl TlIndex
                else if take 4 (drop 8 handler) \<noteq> ''vide'' then Inr video
                else if video \<noteq> None then Inl TlIndex
                else Inr (Some b)))"

text \<open>\<open>ctts[0]\<close> of an empty table is out of range.\<close>

definition composition_offsets :: "string \<Rightarrow> timeline_error + sample_run list" where
  "composition_offsets stbl =
     (case child_box ''ctts'' stbl of
        None \<Rightarrow> Inr [\<lparr>sr_count = 4294967295, sr_value = 0\<rparr>]
      | Some [] \<Rightarrow> Inl TlPanic
      | Some ctts \<Rightarrow> (case sample_runs (hd ctts = CHR 0x01) ctts of None \<Rightarrow> Inl TlIndex | Some rs \<Rightarrow> Inr rs))"

definition key_samples :: "int \<Rightarrow> string \<Rightarrow> (int \<Rightarrow> bool) option" where
  "key_samples samples stbl =
     (case child_box ''stss'' stbl of
        Some stss \<Rightarrow> map_option (\<lambda>ks i. i \<in> set ks) (sync_samples samples stss)
      | None \<Rightarrow> if int max_keyframes < samples then None else Some (\<lambda>i. 1 \<le> i \<and> i \<le> samples))"

definition require :: "'a option \<Rightarrow> timeline_error + 'a" where
  "require x = (case x of None \<Rightarrow> Inl TlIndex | Some y \<Rightarrow> Inr y)"

definition then_do :: "timeline_error + 'a \<Rightarrow> ('a \<Rightarrow> timeline_error + 'b) \<Rightarrow> timeline_error + 'b" where
  "then_do x f = (case x of Inl e \<Rightarrow> Inl e | Inr y \<Rightarrow> f y)"

text \<open>\<open>mp4Timeline\<close> after the box \<open>moov\<close> is read: the times of the keyframes.\<close>

definition movie_keys :: "'f floats \<Rightarrow> string \<Rightarrow> timeline_error + int list" where
  "movie_keys fl moov =
     then_do (require (child_box ''mvhd'' moov)) (\<lambda>mvhd.
     then_do (require (clock_scale mvhd)) (\<lambda>movie_scale.
     then_do (no_index (walk_boxes visit_trak moov None)) (\<lambda>video.
     then_do (require video) (\<lambda>video.
     then_do (require (descendant_box [''mdia'', ''mdhd''] video)) (\<lambda>mdhd.
     then_do (require (clock_scale mdhd)) (\<lambda>scale.
     then_do (require (descendant_box [''mdia'', ''minf'', ''stbl''] video)) (\<lambda>stbl.
     then_do (require (child_box ''stts'' stbl)) (\<lambda>stts.
     then_do (require (sample_runs False stts)) (\<lambda>durations.
     then_do (composition_offsets stbl) (\<lambda>offsets.
       (let samples = sum_list (map (int \<circ> sr_count) durations)
        in if samples = 0 \<or> 2000000 < samples then Inl TlIndex
           else then_do (require (key_samples samples stbl)) (\<lambda>key.
                then_do (require (edit_shift fl video movie_scale scale)) (\<lambda>shift.
                then_do (require (all_samples fl scale shift samples key durations
                   \<lparr>ss_dts = 0, ss_sample = 1, ss_left = int (sr_count (hd offsets)), ss_offsets = offsets, ss_times = []\<rparr>))
                  (\<lambda>s. Inr (ss_times s)))))))))))))))"

fun find_movie :: "index_media \<Rightarrow> nat \<Rightarrow> int \<Rightarrow> string indexing" where
  "find_movie m 0 off = ix_fail TlIndex"
| "find_movie m (Suc n) off =
     (if im_size m \<le> off then ix_fail TlIndex
      else (\<lambda>r. (case index_read m off (min 16 (im_size m - off)) r of
                   (Inl _, r) \<Rightarrow> (Inl TlIndex, r)
                 | (Inr b, r) \<Rightarrow>
                     if length b < 8 \<or> be32 b = 1 \<and> length b < 16 then (Inl TlIndex, r)
                     else (let header = (if be32 b = 1 then 16 else 8);
                               rest = word_of_int (im_size m - off) :: uint64;
                               sz = (if be32 b = 1 then be64 (drop 8 b) else if be32 b = 0 then rest else ucast (be32 b))
                           in if sz < word_of_int header \<or> rest < sz then (Inl TlIndex, r)
                              else if take 4 (drop 4 b) = ''moov'' then index_read m (off + header) (sint sz - header) r
                              else find_movie m n (off + sint sz) r))))"

definition mp4_timeline :: "'f floats \<Rightarrow> index_media \<Rightarrow> timeline indexing" where
  "mp4_timeline fl m =
     ix_bind (find_movie m 256 0) (\<lambda>moov. ix_bind (ix_lift (movie_keys fl moov)) (\<lambda>keys. index_timeline keys (im_run_time m)))"

text \<open>\<open>ReadTimeline\<close>\<close>

definition new_index_reader :: index_reader where
  "new_index_reader = \<lparr>ir_used = 0, ir_blocks = [], ir_opened = 0\<rparr>"

definition read_timeline :: "'f floats \<Rightarrow> index_media \<Rightarrow> (timeline_error + timeline) \<times> index_reader" where
  "read_timeline fl m =
     (if \<not> im_opens m \<or> im_size m \<le> 0 then (Inl TlSource, new_index_reader)
      else if to_lower (im_container m) = ''mkv'' then matroska_timeline fl m new_index_reader
      else if to_lower (im_container m) \<in> {''mp4'', ''mov''} then mp4_timeline fl m new_index_reader
      else (Inl TlIndex, new_index_reader))"


section \<open>Fragments\<close>

text \<open>What a worker reads from its own output; \<open>None\<close> is \<open>ErrWorker\<close>.\<close>

record movie_track =
  mv_id :: "32 word"
  mv_scale :: "32 word"
  mv_codec :: string
  mv_video :: bool

definition read_movie_track :: "string \<Rightarrow> movie_track option" where
  "read_movie_track b =
     (case (child_box ''tkhd'' b, descendant_box [''mdia'', ''mdhd''] b, descendant_box [''mdia'', ''hdlr''] b,
            descendant_box [''mdia'', ''minf'', ''stbl'', ''stsd''] b) of
        (Some tkhd, Some mdhd, Some handler, Some codec) \<Rightarrow>
          (let off = (if tkhd \<noteq> [] \<and> hd tkhd = CHR 0x01 then 20 else 12)
           in if length tkhd < 16 \<or> length tkhd < off + 4 \<or> length handler < 12 then None
              else (case clock_scale mdhd of
                      None \<Rightarrow> None
                    | Some scale \<Rightarrow>
                        Some \<lparr>mv_id = be32 (drop off tkhd), mv_scale = scale, mv_codec = codec,
                          mv_video = (take 4 (drop 8 handler) = ''vide'')\<rparr>))
      | _ \<Rightarrow> None)"

definition visit_movie_track :: "movie_track list \<Rightarrow> string \<Rightarrow> string \<Rightarrow> timeline_error + movie_track list" where
  "visit_movie_track ts k b =
     (if k \<noteq> ''trak'' then Inr ts
      else (case read_movie_track b of None \<Rightarrow> Inl TlIndex | Some t \<Rightarrow> Inr (ts @ [t])))"

definition movie_tracks :: "string \<Rightarrow> movie_track list option" where
  "movie_tracks moov =
     (case walk_boxes visit_movie_track moov [] of
        Inl _ \<Rightarrow> None
      | Inr ts \<Rightarrow> if length ts = 2 then Some ts else None)"

text \<open>Where the composition offset of the first sample stands in a box \<open>trun\<close>.\<close>

definition trun_offset :: "32 word \<Rightarrow> nat" where
  "trun_offset flags =
     8 + (if flags AND 1 \<noteq> 0 then 4 else 0) + (if flags AND 4 \<noteq> 0 then 4 else 0)
     + (if flags AND 0x100 \<noteq> 0 then 4 else 0) + (if flags AND 0x200 \<noteq> 0 then 4 else 0) + (if flags AND 0x400 \<noteq> 0 then 4 else 0)"

definition trun_shift :: "string \<Rightarrow> int option" where
  "trun_shift trun =
     (let flags = be32 trun AND 0xffffff; off = trun_offset flags; raw = be32 (drop off trun)
      in if flags AND 0x800 = 0 then Some 0
         else if length trun < off + 4 then None
         else Some (if hd trun = CHR 0x01 then sint raw else uint raw))"

definition fragment_base :: "32 word \<Rightarrow> string \<Rightarrow> int option" where
  "fragment_base scale tfdt =
     (if length tfdt < 8 \<or> hd tfdt = CHR 0x01 \<and> length tfdt < 12 then None
      else (let base = (if hd tfdt = CHR 0x01 then be64 (drop 4 tfdt) else ucast (be32 (drop 4 tfdt)))
            in if 72 * 3600 * ucast scale < base then None else Some (uint base)))"

definition visit_fragment ::
  "'f floats \<Rightarrow> movie_track \<Rightarrow> int option \<Rightarrow> string \<Rightarrow> string \<Rightarrow> timeline_error + int option" where
  "visit_fragment fl video pts k b =
     (if k \<noteq> ''traf'' then Inr pts
      else (case child_box ''tfhd'' b of
              None \<Rightarrow> Inl TlIndex
            | Some tfhd \<Rightarrow>
                if length tfhd < 8 then Inl TlIndex
                else if be32 (drop 4 tfhd) \<noteq> mv_id video then Inr pts
                else (case (child_box ''tfdt'' b, child_box ''trun'' b) of
                        (Some tfdt, Some trun) \<Rightarrow>
                          if length trun < 8 \<or> be32 (drop 4 trun) = 0 then Inl TlIndex
                          else (case (fragment_base (mv_scale video) tfdt, trun_shift trun) of
                                  (Some base, Some cts) \<Rightarrow>
                                    Inr (Some (fo_int64 fl (fo_div fl (fo_mul fl (fo_add fl (fo_int fl base) (fo_int fl cts))
                                      (fo_int fl ticks_per_second)) (fo_int fl (uint (mv_scale video))))))
                                | _ \<Rightarrow> Inl TlIndex)
                      | _ \<Rightarrow> Inl TlIndex)))"

definition fragment_time :: "'f floats \<Rightarrow> string \<Rightarrow> movie_track list \<Rightarrow> int option" where
  "fragment_time fl moof tracks =
     (case find mv_video (rev tracks) of
        None \<Rightarrow> None
      | Some video \<Rightarrow>
          if mv_scale video = 0 then None
          else (case walk_boxes (visit_fragment fl video) moof None of Inl _ \<Rightarrow> None | Inr pts \<Rightarrow> pts))"

end
