(* ===== verification/Timeline_Theorems.thy ===== *)
theory Timeline_Theorems
  imports Mp4_Timeline
begin

text \<open>
  What reading the timeline of a media costs and gives, whatever the file and its source are; and a file
  that makes it panic.
\<close>

section \<open>Cost\<close>

text \<open>A program that keeps the reader within its bytes.\<close>

definition frugal :: "'a indexing \<Rightarrow> bool" where
  "frugal f \<longleftrightarrow> (\<forall>r. ir_used r \<le> max_index_bytes \<longrightarrow> ir_used (snd (f r)) \<le> max_index_bytes)"

lemma frugal_return [simp, intro]: "frugal (ix_return x)"
  and frugal_fail [simp, intro]: "frugal (ix_fail e)"
  and frugal_lift [simp, intro]: "frugal (ix_lift y)"
  by (simp_all add: frugal_def ix_return_def ix_fail_def ix_lift_def)

lemma frugal_bind [intro]: "frugal f \<Longrightarrow> (\<And>x. frugal (g x)) \<Longrightarrow> frugal (ix_bind f g)"
  by (fastforce simp: frugal_def ix_bind_def split: prod.split sum.split)

lemma frugal_fetch [simp, intro]: "frugal (index_fetch m off n)"
  by (simp add: frugal_def index_fetch_def split: option.split)

lemma frugal_read [simp, intro]: "frugal (index_read m off n)"
proof (unfold frugal_def, intro allI impI)
  fix r :: index_reader assume r: "ir_used r \<le> max_index_bytes"
  have fetched: "ir_used r' \<le> max_index_bytes" if "index_fetch m x y r = (z, r')" for x y z r'
    using frugal_fetch [of m x y, unfolded frugal_def, rule_format, OF r] that by simp
  moreover have "ir_used (snd (index_fetch m x y r)) \<le> max_index_bytes" for x y
    using frugal_fetch [of m x y] r by (simp add: frugal_def)
  ultimately show "ir_used (snd (index_read m off n r)) \<le> max_index_bytes"
    using r by (auto simp: index_read_def Let_def split: option.split prod.split sum.split)
qed

lemma frugal_ebml [simp, intro]: "frugal (index_ebml m off)"
  by (auto simp: index_ebml_def)

lemma frugal_find_segment [simp, intro]: "frugal (find_index_segment m n off)"
  by (induction m n off rule: find_index_segment.induct) auto

lemma frugal_scan [simp, intro]: "frugal (scan_index_segment m segment n off found)"
proof (induction n arbitrary: off found)
  case (Suc n)
  then show ?case by (auto simp: Let_def intro!: frugal_bind)
qed simp

lemma frugal_after:
  "frugal f \<Longrightarrow> (\<And>x. frugal (g x)) \<Longrightarrow> (\<And>e. frugal (k e)) \<Longrightarrow>
     frugal (\<lambda>r. case f r of (Inl e, r) \<Rightarrow> k e r | (Inr x, r) \<Rightarrow> g x r)"
  by (fastforce simp: frugal_def split: prod.split sum.split)

lemma frugal_load [simp, intro]: "frugal (load_index m found i)"
proof (cases "map_of found i")
  case (Some p)
  have "frugal (\<lambda>r. case index_ebml m p r of (Inl _, r) \<Rightarrow> ix_fail TlIndex r
      | (Inr e, r) \<Rightarrow> (if ie_id e \<noteq> i then ix_fail TlIndex else index_read m (ie_start e) (ie_end e - ie_start e)) r)"
    by (rule frugal_after) auto
  moreover have "load_index m found i = (\<lambda>r. case index_ebml m p r of (Inl _, r) \<Rightarrow> ix_fail TlIndex r
      | (Inr e, r) \<Rightarrow> (if ie_id e \<noteq> i then ix_fail TlIndex else index_read m (ie_start e) (ie_end e - ie_start e)) r)"
    by (auto simp: load_index_def Some ix_fail_def fun_eq_iff split: prod.split sum.split)
  ultimately show ?thesis by simp
qed (simp add: load_index_def)

lemma frugal_timeline [simp, intro]: "frugal (index_timeline keys duration)"
  by (simp add: index_timeline_def)

lemma frugal_matroska: "frugal (matroska_timeline fl m)"
  unfolding matroska_timeline_def by (intro frugal_bind) (auto split: prod.split intro!: frugal_bind)

lemma frugal_find_movie: "frugal (find_movie m n off)"
proof (induction n arbitrary: off)
  case (Suc n)
  define g where "g = (\<lambda>b. if length b < 8 \<or> be32 b = 1 \<and> length b < 16 then ix_fail TlIndex
    else (let header = (if be32 b = 1 then 16 else 8);
              rest = word_of_int (im_size m - off) :: uint64;
              sz = (if be32 b = 1 then be64 (drop 8 b) else if be32 b = 0 then rest else ucast (be32 b))
          in if sz < word_of_int header \<or> rest < sz then ix_fail TlIndex
             else if take 4 (drop 4 b) = ''moov'' then index_read m (off + header) (sint sz - header)
             else find_movie m n (off + sint sz)))"
  have "frugal (g b)" for b using Suc.IH by (simp add: g_def Let_def)
  then have "frugal (\<lambda>r. case index_read m off (min 16 (im_size m - off)) r of (Inl _, r) \<Rightarrow> ix_fail TlIndex r | (Inr b, r) \<Rightarrow> g b r)"
    by (intro frugal_after) auto
  moreover have "find_movie m (Suc n) off = (if im_size m \<le> off then ix_fail TlIndex
      else (\<lambda>r. case index_read m off (min 16 (im_size m - off)) r of (Inl _, r) \<Rightarrow> ix_fail TlIndex r | (Inr b, r) \<Rightarrow> g b r))"
    by (auto simp: g_def ix_fail_def fun_eq_iff Let_def split: prod.split sum.split)
  ultimately show ?case by simp
qed simp

lemma frugal_mp4: "frugal (mp4_timeline fl m)"
  unfolding mp4_timeline_def by (auto intro!: frugal_bind frugal_find_movie)

section \<open>Result\<close>

lemma ix_bind_Inr: "fst (ix_bind f g r) = Inr t \<Longrightarrow> \<exists>x r'. fst (g x r') = Inr t"
  by (auto simp: ix_bind_def split: prod.splits sum.splits)

lemma index_timeline_made: "fst (index_timeline keys duration r) = Inr t \<Longrightarrow> make_timeline keys duration = Some t"
  by (simp add: index_timeline_def ix_lift_def split: option.splits)

lemma mp4_made: "fst (mp4_timeline fl m r) = Inr t \<Longrightarrow> \<exists>keys duration. make_timeline keys duration = Some t"
  unfolding mp4_timeline_def using ix_bind_Inr index_timeline_made by metis

lemma matroska_made: "fst (matroska_timeline fl m r) = Inr t \<Longrightarrow> \<exists>keys duration. make_timeline keys duration = Some t"
  unfolding matroska_timeline_def
  by (auto dest!: ix_bind_Inr index_timeline_made split: prod.splits if_splits simp: ix_fail_def) blast

text \<open>
  C15: Reading the timeline of a media takes at most 24 MiB of it, whatever the file and its source are, and a
  timeline that is read begins with zero, increases and has segments of at least four seconds but for the
  last.
\<close>

theorem timeline_of_media:
  "let (x, r) = read_timeline fl m
   in ir_used r \<le> max_index_bytes
      \<and> (case x of
           Inl _ \<Rightarrow> True
         | Inr t \<Rightarrow> 2 \<le> length (tl_cuts t) \<and> hd (tl_cuts t) = 0 \<and> sorted_wrt (<) (tl_cuts t)
                     \<and> successively (\<lambda>a b. a + segment_target \<le> b) (butlast (tl_cuts t)))"
proof -
  obtain x r where xr: "read_timeline fl m = (x, r)" by (cases "read_timeline fl m")
  have start: "ir_used new_index_reader \<le> max_index_bytes" by (simp add: new_index_reader_def max_index_bytes_def)
  have "ir_used (snd (read_timeline fl m)) \<le> max_index_bytes"
    using frugal_matroska [of fl m] frugal_mp4 [of fl m] start by (simp add: read_timeline_def frugal_def)
  moreover have "2 \<le> length (tl_cuts t) \<and> hd (tl_cuts t) = 0 \<and> sorted_wrt (<) (tl_cuts t)
      \<and> successively (\<lambda>a b. a + segment_target \<le> b) (butlast (tl_cuts t))" if "x = Inr t" for t
  proof -
    have "fst (read_timeline fl m) = Inr t" using xr that by simp
    then obtain keys duration where made: "make_timeline keys duration = Some t"
      using matroska_made mp4_made by (fastforce simp: read_timeline_def split: if_splits)
    obtain cuts where cuts: "tl_cuts t = cuts @ [duration]" "cuts \<noteq> []" "hd cuts = 0"
      "successively (\<lambda>a b. a + segment_target \<le> b) cuts" "\<forall>k \<in> set cuts. 0 \<le> k \<and> k < duration"
      using make_timeline_cuts [OF made] by metis
    have "1 \<le> length cuts" using cuts(2) by (cases cuts) simp_all
    then show ?thesis using cuts spaced_sorted [OF cuts(4)] by (simp add: sorted_wrt_append)
  qed
  ultimately show ?thesis by (simp add: xr split: sum.split)
qed

section \<open>A file\<close>

definition file_box :: "string \<Rightarrow> string \<Rightarrow> string" where
  "file_box kind b = [CHR 0x00, CHR 0x00, CHR 0x00, char_of (8 + length b)] @ kind @ b"

definition clock_box :: "string \<Rightarrow> string" where
  "clock_box kind = file_box kind (replicate 12 (CHR 0x00) @ [CHR 0x00, CHR 0x00, CHR 0x03, CHR 0xE8])"

text \<open>A movie with one sample, whose table of composition offsets is empty.\<close>

definition empty_ctts_movie :: string where
  "empty_ctts_movie =
     file_box ''moov'' (clock_box ''mvhd'' @ file_box ''trak'' (file_box ''mdia''
       (clock_box ''mdhd'' @ file_box ''hdlr'' (replicate 8 (CHR 0x00) @ ''vide'') @ file_box ''minf'' (file_box ''stbl''
         (file_box ''stts'' [CHR 0x00, CHR 0x00, CHR 0x00, CHR 0x00, CHR 0x00, CHR 0x00, CHR 0x00, CHR 0x01,
            CHR 0x00, CHR 0x00, CHR 0x00, CHR 0x01, CHR 0x00, CHR 0x00, CHR 0x03, CHR 0xE8]
          @ file_box ''ctts'' [])))))"

definition file_media :: "string \<Rightarrow> index_media" where
  "file_media b = \<lparr>im_size = int (length b), im_container = ''mp4'', im_run_time = 90000000, im_opens = True,
     im_body = (\<lambda>_ off n. Some (slice off n b))\<rparr>"

lemma empty_ctts_panics: "fst (read_timeline fl (file_media empty_ctts_movie)) = Inl TlPanic"
  by code_simp

end
