(* ===== verification/Transcode_Plan.thy ===== *)
theory Transcode_Plan
  imports Timeline_Index Gateway_Json
begin

text \<open>
  \<open>internal/transcode/plan.go\<close> with the data of \<open>types.go\<close>: whether a media source is converted for a client, and
  to what. A plan copies the video and copies the audio or converts it to AAC.
\<close>

section \<open>Data\<close>

record 'f media_stream =
  ms_index :: int
  ms_type :: string
  ms_codec :: string
  ms_profile :: string
  ms_level :: 'f
  ms_channels :: int
  ms_bit_rate :: int
  ms_sample_rate :: int
  ms_bit_depth :: int
  ms_width :: int
  ms_height :: int
  ms_ref_frames :: int
  ms_real_rate :: 'f
  ms_average_rate :: 'f
  ms_range :: string
  ms_tag :: string
  ms_interlaced :: bool
  ms_anamorphic :: bool
  ms_external :: bool
  ms_delivery :: string
  ms_delivery_url :: string

record 'f media_source =
  so_container :: string
  so_size :: int
  so_bitrate :: int
  so_run_time :: int
  so_streams :: "'f media_stream list"
  so_audio :: "int option"
  so_subtitle :: "int option"
  so_transcoding_url :: string
  so_transcoding :: bool

record play_condition =
  pc_condition :: string
  pc_property :: string
  pc_value :: string
  pc_required :: bool

record format_profile =
  fp_type :: string
  fp_container :: string
  fp_video :: string
  fp_audio :: string
  fp_context :: string
  fp_protocol :: string
  fp_channels :: string

record codec_profile =
  cd_type :: string
  cd_codec :: string
  cd_container :: string
  cd_conditions :: "play_condition list"
  cd_apply :: "play_condition list"

record container_profile =
  cn_type :: string
  cn_container :: string
  cn_conditions :: "play_condition list"

record play_profile =
  pp_direct :: "format_profile list"
  pp_transcoding :: "format_profile list"
  pp_codecs :: "codec_profile list"
  pp_containers :: "container_profile list"
  pp_bitrate :: int

record play_request =
  rq_profile :: play_profile
  rq_audio :: "int option"
  rq_subtitle :: "int option"
  rq_channels :: int
  rq_bitrate :: int
  rq_direct_play :: "bool option"
  rq_direct_stream :: "bool option"
  rq_transcoding :: "bool option"
  rq_copy_audio :: "bool option"
  rq_copy_video :: "bool option"

record 'f plan =
  pl_container :: string
  pl_video :: "'f media_stream"
  pl_audio :: "'f media_stream"
  pl_codec :: string
  pl_channels :: int
  pl_bitrate :: int
  pl_reason :: string

section \<open>Conditions\<close>

definition list_includes :: "string \<Rightarrow> string \<Rightarrow> bool" where
  "list_includes xs v \<longleftrightarrow> list_ex (\<lambda>x. trim_space x = to_lower v) (split_char (CHR '','') (to_lower xs))"

definition allowed_flag :: "bool option \<Rightarrow> bool" where
  "allowed_flag b \<longleftrightarrow> (case b of None \<Rightarrow> True | Some b \<Rightarrow> b)"

definition list_matches :: "string \<Rightarrow> string \<Rightarrow> bool" where
  "list_matches xs v \<longleftrightarrow> xs = [] \<or> list_includes xs v"

definition format_bool :: "bool \<Rightarrow> string" where
  "format_bool b = (if b then ''true'' else ''false'')"

text \<open>\<open>property\<close>: the value of a property and whether it is known.\<close>

definition numeric_property :: "'f floats \<Rightarrow> 'f media_source \<Rightarrow> 'f media_stream \<Rightarrow> string \<Rightarrow> 'f option" where
  "numeric_property fl src s name =
     (if name = ''AudioChannels'' then Some (fo_int fl (ms_channels s))
      else if name = ''AudioBitrate'' \<or> name = ''VideoBitrate'' then Some (fo_int fl (ms_bit_rate s))
      else if name = ''AudioSampleRate'' then Some (fo_int fl (ms_sample_rate s))
      else if name = ''AudioBitDepth'' \<or> name = ''VideoBitDepth'' then Some (fo_int fl (ms_bit_depth s))
      else if name = ''Width'' then Some (fo_int fl (ms_width s))
      else if name = ''Height'' then Some (fo_int fl (ms_height s))
      else if name = ''VideoLevel'' then Some (ms_level s)
      else if name = ''RefFrames'' then Some (fo_int fl (ms_ref_frames s))
      else if name = ''VideoFramerate'' then
        Some (if fo_le fl (ms_real_rate s) (fo_int fl 0) then ms_average_rate s else ms_real_rate s)
      else if name = ''NumVideoStreams'' \<or> name = ''NumAudioStreams'' then
        Some (fo_int fl (int (length (filter (\<lambda>v. ms_type v = (if name = ''NumAudioStreams'' then ''Audio'' else ''Video''))
                                        (so_streams src)))))
      else None)"

definition stream_property :: "'f floats \<Rightarrow> 'f media_source \<Rightarrow> 'f media_stream \<Rightarrow> string \<Rightarrow> string \<times> bool" where
  "stream_property fl src s name =
     (if name = ''AudioCodec'' \<or> name = ''VideoCodec'' then (ms_codec s, ms_codec s \<noteq> [])
      else if name = ''AudioProfile'' \<or> name = ''VideoProfile'' then (ms_profile s, ms_profile s \<noteq> [])
      else if name = ''VideoRange'' then (ms_range s, ms_range s \<noteq> [])
      else if name = ''VideoCodecTag'' then (ms_tag s, ms_tag s \<noteq> [])
      else if name = ''IsInterlaced'' then (format_bool (ms_interlaced s), True)
      else if name = ''IsAnamorphic'' then (format_bool (ms_anamorphic s), True)
      else if name = ''IsSecondaryAudio'' then
        (format_bool (case so_audio src of None \<Rightarrow> False | Some i \<Rightarrow> ms_index s \<noteq> i), True)
      else if name = ''IsExternalAudio'' then (format_bool (ms_external s), True)
      else (case numeric_property fl src s name of
              None \<Rightarrow> ([], False)
            | Some n \<Rightarrow> (fo_format fl n, fo_less fl (fo_int fl 0) n)))"

definition condition_holds :: "'f floats \<Rightarrow> 'f media_source \<Rightarrow> 'f media_stream \<Rightarrow> bool \<Rightarrow> play_condition \<Rightarrow> bool" where
  "condition_holds fl src s applying c \<longleftrightarrow>
     (case stream_property fl src s (pc_property c) of
        (v, known) \<Rightarrow>
          if \<not> known then \<not> (pc_required c \<or> applying)
          else if pc_condition c = ''Equals'' then equal_fold v (pc_value c)
          else if pc_condition c = ''NotEquals'' then \<not> equal_fold v (pc_value c)
          else if pc_condition c = ''EqualsAny'' then
            list_includes (map (\<lambda>x. if x = CHR ''|'' then CHR '','' else x) (pc_value c)) v
          else if pc_condition c = ''LessThanEqual'' \<or> pc_condition c = ''GreaterThanEqual'' then
            (case (fo_parse fl v, fo_parse fl (pc_value c)) of
               (Some x, Some y) \<Rightarrow>
                 \<not> (pc_condition c = ''LessThanEqual'' \<and> fo_less fl y x) \<and> \<not> (pc_condition c = ''GreaterThanEqual'' \<and> fo_less fl x y)
             | _ \<Rightarrow> False)
          else \<not> (pc_required c \<or> applying))"

definition conditions_match :: "'f floats \<Rightarrow> play_condition list \<Rightarrow> 'f media_source \<Rightarrow> 'f media_stream \<Rightarrow> bool \<Rightarrow> bool" where
  "conditions_match fl cs src s applying \<longleftrightarrow> list_all (condition_holds fl src s applying) cs"

definition compatible :: "'f floats \<Rightarrow> play_profile \<Rightarrow> 'f media_source \<Rightarrow> 'f media_stream \<Rightarrow> string \<Rightarrow> string \<Rightarrow> bool" where
  "compatible fl profile src s kind container \<longleftrightarrow>
     list_all (\<lambda>p. \<not> (cn_type p = ''Video'' \<and> list_matches (cn_container p) container
                        \<and> \<not> conditions_match fl (cn_conditions p) src s False)) (pp_containers profile)
     \<and> list_all (\<lambda>p. if cd_type p \<noteq> kind \<or> \<not> list_matches (cd_codec p) (ms_codec s) \<or> \<not> list_matches (cd_container p) container then True
                      else if cd_apply p \<noteq> [] \<and> \<not> conditions_match fl (cd_apply p) src s True then True
                      else conditions_match fl (cd_conditions p) src s False) (pp_codecs profile)"

section \<open>The plan\<close>

definition min_positive :: "int \<Rightarrow> int \<Rightarrow> int" where
  "min_positive a b = (if a \<le> 0 then b else if b \<le> 0 then a else min a b)"

definition copyable_video :: "string \<Rightarrow> string \<Rightarrow> bool" where
  "copyable_video codecs codec \<longleftrightarrow> list_matches codecs codec \<or> equal_fold codec ''h264'' \<or> equal_fold codec ''hevc''"

definition video_stream :: "'f media_source \<Rightarrow> 'f media_stream option" where
  "video_stream src = find (\<lambda>s. ms_type s = ''Video'') (so_streams src)"

definition pick_audio :: "'f media_source \<Rightarrow> int option \<Rightarrow> 'f media_stream \<Rightarrow> 'f media_stream option \<Rightarrow> 'f media_stream option" where
  "pick_audio src wanted s audio =
     (if ms_type s \<noteq> ''Audio'' \<or> ms_external s then audio
      else (case wanted of
              Some i \<Rightarrow> if ms_index s = i then Some s else audio
            | None \<Rightarrow> if audio = None \<or> so_audio src = Some (ms_index s) then Some s else audio))"

definition audio_stream :: "'f media_source \<Rightarrow> int option \<Rightarrow> 'f media_stream option" where
  "audio_stream src wanted = fold (pick_audio src wanted) (so_streams src) None"

text \<open>A profile under which the source is played as it is.\<close>

definition plays_directly :: "'f floats \<Rightarrow> play_request \<Rightarrow> 'f media_source \<Rightarrow> 'f media_stream \<Rightarrow> 'f media_stream \<Rightarrow> format_profile \<Rightarrow> bool" where
  "plays_directly fl req src video audio p \<longleftrightarrow>
     (let bitrate = (if so_bitrate src \<le> 0 then wrap64 (ms_bit_rate video + ms_bit_rate audio) else so_bitrate src);
          limit = min_positive (rq_bitrate req) (pp_bitrate (rq_profile req))
      in fp_type p = ''Video'' \<and> list_matches (fp_container p) (so_container src) \<and> list_matches (fp_video p) (ms_codec video)
         \<and> list_matches (fp_audio p) (ms_codec audio)
         \<and> (limit \<le> 0 \<or> 0 < bitrate \<and> bitrate \<le> limit)
         \<and> compatible fl (rq_profile req) src video ''Video'' (so_container src)
         \<and> compatible fl (rq_profile req) src audio ''VideoAudio'' (so_container src)
         \<and> allowed_flag (rq_copy_audio req) \<and> allowed_flag (rq_copy_video req))"

text \<open>A subtitle that is wanted must be delivered beside the media.\<close>

definition subtitle_kept :: "play_request \<Rightarrow> 'f media_source \<Rightarrow> bool" where
  "subtitle_kept req src \<longleftrightarrow>
     (case (case rq_subtitle req of None \<Rightarrow> so_subtitle src | Some i \<Rightarrow> Some i) of
        None \<Rightarrow> True
      | Some i \<Rightarrow>
          i < 0
          \<or> (case find (\<lambda>s. ms_type s = ''Subtitle'' \<and> ms_index s = i) (so_streams src) of
               None \<Rightarrow> False
             | Some s \<Rightarrow> ms_delivery s = ''External'' \<and> ms_delivery_url s \<noteq> []))"

definition plan_channels :: "play_request \<Rightarrow> format_profile \<Rightarrow> int \<Rightarrow> int" where
  "plan_channels req p channels =
     (let channels = (case parse_int64 (fp_channels p) of None \<Rightarrow> channels | Some n \<Rightarrow> if 0 < n then min channels n else channels);
          channels = (if 0 < rq_channels req then min channels (rq_channels req) else channels);
          channels = (if 6 < channels then 6 else channels)
      in if 2 < channels \<and> channels < 6 then 2 else channels)"

definition plan_container :: "format_profile \<Rightarrow> string option" where
  "plan_container p =
     (if list_includes (fp_container p) ''m4s'' \<or> list_includes (fp_container p) ''mp4'' then Some ''mp4''
      else if list_includes (fp_container p) ''ts'' then Some ''ts''
      else None)"

text \<open>The body of the loop over the profiles; \<open>None\<close> continues with the next.\<close>

definition profile_plan ::
  "'f floats \<Rightarrow> play_request \<Rightarrow> 'f media_source \<Rightarrow> 'f media_stream \<Rightarrow> 'f media_stream \<Rightarrow> format_profile \<Rightarrow> 'f plan option" where
  "profile_plan fl req src video audio p =
     (if fp_type p \<noteq> ''Video'' \<or> fp_context p \<noteq> [] \<and> fp_context p \<noteq> ''Streaming'' \<or> fp_protocol p \<noteq> ''hls''
         \<or> \<not> copyable_video (fp_video p) (ms_codec video) then None
      else (case plan_container p of
              None \<Rightarrow> None
            | Some container \<Rightarrow>
                (let out_video = video\<lparr>ms_index := 0\<rparr>;
                     out_audio = audio\<lparr>ms_index := 1\<rparr>;
                     out = src\<lparr>so_audio := Some 1, so_streams := [out_video, out_audio]\<rparr>;
                     channels = plan_channels req p (ms_channels audio)
                 in if \<not> compatible fl (rq_profile req) out out_video ''Video'' container \<or> ms_channels audio \<le> 0 then None
                    else if allowed_flag (rq_copy_audio req) \<and> list_matches (fp_audio p) (ms_codec audio) \<and> channels = ms_channels audio
                           \<and> compatible fl (rq_profile req) out out_audio ''VideoAudio'' container
                    then Some \<lparr>pl_container = container, pl_video = video, pl_audio = audio, pl_codec = ''copy'',
                           pl_channels = ms_channels audio, pl_bitrate = 0, pl_reason = ''remux_required''\<rparr>
                    else if \<not> list_includes (fp_audio p) ''aac'' then None
                    else (let bitrate = (if 2 < channels then 384000 else 192000);
                              new = out_audio\<lparr>ms_codec := ''aac'', ms_profile := ''LC'', ms_channels := channels, ms_bit_rate := bitrate,
                                ms_sample_rate := 48000\<rparr>
                          in if \<not> compatible fl (rq_profile req) (out\<lparr>so_streams := [out_video, new]\<rparr>) new ''VideoAudio'' container then None
                             else Some \<lparr>pl_container = container, pl_video = video, pl_audio = audio, pl_codec = ''aac'',
                                    pl_channels = channels, pl_bitrate = bitrate, pl_reason = ''audio_not_supported''\<rparr>))))"

fun first_plan ::
  "'f floats \<Rightarrow> play_request \<Rightarrow> 'f media_source \<Rightarrow> 'f media_stream \<Rightarrow> 'f media_stream \<Rightarrow> format_profile list \<Rightarrow> 'f plan option" where
  "first_plan fl req src video audio [] = None"
| "first_plan fl req src video audio (p # ps) =
     (case profile_plan fl req src video audio p of None \<Rightarrow> first_plan fl req src video audio ps | Some plan \<Rightarrow> Some plan)"

text \<open>\<open>Choose\<close>: \<open>None\<close> is \<open>ErrUnsupported\<close>, \<open>Some None\<close> the direct or the upstream's own path.\<close>

definition choose_plan :: "'f floats \<Rightarrow> 'f media_source \<Rightarrow> play_request \<Rightarrow> 'f plan option option" where
  "choose_plan fl src req =
     (case (video_stream src, audio_stream src (rq_audio req)) of
        (Some video, Some audio) \<Rightarrow>
          if pp_direct (rq_profile req) = [] \<and> pp_transcoding (rq_profile req) = [] then None
          else if (allowed_flag (rq_direct_play req) \<or> allowed_flag (rq_direct_stream req))
                 \<and> list_ex (plays_directly fl req src video audio) (pp_direct (rq_profile req)) then Some None
          else if so_transcoding src \<and> so_transcoding_url src \<noteq> [] \<and> allowed_flag (rq_transcoding req) then Some None
          else if \<not> allowed_flag (rq_transcoding req) \<or> \<not> allowed_flag (rq_copy_video req)
                 \<or> \<not> list_includes ''hevc,h264'' (ms_codec video) \<or> \<not> list_includes ''mkv,mp4,mov'' (so_container src)
                 \<or> so_size src \<le> 0 \<or> so_run_time src \<le> 0 then None
          else if \<not> subtitle_kept req src then None
          else map_option Some (first_plan fl req src video audio (pp_transcoding (rq_profile req)))
      | _ \<Rightarrow> None)"

section \<open>What a plan promises\<close>

lemma audio_stream_in: "audio_stream src wanted = Some s \<Longrightarrow>
  s \<in> set (so_streams src) \<and> ms_type s = ''Audio'' \<and> \<not> ms_external s \<and> (wanted = None \<or> wanted = Some (ms_index s))"
proof -
  have "fold (pick_audio src wanted) ss acc = Some s \<Longrightarrow>
      acc = Some s \<or> s \<in> set ss \<and> ms_type s = ''Audio'' \<and> \<not> ms_external s \<and> (wanted = None \<or> wanted = Some (ms_index s))" for ss acc
  proof (induction ss arbitrary: acc)
    case (Cons x ss)
    then have "pick_audio src wanted x acc = Some s
        \<or> s \<in> set ss \<and> ms_type s = ''Audio'' \<and> \<not> ms_external s \<and> (wanted = None \<or> wanted = Some (ms_index s))" by simp
    then show ?case by (auto simp: pick_audio_def split: if_splits option.splits)
  qed simp
  then show "audio_stream src wanted = Some s \<Longrightarrow> ?thesis" by (auto simp: audio_stream_def)
qed

lemma plan_channels_range:
  assumes "0 < n"
  shows "plan_channels req p n \<in> {1, 2, 6}" and "plan_channels req p n \<le> n"
    and "0 < rq_channels req \<Longrightarrow> plan_channels req p n \<le> rq_channels req"
proof -
  define a where "a = (case parse_int64 (fp_channels p) of None \<Rightarrow> n | Some m \<Rightarrow> if 0 < m then min n m else n)"
  define b where "b = (if 0 < rq_channels req then min a (rq_channels req) else a)"
  have a: "0 < a" "a \<le> n" using assms by (auto simp: a_def split: option.split)
  have b: "0 < b" "b \<le> n" "0 < rq_channels req \<Longrightarrow> b \<le> rq_channels req" using a by (auto simp: b_def)
  have p: "plan_channels req p n = (let c = (if 6 < b then 6 else b) in if 2 < c \<and> c < 6 then 2 else c)"
    by (simp add: plan_channels_def a_def [symmetric] b_def [symmetric] Let_def)
  show "plan_channels req p n \<in> {1, 2, 6}" "plan_channels req p n \<le> n"
    "0 < rq_channels req \<Longrightarrow> plan_channels req p n \<le> rq_channels req"
    using b by (auto simp: p Let_def)
qed

lemma profile_plan_ok:
  assumes "profile_plan fl req src video audio p = Some plan"
  shows "pl_video plan = video \<and> pl_audio plan = audio \<and> pl_container plan \<in> {''mp4'', ''ts''} \<and> pl_channels plan \<in> {1, 2, 6}
    \<and> pl_channels plan \<le> ms_channels audio \<and> (0 < rq_channels req \<longrightarrow> pl_channels plan \<le> rq_channels req)
    \<and> (pl_codec plan = ''copy'' \<and> pl_channels plan = ms_channels audio \<and> allowed_flag (rq_copy_audio req)
       \<or> pl_codec plan = ''aac'' \<and> list_includes (fp_audio p) ''aac'')"
proof -
  define ch where "ch = plan_channels req p (ms_channels audio)"
  obtain c b where c: "plan_container p = Some c" and pos: "0 < ms_channels audio"
    and made: "plan = \<lparr>pl_container = c, pl_video = video, pl_audio = audio, pl_codec = ''copy'', pl_channels = ms_channels audio,
        pl_bitrate = 0, pl_reason = ''remux_required''\<rparr> \<and> ch = ms_channels audio \<and> allowed_flag (rq_copy_audio req)
      \<or> plan = \<lparr>pl_container = c, pl_video = video, pl_audio = audio, pl_codec = ''aac'', pl_channels = ch, pl_bitrate = b,
        pl_reason = ''audio_not_supported''\<rparr> \<and> list_includes (fp_audio p) ''aac''"
    using assms unfolding profile_plan_def Let_def ch_def [symmetric]
    by (simp split: if_split_asm option.split_asm) blast+
  have "c \<in> {''mp4'', ''ts''}" using c by (auto simp: plan_container_def split: if_splits)
  then show ?thesis using made plan_channels_range [OF pos, of req p, folded ch_def] by auto
qed

lemma first_plan_in: "first_plan fl req src video audio ps = Some plan \<Longrightarrow> \<exists>p \<in> set ps. profile_plan fl req src video audio p = Some plan"
  by (induction ps) (auto split: option.splits)

text \<open>
  C13: A plan never encodes video: it copies the source's first video stream, which is H.264 or HEVC in a file of
  known size and length. Its audio is an internal stream of the source, the requested one if one was
  requested, copied if that is allowed and else converted to AAC, with one, two or six channels and no more
  than the stream has or the client asked for. There is no plan without leave to convert and to copy the
  video, nor for a wanted subtitle that is not delivered beside the media.
\<close>

theorem plan_copies_video:
  assumes "choose_plan fl src req = Some (Some plan)"
  shows "video_stream src = Some (pl_video plan) \<and> list_includes ''hevc,h264'' (ms_codec (pl_video plan))
    \<and> 0 < so_size src \<and> 0 < so_run_time src
    \<and> list_ex (\<lambda>s. s = pl_audio plan \<and> ms_type s = ''Audio'' \<and> \<not> ms_external s) (so_streams src)
    \<and> rq_audio req \<in> {None, Some (ms_index (pl_audio plan))}
    \<and> pl_container plan \<in> {''mp4'', ''ts''} \<and> pl_channels plan \<in> {1, 2, 6} \<and> pl_channels plan \<le> ms_channels (pl_audio plan)
    \<and> (rq_channels req \<le> 0 \<or> pl_channels plan \<le> rq_channels req)
    \<and> (pl_codec plan = ''copy'' \<and> pl_channels plan = ms_channels (pl_audio plan) \<and> allowed_flag (rq_copy_audio req)
       \<or> pl_codec plan = ''aac'')
    \<and> allowed_flag (rq_transcoding req) \<and> allowed_flag (rq_copy_video req) \<and> subtitle_kept req src"
proof -
  obtain video audio where v: "video_stream src = Some video" and a: "audio_stream src (rq_audio req) = Some audio"
    and plan: "first_plan fl req src video audio (pp_transcoding (rq_profile req)) = Some plan"
    and guards: "allowed_flag (rq_transcoding req)" "allowed_flag (rq_copy_video req)" "list_includes ''hevc,h264'' (ms_codec video)"
      "0 < so_size src" "0 < so_run_time src" "subtitle_kept req src"
    using assms by (auto simp: choose_plan_def split: option.splits if_splits)
  obtain p where "profile_plan fl req src video audio p = Some plan" using first_plan_in [OF plan] by blast
  note made = profile_plan_ok [OF this]
  have "list_ex (\<lambda>s. s = pl_audio plan \<and> ms_type s = ''Audio'' \<and> \<not> ms_external s) (so_streams src)"
    using audio_stream_in [OF a] made by (auto simp: list_ex_iff)
  moreover have "rq_audio req \<in> {None, Some (ms_index (pl_audio plan))}" using audio_stream_in [OF a] made by auto
  ultimately show ?thesis using v guards made by auto
qed

section \<open>A plan\<close>

definition whole_numbers :: "int floats" where
  "whole_numbers = \<lparr>fo_int = id, fo_single = uint, fo_double = uint, fo_add = (+), fo_sub = (-), fo_mul = (*), fo_div = (div),
     fo_abs = abs, fo_less = (<), fo_le = (\<le>), fo_inf = (\<lambda>_. False), fo_nan = (\<lambda>_. False), fo_int64 = id,
     fo_parse = parse_int64, fo_format = (\<lambda>_. ''1'')\<rparr>"

definition sample_stream :: "int \<Rightarrow> string \<Rightarrow> string \<Rightarrow> int \<Rightarrow> int media_stream" where
  "sample_stream i kind codec channels =
     \<lparr>ms_index = i, ms_type = kind, ms_codec = codec, ms_profile = [], ms_level = 0, ms_channels = channels, ms_bit_rate = 0,
      ms_sample_rate = 0, ms_bit_depth = 0, ms_width = 0, ms_height = 0, ms_ref_frames = 0, ms_real_rate = 0, ms_average_rate = 0,
      ms_range = [], ms_tag = [], ms_interlaced = False, ms_anamorphic = False, ms_external = False, ms_delivery = [],
      ms_delivery_url = []\<rparr>"

text \<open>HEVC with TrueHD in eight channels, for a client that plays HLS with AAC.\<close>

definition sample_source :: "int media_source" where
  "sample_source = \<lparr>so_container = ''mkv'', so_size = 1000, so_bitrate = 0, so_run_time = 90000000,
     so_streams = [sample_stream 0 ''Video'' ''hevc'' 0, sample_stream 1 ''Audio'' ''truehd'' 8], so_audio = Some 1, so_subtitle = None,
     so_transcoding_url = [], so_transcoding = False\<rparr>"

definition sample_request :: play_request where
  "sample_request = \<lparr>rq_profile = \<lparr>pp_direct = [], pp_transcoding = [\<lparr>fp_type = ''Video'', fp_container = ''ts'', fp_video = ''h264'',
       fp_audio = ''mp3,aac'', fp_context = ''Streaming'', fp_protocol = ''hls'', fp_channels = ''6''\<rparr>], pp_codecs = [],
       pp_containers = [], pp_bitrate = 0\<rparr>,
     rq_audio = None, rq_subtitle = None, rq_channels = 0, rq_bitrate = 0, rq_direct_play = None, rq_direct_stream = None,
     rq_transcoding = None, rq_copy_audio = None, rq_copy_video = None\<rparr>"

lemma sample_plan:
  "choose_plan whole_numbers sample_source sample_request =
     Some (Some \<lparr>pl_container = ''ts'', pl_video = sample_stream 0 ''Video'' ''hevc'' 0, pl_audio = sample_stream 1 ''Audio'' ''truehd'' 8,
       pl_codec = ''aac'', pl_channels = 6, pl_bitrate = 384000, pl_reason = ''audio_not_supported''\<rparr>)"
  by code_simp

theorem plan_copies_video_witness: "list_includes ''hevc,h264'' ''hevc''"
  using plan_copies_video [OF sample_plan] by (simp add: sample_stream_def)

end
