(* ===== verification/Spec2Isabelle.thy ===== *)
theory Spec2Isabelle
  imports Path_Policy Route_Policy Admin_Session Rate_Limit Playback_Guard Media_Buffer_Theorems
    Artifact_Catalog Source_Cache_Theorems Upstream_Auth_Theorems Personal_Query_Theorems
    Response_Theorems Media_Copy_Theorems Anonymous_Image_Theorems Upstream_Path Gate_Theorems
    Upgrade_Retry Registration Subtitle_Sample Subtitle_Manager_Theorems Timeline_Theorems Transcode_Plan
begin

text \<open>
  This library verifies emby-auth-gateway, a proxy in front of one Emby server. Clients log in at the
  gateway and get tokens of the gateway; the gateway holds the only account of the server (the
  upstream), forwards what it allows with that account's token, rewrites identifiers both ways and
  keeps playback positions and favourites of its users itself.

  \<^bold>\<open>How a request flows.\<close> \<open>Server.ServeHTTP\<close> (\<open>internal/gateway/server.go\<close>; \<open>serve_http\<close>, theory
  \<open>Proxy_Pipeline\<close>) checks the path, asks the path policies and chooses a handler. Login, logout, users
  and public information answer themselves (\<open>Request_Gate\<close>); images of items without credentials go to
  \<open>Anonymous_Images\<close>; the rest goes to \<open>handleProxy\<close> (\<open>handle_proxy\<close>): it finds the session of the token
  (\<open>Credentials\<close>, \<open>Resource_Cookies\<close>), refuses foreign tokens in the query, lets the handlers of personal
  data answer (\<open>Playback_Handlers\<close>, \<open>Personal_Query\<close>), ensures a token of the upstream
  (\<open>Upstream_Auth\<close>), selects an endpoint (\<open>Route_Policy\<close>), builds the request (\<open>Outgoing_Request\<close>),
  retries once after a confirmed expiry, falls back for refused downloads (\<open>Download_Fallback\<close>) and
  writes the answer (\<open>Proxy_Response\<close>, \<open>Response_Rewrite\<close>, \<open>Media_Copy\<close>). The state that survives a
  request is the record \<open>gateway\<close>: the store, failed logins, suppressed playbacks, the check of the
  upstream for images.

  \<^bold>\<open>The theories and the code\<close> (paths under \<open>src/internal/\<close>; the functions keep their names in lower case).

  \<^item> \<open>Prelude\<close>: Go's strings, slices, maps, times and 64-bit integers, and the lemmas and simp sets the
    other theories share.
  \<^item> \<open>Path_Policy\<close>, \<open>Route_Policy\<close>: \<open>pathpolicy\<close>, \<open>routepolicy\<close>: patterns, the order of policies, decisions,
    the rule that selects an endpoint.
  \<^item> \<open>Admin_Session\<close>, \<open>Rate_Limit\<close>: \<open>adminauth/session.go\<close>, \<open>adminauth/rate.go\<close>: sessions and tickets of
    the administrators, attempts per window; the operations on the stores as runs of an event list.
  \<^item> \<open>Playback_Guard\<close>: \<open>gateway/playback_guard.go\<close>: playbacks refused by the upstream.
  \<^item> \<open>Media_Buffer\<close>, \<open>Media_Buffer_Safety\<close>, \<open>Media_Buffer_Theorems\<close>: \<open>gateway/media_buffer.go\<close>: the pool of
    32 KiB chunks: targets, waiters, leases, counters. A panic is a value, reachable states are
    inductive, the invariant \<open>mb_inv\<close> is kept by every operation.
  \<^item> \<open>Eviction\<close>, \<open>Artifact_Catalog\<close>: \<open>transcode/cache.go\<close>; \<open>Source_Cache\<close> and its two theories:
    \<open>sourcecache\<close>: byte budgets, leases, reservations, flights shared by readers. \<open>Eviction\<close> is the
    locale of a cache that makes room; both caches interpret it.
  \<^item> \<open>Gateway_Json\<close>, \<open>Playback_State\<close>, \<open>Personal_Lists\<close>, \<open>Playback_Handlers\<close>, \<open>Personal_Query\<close> with
    \<open>Playback_Theorems\<close>, \<open>Store_Theorems\<close>, \<open>Personal_Query_Theorems\<close>: \<open>gateway/userdata.go\<close>,
    \<open>personalquery.go\<close> and the parts of \<open>server.go\<close> on playback. The handlers use the store through the
    record \<open>playback_ops\<close>; the laws they need are the assumptions of locales, interpreted on the
    in-memory store.
  \<^item> \<open>Gateway_Types\<close>, \<open>Memory_Store\<close>: \<open>gateway/types.go\<close>, \<open>memory_store.go\<close>: topology of the upstream, users,
    sessions and the store. Each operation is one critical section of its mutex.
  \<^item> \<open>Upstream_Auth\<close>, \<open>Upstream_Auth_Theorems\<close>: \<open>gateway/upstream_auth.go\<close> and \<open>refreshAfterUnauthorized\<close>: the
    flights of a login, the compare and swap of its result, which tokens are logged out.
  \<^item> \<open>Http_Values\<close>, \<open>Http_Url\<close>: what the code uses of \<open>net/url\<close>, \<open>net/http\<close> and \<open>path\<close>: queries, headers,
    escapes, URLs, \<open>path.Clean\<close>.
  \<^item> \<open>Credentials\<close>, \<open>Resource_Cookies\<close>, \<open>Outgoing_Request\<close>, \<open>Response_Rewrite\<close> with \<open>Credential_Theorems\<close> and
    \<open>Response_Theorems\<close>: \<open>gateway/auth_header.go\<close>, \<open>credential_query.go\<close>, \<open>token.go\<close>, \<open>resource_cookie.go\<close>,
    \<open>proxy_redirect.go\<close>, \<open>response_url.go\<close>, rewriting in \<open>server.go\<close>.
  \<^item> \<open>Gateway_Requests\<close>, \<open>Request_Gate\<close>, \<open>Proxy_Response\<close>, \<open>Download_Fallback\<close>, \<open>Proxy_Pipeline\<close>,
    \<open>Upgrade_Retry\<close>, \<open>Registration\<close>: \<open>gateway/server.go\<close>, \<open>server_info.go\<close>, \<open>proxy_failure.go\<close>,
    \<open>missing_content_type.go\<close>, \<open>download_fallback.go\<close>, \<open>upgrade_retry.go\<close>, \<open>registration.go\<close>.
  \<^item> \<open>Media_Copy\<close>, \<open>Anonymous_Images\<close> with \<open>Media_Copy_Theorems\<close> and \<open>Anonymous_Image_Theorems\<close>:
    \<open>gateway/media_copy.go\<close>, \<open>media_deadline.go\<close>, the check of images, \<open>anonymous_image.go\<close>,
    \<open>anonymous_image_namespace.go\<close>.
  \<^item> \<open>Ebml\<close>, \<open>Index_Reader\<close>, \<open>Matroska\<close>, \<open>Subtitle_Extraction\<close> with \<open>Reader_Theorems\<close>,
    \<open>Subtitle_Theorems\<close> and \<open>Subtitle_Sample\<close>: \<open>subtitleindex\<close>: integers and elements of a Matroska file, the
    reader of pages and its limits, tracks, cues and packets, the WebVTT document. \<open>reader_invariant\<close> is
    the locale of what a reader keeps, interpreted for its limits and for its pages.
  \<^item> \<open>Subtitle_Text\<close>, \<open>Subtitle_Store\<close>, \<open>Subtitle_Manager\<close> with \<open>Subtitle_Steps\<close> and
    \<open>Subtitle_Manager_Theorems\<close>: \<open>subtitles\<close>: text documents, the files of prepared subtitles (again an
    interpretation of \<open>safe_eviction\<close> of \<open>Eviction\<close>), and the manager of jobs, viewers, grants and readers.
    \<open>captions_step\<close> is the relation of its critical sections, in any order.
  \<^item> \<open>Timeline\<close>, \<open>Timeline_Index\<close>, \<open>Mp4_Timeline\<close> with \<open>Timeline_Theorems\<close>: \<open>transcode/timeline.go\<close>,
    \<open>mp4.go\<close>: the seek index of a Matroska or MP4 file, the segments cut at its keyframes, the boxes of the
    fragments a worker writes. \<open>Transcode_Plan\<close>: \<open>transcode/plan.go\<close>: what is converted for which client.
  \<^item> \<open>Account_Frame\<close>, \<open>Gate_Invariant\<close>, \<open>Gate_Theorems\<close>, \<open>Upstream_Path\<close>: no code; what the composed gateway
    keeps. \<open>framed_store\<close> is the locale of a part of the store that personal requests leave alone,
    \<open>kept_property\<close> that of a property every whole request keeps; both are interpreted on the
    in-memory store.

  \<^bold>\<open>What is shown.\<close> For the gate: nothing leaves for the upstream without a clean path, an allowing
  policy and an active session (or an image route without credentials), the path judged is the path
  sent, a denied request changes nothing but the audit log, a logout is final over any sequence of
  later requests, logins open one session and lock out after five failures. For credentials: the
  upstream never sees the client's, the client never sees the upstream's, redirects to other origins
  take none along. For the stores and caches: invariants over all reachable states, budgets, no
  eviction of what is in use, no lost or shared chunk, isolation of users. For subtitles: what is extracted is
  a WebVTT document read from the bytes of the file within the limits, and it is opened only under a grant
  that was checked. For conversion: a plan copies the video and converts audio only with leave, a timeline
  is read from at most 24 MiB of the file, and every instant has its segment. For lists, copies and
  rewriting: exactness against a reference. For the login at the upstream: at most two flights, no token
  in use logged out, no failed token returned.

  \<^bold>\<open>How the code is read.\<close> Strings are byte lists. Maps are association lists without duplicate keys,
  ordered as they were built; where the code ranges over a map the theorems do not depend on the order.
  \<open>int\<close> and \<open>int64\<close> are integers with wrap-around (\<open>wrap64\<close>) where it can matter, counters of the guard
  and the packed words of the pool are \<open>64 word\<close>. Times are nanoseconds, 0 is Go's zero time, and every
  reading of the clock is an argument. Errors are sums or options; an abort of the connection
  (\<open>panic(http.ErrAbortHandler)\<close>) is the answer \<open>None\<close>, or a body marked incomplete. A mutex makes one
  operation one step; what others do between the critical sections of one request is an argument
  (\<open>px_meanwhile\<close>, the flights, \<open>le_before_cas\<close>), and the theorems say what they assume of it.

  \<^bold>\<open>Arguments.\<close> SHA-256, random bytes, \<open>encoding/json\<close> on bytes, \<open>mime\<close>, number formatting, \<open>float64\<close> arithmetic (the record
  \<open>floats\<close>), the answers of the upstream and the scan of a bracketed IPv6 host are arguments of the definitions that use them.

  \<^bold>\<open>Bounds and termination.\<close> A caller of the upstream login joins at most two flights
  (\<open>two_flights_suffice\<close>), so \<open>ensured\<close> always has a result. Lists scan at most 2000 items in batches of
  100 and look identifiers up in batches of 200, as the code does; the functions terminate by these
  counts. The pages of episodes are read with fuel 20, the 2000 items of the code's limit in pages of 100. The
  headers of a media file are searched as often as the code does (4 and 32 elements, 256 boxes). All
  other recursion is on lists or by a measure; no definition is partial.

  \<^bold>\<open>Not modelled.\<close> Pools and goroutines that move media through the buffer (\<open>media_buffer_copy.go\<close>,
  \<open>media_buffer_live.go\<close>): the pool they use and the copy without it are. Subtitles and audio conversion of
  a request and ffmpeg jobs (\<open>web_subtitles.go\<close>, \<open>audio_*.go\<close>, \<open>transcode\<close> without its cache,
  plans and seek index): they
  serve the first-party web client and end in processes and their output files. Telemetry and log events: they change nothing a client or the
  upstream sees. The PocketBase store and the control plane (\<open>pbstore\<close>, \<open>pbschema\<close>, \<open>pbsetup\<close>,
  \<open>controlplane\<close>): SQL and records of a third-party database; the store with the same interface that is
  not a database is modelled. The admin API, the static web client, flags and wiring: HTTP and file
  system. \<open>httputil.ReverseProxy\<close> carries upgraded connections; the model ends with the request it is
  given and the one retry of its transport.
\<close>

end
